(* ===== verification/Prelude.thy ===== *)
theory Prelude
  imports Main "HOL-Library.Word" "HOL-Library.Sublist"
begin

text \<open>
  Shared vocabulary of the development: the machine-integer types of the C code, the ways a
  C function can stop the process (libparc assertions and traps), the result type that carries
  them, the collections of rewrite rules the component theories fill, and the generic facts on
  lists, words and bits that several components use.
\<close>

unbundle bit_operations_syntax

section \<open>Types\<close>

type_synonym u8 = "8 word"
type_synonym u16 = "16 word"
type_synonym u32 = "32 word"
type_synonym u64 = "64 word"

text \<open>
  \<open>Ticks\<close> is \<^verbatim>\<open>uint64_t\<close> in the source (\<^verbatim>\<open>hicn/core/ticks.h\<close>); connection identifiers and
  the elements of a \<open>NumberSet\<close> are \<^verbatim>\<open>unsigned\<close>.
\<close>

type_synonym ticks = u64
type_synonym connid = u32

text \<open>
  A libparc assertion (\<^verbatim>\<open>parcAssertTrue\<close>, \<^verbatim>\<open>parcAssertFalse\<close>, \<^verbatim>\<open>parcAssertNotNull\<close>) or trap
  (\<^verbatim>\<open>parcTrap...\<close>) that fires ends the process, as do a null dereference and a division by zero: the operation has no result state. \<open>MemoryFault\<close> stands for the use
  of freed memory and for accesses outside an array. The value \<open>Inl e\<close> records which kind of stop it was.
\<close>

datatype abort = AssertFailed | TrapNotImplemented | TrapUnexpectedState | NullDereference | DivisionByZero | MemoryFault

type_synonym 'a res = "abort + 'a"

definition bind_res :: "'a res \<Rightarrow> ('a \<Rightarrow> 'b res) \<Rightarrow> 'b res" where
  "bind_res m f = (case m of Inl e \<Rightarrow> Inl e | Inr x \<Rightarrow> f x)"

lemma bind_res_simps [simp]:
  "bind_res (Inl e) f = Inl e"
  "bind_res (Inr x) f = f x"
  by (simp_all add: bind_res_def)

lemma bind_res_eq_Inr [simp]:
  "bind_res m f = Inr y \<longleftrightarrow> (\<exists>x. m = Inr x \<and> f x = Inr y)"
  by (cases m) auto

text \<open>A loop over a list whose body may stop.\<close>

fun fold_res :: "('s \<Rightarrow> 'a \<Rightarrow> 's res) \<Rightarrow> 's \<Rightarrow> 'a list \<Rightarrow> 's res" where
  "fold_res f st [] = Inr st"
| "fold_res f st (x # xs) = bind_res (f st x) (\<lambda>st. fold_res f st xs)"

section \<open>Collections\<close>

named_theorems nb_bits_simps \<open>bit-list views of the operations on name bit vectors\<close>
named_theorems ns_abs \<open>abstraction of the number-set operations to sets\<close>

section \<open>Lists\<close>

lemma prefix_length_eqD: "prefix xs ys \<Longrightarrow> length xs = length ys \<Longrightarrow> xs = ys"
  by (auto simp: prefix_def)

lemma prefix_take_iff: "prefix xs ys \<longleftrightarrow> length xs \<le> length ys \<and> take (length xs) ys = xs"
  by (metis append_eq_conv_conj append_take_drop_id prefix_def prefix_length_le)

lemma prefix_snoc_iff_nth:
  "prefix (xs @ [x]) ys \<longleftrightarrow> prefix xs ys \<and> length xs < length ys \<and> ys ! length xs = x"
proof -
  have "prefix (xs @ [x]) ys \<longleftrightarrow> length xs < length ys \<and> take (Suc (length xs)) ys = xs @ [x]"
    by (auto simp: prefix_take_iff)
  then show ?thesis
    by (auto simp: prefix_take_iff take_Suc_conv_app_nth)
qed

lemma prefix_snoc_diverge:
  assumes "prefix (ps @ [\<not> b]) xs" "prefix (ps @ [b]) ks"
  shows "\<not> prefix xs ks" "\<not> prefix ks xs"
proof -
  show "\<not> prefix xs ks"
    using prefix_order.trans[OF assms(1), of ks] assms(2) by (auto simp: prefix_snoc_iff_nth)
  show "\<not> prefix ks xs"
    using prefix_order.trans[OF assms(2), of xs] assms(1) by (auto simp: prefix_snoc_iff_nth)
qed

lemma length_lcp_eq_iff:
  "length (longest_common_prefix xs ys) = length ys \<longleftrightarrow> prefix ys xs"
  by (metis longest_common_prefix_max_prefix longest_common_prefix_prefix1
      longest_common_prefix_prefix2 prefix_length_eqD prefix_length_le prefix_order.eq_iff
      prefix_order.order_refl)

lemma length_lcp_le1: "length (longest_common_prefix xs ys) \<le> length xs"
  by (simp add: longest_common_prefix_prefix1 prefix_length_le)

lemma length_lcp_le2: "length (longest_common_prefix xs ys) \<le> length ys"
  by (simp add: longest_common_prefix_prefix2 prefix_length_le)

lemma length_lcpI:
  assumes "n \<le> length xs" "n \<le> length ys" "\<And>i. i < n \<Longrightarrow> xs ! i = ys ! i"
    and "n < length xs \<Longrightarrow> n < length ys \<Longrightarrow> xs ! n \<noteq> ys ! n"
  shows "length (longest_common_prefix xs ys) = n"
  using assms
proof (induction xs ys arbitrary: n rule: longest_common_prefix.induct)
  case (1 x xs y ys)
  show ?case
  proof (cases n)
    case 0
    with "1.prems"(4) show ?thesis by auto
  next
    case (Suc m)
    with "1.prems"(3)[of 0] have "x = y" by simp
    moreover have "length (longest_common_prefix xs ys) = m"
      using "1.prems" Suc \<open>x = y\<close>
      by (intro "1.IH") (auto dest: spec[of _ "Suc _"], metis Suc_less_eq nth_Cons_Suc)
    ultimately show ?thesis using Suc by simp
  qed
qed auto

lemma lcp_differ:
  assumes "n = length (longest_common_prefix xs ys)" "n < length xs" "n < length ys"
  shows "xs ! n \<noteq> ys ! n"
  using assms by (induction xs ys arbitrary: n rule: longest_common_prefix.induct) auto

lemma lcp_commute: "longest_common_prefix xs ys = longest_common_prefix ys xs"
  by (induction xs ys rule: longest_common_prefix.induct) auto

lemma lcp_take1: "take (length (longest_common_prefix xs ys)) xs = longest_common_prefix xs ys"
  using longest_common_prefix_prefix1 prefix_take_iff by blast

lemma lcp_take2: "take (length (longest_common_prefix xs ys)) ys = longest_common_prefix xs ys"
  using longest_common_prefix_prefix2 prefix_take_iff by blast

text \<open>Deleting an element by moving the last one into its place.\<close>

lemma butlast_move_last:
  assumes "distinct xs" "i < length xs"
  shows "distinct (butlast (xs[i := last xs]))" "set (butlast (xs[i := last xs])) = set xs - {xs ! i}"
proof -
  obtain zs z where xs: "xs = zs @ [z]" using assms(2) by (cases xs rule: rev_cases) auto
  then have "butlast (xs[i := last xs]) = (if i < length zs then zs[i := z] else zs)"
    using assms(2) by (auto simp: list_update_append less_Suc_eq split: nat.split)
  then show "distinct (butlast (xs[i := last xs]))" "set (butlast (xs[i := last xs])) = set xs - {xs ! i}"
    using assms xs by (auto simp: distinct_list_update set_update_distinct nth_append less_Suc_eq)
qed

lemma upt_split: "i < n \<Longrightarrow> [0..<n] = [0..<i] @ i # [Suc i..<n]"
  by (metis less_imp_add_positive upt_add_eq_append upt_conv_Cons zero_le)

section \<open>Words\<close>

lemma word_xor_eq_0_iff [simp]: "(a XOR b = 0) = (a = (b :: 'a::len word))"
  by (auto simp: bit_eq_iff bit_xor_iff)

lemma unat_of_nat_u8: "n < 256 \<Longrightarrow> unat (of_nat n :: u8) = n"
  by (simp add: unsigned_of_nat take_bit_nat_eq_self)

lemma unat_inc_less: "(e :: 'a::len word) < r \<Longrightarrow> unat (e + 1) = unat e + 1"
proof -
  assume "e < r"
  then have "unat e + 1 \<le> unat r" by (simp add: word_less_nat_alt)
  moreover have "unat r < 2 ^ LENGTH('a)" by (rule unsigned_less)
  ultimately have "unat e + 1 < 2 ^ LENGTH('a)" by (rule le_less_trans)
  then show ?thesis using unat_add_lem[of e 1] by simp
qed

end
