(* ===== verification/NameBitvector.thy ===== *)
theory NameBitvector
  imports Prelude
begin

text \<open>
  Name bit vectors (\<^verbatim>\<open>hicn-light/src/hicn/core/nameBitvector.c\<close>): a 128-bit name prefix in two
  64-bit words, most significant bit first, with a prefix length and the IP version it came
  from. The operations are the word-level ones of the source. Their meaning is given by two
  views: the bit \<open>nb_bit\<close> at a position, and the list \<open>nb_bits\<close> of the first \<^verbatim>\<open>len\<close> bits. The
  lemmas show that \<open>nameBitvector_testBit\<close> and \<open>nameBitvector_lpm\<close> compute on that list, that
  \<open>nameBitvector_clear\<close> with \<open>nameBitvector_setLen\<close> truncates it, and that the conversions from
  and to IP addresses are inverse to each other.
\<close>

section \<open>Model\<close>

record NameBitvector =
  bits0 :: u64
  bits1 :: u64
  nb_len :: u8
  IPversion :: u8

definition BV_SIZE :: nat where "BV_SIZE = 64"
definition WIDTH :: nat where "WIDTH = 128"
definition IPv6_TYPE :: u8 where "IPv6_TYPE = 6"
definition IPv4_TYPE :: u8 where "IPv4_TYPE = 4"

text \<open>\<^verbatim>\<open>bits[i]\<close> of the two-element array, read and written.\<close>

definition nb_word :: "NameBitvector \<Rightarrow> nat \<Rightarrow> u64" where
  "nb_word nb i = (if i = 0 then bits0 nb else bits1 nb)"

definition nb_set_word :: "NameBitvector \<Rightarrow> nat \<Rightarrow> u64 \<Rightarrow> NameBitvector" where
  "nb_set_word nb i w = (if i = 0 then nb\<lparr>bits0 := w\<rparr> else nb\<lparr>bits1 := w\<rparr>)"

text \<open>
  \<^verbatim>\<open>addr\<close> is the \<^verbatim>\<open>s_addr\<close> word as the host reads it; its four bytes are taken apart and put
  back together in the opposite order, in the upper half of \<^verbatim>\<open>bits[0]\<close>.
\<close>

definition nameBitvector_CreateFromInAddr :: "u32 \<Rightarrow> u8 \<Rightarrow> NameBitvector" where
  "nameBitvector_CreateFromInAddr addr len =
     (let addr_1 = ucast (drop_bit 24 (addr AND 0xff000000)) :: u8;
          addr_2 = ucast (drop_bit 16 (addr AND 0x00ff0000)) :: u8;
          addr_3 = ucast (drop_bit 8 (addr AND 0x0000ff00)) :: u8;
          addr_4 = ucast (addr AND 0x000000ff) :: u8;
          w = push_bit 8 (0 OR ucast addr_4) :: u64;
          w = push_bit 8 (w OR ucast addr_3);
          w = push_bit 8 (w OR ucast addr_2);
          w = w OR ucast addr_1;
          w = push_bit 32 w
      in \<lparr>bits0 = w, bits1 = 0, nb_len = len, IPversion = IPv4_TYPE\<rparr>)"

text \<open>The two loops of \<^verbatim>\<open>CreateFromIn6Addr\<close> shift eight bytes into a word each.\<close>

definition shift_in_bytes :: "u8 list \<Rightarrow> u64" where
  "shift_in_bytes bs = foldl (\<lambda>w b. push_bit 8 w OR ucast b) 0 bs"

definition nameBitvector_CreateFromIn6Addr :: "u8 list \<Rightarrow> u8 \<Rightarrow> NameBitvector" where
  "nameBitvector_CreateFromIn6Addr s6_addr len =
     \<lparr>bits0 = shift_in_bytes (take 8 s6_addr),
      bits1 = shift_in_bytes (take 8 (drop 8 s6_addr)),
      nb_len = len, IPversion = IPv6_TYPE\<rparr>"

text \<open>
  An \<^verbatim>\<open>Address\<close> of the forwarder: an IPv4 socket address (its \<^verbatim>\<open>s_addr\<close>), an IPv6 one (its
  sixteen bytes), or one of the other kinds (\<^verbatim>\<open>ADDR_LINK\<close>, \<^verbatim>\<open>ADDR_IFACE\<close>, \<^verbatim>\<open>ADDR_UNIX\<close>).
\<close>

datatype Address = ADDR_INET u32 | ADDR_INET6 "u8 list" | ADDR_OTHER

fun nameBitvector_CreateFromAddress :: "Address \<Rightarrow> u8 \<Rightarrow> NameBitvector res" where
  "nameBitvector_CreateFromAddress (ADDR_INET s_addr) len =
     Inr (nameBitvector_CreateFromInAddr s_addr len)"
| "nameBitvector_CreateFromAddress (ADDR_INET6 s6_addr) len =
     Inr (nameBitvector_CreateFromIn6Addr s6_addr len)"
| "nameBitvector_CreateFromAddress ADDR_OTHER len = Inl TrapNotImplemented"

text \<open>
  \<^verbatim>\<open>nameBitvector_Copy\<close> clears the new structure and copies \<^verbatim>\<open>bits\<close> and \<^verbatim>\<open>len\<close>; it does not
  copy \<^verbatim>\<open>IPversion\<close>, which stays zero.
\<close>

definition nameBitvector_Copy :: "NameBitvector \<Rightarrow> NameBitvector" where
  "nameBitvector_Copy original =
     \<lparr>bits0 = bits0 original, bits1 = bits1 original, nb_len = nb_len original, IPversion = 0\<rparr>"

definition nameBitvector_GetLength :: "NameBitvector \<Rightarrow> nat" where
  "nameBitvector_GetLength name = unat (nb_len name)"

definition nameBitvector_Equals :: "NameBitvector \<Rightarrow> NameBitvector \<Rightarrow> bool" where
  "nameBitvector_Equals a b =
     (if bits0 a = bits0 b \<and> bits1 a = bits1 b \<and> nb_len a = nb_len b then True else False)"

definition nameBitvector_Compare :: "NameBitvector option \<Rightarrow> NameBitvector option \<Rightarrow> int" where
  "nameBitvector_Compare pa pb =
     (case (pa, pb) of
        (None, None) \<Rightarrow> 0
      | (None, Some b) \<Rightarrow> -1
      | (Some a, None) \<Rightarrow> 1
      | (Some a, Some b) \<Rightarrow>
          if bits0 a < bits0 b then -1 else if bits0 a > bits0 b then 1
          else if bits1 a < bits1 b then -1 else if bits1 a > bits1 b then 1
          else if nb_len a < nb_len b then -1 else if nb_len a > nb_len b then 1
          else 0)"

text \<open>\<open>None\<close> is the return value \<^verbatim>\<open>-1\<close>; \<open>Some b\<close> is \<^verbatim>\<open>0\<close> with \<^verbatim>\<open>*bit = b\<close>.\<close>

definition nameBitvector_testBit :: "NameBitvector \<Rightarrow> nat \<Rightarrow> bool option" where
  "nameBitvector_testBit name pos =
     (if pos \<ge> nameBitvector_GetLength name \<or> pos > WIDTH - 1 then None
      else Some (nb_word name (pos div BV_SIZE) AND
                 push_bit ((BV_SIZE - 1) - (pos mod BV_SIZE)) 1 \<noteq> 0))"

definition diff_bit_log2 :: "u64 \<Rightarrow> u64" where
  "diff_bit_log2 val =
     (let result = 0;
          (val, result) = (if val AND 0xFFFFFFFF00000000 \<noteq> 0 then (drop_bit 32 val, result OR 32) else (val, result));
          (val, result) = (if val AND 0xFFFF0000 \<noteq> 0 then (drop_bit 16 val, result OR 16) else (val, result));
          (val, result) = (if val AND 0xFF00 \<noteq> 0 then (drop_bit 8 val, result OR 8) else (val, result));
          (val, result) = (if val AND 0xF0 \<noteq> 0 then (drop_bit 4 val, result OR 4) else (val, result));
          (val, result) = (if val AND 0xC \<noteq> 0 then (drop_bit 2 val, result OR 2) else (val, result));
          (val, result) = (if val AND 0x2 \<noteq> 0 then (drop_bit 1 val, result OR 1) else (val, result))
      in result)"

definition nameBitvector_lpm :: "NameBitvector \<Rightarrow> NameBitvector \<Rightarrow> nat" where
  "nameBitvector_lpm a b =
     (let limit = (if nb_len a < nb_len b then unat (nb_len a) else unat (nb_len b));
          diff = bits0 a XOR bits0 b;
          prefix_len =
            (if diff \<noteq> 0 then BV_SIZE - (unat (diff_bit_log2 diff) + 1)
             else (let diff = bits1 a XOR bits1 b in
                   if diff \<noteq> 0 then BV_SIZE + (BV_SIZE - (unat (diff_bit_log2 diff) + 1))
                   else BV_SIZE + BV_SIZE))
      in if prefix_len < limit then prefix_len else limit)"

definition nameBitvector_clear_bit :: "NameBitvector \<Rightarrow> nat \<Rightarrow> NameBitvector" where
  "nameBitvector_clear_bit a pos =
     nb_set_word a (pos div BV_SIZE)
       (nb_word a (pos div BV_SIZE) AND NOT (push_bit ((BV_SIZE - 1) - (pos mod BV_SIZE)) 1))"

definition nameBitvector_clear :: "NameBitvector \<Rightarrow> nat \<Rightarrow> NameBitvector" where
  "nameBitvector_clear a start_from = foldl nameBitvector_clear_bit a [start_from..<WIDTH]"

definition nameBitvector_setLen :: "NameBitvector \<Rightarrow> nat \<Rightarrow> NameBitvector" where
  "nameBitvector_setLen name len = name\<lparr>nb_len := of_nat len\<rparr>"

text \<open>\<^verbatim>\<open>ip_prefix_t\<close>: the family, the address bytes of that family and the prefix length.\<close>

datatype ip_address = IP4 u32 | IP6 "u8 list"

record ip_prefix =
  ipp_address :: ip_address
  ipp_len :: u8

definition IPV4_ADDR_LEN_BITS :: u8 where "IPV4_ADDR_LEN_BITS = 32"

definition nb_to_s_addr :: "NameBitvector \<Rightarrow> u32" where
  "nb_to_s_addr name =
     (let tmp_addr = ucast (drop_bit 32 (bits0 name)) :: u32;
          addr_1 = ucast (drop_bit 24 (tmp_addr AND 0xff000000)) :: u8;
          addr_2 = ucast (drop_bit 16 (tmp_addr AND 0x00ff0000)) :: u8;
          addr_3 = ucast (drop_bit 8 (tmp_addr AND 0x0000ff00)) :: u8;
          addr_4 = ucast (tmp_addr AND 0x000000ff) :: u8;
          s = push_bit 8 (0 OR ucast addr_4) :: u32;
          s = push_bit 8 (s OR ucast addr_3);
          s = push_bit 8 (s OR ucast addr_2)
      in s OR ucast addr_1)"

definition nb_to_s6_addr :: "NameBitvector \<Rightarrow> u8 list" where
  "nb_to_s6_addr name =
     map (\<lambda>i. ucast (drop_bit (8 * (7 - i)) (bits0 name) AND 0xFF)) [0..<8] @
     map (\<lambda>x. ucast (drop_bit (8 * (7 - x)) (bits1 name) AND 0xFF)) [0..<8]"

definition nameBitvector_ToIPAddress :: "NameBitvector \<Rightarrow> ip_prefix" where
  "nameBitvector_ToIPAddress name =
     (if IPversion name = IPv4_TYPE
      then \<lparr>ipp_address = IP4 (nb_to_s_addr name), ipp_len = IPV4_ADDR_LEN_BITS\<rparr>
      else \<lparr>ipp_address = IP6 (nb_to_s6_addr name), ipp_len = nb_len name\<rparr>)"

definition nameBitvector_ToAddress :: "NameBitvector \<Rightarrow> Address" where
  "nameBitvector_ToAddress name =
     (if IPversion name = IPv4_TYPE then ADDR_INET (nb_to_s_addr name)
      else ADDR_INET6 (nb_to_s6_addr name))"

section \<open>Views\<close>

text \<open>The bit at position \<open>i\<close>, counted from the most significant bit of \<^verbatim>\<open>bits[0]\<close>.\<close>

definition nb_bit :: "NameBitvector \<Rightarrow> nat \<Rightarrow> bool" where
  "nb_bit nb i = (if i < 64 then bit (bits0 nb) (63 - i) else bit (bits1 nb) (127 - i))"

definition nb_bits :: "NameBitvector \<Rightarrow> bool list" where
  "nb_bits nb = map (nb_bit nb) [0..<unat (nb_len nb)]"

text \<open>A name is valid when its prefix length fits the 128 bits.\<close>

definition nb_valid :: "NameBitvector \<Rightarrow> bool" where
  "nb_valid nb \<longleftrightarrow> unat (nb_len nb) \<le> WIDTH"

lemma length_nb_bits [simp]: "length (nb_bits nb) = unat (nb_len nb)"
  by (simp add: nb_bits_def)

lemma nth_nb_bits [simp]: "i < unat (nb_len nb) \<Longrightarrow> nb_bits nb ! i = nb_bit nb i"
  by (simp add: nb_bits_def)

lemma nameBitvector_GetLength_bits [nb_bits_simps]:
  "nameBitvector_GetLength nb = length (nb_bits nb)"
  by (simp add: nameBitvector_GetLength_def)

section \<open>Bit tests\<close>

lemma nb_word_bit:
  "i < 128 \<Longrightarrow> bit (nb_word nb (i div 64)) (63 - i mod 64) = nb_bit nb i"
  by (auto simp: nb_word_def nb_bit_def div_eq_0_iff le_mod_geq)

lemma nameBitvector_testBit_bits [nb_bits_simps]:
  assumes "nb_valid nb"
  shows "nameBitvector_testBit nb pos =
    (if pos < length (nb_bits nb) then Some (nb_bits nb ! pos) else None)"
  using assms nb_word_bit[of pos nb]
  by (auto simp: nameBitvector_testBit_def nb_valid_def WIDTH_def BV_SIZE_def
      nameBitvector_GetLength_def and_exp_eq_0_iff_not_bit)

section \<open>The highest differing bit\<close>

text \<open>\<open>is_msb w r\<close>: bit \<open>r\<close> is the highest bit set in \<open>w\<close>.\<close>

definition is_msb :: "'a::len word \<Rightarrow> nat \<Rightarrow> bool" where
  "is_msb w r \<longleftrightarrow> bit w r \<and> (\<forall>j>r. \<not> bit w j)"

text \<open>One halving step of \<open>diff_bit_log2\<close>, on a value whose bits from \<open>2 * k\<close> up are clear.\<close>

lemma and_high_mask_eq_0:
  fixes w :: "'a::len word"
  assumes "\<forall>j\<ge>2 * k. \<not> bit w j"
  shows "w AND push_bit k (mask k) = 0 \<longleftrightarrow> (\<forall>j\<ge>k. \<not> bit w j)"
proof
  assume z: "w AND push_bit k (mask k) = 0"
  show "\<forall>j\<ge>k. \<not> bit w j"
  proof (intro allI impI notI)
    fix j assume j: "k \<le> j" "bit w j"
    then have "j < 2 * k" using assms not_le by blast
    moreover have "j < LENGTH('a)" using j(2) by (rule bit_imp_le_length)
    ultimately have "bit (w AND push_bit k (mask k)) j"
      using j by (simp add: bit_and_iff bit_push_bit_iff bit_mask_iff, arith)
    with z show False by simp
  qed
next
  assume "\<forall>j\<ge>k. \<not> bit w j"
  then show "w AND push_bit k (mask k) = 0"
    by (intro bit_eqI) (auto simp: bit_and_iff bit_push_bit_iff)
qed

definition msb_step :: "nat \<Rightarrow> u64 \<times> nat \<Rightarrow> u64 \<times> nat" where
  "msb_step k vr = (if fst vr AND push_bit k (mask k) \<noteq> 0 then (drop_bit k (fst vr), snd vr + k) else vr)"

lemma msb_step:
  assumes "\<forall>j\<ge>2 * k. \<not> bit v j" "msb_step k (v, r) = (v', r')" "is_msb v m"
  shows "\<forall>j\<ge>k. \<not> bit v' j" "\<exists>m'. is_msb v' m' \<and> r' + m' = r + m"
proof -
  note zero = and_high_mask_eq_0[OF assms(1)]
  show "\<forall>j\<ge>k. \<not> bit v' j"
    using assms(1,2) zero by (auto simp: msb_step_def bit_drop_bit_eq mult_2 split: if_splits)
  show "\<exists>m'. is_msb v' m' \<and> r' + m' = r + m"
  proof (cases "v AND push_bit k (mask k) = 0")
    case False
    with zero assms(3) have "k \<le> m" by (auto simp: is_msb_def) (metis le_less_linear order.trans)
    with assms(2,3) False show ?thesis
      by (intro exI[of _ "m - k"]) (auto simp: msb_step_def is_msb_def bit_drop_bit_eq)
  next
    case True
    with assms(2,3) show ?thesis by (intro exI[of _ m]) (simp add: msb_step_def)
  qed
qed

lemma msb_exists: "(w :: 'a::len word) \<noteq> 0 \<Longrightarrow> \<exists>r<LENGTH('a). is_msb w r"
proof -
  assume "w \<noteq> 0"
  then obtain n where n: "bit w n" by (auto simp: bit_eq_iff)
  define r where "r = Max {n. bit w n}"
  have fin: "finite {n. bit w n}"
    by (rule finite_subset[of _ "{..<LENGTH('a)}"]) (auto dest: bit_imp_le_length)
  have "bit w r" unfolding r_def using Max_in[OF fin] n by blast
  moreover have "\<not> bit w j" if "r < j" for j
    using Max_ge[OF fin, of j] that unfolding r_def by (metis mem_Collect_eq not_le)
  ultimately show ?thesis
    by (intro exI[of _ r]) (auto simp: is_msb_def dest: bit_imp_le_length)
qed

lemma high_masks:
  "(0xFFFFFFFF00000000 :: u64) = push_bit 32 (mask 32)" "(0xFFFF0000 :: u64) = push_bit 16 (mask 16)"
  "(0xFF00 :: u64) = push_bit 8 (mask 8)" "(0xF0 :: u64) = push_bit 4 (mask 4)"
  "(0xC :: u64) = push_bit 2 (mask 2)" "(0x2 :: u64) = push_bit 1 (mask 1)"
  by (simp_all add: mask_eq_exp_minus_1)

lemma diff_bit_log2_steps:
  "unat (diff_bit_log2 v) =
     snd (msb_step 1 (msb_step 2 (msb_step 4 (msb_step 8 (msb_step 16 (msb_step 32 (v, 0)))))))"
  unfolding diff_bit_log2_def high_masks msb_step_def Let_def
  by (simp split del: if_split) (simp split: if_split)

lemma diff_bit_log2_msb:
  assumes "is_msb v m"
  shows "unat (diff_bit_log2 v) = m"
proof -
  obtain v1 r1 where s1: "msb_step 32 (v, 0) = (v1, r1)" by fastforce
  obtain v2 r2 where s2: "msb_step 16 (v1, r1) = (v2, r2)" by fastforce
  obtain v3 r3 where s3: "msb_step 8 (v2, r2) = (v3, r3)" by fastforce
  obtain v4 r4 where s4: "msb_step 4 (v3, r3) = (v4, r4)" by fastforce
  obtain v5 r5 where s5: "msb_step 2 (v4, r4) = (v5, r5)" by fastforce
  obtain v6 r6 where s6: "msb_step 1 (v5, r5) = (v6, r6)" by fastforce
  have b0: "\<forall>j\<ge>2 * 32. \<not> bit v j" using bit_imp_le_length[of v] by (auto simp: not_less[symmetric])
  from msb_step[OF b0 s1 assms] obtain m1 where b1: "\<forall>j\<ge>2 * 16. \<not> bit v1 j"
    and m1: "is_msb v1 m1" "r1 + m1 = m" by auto
  from msb_step[OF b1 s2 m1(1)] obtain m2 where b2: "\<forall>j\<ge>2 * 8. \<not> bit v2 j"
    and m2: "is_msb v2 m2" "r2 + m2 = m" using m1 by auto
  from msb_step[OF b2 s3 m2(1)] obtain m3 where b3: "\<forall>j\<ge>2 * 4. \<not> bit v3 j"
    and m3: "is_msb v3 m3" "r3 + m3 = m" using m2 by auto
  from msb_step[OF b3 s4 m3(1)] obtain m4 where b4: "\<forall>j\<ge>2 * 2. \<not> bit v4 j"
    and m4: "is_msb v4 m4" "r4 + m4 = m" using m3 by auto
  from msb_step[OF b4 s5 m4(1)] obtain m5 where b5: "\<forall>j\<ge>2 * 1. \<not> bit v5 j"
    and m5: "is_msb v5 m5" "r5 + m5 = m" using m4 by auto
  from msb_step[OF b5 s6 m5(1)] obtain m6 where "\<forall>j\<ge>1. \<not> bit v6 j"
    and m6: "is_msb v6 m6" "r6 + m6 = m" using m5 by auto
  then have "m6 = 0" by (auto simp: is_msb_def) (metis One_nat_def Suc_leI neq0_conv)
  with m6 s1 s2 s3 s4 s5 s6 show ?thesis by (simp add: diff_bit_log2_steps)
qed

section \<open>Longest common prefix\<close>

text \<open>The number of leading bits two words share, as \<open>nameBitvector_lpm\<close> computes it.\<close>

lemma word_diff_prefix:
  fixes a b :: u64
  assumes "a XOR b \<noteq> 0"
  defines "n \<equiv> 64 - (unat (diff_bit_log2 (a XOR b)) + 1)"
  shows "n < 64" "bit a (63 - n) \<noteq> bit b (63 - n)" "\<And>i. i < n \<Longrightarrow> bit a (63 - i) = bit b (63 - i)"
proof -
  from msb_exists[OF assms(1)] obtain r where r: "r < 64" "is_msb (a XOR b) r" by auto
  then have n: "n = 63 - r" using diff_bit_log2_msb[of "a XOR b" r] by (simp add: n_def)
  from r(2) have at: "bit a r \<noteq> bit b r" and above: "\<And>j. j > r \<Longrightarrow> bit a j = bit b j"
    by (auto simp: is_msb_def bit_xor_iff)
  show "n < 64" using n by simp
  show "bit a (63 - n) \<noteq> bit b (63 - n)" using at n r(1) by simp
  show "bit a (63 - i) = bit b (63 - i)" if "i < n" for i using above[of "63 - i"] that n r(1) by simp
qed

definition nb_common :: "NameBitvector \<Rightarrow> NameBitvector \<Rightarrow> nat" where
  "nb_common a b =
     (if bits0 a XOR bits0 b \<noteq> 0 then 64 - (unat (diff_bit_log2 (bits0 a XOR bits0 b)) + 1)
      else if bits1 a XOR bits1 b \<noteq> 0 then 64 + (64 - (unat (diff_bit_log2 (bits1 a XOR bits1 b)) + 1))
      else 128)"

lemma nb_common_le: "nb_common a b \<le> 128"
  using word_diff_prefix(1) by (auto simp: nb_common_def)

lemma nb_common_agree:
  assumes "i < nb_common a b"
  shows "nb_bit a i = nb_bit b i"
proof (cases "bits0 a XOR bits0 b \<noteq> 0")
  case True
  then have "i < 64 - (unat (diff_bit_log2 (bits0 a XOR bits0 b)) + 1)"
    using assms by (simp add: nb_common_def)
  with word_diff_prefix(1,3)[OF True] show ?thesis by (simp add: nb_bit_def)
next
  case False
  then have eq0: "bits0 a = bits0 b" by simp
  show ?thesis
  proof (cases "i < 64 \<or> bits1 a XOR bits1 b = 0")
    case True
    with eq0 show ?thesis by (auto simp: nb_bit_def)
  next
    case F: False
    then have "i - 64 < 64 - (unat (diff_bit_log2 (bits1 a XOR bits1 b)) + 1)" "64 \<le> i"
      using assms False by (auto simp: nb_common_def)
    with word_diff_prefix(3)[of "bits1 a" "bits1 b" "i - 64"] F show ?thesis by (simp add: nb_bit_def)
  qed
qed

lemma nb_common_differ:
  assumes "nb_common a b < 128"
  shows "nb_bit a (nb_common a b) \<noteq> nb_bit b (nb_common a b)"
proof (cases "bits0 a XOR bits0 b \<noteq> 0")
  case True
  with word_diff_prefix(1,2)[OF True] show ?thesis by (simp add: nb_bit_def nb_common_def)
next
  case False
  with assms have "bits1 a XOR bits1 b \<noteq> 0" by (auto simp: nb_common_def)
  with False word_diff_prefix(1,2)[of "bits1 a" "bits1 b"] show ?thesis
    by (simp add: nb_bit_def nb_common_def)
qed

lemma nameBitvector_lpm_common:
  "nameBitvector_lpm a b = min (nb_common a b) (min (unat (nb_len a)) (unat (nb_len b)))"
  by (auto simp: nameBitvector_lpm_def nb_common_def Let_def BV_SIZE_def min_def word_less_nat_alt)

lemma nameBitvector_lpm_bits [nb_bits_simps]:
  assumes "nb_valid a" "nb_valid b"
  shows "nameBitvector_lpm a b = length (longest_common_prefix (nb_bits a) (nb_bits b))"
proof (rule sym, rule length_lcpI)
  let ?n = "nameBitvector_lpm a b"
  show "?n \<le> length (nb_bits a)" "?n \<le> length (nb_bits b)" by (simp_all add: nameBitvector_lpm_common)
  show "nb_bits a ! i = nb_bits b ! i" if "i < ?n" for i
    using that nb_common_agree by (simp add: nameBitvector_lpm_common)
  assume "?n < length (nb_bits a)" "?n < length (nb_bits b)"
  moreover from this have "?n = nb_common a b" by (auto simp: nameBitvector_lpm_common min_def split: if_splits)
  ultimately show "nb_bits a ! ?n \<noteq> nb_bits b ! ?n"
    using nb_common_differ assms by (simp add: nb_valid_def WIDTH_def)
qed

section \<open>Truncation\<close>

lemma nb_bit_clear_bit:
  assumes "pos < 128" "i < 128"
  shows "nb_bit (nameBitvector_clear_bit nb pos) i = (nb_bit nb i \<and> i \<noteq> pos)"
  using assms
  by (auto simp: nameBitvector_clear_bit_def nb_set_word_def nb_word_def nb_bit_def BV_SIZE_def
      bit_and_iff bit_not_iff bit_exp_iff div_eq_0_iff le_mod_geq)

lemma clear_bits_frame [simp]:
  "nb_len (foldl nameBitvector_clear_bit nb ps) = nb_len nb"
  "IPversion (foldl nameBitvector_clear_bit nb ps) = IPversion nb"
  by (induction ps arbitrary: nb) (auto simp: nameBitvector_clear_bit_def nb_set_word_def)

lemma nb_bit_clear:
  assumes "i < 128"
  shows "nb_bit (nameBitvector_clear nb start) i = (nb_bit nb i \<and> i < start)"
proof -
  have "nb_bit (foldl nameBitvector_clear_bit nb ps) i = (nb_bit nb i \<and> i \<notin> set ps)"
    if "set ps \<subseteq> {..<128}" for ps
    using that assms by (induction ps arbitrary: nb) (auto simp: nb_bit_clear_bit)
  moreover have "set [start..<WIDTH] \<subseteq> {..<128}" by (auto simp: WIDTH_def)
  ultimately have "nb_bit (nameBitvector_clear nb start) i = (nb_bit nb i \<and> i \<notin> set [start..<WIDTH])"
    unfolding nameBitvector_clear_def by blast
  with assms show ?thesis by (auto simp: WIDTH_def)
qed

lemma nb_bit_frame [simp]:
  "nb_bit (nameBitvector_setLen nb n) i = nb_bit nb i"
  "nb_bit (nameBitvector_Copy nb) i = nb_bit nb i"
  by (simp_all add: nameBitvector_setLen_def nameBitvector_Copy_def nb_bit_def)

lemma nb_len_setLen [simp]: "nb_len (nameBitvector_setLen nb n) = of_nat n"
  by (simp add: nameBitvector_setLen_def)

text \<open>The inner prefix of \<^verbatim>\<open>fib_Add\<close>: copy, clear from \<open>n\<close> on, set the length to \<open>n\<close>.\<close>

lemma nb_bits_truncate [nb_bits_simps]:
  assumes "n \<le> unat (nb_len nb)" "nb_valid nb"
  shows "nb_bits (nameBitvector_setLen (nameBitvector_clear (nameBitvector_Copy nb) n) n) =
    take n (nb_bits nb)"
proof (rule nth_equalityI)
  have n: "unat (of_nat n :: u8) = n" "n \<le> 128"
    using assms by (auto simp: nb_valid_def WIDTH_def unat_of_nat_u8)
  then show "length (nb_bits (nameBitvector_setLen (nameBitvector_clear (nameBitvector_Copy nb) n) n)) =
      length (take n (nb_bits nb))"
    using assms by simp
  fix i assume "i < length (nb_bits (nameBitvector_setLen (nameBitvector_clear (nameBitvector_Copy nb) n) n))"
  then have i: "i < n" using n by simp
  then have "nb_bit (nameBitvector_clear (nameBitvector_Copy nb) n) i = nb_bit (nameBitvector_Copy nb) i"
    using n(2) by (simp add: nb_bit_clear)
  then show "nb_bits (nameBitvector_setLen (nameBitvector_clear (nameBitvector_Copy nb) n) n) ! i =
      take n (nb_bits nb) ! i"
    using i n assms by simp
qed

lemma nb_valid_truncate:
  "n \<le> 128 \<Longrightarrow> nb_valid (nameBitvector_setLen (nameBitvector_clear (nameBitvector_Copy nb) n) n)"
  by (simp add: nb_valid_def nameBitvector_setLen_def WIDTH_def unat_of_nat_u8)

section \<open>Addresses\<close>

text \<open>The byte masks of the source, and the bit of a byte put at an offset.\<close>

lemma byte_masks:
  "(0xff000000 :: u32) = push_bit 24 (mask 8)" "(0x00ff0000 :: u32) = push_bit 16 (mask 8)"
  "(0x0000ff00 :: u32) = push_bit 8 (mask 8)" "(0x000000ff :: u32) = mask 8" "(0xFF :: u64) = mask 8"
  by (simp_all add: mask_eq_exp_minus_1)

lemmas byte_bit_simps =
  bit_or_iff bit_and_iff bit_push_bit_iff bit_drop_bit_eq bit_unsigned_iff bit_mask_iff

lemma bit_s_addr_of:
  assumes "r < 8"
  shows "bit (nb_to_s_addr nb) r = bit (bits0 nb) (56 + r)"
    "bit (nb_to_s_addr nb) (8 + r) = bit (bits0 nb) (48 + r)"
    "bit (nb_to_s_addr nb) (16 + r) = bit (bits0 nb) (40 + r)"
    "bit (nb_to_s_addr nb) (24 + r) = bit (bits0 nb) (32 + r)"
  unfolding nb_to_s_addr_def byte_masks Let_def using assms
  by (simp_all add: byte_bit_simps)

lemma bit_CreateFromInAddr:
  assumes "r < 8"
  shows "bit (bits0 (nameBitvector_CreateFromInAddr addr len)) (32 + r) = bit addr (24 + r)"
    "bit (bits0 (nameBitvector_CreateFromInAddr addr len)) (40 + r) = bit addr (16 + r)"
    "bit (bits0 (nameBitvector_CreateFromInAddr addr len)) (48 + r) = bit addr (8 + r)"
    "bit (bits0 (nameBitvector_CreateFromInAddr addr len)) (56 + r) = bit addr r"
  unfolding nameBitvector_CreateFromInAddr_def byte_masks Let_def using assms
  by (simp_all add: byte_bit_simps)

lemma nb_to_s_addr_CreateFromInAddr:
  "nb_to_s_addr (nameBitvector_CreateFromInAddr addr len) = addr"
proof (rule bit_word_eqI)
  fix n assume "n < LENGTH(32)"
  then consider "n < 8" | "8 \<le> n" "n < 16" | "16 \<le> n" "n < 24" | "24 \<le> n" "n < 32" by fastforce
  then show "bit (nb_to_s_addr (nameBitvector_CreateFromInAddr addr len)) n = bit addr n"
    using bit_s_addr_of[of "n mod 8" "nameBitvector_CreateFromInAddr addr len"]
      bit_CreateFromInAddr[of "n mod 8" addr len]
    by cases (simp_all add: le_mod_geq)
qed

text \<open>Byte \<open>k\<close> (from the least significant) of a word that bytes were shifted into.\<close>

lemma byte_of_shift_in:
  fixes w :: u64
  shows "ucast (push_bit 8 w OR ucast b) = (b :: u8)"
    "8 * Suc k + 8 \<le> 64 \<Longrightarrow>
      ucast (drop_bit (8 * Suc k) (push_bit 8 w OR ucast b)) = (ucast (drop_bit (8 * k) w) :: u8)"
  by (rule bit_word_eqI; auto simp: byte_bit_simps dest: bit_imp_le_length)+

lemma shift_in_bytes_snoc: "shift_in_bytes (bs @ [b]) = push_bit 8 (shift_in_bytes bs) OR ucast b"
  by (simp add: shift_in_bytes_def)

lemma byte_of_shift_in_bytes:
  "length bs \<le> 8 \<Longrightarrow> k < length bs \<Longrightarrow>
    ucast (drop_bit (8 * k) (shift_in_bytes bs)) = (bs ! (length bs - Suc k) :: u8)"
proof (induction bs arbitrary: k rule: rev_induct)
  case Nil
  then show ?case by simp
next
  case (snoc b bs)
  show ?case
  proof (cases k)
    case 0
    then show ?thesis by (simp add: shift_in_bytes_snoc byte_of_shift_in)
  next
    case (Suc j)
    with snoc.prems have "ucast (drop_bit (8 * k) (shift_in_bytes (bs @ [b]))) =
        (ucast (drop_bit (8 * j) (shift_in_bytes bs)) :: u8)"
      unfolding Suc shift_in_bytes_snoc by (intro byte_of_shift_in(2)) simp
    moreover have "length bs - Suc j < length bs" using snoc.prems Suc by auto
    ultimately show ?thesis using snoc Suc by (simp add: nth_append)
  qed
qed

lemma ucast_and_FF: "ucast ((w::u64) AND 0xFF) = (ucast w :: u8)"
  unfolding byte_masks by (rule bit_word_eqI) (auto simp: byte_bit_simps)

lemma nb_to_s6_addr_CreateFromIn6Addr:
  assumes "length s6_addr = 16"
  shows "nb_to_s6_addr (nameBitvector_CreateFromIn6Addr s6_addr len) = s6_addr"
proof (rule nth_equalityI)
  let ?nb = "nameBitvector_CreateFromIn6Addr s6_addr len"
  show "length (nb_to_s6_addr ?nb) = length s6_addr" using assms by (simp add: nb_to_s6_addr_def)
  fix i assume "i < length (nb_to_s6_addr ?nb)"
  then have "i < 16" by (simp add: nb_to_s6_addr_def)
  then show "nb_to_s6_addr ?nb ! i = s6_addr ! i"
    using byte_of_shift_in_bytes[of "take 8 s6_addr" "7 - i"]
      byte_of_shift_in_bytes[of "take 8 (drop 8 s6_addr)" "7 - (i - 8)"] assms
    by (auto simp: nb_to_s6_addr_def nth_append ucast_and_FF nameBitvector_CreateFromIn6Addr_def)
qed

section \<open>Properties\<close>

text \<open>
  C35. Common prefix: for valid names, \<open>nameBitvector_lpm\<close>, with its exclusive-or and binary search
  for the highest set bit, is the length of the longest common prefix of the two bit strings.
\<close>

theorem nameBitvector_lpm_lcp:
  assumes "nb_valid a" "nb_valid b"
  shows "nameBitvector_lpm a b = length (longest_common_prefix (nb_bits a) (nb_bits b))"
  using assms by (rule nameBitvector_lpm_bits)

theorem nameBitvector_lpm_lcp_witness:
  "nameBitvector_lpm (nameBitvector_CreateFromInAddr 0x0100000a 24) (nameBitvector_CreateFromInAddr 0x0180000a 32) =
   length (longest_common_prefix (nb_bits (nameBitvector_CreateFromInAddr 0x0100000a 24))
     (nb_bits (nameBitvector_CreateFromInAddr 0x0180000a 32)))"
  by (rule nameBitvector_lpm_lcp)
    (simp_all add: nb_valid_def WIDTH_def nameBitvector_CreateFromInAddr_def Let_def)

text \<open>
  Address round trip: a name made from an IPv4 or IPv6 address converts back to that
  address, byte by byte.
\<close>

theorem nameBitvector_address_roundtrip:
  assumes "case addr of ADDR_INET6 s6_addr \<Rightarrow> length s6_addr = 16 | _ \<Rightarrow> True"
    and "nameBitvector_CreateFromAddress addr len = Inr name"
  shows "nameBitvector_ToAddress name = addr"
  using assms nb_to_s_addr_CreateFromInAddr nb_to_s6_addr_CreateFromIn6Addr
  by (cases addr)
    (auto simp: nameBitvector_ToAddress_def IPv4_TYPE_def IPv6_TYPE_def nameBitvector_CreateFromInAddr_def
      nameBitvector_CreateFromIn6Addr_def Let_def)

theorem nameBitvector_address_roundtrip_witness:
  "nameBitvector_ToAddress (nameBitvector_CreateFromInAddr 0x0100000a 24) = ADDR_INET 0x0100000a"
  by (rule nameBitvector_address_roundtrip[where len = 24]) simp_all

text \<open>
  \<open>nameBitvector_Compare\<close> is a total order on names and \<^verbatim>\<open>NULL\<close> (least): antisymmetric in
  its arguments, transitive, and zero exactly on names that \<open>nameBitvector_Equals\<close> accepts.
\<close>

theorem nameBitvector_Compare_order:
  "nameBitvector_Compare q p = - nameBitvector_Compare p q \<and>
   (nameBitvector_Compare p q \<le> 0 \<longrightarrow> nameBitvector_Compare q r \<le> 0 \<longrightarrow> nameBitvector_Compare p r \<le> 0) \<and>
   (nameBitvector_Compare (Some a) (Some b) = 0 \<longleftrightarrow> nameBitvector_Equals a b) \<and>
   nameBitvector_Compare None (Some a) = -1"
proof (intro conjI impI)
  show "nameBitvector_Compare q p = - nameBitvector_Compare p q"
    by (auto simp: nameBitvector_Compare_def split: option.split)
  show "nameBitvector_Compare (Some a) (Some b) = 0 \<longleftrightarrow> nameBitvector_Equals a b"
    by (auto simp: nameBitvector_Compare_def nameBitvector_Equals_def)
  assume "nameBitvector_Compare p q \<le> 0" "nameBitvector_Compare q r \<le> 0"
  then show "nameBitvector_Compare p r \<le> 0"
    by (cases p; cases q; cases r) (auto simp: nameBitvector_Compare_def split: if_splits)
qed (simp add: nameBitvector_Compare_def)

theorem nameBitvector_Compare_order_witness:
  "nameBitvector_Compare None (Some (nameBitvector_CreateFromInAddr 1 32)) = -1 \<and>
   nameBitvector_Compare None (Some (nameBitvector_CreateFromInAddr 2 32)) \<le> 0"
proof -
  let ?a = "nameBitvector_CreateFromInAddr 1 32" and ?b = "nameBitvector_CreateFromInAddr 2 32"
  have "nameBitvector_Compare (Some ?a) (Some ?b) \<le> 0" by code_simp
  moreover have "nameBitvector_Compare None (Some ?a) \<le> 0" by (simp add: nameBitvector_Compare_def)
  ultimately show ?thesis
    using nameBitvector_Compare_order[of "Some ?a" None "Some ?b" ?a ?b] by simp
qed

end
