(* ===== verification/NumberSet.thy ===== *)
theory NumberSet
  imports Prelude
begin

text \<open>
  Sets of connection identifiers (\<^verbatim>\<open>hicn-light/src/hicn/core/numberSet.c\<close>): an array that is
  filled from the left, doubled when full, and kept packed on removal by moving the last
  element into the hole. The lemmas relate it to finite sets; the locale \<open>finite_set_impl\<close> is the
  interface the PIT and FIB entries rely on.
\<close>

section \<open>Model\<close>

text \<open>
  The array has \<^verbatim>\<open>limit\<close> cells, of which the first \<^verbatim>\<open>length\<close> are in use. \<^verbatim>\<open>size_t\<close> lengths are
  natural numbers: a set of 32-bit numbers has at most \<^verbatim>\<open>2^32\<close> elements, so the 64-bit counters
  do not wrap. The cells that \<^verbatim>\<open>parcMemory_Reallocate\<close> adds are read as zero; none is used
  before it is written.
\<close>

record NumberSet =
  arrayOfNumbers :: "connid list"
  ns_length :: nat
  ns_limit :: nat
  ns_refcount :: u32

definition numberSet_Create :: NumberSet where
  "numberSet_Create = \<lparr>arrayOfNumbers = replicate 16 0, ns_length = 0, ns_limit = 16, ns_refcount = 1\<rparr>"

definition numberSet_Acquire :: "NumberSet \<Rightarrow> NumberSet" where
  "numberSet_Acquire s = s\<lparr>ns_refcount := ns_refcount s + 1\<rparr>"

text \<open>\<open>None\<close> when the last reference is gone and the set is freed.\<close>

definition numberSet_Release :: "NumberSet \<Rightarrow> NumberSet option res" where
  "numberSet_Release s =
     (if ns_refcount s > 0
      then (let s = s\<lparr>ns_refcount := ns_refcount s - 1\<rparr> in
            if ns_refcount s = 0 then Inr None else Inr (Some s))
      else Inl AssertFailed)"

definition numberSet_Expand :: "NumberSet \<Rightarrow> NumberSet" where
  "numberSet_Expand s =
     (let newlimit = ns_limit s * 2 in
      s\<lparr>arrayOfNumbers := arrayOfNumbers s @ replicate (newlimit - ns_limit s) 0, ns_limit := newlimit\<rparr>)"

definition numberSet_AddNoChecks :: "NumberSet \<Rightarrow> connid \<Rightarrow> NumberSet" where
  "numberSet_AddNoChecks s number =
     (let s = (if ns_length s = ns_limit s then numberSet_Expand s else s) in
      s\<lparr>arrayOfNumbers := (arrayOfNumbers s)[ns_length s := number], ns_length := ns_length s + 1\<rparr>)"

definition numberSet_Contains :: "NumberSet \<Rightarrow> connid \<Rightarrow> bool" where
  "numberSet_Contains s number = list_ex (\<lambda>i. arrayOfNumbers s ! i = number) [0..<ns_length s]"

definition numberSet_Add :: "NumberSet \<Rightarrow> connid \<Rightarrow> NumberSet \<times> bool" where
  "numberSet_Add s number =
     (if numberSet_Contains s number then (s, False) else (numberSet_AddNoChecks s number, True))"

definition numberSet_Length :: "NumberSet \<Rightarrow> nat" where
  "numberSet_Length s = ns_length s"

definition numberSet_GetItem :: "NumberSet \<Rightarrow> nat \<Rightarrow> connid res" where
  "numberSet_GetItem s ordinalIndex =
     (if ordinalIndex < ns_length s then Inr (arrayOfNumbers s ! ordinalIndex) else Inl AssertFailed)"

definition numberSet_AddSet :: "NumberSet \<Rightarrow> NumberSet \<Rightarrow> NumberSet" where
  "numberSet_AddSet destinationSet setToAdd =
     foldl (\<lambda>s i. fst (numberSet_Add s (arrayOfNumbers setToAdd ! i))) destinationSet [0..<ns_length setToAdd]"

definition numberSet_Subtract :: "NumberSet \<Rightarrow> NumberSet \<Rightarrow> NumberSet" where
  "numberSet_Subtract minuend subtrahend =
     foldl (\<lambda>difference i.
         let unique = \<not> list_ex (\<lambda>j. arrayOfNumbers minuend ! i = arrayOfNumbers subtrahend ! j)
                         [0..<ns_length subtrahend]
         in if unique then numberSet_AddNoChecks difference (arrayOfNumbers minuend ! i) else difference)
       numberSet_Create [0..<ns_length minuend]"

definition numberSet_Equals :: "NumberSet option \<Rightarrow> NumberSet option \<Rightarrow> bool" where
  "numberSet_Equals pa pb =
     (case (pa, pb) of
        (None, None) \<Rightarrow> True
      | (Some a, Some b) \<Rightarrow>
          ns_length a = ns_length b \<and>
          list_all (\<lambda>i. list_ex (\<lambda>j. arrayOfNumbers a ! i = arrayOfNumbers b ! j) [0..<ns_length b]) [0..<ns_length a]
      | _ \<Rightarrow> False)"

fun remove_from :: "NumberSet \<Rightarrow> connid \<Rightarrow> nat list \<Rightarrow> NumberSet" where
  "remove_from s number [] = s"
| "remove_from s number (i # is) =
     (if arrayOfNumbers s ! i = number
      then (let s = s\<lparr>ns_length := ns_length s - 1\<rparr> in
            if ns_length s > 0
            then s\<lparr>arrayOfNumbers := (arrayOfNumbers s)[i := arrayOfNumbers s ! ns_length s]\<rparr>
            else s)
      else remove_from s number is)"

definition numberSet_Remove :: "NumberSet \<Rightarrow> connid \<Rightarrow> NumberSet" where
  "numberSet_Remove s number = remove_from s number [0..<ns_length s]"

section \<open>The set a number set stands for\<close>

definition ns_items :: "NumberSet \<Rightarrow> connid list" where
  "ns_items s = take (ns_length s) (arrayOfNumbers s)"

definition ns_set :: "NumberSet \<Rightarrow> connid set" where
  "ns_set s = set (ns_items s)"

definition ns_inv :: "NumberSet \<Rightarrow> bool" where
  "ns_inv s \<longleftrightarrow> length (arrayOfNumbers s) = ns_limit s \<and> ns_length s \<le> ns_limit s \<and> 0 < ns_limit s \<and>
     distinct (ns_items s)"

lemma ns_items_index:
  assumes "ns_inv s"
  shows "length (ns_items s) = ns_length s" "i < ns_length s \<Longrightarrow> arrayOfNumbers s ! i = ns_items s ! i"
  using assms by (auto simp: ns_inv_def ns_items_def)

lemma map_nth_items: "ns_inv s \<Longrightarrow> map (\<lambda>i. arrayOfNumbers s ! i) [0..<ns_length s] = ns_items s"
  by (rule nth_equalityI) (auto simp: ns_items_index)

lemma list_ex_items:
  assumes "ns_inv s"
  shows "list_ex (\<lambda>i. P (arrayOfNumbers s ! i)) [0..<ns_length s] \<longleftrightarrow> (\<exists>x\<in>ns_set s. P x)"
proof -
  have "list_ex (\<lambda>i. P (arrayOfNumbers s ! i)) [0..<ns_length s] = list_ex P (ns_items s)"
    unfolding map_nth_items[OF assms, symmetric] by (simp add: list_ex_iff)
  then show ?thesis by (auto simp: ns_set_def list_ex_iff)
qed

lemma Contains_abs [ns_abs]: "ns_inv s \<Longrightarrow> numberSet_Contains s n \<longleftrightarrow> n \<in> ns_set s"
  using list_ex_items[of s "\<lambda>x. x = n"] by (auto simp: numberSet_Contains_def)

lemma Create_abs [ns_abs, simp]: "ns_inv numberSet_Create" "ns_set numberSet_Create = {}" "ns_items numberSet_Create = []"
  by (simp_all add: ns_inv_def numberSet_Create_def ns_items_def ns_set_def)

lemma AddNoChecks_abs:
  assumes "ns_inv s"
  shows "ns_items (numberSet_AddNoChecks s n) = ns_items s @ [n]"
    "n \<notin> ns_set s \<Longrightarrow> ns_inv (numberSet_AddNoChecks s n)"
proof -
  show items: "ns_items (numberSet_AddNoChecks s n) = ns_items s @ [n]"
    using assms
    by (auto simp: numberSet_AddNoChecks_def numberSet_Expand_def ns_items_def ns_inv_def Let_def
        take_Suc_conv_app_nth nth_append)
  show "ns_inv (numberSet_AddNoChecks s n)" if "n \<notin> ns_set s"
    using assms that items unfolding ns_inv_def ns_set_def
    by (auto simp: numberSet_AddNoChecks_def numberSet_Expand_def Let_def)
qed

lemma Add_abs [ns_abs]:
  assumes "ns_inv s"
  shows "ns_inv (fst (numberSet_Add s n))" "ns_set (fst (numberSet_Add s n)) = insert n (ns_set s)"
    "snd (numberSet_Add s n) \<longleftrightarrow> n \<notin> ns_set s"
  using assms AddNoChecks_abs[OF assms, of n] by (auto simp: numberSet_Add_def Contains_abs ns_set_def)

lemma Add_items:
  "ns_inv s \<Longrightarrow> ns_items (fst (numberSet_Add s n)) = (if n \<in> ns_set s then ns_items s else ns_items s @ [n])"
  by (auto simp: numberSet_Add_def Contains_abs AddNoChecks_abs)

lemma remove_from_absent: "(\<And>i. i \<in> set is \<Longrightarrow> arrayOfNumbers s ! i \<noteq> n) \<Longrightarrow> remove_from s n is = s"
  by (induction "is") auto

lemma remove_from_first:
  "arrayOfNumbers s ! i = n \<Longrightarrow> (\<And>j. j \<in> set is \<Longrightarrow> arrayOfNumbers s ! j \<noteq> n) \<Longrightarrow>
    remove_from s n (is @ i # js) = remove_from s n [i]"
  by (induction "is") auto

lemma Remove_present:
  assumes inv: "ns_inv s" and i: "i < ns_length s" "ns_items s ! i = n"
  shows "numberSet_Remove s n = remove_from s n [i]"
proof -
  have "[0..<ns_length s] = [0..<i] @ i # [Suc i..<ns_length s]"
    using i(1) by (rule upt_split)
  moreover have "arrayOfNumbers s ! j \<noteq> n" if "j \<in> set [0..<i]" for j
    using inv i that nth_eq_iff_index_eq[of "ns_items s" j i]
    by (auto simp: ns_items_index(1)[OF inv] ns_items_index(2)[OF inv] ns_inv_def)
  ultimately show ?thesis
    unfolding numberSet_Remove_def using remove_from_first[of s i n "[0..<i]"] i inv
    by (simp add: ns_items_index(2)[OF inv])
qed

lemma Remove_items:
  assumes inv: "ns_inv s" and i: "i < ns_length s" "ns_items s ! i = n"
  shows "ns_items (numberSet_Remove s n) = butlast ((ns_items s)[i := last (ns_items s)])"
    "ns_limit (numberSet_Remove s n) = ns_limit s" "ns_length (numberSet_Remove s n) = ns_length s - 1"
    "length (arrayOfNumbers (numberSet_Remove s n)) = length (arrayOfNumbers s)"
proof -
  have len: "length (arrayOfNumbers s) = ns_limit s" "ns_length s \<le> ns_limit s" using inv by (auto simp: ns_inv_def)
  have last: "last (ns_items s) = arrayOfNumbers s ! (ns_length s - 1)"
    using i(1) ns_items_index[OF inv] by (subst last_conv_nth) auto
  have at: "arrayOfNumbers s ! i = n" using i ns_items_index(2)[OF inv] by simp
  show "ns_items (numberSet_Remove s n) = butlast ((ns_items s)[i := last (ns_items s)])"
    unfolding last Remove_present[OF inv i] unfolding ns_items_def using i(1) at len
    by (auto simp: Let_def butlast_conv_take take_update_swap min_def)
  show "ns_limit (numberSet_Remove s n) = ns_limit s" "ns_length (numberSet_Remove s n) = ns_length s - 1"
    "length (arrayOfNumbers (numberSet_Remove s n)) = length (arrayOfNumbers s)"
    using at unfolding Remove_present[OF inv i] by (auto simp: Let_def)
qed

lemma Remove_abs [ns_abs]:
  assumes "ns_inv s"
  shows "ns_inv (numberSet_Remove s n)" "ns_set (numberSet_Remove s n) = ns_set s - {n}"
proof -
  have "ns_inv (numberSet_Remove s n) \<and> ns_set (numberSet_Remove s n) = ns_set s - {n}"
  proof (cases "n \<in> ns_set s")
    case True
    then obtain i where i: "i < ns_length s" "ns_items s ! i = n"
      using ns_items_index[OF assms] by (auto simp: ns_set_def in_set_conv_nth)
    have d: "distinct (ns_items s)" "i < length (ns_items s)"
      using assms i ns_items_index[OF assms] by (auto simp: ns_inv_def)
    show ?thesis
      using butlast_move_last[OF d] i assms unfolding ns_inv_def ns_set_def Remove_items[OF assms i] by (simp, linarith)
  next
    case False
    then have "numberSet_Remove s n = s"
      unfolding numberSet_Remove_def using ns_items_index[OF assms]
      by (intro remove_from_absent) (auto simp: ns_set_def)
    with assms False show ?thesis by simp
  qed
  then show "ns_inv (numberSet_Remove s n)" "ns_set (numberSet_Remove s n) = ns_set s - {n}" by auto
qed

lemma Equals_abs [ns_abs]:
  assumes "ns_inv a" "ns_inv b"
  shows "numberSet_Equals (Some a) (Some b) \<longleftrightarrow> ns_set a = ns_set b"
proof -
  have card: "card (ns_set s) = ns_length s" if "ns_inv s" for s
    using that ns_items_index[OF that] by (simp add: ns_set_def ns_inv_def distinct_card)
  have "list_all (\<lambda>i. list_ex (\<lambda>j. arrayOfNumbers a ! i = arrayOfNumbers b ! j) [0..<ns_length b]) [0..<ns_length a] \<longleftrightarrow>
      ns_set a \<subseteq> ns_set b"
    using list_ex_items[OF assms(1), of "\<lambda>x. x \<notin> ns_set b"] list_ex_items[OF assms(2)]
    by (auto simp: list_all_iff list_ex_iff)
  then show ?thesis
    using card[OF assms(1)] card[OF assms(2)] card_subset_eq[of "ns_set b" "ns_set a"]
    by (auto simp: numberSet_Equals_def ns_set_def)
qed

lemma GetItem_abs [ns_abs]:
  "ns_inv s \<Longrightarrow> numberSet_GetItem s i = (if i < length (ns_items s) then Inr (ns_items s ! i) else Inl AssertFailed)"
  by (simp add: numberSet_GetItem_def ns_items_index)

lemma Length_abs [ns_abs]: "ns_inv s \<Longrightarrow> numberSet_Length s = card (ns_set s)"
  using ns_items_index[of s] by (simp add: numberSet_Length_def ns_set_def ns_inv_def distinct_card)

section \<open>The interface\<close>

text \<open>
  A mutable set of identifiers, as its clients use it: created empty, extended, shrunk, tested
  and enumerated. The derived operation adds a list of elements one by one, which is how
  \<open>numberSet_AddSet\<close>, the collection of ingress connections and the copying of next hops work.
\<close>

locale finite_set_impl =
  fixes empty :: 's
    and add :: "'s \<Rightarrow> 'a \<Rightarrow> 's"
    and remove :: "'s \<Rightarrow> 'a \<Rightarrow> 's"
    and member :: "'s \<Rightarrow> 'a \<Rightarrow> bool"
    and items :: "'s \<Rightarrow> 'a list"
    and inv :: "'s \<Rightarrow> bool"
  assumes empty_items: "inv empty" "items empty = []"
    and add_items: "inv s \<Longrightarrow> inv (add s x) \<and> items (add s x) = (if x \<in> set (items s) then items s else items s @ [x])"
    and remove_items: "inv s \<Longrightarrow> inv (remove s x) \<and> set (items (remove s x)) = set (items s) - {x}"
    and member_items: "inv s \<Longrightarrow> member s x \<longleftrightarrow> x \<in> set (items s)"
    and distinct_items: "inv s \<Longrightarrow> distinct (items s)"
begin

lemma add_all:
  "inv s \<Longrightarrow> inv (foldl add s xs) \<and> set (items (foldl add s xs)) = set (items s) \<union> set xs"
proof (induction xs arbitrary: s)
  case (Cons x xs)
  then show ?case using add_items[OF Cons.prems, of x] Cons.IH[of "add s x"] by (auto split: if_splits)
qed simp

lemma remove_all:
  "inv s \<Longrightarrow> inv (foldl remove s xs) \<and> set (items (foldl remove s xs)) = set (items s) - set xs"
proof (induction xs arbitrary: s)
  case (Cons x xs)
  then show ?case using remove_items[OF Cons.prems, of x] Cons.IH[of "remove s x"] by auto
qed simp

lemma add_remove: "inv s \<Longrightarrow> x \<notin> set (items s) \<Longrightarrow> set (items (remove (add s x) x)) = set (items s)"
  using add_items[of s x] remove_items[of "add s x" x] by auto

lemma member_add: "inv s \<Longrightarrow> member (add s x) y \<longleftrightarrow> y = x \<or> member s y"
  using add_items[of s x] member_items by (auto split: if_splits)

lemma items_from_empty: "distinct xs \<Longrightarrow> items (foldl add empty xs) = xs"
proof (induction xs rule: rev_induct)
  case (snoc x xs)
  then show ?case using add_all[of empty xs] empty_items add_items[of "foldl add empty xs" x] by simp
qed (simp add: empty_items)

end

interpretation ns: finite_set_impl numberSet_Create "\<lambda>s n. fst (numberSet_Add s n)" numberSet_Remove
  numberSet_Contains ns_items ns_inv
  using Add_items Remove_abs
  by unfold_locales (auto simp: ns_set_def[symmetric] Contains_abs Add_abs ns_inv_def[of "numberSet_Create"],
    auto simp: ns_inv_def)

lemma foldl_index: "foldl (\<lambda>s i. f s (xs i)) s0 is = foldl f s0 (map xs is)"
  by (induction "is" arbitrary: s0) auto

lemma AddSet_abs [ns_abs]:
  assumes "ns_inv a" "ns_inv b"
  shows "ns_inv (numberSet_AddSet a b)" "ns_set (numberSet_AddSet a b) = ns_set a \<union> ns_set b"
  using ns.add_all[OF assms(1), of "ns_items b"]
    foldl_index[of "\<lambda>s n. fst (numberSet_Add s n)" "\<lambda>i. arrayOfNumbers b ! i" a "[0..<ns_length b]"]
  by (simp_all add: numberSet_AddSet_def ns_set_def map_nth_items[OF assms(2)])

text \<open>The body of the outer loop of \<open>numberSet_Subtract\<close>, for one element.\<close>

definition subtract_step :: "NumberSet \<Rightarrow> NumberSet \<Rightarrow> connid \<Rightarrow> NumberSet" where
  "subtract_step b d x =
     (if \<not> list_ex (\<lambda>j. x = arrayOfNumbers b ! j) [0..<ns_length b] then numberSet_AddNoChecks d x else d)"

lemma subtract_step_abs:
  assumes "ns_inv b" "ns_inv d" "x \<notin> ns_set d"
  shows "ns_inv (subtract_step b d x)" "ns_set (subtract_step b d x) = ns_set d \<union> ({x} - ns_set b)"
  using assms AddNoChecks_abs[OF assms(2), of x] list_ex_items[OF assms(1), of "\<lambda>y. x = y"]
  by (auto simp: subtract_step_def ns_set_def)

lemma subtract_loop:
  assumes "ns_inv b" "ns_inv d" "distinct xs" "ns_set d \<inter> set xs = {}"
  shows "ns_inv (foldl (subtract_step b) d xs) \<and>
    ns_set (foldl (subtract_step b) d xs) = ns_set d \<union> (set xs - ns_set b)"
  using assms
proof (induction xs arbitrary: d)
  case (Cons x xs)
  then have "ns_inv (subtract_step b d x)" "ns_set (subtract_step b d x) = ns_set d \<union> ({x} - ns_set b)"
    using subtract_step_abs[of b d x] by auto
  with Cons.IH[of "subtract_step b d x"] Cons.prems show ?case by auto
qed simp

lemma Subtract_abs [ns_abs]:
  assumes "ns_inv a" "ns_inv b"
  shows "ns_inv (numberSet_Subtract a b)" "ns_set (numberSet_Subtract a b) = ns_set a - ns_set b"
proof -
  have "numberSet_Subtract a b = foldl (subtract_step b) numberSet_Create (ns_items a)"
    unfolding map_nth_items[OF assms(1), symmetric] foldl_index[symmetric]
    by (simp add: numberSet_Subtract_def subtract_step_def Let_def)
  then show "ns_inv (numberSet_Subtract a b)" "ns_set (numberSet_Subtract a b) = ns_set a - ns_set b"
    using subtract_loop[OF assms(2), of numberSet_Create "ns_items a"] assms(1)
    by (auto simp: ns_set_def ns_inv_def[of a])
qed

section \<open>Properties\<close>

text \<open>
  C34. The number sets refine finite sets: creation, addition (and its result, whether the number
  was new), removal, membership, union, difference, equality and length compute the set
  operations, and all of them keep the array packed, within its limit and free of duplicates.
\<close>

theorem numberSet_refines_set:
  assumes "ns_inv s" "ns_inv t"
  shows "ns_set numberSet_Create = {} \<and> ns_inv numberSet_Create \<and>
    ns_set (fst (numberSet_Add s n)) = insert n (ns_set s) \<and> (snd (numberSet_Add s n) \<longleftrightarrow> n \<notin> ns_set s) \<and>
    ns_inv (fst (numberSet_Add s n)) \<and>
    ns_set (numberSet_Remove s n) = ns_set s - {n} \<and> ns_inv (numberSet_Remove s n) \<and>
    (numberSet_Contains s n \<longleftrightarrow> n \<in> ns_set s) \<and>
    ns_set (numberSet_AddSet s t) = ns_set s \<union> ns_set t \<and> ns_inv (numberSet_AddSet s t) \<and>
    ns_set (numberSet_Subtract s t) = ns_set s - ns_set t \<and> ns_inv (numberSet_Subtract s t) \<and>
    (numberSet_Equals (Some s) (Some t) \<longleftrightarrow> ns_set s = ns_set t) \<and>
    numberSet_Length s = card (ns_set s)"
  using assms by (simp add: ns_abs)

theorem numberSet_refines_set_witness:
  "ns_set (numberSet_Remove (fst (numberSet_Add numberSet_Create 7)) 7) = {} \<and>
   ns_set (numberSet_AddSet (fst (numberSet_Add numberSet_Create 7)) numberSet_Create) = {7}"
  using numberSet_refines_set[of "fst (numberSet_Add numberSet_Create 7)" numberSet_Create 7]
  by (simp add: Add_abs)

end
