(* ===== verification/Packet.thy ===== *)
theory Packet
  imports Prelude
begin

text \<open>
  hICN packets as bytes (\<^verbatim>\<open>hicn-light/src/hicn/core/messageHandler.h\<close> and the TCP operations of
  \<^verbatim>\<open>lib/src/protocol/tcp.c\<close> it calls): IPv4 or IPv6 headers followed by TCP, the fields that hICN
  reuses (sequence number as name suffix, acknowledgement number as path label, window as WLDR
  label, urgent pointer as lifetime), and the incremental update of the TCP checksum.

  The lemmas give the read-after-write behaviour of every field, the bounds of the scaled
  lifetime encoding, and the invariant of the checksum: an incremental update keeps the one's
  complement sum, so a packet with a valid checksum keeps it when its addresses or its path
  label are rewritten.
\<close>

section \<open>Bytes\<close>

type_synonym bytes = "u8 list"

text \<open>
  A C read beyond the buffer is undefined; here it is zero, and a write there does nothing. The
  properties of writes assume that the field lies in the buffer.
\<close>

definition byte :: "bytes \<Rightarrow> nat \<Rightarrow> u8" where
  "byte p i = (if i < length p then p ! i else 0)"

fun put :: "bytes \<Rightarrow> nat \<Rightarrow> bytes \<Rightarrow> bytes" where
  "put p off [] = p"
| "put p off (b # bs) = put (p[off := b]) (Suc off) bs"

text \<open>16 and 32-bit fields: in network order (what \<^verbatim>\<open>ntohs\<close> of the field is) and as the little-endian host reads them.\<close>

definition be16 :: "bytes \<Rightarrow> nat \<Rightarrow> u16" where
  "be16 p off = push_bit 8 (ucast (byte p off)) OR ucast (byte p (off + 1))"

definition le16 :: "bytes \<Rightarrow> nat \<Rightarrow> u16" where
  "le16 p off = push_bit 8 (ucast (byte p (off + 1))) OR ucast (byte p off)"

definition be32 :: "bytes \<Rightarrow> nat \<Rightarrow> u32" where
  "be32 p off = push_bit 16 (ucast (be16 p off)) OR ucast (be16 p (off + 2))"

definition le32 :: "bytes \<Rightarrow> nat \<Rightarrow> u32" where
  "le32 p off = push_bit 16 (ucast (le16 p (off + 2))) OR ucast (le16 p off)"

definition bytes_le16 :: "u16 \<Rightarrow> bytes" where
  "bytes_le16 w = [ucast w, ucast (drop_bit 8 w)]"

definition bytes_be16 :: "u16 \<Rightarrow> bytes" where
  "bytes_be16 w = [ucast (drop_bit 8 w), ucast w]"

definition put_le16 :: "bytes \<Rightarrow> nat \<Rightarrow> u16 \<Rightarrow> bytes" where
  "put_le16 p off w = put p off (bytes_le16 w)"

definition put_be16 :: "bytes \<Rightarrow> nat \<Rightarrow> u16 \<Rightarrow> bytes" where
  "put_be16 p off w = put p off (bytes_be16 w)"

definition lo16 :: "u32 \<Rightarrow> u16" where "lo16 w = ucast w"
definition hi16 :: "u32 \<Rightarrow> u16" where "hi16 w = ucast (drop_bit 16 w)"

definition put_le32 :: "bytes \<Rightarrow> nat \<Rightarrow> u32 \<Rightarrow> bytes" where
  "put_le32 p off w = put_le16 (put_le16 p off (lo16 w)) (off + 2) (hi16 w)"

section \<open>Headers\<close>

definition IPV6_HDRLEN :: nat where "IPV6_HDRLEN = 40"
definition IPV4_HDRLEN :: nat where "IPV4_HDRLEN = 20"
definition TCP_HDRLEN :: nat where "TCP_HDRLEN = 20"
definition ICMP_HDRLEN :: nat where "ICMP_HDRLEN = 4"

definition IPPROTO_ICMP :: u8 where "IPPROTO_ICMP = 1"
definition IPPROTO_TCP :: u8 where "IPPROTO_TCP = 6"
definition IPPROTO_ICMPV6 :: u8 where "IPPROTO_ICMPV6 = 58"

definition messageHandler_GetIPPacketType :: "bytes \<Rightarrow> u8" where
  "messageHandler_GetIPPacketType message = drop_bit 4 (byte message 0)"

definition messageHandler_GetICMPPacketSize :: "u8 \<Rightarrow> nat" where
  "messageHandler_GetICMPPacketSize ipVersion =
     (if ipVersion = 4 then IPV4_HDRLEN + ICMP_HDRLEN
      else if ipVersion = 6 then IPV6_HDRLEN + ICMP_HDRLEN else 0)"

text \<open>The offset of the TCP header, for the two versions \<^verbatim>\<open>H4T\<close> and \<^verbatim>\<open>H6T\<close> distinguish.\<close>

definition tcp_offset :: "bytes \<Rightarrow> nat option" where
  "tcp_offset message =
     (if messageHandler_GetIPPacketType message = 6 then Some IPV6_HDRLEN
      else if messageHandler_GetIPPacketType message = 4 then Some IPV4_HDRLEN else None)"

definition messageHandler_NextHeaderType :: "bytes \<Rightarrow> u8" where
  "messageHandler_NextHeaderType message =
     (if messageHandler_GetIPPacketType message = 6 then byte message 6
      else if messageHandler_GetIPPacketType message = 4 then byte message 9 else 0)"

definition messageHandler_IsTCP :: "bytes \<Rightarrow> bool" where
  "messageHandler_IsTCP message = (if messageHandler_NextHeaderType message \<noteq> IPPROTO_TCP then False else True)"

text \<open>\<^verbatim>\<open>hicn_packet_test_ece\<close>: \<open>None\<close> when the version is unknown and \<^verbatim>\<open>*flag\<close> is left unset.\<close>

definition hicn_packet_test_ece :: "bytes \<Rightarrow> bool option" where
  "hicn_packet_test_ece message =
     (case tcp_offset message of None \<Rightarrow> None | Some off \<Rightarrow> Some (byte message (off + 13) AND 0x40 \<noteq> 0))"

definition messageHandler_IsInterest :: "bytes \<Rightarrow> bool" where
  "messageHandler_IsInterest message =
     (if \<not> messageHandler_IsTCP message then False else hicn_packet_test_ece message = Some False)"

definition messageHandler_IsData :: "bytes \<Rightarrow> bool" where
  "messageHandler_IsData message =
     (if \<not> messageHandler_IsTCP message then False else hicn_packet_test_ece message = Some True)"

definition messageHandler_IsWldrNotification :: "bytes \<Rightarrow> bool" where
  "messageHandler_IsWldrNotification message =
     (let next_header = messageHandler_NextHeaderType message in
      if next_header = IPPROTO_ICMP
      then byte message IPV4_HDRLEN = 42 \<and> byte message (IPV4_HDRLEN + 1) = 0
      else if next_header = IPPROTO_ICMPV6
      then byte message IPV6_HDRLEN = 42 \<and> byte message (IPV6_HDRLEN + 1) = 0
      else False)"

definition messageHandler_GetTotalPacketLength :: "bytes \<Rightarrow> u16" where
  "messageHandler_GetTotalPacketLength message =
     (if messageHandler_GetIPPacketType message = 6 then be16 message 4 + of_nat IPV6_HDRLEN
      else if messageHandler_GetIPPacketType message = 4 then be16 message 2 else 0)"

definition messageHandler_GetSegment :: "bytes \<Rightarrow> u32" where
  "messageHandler_GetSegment message =
     (if \<not> messageHandler_IsTCP message then 0
      else (case tcp_offset message of None \<Rightarrow> 0 | Some off \<Rightarrow> be32 message (off + 4)))"

definition messageHandler_GetExpectedWldrLabel :: "bytes \<Rightarrow> u16" where
  "messageHandler_GetExpectedWldrLabel message =
     (case tcp_offset message of None \<Rightarrow> 0 | Some off \<Rightarrow> be16 message (off + 4))"

definition messageHandler_GetWldrLastReceived :: "bytes \<Rightarrow> u16" where
  "messageHandler_GetWldrLastReceived message =
     (case tcp_offset message of None \<Rightarrow> 0 | Some off \<Rightarrow> be16 message (off + 6))"

definition messageHandler_GetWldrLabel :: "bytes \<Rightarrow> u16" where
  "messageHandler_GetWldrLabel message =
     (case tcp_offset message of None \<Rightarrow> 0 | Some off \<Rightarrow> be16 message (off + 14))"

text \<open>The address fields, as the bytes the returned pointer points to (16 or 4 of them).\<close>

definition messageHandler_GetSource :: "bytes \<Rightarrow> bytes option" where
  "messageHandler_GetSource message =
     (if messageHandler_GetIPPacketType message = 6 then Some (map (\<lambda>i. byte message (8 + i)) [0..<16])
      else if messageHandler_GetIPPacketType message = 4 then Some (map (\<lambda>i. byte message (12 + i)) [0..<4])
      else None)"

definition messageHandler_GetDestination :: "bytes \<Rightarrow> bytes option" where
  "messageHandler_GetDestination message =
     (if messageHandler_GetIPPacketType message = 6 then Some (map (\<lambda>i. byte message (24 + i)) [0..<16])
      else if messageHandler_GetIPPacketType message = 4 then Some (map (\<lambda>i. byte message (16 + i)) [0..<4])
      else None)"

section \<open>Checksums\<close>

text \<open>The loop \<^verbatim>\<open>while (sum >> 16) sum = (sum >> 16) + (sum & UINT16_T_MASK)\<close>.\<close>

lemma unat_hi: "unat (drop_bit 16 w) = unat (w :: u32) div 65536"
  using unat_drop_bit_eq[of 16 w] drop_bit_eq_div[of 16 "unat w"] by simp

lemma unat_lo: "unat (w AND 0xFFFF) = unat (w :: u32) mod 65536"
proof -
  have "w AND 0xFFFF = take_bit 16 w" by (simp only: take_bit_eq_mask) (simp add: mask_eq_exp_minus_1)
  then show ?thesis by (simp only: unsigned_take_bit_eq) (simp add: take_bit_eq_mod)
qed

lemma fold_step_unat:
  "unat (drop_bit 16 w + (w AND 0xFFFF)) = unat (w :: u32) div 65536 + unat w mod 65536"
proof -
  have "unat w div 65536 < 65536" using unsigned_less[of w, where ?'a = nat] by (simp add: div_less_iff_less_mult)
  moreover have "unat w mod 65536 < 65536" by simp
  ultimately have "unat w div 65536 + unat w mod 65536 < 2 ^ 32" by simp
  then show ?thesis using unat_add_lem[of "drop_bit 16 w" "w AND 0xFFFF"] by (simp add: unat_hi unat_lo)
qed

function fold_sum :: "u32 \<Rightarrow> u32" where
  "fold_sum w = (if drop_bit 16 w \<noteq> 0 then fold_sum (drop_bit 16 w + (w AND 0xFFFF)) else w)"
  by auto

termination
proof (relation "measure unat")
  fix w :: u32
  assume "drop_bit 16 w \<noteq> 0"
  then have "unat w div 65536 \<noteq> 0" using unat_hi[of w] by (metis unat_eq_zero)
  then have "unat w div 65536 + unat w mod 65536 < unat w"
    using div_mult_mod_eq[of "unat w" 65536] by linarith
  then show "(drop_bit 16 w + (w AND 0xFFFF), w) \<in> measure unat" by (simp add: fold_step_unat)
qed simp

declare fold_sum.simps [simp del]

text \<open>One round of the update (RFC 1624): the checksum, an old 16-bit value and the value that replaces it.\<close>

definition csum_update :: "u16 \<Rightarrow> u16 \<Rightarrow> u16 \<Rightarrow> u16" where
  "csum_update csum old_val new_val =
     (let old_csum = NOT csum;
          not_old_val = NOT old_val;
          s = ucast old_csum + ucast not_old_val + ucast new_val :: u32
      in ucast (NOT (fold_sum s)))"

definition update_csum_at :: "nat \<Rightarrow> bytes \<Rightarrow> u16 list \<Rightarrow> u16 list \<Rightarrow> bytes" where
  "update_csum_at off message old_vals new_vals =
     foldl (\<lambda>m (old_val, new_val). put_le16 m off (csum_update (le16 m off) old_val new_val))
       message (zip old_vals new_vals)"

definition messageHandler_UpdateTCPCheckSum :: "bytes \<Rightarrow> u16 list \<Rightarrow> u16 list \<Rightarrow> bytes" where
  "messageHandler_UpdateTCPCheckSum message old_vals new_vals =
     (case tcp_offset message of
        None \<Rightarrow> message
      | Some off \<Rightarrow> update_csum_at (off + 16) message old_vals new_vals)"

definition messageHandler_UpdateIPv4CheckSum :: "bytes \<Rightarrow> u16 list \<Rightarrow> u16 list \<Rightarrow> bytes" where
  "messageHandler_UpdateIPv4CheckSum message old_vals new_vals = update_csum_at 10 message old_vals new_vals"

section \<open>Labels and lifetimes\<close>

text \<open>
  The label is stored in network order, and the checksum is updated with the host-order values
  of the old and the new label.
\<close>

definition messageHandler_SetWldrLabel :: "bytes \<Rightarrow> u16 \<Rightarrow> bytes" where
  "messageHandler_SetWldrLabel message label =
     (let old_val = messageHandler_GetWldrLabel message;
          message = (case tcp_offset message of None \<Rightarrow> message | Some off \<Rightarrow> put_be16 message (off + 14) label)
      in messageHandler_UpdateTCPCheckSum message [old_val] [label])"

definition messageHandler_ResetWldrLabel :: "bytes \<Rightarrow> bytes" where
  "messageHandler_ResetWldrLabel message = messageHandler_SetWldrLabel message 0"

definition messageHandler_HasWldr :: "bytes \<Rightarrow> bool" where
  "messageHandler_HasWldr message =
     (if messageHandler_IsTCP message then messageHandler_GetWldrLabel message \<noteq> 0 else False)"

text \<open>\<^verbatim>\<open>hicn_data_get_path_label\<close> and its setter reach the TCP operations, which do not swap bytes.\<close>

definition tcp_get_data_pathlabel :: "bytes \<Rightarrow> nat \<Rightarrow> u32" where
  "tcp_get_data_pathlabel message tcp = le32 message (tcp + 8)"

definition tcp_set_data_pathlabel :: "bytes \<Rightarrow> nat \<Rightarrow> u32 \<Rightarrow> bytes" where
  "tcp_set_data_pathlabel message tcp pathlabel = put_le32 message (tcp + 8) pathlabel"

definition messageHandler_GetPathLabel :: "bytes \<Rightarrow> u32" where
  "messageHandler_GetPathLabel message =
     (if \<not> messageHandler_IsTCP message then 0
      else (case tcp_offset message of None \<Rightarrow> 0 | Some off \<Rightarrow> tcp_get_data_pathlabel message off))"

definition messageHandler_SetPathLabel :: "bytes \<Rightarrow> u32 \<Rightarrow> u32 \<Rightarrow> bytes" where
  "messageHandler_SetPathLabel message old_path_label new_path_label =
     (if \<not> messageHandler_IsTCP message then message
      else (let message = (case tcp_offset message of None \<Rightarrow> message
                           | Some off \<Rightarrow> tcp_set_data_pathlabel message off new_path_label)
            in messageHandler_UpdateTCPCheckSum message
                 [lo16 old_path_label, hi16 old_path_label] [lo16 new_path_label, hi16 new_path_label]))"

definition messageHandler_UpdatePathLabel :: "bytes \<Rightarrow> u8 \<Rightarrow> bytes" where
  "messageHandler_UpdatePathLabel message outFace =
     (if \<not> messageHandler_IsTCP message then message
      else (let pl_old_32bit = messageHandler_GetPathLabel message;
                pl_old_8bit = ucast (drop_bit 24 pl_old_32bit) :: u8;
                pl_new_32bit = push_bit 24
                  ((push_bit 1 (ucast pl_old_8bit) OR ucast (drop_bit 7 pl_old_8bit)) XOR ucast outFace) :: u32
            in messageHandler_SetPathLabel message pl_old_32bit pl_new_32bit))"

definition messageHandler_ResetPathLabel :: "bytes \<Rightarrow> bytes" where
  "messageHandler_ResetPathLabel message =
     messageHandler_SetPathLabel message (messageHandler_GetPathLabel message) 0"

definition tcp_get_lifetime :: "bytes \<Rightarrow> nat \<Rightarrow> u32" where
  "tcp_get_lifetime message tcp =
     push_bit (unat (byte message (tcp + 12) AND 0xF)) (ucast (be16 message (tcp + 18)))"

definition HICN_MAX_LIFETIME_SCALED :: u32 where "HICN_MAX_LIFETIME_SCALED = 0xFFFF"
definition HICN_MAX_LIFETIME_MULTIPLIER :: u8 where "HICN_MAX_LIFETIME_MULTIPLIER = 0x0F"
definition HICN_MAX_LIFETIME :: u32 where "HICN_MAX_LIFETIME = push_bit 15 0xFFFF"

text \<open>The scaling loop: the multiplier grows to at most sixteen, which bounds the recursion.\<close>

function scale_lifetime :: "u32 \<Rightarrow> u8 \<Rightarrow> u32 \<times> u8" where
  "scale_lifetime lifetime_scaled multiplier =
     (if lifetime_scaled > HICN_MAX_LIFETIME_SCALED \<and> multiplier \<le> HICN_MAX_LIFETIME_MULTIPLIER
      then scale_lifetime (drop_bit 1 lifetime_scaled) (multiplier + 1)
      else (lifetime_scaled, multiplier))"
  by auto

termination
  by (relation "measure (\<lambda>(l, m). 256 - unat m)")
    (auto simp: HICN_MAX_LIFETIME_MULTIPLIER_def word_le_nat_alt unat_word_ariths)

declare scale_lifetime.simps [simp del]

definition tcp_set_lifetime :: "bytes \<Rightarrow> nat \<Rightarrow> u32 \<Rightarrow> bytes" where
  "tcp_set_lifetime message tcp lifetime =
     (if lifetime \<ge> HICN_MAX_LIFETIME
      then put (put_be16 message (tcp + 18) (ucast HICN_MAX_LIFETIME_SCALED)) (tcp + 12)
             [(byte message (tcp + 12) AND NOT 0x0F) OR HICN_MAX_LIFETIME_MULTIPLIER]
      else (let (lifetime_scaled, multiplier) = scale_lifetime lifetime 0
            in put (put_be16 message (tcp + 18) (ucast lifetime_scaled)) (tcp + 12)
                 [(byte message (tcp + 12) AND NOT 0x0F) OR multiplier]))"

text \<open>\<^verbatim>\<open>messageHandler_GetInterestLifetime\<close> returns the 32-bit lifetime through a 16-bit type.\<close>

definition messageHandler_GetInterestLifetime :: "bytes \<Rightarrow> u16" where
  "messageHandler_GetInterestLifetime message =
     (if \<not> messageHandler_IsTCP message then 0
      else (case tcp_offset message of None \<Rightarrow> 0 | Some off \<Rightarrow> ucast (tcp_get_lifetime message off)))"

definition messageHandler_HasInterestLifetime :: "bytes \<Rightarrow> bool" where
  "messageHandler_HasInterestLifetime message =
     (if \<not> messageHandler_IsTCP message then False
      else if messageHandler_GetInterestLifetime message = 0 then False else True)"

definition messageHandler_GetContentExpiryTime :: "bytes \<Rightarrow> u32" where
  "messageHandler_GetContentExpiryTime message =
     (if \<not> messageHandler_IsTCP message then 0
      else (case tcp_offset message of None \<Rightarrow> 0 | Some off \<Rightarrow> tcp_get_lifetime message off))"

definition messageHandler_HasContentExpiryTime :: "bytes \<Rightarrow> bool" where
  "messageHandler_HasContentExpiryTime message =
     (if \<not> messageHandler_IsTCP message then False
      else (case tcp_offset message of None \<Rightarrow> False
            | Some off \<Rightarrow> if tcp_get_lifetime message off = HICN_MAX_LIFETIME then False else True))"

section \<open>Addresses and notifications\<close>

definition addr_words :: "bytes \<Rightarrow> u16 list" where
  "addr_words a = map (\<lambda>i. le16 a (2 * i)) [0..<length a div 2]"

definition messageHandler_SetSource_IPv6 :: "bytes \<Rightarrow> bytes \<Rightarrow> bytes" where
  "messageHandler_SetSource_IPv6 message address =
     (let message' = (if messageHandler_IsTCP message
                      then (case messageHandler_GetSource message of None \<Rightarrow> message
                            | Some old_src \<Rightarrow> messageHandler_UpdateTCPCheckSum message (addr_words old_src) (addr_words address))
                      else message)
      in put message' 8 address)"

definition messageHandler_SetDestination_IPv6 :: "bytes \<Rightarrow> bytes \<Rightarrow> bytes" where
  "messageHandler_SetDestination_IPv6 message address =
     (let message' = (if messageHandler_IsTCP message
                      then (case messageHandler_GetDestination message of None \<Rightarrow> message
                            | Some old_dst \<Rightarrow> messageHandler_UpdateTCPCheckSum message (addr_words old_dst) (addr_words address))
                      else message)
      in put message' 24 address)"

text \<open>
  The notification header for IPv6: version, payload length \<^verbatim>\<open>ICMP_HDRLEN\<close>, next header, hop
  limit, zero addresses (then set from the original packet), type, code, checksum and the two
  labels. For IPv4 the source leaves the cleared buffer as it is.
\<close>

definition messageHandler_SetWldrNotification :: "bytes \<Rightarrow> bytes \<Rightarrow> u16 \<Rightarrow> u16 \<Rightarrow> bytes" where
  "messageHandler_SetWldrNotification notification original expected received =
     (if messageHandler_GetIPPacketType original = 6
      then (let hdr = [0x60, 0, 0, 0] @ bytes_be16 (of_nat ICMP_HDRLEN) @ [IPPROTO_ICMPV6, 5] @ replicate 32 0 @
                      [42, 0, 0, 0] @ bytes_be16 expected @ bytes_be16 received;
                n = put notification 0 hdr;
                n = messageHandler_SetSource_IPv6 n (map (\<lambda>i. byte original (24 + i)) [0..<16])
            in messageHandler_SetDestination_IPv6 n (map (\<lambda>i. byte original (8 + i)) [0..<16]))
      else notification)"

section \<open>Probes\<close>

definition BFD_PORT :: u16 where "BFD_PORT = 3784"

text \<open>The two ports; \<open>None\<close> is an error code, with the output variable left unset.\<close>

definition hicn_packet_get_src_port :: "bytes \<Rightarrow> u16 option" where
  "hicn_packet_get_src_port h = (case tcp_offset h of None \<Rightarrow> None | Some off \<Rightarrow> Some (be16 h off))"

definition hicn_packet_get_dst_port :: "bytes \<Rightarrow> u16 option" where
  "hicn_packet_get_dst_port h = (case tcp_offset h of None \<Rightarrow> None | Some off \<Rightarrow> Some (be16 h (off + 2)))"

definition hicn_packet_set_src_port :: "bytes \<Rightarrow> u16 \<Rightarrow> bytes" where
  "hicn_packet_set_src_port h src_port = (case tcp_offset h of None \<Rightarrow> h | Some off \<Rightarrow> put_be16 h off src_port)"

definition hicn_packet_set_dst_port :: "bytes \<Rightarrow> u16 \<Rightarrow> bytes" where
  "hicn_packet_set_dst_port h dst_port = (case tcp_offset h of None \<Rightarrow> h | Some off \<Rightarrow> put_be16 h (off + 2) dst_port)"

text \<open>
  A packet of another IP version, or without a TCP header, leaves the variables of the source
  unset; such packets have no name and do not get this far.
\<close>

definition messageHandler_IsAProbe :: "bytes \<Rightarrow> bool" where
  "messageHandler_IsAProbe packet =
     (case (hicn_packet_get_src_port packet, hicn_packet_get_dst_port packet) of
        (Some src_prt, Some dst_prt) \<Rightarrow>
          if dst_prt = BFD_PORT then True
          else if src_prt = BFD_PORT
          then messageHandler_IsTCP packet \<and> (case tcp_offset packet of None \<Rightarrow> False | Some off \<Rightarrow> tcp_get_lifetime packet off = 0)
          else False
      | _ \<Rightarrow> False)"

text \<open>
  The reply, for the format \<^verbatim>\<open>HF_INET6_TCP\<close> that the caller passes: the name and the locator are read
  and written at their IPv6 offsets, the ports, the flag and the expiry time by the version in the header.
\<close>

definition messageHandler_CreateProbeReply :: "bytes \<Rightarrow> bytes" where
  "messageHandler_CreateProbeReply probe =
     (let name = map (\<lambda>i. byte probe (24 + i)) [0..<16];
          suffix = map (\<lambda>i. byte probe (44 + i)) [0..<4];
          locator = map (\<lambda>i. byte probe (8 + i)) [0..<16]
      in case (hicn_packet_get_src_port probe, hicn_packet_get_dst_port probe, tcp_offset probe) of
           (Some src_prt, Some dst_prt, Some off) \<Rightarrow>
             (let p = hicn_packet_set_src_port probe dst_prt;
                  p = hicn_packet_set_dst_port p src_prt;
                  p = put p (off + 13) [byte p (off + 13) OR 0x40];
                  p = put p 8 name;
                  p = put p 44 suffix;
                  p = put p 24 locator
              in if messageHandler_IsTCP p then tcp_set_lifetime p off 0 else p)
         | _ \<Rightarrow> put probe 24 locator)"

section \<open>Reading and writing fields\<close>

lemma length_put [simp]: "length (put p off bs) = length p"
  by (induction p off bs rule: put.induct) auto

lemma byte_update: "byte (p[i := b]) j = (if i = j \<and> j < length p then b else byte p j)"
  by (auto simp: byte_def nth_list_update)

lemma byte_put:
  "byte (put p off bs) i = (if off \<le> i \<and> i < off + length bs \<and> i < length p then bs ! (i - off) else byte p i)"
proof (induction p off bs arbitrary: i rule: put.induct)
  case (2 p off b bs)
  show ?case
  proof (cases "off < i")
    case True
    then obtain k where "i = Suc (off + k)" using less_iff_Suc_add by auto
    then show ?thesis using 2[of i] by (auto simp: byte_update)
  qed (use 2[of i] in \<open>auto simp: byte_update\<close>)
qed auto

lemma length_put_fields [simp]:
  "length (put_le16 p off w) = length p" "length (put_be16 p off w) = length p" "length (put_le32 p off v) = length p"
  by (simp_all add: put_le16_def put_be16_def put_le32_def)

lemma word_bytes:
  "push_bit 8 (ucast (ucast (drop_bit 8 w) :: u8)) OR ucast (ucast w :: u8) = (w :: u16)"
  by (rule bit_word_eqI) (auto simp: bit_or_iff bit_push_bit_iff bit_unsigned_iff bit_drop_bit_eq dest: bit_imp_le_length)

lemma le16_put_le16: "off + 1 < length p \<Longrightarrow> le16 (put_le16 p off w) off = w"
  by (simp add: le16_def put_le16_def bytes_le16_def byte_update word_bytes)

lemma be16_put_be16: "off + 1 < length p \<Longrightarrow> be16 (put_be16 p off w) off = w"
  by (simp add: be16_def put_be16_def bytes_be16_def byte_update word_bytes)

lemma byte_put_field_other:
  "i < off \<or> off + 2 \<le> i \<Longrightarrow> byte (put_le16 p off w) i = byte p i"
  "i < off \<or> off + 2 \<le> i \<Longrightarrow> byte (put_be16 p off w) i = byte p i"
  by (auto simp: put_le16_def put_be16_def byte_update bytes_le16_def bytes_be16_def)

lemma le16_put_le16_other:
  "i + 2 \<le> off \<or> off + 2 \<le> i \<Longrightarrow> le16 (put_le16 p off w) i = le16 p i"
  by (auto simp: le16_def byte_put_field_other)

lemma word32_halves: "push_bit 16 (ucast (hi16 v)) OR ucast (lo16 v) = v"
  unfolding hi16_def lo16_def
  by (rule bit_word_eqI) (auto simp: bit_or_iff bit_push_bit_iff bit_unsigned_iff bit_drop_bit_eq dest: bit_imp_le_length)

lemma le32_put_le32: "off + 3 < length p \<Longrightarrow> le32 (put_le32 p off v) off = v"
  by (simp add: le32_def put_le32_def le16_put_le16 le16_put_le16_other word32_halves)

lemma lo16_le32 [simp]: "lo16 (le32 p off) = le16 p off" "hi16 (le32 p off) = le16 p (off + 2)"
  by (rule bit_word_eqI;
    auto simp: lo16_def hi16_def le32_def bit_or_iff bit_push_bit_iff bit_unsigned_iff bit_drop_bit_eq dest: bit_imp_le_length)+

section \<open>The checksum invariant\<close>

lemma fold_sum_less: "unat (fold_sum w) < 65536"
proof (induction w rule: fold_sum.induct)
  case (1 w)
  show ?case
  proof (cases "drop_bit 16 w = 0")
    case True
    then have "unat w div 65536 = 0" using unat_hi[of w] by simp
    then show ?thesis using True by (subst fold_sum.simps) simp
  qed (use 1 in \<open>subst fold_sum.simps, simp\<close>)
qed

lemma fold_sum_mod: "unat (fold_sum w) mod 65535 = unat w mod 65535"
proof (induction w rule: fold_sum.induct)
  case (1 w)
  have "unat w = (unat w div 65536 + unat w mod 65536) + 65535 * (unat w div 65536)"
    using div_mult_mod_eq[of "unat w" 65536] by linarith
  then have "unat w mod 65535 = (unat w div 65536 + unat w mod 65536) mod 65535"
    by (metis mod_mult_self2)
  then show ?case using 1 by (subst fold_sum.simps) (auto simp: fold_step_unat)
qed

lemma unat_not_u16: "unat (NOT (c :: u16)) = 65535 - unat c"
proof -
  have "NOT c = -1 - c" by (simp add: not_eq_complement)
  moreover have "unat (-1 - c) = unat (-1 :: u16) - unat c" by (rule unat_sub) simp
  moreover have "unat (-1 :: u16) = 65535" by (simp add: unsigned_minus_1_eq_mask mask_eq_exp_minus_1)
  ultimately show ?thesis by simp
qed

lemma csum_update_sum:
  "\<exists>k. uint (csum_update c old new) + uint new = uint c + uint old + 65535 * k"
proof -
  let ?s = "ucast (NOT c) + ucast (NOT old) + ucast new :: u32"
  have u: "unat c \<le> 65535" "unat old \<le> 65535" "unat new \<le> 65535"
    using unsigned_less[of c, where ?'a = nat] unsigned_less[of old, where ?'a = nat]
      unsigned_less[of new, where ?'a = nat] by simp_all
  then have s: "unat ?s = (65535 - unat c) + (65535 - unat old) + unat new"
    by (simp add: unat_word_ariths unat_not_u16 unsigned_ucast_eq take_bit_nat_eq_self)
  have f: "unat (ucast (fold_sum ?s) :: u16) = unat (fold_sum ?s)"
    using fold_sum_less[of ?s] by (simp add: unsigned_ucast_eq take_bit_nat_eq_self)
  have "ucast (NOT (fold_sum ?s)) = NOT (ucast (fold_sum ?s) :: u16)"
    by (rule bit_word_eqI) (auto simp: bit_unsigned_iff bit_not_iff)
  then have "unat (csum_update c old new) = 65535 - unat (fold_sum ?s)"
    by (simp add: csum_update_def Let_def unat_not_u16 f)
  moreover obtain k where "int (unat (fold_sum ?s)) = int (unat ?s) + 65535 * k"
    using fold_sum_mod[of ?s] by (metis mod_eqE zmod_int of_nat_numeral diff_add_cancel add.commute)
  moreover have "int (unat ?s) = 131070 - uint c - uint old + uint new"
    using s u by (simp add: of_nat_diff uint_nat del: of_nat_unat)
  ultimately have "uint (csum_update c old new) = 65535 - (131070 - uint c - uint old + uint new + 65535 * k)"
    using fold_sum_less[of ?s] by (simp add: uint_nat of_nat_diff del: of_nat_unat)
  then show ?thesis by (intro exI[of _ "- 1 - k"]) simp
qed

text \<open>The sum of the 16-bit words of a packet; a one's complement checksum is that sum modulo 65535.\<close>

definition word_sum :: "bytes \<Rightarrow> int" where
  "word_sum p = (\<Sum>i<length p div 2. uint (le16 p (2 * i)))"

lemma word_sum_put_le16:
  assumes "2 * k + 1 < length p"
  shows "word_sum (put_le16 p (2 * k) w) = word_sum p - uint (le16 p (2 * k)) + uint w"
proof -
  have k: "k < length p div 2" using assms by simp
  have at: "uint (le16 (put_le16 p (2 * k) w) (2 * i)) = (if i = k then uint w else uint (le16 p (2 * i)))" for i
    using assms le16_put_le16[of "2 * k" p w] le16_put_le16_other[of "2 * i" "2 * k" p w] by (cases i k rule: linorder_cases) auto
  have "word_sum (put_le16 p (2 * k) w) = (\<Sum>i<length p div 2. if i = k then uint w else uint (le16 p (2 * i)))"
    unfolding word_sum_def length_put_fields at ..
  also have "\<dots> = uint w + (\<Sum>i\<in>{..<length p div 2} - {k}. uint (le16 p (2 * i)))"
    using k by (subst sum.remove[of _ k]) (auto intro!: sum.cong)
  also have "(\<Sum>i\<in>{..<length p div 2} - {k}. uint (le16 p (2 * i))) = word_sum p - uint (le16 p (2 * k))"
    using k by (simp add: word_sum_def sum_diff1)
  finally show ?thesis by simp
qed

text \<open>
  The checksum word after an update compensates the change from \<open>olds\<close> to \<open>news\<close>, up to a multiple
  of 65535.
\<close>

definition vsum :: "u16 list \<Rightarrow> int" where
  "vsum ws = sum_list (map (\<lambda>w. uint w) ws)"

lemma update_csum_at_sum:
  assumes "length olds = length news" "2 * k + 1 < length p"
  shows "\<exists>m. word_sum (update_csum_at (2 * k) p olds news) = word_sum p + vsum olds - vsum news + 65535 * m"
  using assms
proof (induction olds news arbitrary: p rule: list_induct2)
  case Nil
  then show ?case by (intro exI[of _ 0]) (simp add: update_csum_at_def vsum_def)
next
  case (Cons old olds new news)
  let ?p = "put_le16 p (2 * k) (csum_update (le16 p (2 * k)) old new)"
  obtain m where m: "word_sum (update_csum_at (2 * k) ?p olds news) = word_sum ?p + vsum olds - vsum news + 65535 * m"
    using Cons.IH[of ?p] Cons.prems by auto
  obtain n where "uint (csum_update (le16 p (2 * k)) old new) + uint new =
      uint (le16 p (2 * k)) + uint old + 65535 * n" using csum_update_sum by blast
  then have "word_sum ?p = word_sum p + uint old - uint new + 65535 * n"
    using word_sum_put_le16[OF Cons.prems] by simp
  with m show ?case by (intro exI[of _ "m + n"]) (simp add: update_csum_at_def vsum_def algebra_simps)
qed

text \<open>Writing a 32-bit field, and a run of 16-bit fields, at an even offset.\<close>

lemma word_sum_put_le32:
  assumes "2 * k + 3 < length p"
  shows "word_sum (put_le32 p (2 * k) v) =
    word_sum p - vsum [lo16 (le32 p (2 * k)), hi16 (le32 p (2 * k))] + vsum [lo16 v, hi16 v]"
  using assms word_sum_put_le16[of k p "lo16 v"] word_sum_put_le16[of "Suc k" "put_le16 p (2 * k) (lo16 v)" "hi16 v"]
    le16_put_le16_other[of "2 * k + 2" "2 * k" p "lo16 v"]
  by (simp add: put_le32_def vsum_def)

lemma tcp_offset_cases:
  assumes "tcp_offset p = Some off"
  shows "off = 2 * (off div 2)" "10 \<le> off div 2" "off \<noteq> 0" "0 < off"
  using assms by (auto simp: tcp_offset_def IPV6_HDRLEN_def IPV4_HDRLEN_def split: if_splits)

lemma header_frame:
  assumes "20 \<le> off"
  shows "tcp_offset (put_le16 p off w) = tcp_offset p" "messageHandler_IsTCP (put_le16 p off w) = messageHandler_IsTCP p"
    "messageHandler_GetIPPacketType (put_le16 p off w) = messageHandler_GetIPPacketType p"
proof -
  have b: "byte (put_le16 p off w) i = byte p i" if "i < 20" for i
    using that assms by (simp add: byte_put_field_other)
  show t: "messageHandler_GetIPPacketType (put_le16 p off w) = messageHandler_GetIPPacketType p"
    by (simp add: messageHandler_GetIPPacketType_def b)
  show "tcp_offset (put_le16 p off w) = tcp_offset p" "messageHandler_IsTCP (put_le16 p off w) = messageHandler_IsTCP p"
    by (simp_all add: tcp_offset_def messageHandler_IsTCP_def messageHandler_NextHeaderType_def t b)
qed

lemma length_update_csum_at [simp]: "length (update_csum_at off p olds news) = length p"
proof -
  have "length (foldl (\<lambda>m (old_val, new_val). put_le16 m off (csum_update (le16 m off) old_val new_val)) p xs) = length p" for xs
    by (induction xs arbitrary: p) auto
  then show ?thesis by (simp add: update_csum_at_def)
qed

lemma le16_update_csum_at_other:
  "i + 2 \<le> off \<or> off + 2 \<le> i \<Longrightarrow> le16 (update_csum_at off p olds news) i = le16 p i"
proof -
  assume *: "i + 2 \<le> off \<or> off + 2 \<le> i"
  have "le16 (foldl (\<lambda>m (old_val, new_val). put_le16 m off (csum_update (le16 m off) old_val new_val)) p xs) i = le16 p i" for xs
    using * by (induction xs arbitrary: p) (auto simp: le16_put_le16_other)
  then show ?thesis by (simp add: update_csum_at_def)
qed

lemma SetPathLabel_tcp:
  assumes "messageHandler_IsTCP p" "tcp_offset p = Some off"
  shows "messageHandler_SetPathLabel p old new =
    update_csum_at (off + 16) (put_le32 p (off + 8) new) [lo16 old, hi16 old] [lo16 new, hi16 new]"
  using assms tcp_offset_cases[OF assms(2)]
  by (simp add: messageHandler_SetPathLabel_def tcp_set_data_pathlabel_def messageHandler_UpdateTCPCheckSum_def
      put_le32_def header_frame)

lemma SetPathLabel_sum:
  assumes "messageHandler_IsTCP p" "tcp_offset p = Some off" "off + 18 \<le> length p" "old = messageHandler_GetPathLabel p"
  shows "word_sum (messageHandler_SetPathLabel p old new) mod 65535 = word_sum p mod 65535"
proof -
  obtain k where k: "off = 2 * k" using tcp_offset_cases(1)[OF assms(2)] by blast
  have old: "old = le32 p (2 * (k + 4))"
    using assms k by (simp add: messageHandler_GetPathLabel_def tcp_get_data_pathlabel_def)
  let ?q = "put_le32 p (2 * (k + 4)) new"
  have "word_sum ?q = word_sum p - vsum [lo16 old, hi16 old] + vsum [lo16 new, hi16 new]"
    using word_sum_put_le32[of "k + 4" p new] assms(3) k old by simp
  moreover obtain m where "word_sum (update_csum_at (2 * (k + 8)) ?q [lo16 old, hi16 old] [lo16 new, hi16 new]) =
      word_sum ?q + vsum [lo16 old, hi16 old] - vsum [lo16 new, hi16 new] + 65535 * m"
    using update_csum_at_sum[of "[lo16 old, hi16 old]" "[lo16 new, hi16 new]" "k + 8" ?q] assms(3) k by auto
  ultimately have "word_sum (messageHandler_SetPathLabel p old new) = word_sum p + 65535 * m"
    using SetPathLabel_tcp[OF assms(1,2), of old new] k by (simp add: distrib_left)
  then show ?thesis by simp
qed

lemma GetPathLabel_SetPathLabel:
  assumes "messageHandler_IsTCP p" "tcp_offset p = Some off" "off + 18 \<le> length p"
  shows "messageHandler_GetPathLabel (messageHandler_SetPathLabel p old new) = new"
proof -
  let ?q = "put_le32 p (off + 8) new" and ?c = "\<lambda>q. update_csum_at (off + 16) q [lo16 old, hi16 old] [lo16 new, hi16 new]"
  have le: "le32 (?c ?q) (off + 8) = new"
    using assms(3) le32_put_le32[of "off + 8" p new] by (simp add: le32_def le16_update_csum_at_other)
  have "20 \<le> off" using tcp_offset_cases[OF assms(2)] by linarith
  then have "messageHandler_IsTCP (?c ?q)" "tcp_offset (?c ?q) = Some off"
    using assms by (simp_all add: update_csum_at_def put_le32_def header_frame)
  with le show ?thesis
    unfolding SetPathLabel_tcp[OF assms(1,2)] by (simp add: messageHandler_GetPathLabel_def tcp_get_data_pathlabel_def)
qed

section \<open>The lifetime encoding\<close>

lemma unat_drop_bit_1: "unat (drop_bit 1 (l :: u32)) = unat l div 2"
  using unat_drop_bit_eq[of 1 l] drop_bit_eq_div[of 1 "unat l"] by simp

lemma unat_inc_u8: "unat (m :: u8) \<le> 15 \<Longrightarrow> unat (m + 1) = unat m + 1"
  by (simp add: unat_word_ariths)

lemma scale_lifetime_steps:
  assumes "unat m \<le> 16"
  shows "\<exists>d. unat (fst (scale_lifetime l m)) = unat l div 2 ^ d \<and> unat (snd (scale_lifetime l m)) = unat m + d \<and>
    unat m + d \<le> 16 \<and> (\<forall>i<d. 65535 < unat l div 2 ^ i) \<and> (unat l div 2 ^ d \<le> 65535 \<or> unat m + d = 16)"
  using assms
proof (induction l m rule: scale_lifetime.induct)
  case (1 l m)
  show ?case
  proof (cases "l > HICN_MAX_LIFETIME_SCALED \<and> m \<le> HICN_MAX_LIFETIME_MULTIPLIER")
    case True
    then have l: "65535 < unat l" and m: "unat m \<le> 15"
      by (auto simp: HICN_MAX_LIFETIME_SCALED_def HICN_MAX_LIFETIME_MULTIPLIER_def word_less_nat_alt word_le_nat_alt)
    from "1.IH"[OF True] m obtain d where d:
      "unat (fst (scale_lifetime (drop_bit 1 l) (m + 1))) = unat (drop_bit 1 l) div 2 ^ d"
      "unat (snd (scale_lifetime (drop_bit 1 l) (m + 1))) = unat (m + 1) + d" "unat (m + 1) + d \<le> 16"
      "\<forall>i<d. 65535 < unat (drop_bit 1 l) div 2 ^ i" "unat (drop_bit 1 l) div 2 ^ d \<le> 65535 \<or> unat (m + 1) + d = 16"
      by (auto simp: unat_inc_u8)
    have pow: "unat (drop_bit 1 l) div 2 ^ i = unat l div 2 ^ Suc i" for i
      unfolding unat_drop_bit_1 by (simp add: div_mult2_eq)
    have "65535 < unat l div 2 ^ i" if "i < Suc d" for i
      using d(4) l that pow by (cases i) (auto simp del: power_Suc)
    moreover have "scale_lifetime l m = scale_lifetime (drop_bit 1 l) (m + 1)"
      using True by (subst scale_lifetime.simps) auto
    ultimately show ?thesis using d m pow
      by (intro exI[of _ "Suc d"]) (simp add: unat_inc_u8 del: power_Suc)
  next
    case False
    then have "unat l \<le> 65535 \<or> unat m = 16"
      using "1.prems" by (auto simp: HICN_MAX_LIFETIME_SCALED_def HICN_MAX_LIFETIME_MULTIPLIER_def word_less_nat_alt word_le_nat_alt)
    moreover have "scale_lifetime l m = (l, m)" using False by (subst scale_lifetime.simps) auto
    ultimately show ?thesis using "1.prems" by (intro exI[of _ 0]) simp
  qed
qed

lemma scale_lifetime_bounds:
  assumes "l < HICN_MAX_LIFETIME" "scale_lifetime l 0 = (s, m)"
  shows "unat m \<le> 15" "unat s \<le> 65535" "unat s = unat l div 2 ^ unat m" "0 < unat m \<Longrightarrow> 32768 \<le> unat s"
proof -
  obtain d where d: "unat s = unat l div 2 ^ d" "unat m = d" "d \<le> 16"
    "\<forall>i<d. 65535 < unat l div 2 ^ i" "unat l div 2 ^ d \<le> 65535 \<or> d = 16"
    using scale_lifetime_steps[of 0 l] assms(2) by auto
  have l: "unat l < 65535 * 2 ^ 15" using assms(1) by (simp add: HICN_MAX_LIFETIME_def word_less_nat_alt)
  then have "unat l div 2 ^ 15 < 65535" by (simp add: div_less_iff_less_mult)
  then have "\<not> 15 < d" using d(4) less_asym by blast
  then have "d \<le> 15" by simp
  then show "unat m \<le> 15" "unat s \<le> 65535" "unat s = unat l div 2 ^ unat m" using d by auto
  show "32768 \<le> unat s" if "0 < unat m"
  proof -
    have "d \<noteq> 0" using that d(2) by simp
    then obtain e where e: "d = Suc e" using not0_implies_Suc by blast
    then have "65535 < unat l div 2 ^ e" using d(4) by simp
    then have "32768 \<le> unat l div 2 ^ e div 2" by linarith
    moreover have "unat s = unat l div 2 ^ e div 2" unfolding d(1) e power_Suc mult.commute[of 2] by (rule div_mult2_eq)
    ultimately show ?thesis by simp
  qed
qed

lemma nibble_or:
  "unat m \<le> 15 \<Longrightarrow> (((b AND NOT 0x0F) OR m) AND 0xF) = (m :: u8)"
proof -
  assume "unat m \<le> 15"
  then have "take_bit 4 m = m"
    by (simp add: word_unat_eq_iff unsigned_take_bit_eq take_bit_nat_eq_self)
  then have m: "bit m i \<longleftrightarrow> i < 4 \<and> bit m i" for i by (metis bit_take_bit_iff)
  have F: "(0xF :: u8) = mask 4" by (simp add: mask_eq_exp_minus_1)
  show ?thesis unfolding F
    by (rule bit_word_eqI) (use m in \<open>auto simp: bit_and_iff bit_or_iff bit_not_iff bit_mask_iff\<close>)
qed

lemma tcp_get_set_fields:
  assumes "tcp + 20 \<le> length p" "unat m \<le> 15"
  shows "unat (tcp_get_lifetime (put (put_be16 p (tcp + 18) w) (tcp + 12) [(b AND NOT 0x0F) OR m]) tcp) = unat w * 2 ^ unat m"
proof -
  let ?q = "put (put_be16 p (tcp + 18) w) (tcp + 12) [(b AND NOT 0x0F) OR m]"
  have "be16 ?q (tcp + 18) = be16 (put_be16 p (tcp + 18) w) (tcp + 18)"
    by (simp add: be16_def byte_update)
  also have "\<dots> = w" using assms(1) by (intro be16_put_be16) simp
  finally have "be16 ?q (tcp + 18) = w" .
  moreover have "byte ?q (tcp + 12) = (b AND NOT 0x0F) OR m" using assms(1) by (simp add: byte_update)
  ultimately have "tcp_get_lifetime ?q tcp = push_bit (unat m) (ucast w)"
    using nibble_or[OF assms(2)] by (simp add: tcp_get_lifetime_def)
  moreover have "unat w * 2 ^ unat m < 2 ^ 32"
  proof -
    have "unat w < 2 ^ 16" using unsigned_less[of w, where ?'a = nat] by simp
    moreover have "(2 :: nat) ^ unat m \<le> 2 ^ 15" using assms(2) by (intro power_increasing) auto
    ultimately have "unat w * 2 ^ unat m < 2 ^ 16 * 2 ^ 15" by (intro mult_less_le_imp_less) auto
    then show ?thesis by simp
  qed
  moreover have "unat (push_bit (unat m) (ucast w :: u32)) = take_bit 32 (push_bit (unat m) (unat (ucast w :: u32)))"
    using unsigned_push_bit_eq[of "unat m" "ucast w :: u32", where ?'a = nat] by simp
  moreover have "unat (ucast w :: u32) = unat w" using unsigned_less[of w, where ?'a = nat]
    by (simp add: unsigned_ucast_eq take_bit_nat_eq_self)
  ultimately show ?thesis by (simp only: push_bit_eq_mult) (simp only: take_bit_nat_eq_self)
qed

section \<open>Properties\<close>

text \<open>An IPv6 TCP packet with all other fields zero, for the witnesses: header, then TCP.\<close>

definition ex_packet6 :: bytes where
  "ex_packet6 = [0x60, 0, 0, 0, 0, 20, 6, 64] @ replicate 32 0 @ replicate 20 0"

lemma ex_packet6_tcp:
  "messageHandler_IsTCP ex_packet6" "tcp_offset ex_packet6 = Some 40" "length ex_packet6 = 60"
  by code_simp+

text \<open>
  C36. Path labels and the checksum: rewriting the path label of a TCP packet stores the new label,
  and the incremental update keeps the one's complement sum of the packet's 16-bit words, so a
  packet whose checksum was valid still has a valid one.
\<close>

theorem messageHandler_SetPathLabel_checksum:
  assumes "messageHandler_IsTCP p" "tcp_offset p = Some off" "off + 18 \<le> length p"
    and "q = messageHandler_SetPathLabel p (messageHandler_GetPathLabel p) new"
  shows "messageHandler_GetPathLabel q = new \<and> word_sum q mod 65535 = word_sum p mod 65535 \<and> length q = length p"
  using GetPathLabel_SetPathLabel[OF assms(1-3)] SetPathLabel_sum[OF assms(1-3) refl] assms(4)
    SetPathLabel_tcp[OF assms(1,2)] by simp

theorem messageHandler_SetPathLabel_checksum_witness:
  "messageHandler_GetPathLabel (messageHandler_SetPathLabel ex_packet6 (messageHandler_GetPathLabel ex_packet6) 0x12345678) = 0x12345678"
  using messageHandler_SetPathLabel_checksum[where new = "0x12345678", OF ex_packet6_tcp(1,2) _ refl] ex_packet6_tcp(3) by simp

text \<open>
  Lifetimes: writing a lifetime and reading it back gives a value that is never larger, is exact
  up to 65535, is off by at most one part in 32768 below the maximum, and is the maximum for
  anything at or above it.
\<close>

theorem tcp_lifetime_roundtrip:
  assumes "tcp + 20 \<le> length p"
  shows "let r = tcp_get_lifetime (tcp_set_lifetime p tcp lifetime) tcp in
    unat r \<le> unat lifetime \<and> (unat lifetime \<le> 65535 \<longrightarrow> r = lifetime) \<and>
    (lifetime < HICN_MAX_LIFETIME \<longrightarrow> (unat lifetime - unat r) * 32768 \<le> unat lifetime) \<and>
    (lifetime \<ge> HICN_MAX_LIFETIME \<longrightarrow> r = HICN_MAX_LIFETIME)"
proof (cases "lifetime \<ge> HICN_MAX_LIFETIME")
  case True
  have "unat (tcp_get_lifetime (tcp_set_lifetime p tcp lifetime) tcp) = 65535 * 2 ^ 15"
    using tcp_get_set_fields[OF assms, where m = "0x0F" and w = "0xFFFF" and b = "byte p (tcp + 12)"] True
    by (simp add: tcp_set_lifetime_def HICN_MAX_LIFETIME_MULTIPLIER_def HICN_MAX_LIFETIME_SCALED_def)
  moreover have "unat HICN_MAX_LIFETIME = 65535 * 2 ^ 15" by (simp add: HICN_MAX_LIFETIME_def)
  ultimately show ?thesis using True
    by (simp add: Let_def word_le_nat_alt word_less_nat_alt word_unat_eq_iff)
next
  case False
  obtain s m where sm: "scale_lifetime lifetime 0 = (s, m)" by (cases "scale_lifetime lifetime 0")
  note b = scale_lifetime_bounds[OF _ sm]
  have lt: "lifetime < HICN_MAX_LIFETIME" using False by simp
  let ?r = "tcp_get_lifetime (tcp_set_lifetime p tcp lifetime) tcp"
  have "unat (ucast s :: u16) = unat s" using b(2)[OF lt] by (simp add: unsigned_ucast_eq take_bit_nat_eq_self)
  then have r: "unat ?r = unat s * 2 ^ unat m"
    using tcp_get_set_fields[OF assms b(1)[OF lt], where w = "ucast s" and b = "byte p (tcp + 12)"] False sm
    by (simp add: tcp_set_lifetime_def)
  have le: "unat ?r \<le> unat lifetime" using r b(3)[OF lt] by (simp add: div_times_less_eq_dividend)
  have exact: "?r = lifetime" if "unat lifetime \<le> 65535"
  proof -
    have "\<not> lifetime > HICN_MAX_LIFETIME_SCALED" using that by (simp add: HICN_MAX_LIFETIME_SCALED_def word_less_nat_alt)
    then have "scale_lifetime lifetime 0 = (lifetime, 0)" by (subst scale_lifetime.simps) (rule if_not_P, simp)
    then have "m = 0" using sm by simp
    then show ?thesis using r b(3)[OF lt] by (simp add: word_unat_eq_iff)
  qed
  have "(unat lifetime - unat ?r) * 32768 \<le> unat lifetime"
  proof (cases "unat m = 0")
    case True
    then show ?thesis using r b(3)[OF lt] by simp
  next
    case m: False
    have "unat lifetime - unat ?r < 2 ^ unat m"
      using r b(3)[OF lt] by (simp add: minus_div_mult_eq_mod)
    then have "(unat lifetime - unat ?r) * 32768 \<le> 2 ^ unat m * unat s"
      using b(4)[OF lt] m by (intro mult_le_mono) auto
    also have "\<dots> \<le> unat lifetime" using le r by (simp add: mult.commute)
    finally show ?thesis .
  qed
  with le exact False show ?thesis by (simp add: Let_def)
qed

theorem tcp_lifetime_roundtrip_witness:
  "unat (tcp_get_lifetime (tcp_set_lifetime ex_packet6 40 100000) 40) \<le> 100000"
  using tcp_lifetime_roundtrip[of 40 ex_packet6 100000] ex_packet6_tcp(3) by (simp add: Let_def)

text \<open>
  WLDR labels break the checksum: the code updates it with the host-order values of the label
  while the field holds network order, so on a little-endian host a packet with a valid sum gets
  an invalid one.
\<close>

theorem messageHandler_SetWldrLabel_breaks_checksum:
  "word_sum (messageHandler_SetWldrLabel ex_packet6 1) mod 65535 \<noteq> word_sum ex_packet6 mod 65535"
  unfolding word_sum_def by code_simp

text \<open>
  Interest lifetimes above 65535 ms are cut to 16 bits: a packet whose lifetime field says 65536
  is reported as having no lifetime at all.
\<close>

theorem messageHandler_lifetime_truncated:
  "tcp_get_lifetime (tcp_set_lifetime ex_packet6 40 65536) 40 = 65536 \<and>
   \<not> messageHandler_HasInterestLifetime (tcp_set_lifetime ex_packet6 40 65536)"
  by code_simp

end
