(* ===== verification/Message.thy ===== *)
theory Message
  imports Packet NameBitvector
begin

text \<open>
  Names and messages (\<^verbatim>\<open>hicn-light/src/hicn/core/name.c\<close> and \<^verbatim>\<open>message.c\<close>, the tick conversions
  of \<^verbatim>\<open>forwarder.c\<close>). A name is a bit vector, a segment number and a hash that is computed when
  the name is made; a message is a received packet with its name, its arrival time and the
  connection it came from.

  The hash function \<^verbatim>\<open>parcHash32_Data_Cumulative\<close> belongs to libparc: it is the parameter
  \<open>H\<close> of the definitions that need it (the data, then the running value). The reference counts of
  names and messages are memory management and are left out; a name here is a value.

  The lemmas show that equal names have equal hashes (what the hash tables of the PIT and of
  the content store rely on), that \<open>name_Compare\<close> agrees with \<open>name_Equals\<close>, and which name a
  packet gets.
\<close>

section \<open>Names\<close>

type_synonym hash_fun = "bytes \<Rightarrow> u32 \<Rightarrow> u32"

record Name =
  content_name :: "NameBitvector option"
  segment :: u32
  name_hash :: u32

datatype MessagePacketType =
    MessagePacketType_Unknown | MessagePacketType_Interest
  | MessagePacketType_ContentObject | MessagePacketType_WldrNotification

text \<open>The bytes of the words that are hashed, as they lie in memory on a little-endian host.\<close>

definition u64_bytes :: "u64 \<Rightarrow> bytes" where
  "u64_bytes w = map (\<lambda>i. ucast (drop_bit (8 * i) w)) [0..<8]"

definition u32_bytes :: "u32 \<Rightarrow> bytes" where
  "u32_bytes w = map (\<lambda>i. ucast (drop_bit (8 * i) w)) [0..<4]"

definition nameBitvector_GetHash32 :: "hash_fun \<Rightarrow> NameBitvector \<Rightarrow> u32" where
  "nameBitvector_GetHash32 H name = H (u64_bytes (bits0 name) @ u64_bytes (bits1 name)) 0"

definition computeHash :: "hash_fun \<Rightarrow> NameBitvector \<Rightarrow> u32 \<Rightarrow> u32" where
  "computeHash H content seg = H (u32_bytes seg) (nameBitvector_GetHash32 H content)"

definition make_name :: "hash_fun \<Rightarrow> NameBitvector \<Rightarrow> u32 \<Rightarrow> Name" where
  "make_name H content seg = \<lparr>content_name = Some content, segment = seg, name_hash = computeHash H content seg\<rparr>"

text \<open>\<open>None\<close> is the return value \<^verbatim>\<open>NULL\<close>.\<close>

definition name_CreateFromPacket :: "hash_fun \<Rightarrow> bytes \<Rightarrow> MessagePacketType \<Rightarrow> Name option" where
  "name_CreateFromPacket H packet type =
     (let addr = (case type of
                    MessagePacketType_Interest \<Rightarrow> messageHandler_GetDestination packet
                  | MessagePacketType_ContentObject \<Rightarrow> messageHandler_GetSource packet
                  | _ \<Rightarrow> None);
          content = (if messageHandler_GetIPPacketType packet = IPv6_TYPE
                     then (case addr of None \<Rightarrow> None | Some a \<Rightarrow> Some (nameBitvector_CreateFromIn6Addr a 128))
                     else if messageHandler_GetIPPacketType packet = IPv4_TYPE
                     then (case addr of None \<Rightarrow> None | Some a \<Rightarrow> Some (nameBitvector_CreateFromInAddr (le32 a 0) 32))
                     else None)
      in case content of None \<Rightarrow> None | Some c \<Rightarrow> Some (make_name H c (messageHandler_GetSegment packet)))"

fun name_CreateFromAddress :: "hash_fun \<Rightarrow> Address \<Rightarrow> u8 \<Rightarrow> Name res" where
  "name_CreateFromAddress H (ADDR_INET as_u32) len = Inr (make_name H (nameBitvector_CreateFromInAddr as_u32 len) 0)"
| "name_CreateFromAddress H (ADDR_INET6 as_in6addr) len = Inr (make_name H (nameBitvector_CreateFromIn6Addr as_in6addr len) 0)"
| "name_CreateFromAddress H ADDR_OTHER len = Inl TrapNotImplemented"

definition name_Copy :: "Name \<Rightarrow> Name" where
  "name_Copy original =
     \<lparr>content_name = map_option nameBitvector_Copy (content_name original),
      segment = segment original, name_hash = name_hash original\<rparr>"

definition name_HashCode :: "Name \<Rightarrow> u32" where
  "name_HashCode name = name_hash name"

definition name_Equals :: "Name \<Rightarrow> Name \<Rightarrow> bool" where
  "name_Equals a b =
     (case (content_name a, content_name b) of
        (Some ca, Some cb) \<Rightarrow> if nameBitvector_Equals ca cb \<and> segment a = segment b then True else False
      | _ \<Rightarrow> False)"

definition name_Compare :: "Name \<Rightarrow> Name \<Rightarrow> int" where
  "name_Compare a b =
     (let res = nameBitvector_Compare (content_name a) (content_name b) in
      if res \<noteq> 0 then res
      else if segment a < segment b then -1
      else if segment a > segment b then 1
      else 0)"

text \<open>A name whose content pointer is \<^verbatim>\<open>NULL\<close> is dereferenced by \<^verbatim>\<open>name_setLen\<close>.\<close>

definition name_setLen :: "hash_fun \<Rightarrow> Name \<Rightarrow> u8 \<Rightarrow> Name res" where
  "name_setLen H name len =
     (case content_name name of
        None \<Rightarrow> Inl NullDereference
      | Some c \<Rightarrow> (let c = nameBitvector_setLen c (unat len) in
          Inr (name\<lparr>content_name := Some c, name_hash := computeHash H c (segment name)\<rparr>)))"

definition name_GetSuffix :: "Name \<Rightarrow> u32" where
  "name_GetSuffix name = segment name"

definition name_GetLen :: "Name \<Rightarrow> nat res" where
  "name_GetLen name = (case content_name name of None \<Rightarrow> Inl NullDereference | Some c \<Rightarrow> Inr (nameBitvector_GetLength c))"

text \<open>The bit vector of a name that has one.\<close>

definition name_bv :: "Name \<Rightarrow> NameBitvector" where
  "name_bv name = the (content_name name)"

section \<open>Messages\<close>

record Message =
  receiveTime :: ticks
  ingressConnectionId :: connid
  msg_name :: "Name option"
  messageHead :: bytes
  msg_length :: u32
  packetType :: MessagePacketType
  msg_refcount :: u32

definition message_Acquire :: "Message \<Rightarrow> Message" where
  "message_Acquire message = message\<lparr>msg_refcount := msg_refcount message + 1\<rparr>"

text \<open>\<open>None\<close> when the last reference is gone and the message is freed.\<close>

definition message_Release :: "Message \<Rightarrow> Message option res" where
  "message_Release message =
     (if msg_refcount message > 0
      then (let m = message\<lparr>msg_refcount := msg_refcount message - 1\<rparr> in
            Inr (if msg_refcount m = 0 then None else Some m))
      else Inl AssertFailed)"

text \<open>
  \<open>data\<close> is what \<^verbatim>\<open>parcEventBuffer_Read\<close> copies out, \<open>None\<close> when it returns \<^verbatim>\<open>-1\<close>. The result
  \<open>None\<close> is \<^verbatim>\<open>NULL\<close>.
\<close>

definition message_CreateFromEventBuffer ::
  "hash_fun \<Rightarrow> bytes option \<Rightarrow> connid \<Rightarrow> ticks \<Rightarrow> Message option" where
  "message_CreateFromEventBuffer H data ingress receive_time =
     (case data of
        None \<Rightarrow> None
      | Some head \<Rightarrow>
          (let type = (if messageHandler_IsInterest head then Some MessagePacketType_Interest
                       else if messageHandler_IsData head then Some MessagePacketType_ContentObject else None)
           in case type of
                None \<Rightarrow> None
              | Some t \<Rightarrow> Some \<lparr>receiveTime = receive_time, ingressConnectionId = ingress,
                              msg_name = name_CreateFromPacket H head t, messageHead = head,
                              msg_length = of_nat (length head), packetType = t, msg_refcount = 1\<rparr>))"

definition message_CreateFromByteArray ::
  "hash_fun \<Rightarrow> connid \<Rightarrow> bytes \<Rightarrow> MessagePacketType \<Rightarrow> ticks \<Rightarrow> Message" where
  "message_CreateFromByteArray H conn pckt type receive_time =
     \<lparr>receiveTime = receive_time, ingressConnectionId = conn,
      msg_name = (if messageHandler_IsWldrNotification pckt then None else name_CreateFromPacket H pckt type),
      messageHead = pckt, msg_length = ucast (messageHandler_GetTotalPacketLength pckt),
      packetType = type, msg_refcount = 1\<rparr>"

definition message_CreateWldrNotification :: "Message \<Rightarrow> u16 \<Rightarrow> u16 \<Rightarrow> Message" where
  "message_CreateWldrNotification original expected lastReceived =
     (let len = messageHandler_GetICMPPacketSize (messageHandler_GetIPPacketType (messageHead original))
      in \<lparr>receiveTime = receiveTime original, ingressConnectionId = ingressConnectionId original,
          msg_name = None,
          messageHead = messageHandler_SetWldrNotification (replicate len 0) (messageHead original) expected lastReceived,
          msg_length = of_nat len, packetType = MessagePacketType_WldrNotification, msg_refcount = 1\<rparr>)"

definition message_Length :: "Message \<Rightarrow> u32" where
  "message_Length message = msg_length message"

definition message_HasWldr :: "Message \<Rightarrow> bool" where
  "message_HasWldr message = messageHandler_HasWldr (messageHead message)"

definition message_IsWldrNotification :: "Message \<Rightarrow> bool" where
  "message_IsWldrNotification message = messageHandler_IsWldrNotification (messageHead message)"

definition message_ResetWldrLabel :: "Message \<Rightarrow> Message" where
  "message_ResetWldrLabel message = message\<lparr>messageHead := messageHandler_ResetWldrLabel (messageHead message)\<rparr>"

definition message_GetWldrLabel :: "Message \<Rightarrow> u16" where
  "message_GetWldrLabel message = messageHandler_GetWldrLabel (messageHead message)"

definition message_GetWldrExpectedLabel :: "Message \<Rightarrow> u16" where
  "message_GetWldrExpectedLabel message = messageHandler_GetExpectedWldrLabel (messageHead message)"

definition message_GetWldrLastReceived :: "Message \<Rightarrow> u16" where
  "message_GetWldrLastReceived message = messageHandler_GetWldrLastReceived (messageHead message)"

definition message_SetWldrLabel :: "Message \<Rightarrow> u16 \<Rightarrow> Message" where
  "message_SetWldrLabel message label = message\<lparr>messageHead := messageHandler_SetWldrLabel (messageHead message) label\<rparr>"

definition message_GetIngressConnectionId :: "Message \<Rightarrow> connid" where
  "message_GetIngressConnectionId message = ingressConnectionId message"

definition message_SetIngressConnectionId :: "Message \<Rightarrow> connid \<Rightarrow> Message" where
  "message_SetIngressConnectionId message conn = message\<lparr>ingressConnectionId := conn\<rparr>"

definition message_GetReceiveTime :: "Message \<Rightarrow> ticks" where
  "message_GetReceiveTime message = receiveTime message"

definition message_GetPathLabel :: "Message \<Rightarrow> u32" where
  "message_GetPathLabel message = messageHandler_GetPathLabel (messageHead message)"

definition message_SetPathLabel :: "Message \<Rightarrow> u32 \<Rightarrow> Message" where
  "message_SetPathLabel message label = message\<lparr>messageHead :=
     messageHandler_SetPathLabel (messageHead message) (messageHandler_GetPathLabel (messageHead message)) label\<rparr>"

definition message_UpdatePathLabel :: "Message \<Rightarrow> u8 \<Rightarrow> Message" where
  "message_UpdatePathLabel message outFace = message\<lparr>messageHead := messageHandler_UpdatePathLabel (messageHead message) outFace\<rparr>"

definition message_ResetPathLabel :: "Message \<Rightarrow> Message" where
  "message_ResetPathLabel message = message\<lparr>messageHead := messageHandler_ResetPathLabel (messageHead message)\<rparr>"

definition message_GetType :: "Message \<Rightarrow> MessagePacketType" where
  "message_GetType message = packetType message"

definition message_GetName :: "Message \<Rightarrow> Name option" where
  "message_GetName message = msg_name message"

definition message_HasInterestLifetime :: "Message \<Rightarrow> bool" where
  "message_HasInterestLifetime message = messageHandler_HasInterestLifetime (messageHead message)"

text \<open>The clock ticks once per millisecond (\<^verbatim>\<open>HZ\<close> is 1000).\<close>

definition NSEC_PER_TICK :: u64 where "NSEC_PER_TICK = 1000000000 div 1000"

definition forwarder_NanosToTicks :: "u64 \<Rightarrow> ticks" where
  "forwarder_NanosToTicks nanos = (if nanos < NSEC_PER_TICK then 1 else nanos div NSEC_PER_TICK)"

definition forwarder_TicksToNanos :: "ticks \<Rightarrow> u64" where
  "forwarder_TicksToNanos t = 1000000000 * t div 1000"

definition message_GetInterestLifetimeTicks :: "Message \<Rightarrow> ticks" where
  "message_GetInterestLifetimeTicks message =
     forwarder_NanosToTicks (ucast (messageHandler_GetInterestLifetime (messageHead message)) * 1000000)"

definition message_HasContentExpiryTime :: "Message \<Rightarrow> bool" where
  "message_HasContentExpiryTime message = messageHandler_HasContentExpiryTime (messageHead message)"

definition message_GetContentExpiryTimeTicks :: "Message \<Rightarrow> ticks" where
  "message_GetContentExpiryTimeTicks message =
     (let expire = ucast (messageHandler_GetContentExpiryTime (messageHead message)) :: u64 in
      if expire = 0 then receiveTime message
      else receiveTime message + forwarder_NanosToTicks (expire * 1000000))"

section \<open>What a name is compared by\<close>

definition name_key :: "Name \<Rightarrow> (u64 \<times> u64 \<times> u8 \<times> u32) option" where
  "name_key n = map_option (\<lambda>c. (bits0 c, bits1 c, nb_len c, segment n)) (content_name n)"

text \<open>A name as the creation functions make it: with content, and with the hash of that content.\<close>

definition name_ok :: "hash_fun \<Rightarrow> Name \<Rightarrow> bool" where
  "name_ok H n \<longleftrightarrow> (\<exists>c. content_name n = Some c \<and> name_hash n = computeHash H c (segment n))"

lemma name_Equals_key: "name_Equals a b \<longleftrightarrow> name_key a = name_key b \<and> content_name a \<noteq> None"
  by (auto simp: name_Equals_def name_key_def nameBitvector_Equals_def split: option.split)

lemma name_Equals_refl [simp]: "name_ok H n \<Longrightarrow> name_Equals n n"
  by (auto simp: name_Equals_key name_ok_def)

lemma name_Equals_sym: "name_Equals a b \<longleftrightarrow> name_Equals b a"
  by (auto simp: name_Equals_def nameBitvector_Equals_def split: option.splits)

lemma name_Equals_trans: "name_Equals a b \<Longrightarrow> name_Equals b c \<Longrightarrow> name_Equals a c"
  by (auto simp: name_Equals_key)

lemma name_Equals_hash: "name_ok H a \<Longrightarrow> name_ok H b \<Longrightarrow> name_Equals a b \<Longrightarrow> name_HashCode a = name_HashCode b"
  by (auto simp: name_ok_def name_Equals_key name_key_def name_HashCode_def computeHash_def nameBitvector_GetHash32_def)

lemma make_name_ok [simp]: "name_ok H (make_name H c seg)"
  by (simp add: name_ok_def make_name_def)

lemma name_CreateFromPacket_ok: "name_CreateFromPacket H p t = Some n \<Longrightarrow> name_ok H n"
  by (auto simp: name_CreateFromPacket_def Let_def split: option.splits if_splits)

lemma name_Copy_key: "name_key (name_Copy n) = name_key n"
  by (auto simp: name_key_def name_Copy_def nameBitvector_Copy_def option.map_comp comp_def)

lemma name_Copy_ok: "name_ok H n \<Longrightarrow> name_ok H (name_Copy n)"
  by (auto simp: name_ok_def name_Copy_def computeHash_def nameBitvector_GetHash32_def nameBitvector_Copy_def)

lemma name_Compare_0: "content_name a \<noteq> None \<Longrightarrow> name_Compare a b = 0 \<longleftrightarrow> name_Equals a b"
  by (auto simp: name_Compare_def name_Equals_key name_key_def nameBitvector_Compare_def Let_def
      split: option.splits if_splits)

lemma name_Compare_antisym: "name_Compare b a = - name_Compare a b"
  by (auto simp: name_Compare_def nameBitvector_Compare_def Let_def split: option.splits)

section \<open>Times\<close>

lemma nanos_of_ms:
  assumes "ms < 2 ^ 32"
  shows "forwarder_NanosToTicks (of_nat ms * 1000000) = (if ms = 0 then 1 else of_nat ms)"
proof -
  have u: "unat (of_nat ms * 1000000 :: u64) = ms * 1000000"
    using assms unsigned_of_nat[of "ms * 1000000", where ?'b = 64, where ?'a = nat] by (simp add: take_bit_nat_eq_self)
  moreover have "unat (of_nat ms :: u64) = ms" using assms by (simp add: unsigned_of_nat take_bit_nat_eq_self)
  ultimately show ?thesis
    by (auto simp: forwarder_NanosToTicks_def NSEC_PER_TICK_def word_less_nat_alt word_unat_eq_iff unat_div)
qed

section \<open>Properties\<close>

text \<open>
  Hash tables over names are sound: names made from packets or addresses, or copied from such
  names, that compare equal have equal hash codes, whatever the hash function; and comparison
  returns zero exactly on equal names.
\<close>

theorem name_Equals_same_hash:
  assumes "name_ok H a" "name_ok H b"
  shows "(name_Equals a b \<longrightarrow> name_HashCode a = name_HashCode b) \<and>
    (name_Compare a b = 0 \<longleftrightarrow> name_Equals a b) \<and> name_Compare b a = - name_Compare a b \<and>
    name_ok H (name_Copy a) \<and> name_Equals (name_Copy a) a"
proof (intro conjI impI)
  show "name_Compare a b = 0 \<longleftrightarrow> name_Equals a b" using assms(1) by (intro name_Compare_0) (auto simp: name_ok_def)
  show "name_Equals (name_Copy a) a"
    using assms(1) by (auto simp: name_Equals_key name_Copy_key name_ok_def) (simp add: name_Copy_def)
qed (use assms name_Equals_hash name_Compare_antisym name_Copy_ok in blast)+

theorem name_Equals_same_hash_witness:
  "name_Equals (name_Copy (make_name (\<lambda>d s. s + 1) (nameBitvector_CreateFromInAddr 7 32) 3))
     (make_name (\<lambda>d s. s + 1) (nameBitvector_CreateFromInAddr 7 32) 3)"
  using name_Equals_same_hash[OF make_name_ok[of "\<lambda>d s. s + 1" "nameBitvector_CreateFromInAddr 7 32" 3] make_name_ok] by blast

text \<open>
  Data answers the interest for its name: a data packet whose source address and segment number
  are the destination address and segment number of an interest packet of the same IP version gets
  a name equal to the interest's.
\<close>

theorem name_interest_data_match:
  assumes "messageHandler_GetIPPacketType interest = messageHandler_GetIPPacketType data"
    and "messageHandler_GetIPPacketType data \<in> {4, 6}"
    and "messageHandler_GetDestination interest = messageHandler_GetSource data"
    and "messageHandler_GetSegment interest = messageHandler_GetSegment data"
  shows "\<exists>n. name_CreateFromPacket H interest MessagePacketType_Interest = Some n \<and>
    name_CreateFromPacket H data MessagePacketType_ContentObject = Some n \<and> name_ok H n \<and> name_Equals n n"
proof -
  have "\<exists>n. name_CreateFromPacket H data MessagePacketType_ContentObject = Some n"
    using assms(2) by (auto simp: name_CreateFromPacket_def messageHandler_GetSource_def IPv4_TYPE_def IPv6_TYPE_def Let_def)
  then obtain n where n: "name_CreateFromPacket H data MessagePacketType_ContentObject = Some n" by blast
  moreover have "name_CreateFromPacket H interest MessagePacketType_Interest =
      name_CreateFromPacket H data MessagePacketType_ContentObject"
    unfolding name_CreateFromPacket_def assms(1,3,4) by simp
  ultimately show ?thesis using name_CreateFromPacket_ok[OF n] name_Equals_refl by metis
qed

theorem name_interest_data_match_witness:
  "\<exists>n. name_CreateFromPacket (\<lambda>d s. s) ex_packet6 MessagePacketType_Interest = Some n \<and>
    name_CreateFromPacket (\<lambda>d s. s) ex_packet6 MessagePacketType_ContentObject = Some n \<and>
    name_ok (\<lambda>d s. s) n \<and> name_Equals n n"
proof -
  have "messageHandler_GetIPPacketType ex_packet6 \<in> {4, 6}" by code_simp
  moreover have "messageHandler_GetDestination ex_packet6 = messageHandler_GetSource ex_packet6" by code_simp
  ultimately show ?thesis using name_interest_data_match[OF refl _ _ refl] by blast
qed

text \<open>
  Lifetimes in ticks: the expiry time of a content object is its arrival time plus the number of
  milliseconds in its lifetime field, with no overflow in the conversion, and the lifetime of an
  interest that has one is its number of milliseconds.
\<close>

theorem message_times_in_ticks:
  "message_GetContentExpiryTimeTicks m =
     receiveTime m + ucast (messageHandler_GetContentExpiryTime (messageHead m)) \<and>
   (message_HasInterestLifetime m \<longrightarrow>
     message_GetInterestLifetimeTicks m = ucast (messageHandler_GetInterestLifetime (messageHead m)))"
proof (intro conjI impI)
  let ?e = "messageHandler_GetContentExpiryTime (messageHead m)" and ?l = "messageHandler_GetInterestLifetime (messageHead m)"
  have c: "ucast w = (of_nat (unat w) :: u64)" for w :: "'a::len word" by simp
  have "unat ?e < 2 ^ 32" using unsigned_less[of ?e, where ?'a = nat] by simp
  then show "message_GetContentExpiryTimeTicks m = receiveTime m + ucast ?e"
    using nanos_of_ms[of "unat ?e"] by (auto simp: message_GetContentExpiryTimeTicks_def Let_def unsigned_eq_0_iff)
  assume "message_HasInterestLifetime m"
  then have "?l \<noteq> 0" by (auto simp: message_HasInterestLifetime_def messageHandler_HasInterestLifetime_def split: if_splits)
  moreover have "unat ?l < 2 ^ 32" using unsigned_less[of ?l, where ?'a = nat] by simp
  ultimately show "message_GetInterestLifetimeTicks m = ucast ?l"
    using nanos_of_ms[of "unat ?l"] by (simp add: message_GetInterestLifetimeTicks_def unsigned_eq_0_iff)
qed

definition ex_interest :: Message where
  "ex_interest = message_CreateFromByteArray (\<lambda>d s. s) 7 (tcp_set_lifetime ex_packet6 40 2000) MessagePacketType_Interest 5"

theorem message_times_in_ticks_witness: "message_GetInterestLifetimeTicks ex_interest = 2000"
proof -
  have "message_HasInterestLifetime ex_interest" by code_simp
  moreover have "messageHandler_GetInterestLifetime (messageHead ex_interest) = 2000" by code_simp
  ultimately show ?thesis using message_times_in_ticks[of ex_interest] by simp
qed

text \<open>
  Loss notifications do not carry their labels: the packet is allocated and sent with the length
  of the short ICMP header (44 bytes over IPv6), which ends where the two labels begin.
\<close>

theorem wldr_notification_too_short:
  assumes "messageHandler_GetIPPacketType (messageHead original) = 6"
    and "n = message_CreateWldrNotification original expected received"
  shows "message_Length n = 44 \<and> length (messageHead n) = IPV6_HDRLEN + 4"
  using assms
  by (simp add: message_CreateWldrNotification_def messageHandler_SetWldrNotification_def Let_def message_Length_def
      messageHandler_SetSource_IPv6_def messageHandler_SetDestination_IPv6_def messageHandler_GetICMPPacketSize_def
      IPV6_HDRLEN_def ICMP_HDRLEN_def messageHandler_UpdateTCPCheckSum_def split: option.split)

theorem wldr_notification_too_short_witness:
  "message_Length (message_CreateWldrNotification ex_interest 3 5) = 44"
proof -
  have "messageHandler_GetIPPacketType (messageHead ex_interest) = 6" by code_simp
  from wldr_notification_too_short[OF this refl] show ?thesis by simp
qed

end
