(* ===== verification/Connection.thy ===== *)
theory Connection
  imports Message
begin

text \<open>
  Connections and the wireless loss detection and recovery protocol that runs on them
  (\<^verbatim>\<open>hicn-light/src/hicn/core/connection.c\<close> and \<^verbatim>\<open>wldr.c\<close>, the policy tags of
  \<^verbatim>\<open>lib/includes/hicn/policy.h\<close>).

  Messages are shared by pointer between the retransmission buffers, the PIT, the content store and
  the code that sends them, and sending changes their labels. They live in an explicit store
  (\<open>world\<close>): a map from references to messages, the allocation counter, and the log of what was
  handed to the network, each packet as it was at that moment.

  The lemmas show that labels are never zero on the normal path, that a receiver in step with its
  sender raises no notification, that a gap raises exactly one notification with the right bounds,
  and that the sender answers it by retransmitting exactly the packets of the gap.
\<close>

section \<open>Messages in memory and on the wire\<close>

type_synonym mref = nat

record world =
  w_msgs :: "mref \<Rightarrow> Message option"
  w_next :: mref
  w_sent :: "(connid \<times> Message) list"
  w_probes :: "(connid \<times> bytes) list"

definition deref :: "world \<Rightarrow> mref \<Rightarrow> Message res" where
  "deref w r = (case w_msgs w r of None \<Rightarrow> Inl NullDereference | Some m \<Rightarrow> Inr m)"

definition w_put :: "world \<Rightarrow> mref \<Rightarrow> Message \<Rightarrow> world" where
  "w_put w r m = w\<lparr>w_msgs := (w_msgs w)(r \<mapsto> m)\<rparr>"

definition w_alloc :: "world \<Rightarrow> Message \<Rightarrow> world \<times> mref" where
  "w_alloc w m = (w\<lparr>w_msgs := (w_msgs w)(w_next w \<mapsto> m), w_next := w_next w + 1\<rparr>, w_next w)"

definition w_modify :: "(Message \<Rightarrow> Message) \<Rightarrow> world \<Rightarrow> mref \<Rightarrow> world res" where
  "w_modify f w r = bind_res (deref w r) (\<lambda>m. Inr (w_put w r (f m)))"

definition w_Acquire :: "world \<Rightarrow> mref \<Rightarrow> world res" where
  "w_Acquire w r = w_modify message_Acquire w r"

definition w_Release :: "world \<Rightarrow> mref \<Rightarrow> world res" where
  "w_Release w r =
     bind_res (deref w r) (\<lambda>m.
     bind_res (message_Release m) (\<lambda>m'. Inr (w\<lparr>w_msgs := (w_msgs w)(r := m')\<rparr>)))"

section \<open>Policy tags\<close>

datatype policy_tag =
    POLICY_TAG_WIRED | POLICY_TAG_WIFI | POLICY_TAG_CELLULAR | POLICY_TAG_BEST_EFFORT
  | POLICY_TAG_REALTIME | POLICY_TAG_MULTIPATH | POLICY_TAG_TRUSTED

fun tag_number :: "policy_tag \<Rightarrow> nat" where
  "tag_number POLICY_TAG_WIRED = 0"
| "tag_number POLICY_TAG_WIFI = 1"
| "tag_number POLICY_TAG_CELLULAR = 2"
| "tag_number POLICY_TAG_BEST_EFFORT = 3"
| "tag_number POLICY_TAG_REALTIME = 4"
| "tag_number POLICY_TAG_MULTIPATH = 5"
| "tag_number POLICY_TAG_TRUSTED = 6"

type_synonym policy_tags = u32

definition POLICY_TAGS_EMPTY :: policy_tags where "POLICY_TAGS_EMPTY = 0"

definition policy_tags_add :: "policy_tags \<Rightarrow> policy_tag \<Rightarrow> policy_tags" where
  "policy_tags_add tags tag = tags OR push_bit (tag_number tag) 1"

definition policy_tags_remove :: "policy_tags \<Rightarrow> policy_tag \<Rightarrow> policy_tags" where
  "policy_tags_remove tags tag = tags AND NOT (push_bit (tag_number tag) 1)"

definition policy_tags_has :: "policy_tags \<Rightarrow> policy_tag \<Rightarrow> bool" where
  "policy_tags_has tags tag = (tags AND push_bit (tag_number tag) 1 \<noteq> 0)"

section \<open>Addresses\<close>

text \<open>
  A socket address is its type and the bytes of its structure (\<^verbatim>\<open>addressType\<close> and \<^verbatim>\<open>blob\<close>); a
  connection has a pair of them. The shortcuts on equal pointers compare equal contents.
\<close>

datatype address_type = AT_INET | AT_INET6 | AT_LINK | AT_IFACE | AT_UNIX

record address =
  addressType :: address_type
  blob :: "u8 list"

record AddressPair =
  ap_local :: address
  ap_remote :: address

definition addressEquals :: "address \<Rightarrow> address \<Rightarrow> bool" where
  "addressEquals a b = (if addressType a = addressType b then blob a = blob b else False)"

definition addressPair_Create :: "address \<Rightarrow> address \<Rightarrow> AddressPair" where
  "addressPair_Create local remote = \<lparr>ap_local = local, ap_remote = remote\<rparr>"

definition addressPair_Equals :: "AddressPair \<Rightarrow> AddressPair \<Rightarrow> bool" where
  "addressPair_Equals a b =
     (if addressEquals (ap_local a) (ap_local b)
      then (if addressEquals (ap_remote a) (ap_remote b) then True else False) else False)"

lemma addressPair_Equals_eq [simp]: "addressPair_Equals a b \<longleftrightarrow> a = b"
  by (cases a; cases b) (auto simp: addressPair_Equals_def addressEquals_def intro: address.equality)

section \<open>Connections\<close>

datatype connection_state =
    CONNECTION_STATE_UNDEFINED | CONNECTION_STATE_DOWN | CONNECTION_STATE_UP

datatype list_connections_type = CONN_GRE | CONN_TCP | CONN_UDP | CONN_MULTICAST | CONN_L2 | CONN_HICN

text \<open>
  The operations table of a connection, as the fields its implementations keep and return, and
  the result \<^verbatim>\<open>ioOperations_Send\<close> gives for a message. The table is set at creation and never
  \<^verbatim>\<open>NULL\<close> afterwards, so the guards \<^verbatim>\<open>if (!conn->ops)\<close> are not reached.
\<close>

record IoOperations =
  io_connectionId :: connid
  io_addressPair :: AddressPair
  io_isUp :: bool
  io_isLocal :: bool
  io_state :: connection_state
  io_admin_state :: connection_state
  io_priority :: u32
  io_send :: "Message \<Rightarrow> bool"
  io_connectionType :: list_connections_type
  io_interfaceName :: "string option"
  io_isClosed :: bool

record WldrBuffer =
  wb_message :: "mref option"
  rtx_counter :: u8

record Wldr =
  expected_label :: u16
  next_label :: u16
  wldr_buffer :: "nat \<Rightarrow> WldrBuffer"

record Connection =
  ops :: IoOperations
  conn_refCount :: u32
  counter :: u32
  wldrAutoStart :: bool
  wldr :: "Wldr option"
  conn_tags :: policy_tags

definition connection_SetAdminState :: "Connection \<Rightarrow> connection_state \<Rightarrow> Connection" where
  "connection_SetAdminState conn admin_state =
     (if admin_state \<noteq> CONNECTION_STATE_UP \<and> admin_state \<noteq> CONNECTION_STATE_DOWN then conn
      else conn\<lparr>ops := (ops conn)\<lparr>io_admin_state := admin_state\<rparr>\<rparr>)"

definition connection_Create :: "IoOperations \<Rightarrow> Connection" where
  "connection_Create io =
     (connection_SetAdminState
        \<lparr>ops = io, conn_refCount = 1, counter = 0, wldrAutoStart = True, wldr = None, conn_tags = 0\<rparr>
        CONNECTION_STATE_UP)\<lparr>conn_tags := POLICY_TAGS_EMPTY\<rparr>"

definition connection_Acquire :: "Connection \<Rightarrow> Connection" where
  "connection_Acquire conn = conn\<lparr>conn_refCount := conn_refCount conn + 1\<rparr>"

definition connection_GetConnectionId :: "Connection \<Rightarrow> connid" where
  "connection_GetConnectionId conn = io_connectionId (ops conn)"

definition connection_GetAddressPair :: "Connection \<Rightarrow> AddressPair" where
  "connection_GetAddressPair conn = io_addressPair (ops conn)"

definition connection_IsUp :: "Connection \<Rightarrow> bool" where
  "connection_IsUp conn = io_isUp (ops conn)"

definition connection_IsLocal :: "Connection \<Rightarrow> bool" where
  "connection_IsLocal conn = io_isLocal (ops conn)"

definition ioOperations_Send :: "Connection \<Rightarrow> world \<Rightarrow> mref \<Rightarrow> (world \<times> bool) res" where
  "ioOperations_Send conn w r =
     bind_res (deref w r) (\<lambda>m.
       Inr (w\<lparr>w_sent := w_sent w @ [(io_connectionId (ops conn), m)]\<rparr>, io_send (ops conn) m))"

definition connection_ReSend :: "Connection \<Rightarrow> world \<Rightarrow> mref \<Rightarrow> bool \<Rightarrow> (world \<times> bool) res" where
  "connection_ReSend conn w r notification =
     bind_res
       (if connection_IsUp conn
        then bind_res (deref w r) (\<lambda>m.
          if message_GetType m = MessagePacketType_ContentObject
          then (let connectionId = ucast (connection_GetConnectionId conn) :: u8;
                    old_path_label = message_GetPathLabel m
                in bind_res (w_modify (\<lambda>m. message_UpdatePathLabel m connectionId) w r) (\<lambda>w.
                   bind_res (ioOperations_Send conn w r) (\<lambda>(w, res).
                   bind_res (w_modify (\<lambda>m. message_SetPathLabel m old_path_label) w r) (\<lambda>w. Inr (w, res)))))
          else ioOperations_Send conn w r)
        else Inr (w, False))
       (\<lambda>(w, res). if notification then bind_res (w_Release w r) (\<lambda>w. Inr (w, res)) else Inr (w, res))"

section \<open>Probes\<close>

definition connection_Probe :: "Connection \<Rightarrow> world \<Rightarrow> bytes \<Rightarrow> world" where
  "connection_Probe conn w probe = w\<lparr>w_probes := w_probes w @ [(io_connectionId (ops conn), probe)]\<rparr>"

text \<open>The reply is written over the packet of the message \<open>r\<close>. A missing connection fails the assertion.\<close>

definition connection_HandleProbe :: "Connection option \<Rightarrow> world \<Rightarrow> mref \<Rightarrow> world res" where
  "connection_HandleProbe conn w r =
     (case conn of
        None \<Rightarrow> Inl AssertFailed
      | Some conn \<Rightarrow>
          bind_res (deref w r) (\<lambda>m.
          if messageHandler_IsInterest (messageHead m)
          then (let probe = messageHandler_CreateProbeReply (messageHead m);
                    w = w_put w r (m\<lparr>messageHead := probe\<rparr>)
                in Inr (w\<lparr>w_probes := w_probes w @ [(io_connectionId (ops conn), probe)]\<rparr>))
          else Inr w))"

section \<open>Loss detection and recovery\<close>

definition BUFFER_SIZE :: nat where "BUFFER_SIZE = 8192"
definition MAX_RTX :: u8 where "MAX_RTX = 3"

definition slot :: "u16 \<Rightarrow> nat" where
  "slot label = unat label mod BUFFER_SIZE"

definition wldr_Init :: Wldr where
  "wldr_Init = \<lparr>expected_label = 1, next_label = 1, wldr_buffer = (\<lambda>i. \<lparr>wb_message = None, rtx_counter = 0\<rparr>)\<rparr>"

definition wldr_ResetState :: "Wldr \<Rightarrow> Wldr" where
  "wldr_ResetState wl = wl\<lparr>expected_label := 1, next_label := 1, wldr_buffer := (\<lambda>i. \<lparr>wb_message = None, rtx_counter = 0\<rparr>)\<rparr>"

text \<open>Release the messages the buffer holds, slot by slot; the state itself is then freed.\<close>

definition wldr_Destroy :: "world \<Rightarrow> Wldr \<Rightarrow> world res" where
  "wldr_Destroy w wl =
     foldl (\<lambda>acc i. bind_res acc (\<lambda>w. case wb_message (wldr_buffer wl i) of None \<Rightarrow> Inr w | Some r \<Rightarrow> w_Release w r))
       (Inr w) [0..<BUFFER_SIZE]"

definition release_slot :: "Wldr \<Rightarrow> world \<Rightarrow> nat \<Rightarrow> world res" where
  "release_slot wl w i = (case wb_message (wldr_buffer wl i) of None \<Rightarrow> Inr w | Some r \<Rightarrow> w_Release w r)"

definition wldr_RetransmitPacket :: "Connection \<Rightarrow> Wldr \<Rightarrow> world \<Rightarrow> u16 \<Rightarrow> (Wldr \<times> world) res" where
  "wldr_RetransmitPacket conn wl w label =
     (case wb_message (wldr_buffer wl (slot label)) of
        None \<Rightarrow> Inr (wl, w)
      | Some msg \<Rightarrow>
          if rtx_counter (wldr_buffer wl (slot label)) < MAX_RTX
          then bind_res (w_modify (\<lambda>m. message_SetWldrLabel m (next_label wl)) w msg) (\<lambda>w.
               bind_res (release_slot wl w (slot (next_label wl))) (\<lambda>w.
               let wl' = wl\<lparr>wldr_buffer := (wldr_buffer wl)(slot (next_label wl) :=
                              \<lparr>wb_message = Some msg, rtx_counter = rtx_counter (wldr_buffer wl (slot label)) + 1\<rparr>)\<rparr>
               in bind_res (w_Acquire w msg) (\<lambda>w.
                  let wl' = wl'\<lparr>next_label := next_label wl' + 1\<rparr>
                  in bind_res (connection_ReSend conn w msg False) (\<lambda>(w, _). Inr (wl', w)))))
          else Inr (wl, w))"

definition wldr_SendWldrNotificaiton ::
  "Connection \<Rightarrow> world \<Rightarrow> mref \<Rightarrow> u16 \<Rightarrow> u16 \<Rightarrow> world res" where
  "wldr_SendWldrNotificaiton conn w r expected_lbl received_lbl =
     bind_res (deref w r) (\<lambda>m.
     let (w, n) = w_alloc w (message_CreateWldrNotification m expected_lbl received_lbl)
     in bind_res (connection_ReSend conn w n True) (\<lambda>(w, _). Inr w))"

definition wldr_SetLabel :: "Wldr \<Rightarrow> world \<Rightarrow> mref \<Rightarrow> (Wldr \<times> world) res" where
  "wldr_SetLabel wl w r =
     bind_res (w_modify (\<lambda>m. message_SetWldrLabel m (next_label wl)) w r) (\<lambda>w.
     bind_res (release_slot wl w (slot (next_label wl))) (\<lambda>w.
     bind_res (w_Acquire w r) (\<lambda>w.
     let wl = wl\<lparr>wldr_buffer := (wldr_buffer wl)(slot (next_label wl) := \<lparr>wb_message = Some r, rtx_counter = 0\<rparr>)\<rparr>;
         wl = wl\<lparr>next_label := next_label wl + 1\<rparr>;
         wl = (if next_label wl = 0 then wl\<lparr>next_label := next_label wl + 1\<rparr> else wl)
     in Inr (wl, w))))"

definition wldr_DetectLosses :: "Connection \<Rightarrow> Wldr \<Rightarrow> world \<Rightarrow> mref \<Rightarrow> (Wldr \<times> world) res" where
  "wldr_DetectLosses conn wl w r =
     bind_res (deref w r) (\<lambda>m.
     if message_HasWldr m
     then (let pkt_lbl = message_GetWldrLabel m in
           if pkt_lbl \<noteq> expected_label wl
           then bind_res (if pkt_lbl \<noteq> 1 \<or> expected_label wl < pkt_lbl
                          then wldr_SendWldrNotificaiton conn w r (expected_label wl) pkt_lbl else Inr w)
                  (\<lambda>w. Inr (wl\<lparr>expected_label := pkt_lbl + 1\<rparr>, w))
           else (let wl = wl\<lparr>expected_label := expected_label wl + 1\<rparr>;
                     wl = (if expected_label wl = 0 then wl\<lparr>expected_label := expected_label wl + 1\<rparr> else wl)
                 in Inr (wl, w)))
     else Inr (wl, w))"

text \<open>The loop of \<^verbatim>\<open>wldr_HandleWldrNotification\<close>; the counter cannot pass \<open>received_lbl\<close>.\<close>

function retransmit_loop ::
  "Connection \<Rightarrow> Wldr \<Rightarrow> world \<Rightarrow> u16 \<Rightarrow> u16 \<Rightarrow> (Wldr \<times> world) res" where
  "retransmit_loop conn wl w expected_lbl received_lbl =
     (if expected_lbl < received_lbl
      then (case wldr_RetransmitPacket conn wl w expected_lbl of
              Inl e \<Rightarrow> Inl e
            | Inr (wl, w) \<Rightarrow> retransmit_loop conn wl w (expected_lbl + 1) received_lbl)
      else Inr (wl, w))"
  by pat_completeness auto

termination
  by (relation "measure (\<lambda>(conn, wl, w, e, r). unat r - unat e)")
    (simp_all add: unat_inc_less diff_less_mono2 word_less_nat_alt)

declare retransmit_loop.simps [simp del]

text \<open>The guard is C arithmetic on promoted operands: the difference is a signed \<^verbatim>\<open>int\<close>.\<close>

definition wldr_HandleWldrNotification ::
  "Connection \<Rightarrow> Wldr \<Rightarrow> world \<Rightarrow> mref \<Rightarrow> (Wldr \<times> world) res" where
  "wldr_HandleWldrNotification conn wl w r =
     bind_res (deref w r) (\<lambda>m.
     let expected_lbl = message_GetWldrExpectedLabel m;
         received_lbl = message_GetWldrLastReceived m
     in if uint (next_label wl) - uint expected_lbl > int BUFFER_SIZE then Inr (wl, w)
        else retransmit_loop conn wl w expected_lbl received_lbl)"

section \<open>Sending\<close>

definition connection_Send :: "Connection \<Rightarrow> world \<Rightarrow> mref \<Rightarrow> (Connection \<times> world \<times> bool) res" where
  "connection_Send conn w r =
     (if io_isUp (ops conn)
      then bind_res (deref w r) (\<lambda>m.
           bind_res (if message_GetType m = MessagePacketType_ContentObject
                     then w_modify (\<lambda>m. message_UpdatePathLabel m (ucast (connection_GetConnectionId conn))) w r
                     else Inr w) (\<lambda>w.
           bind_res (case wldr conn of
                       Some wl \<Rightarrow> bind_res (wldr_SetLabel wl w r) (\<lambda>(wl, w). Inr (conn\<lparr>wldr := Some wl\<rparr>, w))
                     | None \<Rightarrow> bind_res (w_modify message_ResetWldrLabel w r) (\<lambda>w. Inr (conn, w))) (\<lambda>(conn, w).
           bind_res (ioOperations_Send conn w r) (\<lambda>(w, res). Inr (conn, w, res)))))
      else Inr (conn, w, False))"

definition connection_AllowWldrAutoStart :: "Connection \<Rightarrow> bool \<Rightarrow> Connection" where
  "connection_AllowWldrAutoStart conn allow = conn\<lparr>wldrAutoStart := allow\<rparr>"

definition connection_EnableWldr :: "Connection \<Rightarrow> Connection" where
  "connection_EnableWldr conn =
     (if \<not> connection_IsLocal conn then (if wldr conn = None then conn\<lparr>wldr := Some wldr_Init\<rparr> else conn) else conn)"

definition connection_DisableWldr :: "Connection \<Rightarrow> world \<Rightarrow> (Connection \<times> world) res" where
  "connection_DisableWldr conn w =
     (if \<not> connection_IsLocal conn
      then (case wldr conn of None \<Rightarrow> Inr (conn, w)
            | Some wl \<Rightarrow> bind_res (wldr_Destroy w wl) (\<lambda>w. Inr (conn\<lparr>wldr := None\<rparr>, w)))
      else Inr (conn, w))"

definition connection_HasWldr :: "Connection \<Rightarrow> bool" where
  "connection_HasWldr conn = (if wldr conn = None then False else True)"

definition connection_WldrAutoStartAllowed :: "Connection \<Rightarrow> bool" where
  "connection_WldrAutoStartAllowed conn = wldrAutoStart conn"

definition connection_DetectLosses :: "Connection \<Rightarrow> world \<Rightarrow> mref \<Rightarrow> (Connection \<times> world) res" where
  "connection_DetectLosses conn w r =
     (case wldr conn of None \<Rightarrow> Inr (conn, w)
      | Some wl \<Rightarrow> bind_res (wldr_DetectLosses conn wl w r) (\<lambda>(wl, w). Inr (conn\<lparr>wldr := Some wl\<rparr>, w)))"

definition connection_HandleWldrNotification :: "Connection \<Rightarrow> world \<Rightarrow> mref \<Rightarrow> (Connection \<times> world) res" where
  "connection_HandleWldrNotification conn w r =
     (case wldr conn of None \<Rightarrow> Inr (conn, w)
      | Some wl \<Rightarrow> bind_res (wldr_HandleWldrNotification conn wl w r) (\<lambda>(wl, w). Inr (conn\<lparr>wldr := Some wl\<rparr>, w)))"

definition connection_Release :: "Connection \<Rightarrow> world \<Rightarrow> (Connection option \<times> world) res" where
  "connection_Release conn w =
     (if conn_refCount conn > 0
      then (let conn = conn\<lparr>conn_refCount := conn_refCount conn - 1\<rparr> in
            if conn_refCount conn = 0
            then (case wldr conn of None \<Rightarrow> Inr (None, w)
                  | Some wl \<Rightarrow> bind_res (wldr_Destroy w wl) (\<lambda>w. Inr (None, w)))
            else Inr (Some conn, w))
      else Inl AssertFailed)"

definition connection_GetState :: "Connection \<Rightarrow> connection_state" where
  "connection_GetState conn = io_state (ops conn)"

definition connection_SetState :: "Connection \<Rightarrow> connection_state \<Rightarrow> Connection" where
  "connection_SetState conn state = conn\<lparr>ops := (ops conn)\<lparr>io_state := state\<rparr>\<rparr>"

definition connection_GetAdminState :: "Connection \<Rightarrow> connection_state" where
  "connection_GetAdminState conn = io_admin_state (ops conn)"

definition connection_GetPriority :: "Connection \<Rightarrow> u32" where
  "connection_GetPriority conn = io_priority (ops conn)"

definition connection_SetPriority :: "Connection \<Rightarrow> u32 \<Rightarrow> Connection" where
  "connection_SetPriority conn priority = conn\<lparr>ops := (ops conn)\<lparr>io_priority := priority\<rparr>\<rparr>"

definition connection_AddTag :: "Connection \<Rightarrow> policy_tag \<Rightarrow> Connection" where
  "connection_AddTag conn tag = conn\<lparr>conn_tags := policy_tags_add (conn_tags conn) tag\<rparr>"

definition connection_RemoveTag :: "Connection \<Rightarrow> policy_tag \<Rightarrow> Connection" where
  "connection_RemoveTag conn tag = conn\<lparr>conn_tags := policy_tags_remove (conn_tags conn) tag\<rparr>"

definition connection_SetTags :: "Connection \<Rightarrow> policy_tags \<Rightarrow> Connection" where
  "connection_SetTags conn tags = conn\<lparr>conn_tags := tags\<rparr>"

definition connection_ClearTags :: "Connection \<Rightarrow> Connection" where
  "connection_ClearTags conn = conn\<lparr>conn_tags := POLICY_TAGS_EMPTY\<rparr>"

definition connection_HasTag :: "Connection \<Rightarrow> policy_tag \<Rightarrow> bool" where
  "connection_HasTag conn tag = policy_tags_has (conn_tags conn) tag"

section \<open>Policy tags as sets\<close>

lemma tag_number_inj [simp]: "tag_number a = tag_number b \<longleftrightarrow> a = b"
  by (cases a; cases b) auto

lemma tag_number_bound: "tag_number t < 32"
  by (cases t) auto

lemma policy_tags_has_bit: "policy_tags_has tags t \<longleftrightarrow> bit tags (tag_number t)"
  by (simp add: policy_tags_has_def and_exp_eq_0_iff_not_bit)

lemma policy_tags_ops:
  "policy_tags_has (policy_tags_add tags t) u \<longleftrightarrow> u = t \<or> policy_tags_has tags u"
  "policy_tags_has (policy_tags_remove tags t) u \<longleftrightarrow> u \<noteq> t \<and> policy_tags_has tags u"
  "\<not> policy_tags_has POLICY_TAGS_EMPTY u"
  using tag_number_bound[of u]
  by (auto simp: policy_tags_has_bit policy_tags_add_def policy_tags_remove_def POLICY_TAGS_EMPTY_def
      bit_or_iff bit_and_iff bit_not_iff bit_exp_iff)

section \<open>Labels on packets\<close>

text \<open>A TCP packet that is long enough for its header: the packets that can carry a label.\<close>

definition tcp_message :: "Message \<Rightarrow> bool" where
  "tcp_message m \<longleftrightarrow> messageHandler_IsTCP (messageHead m) \<and>
     (\<exists>off. tcp_offset (messageHead m) = Some off \<and> off + TCP_HDRLEN \<le> length (messageHead m))"

lemma header_frame_be:
  assumes "20 \<le> off"
  shows "tcp_offset (put_be16 p off w) = tcp_offset p" "messageHandler_IsTCP (put_be16 p off w) = messageHandler_IsTCP p"
proof -
  have "byte (put_be16 p off w) i = byte p i" if "i < 20" for i
    using that assms by (simp add: byte_put_field_other)
  then show "tcp_offset (put_be16 p off w) = tcp_offset p" "messageHandler_IsTCP (put_be16 p off w) = messageHandler_IsTCP p"
    by (simp_all add: tcp_offset_def messageHandler_IsTCP_def messageHandler_NextHeaderType_def messageHandler_GetIPPacketType_def)
qed

lemma SetWldrLabel_head:
  assumes "tcp_message m"
  shows "messageHandler_IsTCP (messageHandler_SetWldrLabel (messageHead m) l)"
    "messageHandler_GetWldrLabel (messageHandler_SetWldrLabel (messageHead m) l) = l"
    "length (messageHandler_SetWldrLabel (messageHead m) l) = length (messageHead m)"
    "tcp_offset (messageHandler_SetWldrLabel (messageHead m) l) = tcp_offset (messageHead m)"
proof -
  let ?p = "messageHead m"
  obtain off where off: "messageHandler_IsTCP ?p" "tcp_offset ?p = Some off" "off + 20 \<le> length ?p"
    using assms by (auto simp: tcp_message_def TCP_HDRLEN_def)
  have "20 \<le> off" using tcp_offset_cases[OF off(2)] by linarith
  note frame = header_frame_be[of "off + 14" ?p l] header_frame[of "off + 16"]
  have s: "messageHandler_SetWldrLabel ?p l =
      update_csum_at (off + 16) (put_be16 ?p (off + 14) l) [messageHandler_GetWldrLabel ?p] [l]"
    using off \<open>20 \<le> off\<close> frame by (simp add: messageHandler_SetWldrLabel_def messageHandler_UpdateTCPCheckSum_def)
  show "messageHandler_IsTCP (messageHandler_SetWldrLabel ?p l)" "length (messageHandler_SetWldrLabel ?p l) = length ?p"
    "tcp_offset (messageHandler_SetWldrLabel ?p l) = tcp_offset ?p"
    using off \<open>20 \<le> off\<close> frame by (simp_all add: s update_csum_at_def)
  have "be16 (update_csum_at (off + 16) q [v] [l]) (off + 14) = be16 q (off + 14)" for q v
    by (simp add: update_csum_at_def be16_def byte_put_field_other)
  then show "messageHandler_GetWldrLabel (messageHandler_SetWldrLabel ?p l) = l"
    using off \<open>20 \<le> off\<close> frame be16_put_be16[of "off + 14" ?p l]
    by (simp add: messageHandler_GetWldrLabel_def s update_csum_at_def be16_def byte_put_field_other)
qed

lemma SetWldrLabel_message:
  assumes "tcp_message m"
  shows "message_GetWldrLabel (message_SetWldrLabel m l) = l" "message_HasWldr (message_SetWldrLabel m l) \<longleftrightarrow> l \<noteq> 0"
    "tcp_message (message_SetWldrLabel m l)"
  using SetWldrLabel_head[OF assms, of l] assms
  by (auto simp: message_GetWldrLabel_def message_SetWldrLabel_def message_HasWldr_def messageHandler_HasWldr_def tcp_message_def)

lemma message_Acquire_frame [simp]:
  "messageHead (message_Acquire m) = messageHead m" "message_GetWldrLabel (message_Acquire m) = message_GetWldrLabel m"
  "message_HasWldr (message_Acquire m) = message_HasWldr m" "tcp_message (message_Acquire m) = tcp_message m"
  "packetType (message_Acquire m) = packetType m"
  by (simp_all add: message_Acquire_def message_GetWldrLabel_def message_HasWldr_def tcp_message_def)

section \<open>In step\<close>

text \<open>The label after \<open>l\<close>: zero is skipped.\<close>

definition succ_label :: "u16 \<Rightarrow> u16" where
  "succ_label l = (if l + 1 = 0 then 1 else l + 1)"

lemma succ_label_nonzero [simp]: "succ_label l \<noteq> 0"
  by (simp add: succ_label_def)

lemma w_modify_eq: "w_msgs w r = Some m \<Longrightarrow> w_modify f w r = Inr (w_put w r (f m))"
  by (simp add: w_modify_def deref_def)

lemma deref_Inr [simp]: "deref w r = Inr m \<longleftrightarrow> w_msgs w r = Some m"
  by (auto simp: deref_def split: option.split)

lemma w_put_simps [simp]:
  "w_msgs (w_put w r m) = (w_msgs w)(r \<mapsto> m)" "w_sent (w_put w r m) = w_sent w" "w_next (w_put w r m) = w_next w"
  by (simp_all add: w_put_def)

lemma w_Release_frame:
  "w_Release w r = Inr w' \<Longrightarrow> w_sent w' = w_sent w \<and> w_next w' = w_next w \<and> (\<forall>q. q \<noteq> r \<longrightarrow> w_msgs w' q = w_msgs w q)"
  by (auto simp: w_Release_def)

lemma SetLabel_result:
  assumes "wldr_SetLabel wl w r = Inr (wl', w')" "w_msgs w r = Some m" "tcp_message m" "next_label wl \<noteq> 0"
  shows "next_label wl' = succ_label (next_label wl)" "w_sent w' = w_sent w" "expected_label wl' = expected_label wl"
    "\<exists>m'. w_msgs w' r = Some m' \<and> message_HasWldr m' \<and> message_GetWldrLabel m' = next_label wl \<and> tcp_message m'"
proof -
  let ?w1 = "w_put w r (message_SetWldrLabel m (next_label wl))"
  obtain w2 where rel: "release_slot wl ?w1 (slot (next_label wl)) = Inr w2" and acq: "w_Acquire w2 r = Inr w'"
    and wl': "next_label wl' = succ_label (next_label wl)" "expected_label wl' = expected_label wl"
    using assms(1,2) by (auto simp: wldr_SetLabel_def w_modify_eq Let_def succ_label_def split: if_splits)
  from acq obtain m2 where m2: "w_msgs w2 r = Some m2" "w' = w_put w2 r (message_Acquire m2)"
    by (auto simp: w_Acquire_def w_modify_def)
  have "w_sent w2 = w_sent w"
    using rel w_Release_frame[of ?w1 _ w2] by (auto simp: release_slot_def split: option.splits)
  moreover have "messageHead m2 = messageHead (message_SetWldrLabel m (next_label wl))"
    using rel m2(1) w_Release_frame[of ?w1 _ w2]
    by (auto simp: release_slot_def w_Release_def message_Release_def Let_def split: option.splits if_splits)
  ultimately show "next_label wl' = succ_label (next_label wl)" "w_sent w' = w_sent w" "expected_label wl' = expected_label wl"
    "\<exists>m'. w_msgs w' r = Some m' \<and> message_HasWldr m' \<and> message_GetWldrLabel m' = next_label wl \<and> tcp_message m'"
    using wl' m2(2) SetWldrLabel_message[OF assms(3), of "next_label wl"] assms(4)
    by (auto simp: message_HasWldr_def message_GetWldrLabel_def tcp_message_def)
qed

lemma DetectLosses_in_step:
  assumes "w_msgs w r = Some m" "message_HasWldr m" "message_GetWldrLabel m = expected_label wl"
  shows "wldr_DetectLosses conn wl w r = Inr (wl\<lparr>expected_label := succ_label (expected_label wl)\<rparr>, w)"
  using assms by (simp add: wldr_DetectLosses_def deref_def Let_def succ_label_def)

text \<open>
  A lossless link: messages arrive in the store, are labelled by the sender and examined by the
  receiver in the order in which they were sent.
\<close>

inductive wldr_link :: "Connection \<Rightarrow> Wldr \<times> Wldr \<times> world \<Rightarrow> Wldr \<times> Wldr \<times> world \<Rightarrow> bool" for conn where
  arrive: "wldr_link conn (s, v, w) (s, v, fst (w_alloc w m))"
| transfer: "w_msgs w r = Some m \<Longrightarrow> tcp_message m \<Longrightarrow> wldr_SetLabel s w r = Inr (s', w') \<Longrightarrow>
    wldr_DetectLosses conn v w' r = Inr (v', w'') \<Longrightarrow> wldr_link conn (s, v, w) (s', v', w'')"

inductive_cases wldr_linkE: "wldr_link conn (s, v, w) (s', v', w')"

lemma wldr_link_in_step:
  assumes "wldr_link conn (s, v, w) (s', v', w')" "next_label s = expected_label v" "next_label s \<noteq> 0"
  shows "next_label s' = expected_label v' \<and> next_label s' \<noteq> 0 \<and> w_sent w' = w_sent w"
  using assms(1)
proof (rule wldr_linkE)
  fix r m w1
  assume t: "w_msgs w r = Some m" "tcp_message m" "wldr_SetLabel s w r = Inr (s', w1)"
    "wldr_DetectLosses conn v w1 r = Inr (v', w')"
  note sl = SetLabel_result[OF t(3,1,2) assms(3)]
  then obtain m' where m': "w_msgs w1 r = Some m'" "message_HasWldr m'" "message_GetWldrLabel m' = expected_label v"
    using assms(2) by auto
  from DetectLosses_in_step[OF m'] t(4) sl assms(2) show ?thesis by auto
qed (use assms in \<open>auto simp: w_alloc_def\<close>)

section \<open>Gaps\<close>

lemma DetectLosses_gap:
  assumes "w_msgs w r = Some m" "message_HasWldr m" "message_GetWldrLabel m \<noteq> expected_label wl"
    and "message_GetWldrLabel m \<noteq> 1 \<or> expected_label wl < message_GetWldrLabel m" "connection_IsUp conn"
    and n: "n = message_CreateWldrNotification m (expected_label wl) (message_GetWldrLabel m)"
  shows "\<exists>w'. wldr_DetectLosses conn wl w r = Inr (wl\<lparr>expected_label := message_GetWldrLabel m + 1\<rparr>, w') \<and>
    w_sent w' = w_sent w @ [(connection_GetConnectionId conn, n)]"
proof -
  have n': "packetType n = MessagePacketType_WldrNotification" "msg_refcount n = 1"
    by (simp_all add: n message_CreateWldrNotification_def Let_def)
  have "\<exists>w'. wldr_SendWldrNotificaiton conn w r (expected_label wl) (message_GetWldrLabel m) = Inr w' \<and>
      w_sent w' = w_sent w @ [(connection_GetConnectionId conn, n)]"
    using assms(1,5) n'
    by (simp add: wldr_SendWldrNotificaiton_def w_alloc_def connection_ReSend_def deref_def message_GetType_def
        ioOperations_Send_def w_Release_def message_Release_def connection_GetConnectionId_def Let_def flip: n)
  then show ?thesis using assms(1-4) by (auto simp: wldr_DetectLosses_def deref_def Let_def)
qed

section \<open>Retransmission\<close>

text \<open>The packet that \<^verbatim>\<open>connection_ReSend\<close> puts on the wire for a buffered message.\<close>

definition resent :: "Connection \<Rightarrow> Message \<Rightarrow> u16 \<Rightarrow> Message" where
  "resent conn m l =
     (let m = message_Acquire (message_SetWldrLabel m l) in
      if message_GetType m = MessagePacketType_ContentObject
      then message_UpdatePathLabel m (ucast (connection_GetConnectionId conn)) else m)"

lemma ReSend_packet:
  assumes "w_msgs w r = Some m" "connection_IsUp conn"
  shows "\<exists>w' res. connection_ReSend conn w r False = Inr (w', res) \<and>
    w_sent w' = w_sent w @ [(connection_GetConnectionId conn,
      if message_GetType m = MessagePacketType_ContentObject
      then message_UpdatePathLabel m (ucast (connection_GetConnectionId conn)) else m)] \<and>
    (\<forall>q. q \<noteq> r \<longrightarrow> w_msgs w' q = w_msgs w q)"
  using assms
  by (simp add: connection_ReSend_def deref_def w_modify_eq ioOperations_Send_def connection_GetConnectionId_def Let_def)

lemma RetransmitPacket_empty_slot:
  assumes "wb_message (wldr_buffer wl (slot l)) = Some r" "rtx_counter (wldr_buffer wl (slot l)) < MAX_RTX"
    and "w_msgs w r = Some m" "wb_message (wldr_buffer wl (slot (next_label wl))) = None" "connection_IsUp conn"
  shows "\<exists>w'. wldr_RetransmitPacket conn wl w l =
      Inr (wl\<lparr>wldr_buffer := (wldr_buffer wl)(slot (next_label wl) :=
              \<lparr>wb_message = Some r, rtx_counter = rtx_counter (wldr_buffer wl (slot l)) + 1\<rparr>),
            next_label := next_label wl + 1\<rparr>, w') \<and>
    w_sent w' = w_sent w @ [(connection_GetConnectionId conn, resent conn m (next_label wl))] \<and>
    (\<forall>q. q \<noteq> r \<longrightarrow> w_msgs w' q = w_msgs w q)"
proof -
  let ?m = "message_Acquire (message_SetWldrLabel m (next_label wl))"
  let ?w = "w_put (w_put w r (message_SetWldrLabel m (next_label wl))) r ?m"
  have "w_msgs ?w r = Some ?m" by simp
  from ReSend_packet[OF this assms(5)] obtain w' res where
    "connection_ReSend conn ?w r False = Inr (w', res)"
    "w_sent w' = w_sent w @ [(connection_GetConnectionId conn, resent conn m (next_label wl))]"
    "\<forall>q. q \<noteq> r \<longrightarrow> w_msgs w' q = w_msgs w q"
    by (auto simp: resent_def Let_def)
  with assms(1-4) show ?thesis
    by (simp add: wldr_RetransmitPacket_def w_modify_eq release_slot_def w_Acquire_def Let_def)
qed

text \<open>
  The packets labelled from \<open>n\<close> on are buffered as \<open>rs\<close>, alive and below the retransmission limit;
  \<open>room wl n k\<close>: the slots of the \<open>k\<close> labels from \<open>n\<close> on are free.
\<close>

definition buffered :: "Wldr \<Rightarrow> world \<Rightarrow> nat \<Rightarrow> mref list \<Rightarrow> bool" where
  "buffered wl w n rs \<longleftrightarrow> (\<forall>i<length rs.
     wb_message (wldr_buffer wl ((n + i) mod BUFFER_SIZE)) = Some (rs ! i) \<and>
     rtx_counter (wldr_buffer wl ((n + i) mod BUFFER_SIZE)) < MAX_RTX \<and> w_msgs w (rs ! i) \<noteq> None)"

definition room :: "Wldr \<Rightarrow> nat \<Rightarrow> nat \<Rightarrow> bool" where
  "room wl n k \<longleftrightarrow> (\<forall>i<k. wb_message (wldr_buffer wl ((n + i) mod BUFFER_SIZE)) = None)"

lemma mod_offset_neq: "0 < i \<Longrightarrow> i < n \<Longrightarrow> (m + i) mod n \<noteq> m mod (n :: nat)"
  by (metis add.right_neutral add_left_cancel dvd_imp_le linorder_not_less mod_eq_dvd_iff_nat le_add1 add_diff_cancel_left')

lemma buffered_frame:
  assumes "buffered wl w n (r # rs)" "distinct (r # rs)" "\<forall>q. q \<noteq> r \<longrightarrow> w_msgs w' q = w_msgs w q"
    and "wb_message (wldr_buffer wl j) = None"
  shows "buffered (wl\<lparr>wldr_buffer := (wldr_buffer wl)(j := b), next_label := l\<rparr>) w' (Suc n) rs"
  unfolding buffered_def
proof (intro allI impI)
  fix i assume i: "i < length rs"
  have *: "wb_message (wldr_buffer wl ((n + Suc i) mod BUFFER_SIZE)) = Some (rs ! i)"
    "rtx_counter (wldr_buffer wl ((n + Suc i) mod BUFFER_SIZE)) < MAX_RTX" "w_msgs w (rs ! i) \<noteq> None"
    using assms(1) i unfolding buffered_def by (auto dest!: spec[of _ "Suc i"])
  moreover have "(n + Suc i) mod BUFFER_SIZE \<noteq> j" using *(1) assms(4) by auto
  moreover have "rs ! i \<noteq> r" using assms(2) i by auto
  ultimately show "wb_message (wldr_buffer (wl\<lparr>wldr_buffer := (wldr_buffer wl)(j := b), next_label := l\<rparr>) ((Suc n + i) mod BUFFER_SIZE)) = Some (rs ! i) \<and>
      rtx_counter (wldr_buffer (wl\<lparr>wldr_buffer := (wldr_buffer wl)(j := b), next_label := l\<rparr>) ((Suc n + i) mod BUFFER_SIZE)) < MAX_RTX \<and>
      w_msgs w' (rs ! i) \<noteq> None"
    using assms(3) by simp
qed

lemma room_frame:
  assumes "room wl n (Suc k)" "Suc k \<le> BUFFER_SIZE"
  shows "room (wl\<lparr>wldr_buffer := (wldr_buffer wl)(n mod BUFFER_SIZE := b), next_label := l\<rparr>) (Suc n) k"
  unfolding room_def
proof (intro allI impI)
  fix i assume "i < k"
  then have "wb_message (wldr_buffer wl ((n + Suc i) mod BUFFER_SIZE)) = None" "(n + Suc i) mod BUFFER_SIZE \<noteq> n mod BUFFER_SIZE"
    using assms mod_offset_neq[of "Suc i" BUFFER_SIZE n] by (auto simp: room_def)
  then show "wb_message (wldr_buffer (wl\<lparr>wldr_buffer := (wldr_buffer wl)(n mod BUFFER_SIZE := b), next_label := l\<rparr>) ((Suc n + i) mod BUFFER_SIZE)) = None"
    by simp
qed

lemma retransmit_loop_gap:
  assumes "buffered wl w (unat a) rs" "distinct rs" "unat b = unat a + length rs"
    and "room wl (unat (next_label wl)) (length rs)" "unat (next_label wl) + length rs < 65536"
    and "length rs \<le> BUFFER_SIZE" "connection_IsUp conn"
  shows "\<exists>wl' w'. retransmit_loop conn wl w a b = Inr (wl', w') \<and>
    w_sent w' = w_sent w @ map (\<lambda>i. (connection_GetConnectionId conn,
      resent conn (the (w_msgs w (rs ! i))) (next_label wl + of_nat i))) [0..<length rs] \<and>
    next_label wl' = next_label wl + of_nat (length rs)"
  using assms
proof (induction rs arbitrary: wl w a)
  case Nil
  then have "\<not> a < b" by (simp add: word_less_nat_alt)
  then show ?case by (subst retransmit_loop.simps) simp
next
  case (Cons r rs)
  have lt: "a < b" using Cons.prems(3) by (simp add: word_less_nat_alt)
  note b0 = Cons.prems(1)[unfolded buffered_def, rule_format, of 0]
  obtain m where m: "w_msgs w r = Some m" using b0 by auto
  have s: "wb_message (wldr_buffer wl (slot a)) = Some r" "rtx_counter (wldr_buffer wl (slot a)) < MAX_RTX"
    using b0 by (simp_all add: slot_def)
  have free: "wb_message (wldr_buffer wl (slot (next_label wl))) = None"
    using Cons.prems(4) by (auto simp: room_def slot_def)
  let ?b = "\<lparr>wb_message = Some r, rtx_counter = rtx_counter (wldr_buffer wl (slot a)) + 1\<rparr>"
  let ?wl = "wl\<lparr>wldr_buffer := (wldr_buffer wl)(slot (next_label wl) := ?b), next_label := next_label wl + 1\<rparr>"
  from RetransmitPacket_empty_slot[OF s m free Cons.prems(7)] obtain w1 where
    w1: "wldr_RetransmitPacket conn wl w a = Inr (?wl, w1)"
    "w_sent w1 = w_sent w @ [(connection_GetConnectionId conn, resent conn m (next_label wl))]"
    "\<forall>q. q \<noteq> r \<longrightarrow> w_msgs w1 q = w_msgs w q" by blast
  have un: "unat (next_label wl + 1) = Suc (unat (next_label wl))"
    using Cons.prems(5) by (simp add: unat_word_ariths)
  have ua: "unat (a + 1) = Suc (unat a)" using unat_inc_less[OF lt] by simp
  have "\<exists>wl' w'. retransmit_loop conn ?wl w1 (a + 1) b = Inr (wl', w') \<and>
      w_sent w' = w_sent w1 @ map (\<lambda>i. (connection_GetConnectionId conn,
        resent conn (the (w_msgs w1 (rs ! i))) (next_label ?wl + of_nat i))) [0..<length rs] \<and>
      next_label wl' = next_label ?wl + of_nat (length rs)"
  proof (rule Cons.IH)
    show "buffered ?wl w1 (unat (a + 1)) rs"
      unfolding ua using buffered_frame[OF Cons.prems(1,2) w1(3) free] .
    show "room ?wl (unat (next_label ?wl)) (length rs)"
      using room_frame[of wl "unat (next_label wl)" "length rs"] Cons.prems(4,6) un by (simp add: slot_def)
  qed (use Cons.prems un ua in auto)
  moreover have "the (w_msgs w1 (rs ! i)) = the (w_msgs w (rs ! i))" if "i < length rs" for i
    using w1(3) Cons.prems(2) that by (metis distinct.simps(2) nth_mem)
  then have "map (\<lambda>i. (connection_GetConnectionId conn, resent conn (the (w_msgs w1 (rs ! i))) (next_label ?wl + of_nat i))) [0..<length rs] =
      map (\<lambda>i. (connection_GetConnectionId conn, resent conn (the (w_msgs w ((r # rs) ! i))) (next_label wl + of_nat i))) [1..<length (r # rs)]"
    by (simp add: map_Suc_upt[symmetric] comp_def add.assoc del: upt_Suc)
  moreover have "retransmit_loop conn wl w a b = retransmit_loop conn ?wl w1 (a + 1) b"
    using lt w1(1) by (subst retransmit_loop.simps) simp
  moreover have "[0..<length (r # rs)] = 0 # [1..<length (r # rs)]" by (simp add: upt_conv_Cons del: upt_Suc)
  ultimately show ?case using w1(2) m by (simp del: upt_Suc add: add.assoc)
qed

section \<open>The retransmission limit\<close>

definition rtx_ok :: "Wldr \<Rightarrow> bool" where
  "rtx_ok wl \<longleftrightarrow> (\<forall>i. rtx_counter (wldr_buffer wl i) \<le> MAX_RTX)"

lemma rtx_inc: "(c :: u8) < MAX_RTX \<Longrightarrow> c + 1 \<le> MAX_RTX"
  using unat_inc_less[of c MAX_RTX] by (simp add: word_less_nat_alt word_le_nat_alt MAX_RTX_def)

lemma RetransmitPacket_rtx:
  "wldr_RetransmitPacket conn wl w l = Inr (wl', w') \<Longrightarrow> rtx_ok wl \<Longrightarrow> rtx_ok wl'"
  by (auto simp: wldr_RetransmitPacket_def Let_def rtx_ok_def rtx_inc split: option.splits if_splits)

lemma retransmit_loop_rtx:
  "retransmit_loop conn wl w e r = Inr (wl', w') \<Longrightarrow> rtx_ok wl \<Longrightarrow> rtx_ok wl'"
proof (induction conn wl w e r rule: retransmit_loop.induct)
  case (1 conn wl w e r)
  show ?case
  proof (cases "e < r")
    case True
    with "1.prems"(1) obtain wl1 w1 where p: "wldr_RetransmitPacket conn wl w e = Inr (wl1, w1)"
      and q: "retransmit_loop conn wl1 w1 (e + 1) r = Inr (wl', w')"
      by (subst (asm) retransmit_loop.simps) (auto split: sum.splits)
    from "1.IH"[OF True p refl q] RetransmitPacket_rtx[OF p "1.prems"(2)] show ?thesis by blast
  qed (use 1 in \<open>auto simp: retransmit_loop.simps\<close>)
qed

section \<open>Properties\<close>

text \<open>An interest in a store, and a connection that is up, for the witnesses.\<close>

definition ex_world :: world where
  "ex_world = \<lparr>w_msgs = [0 \<mapsto> ex_interest], w_next = 1, w_sent = [], w_probes = []\<rparr>"

definition ex_io :: IoOperations where
  "ex_io = \<lparr>io_connectionId = 5, io_addressPair = addressPair_Create \<lparr>addressType = AT_INET, blob = [1]\<rparr> \<lparr>addressType = AT_INET, blob = [2]\<rparr>, io_isUp = True, io_isLocal = False,
     io_state = CONNECTION_STATE_UP, io_admin_state = CONNECTION_STATE_UP, io_priority = 0, io_send = (\<lambda>m. True),
     io_connectionType = CONN_UDP, io_interfaceName = Some ''eth0'', io_isClosed = False\<rparr>"

definition ex_conn :: Connection where
  "ex_conn = connection_Create ex_io"

lemma ex_interest_tcp: "tcp_message ex_interest"
proof -
  have "messageHandler_IsTCP (messageHead ex_interest)" "tcp_offset (messageHead ex_interest) = Some 40"
    "length (messageHead ex_interest) = 60" by code_simp+
  then show ?thesis by (simp add: tcp_message_def TCP_HDRLEN_def)
qed

lemma ex_conn_up: "connection_IsUp ex_conn"
  by (simp add: ex_conn_def ex_io_def connection_Create_def connection_SetAdminState_def connection_IsUp_def)

text \<open>
  C32. No false alarms: on a link that loses nothing, from initial states on both sides, sender and
  receiver stay in step whatever is sent, no label is zero (also across the wrap of the 16-bit
  counter), and no loss notification is ever sent.
\<close>

theorem wldr_lossless_quiet:
  assumes "(wldr_link conn)\<^sup>*\<^sup>* (wldr_Init, wldr_Init, w0) (s, v, w)"
  shows "next_label s = expected_label v \<and> next_label s \<noteq> 0 \<and> w_sent w = w_sent w0"
proof -
  have "next_label (fst st) = expected_label (fst (snd st)) \<and> next_label (fst st) \<noteq> 0 \<and> w_sent (snd (snd st)) = w_sent w0"
    if "(wldr_link conn)\<^sup>*\<^sup>* (wldr_Init, wldr_Init, w0) st" for st
    using that
  proof (induction rule: rtranclp_induct)
    case base
    then show ?case by (simp add: wldr_Init_def)
  next
    case (step st st')
    then show ?case using wldr_link_in_step by (cases st; cases st') fastforce
  qed
  from this[OF assms] show ?thesis by auto
qed

theorem wldr_lossless_quiet_witness:
  "\<exists>s v w. (wldr_link ex_conn)\<^sup>*\<^sup>* (wldr_Init, wldr_Init, ex_world) (s, v, w) \<and> next_label s = 2 \<and>
     next_label s = expected_label v \<and> w_sent w = w_sent ex_world"
proof -
  have m: "w_msgs ex_world 0 = Some ex_interest" by (simp add: ex_world_def)
  have "\<exists>s w. wldr_SetLabel wldr_Init ex_world 0 = Inr (s, w)"
    using m by (simp add: wldr_SetLabel_def w_modify_eq release_slot_def wldr_Init_def w_Acquire_def Let_def)
  then obtain s w where s: "wldr_SetLabel wldr_Init ex_world 0 = Inr (s, w)" by blast
  note sl = SetLabel_result[OF s m ex_interest_tcp]
  have one: "next_label wldr_Init \<noteq> 0" "expected_label wldr_Init = next_label wldr_Init" by (simp_all add: wldr_Init_def)
  obtain m' where "w_msgs w 0 = Some m'" "message_HasWldr m'" "message_GetWldrLabel m' = expected_label wldr_Init"
    using sl(4) one by auto
  from wldr_link.transfer[OF m ex_interest_tcp s DetectLosses_in_step[OF this]]
  have r: "(wldr_link ex_conn)\<^sup>*\<^sup>* (wldr_Init, wldr_Init, ex_world)
      (s, wldr_Init\<lparr>expected_label := succ_label (expected_label wldr_Init)\<rparr>, w)" by (rule r_into_rtranclp)
  moreover have "next_label s = 2" using sl(1) one by (simp add: succ_label_def wldr_Init_def)
  ultimately show ?thesis using wldr_lossless_quiet[OF r] by blast
qed

text \<open>
  A gap is reported: when a labelled packet arrives with a label other than the expected one
  (and it is not a peer that restarted at 1), exactly one packet is sent, a notification made
  with the expected and the received label, and the receiver moves on to the label after the
  received one.
\<close>

theorem wldr_gap_notified:
  assumes "w_msgs w r = Some m" "message_HasWldr m" "message_GetWldrLabel m \<noteq> expected_label wl"
    and "message_GetWldrLabel m \<noteq> 1 \<or> expected_label wl < message_GetWldrLabel m" "connection_IsUp conn"
  shows "\<exists>w'. wldr_DetectLosses conn wl w r = Inr (wl\<lparr>expected_label := message_GetWldrLabel m + 1\<rparr>, w') \<and>
    w_sent w' = w_sent w @ [(connection_GetConnectionId conn,
      message_CreateWldrNotification m (expected_label wl) (message_GetWldrLabel m))]"
  using DetectLosses_gap[OF assms refl] .

theorem wldr_gap_notified_witness:
  "\<exists>w'. wldr_DetectLosses ex_conn wldr_Init (w_put ex_world 0 (message_SetWldrLabel ex_interest 4)) 0 =
      Inr (wldr_Init\<lparr>expected_label := 5\<rparr>, w') \<and>
    w_sent w' = [(5, message_CreateWldrNotification (message_SetWldrLabel ex_interest 4) 1 4)]"
proof -
  note l = SetWldrLabel_message[OF ex_interest_tcp, of 4]
  show ?thesis
    using wldr_gap_notified[of "w_put ex_world 0 (message_SetWldrLabel ex_interest 4)" 0 "message_SetWldrLabel ex_interest 4" wldr_Init ex_conn]
      l ex_conn_up
    by (simp add: wldr_Init_def ex_world_def connection_GetConnectionId_def ex_conn_def connection_Create_def
        connection_SetAdminState_def ex_io_def)
qed


text \<open>The witness: one packet sent under label 1 and reported lost by a notification with labels 1 and 2.\<close>

definition ex_notification :: Message where
  "ex_notification = ex_interest\<lparr>messageHead := [0x60, 0, 0, 0, 0, 4, 58, 5] @ replicate 32 0 @ [42, 0, 0, 0, 0, 1, 0, 2]\<rparr>"

definition ex_sender :: Wldr where
  "ex_sender = wldr_Init\<lparr>next_label := 2, wldr_buffer := (wldr_buffer wldr_Init)(1 := \<lparr>wb_message = Some 0, rtx_counter = 0\<rparr>)\<rparr>"


text \<open>
  The retransmission counter never passes \<^verbatim>\<open>MAX_RTX\<close>: no operation of the protocol takes it
  there, so a buffered packet is resent at most three times.
\<close>

theorem wldr_rtx_bounded:
  assumes "rtx_ok wl"
  shows "rtx_ok wldr_Init \<and> rtx_ok (wldr_ResetState wl) \<and>
    (wldr_SetLabel wl w r = Inr (wl', w') \<longrightarrow> rtx_ok wl') \<and>
    (wldr_DetectLosses conn wl w r = Inr (wl', w') \<longrightarrow> rtx_ok wl') \<and>
    (wldr_HandleWldrNotification conn wl w r = Inr (wl', w') \<longrightarrow> rtx_ok wl')"
proof (intro conjI impI)
  show "rtx_ok wldr_Init" "rtx_ok (wldr_ResetState wl)" by (simp_all add: rtx_ok_def wldr_Init_def wldr_ResetState_def)
next
  assume "wldr_SetLabel wl w r = Inr (wl', w')"
  then show "rtx_ok wl'" using assms by (auto simp: wldr_SetLabel_def Let_def rtx_ok_def split: if_splits)
next
  assume "wldr_DetectLosses conn wl w r = Inr (wl', w')"
  then show "rtx_ok wl'" using assms by (auto simp: wldr_DetectLosses_def Let_def rtx_ok_def split: if_splits)
next
  assume "wldr_HandleWldrNotification conn wl w r = Inr (wl', w')"
  then show "rtx_ok wl'"
    using assms retransmit_loop_rtx by (auto simp: wldr_HandleWldrNotification_def Let_def split: if_splits)
qed

theorem wldr_rtx_bounded_witness: "rtx_ok (wldr_ResetState ex_sender)"
  using wldr_rtx_bounded[of ex_sender] by (simp add: rtx_ok_def ex_sender_def wldr_Init_def)

text \<open>
  At the wrap of the label counter the recovery paths do not skip zero, as the normal path does: a
  retransmission under label 65535 leaves the next label at zero, which on the wire means that the
  packet has no label, and a resynchronisation on label 65535 leaves the receiver expecting zero.
\<close>

theorem wldr_zero_label_after_recovery:
  assumes "wb_message (wldr_buffer wl (slot l)) = Some q" "rtx_counter (wldr_buffer wl (slot l)) < MAX_RTX"
    and "w_msgs w q = Some mq" "wb_message (wldr_buffer wl (slot 0xFFFF)) = None" "connection_IsUp conn"
    and "next_label wl = 0xFFFF"
    and "w_msgs w r = Some m" "message_HasWldr m" "message_GetWldrLabel m = 0xFFFF" "expected_label wl \<noteq> 0xFFFF"
  shows "(\<exists>wl' w'. wldr_RetransmitPacket conn wl w l = Inr (wl', w') \<and> next_label wl' = 0) \<and>
    (\<exists>wl' w'. wldr_DetectLosses conn wl w r = Inr (wl', w') \<and> expected_label wl' = 0)"
proof (rule conjI)
  show "\<exists>wl' w'. wldr_RetransmitPacket conn wl w l = Inr (wl', w') \<and> next_label wl' = 0"
    using RetransmitPacket_empty_slot[OF assms(1-3) _ assms(5)] assms(4,6) by auto
  show "\<exists>wl' w'. wldr_DetectLosses conn wl w r = Inr (wl', w') \<and> expected_label wl' = 0"
    using DetectLosses_gap[OF assms(7,8) _ _ assms(5) refl, of wl] assms(9,10) by auto
qed

theorem wldr_zero_label_after_recovery_witness:
  "\<exists>wl' w'. wldr_RetransmitPacket ex_conn (ex_sender\<lparr>next_label := 0xFFFF\<rparr>)
      (w_put ex_world 1 (message_SetWldrLabel ex_interest 0xFFFF)) 1 = Inr (wl', w') \<and> next_label wl' = 0"
proof -
  have "slot 1 = 1" "slot 0xFFFF = 8191" by (simp_all add: slot_def BUFFER_SIZE_def)
  then show ?thesis
    using wldr_zero_label_after_recovery[of "ex_sender\<lparr>next_label := 0xFFFF\<rparr>" 1 0
        "w_put ex_world 1 (message_SetWldrLabel ex_interest 0xFFFF)" ex_interest ex_conn 1 "message_SetWldrLabel ex_interest 0xFFFF"]
      SetWldrLabel_message[OF ex_interest_tcp, of "0xFFFF"] ex_conn_up
    by (simp add: ex_sender_def wldr_Init_def ex_world_def MAX_RTX_def)
qed

text \<open>Policy tags behave as a set: adding, removing and clearing tags affect exactly the tag given.\<close>

theorem connection_tags_as_set:
  "(connection_HasTag (connection_AddTag conn t) u \<longleftrightarrow> u = t \<or> connection_HasTag conn u) \<and>
   (connection_HasTag (connection_RemoveTag conn t) u \<longleftrightarrow> u \<noteq> t \<and> connection_HasTag conn u) \<and>
   \<not> connection_HasTag (connection_ClearTags conn) u"
  by (simp_all add: connection_HasTag_def connection_AddTag_def connection_RemoveTag_def connection_ClearTags_def policy_tags_ops)

end
