(* ===== verification/Fib.thy ===== *)
theory Fib
  imports NameBitvector
begin

text \<open>
  The forwarding information base (\<^verbatim>\<open>hicn-light/src/hicn/processor/fib.c\<close>): a path-compressed
  binary trie of prefixes. A node holds a pointer to a FIB entry and the flag \<^verbatim>\<open>is_used\<close>; an
  unused node is an inner node that only joins two subtrees. The entries are abstract here
  (type \<open>'e\<close>, the entry pointers), and \<open>pfx\<close> stands for
  \<^verbatim>\<open>name_GetContentName(fibEntry_GetPrefix(entry))\<close>.

  The C loops walk down with the pointers \<^verbatim>\<open>curr\<close>, \<^verbatim>\<open>last\<close> (or \<^verbatim>\<open>parent\<close>, \<^verbatim>\<open>grandpa\<close>) and then
  overwrite one child pointer. The model keeps the nodes passed on the way as a path of frames
  (direction taken, the node's entry and flag, the child not taken), so that \<^verbatim>\<open>last\<close> and
  \<^verbatim>\<open>parent\<close> are the first frame, \<^verbatim>\<open>grandpa\<close> the second, and writing a child pointer is rebuilding
  the tree from the path.

  The lemmas show, for well-formed tries, that no bit-test assertion of the source fires, that
  \<open>fib_MatchBitvector\<close> is longest-prefix match over the used entries, that \<open>fib_Contains\<close> is
  exact match, that \<open>fib_Add\<close> and \<open>removeNode\<close> change the set of used entries by exactly the
  given one, and that every operation keeps the trie well formed and its size counter right.
\<close>

section \<open>Model\<close>

datatype 'e fib_node = Null | FibNode "'e fib_node" "'e fib_node" 'e bool

record 'e fib =
  fib_root :: "'e fib_node"
  fib_size :: u32

datatype 'e frame = Frame bool 'e bool "'e fib_node"

definition fib_Create :: "'e fib" where
  "fib_Create = \<lparr>fib_root = Null, fib_size = 0\<rparr>"

text \<open>Rebuild the tree around \<open>t\<close>; a frame's flag is \<open>True\<close> when the walk went right.\<close>

fun plug :: "'e fib_node \<Rightarrow> 'e frame list \<Rightarrow> 'e fib_node" where
  "plug t [] = t"
| "plug t (Frame d e u s # fs) = plug (if d then FibNode s t e u else FibNode t s e u) fs"

fun fib_add_loop ::
  "('e \<Rightarrow> NameBitvector) \<Rightarrow> NameBitvector \<Rightarrow> 'e fib_node \<Rightarrow> 'e frame list \<Rightarrow>
     ('e frame list \<times> 'e fib_node) res" where
  "fib_add_loop pfx new_prefix Null path = Inr (path, Null)"
| "fib_add_loop pfx new_prefix (FibNode l r e u) path =
     (let curr_name = pfx e;
          match_len = nameBitvector_lpm new_prefix curr_name;
          curr_prefix_len = nameBitvector_GetLength curr_name
      in if curr_prefix_len \<noteq> match_len \<or> curr_prefix_len \<ge> nameBitvector_GetLength new_prefix
         then Inr (path, FibNode l r e u)
         else (case nameBitvector_testBit new_prefix curr_prefix_len of
                 None \<Rightarrow> Inl AssertFailed
               | Some b \<Rightarrow>
                   if b then fib_add_loop pfx new_prefix r (Frame True e u l # path)
                   else fib_add_loop pfx new_prefix l (Frame False e u r # path)))"

text \<open>
  Make \<open>node\<close> the root (\<^verbatim>\<open>last == NULL\<close>) or a child of \<^verbatim>\<open>last\<close>, on the side that the bit of
  \<open>key\<close> after \<^verbatim>\<open>last\<close>'s prefix selects; \<open>cur\<close> is the child the walk had taken.
\<close>

fun fib_attach ::
  "('e \<Rightarrow> NameBitvector) \<Rightarrow> NameBitvector \<Rightarrow> 'e frame list \<Rightarrow> 'e fib_node \<Rightarrow> 'e fib_node \<Rightarrow>
     'e fib_node res" where
  "fib_attach pfx key [] cur node = Inr node"
| "fib_attach pfx key (Frame d e u s # fs) cur node =
     (case nameBitvector_testBit key (nameBitvector_GetLength (pfx e)) of
        None \<Rightarrow> Inl AssertFailed
      | Some b \<Rightarrow>
          Inr (plug (if b then FibNode (if d then s else cur) node e u
                     else FibNode node (if d then cur else s) e u) fs))"

definition fib_inner_prefix :: "NameBitvector \<Rightarrow> nat \<Rightarrow> NameBitvector" where
  "fib_inner_prefix new_prefix match_len =
     nameBitvector_setLen (nameBitvector_clear (nameBitvector_Copy new_prefix) match_len) match_len"

text \<open>
  \<open>inner\<close> is the pointer that \<^verbatim>\<open>fibEntry_Create\<close> returns if the last case runs; the second
  component of the result is the prefix that call was made with, if it was made. When the
  prefix is already in the trie and used, the source merges the next hops into the existing
  entry and then falls through into the next case, where the bit test on \<^verbatim>\<open>curr_name\<close> at its own
  length fails its assertion.
\<close>

definition fib_Add ::
  "('e \<Rightarrow> NameBitvector) \<Rightarrow> 'e \<Rightarrow> 'e fib \<Rightarrow> 'e \<Rightarrow> ('e fib \<times> NameBitvector option) res" where
  "fib_Add pfx inner fib entry =
     (let new_prefix = pfx entry;
          new_prefix_len = nameBitvector_GetLength new_prefix
      in bind_res (fib_add_loop pfx new_prefix (fib_root fib) []) (\<lambda>(path, cur).
         case cur of
           Null \<Rightarrow>
             bind_res (fib_attach pfx new_prefix path cur (FibNode Null Null entry True))
               (\<lambda>root. Inr (fib\<lparr>fib_root := root, fib_size := fib_size fib + 1\<rparr>, None))
         | FibNode l r e u \<Rightarrow>
             (let curr_name = pfx e;
                  match_len = nameBitvector_lpm new_prefix curr_name;
                  curr_prefix_len = nameBitvector_GetLength curr_name
              in if curr_prefix_len = match_len \<and> new_prefix_len = match_len \<and> \<not> u
                 then Inr (fib\<lparr>fib_root := plug (FibNode l r entry True) path,
                               fib_size := fib_size fib + 1\<rparr>, None)
                 else if new_prefix_len = match_len
                 then (case nameBitvector_testBit curr_name match_len of
                         None \<Rightarrow> Inl AssertFailed
                       | Some b \<Rightarrow>
                           bind_res (fib_attach pfx new_prefix path cur
                             (FibNode (if b then Null else cur) (if b then cur else Null) entry True))
                             (\<lambda>root. Inr (fib\<lparr>fib_root := root, fib_size := fib_size fib + 1\<rparr>, None)))
                 else (case nameBitvector_testBit new_prefix match_len of
                         None \<Rightarrow> Inl AssertFailed
                       | Some b \<Rightarrow>
                           (let inner_prefix = fib_inner_prefix new_prefix match_len;
                                new_node = FibNode Null Null entry True;
                                inner_node = (if b then FibNode cur new_node inner False
                                              else FibNode new_node cur inner False)
                            in bind_res (fib_attach pfx inner_prefix path cur inner_node)
                                 (\<lambda>root. Inr (fib\<lparr>fib_root := root, fib_size := fib_size fib + 1\<rparr>,
                                              Some inner_prefix)))))))"

fun fib_contains_loop ::
  "('e \<Rightarrow> NameBitvector) \<Rightarrow> NameBitvector \<Rightarrow> 'e fib_node \<Rightarrow> 'e option res" where
  "fib_contains_loop pfx key_name Null = Inr None"
| "fib_contains_loop pfx key_name (FibNode l r e u) =
     (let curr_name = pfx e;
          match_len = nameBitvector_lpm key_name curr_name;
          curr_prefix_len = nameBitvector_GetLength curr_name
      in if match_len < curr_prefix_len then Inr None
         else if curr_prefix_len = nameBitvector_GetLength key_name
         then (if u then Inr (Some e) else Inr None)
         else (case nameBitvector_testBit key_name curr_prefix_len of
                 None \<Rightarrow> Inl AssertFailed
               | Some b \<Rightarrow> if b then fib_contains_loop pfx key_name r
                             else fib_contains_loop pfx key_name l))"

definition fib_Contains :: "('e \<Rightarrow> NameBitvector) \<Rightarrow> 'e fib \<Rightarrow> NameBitvector \<Rightarrow> 'e option res" where
  "fib_Contains pfx fib key_name = fib_contains_loop pfx key_name (fib_root fib)"

fun remove_loop ::
  "('e \<Rightarrow> NameBitvector) \<Rightarrow> NameBitvector \<Rightarrow> 'e fib_node \<Rightarrow> 'e frame list \<Rightarrow>
     ('e frame list \<times> 'e fib_node) res" where
  "remove_loop pfx key_name Null path = Inr (path, Null)"
| "remove_loop pfx key_name (FibNode l r e u) path =
     (let curr_name = pfx e;
          match_len = nameBitvector_lpm key_name curr_name;
          curr_prefix_len = nameBitvector_GetLength curr_name
      in if match_len < curr_prefix_len \<or> curr_prefix_len = nameBitvector_GetLength key_name
         then Inr (path, FibNode l r e u)
         else (case nameBitvector_testBit key_name curr_prefix_len of
                 None \<Rightarrow> Inl AssertFailed
               | Some b \<Rightarrow>
                   if b then remove_loop pfx key_name r (Frame True e u l # path)
                   else remove_loop pfx key_name l (Frame False e u r # path)))"

text \<open>Unlink a node that has no children, with \<open>path\<close> leading to it.\<close>

fun unlink_leaf :: "'e frame list \<Rightarrow> 'e fib_node" where
  "unlink_leaf [] = Null"
| "unlink_leaf [parent] = plug Null [parent]"
| "unlink_leaf (Frame d pe pu s # grandpa # fs) =
     (if \<not> pu then plug s (grandpa # fs) else plug Null (Frame d pe pu s # grandpa # fs))"

definition removeNode :: "('e \<Rightarrow> NameBitvector) \<Rightarrow> 'e fib \<Rightarrow> NameBitvector \<Rightarrow> 'e fib res" where
  "removeNode pfx fib key_name =
     bind_res (remove_loop pfx key_name (fib_root fib) []) (\<lambda>(path, cur).
       case cur of
         Null \<Rightarrow> Inr fib
       | FibNode l r e u \<Rightarrow>
           if \<not> u \<or> nameBitvector_GetLength (pfx e) \<noteq> nameBitvector_GetLength key_name then Inr fib
           else if r \<noteq> Null \<and> l \<noteq> Null
           then Inr (fib\<lparr>fib_root := plug (FibNode l r e False) path, fib_size := fib_size fib - 1\<rparr>)
           else if r = Null \<and> l = Null
           then Inr (fib\<lparr>fib_root := unlink_leaf path, fib_size := fib_size fib - 1\<rparr>)
           else Inr (fib\<lparr>fib_root := plug (if r \<noteq> Null then r else l) path,
                         fib_size := fib_size fib - 1\<rparr>))"

definition fib_Length :: "'e fib \<Rightarrow> u32" where
  "fib_Length fib = fib_size fib"

fun fib_match_loop ::
  "('e \<Rightarrow> NameBitvector) \<Rightarrow> NameBitvector \<Rightarrow> 'e fib_node \<Rightarrow> 'e option \<Rightarrow> 'e option res" where
  "fib_match_loop pfx name Null candidate = Inr candidate"
| "fib_match_loop pfx name (FibNode l r e u) candidate =
     (let curr_name = pfx e;
          match_len = nameBitvector_lpm name curr_name;
          curr_prefix_len = nameBitvector_GetLength curr_name
      in if match_len < curr_prefix_len then Inr candidate
         else (let candidate = (if u then Some e else candidate) in
               if curr_prefix_len = nameBitvector_GetLength name then Inr candidate
               else (case nameBitvector_testBit name curr_prefix_len of
                       None \<Rightarrow> Inl AssertFailed
                     | Some b \<Rightarrow> if b then fib_match_loop pfx name r candidate
                                   else fib_match_loop pfx name l candidate)))"

definition fib_MatchBitvector :: "('e \<Rightarrow> NameBitvector) \<Rightarrow> 'e fib \<Rightarrow> NameBitvector \<Rightarrow> 'e option res" where
  "fib_MatchBitvector pfx fib name = fib_match_loop pfx name (fib_root fib) None"

text \<open>The walk of \<^verbatim>\<open>_collectFibEntries\<close>: the node itself, then right, then left.\<close>

fun collectFibEntries :: "'e fib_node \<Rightarrow> 'e list \<Rightarrow> 'e list" where
  "collectFibEntries Null acc = acc"
| "collectFibEntries (FibNode l r e u) acc =
     collectFibEntries l (collectFibEntries r (if u then acc @ [e] else acc))"

definition fib_GetEntries :: "'e fib \<Rightarrow> 'e list" where
  "fib_GetEntries fib = collectFibEntries (fib_root fib) []"

section \<open>Well-formed tries\<close>

fun fib_entries :: "'e fib_node \<Rightarrow> 'e set" where
  "fib_entries Null = {}"
| "fib_entries (FibNode l r e u) = insert e (fib_entries l \<union> fib_entries r)"

fun fib_used :: "'e fib_node \<Rightarrow> 'e set" where
  "fib_used Null = {}"
| "fib_used (FibNode l r e u) = (if u then {e} else {}) \<union> fib_used l \<union> fib_used r"

definition ebits :: "('e \<Rightarrow> NameBitvector) \<Rightarrow> 'e \<Rightarrow> bool list" where
  "ebits pfx e = nb_bits (pfx e)"

text \<open>All entries below \<open>t\<close> extend the bit string \<open>ps\<close>.\<close>

definition below :: "('e \<Rightarrow> NameBitvector) \<Rightarrow> bool list \<Rightarrow> 'e fib_node \<Rightarrow> bool" where
  "below pfx ps t \<longleftrightarrow> (\<forall>x\<in>fib_entries t. prefix ps (ebits pfx x))"

fun fib_wf :: "('e \<Rightarrow> NameBitvector) \<Rightarrow> 'e fib_node \<Rightarrow> bool" where
  "fib_wf pfx Null = True"
| "fib_wf pfx (FibNode l r e u) \<longleftrightarrow>
     nb_valid (pfx e) \<and> fib_wf pfx l \<and> fib_wf pfx r \<and>
     below pfx (ebits pfx e @ [False]) l \<and> below pfx (ebits pfx e @ [True]) r"

definition fib_inv :: "('e \<Rightarrow> NameBitvector) \<Rightarrow> 'e fib \<Rightarrow> bool" where
  "fib_inv pfx fib \<longleftrightarrow> fib_wf pfx (fib_root fib) \<and> fib_size fib = of_nat (card (fib_used (fib_root fib)))"

lemma below_simps [simp]:
  "below pfx ps Null"
  "below pfx ps (FibNode l r e u) \<longleftrightarrow> prefix ps (ebits pfx e) \<and> below pfx ps l \<and> below pfx ps r"
  by (auto simp: below_def)

lemma below_mono: "below pfx qs t \<Longrightarrow> prefix ps qs \<Longrightarrow> below pfx ps t"
  by (auto simp: below_def intro: prefix_order.trans)

lemma fib_used_subset: "fib_used t \<subseteq> fib_entries t"
  by (induction t) auto

lemma finite_fib_used [simp]: "finite (fib_used t)"
  by (induction t) auto

lemma below_used: "below pfx ps t \<Longrightarrow> x \<in> fib_used t \<Longrightarrow> prefix ps (ebits pfx x)"
  using fib_used_subset[of t] by (auto simp: below_def)

text \<open>The comparisons of the source, over bit strings.\<close>

lemma walk_simps:
  assumes "nb_valid key" "nb_valid (pfx e)"
  shows "nameBitvector_lpm key (pfx e) < nameBitvector_GetLength (pfx e) \<longleftrightarrow>
      \<not> prefix (ebits pfx e) (nb_bits key)"
    "nameBitvector_GetLength (pfx e) \<noteq> nameBitvector_lpm key (pfx e) \<longleftrightarrow>
      \<not> prefix (ebits pfx e) (nb_bits key)"
    "nameBitvector_GetLength (pfx e) = length (ebits pfx e)"
  using length_lcp_eq_iff[of "nb_bits key" "nb_bits (pfx e)"]
    length_lcp_le2[of "nb_bits key" "nb_bits (pfx e)"] assms
  by (auto simp: nb_bits_simps ebits_def)

lemma testBit_step:
  assumes "nb_valid key" "prefix ps (nb_bits key)" "length ps \<noteq> length (nb_bits key)"
  shows "\<exists>b. nameBitvector_testBit key (length ps) = Some b \<and> prefix (ps @ [b]) (nb_bits key)"
  using assms prefix_length_le[OF assms(2)]
  by (simp add: nameBitvector_testBit_bits prefix_snoc_iff_nth)

text \<open>Below the bit not taken, nothing is comparable with the key.\<close>

lemma below_other_side:
  assumes "below pfx (ps @ [\<not> b]) t" "prefix (ps @ [b]) ks" "x \<in> fib_entries t"
  shows "\<not> prefix (ebits pfx x) ks" "\<not> prefix ks (ebits pfx x)"
  using assms prefix_snoc_diverge[of ps b "ebits pfx x" ks] by (auto simp: below_def)

text \<open>
  The induction step of every walk: the node does not match, is the key itself, or sends the
  walk into the child on side \<open>b\<close> while the other child holds nothing comparable with the key.
\<close>

definition child :: "bool \<Rightarrow> 'e fib_node \<Rightarrow> 'e fib_node \<Rightarrow> 'e fib_node" where
  "child b l r = (if b then r else l)"

lemma below_child:
  "below pfx (ps @ [False]) l \<Longrightarrow> below pfx (ps @ [True]) r \<Longrightarrow> below pfx (ps @ [b]) (child b l r)"
  by (simp add: child_def)

lemma walk_cases:
  assumes "fib_wf pfx (FibNode l r e u)" "nb_valid key"
  obtains
    (mismatch) "\<not> prefix (ebits pfx e) (nb_bits key)"
      "\<And>x. x \<in> fib_entries (FibNode l r e u) \<Longrightarrow> \<not> prefix (ebits pfx x) (nb_bits key)"
  | (exact) "ebits pfx e = nb_bits key"
      "\<And>x. x \<in> fib_entries l \<union> fib_entries r \<Longrightarrow> \<not> prefix (ebits pfx x) (nb_bits key)"
  | (step) b where "prefix (ebits pfx e) (nb_bits key)" "length (ebits pfx e) < length (nb_bits key)"
      "prefix (ebits pfx e @ [b]) (nb_bits key)"
      "nameBitvector_testBit key (length (ebits pfx e)) = Some b"
      "\<And>x. x \<in> fib_entries (child (\<not> b) l r) \<Longrightarrow>
         \<not> prefix (ebits pfx x) (nb_bits key) \<and> \<not> prefix (nb_bits key) (ebits pfx x)"
proof -
  have l: "below pfx (ebits pfx e @ [False]) l" and r: "below pfx (ebits pfx e @ [True]) r"
    using assms(1) by auto
  have ext: "\<And>x. x \<in> fib_entries l \<union> fib_entries r \<Longrightarrow> strict_prefix (ebits pfx e) (ebits pfx x)"
    using l r by (auto simp: below_def strict_prefix_def prefix_snoc_iff_nth)
  show ?thesis
  proof (cases "prefix (ebits pfx e) (nb_bits key)")
    case False
    then show ?thesis using ext
      by (intro mismatch) (auto simp: strict_prefix_def dest: prefix_order.trans)
  next
    case True
    show ?thesis
    proof (cases "length (ebits pfx e) = length (nb_bits key)")
      case eq: True
      then have same: "ebits pfx e = nb_bits key" using True by (rule prefix_length_eqD[rotated])
      show ?thesis using ext
        by (intro exact[OF same]) (metis same prefix_order.less_le_not_le)
    next
      case False
      from testBit_step[OF assms(2) True False] obtain b
        where b: "nameBitvector_testBit key (length (ebits pfx e)) = Some b"
          "prefix (ebits pfx e @ [b]) (nb_bits key)" by blast
      moreover have "below pfx (ebits pfx e @ [\<not> b]) (child (\<not> b) l r)"
        using below_child[OF l r] by blast
      ultimately show ?thesis using True False prefix_length_le[OF True]
          below_other_side[of pfx "ebits pfx e" b "child (\<not> b) l r" "nb_bits key"]
        by (intro step[of b]) auto
    qed
  qed
qed

section \<open>Lookup\<close>

text \<open>\<open>res\<close> is the longest match for the bit string \<open>ks\<close> among the entries \<open>S\<close>.\<close>

definition lpm_of :: "('e \<Rightarrow> NameBitvector) \<Rightarrow> 'e set \<Rightarrow> bool list \<Rightarrow> 'e option \<Rightarrow> bool" where
  "lpm_of pfx S ks res \<longleftrightarrow>
     (case res of
        None \<Rightarrow> \<forall>e\<in>S. \<not> prefix (ebits pfx e) ks
      | Some e \<Rightarrow> e \<in> S \<and> prefix (ebits pfx e) ks \<and>
          (\<forall>e'\<in>S. prefix (ebits pfx e') ks \<longrightarrow> length (ebits pfx e') \<le> length (ebits pfx e)))"

lemma used_in_entries: "x \<in> fib_used t \<Longrightarrow> x \<in> fib_entries t"
  using fib_used_subset[of t] by auto

lemma fib_used_child:
  "fib_used (FibNode l r e u) = (if u then {e} else {}) \<union> fib_used (child b l r) \<union> fib_used (child (\<not> b) l r)"
  by (auto simp: child_def)

lemma lpm_of_node:
  assumes "lpm_of pfx C ks q" "\<And>x. x \<in> D \<Longrightarrow> \<not> prefix (ebits pfx x) ks"
    and "prefix (ebits pfx e) ks" "\<And>x. x \<in> C \<Longrightarrow> length (ebits pfx e) \<le> length (ebits pfx x)"
  shows "lpm_of pfx ((if u then {e} else {}) \<union> C \<union> D) ks
    (case q of None \<Rightarrow> if u then Some e else None | Some e' \<Rightarrow> Some e')"
  using assms by (auto simp: lpm_of_def split: option.splits)

lemma fib_match_loop_lpm:
  assumes "fib_wf pfx t" "nb_valid name"
  shows "\<exists>r. fib_match_loop pfx name t cand = Inr (case r of None \<Rightarrow> cand | Some e \<Rightarrow> Some e) \<and>
    lpm_of pfx (fib_used t) (nb_bits name) r"
  using assms
proof (induction t arbitrary: cand)
  case Null
  then show ?case by (intro exI[of _ None]) (simp add: lpm_of_def)
next
  case (FibNode l r e u)
  note ws = walk_simps[OF FibNode.prems(2), of pfx e]
  have v: "nb_valid (pfx e)" using FibNode.prems by auto
  from FibNode.prems show ?case
  proof (cases rule: walk_cases)
    case mismatch
    then show ?thesis using ws v
      by (intro exI[of _ None]) (auto simp: lpm_of_def dest!: used_in_entries)
  next
    case exact
    then show ?thesis using ws v
      by (intro exI[of _ "if u then Some e else None"])
        (auto simp: lpm_of_def nameBitvector_GetLength_bits dest!: used_in_entries)
  next
    case (step b)
    let ?c = "child b l r" and ?cand = "if u then Some e else cand"
    have "\<exists>q. fib_match_loop pfx name ?c ?cand = Inr (case q of None \<Rightarrow> ?cand | Some e \<Rightarrow> Some e) \<and>
        lpm_of pfx (fib_used ?c) (nb_bits name) q"
      using FibNode.IH(1)[of ?cand] FibNode.IH(2)[of ?cand] FibNode.prems by (cases b) (simp_all add: child_def)
    then obtain q where q: "fib_match_loop pfx name ?c ?cand = Inr (case q of None \<Rightarrow> ?cand | Some e \<Rightarrow> Some e)"
        and lpm: "lpm_of pfx (fib_used ?c) (nb_bits name) q" by blast
    have "below pfx (ebits pfx e @ [b]) ?c" using FibNode.prems(1) by (auto intro: below_child)
    then have "\<And>x. x \<in> fib_used ?c \<Longrightarrow> length (ebits pfx e) \<le> length (ebits pfx x)"
      by (auto dest!: below_used prefix_length_le)
    with lpm step have "lpm_of pfx (fib_used (FibNode l r e u)) (nb_bits name)
        (case q of None \<Rightarrow> if u then Some e else None | Some e \<Rightarrow> Some e)"
      unfolding fib_used_child[of l r e u b] by (intro lpm_of_node) (auto dest: used_in_entries)
    moreover have "fib_match_loop pfx name (FibNode l r e u) cand = fib_match_loop pfx name ?c ?cand"
      using ws v step by (simp add: Let_def nameBitvector_GetLength_bits child_def)
    ultimately show ?thesis using q
      by (intro exI[of _ "case q of None \<Rightarrow> if u then Some e else None | Some e \<Rightarrow> Some e"])
        (auto split: option.splits)
  qed
qed

lemma fib_contains_loop_exact:
  assumes "fib_wf pfx t" "nb_valid key"
  shows "\<exists>r. fib_contains_loop pfx key t = Inr r \<and>
    (\<forall>e. r = Some e \<longleftrightarrow> e \<in> fib_used t \<and> ebits pfx e = nb_bits key)"
  using assms
proof (induction t)
  case Null
  then show ?case by simp
next
  case (FibNode l r e u)
  note ws = walk_simps[OF FibNode.prems(2), of pfx e]
  have v: "nb_valid (pfx e)" using FibNode.prems by auto
  from FibNode.prems show ?case
  proof (cases rule: walk_cases)
    case mismatch
    then have "\<And>x. x \<in> fib_used (FibNode l r e u) \<Longrightarrow> ebits pfx x \<noteq> nb_bits key"
      by (metis used_in_entries prefix_order.refl)
    then show ?thesis using ws(1) v mismatch(1) by (auto simp: Let_def)
  next
    case exact
    then have "\<And>x. x \<in> fib_used l \<union> fib_used r \<Longrightarrow> ebits pfx x \<noteq> nb_bits key"
      by (metis UnE UnI1 UnI2 used_in_entries prefix_order.refl)
    then show ?thesis using ws v exact(1) by (auto simp: Let_def nameBitvector_GetLength_bits)
  next
    case (step b)
    have "\<exists>q. fib_contains_loop pfx key (child b l r) = Inr q \<and>
        (\<forall>e. q = Some e \<longleftrightarrow> e \<in> fib_used (child b l r) \<and> ebits pfx e = nb_bits key)"
      using FibNode.IH FibNode.prems by (cases b) (simp_all add: child_def)
    moreover have "fib_contains_loop pfx key (FibNode l r e u) = fib_contains_loop pfx key (child b l r)"
      using ws v step by (simp add: Let_def nameBitvector_GetLength_bits child_def)
    moreover have "\<And>x. x \<in> fib_used (child (\<not> b) l r) \<Longrightarrow> ebits pfx x \<noteq> nb_bits key"
      by (metis used_in_entries prefix_order.refl step(5))
    moreover have "ebits pfx e \<noteq> nb_bits key" using step(2) by auto
    ultimately show ?thesis unfolding fib_used_child[of l r e u b] by auto
  qed
qed

section \<open>Paths\<close>

text \<open>The bit string every entry at the end of a path extends.\<close>

fun path_ctx :: "('e \<Rightarrow> NameBitvector) \<Rightarrow> 'e frame list \<Rightarrow> bool list" where
  "path_ctx pfx [] = []"
| "path_ctx pfx (Frame d e u s # fs) = ebits pfx e @ [d]"

fun path_wf :: "('e \<Rightarrow> NameBitvector) \<Rightarrow> 'e frame list \<Rightarrow> bool" where
  "path_wf pfx [] = True"
| "path_wf pfx (Frame d e u s # fs) \<longleftrightarrow>
     nb_valid (pfx e) \<and> fib_wf pfx s \<and> below pfx (ebits pfx e @ [\<not> d]) s \<and>
     prefix (path_ctx pfx fs) (ebits pfx e) \<and> path_wf pfx fs"

fun path_used :: "'e frame list \<Rightarrow> 'e set" where
  "path_used [] = {}"
| "path_used (Frame d e u s # fs) = (if u then {e} else {}) \<union> fib_used s \<union> path_used fs"

fun path_entries :: "'e frame list \<Rightarrow> 'e set" where
  "path_entries [] = {}"
| "path_entries (Frame d e u s # fs) = insert e (fib_entries s \<union> path_entries fs)"

lemma path_used_entries: "path_used path \<subseteq> path_entries path"
  by (induction path rule: path_used.induct) (auto dest: used_in_entries)

lemma below_Nil [simp]: "below pfx [] t"
  by (simp add: below_def)

lemma fib_wf_plug:
  "fib_wf pfx (plug t path) \<longleftrightarrow> path_wf pfx path \<and> fib_wf pfx t \<and> below pfx (path_ctx pfx path) t"
proof (induction path arbitrary: t)
  case Nil
  then show ?case by simp
next
  case (Cons f fs)
  obtain d e u s where f: "f = Frame d e u s" by (cases f)
  have "prefix (path_ctx pfx fs) (ebits pfx e) \<Longrightarrow> below pfx (ebits pfx e @ [b]) x \<Longrightarrow>
      below pfx (path_ctx pfx fs) x" for b x
    by (rule below_mono[of pfx "ebits pfx e @ [b]"]) auto
  then show ?case by (cases d) (auto simp: f Cons.IH)
qed

lemma fib_used_plug [simp]: "fib_used (plug t path) = fib_used t \<union> path_used path"
  by (induction t path rule: plug.induct) auto

lemma fib_entries_plug [simp]: "fib_entries (plug t path) = fib_entries t \<union> path_entries path"
  by (induction t path rule: plug.induct) auto

lemma fib_attach_plug:
  assumes "nb_valid key" "path_wf pfx path" "prefix (path_ctx pfx path) (nb_bits key)"
  shows "fib_attach pfx key path cur node = Inr (plug node path)"
proof (cases path)
  case (Cons f fs)
  obtain d e u s where f: "f = Frame d e u s" by (cases f)
  with assms Cons have "nameBitvector_testBit key (length (ebits pfx e)) = Some d"
    by (auto simp: nameBitvector_testBit_bits prefix_snoc_iff_nth)
  then show ?thesis using Cons f walk_simps(3)[of key pfx e] assms by simp
qed simp

lemma fib_add_loop_path:
  assumes "fib_wf pfx t" "nb_valid key" "prefix (path_ctx pfx path) (nb_bits key)"
  shows "\<exists>path' cur. fib_add_loop pfx key t path = Inr (path', cur) \<and> plug cur path' = plug t path \<and>
    prefix (path_ctx pfx path') (nb_bits key) \<and>
    (\<forall>l r e u. cur = FibNode l r e u \<longrightarrow> \<not> prefix (ebits pfx e) (nb_bits key) \<or> ebits pfx e = nb_bits key)"
  using assms
proof (induction t arbitrary: path)
  case Null
  then show ?case by simp
next
  case (FibNode l r e u)
  note ws = walk_simps[OF FibNode.prems(2), of pfx e]
  have v: "nb_valid (pfx e)" using FibNode.prems by auto
  from FibNode.prems(1,2) show ?case
  proof (cases rule: walk_cases)
    case mismatch
    then show ?thesis using ws(2) v FibNode.prems by (simp add: Let_def)
  next
    case exact
    then show ?thesis using ws v FibNode.prems by (simp add: Let_def nameBitvector_GetLength_bits)
  next
    case (step b)
    let ?f = "Frame b e u (child (\<not> b) l r)"
    have "\<exists>path' cur. fib_add_loop pfx key (child b l r) (?f # path) = Inr (path', cur) \<and>
        plug cur path' = plug (child b l r) (?f # path) \<and> prefix (path_ctx pfx path') (nb_bits key) \<and>
        (\<forall>l r e u. cur = FibNode l r e u \<longrightarrow> \<not> prefix (ebits pfx e) (nb_bits key) \<or> ebits pfx e = nb_bits key)"
      using FibNode.IH(1)[of "?f # path"] FibNode.IH(2)[of "?f # path"] FibNode.prems step(3)
      by (cases b) (simp_all add: child_def)
    moreover have "fib_add_loop pfx key (FibNode l r e u) path = fib_add_loop pfx key (child b l r) (?f # path)"
      using ws v step by (cases b) (simp_all add: Let_def nameBitvector_GetLength_bits child_def)
    moreover have "plug (child b l r) (?f # path) = plug (FibNode l r e u) path"
      by (simp add: child_def)
    ultimately show ?thesis by simp
  qed
qed

section \<open>Insertion\<close>

lemma below_cong: "(\<And>x. x \<in> fib_entries t \<Longrightarrow> pfx x = pfx' x) \<Longrightarrow> below pfx ps t = below pfx' ps t"
  by (auto simp: below_def ebits_def)

lemma fib_wf_cong: "(\<And>x. x \<in> fib_entries t \<Longrightarrow> pfx x = pfx' x) \<Longrightarrow> fib_wf pfx t = fib_wf pfx' t"
proof (induction t)
  case (FibNode l r e u)
  then show ?case using below_cong[of l pfx pfx'] below_cong[of r pfx pfx'] by (simp add: ebits_def)
qed simp

text \<open>The prefix of the entries after \<open>fib_Add\<close>, which may have created the inner entry.\<close>

definition pfx_after :: "('e \<Rightarrow> NameBitvector) \<Rightarrow> 'e \<Rightarrow> NameBitvector option \<Rightarrow> 'e \<Rightarrow> NameBitvector" where
  "pfx_after pfx inner c = (case c of None \<Rightarrow> pfx | Some nb \<Rightarrow> pfx(inner := nb))"

lemma below_subtree:
  "fib_wf pfx (FibNode l r e u) \<Longrightarrow> prefix ps (ebits pfx e) \<Longrightarrow> below pfx ps (FibNode l r e u)"
  by (auto intro: below_mono[of pfx "ebits pfx e @ [False]"] below_mono[of pfx "ebits pfx e @ [True]"])

lemma lpm_ebits:
  "nb_valid (pfx a) \<Longrightarrow> nb_valid (pfx b) \<Longrightarrow>
    nameBitvector_lpm (pfx a) (pfx b) = length (longest_common_prefix (ebits pfx a) (ebits pfx b))"
  by (simp add: nameBitvector_lpm_bits ebits_def)

text \<open>The three places a new prefix can take at the node where the walk stopped.\<close>

lemma add_above:
  assumes "fib_wf pfx (FibNode l r e u)" "nb_valid (pfx entry)"
    and "strict_prefix (ebits pfx entry) (ebits pfx e)"
  shows "\<exists>b. nameBitvector_testBit (pfx e) (length (ebits pfx entry)) = Some b \<and>
    fib_wf pfx (FibNode (if b then Null else FibNode l r e u) (if b then FibNode l r e u else Null) entry True)"
proof -
  have v: "nb_valid (pfx e)" using assms(1) by simp
  have "prefix (ebits pfx entry) (nb_bits (pfx e))" using assms(3) by (auto simp: ebits_def strict_prefix_def)
  moreover have "length (ebits pfx entry) \<noteq> length (nb_bits (pfx e))"
    using assms(3) prefix_length_less[of "ebits pfx entry" "ebits pfx e"] unfolding ebits_def by simp
  ultimately obtain b where b: "nameBitvector_testBit (pfx e) (length (ebits pfx entry)) = Some b"
    and p: "prefix (ebits pfx entry @ [b]) (ebits pfx e)" using testBit_step[OF v] unfolding ebits_def[of pfx e] by blast
  from below_subtree[OF assms(1) p] b assms(1,2) show ?thesis by (intro exI[of _ b]) auto
qed

lemma add_beside:
  assumes cur: "fib_wf pfx (FibNode l r e u)" and v: "nb_valid (pfx entry)"
    and div: "\<not> prefix (ebits pfx entry) (ebits pfx e)" "\<not> prefix (ebits pfx e) (ebits pfx entry)"
    and fresh: "inner \<notin> insert entry (fib_entries (FibNode l r e u))"
  defines "n \<equiv> nameBitvector_lpm (pfx entry) (pfx e)"
  defines "nb \<equiv> fib_inner_prefix (pfx entry) n"
  shows "\<exists>b. nameBitvector_testBit (pfx entry) n = Some b \<and>
      fib_wf (pfx(inner := nb)) (if b then FibNode (FibNode l r e u) (FibNode Null Null entry True) inner False
                      else FibNode (FibNode Null Null entry True) (FibNode l r e u) inner False)"
    and "nb_valid nb" "nb_bits nb = longest_common_prefix (ebits pfx entry) (ebits pfx e)"
    and "n \<noteq> length (ebits pfx entry)" "n \<noteq> length (ebits pfx e)"
proof -
  let ?c = "longest_common_prefix (ebits pfx entry) (ebits pfx e)"
  have n: "n = length ?c" using cur v by (simp add: n_def lpm_ebits)
  have lt: "n < length (ebits pfx entry)" "n < length (ebits pfx e)"
    using div length_lcp_le1[of "ebits pfx entry" "ebits pfx e"] length_lcp_le2[of "ebits pfx entry" "ebits pfx e"]
      longest_common_prefix_prefix1[of "ebits pfx entry" "ebits pfx e"]
      longest_common_prefix_prefix2[of "ebits pfx entry" "ebits pfx e"]
    by (metis n le_neq_implies_less prefix_length_eqD)+
  then show "n \<noteq> length (ebits pfx entry)" "n \<noteq> length (ebits pfx e)" by auto
  have n128: "n \<le> 128" using lt v by (simp add: ebits_def nb_valid_def WIDTH_def)
  show vnb: "nb_valid nb" using n128 by (simp add: nb_def fib_inner_prefix_def nb_valid_truncate)
  show nb: "nb_bits nb = ?c"
    using lt v nb_bits_truncate[of n "pfx entry"] lcp_take1[of "ebits pfx entry" "ebits pfx e"]
    by (simp add: nb_def fib_inner_prefix_def n ebits_def)
  define b where "b = ebits pfx entry ! n"
  have "ebits pfx e ! n = (\<not> b)" using lcp_differ[OF n lt] by (auto simp: b_def)
  then have pe: "prefix (?c @ [\<not> b]) (ebits pfx e)" and pn: "prefix (?c @ [b]) (ebits pfx entry)"
    using lt n by (auto simp: prefix_snoc_iff_nth b_def longest_common_prefix_prefix1 longest_common_prefix_prefix2)
  let ?p = "pfx(inner := nb)"
  have same: "\<And>x. x \<in> fib_entries (FibNode l r e u) \<Longrightarrow> pfx x = ?p x" using fresh by auto
  have "fib_wf ?p (FibNode l r e u)" using cur fib_wf_cong[of "FibNode l r e u" pfx ?p, OF same] by blast
  moreover have "below ?p (?c @ [\<not> b]) (FibNode l r e u)"
    using below_subtree[OF cur pe] below_cong[of "FibNode l r e u" pfx ?p, OF same] by blast
  moreover have "ebits ?p inner = ?c" "ebits ?p entry = ebits pfx entry" "?p entry = pfx entry"
    using nb fresh by (auto simp: ebits_def)
  ultimately have "fib_wf ?p (if b then FibNode (FibNode l r e u) (FibNode Null Null entry True) inner False
                      else FibNode (FibNode Null Null entry True) (FibNode l r e u) inner False)"
    using pn v vnb by (cases b) (simp_all del: fun_upd_apply, simp_all)
  moreover have "nameBitvector_testBit (pfx entry) n = Some b"
    using v lt by (simp add: nameBitvector_testBit_bits b_def ebits_def)
  ultimately show "\<exists>b. nameBitvector_testBit (pfx entry) n = Some b \<and>
      fib_wf ?p (if b then FibNode (FibNode l r e u) (FibNode Null Null entry True) inner False
                      else FibNode (FibNode Null Null entry True) (FibNode l r e u) inner False)"
    by blast
qed

lemma path_ctx_cong:
  "(\<And>x. x \<in> path_entries path \<Longrightarrow> pfx x = pfx' x) \<Longrightarrow> path_ctx pfx path = path_ctx pfx' path"
  by (cases "(pfx, path)" rule: path_ctx.cases) (auto simp: ebits_def)

text \<open>What an insertion must achieve, at the node where the walk of \<open>fib_Add\<close> stopped.\<close>

definition add_ok :: "('e \<Rightarrow> NameBitvector) \<Rightarrow> 'e \<Rightarrow> 'e fib \<Rightarrow> 'e \<Rightarrow> ('e fib \<times> NameBitvector option) res \<Rightarrow> bool" where
  "add_ok pfx inner fib entry r \<longleftrightarrow>
     (\<exists>root c. r = Inr (fib\<lparr>fib_root := root, fib_size := fib_size fib + 1\<rparr>, c) \<and>
        fib_used root = insert entry (fib_used (fib_root fib)) \<and>
        fib_entries root \<subseteq> insert entry (insert inner (fib_entries (fib_root fib))) \<and>
        fib_wf (pfx_after pfx inner c) root)"

lemma add_okI:
  assumes "fib_wf pfx (plug cur path)" "fib_root fib = plug cur path"
    and "fib_wf (pfx_after pfx inner c) node" "fib_used node = insert entry (fib_used cur)"
    and "fib_entries node \<subseteq> insert entry (insert inner (fib_entries cur))"
    and "below (pfx_after pfx inner c) (path_ctx pfx path) node"
    and "inner \<notin> fib_entries (fib_root fib)"
  shows "add_ok pfx inner fib entry (Inr (fib\<lparr>fib_root := plug node path, fib_size := fib_size fib + 1\<rparr>, c))"
proof -
  let ?p = "pfx_after pfx inner c"
  have same: "\<And>x. x \<in> fib_entries (plug cur path) \<Longrightarrow> pfx x = ?p x"
    using assms(2,7) by (auto simp: pfx_after_def split: option.split)
  then have "path_wf ?p path" using assms(1) fib_wf_cong[of "plug cur path" pfx ?p] by (simp add: fib_wf_plug)
  moreover have "path_ctx pfx path = path_ctx ?p path" by (rule path_ctx_cong) (simp add: same)
  ultimately have "fib_wf ?p (plug node path)" using assms(3,6) by (simp add: fib_wf_plug)
  then show ?thesis using assms(2,4,5) unfolding add_ok_def by (intro exI[of _ "plug node path"] exI[of _ c]) auto
qed

lemma add_match_len:
  assumes "nb_valid (pfx a)" "nb_valid (pfx e)"
  shows "nameBitvector_GetLength (pfx e) = nameBitvector_lpm (pfx a) (pfx e) \<longleftrightarrow> prefix (ebits pfx e) (ebits pfx a)"
    "nameBitvector_GetLength (pfx a) = nameBitvector_lpm (pfx a) (pfx e) \<longleftrightarrow> prefix (ebits pfx a) (ebits pfx e)"
    "nameBitvector_GetLength (pfx a) = length (ebits pfx a)"
  using assms length_lcp_eq_iff[of "ebits pfx a" "ebits pfx e"] length_lcp_eq_iff[of "ebits pfx e" "ebits pfx a"]
  by (auto simp: lpm_ebits nameBitvector_GetLength_bits ebits_def lcp_commute)

lemma fib_Add_beside:
  assumes wfp: "fib_wf pfx (plug cur path)" and root: "fib_root fib = plug cur path"
    and loop: "fib_add_loop pfx (pfx entry) (fib_root fib) [] = Inr (path, cur)"
    and FibNode: "cur = FibNode l r e u" and ctx: "prefix (path_ctx pfx path) (ebits pfx entry)"
    and v: "nb_valid (pfx entry)"
    and beside: "\<not> prefix (ebits pfx entry) (ebits pfx e)" "\<not> prefix (ebits pfx e) (ebits pfx entry)"
    and fresh: "inner \<notin> insert entry (fib_entries (fib_root fib))"
  shows "add_ok pfx inner fib entry (fib_Add pfx inner fib entry)"
proof -
  have pw: "path_wf pfx path" and wfc: "fib_wf pfx cur" and bel: "below pfx (path_ctx pfx path) cur"
    using wfp by (auto simp: fib_wf_plug)
  have ve: "nb_valid (pfx e)" and nin: "inner \<notin> fib_entries (fib_root fib)" using wfc FibNode fresh by auto
  note len = add_match_len[where pfx = pfx, OF v ve]
  let ?m = "nameBitvector_lpm (pfx entry) (pfx e)"
  let ?nb = "fib_inner_prefix (pfx entry) ?m"
  let ?n = "\<lambda>b. if b then FibNode cur (FibNode Null Null entry True) inner False
                  else FibNode (FibNode Null Null entry True) cur inner False"
  have fr: "inner \<notin> insert entry (fib_entries (FibNode l r e u))" using fresh root FibNode by auto
  note ab = add_beside[OF wfc[unfolded FibNode] v beside fr]
  from ab(1) obtain b where tb: "nameBitvector_testBit (pfx entry) ?m = Some b"
    and w: "fib_wf (pfx(inner := ?nb)) (?n b)" unfolding FibNode by blast
  have ctx': "prefix (path_ctx pfx path) (nb_bits ?nb)"
    using ab(3) ctx bel FibNode by (simp add: longest_common_prefix_max_prefix)
  have "fib_Add pfx inner fib entry = Inr (fib\<lparr>fib_root := plug (?n b) path,
      fib_size := fib_size fib + 1\<rparr>, Some ?nb)"
    using beside len(1,2) tb fib_attach_plug[OF ab(2) pw ctx']
    by (simp add: fib_Add_def loop FibNode Let_def)
  moreover have "below (pfx(inner := ?nb)) (path_ctx pfx path) (?n b)"
  proof -
    have "\<And>x. x \<in> fib_entries cur \<Longrightarrow> pfx x = (pfx(inner := ?nb)) x" using fr FibNode by auto
    then have "below (pfx(inner := ?nb)) (path_ctx pfx path) cur"
      using bel below_cong[of cur pfx "pfx(inner := ?nb)" "path_ctx pfx path"] by blast
    moreover have "ebits (pfx(inner := ?nb)) inner = nb_bits ?nb" "ebits (pfx(inner := ?nb)) entry = ebits pfx entry"
      using fr by (auto simp: ebits_def)
    ultimately show ?thesis using ctx ctx' by auto
  qed
  then have "add_ok pfx inner fib entry (Inr (fib\<lparr>fib_root := plug (?n b) path,
      fib_size := fib_size fib + 1\<rparr>, Some ?nb))"
    by (intro add_okI[OF wfp root _ _ _ _ nin]) (use FibNode w in \<open>auto simp: pfx_after_def\<close>)
  ultimately show ?thesis by simp
qed

lemma fib_Add_ok:
  assumes wf: "fib_wf pfx (fib_root fib)" and v: "nb_valid (pfx entry)"
    and new: "\<forall>e\<in>fib_used (fib_root fib). ebits pfx e \<noteq> ebits pfx entry"
    and fresh: "inner \<notin> insert entry (fib_entries (fib_root fib))"
  shows "add_ok pfx inner fib entry (fib_Add pfx inner fib entry)"
proof -
  have "\<exists>path cur. fib_add_loop pfx (pfx entry) (fib_root fib) [] = Inr (path, cur) \<and>
      plug cur path = fib_root fib \<and> prefix (path_ctx pfx path) (ebits pfx entry) \<and>
      (\<forall>l r e u. cur = FibNode l r e u \<longrightarrow> \<not> prefix (ebits pfx e) (ebits pfx entry) \<or> ebits pfx e = ebits pfx entry)"
    using fib_add_loop_path[OF wf v, of "[]"] by (simp add: ebits_def)
  then obtain path cur where loop: "fib_add_loop pfx (pfx entry) (fib_root fib) [] = Inr (path, cur)"
    and root: "fib_root fib = plug cur path" and ctx: "prefix (path_ctx pfx path) (ebits pfx entry)"
    and stop: "\<And>l r e u. cur = FibNode l r e u \<Longrightarrow> \<not> prefix (ebits pfx e) (ebits pfx entry) \<or> ebits pfx e = ebits pfx entry"
    by metis
  have wfp: "fib_wf pfx (plug cur path)" using wf root by simp
  then have pw: "path_wf pfx path" and wfc: "fib_wf pfx cur" and bel: "below pfx (path_ctx pfx path) cur"
    by (auto simp: fib_wf_plug)
  have nin: "inner \<notin> fib_entries (fib_root fib)" using fresh by simp
  note at = fib_attach_plug[OF v pw ctx[unfolded ebits_def]]
  note okI = add_okI[OF wfp root _ _ _ _ nin]
  show ?thesis
  proof (cases cur)
    case Null
    have "fib_Add pfx inner fib entry = Inr (fib\<lparr>fib_root := plug (FibNode Null Null entry True) path,
        fib_size := fib_size fib + 1\<rparr>, None)"
      by (simp add: fib_Add_def loop Null at)
    moreover have "add_ok pfx inner fib entry \<dots>"
      by (rule okI) (use Null v ctx in \<open>auto simp: pfx_after_def\<close>)
    ultimately show ?thesis by simp
  next
    case (FibNode l r e u)
    have ve: "nb_valid (pfx e)" using wfc FibNode by simp
    note len = add_match_len[where pfx = pfx, OF v ve]
    consider (same) "ebits pfx e = ebits pfx entry" | (above) "strict_prefix (ebits pfx entry) (ebits pfx e)"
      | (beside) "\<not> prefix (ebits pfx entry) (ebits pfx e)" "\<not> prefix (ebits pfx e) (ebits pfx entry)"
      using stop[OF FibNode] by (metis prefix_order.le_less)
    then show ?thesis
    proof cases
      case same
      then have u: "\<not> u" using new root FibNode by auto
      have "fib_Add pfx inner fib entry = Inr (fib\<lparr>fib_root := plug (FibNode l r entry True) path,
          fib_size := fib_size fib + 1\<rparr>, None)"
        using u same len(1,2) by (simp add: fib_Add_def loop FibNode Let_def)
      moreover have "add_ok pfx inner fib entry \<dots>"
        by (rule okI) (use FibNode v ctx same bel wfc u in \<open>auto simp: pfx_after_def\<close>)
      ultimately show ?thesis by simp
    next
      case above
      have le: "prefix (ebits pfx entry) (ebits pfx e)" "\<not> prefix (ebits pfx e) (ebits pfx entry)"
        using above prefix_order.less_le_not_le by auto
      from add_above[OF wfc[unfolded FibNode] v above] obtain b where
        tb: "nameBitvector_testBit (pfx e) (length (ebits pfx entry)) = Some b" and
        w: "fib_wf pfx (FibNode (if b then Null else FibNode l r e u) (if b then FibNode l r e u else Null) entry True)"
        by blast
      let ?n = "FibNode (if b then Null else FibNode l r e u) (if b then FibNode l r e u else Null) entry True"
      have "fib_Add pfx inner fib entry = Inr (fib\<lparr>fib_root := plug ?n path, fib_size := fib_size fib + 1\<rparr>, None)"
        using le tb len(1,2) len(3)[symmetric] by (simp add: fib_Add_def loop FibNode Let_def at)
      moreover have "add_ok pfx inner fib entry \<dots>"
        by (rule okI) (use FibNode w bel ctx in \<open>auto simp: pfx_after_def\<close>)
      ultimately show ?thesis by simp
    next
      case beside
      then show ?thesis using fib_Add_beside[OF wfp root loop FibNode ctx v] fresh by blast
    qed
  qed
qed

section \<open>Removal\<close>

lemma path_entries_fresh:
  "path_wf pfx path \<Longrightarrow> prefix (path_ctx pfx path) (ebits pfx x) \<Longrightarrow> x \<notin> path_entries path"
proof (induction path)
  case (Cons f fs)
  obtain d e u s where f: "f = Frame d e u s" by (cases f)
  then have p: "prefix (ebits pfx e @ [d]) (ebits pfx x)" using Cons.prems by simp
  then have "x \<noteq> e" by (auto simp: prefix_snoc_iff_nth)
  moreover have "x \<notin> fib_entries s"
    using below_other_side(1)[of pfx "ebits pfx e" d s "ebits pfx x" x] p Cons.prems f by auto
  moreover have "prefix (path_ctx pfx fs) (ebits pfx x)"
    using p Cons.prems f by (auto simp: prefix_snoc_iff_nth intro: prefix_order.trans)
  ultimately show ?case using Cons f by simp
qed simp

lemma node_entry_fresh:
  "fib_wf pfx (FibNode l r e u) \<Longrightarrow> e \<notin> fib_entries l \<and> e \<notin> fib_entries r"
  by (auto simp: below_def prefix_snoc_iff_nth)

lemma remove_loop_path:
  assumes "fib_wf pfx t" "nb_valid key" "e \<in> fib_used t" "ebits pfx e = nb_bits key"
  shows "\<exists>path' l r. remove_loop pfx key t path = Inr (path', FibNode l r e True) \<and>
    plug (FibNode l r e True) path' = plug t path"
  using assms
proof (induction t arbitrary: path)
  case (FibNode l r e' u)
  note ws = walk_simps[OF FibNode.prems(2), of pfx e']
  have v: "nb_valid (pfx e')" using FibNode.prems by auto
  from FibNode.prems(1,2) show ?case
  proof (cases rule: walk_cases)
    case mismatch
    then show ?thesis using FibNode.prems(3,4) by (metis used_in_entries prefix_order.refl)
  next
    case exact
    then have "e \<notin> fib_used l" "e \<notin> fib_used r"
      using FibNode.prems(4) by (metis UnI1 UnI2 used_in_entries prefix_order.refl)+
    then have "e = e'" "u" using FibNode.prems(3) by (auto split: if_splits)
    then show ?thesis using ws v exact by (simp add: Let_def nameBitvector_GetLength_bits)
  next
    case (step b)
    let ?f = "Frame b e' u (child (\<not> b) l r)"
    have "e \<noteq> e'" "e \<notin> fib_used (child (\<not> b) l r)"
      using step(2) FibNode.prems(4) by (auto dest!: used_in_entries dest: step(5))
    then have "e \<in> fib_used (child b l r)"
      using FibNode.prems(3) unfolding fib_used_child[of l r e' u b] by (auto split: if_splits)
    then have "\<exists>path' l' r'. remove_loop pfx key (child b l r) (?f # path) = Inr (path', FibNode l' r' e True) \<and>
        plug (FibNode l' r' e True) path' = plug (child b l r) (?f # path)"
      using FibNode.IH(1)[of "?f # path"] FibNode.IH(2)[of "?f # path"] FibNode.prems
      by (cases b) (simp_all add: child_def)
    moreover have "remove_loop pfx key (FibNode l r e' u) path = remove_loop pfx key (child b l r) (?f # path)"
      using ws v step by (cases b) (simp_all add: Let_def nameBitvector_GetLength_bits child_def)
    moreover have "plug (child b l r) (?f # path) = plug (FibNode l r e' u) path"
      by (simp add: child_def)
    ultimately show ?thesis by simp
  qed
qed simp

lemma unlink_leaf_used: "fib_used (unlink_leaf path) = path_used path"
  by (cases path rule: unlink_leaf.cases) (auto simp del: plug.simps simp: plug.simps(2)[where fs = "[]"])

lemma unlink_leaf_wf:
  assumes "path_wf pfx path"
  shows "fib_wf pfx (unlink_leaf path)"
proof (cases path rule: unlink_leaf.cases)
  case (3 d pe pu s grandpa fs)
  obtain d' ge gu gs where g: "grandpa = Frame d' ge gu gs" by (cases grandpa)
  have "below pfx (path_ctx pfx (grandpa # fs)) s"
    using assms 3 g by (auto intro: below_mono[of pfx "ebits pfx pe @ [\<not> d]"])
  moreover have "path_wf pfx (grandpa # fs)" "fib_wf pfx s" using assms 3 by auto
  moreover have "fib_wf pfx (plug Null path)" using assms by (simp add: fib_wf_plug)
  ultimately show ?thesis unfolding 3 unlink_leaf.simps by (simp add: fib_wf_plug del: plug.simps)
qed (use assms fib_wf_plug[of pfx Null path] in auto)

lemma removeNode_ok:
  assumes wf: "fib_wf pfx (fib_root fib)" and v: "nb_valid key"
    and e: "e \<in> fib_used (fib_root fib)" "ebits pfx e = nb_bits key"
  shows "\<exists>root. removeNode pfx fib key = Inr (fib\<lparr>fib_root := root, fib_size := fib_size fib - 1\<rparr>) \<and>
    fib_used root = fib_used (fib_root fib) - {e} \<and> fib_wf pfx root"
proof -
  from remove_loop_path[OF wf v e, of "[]"] obtain path l r
    where loop: "remove_loop pfx key (fib_root fib) [] = Inr (path, FibNode l r e True)"
      and "plug (FibNode l r e True) path = plug (fib_root fib) []" by blast
  then have root: "fib_root fib = plug (FibNode l r e True) path" by simp
  have pw: "path_wf pfx path" and wfc: "fib_wf pfx (FibNode l r e True)"
    and ctx: "prefix (path_ctx pfx path) (ebits pfx e)"
    using wf root by (auto simp: fib_wf_plug)
  have new: "e \<notin> path_used path" "e \<notin> fib_used l" "e \<notin> fib_used r"
    using path_entries_fresh[OF pw ctx] node_entry_fresh[OF wfc] path_used_entries[of path] by (auto dest: used_in_entries)
  have len: "nameBitvector_GetLength (pfx e) = nameBitvector_GetLength key"
    using e(2) wfc v by (metis ebits_def nameBitvector_GetLength_bits)
  have bl: "below pfx (path_ctx pfx path) l" "below pfx (path_ctx pfx path) r"
    using below_subtree[OF wfc ctx] by auto
  let ?root = "if r \<noteq> Null \<and> l \<noteq> Null then plug (FibNode l r e False) path
    else if r = Null \<and> l = Null then unlink_leaf path else plug (if r \<noteq> Null then r else l) path"
  have "removeNode pfx fib key = Inr (fib\<lparr>fib_root := ?root, fib_size := fib_size fib - 1\<rparr>)"
    using len by (simp add: removeNode_def loop)
  moreover have "fib_used ?root = fib_used (fib_root fib) - {e}"
    using new unfolding root by (auto simp: unlink_leaf_used)
  moreover have "fib_wf pfx ?root"
    using pw wfc ctx bl unlink_leaf_wf[OF pw] by (simp add: fib_wf_plug)
  ultimately show ?thesis by blast
qed

section \<open>The abstract table\<close>

text \<open>
  A FIB stands for a finite map from bit strings to entries. \<open>lpm_lookup\<close> is the reference
  definition of longest-prefix match on such a map: try the prefixes of the key from the
  longest to the shortest.
\<close>

definition fib_routes :: "('e \<Rightarrow> NameBitvector) \<Rightarrow> 'e fib \<Rightarrow> bool list \<Rightarrow> 'e option" where
  "fib_routes pfx fib = map_of (map (\<lambda>e. (ebits pfx e, e)) (fib_GetEntries fib))"

definition lpm_lookup :: "(bool list \<Rightarrow> 'e option) \<Rightarrow> bool list \<Rightarrow> 'e option" where
  "lpm_lookup m ks = (case filter (\<lambda>p. m p \<noteq> None) (rev (prefixes ks)) of [] \<Rightarrow> None | p # ps \<Rightarrow> m p)"

lemma collectFibEntries_set: "set (collectFibEntries t acc) = set acc \<union> fib_used t"
  by (induction t arbitrary: acc) auto

lemma set_fib_GetEntries [simp]: "set (fib_GetEntries fib) = fib_used (fib_root fib)"
  by (simp add: fib_GetEntries_def collectFibEntries_set)

lemma collectFibEntries_distinct:
  assumes "fib_wf pfx t" "distinct acc" "set acc \<inter> fib_used t = {}"
  shows "distinct (collectFibEntries t acc)"
  using assms
proof (induction t arbitrary: acc)
  case (FibNode l r e u)
  have "fib_used l \<inter> fib_used r = {}"
    using FibNode.prems(1) below_used prefix_snoc_diverge(1)[of "ebits pfx e" True _ _]
    by (fastforce dest: below_used)
  moreover have "e \<notin> fib_used l" "e \<notin> fib_used r"
    using node_entry_fresh[OF FibNode.prems(1)] by (auto dest: used_in_entries)
  moreover have "distinct (collectFibEntries r (if u then acc @ [e] else acc))"
    using FibNode.prems calculation by (intro FibNode.IH(2)) (auto split: if_splits)
  ultimately show ?case
    using FibNode.prems unfolding collectFibEntries.simps
    by (intro FibNode.IH(1)) (auto simp: collectFibEntries_set split: if_splits)
qed simp

lemma fib_bits_unique:
  assumes "fib_wf pfx t" "nb_valid (pfx x)" "x \<in> fib_used t" "y \<in> fib_used t" "ebits pfx x = ebits pfx y"
  shows "x = y"
  using fib_contains_loop_exact[OF assms(1,2)] assms(3-5) by (metis ebits_def option.inject)

lemma fib_used_valid: "fib_wf pfx t \<Longrightarrow> x \<in> fib_used t \<Longrightarrow> nb_valid (pfx x)"
  by (induction t) (auto split: if_splits)

lemma fib_GetEntries_distinct:
  "fib_wf pfx (fib_root fib) \<Longrightarrow> distinct (fib_GetEntries fib)"
  unfolding fib_GetEntries_def by (rule collectFibEntries_distinct) auto

lemma fib_routes_iff:
  assumes "fib_wf pfx (fib_root fib)"
  shows "fib_routes pfx fib ks = Some e \<longleftrightarrow> e \<in> fib_used (fib_root fib) \<and> ebits pfx e = ks"
proof -
  have "inj_on (ebits pfx) (set (fib_GetEntries fib))"
    using fib_bits_unique[OF assms] fib_used_valid[OF assms] by (auto simp: inj_on_def)
  then have "distinct (map fst (map (\<lambda>e. (ebits pfx e, e)) (fib_GetEntries fib)))"
    using fib_GetEntries_distinct[OF assms] by (simp add: distinct_map comp_def)
  then show ?thesis unfolding fib_routes_def by (auto simp: map_of_eq_Some_iff)
qed

lemma lpm_lookup_simps:
  "lpm_lookup m [] = m []"
  "lpm_lookup m (ks @ [k]) = (case m (ks @ [k]) of None \<Rightarrow> lpm_lookup m ks | Some e \<Rightarrow> Some e)"
  by (auto simp: lpm_lookup_def split: option.split)

lemma lpm_lookup_None: "(\<And>p. prefix p ks \<Longrightarrow> m p = None) \<Longrightarrow> lpm_lookup m ks = None"
  by (induction ks rule: rev_induct) (simp_all add: lpm_lookup_simps)

lemma lpm_lookup_Some:
  assumes "prefix p ks" "m p = Some e" "\<And>q. prefix q ks \<Longrightarrow> m q \<noteq> None \<Longrightarrow> length q \<le> length p"
  shows "lpm_lookup m ks = Some e"
  using assms
proof (induction ks rule: rev_induct)
  case (snoc k ks)
  show ?case
  proof (cases "p = ks @ [k]")
    case False
    then have "prefix p ks" using snoc.prems(1) by simp
    moreover from this have "m (ks @ [k]) = None"
      using snoc.prems(3)[of "ks @ [k]"] prefix_length_le by fastforce
    ultimately show ?thesis using snoc by (simp add: lpm_lookup_simps)
  qed (use snoc in \<open>simp add: lpm_lookup_simps\<close>)
qed (simp add: lpm_lookup_simps)

lemma lpm_lookup_upd_other: "\<not> prefix p ks \<Longrightarrow> lpm_lookup (m(p := v)) ks = lpm_lookup m ks"
  by (induction ks rule: rev_induct) (auto simp: lpm_lookup_simps split: option.split)

lemma lpm_of_lookup:
  assumes "fib_wf pfx (fib_root fib)" "lpm_of pfx (fib_used (fib_root fib)) ks q"
  shows "lpm_lookup (fib_routes pfx fib) ks = q"
proof (cases q)
  case None
  then have none: "\<forall>e\<in>fib_used (fib_root fib). \<not> prefix (ebits pfx e) ks" using assms(2) by (simp add: lpm_of_def)
  have "fib_routes pfx fib p \<noteq> Some e" if "prefix p ks" for p e
    using none that fib_routes_iff[OF assms(1), of p e] by blast
  then have "\<And>p. prefix p ks \<Longrightarrow> fib_routes pfx fib p = None" using option.exhaust by blast
  then show ?thesis unfolding None by (rule lpm_lookup_None)
next
  case (Some e)
  with assms(2) have "e \<in> fib_used (fib_root fib)" "prefix (ebits pfx e) ks"
    and m: "\<And>x. x \<in> fib_used (fib_root fib) \<Longrightarrow> prefix (ebits pfx x) ks \<Longrightarrow> length (ebits pfx x) \<le> length (ebits pfx e)"
    by (auto simp: lpm_of_def)
  then show ?thesis
    using fib_routes_iff[OF assms(1)] unfolding Some
    by (intro lpm_lookup_Some[of "ebits pfx e"]) (auto dest!: option.exhaust_sel)
qed

section \<open>The interface of the table\<close>

text \<open>
  What the message processor relies on, over any state \<open>s\<close> that stands for a map of routes: adding
  a new prefix, removing a present one, exact lookup and longest-prefix match. The lemmas of the
  locale give the routing semantics: the effect of one added or removed route on every name.
\<close>

locale prefix_table =
  fixes inv :: "'s \<Rightarrow> bool"
    and routes :: "'s \<Rightarrow> bool list \<Rightarrow> 'e option"
    and key :: "'s \<Rightarrow> 'e \<Rightarrow> bool list"
    and add :: "'s \<Rightarrow> 'e \<Rightarrow> 's \<Rightarrow> bool"
    and remove :: "'s \<Rightarrow> NameBitvector \<Rightarrow> 's \<Rightarrow> bool"
    and match :: "'s \<Rightarrow> NameBitvector \<Rightarrow> 'e option res"
  assumes add_routes: "inv s \<Longrightarrow> add s e s' \<Longrightarrow> inv s' \<and> routes s' = (routes s)(key s e \<mapsto> e)"
    and add_new: "inv s \<Longrightarrow> add s e s' \<Longrightarrow> routes s (key s e) = None"
    and remove_routes: "inv s \<Longrightarrow> remove s k s' \<Longrightarrow> inv s' \<and> routes s' = (routes s)(nb_bits k := None)"
    and match_lpm: "inv s \<Longrightarrow> nb_valid k \<Longrightarrow> match s k = Inr (lpm_lookup (routes s) (nb_bits k))"
begin

lemma match_added:
  assumes "inv s" "add s e s'" "nb_valid k" "prefix (key s e) (nb_bits k)"
    and "\<And>q. prefix q (nb_bits k) \<Longrightarrow> routes s q \<noteq> None \<Longrightarrow> length q \<le> length (key s e)"
  shows "match s' k = Inr (Some e)"
proof -
  have "lpm_lookup (routes s') (nb_bits k) = Some e"
    using assms(4,5) add_routes[OF assms(1,2)] by (intro lpm_lookup_Some[of "key s e"]) (auto split: if_splits)
  then show ?thesis using assms(3) add_routes[OF assms(1,2)] match_lpm[of s' k] by simp
qed

lemma match_added_other:
  assumes "inv s" "add s e s'" "nb_valid k" "\<not> prefix (key s e) (nb_bits k)"
  shows "match s' k = match s k"
  using assms add_routes[OF assms(1,2)] match_lpm[of s k] match_lpm[of s' k] by (simp add: lpm_lookup_upd_other)

lemma match_removed_other:
  assumes "inv s" "remove s p s'" "nb_valid k" "\<not> prefix (nb_bits p) (nb_bits k)"
  shows "match s' k = match s k"
  using assms remove_routes[OF assms(1,2)] match_lpm[of s k] match_lpm[of s' k] by (simp add: lpm_lookup_upd_other)

text \<open>Adding a route for a new prefix and removing it again leaves every match as it was.\<close>

lemma match_add_remove:
  assumes "inv s" "add s e s'" "remove s' p s''" "nb_bits p = key s e" "nb_valid k"
  shows "match s'' k = match s k"
proof -
  have "routes s'' = routes s"
    using add_routes[OF assms(1,2)] add_new[OF assms(1,2)] remove_routes[of s' p s''] assms(3,4)
    by (auto simp: fun_eq_iff)
  then show ?thesis using assms add_routes[OF assms(1,2)] remove_routes[of s' p s''] match_lpm by simp
qed

end

text \<open>The state of the table: the prefix of every entry pointer, and the trie.\<close>

type_synonym 'e fib_state = "('e \<Rightarrow> NameBitvector) \<times> 'e fib"

fun fib_st_inv :: "'e fib_state \<Rightarrow> bool" where
  "fib_st_inv (pfx, fib) = fib_inv pfx fib"

fun fib_st_routes :: "'e fib_state \<Rightarrow> bool list \<Rightarrow> 'e option" where
  "fib_st_routes (pfx, fib) = fib_routes pfx fib"

fun fib_st_add :: "'e fib_state \<Rightarrow> 'e \<Rightarrow> 'e fib_state \<Rightarrow> bool" where
  "fib_st_add (pfx, fib) e s' \<longleftrightarrow> nb_valid (pfx e) \<and> fib_routes pfx fib (ebits pfx e) = None \<and>
     (\<exists>inner fib' c. inner \<notin> insert e (fib_entries (fib_root fib)) \<and>
        fib_Add pfx inner fib e = Inr (fib', c) \<and> s' = (pfx_after pfx inner c, fib'))"

fun fib_st_remove :: "'e fib_state \<Rightarrow> NameBitvector \<Rightarrow> 'e fib_state \<Rightarrow> bool" where
  "fib_st_remove (pfx, fib) k s' \<longleftrightarrow> nb_valid k \<and> fib_routes pfx fib (nb_bits k) \<noteq> None \<and>
     (\<exists>fib'. removeNode pfx fib k = Inr fib' \<and> s' = (pfx, fib'))"

lemma fib_inv_wf: "fib_inv pfx fib \<Longrightarrow> fib_wf pfx (fib_root fib)"
  by (simp add: fib_inv_def)

lemma map_eqI_Some: "(\<And>k v. m k = Some v \<longleftrightarrow> m' k = Some v) \<Longrightarrow> m = m'"
  by (metis (full_types) ext not_None_eq)

lemma add_ok_inv:
  assumes "fib_inv pfx fib" "fib_routes pfx fib (ebits pfx e) = None" "nb_valid (pfx e)"
    and fresh: "inner \<notin> insert e (fib_entries (fib_root fib))"
  shows "\<exists>fib' c. fib_Add pfx inner fib e = Inr (fib', c) \<and> fib_inv (pfx_after pfx inner c) fib' \<and>
    fib_routes (pfx_after pfx inner c) fib' = (fib_routes pfx fib)(ebits pfx e \<mapsto> e)"
proof -
  have wf: "fib_wf pfx (fib_root fib)" using assms(1) by (rule fib_inv_wf)
  have new: "\<forall>x\<in>fib_used (fib_root fib). ebits pfx x \<noteq> ebits pfx e"
    using assms(2) fib_routes_iff[OF wf] by (metis option.distinct(1))
  from fib_Add_ok[OF wf assms(3) new fresh] obtain root c where
    r: "fib_Add pfx inner fib e = Inr (fib\<lparr>fib_root := root, fib_size := fib_size fib + 1\<rparr>, c)"
    and u: "fib_used root = insert e (fib_used (fib_root fib))" and w: "fib_wf (pfx_after pfx inner c) root"
    unfolding add_ok_def by blast
  let ?f = "fib\<lparr>fib_root := root, fib_size := fib_size fib + 1\<rparr>" and ?p = "pfx_after pfx inner c"
  have "e \<notin> fib_used (fib_root fib)" using new by auto
  then have "fib_inv ?p ?f" using u w assms(1) by (simp add: fib_inv_def)
  moreover have same: "\<And>x. x \<in> insert e (fib_used (fib_root fib)) \<Longrightarrow> ebits ?p x = ebits pfx x"
    using fresh by (auto simp: pfx_after_def ebits_def dest: used_in_entries split: option.split)
  have "fib_routes ?p ?f = (fib_routes pfx fib)(ebits pfx e \<mapsto> e)"
    using new same by (intro map_eqI_Some) (auto simp: fib_routes_iff wf w u)
  ultimately show ?thesis using r by blast
qed

lemma remove_ok_inv:
  assumes "fib_inv pfx fib" "nb_valid k" "fib_routes pfx fib (nb_bits k) = Some e"
  shows "\<exists>fib'. removeNode pfx fib k = Inr fib' \<and> fib_inv pfx fib' \<and>
    fib_routes pfx fib' = (fib_routes pfx fib)(nb_bits k := None)"
proof -
  have wf: "fib_wf pfx (fib_root fib)" using assms(1) by (rule fib_inv_wf)
  have e: "e \<in> fib_used (fib_root fib)" "ebits pfx e = nb_bits k" using assms(3) fib_routes_iff[OF wf] by auto
  from removeNode_ok[OF wf assms(2) e] obtain root where
    r: "removeNode pfx fib k = Inr (fib\<lparr>fib_root := root, fib_size := fib_size fib - 1\<rparr>)"
    and u: "fib_used root = fib_used (fib_root fib) - {e}" and w: "fib_wf pfx root" by blast
  have "0 < card (fib_used (fib_root fib))" using e(1) card_gt_0_iff by fastforce
  then have "fib_inv pfx (fib\<lparr>fib_root := root, fib_size := fib_size fib - 1\<rparr>)"
    using u w e(1) assms(1) by (simp add: fib_inv_def of_nat_diff)
  moreover have uniq: "x \<noteq> e \<longleftrightarrow> ebits pfx x \<noteq> nb_bits k" if "x \<in> fib_used (fib_root fib)" for x
    using fib_bits_unique[OF wf _ that e(1)] fib_used_valid[OF wf that] e(2) by auto
  have "fib_routes pfx (fib\<lparr>fib_root := root, fib_size := fib_size fib - 1\<rparr>) = (fib_routes pfx fib)(nb_bits k := None)"
  proof (rule map_eqI_Some)
    fix ks x
    show "fib_routes pfx (fib\<lparr>fib_root := root, fib_size := fib_size fib - 1\<rparr>) ks = Some x \<longleftrightarrow>
        ((fib_routes pfx fib)(nb_bits k := None)) ks = Some x"
      using uniq[of x] by (auto simp: fib_routes_iff[OF wf] fib_routes_iff w u)
  qed
  ultimately show ?thesis unfolding r by blast
qed

lemma match_ok_inv:
  assumes "fib_inv pfx fib" "nb_valid k"
  shows "fib_MatchBitvector pfx fib k = Inr (lpm_lookup (fib_routes pfx fib) (nb_bits k))"
proof -
  have wf: "fib_wf pfx (fib_root fib)" using assms(1) by (rule fib_inv_wf)
  from fib_match_loop_lpm[OF wf assms(2), of None] obtain q where
    "fib_match_loop pfx k (fib_root fib) None = Inr (case q of None \<Rightarrow> None | Some e \<Rightarrow> Some e)"
    "lpm_of pfx (fib_used (fib_root fib)) (nb_bits k) q" by blast
  with lpm_of_lookup[OF wf] show ?thesis by (cases q) (simp_all add: fib_MatchBitvector_def)
qed

interpretation ft: prefix_table fib_st_inv fib_st_routes "\<lambda>s. ebits (fst s)" fib_st_add fib_st_remove
  "\<lambda>s. fib_MatchBitvector (fst s) (snd s)"
proof (unfold_locales, goal_cases)
  case (1 s e s')
  obtain pfx fib where [simp]: "s = (pfx, fib)" by (cases s)
  from 1 obtain inner fib' c where *: "nb_valid (pfx e)" "fib_routes pfx fib (ebits pfx e) = None"
    "inner \<notin> insert e (fib_entries (fib_root fib))"
    "fib_Add pfx inner fib e = Inr (fib', c)" "s' = (pfx_after pfx inner c, fib')" by auto
  from add_ok_inv[OF _ *(2,1,3)] 1 *(4,5) show ?case by auto
next
  case (2 s e s')
  then show ?case by (cases s) simp
next
  case (3 s k s')
  obtain pfx fib where [simp]: "s = (pfx, fib)" by (cases s)
  from 3 obtain e fib' where "nb_valid k" "fib_routes pfx fib (nb_bits k) = Some e"
    "removeNode pfx fib k = Inr fib'" "s' = (pfx, fib')" by auto
  with remove_ok_inv[of pfx fib k e] 3 show ?case by auto
next
  case (4 s k)
  then show ?case by (cases s) (simp add: match_ok_inv)
qed

lemma contains_ok_inv:
  assumes "fib_inv pfx fib" "nb_valid key"
  shows "fib_Contains pfx fib key = Inr (fib_routes pfx fib (nb_bits key))"
proof -
  note wf = fib_inv_wf[OF assms(1)]
  from fib_contains_loop_exact[OF wf assms(2)] obtain q where
    q: "fib_contains_loop pfx key (fib_root fib) = Inr q"
    "\<forall>e. q = Some e \<longleftrightarrow> e \<in> fib_used (fib_root fib) \<and> ebits pfx e = nb_bits key" by blast
  have "q = fib_routes pfx fib (nb_bits key)"
    using q(2) fib_routes_iff[OF wf, of "nb_bits key"] by (metis not_None_eq)
  with q(1) show ?thesis by (simp add: fib_Contains_def)
qed

lemma fib_Create_inv: "fib_inv pfx fib_Create" "fib_routes pfx fib_Create = Map.empty"
  by (simp_all add: fib_inv_def fib_Create_def fib_routes_def fib_GetEntries_def)

lemma fib_Add_dup:
  assumes inv: "fib_inv pfx fib" and v: "nb_valid (pfx entry)" and dup: "fib_routes pfx fib (ebits pfx entry) = Some e"
  shows "fib_Add pfx inner fib entry = Inl AssertFailed"
proof -
  have wf: "fib_wf pfx (fib_root fib)" using inv by (rule fib_inv_wf)
  have e: "e \<in> fib_used (fib_root fib)" "ebits pfx e = ebits pfx entry" using dup fib_routes_iff[OF wf] by auto
  from fib_add_loop_path[OF wf v, of "[]"] obtain path cur
    where loop: "fib_add_loop pfx (pfx entry) (fib_root fib) [] = Inr (path, cur)"
      and "plug cur path = fib_root fib" and ctx: "prefix (path_ctx pfx path) (nb_bits (pfx entry))"
      and stop: "\<And>l r e u. cur = FibNode l r e u \<Longrightarrow>
        \<not> prefix (ebits pfx e) (nb_bits (pfx entry)) \<or> ebits pfx e = nb_bits (pfx entry)" by auto
  then have root: "fib_root fib = plug cur path" by simp
  have pw: "path_wf pfx path" and wfc: "fib_wf pfx cur" using wf root by (auto simp: fib_wf_plug)
  have "e \<notin> path_used path"
    using path_entries_fresh[OF pw, of e] path_used_entries[of path] ctx e(2) by (auto simp: ebits_def)
  then have eu: "e \<in> fib_used cur" using e(1) root by simp
  then obtain l r e' u where cur: "cur = FibNode l r e' u" by (cases cur) auto
  have ee: "ebits pfx e = nb_bits (pfx entry)" using e(2) by (simp add: ebits_def)
  have same: "ebits pfx e' = ebits pfx entry"
    using stop[OF cur] below_subtree[OF wfc[unfolded cur] prefix_order.refl] below_used[of pfx "ebits pfx e'" cur e] eu ee cur
    by (auto simp: ebits_def)
  have "e' = e"
  proof (rule ccontr)
    assume "e' \<noteq> e"
    then have "e \<in> fib_used l \<union> fib_used r" using eu cur by (auto split: if_splits)
    then show False using wfc cur same ee by (auto simp: prefix_snoc_iff_nth ebits_def dest!: below_used)
  qed
  moreover from this have u using eu cur node_entry_fresh[OF wfc[unfolded cur]] by (auto dest: used_in_entries split: if_splits)
  moreover have ve: "nb_valid (pfx e')" using wfc cur by simp
  moreover have "nameBitvector_testBit (pfx e') (nameBitvector_lpm (pfx entry) (pfx e')) = None"
    using add_match_len(1)[where pfx = pfx, OF v ve] same ve by (simp add: nameBitvector_testBit_def)
  ultimately show ?thesis using same add_match_len(1,2)[where pfx = pfx, OF v ve] by (simp add: fib_Add_def loop cur Let_def)
qed

section \<open>Properties\<close>

text \<open>A table with the routes \<^verbatim>\<open>0\<close>, \<^verbatim>\<open>01\<close> and \<^verbatim>\<open>00\<close>, keyed by entry number, for the witnesses.\<close>

definition ex_pfx :: "nat \<Rightarrow> NameBitvector" where
  "ex_pfx n = (if n = 0 then \<lparr>bits0 = 0, bits1 = 0, nb_len = 1, IPversion = 6\<rparr>
     else if n = 1 then \<lparr>bits0 = 0x4000000000000000, bits1 = 0, nb_len = 2, IPversion = 6\<rparr>
     else \<lparr>bits0 = 0, bits1 = 0, nb_len = 2, IPversion = 6\<rparr>)"

definition ex_fib :: "nat fib" where
  "ex_fib = \<lparr>fib_root = FibNode (FibNode Null Null 2 True) (FibNode Null Null 1 True) 0 True, fib_size = 3\<rparr>"

lemma ex_bits: "ebits ex_pfx 0 = [False]" "ebits ex_pfx 1 = [False, True]" "ebits ex_pfx 2 = [False, False]"
  by code_simp+

lemma ex_fib_inv: "fib_inv ex_pfx ex_fib"
  using ex_bits by (simp add: fib_inv_def ex_fib_def ex_pfx_def nb_valid_def WIDTH_def)

lemma ex_pfx_valid: "nb_valid (ex_pfx n)"
  by (simp add: ex_pfx_def nb_valid_def WIDTH_def)

text \<open>
  C23. Longest-prefix match: on every well-formed FIB and valid name, \<open>fib_MatchBitvector\<close> returns,
  without failing an assertion, the entry of the longest registered prefix of the name, or none.
\<close>

theorem fib_MatchBitvector_lpm:
  assumes "fib_inv pfx fib" "nb_valid name"
  shows "fib_MatchBitvector pfx fib name = Inr (lpm_lookup (fib_routes pfx fib) (nb_bits name))"
  using assms by (rule match_ok_inv)

theorem fib_MatchBitvector_lpm_witness:
  "fib_MatchBitvector ex_pfx ex_fib (ex_pfx 1) = Inr (lpm_lookup (fib_routes ex_pfx ex_fib) (nb_bits (ex_pfx 1)))"
  by (rule fib_MatchBitvector_lpm[OF ex_fib_inv ex_pfx_valid])

text \<open>
  Exact lookup: \<open>fib_Contains\<close> returns the entry registered for exactly the given prefix, or
  none, and never fails an assertion.
\<close>

theorem fib_Contains_exact:
  assumes "fib_inv pfx fib" "nb_valid key"
  shows "fib_Contains pfx fib key = Inr (fib_routes pfx fib (nb_bits key))"
  by (rule contains_ok_inv[OF assms])

theorem fib_Contains_exact_witness:
  "fib_Contains ex_pfx ex_fib (ex_pfx 1) = Inr (fib_routes ex_pfx ex_fib (nb_bits (ex_pfx 1)))"
  by (rule fib_Contains_exact[OF ex_fib_inv ex_pfx_valid])

text \<open>
  C24. Insertion: adding an entry whose prefix is not registered succeeds (with the pointer that
  the inner entry would get distinct from those in use), registers exactly that route, leaves
  all others, and keeps the trie well formed and its size counter equal to the number of routes.
\<close>

theorem fib_Add_correct:
  assumes "fib_inv pfx fib" "nb_valid (pfx entry)" "fib_routes pfx fib (ebits pfx entry) = None"
    and "inner \<notin> insert entry (fib_entries (fib_root fib))"
  shows "\<exists>fib' c. fib_Add pfx inner fib entry = Inr (fib', c) \<and> fib_inv (pfx_after pfx inner c) fib' \<and>
    fib_routes (pfx_after pfx inner c) fib' = (fib_routes pfx fib)(ebits pfx entry \<mapsto> entry)"
  using add_ok_inv[OF assms(1,3,2,4)] .

text \<open>The route of entry 1 added to a table that has only the route of entry 2: an inner node is made.\<close>

definition ex_fib1 :: "nat fib" where
  "ex_fib1 = \<lparr>fib_root = FibNode Null Null 2 True, fib_size = 1\<rparr>"

lemma ex_fib1_inv: "fib_inv ex_pfx ex_fib1"
  by (simp add: fib_inv_def ex_fib1_def ex_pfx_def nb_valid_def WIDTH_def)

theorem fib_Add_correct_witness:
  "\<exists>fib' c. fib_Add ex_pfx 5 ex_fib1 1 = Inr (fib', c) \<and> fib_inv (pfx_after ex_pfx 5 c) fib' \<and>
    fib_routes (pfx_after ex_pfx 5 c) fib' = (fib_routes ex_pfx ex_fib1)([False, True] \<mapsto> 1)"
proof -
  have "fib_routes ex_pfx ex_fib1 (ebits ex_pfx 1) = None" by code_simp
  moreover have "(5 :: nat) \<notin> insert 1 (fib_entries (fib_root ex_fib1))" by (simp add: ex_fib1_def)
  ultimately show ?thesis using fib_Add_correct[OF ex_fib1_inv ex_pfx_valid, of 1 5] unfolding ex_bits by blast
qed

text \<open>
  Removal: removing a registered prefix succeeds, unregisters exactly that route, and keeps
  the trie well formed and its size counter right, whether the node had two, one or no children.
\<close>

theorem removeNode_correct:
  assumes "fib_inv pfx fib" "nb_valid key" "fib_routes pfx fib (nb_bits key) = Some e"
  shows "\<exists>fib'. removeNode pfx fib key = Inr fib' \<and> fib_inv pfx fib' \<and>
    fib_routes pfx fib' = (fib_routes pfx fib)(nb_bits key := None)"
  using assms by (rule remove_ok_inv)

theorem removeNode_correct_witness:
  "\<exists>fib'. removeNode ex_pfx ex_fib (ex_pfx 1) = Inr fib' \<and> fib_inv ex_pfx fib' \<and>
    fib_routes ex_pfx fib' = (fib_routes ex_pfx ex_fib)(nb_bits (ex_pfx 1) := None)"
proof -
  have "fib_routes ex_pfx ex_fib (nb_bits (ex_pfx 1)) = Some 1" by code_simp
  then show ?thesis by (rule removeNode_correct[OF ex_fib_inv ex_pfx_valid])
qed

text \<open>
  A route that is added and removed again leaves no trace: every name is then forwarded by
  the entry it was forwarded by before.
\<close>

theorem fib_add_remove_match:
  assumes "fib_inv pfx fib" "nb_valid (pfx entry)" "fib_routes pfx fib (ebits pfx entry) = None"
    and "inner \<notin> insert entry (fib_entries (fib_root fib))" "nb_valid name"
    and "fib_Add pfx inner fib entry = Inr (fib', c)"
    and "removeNode (pfx_after pfx inner c) fib' (pfx entry) = Inr fib''"
  shows "fib_MatchBitvector (pfx_after pfx inner c) fib'' name = fib_MatchBitvector pfx fib name"
proof -
  have a: "fib_st_add (pfx, fib) entry (pfx_after pfx inner c, fib')" using assms by auto
  have "fib_routes (pfx_after pfx inner c) fib' (nb_bits (pfx entry)) \<noteq> None"
    using ft.add_routes[OF _ a] assms(1) by (simp add: ebits_def)
  then have "fib_st_remove (pfx_after pfx inner c, fib') (pfx entry) (pfx_after pfx inner c, fib'')"
    using assms(2,7) by simp
  from ft.match_add_remove[OF _ a this _ assms(5)] show ?thesis using assms(1) by (simp add: ebits_def)
qed

theorem fib_add_remove_match_witness:
  "\<exists>fib' c fib''. fib_Add ex_pfx 5 ex_fib1 1 = Inr (fib', c) \<and>
     removeNode (pfx_after ex_pfx 5 c) fib' (ex_pfx 1) = Inr fib'' \<and>
     fib_MatchBitvector (pfx_after ex_pfx 5 c) fib'' (ex_pfx 2) = fib_MatchBitvector ex_pfx ex_fib1 (ex_pfx 2)"
proof -
  have r: "fib_routes ex_pfx ex_fib1 (ebits ex_pfx 1) = None" by code_simp
  have i: "(5 :: nat) \<notin> insert 1 (fib_entries (fib_root ex_fib1))" by (simp add: ex_fib1_def)
  from add_ok_inv[OF ex_fib1_inv r ex_pfx_valid i] obtain fib' c where a: "fib_Add ex_pfx 5 ex_fib1 1 = Inr (fib', c)"
    and f: "fib_inv (pfx_after ex_pfx 5 c) fib'" "fib_routes (pfx_after ex_pfx 5 c) fib' (ebits ex_pfx 1) = Some 1"
    by auto
  from remove_ok_inv[OF f(1) ex_pfx_valid f(2)[unfolded ebits_def]] obtain fib''
    where b: "removeNode (pfx_after ex_pfx 5 c) fib' (ex_pfx 1) = Inr fib''" by blast
  from fib_add_remove_match[OF ex_fib1_inv ex_pfx_valid r i ex_pfx_valid a b] a b show ?thesis by blast
qed

text \<open>
  Adding an entry whose prefix is already registered stops the process: after merging the next
  hops the code goes on as if the prefix were a strict one, and its bit test fails its assertion.
\<close>

theorem fib_Add_registered_aborts:
  assumes "fib_inv pfx fib" "nb_valid (pfx entry)" "fib_routes pfx fib (ebits pfx entry) \<noteq> None"
  shows "fib_Add pfx inner fib entry = Inl AssertFailed"
  using assms by (auto intro: fib_Add_dup)

theorem fib_Add_registered_aborts_witness: "fib_Add ex_pfx 5 ex_fib 1 = Inl AssertFailed"
proof -
  have "fib_routes ex_pfx ex_fib (ebits ex_pfx 1) \<noteq> None" by code_simp
  then show ?thesis by (rule fib_Add_registered_aborts[OF ex_fib_inv ex_pfx_valid])
qed

text \<open>
  Listing: \<open>fib_GetEntries\<close> lists every registered route exactly once, and \<open>fib_Length\<close> is their
  number (as a 32-bit counter).
\<close>

theorem fib_GetEntries_complete:
  assumes "fib_inv pfx fib"
  shows "distinct (fib_GetEntries fib) \<and> set (fib_GetEntries fib) = ran (fib_routes pfx fib) \<and>
    fib_Length fib = of_nat (length (fib_GetEntries fib))"
proof -
  note wf = fib_inv_wf[OF assms]
  have d: "distinct (fib_GetEntries fib)" by (rule fib_GetEntries_distinct[OF wf])
  have "set (fib_GetEntries fib) = ran (fib_routes pfx fib)" by (auto simp: ran_def fib_routes_iff[OF wf])
  with d show ?thesis using assms distinct_card[OF d] by (simp add: fib_inv_def fib_Length_def)
qed

theorem fib_GetEntries_complete_witness:
  "distinct (fib_GetEntries ex_fib) \<and> set (fib_GetEntries ex_fib) = ran (fib_routes ex_pfx ex_fib) \<and>
    fib_Length ex_fib = of_nat (length (fib_GetEntries ex_fib))"
  by (rule fib_GetEntries_complete[OF ex_fib_inv])

text \<open>
  The removal walk stops at a node of the same length without comparing its bits: removing the
  unregistered prefix \<^verbatim>\<open>00\<close> from a table whose only route is \<^verbatim>\<open>01\<close> deletes that route.
\<close>

theorem removeNode_absent_deletes_other:
  "fib_inv ex_pfx \<lparr>fib_root = FibNode Null Null 1 True, fib_size = 1\<rparr> \<and>
   fib_Contains ex_pfx \<lparr>fib_root = FibNode Null Null 1 True, fib_size = 1\<rparr> (ex_pfx 2) = Inr None \<and>
   removeNode ex_pfx \<lparr>fib_root = FibNode Null Null 1 True, fib_size = 1\<rparr> (ex_pfx 2) =
     Inr \<lparr>fib_root = Null, fib_size = 0\<rparr>"
proof (intro conjI)
  show "fib_inv ex_pfx \<lparr>fib_root = FibNode Null Null 1 True, fib_size = 1\<rparr>"
    by (simp add: fib_inv_def ex_pfx_def nb_valid_def WIDTH_def)
qed code_simp+

end
