(* ===== verification/Libparc.thy ===== *)
theory Libparc
  imports Prelude
begin

text \<open>
  The containers of libparc that the forwarder uses, as parameters. Their code is not part of the
  repository; a component that uses one takes a record of its operations, and the properties of
  the component assume the documented behaviour stated here as a predicate on that record:
  \<open>hct_laws\<close> for \<^verbatim>\<open>PARCHashCodeTable\<close> (at most one value per key, up to the key equality given at
  creation; adding a present key is refused) and \<open>rbt_laws\<close> for \<^verbatim>\<open>PARCTreeRedBlack\<close> (a map ordered
  by the comparison function; inserting a present key replaces its value).

  Association lists satisfy both; they instantiate the parameters in the witnesses.
\<close>

section \<open>Hash tables\<close>

record ('t, 'k, 'v) hct_ops =
  hct_Create :: 't
  hct_Add :: "'t \<Rightarrow> 'k \<Rightarrow> 'v \<Rightarrow> 't \<times> bool"
  hct_Get :: "'t \<Rightarrow> 'k \<Rightarrow> 'v option"
  hct_Del :: "'t \<Rightarrow> 'k \<Rightarrow> 't"

text \<open>\<open>valid\<close> delimits the keys: those on which the equality function is an equivalence that respects the hash.\<close>

definition hct_laws :: "('k \<Rightarrow> bool) \<Rightarrow> ('k \<Rightarrow> 'k \<Rightarrow> bool) \<Rightarrow> ('t, 'k, 'v) hct_ops \<Rightarrow> bool" where
  "hct_laws valid keq T \<longleftrightarrow>
     (\<forall>k. valid k \<longrightarrow> hct_Get T (hct_Create T) k = None) \<and>
     (\<forall>t k v k'. valid k \<longrightarrow> valid k' \<longrightarrow>
        hct_Get T (fst (hct_Add T t k v)) k' = (if keq k k' \<and> hct_Get T t k = None then Some v else hct_Get T t k')) \<and>
     (\<forall>t k v. valid k \<longrightarrow> snd (hct_Add T t k v) = (hct_Get T t k = None)) \<and>
     (\<forall>t k k'. valid k \<longrightarrow> valid k' \<longrightarrow> hct_Get T (hct_Del T t k) k' = (if keq k k' then None else hct_Get T t k')) \<and>
     (\<forall>t k k'. valid k \<longrightarrow> valid k' \<longrightarrow> keq k k' \<longrightarrow> hct_Get T t k = hct_Get T t k')"

lemma hct_lawsD:
  assumes "hct_laws valid keq T" "valid k" "valid k'"
  shows "hct_Get T (hct_Create T) k = None"
    "hct_Get T (fst (hct_Add T t k v)) k' = (if keq k k' \<and> hct_Get T t k = None then Some v else hct_Get T t k')"
    "snd (hct_Add T t k v) = (hct_Get T t k = None)"
    "hct_Get T (hct_Del T t k) k' = (if keq k k' then None else hct_Get T t k')"
    "keq k k' \<Longrightarrow> hct_Get T t k = hct_Get T t k'"
  using assms unfolding hct_laws_def by blast+

text \<open>Association lists as hash tables.\<close>

fun al_get :: "('k \<Rightarrow> 'k \<Rightarrow> bool) \<Rightarrow> ('k \<times> 'v) list \<Rightarrow> 'k \<Rightarrow> 'v option" where
  "al_get keq [] k = None"
| "al_get keq ((k', v) # xs) k = (if keq k' k then Some v else al_get keq xs k)"

definition al_hct :: "('k \<Rightarrow> 'k \<Rightarrow> bool) \<Rightarrow> (('k \<times> 'v) list, 'k, 'v) hct_ops" where
  "al_hct keq = \<lparr>hct_Create = [],
     hct_Add = (\<lambda>t k v. if al_get keq t k = None then ((k, v) # t, True) else (t, False)),
     hct_Get = al_get keq,
     hct_Del = (\<lambda>t k. filter (\<lambda>(k', v). \<not> keq k' k) t)\<rparr>"

definition equivalence_on :: "('k \<Rightarrow> bool) \<Rightarrow> ('k \<Rightarrow> 'k \<Rightarrow> bool) \<Rightarrow> bool" where
  "equivalence_on valid keq \<longleftrightarrow> (\<forall>k. valid k \<longrightarrow> keq k k) \<and> symp keq \<and> transp keq"

lemma equivalence_swap: "equivalence_on valid keq \<Longrightarrow> keq k k' \<Longrightarrow> keq a k \<longleftrightarrow> keq a k'"
  unfolding equivalence_on_def by (meson sympD transpD)

lemma al_get_cong:
  assumes "equivalence_on valid keq" "keq k k'"
  shows "al_get keq xs k = al_get keq xs k'"
  using equivalence_swap[OF assms] by (induction xs) auto

lemma al_get_filter:
  assumes "equivalence_on valid keq"
  shows "al_get keq (filter (\<lambda>(k', v). \<not> keq k' k) xs) k' = (if keq k k' then None else al_get keq xs k')"
proof (induction xs)
  case (Cons x xs)
  obtain a v where x: "x = (a, v)" by (cases x)
  have "keq k k' \<Longrightarrow> keq a k = keq a k'" using equivalence_swap[OF assms] by blast
  moreover have "keq a k' \<Longrightarrow> keq a k \<Longrightarrow> keq k k'"
    using assms unfolding equivalence_on_def by (meson sympD transpD)
  ultimately show ?case using Cons x by auto
qed simp

lemma al_hct_laws:
  assumes "equivalence_on valid keq"
  shows "hct_laws valid keq (al_hct keq)"
  unfolding hct_laws_def
proof (intro conjI allI impI)
  fix t k v k'
  show "hct_Get (al_hct keq) (hct_Create (al_hct keq)) k = None" by (simp add: al_hct_def)
  show "hct_Get (al_hct keq) (fst (hct_Add (al_hct keq) t k v)) k' =
      (if keq k k' \<and> hct_Get (al_hct keq) t k = None then Some v else hct_Get (al_hct keq) t k')"
    by (auto simp: al_hct_def)
  show "snd (hct_Add (al_hct keq) t k v) = (hct_Get (al_hct keq) t k = None)" by (simp add: al_hct_def)
  show "hct_Get (al_hct keq) (hct_Del (al_hct keq) t k) k' = (if keq k k' then None else hct_Get (al_hct keq) t k')"
    using al_get_filter[OF assms, of k t k'] by (simp add: al_hct_def)
  assume "keq k k'"
  then show "hct_Get (al_hct keq) t k = hct_Get (al_hct keq) t k'"
    using al_get_cong[OF assms, of k k' t] by (simp add: al_hct_def)
qed

section \<open>Ordered trees\<close>

record ('t, 'k, 'v) rbt_ops =
  rbt_Create :: 't
  rbt_Insert :: "'t \<Rightarrow> 'k \<Rightarrow> 'v \<Rightarrow> 't"
  rbt_Remove :: "'t \<Rightarrow> 'k \<Rightarrow> 't"
  rbt_FirstKey :: "'t \<Rightarrow> 'k option"
  rbt_Values :: "'t \<Rightarrow> 'v list"

text \<open>
  The tree stands for the list \<open>entries t\<close> of its pairs in increasing order of the comparison
  function \<open>cmp\<close>, of which \<^verbatim>\<open>Values\<close> and \<^verbatim>\<open>FirstKey\<close> are the projections.
\<close>

fun sorted_entries :: "('k \<Rightarrow> 'k \<Rightarrow> int) \<Rightarrow> ('k \<times> 'v) list \<Rightarrow> bool" where
  "sorted_entries cmp [] = True"
| "sorted_entries cmp ((k, v) # xs) \<longleftrightarrow> (\<forall>(k', v')\<in>set xs. cmp k k' < 0) \<and> sorted_entries cmp xs"

definition rbt_laws ::
  "('k \<Rightarrow> 'k \<Rightarrow> int) \<Rightarrow> ('t \<Rightarrow> bool) \<Rightarrow> ('t \<Rightarrow> ('k \<times> 'v) list) \<Rightarrow> ('t, 'k, 'v) rbt_ops \<Rightarrow> bool" where
  "rbt_laws cmp ok entries R \<longleftrightarrow>
     ok (rbt_Create R) \<and> entries (rbt_Create R) = [] \<and>
     (\<forall>t. ok t \<longrightarrow> sorted_entries cmp (entries t)) \<and>
     (\<forall>t k v. ok t \<longrightarrow> ok (rbt_Insert R t k v) \<and>
        set (entries (rbt_Insert R t k v)) = insert (k, v) {(k', v')\<in>set (entries t). cmp k k' \<noteq> 0}) \<and>
     (\<forall>t k. ok t \<longrightarrow> ok (rbt_Remove R t k) \<and>
        entries (rbt_Remove R t k) = filter (\<lambda>(k', v'). cmp k k' \<noteq> 0) (entries t)) \<and>
     (\<forall>t. ok t \<longrightarrow> rbt_FirstKey R t = (case entries t of [] \<Rightarrow> None | (k, v) # _ \<Rightarrow> Some k)) \<and>
     (\<forall>t. ok t \<longrightarrow> rbt_Values R t = map snd (entries t))"

lemma rbt_lawsD:
  assumes "rbt_laws cmp ok entries R" "ok t"
  shows "ok (rbt_Insert R t k v)" "ok (rbt_Remove R t k)"
    "set (entries (rbt_Insert R t k v)) = insert (k, v) {(k', v')\<in>set (entries t). cmp k k' \<noteq> 0}"
    "set (entries (rbt_Remove R t k)) = {(k', v')\<in>set (entries t). cmp k k' \<noteq> 0}"
    "rbt_FirstKey R t = (case entries t of [] \<Rightarrow> None | (k, v) # _ \<Rightarrow> Some k)"
    "rbt_Values R t = map snd (entries t)" "sorted_entries cmp (entries t)"
proof -
  have ins: "\<forall>t k v. ok t \<longrightarrow> ok (rbt_Insert R t k v) \<and>
      set (entries (rbt_Insert R t k v)) = insert (k, v) {(k', v')\<in>set (entries t). cmp k k' \<noteq> 0}"
    and rem: "\<forall>t k. ok t \<longrightarrow> ok (rbt_Remove R t k) \<and> entries (rbt_Remove R t k) = filter (\<lambda>(k', v'). cmp k k' \<noteq> 0) (entries t)"
    using assms(1) unfolding rbt_laws_def by simp_all
  show "ok (rbt_Insert R t k v)" "ok (rbt_Remove R t k)"
    "set (entries (rbt_Insert R t k v)) = insert (k, v) {(k', v')\<in>set (entries t). cmp k k' \<noteq> 0}"
    using ins rem assms(2) by simp_all
  show "set (entries (rbt_Remove R t k)) = {(k', v')\<in>set (entries t). cmp k k' \<noteq> 0}" using rem assms(2) by auto
  show "rbt_FirstKey R t = (case entries t of [] \<Rightarrow> None | (k, v) # _ \<Rightarrow> Some k)"
    "rbt_Values R t = map snd (entries t)" "sorted_entries cmp (entries t)"
    using assms unfolding rbt_laws_def by simp_all
qed

text \<open>Sorted association lists as ordered trees, for a comparison function that is a total order.\<close>

definition order_cmp :: "('k \<Rightarrow> 'k \<Rightarrow> int) \<Rightarrow> bool" where
  "order_cmp cmp \<longleftrightarrow> (\<forall>a b. cmp b a < 0 \<longleftrightarrow> 0 < cmp a b) \<and> (\<forall>a b c. cmp a b < 0 \<longrightarrow> cmp b c < 0 \<longrightarrow> cmp a c < 0) \<and>
     (\<forall>a b c. cmp a b = 0 \<longrightarrow> cmp a c < 0 \<longrightarrow> cmp b c < 0) \<and> (\<forall>a b c. cmp a b = 0 \<longrightarrow> cmp c a < 0 \<longrightarrow> cmp c b < 0)"

fun sl_insert :: "('k \<Rightarrow> 'k \<Rightarrow> int) \<Rightarrow> 'k \<Rightarrow> 'v \<Rightarrow> ('k \<times> 'v) list \<Rightarrow> ('k \<times> 'v) list" where
  "sl_insert cmp k v [] = [(k, v)]"
| "sl_insert cmp k v ((k', v') # xs) =
     (if cmp k k' < 0 then (k, v) # (k', v') # xs
      else if cmp k k' = 0 then (k, v) # xs
      else (k', v') # sl_insert cmp k v xs)"

definition sl_rbt :: "('k \<Rightarrow> 'k \<Rightarrow> int) \<Rightarrow> (('k \<times> 'v) list, 'k, 'v) rbt_ops" where
  "sl_rbt cmp = \<lparr>rbt_Create = [], rbt_Insert = (\<lambda>t k v. sl_insert cmp k v t),
     rbt_Remove = (\<lambda>t k. filter (\<lambda>(k', v'). cmp k k' \<noteq> 0) t),
     rbt_FirstKey = (\<lambda>t. case t of [] \<Rightarrow> None | (k, v) # _ \<Rightarrow> Some k),
     rbt_Values = map snd\<rparr>"

lemma order_cmp_le_trans:
  assumes "order_cmp cmp" "cmp k a \<le> 0" "cmp a c < 0"
  shows "cmp k c < 0"
proof (cases "cmp k a = 0")
  case True
  have "cmp k a < 0 \<longleftrightarrow> 0 < cmp a k" "cmp a k < 0 \<longleftrightarrow> 0 < cmp k a" using assms(1) unfolding order_cmp_def by blast+
  then have "cmp a k = 0" using True by linarith
  then show ?thesis using assms(1,3) unfolding order_cmp_def by blast
next
  case False
  then have "cmp k a < 0" using assms(2) by simp
  then show ?thesis using assms(1,3) unfolding order_cmp_def by blast
qed

lemma sl_insert_set:
  assumes "order_cmp cmp" "sorted_entries cmp xs"
  shows "set (sl_insert cmp k v xs) = insert (k, v) {(k', v')\<in>set xs. cmp k k' \<noteq> 0}"
  using assms(2)
proof (induction xs)
  case (Cons x xs)
  obtain a b where x: "x = (a, b)" by (cases x)
  have *: "cmp k k' < 0" if "(k', v') \<in> set xs" "cmp k a \<le> 0" for k' v'
    using order_cmp_le_trans[OF assms(1) that(2), of k'] that(1) Cons.prems x by auto
  consider "cmp k a < 0" | "cmp k a = 0" | "0 < cmp k a" by linarith
  then show ?case
  proof cases
    case 3
    then show ?thesis using Cons x by auto
  qed (use Cons.prems x * in \<open>force+\<close>)
qed simp

lemma sl_insert_sorted:
  assumes "order_cmp cmp" "sorted_entries cmp xs"
  shows "sorted_entries cmp (sl_insert cmp k v xs)"
  using assms(2)
proof (induction xs)
  case (Cons x xs)
  obtain a b where x: "x = (a, b)" by (cases x)
  have a: "\<And>k' v'. (k', v') \<in> set xs \<Longrightarrow> cmp a k' < 0" using Cons.prems x by auto
  consider "cmp k a < 0" | "cmp k a = 0" | "0 < cmp k a" by linarith
  then show ?case
  proof cases
    case 3
    then have "cmp a k < 0" using assms(1) unfolding order_cmp_def by blast
    then show ?thesis using Cons 3 x sl_insert_set[OF assms(1), of xs k v] by auto
  qed (use Cons.prems x a order_cmp_le_trans[OF assms(1), of k a] in auto)
qed simp

lemma sorted_entries_filter: "sorted_entries cmp xs \<Longrightarrow> sorted_entries cmp (filter P xs)"
  by (induction xs) auto

lemma sl_rbt_laws: "order_cmp cmp \<Longrightarrow> rbt_laws cmp (sorted_entries cmp) id (sl_rbt cmp)"
  unfolding rbt_laws_def sl_rbt_def
  by (auto simp: sl_insert_set sl_insert_sorted sorted_entries_filter split: list.split)

section \<open>Hash maps\<close>

text \<open>\<^verbatim>\<open>PARCHashMap\<close>: putting replaces the value of a present key; the key iterator visits every key once.\<close>

record ('t, 'k, 'v) hm_ops =
  hm_Create :: 't
  hm_Put :: "'t \<Rightarrow> 'k \<Rightarrow> 'v \<Rightarrow> 't"
  hm_Get :: "'t \<Rightarrow> 'k \<Rightarrow> 'v option"
  hm_Contains :: "'t \<Rightarrow> 'k \<Rightarrow> bool"
  hm_Remove :: "'t \<Rightarrow> 'k \<Rightarrow> 't"
  hm_Keys :: "'t \<Rightarrow> 'k list"

definition hm_laws :: "('t, 'k, 'v) hm_ops \<Rightarrow> bool" where
  "hm_laws M \<longleftrightarrow>
     (\<forall>k. hm_Get M (hm_Create M) k = None) \<and>
     (\<forall>t k v k'. hm_Get M (hm_Put M t k v) k' = (if k = k' then Some v else hm_Get M t k')) \<and>
     (\<forall>t k k'. hm_Get M (hm_Remove M t k) k' = (if k = k' then None else hm_Get M t k')) \<and>
     (\<forall>t k. hm_Contains M t k \<longleftrightarrow> hm_Get M t k \<noteq> None) \<and>
     (\<forall>t. distinct (hm_Keys M t) \<and> set (hm_Keys M t) = {k. hm_Get M t k \<noteq> None})"

lemma hm_lawsD:
  assumes "hm_laws M"
  shows "hm_Get M (hm_Create M) k = None" "hm_Get M (hm_Put M t k v) k' = (if k = k' then Some v else hm_Get M t k')"
    "hm_Get M (hm_Remove M t k) k' = (if k = k' then None else hm_Get M t k')" "hm_Contains M t k \<longleftrightarrow> hm_Get M t k \<noteq> None"
    "distinct (hm_Keys M t)" "set (hm_Keys M t) = {k. hm_Get M t k \<noteq> None}"
  using assms unfolding hm_laws_def by auto

text \<open>Association lists as hash maps.\<close>

definition al_hm :: "(('k \<times> 'v) list, 'k, 'v) hm_ops" where
  "al_hm = \<lparr>hm_Create = [], hm_Put = (\<lambda>t k v. (k, v) # filter (\<lambda>(k', v'). k' \<noteq> k) t), hm_Get = map_of,
     hm_Contains = (\<lambda>t k. map_of t k \<noteq> None), hm_Remove = (\<lambda>t k. filter (\<lambda>(k', v'). k' \<noteq> k) t),
     hm_Keys = (\<lambda>t. remdups (map fst t))\<rparr>"

lemma map_of_filter_key: "map_of (filter (\<lambda>(k', v'). k' \<noteq> k) t) k' = (if k = k' then None else map_of t k')"
  by (induction t) auto

lemma al_hm_laws: "hm_laws (al_hm :: (('k \<times> 'v) list, 'k, 'v) hm_ops)"
proof -
  have "set (remdups (map fst t)) = {k. map_of t k \<noteq> None}" for t :: "('k \<times> 'v) list"
    unfolding map_of_eq_None_iff by simp
  then show ?thesis by (simp add: hm_laws_def al_hm_def map_of_filter_key)
qed

end
