(* ===== verification/ConnectionTable.thy ===== *)
theory ConnectionTable
  imports Connection Libparc
begin

text \<open>
  The connection table (\<^verbatim>\<open>hicn-light/src/hicn/core/connectionTable.c\<close>): connections stored by
  identifier in a hash table, indexed by address pair in a second one and listed in an ordered
  tree. The three containers are libparc's and their operations are the parameter \<open>C\<close>.
  Connections are shared by pointer; the table holds references into its store \<open>ct_heap\<close>.

  The lemmas show that the table behaves as a finite map from identifiers to connections, that the
  listing is complete and ordered, and when the index by address pair is exact.
\<close>

section \<open>State and operations\<close>

record ('i, 'p, 'l) ct_ops =
  ct_byId :: "('i, connid, nat) hct_ops"
  ct_byPair :: "('p, AddressPair, nat) hct_ops"
  ct_byOrder :: "('l, connid, nat) rbt_ops"

record ('i, 'p, 'l) ConnectionTable =
  storageTableById :: 'i
  indexByAddressPair :: 'p
  listById :: 'l
  ct_heap :: "nat \<Rightarrow> Connection"
  ct_next :: nat

definition connectionTable_ConnectionIdEquals :: "connid \<Rightarrow> connid \<Rightarrow> bool" where
  "connectionTable_ConnectionIdEquals idA idB = (idA = idB)"

definition connectionTable_ConnectionIdCompare :: "connid \<Rightarrow> connid \<Rightarrow> int" where
  "connectionTable_ConnectionIdCompare idA idB = (if idA < idB then -1 else if idA > idB then 1 else 0)"

definition connectionTable_AddressPairEquals :: "AddressPair \<Rightarrow> AddressPair \<Rightarrow> bool" where
  "connectionTable_AddressPairEquals pairA pairB = addressPair_Equals pairA pairB"

definition connectionTable_Create :: "('i, 'p, 'l) ct_ops \<Rightarrow> ('i, 'p, 'l) ConnectionTable" where
  "connectionTable_Create C =
     \<lparr>storageTableById = hct_Create (ct_byId C), indexByAddressPair = hct_Create (ct_byPair C),
      listById = rbt_Create (ct_byOrder C), ct_heap = (\<lambda>_. undefined), ct_next = 0\<rparr>"

text \<open>The connection is placed at a fresh reference, the pointer the caller passes.\<close>

definition connectionTable_Add ::
  "('i, 'p, 'l) ct_ops \<Rightarrow> ('i, 'p, 'l) ConnectionTable \<Rightarrow> Connection \<Rightarrow> ('i, 'p, 'l) ConnectionTable res" where
  "connectionTable_Add C table connection =
     (let connectionIdKey = connection_GetConnectionId connection;
          ref = ct_next table;
          table = table\<lparr>ct_heap := (ct_heap table)(ref := connection), ct_next := ref + 1\<rparr>;
          (storage, added) = hct_Add (ct_byId C) (storageTableById table) connectionIdKey ref
      in if added
         then Inr (table\<lparr>storageTableById := storage,
                     indexByAddressPair := fst (hct_Add (ct_byPair C) (indexByAddressPair table) (connection_GetAddressPair connection) ref),
                     listById := rbt_Insert (ct_byOrder C) (listById table) connectionIdKey ref\<rparr>)
         else Inl TrapUnexpectedState)"

definition connectionTable_FindById ::
  "('i, 'p, 'l) ct_ops \<Rightarrow> ('i, 'p, 'l) ConnectionTable \<Rightarrow> connid \<Rightarrow> nat option" where
  "connectionTable_FindById C table id' = hct_Get (ct_byId C) (storageTableById table) id'"

definition connectionTable_FindByAddressPair ::
  "('i, 'p, 'l) ct_ops \<Rightarrow> ('i, 'p, 'l) ConnectionTable \<Rightarrow> AddressPair \<Rightarrow> nat option" where
  "connectionTable_FindByAddressPair C table pair = hct_Get (ct_byPair C) (indexByAddressPair table) pair"

text \<open>Deleting from the storage table releases the connection that is stored there.\<close>

definition connectionTable_ConnectionDestroyer ::
  "('i, 'p, 'l) ConnectionTable \<Rightarrow> world \<Rightarrow> nat \<Rightarrow> (('i, 'p, 'l) ConnectionTable \<times> world) res" where
  "connectionTable_ConnectionDestroyer table w ref =
     bind_res (connection_Release (ct_heap table ref) w) (\<lambda>(conn, w).
     Inr (case conn of None \<Rightarrow> table | Some conn \<Rightarrow> table\<lparr>ct_heap := (ct_heap table)(ref := conn)\<rparr>, w))"

definition connectionTable_Remove ::
  "('i, 'p, 'l) ct_ops \<Rightarrow> ('i, 'p, 'l) ConnectionTable \<Rightarrow> world \<Rightarrow> nat \<Rightarrow> (('i, 'p, 'l) ConnectionTable \<times> world) res" where
  "connectionTable_Remove C table w ref =
     (let connection = ct_heap table ref;
          connid = connection_GetConnectionId connection;
          stored = hct_Get (ct_byId C) (storageTableById table) connid;
          table = table\<lparr>listById := rbt_Remove (ct_byOrder C) (listById table) connid,
                    indexByAddressPair := hct_Del (ct_byPair C) (indexByAddressPair table) (connection_GetAddressPair connection),
                    storageTableById := hct_Del (ct_byId C) (storageTableById table) connid\<rparr>
      in case stored of None \<Rightarrow> Inr (table, w) | Some r \<Rightarrow> connectionTable_ConnectionDestroyer table w r)"

definition connectionTable_RemoveById ::
  "('i, 'p, 'l) ct_ops \<Rightarrow> ('i, 'p, 'l) ConnectionTable \<Rightarrow> world \<Rightarrow> connid \<Rightarrow> (('i, 'p, 'l) ConnectionTable \<times> world) res" where
  "connectionTable_RemoveById C table w id' =
     (case connectionTable_FindById C table id' of
        None \<Rightarrow> Inr (table, w)
      | Some connection \<Rightarrow> connectionTable_Remove C table w connection)"

text \<open>The list of references, in the order of \<^verbatim>\<open>parcTreeRedBlack_Values\<close>. The reference counts the list holds until it is destroyed are not modelled.\<close>

definition connectionTable_GetEntries :: "('i, 'p, 'l) ct_ops \<Rightarrow> ('i, 'p, 'l) ConnectionTable \<Rightarrow> nat list" where
  "connectionTable_GetEntries C table = rbt_Values (ct_byOrder C) (listById table)"

section \<open>The invariant\<close>

definition ct_ops_ok :: "('l \<Rightarrow> bool) \<Rightarrow> ('l \<Rightarrow> (connid \<times> nat) list) \<Rightarrow> ('i, 'p, 'l) ct_ops \<Rightarrow> bool" where
  "ct_ops_ok ok entries C \<longleftrightarrow>
     hct_laws (\<lambda>_. True) connectionTable_ConnectionIdEquals (ct_byId C) \<and>
     hct_laws (\<lambda>_. True) connectionTable_AddressPairEquals (ct_byPair C) \<and>
     rbt_laws connectionTable_ConnectionIdCompare ok entries (ct_byOrder C)"

text \<open>
  The references of the storage table are allocated and filed under the identifier of their
  connection, the tree has the same pairs, and the index leads to stored connections with that pair.
\<close>

definition ct_inv ::
  "('l \<Rightarrow> bool) \<Rightarrow> ('l \<Rightarrow> (connid \<times> nat) list) \<Rightarrow> ('i, 'p, 'l) ct_ops \<Rightarrow> ('i, 'p, 'l) ConnectionTable \<Rightarrow> bool" where
  "ct_inv ok entries C t \<longleftrightarrow>
     (\<forall>i ref. connectionTable_FindById C t i = Some ref \<longrightarrow>
        ref < ct_next t \<and> connection_GetConnectionId (ct_heap t ref) = i \<and> 0 < conn_refCount (ct_heap t ref)) \<and>
     ok (listById t) \<and> set (entries (listById t)) = {(i, ref). connectionTable_FindById C t i = Some ref} \<and>
     (\<forall>p ref. connectionTable_FindByAddressPair C t p = Some ref \<longrightarrow>
        connection_GetAddressPair (ct_heap t ref) = p \<and>
        connectionTable_FindById C t (connection_GetConnectionId (ct_heap t ref)) = Some ref)"

text \<open>The index is exact: every stored connection is found by its address pair.\<close>

definition ct_indexed :: "('i, 'p, 'l) ct_ops \<Rightarrow> ('i, 'p, 'l) ConnectionTable \<Rightarrow> bool" where
  "ct_indexed C t \<longleftrightarrow> (\<forall>i ref. connectionTable_FindById C t i = Some ref \<longrightarrow>
     connectionTable_FindByAddressPair C t (connection_GetAddressPair (ct_heap t ref)) = Some ref)"

definition ct_lookup :: "('i, 'p, 'l) ct_ops \<Rightarrow> ('i, 'p, 'l) ConnectionTable \<Rightarrow> connid \<Rightarrow> Connection option" where
  "ct_lookup C t i = map_option (ct_heap t) (connectionTable_FindById C t i)"

lemma ct_laws:
  assumes "ct_ops_ok ok entries C"
  shows "hct_Get (ct_byId C) (hct_Create (ct_byId C)) i = None"
    "hct_Get (ct_byId C) (fst (hct_Add (ct_byId C) s i r)) i' =
       (if i = i' \<and> hct_Get (ct_byId C) s i = None then Some r else hct_Get (ct_byId C) s i')"
    "snd (hct_Add (ct_byId C) s i r) = (hct_Get (ct_byId C) s i = None)"
    "hct_Get (ct_byId C) (hct_Del (ct_byId C) s i) i' = (if i = i' then None else hct_Get (ct_byId C) s i')"
    "hct_Get (ct_byPair C) (hct_Create (ct_byPair C)) p = None"
    "hct_Get (ct_byPair C) (fst (hct_Add (ct_byPair C) x p r)) p' =
       (if p = p' \<and> hct_Get (ct_byPair C) x p = None then Some r else hct_Get (ct_byPair C) x p')"
    "hct_Get (ct_byPair C) (hct_Del (ct_byPair C) x p) p' = (if p = p' then None else hct_Get (ct_byPair C) x p')"
  using assms unfolding ct_ops_ok_def hct_laws_def connectionTable_ConnectionIdEquals_def connectionTable_AddressPairEquals_def
  by simp_all

lemma id_compare_eq [simp]: "connectionTable_ConnectionIdCompare a b = 0 \<longleftrightarrow> a = b"
  "connectionTable_ConnectionIdCompare a b < 0 \<longleftrightarrow> a < b"
  by (auto simp: connectionTable_ConnectionIdCompare_def)

lemma ct_tree_laws:
  assumes "ct_ops_ok ok entries C"
  shows "ok (rbt_Create (ct_byOrder C))" "entries (rbt_Create (ct_byOrder C)) = []"
    "ok t \<Longrightarrow> ok (rbt_Insert (ct_byOrder C) t i r)"
    "ok t \<Longrightarrow> set (entries (rbt_Insert (ct_byOrder C) t i r)) = insert (i, r) {(i', r')\<in>set (entries t). i \<noteq> i'}"
    "ok t \<Longrightarrow> ok (rbt_Remove (ct_byOrder C) t i)"
    "ok t \<Longrightarrow> set (entries (rbt_Remove (ct_byOrder C) t i)) = {(i', r')\<in>set (entries t). i \<noteq> i'}"
    "ok t \<Longrightarrow> rbt_Values (ct_byOrder C) t = map snd (entries t)"
    "ok t \<Longrightarrow> sorted_entries connectionTable_ConnectionIdCompare (entries t)"
  using assms unfolding ct_ops_ok_def rbt_laws_def by auto

lemmas ct_defs = connectionTable_FindById_def connectionTable_FindByAddressPair_def

lemma connectionTable_Create_inv:
  assumes "ct_ops_ok ok entries C"
  shows "ct_inv ok entries C (connectionTable_Create C)" "ct_indexed C (connectionTable_Create C)"
    "ct_lookup C (connectionTable_Create C) i = None"
  using ct_laws[OF assms] ct_tree_laws[OF assms]
  by (simp_all add: ct_inv_def ct_indexed_def ct_lookup_def connectionTable_Create_def ct_defs)

lemma ct_invD:
  assumes "ct_inv ok entries C t"
  shows "\<And>i ref. connectionTable_FindById C t i = Some ref \<Longrightarrow> ref < ct_next t"
    "\<And>i ref. connectionTable_FindById C t i = Some ref \<Longrightarrow> connection_GetConnectionId (ct_heap t ref) = i"
    "\<And>i ref. connectionTable_FindById C t i = Some ref \<Longrightarrow> 0 < conn_refCount (ct_heap t ref)"
    "ok (listById t)" "set (entries (listById t)) = {(i, ref). connectionTable_FindById C t i = Some ref}"
    "\<And>p ref. connectionTable_FindByAddressPair C t p = Some ref \<Longrightarrow> connection_GetAddressPair (ct_heap t ref) = p"
    "\<And>p ref. connectionTable_FindByAddressPair C t p = Some ref \<Longrightarrow>
       connectionTable_FindById C t (connection_GetConnectionId (ct_heap t ref)) = Some ref"
  using assms unfolding ct_inv_def by blast+

lemma connectionTable_Add_find:
  assumes C: "ct_ops_ok ok entries C" and new: "connectionTable_FindById C t (connection_GetConnectionId conn) = None"
  shows "\<exists>t'. connectionTable_Add C t conn = Inr t' \<and>
    ct_heap t' = (ct_heap t)(ct_next t := conn) \<and> ct_next t' = Suc (ct_next t) \<and>
    (\<forall>i. connectionTable_FindById C t' i =
       (if i = connection_GetConnectionId conn then Some (ct_next t) else connectionTable_FindById C t i)) \<and>
    (\<forall>p. connectionTable_FindByAddressPair C t' p =
       (if p = connection_GetAddressPair conn \<and> connectionTable_FindByAddressPair C t p = None then Some (ct_next t)
        else connectionTable_FindByAddressPair C t p)) \<and>
    listById t' = rbt_Insert (ct_byOrder C) (listById t) (connection_GetConnectionId conn) (ct_next t)"
proof -
  let ?i = "connection_GetConnectionId conn"
  have "snd (hct_Add (ct_byId C) (storageTableById t) ?i (ct_next t))"
    using new ct_laws(3)[OF C] by (simp add: ct_defs)
  moreover have "hct_Get (ct_byId C) (fst (hct_Add (ct_byId C) (storageTableById t) ?i (ct_next t))) i =
      (if i = ?i then Some (ct_next t) else connectionTable_FindById C t i)" for i
    using new ct_laws(2)[OF C] by (auto simp: ct_defs)
  ultimately show ?thesis using ct_laws(6)[OF C]
    by (cases "hct_Add (ct_byId C) (storageTableById t) ?i (ct_next t)")
      (auto simp: connectionTable_Add_def Let_def ct_defs)
qed

lemma connectionTable_Add_ok:
  assumes C: "ct_ops_ok ok entries C" and inv: "ct_inv ok entries C t" and conn: "0 < conn_refCount conn"
    and new: "ct_lookup C t (connection_GetConnectionId conn) = None"
  shows "\<exists>t'. connectionTable_Add C t conn = Inr t' \<and> ct_inv ok entries C t' \<and>
    ct_lookup C t' = (ct_lookup C t)(connection_GetConnectionId conn \<mapsto> conn) \<and>
    (ct_indexed C t \<longrightarrow> connectionTable_FindByAddressPair C t (connection_GetAddressPair conn) = None \<longrightarrow> ct_indexed C t')"
proof -
  let ?i = "connection_GetConnectionId conn"
  have new': "connectionTable_FindById C t ?i = None" using new by (simp add: ct_lookup_def)
  obtain t' where t': "connectionTable_Add C t conn = Inr t'" "ct_heap t' = (ct_heap t)(ct_next t := conn)" "ct_next t' = Suc (ct_next t)"
    and id: "\<And>i. connectionTable_FindById C t' i = (if i = ?i then Some (ct_next t) else connectionTable_FindById C t i)"
    and pair: "\<And>p. connectionTable_FindByAddressPair C t' p =
       (if p = connection_GetAddressPair conn \<and> connectionTable_FindByAddressPair C t p = None then Some (ct_next t)
        else connectionTable_FindByAddressPair C t p)"
    and tree: "listById t' = rbt_Insert (ct_byOrder C) (listById t) ?i (ct_next t)"
    using connectionTable_Add_find[OF C new'] by blast
  note i = ct_invD[OF inv]
  have old: "ref \<noteq> ct_next t" if "connectionTable_FindById C t j = Some ref" for j ref using i(1)[OF that] by simp
  have old': "ref \<noteq> ct_next t" if "connectionTable_FindByAddressPair C t p = Some ref" for p ref using old i(7)[OF that] by blast
  have "set (entries (listById t')) = {(i, ref). connectionTable_FindById C t' i = Some ref}"
    using ct_tree_laws(4)[OF C i(4)] i(5) new' by (auto simp: tree id split: if_splits)
  moreover have "ok (listById t')" using ct_tree_laws(3)[OF C i(4)] by (simp add: tree)
  moreover have "ref < ct_next t' \<and> connection_GetConnectionId (ct_heap t' ref) = j \<and> 0 < conn_refCount (ct_heap t' ref)"
    if "connectionTable_FindById C t' j = Some ref" for j ref
    using that i(1-3)[of j ref] old[of j ref] conn by (auto simp: id t' split: if_splits)
  moreover have "connection_GetAddressPair (ct_heap t' ref) = p \<and>
      connectionTable_FindById C t' (connection_GetConnectionId (ct_heap t' ref)) = Some ref"
    if p: "connectionTable_FindByAddressPair C t' p = Some ref" for p ref
  proof (cases "p = connection_GetAddressPair conn \<and> connectionTable_FindByAddressPair C t p = None")
    case False
    then have f: "connectionTable_FindByAddressPair C t p = Some ref" using p pair[of p] by (simp split: if_splits)
    then have "connection_GetConnectionId (ct_heap t ref) \<noteq> ?i" using i(7)[OF f] new' by auto
    then show ?thesis using i(6,7)[OF f] old'[OF f] by (simp add: id t')
  next
    case True
    then have "connectionTable_FindByAddressPair C t' p = Some (ct_next t)" unfolding pair by (rule if_P)
    then have "ref = ct_next t" using p by simp
    then show ?thesis using True by (simp add: id t')
  qed
  ultimately have "ct_inv ok entries C t'" unfolding ct_inv_def by blast
  note inv' = this
  have look: "ct_lookup C t' = (ct_lookup C t)(?i \<mapsto> conn)"
  proof
    fix j show "ct_lookup C t' j = ((ct_lookup C t)(?i \<mapsto> conn)) j"
      using old[of j] by (cases "connectionTable_FindById C t j") (auto simp: ct_lookup_def id t')
  qed
  have ind: "ct_indexed C t'" if ix: "ct_indexed C t" "connectionTable_FindByAddressPair C t (connection_GetAddressPair conn) = None"
  proof -
    have "connectionTable_FindByAddressPair C t' (connection_GetAddressPair (ct_heap t' ref)) = Some ref"
      if f: "connectionTable_FindById C t' j = Some ref" for j ref
    proof (cases "j = ?i")
      case False
      then have f': "connectionTable_FindById C t j = Some ref" using f by (simp add: id)
      then show ?thesis using ix(1) old[OF f'] by (auto simp: pair t' ct_indexed_def)
    qed (use f ix(2) in \<open>simp add: id pair t'\<close>)
    then show ?thesis unfolding ct_indexed_def by blast
  qed
  show ?thesis by (intro exI[of _ t'] conjI impI) (fact t'(1) inv' look | erule (1) ind)+
qed

lemma connectionTable_Remove_find:
  assumes C: "ct_ops_ok ok entries C" and inv: "ct_inv ok entries C t"
    and ref: "connectionTable_FindById C t i = Some ref" and rel: "connection_Release (ct_heap t ref) w = Inr (c', w')"
  shows "\<exists>t'. connectionTable_RemoveById C t w i = Inr (t', w') \<and> (\<forall>r. r \<noteq> ref \<longrightarrow> ct_heap t' r = ct_heap t r) \<and> ct_next t' = ct_next t \<and>
    (\<forall>j. connectionTable_FindById C t' j = (if j = i then None else connectionTable_FindById C t j)) \<and>
    (\<forall>p. connectionTable_FindByAddressPair C t' p =
      (if p = connection_GetAddressPair (ct_heap t ref) then None else connectionTable_FindByAddressPair C t p)) \<and>
    listById t' = rbt_Remove (ct_byOrder C) (listById t) i"
proof -
  let ?t = "t\<lparr>listById := rbt_Remove (ct_byOrder C) (listById t) i,
              indexByAddressPair := hct_Del (ct_byPair C) (indexByAddressPair t) (connection_GetAddressPair (ct_heap t ref)),
              storageTableById := hct_Del (ct_byId C) (storageTableById t) i,
              ct_heap := case c' of None \<Rightarrow> ct_heap t | Some c \<Rightarrow> (ct_heap t)(ref := c)\<rparr>"
  have "connectionTable_RemoveById C t w i = Inr (?t, w')"
    using ref rel ct_invD(2)[OF inv ref] by (cases c')
      (simp_all add: connectionTable_RemoveById_def connectionTable_Remove_def connectionTable_ConnectionDestroyer_def ct_defs Let_def)
  moreover have "\<forall>r. r \<noteq> ref \<longrightarrow> ct_heap ?t r = ct_heap t r" by (simp split: option.split)
  ultimately show ?thesis using ct_laws(4,7)[OF C] by (auto simp: ct_defs intro!: exI[of _ ?t])
qed

lemma connectionTable_Remove_ok:
  assumes C: "ct_ops_ok ok entries C" and inv: "ct_inv ok entries C t"
    and ref: "connectionTable_FindById C t i = Some ref" and rel: "connection_Release (ct_heap t ref) w = Inr (c', w')"
  shows "\<exists>t'. connectionTable_RemoveById C t w i = Inr (t', w') \<and> ct_inv ok entries C t' \<and>
    ct_lookup C t' = (ct_lookup C t)(i := None) \<and>
    (\<forall>p. connectionTable_FindByAddressPair C t' p =
      (if p = connection_GetAddressPair (ct_heap t ref) then None else connectionTable_FindByAddressPair C t p)) \<and>
    (ct_indexed C t \<longrightarrow> ct_indexed C t')"
proof -
  note k = ct_invD[OF inv]
  let ?p = "connection_GetAddressPair (ct_heap t ref)"
  obtain t' where t': "connectionTable_RemoveById C t w i = Inr (t', w')" "\<And>r. r \<noteq> ref \<Longrightarrow> ct_heap t' r = ct_heap t r" "ct_next t' = ct_next t"
    and id: "\<And>j. connectionTable_FindById C t' j = (if j = i then None else connectionTable_FindById C t j)"
    and pair: "\<And>p. connectionTable_FindByAddressPair C t' p = (if p = ?p then None else connectionTable_FindByAddressPair C t p)"
    and tree: "listById t' = rbt_Remove (ct_byOrder C) (listById t) i"
    using connectionTable_Remove_find[OF assms] by blast
  have same: "ct_heap t' r = ct_heap t r" "r \<noteq> ref" if "connectionTable_FindById C t j = Some r" "j \<noteq> i" for j r
    using t'(2)[of r] k(2)[OF that(1)] k(2)[OF ref] that(2) by auto
  have sp: "ct_heap t' r = ct_heap t r" "connection_GetConnectionId (ct_heap t r) \<noteq> i"
    if "connectionTable_FindByAddressPair C t p = Some r" "p \<noteq> ?p" for p r
    using t'(2)[of r] k(6,7)[OF that(1)] that(2) ref by auto
  have 1: "set (entries (listById t')) = {(j, r). connectionTable_FindById C t' j = Some r}" "ok (listById t')"
    using ct_tree_laws(5,6)[OF C k(4)] k(5) by (auto simp: id tree split: if_splits)
  have 2: "r < ct_next t' \<and> connection_GetConnectionId (ct_heap t' r) = j \<and> 0 < conn_refCount (ct_heap t' r)"
    if "connectionTable_FindById C t' j = Some r" for j r
    using that k(1-3)[of j r] same[of j r] t'(3) by (auto simp: id split: if_splits)
  have 3: "connection_GetAddressPair (ct_heap t' r) = p \<and>
      connectionTable_FindById C t' (connection_GetConnectionId (ct_heap t' r)) = Some r"
    if "connectionTable_FindByAddressPair C t' p = Some r" for p r
    using that sp[of p r] k(6,7)[of p r] by (auto simp: id pair split: if_splits)
  have "ct_inv ok entries C t'" using 1 2 3 unfolding ct_inv_def by blast
  moreover have "ct_lookup C t' j = ((ct_lookup C t)(i := None)) j" for j
    using same[of j] id[of j] by (cases "connectionTable_FindById C t j") (auto simp: ct_lookup_def)
  moreover have "ct_indexed C t'" if ix: "ct_indexed C t"
  proof -
    have "connectionTable_FindByAddressPair C t ?p = Some ref" using ix ref unfolding ct_indexed_def by blast
    moreover have "connectionTable_FindByAddressPair C t (connection_GetAddressPair (ct_heap t r)) = Some r"
      if "connectionTable_FindById C t j = Some r" for j r using ix that unfolding ct_indexed_def by blast
    ultimately have "connectionTable_FindByAddressPair C t' (connection_GetAddressPair (ct_heap t' r)) = Some r"
      if "connectionTable_FindById C t' j = Some r" for j r
      using that same[of j r] by (fastforce simp: id pair split: if_splits)
    then show ?thesis unfolding ct_indexed_def by blast
  qed
  ultimately show ?thesis using t'(1) pair by blast
qed

section \<open>Properties\<close>


definition ex_ct_ops :: "((connid \<times> nat) list, (AddressPair \<times> nat) list, (connid \<times> nat) list) ct_ops" where
  "ex_ct_ops = \<lparr>ct_byId = al_hct connectionTable_ConnectionIdEquals, ct_byPair = al_hct connectionTable_AddressPairEquals,
     ct_byOrder = sl_rbt connectionTable_ConnectionIdCompare\<rparr>"

lemma ex_ct_ops_ok: "ct_ops_ok (sorted_entries connectionTable_ConnectionIdCompare) id ex_ct_ops"
proof -
  have "order_cmp connectionTable_ConnectionIdCompare"
    unfolding order_cmp_def by (auto simp: connectionTable_ConnectionIdCompare_def)
  moreover have "equivalence_on (\<lambda>_. True) connectionTable_ConnectionIdEquals" "equivalence_on (\<lambda>_. True) connectionTable_AddressPairEquals"
    by (auto simp: equivalence_on_def connectionTable_ConnectionIdEquals_def connectionTable_AddressPairEquals_def symp_def transp_def)
  ultimately show ?thesis by (simp add: ct_ops_ok_def ex_ct_ops_def al_hct_laws sl_rbt_laws)
qed


text \<open>
  The list of connections has every registered connection exactly once, in increasing order of identifiers.
\<close>

theorem connectionTable_GetEntries_complete:
  assumes C: "ct_ops_ok ok entries C" and inv: "ct_inv ok entries C t"
  defines "conns \<equiv> map (ct_heap t) (connectionTable_GetEntries C t)"
  shows "sorted_wrt (<) (map connection_GetConnectionId conns) \<and> set conns = ran (ct_lookup C t)"
proof -
  note k = ct_invD[OF inv] and l = ct_tree_laws(7,8)[OF C ct_invD(4)[OF inv]]
  let ?es = "entries (listById t)"
  have conns: "conns = map (\<lambda>(i, r). ct_heap t r) ?es"
    by (simp add: conns_def connectionTable_GetEntries_def l(1) comp_def case_prod_unfold)
  have ids: "map connection_GetConnectionId conns = map fst ?es"
    using k(2,5) by (auto simp: conns)
  have "sorted_wrt (<) (map fst xs)" if "sorted_entries connectionTable_ConnectionIdCompare xs" for xs :: "(connid \<times> nat) list"
    using that by (induction xs) (auto split: prod.splits)
  moreover have "set conns = ran (ct_lookup C t)"
    using k(5) by (auto simp: conns ran_def ct_lookup_def image_iff)
  ultimately show ?thesis using l(2) ids by simp
qed

theorem connectionTable_GetEntries_complete_witness:
  "map (ct_heap (connectionTable_Create ex_ct_ops)) (connectionTable_GetEntries ex_ct_ops (connectionTable_Create ex_ct_ops)) = []"
proof -
  have "ran (ct_lookup ex_ct_ops (connectionTable_Create ex_ct_ops)) = {}"
    by (auto simp: ran_def connectionTable_Create_inv(3)[OF ex_ct_ops_ok])
  then show ?thesis
    using connectionTable_GetEntries_complete[OF ex_ct_ops_ok connectionTable_Create_inv(1)[OF ex_ct_ops_ok]] by simp
qed

text \<open>
  A shared address pair breaks the index: when two registered connections have the same address
  pair, removing either leaves the other one registered but not found by its address pair.
\<close>

theorem connectionTable_shared_pair:
  assumes C: "ct_ops_ok ok entries C" and inv: "ct_inv ok entries C t"
    and two: "ct_lookup C t i = Some c" "ct_lookup C t j = Some d" "i \<noteq> j" "connection_GetAddressPair c = connection_GetAddressPair d"
    and rel: "connection_Release c w = Inr (c', w')"
  shows "\<exists>t'. connectionTable_RemoveById C t w i = Inr (t', w') \<and> ct_lookup C t' j = Some d \<and>
    connectionTable_FindByAddressPair C t' (connection_GetAddressPair d) = None"
proof -
  obtain ref where ref: "connectionTable_FindById C t i = Some ref" "c = ct_heap t ref" using two(1) by (auto simp: ct_lookup_def)
  show ?thesis using connectionTable_Remove_ok[OF C inv ref(1) rel[unfolded ref(2)]] two(2-4) ref(2) by auto
qed

theorem connectionTable_shared_pair_witness:
  "\<exists>t t' w'. connectionTable_RemoveById ex_ct_ops t ex_world 5 = Inr (t', w') \<and> ct_lookup ex_ct_ops t' 6 \<noteq> None \<and>
     connectionTable_FindByAddressPair ex_ct_ops t' (connection_GetAddressPair ex_conn) = None"
proof -
  let ?d = "connection_Create (ex_io\<lparr>io_connectionId := 6\<rparr>)"
  note fields = ex_conn_def connection_Create_def connection_SetAdminState_def connection_GetConnectionId_def
    connection_GetAddressPair_def ex_io_def
  have c: "0 < conn_refCount ex_conn" "connection_GetConnectionId ex_conn = 5" "0 < conn_refCount ?d" "connection_GetConnectionId ?d = 6"
    "connection_GetAddressPair ex_conn = connection_GetAddressPair ?d" by (simp_all add: fields)
  obtain t where t: "ct_inv (sorted_entries connectionTable_ConnectionIdCompare) id ex_ct_ops t"
    "ct_lookup ex_ct_ops t = (ct_lookup ex_ct_ops (connectionTable_Create ex_ct_ops))(5 \<mapsto> ex_conn)"
    using connectionTable_Add_ok[OF ex_ct_ops_ok connectionTable_Create_inv(1)[OF ex_ct_ops_ok] c(1)]
      connectionTable_Create_inv(3)[OF ex_ct_ops_ok] c(2) by auto
  obtain t2 where t2: "ct_inv (sorted_entries connectionTable_ConnectionIdCompare) id ex_ct_ops t2"
    "ct_lookup ex_ct_ops t2 = (ct_lookup ex_ct_ops t)(6 \<mapsto> ?d)"
    using connectionTable_Add_ok[OF ex_ct_ops_ok t(1) c(3)] t(2) connectionTable_Create_inv(3)[OF ex_ct_ops_ok] c(4) by auto
  have "connection_Release ex_conn ex_world = Inr (None, ex_world)" by (simp add: connection_Release_def fields)
  from connectionTable_shared_pair[OF ex_ct_ops_ok t2(1) _ _ _ c(5) this, of 5 6] t2(2) t(2) c(5)
  show ?thesis by auto
qed

end
