(* ===== verification/Pit.thy ===== *)
theory Pit
  imports Libparc NumberSet Message Connection
begin

text \<open>
  The pending interest table (\<^verbatim>\<open>hicn-light/src/hicn/processor/pitStandard.c\<close>, \<^verbatim>\<open>pitEntry.c\<close>, the
  dispatching functions of \<^verbatim>\<open>pit.c\<close> and the key functions of \<^verbatim>\<open>hashTableFunction.c\<close>). An entry
  collects the connections that asked for a name and those the interest went out on, with an
  expiry time.

  The table is a \<^verbatim>\<open>PARCHashCodeTable\<close> keyed by message name; its operations are the parameter \<open>T\<close>.
  Entries are shared by pointer with the message processor, so the table maps names to references
  into a store of entries. The two calls into the FIB entry of a PIT entry are parameters too
  (\<open>on_timeout\<close> and \<open>receive_object\<close>, over the store \<open>'f\<close> of FIB entries); the message processor
  supplies \<^verbatim>\<open>fibEntry_OnTimeout\<close> and \<^verbatim>\<open>fibEntry_ReceiveObjectMessage\<close>. One \<open>now\<close> stands for the clock
  during a call. Releasing an entry is memory management and is reduced to removing it from the table.

  The lemmas show the verdict and the new table for every case of an arriving interest, that data is
  returned to exactly the connections that asked for it, that it consumes the entry, and that other
  names are never affected.
\<close>

section \<open>Entries\<close>

text \<open>\<open>pe_name\<close> is the name of the stored message, which no operation on messages changes.\<close>

record PitEntry =
  pe_message :: mref
  pe_name :: "Name option"
  ingressIdSet :: NumberSet
  egressIdSet :: NumberSet
  pe_fibEntry :: "nat option"
  creationTime :: ticks
  expiryTime :: ticks
  pe_refcount :: u32

definition pitEntry_Create :: "mref \<Rightarrow> Message \<Rightarrow> ticks \<Rightarrow> ticks \<Rightarrow> PitEntry" where
  "pitEntry_Create r message expiry creation =
     \<lparr>pe_message = r, pe_name = message_GetName message,
      ingressIdSet = fst (numberSet_Add numberSet_Create (message_GetIngressConnectionId message)),
      egressIdSet = numberSet_Create, pe_fibEntry = None, creationTime = creation, expiryTime = expiry, pe_refcount = 1\<rparr>"

definition pitEntry_Acquire :: "PitEntry \<Rightarrow> PitEntry" where
  "pitEntry_Acquire e = e\<lparr>pe_refcount := pe_refcount e + 1\<rparr>"

definition pitEntry_AddIngressId :: "PitEntry \<Rightarrow> connid \<Rightarrow> PitEntry" where
  "pitEntry_AddIngressId e ingressId = e\<lparr>ingressIdSet := fst (numberSet_Add (ingressIdSet e) ingressId)\<rparr>"

definition pitEntry_AddEgressId :: "PitEntry \<Rightarrow> connid \<Rightarrow> PitEntry" where
  "pitEntry_AddEgressId e egressId = e\<lparr>egressIdSet := fst (numberSet_Add (egressIdSet e) egressId)\<rparr>"

definition pitEntry_AddFibEntry :: "PitEntry \<Rightarrow> nat \<Rightarrow> PitEntry" where
  "pitEntry_AddFibEntry e fibEntry = (if pe_fibEntry e = None then e\<lparr>pe_fibEntry := Some fibEntry\<rparr> else e)"

definition pitEntry_GetFibEntry :: "PitEntry \<Rightarrow> nat option" where
  "pitEntry_GetFibEntry e = pe_fibEntry e"

definition pitEntry_GetExpiryTime :: "PitEntry \<Rightarrow> ticks" where
  "pitEntry_GetExpiryTime e = expiryTime e"

definition pitEntry_GetCreationTime :: "PitEntry \<Rightarrow> ticks" where
  "pitEntry_GetCreationTime e = creationTime e"

definition pitEntry_SetExpiryTime :: "PitEntry \<Rightarrow> ticks \<Rightarrow> PitEntry" where
  "pitEntry_SetExpiryTime e t = e\<lparr>expiryTime := t\<rparr>"

definition pitEntry_GetIngressSet :: "PitEntry \<Rightarrow> NumberSet" where
  "pitEntry_GetIngressSet e = ingressIdSet e"

definition pitEntry_GetEgressSet :: "PitEntry \<Rightarrow> NumberSet" where
  "pitEntry_GetEgressSet e = egressIdSet e"

section \<open>The table\<close>

datatype PITVerdict = PITVerdict_Forward | PITVerdict_Aggregate | PITVerdict_Retransmit

record 't StandardPIT =
  pit_table :: 't
  pit_heap :: "nat \<Rightarrow> PitEntry"
  pit_next :: nat

text \<open>The key of a message: a message without a name fails the assertion of the key functions.\<close>

definition message_key :: "Message \<Rightarrow> Name res" where
  "message_key m = (case message_GetName m of None \<Rightarrow> Inl AssertFailed | Some n \<Rightarrow> Inr n)"

definition hashTableFunction_MessageNameEquals :: "Name \<Rightarrow> Name \<Rightarrow> bool" where
  "hashTableFunction_MessageNameEquals a b = name_Equals a b"

definition pitStandard_Create :: "('t, Name, nat) hct_ops \<Rightarrow> 't StandardPIT" where
  "pitStandard_Create T = \<lparr>pit_table = hct_Create T, pit_heap = (\<lambda>_. undefined), pit_next = 0\<rparr>"

definition pit_IngressSetContains :: "PitEntry \<Rightarrow> connid \<Rightarrow> bool" where
  "pit_IngressSetContains e connectionId = numberSet_Contains (pitEntry_GetIngressSet e) connectionId"

definition pit_CalculateLifetime :: "ticks \<Rightarrow> Message \<Rightarrow> ticks" where
  "pit_CalculateLifetime now interestMessage =
     (let interestLifetimeTicks = message_GetInterestLifetimeTicks interestMessage;
          interestLifetimeTicks = (if interestLifetimeTicks = 0 then forwarder_NanosToTicks 4000000000 else interestLifetimeTicks)
      in now + interestLifetimeTicks)"

definition pit_StoreInTable ::
  "('t, Name, nat) hct_ops \<Rightarrow> ticks \<Rightarrow> 't StandardPIT \<Rightarrow> mref \<Rightarrow> Message \<Rightarrow> Name \<Rightarrow> 't StandardPIT" where
  "pit_StoreInTable T now pit r interestMessage key =
     (let expiry = pit_CalculateLifetime now interestMessage;
          pitEntry = pitEntry_Create r interestMessage expiry now
      in pit\<lparr>pit_table := fst (hct_Add T (pit_table pit) key (pit_next pit)),
             pit_heap := (pit_heap pit)(pit_next pit := pitEntry), pit_next := pit_next pit + 1\<rparr>)"

definition pit_ExtendLifetime :: "ticks \<Rightarrow> PitEntry \<Rightarrow> Message \<Rightarrow> PitEntry" where
  "pit_ExtendLifetime now pitEntry interestMessage =
     (let expiry = pit_CalculateLifetime now interestMessage in
      if expiry > pitEntry_GetExpiryTime pitEntry then pitEntry_SetExpiryTime pitEntry expiry else pitEntry)"

definition pit_set_entry :: "'t StandardPIT \<Rightarrow> nat \<Rightarrow> PitEntry \<Rightarrow> 't StandardPIT" where
  "pit_set_entry pit ref e = pit\<lparr>pit_heap := (pit_heap pit)(ref := e)\<rparr>"

definition pitStandard_ReceiveInterest ::
  "('t, Name, nat) hct_ops \<Rightarrow> ('f \<Rightarrow> nat \<Rightarrow> NumberSet \<Rightarrow> 'f res) \<Rightarrow> ticks \<Rightarrow> 't StandardPIT \<Rightarrow> 'f \<Rightarrow> mref \<Rightarrow> Message \<Rightarrow>
     (PITVerdict \<times> 't StandardPIT \<times> 'f) res" where
  "pitStandard_ReceiveInterest T on_timeout now pit f r interestMessage =
     bind_res (message_key interestMessage) (\<lambda>key.
     case hct_Get T (pit_table pit) key of
       Some ref \<Rightarrow>
         (let pitEntry = pit_heap pit ref in
          if now < pitEntry_GetExpiryTime pitEntry
          then (let pitEntry = pit_ExtendLifetime now pitEntry interestMessage in
                if pit_IngressSetContains pitEntry (message_GetIngressConnectionId interestMessage)
                then Inr (PITVerdict_Retransmit, pit_set_entry pit ref pitEntry, f)
                else Inr (PITVerdict_Aggregate,
                       pit_set_entry pit ref (pitEntry_AddIngressId pitEntry (message_GetIngressConnectionId interestMessage)), f))
          else bind_res (case pitEntry_GetFibEntry pitEntry of
                           None \<Rightarrow> Inr f
                         | Some fe \<Rightarrow> on_timeout f fe (pitEntry_GetEgressSet pitEntry)) (\<lambda>f.
               Inr (PITVerdict_Forward,
                    pit_StoreInTable T now (pit\<lparr>pit_table := hct_Del T (pit_table pit) key\<rparr>) r interestMessage key, f)))
     | None \<Rightarrow> Inr (PITVerdict_Forward, pit_StoreInTable T now pit r interestMessage key, f))"

definition pitEntry_GetMessage_key :: "PitEntry \<Rightarrow> Name res" where
  "pitEntry_GetMessage_key e = (case pe_name e of None \<Rightarrow> Inl AssertFailed | Some n \<Rightarrow> Inr n)"

definition pitStandard_SatisfyInterest ::
  "('t, Name, nat) hct_ops \<Rightarrow> ('f \<Rightarrow> nat \<Rightarrow> NumberSet \<Rightarrow> Message \<Rightarrow> ticks \<Rightarrow> ticks \<Rightarrow> 'f res) \<Rightarrow> ticks \<Rightarrow>
     't StandardPIT \<Rightarrow> 'f \<Rightarrow> Message \<Rightarrow> (NumberSet \<times> 't StandardPIT \<times> 'f) res" where
  "pitStandard_SatisfyInterest T receive_object now pit f objectMessage =
     bind_res (message_key objectMessage) (\<lambda>key.
     let ingressSet = numberSet_Create in
     case hct_Get T (pit_table pit) key of
       Some ref \<Rightarrow>
         (let pitEntry = pit_heap pit ref in
          bind_res (if now < pitEntry_GetExpiryTime pitEntry
                    then bind_res (case pitEntry_GetFibEntry pitEntry of
                                     None \<Rightarrow> Inr f
                                   | Some fe \<Rightarrow> receive_object f fe (pitEntry_GetEgressSet pitEntry) objectMessage
                                                 (pitEntry_GetCreationTime pitEntry) now) (\<lambda>f.
                         Inr (numberSet_AddSet ingressSet (pitEntry_GetIngressSet pitEntry), f))
                    else Inr (ingressSet, f)) (\<lambda>(ingressSet, f).
          bind_res (pitEntry_GetMessage_key pitEntry) (\<lambda>key.
          Inr (ingressSet, pit\<lparr>pit_table := hct_Del T (pit_table pit) key\<rparr>, f))))
     | None \<Rightarrow> Inr (ingressSet, pit, f))"

definition pitStandard_RemoveInterest ::
  "('t, Name, nat) hct_ops \<Rightarrow> 't StandardPIT \<Rightarrow> Message \<Rightarrow> 't StandardPIT res" where
  "pitStandard_RemoveInterest T pit interestMessage =
     bind_res (message_key interestMessage) (\<lambda>key. Inr (pit\<lparr>pit_table := hct_Del T (pit_table pit) key\<rparr>))"

text \<open>The reference of the entry, with its count increased.\<close>

definition pitStandard_GetPitEntry ::
  "('t, Name, nat) hct_ops \<Rightarrow> 't StandardPIT \<Rightarrow> Message \<Rightarrow> ('t StandardPIT \<times> nat option) res" where
  "pitStandard_GetPitEntry T pit interestMessage =
     bind_res (message_key interestMessage) (\<lambda>key.
     case hct_Get T (pit_table pit) key of
       None \<Rightarrow> Inr (pit, None)
     | Some ref \<Rightarrow> Inr (pit_set_entry pit ref (pitEntry_Acquire (pit_heap pit ref)), Some ref))"

section \<open>The invariant\<close>

definition pit_lookup :: "('t, Name, nat) hct_ops \<Rightarrow> 't StandardPIT \<Rightarrow> Name \<Rightarrow> PitEntry option" where
  "pit_lookup T pit n = map_option (pit_heap pit) (hct_Get T (pit_table pit) n)"

text \<open>Distinct names have distinct entries, all allocated and held by the table alone, and the sets of an entry are well formed.\<close>

definition pit_inv :: "hash_fun \<Rightarrow> ('t, Name, nat) hct_ops \<Rightarrow> 't StandardPIT \<Rightarrow> bool" where
  "pit_inv H T pit \<longleftrightarrow>
     (\<forall>n ref. name_ok H n \<longrightarrow> hct_Get T (pit_table pit) n = Some ref \<longrightarrow>
        ref < pit_next pit \<and> pe_refcount (pit_heap pit ref) = 1 \<and>
        ns_inv (ingressIdSet (pit_heap pit ref)) \<and> ns_inv (egressIdSet (pit_heap pit ref)) \<and>
        (\<exists>key. pe_name (pit_heap pit ref) = Some key \<and> name_ok H key \<and> name_Equals key n) \<and>
        (\<forall>n'. name_ok H n' \<longrightarrow> hct_Get T (pit_table pit) n' = Some ref \<longrightarrow> name_Equals n n'))"

definition pit_table_ok :: "hash_fun \<Rightarrow> ('t, Name, nat) hct_ops \<Rightarrow> bool" where
  "pit_table_ok H T \<longleftrightarrow> hct_laws (name_ok H) hashTableFunction_MessageNameEquals T"

lemma pit_table_laws:
  assumes "pit_table_ok H T" "name_ok H k" "name_ok H k'"
  shows "hct_Get T (hct_Create T) k = None"
    "hct_Get T (fst (hct_Add T t k v)) k' = (if name_Equals k k' \<and> hct_Get T t k = None then Some v else hct_Get T t k')"
    "hct_Get T (hct_Del T t k) k' = (if name_Equals k k' then None else hct_Get T t k')"
    "name_Equals k k' \<Longrightarrow> hct_Get T t k = hct_Get T t k'"
  using hct_lawsD[OF assms(1)[unfolded pit_table_ok_def] assms(2,3)]
  by (auto simp: hashTableFunction_MessageNameEquals_def)

lemma pit_invD:
  assumes "pit_inv H T pit" "name_ok H n" "hct_Get T (pit_table pit) n = Some ref"
  shows "ref < pit_next pit" "ns_inv (ingressIdSet (pit_heap pit ref))" "ns_inv (egressIdSet (pit_heap pit ref))"
    "\<And>n'. name_ok H n' \<Longrightarrow> hct_Get T (pit_table pit) n' = Some ref \<Longrightarrow> name_Equals n n'"
    "\<exists>key. pe_name (pit_heap pit ref) = Some key \<and> name_ok H key \<and> name_Equals key n"
    "pe_refcount (pit_heap pit ref) = 1"
  using assms unfolding pit_inv_def by blast+

lemma pitStandard_Create_inv:
  "pit_table_ok H T \<Longrightarrow> pit_inv H T (pitStandard_Create T)"
  using pit_table_laws(1) unfolding pit_inv_def pitStandard_Create_def by fastforce

text \<open>The three ways the table changes: an entry is rewritten, deleted, or stored for a name that has none.\<close>

lemma pit_set_entry_ok:
  assumes "pit_table_ok H T" "pit_inv H T pit" "name_ok H n" "hct_Get T (pit_table pit) n = Some ref"
    and "ns_inv (ingressIdSet e)" "ns_inv (egressIdSet e)" "pe_name e = pe_name (pit_heap pit ref)" "pe_refcount e = 1"
  shows "pit_inv H T (pit_set_entry pit ref e)"
    "\<And>k. name_ok H k \<Longrightarrow> pit_lookup T (pit_set_entry pit ref e) k = (if name_Equals n k then Some e else pit_lookup T pit k)"
proof -
  show "pit_inv H T (pit_set_entry pit ref e)"
    using assms(2,5-8) unfolding pit_inv_def pit_set_entry_def by auto
  show "pit_lookup T (pit_set_entry pit ref e) k = (if name_Equals n k then Some e else pit_lookup T pit k)" if k: "name_ok H k" for k
  proof (cases "name_Equals n k")
    case True
    then show ?thesis using pit_table_laws(4)[OF assms(1,3) k] assms(4) by (simp add: pit_lookup_def pit_set_entry_def)
  next
    case False
    then have "hct_Get T (pit_table pit) k \<noteq> Some ref" using pit_invD(4)[OF assms(2-4) k] by blast
    then show ?thesis using False by (cases "hct_Get T (pit_table pit) k") (auto simp: pit_lookup_def pit_set_entry_def)
  qed
qed

lemma pit_del_ok:
  assumes "pit_table_ok H T" "pit_inv H T pit" "name_ok H n"
  defines "pit' \<equiv> pit\<lparr>pit_table := hct_Del T (pit_table pit) n\<rparr>"
  shows "pit_inv H T pit'" "\<And>k. name_ok H k \<Longrightarrow> pit_lookup T pit' k = (if name_Equals n k then None else pit_lookup T pit k)"
  using assms(2) unfolding pit_inv_def pit'_def
  by (auto simp: pit_table_laws(3)[OF assms(1,3)] pit_lookup_def split: if_splits)

lemma pit_store_ok:
  assumes "pit_table_ok H T" "pit_inv H T pit" "name_ok H n" "pit_lookup T pit n = None" "msg_name m = Some n"
    and pit': "pit' = pit_StoreInTable T now pit r m n"
  shows "pit_inv H T pit'"
    "\<And>k. name_ok H k \<Longrightarrow> pit_lookup T pit' k =
      (if name_Equals n k then Some (pitEntry_Create r m (pit_CalculateLifetime now m) now) else pit_lookup T pit k)"
proof -
  let ?e = "pitEntry_Create r m (pit_CalculateLifetime now m) now"
  have none: "hct_Get T (pit_table pit) n = None" using assms(4) by (simp add: pit_lookup_def)
  have get: "hct_Get T (pit_table pit') k = (if name_Equals n k then Some (pit_next pit) else hct_Get T (pit_table pit) k)"
    if "name_ok H k" for k
    using pit_table_laws(2)[OF assms(1,3) that] none by (simp add: pit' pit_StoreInTable_def Let_def)
  have old: "ref < pit_next pit" if "name_ok H k" "hct_Get T (pit_table pit) k = Some ref" for k ref
    using pit_invD(1)[OF assms(2) that] .
  have heap: "pit_heap pit' = (pit_heap pit)(pit_next pit := ?e)" "pit_next pit' = Suc (pit_next pit)"
    by (simp_all add: pit' pit_StoreInTable_def Let_def)
  show "pit_lookup T pit' k = (if name_Equals n k then Some ?e else pit_lookup T pit k)" if k: "name_ok H k" for k
    using get[OF k] old[OF k] heap by (cases "hct_Get T (pit_table pit) k") (auto simp: pit_lookup_def)
  have ns: "ns_inv (ingressIdSet ?e)" "ns_inv (egressIdSet ?e)" by (simp_all add: pitEntry_Create_def Add_abs)
  have key: "pe_name ?e = Some n" "pe_refcount ?e = 1" using assms(5) by (simp_all add: pitEntry_Create_def message_GetName_def)
  show "pit_inv H T pit'"
    unfolding pit_inv_def
  proof (intro allI impI)
    fix k ref assume k: "name_ok H k" and g: "hct_Get T (pit_table pit') k = Some ref"
    show "ref < pit_next pit' \<and> pe_refcount (pit_heap pit' ref) = 1 \<and> ns_inv (ingressIdSet (pit_heap pit' ref)) \<and> ns_inv (egressIdSet (pit_heap pit' ref)) \<and>
        (\<exists>key. pe_name (pit_heap pit' ref) = Some key \<and> name_ok H key \<and> name_Equals key k) \<and>
        (\<forall>n'. name_ok H n' \<longrightarrow> hct_Get T (pit_table pit') n' = Some ref \<longrightarrow> name_Equals k n')"
    proof (cases "name_Equals n k")
      case True
      then have ref: "ref = pit_next pit" using g get[OF k] by simp
      have "name_Equals n n'" if "name_ok H n'" "hct_Get T (pit_table pit') n' = Some ref" for n'
        using that get[of n'] old[of n'] ref by (auto split: if_splits)
      then have "name_Equals k n'" if "name_ok H n'" "hct_Get T (pit_table pit') n' = Some ref" for n'
        using that True name_Equals_sym name_Equals_trans by blast
      then show ?thesis using ref heap ns key assms(3) True by simp
    next
      case False
      then have g': "hct_Get T (pit_table pit) k = Some ref" using g get[OF k] by simp
      have "name_Equals k n'" if "name_ok H n'" "hct_Get T (pit_table pit') n' = Some ref" for n'
        using that get[of n'] old[OF k g'] pit_invD(4)[OF assms(2) k g'] by (auto split: if_splits)
      then show ?thesis using heap pit_invD[OF assms(2) k g'] by auto
    qed
  qed
qed

section \<open>The abstract table\<close>

text \<open>
  A PIT stands for a map from names to the set of requesters and an expiry time. \<open>spec_interest\<close> is
  what an interest from \<open>c\<close> with lifetime \<open>life\<close> does to the entry of its name.
\<close>

definition pit_abs :: "('t, Name, nat) hct_ops \<Rightarrow> 't StandardPIT \<Rightarrow> Name \<Rightarrow> (connid set \<times> ticks) option" where
  "pit_abs T pit n = map_option (\<lambda>e. (ns_set (ingressIdSet e), expiryTime e)) (pit_lookup T pit n)"

definition spec_interest ::
  "ticks \<Rightarrow> ticks \<Rightarrow> connid \<Rightarrow> (connid set \<times> ticks) option \<Rightarrow> PITVerdict \<times> (connid set \<times> ticks)" where
  "spec_interest now life c entry =
     (case entry of
        Some (S, x) \<Rightarrow>
          if now < x then (if c \<in> S then PITVerdict_Retransmit else PITVerdict_Aggregate, (insert c S, max x (now + life)))
          else (PITVerdict_Forward, ({c}, now + life))
      | None \<Rightarrow> (PITVerdict_Forward, ({c}, now + life)))"

definition spec_satisfy :: "ticks \<Rightarrow> (connid set \<times> ticks) option \<Rightarrow> connid set" where
  "spec_satisfy now entry = (case entry of Some (S, x) \<Rightarrow> if now < x then S else {} | None \<Rightarrow> {})"

lemma NanosToTicks_nonzero: "forwarder_NanosToTicks nanos \<noteq> 0"
proof (cases "nanos < NSEC_PER_TICK")
  case False
  then have "1000000 \<le> unat nanos" by (simp add: NSEC_PER_TICK_def word_less_nat_alt)
  then have "unat (nanos div NSEC_PER_TICK) \<noteq> 0" by (simp add: unat_div NSEC_PER_TICK_def div_eq_0_iff)
  then show ?thesis using False by (auto simp: forwarder_NanosToTicks_def)
qed (simp add: forwarder_NanosToTicks_def)

lemma CalculateLifetime_ticks: "pit_CalculateLifetime now m = now + message_GetInterestLifetimeTicks m"
  using NanosToTicks_nonzero by (simp add: pit_CalculateLifetime_def message_GetInterestLifetimeTicks_def)

text \<open>The callbacks into the FIB entry return and keep an invariant \<open>I\<close> of the FIB.\<close>

definition total_timeout :: "('f \<Rightarrow> bool) \<Rightarrow> ('f \<Rightarrow> nat \<Rightarrow> NumberSet \<Rightarrow> 'f res) \<Rightarrow> bool" where
  "total_timeout I on_timeout \<longleftrightarrow> (\<forall>f fe s. I f \<longrightarrow> ns_inv s \<longrightarrow> (\<exists>f'. on_timeout f fe s = Inr f' \<and> I f'))"

definition total_receive :: "('f \<Rightarrow> bool) \<Rightarrow> ('f \<Rightarrow> nat \<Rightarrow> NumberSet \<Rightarrow> Message \<Rightarrow> ticks \<Rightarrow> ticks \<Rightarrow> 'f res) \<Rightarrow> bool" where
  "total_receive I receive_object \<longleftrightarrow>
     (\<forall>f fe s m t t'. I f \<longrightarrow> ns_inv s \<longrightarrow> (\<exists>f'. receive_object f fe s m t t' = Inr f' \<and> I f'))"

lemma pit_abs_lookup: "pit_lookup T pit k = Some e \<Longrightarrow> pit_abs T pit k = Some (ns_set (ingressIdSet e), expiryTime e)"
  by (simp add: pit_abs_def)

lemma pit_new_entry_abs:
  "ns_set (ingressIdSet (pitEntry_Create r m x now)) = {message_GetIngressConnectionId m}"
  "expiryTime (pitEntry_Create r m x now) = x"
  by (simp_all add: pitEntry_Create_def Add_abs)

lemma ExtendLifetime_abs:
  "ingressIdSet (pit_ExtendLifetime now e m) = ingressIdSet e" "egressIdSet (pit_ExtendLifetime now e m) = egressIdSet e"
  "expiryTime (pit_ExtendLifetime now e m) = max (expiryTime e) (now + message_GetInterestLifetimeTicks m)"
  by (auto simp: pit_ExtendLifetime_def CalculateLifetime_ticks pitEntry_GetExpiryTime_def pitEntry_SetExpiryTime_def Let_def max_def)

text \<open>A live entry is extended in place; otherwise a new entry is stored.\<close>

lemma ReceiveInterest_live:
  assumes T: "pit_table_ok H T" and inv: "pit_inv H T pit" and n: "msg_name m = Some n" "name_ok H n"
    and live: "pit_lookup T pit n = Some e" "now < expiryTime e"
  shows "\<exists>v e' pit'. pitStandard_ReceiveInterest T on_timeout now pit f r m = Inr (v, pit', f) \<and> pit_inv H T pit' \<and>
    (v, ns_set (ingressIdSet e'), expiryTime e') =
      spec_interest now (message_GetInterestLifetimeTicks m) (ingressConnectionId m) (pit_abs T pit n) \<and>
    (\<forall>k. name_ok H k \<longrightarrow> pit_lookup T pit' k = (if name_Equals n k then Some e' else pit_lookup T pit k))"
proof -
  obtain ref where ref: "hct_Get T (pit_table pit) n = Some ref" "e = pit_heap pit ref"
    using live(1) by (auto simp: pit_lookup_def)
  note i = pit_invD[OF inv n(2) ref(1)]
  let ?c = "ingressConnectionId m" and ?x = "pit_ExtendLifetime now e m"
  let ?e = "if ?c \<in> ns_set (ingressIdSet e) then ?x else pitEntry_AddIngressId ?x ?c"
  have ns: "ns_inv (ingressIdSet ?e)" "ns_inv (egressIdSet ?e)"
    using i ref(2) by (simp_all add: ExtendLifetime_abs pitEntry_AddIngressId_def Add_abs)
  have "pitStandard_ReceiveInterest T on_timeout now pit f r m =
      Inr (if ?c \<in> ns_set (ingressIdSet e) then PITVerdict_Retransmit else PITVerdict_Aggregate, pit_set_entry pit ref ?e, f)"
    using live(2) ref n(1) i
    by (simp add: pitStandard_ReceiveInterest_def message_key_def message_GetName_def message_GetIngressConnectionId_def
        pitEntry_GetExpiryTime_def pit_IngressSetContains_def pitEntry_GetIngressSet_def ExtendLifetime_abs Contains_abs Let_def)
  moreover have "(if ?c \<in> ns_set (ingressIdSet e) then PITVerdict_Retransmit else PITVerdict_Aggregate,
        ns_set (ingressIdSet ?e), expiryTime ?e) =
      spec_interest now (message_GetInterestLifetimeTicks m) ?c (pit_abs T pit n)"
    using live i ref(2)
    by (auto simp: pit_abs_lookup spec_interest_def ExtendLifetime_abs pitEntry_AddIngressId_def Add_abs)
  moreover have "pe_name ?e = pe_name (pit_heap pit ref)" "pe_refcount ?e = 1"
    using ref(2) i(6) by (simp_all add: pit_ExtendLifetime_def pitEntry_SetExpiryTime_def pitEntry_AddIngressId_def Let_def)
  ultimately show ?thesis using pit_set_entry_ok[OF T inv n(2) ref(1) ns] by blast
qed

lemma ReceiveInterest_new:
  assumes T: "pit_table_ok H T" and inv: "pit_inv H T pit" and n: "msg_name m = Some n" "name_ok H n"
    and old: "\<And>e. pit_lookup T pit n = Some e \<Longrightarrow> \<not> now < expiryTime e" and cb: "total_timeout I on_timeout" "I f"
  shows "\<exists>e' pit' f'. pitStandard_ReceiveInterest T on_timeout now pit f r m = Inr (PITVerdict_Forward, pit', f') \<and> pit_inv H T pit' \<and> I f' \<and>
    (PITVerdict_Forward, ns_set (ingressIdSet e'), expiryTime e') =
      spec_interest now (message_GetInterestLifetimeTicks m) (ingressConnectionId m) (pit_abs T pit n) \<and>
    (\<forall>k. name_ok H k \<longrightarrow> pit_lookup T pit' k = (if name_Equals n k then Some e' else pit_lookup T pit k))"
proof -
  let ?e = "pitEntry_Create r m (pit_CalculateLifetime now m) now"
  let ?pit0 = "if pit_lookup T pit n = None then pit else pit\<lparr>pit_table := hct_Del T (pit_table pit) n\<rparr>"
  have nn: "name_Equals n n" using n(2) by (rule name_Equals_refl)
  have inv0: "pit_inv H T ?pit0" using inv pit_del_ok(1)[OF T inv n(2)] by simp
  have none: "pit_lookup T ?pit0 n = None" using pit_del_ok(2)[OF T inv n(2) n(2)] nn by simp
  have frame: "name_ok H k \<Longrightarrow> \<not> name_Equals n k \<Longrightarrow> pit_lookup T ?pit0 k = pit_lookup T pit k" for k
    using pit_del_ok(2)[OF T inv n(2)] by simp
  note st = pit_store_ok[OF T inv0 n(2) none n(1) refl, where now = now and r = r]
  have "\<exists>f'. pitStandard_ReceiveInterest T on_timeout now pit f r m = Inr (PITVerdict_Forward, pit_StoreInTable T now ?pit0 r m n, f') \<and> I f'"
  proof (cases "hct_Get T (pit_table pit) n")
    case None
    then show ?thesis using n(1) cb(2)
      by (simp add: pitStandard_ReceiveInterest_def message_key_def message_GetName_def pit_lookup_def)
  next
    case (Some ref)
    then have e: "\<not> now < expiryTime (pit_heap pit ref)" using old by (simp add: pit_lookup_def)
    have eg: "ns_inv (egressIdSet (pit_heap pit ref))" using pit_invD(3)[OF inv n(2) Some] .
    have "\<exists>f'. (case pe_fibEntry (pit_heap pit ref) of None \<Rightarrow> Inr f
        | Some fe \<Rightarrow> on_timeout f fe (egressIdSet (pit_heap pit ref))) = Inr f' \<and> I f'"
      using cb eg by (cases "pe_fibEntry (pit_heap pit ref)") (simp_all add: total_timeout_def)
    then show ?thesis using n(1) Some e cb(2)
      by (cases "pe_fibEntry (pit_heap pit ref)")
        (auto simp: pitStandard_ReceiveInterest_def message_key_def message_GetName_def pit_lookup_def
          pitEntry_GetExpiryTime_def pitEntry_GetFibEntry_def pitEntry_GetEgressSet_def Let_def)
  qed
  moreover have "(PITVerdict_Forward, ns_set (ingressIdSet ?e), expiryTime ?e) =
      spec_interest now (message_GetInterestLifetimeTicks m) (ingressConnectionId m) (pit_abs T pit n)"
    using old by (cases "pit_lookup T pit n")
      (auto simp: spec_interest_def pit_abs_def pit_new_entry_abs CalculateLifetime_ticks message_GetIngressConnectionId_def)
  moreover have "\<forall>k. name_ok H k \<longrightarrow> pit_lookup T (pit_StoreInTable T now ?pit0 r m n) k =
      (if name_Equals n k then Some ?e else pit_lookup T pit k)"
    using st(2) frame by auto
  ultimately show ?thesis using st(1) by blast
qed

lemma ReceiveInterest_abs:
  assumes "pit_table_ok H T" "pit_inv H T pit" "msg_name m = Some n" "name_ok H n" "total_timeout I on_timeout" "I f"
  shows "\<exists>v st pit' f'. pitStandard_ReceiveInterest T on_timeout now pit f r m = Inr (v, pit', f') \<and> pit_inv H T pit' \<and> I f' \<and>
    (v, st) = spec_interest now (message_GetInterestLifetimeTicks m) (ingressConnectionId m) (pit_abs T pit n) \<and>
    (\<forall>k. name_ok H k \<longrightarrow> pit_abs T pit' k = (if name_Equals n k then Some st else pit_abs T pit k))"
proof (cases "\<exists>e. pit_lookup T pit n = Some e \<and> now < expiryTime e")
  case True
  then obtain e where "pit_lookup T pit n = Some e" "now < expiryTime e" by blast
  from ReceiveInterest_live[OF assms(1-4) this, of on_timeout f r] obtain v e' pit' where
    *: "pitStandard_ReceiveInterest T on_timeout now pit f r m = Inr (v, pit', f)" "pit_inv H T pit'"
    "(v, ns_set (ingressIdSet e'), expiryTime e') =
      spec_interest now (message_GetInterestLifetimeTicks m) (ingressConnectionId m) (pit_abs T pit n)"
    "\<forall>k. name_ok H k \<longrightarrow> pit_lookup T pit' k = (if name_Equals n k then Some e' else pit_lookup T pit k)" by blast
  have "\<forall>k. name_ok H k \<longrightarrow> pit_abs T pit' k = (if name_Equals n k then Some (ns_set (ingressIdSet e'), expiryTime e') else pit_abs T pit k)"
    using *(4) by (simp add: pit_abs_def)
  with * assms(6) show ?thesis by blast
next
  case False
  then have "\<And>e. pit_lookup T pit n = Some e \<Longrightarrow> \<not> now < expiryTime e" by blast
  from ReceiveInterest_new[OF assms(1-4) this assms(5,6), of r] obtain e' pit' f' where
    *: "pitStandard_ReceiveInterest T on_timeout now pit f r m = Inr (PITVerdict_Forward, pit', f')" "pit_inv H T pit'"
    "(PITVerdict_Forward, ns_set (ingressIdSet e'), expiryTime e') =
      spec_interest now (message_GetInterestLifetimeTicks m) (ingressConnectionId m) (pit_abs T pit n)"
    "\<forall>k. name_ok H k \<longrightarrow> pit_lookup T pit' k = (if name_Equals n k then Some e' else pit_lookup T pit k)" "I f'" by blast
  have "\<forall>k. name_ok H k \<longrightarrow> pit_abs T pit' k = (if name_Equals n k then Some (ns_set (ingressIdSet e'), expiryTime e') else pit_abs T pit k)"
    using *(4) by (simp add: pit_abs_def)
  with * show ?thesis by blast
qed

lemma SatisfyInterest_abs:
  assumes T: "pit_table_ok H T" and inv: "pit_inv H T pit" and n: "msg_name m = Some n" "name_ok H n"
    and cb: "total_receive I receive_object" "I f"
  shows "\<exists>s pit' f'. pitStandard_SatisfyInterest T receive_object now pit f m = Inr (s, pit', f') \<and> pit_inv H T pit' \<and> I f' \<and>
    ns_inv s \<and> ns_set s = spec_satisfy now (pit_abs T pit n) \<and>
    (\<forall>k. name_ok H k \<longrightarrow> pit_abs T pit' k = (if name_Equals n k then None else pit_abs T pit k))"
proof (cases "hct_Get T (pit_table pit) n")
  case None
  have "pit_abs T pit k = None" if "name_ok H k" "name_Equals n k" for k
    using pit_table_laws(4)[OF T n(2) that] None by (simp add: pit_abs_def pit_lookup_def)
  then show ?thesis using None n(1) inv cb(2)
    by (simp add: pitStandard_SatisfyInterest_def message_key_def message_GetName_def spec_satisfy_def pit_abs_def pit_lookup_def)
next
  case (Some ref)
  note i = pit_invD[OF inv n(2) Some]
  then obtain key where key: "pe_name (pit_heap pit ref) = Some key" "name_ok H key" "name_Equals key n" by blast
  let ?e = "pit_heap pit ref" and ?pit = "pit\<lparr>pit_table := hct_Del T (pit_table pit) key\<rparr>"
  have "\<exists>f'. (case pe_fibEntry ?e of None \<Rightarrow> Inr f
      | Some fe \<Rightarrow> receive_object f fe (egressIdSet ?e) m (creationTime ?e) now) = Inr f' \<and> I f'"
    using cb i(3) by (cases "pe_fibEntry ?e") (simp_all add: total_receive_def)
  then have r: "\<exists>f'. pitStandard_SatisfyInterest T receive_object now pit f m =
      Inr (if now < expiryTime ?e then numberSet_AddSet numberSet_Create (ingressIdSet ?e) else numberSet_Create, ?pit, f') \<and> I f'"
    using n(1) Some key(1) cb(2)
    by (cases "pe_fibEntry ?e")
      (auto simp: pitStandard_SatisfyInterest_def message_key_def message_GetName_def pitEntry_GetExpiryTime_def pitEntry_GetMessage_key_def
        pitEntry_GetFibEntry_def pitEntry_GetEgressSet_def pitEntry_GetIngressSet_def pitEntry_GetCreationTime_def Let_def)
  have "name_Equals key k \<longleftrightarrow> name_Equals n k" for k using key(3) name_Equals_sym name_Equals_trans by blast
  then have "\<forall>k. name_ok H k \<longrightarrow> pit_abs T ?pit k = (if name_Equals n k then None else pit_abs T pit k)"
    using pit_del_ok(2)[OF T inv key(2)] by (simp add: pit_abs_def)
  moreover have "ns_set (if now < expiryTime ?e then numberSet_AddSet numberSet_Create (ingressIdSet ?e) else numberSet_Create) =
      spec_satisfy now (pit_abs T pit n)"
    using Some i(2) by (simp add: spec_satisfy_def pit_abs_def pit_lookup_def AddSet_abs)
  ultimately show ?thesis using r pit_del_ok(1)[OF T inv key(2)] i(2) AddSet_abs(1)[of numberSet_Create "ingressIdSet ?e"] by auto
qed

section \<open>Sequences of interests\<close>

text \<open>The interests that arrive one after the other, with their arrival times, and the verdicts on them.\<close>

fun pit_interests ::
  "('t, Name, nat) hct_ops \<Rightarrow> ('f \<Rightarrow> nat \<Rightarrow> NumberSet \<Rightarrow> 'f res) \<Rightarrow> 't StandardPIT \<Rightarrow> 'f \<Rightarrow> (ticks \<times> mref \<times> Message) list \<Rightarrow>
     (PITVerdict list \<times> 't StandardPIT \<times> 'f) res" where
  "pit_interests T on_timeout pit f [] = Inr ([], pit, f)"
| "pit_interests T on_timeout pit f ((now, r, m) # xs) =
     bind_res (pitStandard_ReceiveInterest T on_timeout now pit f r m) (\<lambda>(v, pit, f).
     bind_res (pit_interests T on_timeout pit f xs) (\<lambda>(vs, pit, f). Inr (v # vs, pit, f)))"

definition same_name :: "hash_fun \<Rightarrow> Name \<Rightarrow> Message \<Rightarrow> bool" where
  "same_name H n m \<longleftrightarrow> (\<exists>k. msg_name m = Some k \<and> name_ok H k \<and> name_Equals n k)"

lemma interests_live:
  assumes T: "pit_table_ok H T" and n: "name_ok H n" and cb: "total_timeout I on_timeout"
    and xs: "\<forall>(t, r, m)\<in>set xs. same_name H n m \<and> t < x0"
    and pit: "pit_inv H T pit" "pit_abs T pit n = Some (S, x)" "x0 \<le> x" "I f"
  shows "\<exists>vs pit' f' x'. pit_interests T on_timeout pit f xs = Inr (vs, pit', f') \<and> pit_inv H T pit' \<and> I f' \<and>
    PITVerdict_Forward \<notin> set vs \<and> x0 \<le> x' \<and> pit_abs T pit' n = Some (S \<union> (\<lambda>(t, r, m). ingressConnectionId m) ` set xs, x')"
  using xs pit
proof (induction xs arbitrary: pit f S x)
  case (Cons y ys)
  obtain t r m where y: "y = (t, r, m)" by (metis prod_cases3)
  obtain k where k: "msg_name m = Some k" "name_ok H k" "name_Equals n k" and t: "t < x0"
    using Cons.prems(1) y by (auto simp: same_name_def)
  have abs: "pit_abs T pit k = Some (S, x)"
    using Cons.prems(3) pit_table_laws(4)[OF T n k(2,3)] by (simp add: pit_abs_def pit_lookup_def)
  let ?c = "ingressConnectionId m"
  from ReceiveInterest_abs[OF T Cons.prems(2) k(1,2) cb Cons.prems(5), of t r] obtain v st pit1 f1 where
    1: "pitStandard_ReceiveInterest T on_timeout t pit f r m = Inr (v, pit1, f1)" "pit_inv H T pit1"
    "(v, st) = spec_interest t (message_GetInterestLifetimeTicks m) ?c (pit_abs T pit k)"
    "\<forall>k'. name_ok H k' \<longrightarrow> pit_abs T pit1 k' = (if name_Equals k k' then Some st else pit_abs T pit k')" "I f1" by blast
  have v: "v \<noteq> PITVerdict_Forward" and st: "st = (insert ?c S, max x (t + message_GetInterestLifetimeTicks m))"
    using 1(3) abs t Cons.prems(4) by (auto simp: spec_interest_def split: if_splits)
  have "pit_abs T pit1 n = Some st" using 1(4) n k(3) name_Equals_sym by metis
  moreover have "x0 \<le> max x (t + message_GetInterestLifetimeTicks m)" using Cons.prems(4) by (simp add: max.coboundedI1)
  ultimately obtain vs pit' f' x' where
    2: "pit_interests T on_timeout pit1 f1 ys = Inr (vs, pit', f')" "pit_inv H T pit'" "PITVerdict_Forward \<notin> set vs" "x0 \<le> x'"
    "pit_abs T pit' n = Some (insert ?c S \<union> (\<lambda>(t, r, m). ingressConnectionId m) ` set ys, x')" "I f'"
    using Cons.IH[OF _ 1(2), of "insert ?c S" "max x (t + message_GetInterestLifetimeTicks m)" f1] Cons.prems(1) st 1(5) by auto
  have "insert ?c S \<union> (\<lambda>(t, r, m). ingressConnectionId m) ` set ys = S \<union> (\<lambda>(t, r, m). ingressConnectionId m) ` set (y # ys)"
    using y by auto
  then show ?case using 1(1) 2 v y by auto
qed auto

section \<open>Properties\<close>

text \<open>
  C25. The PIT implements its abstract table. For every well-formed PIT, an interest never aborts; the
  verdict and the new entry of its name (requesters and expiry time) are those of the specification:
  forward and open an entry with the requester when there is no live one, otherwise aggregate a new
  requester and report a known one as a retransmission, the expiry time growing to the later of the
  two; no other name is affected and the invariant is kept.
\<close>

theorem pit_ReceiveInterest_refines:
  assumes "pit_table_ok H T" "pit_inv H T pit" "msg_name m = Some n" "name_ok H n" "total_timeout I on_timeout" "I f"
  shows "\<exists>v st pit' f'. pitStandard_ReceiveInterest T on_timeout now pit f r m = Inr (v, pit', f') \<and> pit_inv H T pit' \<and> I f' \<and>
    (v, st) = spec_interest now (message_GetInterestLifetimeTicks m) (ingressConnectionId m) (pit_abs T pit n) \<and>
    (\<forall>k. name_ok H k \<longrightarrow> pit_abs T pit' k = (if name_Equals n k then Some st else pit_abs T pit k))"
  using ReceiveInterest_abs[OF assms] by simp

abbreviation ex_pit_table :: "((Name \<times> nat) list, Name, nat) hct_ops" where
  "ex_pit_table \<equiv> al_hct hashTableFunction_MessageNameEquals"

lemma ex_pit_table_ok: "pit_table_ok H ex_pit_table"
proof -
  have "equivalence_on (name_ok H) hashTableFunction_MessageNameEquals"
    unfolding equivalence_on_def symp_def transp_def hashTableFunction_MessageNameEquals_def
    using name_Equals_refl name_Equals_sym name_Equals_trans by blast
  then show ?thesis unfolding pit_table_ok_def by (rule al_hct_laws)
qed

lemma ex_interest_name: "\<exists>n. msg_name ex_interest = Some n \<and> name_ok (\<lambda>d s. s) n"
proof -
  have "name_CreateFromPacket (\<lambda>d s. s) (messageHead ex_interest) MessagePacketType_Interest \<noteq> None" by code_simp
  moreover have "msg_name ex_interest = name_CreateFromPacket (\<lambda>d s. s) (messageHead ex_interest) MessagePacketType_Interest"
  proof -
    have "\<not> messageHandler_IsWldrNotification (tcp_set_lifetime ex_packet6 40 2000)" by code_simp
    then show ?thesis by (simp add: ex_interest_def message_CreateFromByteArray_def)
  qed
  ultimately show ?thesis using name_CreateFromPacket_ok by auto
qed

theorem pit_ReceiveInterest_refines_witness:
  "\<exists>pit'. pitStandard_ReceiveInterest ex_pit_table (\<lambda>f _ _. Inr f) 10 (pitStandard_Create ex_pit_table) () 0 ex_interest =
     Inr (PITVerdict_Forward, pit', ())"
proof -
  obtain n where n: "msg_name ex_interest = Some n" "name_ok (\<lambda>d s. s) n" using ex_interest_name by blast
  have "pit_abs ex_pit_table (pitStandard_Create ex_pit_table) n = None"
    by (simp add: pit_abs_def pit_lookup_def pitStandard_Create_def al_hct_def)
  then show ?thesis
    using pit_ReceiveInterest_refines[OF ex_pit_table_ok pitStandard_Create_inv[OF ex_pit_table_ok] n, of "\<lambda>_. True" "\<lambda>f _ _. Inr f" "()" 10 0]
    by (auto simp: total_timeout_def spec_interest_def)
qed

text \<open>
  Data consumes the interest: it is sent to exactly the connections of the live entry of its name
  (to none when there is no entry or it has expired), the entry is gone afterwards whether it was
  live or not, and every other name keeps its entry.
\<close>

theorem pit_SatisfyInterest_refines:
  assumes "pit_table_ok H T" "pit_inv H T pit" "msg_name m = Some n" "name_ok H n" "total_receive I receive_object" "I f"
  shows "\<exists>s pit' f'. pitStandard_SatisfyInterest T receive_object now pit f m = Inr (s, pit', f') \<and> pit_inv H T pit' \<and> I f' \<and>
    ns_inv s \<and> ns_set s = spec_satisfy now (pit_abs T pit n) \<and>
    (\<forall>k. name_ok H k \<longrightarrow> pit_abs T pit' k = (if name_Equals n k then None else pit_abs T pit k))"
  using SatisfyInterest_abs[OF assms] by simp

theorem pit_SatisfyInterest_refines_witness:
  "\<exists>s pit'. pitStandard_SatisfyInterest ex_pit_table (\<lambda>f _ _ _ _ _. Inr f) 10 (pitStandard_Create ex_pit_table) () ex_interest =
     Inr (s, pit', ()) \<and> ns_set s = {}"
proof -
  obtain n where n: "msg_name ex_interest = Some n" "name_ok (\<lambda>d s. s) n" using ex_interest_name by blast
  have "pit_abs ex_pit_table (pitStandard_Create ex_pit_table) n = None"
    by (simp add: pit_abs_def pit_lookup_def pitStandard_Create_def al_hct_def)
  then show ?thesis
    using pit_SatisfyInterest_refines[OF ex_pit_table_ok pitStandard_Create_inv[OF ex_pit_table_ok] n, of "\<lambda>_. True" "\<lambda>f _ _ _ _ _. Inr f" "()" 10]
    by (auto simp: total_receive_def spec_satisfy_def)
qed

text \<open>
  Aggregation is lossless. Interests for one name arrive from any connections, the first at \<open>t0\<close>
  with no entry for the name and the others before that first entry would expire. Exactly the
  first is forwarded, and data that arrives before that time is returned to exactly the
  connections that asked; a second copy of the data goes nowhere.
\<close>

theorem pit_aggregation_lossless:
  assumes T: "pit_table_ok H T" and cb: "total_timeout I on_timeout" "total_receive I receive_object" "I f"
    and pit: "pit_inv H T pit" "pit_abs T pit n = None"
    and m0: "msg_name m0 = Some n" "name_ok H n" and x0: "x0 = t0 + message_GetInterestLifetimeTicks m0"
    and xs: "\<forall>(t, r, m)\<in>set xs. same_name H n m \<and> t < x0"
    and d: "same_name H n d" "now < x0"
  shows "\<exists>vs pit1 f1 s pit2 f2 s' pit3 f3.
    pit_interests T on_timeout pit f ((t0, r0, m0) # xs) = Inr (PITVerdict_Forward # vs, pit1, f1) \<and> PITVerdict_Forward \<notin> set vs \<and>
    pitStandard_SatisfyInterest T receive_object now pit1 f1 d = Inr (s, pit2, f2) \<and>
    ns_set s = (\<lambda>(t, r, m). ingressConnectionId m) ` set ((t0, r0, m0) # xs) \<and>
    pitStandard_SatisfyInterest T receive_object now' pit2 f2 d = Inr (s', pit3, f3) \<and> ns_set s' = {}"
proof -
  obtain k where k: "msg_name d = Some k" "name_ok H k" "name_Equals n k" using d(1) unfolding same_name_def by blast
  have nn: "name_Equals n n" using name_Equals_refl[OF m0(2)] .
  have eq: "pit_abs T p k = pit_abs T p n" for p
    using pit_table_laws(4)[OF T m0(2) k(2,3)] by (simp add: pit_abs_def pit_lookup_def)
  let ?c = "ingressConnectionId m0"
  from ReceiveInterest_abs[OF T pit(1) m0 cb(1,3), of t0 r0] pit(2) obtain pit0 f0 where
    0: "pitStandard_ReceiveInterest T on_timeout t0 pit f r0 m0 = Inr (PITVerdict_Forward, pit0, f0)" "pit_inv H T pit0"
    "pit_abs T pit0 n = Some ({?c}, x0)" "I f0"
    using nn m0(2) by (auto simp: spec_interest_def x0)
  from interests_live[OF T m0(2) cb(1) xs 0(2,3) order_refl 0(4)] obtain vs pit1 f1 x' where
    1: "pit_interests T on_timeout pit0 f0 xs = Inr (vs, pit1, f1)" "pit_inv H T pit1" "PITVerdict_Forward \<notin> set vs" "x0 \<le> x'"
    "pit_abs T pit1 n = Some ({?c} \<union> (\<lambda>(t, r, m). ingressConnectionId m) ` set xs, x')" "I f1" by blast
  from SatisfyInterest_abs[OF T 1(2) k(1,2) cb(2) 1(6), of now] obtain s pit2 f2 where
    2: "pitStandard_SatisfyInterest T receive_object now pit1 f1 d = Inr (s, pit2, f2)" "pit_inv H T pit2"
    "ns_set s = spec_satisfy now (pit_abs T pit1 k)" "pit_abs T pit2 k = None" "I f2" using k(2) name_Equals_refl[OF k(2)] by auto
  from SatisfyInterest_abs[OF T 2(2) k(1,2) cb(2) 2(5), of now'] 2(4) obtain s' pit3 f3 where
    3: "pitStandard_SatisfyInterest T receive_object now' pit2 f2 d = Inr (s', pit3, f3)" "ns_set s' = {}"
    by (auto simp: spec_satisfy_def)
  have "now < x'" using d(2) 1(4) by simp
  then have "ns_set s = (\<lambda>(t, r, m). ingressConnectionId m) ` set ((t0, r0, m0) # xs)"
    using 2(3) 1(5) eq[of pit1] by (auto simp: spec_satisfy_def)
  moreover have "pit_interests T on_timeout pit f ((t0, r0, m0) # xs) = Inr (PITVerdict_Forward # vs, pit1, f1)"
    using 0(1) 1(1) by simp
  ultimately show ?thesis using 1(3) 2(1) 3 by blast
qed

theorem pit_aggregation_lossless_witness:
  "\<exists>vs pit1 s pit2. pit_interests ex_pit_table (\<lambda>f _ _. Inr f) (pitStandard_Create ex_pit_table) ()
       [(10, 0, ex_interest), (11, 1, ex_interest\<lparr>ingressConnectionId := 9\<rparr>)] = Inr (PITVerdict_Forward # vs, pit1, ()) \<and>
     pitStandard_SatisfyInterest ex_pit_table (\<lambda>f _ _ _ _ _. Inr f) 12 pit1 () ex_interest = Inr (s, pit2, ()) \<and>
     ns_set s = {ingressConnectionId ex_interest, 9}"
proof -
  let ?T = ex_pit_table
  obtain n where n: "msg_name ex_interest = Some n" "name_ok (\<lambda>d s. s) n" using ex_interest_name by blast
  have abs: "pit_abs ?T (pitStandard_Create ?T) n = None"
    by (simp add: pit_abs_def pit_lookup_def pitStandard_Create_def al_hct_def)
  have life: "10 + message_GetInterestLifetimeTicks ex_interest = 2010" by code_simp
  have same: "same_name (\<lambda>d s. s) n ex_interest" "same_name (\<lambda>d s. s) n (ex_interest\<lparr>ingressConnectionId := 9\<rparr>)"
    using n name_Equals_refl[OF n(2)] by (simp_all add: same_name_def)
  have xs: "\<forall>(t, r, m)\<in>set [(11::ticks, 1::mref, ex_interest\<lparr>ingressConnectionId := 9\<rparr>)]. same_name (\<lambda>d s. s) n m \<and> t < 2010"
    using same by simp
  have set2: "(\<lambda>(t, r, m). ingressConnectionId m) ` set [(10::ticks, 0::mref, ex_interest), (11, 1, ex_interest\<lparr>ingressConnectionId := 9\<rparr>)] =
      {ingressConnectionId ex_interest, 9}" by simp
  have "total_timeout (\<lambda>_. True) (\<lambda>(f::unit) _ _. Inr f)" "total_receive (\<lambda>_. True) (\<lambda>(f::unit) _ _ _ _ _. Inr f)" "(\<lambda>_. True) ()"
    by (simp_all add: total_timeout_def total_receive_def)
  from pit_aggregation_lossless[OF ex_pit_table_ok this pitStandard_Create_inv[OF ex_pit_table_ok] abs n life[symmetric] xs same(1), of 12 "()" 0 13]
  obtain vs pit1 f1 s pit2 f2 where
    "pit_interests ?T (\<lambda>f _ _. Inr f) (pitStandard_Create ?T) ()
       [(10, 0, ex_interest), (11, 1, ex_interest\<lparr>ingressConnectionId := 9\<rparr>)] = Inr (PITVerdict_Forward # vs, pit1, f1)"
    "pitStandard_SatisfyInterest ?T (\<lambda>f _ _ _ _ _. Inr f) 12 pit1 f1 ex_interest = Inr (s, pit2, f2)"
    "ns_set s = {ingressConnectionId ex_interest, 9}"
    unfolding set2 by auto
  moreover have "f1 = ()" "f2 = ()" by simp_all
  ultimately show ?thesis by blast
qed

text \<open>
  The default lifetime of four seconds is never used: an interest without a lifetime field gets one
  tick, because the conversion from nanoseconds to ticks never returns the zero that the PIT tests for.
\<close>

theorem pit_default_lifetime_unused:
  "pit_CalculateLifetime now m =
    now + (let ms = messageHandler_GetInterestLifetime (messageHead m) in if ms = 0 then 1 else ucast ms)"
proof -
  let ?l = "messageHandler_GetInterestLifetime (messageHead m)"
  have "forwarder_NanosToTicks (ucast ?l * 1000000) = (if ?l = 0 then 1 else ucast ?l)"
    using nanos_of_ms[of "unat ?l"] unsigned_less[of ?l, where ?'a = nat] by (simp add: unsigned_eq_0_iff)
  then show ?thesis by (simp add: CalculateLifetime_ticks message_GetInterestLifetimeTicks_def Let_def)
qed

end
