(* ===== verification/ContentStore.thy ===== *)
theory ContentStore
  imports Libparc Message Connection Pit "HOL-Library.Product_Lexorder"
begin

text \<open>
  The content store (\<^verbatim>\<open>hicn-light/src/hicn/content_store/contentStoreLRU.c\<close>, \<^verbatim>\<open>contentStoreEntry.c\<close>,
  \<^verbatim>\<open>listLRU.c\<close> and \<^verbatim>\<open>listTimeOrdered.c\<close>): a cache of data messages by name, with a list in order of
  last use and an index in order of expiry. The hash table and the tree are libparc's and their
  operations are the parameter \<open>X\<close>.

  Entries are shared by pointer between the three structures, so they live in a store (\<open>cs_heap\<close>) and
  the structures hold references. An entry and its node in the list are created and destroyed
  together; a node is named by the reference of its entry. An entry keeps the name of its message,
  which is its key. The reference counts that entries hold on messages are not modelled here.

  The lemmas show that the store refines an abstract cache, a list of entries in order of last use:
  which entry is evicted, that the capacity is never exceeded, that lookups return what was put.
\<close>

section \<open>The list in order of last use\<close>

record ListLru =
  lru_head :: "nat list"
  itemsInList :: u64
  lru_inList :: "nat \<Rightarrow> bool"

definition listLRU_Create :: ListLru where
  "listLRU_Create = \<lparr>lru_head = [], itemsInList = 0, lru_inList = (\<lambda>_. False)\<rparr>"

definition listLRU_NewHeadEntry :: "ListLru \<Rightarrow> nat \<Rightarrow> ListLru" where
  "listLRU_NewHeadEntry lru data =
     lru\<lparr>lru_head := data # lru_head lru, itemsInList := itemsInList lru + 1, lru_inList := (lru_inList lru)(data := True)\<rparr>"

definition listLRU_EntryDestroy :: "ListLru \<Rightarrow> nat \<Rightarrow> ListLru res" where
  "listLRU_EntryDestroy lru entry =
     (if lru_inList lru entry
      then (let lru = lru\<lparr>lru_head := remove1 entry (lru_head lru)\<rparr> in
            if itemsInList lru > 0 then Inr (lru\<lparr>itemsInList := itemsInList lru - 1\<rparr>) else Inl AssertFailed)
      else Inr lru)"

definition listLRU_EntryMoveToHead :: "ListLru \<Rightarrow> nat \<Rightarrow> ListLru" where
  "listLRU_EntryMoveToHead lru entry =
     (let lru = lru\<lparr>lru_head := remove1 entry (lru_head lru)\<rparr> in lru\<lparr>lru_head := entry # lru_head lru\<rparr>)"

definition listLRU_PopTail :: "ListLru \<Rightarrow> (ListLru \<times> nat option) res" where
  "listLRU_PopTail lru =
     (if lru_head lru = [] then Inr (lru, None)
      else let entry = last (lru_head lru) in
           if itemsInList lru > 0
           then Inr (lru\<lparr>itemsInList := itemsInList lru - 1, lru_head := butlast (lru_head lru),
                         lru_inList := (lru_inList lru)(entry := False)\<rparr>, Some entry)
           else Inl AssertFailed)"

definition listLRU_Length :: "ListLru \<Rightarrow> u64" where
  "listLRU_Length lru = itemsInList lru"

section \<open>Entries\<close>

record ContentStoreEntry =
  cse_message :: mref
  cse_name :: "Name option"
  cse_refcount :: u32
  hasExpiryTimeTicks :: bool
  expiryTimeTicks :: ticks

definition contentStoreEntry_MaxExpiryTime :: ticks where
  "contentStoreEntry_MaxExpiryTime = - 1"

definition contentStoreEntry_Create :: "mref \<Rightarrow> Message \<Rightarrow> ListLru \<Rightarrow> nat \<Rightarrow> ContentStoreEntry \<times> ListLru" where
  "contentStoreEntry_Create r contentMessage lru ref =
     (\<lparr>cse_message = r, cse_name = message_GetName contentMessage, cse_refcount = 1,
       hasExpiryTimeTicks = message_HasContentExpiryTime contentMessage,
       expiryTimeTicks = (if message_HasContentExpiryTime contentMessage then message_GetContentExpiryTimeTicks contentMessage else 0)\<rparr>,
      listLRU_NewHeadEntry lru ref)"

definition contentStoreEntry_Acquire :: "ContentStoreEntry \<Rightarrow> ContentStoreEntry" where
  "contentStoreEntry_Acquire e = e\<lparr>cse_refcount := cse_refcount e + 1\<rparr>"

definition contentStoreEntry_GetMessage :: "ContentStoreEntry \<Rightarrow> mref" where
  "contentStoreEntry_GetMessage e = cse_message e"

definition contentStoreEntry_HasExpiryTimeTicks :: "ContentStoreEntry \<Rightarrow> bool" where
  "contentStoreEntry_HasExpiryTimeTicks e = hasExpiryTimeTicks e"

definition contentStoreEntry_GetExpiryTimeTicks :: "ContentStoreEntry \<Rightarrow> ticks res" where
  "contentStoreEntry_GetExpiryTimeTicks e = (if hasExpiryTimeTicks e then Inr (expiryTimeTicks e) else Inl AssertFailed)"

text \<open>
  A key of the expiry index is a pointer to an entry, of which the comparison reads the expiry
  time and the address of the message; both are fixed at creation. A key of the model has these
  two and the reference.
\<close>

type_synonym tkey = "ticks \<times> mref \<times> nat"

fun contentStoreEntry_CompareExpiryTime :: "tkey \<Rightarrow> tkey \<Rightarrow> int" where
  "contentStoreEntry_CompareExpiryTime (x1, m1, _) (x2, m2, _) =
     (if x1 < x2 then -1 else if x1 > x2 then 1
      else if m1 < m2 then -1 else if m1 > m2 then 1 else 0)"

section \<open>The store\<close>

record ContentStoreLRUStats =
  countExpiryEvictions :: u64
  countRCTEvictions :: u64
  countLruEvictions :: u64
  countAdds :: u64
  countHits :: u64
  countMisses :: u64

record ('t, 'r) cs_ops =
  cs_table :: "('t, Name, nat) hct_ops"
  cs_tree :: "('r, tkey, nat) rbt_ops"

record ('t, 'r) ContentStoreLRU =
  objectCapacity :: u64
  objectCount :: u64
  lru :: ListLru
  indexByExpirationTime :: 'r
  storageByName :: 't
  stats :: ContentStoreLRUStats
  cs_heap :: "nat \<Rightarrow> ContentStoreEntry"
  cs_next :: nat

definition tkey_of :: "ContentStoreEntry \<Rightarrow> nat \<Rightarrow> tkey" where
  "tkey_of e ref = (expiryTimeTicks e, cse_message e, ref)"

definition listTimeOrdered_Add :: "('t, 'r) cs_ops \<Rightarrow> 'r \<Rightarrow> tkey \<Rightarrow> 'r" where
  "listTimeOrdered_Add X t k = rbt_Insert (cs_tree X) t k (snd (snd k))"

definition listTimeOrdered_GetOldest :: "('t, 'r) cs_ops \<Rightarrow> 'r \<Rightarrow> nat option" where
  "listTimeOrdered_GetOldest X t = map_option (\<lambda>k. snd (snd k)) (rbt_FirstKey (cs_tree X) t)"

definition listTimeOrdered_Remove :: "('t, 'r) cs_ops \<Rightarrow> 'r \<Rightarrow> tkey \<Rightarrow> 'r" where
  "listTimeOrdered_Remove X t k = rbt_Remove (cs_tree X) t k"

definition contentStoreLRU_Init :: "('t, 'r) cs_ops \<Rightarrow> u64 \<Rightarrow> ('t, 'r) ContentStoreLRU" where
  "contentStoreLRU_Init X capacity =
     \<lparr>objectCapacity = capacity, objectCount = 0, lru = listLRU_Create, indexByExpirationTime = rbt_Create (cs_tree X),
      storageByName = hct_Create (cs_table X),
      stats = \<lparr>countExpiryEvictions = 0, countRCTEvictions = 0, countLruEvictions = 0, countAdds = 0, countHits = 0, countMisses = 0\<rparr>,
      cs_heap = (\<lambda>_. undefined), cs_next = 0\<rparr>"

definition contentStoreEntry_Release :: "('t, 'r) ContentStoreLRU \<Rightarrow> nat \<Rightarrow> ('t, 'r) ContentStoreLRU res" where
  "contentStoreEntry_Release store ref =
     (let entry = cs_heap store ref in
      if cse_refcount entry > 0
      then (let entry = entry\<lparr>cse_refcount := cse_refcount entry - 1\<rparr>;
                store = store\<lparr>cs_heap := (cs_heap store)(ref := entry)\<rparr>
            in if cse_refcount entry = 0
               then bind_res (listLRU_EntryDestroy (lru store) ref) (\<lambda>l. Inr (store\<lparr>lru := l\<rparr>))
               else Inr store)
      else Inl AssertFailed)"

text \<open>The key a stored message has in the hash table; deleting a present key releases its entry.\<close>

definition contentStoreEntry_key :: "ContentStoreEntry \<Rightarrow> Name res" where
  "contentStoreEntry_key e = (case cse_name e of None \<Rightarrow> Inl AssertFailed | Some n \<Rightarrow> Inr n)"

definition contentStoreLRU_PurgeStoreEntry ::
  "('t, 'r) cs_ops \<Rightarrow> ('t, 'r) ContentStoreLRU \<Rightarrow> nat \<Rightarrow> ('t, 'r) ContentStoreLRU res" where
  "contentStoreLRU_PurgeStoreEntry X store ref =
     (let entryToPurge = cs_heap store ref;
          store = (if contentStoreEntry_HasExpiryTimeTicks entryToPurge
                   then store\<lparr>indexByExpirationTime := listTimeOrdered_Remove X (indexByExpirationTime store) (tkey_of entryToPurge ref)\<rparr>
                   else store)
      in bind_res (contentStoreEntry_key entryToPurge) (\<lambda>content.
         bind_res (case hct_Get (cs_table X) (storageByName store) content of
                     None \<Rightarrow> Inr store
                   | Some r \<Rightarrow> contentStoreEntry_Release
                                 (store\<lparr>storageByName := hct_Del (cs_table X) (storageByName store) content\<rparr>) r) (\<lambda>store.
         Inr (store\<lparr>objectCount := objectCount store - 1\<rparr>))))"

definition contentStoreLRU_RemoveLeastUsed ::
  "('t, 'r) cs_ops \<Rightarrow> ('t, 'r) ContentStoreLRU \<Rightarrow> (('t, 'r) ContentStoreLRU \<times> bool) res" where
  "contentStoreLRU_RemoveLeastUsed X store =
     (if objectCount store > 0
      then bind_res (listLRU_PopTail (lru store)) (\<lambda>(l, lruEntry).
           case lruEntry of
             None \<Rightarrow> Inl NullDereference
           | Some storeEntry \<Rightarrow>
               bind_res (contentStoreLRU_PurgeStoreEntry X (store\<lparr>lru := l\<rparr>) storeEntry) (\<lambda>store. Inr (store, True)))
      else Inr (store, False))"

definition evictByStorePolicy ::
  "('t, 'r) cs_ops \<Rightarrow> ('t, 'r) ContentStoreLRU \<Rightarrow> ticks \<Rightarrow> ('t, 'r) ContentStoreLRU res" where
  "evictByStorePolicy X store currentTimeInTicks =
     (let by_lru = (let store = store\<lparr>stats := (stats store)\<lparr>countLruEvictions := countLruEvictions (stats store) + 1\<rparr>\<rparr> in
                    bind_res (contentStoreLRU_RemoveLeastUsed X store) (\<lambda>(store, _). Inr store))
      in case listTimeOrdered_GetOldest X (indexByExpirationTime store) of
           None \<Rightarrow> by_lru
         | Some entry \<Rightarrow>
             if contentStoreEntry_HasExpiryTimeTicks (cs_heap store entry)
             then bind_res (contentStoreEntry_GetExpiryTimeTicks (cs_heap store entry)) (\<lambda>x.
                  if currentTimeInTicks > x
                  then (let store = store\<lparr>stats := (stats store)\<lparr>countExpiryEvictions := countExpiryEvictions (stats store) + 1\<rparr>\<rparr> in
                        contentStoreLRU_PurgeStoreEntry X store entry)
                  else by_lru)
             else by_lru)"

definition contentStoreLRU_PutContent ::
  "('t, 'r) cs_ops \<Rightarrow> ('t, 'r) ContentStoreLRU \<Rightarrow> mref \<Rightarrow> Message \<Rightarrow> ticks \<Rightarrow> (('t, 'r) ContentStoreLRU \<times> bool) res" where
  "contentStoreLRU_PutContent X store r content currentTimeTicks =
     (if message_GetType content \<noteq> MessagePacketType_ContentObject then Inl AssertFailed
      else if objectCapacity store = 0 then Inr (store, False)
      else
        bind_res (message_key content) (\<lambda>key.
        bind_res (case hct_Get (cs_table X) (storageByName store) key of
                    None \<Rightarrow> Inr store
                  | Some storeEntry \<Rightarrow> contentStoreLRU_PurgeStoreEntry X store storeEntry) (\<lambda>store.
        let expiry = (if message_HasContentExpiryTime content then message_GetContentExpiryTimeTicks content
                      else contentStoreEntry_MaxExpiryTime)
        in if currentTimeTicks \<ge> expiry then Inr (store, False)
           else
             bind_res (if objectCount store \<ge> objectCapacity store then evictByStorePolicy X store currentTimeTicks else Inr store) (\<lambda>store.
             let ref = cs_next store;
                 (entry, l) = contentStoreEntry_Create r content (lru store) ref;
                 store = store\<lparr>lru := l, cs_heap := (cs_heap store)(ref := entry), cs_next := ref + 1\<rparr>;
                 (table, added) = hct_Add (cs_table X) (storageByName store) key ref
             in if added
                then (let store = store\<lparr>storageByName := table\<rparr>;
                          store = (if contentStoreEntry_HasExpiryTimeTicks entry
                                   then store\<lparr>indexByExpirationTime := listTimeOrdered_Add X (indexByExpirationTime store) (tkey_of entry ref)\<rparr>
                                   else store)
                      in Inr (store\<lparr>objectCount := objectCount store + 1,
                                stats := (stats store)\<lparr>countAdds := countAdds (stats store) + 1\<rparr>\<rparr>, True))
                else bind_res (contentStoreEntry_Release store ref) (\<lambda>store. Inr (store, False))))))"

definition contentStoreLRU_MatchInterest ::
  "('t, 'r) cs_ops \<Rightarrow> ('t, 'r) ContentStoreLRU \<Rightarrow> Message \<Rightarrow> ticks \<Rightarrow> (('t, 'r) ContentStoreLRU \<times> mref option) res" where
  "contentStoreLRU_MatchInterest X store interest currentTimeTicks =
     (if message_GetType interest \<noteq> MessagePacketType_Interest then Inl AssertFailed
      else
        bind_res (message_key interest) (\<lambda>key.
        bind_res (case hct_Get (cs_table X) (storageByName store) key of
                    None \<Rightarrow> Inr (store, None)
                  | Some storeEntry \<Rightarrow>
                      if contentStoreEntry_HasExpiryTimeTicks (cs_heap store storeEntry)
                      then bind_res (contentStoreEntry_GetExpiryTimeTicks (cs_heap store storeEntry)) (\<lambda>x.
                           if x < currentTimeTicks
                           then bind_res (contentStoreLRU_PurgeStoreEntry X store storeEntry) (\<lambda>store. Inr (store, None))
                           else Inr (store, Some storeEntry))
                      else Inr (store, Some storeEntry)) (\<lambda>(store, foundEntry).
        case foundEntry of
          Some storeEntry \<Rightarrow>
            Inr (store\<lparr>lru := listLRU_EntryMoveToHead (lru store) storeEntry,
                       stats := (stats store)\<lparr>countHits := countHits (stats store) + 1\<rparr>\<rparr>,
                 Some (contentStoreEntry_GetMessage (cs_heap store storeEntry)))
        | None \<Rightarrow> Inr (store\<lparr>stats := (stats store)\<lparr>countMisses := countMisses (stats store) + 1\<rparr>\<rparr>, None))))"

definition contentStoreLRU_RemoveContent ::
  "('t, 'r) cs_ops \<Rightarrow> ('t, 'r) ContentStoreLRU \<Rightarrow> Message \<Rightarrow> (('t, 'r) ContentStoreLRU \<times> bool) res" where
  "contentStoreLRU_RemoveContent X store content =
     bind_res (message_key content) (\<lambda>key.
     case hct_Get (cs_table X) (storageByName store) key of
       None \<Rightarrow> Inr (store, False)
     | Some storeEntry \<Rightarrow> bind_res (contentStoreLRU_PurgeStoreEntry X store storeEntry) (\<lambda>store. Inr (store, True)))"

definition contentStoreLRU_GetObjectCapacity :: "('t, 'r) ContentStoreLRU \<Rightarrow> u64" where
  "contentStoreLRU_GetObjectCapacity store = objectCapacity store"

definition contentStoreLRU_GetObjectCount :: "('t, 'r) ContentStoreLRU \<Rightarrow> u64" where
  "contentStoreLRU_GetObjectCount store = objectCount store"

section \<open>The invariant\<close>

definition cs_ops_ok :: "hash_fun \<Rightarrow> ('r \<Rightarrow> bool) \<Rightarrow> ('r \<Rightarrow> (tkey \<times> nat) list) \<Rightarrow> ('t, 'r) cs_ops \<Rightarrow> bool" where
  "cs_ops_ok H ok es X \<longleftrightarrow>
     pit_table_ok H (cs_table X) \<and> rbt_laws contentStoreEntry_CompareExpiryTime ok es (cs_tree X)"

text \<open>
  The entries of the list are those of the hash table, each filed under its name; the index has
  those that expire; the two counters are the length of the list, which the capacity bounds.
  \<open>nm\<close> gives the name of every message in memory.
\<close>

definition cs_entry_ok ::
  "hash_fun \<Rightarrow> (mref \<Rightarrow> Name option) \<Rightarrow> ('t, 'r) cs_ops \<Rightarrow> ('t, 'r) ContentStoreLRU \<Rightarrow> nat \<Rightarrow> bool" where
  "cs_entry_ok H nm X s ref \<longleftrightarrow>
     ref < cs_next s \<and> lru_inList (lru s) ref \<and> cse_refcount (cs_heap s ref) = 1 \<and>
     cse_name (cs_heap s ref) = nm (cse_message (cs_heap s ref)) \<and>
     (\<exists>key. cse_name (cs_heap s ref) = Some key \<and> name_ok H key \<and> hct_Get (cs_table X) (storageByName s) key = Some ref)"

definition cs_index :: "('t, 'r) ContentStoreLRU \<Rightarrow> (tkey \<times> nat) set" where
  "cs_index s = (\<lambda>ref. (tkey_of (cs_heap s ref) ref, ref)) ` {ref\<in>set (lru_head (lru s)). hasExpiryTimeTicks (cs_heap s ref)}"

definition cs_inv ::
  "hash_fun \<Rightarrow> (mref \<Rightarrow> Name option) \<Rightarrow> ('r \<Rightarrow> bool) \<Rightarrow> ('r \<Rightarrow> (tkey \<times> nat) list) \<Rightarrow> ('t, 'r) cs_ops \<Rightarrow>
     ('t, 'r) ContentStoreLRU \<Rightarrow> bool" where
  "cs_inv H nm ok es X s \<longleftrightarrow>
     distinct (lru_head (lru s)) \<and> (\<forall>ref\<in>set (lru_head (lru s)). cs_entry_ok H nm X s ref) \<and>
     (\<forall>n ref. name_ok H n \<longrightarrow> hct_Get (cs_table X) (storageByName s) n = Some ref \<longrightarrow>
        ref \<in> set (lru_head (lru s)) \<and> (\<exists>key. cse_name (cs_heap s ref) = Some key \<and> name_Equals key n)) \<and>
     ok (indexByExpirationTime s) \<and> set (es (indexByExpirationTime s)) = cs_index s \<and>
     length (lru_head (lru s)) \<le> unat (objectCapacity s) \<and>
     objectCount s = of_nat (length (lru_head (lru s))) \<and> itemsInList (lru s) = of_nat (length (lru_head (lru s)))"

section \<open>The abstract cache\<close>

text \<open>Entries in order of last use: name, message, expiry time if any.\<close>

type_synonym cs_item = "Name \<times> mref \<times> ticks option"

definition cs_item :: "ContentStoreEntry \<Rightarrow> cs_item" where
  "cs_item e = (the (cse_name e), cse_message e, if hasExpiryTimeTicks e then Some (expiryTimeTicks e) else None)"

definition cs_items :: "('t, 'r) ContentStoreLRU \<Rightarrow> cs_item list" where
  "cs_items s = map (\<lambda>ref. cs_item (cs_heap s ref)) (lru_head (lru s))"

definition spec_del :: "Name \<Rightarrow> cs_item list \<Rightarrow> cs_item list" where
  "spec_del n L = filter (\<lambda>(k, _). \<not> name_Equals k n) L"

definition spec_find :: "Name \<Rightarrow> cs_item list \<Rightarrow> cs_item option" where
  "spec_find n L = List.find (\<lambda>(k, _). name_Equals k n) L"

text \<open>The entry that expires first, the address of the message breaking ties.\<close>

definition spec_expiries :: "cs_item list \<Rightarrow> (ticks \<times> mref) list" where
  "spec_expiries L = concat (map (\<lambda>(_, r, x). case x of None \<Rightarrow> [] | Some x \<Rightarrow> [(x, r)]) L)"

definition spec_evict :: "ticks \<Rightarrow> cs_item list \<Rightarrow> cs_item list" where
  "spec_evict now L =
     (case spec_expiries L of
        [] \<Rightarrow> butlast L
      | _ \<Rightarrow> (let (x, r) = Min (set (spec_expiries L)) in if x < now then filter (\<lambda>(_, m, _). m \<noteq> r) L else butlast L))"

definition spec_put :: "nat \<Rightarrow> ticks \<Rightarrow> cs_item \<Rightarrow> cs_item list \<Rightarrow> cs_item list \<times> bool" where
  "spec_put capacity now item L =
     (case item of (n, r, x) \<Rightarrow>
        if capacity = 0 then (L, False)
        else (let L = spec_del n L in
              if (case x of Some x \<Rightarrow> x \<le> now | None \<Rightarrow> now = - 1) then (L, False)
              else (item # (if capacity \<le> length L then spec_evict now L else L), True)))"

definition spec_match :: "ticks \<Rightarrow> Name \<Rightarrow> cs_item list \<Rightarrow> cs_item list \<times> mref option" where
  "spec_match now n L =
     (case spec_find n L of
        None \<Rightarrow> (L, None)
      | Some (k, r, x) \<Rightarrow>
          if (case x of Some x \<Rightarrow> x < now | None \<Rightarrow> False) then (spec_del n L, None)
          else ((k, r, x) # spec_del n L, Some r))"

section \<open>Laws and the invariant\<close>

lemma cs_laws:
  assumes "cs_ops_ok H ok es X" "name_ok H k" "name_ok H k'"
  shows "hct_Get (cs_table X) (hct_Create (cs_table X)) k = None"
    "hct_Get (cs_table X) (fst (hct_Add (cs_table X) t k v)) k' =
      (if name_Equals k k' \<and> hct_Get (cs_table X) t k = None then Some v else hct_Get (cs_table X) t k')"
    "snd (hct_Add (cs_table X) t k v) = (hct_Get (cs_table X) t k = None)"
    "hct_Get (cs_table X) (hct_Del (cs_table X) t k) k' = (if name_Equals k k' then None else hct_Get (cs_table X) t k')"
    "name_Equals k k' \<Longrightarrow> hct_Get (cs_table X) t k = hct_Get (cs_table X) t k'"
proof -
  have T: "hct_laws (name_ok H) hashTableFunction_MessageNameEquals (cs_table X)"
    using assms(1) unfolding cs_ops_ok_def pit_table_ok_def by blast
  note l = hct_lawsD[OF T assms(2,3), unfolded hashTableFunction_MessageNameEquals_def]
  show "hct_Get (cs_table X) (hct_Create (cs_table X)) k = None" by (rule l(1))
  show "hct_Get (cs_table X) (fst (hct_Add (cs_table X) t k v)) k' =
      (if name_Equals k k' \<and> hct_Get (cs_table X) t k = None then Some v else hct_Get (cs_table X) t k')" by (rule l(2))
  show "snd (hct_Add (cs_table X) t k v) = (hct_Get (cs_table X) t k = None)" by (rule l(3))
  show "hct_Get (cs_table X) (hct_Del (cs_table X) t k) k' = (if name_Equals k k' then None else hct_Get (cs_table X) t k')" by (rule l(4))
  show "name_Equals k k' \<Longrightarrow> hct_Get (cs_table X) t k = hct_Get (cs_table X) t k'" by (rule l(5))
qed

lemma CompareExpiryTime_less [simp]:
  "contentStoreEntry_CompareExpiryTime (x, m, r) (x', m', r') < 0 \<longleftrightarrow> (x, m) < (x', m')"
  "contentStoreEntry_CompareExpiryTime (x, m, r) (x', m', r') = 0 \<longleftrightarrow> (x, m) = (x', m')"
  by auto

declare contentStoreEntry_CompareExpiryTime.simps [simp del]

lemma cs_tree_laws:
  assumes "cs_ops_ok H ok es X" "ok t"
  shows "ok (rbt_Insert (cs_tree X) t k v)" "ok (rbt_Remove (cs_tree X) t k)"
    "set (es (rbt_Insert (cs_tree X) t k v)) = insert (k, v) {(k', v')\<in>set (es t). contentStoreEntry_CompareExpiryTime k k' \<noteq> 0}"
    "set (es (rbt_Remove (cs_tree X) t k)) = {(k', v')\<in>set (es t). contentStoreEntry_CompareExpiryTime k k' \<noteq> 0}"
    "rbt_FirstKey (cs_tree X) t = (case es t of [] \<Rightarrow> None | (k, v) # _ \<Rightarrow> Some k)"
    "sorted_entries contentStoreEntry_CompareExpiryTime (es t)"
proof -
  have R: "rbt_laws contentStoreEntry_CompareExpiryTime ok es (cs_tree X)" using assms(1) unfolding cs_ops_ok_def by blast
  show "ok (rbt_Insert (cs_tree X) t k v)" "ok (rbt_Remove (cs_tree X) t k)"
    "set (es (rbt_Insert (cs_tree X) t k v)) = insert (k, v) {(k', v')\<in>set (es t). contentStoreEntry_CompareExpiryTime k k' \<noteq> 0}"
    "set (es (rbt_Remove (cs_tree X) t k)) = {(k', v')\<in>set (es t). contentStoreEntry_CompareExpiryTime k k' \<noteq> 0}"
    "rbt_FirstKey (cs_tree X) t = (case es t of [] \<Rightarrow> None | (k, v) # _ \<Rightarrow> Some k)"
    "sorted_entries contentStoreEntry_CompareExpiryTime (es t)"
    by (fact rbt_lawsD[OF R assms(2)])+
qed

lemma cs_create_laws:
  "cs_ops_ok H ok es X \<Longrightarrow> ok (rbt_Create (cs_tree X)) \<and> es (rbt_Create (cs_tree X)) = []"
  unfolding cs_ops_ok_def rbt_laws_def by blast

lemma contentStoreLRU_Init_inv:
  "cs_ops_ok H ok es X \<Longrightarrow> cs_inv H nm ok es X (contentStoreLRU_Init X capacity)"
  "cs_items (contentStoreLRU_Init X capacity) = []"
  using cs_laws(1)[of H ok es X] cs_create_laws[of H ok es X]
  by (auto simp: cs_inv_def contentStoreLRU_Init_def listLRU_Create_def cs_index_def cs_items_def)

lemma cs_invD:
  assumes "cs_inv H nm ok es X s"
  shows "distinct (lru_head (lru s))" "\<And>ref. ref \<in> set (lru_head (lru s)) \<Longrightarrow> cs_entry_ok H nm X s ref"
    "\<And>n ref. name_ok H n \<Longrightarrow> hct_Get (cs_table X) (storageByName s) n = Some ref \<Longrightarrow> ref \<in> set (lru_head (lru s))"
    "\<And>n ref. name_ok H n \<Longrightarrow> hct_Get (cs_table X) (storageByName s) n = Some ref \<Longrightarrow>
       \<exists>key. cse_name (cs_heap s ref) = Some key \<and> name_Equals key n"
    "ok (indexByExpirationTime s)" "set (es (indexByExpirationTime s)) = cs_index s"
    "length (lru_head (lru s)) \<le> unat (objectCapacity s)"
    "objectCount s = of_nat (length (lru_head (lru s)))" "itemsInList (lru s) = of_nat (length (lru_head (lru s)))"
  using assms unfolding cs_inv_def by blast+

text \<open>An entry of the list has the key \<open>key\<close>.\<close>

lemma cs_entryD:
  assumes "cs_ops_ok H ok es X" "cs_inv H nm ok es X s" "ref \<in> set (lru_head (lru s))"
  obtains key where "cse_name (cs_heap s ref) = Some key" "name_ok H key" "hct_Get (cs_table X) (storageByName s) key = Some ref"
    "\<And>n. name_ok H n \<Longrightarrow> hct_Get (cs_table X) (storageByName s) n = Some ref \<longleftrightarrow> name_Equals key n"
proof -
  obtain key where key: "cse_name (cs_heap s ref) = Some key" "name_ok H key" "hct_Get (cs_table X) (storageByName s) key = Some ref"
    using cs_invD(2)[OF assms(2,3)] unfolding cs_entry_ok_def by blast
  have "hct_Get (cs_table X) (storageByName s) n = Some ref \<longleftrightarrow> name_Equals key n" if n: "name_ok H n" for n
    using cs_laws(5)[OF assms(1) key(2) n, of "storageByName s"] cs_invD(4)[OF assms(2) n, of ref] key(1,3) by auto
  then show ?thesis using that key by blast
qed

lemma cs_message_inj:
  assumes "cs_ops_ok H ok es X" "cs_inv H nm ok es X s" "ref \<in> set (lru_head (lru s))" "ref' \<in> set (lru_head (lru s))"
    and "cse_message (cs_heap s ref) = cse_message (cs_heap s ref')"
  shows "ref = ref'"
proof -
  have "cse_name (cs_heap s ref) = cse_name (cs_heap s ref')"
    using assms(5) cs_invD(2)[OF assms(2,3)] cs_invD(2)[OF assms(2,4)] by (simp add: cs_entry_ok_def)
  then show ?thesis using cs_entryD[OF assms(1-3)] cs_entryD[OF assms(1,2,4)] by (metis option.inject)
qed

lemma count_bounds:
  assumes "cs_inv H nm ok es X s"
  shows "unat (objectCount s) = length (lru_head (lru s))" "unat (itemsInList (lru s)) = length (lru_head (lru s))"
proof -
  have "length (lru_head (lru s)) < 2 ^ 64"
    using cs_invD(7)[OF assms] unsigned_less[of "objectCapacity s", where ?'a = nat] by (simp add: order_le_less_trans)
  then show "unat (objectCount s) = length (lru_head (lru s))" "unat (itemsInList (lru s)) = length (lru_head (lru s))"
    by (simp_all add: cs_invD(8,9)[OF assms] unsigned_of_nat take_bit_nat_eq_self)
qed

section \<open>Purging an entry\<close>

text \<open>The store after an entry is purged, \<open>l\<close> being the list after its node is destroyed.\<close>

definition purged :: "('t, 'r) cs_ops \<Rightarrow> ('t, 'r) ContentStoreLRU \<Rightarrow> ListLru \<Rightarrow> nat \<Rightarrow> Name \<Rightarrow> ('t, 'r) ContentStoreLRU" where
  "purged X s l ref key =
     s\<lparr>lru := l, cs_heap := (cs_heap s)(ref := (cs_heap s ref)\<lparr>cse_refcount := 0\<rparr>),
       indexByExpirationTime := (if hasExpiryTimeTicks (cs_heap s ref)
         then rbt_Remove (cs_tree X) (indexByExpirationTime s) (tkey_of (cs_heap s ref) ref) else indexByExpirationTime s),
       storageByName := hct_Del (cs_table X) (storageByName s) key, objectCount := objectCount s - 1\<rparr>"

lemma Purge_eq:
  assumes "cse_name (cs_heap s ref) = Some key" "hct_Get (cs_table X) (storageByName s) key = Some ref"
    and "cse_refcount (cs_heap s ref) = 1" "listLRU_EntryDestroy (lru s) ref = Inr l"
  shows "contentStoreLRU_PurgeStoreEntry X s ref = Inr (purged X s l ref key)"
  using assms
  by (simp add: contentStoreLRU_PurgeStoreEntry_def contentStoreEntry_key_def contentStoreEntry_Release_def purged_def
      contentStoreEntry_HasExpiryTimeTicks_def listTimeOrdered_Remove_def Let_def)

lemma purged_index:
  assumes X: "cs_ops_ok H ok es X" and inv: "cs_inv H nm ok es X s" and ref: "ref \<in> set (lru_head (lru s))"
    and l: "lru_head l = remove1 ref (lru_head (lru s))"
  shows "ok (indexByExpirationTime (purged X s l ref key)) \<and>
    set (es (indexByExpirationTime (purged X s l ref key))) = cs_index (purged X s l ref key)"
proof -
  note i = cs_invD[OF inv] and t = cs_tree_laws[OF X cs_invD(5)[OF inv]]
  have cmp: "contentStoreEntry_CompareExpiryTime (tkey_of (cs_heap s ref) ref) (tkey_of (cs_heap s r) r) \<noteq> 0"
    if "r \<in> set (lru_head (lru s))" "r \<noteq> ref" for r
    using cs_message_inj[OF X inv ref that(1)] that(2) by (auto simp: tkey_of_def)
  have zero: "contentStoreEntry_CompareExpiryTime k k = 0" for k by (cases k) (simp add: contentStoreEntry_CompareExpiryTime.simps)
  have "cs_index (purged X s l ref key) = {(k, r)\<in>cs_index s. r \<noteq> ref}"
    using i(1) l by (auto simp: cs_index_def purged_def)
  moreover have "{(k, r)\<in>cs_index s. contentStoreEntry_CompareExpiryTime (tkey_of (cs_heap s ref) ref) k \<noteq> 0} = {(k, r)\<in>cs_index s. r \<noteq> ref}"
    using cmp zero[of "tkey_of (cs_heap s ref) ref"] by (auto simp: cs_index_def)
  moreover have "\<not> hasExpiryTimeTicks (cs_heap s ref) \<Longrightarrow> {(k, r)\<in>cs_index s. r \<noteq> ref} = cs_index s" by (auto simp: cs_index_def)
  ultimately show ?thesis using t(2,4) i(5,6) by (auto simp: purged_def)
qed

lemma purged_ok:
  assumes X: "cs_ops_ok H ok es X" and inv: "cs_inv H nm ok es X s" and ref: "ref \<in> set (lru_head (lru s))"
    and key: "cse_name (cs_heap s ref) = Some key" "name_ok H key"
    and l: "lru_head l = remove1 ref (lru_head (lru s))" "itemsInList l = itemsInList (lru s) - 1"
      "\<And>r. r \<noteq> ref \<Longrightarrow> lru_inList l r = lru_inList (lru s) r"
  shows "cs_inv H nm ok es X (purged X s l ref key)"
    "cs_items (purged X s l ref key) = spec_del key (cs_items s)"
    "\<And>n. name_ok H n \<Longrightarrow> hct_Get (cs_table X) (storageByName (purged X s l ref key)) n =
      (if name_Equals key n then None else hct_Get (cs_table X) (storageByName s) n)"
proof -
  let ?p = "purged X s l ref key"
  note i = cs_invD[OF inv]
  have head: "lru_head (lru ?p) = remove1 ref (lru_head (lru s))" "set (lru_head (lru ?p)) = set (lru_head (lru s)) - {ref}"
    using i(1) by (simp_all add: purged_def l(1))
  show get: "hct_Get (cs_table X) (storageByName ?p) n = (if name_Equals key n then None else hct_Get (cs_table X) (storageByName s) n)"
    if "name_ok H n" for n using cs_laws(4)[OF X key(2) that] by (simp add: purged_def)
  have iff: "hct_Get (cs_table X) (storageByName s) n = Some ref \<longleftrightarrow> name_Equals key n" if "name_ok H n" for n
    using cs_entryD[OF X inv ref] key(1) that by (metis option.inject)
  have e: "cs_entry_ok H nm X ?p r" if r: "r \<in> set (lru_head (lru ?p))" for r
  proof -
    have r': "r \<in> set (lru_head (lru s))" "r \<noteq> ref" using r head by auto
    obtain k where k: "cse_name (cs_heap s r) = Some k" "name_ok H k" "hct_Get (cs_table X) (storageByName s) k = Some r"
      using cs_entryD[OF X inv r'(1)] by blast
    have "hct_Get (cs_table X) (storageByName ?p) k = Some r" using get[OF k(2)] iff[OF k(2)] k(3) r'(2) by auto
    then have "\<exists>k. cse_name (cs_heap ?p r) = Some k \<and> name_ok H k \<and> hct_Get (cs_table X) (storageByName ?p) k = Some r"
      using k(1,2) r'(2) by (intro exI[of _ k]) (simp add: purged_def)
    moreover have "cs_heap ?p r = cs_heap s r" "cs_next ?p = cs_next s" "lru_inList (lru ?p) r = lru_inList (lru s) r"
      using r'(2) l(3) by (simp_all add: purged_def)
    ultimately show ?thesis using i(2)[OF r'(1)] unfolding cs_entry_ok_def by simp
  qed
  have g: "r \<in> set (lru_head (lru ?p)) \<and> (\<exists>k. cse_name (cs_heap ?p r) = Some k \<and> name_Equals k n)"
    if n: "name_ok H n" and r: "hct_Get (cs_table X) (storageByName ?p) n = Some r" for n r
  proof -
    have s: "hct_Get (cs_table X) (storageByName s) n = Some r" "\<not> name_Equals key n" using r get[OF n] by (auto split: if_splits)
    then have "r \<noteq> ref" using iff[OF n] by auto
    then show ?thesis using i(3,4)[OF n s(1)] head by (auto simp: purged_def)
  qed
  have "0 < length (lru_head (lru s))" using ref by (auto simp: length_pos_if_in_set)
  then have len: "of_nat (length (remove1 ref (lru_head (lru s)))) = (of_nat (length (lru_head (lru s))) :: u64) - 1"
    using ref by (simp add: length_remove1 of_nat_diff Suc_leI)
  show "cs_inv H nm ok es X ?p"
    unfolding cs_inv_def
  proof (intro conjI allI impI ballI)
    show "length (lru_head (lru ?p)) \<le> unat (objectCapacity ?p)" using i(7) head(1) by (auto simp: purged_def length_remove1)
    show "objectCount ?p = of_nat (length (lru_head (lru ?p)))" "itemsInList (lru ?p) = of_nat (length (lru_head (lru ?p)))"
      using i(8,9) l(1,2) len by (simp_all add: purged_def)
  qed (use purged_index[OF X inv ref l(1)] e g i(1) head(1) in auto)
  have "name_Equals (the (cse_name (cs_heap s r))) key \<longleftrightarrow> r = ref" if r: "r \<in> set (lru_head (lru s))" for r
    using cs_entryD[OF X inv r] cs_entryD[OF X inv ref] key by (metis name_Equals_sym option.inject option.sel)
  then show "cs_items ?p = spec_del key (cs_items s)"
    using i(1) by (auto simp: cs_items_def spec_del_def purged_def l(1) distinct_remove1_removeAll removeAll_filter_not_eq filter_map comp_def
        cs_item_def intro!: map_cong filter_cong)
qed

lemma Purge_ok:
  assumes X: "cs_ops_ok H ok es X" and inv: "cs_inv H nm ok es X s" and n: "name_ok H n"
    and get: "hct_Get (cs_table X) (storageByName s) n = Some ref"
  shows "\<exists>s'. contentStoreLRU_PurgeStoreEntry X s ref = Inr s' \<and> cs_inv H nm ok es X s' \<and> cs_items s' = spec_del n (cs_items s) \<and>
    objectCapacity s' = objectCapacity s \<and> hct_Get (cs_table X) (storageByName s') n = None"
proof -
  have ref: "ref \<in> set (lru_head (lru s))" using cs_invD(3)[OF inv n get] .
  obtain key where key: "cse_name (cs_heap s ref) = Some key" "name_ok H key" "hct_Get (cs_table X) (storageByName s) key = Some ref"
    "name_Equals key n" using cs_entryD[OF X inv ref] n get by blast
  have e: "lru_inList (lru s) ref" "cse_refcount (cs_heap s ref) = 1" using cs_invD(2)[OF inv ref] by (simp_all add: cs_entry_ok_def)
  have "0 < length (lru_head (lru s))" using ref by (auto simp: length_pos_if_in_set)
  then have "itemsInList (lru s) > 0" using count_bounds(2)[OF inv] by (metis less_numeral_extra(3) unat_0 word_gt_0)
  let ?l = "(lru s)\<lparr>lru_head := remove1 ref (lru_head (lru s)), itemsInList := itemsInList (lru s) - 1\<rparr>"
  have "listLRU_EntryDestroy (lru s) ref = Inr ?l" using e(1) \<open>itemsInList (lru s) > 0\<close> by (simp add: listLRU_EntryDestroy_def)
  then have p: "contentStoreLRU_PurgeStoreEntry X s ref = Inr (purged X s ?l ref key)" using Purge_eq[OF key(1,3) e(2)] by simp
  have "spec_del key (cs_items s) = spec_del n (cs_items s)"
  proof -
    have "name_Equals a key \<longleftrightarrow> name_Equals a n" for a using key(4) name_Equals_sym name_Equals_trans by blast
    then show ?thesis by (simp add: spec_del_def)
  qed
  then show ?thesis using p purged_ok[OF X inv ref key(1,2), of ?l] n key(4) by (auto simp: purged_def)
qed

text \<open>The least recently used entry is the last of the list.\<close>

lemma butlast_remove1: "distinct xs \<Longrightarrow> xs \<noteq> [] \<Longrightarrow> butlast xs = remove1 (last xs) xs"
  by (induction xs) (auto split: if_splits)

lemma RemoveLeastUsed_ok:
  assumes X: "cs_ops_ok H ok es X" and inv: "cs_inv H nm ok es X s" and ne: "lru_head (lru s) \<noteq> []"
  shows "\<exists>s'. contentStoreLRU_RemoveLeastUsed X s = Inr (s', True) \<and> cs_inv H nm ok es X s' \<and> cs_items s' = butlast (cs_items s) \<and>
    objectCapacity s' = objectCapacity s"
proof -
  let ?r = "last (lru_head (lru s))"
  have ref: "?r \<in> set (lru_head (lru s))" using ne by simp
  obtain key where key: "cse_name (cs_heap s ?r) = Some key" "name_ok H key" "hct_Get (cs_table X) (storageByName s) key = Some ?r"
    "\<And>n. name_ok H n \<Longrightarrow> hct_Get (cs_table X) (storageByName s) n = Some ?r \<longleftrightarrow> name_Equals key n"
    using cs_entryD[OF X inv ref] by blast
  have e: "cse_refcount (cs_heap s ?r) = 1" using cs_invD(2)[OF inv ref] by (simp_all add: cs_entry_ok_def)
  have pos: "itemsInList (lru s) > 0" "objectCount s > 0"
    using count_bounds[OF inv] ne by (metis length_0_conv unat_0 word_gt_0)+
  let ?l = "(lru s)\<lparr>itemsInList := itemsInList (lru s) - 1, lru_head := butlast (lru_head (lru s)), lru_inList := (lru_inList (lru s))(?r := False)\<rparr>"
  have "listLRU_PopTail (lru s) = Inr (?l, Some ?r)" using ne pos(1) by (simp add: listLRU_PopTail_def Let_def)
  moreover have "contentStoreLRU_PurgeStoreEntry X (s\<lparr>lru := ?l\<rparr>) ?r = Inr (purged X (s\<lparr>lru := ?l\<rparr>) ?l ?r key)"
    using key e by (intro Purge_eq) (simp_all add: listLRU_EntryDestroy_def)
  moreover have "purged X (s\<lparr>lru := ?l\<rparr>) ?l ?r key = purged X s ?l ?r key" by (simp add: purged_def)
  ultimately have r: "contentStoreLRU_RemoveLeastUsed X s = Inr (purged X s ?l ?r key, True)"
    using pos(2) by (simp add: contentStoreLRU_RemoveLeastUsed_def)
  have l: "lru_head ?l = remove1 ?r (lru_head (lru s))" using butlast_remove1[OF cs_invD(1)[OF inv] ne] by simp
  have "cs_items (purged X s ?l ?r key) = butlast (cs_items s)"
  proof -
    have "butlast (lru_head (lru s)) = remove1 ?r (lru_head (lru s))" using l by simp
    then have "?r \<notin> set (butlast (lru_head (lru s)))" using cs_invD(1)[OF inv] by simp
    then show ?thesis by (auto simp: cs_items_def purged_def map_butlast[symmetric] intro!: map_cong)
  qed
  then show ?thesis using r purged_ok(1)[OF X inv ref key(1,2) l] by (auto simp: purged_def)
qed

section \<open>Eviction\<close>

lemma expiries_index:
  "set (spec_expiries (cs_items s)) = (\<lambda>((x, m, r), _). (x, m)) ` cs_index s"
proof -
  have "(\<lambda>((x, m, r), _). (x, m)) ` cs_index s =
      (\<lambda>ref. (expiryTimeTicks (cs_heap s ref), cse_message (cs_heap s ref))) ` {ref\<in>set (lru_head (lru s)). hasExpiryTimeTicks (cs_heap s ref)}"
    by (simp add: cs_index_def image_image tkey_of_def)
  moreover have "set (spec_expiries (cs_items s)) = (\<Union>ref\<in>set (lru_head (lru s)).
      if hasExpiryTimeTicks (cs_heap s ref) then {(expiryTimeTicks (cs_heap s ref), cse_message (cs_heap s ref))} else {})"
    unfolding spec_expiries_def cs_items_def set_concat set_map image_image cs_item_def by (intro SUP_cong refl) simp
  ultimately show ?thesis by auto
qed

lemma sorted_entries_Min:
  assumes "sorted_entries contentStoreEntry_CompareExpiryTime (((x, m, r), v) # rest)"
  shows "Min ((\<lambda>((x, m, r), _). (x, m)) ` set (((x, m, r), v) # rest)) = (x, m)"
proof (rule Min_eqI)
  fix y assume "y \<in> (\<lambda>((x, m, r), _). (x, m)) ` set (((x, m, r), v) # rest)"
  then consider "y = (x, m)" | a b c d where "((a, b, c), d) \<in> set rest" "y = (a, b)" by auto
  then show "(x, m) \<le> y"
  proof cases
    case 2
    then have "contentStoreEntry_CompareExpiryTime (x, m, r) (a, b, c) < 0" using assms by auto
    then have "(x, m) < (a, b)" by (simp only: CompareExpiryTime_less)
    then show ?thesis using 2(2) by (simp only: less_imp_le)
  qed simp
qed (auto intro: image_eqI[of _ _ "((x, m, r), v)"])

lemma cs_inv_stats [simp]:
  "cs_inv H nm ok es X (s\<lparr>stats := st\<rparr>) = cs_inv H nm ok es X s" "cs_items (s\<lparr>stats := st\<rparr>) = cs_items s"
  unfolding cs_inv_def cs_entry_ok_def cs_index_def cs_items_def by simp_all

text \<open>Deleting by name and by message is the same, because messages are stored once.\<close>

lemma spec_del_message:
  assumes X: "cs_ops_ok H ok es X" and inv: "cs_inv H nm ok es X s" and r: "r \<in> set (lru_head (lru s))"
    and key: "cse_name (cs_heap s r) = Some key" "name_ok H key"
  shows "spec_del key (cs_items s) = filter (\<lambda>(_, m, _). m \<noteq> cse_message (cs_heap s r)) (cs_items s)"
    "length (spec_del key (cs_items s)) < length (cs_items s)"
proof -
  have iff: "name_Equals (the (cse_name (cs_heap s r'))) key \<longleftrightarrow> cse_message (cs_heap s r') = cse_message (cs_heap s r)"
    if r': "r' \<in> set (lru_head (lru s))" for r'
    using cs_entryD[OF X inv r'] cs_entryD[OF X inv r] key cs_message_inj[OF X inv r' r]
    by (metis name_Equals_sym option.inject option.sel)
  then show "spec_del key (cs_items s) = filter (\<lambda>(_, m, _). m \<noteq> cse_message (cs_heap s r)) (cs_items s)"
    unfolding spec_del_def by (intro filter_cong refl) (auto simp: cs_items_def cs_item_def)
  have "cs_item (cs_heap s r) \<in> set (cs_items s)" using r by (simp add: cs_items_def)
  then show "length (spec_del key (cs_items s)) < length (cs_items s)"
    unfolding spec_del_def using iff[OF r] by (intro length_filter_less) (auto simp: cs_item_def)
qed

lemma evict_ok:
  assumes X: "cs_ops_ok H ok es X" and inv: "cs_inv H nm ok es X s" and ne: "lru_head (lru s) \<noteq> []"
  shows "\<exists>s'. evictByStorePolicy X s now = Inr s' \<and> cs_inv H nm ok es X s' \<and> cs_items s' = spec_evict now (cs_items s) \<and>
    objectCapacity s' = objectCapacity s \<and> length (lru_head (lru s')) < length (lru_head (lru s))"
proof -
  note i = cs_invD[OF inv] and t = cs_tree_laws[OF X cs_invD(5)[OF inv]]
  let ?st = "\<lambda>st. s\<lparr>stats := st\<rparr>"
  have inv': "cs_inv H nm ok es X (?st st)" "cs_items (?st st) = cs_items s" for st
    using inv by simp_all
  have len: "length (lru_head (lru s')) = length (cs_items s')" for s' :: "('t, 'r) ContentStoreLRU" by (simp add: cs_items_def)
  have items: "cs_items s \<noteq> []" using ne by (simp add: cs_items_def)
  define by_lru where "by_lru = bind_res (contentStoreLRU_RemoveLeastUsed X
    (?st ((stats s)\<lparr>countLruEvictions := countLruEvictions (stats s) + 1\<rparr>))) (\<lambda>(store, _). Inr store)"
  have lru: "\<exists>s'. by_lru = Inr s' \<and> cs_inv H nm ok es X s' \<and> cs_items s' = butlast (cs_items s) \<and>
      objectCapacity s' = objectCapacity s \<and> length (lru_head (lru s')) < length (lru_head (lru s))"
    using RemoveLeastUsed_ok[OF X inv'(1)] ne items inv'(2) by (fastforce simp: by_lru_def len)
  show ?thesis
  proof (cases "es (indexByExpirationTime s)")
    case Nil
    then have "spec_expiries (cs_items s) = []" using i(6) expiries_index[of s] by simp
    moreover have "listTimeOrdered_GetOldest X (indexByExpirationTime s) = None"
      using t(5) Nil by (simp add: listTimeOrdered_GetOldest_def)
    ultimately show ?thesis using lru by (simp add: evictByStorePolicy_def Let_def spec_evict_def flip: by_lru_def)
  next
    case (Cons kv rest)
    obtain x m r v where kv: "kv = ((x, m, r), v)" by (metis surj_pair)
    have "kv \<in> cs_index s" using Cons i(6) by (metis list.set_intros(1))
    then have r: "r \<in> set (lru_head (lru s))" "hasExpiryTimeTicks (cs_heap s r)" "x = expiryTimeTicks (cs_heap s r)" "m = cse_message (cs_heap s r)"
      by (auto simp: kv cs_index_def tkey_of_def)
    have old: "listTimeOrdered_GetOldest X (indexByExpirationTime s) = Some r"
      using t(5) Cons kv by (simp add: listTimeOrdered_GetOldest_def)
    have "Min (set (spec_expiries (cs_items s))) = (x, m)"
      unfolding expiries_index i(6)[symmetric] Cons kv using t(6) Cons kv by (intro sorted_entries_Min) simp
    moreover have "spec_expiries (cs_items s) \<noteq> []" using expiries_index[of s] \<open>kv \<in> cs_index s\<close> by auto
    ultimately have spec: "spec_evict now (cs_items s) =
        (if x < now then filter (\<lambda>(_, m', _). m' \<noteq> m) (cs_items s) else butlast (cs_items s))"
      by (cases "spec_expiries (cs_items s)") (simp_all add: spec_evict_def)
    show ?thesis
    proof (cases "x < now")
      case False
      then show ?thesis using lru old r spec
        by (simp add: evictByStorePolicy_def Let_def contentStoreEntry_HasExpiryTimeTicks_def contentStoreEntry_GetExpiryTimeTicks_def flip: by_lru_def)
    next
      case True
      obtain key where key: "cse_name (cs_heap s r) = Some key" "name_ok H key" "hct_Get (cs_table X) (storageByName s) key = Some r"
        using cs_entryD[OF X inv r(1)] by blast
      let ?s = "?st ((stats s)\<lparr>countExpiryEvictions := countExpiryEvictions (stats s) + 1\<rparr>)"
      obtain s' where s': "contentStoreLRU_PurgeStoreEntry X ?s r = Inr s'" "cs_inv H nm ok es X s'" "cs_items s' = spec_del key (cs_items s)"
        "objectCapacity s' = objectCapacity s"
        using Purge_ok[OF X inv'(1) key(2)] key(3) inv'(2) by fastforce
      note d = spec_del_message[OF X inv r(1) key(1,2)]
      show ?thesis using s' True old r spec d
        by (simp add: evictByStorePolicy_def Let_def contentStoreEntry_HasExpiryTimeTicks_def contentStoreEntry_GetExpiryTimeTicks_def len)
    qed
  qed
qed

section \<open>Insertion and lookup\<close>

lemma get_find:
  assumes X: "cs_ops_ok H ok es X" and inv: "cs_inv H nm ok es X s" and n: "name_ok H n"
  shows "spec_find n (cs_items s) = map_option (\<lambda>ref. cs_item (cs_heap s ref)) (hct_Get (cs_table X) (storageByName s) n)"
proof (cases "spec_find n (cs_items s)")
  case None
  have "hct_Get (cs_table X) (storageByName s) n \<noteq> Some ref" for ref
  proof
    assume g: "hct_Get (cs_table X) (storageByName s) n = Some ref"
    obtain key where "cse_name (cs_heap s ref) = Some key" "name_Equals key n" using cs_invD(4)[OF inv n g] by blast
    moreover have "cs_item (cs_heap s ref) \<in> set (cs_items s)" using cs_invD(3)[OF inv n g] by (simp add: cs_items_def)
    ultimately show False using None by (auto simp: spec_find_def find_None_iff cs_item_def)
  qed
  then show ?thesis using None by (cases "hct_Get (cs_table X) (storageByName s) n") auto
next
  case (Some it)
  then have it: "it \<in> set (cs_items s)" "name_Equals (fst it) n"
    unfolding spec_find_def find_Some_iff by (auto simp: case_prod_unfold)
  then obtain ref where ref: "ref \<in> set (lru_head (lru s))" "it = cs_item (cs_heap s ref)" by (auto simp: cs_items_def)
  then have "hct_Get (cs_table X) (storageByName s) n = Some ref"
    using it(2) n cs_entryD[OF X inv ref(1)] by (metis cs_item_def fst_conv option.sel)
  then show ?thesis using Some ref(2) by simp
qed

definition item_of :: "mref \<Rightarrow> Message \<Rightarrow> Name \<Rightarrow> cs_item" where
  "item_of r m n = (n, r, if message_HasContentExpiryTime m then Some (message_GetContentExpiryTimeTicks m) else None)"

text \<open>The store after a new entry is linked in.\<close>

definition inserted :: "('t, 'r) cs_ops \<Rightarrow> ('t, 'r) ContentStoreLRU \<Rightarrow> mref \<Rightarrow> Message \<Rightarrow> Name \<Rightarrow> ('t, 'r) ContentStoreLRU" where
  "inserted X s r m key =
     (let ref = cs_next s; e = fst (contentStoreEntry_Create r m (lru s) ref) in
      s\<lparr>lru := listLRU_NewHeadEntry (lru s) ref, cs_heap := (cs_heap s)(ref := e), cs_next := Suc ref,
        storageByName := fst (hct_Add (cs_table X) (storageByName s) key ref),
        indexByExpirationTime := (if hasExpiryTimeTicks e then rbt_Insert (cs_tree X) (indexByExpirationTime s) (tkey_of e ref) ref
                                  else indexByExpirationTime s),
        objectCount := objectCount s + 1, stats := (stats s)\<lparr>countAdds := countAdds (stats s) + 1\<rparr>\<rparr>)"

lemma inserted_index:
  assumes X: "cs_ops_ok H ok es X" and inv: "cs_inv H nm ok es X s"
    and fresh: "\<And>ref. ref \<in> set (lru_head (lru s)) \<Longrightarrow> ref \<noteq> cs_next s \<and> cse_message (cs_heap s ref) \<noteq> r"
  shows "ok (indexByExpirationTime (inserted X s r m key)) \<and>
    set (es (indexByExpirationTime (inserted X s r m key))) = cs_index (inserted X s r m key)"
proof -
  note i = cs_invD[OF inv] and t = cs_tree_laws[OF X cs_invD(5)[OF inv]]
  let ?e = "fst (contentStoreEntry_Create r m (lru s) (cs_next s))" and ?n = "cs_next s"
  have "{(k, v)\<in>cs_index s. contentStoreEntry_CompareExpiryTime (tkey_of ?e ?n) k \<noteq> 0} = cs_index s"
  proof -
    have "contentStoreEntry_CompareExpiryTime (tkey_of ?e ?n) (tkey_of (cs_heap s ref) ref) \<noteq> 0" if "ref \<in> set (lru_head (lru s))" for ref
      using fresh[OF that] by (simp add: tkey_of_def contentStoreEntry_Create_def)
    then show ?thesis by (auto simp: cs_index_def)
  qed
  moreover have "cs_index (inserted X s r m key) = (if hasExpiryTimeTicks ?e then insert (tkey_of ?e ?n, ?n) (cs_index s) else cs_index s)"
  proof -
    let ?p = "inserted X s r m key" and ?S = "{ref\<in>set (lru_head (lru s)). hasExpiryTimeTicks (cs_heap s ref)}"
    have S: "{ref\<in>set (lru_head (lru ?p)). hasExpiryTimeTicks (cs_heap ?p ref)} = (if hasExpiryTimeTicks ?e then insert ?n ?S else ?S)"
      using fresh by (auto simp: inserted_def listLRU_NewHeadEntry_def Let_def)
    have "(\<lambda>ref. (tkey_of (cs_heap ?p ref) ref, ref)) ` ?S = cs_index s"
      unfolding cs_index_def using fresh by (intro image_cong) (auto simp: inserted_def Let_def)
    moreover have "cs_heap ?p ?n = ?e" by (simp add: inserted_def Let_def)
    ultimately show ?thesis by (simp add: cs_index_def[of ?p] S)
  qed
  ultimately show ?thesis using t(1,3) i(5,6) by (auto simp: inserted_def Let_def)
qed

lemma inserted_ok:
  assumes X: "cs_ops_ok H ok es X" and inv: "cs_inv H nm ok es X s"
    and n: "msg_name m = Some n" "name_ok H n" "nm r = Some n"
    and none: "hct_Get (cs_table X) (storageByName s) n = None" and room: "length (lru_head (lru s)) < unat (objectCapacity s)"
  shows "cs_inv H nm ok es X (inserted X s r m n)" "cs_items (inserted X s r m n) = item_of r m n # cs_items s"
proof -
  let ?p = "inserted X s r m n" and ?n = "cs_next s"
  note i = cs_invD[OF inv]
  have fresh: "ref \<noteq> ?n \<and> cse_message (cs_heap s ref) \<noteq> r" if ref: "ref \<in> set (lru_head (lru s))" for ref
    using i(2)[OF ref] none n(3) unfolding cs_entry_ok_def by auto
  have heap: "cs_heap ?p ref = cs_heap s ref" if "ref \<noteq> ?n" for ref using that by (simp add: inserted_def Let_def)
  have new: "cse_name (cs_heap ?p ?n) = Some n" "cse_message (cs_heap ?p ?n) = r" "cse_refcount (cs_heap ?p ?n) = 1"
    "cs_item (cs_heap ?p ?n) = item_of r m n"
    using n(1) by (simp_all add: inserted_def contentStoreEntry_Create_def message_GetName_def cs_item_def item_of_def Let_def)
  have head: "lru_head (lru ?p) = ?n # lru_head (lru s)" "lru_inList (lru ?p) = (lru_inList (lru s))(?n := True)"
    "cs_next ?p = Suc ?n" "objectCapacity ?p = objectCapacity s"
    by (simp_all add: inserted_def listLRU_NewHeadEntry_def Let_def)
  have get: "hct_Get (cs_table X) (storageByName ?p) k = (if name_Equals n k then Some ?n else hct_Get (cs_table X) (storageByName s) k)"
    if "name_ok H k" for k using cs_laws(2)[OF X n(2) that] none by (simp add: inserted_def Let_def)
  have e: "cs_entry_ok H nm X ?p ref" if ref: "ref \<in> set (lru_head (lru ?p))" for ref
  proof (cases "ref = ?n")
    case True
    then show ?thesis using new n head get[OF n(2)] name_Equals_refl[OF n(2)] by (auto simp: cs_entry_ok_def)
  next
    case False
    then have ref': "ref \<in> set (lru_head (lru s))" using ref head by auto
    obtain k where k: "cse_name (cs_heap s ref) = Some k" "name_ok H k" "hct_Get (cs_table X) (storageByName s) k = Some ref"
      using cs_entryD[OF X inv ref'] by blast
    have "\<not> name_Equals n k" using cs_laws(5)[OF X n(2) k(2)] none k(3) by auto
    then have "\<exists>k. cse_name (cs_heap ?p ref) = Some k \<and> name_ok H k \<and> hct_Get (cs_table X) (storageByName ?p) k = Some ref"
      using k get[OF k(2)] heap[OF False] by auto
    then show ?thesis using i(2)[OF ref'] heap[OF False] head False unfolding cs_entry_ok_def by simp
  qed
  have g: "ref \<in> set (lru_head (lru ?p)) \<and> (\<exists>k. cse_name (cs_heap ?p ref) = Some k \<and> name_Equals k k')"
    if k': "name_ok H k'" and ref: "hct_Get (cs_table X) (storageByName ?p) k' = Some ref" for k' ref
  proof (cases "name_Equals n k'")
    case False
    then have s: "hct_Get (cs_table X) (storageByName s) k' = Some ref" using ref get[OF k'] by simp
    then show ?thesis using i(3,4)[OF k' s] heap[of ref] fresh[of ref] head(1) by auto
  qed (use ref get[OF k'] new(1) head in auto)
  have c: "objectCount ?p = of_nat (length (lru_head (lru ?p)))" "itemsInList (lru ?p) = of_nat (length (lru_head (lru ?p)))"
    using i(8,9) by (simp_all add: inserted_def listLRU_NewHeadEntry_def Let_def)
  have "distinct (lru_head (lru ?p))" "length (lru_head (lru ?p)) \<le> unat (objectCapacity ?p)"
    using i(1) head fresh room by auto
  then show "cs_inv H nm ok es X ?p" using e g c inserted_index[OF X inv fresh, of m n] unfolding cs_inv_def by blast
  show "cs_items ?p = item_of r m n # cs_items s"
    using fresh heap new(4) by (auto simp: cs_items_def head(1) intro!: map_cong)
qed

lemma spec_evict_subset: "set (spec_evict now L) \<subseteq> set L"
  by (auto simp: spec_evict_def Let_def dest: in_set_butlastD split: list.splits prod.splits if_splits)

text \<open>Making room and linking the new entry in.\<close>

lemma evict_insert_ok:
  assumes X: "cs_ops_ok H ok es X" and inv: "cs_inv H nm ok es X s" and cap: "objectCapacity s \<noteq> 0"
    and n: "msg_name m = Some n" "name_ok H n" "nm r = Some n"
    and none: "hct_Get (cs_table X) (storageByName s) n = None"
  shows "\<exists>s1. (if objectCount s \<ge> objectCapacity s then evictByStorePolicy X s now else Inr s) = Inr s1 \<and>
    hct_Get (cs_table X) (storageByName s1) n = None \<and> cs_inv H nm ok es X (inserted X s1 r m n) \<and>
    objectCapacity s1 = objectCapacity s \<and> cs_items (inserted X s1 r m n) = item_of r m n #
      (if unat (objectCapacity s) \<le> length (cs_items s) then spec_evict now (cs_items s) else cs_items s)"
proof -
  have full: "objectCount s \<ge> objectCapacity s \<longleftrightarrow> unat (objectCapacity s) \<le> length (cs_items s)"
    using count_bounds(1)[OF inv] by (simp add: word_le_nat_alt cs_items_def)
  show ?thesis
  proof (cases "objectCount s \<ge> objectCapacity s")
    case False
    then have room: "length (lru_head (lru s)) < unat (objectCapacity s)" using full by (simp add: cs_items_def)
    show ?thesis using False full none inserted_ok[OF X inv n none room] by simp
  next
    case True
    have "0 < unat (objectCapacity s)" using cap by (simp add: unat_gt_0)
    then have ne: "lru_head (lru s) \<noteq> []" using True full by (auto simp: cs_items_def)
    obtain s1 where s1: "evictByStorePolicy X s now = Inr s1" "cs_inv H nm ok es X s1" "cs_items s1 = spec_evict now (cs_items s)"
      "objectCapacity s1 = objectCapacity s" "length (lru_head (lru s1)) < length (lru_head (lru s))"
      using evict_ok[OF X inv ne] by blast
    have "spec_find n (cs_items s) = None" using get_find[OF X inv n(2)] none by simp
    then have "spec_find n (cs_items s1) = None" using spec_evict_subset[of now "cs_items s"] s1(3)
      unfolding spec_find_def find_None_iff by auto
    then have none1: "hct_Get (cs_table X) (storageByName s1) n = None" using get_find[OF X s1(2) n(2)] by simp
    have room: "length (lru_head (lru s1)) < unat (objectCapacity s1)" using s1(4,5) cs_invD(7)[OF inv] by simp
    show ?thesis using True full none1 s1 inserted_ok[OF X s1(2) n none1 room] by simp
  qed
qed

lemma Put_ok:
  assumes X: "cs_ops_ok H ok es X" and inv: "cs_inv H nm ok es X s"
    and m: "message_GetType m = MessagePacketType_ContentObject" and n: "msg_name m = Some n" "name_ok H n" "nm r = Some n"
  shows "\<exists>s' b. contentStoreLRU_PutContent X s r m now = Inr (s', b) \<and> cs_inv H nm ok es X s' \<and> objectCapacity s' = objectCapacity s \<and>
    (cs_items s', b) = spec_put (unat (objectCapacity s)) now (item_of r m n) (cs_items s)"
proof (cases "objectCapacity s = 0")
  case True
  then show ?thesis using m inv by (auto simp: contentStoreLRU_PutContent_def spec_put_def item_of_def)
next
  case False
  obtain s1 where s1: "(case hct_Get (cs_table X) (storageByName s) n of None \<Rightarrow> Inr s
      | Some e \<Rightarrow> contentStoreLRU_PurgeStoreEntry X s e) = Inr s1" "cs_inv H nm ok es X s1" "cs_items s1 = spec_del n (cs_items s)"
    "objectCapacity s1 = objectCapacity s" "hct_Get (cs_table X) (storageByName s1) n = None"
  proof (cases "hct_Get (cs_table X) (storageByName s) n")
    case None
    then have "spec_del n (cs_items s) = cs_items s"
      using get_find[OF X inv n(2)] unfolding spec_find_def spec_del_def by (auto simp: find_None_iff filter_id_conv)
    then show ?thesis using that[of s] None inv by simp
  next
    case (Some ref)
    then show ?thesis using that Purge_ok[OF X inv n(2) Some] by auto
  qed
  let ?x = "if message_HasContentExpiryTime m then message_GetContentExpiryTimeTicks m else contentStoreEntry_MaxExpiryTime"
  let ?L = "spec_del n (cs_items s)"
  have stale: "(case snd (snd (item_of r m n)) of Some x \<Rightarrow> x \<le> now | None \<Rightarrow> now = - 1) \<longleftrightarrow> ?x \<le> now"
    by (auto simp: item_of_def contentStoreEntry_MaxExpiryTime_def word_order.extremum_unique)
  have spec: "spec_put (unat (objectCapacity s)) now (item_of r m n) (cs_items s) =
      (if ?x \<le> now then (?L, False) else (item_of r m n # (if unat (objectCapacity s) \<le> length ?L then spec_evict now ?L else ?L), True))"
    using False stale by (simp add: spec_put_def item_of_def Let_def unat_eq_0)
  show ?thesis
  proof (cases "?x \<le> now")
    case True
    then show ?thesis using m n(1) False s1 spec
      by (auto simp: contentStoreLRU_PutContent_def message_key_def message_GetName_def Let_def)
  next
    case late: False
    obtain s2 where s2: "(if objectCount s1 \<ge> objectCapacity s1 then evictByStorePolicy X s1 now else Inr s1) = Inr s2"
      "hct_Get (cs_table X) (storageByName s2) n = None" "cs_inv H nm ok es X (inserted X s2 r m n)" "objectCapacity s2 = objectCapacity s1"
      "cs_items (inserted X s2 r m n) = item_of r m n # (if unat (objectCapacity s1) \<le> length (cs_items s1) then spec_evict now (cs_items s1) else cs_items s1)"
      using evict_insert_ok[OF X s1(2) _ n s1(5), of now] False s1(4) by auto
    have "snd (hct_Add (cs_table X) (storageByName s2) n v)" for v using cs_laws(3)[OF X n(2) n(2)] s2(2) by simp
    then have "contentStoreLRU_PutContent X s r m now = Inr (inserted X s2 r m n, True)"
      using m n(1) False s1(1) late s2(1)
      by (simp add: contentStoreLRU_PutContent_def message_key_def message_GetName_def Let_def case_prod_unfold inserted_def
          contentStoreEntry_Create_def contentStoreEntry_HasExpiryTimeTicks_def listTimeOrdered_Add_def tkey_of_def)
    moreover have "objectCapacity (inserted X s2 r m n) = objectCapacity s" using s1(4) s2(4) by (simp add: inserted_def Let_def)
    ultimately show ?thesis using late spec s1(3,4) s2(3,5) by auto
  qed
qed

lemma move_ok:
  assumes X: "cs_ops_ok H ok es X" and inv: "cs_inv H nm ok es X s" and n: "name_ok H n"
    and get: "hct_Get (cs_table X) (storageByName s) n = Some ref"
  defines "s' \<equiv> s\<lparr>lru := listLRU_EntryMoveToHead (lru s) ref\<rparr>"
  shows "cs_inv H nm ok es X s'" "cs_items s' = cs_item (cs_heap s ref) # spec_del n (cs_items s)"
proof -
  note i = cs_invD[OF inv]
  have ref: "ref \<in> set (lru_head (lru s))" using i(3)[OF n get] .
  have "0 < length (lru_head (lru s))" using ref by (auto simp: length_pos_if_in_set)
  then have head: "lru_head (lru s') = ref # remove1 ref (lru_head (lru s))" "set (lru_head (lru s')) = set (lru_head (lru s))"
    "length (lru_head (lru s')) = length (lru_head (lru s))" "distinct (lru_head (lru s'))"
    using ref i(1) by (auto simp: s'_def listLRU_EntryMoveToHead_def length_remove1)
  have "cs_index s' = cs_index s" by (simp add: cs_index_def head(2)) (simp add: s'_def)
  moreover have "cs_entry_ok H nm X s' r = cs_entry_ok H nm X s r" for r
    by (simp add: cs_entry_ok_def s'_def listLRU_EntryMoveToHead_def)
  ultimately show "cs_inv H nm ok es X s'"
    using inv unfolding cs_inv_def head(2,3) using head(4) by (simp add: s'_def listLRU_EntryMoveToHead_def)
  have "name_Equals (the (cse_name (cs_heap s r))) n \<longleftrightarrow> r = ref" if r: "r \<in> set (lru_head (lru s))" for r
    using cs_entryD[OF X inv r] n get by (metis option.inject option.sel)
  then have "filter (\<lambda>r. \<not> name_Equals (the (cse_name (cs_heap s r))) n) (lru_head (lru s)) = remove1 ref (lru_head (lru s))"
    using i(1) by (auto simp: distinct_remove1_removeAll removeAll_filter_not_eq intro!: filter_cong)
  moreover have "cs_heap s' = cs_heap s" by (simp add: s'_def)
  ultimately show "cs_items s' = cs_item (cs_heap s ref) # spec_del n (cs_items s)"
    by (simp add: cs_items_def spec_del_def head(1) filter_map comp_def cs_item_def)
qed

lemma Match_ok:
  assumes X: "cs_ops_ok H ok es X" and inv: "cs_inv H nm ok es X s"
    and m: "message_GetType m = MessagePacketType_Interest" and n: "msg_name m = Some n" "name_ok H n"
  shows "\<exists>s' b. contentStoreLRU_MatchInterest X s m now = Inr (s', b) \<and> cs_inv H nm ok es X s' \<and> objectCapacity s' = objectCapacity s \<and>
    (cs_items s', b) = spec_match now n (cs_items s)"
proof (cases "hct_Get (cs_table X) (storageByName s) n")
  case None
  then show ?thesis using get_find[OF X inv n(2)] m n(1) inv
    by (simp add: contentStoreLRU_MatchInterest_def message_key_def message_GetName_def spec_match_def)
next
  case (Some ref)
  let ?e = "cs_heap s ref"
  have find: "spec_find n (cs_items s) = Some (cs_item ?e)" using get_find[OF X inv n(2)] Some by simp
  show ?thesis
  proof (cases "hasExpiryTimeTicks ?e \<and> expiryTimeTicks ?e < now")
    case True
    obtain s' where "contentStoreLRU_PurgeStoreEntry X s ref = Inr s'" "cs_inv H nm ok es X s'" "cs_items s' = spec_del n (cs_items s)"
      "objectCapacity s' = objectCapacity s" using Purge_ok[OF X inv n(2) Some] by blast
    then show ?thesis using True find m n(1) Some
      by (simp add: contentStoreLRU_MatchInterest_def message_key_def message_GetName_def spec_match_def cs_item_def
          contentStoreEntry_HasExpiryTimeTicks_def contentStoreEntry_GetExpiryTimeTicks_def)
  next
    case False
    let ?s = "s\<lparr>lru := listLRU_EntryMoveToHead (lru s) ref, stats := (stats s)\<lparr>countHits := countHits (stats s) + 1\<rparr>\<rparr>"
    have "contentStoreLRU_MatchInterest X s m now = Inr (?s, Some (cse_message ?e))"
      using False m n(1) Some by (simp add: contentStoreLRU_MatchInterest_def message_key_def message_GetName_def
          contentStoreEntry_HasExpiryTimeTicks_def contentStoreEntry_GetExpiryTimeTicks_def contentStoreEntry_GetMessage_def)
    moreover have "cs_inv H nm ok es X ?s" "cs_items ?s = cs_item ?e # spec_del n (cs_items s)"
      using move_ok[OF X inv n(2) Some] by simp_all
    ultimately show ?thesis using False find by (auto simp: spec_match_def cs_item_def)
  qed
qed

lemma RemoveContent_ok:
  assumes X: "cs_ops_ok H ok es X" and inv: "cs_inv H nm ok es X s" and n: "msg_name m = Some n" "name_ok H n"
  shows "\<exists>s'. contentStoreLRU_RemoveContent X s m = Inr (s', spec_find n (cs_items s) \<noteq> None) \<and> cs_inv H nm ok es X s' \<and>
    objectCapacity s' = objectCapacity s \<and> cs_items s' = spec_del n (cs_items s)"
proof (cases "hct_Get (cs_table X) (storageByName s) n")
  case None
  then have f: "spec_find n (cs_items s) = None" using get_find[OF X inv n(2)] by simp
  then have "spec_del n (cs_items s) = cs_items s" unfolding spec_find_def spec_del_def by (auto simp: find_None_iff filter_id_conv)
  then show ?thesis using None f n(1) inv by (simp add: contentStoreLRU_RemoveContent_def message_key_def message_GetName_def)
next
  case (Some ref)
  then show ?thesis using get_find[OF X inv n(2)] Purge_ok[OF X inv n(2) Some] n(1)
    by (auto simp: contentStoreLRU_RemoveContent_def message_key_def message_GetName_def)
qed

section \<open>Runs\<close>

datatype cs_call = PutContent mref Message ticks | MatchInterest Message ticks | RemoveContent Message

datatype cs_reply = Stored bool | Found "mref option" | Removed bool

fun cs_step :: "('t, 'r) cs_ops \<Rightarrow> ('t, 'r) ContentStoreLRU \<Rightarrow> cs_call \<Rightarrow> (('t, 'r) ContentStoreLRU \<times> cs_reply) res" where
  "cs_step X s (PutContent r m now) = bind_res (contentStoreLRU_PutContent X s r m now) (\<lambda>(s, b). Inr (s, Stored b))"
| "cs_step X s (MatchInterest m now) = bind_res (contentStoreLRU_MatchInterest X s m now) (\<lambda>(s, b). Inr (s, Found b))"
| "cs_step X s (RemoveContent m) = bind_res (contentStoreLRU_RemoveContent X s m) (\<lambda>(s, b). Inr (s, Removed b))"

fun cs_run :: "('t, 'r) cs_ops \<Rightarrow> ('t, 'r) ContentStoreLRU \<Rightarrow> cs_call list \<Rightarrow> (('t, 'r) ContentStoreLRU \<times> cs_reply list) res" where
  "cs_run X s [] = Inr (s, [])"
| "cs_run X s (c # cs) = bind_res (cs_step X s c) (\<lambda>(s, y). bind_res (cs_run X s cs) (\<lambda>(s, ys). Inr (s, y # ys)))"

fun spec_step :: "nat \<Rightarrow> cs_item list \<Rightarrow> cs_call \<Rightarrow> cs_item list \<times> cs_reply" where
  "spec_step capacity L (PutContent r m now) = (let (L, b) = spec_put capacity now (item_of r m (the (msg_name m))) L in (L, Stored b))"
| "spec_step capacity L (MatchInterest m now) = (let (L, b) = spec_match now (the (msg_name m)) L in (L, Found b))"
| "spec_step capacity L (RemoveContent m) =
     (spec_del (the (msg_name m)) L, Removed (spec_find (the (msg_name m)) L \<noteq> None))"

fun spec_run :: "nat \<Rightarrow> cs_item list \<Rightarrow> cs_call list \<Rightarrow> cs_item list \<times> cs_reply list" where
  "spec_run capacity L [] = (L, [])"
| "spec_run capacity L (c # cs) = (let (L, y) = spec_step capacity L c; (L, ys) = spec_run capacity L cs in (L, y # ys))"

text \<open>The calls the message processor makes: data is put, interests are matched, all named.\<close>

definition named :: "hash_fun \<Rightarrow> Message \<Rightarrow> bool" where
  "named H m \<longleftrightarrow> (\<exists>n. msg_name m = Some n \<and> name_ok H n)"

fun call_ok :: "hash_fun \<Rightarrow> (mref \<Rightarrow> Name option) \<Rightarrow> cs_call \<Rightarrow> bool" where
  "call_ok H nm (PutContent r m now) \<longleftrightarrow> named H m \<and> nm r = msg_name m \<and> message_GetType m = MessagePacketType_ContentObject"
| "call_ok H nm (MatchInterest m now) \<longleftrightarrow> named H m \<and> message_GetType m = MessagePacketType_Interest"
| "call_ok H nm (RemoveContent m) \<longleftrightarrow> named H m"

lemma cs_step_ok:
  assumes X: "cs_ops_ok H ok es X" and inv: "cs_inv H nm ok es X s" and c: "call_ok H nm c"
  shows "\<exists>s' y. cs_step X s c = Inr (s', y) \<and> cs_inv H nm ok es X s' \<and> objectCapacity s' = objectCapacity s \<and>
    (cs_items s', y) = spec_step (unat (objectCapacity s)) (cs_items s) c"
proof (cases c)
  case (PutContent r m now)
  then obtain n where n: "msg_name m = Some n" "name_ok H n" "nm r = Some n" "message_GetType m = MessagePacketType_ContentObject"
    using c by (auto simp: named_def)
  from Put_ok[OF X inv n(4) n(1-3), of now] show ?thesis using PutContent n(1) by (auto split: prod.split)
next
  case (MatchInterest m now)
  then obtain n where n: "msg_name m = Some n" "name_ok H n" "message_GetType m = MessagePacketType_Interest"
    using c by (auto simp: named_def)
  from Match_ok[OF X inv n(3) n(1-2), of now] show ?thesis using MatchInterest n(1) by (auto split: prod.split)
next
  case (RemoveContent m)
  then obtain n where n: "msg_name m = Some n" "name_ok H n" using c by (auto simp: named_def)
  from RemoveContent_ok[OF X inv n] show ?thesis using RemoveContent n(1) by auto
qed

lemma cs_run_ok:
  assumes X: "cs_ops_ok H ok es X" and "cs_inv H nm ok es X s" "\<forall>c\<in>set cs. call_ok H nm c"
  shows "\<exists>s' ys. cs_run X s cs = Inr (s', ys) \<and> cs_inv H nm ok es X s' \<and> objectCapacity s' = objectCapacity s \<and>
    (cs_items s', ys) = spec_run (unat (objectCapacity s)) (cs_items s) cs"
  using assms(2,3)
proof (induction cs arbitrary: s)
  case (Cons c cs)
  obtain s1 y where s1: "cs_step X s c = Inr (s1, y)" "cs_inv H nm ok es X s1" "objectCapacity s1 = objectCapacity s"
    "(cs_items s1, y) = spec_step (unat (objectCapacity s)) (cs_items s) c" using cs_step_ok[OF X Cons.prems(1)] Cons.prems(2) by force
  from Cons.IH[OF s1(2)] Cons.prems(2) s1(3) obtain s2 ys where s2: "cs_run X s1 cs = Inr (s2, ys)" "cs_inv H nm ok es X s2"
    "objectCapacity s2 = objectCapacity s" "(cs_items s2, ys) = spec_run (unat (objectCapacity s)) (cs_items s1) cs" by auto
  then show ?case using s1(1,4) by (auto simp: Let_def split: prod.splits)
qed auto

section \<open>Properties\<close>

text \<open>
  C26. The content store is an LRU cache with expiry. Any sequence of puts, lookups and removals of
  named messages, starting from an empty store of any capacity, runs without abort; the replies and
  the entries left, in order of last use, are those of the abstract cache (a put replaces the entry
  of its name, is refused when already stale, and on a full store evicts the entry that expired
  first if one has expired and else the least recently used one; a lookup serves only unexpired
  entries and makes them most recent). The object count is the number of entries and never exceeds the capacity.
\<close>

theorem contentStore_refines_cache:
  assumes X: "cs_ops_ok H ok es X" and calls: "\<forall>c\<in>set cs. call_ok H nm c"
  shows "\<exists>s ys. cs_run X (contentStoreLRU_Init X capacity) cs = Inr (s, ys) \<and>
    (cs_items s, ys) = spec_run (unat capacity) [] cs \<and>
    unat (contentStoreLRU_GetObjectCount s) = length (cs_items s) \<and> contentStoreLRU_GetObjectCount s \<le> capacity"
proof -
  note I = contentStoreLRU_Init_inv
  have cap: "objectCapacity (contentStoreLRU_Init X capacity) = capacity" by (simp add: contentStoreLRU_Init_def)
  obtain s ys where s: "cs_run X (contentStoreLRU_Init X capacity) cs = Inr (s, ys)" "cs_inv H nm ok es X s"
    "objectCapacity s = capacity" "(cs_items s, ys) = spec_run (unat capacity) [] cs"
    using cs_run_ok[OF X I(1)[OF X, of nm capacity] calls] by (auto simp: cap I(2))
  have "unat (objectCount s) = length (cs_items s)" "objectCount s \<le> capacity"
    using count_bounds(1)[OF s(2)] cs_invD(7)[OF s(2)] s(3) by (simp_all add: cs_items_def word_le_nat_alt)
  then show ?thesis using s by (auto simp: contentStoreLRU_GetObjectCount_def)
qed

definition ex_cs_ops :: "((Name \<times> nat) list, (tkey \<times> nat) list) cs_ops" where
  "ex_cs_ops = \<lparr>cs_table = ex_pit_table, cs_tree = sl_rbt contentStoreEntry_CompareExpiryTime\<rparr>"

lemma ex_cs_ops_ok: "cs_ops_ok H (sorted_entries contentStoreEntry_CompareExpiryTime) id ex_cs_ops"
proof -
  have "order_cmp contentStoreEntry_CompareExpiryTime"
    unfolding order_cmp_def by (auto simp: contentStoreEntry_CompareExpiryTime.simps)
  then show ?thesis by (simp add: cs_ops_ok_def ex_cs_ops_def ex_pit_table_ok sl_rbt_laws)
qed

definition ex_data :: Message where
  "ex_data = message_CreateFromByteArray (\<lambda>d s. s) 7 (tcp_set_lifetime ex_packet6 40 2000) MessagePacketType_ContentObject 5"

lemma ex_names: "named (\<lambda>d s. s) ex_data" "named (\<lambda>d s. s) ex_interest"
  "msg_name ex_data = msg_name ex_interest"
  "message_GetType ex_data = MessagePacketType_ContentObject" "message_GetType ex_interest = MessagePacketType_Interest"
proof -
  show e: "msg_name ex_data = msg_name ex_interest" by code_simp
  show "named (\<lambda>d s. s) ex_interest" using ex_interest_name unfolding named_def .
  then show "named (\<lambda>d s. s) ex_data" unfolding named_def e .
  show "message_GetType ex_data = MessagePacketType_ContentObject" "message_GetType ex_interest = MessagePacketType_Interest"
    by code_simp+
qed

theorem contentStore_refines_cache_witness:
  "\<exists>s. cs_run ex_cs_ops (contentStoreLRU_Init ex_cs_ops 1) [PutContent 0 ex_data 5, MatchInterest ex_interest 6] =
     Inr (s, [Stored True, Found (Some 0)]) \<and> contentStoreLRU_GetObjectCount s \<le> 1"
proof -
  let ?cs = "[PutContent 0 ex_data 5, MatchInterest ex_interest 6]"
  have "snd (spec_run (unat (1 :: u64)) [] ?cs) = [Stored True, Found (Some 0)]" by code_simp
  moreover have "\<forall>c\<in>set ?cs. call_ok (\<lambda>d s. s) (\<lambda>_. msg_name ex_data) c" using ex_names by simp
  ultimately show ?thesis
    using contentStore_refines_cache[OF ex_cs_ops_ok, of ?cs "\<lambda>d s. s" "\<lambda>_. msg_name ex_data" 1] by (metis snd_conv)
qed

text \<open>
  What is put is found: after data was stored, an interest for its name, asked before the data
  expires, is answered with that data.
\<close>

theorem contentStore_put_match:
  assumes X: "cs_ops_ok H ok es X" and inv: "cs_inv H nm ok es X s" and put: "call_ok H nm (PutContent r m now)"
    and stored: "contentStoreLRU_PutContent X s r m now = Inr (s', True)"
    and i: "message_GetType i = MessagePacketType_Interest" "msg_name i = Some k" "name_ok H k" "name_Equals (the (msg_name m)) k"
    and fresh: "message_HasContentExpiryTime m \<longrightarrow> now' \<le> message_GetContentExpiryTimeTicks m"
  shows "\<exists>s''. contentStoreLRU_MatchInterest X s' i now' = Inr (s'', Some r)"
proof -
  obtain n where n: "msg_name m = Some n" "name_ok H n" "nm r = Some n" "message_GetType m = MessagePacketType_ContentObject"
    using put by (auto simp: named_def)
  have s': "cs_inv H nm ok es X s'" "(cs_items s', True) = spec_put (unat (objectCapacity s)) now (item_of r m n) (cs_items s)"
    using Put_ok[OF X inv n(4) n(1-3), of now] stored by auto
  then obtain L where "cs_items s' = item_of r m n # L" by (auto simp: spec_put_def Let_def split: if_splits prod.splits)
  then have "spec_find k (cs_items s') = Some (item_of r m n)" using i(4) n(1) by (simp add: spec_find_def item_of_def)
  then have "snd (spec_match now' k (cs_items s')) = Some r" using fresh by (auto simp: spec_match_def item_of_def)
  then show ?thesis using Match_ok[OF X s'(1) i(1-3), of now'] by (metis snd_conv)
qed

theorem contentStore_put_match_witness:
  "\<exists>s' s''. contentStoreLRU_PutContent ex_cs_ops (contentStoreLRU_Init ex_cs_ops 1) 3 ex_data 5 = Inr (s', True) \<and>
     contentStoreLRU_MatchInterest ex_cs_ops s' ex_interest 5 = Inr (s'', Some 3)"
proof -
  let ?H = "\<lambda>d s. s" and ?nm = "\<lambda>_::mref. msg_name ex_data"
  obtain k where k: "msg_name ex_interest = Some k" "name_ok ?H k" using ex_interest_name by blast
  note inv = contentStoreLRU_Init_inv(1)[OF ex_cs_ops_ok, of ?H ?nm 1]
  have put: "call_ok ?H ?nm (PutContent 3 ex_data 5)" using ex_names by simp
  have "snd (spec_put (unat (1 :: u64)) 5 (item_of 3 ex_data (the (msg_name ex_data))) []) = True" by code_simp
  then obtain s' where s': "contentStoreLRU_PutContent ex_cs_ops (contentStoreLRU_Init ex_cs_ops 1) 3 ex_data 5 = Inr (s', True)"
    using Put_ok[OF ex_cs_ops_ok inv ex_names(4), of k 3 5] k ex_names(3) contentStoreLRU_Init_inv(2)[of ex_cs_ops 1]
    by (auto simp: contentStoreLRU_Init_def dest: arg_cong[of _ _ snd])
  have fresh: "message_HasContentExpiryTime ex_data \<longrightarrow> 5 \<le> message_GetContentExpiryTimeTicks ex_data" by code_simp
  have "name_Equals (the (msg_name ex_data)) k" using k ex_names(3) by simp
  from contentStore_put_match[OF ex_cs_ops_ok inv put s' ex_names(5) k this fresh] s' show ?thesis by blast
qed

end
