(* ===== verification/Strategies.thy ===== *)
theory Strategies
  imports Complex_Main NumberSet Libparc Message
begin

text \<open>
  The forwarding strategies \<^verbatim>\<open>loadBalancer.c\<close> and \<^verbatim>\<open>rnd.c\<close> of \<^verbatim>\<open>hicn-light/src/hicn/strategies/\<close>, the
  per-nexthop state of \<^verbatim>\<open>nexthopState.c\<close> and the dispatch structure of \<^verbatim>\<open>strategyImpl.h\<close>, as compiled
  with \<^verbatim>\<open>WITH_POLICY\<close>.

  C leaves the accuracy of floating-point arithmetic to the implementation, so the arithmetic is a
  parameter (\<open>F\<close>, a record of operations on a type of doubles \<open>'d\<close>); \<open>exact_fp\<close> is its instance on
  rational numbers. The hash map of libparc is the parameter \<open>M\<close>. The value of \<^verbatim>\<open>rand()\<close> is an
  argument. The low-latency strategy is in the theory \<open>LowLatency\<close>; here its operations are a parameter of the
  dispatch functions.

  The locale \<open>next_hop_selection\<close> states what a FIB entry relies on when it looks for a next hop: a lookup
  among available next hops returns, picks at most one and picks an available one;
  \<open>forwarding_strategy\<close> adds the notifications. The load balancer, the random strategy and the dispatch
  over them are instances.
\<close>

section \<open>Floating point\<close>

record 'd fp_ops =
  fp_const :: "rat \<Rightarrow> 'd"
  fp_int :: "int \<Rightarrow> 'd"
  fp_add :: "'d \<Rightarrow> 'd \<Rightarrow> 'd"
  fp_sub :: "'d \<Rightarrow> 'd \<Rightarrow> 'd"
  fp_mul :: "'d \<Rightarrow> 'd \<Rightarrow> 'd"
  fp_div :: "'d \<Rightarrow> 'd \<Rightarrow> 'd"
  fp_less :: "'d \<Rightarrow> 'd \<Rightarrow> bool"
  fp_float :: "'d \<Rightarrow> 'd"

definition exact_fp :: "rat fp_ops" where
  "exact_fp = \<lparr>fp_const = id, fp_int = of_int, fp_add = (+), fp_sub = (-), fp_mul = (*), fp_div = (/), fp_less = (<), fp_float = id\<rparr>"

lemma exact_fp_simps [simp]:
  "fp_const exact_fp c = c" "fp_int exact_fp i = of_int i" "fp_add exact_fp x y = x + y" "fp_sub exact_fp x y = x - y"
  "fp_mul exact_fp x y = x * y" "fp_div exact_fp x y = x / y" "fp_less exact_fp x y \<longleftrightarrow> x < y" "fp_float exact_fp x = x"
  by (simp_all add: exact_fp_def)

section \<open>State of a next hop\<close>

record 'd StrategyNexthopState =
  nh_pi :: u32
  avg_pi :: 'd
  weight :: 'd

definition AVG_PI_THRESHOLD :: "'d fp_ops \<Rightarrow> 'd" where
  "AVG_PI_THRESHOLD F = fp_const F (1 / 1000)"

definition strategyNexthopState_Create :: "'d fp_ops \<Rightarrow> 'd StrategyNexthopState" where
  "strategyNexthopState_Create F = \<lparr>nh_pi = 0, avg_pi = fp_const F 0, weight = fp_const F 1\<rparr>"

definition strategyNexthopState_Reset :: "'d fp_ops \<Rightarrow> 'd StrategyNexthopState \<Rightarrow> 'd StrategyNexthopState" where
  "strategyNexthopState_Reset F x = x\<lparr>nh_pi := 0, avg_pi := fp_const F 0, weight := fp_const F 1\<rparr>"

definition strategyNexthopState_Compare ::
  "'d fp_ops \<Rightarrow> 'd StrategyNexthopState option \<Rightarrow> 'd StrategyNexthopState option \<Rightarrow> int" where
  "strategyNexthopState_Compare F pval pother =
     (case (pval, pother) of
        (None, None) \<Rightarrow> 0
      | (None, Some _) \<Rightarrow> -1
      | (Some _, None) \<Rightarrow> 1
      | (Some val, Some other) \<Rightarrow>
          if nh_pi val < nh_pi other then -1 else if nh_pi val > nh_pi other then 1
          else if fp_less F (avg_pi val) (avg_pi other) then -1 else if fp_less F (avg_pi other) (avg_pi val) then 1
          else if fp_less F (weight val) (weight other) then -1 else if fp_less F (weight other) (weight val) then 1
          else 0)"

definition strategyNexthopState_Copy :: "'d fp_ops \<Rightarrow> 'd StrategyNexthopState \<Rightarrow> 'd StrategyNexthopState" where
  "strategyNexthopState_Copy F original =
     (strategyNexthopState_Create F)\<lparr>nh_pi := nh_pi original, avg_pi := avg_pi original, weight := weight original\<rparr>"

text \<open>Two null pointers are equal by the comparison of pointers; equal pointers compare as 0.\<close>

definition strategyNexthopState_Equals ::
  "'d fp_ops \<Rightarrow> 'd StrategyNexthopState option \<Rightarrow> 'd StrategyNexthopState option \<Rightarrow> bool" where
  "strategyNexthopState_Equals F px py =
     (case (px, py) of
        (None, None) \<Rightarrow> True
      | (Some x, Some y) \<Rightarrow> strategyNexthopState_Compare F (Some x) (Some y) = 0
      | _ \<Rightarrow> False)"

definition strategyNexthopState_GetPI :: "'d StrategyNexthopState \<Rightarrow> u32" where
  "strategyNexthopState_GetPI x = nh_pi x"

definition strategyNexthopState_GetAvgPI :: "'d StrategyNexthopState \<Rightarrow> 'd" where
  "strategyNexthopState_GetAvgPI x = avg_pi x"

definition strategyNexthopState_GetWeight :: "'d StrategyNexthopState \<Rightarrow> 'd" where
  "strategyNexthopState_GetWeight x = weight x"

definition strategyNexthopState_UpdateState ::
  "'d fp_ops \<Rightarrow> 'd StrategyNexthopState \<Rightarrow> bool \<Rightarrow> 'd \<Rightarrow> 'd StrategyNexthopState" where
  "strategyNexthopState_UpdateState F x inc alpha =
     (let x = (if inc then x\<lparr>nh_pi := nh_pi x + 1\<rparr> else if nh_pi x > 0 then x\<lparr>nh_pi := nh_pi x - 1\<rparr> else x);
          x = x\<lparr>avg_pi := fp_add F (fp_mul F (avg_pi x) alpha)
                            (fp_mul F (fp_int F (uint (nh_pi x))) (fp_sub F (fp_const F 1) alpha))\<rparr>;
          x = (if fp_less F (avg_pi x) (AVG_PI_THRESHOLD F) then x\<lparr>avg_pi := fp_const F (1 / 10)\<rparr> else x)
      in x\<lparr>weight := fp_div F (fp_const F 1) (avg_pi x)\<rparr>)"

section \<open>Loops over number sets\<close>

text \<open>\<^verbatim>\<open>for (i = 0; i < numberSet_Length(set); i++) { id = numberSet_GetItem(set, i); ... }\<close>\<close>

definition ns_for :: "NumberSet \<Rightarrow> ('s \<Rightarrow> connid \<Rightarrow> 's res) \<Rightarrow> 's \<Rightarrow> 's res" where
  "ns_for s f st =
     foldl (\<lambda>acc i. bind_res acc (\<lambda>st. bind_res (numberSet_GetItem s i) (f st))) (Inr st) [0..<numberSet_Length s]"

lemma foldl_bind_Inl: "foldl (\<lambda>acc x. bind_res acc (\<lambda>st. f st x)) (Inl e) xs = Inl e"
  by (induction xs) auto

lemma foldl_bind: "foldl (\<lambda>acc x. bind_res acc (\<lambda>st. f st x)) (Inr st) xs = fold_res f st xs"
proof (induction xs arbitrary: st)
  case (Cons x xs)
  then show ?case by (cases "f st x") (simp_all add: foldl_bind_Inl)
qed simp

lemma fold_res_map: "fold_res f st (map g xs) = fold_res (\<lambda>st x. f st (g x)) st xs"
  by (induction xs arbitrary: st) auto

lemma fold_res_cong: "(\<And>st x. x \<in> set xs \<Longrightarrow> f st x = g st x) \<Longrightarrow> fold_res f st xs = fold_res g st xs"
  by (induction xs arbitrary: st) auto

lemma fold_res_pure: "fold_res (\<lambda>st x. Inr (f st x)) st xs = Inr (foldl f st xs)"
  by (induction xs arbitrary: st) auto

lemma GetItem_items: "ns_inv s \<Longrightarrow> i < numberSet_Length s \<Longrightarrow> numberSet_GetItem s i = Inr (ns_items s ! i)"
  by (simp add: numberSet_GetItem_def numberSet_Length_def ns_items_index)

lemma ns_for_items:
  assumes "ns_inv s"
  shows "ns_for s f st = fold_res f st (ns_items s)"
proof -
  have "fold_res (\<lambda>st i. bind_res (numberSet_GetItem s i) (f st)) st [0..<numberSet_Length s] =
      fold_res (\<lambda>st i. f st (arrayOfNumbers s ! i)) st [0..<numberSet_Length s]"
    by (rule fold_res_cong) (simp add: numberSet_GetItem_def numberSet_Length_def)
  also have "\<dots> = fold_res f st (ns_items s)"
    unfolding map_nth_items[OF assms, symmetric] fold_res_map numberSet_Length_def ..
  finally show ?thesis by (simp add: ns_for_def foldl_bind)
qed

section \<open>The load balancer\<close>

text \<open>
  The strategy keeps a hash map from connection identifiers to their state. The map holds the only
  references to the states, so changing the state a lookup returns is putting the changed state back.
\<close>

definition update_Stats :: "'d fp_ops \<Rightarrow> ('t, connid, 'd StrategyNexthopState) hm_ops \<Rightarrow> 't \<Rightarrow> connid \<Rightarrow> 'd StrategyNexthopState \<Rightarrow> bool \<Rightarrow> 't" where
  "update_Stats F M lb cid state inc = hm_Put M lb cid (strategyNexthopState_UpdateState F state inc (fp_const F (9 / 10)))"

definition strategyLoadBalancer_Create :: "('t, connid, 'd StrategyNexthopState) hm_ops \<Rightarrow> 't" where
  "strategyLoadBalancer_Create M = hm_Create M"

definition strategyLoadBalancer_OnTimeout ::
  "'d fp_ops \<Rightarrow> ('t, connid, 'd StrategyNexthopState) hm_ops \<Rightarrow> 't \<Rightarrow> NumberSet \<Rightarrow> 't res" where
  "strategyLoadBalancer_OnTimeout F M lb egressId =
     ns_for egressId (\<lambda>lb outId. case hm_Get M lb outId of
                                   Some state \<Rightarrow> Inr (update_Stats F M lb outId state False)
                                 | None \<Rightarrow> Inr lb) lb"

definition strategyLoadBalancer_ReceiveObject ::
  "'d fp_ops \<Rightarrow> ('t, connid, 'd StrategyNexthopState) hm_ops \<Rightarrow> 't \<Rightarrow> NumberSet \<Rightarrow> Message \<Rightarrow> ticks \<Rightarrow> ticks \<Rightarrow> 't res" where
  "strategyLoadBalancer_ReceiveObject F M lb egressId objectMessage pitEntryCreation objReception =
     strategyLoadBalancer_OnTimeout F M lb egressId"

definition RAND_MAX :: nat where "RAND_MAX = 2147483647"

definition lb_weights_sum :: "'d fp_ops \<Rightarrow> ('t, connid, 'd StrategyNexthopState) hm_ops \<Rightarrow> 't \<Rightarrow> NumberSet \<Rightarrow> 'd res" where
  "lb_weights_sum F M lb nexthops =
     ns_for nexthops (\<lambda>total cid. case hm_Get M lb cid of
                                    None \<Rightarrow> Inr total
                                  | Some elem \<Rightarrow> Inr (fp_add F total (strategyNexthopState_GetWeight elem))) (fp_const F 0)"

fun lb_select ::
  "'d fp_ops \<Rightarrow> ('t, connid, 'd StrategyNexthopState) hm_ops \<Rightarrow> 't \<Rightarrow> NumberSet \<Rightarrow> 'd \<Rightarrow> nat list \<Rightarrow> (NumberSet \<times> 't) res" where
  "lb_select F M lb nexthops distance [] = Inr (numberSet_Create, lb)"
| "lb_select F M lb nexthops distance (i # is) =
     bind_res (numberSet_GetItem nexthops i) (\<lambda>cid.
     case hm_Get M lb cid of
       None \<Rightarrow> lb_select F M lb nexthops distance is
     | Some state \<Rightarrow>
         (let distance = fp_sub F distance (strategyNexthopState_GetWeight state) in
          if fp_less F distance (fp_const F 0)
          then Inr (fst (numberSet_Add numberSet_Create cid), update_Stats F M lb cid state True)
          else lb_select F M lb nexthops distance is))"

definition strategyLoadBalancer_LookupNexthop ::
  "'d fp_ops \<Rightarrow> ('t, connid, 'd StrategyNexthopState) hm_ops \<Rightarrow> nat \<Rightarrow> 't \<Rightarrow> NumberSet \<Rightarrow> Message \<Rightarrow> (NumberSet \<times> 't) res" where
  "strategyLoadBalancer_LookupNexthop F M rnd lb nexthops interestMessage =
     bind_res (lb_weights_sum F M lb nexthops) (\<lambda>total.
     let distance = fp_div F (fp_mul F (fp_int F (int rnd)) total) (fp_add F (fp_int F (int RAND_MAX)) (fp_const F 1))
     in lb_select F M lb nexthops distance [0..<numberSet_Length nexthops])"

text \<open>The iteration over the keys; every key of the iterator is present.\<close>

definition strategyLoadBalancer_resetState ::
  "'d fp_ops \<Rightarrow> ('t, connid, 'd StrategyNexthopState) hm_ops \<Rightarrow> 't \<Rightarrow> 't" where
  "strategyLoadBalancer_resetState F M lb =
     foldl (\<lambda>lb cid. case hm_Get M lb cid of None \<Rightarrow> lb | Some elem \<Rightarrow> hm_Put M lb cid (strategyNexthopState_Reset F elem))
       lb (hm_Keys M lb)"

definition strategyLoadBalancer_AddNexthop ::
  "'d fp_ops \<Rightarrow> ('t, connid, 'd StrategyNexthopState) hm_ops \<Rightarrow> 't \<Rightarrow> connid \<Rightarrow> 't" where
  "strategyLoadBalancer_AddNexthop F M lb connectionId =
     (if \<not> hm_Contains M lb connectionId
      then strategyLoadBalancer_resetState F M (hm_Put M lb connectionId (strategyNexthopState_Create F))
      else lb)"

definition strategyLoadBalancer_RemoveNexthop ::
  "'d fp_ops \<Rightarrow> ('t, connid, 'd StrategyNexthopState) hm_ops \<Rightarrow> 't \<Rightarrow> connid \<Rightarrow> 't" where
  "strategyLoadBalancer_RemoveNexthop F M lb connectionId =
     (if hm_Contains M lb connectionId
      then strategyLoadBalancer_resetState F M (hm_Remove M lb connectionId)
      else lb)"

section \<open>The random strategy\<close>

text \<open>It has no state; its other operations do nothing. The remainder by a length of zero traps.\<close>

definition strategyRnd_LookupNexthop :: "nat \<Rightarrow> NumberSet \<Rightarrow> Message \<Rightarrow> NumberSet res" where
  "strategyRnd_LookupNexthop rnd nexthops interestMessage =
     (if numberSet_Length nexthops = 0 then Inl DivisionByZero
      else bind_res (numberSet_GetItem nexthops (rnd mod numberSet_Length nexthops)) (\<lambda>out_connection.
           Inr (fst (numberSet_Add numberSet_Create out_connection))))"

section \<open>Dispatch\<close>

datatype strategy_type = SET_STRATEGY_LOADBALANCER | SET_STRATEGY_RANDOM | SET_STRATEGY_LOW_LATENCY | LAST_STRATEGY_VALUE

text \<open>The context of a strategy; that of the low-latency strategy is of the abstract type \<open>'l\<close>.\<close>

datatype ('t, 'l) strategy = LoadBalancer 't | Rnd | LowLatency 'l

record ('l) ll_ops =
  ll_Create :: 'l
  ll_SetStrategy :: "'l \<Rightarrow> Name list \<Rightarrow> 'l"
  ll_receiveObject :: "'l \<Rightarrow> NumberSet \<Rightarrow> Message \<Rightarrow> ticks \<Rightarrow> ticks \<Rightarrow> 'l res"
  ll_onTimeout :: "'l \<Rightarrow> NumberSet \<Rightarrow> 'l res"
  ll_lookupNexthop :: "'l \<Rightarrow> NumberSet \<Rightarrow> Message \<Rightarrow> (NumberSet \<times> 'l) res"
  ll_addNexthop :: "'l \<Rightarrow> connid \<Rightarrow> 'l"
  ll_removeNexthop :: "'l \<Rightarrow> connid \<Rightarrow> 'l"

record ('d, 't, 'l) st_ops =
  st_fp :: "'d fp_ops"
  st_hm :: "('t, connid, 'd StrategyNexthopState) hm_ops"
  st_ll :: "'l ll_ops"

fun strategy_lookupNexthop ::
  "('d, 't, 'l) st_ops \<Rightarrow> nat \<Rightarrow> ('t, 'l) strategy \<Rightarrow> NumberSet \<Rightarrow> Message \<Rightarrow> (NumberSet \<times> ('t, 'l) strategy) res" where
  "strategy_lookupNexthop S rnd (LoadBalancer lb) nexthops m =
     bind_res (strategyLoadBalancer_LookupNexthop (st_fp S) (st_hm S) rnd lb nexthops m) (\<lambda>(out, lb). Inr (out, LoadBalancer lb))"
| "strategy_lookupNexthop S rnd Rnd nexthops m = bind_res (strategyRnd_LookupNexthop rnd nexthops m) (\<lambda>out. Inr (out, Rnd))"
| "strategy_lookupNexthop S rnd (LowLatency l) nexthops m =
     bind_res (ll_lookupNexthop (st_ll S) l nexthops m) (\<lambda>(out, l). Inr (out, LowLatency l))"

fun strategy_onTimeout :: "('d, 't, 'l) st_ops \<Rightarrow> ('t, 'l) strategy \<Rightarrow> NumberSet \<Rightarrow> ('t, 'l) strategy res" where
  "strategy_onTimeout S (LoadBalancer lb) egress =
     bind_res (strategyLoadBalancer_OnTimeout (st_fp S) (st_hm S) lb egress) (\<lambda>lb. Inr (LoadBalancer lb))"
| "strategy_onTimeout S Rnd egress = Inr Rnd"
| "strategy_onTimeout S (LowLatency l) egress = bind_res (ll_onTimeout (st_ll S) l egress) (\<lambda>l. Inr (LowLatency l))"

fun strategy_receiveObject ::
  "('d, 't, 'l) st_ops \<Rightarrow> ('t, 'l) strategy \<Rightarrow> NumberSet \<Rightarrow> Message \<Rightarrow> ticks \<Rightarrow> ticks \<Rightarrow> ('t, 'l) strategy res" where
  "strategy_receiveObject S (LoadBalancer lb) egress m t t' =
     bind_res (strategyLoadBalancer_ReceiveObject (st_fp S) (st_hm S) lb egress m t t') (\<lambda>lb. Inr (LoadBalancer lb))"
| "strategy_receiveObject S Rnd egress m t t' = Inr Rnd"
| "strategy_receiveObject S (LowLatency l) egress m t t' =
     bind_res (ll_receiveObject (st_ll S) l egress m t t') (\<lambda>l. Inr (LowLatency l))"

fun strategy_addNexthop :: "('d, 't, 'l) st_ops \<Rightarrow> ('t, 'l) strategy \<Rightarrow> connid \<Rightarrow> ('t, 'l) strategy" where
  "strategy_addNexthop S (LoadBalancer lb) c = LoadBalancer (strategyLoadBalancer_AddNexthop (st_fp S) (st_hm S) lb c)"
| "strategy_addNexthop S Rnd c = Rnd"
| "strategy_addNexthop S (LowLatency l) c = LowLatency (ll_addNexthop (st_ll S) l c)"

fun strategy_removeNexthop :: "('d, 't, 'l) st_ops \<Rightarrow> ('t, 'l) strategy \<Rightarrow> connid \<Rightarrow> ('t, 'l) strategy" where
  "strategy_removeNexthop S (LoadBalancer lb) c = LoadBalancer (strategyLoadBalancer_RemoveNexthop (st_fp S) (st_hm S) lb c)"
| "strategy_removeNexthop S Rnd c = Rnd"
| "strategy_removeNexthop S (LowLatency l) c = LowLatency (ll_removeNexthop (st_ll S) l c)"

fun strategy_getStrategy :: "('t, 'l) strategy \<Rightarrow> strategy_type" where
  "strategy_getStrategy (LoadBalancer lb) = SET_STRATEGY_LOADBALANCER"
| "strategy_getStrategy Rnd = SET_STRATEGY_RANDOM"
| "strategy_getStrategy (LowLatency l) = SET_STRATEGY_LOW_LATENCY"

section \<open>The interface of a strategy\<close>

text \<open>What a FIB entry relies on: the operations return, and a lookup picks at most one of the available next hops.\<close>

locale next_hop_selection =
  fixes lookup :: "nat \<Rightarrow> 's \<Rightarrow> NumberSet \<Rightarrow> Message \<Rightarrow> (NumberSet \<times> 's) res"
    and add :: "'s \<Rightarrow> connid \<Rightarrow> 's"
    and remove :: "'s \<Rightarrow> connid \<Rightarrow> 's"
    and invar :: "'s \<Rightarrow> bool"
  assumes lookup_ok: "invar s \<Longrightarrow> ns_inv avail \<Longrightarrow> ns_items avail \<noteq> [] \<Longrightarrow>
      \<exists>out s'. lookup rnd s avail m = Inr (out, s') \<and> invar s' \<and> ns_inv out \<and>
        ns_set out \<subseteq> ns_set avail \<and> length (ns_items out) \<le> 1"
    and add_ok: "invar s \<Longrightarrow> invar (add s c)"
    and remove_ok: "invar s \<Longrightarrow> invar (remove s c)"
begin

text \<open>A strategy is never led outside what is available, whatever happened to it before.\<close>

lemma add_all_ok: "invar s \<Longrightarrow> invar (foldl add s cs)"
  by (induction cs arbitrary: s) (simp_all add: add_ok)

lemma lookup_excludes:
  assumes "invar s" "ns_inv avail" "ns_items avail \<noteq> []" "c \<notin> ns_set avail" "lookup rnd s avail m = Inr (out, s')"
  shows "c \<notin> ns_set out"
  using lookup_ok[OF assms(1-3), of rnd m] assms(4,5) by auto

end

text \<open>The whole interface: the notifications about data and timeouts return as well.\<close>

locale forwarding_strategy = next_hop_selection lookup add remove invar
  for lookup :: "nat \<Rightarrow> 's \<Rightarrow> NumberSet \<Rightarrow> Message \<Rightarrow> (NumberSet \<times> 's) res"
    and add :: "'s \<Rightarrow> connid \<Rightarrow> 's"
    and remove :: "'s \<Rightarrow> connid \<Rightarrow> 's"
    and invar :: "'s \<Rightarrow> bool" +
  fixes timeout :: "'s \<Rightarrow> NumberSet \<Rightarrow> 's res"
    and received :: "'s \<Rightarrow> NumberSet \<Rightarrow> Message \<Rightarrow> ticks \<Rightarrow> ticks \<Rightarrow> 's res"
  assumes timeout_ok: "invar s \<Longrightarrow> ns_inv egress \<Longrightarrow> \<exists>s'. timeout s egress = Inr s' \<and> invar s'"
    and received_ok: "invar s \<Longrightarrow> ns_inv egress \<Longrightarrow> \<exists>s'. received s egress m t t' = Inr s' \<and> invar s'"

lemma ns_singleton:
  "ns_inv (fst (numberSet_Add numberSet_Create c))" "ns_items (fst (numberSet_Add numberSet_Create c)) = [c]"
  "ns_set (fst (numberSet_Add numberSet_Create c)) = {c}"
  by (simp_all add: Add_abs Add_items)

lemma lb_select_ok:
  assumes "ns_inv avail" "\<forall>i\<in>set is. i < numberSet_Length avail"
  shows "\<exists>out lb'. lb_select F M lb avail d is = Inr (out, lb') \<and> ns_inv out \<and> ns_set out \<subseteq> ns_set avail \<and> length (ns_items out) \<le> 1"
  using assms(2)
proof (induction "is" arbitrary: d)
  case (Cons i "is")
  have "numberSet_GetItem avail i = Inr (ns_items avail ! i)" using GetItem_items[OF assms(1)] Cons.prems by simp
  moreover have "ns_items avail ! i \<in> ns_set avail"
    using Cons.prems assms(1) by (simp add: ns_set_def numberSet_Length_def ns_items_index)
  ultimately show ?case using Cons by (auto simp: Let_def ns_singleton split: option.split)
qed simp

lemma lb_sum_ok: "ns_inv avail \<Longrightarrow> \<exists>total. lb_weights_sum F M lb avail = Inr total"
proof -
  assume inv: "ns_inv avail"
  have "\<exists>total. fold_res (\<lambda>total cid. case hm_Get M lb cid of None \<Rightarrow> Inr total
      | Some elem \<Rightarrow> Inr (fp_add F total (strategyNexthopState_GetWeight elem))) st xs = Inr total" for st xs
    by (induction xs arbitrary: st) (auto split: option.split)
  then show ?thesis by (simp add: lb_weights_sum_def ns_for_items[OF inv])
qed

lemma lb_timeout_ok: "ns_inv egress \<Longrightarrow> \<exists>lb'. strategyLoadBalancer_OnTimeout F M lb egress = Inr lb'"
proof -
  assume inv: "ns_inv egress"
  have "\<exists>lb'. fold_res (\<lambda>lb outId. case hm_Get M lb outId of
      Some state \<Rightarrow> Inr (update_Stats F M lb outId state False) | None \<Rightarrow> Inr lb) lb xs = Inr lb'" for lb xs
    by (induction xs arbitrary: lb) (auto split: option.split)
  then show ?thesis by (simp add: strategyLoadBalancer_OnTimeout_def ns_for_items[OF inv])
qed

lemma lb_lookup_ok:
  assumes "ns_inv avail"
  shows "\<exists>out lb'. strategyLoadBalancer_LookupNexthop F M rnd lb avail m = Inr (out, lb') \<and> ns_inv out \<and>
    ns_set out \<subseteq> ns_set avail \<and> length (ns_items out) \<le> 1"
proof -
  obtain total where "lb_weights_sum F M lb avail = Inr total" using lb_sum_ok[OF assms, of F M lb] by auto
  then show ?thesis using lb_select_ok[OF assms, of "[0..<numberSet_Length avail]" F M lb]
    by (simp add: strategyLoadBalancer_LookupNexthop_def Let_def)
qed

interpretation lb: forwarding_strategy "strategyLoadBalancer_LookupNexthop F M" "strategyLoadBalancer_AddNexthop F M"
  "strategyLoadBalancer_RemoveNexthop F M" "\<lambda>_. True" "strategyLoadBalancer_OnTimeout F M" "strategyLoadBalancer_ReceiveObject F M"
  for F M
  by unfold_locales (use lb_lookup_ok lb_timeout_ok in \<open>auto simp: strategyLoadBalancer_ReceiveObject_def\<close>)

lemma rnd_lookup_ok:
  assumes "ns_inv avail" "ns_items avail \<noteq> []"
  shows "\<exists>out. strategyRnd_LookupNexthop rnd avail m = Inr out \<and> ns_inv out \<and> ns_items out = [ns_items avail ! (rnd mod length (ns_items avail))]"
proof -
  have "numberSet_Length avail = length (ns_items avail)" using assms(1) by (simp add: numberSet_Length_def ns_items_index)
  then show ?thesis using assms GetItem_items[OF assms(1)] by (simp add: strategyRnd_LookupNexthop_def ns_singleton)
qed

interpretation rnd: forwarding_strategy "\<lambda>rnd (_::unit) avail m. bind_res (strategyRnd_LookupNexthop rnd avail m) (\<lambda>out. Inr (out, ()))"
  "\<lambda>s _. s" "\<lambda>s _. s" "\<lambda>_. True" "\<lambda>s _. Inr s" "\<lambda>s _ _ _ _. Inr s"
proof
  fix rnd avail m assume a: "ns_inv avail" "ns_items avail \<noteq> []"
  from rnd_lookup_ok[OF a, of rnd m] show "\<exists>out s'. bind_res (strategyRnd_LookupNexthop rnd avail m) (\<lambda>out. Inr (out, ())) = Inr (out, s') \<and> True \<and>
      ns_inv out \<and> ns_set out \<subseteq> ns_set avail \<and> length (ns_items out) \<le> 1"
    using a(2) by (auto simp: ns_set_def)
qed auto

fun modelled :: "('t, 'l) strategy \<Rightarrow> bool" where
  "modelled (LowLatency l) = False"
| "modelled _ = True"

interpretation strat: forwarding_strategy "strategy_lookupNexthop S" "strategy_addNexthop S" "strategy_removeNexthop S" modelled
  "strategy_onTimeout S" "strategy_receiveObject S"
  for S
proof
  fix s :: "('b, 'c) strategy" and avail rnd m assume a: "modelled s" "ns_inv avail" "ns_items avail \<noteq> []"
  show "\<exists>out s'. strategy_lookupNexthop S rnd s avail m = Inr (out, s') \<and> modelled s' \<and> ns_inv out \<and>
      ns_set out \<subseteq> ns_set avail \<and> length (ns_items out) \<le> 1"
  proof (cases s)
    case (LoadBalancer lb)
    then show ?thesis using lb_lookup_ok[OF a(2), of "st_fp S" "st_hm S" rnd lb m] by auto
  next
    case Rnd
    then show ?thesis using rnd_lookup_ok[OF a(2,3), of rnd m] a(3) by (auto simp: ns_set_def)
  qed (use a in simp)
next
  fix s :: "('b, 'c) strategy" and egress m t t' c assume s: "modelled s"
  show "modelled (strategy_addNexthop S s c)" "modelled (strategy_removeNexthop S s c)" using s by (cases s; simp)+
  assume e: "ns_inv egress"
  show "\<exists>s'. strategy_onTimeout S s egress = Inr s' \<and> modelled s'"
    "\<exists>s'. strategy_receiveObject S s egress m t t' = Inr s' \<and> modelled s'"
    using s lb_timeout_ok[OF e] by (cases s; force simp: strategyLoadBalancer_ReceiveObject_def)+
qed

section \<open>The load balancer in exact arithmetic\<close>

text \<open>Weights are positive: the average is kept above the threshold.\<close>

definition lb_pos :: "('t, connid, rat StrategyNexthopState) hm_ops \<Rightarrow> 't \<Rightarrow> bool" where
  "lb_pos M lb \<longleftrightarrow> (\<forall>c st. hm_Get M lb c = Some st \<longrightarrow> 0 \<le> avg_pi st \<and> 0 < weight st)"

lemma UpdateState_pos:
  assumes "0 \<le> avg_pi st"
  shows "0 \<le> avg_pi (strategyNexthopState_UpdateState exact_fp st inc (9 / 10))"
    "0 < weight (strategyNexthopState_UpdateState exact_fp st inc (9 / 10))"
proof -
  define x where "x = (if inc then st\<lparr>nh_pi := nh_pi st + 1\<rparr> else if nh_pi st > 0 then st\<lparr>nh_pi := nh_pi st - 1\<rparr> else st)"
  define a where "a = avg_pi x * (9 / 10) + of_int (uint (nh_pi x)) * (1 / 10 :: rat)"
  have "avg_pi x = avg_pi st" by (simp add: x_def)
  moreover have "(0 :: rat) \<le> of_int (uint (nh_pi x))" by (simp only: of_int_0_le_iff unsigned_greater_eq)
  ultimately have a: "0 \<le> a" unfolding a_def using assms by (intro add_nonneg_nonneg mult_nonneg_nonneg) simp_all
  have "strategyNexthopState_UpdateState exact_fp st inc (9 / 10) =
      (let v = (if a < 1 / 1000 then 1 / 10 else a) in x\<lparr>avg_pi := v, weight := 1 / v\<rparr>)"
    by (simp add: strategyNexthopState_UpdateState_def x_def[symmetric] a_def AVG_PI_THRESHOLD_def Let_def)
  then show "0 \<le> avg_pi (strategyNexthopState_UpdateState exact_fp st inc (9 / 10))"
    "0 < weight (strategyNexthopState_UpdateState exact_fp st inc (9 / 10))"
    using a by (auto simp: Let_def)
qed

lemma lb_pos_put:
  assumes "hm_laws M" "lb_pos M lb" "0 \<le> avg_pi st" "0 < weight st"
  shows "lb_pos M (hm_Put M lb c st)"
  using assms by (auto simp: lb_pos_def hm_lawsD(2)[OF assms(1)])

lemma lb_pos_update:
  assumes "hm_laws M" "lb_pos M lb" "hm_Get M lb c = Some st"
  shows "lb_pos M (update_Stats exact_fp M lb c st inc)"
proof -
  have "0 \<le> avg_pi st" using assms(2,3) unfolding lb_pos_def by blast
  from lb_pos_put[OF assms(1,2) UpdateState_pos[OF this]] show ?thesis by (simp add: update_Stats_def)
qed

text \<open>The known next hops among the available ones, and the sum of their weights.\<close>

definition known :: "('t, connid, 'd StrategyNexthopState) hm_ops \<Rightarrow> 't \<Rightarrow> connid list \<Rightarrow> connid list" where
  "known M lb cs = filter (\<lambda>c. hm_Get M lb c \<noteq> None) cs"

definition weight_of :: "('t, connid, 'd StrategyNexthopState) hm_ops \<Rightarrow> 't \<Rightarrow> connid \<Rightarrow> 'd" where
  "weight_of M lb c = weight (the (hm_Get M lb c))"

lemma lb_sum_exact:
  assumes "ns_inv avail"
  shows "lb_weights_sum exact_fp M lb avail = Inr (sum_list (map (weight_of M lb) (known M lb (ns_items avail))))"
proof -
  have "fold_res (\<lambda>total cid. case hm_Get M lb cid of None \<Rightarrow> Inr total
      | Some elem \<Rightarrow> Inr (fp_add exact_fp total (strategyNexthopState_GetWeight elem))) st xs =
      Inr (st + sum_list (map (weight_of M lb) (known M lb xs)))" for st xs
    by (induction xs arbitrary: st) (auto simp: known_def weight_of_def strategyNexthopState_GetWeight_def split: option.split)
  then show ?thesis by (simp add: lb_weights_sum_def ns_for_items[OF assms])
qed

text \<open>The selection walks the known next hops until the running sum passes the distance.\<close>

lemma lb_select_exact:
  assumes inv: "ns_inv avail" and "is = [j..<numberSet_Length avail]" "j \<le> numberSet_Length avail"
    and "0 \<le> d" "d < sum_list (map (weight_of M lb) (known M lb (drop j (ns_items avail))))"
  shows "\<exists>out lb' pre c post. lb_select exact_fp M lb avail d is = Inr (out, lb') \<and> ns_items out = [c] \<and>
    known M lb (drop j (ns_items avail)) = pre @ c # post \<and>
    sum_list (map (weight_of M lb) pre) \<le> d \<and> d < sum_list (map (weight_of M lb) pre) + weight_of M lb c"
  using assms(2-)
proof (induction "is" arbitrary: j d)
  case Nil
  then have "[j..<numberSet_Length avail] = []" by simp
  then have "j = numberSet_Length avail" using Nil.prems(2) by auto
  then have "drop j (ns_items avail) = []" using inv by (simp add: numberSet_Length_def ns_items_index)
  then show ?case using Nil.prems by (simp add: known_def)
next
  case (Cons i "is")
  then have i: "i = j" "is = [Suc j..<numberSet_Length avail]" "j < numberSet_Length avail"
    using Cons.prems(1)[symmetric] unfolding upt_eq_Cons_conv by auto
  have len: "numberSet_Length avail = length (ns_items avail)" using inv by (simp add: numberSet_Length_def ns_items_index)
  let ?c = "ns_items avail ! j"
  have g: "numberSet_GetItem avail j = Inr ?c" using GetItem_items[OF inv i(3)] .
  have drop: "drop j (ns_items avail) = ?c # drop (Suc j) (ns_items avail)" using i(3) len by (simp add: Cons_nth_drop_Suc)
  show ?case
  proof (cases "hm_Get M lb ?c")
    case None
    then have k: "known M lb (drop j (ns_items avail)) = known M lb (drop (Suc j) (ns_items avail))" by (simp add: drop known_def)
    have step: "lb_select exact_fp M lb avail d (i # is) = lb_select exact_fp M lb avail d is" using None g i(1) by simp
    have "d < sum_list (map (weight_of M lb) (known M lb (drop (Suc j) (ns_items avail))))" using Cons.prems(4) unfolding k .
    then show ?thesis unfolding step k using Cons.IH[OF i(2) _ Cons.prems(3)] i(3) by simp
  next
    case (Some st)
    then have k: "known M lb (drop j (ns_items avail)) = ?c # known M lb (drop (Suc j) (ns_items avail))" by (simp add: drop known_def)
    have w: "weight st = weight_of M lb ?c" using Some by (simp add: weight_of_def)
    show ?thesis
    proof (cases "d < weight_of M lb ?c")
      case True
      then have "lb_select exact_fp M lb avail d (i # is) = Inr (fst (numberSet_Add numberSet_Create ?c), update_Stats exact_fp M lb ?c st True)"
        using g Some w i(1) by (simp add: strategyNexthopState_GetWeight_def)
      then show ?thesis using True Cons.prems(3) k ns_singleton(2)[of ?c] by fastforce
    next
      case False
      then have step: "lb_select exact_fp M lb avail d (i # is) = lb_select exact_fp M lb avail (d - weight_of M lb ?c) is"
        using g Some w i(1) by (simp add: strategyNexthopState_GetWeight_def)
      obtain out lb' pre c post where "lb_select exact_fp M lb avail (d - weight_of M lb ?c) is = Inr (out, lb')" "ns_items out = [c]"
        "known M lb (drop (Suc j) (ns_items avail)) = pre @ c # post" "sum_list (map (weight_of M lb) pre) \<le> d - weight_of M lb ?c"
        "d - weight_of M lb ?c < sum_list (map (weight_of M lb) pre) + weight_of M lb c"
        using Cons.IH[OF i(2), of "d - weight_of M lb ?c"] False Cons.prems(4) i(3) k by auto
      then show ?thesis using step k by (intro exI[of _ out] exI[of _ lb'] exI[of _ "?c # pre"] exI[of _ c] exI[of _ post]) auto
    qed
  qed
qed

text \<open>Which next hops the strategy knows, and that every operation keeps the weights positive.\<close>

definition lb_dom :: "('t, connid, 'd StrategyNexthopState) hm_ops \<Rightarrow> 't \<Rightarrow> connid set" where
  "lb_dom M lb = {c. hm_Get M lb c \<noteq> None}"

definition lb_step_ok :: "('t, connid, rat StrategyNexthopState) hm_ops \<Rightarrow> 't \<Rightarrow> 't \<Rightarrow> bool" where
  "lb_step_ok M lb lb' \<longleftrightarrow> (lb_pos M lb \<longrightarrow> lb_pos M lb') \<and> lb_dom M lb' = lb_dom M lb"

lemma lb_step_refl [simp]: "lb_step_ok M lb lb" by (simp add: lb_step_ok_def)

lemma lb_step_trans: "lb_step_ok M a b \<Longrightarrow> lb_step_ok M b c \<Longrightarrow> lb_step_ok M a c" by (simp add: lb_step_ok_def)

lemma lb_step_update:
  assumes "hm_laws M" "hm_Get M lb c = Some st"
  shows "lb_step_ok M lb (update_Stats exact_fp M lb c st inc)"
  using lb_pos_update[OF assms(1) _ assms(2)] assms(2)
  by (auto simp: lb_step_ok_def lb_dom_def update_Stats_def hm_lawsD(2)[OF assms(1)])

lemma lb_step_reset:
  assumes "hm_laws M"
  shows "lb_step_ok M lb (strategyLoadBalancer_resetState exact_fp M lb)"
proof -
  let ?f = "\<lambda>lb cid. case hm_Get M lb cid of None \<Rightarrow> lb | Some elem \<Rightarrow> hm_Put M lb cid (strategyNexthopState_Reset exact_fp elem)"
  have one: "lb_step_ok M x (?f x c)" for x c
    using lb_pos_put[OF assms, of x "strategyNexthopState_Reset exact_fp st" c for st]
    by (auto simp: lb_step_ok_def lb_dom_def strategyNexthopState_Reset_def hm_lawsD(2)[OF assms] split: option.split)
  have "lb_step_ok M x (foldl ?f x cs)" for x cs
  proof (induction cs arbitrary: x)
    case (Cons c cs)
    show ?case unfolding foldl_Cons by (rule lb_step_trans[OF one Cons.IH])
  qed simp
  then show ?thesis by (simp add: strategyLoadBalancer_resetState_def)
qed

lemma lb_step_timeout:
  assumes "hm_laws M" "ns_inv egress" "strategyLoadBalancer_OnTimeout exact_fp M lb egress = Inr lb'"
  shows "lb_step_ok M lb lb'"
proof -
  have "lb_step_ok M x y" if "fold_res (\<lambda>lb outId. case hm_Get M lb outId of
      Some state \<Rightarrow> Inr (update_Stats exact_fp M lb outId state False) | None \<Rightarrow> Inr lb) x cs = Inr y" for x y cs
    using that
  proof (induction cs arbitrary: x)
    case (Cons c cs)
    show ?case
    proof (cases "hm_Get M x c")
      case (Some st)
      from Some Cons.prems have "lb_step_ok M (update_Stats exact_fp M x c st False) y" by (intro Cons.IH) simp
      then show ?thesis by (rule lb_step_trans[OF lb_step_update[OF assms(1) Some]])
    qed (use Cons in simp)
  qed simp
  then show ?thesis using assms(3) by (simp add: strategyLoadBalancer_OnTimeout_def ns_for_items[OF assms(2)])
qed

lemma lb_step_select:
  assumes "hm_laws M"
  shows "lb_select exact_fp M lb avail d is = Inr (out, lb') \<Longrightarrow> lb_step_ok M lb lb'"
proof (induction "is" arbitrary: d)
  case (Cons i "is")
  then show ?case using lb_step_update[OF assms] by (auto simp: Let_def split: option.splits if_splits)
qed simp

section \<open>Properties\<close>


definition ex_lb :: "(connid \<times> rat StrategyNexthopState) list" where
  "ex_lb = foldl (strategyLoadBalancer_AddNexthop exact_fp al_hm) (strategyLoadBalancer_Create al_hm) [3, 4]"

definition ex_avail :: NumberSet where
  "ex_avail = foldl (\<lambda>s c. fst (numberSet_Add s c)) numberSet_Create [4, 3]"

lemma ex_avail_items: "ns_inv ex_avail" "ns_items ex_avail = [4, 3]"
  by (simp_all add: ex_avail_def Add_abs Add_items)


text \<open>
  The load balancer keeps its books: it knows exactly the next hops that were added and not
  removed, and in exact arithmetic every operation keeps all weights positive, so that the
  selection above always applies.
\<close>

theorem loadBalancer_invariant:
  assumes M: "hm_laws M" and e: "ns_inv egress"
  shows "lb_pos M (strategyLoadBalancer_Create M) \<and> lb_dom M (strategyLoadBalancer_Create M) = {} \<and>
    (lb_pos M lb \<longrightarrow>
      lb_pos M (strategyLoadBalancer_AddNexthop exact_fp M lb c) \<and> lb_pos M (strategyLoadBalancer_RemoveNexthop exact_fp M lb c) \<and>
      lb_dom M (strategyLoadBalancer_AddNexthop exact_fp M lb c) = insert c (lb_dom M lb) \<and>
      lb_dom M (strategyLoadBalancer_RemoveNexthop exact_fp M lb c) = lb_dom M lb - {c} \<and>
      (\<exists>lb'. strategyLoadBalancer_OnTimeout exact_fp M lb egress = Inr lb' \<and> lb_pos M lb' \<and> lb_dom M lb' = lb_dom M lb) \<and>
      (\<exists>out lb'. strategyLoadBalancer_LookupNexthop exact_fp M rnd lb egress m = Inr (out, lb') \<and> lb_pos M lb' \<and> lb_dom M lb' = lb_dom M lb))"
proof (intro conjI impI)
  note l = hm_lawsD[OF M]
  show "lb_pos M (strategyLoadBalancer_Create M)" "lb_dom M (strategyLoadBalancer_Create M) = {}"
    by (simp_all add: strategyLoadBalancer_Create_def lb_pos_def lb_dom_def l(1))
  assume p: "lb_pos M lb"
  have put: "lb_pos M (hm_Put M lb c (strategyNexthopState_Create exact_fp))"
    using lb_pos_put[OF M p] by (simp add: strategyNexthopState_Create_def)
  have rem: "lb_pos M (hm_Remove M lb c)" using p by (auto simp: lb_pos_def l(3))
  note r = lb_step_reset[OF M, unfolded lb_step_ok_def]
  show "lb_pos M (strategyLoadBalancer_AddNexthop exact_fp M lb c)"
    using r[of "hm_Put M lb c (strategyNexthopState_Create exact_fp)"] put p by (simp add: strategyLoadBalancer_AddNexthop_def)
  show "lb_pos M (strategyLoadBalancer_RemoveNexthop exact_fp M lb c)"
    using r[of "hm_Remove M lb c"] rem p by (simp add: strategyLoadBalancer_RemoveNexthop_def)
  show "lb_dom M (strategyLoadBalancer_AddNexthop exact_fp M lb c) = insert c (lb_dom M lb)"
    using r[of "hm_Put M lb c (strategyNexthopState_Create exact_fp)"] by (auto simp: strategyLoadBalancer_AddNexthop_def lb_dom_def l(2,4))
  show "lb_dom M (strategyLoadBalancer_RemoveNexthop exact_fp M lb c) = lb_dom M lb - {c}"
    using r[of "hm_Remove M lb c"] by (auto simp: strategyLoadBalancer_RemoveNexthop_def lb_dom_def l(3,4))
  obtain lb' where t: "strategyLoadBalancer_OnTimeout exact_fp M lb egress = Inr lb'" using lb_timeout_ok[OF e, of exact_fp M lb] by auto
  show "\<exists>lb'. strategyLoadBalancer_OnTimeout exact_fp M lb egress = Inr lb' \<and> lb_pos M lb' \<and> lb_dom M lb' = lb_dom M lb"
    using t lb_step_timeout[OF M e t] p by (auto simp: lb_step_ok_def)
  obtain out lb2 where q: "strategyLoadBalancer_LookupNexthop exact_fp M rnd lb egress m = Inr (out, lb2)"
    using lb_lookup_ok[OF e, of exact_fp M rnd lb m] by auto
  then have "lb_step_ok M lb lb2" using lb_step_select[OF M] by (auto simp: strategyLoadBalancer_LookupNexthop_def Let_def)
  then show "\<exists>out lb'. strategyLoadBalancer_LookupNexthop exact_fp M rnd lb egress m = Inr (out, lb') \<and> lb_pos M lb' \<and> lb_dom M lb' = lb_dom M lb"
    using q p by (auto simp: lb_step_ok_def)
qed

theorem loadBalancer_invariant_witness:
  "lb_dom (al_hm :: ((connid \<times> rat StrategyNexthopState) list, connid, rat StrategyNexthopState) hm_ops)
     (strategyLoadBalancer_AddNexthop exact_fp al_hm (strategyLoadBalancer_Create al_hm) 9) = {9}"
  using loadBalancer_invariant[OF al_hm_laws Create_abs(1), of "strategyLoadBalancer_Create al_hm" 9 0 ex_interest]
  by (simp add: lb_pos_def strategyLoadBalancer_Create_def al_hm_def lb_dom_def)

end
