(* ===== verification/FibEntry.thy ===== *)
theory FibEntry
  imports Strategies ConnectionTable
begin

text \<open>
  FIB entries (\<^verbatim>\<open>hicn-light/src/hicn/processor/fibEntry.c\<close>, compiled with \<^verbatim>\<open>WITH_POLICY\<close> and
  \<^verbatim>\<open>WITH_MAPME\<close>): the next hops of a prefix, the policy that narrows them, the counters and statistics
  per kind of interface, and the forwarding strategy that picks among them.

  The connection table is an argument (with its container operations \<open>C\<close>), as are the operations
  of the strategies (\<open>S\<close>) and the value of \<^verbatim>\<open>rand()\<close>. The MAP-Me hook of \<^verbatim>\<open>fibEntry_SetPolicy\<close> is a
  function argument; the user data of MAP-Me is an opaque reference.

  The lemmas show that the filtering loops compute a short reference definition (local faces first,
  then the policy, then preferences that never leave the set empty, then the highest priority), and
  that an interest is never sent back to where it came from, to a face that is down, or
  against a required or prohibited tag.
\<close>

section \<open>Policies and counters\<close>

datatype policy_state = POLICY_STATE_NEUTRAL | POLICY_STATE_REQUIRE | POLICY_STATE_PREFER | POLICY_STATE_AVOID | POLICY_STATE_PROHIBIT | POLICY_STATE_N

record policy_tag_state =
  pt_state :: policy_state
  pt_disabled :: u8

record 'd interface_stats =
  throughput :: 'd
  latency :: 'd
  loss_rate :: 'd

record 'd policy_stats =
  s_wired :: "'d interface_stats"
  s_wifi :: "'d interface_stats"
  s_cellular :: "'d interface_stats"
  s_all :: "'d interface_stats"

record interface_counters =
  num_packets :: u32
  num_bytes :: u32
  num_losses :: u32
  latency_idle :: u32

record policy_counters =
  c_wired :: interface_counters
  c_wifi :: interface_counters
  c_cellular :: interface_counters
  c_all :: interface_counters
  last_update :: u64

record 'd hicn_policy =
  app_name :: string
  tags :: "policy_tag \<Rightarrow> policy_tag_state"
  pol_stats :: "'d policy_stats"

definition INTERFACE_STATS_NONE :: "'d fp_ops \<Rightarrow> 'd interface_stats" where
  "INTERFACE_STATS_NONE F = \<lparr>throughput = fp_const F 0, latency = fp_const F 0, loss_rate = fp_const F 0\<rparr>"

definition INTERFACE_COUNTERS_NONE :: interface_counters where
  "INTERFACE_COUNTERS_NONE = \<lparr>num_packets = 0, num_bytes = 0, num_losses = 0, latency_idle = 0\<rparr>"

definition POLICY_COUNTERS_NONE :: policy_counters where
  "POLICY_COUNTERS_NONE = \<lparr>c_wired = INTERFACE_COUNTERS_NONE, c_wifi = INTERFACE_COUNTERS_NONE,
     c_cellular = INTERFACE_COUNTERS_NONE, c_all = INTERFACE_COUNTERS_NONE, last_update = 0\<rparr>"

definition POLICY_NONE :: "'d fp_ops \<Rightarrow> 'd hicn_policy" where
  "POLICY_NONE F = \<lparr>app_name = [], tags = (\<lambda>_. \<lparr>pt_state = POLICY_STATE_NEUTRAL, pt_disabled = 0\<rparr>),
     pol_stats = \<lparr>s_wired = INTERFACE_STATS_NONE F, s_wifi = INTERFACE_STATS_NONE F,
                  s_cellular = INTERFACE_STATS_NONE F, s_all = INTERFACE_STATS_NONE F\<rparr>\<rparr>"

section \<open>Entries\<close>

record ('d, 't, 'l) FibEntry =
  fe_name :: Name
  fe_refcount :: u32
  fwdStrategy :: "('t, 'l) strategy"
  nexthops :: NumberSet
  policy :: "'d hicn_policy"
  pcounters :: policy_counters
  previous_nexthops :: "NumberSet option"
  userData :: "nat option"

text \<open>
  The case for the random strategy of \<^verbatim>\<open>fibEntry_Create\<close> has no \<^verbatim>\<open>break\<close>: it falls through and the
  entry gets the low-latency strategy, without the call that initialises it.
\<close>

definition fibEntry_Create :: "('d, 't, 'l) st_ops \<Rightarrow> Name \<Rightarrow> strategy_type \<Rightarrow> ('d, 't, 'l) FibEntry" where
  "fibEntry_Create S name strategy =
     \<lparr>fe_name = name, fe_refcount = 1,
      fwdStrategy = (case strategy of
                       SET_STRATEGY_LOADBALANCER \<Rightarrow> LoadBalancer (strategyLoadBalancer_Create (st_hm S))
                     | SET_STRATEGY_RANDOM \<Rightarrow> LowLatency (ll_Create (st_ll S))
                     | SET_STRATEGY_LOW_LATENCY \<Rightarrow> LowLatency (ll_SetStrategy (st_ll S) (ll_Create (st_ll S)) [])
                     | LAST_STRATEGY_VALUE \<Rightarrow> LoadBalancer (strategyLoadBalancer_Create (st_hm S))),
      nexthops = numberSet_Create, policy = POLICY_NONE (st_fp S), pcounters = POLICY_COUNTERS_NONE,
      previous_nexthops = None, userData = None\<rparr>"

definition fibEntry_Acquire :: "('d, 't, 'l) FibEntry \<Rightarrow> ('d, 't, 'l) FibEntry" where
  "fibEntry_Acquire fe = fe\<lparr>fe_refcount := fe_refcount fe + 1\<rparr>"

text \<open>\<open>None\<close> when the last reference is gone.\<close>

definition fibEntry_Release :: "('d, 't, 'l) FibEntry \<Rightarrow> ('d, 't, 'l) FibEntry option res" where
  "fibEntry_Release fe =
     (if fe_refcount fe > 0
      then (let fe = fe\<lparr>fe_refcount := fe_refcount fe - 1\<rparr> in Inr (if fe_refcount fe = 0 then None else Some fe))
      else Inl AssertFailed)"

definition fibEntry_GetNexthops :: "('d, 't, 'l) FibEntry \<Rightarrow> NumberSet" where
  "fibEntry_GetNexthops fe = nexthops fe"

definition fibEntry_NexthopCount :: "('d, 't, 'l) FibEntry \<Rightarrow> nat" where
  "fibEntry_NexthopCount fe = numberSet_Length (nexthops fe)"

definition fibEntry_SetStrategy :: "('d, 't, 'l) st_ops \<Rightarrow> ('d, 't, 'l) FibEntry \<Rightarrow> strategy_type \<Rightarrow> Name list \<Rightarrow> ('d, 't, 'l) FibEntry res" where
  "fibEntry_SetStrategy S fe strategy related_prefixes =
     (let impl = (case strategy of
                    SET_STRATEGY_LOADBALANCER \<Rightarrow> LoadBalancer (strategyLoadBalancer_Create (st_hm S))
                  | SET_STRATEGY_RANDOM \<Rightarrow> Rnd
                  | SET_STRATEGY_LOW_LATENCY \<Rightarrow> LowLatency (ll_SetStrategy (st_ll S) (ll_Create (st_ll S)) related_prefixes)
                  | LAST_STRATEGY_VALUE \<Rightarrow> LoadBalancer (strategyLoadBalancer_Create (st_hm S)))
      in bind_res (ns_for (fibEntry_GetNexthops fe) (\<lambda>impl c. Inr (strategy_addNexthop S impl c)) impl) (\<lambda>impl.
         Inr (fe\<lparr>fwdStrategy := impl\<rparr>)))"

definition fibEntry_GetPolicy :: "('d, 't, 'l) FibEntry \<Rightarrow> 'd hicn_policy" where
  "fibEntry_GetPolicy fe = policy fe"

definition fibEntry_SetPolicy ::
  "(('d, 't, 'l) FibEntry \<Rightarrow> ('d, 't, 'l) FibEntry) \<Rightarrow> ('d, 't, 'l) FibEntry \<Rightarrow> 'd hicn_policy \<Rightarrow> ('d, 't, 'l) FibEntry" where
  "fibEntry_SetPolicy mapme_reconsiderFibEntry fe p = mapme_reconsiderFibEntry (fe\<lparr>policy := p\<rparr>)"

definition fibEntry_GetPreviousNextHops :: "('d, 't, 'l) FibEntry \<Rightarrow> NumberSet option" where
  "fibEntry_GetPreviousNextHops fe = previous_nexthops fe"

definition fibEntry_SetPreviousNextHops :: "('d, 't, 'l) FibEntry \<Rightarrow> NumberSet \<Rightarrow> ('d, 't, 'l) FibEntry" where
  "fibEntry_SetPreviousNextHops fe s = fe\<lparr>previous_nexthops := Some (numberSet_AddSet numberSet_Create s)\<rparr>"

definition fibEntry_AddNexthop :: "('d, 't, 'l) st_ops \<Rightarrow> ('d, 't, 'l) FibEntry \<Rightarrow> connid \<Rightarrow> ('d, 't, 'l) FibEntry" where
  "fibEntry_AddNexthop S fe connectionId =
     (let fe = (if \<not> numberSet_Contains (nexthops fe) connectionId
                then fe\<lparr>nexthops := fst (numberSet_Add (nexthops fe) connectionId)\<rparr> else fe)
      in fe\<lparr>fwdStrategy := strategy_addNexthop S (fwdStrategy fe) connectionId\<rparr>)"

definition fibEntry_RemoveNexthopByConnectionId ::
  "('d, 't, 'l) st_ops \<Rightarrow> ('d, 't, 'l) FibEntry \<Rightarrow> connid \<Rightarrow> ('d, 't, 'l) FibEntry" where
  "fibEntry_RemoveNexthopByConnectionId S fe connectionId =
     (let fe = (if numberSet_Contains (nexthops fe) connectionId
                then fe\<lparr>nexthops := numberSet_Remove (nexthops fe) connectionId\<rparr> else fe)
      in fe\<lparr>fwdStrategy := strategy_removeNexthop S (fwdStrategy fe) connectionId\<rparr>)"

definition fibEntry_GetPrefix :: "('d, 't, 'l) FibEntry \<Rightarrow> Name" where
  "fibEntry_GetPrefix fe = fe_name fe"

definition fibEntry_GetFwdStrategyType :: "('d, 't, 'l) FibEntry \<Rightarrow> strategy_type" where
  "fibEntry_GetFwdStrategyType fe = strategy_getStrategy (fwdStrategy fe)"

definition fibEntry_getUserData :: "('d, 't, 'l) FibEntry \<Rightarrow> nat option" where
  "fibEntry_getUserData fe = userData fe"

definition fibEntry_setUserData :: "('d, 't, 'l) FibEntry \<Rightarrow> nat option \<Rightarrow> ('d, 't, 'l) FibEntry" where
  "fibEntry_setUserData fe d = fe\<lparr>userData := d\<rparr>"

section \<open>Available next hops\<close>

text \<open>A connection found by identifier, and dereferenced without a check for \<^verbatim>\<open>NULL\<close>.\<close>

definition ct_deref :: "('i, 'p, 'o) ct_ops \<Rightarrow> ('i, 'p, 'o) ConnectionTable \<Rightarrow> connid \<Rightarrow> Connection res" where
  "ct_deref C table id' = (case ct_lookup C table id' of None \<Rightarrow> Inl NullDereference | Some conn \<Rightarrow> Inr conn)"

definition conn_down :: "Connection \<Rightarrow> bool" where
  "conn_down conn \<longleftrightarrow> connection_GetAdminState conn = CONNECTION_STATE_DOWN \<or> connection_GetState conn = CONNECTION_STATE_DOWN"

text \<open>The two tests per tag of the policy filter.\<close>

definition tag_violated :: "'d hicn_policy \<Rightarrow> Connection \<Rightarrow> policy_tag \<Rightarrow> bool" where
  "tag_violated pol conn tag \<longleftrightarrow>
     pt_state (tags pol tag) = POLICY_STATE_REQUIRE \<and> \<not> connection_HasTag conn tag \<or>
     pt_state (tags pol tag) = POLICY_STATE_PROHIBIT \<and> connection_HasTag conn tag"

text \<open>All non-local connections that are up, for advertising a prefix.\<close>

definition advertised_nexthops :: "('i, 'p, 'o) ct_ops \<Rightarrow> ('i, 'p, 'o) ConnectionTable \<Rightarrow> NumberSet" where
  "advertised_nexthops C table =
     foldl (\<lambda>s ref. let conn = ct_heap table ref in
                    if connection_IsLocal conn then s
                    else if conn_down conn then s
                    else fst (numberSet_Add s (connection_GetConnectionId conn)))
       numberSet_Create (connectionTable_GetEntries C table)"

definition local_nexthops ::
  "('i, 'p, 'o) ct_ops \<Rightarrow> ('i, 'p, 'o) ConnectionTable \<Rightarrow> NumberSet \<Rightarrow> connid \<Rightarrow> NumberSet res" where
  "local_nexthops C table nhs in_connection =
     ns_for nhs (\<lambda>avail conn_id.
       if conn_id = in_connection then Inr avail
       else case ct_lookup C table conn_id of
              None \<Rightarrow> Inr avail
            | Some conn \<Rightarrow>
                if conn_down conn then Inr avail
                else if \<not> connection_IsLocal conn then Inr avail
                else Inr (fst (numberSet_Add avail conn_id))) numberSet_Create"

definition policy_nexthops ::
  "('i, 'p, 'o) ct_ops \<Rightarrow> ('i, 'p, 'o) ConnectionTable \<Rightarrow> 'd hicn_policy \<Rightarrow> NumberSet \<Rightarrow> connid \<Rightarrow> NumberSet res" where
  "policy_nexthops C table pol nhs in_connection =
     ns_for nhs (\<lambda>avail conn_id.
       if conn_id = in_connection then Inr avail
       else case ct_lookup C table conn_id of
              None \<Rightarrow> Inr avail
            | Some conn \<Rightarrow>
                if conn_down conn then Inr avail
                else if tag_violated pol conn POLICY_TAG_WIRED then Inr avail
                else if tag_violated pol conn POLICY_TAG_WIFI then Inr avail
                else if tag_violated pol conn POLICY_TAG_CELLULAR then Inr avail
                else if tag_violated pol conn POLICY_TAG_TRUSTED then Inr avail
                else Inr (fst (numberSet_Add avail conn_id))) numberSet_Create"

text \<open>
  One filtering step: the next hops whose connection has the tag (or does not have it) replace the
  set, unless there is none.
\<close>

definition narrow_nexthops ::
  "('i, 'p, 'o) ct_ops \<Rightarrow> ('i, 'p, 'o) ConnectionTable \<Rightarrow> policy_tag \<Rightarrow> bool \<Rightarrow> NumberSet \<Rightarrow> NumberSet res" where
  "narrow_nexthops C table tag present avail =
     bind_res (ns_for avail (\<lambda>filtered conn_id.
       bind_res (ct_deref C table conn_id) (\<lambda>conn.
       if connection_HasTag conn tag \<noteq> present then Inr filtered
       else Inr (fst (numberSet_Add filtered conn_id)))) numberSet_Create) (\<lambda>filtered.
     Inr (if numberSet_Length filtered > 0 then numberSet_AddSet numberSet_Create filtered else avail))"

definition narrow_if ::
  "('i, 'p, 'o) ct_ops \<Rightarrow> ('i, 'p, 'o) ConnectionTable \<Rightarrow> bool \<Rightarrow> policy_tag \<Rightarrow> bool \<Rightarrow> NumberSet \<Rightarrow> NumberSet res" where
  "narrow_if C table cond tag present avail = (if cond then narrow_nexthops C table tag present avail else Inr avail)"

definition priority_nexthops ::
  "('i, 'p, 'o) ct_ops \<Rightarrow> ('i, 'p, 'o) ConnectionTable \<Rightarrow> NumberSet \<Rightarrow> NumberSet res" where
  "priority_nexthops C table avail =
     bind_res (ns_for avail (\<lambda>(prio, max_priority) conn_id.
       bind_res (ct_deref C table conn_id) (\<lambda>conn.
       let priority = connection_GetPriority conn in
       if priority < max_priority then Inr (prio, max_priority)
       else if priority = max_priority then Inr (fst (numberSet_Add prio conn_id), max_priority)
       else Inr (fst (numberSet_Add numberSet_Create conn_id), priority))) (numberSet_Create, 0)) (\<lambda>(prio, _). Inr prio)"

definition preferred_nexthops ::
  "('i, 'p, 'o) ct_ops \<Rightarrow> ('i, 'p, 'o) ConnectionTable \<Rightarrow> 'd hicn_policy \<Rightarrow> NumberSet \<Rightarrow> NumberSet res" where
  "preferred_nexthops C table pol available =
     (let state = (\<lambda>tag. pt_state (tags pol tag)) in
      bind_res (narrow_nexthops C table POLICY_TAG_TRUSTED
                  (state POLICY_TAG_TRUSTED = POLICY_STATE_REQUIRE \<or> state POLICY_TAG_TRUSTED = POLICY_STATE_PREFER) available) (\<lambda>available.
      bind_res (narrow_if C table (state POLICY_TAG_WIRED = POLICY_STATE_AVOID) POLICY_TAG_WIRED False available) (\<lambda>available.
      bind_res (narrow_if C table (state POLICY_TAG_WIFI = POLICY_STATE_AVOID) POLICY_TAG_WIFI False available) (\<lambda>available.
      bind_res (narrow_if C table (state POLICY_TAG_CELLULAR = POLICY_STATE_AVOID) POLICY_TAG_CELLULAR False available) (\<lambda>available.
      bind_res (narrow_if C table (state POLICY_TAG_WIRED = POLICY_STATE_PREFER) POLICY_TAG_WIRED True available) (\<lambda>available.
      bind_res (narrow_if C table (state POLICY_TAG_WIFI = POLICY_STATE_PREFER) POLICY_TAG_WIFI True available) (\<lambda>available.
      narrow_if C table (state POLICY_TAG_CELLULAR = POLICY_STATE_PREFER) POLICY_TAG_CELLULAR True available)))))))"

definition fibEntry_GetAvailableNextHops ::
  "('i, 'p, 'o) ct_ops \<Rightarrow> ('i, 'p, 'o) ConnectionTable \<Rightarrow> ('d, 't, 'l) FibEntry \<Rightarrow> connid \<Rightarrow> NumberSet res" where
  "fibEntry_GetAvailableNextHops C table fe in_connection =
     (let pol = fibEntry_GetPolicy fe;
          nhs = (if in_connection = - 1 then advertised_nexthops C table else fibEntry_GetNexthops fe)
      in bind_res (if in_connection = - 1 then Inr numberSet_Create else local_nexthops C table nhs in_connection) (\<lambda>available.
         if numberSet_Length available > 0 then Inr available
         else
           bind_res (policy_nexthops C table pol nhs in_connection) (\<lambda>available.
           if numberSet_Length available = 0 then Inr available
           else bind_res (preferred_nexthops C table pol available) (priority_nexthops C table))))"

section \<open>Choosing next hops\<close>

definition count_loss :: "interface_counters \<Rightarrow> interface_counters" where
  "count_loss c = c\<lparr>num_losses := num_losses c + 1\<rparr>"

text \<open>One loss on a connection, counted for the interface types of its tags.\<close>

definition count_losses :: "Connection \<Rightarrow> policy_counters \<Rightarrow> policy_counters" where
  "count_losses conn pc =
     (let pc = (if connection_HasTag conn POLICY_TAG_WIRED then pc\<lparr>c_wired := count_loss (c_wired pc)\<rparr> else pc);
          pc = (if connection_HasTag conn POLICY_TAG_WIFI then pc\<lparr>c_wifi := count_loss (c_wifi pc)\<rparr> else pc)
      in if connection_HasTag conn POLICY_TAG_CELLULAR then pc\<lparr>c_cellular := count_loss (c_cellular pc)\<rparr> else pc)"

definition fibEntry_GetNexthopsFromForwardingStrategy ::
  "('d, 't, 'l) st_ops \<Rightarrow> ('i, 'p, 'o) ct_ops \<Rightarrow> ('i, 'p, 'o) ConnectionTable \<Rightarrow> nat \<Rightarrow> ('d, 't, 'l) FibEntry \<Rightarrow> Message \<Rightarrow> bool \<Rightarrow>
     (NumberSet \<times> ('d, 't, 'l) FibEntry) res" where
  "fibEntry_GetNexthopsFromForwardingStrategy S C table rnd fe interestMessage is_retransmission =
     (let in_connection = message_GetIngressConnectionId interestMessage;
          pol = fibEntry_GetPolicy fe
      in bind_res (fibEntry_GetAvailableNextHops C table fe in_connection) (\<lambda>available.
         if numberSet_Length available = 0 then Inr (numberSet_Create, fe)
         else
           bind_res (if is_retransmission
                     then ns_for available (\<lambda>pc conn_id.
                            bind_res (ct_deref C table conn_id) (\<lambda>conn.
                            let pc = count_losses conn pc in Inr (pc\<lparr>c_all := count_loss (c_all pc)\<rparr>))) (pcounters fe)
                     else Inr (pcounters fe)) (\<lambda>pc.
           let fe = fe\<lparr>pcounters := pc\<rparr> in
           if pt_state (tags pol POLICY_TAG_MULTIPATH) \<noteq> POLICY_STATE_PROHIBIT \<and> pt_state (tags pol POLICY_TAG_MULTIPATH) \<noteq> POLICY_STATE_AVOID
           then bind_res (strategy_lookupNexthop S rnd (fwdStrategy fe) available interestMessage) (\<lambda>(out, st). Inr (out, fe\<lparr>fwdStrategy := st\<rparr>))
           else bind_res (numberSet_GetItem available 0) (\<lambda>nexthop. Inr (fst (numberSet_Add numberSet_Create nexthop), fe)))))"

section \<open>Feedback\<close>

definition ALPHA :: "'d fp_ops \<Rightarrow> 'd" where "ALPHA F = fp_const F (1 / 2)"

text \<open>The moving average \<^verbatim>\<open>(float)(ALPHA * old + (1 - ALPHA) * new)\<close>.\<close>

definition smooth :: "'d fp_ops \<Rightarrow> 'd \<Rightarrow> 'd \<Rightarrow> 'd" where
  "smooth F old new = fp_float F (fp_add F (fp_mul F (ALPHA F) old) (fp_mul F (fp_sub F (fp_const F 1) (ALPHA F)) new))"

definition count_packet :: "u32 \<Rightarrow> interface_counters \<Rightarrow> interface_counters" where
  "count_packet msg_size c = c\<lparr>num_packets := num_packets c + 1, num_bytes := num_bytes c + msg_size, latency_idle := 0\<rparr>"

definition smooth_latency :: "'d fp_ops \<Rightarrow> ticks \<Rightarrow> 'd interface_stats \<Rightarrow> 'd interface_stats" where
  "smooth_latency F rtt st = st\<lparr>latency := smooth F (latency st) (fp_int F (uint rtt))\<rparr>"

definition object_received_on ::
  "'d fp_ops \<Rightarrow> u32 \<Rightarrow> ticks \<Rightarrow> Connection \<Rightarrow> policy_counters \<times> 'd policy_stats \<Rightarrow> policy_counters \<times> 'd policy_stats" where
  "object_received_on F msg_size rtt conn x =
     (let (pc, ps) = x;
          (pc, ps) = (if connection_HasTag conn POLICY_TAG_WIRED
                      then (pc\<lparr>c_wired := count_packet msg_size (c_wired pc)\<rparr>, ps\<lparr>s_wired := smooth_latency F rtt (s_wired ps)\<rparr>) else (pc, ps));
          (pc, ps) = (if connection_HasTag conn POLICY_TAG_WIFI
                      then (pc\<lparr>c_wifi := count_packet msg_size (c_wifi pc)\<rparr>, ps\<lparr>s_wifi := smooth_latency F rtt (s_wifi ps)\<rparr>) else (pc, ps))
      in if connection_HasTag conn POLICY_TAG_CELLULAR
         then (pc\<lparr>c_cellular := count_packet msg_size (c_cellular pc)\<rparr>, ps\<lparr>s_cellular := smooth_latency F rtt (s_cellular ps)\<rparr>) else (pc, ps))"

definition fibEntry_ReceiveObjectMessage ::
  "('d, 't, 'l) st_ops \<Rightarrow> ('i, 'p, 'o) ct_ops \<Rightarrow> ('i, 'p, 'o) ConnectionTable \<Rightarrow> ('d, 't, 'l) FibEntry \<Rightarrow>
     NumberSet \<Rightarrow> Message \<Rightarrow> ticks \<Rightarrow> ticks \<Rightarrow> ('d, 't, 'l) FibEntry res" where
  "fibEntry_ReceiveObjectMessage S C table fe egressId objectMessage pitEntryCreation objReception =
     (let msg_size = message_Length objectMessage;
          rtt = objReception - pitEntryCreation
      in bind_res (ns_for egressId (\<lambda>x conn_id.
           case ct_lookup C table conn_id of
             None \<Rightarrow> Inr x
           | Some conn \<Rightarrow> Inr (object_received_on (st_fp S) msg_size rtt conn x)) (pcounters fe, pol_stats (policy fe))) (\<lambda>(pc, ps).
         let ps = ps\<lparr>s_all := smooth_latency (st_fp S) rtt (s_all ps)\<rparr>;
             pc = pc\<lparr>c_all := count_packet msg_size (c_all pc)\<rparr>;
             fe = fe\<lparr>pcounters := pc, policy := (policy fe)\<lparr>pol_stats := ps\<rparr>\<rparr>
         in bind_res (strategy_receiveObject S (fwdStrategy fe) egressId objectMessage pitEntryCreation objReception) (\<lambda>st.
            Inr (fe\<lparr>fwdStrategy := st\<rparr>))))"

definition fibEntry_OnTimeout ::
  "('d, 't, 'l) st_ops \<Rightarrow> ('i, 'p, 'o) ct_ops \<Rightarrow> ('i, 'p, 'o) ConnectionTable \<Rightarrow> ('d, 't, 'l) FibEntry \<Rightarrow>
     NumberSet \<Rightarrow> ('d, 't, 'l) FibEntry res" where
  "fibEntry_OnTimeout S C table fe egressId =
     bind_res (ns_for egressId (\<lambda>pc conn_id.
       case ct_lookup C table conn_id of None \<Rightarrow> Inr pc | Some conn \<Rightarrow> Inr (count_losses conn pc)) (pcounters fe)) (\<lambda>pc.
     let fe = fe\<lparr>pcounters := pc\<lparr>c_all := count_loss (c_all pc)\<rparr>\<rparr> in
     bind_res (strategy_onTimeout S (fwdStrategy fe) egressId) (\<lambda>st. Inr (fe\<lparr>fwdStrategy := st\<rparr>)))"

section \<open>Periodic statistics\<close>

text \<open>Both rates are integer divisions, converted afterwards.\<close>

definition measured_throughput :: "'d fp_ops \<Rightarrow> interface_counters \<Rightarrow> u64 \<Rightarrow> 'd" where
  "measured_throughput F c elapsed =
     (if num_bytes c > 0
      then (let t = fp_float F (fp_int F (uint (ucast (num_bytes c) div elapsed)));
                t = fp_div F (fp_mul F t (fp_int F 8)) (fp_int F 1024)
            in if fp_less F t (fp_const F 0) then fp_const F 0 else t)
      else fp_const F 0)"

definition measured_loss_rate :: "'d fp_ops \<Rightarrow> interface_counters \<Rightarrow> 'd" where
  "measured_loss_rate F c =
     (if num_losses c > 0 \<and> num_packets c > 0
      then fp_mul F (fp_int F (uint (num_losses c div num_packets c))) (fp_int F 100)
      else fp_const F 0)"

definition update_rates :: "'d fp_ops \<Rightarrow> u64 \<Rightarrow> interface_counters \<Rightarrow> 'd interface_stats \<Rightarrow> 'd interface_stats" where
  "update_rates F elapsed c st =
     st\<lparr>throughput := smooth F (throughput st) (measured_throughput F c elapsed),
        loss_rate := smooth F (loss_rate st) (measured_loss_rate F c)\<rparr>"

definition update_latency :: "'d fp_ops \<Rightarrow> interface_counters \<Rightarrow> 'd interface_stats \<Rightarrow> 'd interface_stats" where
  "update_latency F c st = (if latency_idle c + 1 > 1 then st\<lparr>latency := fp_const F 0\<rparr> else st)"

definition reset_counters :: "interface_counters \<Rightarrow> interface_counters" where
  "reset_counters c = c\<lparr>num_bytes := 0, num_losses := 0, num_packets := 0, latency_idle := latency_idle c + 1\<rparr>"

definition fibEntry_UpdateStats :: "'d fp_ops \<Rightarrow> ('d, 't, 'l) FibEntry \<Rightarrow> u64 \<Rightarrow> ('d, 't, 'l) FibEntry" where
  "fibEntry_UpdateStats F fe now =
     (let pc = pcounters fe; ps = pol_stats (policy fe); elapsed = now - last_update pc in
      if now = last_update pc then fe
      else fe\<lparr>policy := (policy fe)\<lparr>pol_stats :=
                 \<lparr>s_wired = update_latency F (c_wired pc) (update_rates F elapsed (c_wired pc) (s_wired ps)),
                  s_wifi = update_rates F elapsed (c_wifi pc) (update_latency F (c_wifi pc) (s_wifi ps)),
                  s_cellular = update_rates F elapsed (c_cellular pc) (update_latency F (c_cellular pc) (s_cellular ps)),
                  s_all = update_rates F elapsed (c_all pc) (update_latency F (c_all pc) (s_all ps))\<rparr>\<rparr>,
             pcounters := \<lparr>c_wired = reset_counters (c_wired pc), c_wifi = reset_counters (c_wifi pc),
                           c_cellular = reset_counters (c_cellular pc), c_all = reset_counters (c_all pc), last_update = now\<rparr>\<rparr>)"

section \<open>A reference definition\<close>

definition usable :: "(connid \<Rightarrow> Connection option) \<Rightarrow> connid \<Rightarrow> connid \<Rightarrow> bool" where
  "usable look in_connection c \<longleftrightarrow> c \<noteq> in_connection \<and> (case look c of None \<Rightarrow> False | Some conn \<Rightarrow> \<not> conn_down conn)"

definition is_local :: "(connid \<Rightarrow> Connection option) \<Rightarrow> connid \<Rightarrow> bool" where
  "is_local look c \<longleftrightarrow> (case look c of None \<Rightarrow> False | Some conn \<Rightarrow> connection_IsLocal conn)"

definition has_tag :: "(connid \<Rightarrow> Connection option) \<Rightarrow> policy_tag \<Rightarrow> connid \<Rightarrow> bool" where
  "has_tag look tag c \<longleftrightarrow> (case look c of None \<Rightarrow> False | Some conn \<Rightarrow> connection_HasTag conn tag)"

definition priority_of :: "(connid \<Rightarrow> Connection option) \<Rightarrow> connid \<Rightarrow> u32" where
  "priority_of look c = (case look c of None \<Rightarrow> 0 | Some conn \<Rightarrow> connection_GetPriority conn)"

definition filter_tags :: "policy_tag list" where
  "filter_tags = [POLICY_TAG_WIRED, POLICY_TAG_WIFI, POLICY_TAG_CELLULAR, POLICY_TAG_TRUSTED]"

definition interface_tags :: "policy_tag list" where
  "interface_tags = [POLICY_TAG_WIRED, POLICY_TAG_WIFI, POLICY_TAG_CELLULAR]"

definition allowed :: "(connid \<Rightarrow> Connection option) \<Rightarrow> 'd hicn_policy \<Rightarrow> connid \<Rightarrow> bool" where
  "allowed look pol c \<longleftrightarrow>
     list_all (\<lambda>tag. (pt_state (tags pol tag) = POLICY_STATE_REQUIRE \<longrightarrow> has_tag look tag c) \<and>
                     (pt_state (tags pol tag) = POLICY_STATE_PROHIBIT \<longrightarrow> \<not> has_tag look tag c)) filter_tags"

text \<open>A preference keeps the next hops that satisfy it, if there are any.\<close>

definition keep_if_any :: "(connid \<Rightarrow> bool) \<Rightarrow> connid list \<Rightarrow> connid list" where
  "keep_if_any P cs = (if filter P cs = [] then cs else filter P cs)"

definition preferences :: "(connid \<Rightarrow> Connection option) \<Rightarrow> 'd hicn_policy \<Rightarrow> (connid \<Rightarrow> bool) list" where
  "preferences look pol =
     (if pt_state (tags pol POLICY_TAG_TRUSTED) \<in> {POLICY_STATE_REQUIRE, POLICY_STATE_PREFER}
      then has_tag look POLICY_TAG_TRUSTED else Not \<circ> has_tag look POLICY_TAG_TRUSTED) #
     [Not \<circ> has_tag look tag. tag \<leftarrow> interface_tags, pt_state (tags pol tag) = POLICY_STATE_AVOID] @
     [has_tag look tag. tag \<leftarrow> interface_tags, pt_state (tags pol tag) = POLICY_STATE_PREFER]"

definition best :: "(connid \<Rightarrow> u32) \<Rightarrow> connid list \<Rightarrow> connid list" where
  "best prio cs = filter (\<lambda>c. list_all (\<lambda>d. prio d \<le> prio c) cs) cs"

definition spec_available :: "(connid \<Rightarrow> Connection option) \<Rightarrow> 'd hicn_policy \<Rightarrow> connid list \<Rightarrow> connid \<Rightarrow> connid list" where
  "spec_available look pol nhs in_connection =
     (let candidates = filter (usable look in_connection) nhs;
          locals = filter (is_local look) candidates
      in if in_connection \<noteq> - 1 \<and> locals \<noteq> [] then locals
         else best (priority_of look) (fold keep_if_any (preferences look pol) (filter (allowed look pol) candidates)))"

section \<open>The loops compute it\<close>

lemma Length_items: "ns_inv s \<Longrightarrow> numberSet_Length s = length (ns_items s)"
  by (simp add: numberSet_Length_def ns_items_index)

text \<open>A loop that collects the identifiers satisfying a predicate.\<close>

lemma collect_fold:
  assumes "ns_inv s" "distinct cs" "set cs \<inter> ns_set s = {}"
    and "\<And>st c. c \<in> set cs \<Longrightarrow> f st c = Inr (if P c then fst (numberSet_Add st c) else st)"
  shows "\<exists>s'. fold_res f s cs = Inr s' \<and> ns_inv s' \<and> ns_items s' = ns_items s @ filter P cs"
  using assms
proof (induction cs arbitrary: s)
  case (Cons c cs)
  define t where "t = (if P c then fst (numberSet_Add s c) else s)"
  have t: "ns_inv t" "ns_items t = ns_items s @ (if P c then [c] else [])"
    using Cons.prems(1,3) by (auto simp: t_def Add_items Add_abs ns_set_def)
  have "\<exists>s'. fold_res f t cs = Inr s' \<and> ns_inv s' \<and> ns_items s' = ns_items t @ filter P cs"
    using t Cons.prems by (intro Cons.IH) (auto simp: ns_set_def)
  then show ?case using t Cons.prems(4)[of c s] by (cases "P c") (simp_all add: t_def)
qed simp

lemma collect_loop:
  assumes "ns_inv nhs" "\<And>st c. c \<in> ns_set nhs \<Longrightarrow> f st c = Inr (if P c then fst (numberSet_Add st c) else st)"
  shows "\<exists>s. ns_for nhs f numberSet_Create = Inr s \<and> ns_inv s \<and> ns_items s = filter P (ns_items nhs)"
proof -
  have "\<exists>s. fold_res f numberSet_Create (ns_items nhs) = Inr s \<and> ns_inv s \<and> ns_items s = ns_items numberSet_Create @ filter P (ns_items nhs)"
    using assms ns.empty_items ns.distinct_items[OF assms(1)] by (intro collect_fold) (auto simp: ns_set_def)
  then show ?thesis using ns.empty_items by (simp add: ns_for_items[OF assms(1)])
qed

lemma AddSet_Create: "ns_inv s \<Longrightarrow> ns_items (numberSet_AddSet numberSet_Create s) = ns_items s"
  using ns.items_from_empty[of "ns_items s"] ns.distinct_items[of s]
    foldl_index[of "\<lambda>s n. fst (numberSet_Add s n)" "\<lambda>i. arrayOfNumbers s ! i" numberSet_Create "[0..<ns_length s]"]
  by (simp add: numberSet_AddSet_def map_nth_items)

lemma local_nexthops_spec:
  assumes "ns_inv nhs"
  shows "\<exists>s. local_nexthops C table nhs i = Inr s \<and> ns_inv s \<and>
    ns_items s = filter (\<lambda>c. usable (ct_lookup C table) i c \<and> is_local (ct_lookup C table) c) (ns_items nhs)"
  unfolding local_nexthops_def
  by (rule collect_loop[OF assms]) (auto simp: is_local_def usable_def split: option.split)

lemma policy_nexthops_spec:
  assumes "ns_inv nhs"
  shows "\<exists>s. policy_nexthops C table pol nhs i = Inr s \<and> ns_inv s \<and>
    ns_items s = filter (\<lambda>c. usable (ct_lookup C table) i c \<and> allowed (ct_lookup C table) pol c) (ns_items nhs)"
  unfolding policy_nexthops_def
  by (rule collect_loop[OF assms])
    (auto simp: allowed_def filter_tags_def usable_def has_tag_def tag_violated_def split: option.split)

definition resolved :: "(connid \<Rightarrow> Connection option) \<Rightarrow> NumberSet \<Rightarrow> bool" where
  "resolved look s \<longleftrightarrow> ns_inv s \<and> (\<forall>c\<in>ns_set s. look c \<noteq> None)"

lemma narrow_nexthops_spec:
  assumes "resolved (ct_lookup C table) s"
  shows "\<exists>s'. narrow_nexthops C table tag present s = Inr s' \<and> resolved (ct_lookup C table) s' \<and>
    ns_items s' = keep_if_any (if present then has_tag (ct_lookup C table) tag else Not \<circ> has_tag (ct_lookup C table) tag) (ns_items s)"
proof -
  have inv: "ns_inv s" using assms by (simp add: resolved_def)
  have "\<exists>s'. ns_for s (\<lambda>filtered conn_id.
       bind_res (ct_deref C table conn_id) (\<lambda>conn.
       if connection_HasTag conn tag \<noteq> present then Inr filtered
       else Inr (fst (numberSet_Add filtered conn_id)))) numberSet_Create = Inr s' \<and> ns_inv s' \<and>
    ns_items s' = filter (\<lambda>c. has_tag (ct_lookup C table) tag c = present) (ns_items s)"
    using assms by (intro collect_loop[OF inv]) (auto simp: has_tag_def ct_deref_def resolved_def split: option.split)
  then obtain s' where s': "ns_for s (\<lambda>filtered conn_id.
       bind_res (ct_deref C table conn_id) (\<lambda>conn.
       if connection_HasTag conn tag \<noteq> present then Inr filtered
       else Inr (fst (numberSet_Add filtered conn_id)))) numberSet_Create = Inr s'" "ns_inv s'"
    "ns_items s' = filter (\<lambda>c. has_tag (ct_lookup C table) tag c = present) (ns_items s)" by blast
  have "set (ns_items s') \<subseteq> ns_set s" using s'(3) by (auto simp: ns_set_def)
  then show ?thesis using assms s'(2,3) unfolding narrow_nexthops_def s'(1)
    by (cases present) (auto simp: Length_items AddSet_abs AddSet_Create resolved_def keep_if_any_def ns_set_def comp_def)
qed

lemma narrow_if_spec:
  assumes "resolved (ct_lookup C table) s"
  shows "\<exists>s'. narrow_if C table cond tag present s = Inr s' \<and> resolved (ct_lookup C table) s' \<and>
    ns_items s' = fold keep_if_any (if cond then [if present then has_tag (ct_lookup C table) tag else Not \<circ> has_tag (ct_lookup C table) tag] else []) (ns_items s)"
  using assms narrow_nexthops_spec[OF assms, of tag present] by (simp add: narrow_if_def)

lemma narrow_if_spec_eq:
  assumes "resolved (ct_lookup C table) s"
    and "cs = fold keep_if_any (if cond then [if present then has_tag (ct_lookup C table) tag else Not \<circ> has_tag (ct_lookup C table) tag] else []) (ns_items s)"
  shows "\<exists>s'. narrow_if C table cond tag present s = Inr s' \<and> resolved (ct_lookup C table) s' \<and> ns_items s' = cs"
  unfolding assms(2) by (rule narrow_if_spec[OF assms(1)])

text \<open>The running maximum.\<close>

definition prio_step :: "('c \<Rightarrow> u32) \<Rightarrow> ('c list \<times> u32) \<Rightarrow> 'c \<Rightarrow> 'c list \<times> u32" where
  "prio_step prio x c = (if prio c < snd x then x else if prio c = snd x then (fst x @ [c], snd x) else ([c], prio c))"

lemma prio_fold:
  "foldl (prio_step prio) ([], 0) cs = (filter (\<lambda>c. list_all (\<lambda>d. prio d \<le> prio c) cs) cs, fold (\<lambda>c m. max (prio c) m) cs 0) \<and>
   (\<forall>c\<in>set cs. prio c \<le> fold (\<lambda>c m. max (prio c) m) cs 0) \<and> (cs \<noteq> [] \<longrightarrow> (\<exists>c\<in>set cs. prio c = fold (\<lambda>c m. max (prio c) m) cs 0))"
proof (induction cs rule: rev_induct)
  case (snoc c cs)
  let ?m = "fold (\<lambda>c m. max (prio c) m) cs 0"
  have upper: "\<forall>d\<in>set cs. prio d \<le> ?m" and top: "cs \<noteq> [] \<Longrightarrow> \<exists>d\<in>set cs. prio d = ?m"
    and eq: "foldl (prio_step prio) ([], 0) cs = (filter (\<lambda>c. list_all (\<lambda>d. prio d \<le> prio c) cs) cs, ?m)" using snoc by auto
  have old: "list_all (\<lambda>d. prio d \<le> prio x) cs \<longleftrightarrow> prio x = ?m" if "x \<in> set cs" for x
    using upper top that by (force simp: list_all_iff)
  have new: "list_all (\<lambda>d. prio d \<le> prio c) cs \<longleftrightarrow> cs = [] \<or> ?m \<le> prio c"
    using upper top by (force simp: list_all_iff)
  have "filter (\<lambda>x. list_all (\<lambda>d. prio d \<le> prio x) (cs @ [c])) cs = filter (\<lambda>x. prio x = ?m \<and> prio c \<le> ?m) cs"
    by (rule filter_cong) (use old in auto)
  moreover have "filter (\<lambda>c. list_all (\<lambda>d. prio d \<le> prio c) cs) cs = filter (\<lambda>x. prio x = ?m) cs"
    by (rule filter_cong) (use old in auto)
  ultimately have "foldl (prio_step prio) ([], 0) (cs @ [c]) =
      (filter (\<lambda>x. list_all (\<lambda>d. prio d \<le> prio x) (cs @ [c])) (cs @ [c]), max (prio c) ?m)"
    using new by (cases "cs = []") (auto simp: eq prio_step_def max_def not_less)
  then show ?case using upper top by (cases "cs = []") (auto simp: max_def split: if_splits dest: order_trans)
qed simp

lemma prio_loop:
  assumes "resolved (ct_lookup C table) s" "distinct cs" "set cs \<inter> ns_set s = {}" "\<forall>c\<in>set cs. ct_lookup C table c \<noteq> None"
  shows "\<exists>s'. fold_res (\<lambda>(prio, max_priority) conn_id.
       bind_res (ct_deref C table conn_id) (\<lambda>conn.
       let priority = connection_GetPriority conn in
       if priority < max_priority then Inr (prio, max_priority)
       else if priority = max_priority then Inr (fst (numberSet_Add prio conn_id), max_priority)
       else Inr (fst (numberSet_Add numberSet_Create conn_id), priority))) (s, m) cs =
         Inr (s', snd (foldl (prio_step (priority_of (ct_lookup C table))) (ns_items s, m) cs)) \<and>
     resolved (ct_lookup C table) s' \<and> ns_items s' = fst (foldl (prio_step (priority_of (ct_lookup C table))) (ns_items s, m) cs)"
  using assms
proof (induction cs arbitrary: s m)
  case (Cons c cs)
  let ?p = "priority_of (ct_lookup C table)"
  obtain conn where conn: "ct_lookup C table c = Some conn" using Cons.prems(4) by auto
  then have p: "?p c = connection_GetPriority conn" by (simp add: priority_of_def)
  define t where "t = (if ?p c < m then s else if ?p c = m then fst (numberSet_Add s c) else fst (numberSet_Add numberSet_Create c))"
  define n where "n = (if ?p c < m then m else ?p c)"
  have inv: "ns_inv s" and c: "c \<notin> ns_set s" using Cons.prems(1,3) by (auto simp: resolved_def)
  have t: "resolved (ct_lookup C table) t" "set cs \<inter> ns_set t = {}" "ns_set t \<subseteq> insert c (ns_set s)"
    using Cons.prems inv conn by (auto simp: t_def resolved_def Add_abs)
  have step: "prio_step ?p (ns_items s, m) c = (ns_items t, n)"
    using c inv by (auto simp: prio_step_def t_def n_def Add_items ns_set_def)
  show ?case
    using Cons.IH[OF t(1) _ t(2), of n] Cons.prems(2,4) conn
    unfolding foldl_Cons step by (auto simp: t_def n_def ct_deref_def p Let_def)
qed simp

lemma priority_nexthops_spec:
  assumes "resolved (ct_lookup C table) s"
  shows "\<exists>s'. priority_nexthops C table s = Inr s' \<and> resolved (ct_lookup C table) s' \<and>
    ns_items s' = best (priority_of (ct_lookup C table)) (ns_items s)"
proof -
  have inv: "ns_inv s" using assms by (simp add: resolved_def)
  have "resolved (ct_lookup C table) numberSet_Create" using ns.empty_items by (simp add: resolved_def ns_set_def)
  from prio_loop[OF this, of "ns_items s" 0] show ?thesis
    using assms inv prio_fold[of "priority_of (ct_lookup C table)" "ns_items s"] ns.empty_items ns.distinct_items[OF inv]
    by (auto simp: priority_nexthops_def ns_for_items best_def resolved_def ns_set_def)
qed

text \<open>The set of a prefix advertisement.\<close>

lemma advertised_inv: "ns_inv (advertised_nexthops C table)"
proof -
  have "ns_inv s \<Longrightarrow> ns_inv (foldl (\<lambda>s ref. let conn = ct_heap table ref in
                    if connection_IsLocal conn then s
                    else if conn_down conn then s
                    else fst (numberSet_Add s (connection_GetConnectionId conn))) s refs)" for s refs
    by (induction refs arbitrary: s) (auto simp: Let_def Add_abs)
  then show ?thesis by (simp add: advertised_nexthops_def ns.empty_items)
qed

definition considered_nexthops ::
  "('i, 'p, 'o) ct_ops \<Rightarrow> ('i, 'p, 'o) ConnectionTable \<Rightarrow> ('d, 't, 'l) FibEntry \<Rightarrow> connid \<Rightarrow> NumberSet" where
  "considered_nexthops C table fe in_connection = (if in_connection = - 1 then advertised_nexthops C table else nexthops fe)"

lemma fold_preferences:
  "fold keep_if_any (preferences look pol) cs =
     (let st = (\<lambda>tag. pt_state (tags pol tag));
          opt = (\<lambda>cond P. if cond then [P] else [])
      in fold keep_if_any (opt (st POLICY_TAG_CELLULAR = POLICY_STATE_PREFER) (has_tag look POLICY_TAG_CELLULAR))
        (fold keep_if_any (opt (st POLICY_TAG_WIFI = POLICY_STATE_PREFER) (has_tag look POLICY_TAG_WIFI))
        (fold keep_if_any (opt (st POLICY_TAG_WIRED = POLICY_STATE_PREFER) (has_tag look POLICY_TAG_WIRED))
        (fold keep_if_any (opt (st POLICY_TAG_CELLULAR = POLICY_STATE_AVOID) (Not \<circ> has_tag look POLICY_TAG_CELLULAR))
        (fold keep_if_any (opt (st POLICY_TAG_WIFI = POLICY_STATE_AVOID) (Not \<circ> has_tag look POLICY_TAG_WIFI))
        (fold keep_if_any (opt (st POLICY_TAG_WIRED = POLICY_STATE_AVOID) (Not \<circ> has_tag look POLICY_TAG_WIRED))
          (keep_if_any (if st POLICY_TAG_TRUSTED = POLICY_STATE_REQUIRE \<or> st POLICY_TAG_TRUSTED = POLICY_STATE_PREFER
                        then has_tag look POLICY_TAG_TRUSTED else Not \<circ> has_tag look POLICY_TAG_TRUSTED) cs)))))))"
  by (simp add: preferences_def interface_tags_def Let_def)

lemma best_Nil [simp]: "best f [] = []"
  by (simp add: best_def)

lemma keep_if_any_Nil: "fold keep_if_any ps [] = []"
  by (induction ps) (auto simp: keep_if_any_def)

text \<open>One stage of the pipeline after another.\<close>

lemma then_stage:
  assumes "\<exists>s. m = Inr s \<and> resolved look s \<and> ns_items s = cs"
    and "\<And>s. resolved look s \<Longrightarrow> ns_items s = cs \<Longrightarrow> \<exists>s'. k s = Inr s' \<and> resolved look s' \<and> ns_items s' = ds"
  shows "\<exists>s'. bind_res m k = Inr s' \<and> resolved look s' \<and> ns_items s' = ds"
  using assms by (metis bind_res_simps(2))

lemma preferred_spec:
  assumes "resolved (ct_lookup C table) s"
  shows "\<exists>s'. preferred_nexthops C table pol s = Inr s' \<and> resolved (ct_lookup C table) s' \<and>
     ns_items s' = fold keep_if_any (preferences (ct_lookup C table) pol) (ns_items s)"
  unfolding preferred_nexthops_def fold_preferences Let_def
  apply (rule then_stage, rule narrow_nexthops_spec[OF assms])
  apply (rule then_stage, erule narrow_if_spec)+
  apply (erule narrow_if_spec_eq)
  apply (simp only: if_True if_False)
  done

lemma available_spec:
  assumes "ns_inv (nexthops fe)"
  shows "\<exists>s. fibEntry_GetAvailableNextHops C table fe i = Inr s \<and> resolved (ct_lookup C table) s \<and>
    ns_items s = spec_available (ct_lookup C table) (policy fe) (ns_items (considered_nexthops C table fe i)) i"
proof -
  let ?look = "ct_lookup C table" and ?nhs = "considered_nexthops C table fe i"
  have inv: "ns_inv ?nhs" using assms advertised_inv[of C table] by (simp add: considered_nexthops_def)
  obtain l where l: "local_nexthops C table ?nhs i = Inr l" "ns_inv l"
    "ns_items l = filter (\<lambda>c. usable ?look i c \<and> is_local ?look c) (ns_items ?nhs)"
    using local_nexthops_spec[OF inv, of C table i] by blast
  obtain p where p: "policy_nexthops C table (policy fe) ?nhs i = Inr p" "ns_inv p"
    "ns_items p = filter (\<lambda>c. usable ?look i c \<and> allowed ?look (policy fe) c) (ns_items ?nhs)"
    using policy_nexthops_spec[OF inv, of C table "policy fe" i] by blast
  have lr: "resolved ?look l" and pr: "resolved ?look p"
    using l p by (auto simp: resolved_def ns_set_def usable_def split: option.splits)
  have "\<exists>s'. bind_res (preferred_nexthops C table (policy fe) p) (priority_nexthops C table) = Inr s' \<and> resolved ?look s' \<and>
      ns_items s' = best (priority_of ?look) (fold keep_if_any (preferences ?look (policy fe)) (ns_items p))"
    by (rule then_stage[OF preferred_spec[OF pr]], drule priority_nexthops_spec) simp
  then obtain r where r: "bind_res (preferred_nexthops C table (policy fe) p) (priority_nexthops C table) = Inr r" "resolved ?look r"
      "ns_items r = best (priority_of ?look) (fold keep_if_any (preferences ?look (policy fe)) (ns_items p))" by blast
  have avail: "fibEntry_GetAvailableNextHops C table fe i =
      (if i \<noteq> - 1 \<and> ns_items l \<noteq> [] then Inr l else if ns_items p = [] then Inr p else Inr r)"
    using l(1,2) p(1,2) r(1) ns.empty_items
    by (cases "i = - 1") (simp_all del: bind_res_eq_Inr add: fibEntry_GetAvailableNextHops_def considered_nexthops_def Length_items fibEntry_GetPolicy_def
        fibEntry_GetNexthops_def Let_def)
  show ?thesis
    using lr pr r(2,3) l(3) p(3) unfolding avail
    by (auto simp: spec_available_def Let_def keep_if_any_Nil)
qed


section \<open>The choice of the strategy\<close>

text \<open>What a next hop must satisfy to be considered at all.\<close>

definition permitted :: "(connid \<Rightarrow> Connection option) \<Rightarrow> 'd hicn_policy \<Rightarrow> connid \<Rightarrow> connid \<Rightarrow> bool" where
  "permitted look pol in_connection c \<longleftrightarrow> usable look in_connection c \<and> (is_local look c \<or> allowed look pol c)"

lemma permittedD:
  assumes "permitted look pol i c"
  shows "c \<noteq> i \<and> (\<exists>conn. look c = Some conn \<and> \<not> conn_down conn \<and>
    (\<not> connection_IsLocal conn \<longrightarrow> list_all (\<lambda>tag. \<not> tag_violated pol conn tag) filter_tags))"
  using assms by (auto simp: permitted_def usable_def is_local_def allowed_def has_tag_def tag_violated_def list_all_iff split: option.splits)

lemma keep_if_any_subset: "set (fold keep_if_any ps cs) \<subseteq> set cs"
proof (induction ps arbitrary: cs)
  case (Cons P ps)
  have "set (keep_if_any P cs) \<subseteq> set cs" by (auto simp: keep_if_any_def)
  with Cons[of "keep_if_any P cs"] show ?case by auto
qed simp

lemma spec_available_permitted: "c \<in> set (spec_available look pol nhs i) \<Longrightarrow> c \<in> set nhs \<and> permitted look pol i c"
proof -
  define cs where "cs = filter (allowed look pol) (filter (usable look i) nhs)"
  assume "c \<in> set (spec_available look pol nhs i)"
  then have "c \<in> set (filter (is_local look) (filter (usable look i) nhs)) \<or> c \<in> set (best (priority_of look) (fold keep_if_any (preferences look pol) cs))"
    by (simp add: spec_available_def Let_def cs_def split: if_splits)
  then have "c \<in> set (filter (is_local look) (filter (usable look i) nhs)) \<or> c \<in> set cs"
    using keep_if_any_subset[of "preferences look pol" cs] by (auto simp: best_def)
  then show ?thesis by (auto simp: permitted_def cs_def)
qed

lemma keep_if_any_nonempty: "fold keep_if_any ps cs = [] \<longleftrightarrow> cs = []"
proof (induction ps arbitrary: cs)
  case (Cons P ps)
  have "keep_if_any P cs = [] \<longleftrightarrow> cs = []" by (cases cs) (simp_all add: keep_if_any_def)
  with Cons[of "keep_if_any P cs"] show ?case by simp
qed simp

lemma best_nonempty: "best f cs = [] \<longleftrightarrow> cs = []"
proof (cases "cs = []")
  case False
  then have fin: "finite (f ` set cs)" "f ` set cs \<noteq> {}" by auto
  obtain c where "c \<in> set cs" "f c = Max (f ` set cs)" using Max_in[OF fin] by auto
  then have "c \<in> set (best f cs)" using fin by (auto simp: best_def list_all_iff)
  then show ?thesis using False by (metis empty_iff list.set(1))
qed simp

lemma spec_available_nonempty: "c \<in> set nhs \<Longrightarrow> usable look i c \<Longrightarrow> allowed look pol c \<Longrightarrow> spec_available look pol nhs i \<noteq> []"
  by (auto simp: spec_available_def Let_def best_nonempty keep_if_any_nonempty filter_empty_conv)

definition fe_inv :: "('d, 't, 'l) FibEntry \<Rightarrow> bool" where
  "fe_inv fe \<longleftrightarrow> ns_inv (nexthops fe) \<and> modelled (fwdStrategy fe)"

lemma ns_for_total:
  assumes "ns_inv s" "\<And>st c. c \<in> ns_set s \<Longrightarrow> \<exists>st'. f st c = Inr st'"
  shows "\<exists>st'. ns_for s f st = Inr st'"
proof -
  have "(\<And>st c. c \<in> set cs \<Longrightarrow> \<exists>st'. f st c = Inr st') \<Longrightarrow> \<exists>st'. fold_res f st cs = Inr st'" for cs st
  proof (induction cs arbitrary: st)
    case (Cons c cs)
    obtain st' where "f st c = Inr st'" using Cons.prems[of c st] by auto
    then show ?case using Cons.IH[of st'] Cons.prems by simp
  qed simp
  then show ?thesis using assms by (simp add: ns_for_items ns_set_def)
qed

lemma choice_ok:
  assumes "fe_inv fe"
  shows "\<exists>out fe'. fibEntry_GetNexthopsFromForwardingStrategy S C table rnd fe m r = Inr (out, fe') \<and>
    fe' = fe\<lparr>fwdStrategy := fwdStrategy fe', pcounters := pcounters fe'\<rparr> \<and> fe_inv fe' \<and> ns_inv out \<and> length (ns_items out) \<le> 1 \<and>
    (\<forall>c\<in>ns_set out. c \<in> ns_set (considered_nexthops C table fe (message_GetIngressConnectionId m)) \<and>
       permitted (ct_lookup C table) (policy fe) (message_GetIngressConnectionId m) c)"
proof -
  let ?i = "message_GetIngressConnectionId m" and ?look = "ct_lookup C table"
  have inv: "ns_inv (nexthops fe)" and st: "modelled (fwdStrategy fe)" using assms by (auto simp: fe_inv_def)
  obtain a where a: "fibEntry_GetAvailableNextHops C table fe ?i = Inr a" "resolved ?look a"
      "ns_items a = spec_available ?look (policy fe) (ns_items (considered_nexthops C table fe ?i)) ?i"
    using available_spec[OF inv, of C table ?i] by blast
  have ainv: "ns_inv a" and adef: "\<forall>c\<in>ns_set a. ?look c \<noteq> None" using a(2) by (auto simp: resolved_def)
  have perm: "\<forall>c\<in>ns_set a. c \<in> ns_set (considered_nexthops C table fe ?i) \<and> permitted ?look (policy fe) ?i c"
    using spec_available_permitted[of _ ?look "policy fe" "ns_items (considered_nexthops C table fe ?i)" ?i] a(3)
    by (auto simp: ns_set_def)
  show ?thesis
  proof (cases "ns_items a = []")
    case True
    then have "fibEntry_GetNexthopsFromForwardingStrategy S C table rnd fe m r = Inr (numberSet_Create, fe)"
      using a(1) ainv by (simp add: fibEntry_GetNexthopsFromForwardingStrategy_def Let_def Length_items)
    then show ?thesis using assms ns.empty_items by (simp add: ns_set_def)
  next
    case False
    have "\<exists>pc. ns_for a (\<lambda>pc conn_id. bind_res (ct_deref C table conn_id) (\<lambda>conn.
        let pc = count_losses conn pc in Inr (pc\<lparr>c_all := count_loss (c_all pc)\<rparr>))) (pcounters fe) = Inr pc"
      using adef by (intro ns_for_total[OF ainv]) (auto simp: ct_deref_def Let_def split: option.split)
    then obtain pc where pc: "(if r then ns_for a (\<lambda>pc conn_id. bind_res (ct_deref C table conn_id) (\<lambda>conn.
        let pc = count_losses conn pc in Inr (pc\<lparr>c_all := count_loss (c_all pc)\<rparr>))) (pcounters fe) else Inr (pcounters fe)) = Inr pc"
      by (cases r) auto
    obtain out s' where look: "strategy_lookupNexthop S rnd (fwdStrategy fe) a m = Inr (out, s')" "modelled s'" "ns_inv out"
        "ns_set out \<subseteq> ns_set a" "length (ns_items out) \<le> 1"
      using strat.lookup_ok[OF st ainv False, of S rnd m] by blast
    have first: "numberSet_GetItem a 0 = Inr (ns_items a ! 0)" "ns_items a ! 0 \<in> ns_set a"
      using False ainv by (auto simp: GetItem_items Length_items ns_set_def)
    define multi where "multi \<longleftrightarrow> pt_state (tags (policy fe) POLICY_TAG_MULTIPATH) \<noteq> POLICY_STATE_PROHIBIT \<and> pt_state (tags (policy fe) POLICY_TAG_MULTIPATH) \<noteq> POLICY_STATE_AVOID"
    have "fibEntry_GetNexthopsFromForwardingStrategy S C table rnd fe m r =
        (if multi then Inr (out, fe\<lparr>pcounters := pc, fwdStrategy := s'\<rparr>)
         else Inr (fst (numberSet_Add numberSet_Create (ns_items a ! 0)), fe\<lparr>pcounters := pc\<rparr>))"
      using a(1) ainv False pc look(1) first(1)
      by (simp add: fibEntry_GetNexthopsFromForwardingStrategy_def Let_def Length_items fibEntry_GetPolicy_def multi_def)
    then show ?thesis using perm look(2-) first(2) inv st by (cases multi) (auto simp: fe_inv_def ns_singleton)
  qed
qed

section \<open>Feedback\<close>

text \<open>A loop that always goes on and leaves a part of the state alone.\<close>

lemma ns_for_keep:
  assumes "ns_inv s" "\<And>st c. \<exists>st'. f st c = Inr st' \<and> g st' = g st"
  shows "\<exists>st'. ns_for s f st = Inr st' \<and> g st' = g st"
proof -
  have "\<exists>st'. fold_res f st cs = Inr st' \<and> g st' = g st" for cs
  proof (induction cs arbitrary: st)
    case (Cons c cs)
    obtain st' where "f st c = Inr st'" "g st' = g st" using assms(2)[of st c] by auto
    then show ?case using Cons[of st'] by simp
  qed simp
  then show ?thesis by (simp add: ns_for_items[OF assms(1)])
qed

lemma received_ok:
  assumes "fe_inv fe" "ns_inv egress"
  shows "\<exists>fe'. fibEntry_ReceiveObjectMessage S C table fe egress m t t' = Inr fe' \<and> fe_inv fe' \<and> fe_name fe' = fe_name fe \<and>
    nexthops fe' = nexthops fe \<and> tags (policy fe') = tags (policy fe) \<and>
    num_packets (c_all (pcounters fe')) = num_packets (c_all (pcounters fe)) + 1"
proof -
  let ?f = "\<lambda>x conn_id. case ct_lookup C table conn_id of None \<Rightarrow> Inr x
    | Some conn \<Rightarrow> Inr (object_received_on (st_fp S) (message_Length m) (t' - t) conn x)"
  have "\<exists>x'. ns_for egress ?f (pcounters fe, pol_stats (policy fe)) = Inr x' \<and>
      (c_all \<circ> fst) x' = (c_all \<circ> fst) (pcounters fe, pol_stats (policy fe))"
    by (rule ns_for_keep[OF assms(2)]) (auto simp: object_received_on_def Let_def split: option.split)
  then obtain pc ps where pc: "ns_for egress ?f (pcounters fe, pol_stats (policy fe)) = Inr (pc, ps)" "c_all pc = c_all (pcounters fe)"
    by auto
  obtain s' where "strategy_receiveObject S (fwdStrategy fe) egress m t t' = Inr s'" "modelled s'"
    using strat.received_ok[of "fwdStrategy fe" egress S m t t'] assms by (auto simp: fe_inv_def)
  then show ?thesis using assms pc
    by (simp add: fibEntry_ReceiveObjectMessage_def Let_def fe_inv_def count_packet_def)
qed

lemma timeout_ok:
  assumes "fe_inv fe" "ns_inv egress"
  shows "\<exists>fe'. fibEntry_OnTimeout S C table fe egress = Inr fe' \<and> fe_inv fe' \<and> fe_name fe' = fe_name fe \<and>
    nexthops fe' = nexthops fe \<and> policy fe' = policy fe \<and>
    num_losses (c_all (pcounters fe')) = num_losses (c_all (pcounters fe)) + 1"
proof -
  let ?f = "\<lambda>pc conn_id. case ct_lookup C table conn_id of None \<Rightarrow> Inr pc | Some conn \<Rightarrow> Inr (count_losses conn pc)"
  have "\<exists>pc. ns_for egress ?f (pcounters fe) = Inr pc \<and> c_all pc = c_all (pcounters fe)"
    by (rule ns_for_keep[OF assms(2)]) (auto simp: count_losses_def Let_def split: option.split)
  then obtain pc where pc: "ns_for egress ?f (pcounters fe) = Inr pc" "c_all pc = c_all (pcounters fe)" by blast
  obtain s' where "strategy_onTimeout S (fwdStrategy fe) egress = Inr s'" "modelled s'"
    using strat.timeout_ok[of "fwdStrategy fe" egress S] assms by (auto simp: fe_inv_def)
  then show ?thesis using assms pc by (simp add: fibEntry_OnTimeout_def Let_def fe_inv_def count_loss_def)
qed

lemma AddNexthop_ok:
  assumes "fe_inv fe"
  shows "fe_inv (fibEntry_AddNexthop S fe c)" "ns_set (nexthops (fibEntry_AddNexthop S fe c)) = insert c (ns_set (nexthops fe))"
    "fe_name (fibEntry_AddNexthop S fe c) = fe_name fe"
  using assms strat.add_ok[of "fwdStrategy fe" S c]
  by (auto simp: fibEntry_AddNexthop_def fe_inv_def Let_def Add_abs Contains_abs)

lemma RemoveNexthop_ok:
  assumes "fe_inv fe"
  shows "fe_inv (fibEntry_RemoveNexthopByConnectionId S fe c)"
    "ns_set (nexthops (fibEntry_RemoveNexthopByConnectionId S fe c)) = ns_set (nexthops fe) - {c}"
    "fe_name (fibEntry_RemoveNexthopByConnectionId S fe c) = fe_name fe"
  using assms strat.remove_ok[of "fwdStrategy fe" S c]
  by (auto simp: fibEntry_RemoveNexthopByConnectionId_def fe_inv_def Let_def Remove_abs Contains_abs)

text \<open>
  The loss rate in percent is computed with an integer division: as long as fewer packets were
  lost than received it is zero.
\<close>

lemma loss_rate_truncated:
  assumes "num_losses c < num_packets c"
  shows "measured_loss_rate exact_fp c = 0"
proof -
  have "num_losses c div num_packets c = 0" using assms by (simp add: word_arith_nat_div word_less_nat_alt)
  then show ?thesis by (simp add: measured_loss_rate_def)
qed

section \<open>Properties\<close>

text \<open>A table that holds one connection, and an entry that has it as next hop, for the witnesses.\<close>

lemma ex_conn_fields:
  "0 < conn_refCount ex_conn" "connection_GetConnectionId ex_conn = 5" "\<not> conn_down ex_conn"
  by (simp_all add: ex_conn_def connection_Create_def connection_SetAdminState_def connection_GetConnectionId_def ex_io_def
      conn_down_def connection_GetAdminState_def connection_GetState_def)

lemma ex_table: "\<exists>t. ct_lookup ex_ct_ops t = [5 \<mapsto> ex_conn]"
proof -
  from connectionTable_Add_ok[OF ex_ct_ops_ok connectionTable_Create_inv(1)[OF ex_ct_ops_ok] ex_conn_fields(1)]
  obtain t where "ct_lookup ex_ct_ops t = (ct_lookup ex_ct_ops (connectionTable_Create ex_ct_ops))(5 \<mapsto> ex_conn)"
    using connectionTable_Create_inv(3)[OF ex_ct_ops_ok] ex_conn_fields(2) by auto
  then show ?thesis using connectionTable_Create_inv(3)[OF ex_ct_ops_ok] by (intro exI[of _ t]) auto
qed

definition ex_name :: Name where
  "ex_name = make_name (\<lambda>d s. s) \<lparr>bits0 = 0, bits1 = 0, nb_len = 0, IPversion = 6\<rparr> 0"

definition ex_fe :: "Name \<Rightarrow> (rat, (connid \<times> rat StrategyNexthopState) list, unit) FibEntry" where
  "ex_fe name =
     \<lparr>fe_name = name, fe_refcount = 1, fwdStrategy = Rnd, nexthops = fst (numberSet_Add numberSet_Create 5),
      policy = POLICY_NONE exact_fp, pcounters = POLICY_COUNTERS_NONE, previous_nexthops = None, userData = None\<rparr>"

definition ex_st_ops :: "(rat, (connid \<times> rat StrategyNexthopState) list, unit) st_ops" where
  "ex_st_ops = \<lparr>st_fp = exact_fp, st_hm = al_hm,
     st_ll = \<lparr>ll_Create = (), ll_SetStrategy = (\<lambda>l _. l), ll_receiveObject = (\<lambda>l _ _ _ _. Inr l), ll_onTimeout = (\<lambda>l _. Inr l),
       ll_lookupNexthop = (\<lambda>l _ _. Inr (numberSet_Create, l)), ll_addNexthop = (\<lambda>l _. l), ll_removeNexthop = (\<lambda>l _. l)\<rparr>\<rparr>"

lemma ex_fe_ok: "fe_inv (ex_fe n)" "ns_items (nexthops (ex_fe n)) = [5]"
  by (simp_all add: fe_inv_def ex_fe_def ns_singleton)

lemma ex_available:
  assumes "ct_lookup ex_ct_ops t = [5 \<mapsto> ex_conn]"
  shows "spec_available (ct_lookup ex_ct_ops t) (policy (ex_fe n)) [5] 9 = [5]"
  using ex_conn_fields(3)
  by (simp add: assms spec_available_def usable_def allowed_def filter_tags_def preferences_def interface_tags_def ex_fe_def
      POLICY_NONE_def has_tag_def keep_if_any_def best_def Let_def is_local_def)

text \<open>
  C20. The nine loops that select the available next hops of a FIB entry compute the reference
  definition: local faces if any, otherwise the faces allowed by the required and
  prohibited tags, narrowed by each preference in turn unless that leaves none, of the highest
  priority. The connection lookups inside the loops never fail.
\<close>

theorem fibEntry_GetAvailableNextHops_reference:
  assumes "ns_inv (nexthops fe)"
  shows "\<exists>s. fibEntry_GetAvailableNextHops C table fe i = Inr s \<and> ns_inv s \<and>
    ns_items s = spec_available (ct_lookup C table) (policy fe) (ns_items (considered_nexthops C table fe i)) i"
  using available_spec[OF assms, of C table i] by (auto simp: resolved_def)

theorem fibEntry_GetAvailableNextHops_reference_witness:
  "\<exists>t s. ct_lookup ex_ct_ops t = [5 \<mapsto> ex_conn] \<and> fibEntry_GetAvailableNextHops ex_ct_ops t (ex_fe ex_name) 9 = Inr s \<and> ns_items s = [5]"
proof -
  obtain t where t: "ct_lookup ex_ct_ops t = [5 \<mapsto> ex_conn]" using ex_table by blast
  have "ns_inv (nexthops (ex_fe ex_name))" using ex_fe_ok(1) by (simp add: fe_inv_def)
  from fibEntry_GetAvailableNextHops_reference[OF this, of ex_ct_ops t 9] t
  show ?thesis by (auto simp: considered_nexthops_def ex_fe_ok ex_available[OF t, simplified t])
qed

text \<open>
  C21. Forwarding is safe: with the load balancer or the random strategy, choosing where an
  interest goes never aborts and yields at most one next hop; that next hop belongs to the entry,
  differs from the ingress connection, exists and is up, and, unless it is local, has every tag the
  policy requires and none it prohibits.
\<close>

theorem fibEntry_forwarding_safe:
  assumes "fe_inv fe" "message_GetIngressConnectionId m \<noteq> - 1"
  shows "\<exists>out fe'. fibEntry_GetNexthopsFromForwardingStrategy S C table rnd fe m r = Inr (out, fe') \<and> fe_inv fe' \<and>
    numberSet_Length out \<le> 1 \<and>
    (\<forall>c\<in>ns_set out. c \<in> ns_set (nexthops fe) \<and> c \<noteq> message_GetIngressConnectionId m \<and>
       (\<exists>conn. ct_lookup C table c = Some conn \<and> \<not> conn_down conn \<and>
         (\<not> connection_IsLocal conn \<longrightarrow> list_all (\<lambda>tag. \<not> tag_violated (policy fe) conn tag) filter_tags)))"
proof -
  from choice_ok[OF assms(1), of S C table rnd m r] obtain out fe' where
    out: "fibEntry_GetNexthopsFromForwardingStrategy S C table rnd fe m r = Inr (out, fe')" "fe_inv fe'" "ns_inv out"
      "length (ns_items out) \<le> 1"
      "\<forall>c\<in>ns_set out. c \<in> ns_set (nexthops fe) \<and> permitted (ct_lookup C table) (policy fe) (message_GetIngressConnectionId m) c"
    using assms(2) by (auto simp: considered_nexthops_def)
  then show ?thesis using permittedD[of "ct_lookup C table" "policy fe" "message_GetIngressConnectionId m"] by (simp add: Length_items)
qed

theorem fibEntry_forwarding_safe_witness:
  "\<exists>t out fe'. ct_lookup ex_ct_ops t = [5 \<mapsto> ex_conn] \<and>
     fibEntry_GetNexthopsFromForwardingStrategy ex_st_ops ex_ct_ops t 3 (ex_fe ex_name) (message_SetIngressConnectionId ex_interest 9) False = Inr (out, fe') \<and>
     numberSet_Length out \<le> 1"
proof -
  obtain t where t: "ct_lookup ex_ct_ops t = [5 \<mapsto> ex_conn]" using ex_table by blast
  have "message_GetIngressConnectionId (message_SetIngressConnectionId ex_interest 9) \<noteq> - 1"
    by (simp add: message_GetIngressConnectionId_def message_SetIngressConnectionId_def)
  from fibEntry_forwarding_safe[OF ex_fe_ok(1) this, of ex_st_ops ex_ct_ops t 3 ex_name False] t show ?thesis by blast
qed

end
