(* ===== verification/Routes.thy ===== *)
theory Routes
  imports FibEntry Fib Pit
begin

text \<open>
  The FIB with its entries: the trie of \<^verbatim>\<open>fib.c\<close> over the entries of \<^verbatim>\<open>fibEntry.c\<close>, and the operations of
  the message processor that touch nothing but the FIB (\<^verbatim>\<open>messageProcessor.c\<close>): routes, policies,
  strategies and the periodic statistics. As compiled with \<^verbatim>\<open>WITH_MAPME\<close>, a route that loses its last
  next hop keeps its node.

  Entries live in a store and the trie holds their references. Entries are never freed, so their
  reference counts, and the list type \<^verbatim>\<open>FibEntryList\<close> that holds references for the time of a loop, are not
  modelled. The strategy that the configuration has for a prefix is an argument, as is the MAP-Me hook.

  The lemmas show that the store refines a map from prefixes to sets of next hops.
\<close>

section \<open>The store\<close>

record ('d, 't, 'l) fib_store =
  fs_trie :: "nat fib"
  fs_heap :: "nat \<Rightarrow> ('d, 't, 'l) FibEntry"
  fs_next :: nat

definition fs_pfx :: "('d, 't, 'l) fib_store \<Rightarrow> nat \<Rightarrow> NameBitvector" where
  "fs_pfx fs e = name_bv (fibEntry_GetPrefix (fs_heap fs e))"

definition fs_put :: "('d, 't, 'l) fib_store \<Rightarrow> nat \<Rightarrow> ('d, 't, 'l) FibEntry \<Rightarrow> ('d, 't, 'l) fib_store" where
  "fs_put fs e fe = fs\<lparr>fs_heap := (fs_heap fs)(e := fe)\<rparr>"

definition fs_alloc :: "('d, 't, 'l) fib_store \<Rightarrow> ('d, 't, 'l) FibEntry \<Rightarrow> ('d, 't, 'l) fib_store \<times> nat" where
  "fs_alloc fs fe = (fs\<lparr>fs_heap := (fs_heap fs)(fs_next fs := fe), fs_next := fs_next fs + 1\<rparr>, fs_next fs)"

text \<open>What the heap holds at references that were never handed out does not matter.\<close>

definition fs_Create :: "('d, 't, 'l) st_ops \<Rightarrow> ('d, 't, 'l) fib_store" where
  "fs_Create S = \<lparr>fs_trie = fib_Create,
     fs_heap = (\<lambda>_. fibEntry_Create S \<lparr>content_name = None, segment = 0, name_hash = 0\<rparr> SET_STRATEGY_LOADBALANCER), fs_next = 0\<rparr>"

text \<open>The bit vector of a name, which the callees assert to be there.\<close>

definition name_GetContentName :: "Name \<Rightarrow> NameBitvector res" where
  "name_GetContentName name = (case content_name name of None \<Rightarrow> Inl AssertFailed | Some bv \<Rightarrow> Inr bv)"

section \<open>The operations of the FIB\<close>

text \<open>Insertion of an allocated entry. A reference is set aside for an inner node, if one is made; its entry has a load balancer and the name of the common prefix.\<close>

definition fib_AddEntry :: "hash_fun \<Rightarrow> ('d, 't, 'l) st_ops \<Rightarrow> ('d, 't, 'l) fib_store \<Rightarrow> nat \<Rightarrow> ('d, 't, 'l) fib_store res" where
  "fib_AddEntry H S fs e =
     (let inner = fs_next fs in
      bind_res (fib_Add (fs_pfx fs) inner (fs_trie fs) e) (\<lambda>(trie, c).
      Inr (case c of
             None \<Rightarrow> fs\<lparr>fs_trie := trie, fs_next := inner + 1\<rparr>
           | Some inner_prefix \<Rightarrow>
               (let n = fibEntry_GetPrefix (fs_heap fs e);
                    name = (name_Copy n)\<lparr>content_name := Some inner_prefix, name_hash := computeHash H inner_prefix (segment n)\<rparr>
                in fs\<lparr>fs_trie := trie, fs_heap := (fs_heap fs)(inner := fibEntry_Create S name SET_STRATEGY_LOADBALANCER),
                      fs_next := inner + 1\<rparr>))))"

definition fib_ContainsName :: "('d, 't, 'l) fib_store \<Rightarrow> Name \<Rightarrow> nat option res" where
  "fib_ContainsName fs pref = bind_res (name_GetContentName pref) (\<lambda>key. fib_Contains (fs_pfx fs) (fs_trie fs) key)"

definition fib_MatchName :: "('d, 't, 'l) fib_store \<Rightarrow> Name \<Rightarrow> nat option res" where
  "fib_MatchName fs name = bind_res (name_GetContentName name) (\<lambda>key. fib_MatchBitvector (fs_pfx fs) (fs_trie fs) key)"

definition fib_MatchMessage :: "('d, 't, 'l) fib_store \<Rightarrow> Message \<Rightarrow> nat option res" where
  "fib_MatchMessage fs interestMessage = bind_res (message_key interestMessage) (fib_MatchName fs)"

definition fib_Remove :: "('d, 't, 'l) st_ops \<Rightarrow> ('d, 't, 'l) fib_store \<Rightarrow> Name \<Rightarrow> connid \<Rightarrow> ('d, 't, 'l) fib_store res" where
  "fib_Remove S fs name connId =
     bind_res (fib_ContainsName fs name) (\<lambda>entry.
     case entry of
       None \<Rightarrow> Inr fs
     | Some e \<Rightarrow> Inr (fs_put fs e (fibEntry_RemoveNexthopByConnectionId S (fs_heap fs e) connId)))"

fun removeConnectionId :: "('d, 't, 'l) st_ops \<Rightarrow> nat fib_node \<Rightarrow> connid \<Rightarrow> ('d, 't, 'l) fib_store \<Rightarrow> ('d, 't, 'l) fib_store" where
  "removeConnectionId S Null connectionId fs = fs"
| "removeConnectionId S (FibNode l r e is_used) connectionId fs =
     (let fs = (if is_used then fs_put fs e (fibEntry_RemoveNexthopByConnectionId S (fs_heap fs e) connectionId) else fs);
          fs = removeConnectionId S r connectionId fs
      in removeConnectionId S l connectionId fs)"

text \<open>The list of entries to remove stays empty, so the loop over it does nothing.\<close>

definition fib_RemoveConnectionId :: "('d, 't, 'l) st_ops \<Rightarrow> ('d, 't, 'l) fib_store \<Rightarrow> connid \<Rightarrow> ('d, 't, 'l) fib_store" where
  "fib_RemoveConnectionId S fs connectionId = removeConnectionId S (fib_root (fs_trie fs)) connectionId fs"

section \<open>Routes, policies and strategies\<close>

definition messageProcessor_AddOrUpdateRoute ::
  "hash_fun \<Rightarrow> ('d, 't, 'l) st_ops \<Rightarrow> strategy_type \<Rightarrow> ('d, 't, 'l) fib_store \<Rightarrow> Address \<Rightarrow> u8 \<Rightarrow> connid \<Rightarrow> ('d, 't, 'l) fib_store res" where
  "messageProcessor_AddOrUpdateRoute H S strategy fs address len ifidx =
     bind_res (name_CreateFromAddress H address len) (\<lambda>pref.
     bind_res (fib_ContainsName fs pref) (\<lambda>entry.
     case entry of
       Some e \<Rightarrow> Inr (fs_put fs e (fibEntry_AddNexthop S (fs_heap fs e) ifidx))
     | None \<Rightarrow>
         (let (fs, e) = fs_alloc fs (fibEntry_Create S pref strategy);
              fs = fs_put fs e (fibEntry_AddNexthop S (fs_heap fs e) ifidx)
          in fib_AddEntry H S fs e)))"

definition messageProcessor_RemoveRoute ::
  "hash_fun \<Rightarrow> ('d, 't, 'l) st_ops \<Rightarrow> ('d, 't, 'l) fib_store \<Rightarrow> Address \<Rightarrow> u8 \<Rightarrow> connid \<Rightarrow> ('d, 't, 'l) fib_store res" where
  "messageProcessor_RemoveRoute H S fs address len ifidx =
     bind_res (name_CreateFromAddress H address len) (\<lambda>name. fib_Remove S fs name ifidx)"

definition messageProcessor_AddOrUpdatePolicy ::
  "hash_fun \<Rightarrow> ('d, 't, 'l) st_ops \<Rightarrow> (('d, 't, 'l) FibEntry \<Rightarrow> ('d, 't, 'l) FibEntry) \<Rightarrow> strategy_type \<Rightarrow>
     ('d, 't, 'l) fib_store \<Rightarrow> Address \<Rightarrow> u8 \<Rightarrow> 'd hicn_policy \<Rightarrow> ('d, 't, 'l) fib_store res" where
  "messageProcessor_AddOrUpdatePolicy H S mapme_reconsiderFibEntry strategy fs address len pol =
     bind_res (name_CreateFromAddress H address len) (\<lambda>pref.
     bind_res (fib_ContainsName fs pref) (\<lambda>entry.
     bind_res (case entry of
                 Some e \<Rightarrow> Inr (fs, e)
               | None \<Rightarrow>
                   (let (fs, e) = fs_alloc fs (fibEntry_Create S pref strategy)
                    in bind_res (fib_AddEntry H S fs e) (\<lambda>fs. Inr (fs, e)))) (\<lambda>(fs, e).
     Inr (fs_put fs e (fibEntry_SetPolicy mapme_reconsiderFibEntry (fs_heap fs e) pol)))))"

definition messageProcessor_RemovePolicy ::
  "hash_fun \<Rightarrow> ('d, 't, 'l) st_ops \<Rightarrow> (('d, 't, 'l) FibEntry \<Rightarrow> ('d, 't, 'l) FibEntry) \<Rightarrow>
     ('d, 't, 'l) fib_store \<Rightarrow> Address \<Rightarrow> u8 \<Rightarrow> (('d, 't, 'l) fib_store \<times> bool) res" where
  "messageProcessor_RemovePolicy H S mapme_reconsiderFibEntry fs address len =
     bind_res (name_CreateFromAddress H address len) (\<lambda>pref.
     bind_res (fib_ContainsName fs pref) (\<lambda>entry.
     case entry of
       None \<Rightarrow> Inr (fs, False)
     | Some e \<Rightarrow> Inr (fs_put fs e (fibEntry_SetPolicy mapme_reconsiderFibEntry (fs_heap fs e) (POLICY_NONE (st_fp S))), True)))"

definition messageProcessor_RemoveConnectionIdFromRoutes ::
  "('d, 't, 'l) st_ops \<Rightarrow> ('d, 't, 'l) fib_store \<Rightarrow> connid \<Rightarrow> ('d, 't, 'l) fib_store" where
  "messageProcessor_RemoveConnectionIdFromRoutes S fs connectionId = fib_RemoveConnectionId S fs connectionId"

definition processor_SetStrategy ::
  "('d, 't, 'l) st_ops \<Rightarrow> ('d, 't, 'l) fib_store \<Rightarrow> Name \<Rightarrow> strategy_type \<Rightarrow> Name list \<Rightarrow> ('d, 't, 'l) fib_store res" where
  "processor_SetStrategy S fs pref strategy related_prefixes =
     bind_res (fib_ContainsName fs pref) (\<lambda>entry.
     case entry of
       None \<Rightarrow> Inr fs
     | Some e \<Rightarrow> bind_res (fibEntry_SetStrategy S (fs_heap fs e) strategy related_prefixes) (\<lambda>fe. Inr (fs_put fs e fe)))"

definition messageProcessor_GetFibEntries :: "('d, 't, 'l) fib_store \<Rightarrow> nat list" where
  "messageProcessor_GetFibEntries fs = fib_GetEntries (fs_trie fs)"

definition messageProcessor_Tick :: "'d fp_ops \<Rightarrow> ('d, 't, 'l) fib_store \<Rightarrow> u64 \<Rightarrow> ('d, 't, 'l) fib_store" where
  "messageProcessor_Tick F fs now =
     foldl (\<lambda>fs e. fs_put fs e (fibEntry_UpdateStats F (fs_heap fs e) now)) fs (messageProcessor_GetFibEntries fs)"

section \<open>The invariant\<close>

definition fs_inv :: "('d, 't, 'l) fib_store \<Rightarrow> bool" where
  "fs_inv fs \<longleftrightarrow>
     fib_inv (fs_pfx fs) (fs_trie fs) \<and> (\<forall>e. ns_inv (nexthops (fs_heap fs e))) \<and> (\<forall>e\<in>fib_entries (fib_root (fs_trie fs)). e < fs_next fs)"

text \<open>No entry has the low-latency strategy.\<close>

definition fs_modelled :: "('d, 't, 'l) fib_store \<Rightarrow> bool" where
  "fs_modelled fs \<longleftrightarrow> (\<forall>e. modelled (fwdStrategy (fs_heap fs e)))"

text \<open>The map a FIB stands for: from prefixes to sets of next hops.\<close>

definition fs_entry :: "('d, 't, 'l) fib_store \<Rightarrow> bool list \<Rightarrow> nat option" where
  "fs_entry fs = fib_routes (fs_pfx fs) (fs_trie fs)"

definition fs_routes :: "('d, 't, 'l) fib_store \<Rightarrow> bool list \<Rightarrow> connid set option" where
  "fs_routes fs p = map_option (\<lambda>e. ns_set (nexthops (fs_heap fs e))) (fs_entry fs p)"

lemma fs_put_fields [simp]:
  "fs_heap (fs_put fs e fe) = (fs_heap fs)(e := fe)" "fs_next (fs_put fs e fe) = fs_next fs" "fs_trie (fs_put fs e fe) = fs_trie fs"
  by (simp_all add: fs_put_def)

lemma fs_put_pfx:
  assumes "fe_name fe = fe_name (fs_heap fs e)"
  shows "fs_pfx (fs_put fs e fe) = fs_pfx fs" "fs_trie (fs_put fs e fe) = fs_trie fs"
  using assms by (auto simp: fs_pfx_def fs_put_def fibEntry_GetPrefix_def fun_eq_iff)

text \<open>Replacing an entry by one of the same name.\<close>

lemma fs_put_ok:
  assumes "fs_inv fs" "fe_name fe = fe_name (fs_heap fs e)" "ns_inv (nexthops fe)"
  shows "fs_inv (fs_put fs e fe)" "fs_entry (fs_put fs e fe) = fs_entry fs"
  using assms fs_put_pfx[OF assms(2)] by (auto simp: fs_inv_def fs_entry_def)

lemma fs_entry_in:
  assumes "fs_inv fs" "fs_entry fs p = Some e"
  shows "e \<in> fib_used (fib_root (fs_trie fs))" "e \<in> fib_entries (fib_root (fs_trie fs))" "e < fs_next fs" "nb_bits (fs_pfx fs e) = p"
proof -
  have "fib_wf (fs_pfx fs) (fib_root (fs_trie fs))" using assms(1) fib_inv_wf[of "fs_pfx fs" "fs_trie fs"] by (simp add: fs_inv_def)
  from fib_routes_iff[OF this, of p e] assms(2)
  show used: "e \<in> fib_used (fib_root (fs_trie fs))" and "nb_bits (fs_pfx fs e) = p" by (simp_all add: fs_entry_def ebits_def)
  from used show "e \<in> fib_entries (fib_root (fs_trie fs))" by (rule used_in_entries)
  then show "e < fs_next fs" using assms(1) by (simp add: fs_inv_def)
qed

lemma fs_entry_unique:
  assumes "fs_inv fs" "fs_entry fs p = Some e" "fs_entry fs q = Some e"
  shows "p = q"
  using fs_entry_in(4)[OF assms(1,2)] fs_entry_in(4)[OF assms(1,3)] by simp

lemma fs_put_routes:
  assumes "fs_inv fs" "fe_name fe = fe_name (fs_heap fs e)" "ns_inv (nexthops fe)" "fs_entry fs p = Some e"
  shows "fs_routes (fs_put fs e fe) = (fs_routes fs)(p \<mapsto> ns_set (nexthops fe))"
proof (rule ext)
  fix q
  show "fs_routes (fs_put fs e fe) q = ((fs_routes fs)(p \<mapsto> ns_set (nexthops fe))) q"
  proof (cases "q = p")
    case True
    then show ?thesis using assms(4) by (simp add: fs_routes_def fs_put_ok(2)[OF assms(1-3)])
  next
    case False
    then have "fs_entry fs q \<noteq> Some e" using fs_entry_unique[OF assms(1,4)] by blast
    then show ?thesis using False
      by (cases "fs_entry fs q") (simp_all add: fs_routes_def fs_put_ok(2)[OF assms(1-3)])
  qed
qed

lemma nexthops_AddNexthop:
  assumes "ns_inv (nexthops fe)"
  shows "ns_inv (nexthops (fibEntry_AddNexthop S fe c))" "ns_set (nexthops (fibEntry_AddNexthop S fe c)) = insert c (ns_set (nexthops fe))"
    "fe_name (fibEntry_AddNexthop S fe c) = fe_name fe"
  using assms by (auto simp: fibEntry_AddNexthop_def Let_def Add_abs Contains_abs)

lemma nexthops_RemoveNexthop:
  assumes "ns_inv (nexthops fe)"
  shows "ns_inv (nexthops (fibEntry_RemoveNexthopByConnectionId S fe c))"
    "ns_set (nexthops (fibEntry_RemoveNexthopByConnectionId S fe c)) = ns_set (nexthops fe) - {c}"
    "fe_name (fibEntry_RemoveNexthopByConnectionId S fe c) = fe_name fe"
  using assms by (auto simp: fibEntry_RemoveNexthopByConnectionId_def Let_def Remove_abs Contains_abs)

section \<open>Lookups\<close>

lemma name_of_address:
  assumes "name_CreateFromAddress H address len = Inr n"
  shows "\<exists>bv. n = make_name H bv 0 \<and> content_name n = Some bv"
  using assms by (cases address) (auto simp: make_name_def)

lemma ContainsName_ok:
  assumes "fs_inv fs" "content_name n = Some bv" "nb_valid bv"
  shows "fib_ContainsName fs n = Inr (fs_entry fs (nb_bits bv))"
  using assms contains_ok_inv[of "fs_pfx fs" "fs_trie fs" bv] by (simp add: fib_ContainsName_def name_GetContentName_def fs_inv_def fs_entry_def)

lemma MatchName_ok:
  assumes "fs_inv fs" "content_name n = Some bv" "nb_valid bv"
  shows "fib_MatchName fs n = Inr (lpm_lookup (fs_entry fs) (nb_bits bv))"
  using assms match_ok_inv[of "fs_pfx fs" "fs_trie fs" bv] by (simp add: fib_MatchName_def name_GetContentName_def fs_inv_def fs_entry_def)

section \<open>Adding an entry\<close>

text \<open>A fresh entry: allocated, and not yet in the trie.\<close>

lemma fs_alloc_ok:
  assumes "fs_inv fs" "ns_inv (nexthops fe)" "fs_alloc fs fe = (fs', e)"
  shows "fs_inv fs'" "fs_heap fs' e = fe" "e \<notin> fib_entries (fib_root (fs_trie fs'))" "e < fs_next fs'"
    "fs_entry fs' = fs_entry fs" "fs_routes fs' = fs_routes fs"
proof -
  let ?root = "fib_root (fs_trie fs)"
  have fs': "fs' = fs\<lparr>fs_heap := (fs_heap fs)(fs_next fs := fe), fs_next := fs_next fs + 1\<rparr>" and e: "e = fs_next fs"
    using assms(3) by (auto simp: fs_alloc_def)
  have old: "x \<in> fib_entries ?root \<Longrightarrow> x \<noteq> fs_next fs" for x using assms(1) by (auto simp: fs_inv_def)
  then have same: "x \<in> fib_entries ?root \<Longrightarrow> fs_pfx fs x = fs_pfx fs' x" for x by (simp add: fs' fs_pfx_def)
  have inv: "fib_inv (fs_pfx fs) (fs_trie fs)" using assms(1) by (simp add: fs_inv_def)
  then have inv': "fib_inv (fs_pfx fs') (fs_trie fs)" using fib_wf_cong[of ?root "fs_pfx fs" "fs_pfx fs'", OF same] by (simp add: fib_inv_def)
  show "fs_heap fs' e = fe" "e < fs_next fs'" "e \<notin> fib_entries (fib_root (fs_trie fs'))" using old by (auto simp: fs' e)
  show "fs_inv fs'" using assms(1,2) inv' by (auto simp: fs_inv_def fs')
  have "fib_routes (fs_pfx fs') (fs_trie fs) = fib_routes (fs_pfx fs) (fs_trie fs)"
    using same by (intro map_eqI_Some)
      (auto simp: fib_routes_iff[OF fib_inv_wf[OF inv]] fib_routes_iff[OF fib_inv_wf[OF inv']] ebits_def dest: used_in_entries)
  then show ent: "fs_entry fs' = fs_entry fs" by (simp add: fs_entry_def fs')
  have "fs_routes fs' q = fs_routes fs q" for q
    using fs_entry_in(3)[OF assms(1), of q] by (cases "fs_entry fs q") (simp_all add: fs_routes_def ent, simp add: fs')
  then show "fs_routes fs' = fs_routes fs" by auto
qed

lemma Create_fields [simp]:
  "nexthops (fibEntry_Create S n st) = numberSet_Create" "fe_name (fibEntry_Create S n st) = n"
  "modelled (fwdStrategy (fibEntry_Create S n SET_STRATEGY_LOADBALANCER))"
  by (simp_all add: fibEntry_Create_def)

lemma AddEntry_ok:
  assumes inv: "fs_inv fs" and e: "e < fs_next fs" and bits: "nb_bits (fs_pfx fs e) = p" "nb_valid (fs_pfx fs e)"
    and new: "fs_entry fs p = None"
  shows "\<exists>fs'. fib_AddEntry H S fs e = Inr fs' \<and> fs_inv fs' \<and> fs_entry fs' = (fs_entry fs)(p \<mapsto> e) \<and>
    fs_heap fs' e = fs_heap fs e \<and> fs_routes fs' = (fs_routes fs)(p \<mapsto> ns_set (nexthops (fs_heap fs e))) \<and>
    (fs_modelled fs \<longrightarrow> fs_modelled fs')"
proof -
  let ?i = "fs_next fs"
  have finv: "fib_inv (fs_pfx fs) (fs_trie fs)" using inv by (simp add: fs_inv_def)
  have fresh: "?i \<notin> insert e (fib_entries (fib_root (fs_trie fs)))" using inv e by (auto simp: fs_inv_def)
  have none: "fib_routes (fs_pfx fs) (fs_trie fs) (ebits (fs_pfx fs) e) = None" using new bits(1) by (simp add: fs_entry_def ebits_def)
  have wf: "fib_wf (fs_pfx fs) (fib_root (fs_trie fs))" using fib_inv_wf[OF finv] .
  have distinct: "\<forall>x\<in>fib_used (fib_root (fs_trie fs)). ebits (fs_pfx fs) x \<noteq> ebits (fs_pfx fs) e"
    using none fib_routes_iff[OF wf] by (metis option.distinct(1))
  from fib_Add_ok[OF wf bits(2) distinct fresh] add_ok_inv[OF finv none bits(2) fresh] obtain trie c where
    add: "fib_Add (fs_pfx fs) ?i (fs_trie fs) e = Inr (trie, c)" "fib_inv (pfx_after (fs_pfx fs) ?i c) trie"
      "fib_routes (pfx_after (fs_pfx fs) ?i c) trie = (fib_routes (fs_pfx fs) (fs_trie fs))(p \<mapsto> e)"
      "fib_entries (fib_root trie) \<subseteq> insert e (insert ?i (fib_entries (fib_root (fs_trie fs))))"
    using bits(1) unfolding add_ok_def ebits_def by auto
  define fs' where "fs' = (case c of None \<Rightarrow> fs\<lparr>fs_trie := trie, fs_next := ?i + 1\<rparr>
      | Some ip \<Rightarrow> (let n = fibEntry_GetPrefix (fs_heap fs e);
                    name = (name_Copy n)\<lparr>content_name := Some ip, name_hash := computeHash H ip (segment n)\<rparr>
                in fs\<lparr>fs_trie := trie, fs_heap := (fs_heap fs)(?i := fibEntry_Create S name SET_STRATEGY_LOADBALANCER),
                      fs_next := ?i + 1\<rparr>))"
  have res: "fib_AddEntry H S fs e = Inr fs'" by (simp add: fib_AddEntry_def add(1) fs'_def Let_def)
  have trie: "fs_trie fs' = trie" and heap: "x \<noteq> ?i \<Longrightarrow> fs_heap fs' x = fs_heap fs x" for x
    by (simp_all add: fs'_def Let_def split: option.split)
  have pfx: "fs_pfx fs' = pfx_after (fs_pfx fs) ?i c"
    by (auto simp: fs'_def fs_pfx_def pfx_after_def fun_eq_iff fibEntry_GetPrefix_def name_bv_def Let_def split: option.split)
  have ent: "fs_entry fs' = (fs_entry fs)(p \<mapsto> e)" using add(3) by (simp add: fs_entry_def pfx trie)
  have ns: "ns_inv (nexthops (fs_heap fs' x))" for x
    using inv by (auto simp: fs'_def fs_inv_def ns.empty_items Let_def split: option.split)
  have "\<forall>x\<in>fib_entries (fib_root trie). x < fs_next fs'"
    using add(4) inv e by (auto simp: fs'_def fs_inv_def Let_def less_Suc_eq split: option.split)
  then have inv': "fs_inv fs'" using add(2) ns by (simp add: fs_inv_def pfx trie)
  have "fs_entry fs q = Some x \<Longrightarrow> x \<noteq> ?i" for q x using fs_entry_in(3)[OF inv, of q x] by auto
  then have "fs_routes fs' q = ((fs_routes fs)(p \<mapsto> ns_set (nexthops (fs_heap fs e)))) q" for q
    using heap[of e] e heap by (cases "fs_entry fs q") (auto simp: fs_routes_def ent)
  moreover have "fs_modelled fs \<longrightarrow> fs_modelled fs'" by (auto simp: fs_modelled_def fs'_def Let_def split: option.split)
  ultimately show ?thesis using res inv' ent heap[of e] e by (auto simp: fun_eq_iff)
qed

section \<open>Refinement\<close>

definition add_hop :: "connid \<Rightarrow> connid set option \<Rightarrow> connid set option" where
  "add_hop c s = Some (case s of None \<Rightarrow> {c} | Some s \<Rightarrow> insert c s)"

definition drop_hop :: "connid \<Rightarrow> connid set option \<Rightarrow> connid set option" where
  "drop_hop c s = map_option (\<lambda>s. s - {c}) s"

lemma fs_ns: "fs_inv fs \<Longrightarrow> ns_inv (nexthops (fs_heap fs e))"
  by (simp add: fs_inv_def)

lemma modelled_AddNexthop: "modelled (fwdStrategy fe) \<Longrightarrow> modelled (fwdStrategy (fibEntry_AddNexthop S fe c))"
  using strat.add_ok[of "fwdStrategy fe" S c] by (simp add: fibEntry_AddNexthop_def Let_def)

lemma modelled_RemoveNexthop: "modelled (fwdStrategy fe) \<Longrightarrow> modelled (fwdStrategy (fibEntry_RemoveNexthopByConnectionId S fe c))"
  using strat.remove_ok[of "fwdStrategy fe" S c] by (simp add: fibEntry_RemoveNexthopByConnectionId_def Let_def)

lemma fs_modelled_put: "fs_modelled fs \<Longrightarrow> modelled (fwdStrategy fe) \<Longrightarrow> fs_modelled (fs_put fs e fe)"
  by (simp add: fs_modelled_def fs_put_def)

lemma AddOrUpdateRoute_ok:
  assumes inv: "fs_inv fs" and n: "name_CreateFromAddress H a len = Inr n" "nb_valid (name_bv n)"
  shows "\<exists>fs'. messageProcessor_AddOrUpdateRoute H S st fs a len c = Inr fs' \<and> fs_inv fs' \<and>
    fs_routes fs' = (fs_routes fs)(nb_bits (name_bv n) := add_hop c (fs_routes fs (nb_bits (name_bv n)))) \<and>
    (fs_modelled fs \<and> st = SET_STRATEGY_LOADBALANCER \<longrightarrow> fs_modelled fs')"
proof -
  obtain bv where bv: "content_name n = Some bv" "name_bv n = bv" using name_of_address[OF n(1)] by (auto simp: name_bv_def)
  have has: "fib_ContainsName fs n = Inr (fs_entry fs (nb_bits bv))" using ContainsName_ok[OF inv bv(1)] n(2) bv(2) by simp
  show ?thesis
  proof (cases "fs_entry fs (nb_bits bv)")
    case (Some e)
    let ?fe = "fibEntry_AddNexthop S (fs_heap fs e) c"
    note h = nexthops_AddNexthop[OF fs_ns[OF inv, of e], of S c]
    have "fs_routes fs (nb_bits bv) = Some (ns_set (nexthops (fs_heap fs e)))" using Some by (simp add: fs_routes_def)
    moreover have "fs_modelled fs \<Longrightarrow> fs_modelled (fs_put fs e ?fe)"
      using fs_modelled_put[of fs ?fe e] modelled_AddNexthop[of "fs_heap fs e" S c] by (simp add: fs_modelled_def)
    ultimately show ?thesis
      using fs_put_ok(1)[OF inv h(3,1)] fs_put_routes[OF inv h(3,1) Some] h(2) Some has n(1) bv(2)
      by (simp add: messageProcessor_AddOrUpdateRoute_def add_hop_def)
  next
    case None
    obtain fs1 e where al: "fs_alloc fs (fibEntry_Create S n st) = (fs1, e)" by (metis surj_pair)
    have "ns_inv (nexthops (fibEntry_Create S n st))" by (simp add: ns.empty_items)
    note a = fs_alloc_ok[OF inv this al]
    let ?fe = "fibEntry_AddNexthop S (fs_heap fs1 e) c" and ?fs2 = "fs_put fs1 e (fibEntry_AddNexthop S (fs_heap fs1 e) c)"
    note h = nexthops_AddNexthop[OF fs_ns[OF a(1), of e], of S c]
    have fe: "ns_set (nexthops ?fe) = {c}" using h(2) a(2) by (simp add: ns_set_def ns.empty_items)
    have inv2: "fs_inv ?fs2" and ent2: "fs_entry ?fs2 = fs_entry fs" using fs_put_ok[OF a(1) h(3,1)] a(5) by simp_all
    have pfx: "fs_pfx ?fs2 e = bv" using h(3) a(2) bv(2) by (simp add: fs_pfx_def fs_put_def fibEntry_GetPrefix_def)
    have "fs_routes ?fs2 = fs_routes fs"
    proof -
      have "fs_entry fs q \<noteq> Some e" for q
        using a(3,5) fs_entry_in(2)[OF a(1), of q e] by auto
      then have "fs_routes ?fs2 q = fs_routes fs1 q" for q
        by (cases "fs_entry fs q") (auto simp: fs_routes_def ent2 a(5))
      then show ?thesis using a(6) by auto
    qed
    moreover have "fs_modelled ?fs2" if "fs_modelled fs" "st = SET_STRATEGY_LOADBALANCER"
      using that al modelled_AddNexthop[of "fs_heap fs1 e" S c] a(2)
      by (auto simp: fs_modelled_def fs_alloc_def fs_put_def)
    moreover obtain fs' where "fib_AddEntry H S ?fs2 e = Inr fs'" "fs_inv fs'"
        "fs_routes fs' = (fs_routes ?fs2)(nb_bits bv \<mapsto> ns_set (nexthops (fs_heap ?fs2 e)))" "fs_modelled ?fs2 \<longrightarrow> fs_modelled fs'"
      using AddEntry_ok[OF inv2 _ _ _, of e "nb_bits bv" H S] a(4) pfx n(2) bv(2) ent2 None by auto
    ultimately show ?thesis using has None n(1) al fe bv(2)
      by (auto simp: messageProcessor_AddOrUpdateRoute_def add_hop_def fs_routes_def[of fs "nb_bits bv"])
  qed
qed

lemma RemoveRoute_ok:
  assumes inv: "fs_inv fs" and n: "name_CreateFromAddress H a len = Inr n" "nb_valid (name_bv n)"
  shows "\<exists>fs'. messageProcessor_RemoveRoute H S fs a len c = Inr fs' \<and> fs_inv fs' \<and>
    fs_routes fs' = (fs_routes fs)(nb_bits (name_bv n) := drop_hop c (fs_routes fs (nb_bits (name_bv n)))) \<and>
    (fs_modelled fs \<longrightarrow> fs_modelled fs')"
proof -
  obtain bv where bv: "content_name n = Some bv" "name_bv n = bv" using name_of_address[OF n(1)] by (auto simp: name_bv_def)
  have has: "fib_ContainsName fs n = Inr (fs_entry fs (nb_bits bv))" using ContainsName_ok[OF inv bv(1)] n(2) bv(2) by simp
  show ?thesis
  proof (cases "fs_entry fs (nb_bits bv)")
    case None
    then have "fs_routes fs (nb_bits bv) = None" by (simp add: fs_routes_def)
    then show ?thesis using None has n(1) inv bv(2)
      by (auto simp: messageProcessor_RemoveRoute_def fib_Remove_def drop_hop_def fun_eq_iff)
  next
    case (Some e)
    let ?fe = "fibEntry_RemoveNexthopByConnectionId S (fs_heap fs e) c"
    note h = nexthops_RemoveNexthop[OF fs_ns[OF inv, of e], of S c]
    have "fs_modelled fs \<Longrightarrow> fs_modelled (fs_put fs e ?fe)"
      using fs_modelled_put[of fs ?fe e] modelled_RemoveNexthop[of "fs_heap fs e" S c] by (simp add: fs_modelled_def)
    moreover have "fs_routes fs (nb_bits bv) = Some (ns_set (nexthops (fs_heap fs e)))" using Some by (simp add: fs_routes_def)
    ultimately show ?thesis
      using fs_put_ok(1)[OF inv h(3,1)] fs_put_routes[OF inv h(3,1) Some] h(2) Some has n(1) bv(2)
      by (simp add: messageProcessor_RemoveRoute_def fib_Remove_def drop_hop_def)
  qed
qed

lemma removeConnectionId_ok:
  assumes "\<forall>x. ns_inv (nexthops (fs_heap fs x))"
  shows "fs_trie (removeConnectionId S t c fs) = fs_trie fs \<and> fs_next (removeConnectionId S t c fs) = fs_next fs \<and>
    (\<forall>x. ns_inv (nexthops (fs_heap (removeConnectionId S t c fs) x)) \<and> fe_name (fs_heap (removeConnectionId S t c fs) x) = fe_name (fs_heap fs x) \<and>
      ns_set (nexthops (fs_heap (removeConnectionId S t c fs) x)) = ns_set (nexthops (fs_heap fs x)) - (if x \<in> fib_used t then {c} else {}) \<and>
      (modelled (fwdStrategy (fs_heap fs x)) \<longrightarrow> modelled (fwdStrategy (fs_heap (removeConnectionId S t c fs) x))))"
  using assms
proof (induction t arbitrary: fs)
  case (FibNode l r e u)
  define f1 where "f1 = (if u then fs_put fs e (fibEntry_RemoveNexthopByConnectionId S (fs_heap fs e) c) else fs)"
  define f2 where "f2 = removeConnectionId S r c f1"
  have 1: "fs_trie f1 = fs_trie fs \<and> fs_next f1 = fs_next fs \<and> (\<forall>x. ns_inv (nexthops (fs_heap f1 x)) \<and> fe_name (fs_heap f1 x) = fe_name (fs_heap fs x) \<and>
      ns_set (nexthops (fs_heap f1 x)) = ns_set (nexthops (fs_heap fs x)) - (if u \<and> x = e then {c} else {}) \<and>
      (modelled (fwdStrategy (fs_heap fs x)) \<longrightarrow> modelled (fwdStrategy (fs_heap f1 x))))"
    using FibNode.prems nexthops_RemoveNexthop[of "fs_heap fs e" S c] modelled_RemoveNexthop[of "fs_heap fs e" S c] by (simp add: f1_def)
  then have "\<forall>x. ns_inv (nexthops (fs_heap f1 x))" by blast
  note 2 = FibNode.IH(2)[OF this, folded f2_def]
  then have "\<forall>x. ns_inv (nexthops (fs_heap f2 x))" by blast
  note 3 = FibNode.IH(1)[OF this]
  have eq: "removeConnectionId S (FibNode l r e u) c fs = removeConnectionId S l c f2" by (simp add: f1_def f2_def Let_def)
  show ?case unfolding eq using 1 2 3 by auto
qed auto

lemma RemoveConnectionId_ok:
  assumes "fs_inv fs"
  shows "fs_inv (messageProcessor_RemoveConnectionIdFromRoutes S fs c)"
    "fs_routes (messageProcessor_RemoveConnectionIdFromRoutes S fs c) p = drop_hop c (fs_routes fs p)"
    "fs_modelled fs \<Longrightarrow> fs_modelled (messageProcessor_RemoveConnectionIdFromRoutes S fs c)"
proof -
  let ?fs = "messageProcessor_RemoveConnectionIdFromRoutes S fs c"
  have "\<forall>x. ns_inv (nexthops (fs_heap fs x))" using assms by (simp add: fs_inv_def)
  note * = removeConnectionId_ok[OF this, of S "fib_root (fs_trie fs)" c,
      folded fib_RemoveConnectionId_def messageProcessor_RemoveConnectionIdFromRoutes_def]
  have pfx: "fs_pfx ?fs = fs_pfx fs" and trie: "fs_trie ?fs = fs_trie fs" using * by (auto simp: fs_pfx_def fibEntry_GetPrefix_def)
  then show "fs_inv ?fs" using assms * by (simp add: fs_inv_def)
  show "fs_routes ?fs p = drop_hop c (fs_routes fs p)"
    using * fs_entry_in(1)[OF assms, of p] by (cases "fs_entry fs p") (auto simp: fs_routes_def drop_hop_def fs_entry_def pfx trie)
  show "fs_modelled fs \<Longrightarrow> fs_modelled ?fs" using * by (simp add: fs_modelled_def)
qed

text \<open>Changes of policy, strategy and statistics keep the routes.\<close>

definition keeps_routes :: "('d, 't, 'l) fib_store \<Rightarrow> ('d, 't, 'l) fib_store \<Rightarrow> bool" where
  "keeps_routes fs fs' \<longleftrightarrow> fs_inv fs' \<and> fs_entry fs' = fs_entry fs \<and> fs_routes fs' = fs_routes fs"

lemma keeps_routes_put:
  assumes "fs_inv fs" "fe_name fe = fe_name (fs_heap fs e)" "nexthops fe = nexthops (fs_heap fs e)"
  shows "keeps_routes fs (fs_put fs e fe)"
proof -
  have ns: "ns_inv (nexthops fe)" using fs_ns[OF assms(1)] assms(3) by simp
  note p = fs_put_ok[OF assms(1,2) ns]
  have "fs_routes (fs_put fs e fe) = fs_routes fs" using assms(3) p(2) by (auto simp: fs_routes_def fun_eq_iff split: if_splits intro!: option.map_cong0)
  then show ?thesis using p by (simp add: keeps_routes_def)
qed

lemma Tick_keeps: "fs_inv fs \<Longrightarrow> keeps_routes fs (messageProcessor_Tick F fs now)"
proof -
  have "keeps_routes fs (foldl (\<lambda>fs e. fs_put fs e (fibEntry_UpdateStats F (fs_heap fs e) now)) fs es)" if "fs_inv fs" for es
    using that
  proof (induction es arbitrary: fs)
    case (Cons e es)
    have "keeps_routes fs (fs_put fs e (fibEntry_UpdateStats F (fs_heap fs e) now))"
      using Cons.prems by (rule keeps_routes_put) (simp_all add: fibEntry_UpdateStats_def Let_def)
    with Cons.IH[of "fs_put fs e (fibEntry_UpdateStats F (fs_heap fs e) now)"] show ?case by (simp add: keeps_routes_def)
  qed (simp add: keeps_routes_def)
  then show "fs_inv fs \<Longrightarrow> ?thesis" by (simp add: messageProcessor_Tick_def)
qed

section \<open>Runs\<close>

text \<open>The routing commands, and what they do to the map of routes.\<close>

datatype route_call = AddRoute Address u8 connid | RemoveRoute Address u8 connid | RemoveConnection connid

definition address_bits :: "hash_fun \<Rightarrow> Address \<Rightarrow> u8 \<Rightarrow> bool list" where
  "address_bits H a len = (case name_CreateFromAddress H a len of Inl _ \<Rightarrow> [] | Inr n \<Rightarrow> nb_bits (name_bv n))"

definition address_ok :: "hash_fun \<Rightarrow> Address \<Rightarrow> u8 \<Rightarrow> bool" where
  "address_ok H a len \<longleftrightarrow> (case name_CreateFromAddress H a len of Inl _ \<Rightarrow> False | Inr n \<Rightarrow> nb_valid (name_bv n))"

fun route_step :: "hash_fun \<Rightarrow> ('d, 't, 'l) st_ops \<Rightarrow> ('d, 't, 'l) fib_store \<Rightarrow> route_call \<Rightarrow> ('d, 't, 'l) fib_store res" where
  "route_step H S fs (AddRoute a len c) = messageProcessor_AddOrUpdateRoute H S SET_STRATEGY_LOADBALANCER fs a len c"
| "route_step H S fs (RemoveRoute a len c) = messageProcessor_RemoveRoute H S fs a len c"
| "route_step H S fs (RemoveConnection c) = Inr (messageProcessor_RemoveConnectionIdFromRoutes S fs c)"

fun spec_route :: "hash_fun \<Rightarrow> (bool list \<Rightarrow> connid set option) \<Rightarrow> route_call \<Rightarrow> (bool list \<Rightarrow> connid set option)" where
  "spec_route H m (AddRoute a len c) = m(address_bits H a len := add_hop c (m (address_bits H a len)))"
| "spec_route H m (RemoveRoute a len c) = m(address_bits H a len := drop_hop c (m (address_bits H a len)))"
| "spec_route H m (RemoveConnection c) = drop_hop c \<circ> m"

fun route_ok :: "hash_fun \<Rightarrow> route_call \<Rightarrow> bool" where
  "route_ok H (AddRoute a len c) = address_ok H a len"
| "route_ok H (RemoveRoute a len c) = address_ok H a len"
| "route_ok H (RemoveConnection c) = True"

lemma address_okD:
  assumes "address_ok H a len"
  shows "\<exists>n. name_CreateFromAddress H a len = Inr n \<and> nb_valid (name_bv n) \<and> address_bits H a len = nb_bits (name_bv n)"
  using assms by (cases "name_CreateFromAddress H a len") (auto simp: address_ok_def address_bits_def)

lemma route_step_ok:
  assumes "fs_inv fs" "fs_modelled fs" "route_ok H x"
  shows "\<exists>fs'. route_step H S fs x = Inr fs' \<and> fs_inv fs' \<and> fs_modelled fs' \<and> fs_routes fs' = spec_route H (fs_routes fs) x"
proof (cases x)
  case (AddRoute a len c)
  then obtain n where n: "name_CreateFromAddress H a len = Inr n" "nb_valid (name_bv n)" "address_bits H a len = nb_bits (name_bv n)"
    using assms(3) address_okD by fastforce
  show ?thesis using AddOrUpdateRoute_ok[OF assms(1) n(1,2), of S SET_STRATEGY_LOADBALANCER c] assms(2) n(3) AddRoute by auto
next
  case (RemoveRoute a len c)
  then obtain n where n: "name_CreateFromAddress H a len = Inr n" "nb_valid (name_bv n)" "address_bits H a len = nb_bits (name_bv n)"
    using assms(3) address_okD by fastforce
  show ?thesis using RemoveRoute_ok[OF assms(1) n(1,2), of S c] assms(2) n(3) RemoveRoute by auto
next
  case (RemoveConnection c)
  then show ?thesis using RemoveConnectionId_ok[OF assms(1), of S c] assms(2) by auto
qed

lemma fs_Create_ok: "fs_inv (fs_Create S)" "fs_modelled (fs_Create S)" "fs_routes (fs_Create S) = Map.empty"
proof -
  show "fs_inv (fs_Create S)" using fib_Create_inv(1) by (simp add: fs_inv_def fs_Create_def ns.empty_items) (simp add: fib_Create_def)
  show "fs_modelled (fs_Create S)" by (simp add: fs_modelled_def fs_Create_def)
  show "fs_routes (fs_Create S) = Map.empty" using fib_Create_inv(2) by (simp add: fs_routes_def fs_entry_def fs_Create_def fun_eq_iff)
qed

lemma route_run_ok:
  assumes "fs_inv fs" "fs_modelled fs" "\<forall>x\<in>set xs. route_ok H x"
  shows "\<exists>fs'. fold_res (route_step H S) fs xs = Inr fs' \<and> fs_inv fs' \<and> fs_modelled fs' \<and> fs_routes fs' = foldl (spec_route H) (fs_routes fs) xs"
  using assms
proof (induction xs arbitrary: fs)
  case (Cons x xs)
  from route_step_ok[OF Cons.prems(1,2), of H x S] Cons.prems(3) obtain fs1 where
    1: "route_step H S fs x = Inr fs1" "fs_inv fs1" "fs_modelled fs1" "fs_routes fs1 = spec_route H (fs_routes fs) x" by auto
  from Cons.IH[OF 1(2,3)] Cons.prems(3) 1(1,4) show ?case by simp
qed simp

lemma lpm_lookup_map: "lpm_lookup (\<lambda>p. map_option f (m p)) ks = map_option f (lpm_lookup m ks)"
  by (simp add: lpm_lookup_def split: list.split)

section \<open>Properties\<close>

text \<open>
  C19. The routing commands implement a map from prefixes to sets of next hops: any sequence of adding
  routes, removing routes and removing connections, from the empty FIB, runs without abort and leaves
  the map it should; and the entry found for a name is that of its longest registered prefix, with
  exactly the next hops of the map.
\<close>

theorem routes_refine_map:
  assumes "\<forall>x\<in>set xs. route_ok H x" "content_name n = Some bv" "nb_valid bv"
  shows "\<exists>fs q. fold_res (route_step H S) (fs_Create S) xs = Inr fs \<and> fs_routes fs = foldl (spec_route H) Map.empty xs \<and>
    fib_MatchName fs n = Inr q \<and>
    map_option (\<lambda>e. ns_set (fibEntry_GetNexthops (fs_heap fs e))) q = lpm_lookup (foldl (spec_route H) Map.empty xs) (nb_bits bv)"
proof -
  from route_run_ok[OF fs_Create_ok(1,2) assms(1), of S] obtain fs where
    fs: "fold_res (route_step H S) (fs_Create S) xs = Inr fs" "fs_inv fs" "fs_routes fs = foldl (spec_route H) Map.empty xs"
    by (auto simp: fs_Create_ok(3))
  have "fs_routes fs = (\<lambda>p. map_option (\<lambda>e. ns_set (nexthops (fs_heap fs e))) (fs_entry fs p))" by (simp add: fs_routes_def fun_eq_iff)
  then have "lpm_lookup (fs_routes fs) (nb_bits bv) = map_option (\<lambda>e. ns_set (nexthops (fs_heap fs e))) (lpm_lookup (fs_entry fs) (nb_bits bv))"
    by (simp only: lpm_lookup_map)
  then show ?thesis using fs MatchName_ok[OF fs(2) assms(2,3)] by (simp add: fibEntry_GetNexthops_def)
qed

theorem routes_refine_map_witness:
  "\<exists>fs e. fold_res (route_step (\<lambda>d s. s) ex_st_ops) (fs_Create ex_st_ops)
       [AddRoute (ADDR_INET 0x0A000000) 8 3, AddRoute (ADDR_INET 0x0A000000) 8 4, RemoveConnection 3] = Inr fs \<and>
     fib_MatchName fs (make_name (\<lambda>d s. s) (nameBitvector_CreateFromInAddr 0x0A000000 8) 0) = Inr (Some e) \<and>
     ns_set (fibEntry_GetNexthops (fs_heap fs e)) = {4}"
proof -
  let ?H = "\<lambda>d s. s" and ?bv = "nameBitvector_CreateFromInAddr 0x0A000000 8"
  let ?xs = "[AddRoute (ADDR_INET 0x0A000000) 8 3, AddRoute (ADDR_INET 0x0A000000) 8 4, RemoveConnection 3]"
  have v: "nb_valid ?bv" by code_simp
  have ok: "\<forall>x\<in>set ?xs. route_ok ?H x" using v by (simp add: address_ok_def make_name_def name_bv_def)
  have bits: "address_bits ?H (ADDR_INET 0x0A000000) 8 = nb_bits ?bv" by (simp add: address_bits_def make_name_def name_bv_def)
  have "foldl (spec_route ?H) Map.empty ?xs (nb_bits ?bv) = Some {4}" by (auto simp: bits add_hop_def drop_hop_def)
  then have "lpm_lookup (foldl (spec_route ?H) Map.empty ?xs) (nb_bits ?bv) = Some {4}"
    by (intro lpm_lookup_Some[of "nb_bits ?bv"]) (auto dest: prefix_length_le)
  with routes_refine_map[OF ok _ v, of "make_name ?H ?bv 0" ex_st_ops] show ?thesis by (auto simp: make_name_def)
qed

end
