(* ===== verification/Processor.thy ===== *)
theory Processor
  imports Routes ContentStore ConnectionTable
begin

text \<open>
  The message processor (\<^verbatim>\<open>hicn-light/src/hicn/processor/messageProcessor.c\<close>): what happens to an
  interest or a data message between its arrival and the connections it leaves on. It ties together
  the PIT, the content store, the FIB, the connection table and the messages in memory.

  The state of a node has these components, the two cache flags and the counters. The container
  operations of all components are collected in \<open>E\<close>. The clock during a call is the argument \<open>now\<close>, and the
  value of \<^verbatim>\<open>rand()\<close> an interest may draw is the argument \<open>rnd\<close>. A message in memory is kept: the references that the PIT and the content
  store take, and the release at the end of \<^verbatim>\<open>messageProcessor_Receive\<close>, are left out together.

  The lemmas at the end are about transmission: what a message is sent on, and that sending changes
  nothing but messages, counters and what was sent.
\<close>

section \<open>State\<close>

record ProcessorStats =
  countReceived :: u32
  countInterestsReceived :: u32
  countObjectsReceived :: u32
  countInterestsAggregated :: u32
  countDropped :: u32
  countInterestsDropped :: u32
  countDroppedNoRoute :: u32
  countDroppedNoReversePath :: u32
  countDroppedConnectionNotFound :: u32
  countObjectsDropped :: u32
  countSendFailures :: u32
  countInterestForwarded :: u32
  countObjectsForwarded :: u32
  countInterestsSatisfiedFromStore :: u32
  countDroppedNoHopLimit :: u32
  countDroppedZeroHopLimitFromRemote :: u32
  countDroppedZeroHopLimitToRemote :: u32

record ('d, 't, 'l, 'pt, 'ch, 'ct, 'i, 'p, 'o) node_ops =
  op_st :: "('d, 't, 'l) st_ops"
  op_pit :: "('pt, Name, nat) hct_ops"
  op_cs :: "('ch, 'ct) cs_ops"
  op_ct :: "('i, 'p, 'o) ct_ops"

record ('d, 't, 'l, 'pt, 'ch, 'ct, 'i, 'p, 'o) node =
  nd_world :: world
  nd_table :: "('i, 'p, 'o) ConnectionTable"
  nd_pit :: "'pt StandardPIT"
  nd_cs :: "('ch, 'ct) ContentStoreLRU"
  nd_fib :: "('d, 't, 'l) fib_store"
  store_in_cache :: bool
  serve_from_cache :: bool
  nd_stats :: ProcessorStats

definition STATS_ZERO :: ProcessorStats where
  "STATS_ZERO = \<lparr>countReceived = 0, countInterestsReceived = 0, countObjectsReceived = 0, countInterestsAggregated = 0,
     countDropped = 0, countInterestsDropped = 0, countDroppedNoRoute = 0, countDroppedNoReversePath = 0,
     countDroppedConnectionNotFound = 0, countObjectsDropped = 0, countSendFailures = 0, countInterestForwarded = 0,
     countObjectsForwarded = 0, countInterestsSatisfiedFromStore = 0, countDroppedNoHopLimit = 0,
     countDroppedZeroHopLimitFromRemote = 0, countDroppedZeroHopLimitToRemote = 0\<rparr>"

definition messageProcessor_Create ::
  "('d, 't, 'l, 'pt, 'ch, 'ct, 'i, 'p, 'o) node_ops \<Rightarrow> world \<Rightarrow> ('i, 'p, 'o) ConnectionTable \<Rightarrow> u64 \<Rightarrow>
     ('d, 't, 'l, 'pt, 'ch, 'ct, 'i, 'p, 'o) node" where
  "messageProcessor_Create E w table objectStoreSize =
     \<lparr>nd_world = w, nd_table = table, nd_pit = pitStandard_Create (op_pit E), nd_cs = contentStoreLRU_Init (op_cs E) objectStoreSize,
      nd_fib = fs_Create (op_st E), store_in_cache = True, serve_from_cache = True, nd_stats = STATS_ZERO\<rparr>"

definition messageProcessor_SetContentObjectStoreSize ::
  "('d, 't, 'l, 'pt, 'ch, 'ct, 'i, 'p, 'o) node_ops \<Rightarrow> ('d, 't, 'l, 'pt, 'ch, 'ct, 'i, 'p, 'o) node \<Rightarrow> u64 \<Rightarrow>
     ('d, 't, 'l, 'pt, 'ch, 'ct, 'i, 'p, 'o) node" where
  "messageProcessor_SetContentObjectStoreSize E nd maximumContentStoreSize =
     nd\<lparr>nd_cs := contentStoreLRU_Init (op_cs E) maximumContentStoreSize\<rparr>"

definition messageProcessor_ClearCache ::
  "('d, 't, 'l, 'pt, 'ch, 'ct, 'i, 'p, 'o) node_ops \<Rightarrow> u64 \<Rightarrow> ('d, 't, 'l, 'pt, 'ch, 'ct, 'i, 'p, 'o) node \<Rightarrow>
     ('d, 't, 'l, 'pt, 'ch, 'ct, 'i, 'p, 'o) node" where
  "messageProcessor_ClearCache E objectStoreSize nd = nd\<lparr>nd_cs := contentStoreLRU_Init (op_cs E) objectStoreSize\<rparr>"

definition messageProcessor_SetCacheStoreFlag ::
  "('d, 't, 'l, 'pt, 'ch, 'ct, 'i, 'p, 'o) node \<Rightarrow> bool \<Rightarrow> ('d, 't, 'l, 'pt, 'ch, 'ct, 'i, 'p, 'o) node" where
  "messageProcessor_SetCacheStoreFlag nd val = nd\<lparr>store_in_cache := val\<rparr>"

definition messageProcessor_GetCacheStoreFlag :: "('d, 't, 'l, 'pt, 'ch, 'ct, 'i, 'p, 'o) node \<Rightarrow> bool" where
  "messageProcessor_GetCacheStoreFlag nd = store_in_cache nd"

definition messageProcessor_SetCacheServeFlag ::
  "('d, 't, 'l, 'pt, 'ch, 'ct, 'i, 'p, 'o) node \<Rightarrow> bool \<Rightarrow> ('d, 't, 'l, 'pt, 'ch, 'ct, 'i, 'p, 'o) node" where
  "messageProcessor_SetCacheServeFlag nd val = nd\<lparr>serve_from_cache := val\<rparr>"

definition messageProcessor_GetCacheServeFlag :: "('d, 't, 'l, 'pt, 'ch, 'ct, 'i, 'p, 'o) node \<Rightarrow> bool" where
  "messageProcessor_GetCacheServeFlag nd = serve_from_cache nd"

section \<open>Sending\<close>

definition messageProcessor_Drop ::
  "('d, 't, 'l, 'pt, 'ch, 'ct, 'i, 'p, 'o) node \<Rightarrow> Message \<Rightarrow> ('d, 't, 'l, 'pt, 'ch, 'ct, 'i, 'p, 'o) node" where
  "messageProcessor_Drop nd message =
     (let s = (nd_stats nd)\<lparr>countDropped := countDropped (nd_stats nd) + 1\<rparr>;
          s = (case message_GetType message of
                 MessagePacketType_Interest \<Rightarrow> s\<lparr>countInterestsDropped := countInterestsDropped s + 1\<rparr>
               | MessagePacketType_ContentObject \<Rightarrow> s\<lparr>countObjectsDropped := countObjectsDropped s + 1\<rparr>
               | _ \<Rightarrow> s)
      in nd\<lparr>nd_stats := s\<rparr>)"

definition messageProcessor_SendWithGoodHopLimit ::
  "('d, 't, 'l, 'pt, 'ch, 'ct, 'i, 'p, 'o) node \<Rightarrow> mref \<Rightarrow> nat \<Rightarrow> ('d, 't, 'l, 'pt, 'ch, 'ct, 'i, 'p, 'o) node res" where
  "messageProcessor_SendWithGoodHopLimit nd r ref =
     bind_res (connection_Send (ct_heap (nd_table nd) ref) (nd_world nd) r) (\<lambda>(conn, w, success).
     bind_res (deref w r) (\<lambda>message.
     let nd = nd\<lparr>nd_world := w, nd_table := (nd_table nd)\<lparr>ct_heap := (ct_heap (nd_table nd))(ref := conn)\<rparr>\<rparr>;
         s = nd_stats nd
     in Inr (if success
             then nd\<lparr>nd_stats := (case message_GetType message of
                         MessagePacketType_Interest \<Rightarrow> s\<lparr>countInterestForwarded := countInterestForwarded s + 1\<rparr>
                       | MessagePacketType_ContentObject \<Rightarrow> s\<lparr>countObjectsForwarded := countObjectsForwarded s + 1\<rparr>
                       | _ \<Rightarrow> s)\<rparr>
             else messageProcessor_Drop (nd\<lparr>nd_stats := s\<lparr>countSendFailures := countSendFailures s + 1\<rparr>\<rparr>) message)))"

definition messageProcessor_ForwardToInterfaceId ::
  "('d, 't, 'l, 'pt, 'ch, 'ct, 'i, 'p, 'o) node_ops \<Rightarrow> ('d, 't, 'l, 'pt, 'ch, 'ct, 'i, 'p, 'o) node \<Rightarrow> mref \<Rightarrow> connid \<Rightarrow>
     ('d, 't, 'l, 'pt, 'ch, 'ct, 'i, 'p, 'o) node res" where
  "messageProcessor_ForwardToInterfaceId E nd r interfaceId =
     (case connectionTable_FindById (op_ct E) (nd_table nd) interfaceId of
        Some ref \<Rightarrow> messageProcessor_SendWithGoodHopLimit nd r ref
      | None \<Rightarrow>
          bind_res (deref (nd_world nd) r) (\<lambda>message.
          let s = nd_stats nd in
          Inr (messageProcessor_Drop
                 (nd\<lparr>nd_stats := s\<lparr>countDroppedConnectionNotFound := countDroppedConnectionNotFound s + 1\<rparr>\<rparr>) message)))"

definition messageProcessor_ForwardToNexthops ::
  "('d, 't, 'l, 'pt, 'ch, 'ct, 'i, 'p, 'o) node_ops \<Rightarrow> ('d, 't, 'l, 'pt, 'ch, 'ct, 'i, 'p, 'o) node \<Rightarrow> mref \<Rightarrow> NumberSet \<Rightarrow>
     (('d, 't, 'l, 'pt, 'ch, 'ct, 'i, 'p, 'o) node \<times> u32) res" where
  "messageProcessor_ForwardToNexthops E nd r hops =
     bind_res (deref (nd_world nd) r) (\<lambda>message.
     let ingressId = message_GetIngressConnectionId message;
         is_object = (message_GetType message = MessagePacketType_ContentObject);
         old_path_label = (if is_object then message_GetPathLabel message else 0)
     in ns_for hops (\<lambda>(nd, forwardedCopies) egressId.
          if egressId \<noteq> ingressId
          then bind_res (messageProcessor_ForwardToInterfaceId E nd r egressId) (\<lambda>nd.
               bind_res (if is_object then w_modify (\<lambda>m. message_SetPathLabel m old_path_label) (nd_world nd) r
                         else Inr (nd_world nd)) (\<lambda>w.
               Inr (nd\<lparr>nd_world := w\<rparr>, forwardedCopies + 1)))
          else Inr (nd, forwardedCopies)) (nd, 0))"

section \<open>Interests\<close>

text \<open>The calls of the PIT into the FIB entry of one of its entries.\<close>

definition pit_on_timeout ::
  "('d, 't, 'l, 'pt, 'ch, 'ct, 'i, 'p, 'o) node_ops \<Rightarrow> ('i, 'p, 'o) ConnectionTable \<Rightarrow>
     ('d, 't, 'l) fib_store \<Rightarrow> nat \<Rightarrow> NumberSet \<Rightarrow> ('d, 't, 'l) fib_store res" where
  "pit_on_timeout E table fs e egress =
     bind_res (fibEntry_OnTimeout (op_st E) (op_ct E) table (fs_heap fs e) egress) (\<lambda>fe. Inr (fs_put fs e fe))"

definition pit_receive_object ::
  "('d, 't, 'l, 'pt, 'ch, 'ct, 'i, 'p, 'o) node_ops \<Rightarrow> ('i, 'p, 'o) ConnectionTable \<Rightarrow>
     ('d, 't, 'l) fib_store \<Rightarrow> nat \<Rightarrow> NumberSet \<Rightarrow> Message \<Rightarrow> ticks \<Rightarrow> ticks \<Rightarrow> ('d, 't, 'l) fib_store res" where
  "pit_receive_object E table fs e egress m t t' =
     bind_res (fibEntry_ReceiveObjectMessage (op_st E) (op_ct E) table (fs_heap fs e) egress m t t') (\<lambda>fe. Inr (fs_put fs e fe))"

definition nd_SatisfyInterest ::
  "('d, 't, 'l, 'pt, 'ch, 'ct, 'i, 'p, 'o) node_ops \<Rightarrow> ticks \<Rightarrow> ('d, 't, 'l, 'pt, 'ch, 'ct, 'i, 'p, 'o) node \<Rightarrow> Message \<Rightarrow>
     (NumberSet \<times> ('d, 't, 'l, 'pt, 'ch, 'ct, 'i, 'p, 'o) node) res" where
  "nd_SatisfyInterest E now nd m =
     bind_res (pitStandard_SatisfyInterest (op_pit E) (pit_receive_object E (nd_table nd)) now (nd_pit nd) (nd_fib nd) m) (\<lambda>(s, pit, fib).
     Inr (s, nd\<lparr>nd_pit := pit, nd_fib := fib\<rparr>))"

text \<open>
  The function is declared to return a verdict and returns the booleans \<^verbatim>\<open>true\<close> and \<^verbatim>\<open>false\<close>, which are
  the numbers of the verdicts aggregate and forward.
\<close>

fun verdict_of_bool :: "bool \<Rightarrow> PITVerdict" where
  "verdict_of_bool True = PITVerdict_Aggregate"
| "verdict_of_bool False = PITVerdict_Forward"

definition messageProcessor_AggregateInterestInPit ::
  "('d, 't, 'l, 'pt, 'ch, 'ct, 'i, 'p, 'o) node_ops \<Rightarrow> ticks \<Rightarrow> ('d, 't, 'l, 'pt, 'ch, 'ct, 'i, 'p, 'o) node \<Rightarrow> mref \<Rightarrow> Message \<Rightarrow>
     (PITVerdict \<times> ('d, 't, 'l, 'pt, 'ch, 'ct, 'i, 'p, 'o) node) res" where
  "messageProcessor_AggregateInterestInPit E now nd r interestMessage =
     bind_res (pitStandard_ReceiveInterest (op_pit E) (pit_on_timeout E (nd_table nd)) now (nd_pit nd) (nd_fib nd) r interestMessage) (\<lambda>(verdict, pit, fib).
     let nd = nd\<lparr>nd_pit := pit, nd_fib := fib\<rparr>; s = nd_stats nd in
     if verdict = PITVerdict_Aggregate
     then Inr (verdict_of_bool True, nd\<lparr>nd_stats := s\<lparr>countInterestsAggregated := countInterestsAggregated s + 1\<rparr>\<rparr>)
     else Inr (verdict_of_bool False, nd))"

definition satisfyFromContentStore ::
  "('d, 't, 'l, 'pt, 'ch, 'ct, 'i, 'p, 'o) node_ops \<Rightarrow> ticks \<Rightarrow> ('d, 't, 'l, 'pt, 'ch, 'ct, 'i, 'p, 'o) node \<Rightarrow> Message \<Rightarrow>
     (bool \<times> ('d, 't, 'l, 'pt, 'ch, 'ct, 'i, 'p, 'o) node) res" where
  "satisfyFromContentStore E now nd interestMessage =
     (if message_GetInterestLifetimeTicks interestMessage = 0 then Inr (False, nd)
      else if \<not> serve_from_cache nd then Inr (False, nd)
      else
        bind_res (contentStoreLRU_MatchInterest (op_cs E) (nd_cs nd) interestMessage now) (\<lambda>(store, found).
        let nd = nd\<lparr>nd_cs := store\<rparr> in
        case found of
          None \<Rightarrow> Inr (False, nd)
        | Some obj \<Rightarrow>
            bind_res (deref (nd_world nd) obj) (\<lambda>objectMessage.
            bind_res (nd_SatisfyInterest E now nd objectMessage) (\<lambda>(hops, nd).
            let s = nd_stats nd;
                nd = nd\<lparr>nd_stats := s\<lparr>countInterestsSatisfiedFromStore := countInterestsSatisfiedFromStore s + 1\<rparr>\<rparr>
            in bind_res (w_modify message_ResetPathLabel (nd_world nd) obj) (\<lambda>w.
               bind_res (messageProcessor_ForwardToNexthops E (nd\<lparr>nd_world := w\<rparr>) obj hops) (\<lambda>(nd, _).
               Inr (True, nd)))))))"

text \<open>The loop that looks for a local next hop, on whose behalf the probe is answered.\<close>

fun probe_loop ::
  "('d, 't, 'l, 'pt, 'ch, 'ct, 'i, 'p, 'o) node_ops \<Rightarrow> ('d, 't, 'l, 'pt, 'ch, 'ct, 'i, 'p, 'o) node \<Rightarrow> mref \<Rightarrow> connid \<Rightarrow> NumberSet \<Rightarrow>
     nat list \<Rightarrow> (bool \<times> ('d, 't, 'l, 'pt, 'ch, 'ct, 'i, 'p, 'o) node) res" where
  "probe_loop E nd r ingress hops [] = Inr (False, nd)"
| "probe_loop E nd r ingress hops (i # is) =
     bind_res (numberSet_GetItem hops i) (\<lambda>nhop.
     case ct_lookup (op_ct E) (nd_table nd) nhop of
       None \<Rightarrow> probe_loop E nd r ingress hops is
     | Some conn \<Rightarrow>
         if connection_IsLocal conn
         then bind_res (connection_HandleProbe (ct_lookup (op_ct E) (nd_table nd) ingress) (nd_world nd) r) (\<lambda>w.
              Inr (True, nd\<lparr>nd_world := w\<rparr>))
         else probe_loop E nd r ingress hops is)"

definition pitEntry_Release :: "PitEntry \<Rightarrow> PitEntry res" where
  "pitEntry_Release e = (if pe_refcount e = 0 then Inl TrapUnexpectedState else Inr (e\<lparr>pe_refcount := pe_refcount e - 1\<rparr>))"

definition messageProcessor_ForwardViaFib ::
  "('d, 't, 'l, 'pt, 'ch, 'ct, 'i, 'p, 'o) node_ops \<Rightarrow> nat \<Rightarrow> ('d, 't, 'l, 'pt, 'ch, 'ct, 'i, 'p, 'o) node \<Rightarrow> mref \<Rightarrow> Message \<Rightarrow> PITVerdict \<Rightarrow>
     (bool \<times> ('d, 't, 'l, 'pt, 'ch, 'ct, 'i, 'p, 'o) node) res" where
  "messageProcessor_ForwardViaFib E rnd nd r interestMessage verdict =
     bind_res (fib_MatchMessage (nd_fib nd) interestMessage) (\<lambda>matched.
     case matched of
       None \<Rightarrow> Inr (False, nd)
     | Some e \<Rightarrow>
         bind_res (if messageHandler_IsAProbe (messageHead interestMessage)
                   then (let hops = fibEntry_GetNexthops (fs_heap (nd_fib nd) e) in
                         probe_loop E nd r (message_GetIngressConnectionId interestMessage) hops [0..<numberSet_Length hops])
                   else Inr (False, nd)) (\<lambda>(reply_to_probe, nd).
         if reply_to_probe then Inr (False, nd)
         else
           bind_res (pitStandard_GetPitEntry (op_pit E) (nd_pit nd) interestMessage) (\<lambda>(pit, found).
           case found of
             None \<Rightarrow> Inr (False, nd\<lparr>nd_pit := pit\<rparr>)
           | Some ref \<Rightarrow>
               (let pitEntry = pitEntry_AddFibEntry (pit_heap pit ref) e in
                bind_res (fibEntry_GetNexthopsFromForwardingStrategy (op_st E) (op_ct E) (nd_table nd) rnd
                            (fs_heap (nd_fib nd) e) interestMessage (verdict \<noteq> PITVerdict_Forward)) (\<lambda>(hops, fe).
                bind_res (ns_for hops (\<lambda>pitEntry c. Inr (pitEntry_AddEgressId pitEntry c)) pitEntry) (\<lambda>pitEntry.
                bind_res (pitEntry_Release pitEntry) (\<lambda>pitEntry.
                let nd = nd\<lparr>nd_pit := pit_set_entry pit ref pitEntry, nd_fib := fs_put (nd_fib nd) e fe\<rparr> in
                bind_res (messageProcessor_ForwardToNexthops E nd r hops) (\<lambda>(nd, copies).
                Inr (copies > 0, nd)))))))))"

definition messageProcessor_ReceiveInterest ::
  "('d, 't, 'l, 'pt, 'ch, 'ct, 'i, 'p, 'o) node_ops \<Rightarrow> ticks \<Rightarrow> nat \<Rightarrow> ('d, 't, 'l, 'pt, 'ch, 'ct, 'i, 'p, 'o) node \<Rightarrow> mref \<Rightarrow> Message \<Rightarrow>
     ('d, 't, 'l, 'pt, 'ch, 'ct, 'i, 'p, 'o) node res" where
  "messageProcessor_ReceiveInterest E now rnd nd r interestMessage =
     (let s = nd_stats nd; nd = nd\<lparr>nd_stats := s\<lparr>countInterestsReceived := countInterestsReceived s + 1\<rparr>\<rparr> in
      bind_res (messageProcessor_AggregateInterestInPit E now nd r interestMessage) (\<lambda>(verdict, nd).
      if verdict = PITVerdict_Aggregate then Inr nd
      else
        bind_res (satisfyFromContentStore E now nd interestMessage) (\<lambda>(satisfied, nd).
        if satisfied then Inr nd
        else
          bind_res (messageProcessor_ForwardViaFib E rnd nd r interestMessage verdict) (\<lambda>(forwarded, nd).
          if forwarded then Inr nd
          else (let s = nd_stats nd; nd = nd\<lparr>nd_stats := s\<lparr>countDroppedNoRoute := countDroppedNoRoute s + 1\<rparr>\<rparr>
                in Inr (messageProcessor_Drop nd interestMessage))))))"

section \<open>Data\<close>

definition messageProcessor_ReceiveContentObject ::
  "('d, 't, 'l, 'pt, 'ch, 'ct, 'i, 'p, 'o) node_ops \<Rightarrow> ticks \<Rightarrow> ('d, 't, 'l, 'pt, 'ch, 'ct, 'i, 'p, 'o) node \<Rightarrow> mref \<Rightarrow> Message \<Rightarrow>
     ('d, 't, 'l, 'pt, 'ch, 'ct, 'i, 'p, 'o) node res" where
  "messageProcessor_ReceiveContentObject E now nd r message =
     (let s = nd_stats nd; nd = nd\<lparr>nd_stats := s\<lparr>countObjectsReceived := countObjectsReceived s + 1\<rparr>\<rparr> in
      bind_res (nd_SatisfyInterest E now nd message) (\<lambda>(ingressSetUnion, nd).
      if numberSet_Length ingressSetUnion = 0
      then
        (let s = nd_stats nd; nd = nd\<lparr>nd_stats := s\<lparr>countDroppedNoReversePath := countDroppedNoReversePath s + 1\<rparr>\<rparr> in
         bind_res (if messageHandler_IsAProbe (messageHead message)
                   then bind_res (fib_MatchMessage (nd_fib nd) message) (\<lambda>matched.
                        case matched of
                          None \<Rightarrow> Inr nd
                        | Some e \<Rightarrow>
                            if fibEntry_GetFwdStrategyType (fs_heap (nd_fib nd) e) = SET_STRATEGY_LOW_LATENCY
                            then (let outFace = fst (numberSet_Add numberSet_Create (message_GetIngressConnectionId message)) in
                                  bind_res (pit_receive_object E (nd_table nd) (nd_fib nd) e outFace message 0 now) (\<lambda>fib.
                                  Inr (nd\<lparr>nd_fib := fib\<rparr>)))
                            else Inr nd)
                   else Inr nd) (\<lambda>nd.
         bind_res (case ct_lookup (op_ct E) (nd_table nd) (message_GetIngressConnectionId message) of
                     None \<Rightarrow> Inl AssertFailed
                   | Some conn \<Rightarrow> Inr (connection_IsLocal conn)) (\<lambda>isLocal.
         bind_res (if store_in_cache nd \<and> isLocal
                   then bind_res (contentStoreLRU_PutContent (op_cs E) (nd_cs nd) r message now) (\<lambda>(store, _). Inr (nd\<lparr>nd_cs := store\<rparr>))
                   else Inr nd) (\<lambda>nd.
         Inr (messageProcessor_Drop nd message)))))
      else
        bind_res (if store_in_cache nd
                  then bind_res (contentStoreLRU_PutContent (op_cs E) (nd_cs nd) r message now) (\<lambda>(store, _). Inr (nd\<lparr>nd_cs := store\<rparr>))
                  else Inr nd) (\<lambda>nd.
        bind_res (messageProcessor_ForwardToNexthops E nd r ingressSetUnion) (\<lambda>(nd, _). Inr nd))))"

definition messageProcessor_Receive ::
  "('d, 't, 'l, 'pt, 'ch, 'ct, 'i, 'p, 'o) node_ops \<Rightarrow> ticks \<Rightarrow> nat \<Rightarrow> ('d, 't, 'l, 'pt, 'ch, 'ct, 'i, 'p, 'o) node \<Rightarrow> mref \<Rightarrow>
     ('d, 't, 'l, 'pt, 'ch, 'ct, 'i, 'p, 'o) node res" where
  "messageProcessor_Receive E now rnd nd r =
     bind_res (deref (nd_world nd) r) (\<lambda>message.
     let s = nd_stats nd; nd = nd\<lparr>nd_stats := s\<lparr>countReceived := countReceived s + 1\<rparr>\<rparr> in
     case message_GetType message of
       MessagePacketType_Interest \<Rightarrow> messageProcessor_ReceiveInterest E now rnd nd r message
     | MessagePacketType_ContentObject \<Rightarrow> messageProcessor_ReceiveContentObject E now nd r message
     | _ \<Rightarrow> Inr (messageProcessor_Drop nd message))"

section \<open>Transmission\<close>

text \<open>What no transmission changes in a message: its name, its type and where it came from.\<close>

definition hdr :: "Message \<Rightarrow> Name option \<times> MessagePacketType \<times> connid" where
  "hdr m = (msg_name m, packetType m, ingressConnectionId m)"

definition w_hdrs :: "world \<Rightarrow> mref \<Rightarrow> (Name option \<times> MessagePacketType \<times> connid) option" where
  "w_hdrs w q = map_option hdr (w_msgs w q)"

text \<open>What was sent, and where.\<close>

definition trace :: "world \<Rightarrow> (connid \<times> (Name option \<times> MessagePacketType \<times> connid)) list" where
  "trace w = map (\<lambda>(c, m). (c, hdr m)) (w_sent w)"

lemma hdr_simps [simp]:
  "hdr (message_UpdatePathLabel m c) = hdr m" "hdr (message_SetPathLabel m l) = hdr m" "hdr (message_ResetWldrLabel m) = hdr m"
  "hdr (message_ResetPathLabel m) = hdr m" "hdr (m\<lparr>messageHead := p\<rparr>) = hdr m"
  by (simp_all add: hdr_def message_UpdatePathLabel_def message_SetPathLabel_def message_ResetWldrLabel_def message_ResetPathLabel_def)

lemma w_hdrs_put: "w_msgs w r = Some m \<Longrightarrow> hdr m' = hdr m \<Longrightarrow> w_hdrs (w_put w r m') = w_hdrs w"
  by (auto simp: w_hdrs_def w_put_def fun_eq_iff)

lemma w_put_fields [simp]:
  "w_sent (w_put w r m) = w_sent w" "w_probes (w_put w r m) = w_probes w" "trace (w_put w r m) = trace w" "w_msgs (w_put w r m) r = Some m"
  by (simp_all add: w_put_def trace_def)

lemma w_hdrs_SomeD: "w_hdrs w r = Some h \<Longrightarrow> \<exists>m. w_msgs w r = Some m \<and> hdr m = h"
  by (auto simp: w_hdrs_def)

text \<open>A change of a message that keeps its header.\<close>

definition w_same :: "world \<Rightarrow> world \<Rightarrow> bool" where
  "w_same w w' \<longleftrightarrow> w_hdrs w' = w_hdrs w \<and> w_probes w' = w_probes w"

lemma w_same_refl [simp]: "w_same w w"
  by (simp add: w_same_def)

lemma w_same_trans: "w_same w w' \<Longrightarrow> w_same w' w'' \<Longrightarrow> w_same w w''"
  by (simp add: w_same_def)

lemma w_modify_ok:
  assumes "w_msgs w r = Some m" "\<And>m. hdr (f m) = hdr m"
  shows "\<exists>w'. w_modify f w r = Inr w' \<and> w_same w w' \<and> trace w' = trace w \<and> w_msgs w' r = Some (f m)"
  using assms w_hdrs_put[OF assms(1) assms(2)] by (simp add: w_modify_def deref_def w_same_def)

lemma send_plain:
  assumes "wldr conn = None" "w_msgs w r = Some m"
  shows "\<exists>w' res. connection_Send conn w r = Inr (conn, w', res) \<and> w_same w w' \<and>
    trace w' = trace w @ (if connection_IsUp conn then [(connection_GetConnectionId conn, hdr m)] else [])"
proof -
  let ?f = "\<lambda>m. if message_GetType m = MessagePacketType_ContentObject then message_UpdatePathLabel m (ucast (connection_GetConnectionId conn)) else m"
  let ?m = "message_ResetWldrLabel (?f m)"
  have "w_hdrs (w_put w r ?m) = w_hdrs w" by (rule w_hdrs_put[OF assms(2)]) simp
  moreover have "hdr ?m = hdr m" by simp
  moreover have "w_put (w_put w r m1) r m2 = w_put w r m2" for m1 m2 by (simp add: w_put_def)
  ultimately show ?thesis using assms
    by (auto simp: connection_Send_def connection_IsUp_def connection_GetConnectionId_def deref_def w_modify_def
        ioOperations_Send_def w_same_def trace_def w_hdrs_def fun_eq_iff)
qed

text \<open>Connections are filed under their identifiers and run without loss recovery.\<close>

definition plain_links :: "('i, 'p, 'o) ct_ops \<Rightarrow> ('i, 'p, 'o) ConnectionTable \<Rightarrow> bool" where
  "plain_links C table \<longleftrightarrow> (\<forall>c conn. ct_lookup C table c = Some conn \<longrightarrow> wldr conn = None \<and> connection_GetConnectionId conn = c)"

definition link_up :: "('i, 'p, 'o) ct_ops \<Rightarrow> ('i, 'p, 'o) ConnectionTable \<Rightarrow> connid \<Rightarrow> bool" where
  "link_up C table c \<longleftrightarrow> (case ct_lookup C table c of None \<Rightarrow> False | Some conn \<Rightarrow> connection_IsUp conn)"

text \<open>Sending changes the messages, what was sent and the counters, and nothing else.\<close>

definition sent_only :: "('d, 't, 'l, 'pt, 'ch, 'ct, 'i, 'p, 'o) node \<Rightarrow> ('d, 't, 'l, 'pt, 'ch, 'ct, 'i, 'p, 'o) node \<Rightarrow> bool" where
  "sent_only nd nd' \<longleftrightarrow> w_same (nd_world nd) (nd_world nd') \<and>
     nd' = nd\<lparr>nd_world := nd_world nd', nd_stats := nd_stats nd'\<rparr>"

lemma sent_only_fields:
  assumes "sent_only nd nd'"
  shows "w_hdrs (nd_world nd') = w_hdrs (nd_world nd)" "nd_table nd' = nd_table nd" "nd_pit nd' = nd_pit nd" "nd_cs nd' = nd_cs nd"
    "nd_fib nd' = nd_fib nd" "store_in_cache nd' = store_in_cache nd" "serve_from_cache nd' = serve_from_cache nd"
proof -
  have eq: "nd' = nd\<lparr>nd_world := nd_world nd', nd_stats := nd_stats nd'\<rparr>" using assms by (simp add: sent_only_def)
  show "w_hdrs (nd_world nd') = w_hdrs (nd_world nd)" using assms by (simp add: sent_only_def w_same_def)
  show "nd_table nd' = nd_table nd" "nd_pit nd' = nd_pit nd" "nd_cs nd' = nd_cs nd" "nd_fib nd' = nd_fib nd"
    "store_in_cache nd' = store_in_cache nd" "serve_from_cache nd' = serve_from_cache nd"
    by (subst eq, simp)+
qed

lemma sent_only_refl [simp]: "sent_only nd nd"
  by (simp add: sent_only_def)

lemma sent_only_trans:
  assumes "sent_only a b" "sent_only b c"
  shows "sent_only a c"
  using assms sent_only_fields[OF assms(1)] sent_only_fields[OF assms(2)] w_same_trans
  by (auto simp: sent_only_def intro!: node.equality)

lemma Drop_sent_only [simp]:
  "sent_only nd (messageProcessor_Drop nd m)" "nd_world (messageProcessor_Drop nd m) = nd_world nd"
  by (auto simp: sent_only_def messageProcessor_Drop_def Let_def)

lemma ForwardToInterfaceId_ok:
  assumes plain: "plain_links (op_ct E) (nd_table nd)" and m: "w_msgs (nd_world nd) r = Some m"
  shows "\<exists>nd'. messageProcessor_ForwardToInterfaceId E nd r c = Inr nd' \<and> sent_only nd nd' \<and>
    trace (nd_world nd') = trace (nd_world nd) @ (if link_up (op_ct E) (nd_table nd) c then [(c, hdr m)] else [])"
proof (cases "connectionTable_FindById (op_ct E) (nd_table nd) c")
  case None
  then show ?thesis using m
    by (auto simp: messageProcessor_ForwardToInterfaceId_def deref_def link_up_def ct_lookup_def Let_def sent_only_def messageProcessor_Drop_def)
next
  case (Some ref)
  let ?conn = "ct_heap (nd_table nd) ref"
  have look: "ct_lookup (op_ct E) (nd_table nd) c = Some ?conn" using Some by (simp add: ct_lookup_def)
  then have p: "wldr ?conn = None" "connection_GetConnectionId ?conn = c" using plain by (auto simp: plain_links_def)
  from send_plain[OF p(1) m] obtain w' res where s: "connection_Send ?conn (nd_world nd) r = Inr (?conn, w', res)"
    "w_same (nd_world nd) w'" "trace w' = trace (nd_world nd) @ (if connection_IsUp ?conn then [(c, hdr m)] else [])"
    using p(2) by auto
  have "w_hdrs w' r = Some (hdr m)" using s(2) m by (simp add: w_same_def w_hdrs_def)
  then obtain m' where m': "w_msgs w' r = Some m'" using w_hdrs_SomeD by blast
  have same: "(nd_table nd)\<lparr>ct_heap := (ct_heap (nd_table nd))(ref := ?conn)\<rparr> = nd_table nd" by simp
  show ?thesis using s m' Some look
    by (auto simp: messageProcessor_ForwardToInterfaceId_def messageProcessor_SendWithGoodHopLimit_def deref_def link_up_def Let_def
        sent_only_def messageProcessor_Drop_def same)
qed

lemma ForwardToNexthops_ok:
  assumes plain: "plain_links (op_ct E) (nd_table nd)" and m: "w_msgs (nd_world nd) r = Some m" and inv: "ns_inv hops"
  shows "\<exists>nd'. messageProcessor_ForwardToNexthops E nd r hops =
      Inr (nd', of_nat (length (filter (\<lambda>c. c \<noteq> ingressConnectionId m) (ns_items hops)))) \<and> sent_only nd nd' \<and>
    trace (nd_world nd') = trace (nd_world nd) @
      map (\<lambda>c. (c, hdr m)) (filter (\<lambda>c. c \<noteq> ingressConnectionId m \<and> link_up (op_ct E) (nd_table nd) c) (ns_items hops))"
proof -
  let ?obj = "message_GetType m = MessagePacketType_ContentObject" and ?l = "if message_GetType m = MessagePacketType_ContentObject then message_GetPathLabel m else 0"
  let ?f = "\<lambda>(nd, forwardedCopies :: u32) egressId.
          if egressId \<noteq> message_GetIngressConnectionId m
          then bind_res (messageProcessor_ForwardToInterfaceId E nd r egressId) (\<lambda>nd.
               bind_res (if ?obj then w_modify (\<lambda>m. message_SetPathLabel m ?l) (nd_world nd) r
                         else Inr (nd_world nd)) (\<lambda>w.
               Inr (nd\<lparr>nd_world := w\<rparr>, forwardedCopies + 1)))
          else Inr (nd, forwardedCopies)"
  have step: "\<exists>nd'. ?f (x, k) c = Inr (nd', k + (if c \<noteq> ingressConnectionId m then 1 else 0)) \<and> sent_only x nd' \<and>
      trace (nd_world nd') = trace (nd_world x) @ (if c \<noteq> ingressConnectionId m \<and> link_up (op_ct E) (nd_table x) c then [(c, hdr m)] else [])"
    if x: "plain_links (op_ct E) (nd_table x)" "w_hdrs (nd_world x) r = Some (hdr m)" for x c and k :: u32
  proof (cases "c = ingressConnectionId m")
    case False
    obtain mx where mx: "w_msgs (nd_world x) r = Some mx" "hdr mx = hdr m" using w_hdrs_SomeD[OF x(2)] by blast
    from ForwardToInterfaceId_ok[OF x(1) mx(1), of c] obtain y where y: "messageProcessor_ForwardToInterfaceId E x r c = Inr y"
      "sent_only x y" "trace (nd_world y) = trace (nd_world x) @ (if link_up (op_ct E) (nd_table x) c then [(c, hdr m)] else [])"
      using mx(2) by auto
    have "w_hdrs (nd_world y) r = Some (hdr m)" using sent_only_fields(1)[OF y(2)] x(2) by simp
    then obtain my where my: "w_msgs (nd_world y) r = Some my" using w_hdrs_SomeD by blast
    from w_modify_ok[OF my, of "\<lambda>m. message_SetPathLabel m ?l"] obtain w' where
      w': "w_modify (\<lambda>m. message_SetPathLabel m ?l) (nd_world y) r = Inr w'" "w_same (nd_world y) w'" "trace w' = trace (nd_world y)" by auto
    let ?w = "if ?obj then w' else nd_world y"
    have "?f (x, k) c = Inr (y\<lparr>nd_world := ?w\<rparr>, k + 1)"
      using y(1) w'(1) False by (cases "?obj") (simp_all add: message_GetIngressConnectionId_def)
    moreover have "sent_only y (y\<lparr>nd_world := ?w\<rparr>)" using w'(2) by (simp add: sent_only_def)
    moreover have "trace ?w = trace (nd_world y)" using w'(3) by simp
    ultimately show ?thesis using y(2,3) False sent_only_trans[OF y(2)] by auto
  qed (simp add: message_GetIngressConnectionId_def)
  obtain F where F: "F = ?f" by blast
  have loop: "\<exists>nd'. fold_res F (x, k) cs = Inr (nd', k + of_nat (length (filter (\<lambda>c. c \<noteq> ingressConnectionId m) cs))) \<and> sent_only x nd' \<and>
      trace (nd_world nd') = trace (nd_world x) @
        map (\<lambda>c. (c, hdr m)) (filter (\<lambda>c. c \<noteq> ingressConnectionId m \<and> link_up (op_ct E) (nd_table x) c) cs)"
    if "plain_links (op_ct E) (nd_table x)" "w_hdrs (nd_world x) r = Some (hdr m)" for x cs and k :: u32
    using that
  proof (induction cs arbitrary: x k)
    case (Cons c cs)
    from step[OF Cons.prems, of k c, folded F] obtain y where y: "F (x, k) c = Inr (y, k + (if c \<noteq> ingressConnectionId m then 1 else 0))" "sent_only x y"
      "trace (nd_world y) = trace (nd_world x) @ (if c \<noteq> ingressConnectionId m \<and> link_up (op_ct E) (nd_table x) c then [(c, hdr m)] else [])" by blast
    note yf = sent_only_fields[OF y(2)]
    from Cons.IH[of y "k + (if c \<noteq> ingressConnectionId m then 1 else 0)"] Cons.prems yf obtain z where
      z: "fold_res F (y, k + (if c \<noteq> ingressConnectionId m then 1 else 0)) cs =
        Inr (z, k + (if c \<noteq> ingressConnectionId m then 1 else 0) + of_nat (length (filter (\<lambda>c. c \<noteq> ingressConnectionId m) cs)))" "sent_only y z"
      "trace (nd_world z) = trace (nd_world y) @
        map (\<lambda>c. (c, hdr m)) (filter (\<lambda>c. c \<noteq> ingressConnectionId m \<and> link_up (op_ct E) (nd_table x) c) cs)" by auto
    have "fold_res F (x, k) (c # cs) = Inr (z, k + of_nat (length (filter (\<lambda>c. c \<noteq> ingressConnectionId m) (c # cs))))"
      using y(1) z(1) by simp
    moreover have "trace (nd_world z) = trace (nd_world x) @
        map (\<lambda>c. (c, hdr m)) (filter (\<lambda>c. c \<noteq> ingressConnectionId m \<and> link_up (op_ct E) (nd_table x) c) (c # cs))"
      using y(3) z(3) by simp
    ultimately show ?case using sent_only_trans[OF y(2) z(2)] by blast
  qed simp
  have "w_hdrs (nd_world nd) r = Some (hdr m)" using m by (simp add: w_hdrs_def)
  from loop[OF plain this, of 0 "ns_items hops", unfolded F] m show ?thesis
    by (simp add: messageProcessor_ForwardToNexthops_def deref_def Let_def ns_for_items[OF inv])
qed

end
