(* ===== verification/Forwarding.thy ===== *)
theory Forwarding
  imports Processor
begin

text \<open>
  The behaviour of a node as a whole, on the definitions of \<^verbatim>\<open>Processor\<close>. \<open>node_ok\<close> is the invariant of a node:
  the PIT, the content store and the FIB are well formed, the cached messages are named data messages
  in memory, the strategies are the load balancer or the random one, and the connections run without loss recovery
  (\<open>plain_links\<close>). \<open>framed\<close> is what no message changes: the connections, the headers of the messages in memory, the cache flags and the routes.

  One lemma per stage of the processor (\<open>nd_Satisfy_ok\<close>, \<open>Aggregate_ok\<close>, \<open>satisfyFromContentStore_ok\<close>,
  \<open>ForwardViaFib_ok\<close>, \<open>store_ok\<close>) leads to the effect of an interest and of a data message as
  predicates over the abstract PIT, cache and routes (\<open>interest_effect\<close>, \<open>data_effect\<close>), and these
  to runs of many messages.
\<close>

section \<open>The invariant of a node\<close>

definition hname :: "(mref \<Rightarrow> (Name option \<times> MessagePacketType \<times> connid) option) \<Rightarrow> mref \<Rightarrow> Name option" where
  "hname hs r = (case hs r of None \<Rightarrow> None | Some (n, _) \<Rightarrow> n)"

text \<open>What the content store holds are named data messages in memory.\<close>

definition cached :: "hash_fun \<Rightarrow> (mref \<Rightarrow> (Name option \<times> MessagePacketType \<times> connid) option) \<Rightarrow> cs_item list \<Rightarrow> bool" where
  "cached H hs L \<longleftrightarrow> (\<forall>(n, r, x)\<in>set L. name_ok H n \<and> (\<exists>c. hs r = Some (Some n, MessagePacketType_ContentObject, c)))"

definition env_ok ::
  "hash_fun \<Rightarrow> ('ct \<Rightarrow> bool) \<Rightarrow> ('ct \<Rightarrow> (tkey \<times> nat) list) \<Rightarrow> ('d, 't, 'l, 'pt, 'ch, 'ct, 'i, 'p, 'o) node_ops \<Rightarrow> bool" where
  "env_ok H ok es E \<longleftrightarrow> pit_table_ok H (op_pit E) \<and> cs_ops_ok H ok es (op_cs E)"

definition node_ok ::
  "hash_fun \<Rightarrow> ('ct \<Rightarrow> bool) \<Rightarrow> ('ct \<Rightarrow> (tkey \<times> nat) list) \<Rightarrow> ('d, 't, 'l, 'pt, 'ch, 'ct, 'i, 'p, 'o) node_ops \<Rightarrow>
     ('d, 't, 'l, 'pt, 'ch, 'ct, 'i, 'p, 'o) node \<Rightarrow> bool" where
  "node_ok H ok es E nd \<longleftrightarrow>
     pit_inv H (op_pit E) (nd_pit nd) \<and>
     cs_inv H (hname (w_hdrs (nd_world nd))) ok es (op_cs E) (nd_cs nd) \<and> cached H (w_hdrs (nd_world nd)) (cs_items (nd_cs nd)) \<and>
     fs_inv (nd_fib nd) \<and> fs_modelled (nd_fib nd) \<and> plain_links (op_ct E) (nd_table nd)"

text \<open>A named message in memory that came in on a connection of the table.\<close>

definition ready ::
  "hash_fun \<Rightarrow> ('d, 't, 'l, 'pt, 'ch, 'ct, 'i, 'p, 'o) node_ops \<Rightarrow> ('d, 't, 'l, 'pt, 'ch, 'ct, 'i, 'p, 'o) node \<Rightarrow> mref \<Rightarrow> Name \<Rightarrow> bool" where
  "ready H E nd r n \<longleftrightarrow> name_ok H n \<and> nb_valid (name_bv n) \<and>
     (\<exists>t c. w_hdrs (nd_world nd) r = Some (Some n, t, c) \<and> c \<noteq> - 1 \<and> ct_lookup (op_ct E) (nd_table nd) c \<noteq> None)"

text \<open>Two FIBs with the same next hops and policy tags in every entry.\<close>

definition same_entries :: "('d, 't, 'l) fib_store \<Rightarrow> ('d, 't, 'l) fib_store \<Rightarrow> bool" where
  "same_entries fs fs' \<longleftrightarrow> fs_entry fs' = fs_entry fs \<and> fs_routes fs' = fs_routes fs \<and>
     (\<forall>e. nexthops (fs_heap fs' e) = nexthops (fs_heap fs e) \<and> tags (policy (fs_heap fs' e)) = tags (policy (fs_heap fs e)))"

text \<open>What the processor leaves alone: connections, headers, flags and routes.\<close>

definition framed :: "('d, 't, 'l, 'pt, 'ch, 'ct, 'i, 'p, 'o) node \<Rightarrow> ('d, 't, 'l, 'pt, 'ch, 'ct, 'i, 'p, 'o) node \<Rightarrow> bool" where
  "framed nd nd' \<longleftrightarrow> nd_table nd' = nd_table nd \<and> w_hdrs (nd_world nd') = w_hdrs (nd_world nd) \<and>
     store_in_cache nd' = store_in_cache nd \<and> serve_from_cache nd' = serve_from_cache nd \<and>
     same_entries (nd_fib nd) (nd_fib nd')"

lemma same_entries_refl [simp]: "same_entries fs fs"
  by (simp add: same_entries_def)

lemma same_entries_trans: "same_entries a b \<Longrightarrow> same_entries b c \<Longrightarrow> same_entries a c"
  by (simp add: same_entries_def)

abbreviation pending ::
  "('d, 't, 'l, 'pt, 'ch, 'ct, 'i, 'p, 'o) node_ops \<Rightarrow> ('d, 't, 'l, 'pt, 'ch, 'ct, 'i, 'p, 'o) node \<Rightarrow> Name \<Rightarrow> (connid set \<times> ticks) option" where
  "pending E nd n \<equiv> pit_abs (op_pit E) (nd_pit nd) n"

lemma framed_refl [simp]: "framed nd nd"
  by (simp add: framed_def)

lemma framed_trans: "framed a b \<Longrightarrow> framed b c \<Longrightarrow> framed a c"
  unfolding framed_def using same_entries_trans by metis

lemma sent_only_framed: "sent_only nd nd' \<Longrightarrow> framed nd nd'"
  using sent_only_fields[of nd nd'] by (simp add: framed_def)

lemma node_okD:
  assumes "node_ok H ok es E nd"
  shows "pit_inv H (op_pit E) (nd_pit nd)" "cs_inv H (hname (w_hdrs (nd_world nd))) ok es (op_cs E) (nd_cs nd)"
    "cached H (w_hdrs (nd_world nd)) (cs_items (nd_cs nd))" "fs_inv (nd_fib nd)" "fs_modelled (nd_fib nd)" "plain_links (op_ct E) (nd_table nd)"
  using assms by (simp_all add: node_ok_def)

lemma sent_only_node_ok: "sent_only nd nd' \<Longrightarrow> node_ok H ok es E nd \<Longrightarrow> node_ok H ok es E nd'"
  using sent_only_fields[of nd nd'] by (simp add: node_ok_def)

lemma framed_ready: "framed nd nd' \<Longrightarrow> ready H E nd r n \<Longrightarrow> ready H E nd' r n"
  by (simp add: framed_def ready_def)

lemma ready_message:
  assumes "ready H E nd r n" "w_msgs (nd_world nd) r = Some m"
  shows "msg_name m = Some n" "name_ok H n" "content_name n = Some (name_bv n)" "nb_valid (name_bv n)" "ingressConnectionId m \<noteq> - 1"
    "ct_lookup (op_ct E) (nd_table nd) (ingressConnectionId m) \<noteq> None"
  using assms by (auto simp: ready_def w_hdrs_def hdr_def name_ok_def name_bv_def)

lemma env_okD:
  assumes "env_ok H ok es E"
  shows "pit_table_ok H (op_pit E)" "cs_ops_ok H ok es (op_cs E)"
  using assms by (simp_all add: env_ok_def)

lemma cached_subset: "cached H hs L \<Longrightarrow> set L' \<subseteq> set L \<Longrightarrow> cached H hs L'"
  unfolding cached_def by blast

section \<open>Feedback to the FIB\<close>

text \<open>The callbacks of the PIT return and keep the routes of the FIB \<open>fs0\<close>.\<close>

definition fib_kept :: "('d, 't, 'l) fib_store \<Rightarrow> ('d, 't, 'l) fib_store \<Rightarrow> bool" where
  "fib_kept fs0 fs \<longleftrightarrow> fs_inv fs \<and> fs_modelled fs \<and> same_entries fs0 fs"

lemma fib_kept_put:
  assumes "fib_kept fs0 fs" "fe_name fe = fe_name (fs_heap fs e)" "nexthops fe = nexthops (fs_heap fs e)" "modelled (fwdStrategy fe)"
    "tags (policy fe) = tags (policy (fs_heap fs e))"
  shows "fib_kept fs0 (fs_put fs e fe)"
proof -
  have "same_entries fs (fs_put fs e fe)"
    using assms keeps_routes_put[of fs fe e] by (simp add: fib_kept_def keeps_routes_def same_entries_def)
  then show ?thesis
    using assms keeps_routes_put[of fs fe e] same_entries_trans[of fs0 fs] by (simp add: fib_kept_def keeps_routes_def fs_modelled_put)
qed

lemma fib_kept_entry: "fib_kept fs0 fs \<Longrightarrow> fe_inv (fs_heap fs e)"
  by (simp add: fib_kept_def fe_inv_def fs_modelled_def fs_ns)

lemma pit_on_timeout_total: "total_timeout (fib_kept fs0) (pit_on_timeout E table)"
  unfolding total_timeout_def
proof (intro allI impI)
  fix fs e s assume fs: "fib_kept fs0 fs" and s: "ns_inv s"
  from timeout_ok[OF fib_kept_entry[OF fs] s, of "op_st E" "op_ct E" table e] obtain fe where
    "fibEntry_OnTimeout (op_st E) (op_ct E) table (fs_heap fs e) s = Inr fe" "fe_inv fe" "fe_name fe = fe_name (fs_heap fs e)"
    "nexthops fe = nexthops (fs_heap fs e)" "policy fe = policy (fs_heap fs e)" by blast
  then show "\<exists>fs'. pit_on_timeout E table fs e s = Inr fs' \<and> fib_kept fs0 fs'"
    using fib_kept_put[OF fs, of fe e] by (simp add: pit_on_timeout_def fe_inv_def)
qed

lemma pit_receive_object_total: "total_receive (fib_kept fs0) (pit_receive_object E table)"
  unfolding total_receive_def
proof (intro allI impI)
  fix fs e s m t t' assume fs: "fib_kept fs0 fs" and s: "ns_inv s"
  from received_ok[OF fib_kept_entry[OF fs] s, of "op_st E" "op_ct E" table e m t t'] obtain fe where
    "fibEntry_ReceiveObjectMessage (op_st E) (op_ct E) table (fs_heap fs e) s m t t' = Inr fe" "fe_inv fe" "fe_name fe = fe_name (fs_heap fs e)"
    "nexthops fe = nexthops (fs_heap fs e)" "tags (policy fe) = tags (policy (fs_heap fs e))" by blast
  then show "\<exists>fs'. pit_receive_object E table fs e s m t t' = Inr fs' \<and> fib_kept fs0 fs'"
    using fib_kept_put[OF fs, of fe e] by (simp add: pit_receive_object_def fe_inv_def)
qed

lemma fib_kept_refl: "node_ok H ok es E nd \<Longrightarrow> fib_kept (nd_fib nd) (nd_fib nd)"
  by (simp add: node_ok_def fib_kept_def)

section \<open>The steps of the processor\<close>

lemma nd_Satisfy_ok:
  assumes E: "env_ok H ok es E" and nd: "node_ok H ok es E nd" and n: "msg_name m = Some n" "name_ok H n"
  shows "\<exists>s nd'. nd_SatisfyInterest E now nd m = Inr (s, nd') \<and> node_ok H ok es E nd' \<and> framed nd nd' \<and> nd_world nd' = nd_world nd \<and>
    nd_cs nd' = nd_cs nd \<and> ns_inv s \<and> ns_set s = spec_satisfy now (pending E nd n) \<and>
    (\<forall>k. name_ok H k \<longrightarrow> pending E nd' k = (if name_Equals n k then None else pending E nd k))"
proof -
  from SatisfyInterest_abs[OF env_okD(1)[OF E] node_okD(1)[OF nd] n pit_receive_object_total fib_kept_refl[OF nd], of E "nd_table nd" now]
  obtain s pit f where
    "pitStandard_SatisfyInterest (op_pit E) (pit_receive_object E (nd_table nd)) now (nd_pit nd) (nd_fib nd) m = Inr (s, pit, f)"
    "pit_inv H (op_pit E) pit" "fib_kept (nd_fib nd) f" "ns_inv s" "ns_set s = spec_satisfy now (pending E nd n)"
    "\<forall>k. name_ok H k \<longrightarrow> pit_abs (op_pit E) pit k = (if name_Equals n k then None else pending E nd k)" by blast
  then show ?thesis using nd by (simp add: nd_SatisfyInterest_def node_ok_def fib_kept_def framed_def)
qed

lemma Aggregate_ok:
  assumes E: "env_ok H ok es E" and nd: "node_ok H ok es E nd" and n: "msg_name m = Some n" "name_ok H n"
  shows "\<exists>v st nd'. messageProcessor_AggregateInterestInPit E now nd r m = Inr (verdict_of_bool (v = PITVerdict_Aggregate), nd') \<and>
    (v, st) = spec_interest now (message_GetInterestLifetimeTicks m) (ingressConnectionId m) (pending E nd n) \<and>
    node_ok H ok es E nd' \<and> framed nd nd' \<and> nd_world nd' = nd_world nd \<and> nd_cs nd' = nd_cs nd \<and>
    (\<forall>k. name_ok H k \<longrightarrow> pending E nd' k = (if name_Equals n k then Some st else pending E nd k))"
proof -
  from ReceiveInterest_abs[OF env_okD(1)[OF E] node_okD(1)[OF nd] n pit_on_timeout_total fib_kept_refl[OF nd], of E "nd_table nd" now r]
  obtain v st pit f where *:
    "pitStandard_ReceiveInterest (op_pit E) (pit_on_timeout E (nd_table nd)) now (nd_pit nd) (nd_fib nd) r m = Inr (v, pit, f)"
    "pit_inv H (op_pit E) pit" "fib_kept (nd_fib nd) f"
    "(v, st) = spec_interest now (message_GetInterestLifetimeTicks m) (ingressConnectionId m) (pending E nd n)"
    "\<forall>k. name_ok H k \<longrightarrow> pit_abs (op_pit E) pit k = (if name_Equals n k then Some st else pending E nd k)" by blast
  let ?nd = "nd\<lparr>nd_pit := pit, nd_fib := f\<rparr>"
  let ?nd' = "if v = PITVerdict_Aggregate then ?nd\<lparr>nd_stats := (nd_stats nd)\<lparr>countInterestsAggregated := countInterestsAggregated (nd_stats nd) + 1\<rparr>\<rparr> else ?nd"
  have "messageProcessor_AggregateInterestInPit E now nd r m = Inr (verdict_of_bool (v = PITVerdict_Aggregate), ?nd')"
    using *(1) by (simp add: messageProcessor_AggregateInterestInPit_def Let_def)
  moreover have "node_ok H ok es E ?nd' \<and> framed nd ?nd' \<and> nd_world ?nd' = nd_world nd \<and> nd_cs ?nd' = nd_cs nd \<and> nd_pit ?nd' = pit"
    using nd *(2,3) by (simp add: node_ok_def fib_kept_def framed_def)
  ultimately show ?thesis using *(4,5) by metis
qed

lemma spec_find_Some: "spec_find n L = Some (k, r, x) \<Longrightarrow> (k, r, x) \<in> set L \<and> name_Equals k n"
  unfolding spec_find_def by (induction L) (auto split: if_splits)

lemma spec_match_subset: "spec_match now n L = (L', b) \<Longrightarrow> set L' \<subseteq> set L"
  by (auto simp: spec_match_def spec_del_def dest: spec_find_Some split: option.splits if_splits prod.splits)

lemma spec_match_Some: "spec_match now n L = (L', Some r) \<Longrightarrow> \<exists>k x. (k, r, x) \<in> set L \<and> name_Equals k n"
  by (auto simp: spec_match_def split: option.splits if_splits prod.splits dest!: spec_find_Some)

lemma InterestLifetime_nonzero: "message_GetInterestLifetimeTicks m \<noteq> 0"
  using NanosToTicks_nonzero by (simp add: message_GetInterestLifetimeTicks_def)

lemma ok_items_set: "ns_set s = set (ns_items s)"
  by (simp add: ns_set_def)

text \<open>The connections that a message is sent on, from the set of those that should have it.\<close>

definition sends_to ::
  "('d, 't, 'l, 'pt, 'ch, 'ct, 'i, 'p, 'o) node_ops \<Rightarrow> ('d, 't, 'l, 'pt, 'ch, 'ct, 'i, 'p, 'o) node \<Rightarrow>
   ('d, 't, 'l, 'pt, 'ch, 'ct, 'i, 'p, 'o) node \<Rightarrow> (Name option \<times> MessagePacketType \<times> connid) \<Rightarrow> connid set \<Rightarrow> bool" where
  "sends_to E nd nd' h S \<longleftrightarrow> (\<exists>out. distinct out \<and> trace (nd_world nd') = trace (nd_world nd) @ map (\<lambda>c. (c, h)) out \<and>
     set out = {c \<in> S. c \<noteq> snd (snd h) \<and> link_up (op_ct E) (nd_table nd) c})"

lemma ForwardToNexthops_sends:
  assumes nd: "node_ok H ok es E nd" and m: "w_hdrs (nd_world nd) r = Some h" and hops: "ns_inv hops"
  shows "\<exists>nd' k. messageProcessor_ForwardToNexthops E nd r hops = Inr (nd', k) \<and> sent_only nd nd' \<and> sends_to E nd nd' h (ns_set hops)"
proof -
  obtain m where m: "w_msgs (nd_world nd) r = Some m" "hdr m = h" using w_hdrs_SomeD[OF m] by blast
  have "distinct (ns_items hops)" using hops by (simp add: ns_inv_def)
  from ForwardToNexthops_ok[OF node_okD(6)[OF nd] m(1) hops] obtain nd' k where
    nd': "messageProcessor_ForwardToNexthops E nd r hops = Inr (nd', k)" "sent_only nd nd'"
    "trace (nd_world nd') = trace (nd_world nd) @
      map (\<lambda>c. (c, h)) (filter (\<lambda>c. c \<noteq> ingressConnectionId m \<and> link_up (op_ct E) (nd_table nd) c) (ns_items hops))"
    unfolding m(2) by blast
  have "sends_to E nd nd' h (ns_set hops)" unfolding sends_to_def
    using nd'(3) \<open>distinct (ns_items hops)\<close> m(2)
    by (intro exI[of _ "filter (\<lambda>c. c \<noteq> ingressConnectionId m \<and> link_up (op_ct E) (nd_table nd) c) (ns_items hops)"])
      (auto simp: ns_set_def hdr_def)
  then show ?thesis using nd'(1,2) by blast
qed

lemma satisfyFromContentStore_ok:
  assumes E: "env_ok H ok es E" and nd: "node_ok H ok es E nd"
    and m: "message_GetType m = MessagePacketType_Interest" "msg_name m = Some n" "name_ok H n"
    and served: "(L, found) = (if serve_from_cache nd then spec_match now n (cs_items (nd_cs nd)) else (cs_items (nd_cs nd), None))"
  shows "\<exists>nd'. satisfyFromContentStore E now nd m = Inr (found \<noteq> None, nd') \<and> node_ok H ok es E nd' \<and> framed nd nd' \<and> cs_items (nd_cs nd') = L \<and>
    (case found of
       None \<Rightarrow> nd_world nd' = nd_world nd \<and> nd_pit nd' = nd_pit nd
     | Some obj \<Rightarrow> (\<exists>h. w_hdrs (nd_world nd) obj = Some h \<and> fst (snd h) = MessagePacketType_ContentObject \<and>
         sends_to E nd nd' h (spec_satisfy now (pending E nd n))) \<and>
         (\<forall>k. name_ok H k \<longrightarrow> pending E nd' k = (if name_Equals n k then None else pending E nd k)))"
proof (cases "serve_from_cache nd")
  case False
  then show ?thesis using served nd by (simp add: satisfyFromContentStore_def)
next
  case True
  have served: "(L, found) = spec_match now n (cs_items (nd_cs nd))" using served True by simp
  from Match_ok[OF env_okD(2)[OF E] node_okD(2)[OF nd] m, of now] served obtain s where
    s: "contentStoreLRU_MatchInterest (op_cs E) (nd_cs nd) m now = Inr (s, found)" "cs_inv H (hname (w_hdrs (nd_world nd))) ok es (op_cs E) s"
    "cs_items s = L" by (metis prod.inject)
  have sub: "set L \<subseteq> set (cs_items (nd_cs nd))" using spec_match_subset[OF served[symmetric]] .
  let ?nd1 = "nd\<lparr>nd_cs := s\<rparr>"
  have nd1: "node_ok H ok es E ?nd1" using nd s(2,3) cached_subset[OF _ sub] by (auto simp: node_ok_def)
  have f1: "framed nd ?nd1" by (simp add: framed_def)
  show ?thesis
  proof (cases found)
    case None
    then show ?thesis using s(1,3) nd1 f1 True InterestLifetime_nonzero by (simp add: satisfyFromContentStore_def Let_def)
  next
    case (Some obj)
    obtain k x where k: "(k, obj, x) \<in> set (cs_items (nd_cs nd))" "name_Equals k n"
      using spec_match_Some[OF served[symmetric, unfolded Some]] by blast
    then obtain c where c: "name_ok H k" "w_hdrs (nd_world nd) obj = Some (Some k, MessagePacketType_ContentObject, c)"
      using node_okD(3)[OF nd] unfolding cached_def by blast
    then obtain om where om: "w_msgs (nd_world nd) obj = Some om" "hdr om = (Some k, MessagePacketType_ContentObject, c)"
      using w_hdrs_SomeD by metis
    then have name: "msg_name om = Some k" by (simp add: hdr_def)
    have eq: "pending E nd k = pending E nd n"
      using pit_table_laws(4)[OF env_okD(1)[OF E] c(1) m(3) k(2)] by (simp add: pit_abs_def pit_lookup_def)
    from nd_Satisfy_ok[OF E nd1 name c(1), of now] obtain hops nd2 where
      2: "nd_SatisfyInterest E now ?nd1 om = Inr (hops, nd2)" "node_ok H ok es E nd2" "framed ?nd1 nd2" "nd_world nd2 = nd_world ?nd1"
      "nd_cs nd2 = nd_cs ?nd1" "ns_inv hops" "ns_set hops = spec_satisfy now (pending E ?nd1 k)"
      "\<forall>k'. name_ok H k' \<longrightarrow> pending E nd2 k' = (if name_Equals k k' then None else pending E ?nd1 k')" by blast
    have hops: "ns_set hops = spec_satisfy now (pending E nd n)" and world: "nd_world nd2 = nd_world nd" and cs: "nd_cs nd2 = s"
      using 2(4,5,7) eq by simp_all
    let ?st = "(nd_stats nd2)\<lparr>countInterestsSatisfiedFromStore := countInterestsSatisfiedFromStore (nd_stats nd2) + 1\<rparr>"
    from w_modify_ok[OF om(1), of message_ResetPathLabel] obtain w where
      w: "w_modify message_ResetPathLabel (nd_world nd) obj = Inr w" "w_same (nd_world nd) w" "trace w = trace (nd_world nd)" by auto
    let ?nd3 = "nd2\<lparr>nd_stats := ?st, nd_world := w\<rparr>"
    have 3: "sent_only nd2 ?nd3" using w(2) world by (simp add: sent_only_def)
    have h3: "w_hdrs (nd_world ?nd3) obj = Some (Some k, MessagePacketType_ContentObject, c)" using w(2) c(2) by (simp add: w_same_def)
    from ForwardToNexthops_sends[OF sent_only_node_ok[OF 3 2(2)] h3 2(6)] obtain nd4 j where
      4: "messageProcessor_ForwardToNexthops E ?nd3 obj hops = Inr (nd4, j)" "sent_only ?nd3 nd4"
      "sends_to E ?nd3 nd4 (Some k, MessagePacketType_ContentObject, c) (spec_satisfy now (pending E nd n))" unfolding hops by blast
    have 5: "sent_only nd2 nd4" using sent_only_trans[OF 3 4(2)] .
    have run: "satisfyFromContentStore E now nd m = Inr (True, nd4)"
      using True InterestLifetime_nonzero s(1) Some om(1) 2(1) world w(1) 4(1) by (simp add: satisfyFromContentStore_def Let_def deref_def del: bind_res_eq_Inr)
    have "name_Equals k k' \<longleftrightarrow> name_Equals n k'" for k' using k(2) name_Equals_sym name_Equals_trans by blast
    then have pend: "\<forall>k'. name_ok H k' \<longrightarrow> pending E nd4 k' = (if name_Equals n k' then None else pending E nd k')"
      using 2(8) sent_only_fields(3)[OF 5] by simp
    have "nd_table nd2 = nd_table nd" using 2(3) by (simp add: framed_def)
    then have "sends_to E nd nd4 (Some k, MessagePacketType_ContentObject, c) (spec_satisfy now (pending E nd n))"
      using 4(3) w(3) by (simp add: sends_to_def)
    moreover have "framed nd nd4" using framed_trans[OF f1 framed_trans[OF 2(3) sent_only_framed[OF 5]]] .
    moreover have "cs_items (nd_cs nd4) = L" using sent_only_fields(4)[OF 5] cs s(3) by simp
    ultimately show ?thesis using run sent_only_node_ok[OF 5 2(2)] pend Some c(2) by auto
  qed
qed

lemma probe_loop_ok:
  assumes nd: "w_msgs (nd_world nd) r = Some m" and c: "ct_lookup (op_ct E) (nd_table nd) c \<noteq> None" and hops: "ns_inv hops"
    and js: "\<forall>i\<in>set js. i < length (ns_items hops)"
  shows "\<exists>b w. probe_loop E nd r c hops js = Inr (b, nd\<lparr>nd_world := w\<rparr>) \<and> (\<not> b \<longrightarrow> w = nd_world nd) \<and>
    w_hdrs w = w_hdrs (nd_world nd) \<and> trace w = trace (nd_world nd)"
  using js
proof (induction js)
  case Nil
  then show ?case by (intro exI[of _ False] exI[of _ "nd_world nd"]) simp
next
  case (Cons i js)
  have item: "numberSet_GetItem hops i = Inr (ns_items hops ! i)" using Cons.prems hops by (simp add: GetItem_items Length_items)
  obtain conn where conn: "ct_lookup (op_ct E) (nd_table nd) c = Some conn" using c by blast
  have "\<exists>w. connection_HandleProbe (Some conn) (nd_world nd) r = Inr w \<and> w_hdrs w = w_hdrs (nd_world nd) \<and> trace w = trace (nd_world nd)"
    using nd by (auto simp: connection_HandleProbe_def deref_def Let_def trace_def w_put_def w_hdrs_def fun_eq_iff hdr_def)
  then show ?case using Cons item conn by (auto split: option.split simp: Let_def)
qed

lemma AddEgressIds:
  assumes "ns_inv hops" "ns_inv (egressIdSet e)"
  shows "\<exists>X. ns_for hops (\<lambda>pitEntry c. Inr (pitEntry_AddEgressId pitEntry c)) e = Inr (e\<lparr>egressIdSet := X\<rparr>) \<and> ns_inv X"
proof -
  have "\<exists>X. fold_res (\<lambda>e c. Inr (pitEntry_AddEgressId e c)) (e\<lparr>egressIdSet := Y\<rparr>) cs = Inr (e\<lparr>egressIdSet := X\<rparr>) \<and> ns_inv X"
    if "ns_inv Y" for Y cs
    using that
  proof (induction cs arbitrary: Y)
    case (Cons c cs)
    then show ?case using Cons.IH[of "fst (numberSet_Add Y c)"] by (simp add: pitEntry_AddEgressId_def Add_abs)
  qed auto
  from this[OF assms(2), of "ns_items hops"] show ?thesis by (simp add: ns_for_items[OF assms(1)])
qed

text \<open>An interest leaves on at most one connection, a permitted next hop of the longest matching route.\<close>

definition follows_route ::
  "('d, 't, 'l, 'pt, 'ch, 'ct, 'i, 'p, 'o) node_ops \<Rightarrow> ('d, 't, 'l, 'pt, 'ch, 'ct, 'i, 'p, 'o) node \<Rightarrow>
   ('d, 't, 'l, 'pt, 'ch, 'ct, 'i, 'p, 'o) node \<Rightarrow> (Name option \<times> MessagePacketType \<times> connid) \<Rightarrow> bool" where
  "follows_route E nd nd' h \<longleftrightarrow> (\<exists>out. trace (nd_world nd') = trace (nd_world nd) @ map (\<lambda>c. (c, h)) out \<and> length out \<le> 1 \<and>
     (\<forall>c\<in>set out. c \<noteq> snd (snd h) \<and> link_up (op_ct E) (nd_table nd) c \<and>
        (\<exists>e. lpm_lookup (fs_entry (nd_fib nd)) (nb_bits (name_bv (the (fst h)))) = Some e \<and>
             c \<in> ns_set (nexthops (fs_heap (nd_fib nd) e)) \<and>
             permitted (ct_lookup (op_ct E) (nd_table nd)) (policy (fs_heap (nd_fib nd) e)) (snd (snd h)) c)))"

lemma follows_nothing: "trace (nd_world nd') = trace (nd_world nd) \<Longrightarrow> follows_route E nd nd' h"
  by (simp add: follows_route_def)

lemma egress_recorded:
  assumes T: "pit_table_ok H T" and inv: "pit_inv H T pit" and n: "name_ok H n" "hct_Get T (pit_table pit) n = Some ref" and hops: "ns_inv hops"
  shows "\<exists>e1 e2. ns_for hops (\<lambda>pitEntry c. Inr (pitEntry_AddEgressId pitEntry c)) (pitEntry_AddFibEntry (pitEntry_Acquire (pit_heap pit ref)) f) = Inr e1 \<and>
    pitEntry_Release e1 = Inr e2 \<and> pit_inv H T (pit_set_entry pit ref e2) \<and>
    (\<forall>k. name_ok H k \<longrightarrow> pit_abs T (pit_set_entry pit ref e2) k = pit_abs T pit k)"
proof -
  note i = pit_invD[OF inv n]
  let ?e = "pitEntry_AddFibEntry (pitEntry_Acquire (pit_heap pit ref)) f"
  have fields: "ingressIdSet ?e = ingressIdSet (pit_heap pit ref)" "egressIdSet ?e = egressIdSet (pit_heap pit ref)"
    "pe_name ?e = pe_name (pit_heap pit ref)" "expiryTime ?e = expiryTime (pit_heap pit ref)" "pe_refcount ?e = 2"
    using i(6) by (simp_all add: pitEntry_AddFibEntry_def pitEntry_Acquire_def)
  from AddEgressIds[OF hops, of ?e] i(3) fields(2) obtain X where
    X: "ns_for hops (\<lambda>pitEntry c. Inr (pitEntry_AddEgressId pitEntry c)) ?e = Inr (?e\<lparr>egressIdSet := X\<rparr>)" "ns_inv X" by auto
  let ?e2 = "?e\<lparr>egressIdSet := X, pe_refcount := 1\<rparr>"
  have rel: "pitEntry_Release (?e\<lparr>egressIdSet := X\<rparr>) = Inr ?e2" using fields(5) by (simp add: pitEntry_Release_def)
  have e2: "ns_inv (ingressIdSet ?e2)" "ns_inv (egressIdSet ?e2)" "pe_name ?e2 = pe_name (pit_heap pit ref)" "pe_refcount ?e2 = 1"
    using X(2) i(2) fields by simp_all
  note s = pit_set_entry_ok[OF T inv n e2]
  have "pit_lookup T pit k = Some (pit_heap pit ref)" if "name_ok H k" "name_Equals n k" for k
    using pit_table_laws(4)[OF T n(1) that] n(2) by (simp add: pit_lookup_def)
  then have "\<forall>k. name_ok H k \<longrightarrow> pit_abs T (pit_set_entry pit ref ?e2) k = pit_abs T pit k"
    using s(2) fields by (simp add: pit_abs_def)
  then show ?thesis using X(1) rel s(1) by blast
qed

lemma chosen_hops:
  assumes nd: "node_ok H ok es E nd" and m: "ingressConnectionId m \<noteq> - 1"
  shows "\<exists>hops fe. fibEntry_GetNexthopsFromForwardingStrategy (op_st E) (op_ct E) (nd_table nd) rnd (fs_heap (nd_fib nd) e) m b = Inr (hops, fe) \<and>
    fib_kept (nd_fib nd) (fs_put (nd_fib nd) e fe) \<and> ns_inv hops \<and> length (ns_items hops) \<le> 1 \<and>
    (\<forall>c\<in>ns_set hops. c \<in> ns_set (nexthops (fs_heap (nd_fib nd) e)) \<and>
       permitted (ct_lookup (op_ct E) (nd_table nd)) (policy (fs_heap (nd_fib nd) e)) (ingressConnectionId m) c)"
proof -
  note k = fib_kept_refl[OF nd]
  from choice_ok[OF fib_kept_entry[OF k], of "op_st E" "op_ct E" "nd_table nd" rnd e m b] obtain hops fe where
    1: "fibEntry_GetNexthopsFromForwardingStrategy (op_st E) (op_ct E) (nd_table nd) rnd (fs_heap (nd_fib nd) e) m b = Inr (hops, fe)"
    "fe = (fs_heap (nd_fib nd) e)\<lparr>fwdStrategy := fwdStrategy fe, pcounters := pcounters fe\<rparr>" "fe_inv fe" "ns_inv hops" "length (ns_items hops) \<le> 1"
    "\<forall>c\<in>ns_set hops. c \<in> ns_set (considered_nexthops (op_ct E) (nd_table nd) (fs_heap (nd_fib nd) e) (message_GetIngressConnectionId m)) \<and>
       permitted (ct_lookup (op_ct E) (nd_table nd)) (policy (fs_heap (nd_fib nd) e)) (message_GetIngressConnectionId m) c" by blast
  have "fe_name fe = fe_name (fs_heap (nd_fib nd) e)" "nexthops fe = nexthops (fs_heap (nd_fib nd) e)" "policy fe = policy (fs_heap (nd_fib nd) e)"
    by (subst 1(2), simp)+
  then have "fib_kept (nd_fib nd) (fs_put (nd_fib nd) e fe)" using fib_kept_put[OF k] 1(3) by (simp add: fe_inv_def)
  then show ?thesis using 1(1,4,5,6) m by (simp add: considered_nexthops_def message_GetIngressConnectionId_def)
qed

lemma probe_stage:
  assumes m: "w_msgs (nd_world nd) r = Some m" and c: "ct_lookup (op_ct E) (nd_table nd) (ingressConnectionId m) \<noteq> None"
    and hops: "ns_inv (nexthops fe)"
  shows "\<exists>b w. (if messageHandler_IsAProbe (messageHead m)
                   then (let hops = fibEntry_GetNexthops fe in
                         probe_loop E nd r (message_GetIngressConnectionId m) hops [0..<numberSet_Length hops])
                   else Inr (False, nd)) = Inr (b, nd\<lparr>nd_world := w\<rparr>) \<and> (\<not> b \<longrightarrow> w = nd_world nd) \<and>
    w_hdrs w = w_hdrs (nd_world nd) \<and> trace w = trace (nd_world nd)"
proof (cases "messageHandler_IsAProbe (messageHead m)")
  case True
  have "\<forall>i\<in>set [0..<numberSet_Length (nexthops fe)]. i < length (ns_items (nexthops fe))" using Length_items[OF hops] by simp
  from probe_loop_ok[OF m c hops this] True show ?thesis
    by (simp add: Let_def fibEntry_GetNexthops_def message_GetIngressConnectionId_def)
next
  case False
  then show ?thesis by (intro exI[of _ False] exI[of _ "nd_world nd"]) simp
qed

text \<open>The last stage, for an interest that is not answered as a probe.\<close>

lemma strategy_stage:
  assumes E: "env_ok H ok es E" and nd: "node_ok H ok es E nd" and r: "ready H E nd r n" and m: "w_msgs (nd_world nd) r = Some m"
    and e: "lpm_lookup (fs_entry (nd_fib nd)) (nb_bits (name_bv n)) = Some e" and ref: "hct_Get (op_pit E) (pit_table (nd_pit nd)) n = Some ref"
  shows "\<exists>hops fe e1 e2 k nd'.
    fibEntry_GetNexthopsFromForwardingStrategy (op_st E) (op_ct E) (nd_table nd) rnd (fs_heap (nd_fib nd) e) m b = Inr (hops, fe) \<and>
    ns_for hops (\<lambda>pitEntry c. Inr (pitEntry_AddEgressId pitEntry c)) (pitEntry_AddFibEntry (pitEntry_Acquire (pit_heap (nd_pit nd) ref)) e) = Inr e1 \<and>
    pitEntry_Release e1 = Inr e2 \<and>
    messageProcessor_ForwardToNexthops E (nd\<lparr>nd_pit := pit_set_entry (nd_pit nd) ref e2, nd_fib := fs_put (nd_fib nd) e fe\<rparr>) r hops = Inr (nd', k) \<and>
    node_ok H ok es E nd' \<and> framed nd nd' \<and> nd_cs nd' = nd_cs nd \<and>
    (\<forall>k. name_ok H k \<longrightarrow> pending E nd' k = pending E nd k) \<and> follows_route E nd nd' (hdr m)"
proof -
  note m' = ready_message[OF r m] and nd' = node_okD[OF nd]
  from chosen_hops[OF nd m'(5), of rnd e b] obtain hops fe where
    h: "fibEntry_GetNexthopsFromForwardingStrategy (op_st E) (op_ct E) (nd_table nd) rnd (fs_heap (nd_fib nd) e) m b = Inr (hops, fe)"
    "fib_kept (nd_fib nd) (fs_put (nd_fib nd) e fe)" "ns_inv hops" "length (ns_items hops) \<le> 1"
    "\<forall>c\<in>ns_set hops. c \<in> ns_set (nexthops (fs_heap (nd_fib nd) e)) \<and>
       permitted (ct_lookup (op_ct E) (nd_table nd)) (policy (fs_heap (nd_fib nd) e)) (ingressConnectionId m) c" by blast
  from egress_recorded[OF env_okD(1)[OF E] nd'(1) m'(2) ref h(3), of e] obtain e1 e2 where
    p: "ns_for hops (\<lambda>pitEntry c. Inr (pitEntry_AddEgressId pitEntry c)) (pitEntry_AddFibEntry (pitEntry_Acquire (pit_heap (nd_pit nd) ref)) e) = Inr e1"
    "pitEntry_Release e1 = Inr e2" "pit_inv H (op_pit E) (pit_set_entry (nd_pit nd) ref e2)"
    "\<forall>k. name_ok H k \<longrightarrow> pit_abs (op_pit E) (pit_set_entry (nd_pit nd) ref e2) k = pending E nd k" by blast
  let ?nd1 = "nd\<lparr>nd_pit := pit_set_entry (nd_pit nd) ref e2, nd_fib := fs_put (nd_fib nd) e fe\<rparr>"
  have nd1: "node_ok H ok es E ?nd1" "framed nd ?nd1" using nd p(3) h(2) by (simp_all add: node_ok_def framed_def fib_kept_def)
  have hm: "w_hdrs (nd_world ?nd1) r = Some (hdr m)" using m by (simp add: w_hdrs_def)
  from ForwardToNexthops_sends[OF nd1(1) hm h(3)] obtain nd2 k where
    2: "messageProcessor_ForwardToNexthops E ?nd1 r hops = Inr (nd2, k)" "sent_only ?nd1 nd2" "sends_to E ?nd1 nd2 (hdr m) (ns_set hops)" by blast
  note f2 = sent_only_fields[OF 2(2)]
  from 2(3) obtain out where out: "distinct out" "trace (nd_world nd2) = trace (nd_world nd) @ map (\<lambda>c. (c, hdr m)) out"
    "set out = {c \<in> ns_set hops. c \<noteq> ingressConnectionId m \<and> link_up (op_ct E) (nd_table nd) c}" by (auto simp: sends_to_def hdr_def)
  have "length out = card (set out)" using distinct_card[OF out(1)] by simp
  also have "\<dots> \<le> card (set (ns_items hops))" using out(3) by (intro card_mono) (auto simp: ns_set_def)
  also have "\<dots> \<le> 1" using card_length[of "ns_items hops"] h(4) by linarith
  finally have "length out \<le> 1" .
  then have "follows_route E nd nd2 (hdr m)"
    unfolding follows_route_def using out(2,3) h(5) e m'(1) by (intro exI[of _ out]) (auto simp: hdr_def)
  then show ?thesis using h(1) p 2(1) sent_only_node_ok[OF 2(2) nd1(1)] framed_trans[OF nd1(2) sent_only_framed[OF 2(2)]] f2(3,4)
    by (intro exI[of _ hops] exI[of _ fe] exI[of _ e1] exI[of _ e2] exI[of _ k] exI[of _ nd2]) simp
qed

lemma ForwardViaFib_ok:
  assumes E: "env_ok H ok es E" and nd: "node_ok H ok es E nd" and r: "ready H E nd r n" and m: "w_msgs (nd_world nd) r = Some m"
  shows "\<exists>b nd'. messageProcessor_ForwardViaFib E rnd nd r m v = Inr (b, nd') \<and> node_ok H ok es E nd' \<and> framed nd nd' \<and> nd_cs nd' = nd_cs nd \<and>
    (\<forall>k. name_ok H k \<longrightarrow> pending E nd' k = pending E nd k) \<and> follows_route E nd nd' (hdr m)"
proof -
  note m' = ready_message[OF r m] and nd' = node_okD[OF nd]
  have match: "fib_MatchMessage (nd_fib nd) m = Inr (lpm_lookup (fs_entry (nd_fib nd)) (nb_bits (name_bv n)))"
    using MatchName_ok[OF nd'(4) m'(3,4)] m'(1) by (simp add: fib_MatchMessage_def message_key_def message_GetName_def)
  have quiet: ?thesis if "messageProcessor_ForwardViaFib E rnd nd r m v = Inr (b, nd\<lparr>nd_world := w\<rparr>)" "w_hdrs w = w_hdrs (nd_world nd)" "trace w = trace (nd_world nd)" for b w
  proof -
    have "node_ok H ok es E (nd\<lparr>nd_world := w\<rparr>)" "framed nd (nd\<lparr>nd_world := w\<rparr>)" using nd that(2) by (simp_all add: node_ok_def framed_def)
    then show ?thesis using that(1,3) follows_nothing[of "nd\<lparr>nd_world := w\<rparr>" nd E "hdr m"] by auto
  qed
  show ?thesis
  proof (cases "lpm_lookup (fs_entry (nd_fib nd)) (nb_bits (name_bv n))")
    case None
    then show ?thesis using quiet[of False "nd_world nd"] match by (simp add: messageProcessor_ForwardViaFib_def)
  next
    case e: (Some e)
    from probe_stage[OF m m'(6) fs_ns[OF nd'(4)], of e] obtain reply w where
      p: "(if messageHandler_IsAProbe (messageHead m)
                   then (let hops = fibEntry_GetNexthops (fs_heap (nd_fib nd) e) in
                         probe_loop E nd r (message_GetIngressConnectionId m) hops [0..<numberSet_Length hops])
                   else Inr (False, nd)) = Inr (reply, nd\<lparr>nd_world := w\<rparr>)"
      "\<not> reply \<longrightarrow> w = nd_world nd" "w_hdrs w = w_hdrs (nd_world nd)" "trace w = trace (nd_world nd)" by blast
    consider (reply) reply | (gone) "\<not> reply" "hct_Get (op_pit E) (pit_table (nd_pit nd)) n = None"
      | (go) ref where "\<not> reply" "hct_Get (op_pit E) (pit_table (nd_pit nd)) n = Some ref" by blast
    then show ?thesis
    proof cases
      case reply
      then show ?thesis using quiet[OF _ p(3,4), of False] match e p(1) by (simp add: messageProcessor_ForwardViaFib_def)
    next
      case gone
      then show ?thesis using quiet[OF _ p(3,4), of False] match e p(1,2) m'(1)
        by (simp add: messageProcessor_ForwardViaFib_def pitStandard_GetPitEntry_def message_key_def message_GetName_def)
    next
      case (go ref)
      have set2: "pit_set_entry (pit_set_entry (nd_pit nd) ref x) ref y = pit_set_entry (nd_pit nd) ref y"
        "pit_heap (pit_set_entry (nd_pit nd) ref x) ref = x" for x y by (simp_all add: pit_set_entry_def)
      from strategy_stage[OF E nd r m e go(2), of rnd "v \<noteq> PITVerdict_Forward"] obtain hops fe e1 e2 k nd' where
        s: "fibEntry_GetNexthopsFromForwardingStrategy (op_st E) (op_ct E) (nd_table nd) rnd (fs_heap (nd_fib nd) e) m (v \<noteq> PITVerdict_Forward) = Inr (hops, fe)"
        "ns_for hops (\<lambda>pitEntry c. Inr (pitEntry_AddEgressId pitEntry c)) (pitEntry_AddFibEntry (pitEntry_Acquire (pit_heap (nd_pit nd) ref)) e) = Inr e1"
        "pitEntry_Release e1 = Inr e2"
        "messageProcessor_ForwardToNexthops E (nd\<lparr>nd_pit := pit_set_entry (nd_pit nd) ref e2, nd_fib := fs_put (nd_fib nd) e fe\<rparr>) r hops = Inr (nd', k)"
        and ok: "node_ok H ok es E nd' \<and> framed nd nd' \<and> nd_cs nd' = nd_cs nd \<and>
          (\<forall>k. name_ok H k \<longrightarrow> pending E nd' k = pending E nd k) \<and> follows_route E nd nd' (hdr m)" by blast
      have "messageProcessor_ForwardViaFib E rnd nd r m v = Inr (k > 0, nd')"
        using match e p(1,2) go m'(1) s
        by (simp add: messageProcessor_ForwardViaFib_def pitStandard_GetPitEntry_def message_key_def message_GetName_def Let_def set2 del: bind_res_eq_Inr)
      then show ?thesis using ok by blast
    qed
  qed
qed

lemma permitted_tags: "tags p = tags q \<Longrightarrow> permitted look p i c = permitted look q i c"
  by (simp add: permitted_def allowed_def)

lemma follows_framed:
  assumes "framed nd nd1" "nd_world nd1 = nd_world nd" "follows_route E nd1 nd2 h"
  shows "follows_route E nd nd2 h"
proof -
  have f: "nd_table nd1 = nd_table nd" "fs_entry (nd_fib nd1) = fs_entry (nd_fib nd)" "\<And>e. nexthops (fs_heap (nd_fib nd1) e) = nexthops (fs_heap (nd_fib nd) e)"
    "\<And>e. tags (policy (fs_heap (nd_fib nd1) e)) = tags (policy (fs_heap (nd_fib nd) e))"
    using assms(1) by (simp_all add: framed_def same_entries_def)
  show ?thesis using assms(3) by (simp add: follows_route_def f(1-3) assms(2) permitted_tags[OF f(4)])
qed

lemma sends_framed:
  assumes "framed nd nd1" "trace (nd_world nd1) = trace (nd_world nd)" "sends_to E nd1 nd2 h S"
  shows "sends_to E nd nd2 h S"
  using assms by (simp add: sends_to_def framed_def)

text \<open>Counters do not matter.\<close>

lemma counters_irrelevant [simp]:
  "node_ok H ok es E (nd\<lparr>nd_stats := s\<rparr>) = node_ok H ok es E nd" "framed (nd\<lparr>nd_stats := s\<rparr>) nd' = framed nd nd'"
  "framed nd' (nd\<lparr>nd_stats := s\<rparr>) = framed nd' nd" "ready H E (nd\<lparr>nd_stats := s\<rparr>) r n = ready H E nd r n"
  "sends_to E (nd\<lparr>nd_stats := s\<rparr>) nd' h S = sends_to E nd nd' h S" "sends_to E nd' (nd\<lparr>nd_stats := s\<rparr>) h S = sends_to E nd' nd h S"
  "follows_route E (nd\<lparr>nd_stats := s\<rparr>) nd' h = follows_route E nd nd' h" "follows_route E nd' (nd\<lparr>nd_stats := s\<rparr>) h = follows_route E nd' nd h"
  by (simp_all add: node_ok_def framed_def ready_def sends_to_def follows_route_def)

lemma Drop_stats: "\<exists>s. messageProcessor_Drop (nd\<lparr>nd_stats := z\<rparr>) m = nd\<lparr>nd_stats := s\<rparr>"
  by (auto simp: messageProcessor_Drop_def Let_def)

text \<open>
  What an interest does to a node: it is aggregated, answered from the content store or sent on. The
  pending interests of other names are as before.
\<close>

definition interest_effect ::
  "hash_fun \<Rightarrow> ('d, 't, 'l, 'pt, 'ch, 'ct, 'i, 'p, 'o) node_ops \<Rightarrow> ticks \<Rightarrow> ('d, 't, 'l, 'pt, 'ch, 'ct, 'i, 'p, 'o) node \<Rightarrow>
   Message \<Rightarrow> Name \<Rightarrow> ('d, 't, 'l, 'pt, 'ch, 'ct, 'i, 'p, 'o) node \<Rightarrow> bool" where
  "interest_effect H E now nd m n nd' \<longleftrightarrow>
     (\<forall>k. name_ok H k \<and> \<not> name_Equals n k \<longrightarrow> pending E nd' k = pending E nd k) \<and>
     (case spec_interest now (message_GetInterestLifetimeTicks m) (ingressConnectionId m) (pending E nd n) of (v, st) \<Rightarrow>
        if v = PITVerdict_Aggregate
        then trace (nd_world nd') = trace (nd_world nd) \<and> pending E nd' n = Some st \<and> cs_items (nd_cs nd') = cs_items (nd_cs nd)
        else
          (case (if serve_from_cache nd then spec_match now n (cs_items (nd_cs nd)) else (cs_items (nd_cs nd), None)) of
             (L, None) \<Rightarrow> cs_items (nd_cs nd') = L \<and> pending E nd' n = Some st \<and> follows_route E nd nd' (hdr m)
           | (L, Some obj) \<Rightarrow> cs_items (nd_cs nd') = L \<and> pending E nd' n = None \<and>
               (\<exists>h. w_hdrs (nd_world nd) obj = Some h \<and> fst (snd h) = MessagePacketType_ContentObject \<and>
                  sends_to E nd nd' h (spec_satisfy now (Some st)))))"

lemma Interest_ok:
  assumes E: "env_ok H ok es E" and nd: "node_ok H ok es E nd" and r: "ready H E nd r n" and m: "w_msgs (nd_world nd) r = Some m"
    and t: "message_GetType m = MessagePacketType_Interest"
  shows "\<exists>nd'. messageProcessor_ReceiveInterest E now rnd nd r m = Inr nd' \<and> node_ok H ok es E nd' \<and> framed nd nd' \<and> interest_effect H E now nd m n nd'"
proof -
  note m' = ready_message[OF r m]
  have nn: "name_Equals n n" using m'(2) by simp
  let ?nd0 = "nd\<lparr>nd_stats := (nd_stats nd)\<lparr>countInterestsReceived := countInterestsReceived (nd_stats nd) + 1\<rparr>\<rparr>"
  have nd0: "node_ok H ok es E ?nd0" using nd by simp
  from Aggregate_ok[OF E nd0 m'(1,2), of now r] obtain v st nd1 where
    1: "messageProcessor_AggregateInterestInPit E now ?nd0 r m = Inr (verdict_of_bool (v = PITVerdict_Aggregate), nd1)"
    "(v, st) = spec_interest now (message_GetInterestLifetimeTicks m) (ingressConnectionId m) (pending E ?nd0 n)"
    "node_ok H ok es E nd1" "framed ?nd0 nd1" "nd_world nd1 = nd_world ?nd0" "nd_cs nd1 = nd_cs ?nd0"
    "\<forall>k. name_ok H k \<longrightarrow> pending E nd1 k = (if name_Equals n k then Some st else pending E ?nd0 k)" by blast
  have spec: "spec_interest now (message_GetInterestLifetimeTicks m) (ingressConnectionId m) (pending E nd n) = (v, st)"
    and n1: "node_ok H ok es E nd1" "framed nd nd1" "nd_world nd1 = nd_world nd" "nd_cs nd1 = nd_cs nd"
    and p1: "\<forall>k. name_ok H k \<longrightarrow> pending E nd1 k = (if name_Equals n k then Some st else pending E nd k)"
    using 1(2-) by simp_all
  note 1 = 1(1)
  have pn: "pending E nd1 n = Some st" using p1 m'(2) nn by simp
  show ?thesis
  proof (cases "v = PITVerdict_Aggregate")
    case True
    then show ?thesis using 1 n1 p1 pn spec by (simp add: messageProcessor_ReceiveInterest_def interest_effect_def Let_def)
  next
    case False
    obtain L found where L: "(L, found) = (if serve_from_cache nd1 then spec_match now n (cs_items (nd_cs nd1)) else (cs_items (nd_cs nd1), None))"
      by (metis prod.exhaust)
    have L': "(if serve_from_cache nd then spec_match now n (cs_items (nd_cs nd)) else (cs_items (nd_cs nd), None)) = (L, found)"
      using L n1(2,4) by (simp add: framed_def)
    from satisfyFromContentStore_ok[OF E n1(1) t m'(1,2) L] obtain nd2 where
      2: "satisfyFromContentStore E now nd1 m = Inr (found \<noteq> None, nd2)" "node_ok H ok es E nd2" "framed nd1 nd2" "cs_items (nd_cs nd2) = L"
      and c: "case found of None \<Rightarrow> nd_world nd2 = nd_world nd1 \<and> nd_pit nd2 = nd_pit nd1
        | Some obj \<Rightarrow> (\<exists>h. w_hdrs (nd_world nd1) obj = Some h \<and> fst (snd h) = MessagePacketType_ContentObject \<and>
            sends_to E nd1 nd2 h (spec_satisfy now (pending E nd1 n))) \<and>
            (\<forall>k. name_ok H k \<longrightarrow> pending E nd2 k = (if name_Equals n k then None else pending E nd1 k))" by blast
    note f2 = framed_trans[OF n1(2) 2(3)]
    show ?thesis
    proof (cases found)
      case (Some obj)
      then obtain h where h: "w_hdrs (nd_world nd) obj = Some h" "fst (snd h) = MessagePacketType_ContentObject"
        "sends_to E nd nd2 h (spec_satisfy now (Some st))" using c pn n1(3) sends_framed[OF n1(2), of E nd2] by auto
      have p: "pending E nd2 n = None" "\<forall>k. name_ok H k \<and> \<not> name_Equals n k \<longrightarrow> pending E nd2 k = pending E nd k"
        using c Some p1 m'(2) nn by simp_all
      have "interest_effect H E now nd m n nd2" unfolding interest_effect_def using p h 2(4) L' Some False spec by (cases h) auto
      then show ?thesis using False 1 2(1,2) f2 Some by (simp add: messageProcessor_ReceiveInterest_def Let_def)
    next
      case None
      have w2: "nd_world nd2 = nd_world nd" and pit2: "nd_pit nd2 = nd_pit nd1" using c None n1(3) by simp_all
      from ForwardViaFib_ok[OF E 2(2) framed_ready[OF f2 r], of m rnd PITVerdict_Forward] m w2 obtain b nd3 where
        3: "messageProcessor_ForwardViaFib E rnd nd2 r m PITVerdict_Forward = Inr (b, nd3)" "node_ok H ok es E nd3" "framed nd2 nd3" "nd_cs nd3 = nd_cs nd2"
        "\<forall>k. name_ok H k \<longrightarrow> pending E nd3 k = pending E nd2 k" "follows_route E nd2 nd3 (hdr m)" by auto
      let ?nd4 = "if b then nd3 else messageProcessor_Drop (nd3\<lparr>nd_stats := (nd_stats nd3)\<lparr>countDroppedNoRoute := countDroppedNoRoute (nd_stats nd3) + 1\<rparr>\<rparr>) m"
      obtain s where s: "?nd4 = nd3\<lparr>nd_stats := s\<rparr>" using Drop_stats[where nd = nd3 and m = m] by (cases b) (auto intro: that[of "nd_stats nd3"])
      have run: "messageProcessor_ReceiveInterest E now rnd nd r m = Inr ?nd4"
        using False 1 2(1) None 3(1) by (cases b) (simp_all add: messageProcessor_ReceiveInterest_def Let_def del: bind_res_eq_Inr)
      have "follows_route E nd nd3 (hdr m)" using follows_framed[OF f2 w2 3(6)] .
      moreover have "pending E nd3 n = Some st" "\<forall>k. name_ok H k \<and> \<not> name_Equals n k \<longrightarrow> pending E nd3 k = pending E nd k"
        using 3(5) pit2 pn p1 m'(2) by simp_all
      ultimately have "interest_effect H E now nd m n (nd3\<lparr>nd_stats := s\<rparr>)"
        unfolding interest_effect_def using 2(4) 3(4) L' None False spec by auto
      then show ?thesis using run 3(2) framed_trans[OF f2 3(3)] unfolding s by simp
    qed
  qed
qed

lemma spec_put_subset: "set (fst (spec_put cap now it L)) \<subseteq> insert it (set L)"
proof -
  have "set (spec_del n L) \<subseteq> set L" for n by (auto simp: spec_del_def)
  moreover have "set (spec_evict now (spec_del n L)) \<subseteq> set (spec_del n L)" for n by (rule spec_evict_subset)
  ultimately show ?thesis by (auto simp: spec_put_def Let_def split: prod.splits option.splits if_splits)
qed

lemma cached_put: "cached H hs L \<Longrightarrow> cached H hs [it] \<Longrightarrow> cached H hs (fst (spec_put cap now it L))"
  using spec_put_subset[of cap now it L] unfolding cached_def by auto

text \<open>Storing a received data message.\<close>

lemma store_ok:
  assumes E: "env_ok H ok es E" and nd: "node_ok H ok es E nd" and r: "ready H E nd r n" and m: "w_msgs (nd_world nd) r = Some m"
    and t: "message_GetType m = MessagePacketType_ContentObject"
  shows "\<exists>nd'. (if b then bind_res (contentStoreLRU_PutContent (op_cs E) (nd_cs nd) r m now) (\<lambda>(store, _). Inr (nd\<lparr>nd_cs := store\<rparr>)) else Inr nd) = Inr nd' \<and>
    node_ok H ok es E nd' \<and> framed nd nd' \<and> nd_world nd' = nd_world nd \<and> nd_pit nd' = nd_pit nd \<and>
    cs_items (nd_cs nd') = (if b then fst (spec_put (unat (objectCapacity (nd_cs nd))) now (item_of r m n) (cs_items (nd_cs nd))) else cs_items (nd_cs nd))"
proof (cases b)
  case True
  note m' = ready_message[OF r m]
  have h: "w_hdrs (nd_world nd) r = Some (Some n, MessagePacketType_ContentObject, ingressConnectionId m)"
    using m m'(1) t by (simp add: w_hdrs_def hdr_def message_GetType_def)
  then have "hname (w_hdrs (nd_world nd)) r = Some n" by (simp add: hname_def)
  from Put_ok[OF env_okD(2)[OF E] node_okD(2)[OF nd] t m'(1,2) this, of now] obtain s b' where
    s: "contentStoreLRU_PutContent (op_cs E) (nd_cs nd) r m now = Inr (s, b')" "cs_inv H (hname (w_hdrs (nd_world nd))) ok es (op_cs E) s"
    "cs_items s = fst (spec_put (unat (objectCapacity (nd_cs nd))) now (item_of r m n) (cs_items (nd_cs nd)))" by (metis fst_conv)
  have "cached H (w_hdrs (nd_world nd)) [item_of r m n]" using h m'(2) by (simp add: cached_def item_of_def)
  then have "cached H (w_hdrs (nd_world nd)) (cs_items s)" unfolding s(3) by (rule cached_put[OF node_okD(3)[OF nd]])
  then show ?thesis using True s nd by (simp add: node_ok_def framed_def)
qed (use nd in simp)

definition data_effect ::
  "hash_fun \<Rightarrow> ('d, 't, 'l, 'pt, 'ch, 'ct, 'i, 'p, 'o) node_ops \<Rightarrow> ticks \<Rightarrow> ('d, 't, 'l, 'pt, 'ch, 'ct, 'i, 'p, 'o) node \<Rightarrow>
   mref \<Rightarrow> Message \<Rightarrow> Name \<Rightarrow> ('d, 't, 'l, 'pt, 'ch, 'ct, 'i, 'p, 'o) node \<Rightarrow> bool" where
  "data_effect H E now nd r m n nd' \<longleftrightarrow>
     sends_to E nd nd' (hdr m) (spec_satisfy now (pending E nd n)) \<and>
     (\<forall>k. name_ok H k \<longrightarrow> pending E nd' k = (if name_Equals n k then None else pending E nd k)) \<and>
     cs_items (nd_cs nd') =
       (if store_in_cache nd \<and> (spec_satisfy now (pending E nd n) \<noteq> {} \<or> is_local (ct_lookup (op_ct E) (nd_table nd)) (ingressConnectionId m))
        then fst (spec_put (unat (objectCapacity (nd_cs nd))) now (item_of r m n) (cs_items (nd_cs nd)))
        else cs_items (nd_cs nd))"

lemma no_low_latency:
  assumes nd: "node_ok H ok es E nd" and r: "ready H E nd r n" and m: "w_msgs (nd_world nd) r = Some m"
  shows "(if messageHandler_IsAProbe (messageHead m)
                   then bind_res (fib_MatchMessage (nd_fib nd) m) (\<lambda>matched.
                        case matched of
                          None \<Rightarrow> Inr nd
                        | Some e \<Rightarrow>
                            if fibEntry_GetFwdStrategyType (fs_heap (nd_fib nd) e) = SET_STRATEGY_LOW_LATENCY
                            then (let outFace = fst (numberSet_Add numberSet_Create (message_GetIngressConnectionId m)) in
                                  bind_res (pit_receive_object E (nd_table nd) (nd_fib nd) e outFace m 0 now) (\<lambda>fib.
                                  Inr (nd\<lparr>nd_fib := fib\<rparr>)))
                            else Inr nd)
                   else Inr nd) = Inr nd"
proof -
  note m' = ready_message[OF r m]
  have "fib_MatchMessage (nd_fib nd) m = Inr (lpm_lookup (fs_entry (nd_fib nd)) (nb_bits (name_bv n)))"
    using MatchName_ok[OF node_okD(4)[OF nd] m'(3,4)] m'(1) by (simp add: fib_MatchMessage_def message_key_def message_GetName_def)
  moreover have "fibEntry_GetFwdStrategyType (fs_heap (nd_fib nd) e) \<noteq> SET_STRATEGY_LOW_LATENCY" for e
    using node_okD(5)[OF nd] by (cases "fwdStrategy (fs_heap (nd_fib nd) e)") (auto simp: fs_modelled_def fibEntry_GetFwdStrategyType_def dest: spec[of _ e])
  ultimately show ?thesis by (simp split: option.split)
qed

lemma Data_ok:
  assumes E: "env_ok H ok es E" and nd: "node_ok H ok es E nd" and r: "ready H E nd r n" and m: "w_msgs (nd_world nd) r = Some m"
    and t: "message_GetType m = MessagePacketType_ContentObject"
  shows "\<exists>nd'. messageProcessor_ReceiveContentObject E now nd r m = Inr nd' \<and> node_ok H ok es E nd' \<and> framed nd nd' \<and> data_effect H E now nd r m n nd'"
proof -
  note m' = ready_message[OF r m]
  let ?nd0 = "nd\<lparr>nd_stats := (nd_stats nd)\<lparr>countObjectsReceived := countObjectsReceived (nd_stats nd) + 1\<rparr>\<rparr>"
  have nd0: "node_ok H ok es E ?nd0" using nd by simp
  from nd_Satisfy_ok[OF E nd0 m'(1,2), of now] obtain s nd1 where
    1: "nd_SatisfyInterest E now ?nd0 m = Inr (s, nd1)" "node_ok H ok es E nd1" "framed ?nd0 nd1" "nd_world nd1 = nd_world ?nd0"
    "nd_cs nd1 = nd_cs ?nd0" "ns_inv s" "ns_set s = spec_satisfy now (pending E ?nd0 n)"
    "\<forall>k. name_ok H k \<longrightarrow> pending E nd1 k = (if name_Equals n k then None else pending E ?nd0 k)" by blast
  have f1: "framed nd nd1" and w1: "nd_world nd1 = nd_world nd" and cs1: "nd_cs nd1 = nd_cs nd" and s: "ns_set s = spec_satisfy now (pending E nd n)"
    and p1: "\<forall>k. name_ok H k \<longrightarrow> pending E nd1 k = (if name_Equals n k then None else pending E nd k)" using 1(3-5,7,8) by simp_all
  have flag: "store_in_cache nd1 = store_in_cache nd" "nd_table nd1 = nd_table nd" using f1 by (simp_all add: framed_def)
  have r1: "ready H E nd1 r n" "w_msgs (nd_world nd1) r = Some m" using framed_ready[OF f1 r] w1 m by simp_all
  have len: "numberSet_Length s = 0 \<longleftrightarrow> spec_satisfy now (pending E nd n) = {}" using s Length_items[OF 1(6)] by (auto simp: ns_set_def)
  show ?thesis
  proof (cases "spec_satisfy now (pending E nd n) = {}")
    case True
    let ?nd2 = "nd1\<lparr>nd_stats := (nd_stats nd1)\<lparr>countDroppedNoReversePath := countDroppedNoReversePath (nd_stats nd1) + 1\<rparr>\<rparr>"
    have 2: "node_ok H ok es E ?nd2" "ready H E ?nd2 r n" "w_msgs (nd_world ?nd2) r = Some m" using 1(2) r1 by simp_all
    obtain conn where conn: "ct_lookup (op_ct E) (nd_table nd) (ingressConnectionId m) = Some conn" using m'(6) by blast
    let ?b = "store_in_cache nd \<and> connection_IsLocal conn"
    from store_ok[OF E 2 t, of ?b now] obtain nd3 where
      3: "(if ?b then bind_res (contentStoreLRU_PutContent (op_cs E) (nd_cs ?nd2) r m now) (\<lambda>(store, _). Inr (?nd2\<lparr>nd_cs := store\<rparr>)) else Inr ?nd2) = Inr nd3"
      "node_ok H ok es E nd3" "framed ?nd2 nd3" "nd_world nd3 = nd_world ?nd2" "nd_pit nd3 = nd_pit ?nd2"
      "cs_items (nd_cs nd3) = (if ?b then fst (spec_put (unat (objectCapacity (nd_cs ?nd2))) now (item_of r m n) (cs_items (nd_cs ?nd2))) else cs_items (nd_cs ?nd2))" by blast
    obtain st where st: "messageProcessor_Drop nd3 m = nd3\<lparr>nd_stats := st\<rparr>" using Drop_stats[where nd = nd3 and z = "nd_stats nd3" and m = m] by auto
    have run: "messageProcessor_ReceiveContentObject E now nd r m = Inr (messageProcessor_Drop nd3 m)"
      using 1(1) len True conn flag 3(1)[unfolded node.simps] no_low_latency[OF 2]
      by (simp add: messageProcessor_ReceiveContentObject_def Let_def message_GetIngressConnectionId_def del: bind_res_eq_Inr)
    have "is_local (ct_lookup (op_ct E) (nd_table nd)) (ingressConnectionId m) = connection_IsLocal conn" using conn by (simp add: is_local_def)
    then have "data_effect H E now nd r m n (nd3\<lparr>nd_stats := st\<rparr>)"
      using 3(4-6) True p1 w1 cs1 by (simp add: data_effect_def sends_to_def)
    then show ?thesis using run[unfolded st] 3(2,3) framed_trans[OF f1] by simp
  next
    case False
    from store_ok[OF E 1(2) r1 t, of "store_in_cache nd" now] obtain nd3 where
      3: "(if store_in_cache nd then bind_res (contentStoreLRU_PutContent (op_cs E) (nd_cs nd1) r m now) (\<lambda>(store, _). Inr (nd1\<lparr>nd_cs := store\<rparr>)) else Inr nd1) = Inr nd3"
      "node_ok H ok es E nd3" "framed nd1 nd3" "nd_world nd3 = nd_world nd1" "nd_pit nd3 = nd_pit nd1"
      "cs_items (nd_cs nd3) = (if store_in_cache nd then fst (spec_put (unat (objectCapacity (nd_cs nd1))) now (item_of r m n) (cs_items (nd_cs nd1))) else cs_items (nd_cs nd1))" by blast
    note f3 = framed_trans[OF f1 3(3)]
    have h: "w_hdrs (nd_world nd3) r = Some (hdr m)" using 3(4) w1 m by (simp add: w_hdrs_def)
    from ForwardToNexthops_sends[OF 3(2) h 1(6)] obtain nd4 k where
      4: "messageProcessor_ForwardToNexthops E nd3 r s = Inr (nd4, k)" "sent_only nd3 nd4" "sends_to E nd3 nd4 (hdr m) (ns_set s)" by blast
    have run: "messageProcessor_ReceiveContentObject E now nd r m = Inr nd4"
      using 1(1) len False flag 3(1) 4(1) by (simp add: messageProcessor_ReceiveContentObject_def Let_def del: bind_res_eq_Inr)
    have "sends_to E nd nd4 (hdr m) (spec_satisfy now (pending E nd n))" using sends_framed[OF f3 _ 4(3)] 3(4) w1 s by simp
    then have "data_effect H E now nd r m n nd4"
      using sent_only_fields(3,4)[OF 4(2)] 3(5,6) p1 cs1 False by (simp add: data_effect_def)
    then show ?thesis using run sent_only_node_ok[OF 4(2) 3(2)] framed_trans[OF f3 sent_only_framed[OF 4(2)]] by blast
  qed
qed

section \<open>Receiving messages\<close>

text \<open>A message that may be received: interests and data messages are named and come from a connection of the table.\<close>

definition receivable ::
  "hash_fun \<Rightarrow> ('d, 't, 'l, 'pt, 'ch, 'ct, 'i, 'p, 'o) node_ops \<Rightarrow> ('d, 't, 'l, 'pt, 'ch, 'ct, 'i, 'p, 'o) node \<Rightarrow> mref \<Rightarrow> bool" where
  "receivable H E nd r \<longleftrightarrow>
     (case w_hdrs (nd_world nd) r of
        None \<Rightarrow> False
      | Some (nm, t, c) \<Rightarrow> t \<in> {MessagePacketType_Interest, MessagePacketType_ContentObject} \<longrightarrow>
          (case nm of None \<Rightarrow> False | Some n \<Rightarrow> ready H E nd r n))"

lemma receivable_framed: "framed nd nd' \<Longrightarrow> receivable H E nd' r = receivable H E nd r"
  by (auto simp: receivable_def framed_def ready_def split: option.splits)

text \<open>One step: what a message of each kind does.\<close>

definition receive_effect ::
  "hash_fun \<Rightarrow> ('d, 't, 'l, 'pt, 'ch, 'ct, 'i, 'p, 'o) node_ops \<Rightarrow> ticks \<Rightarrow> ('d, 't, 'l, 'pt, 'ch, 'ct, 'i, 'p, 'o) node \<Rightarrow>
   mref \<Rightarrow> Message \<Rightarrow> ('d, 't, 'l, 'pt, 'ch, 'ct, 'i, 'p, 'o) node \<Rightarrow> bool" where
  "receive_effect H E now nd r m nd' \<longleftrightarrow>
     (case message_GetType m of
        MessagePacketType_Interest \<Rightarrow> interest_effect H E now nd m (the (msg_name m)) nd'
      | MessagePacketType_ContentObject \<Rightarrow> data_effect H E now nd r m (the (msg_name m)) nd'
      | _ \<Rightarrow> nd' = nd\<lparr>nd_stats := nd_stats nd'\<rparr>)"

lemma Receive_ok:
  assumes E: "env_ok H ok es E" and nd: "node_ok H ok es E nd" and r: "receivable H E nd r" and m: "w_msgs (nd_world nd) r = Some m"
  shows "\<exists>nd'. messageProcessor_Receive E now rnd nd r = Inr nd' \<and> node_ok H ok es E nd' \<and> framed nd nd' \<and> receive_effect H E now nd r m nd'"
proof -
  let ?nd0 = "nd\<lparr>nd_stats := (nd_stats nd)\<lparr>countReceived := countReceived (nd_stats nd) + 1\<rparr>\<rparr>"
  have 0: "node_ok H ok es E ?nd0" "w_msgs (nd_world ?nd0) r = Some m" using nd m by simp_all
  have named: "\<exists>n. msg_name m = Some n \<and> ready H E ?nd0 r n" if "message_GetType m \<in> {MessagePacketType_Interest, MessagePacketType_ContentObject}"
    using r that m by (auto simp: receivable_def w_hdrs_def hdr_def message_GetType_def split: option.splits)
  have c: "interest_effect H E now ?nd0 m n nd' = interest_effect H E now nd m n nd'" "data_effect H E now ?nd0 r m n nd' = data_effect H E now nd r m n nd'" for n nd'
    by (simp add: interest_effect_def) (auto simp: data_effect_def)
  consider (I) "message_GetType m = MessagePacketType_Interest" | (D) "message_GetType m = MessagePacketType_ContentObject"
    | (other) "message_GetType m \<notin> {MessagePacketType_Interest, MessagePacketType_ContentObject}" by blast
  then show ?thesis
  proof cases
    case I
    then obtain n where n: "msg_name m = Some n" "ready H E ?nd0 r n" using named by auto
    from Interest_ok[OF E 0(1) n(2) 0(2) I, of now rnd] show ?thesis using I n(1) m c(1)
      by (auto simp: messageProcessor_Receive_def deref_def Let_def receive_effect_def)
  next
    case D
    then obtain n where n: "msg_name m = Some n" "ready H E ?nd0 r n" using named by auto
    from Data_ok[OF E 0(1) n(2) 0(2) D, of now] show ?thesis using D n(1) m c(2)
      by (auto simp: messageProcessor_Receive_def deref_def Let_def receive_effect_def)
  next
    case other
    obtain st where st: "messageProcessor_Drop ?nd0 m = nd\<lparr>nd_stats := st\<rparr>" using Drop_stats by blast
    have "messageProcessor_Receive E now rnd nd r = Inr (messageProcessor_Drop ?nd0 m)"
      using other m by (cases "message_GetType m") (simp_all add: messageProcessor_Receive_def deref_def Let_def)
    moreover have "receive_effect H E now nd r m (nd\<lparr>nd_stats := st\<rparr>)"
      using other by (cases "message_GetType m") (simp_all add: receive_effect_def)
    ultimately show ?thesis using nd unfolding st by simp
  qed
qed

text \<open>A run: messages received one after the other, each with the clock and the random number of its reception.\<close>

fun node_run ::
  "('d, 't, 'l, 'pt, 'ch, 'ct, 'i, 'p, 'o) node_ops \<Rightarrow> ('d, 't, 'l, 'pt, 'ch, 'ct, 'i, 'p, 'o) node \<Rightarrow> (ticks \<times> nat \<times> mref) list \<Rightarrow>
     ('d, 't, 'l, 'pt, 'ch, 'ct, 'i, 'p, 'o) node res" where
  "node_run E nd [] = Inr nd"
| "node_run E nd ((now, rnd, r) # xs) = bind_res (messageProcessor_Receive E now rnd nd r) (\<lambda>nd. node_run E nd xs)"

lemma receivable_message: "receivable H E nd r \<Longrightarrow> \<exists>m. w_msgs (nd_world nd) r = Some m"
  by (auto simp: receivable_def w_hdrs_def split: option.splits)

text \<open>A message of another name leaves a pending interest alone.\<close>

lemma other_name_keeps:
  assumes "receive_effect H E now nd r m nd'" "name_ok H n" "\<And>k. msg_name m = Some k \<Longrightarrow> \<not> name_Equals k n"
    and "message_GetType m \<in> {MessagePacketType_Interest, MessagePacketType_ContentObject} \<Longrightarrow> msg_name m \<noteq> None"
  shows "pending E nd' n = pending E nd n"
proof (cases "message_GetType m \<in> {MessagePacketType_Interest, MessagePacketType_ContentObject}")
  case True
  then obtain k where "msg_name m = Some k" "\<not> name_Equals k n" using assms(3,4) by blast
  then show ?thesis using True assms(1,2) by (auto simp: receive_effect_def interest_effect_def data_effect_def)
next
  case False
  then have eq: "nd' = nd\<lparr>nd_stats := nd_stats nd'\<rparr>" using assms(1) by (cases "message_GetType m") (simp_all add: receive_effect_def)
  show ?thesis by (subst eq) simp
qed

lemma node_run_ok:
  assumes E: "env_ok H ok es E" and n: "name_ok H n"
    and nd: "node_ok H ok es E nd" "\<forall>(now, rnd, r)\<in>set xs. receivable H E nd r"
  shows "\<exists>nd'. node_run E nd xs = Inr nd' \<and> node_ok H ok es E nd' \<and> framed nd nd' \<and>
    ((\<forall>(now, rnd, r)\<in>set xs. \<forall>k. hname (w_hdrs (nd_world nd)) r = Some k \<longrightarrow> \<not> name_Equals k n) \<longrightarrow> pending E nd' n = pending E nd n)"
  using nd
proof (induction xs arbitrary: nd)
  case (Cons x xs)
  obtain now rnd r where x: "x = (now, rnd, r)" by (metis prod_cases3)
  have r: "receivable H E nd r" using Cons.prems(2) x by simp
  then obtain m where m: "w_msgs (nd_world nd) r = Some m" using receivable_message by blast
  from Receive_ok[OF E Cons.prems(1) r m, of now rnd] obtain nd1 where
    1: "messageProcessor_Receive E now rnd nd r = Inr nd1" "node_ok H ok es E nd1" "framed nd nd1" "receive_effect H E now nd r m nd1" by blast
  have "\<forall>(now, rnd, r)\<in>set xs. receivable H E nd1 r" using Cons.prems(2) receivable_framed[OF 1(3), of H E] by auto
  from Cons.IH[OF 1(2) this] obtain nd2 where
    2: "node_run E nd1 xs = Inr nd2" "node_ok H ok es E nd2" "framed nd1 nd2"
    "(\<forall>(now, rnd, r)\<in>set xs. \<forall>k. hname (w_hdrs (nd_world nd1)) r = Some k \<longrightarrow> \<not> name_Equals k n) \<longrightarrow> pending E nd2 n = pending E nd1 n" by blast
  have w: "w_hdrs (nd_world nd1) = w_hdrs (nd_world nd)" using 1(3) by (simp add: framed_def)
  have keep: "pending E nd1 n = pending E nd n" if "\<forall>k. hname (w_hdrs (nd_world nd)) r = Some k \<longrightarrow> \<not> name_Equals k n"
  proof (rule other_name_keeps[OF 1(4) n])
    show "\<not> name_Equals k n" if "msg_name m = Some k" for k
      using that \<open>\<forall>k. hname (w_hdrs (nd_world nd)) r = Some k \<longrightarrow> \<not> name_Equals k n\<close> m by (simp add: hname_def w_hdrs_def hdr_def)
    show "msg_name m \<noteq> None" if "message_GetType m \<in> {MessagePacketType_Interest, MessagePacketType_ContentObject}"
      using that r m by (auto simp: receivable_def w_hdrs_def hdr_def message_GetType_def split: option.splits)
  qed
  show ?case using x 1(1) 2 keep framed_trans[OF 1(3) 2(3)] by (simp add: w)
qed simp

lemma Create_node_ok:
  assumes "env_ok H ok es E" "plain_links (op_ct E) table"
  shows "node_ok H ok es E (messageProcessor_Create E w table capacity)"
proof -
  note cs = contentStoreLRU_Init_inv(1)[OF env_okD(2)[OF assms(1)], of "hname (w_hdrs w)" capacity]
  have "cs_items (contentStoreLRU_Init (op_cs E) capacity) = []" by (rule contentStoreLRU_Init_inv(2))
  then show ?thesis using cs pitStandard_Create_inv[OF env_okD(1)[OF assms(1)]] fs_Create_ok[of "op_st E"] assms(2)
    by (simp add: node_ok_def messageProcessor_Create_def cached_def)
qed

lemma spec_interest_pending:
  assumes "spec_interest now life c entry = (v, S, x)"
  shows "c \<in> S" "now + life \<le> x"
proof -
  have "(S = {c} \<and> x = now + life) \<or> (\<exists>S0 x0. S = insert c S0 \<and> x = max x0 (now + life))"
    using assms by (cases entry) (auto simp: spec_interest_def split: if_splits prod.splits)
  then show "c \<in> S" "now + life \<le> x" by (elim disjE exE conjE; simp)+
qed

lemma sends_toD:
  assumes "sends_to E nd nd' h S" "c \<in> S" "c \<noteq> snd (snd h)" "link_up (op_ct E) (nd_table nd) c"
  shows "(c, h) \<in> set (drop (length (trace (nd_world nd))) (trace (nd_world nd')))"
proof -
  obtain out where "trace (nd_world nd') = trace (nd_world nd) @ map (\<lambda>c. (c, h)) out" "c \<in> set out"
    using assms unfolding sends_to_def by blast
  then show ?thesis by simp
qed

section \<open>An example node\<close>

definition ex_ops ::
  "(rat, (connid \<times> rat StrategyNexthopState) list, unit, (Name \<times> nat) list, (Name \<times> nat) list, (tkey \<times> nat) list,
    (connid \<times> nat) list, (AddressPair \<times> nat) list, (connid \<times> nat) list) node_ops" where
  "ex_ops = \<lparr>op_st = ex_st_ops, op_pit = ex_pit_table, op_cs = ex_cs_ops, op_ct = ex_ct_ops\<rparr>"

definition ex_conn6 :: Connection where
  "ex_conn6 = connection_Create (ex_io\<lparr>io_connectionId := 6\<rparr>)"

definition ex_memory :: world where
  "ex_memory = \<lparr>w_msgs = [0 \<mapsto> ex_interest\<lparr>ingressConnectionId := 5\<rparr>, 1 \<mapsto> ex_data\<lparr>ingressConnectionId := 6\<rparr>], w_next = 2, w_sent = [], w_probes = []\<rparr>"

abbreviation ex_env where "ex_env \<equiv> env_ok (\<lambda>d s. s) (sorted_entries contentStoreEntry_CompareExpiryTime) id"
abbreviation ex_node_ok where "ex_node_ok \<equiv> node_ok (\<lambda>d s. s) (sorted_entries contentStoreEntry_CompareExpiryTime) id"

lemma ex_ops_ok: "ex_env ex_ops"
  by (simp add: env_ok_def ex_ops_def ex_pit_table_ok ex_cs_ops_ok)

lemma ex_table2: "\<exists>t. ct_lookup ex_ct_ops t = [5 \<mapsto> ex_conn, 6 \<mapsto> ex_conn6]"
proof -
  have e: "ct_lookup ex_ct_ops (connectionTable_Create ex_ct_ops) = Map.empty" using connectionTable_Create_inv(3)[OF ex_ct_ops_ok] by auto
  from connectionTable_Add_ok[OF ex_ct_ops_ok connectionTable_Create_inv(1)[OF ex_ct_ops_ok] ex_conn_fields(1)]
  obtain t where t: "ct_inv (sorted_entries connectionTable_ConnectionIdCompare) id ex_ct_ops t" "ct_lookup ex_ct_ops t = [5 \<mapsto> ex_conn]"
    unfolding e ex_conn_fields(2) by auto
  have c: "0 < conn_refCount ex_conn6" "connection_GetConnectionId ex_conn6 = 6"
    by (simp_all add: ex_conn6_def connection_Create_def connection_SetAdminState_def connection_GetConnectionId_def)
  from connectionTable_Add_ok[OF ex_ct_ops_ok t(1) c(1)] t(2) c(2) show ?thesis by auto
qed

lemma ex_node:
  assumes t: "ct_lookup ex_ct_ops t = [5 \<mapsto> ex_conn, 6 \<mapsto> ex_conn6]" and nd: "nd = messageProcessor_Create ex_ops ex_memory t 2"
  shows "ex_node_ok ex_ops nd" "\<exists>n. ready (\<lambda>d s. s) ex_ops nd 0 n \<and> ready (\<lambda>d s. s) ex_ops nd 1 n \<and> msg_name ex_interest = Some n"
    "link_up ex_ct_ops t 5" "nd_world nd = ex_memory" "nd_table nd = t" "pending ex_ops nd k = None" "cs_items (nd_cs nd) = []"
proof -
  have plain: "plain_links (op_ct ex_ops) t"
    using t by (auto simp: plain_links_def ex_ops_def ex_conn_def ex_conn6_def connection_Create_def connection_SetAdminState_def
        connection_GetConnectionId_def ex_io_def split: if_splits)
  show "ex_node_ok ex_ops nd" unfolding nd by (rule Create_node_ok[OF ex_ops_ok plain])
  show "link_up ex_ct_ops t 5" using t by (simp add: link_up_def ex_conn_def connection_Create_def connection_SetAdminState_def connection_IsUp_def ex_io_def)
  show w: "nd_world nd = ex_memory" and tab: "nd_table nd = t" by (simp_all add: nd messageProcessor_Create_def)
  show "pending ex_ops nd k = None"
    by (simp add: nd messageProcessor_Create_def ex_ops_def pit_abs_def pit_lookup_def pitStandard_Create_def al_hct_def)
  show "cs_items (nd_cs nd) = []" by (simp add: nd messageProcessor_Create_def contentStoreLRU_Init_inv(2))
  obtain n where n: "msg_name ex_interest = Some n" "name_ok (\<lambda>d s. s) n" using ex_interest_name by blast
  have "map_option (\<lambda>n. nb_valid (name_bv n)) (msg_name ex_interest) = Some True" by code_simp
  then have v: "nb_valid (name_bv n)" using n(1) by simp
  have "(5::connid) \<noteq> - 1" "(6::connid) \<noteq> - 1" by simp_all
  then have "ready (\<lambda>d s. s) ex_ops nd 0 n" "ready (\<lambda>d s. s) ex_ops nd 1 n"
    using n v t ex_names(3) by (simp_all add: ready_def w tab ex_memory_def w_hdrs_def hdr_def ex_ops_def)
  then show "\<exists>n. ready (\<lambda>d s. s) ex_ops nd 0 n \<and> ready (\<lambda>d s. s) ex_ops nd 1 n \<and> msg_name ex_interest = Some n" using n(1) by blast
qed

section \<open>Properties\<close>

text \<open>
  C2. Data goes back to exactly those who asked. In every well-formed node, a named data message is
  received without abort and sent once to each connection that has a live pending interest for its
  name, except the one it came from and those that are down, and to no other; the
  pending interest is consumed and the invariant kept.
\<close>

theorem data_reaches_requesters:
  assumes "env_ok H ok es E" "node_ok H ok es E nd" "ready H E nd r n"
    and "w_msgs (nd_world nd) r = Some m" "message_GetType m = MessagePacketType_ContentObject"
  shows "\<exists>nd' out. messageProcessor_Receive E now rnd nd r = Inr nd' \<and> node_ok H ok es E nd' \<and>
    trace (nd_world nd') = trace (nd_world nd) @ map (\<lambda>c. (c, hdr m)) out \<and> distinct out \<and>
    set out = {c \<in> spec_satisfy now (pending E nd n). c \<noteq> ingressConnectionId m \<and> link_up (op_ct E) (nd_table nd) c} \<and>
    pending E nd' n = None"
proof -
  note m' = ready_message[OF assms(3,4)]
  have "receivable H E nd r" using assms(3-5) m'(1) by (simp add: receivable_def w_hdrs_def hdr_def)
  from Receive_ok[OF assms(1,2) this assms(4), of now rnd] obtain nd' where
    1: "messageProcessor_Receive E now rnd nd r = Inr nd'" "node_ok H ok es E nd'" "data_effect H E now nd r m n nd'"
    using assms(5) m'(1) by (auto simp: receive_effect_def)
  then show ?thesis using m'(2) by (auto simp: data_effect_def sends_to_def hdr_def)
qed

theorem data_reaches_requesters_witness:
  "\<exists>t nd'. messageProcessor_Receive ex_ops 10 0 (messageProcessor_Create ex_ops ex_memory t 2) 1 = Inr nd' \<and> trace (nd_world nd') = []"
proof -
  obtain t where t: "ct_lookup ex_ct_ops t = [5 \<mapsto> ex_conn, 6 \<mapsto> ex_conn6]" using ex_table2 by blast
  note e = ex_node[OF t refl]
  obtain n where n: "ready (\<lambda>d s. s) ex_ops (messageProcessor_Create ex_ops ex_memory t 2) 1 n" using e(2) by blast
  have m: "w_msgs (nd_world (messageProcessor_Create ex_ops ex_memory t 2)) 1 = Some (ex_data\<lparr>ingressConnectionId := 6\<rparr>)"
    unfolding e(4) by (simp add: ex_memory_def)
  have "message_GetType (ex_data\<lparr>ingressConnectionId := 6\<rparr>) = MessagePacketType_ContentObject"
    using ex_names(4) by (simp add: message_GetType_def)
  from data_reaches_requesters[OF ex_ops_ok e(1) n m this, of 10 0] show ?thesis
    unfolding e(4,6) by (intro exI[of _ t]) (auto simp: spec_satisfy_def trace_def ex_memory_def)
qed



text \<open>
  C4. The processor never aborts. Started with an empty PIT, content store and FIB on a table of
  connections without loss recovery, it processes every sequence of messages in memory whose interests and data are
  named and came from connections of the table; the invariant holds at the end, and connections and routes are as at the start.
\<close>

theorem processor_never_aborts:
  assumes "env_ok H ok es E" "plain_links (op_ct E) table"
    and "\<forall>(now, rnd, r)\<in>set xs. receivable H E (messageProcessor_Create E w table capacity) r"
  shows "\<exists>nd'. node_run E (messageProcessor_Create E w table capacity) xs = Inr nd' \<and> node_ok H ok es E nd' \<and>
    framed (messageProcessor_Create E w table capacity) nd'"
proof -
  have "name_ok H (make_name H \<lparr>bits0 = 0, bits1 = 0, nb_len = 0, IPversion = 6\<rparr> 0)" by (simp add: name_ok_def make_name_def)
  from node_run_ok[OF assms(1) this Create_node_ok[OF assms(1,2)] assms(3)] show ?thesis by blast
qed

theorem processor_never_aborts_witness:
  "\<exists>t nd'. node_run ex_ops (messageProcessor_Create ex_ops ex_memory t 2) [(10, 0, 0), (20, 0, 1), (30, 0, 0)] = Inr nd' \<and> ex_node_ok ex_ops nd'"
proof -
  obtain t where t: "ct_lookup ex_ct_ops t = [5 \<mapsto> ex_conn, 6 \<mapsto> ex_conn6]" using ex_table2 by blast
  note e = ex_node[OF t refl]
  let ?nd = "messageProcessor_Create ex_ops ex_memory t 2"
  obtain n where n: "ready (\<lambda>d s. s) ex_ops ?nd 0 n" "ready (\<lambda>d s. s) ex_ops ?nd 1 n" using e(2) by blast
  have "receivable (\<lambda>d s. s) ex_ops ?nd 0" "receivable (\<lambda>d s. s) ex_ops ?nd 1"
    using n by (auto simp: receivable_def ready_def split: option.splits)
  then have r: "\<forall>(now, rnd, r)\<in>set [(10, 0, 0), (20, 0, 1), (30, 0, 0)]. receivable (\<lambda>d s. s) ex_ops ?nd r" by simp
  have "plain_links (op_ct ex_ops) t" using node_okD(6)[OF e(1)] e(5) by simp
  from processor_never_aborts[OF ex_ops_ok this r] show ?thesis by blast
qed



end
