(* ===== verification/Headers.thy ===== *)
theory Headers
  imports Packet
begin

text \<open>
  The packet library of \<^verbatim>\<open>lib/\<close>: error codes (\<^verbatim>\<open>error.h\<close>), protocol layers and path labels
  (\<^verbatim>\<open>base.h\<close>), names (\<^verbatim>\<open>name.h\<close>), the checksum routines (\<^verbatim>\<open>common.h\<close>) and the table of operations
  that every protocol header implements (\<^verbatim>\<open>ops.h\<close>, \<^verbatim>\<open>ops.c\<close>). The headers themselves are in the
  theories \<open>IpHeaders\<close> and \<open>TransportHeaders\<close>, the format-based interface in \<open>Compat\<close>.

  The lemmas relate \<open>csum\<close> to the one's complement sum of the 16-bit words: the value computed over
  a region whose checksum field is zero makes the region verify, and the 64-bit incremental
  arithmetic of \<^verbatim>\<open>ip_csum_*\<close> agrees with it modulo 65535.
\<close>

section \<open>Error codes and protocol layers\<close>

datatype rc =
    HICN_LIB_ERROR_NONE | HICN_LIB_ERROR_UNSPECIFIED | HICN_LIB_ERROR_NOT_IMPLEMENTED
  | HICN_LIB_ERROR_NOT_HICN | HICN_LIB_ERROR_UNKNOWN_ADDRESS | HICN_LIB_ERROR_INVALID_PARAMETER
  | HICN_LIB_ERROR_INVALID_IP_ADDRESS | HICN_LIB_ERROR_CORRUPTED_PACKET
  | HICN_LIB_ERROR_REWRITE_CKSUM_REQUIRED | HICN_LIB_ERROR_UNEXPECTED

fun hicn_lib_error :: "rc \<Rightarrow> int" where
  "hicn_lib_error HICN_LIB_ERROR_NONE = 0"
| "hicn_lib_error HICN_LIB_ERROR_UNSPECIFIED = - 128"
| "hicn_lib_error HICN_LIB_ERROR_NOT_IMPLEMENTED = - 180"
| "hicn_lib_error HICN_LIB_ERROR_NOT_HICN = - 202"
| "hicn_lib_error HICN_LIB_ERROR_UNKNOWN_ADDRESS = - 210"
| "hicn_lib_error HICN_LIB_ERROR_INVALID_PARAMETER = - 220"
| "hicn_lib_error HICN_LIB_ERROR_INVALID_IP_ADDRESS = - 221"
| "hicn_lib_error HICN_LIB_ERROR_CORRUPTED_PACKET = - 222"
| "hicn_lib_error HICN_LIB_ERROR_REWRITE_CKSUM_REQUIRED = - 223"
| "hicn_lib_error HICN_LIB_ERROR_UNEXPECTED = - 298"

text \<open>The test \<^verbatim>\<open>rc < 0\<close> of the callers.\<close>

definition failed :: "rc \<Rightarrow> bool" where
  "failed rc = (hicn_lib_error rc < 0)"

lemma failed_iff [simp]: "failed rc \<longleftrightarrow> rc \<noteq> HICN_LIB_ERROR_NONE"
  by (cases rc) (simp_all add: failed_def)

text \<open>
  \<^verbatim>\<open>hicn_type_t\<close> holds four protocol numbers, the unused ones \<^verbatim>\<open>IPPROTO_NONE\<close>. Operations go
  down the layers with \<^verbatim>\<open>TYPE_POP\<close>, which shifts in \<^verbatim>\<open>IPPROTO_NONE\<close>, and stop at the first
  \<^verbatim>\<open>IPPROTO_NONE\<close>: a type is the list of the layers before it, and \<^verbatim>\<open>HICN_TYPE_NONE\<close> is the empty
  list.
\<close>

datatype protocol = P_IP | P_ICMP | P_TCP | P_IPV6 | P_AH | P_ICMPV6

type_synonym hicn_type = "protocol list"

fun protocol_number :: "protocol \<Rightarrow> u8" where
  "protocol_number P_IP = 0"
| "protocol_number P_ICMP = 1"
| "protocol_number P_TCP = 6"
| "protocol_number P_IPV6 = 41"
| "protocol_number P_AH = 51"
| "protocol_number P_ICMPV6 = 58"

definition IPPROTO_NONE :: u8 where "IPPROTO_NONE = 59"

text \<open>\<open>layer2 (TYPE_POP type)\<close> is the \<^verbatim>\<open>l2\<close> of the type one layer up.\<close>

definition TYPE_POP :: "hicn_type \<Rightarrow> hicn_type" where
  "TYPE_POP ty = tl ty"

definition layer1 :: "hicn_type \<Rightarrow> u8" where
  "layer1 ty = (case ty of [] \<Rightarrow> IPPROTO_NONE | l1 # _ \<Rightarrow> protocol_number l1)"

definition hicn_type_is_none :: "hicn_type \<Rightarrow> bool" where
  "hicn_type_is_none ty = (ty = [])"

definition HICN_DEFAULT_TTL :: u8 where "HICN_DEFAULT_TTL = 254"
definition AH_HDRLEN :: nat where "AH_HDRLEN = 44"
definition AH_FLAG :: u8 where "AH_FLAG = 0x10"

definition update_pathlabel :: "u8 \<Rightarrow> u32 \<Rightarrow> u8" where
  "update_pathlabel current_label face_id =
     (let pl_face_id = ucast (face_id AND 0x000000ff)
      in (push_bit 1 current_label OR drop_bit 7 current_label) XOR pl_face_id)"

section \<open>Names\<close>

text \<open>
  \<^verbatim>\<open>hicn_name_t\<close>: a contiguous name is twenty bytes, the address (four or sixteen of them) followed
  by the suffix as the host stores a \<^verbatim>\<open>u32\<close>; a name of type \<^verbatim>\<open>HNT_IOV\<close> points to two buffers, the
  address and the suffix. The source overlays the two in a union; the type says which one is live.
\<close>

datatype hicn_name_type = HNT_UNSPEC | HNT_CONTIGUOUS_V4 | HNT_CONTIGUOUS_V6 | HNT_IOV_V4 | HNT_IOV_V6

record hicn_name =
  name_type :: hicn_name_type
  name_len :: u8
  name_buffer :: bytes
  name_iov :: "bytes \<times> bytes"

definition HICN_V4_NAME_LEN :: nat where "HICN_V4_NAME_LEN = 8"
definition HICN_V6_NAME_LEN :: nat where "HICN_V6_NAME_LEN = 20"

section \<open>Wider fields\<close>

definition field :: "bytes \<Rightarrow> nat \<Rightarrow> nat \<Rightarrow> bytes" where
  "field h off n = map (\<lambda>i. byte h (off + i)) [0..<n]"

definition put_be32 :: "bytes \<Rightarrow> nat \<Rightarrow> u32 \<Rightarrow> bytes" where
  "put_be32 h off w = put_be16 (put_be16 h off (hi16 w)) (off + 2) (lo16 w)"

definition hi32 :: "u64 \<Rightarrow> u32" where "hi32 w = ucast (drop_bit 32 w)"
definition lo32 :: "u64 \<Rightarrow> u32" where "lo32 w = ucast w"

definition be64 :: "bytes \<Rightarrow> nat \<Rightarrow> u64" where
  "be64 h off = push_bit 32 (ucast (be32 h off)) OR ucast (be32 h (off + 4))"

definition put_be64 :: "bytes \<Rightarrow> nat \<Rightarrow> u64 \<Rightarrow> bytes" where
  "put_be64 h off w = put_be32 (put_be32 h off (hi32 w)) (off + 4) (lo32 w)"

definition le64 :: "bytes \<Rightarrow> nat \<Rightarrow> u64" where
  "le64 h off = push_bit 32 (ucast (le32 h (off + 4))) OR ucast (le32 h off)"

section \<open>Checksums\<close>

text \<open>The loop of \<^verbatim>\<open>csum\<close>: two bytes at a time as the host reads a \<^verbatim>\<open>u16\<close>, a last odd byte alone.\<close>

fun csum_loop :: "bytes \<Rightarrow> nat \<Rightarrow> nat \<Rightarrow> u32 \<Rightarrow> u32" where
  "csum_loop h p (Suc (Suc n)) acc = csum_loop h (p + 2) n (acc + ucast (le16 h p))"
| "csum_loop h p (Suc 0) acc = acc + ucast (byte h p)"
| "csum_loop h p 0 acc = acc"

definition csum :: "bytes \<Rightarrow> nat \<Rightarrow> nat \<Rightarrow> u16 \<Rightarrow> u16" where
  "csum h p n init =
     (let acc = csum_loop h p n (ucast init);
          acc = drop_bit 16 acc + (acc AND 0xffff);
          acc = acc + drop_bit 16 acc
      in ucast (NOT acc))"

definition ip_csum_fold :: "u64 \<Rightarrow> u16" where
  "ip_csum_fold c =
     (let c = (c AND 0xffffffff) + drop_bit 32 c;
          c = (c AND 0xffff) + drop_bit 16 c;
          c = (c AND 0xffff) + drop_bit 16 c;
          c = (c AND 0xffff) + drop_bit 16 c
      in ucast c)"

definition ip_csum_with_carry :: "u64 \<Rightarrow> u64 \<Rightarrow> u64" where
  "ip_csum_with_carry acc x = (let t = acc + x in t + of_bool (t < x))"

definition ip_csum_add_even :: "u64 \<Rightarrow> u64 \<Rightarrow> u64" where
  "ip_csum_add_even c x = (let d = c - x in d - of_bool (d > c))"

definition ip_csum_sub_even :: "u64 \<Rightarrow> u64 \<Rightarrow> u64" where
  "ip_csum_sub_even c x = ip_csum_with_carry c x"

section \<open>The table of operations\<close>

text \<open>
  One field per operation of \<^verbatim>\<open>hicn_ops_t\<close>, in the order of the source. A packet is the byte
  buffer with the offset the C pointer has. A getter takes the value its output variable has before
  the call and returns the error code with the value it has after; an operation that writes returns
  the error code with the buffer; the two rewriting operations also return \<^verbatim>\<open>addr_old\<close>. Pointers
  into the packet (\<^verbatim>\<open>get_key_id\<close>, \<^verbatim>\<open>get_signature\<close>) are offsets. Addresses are the sixteen bytes of
  \<^verbatim>\<open>ip46_address_t\<close>, an IPv4 address in the last four.
\<close>

record hicn_ops =
  init_packet_header :: "bytes \<Rightarrow> nat \<Rightarrow> rc \<times> bytes"
  get_interest_locator :: "bytes \<Rightarrow> nat \<Rightarrow> bytes \<Rightarrow> rc \<times> bytes"
  set_interest_locator :: "bytes \<Rightarrow> nat \<Rightarrow> bytes \<Rightarrow> rc \<times> bytes"
  get_interest_name :: "bytes \<Rightarrow> nat \<Rightarrow> hicn_name \<Rightarrow> rc \<times> hicn_name"
  set_interest_name :: "bytes \<Rightarrow> nat \<Rightarrow> hicn_name \<Rightarrow> rc \<times> bytes"
  get_interest_name_suffix :: "bytes \<Rightarrow> nat \<Rightarrow> u32 \<Rightarrow> rc \<times> u32"
  set_interest_name_suffix :: "bytes \<Rightarrow> nat \<Rightarrow> u32 \<Rightarrow> rc \<times> bytes"
  mark_packet_as_interest :: "bytes \<Rightarrow> nat \<Rightarrow> rc \<times> bytes"
  mark_packet_as_data :: "bytes \<Rightarrow> nat \<Rightarrow> rc \<times> bytes"
  reset_interest_for_hash :: "bytes \<Rightarrow> nat \<Rightarrow> rc \<times> bytes"
  get_data_locator :: "bytes \<Rightarrow> nat \<Rightarrow> bytes \<Rightarrow> rc \<times> bytes"
  set_data_locator :: "bytes \<Rightarrow> nat \<Rightarrow> bytes \<Rightarrow> rc \<times> bytes"
  get_data_name :: "bytes \<Rightarrow> nat \<Rightarrow> hicn_name \<Rightarrow> rc \<times> hicn_name"
  set_data_name :: "bytes \<Rightarrow> nat \<Rightarrow> hicn_name \<Rightarrow> rc \<times> bytes"
  get_data_name_suffix :: "bytes \<Rightarrow> nat \<Rightarrow> u32 \<Rightarrow> rc \<times> u32"
  set_data_name_suffix :: "bytes \<Rightarrow> nat \<Rightarrow> u32 \<Rightarrow> rc \<times> bytes"
  get_data_pathlabel :: "bytes \<Rightarrow> nat \<Rightarrow> u32 \<Rightarrow> rc \<times> u32"
  set_data_pathlabel :: "bytes \<Rightarrow> nat \<Rightarrow> u32 \<Rightarrow> rc \<times> bytes"
  update_data_pathlabel :: "bytes \<Rightarrow> nat \<Rightarrow> u32 \<Rightarrow> rc \<times> bytes"
  reset_data_for_hash :: "bytes \<Rightarrow> nat \<Rightarrow> rc \<times> bytes"
  get_lifetime :: "bytes \<Rightarrow> nat \<Rightarrow> u32 \<Rightarrow> rc \<times> u32"
  set_lifetime :: "bytes \<Rightarrow> nat \<Rightarrow> u32 \<Rightarrow> rc \<times> bytes"
  update_checksums :: "bytes \<Rightarrow> nat \<Rightarrow> u16 \<Rightarrow> u64 \<Rightarrow> rc \<times> bytes"
  verify_checksums :: "bytes \<Rightarrow> nat \<Rightarrow> u16 \<Rightarrow> u64 \<Rightarrow> rc \<times> bytes"
  rewrite_interest :: "bytes \<Rightarrow> nat \<Rightarrow> bytes \<Rightarrow> bytes \<Rightarrow> rc \<times> bytes \<times> bytes"
  rewrite_data :: "bytes \<Rightarrow> nat \<Rightarrow> bytes \<Rightarrow> bytes \<Rightarrow> u32 \<Rightarrow> u8 \<Rightarrow> rc \<times> bytes \<times> bytes"
  get_length :: "bytes \<Rightarrow> nat \<Rightarrow> u64 \<Rightarrow> rc \<times> u64"
  get_current_header_length :: "bytes \<Rightarrow> nat \<Rightarrow> u64 \<Rightarrow> rc \<times> u64"
  get_header_length :: "bytes \<Rightarrow> nat \<Rightarrow> u64 \<Rightarrow> rc \<times> u64"
  get_payload_length :: "bytes \<Rightarrow> nat \<Rightarrow> u64 \<Rightarrow> rc \<times> u64"
  set_payload_length :: "bytes \<Rightarrow> nat \<Rightarrow> u64 \<Rightarrow> rc \<times> bytes"
  get_signature_size :: "bytes \<Rightarrow> nat \<Rightarrow> u64 \<Rightarrow> rc \<times> u64"
  set_signature_size :: "bytes \<Rightarrow> nat \<Rightarrow> u64 \<Rightarrow> rc \<times> bytes"
  get_signature_timestamp :: "bytes \<Rightarrow> nat \<Rightarrow> u64 \<Rightarrow> rc \<times> u64"
  set_signature_timestamp :: "bytes \<Rightarrow> nat \<Rightarrow> u64 \<Rightarrow> rc \<times> bytes"
  get_validation_algorithm :: "bytes \<Rightarrow> nat \<Rightarrow> u8 \<Rightarrow> rc \<times> u8"
  set_validation_algorithm :: "bytes \<Rightarrow> nat \<Rightarrow> u8 \<Rightarrow> rc \<times> bytes"
  get_key_id :: "bytes \<Rightarrow> nat \<Rightarrow> nat \<times> u8 \<Rightarrow> rc \<times> (nat \<times> u8)"
  set_key_id :: "bytes \<Rightarrow> nat \<Rightarrow> bytes \<Rightarrow> rc \<times> bytes"
  get_signature :: "bytes \<Rightarrow> nat \<Rightarrow> nat \<Rightarrow> rc \<times> nat"

text \<open>\<^verbatim>\<open>DECLARE_x(none, NONE)\<close>: the table that ends the recursion succeeds and changes nothing.\<close>

definition hicn_ops_none :: hicn_ops where
  "hicn_ops_none = \<lparr>
     init_packet_header = (\<lambda>h p. (HICN_LIB_ERROR_NONE, h)),
     get_interest_locator = (\<lambda>h p ip_address. (HICN_LIB_ERROR_NONE, ip_address)),
     set_interest_locator = (\<lambda>h p ip_address. (HICN_LIB_ERROR_NONE, h)),
     get_interest_name = (\<lambda>h p name. (HICN_LIB_ERROR_NONE, name)),
     set_interest_name = (\<lambda>h p name. (HICN_LIB_ERROR_NONE, h)),
     get_interest_name_suffix = (\<lambda>h p sfx. (HICN_LIB_ERROR_NONE, sfx)),
     set_interest_name_suffix = (\<lambda>h p sfx. (HICN_LIB_ERROR_NONE, h)),
     mark_packet_as_interest = (\<lambda>h p. (HICN_LIB_ERROR_NONE, h)),
     mark_packet_as_data = (\<lambda>h p. (HICN_LIB_ERROR_NONE, h)),
     reset_interest_for_hash = (\<lambda>h p. (HICN_LIB_ERROR_NONE, h)),
     get_data_locator = (\<lambda>h p ip_address. (HICN_LIB_ERROR_NONE, ip_address)),
     set_data_locator = (\<lambda>h p ip_address. (HICN_LIB_ERROR_NONE, h)),
     get_data_name = (\<lambda>h p name. (HICN_LIB_ERROR_NONE, name)),
     set_data_name = (\<lambda>h p name. (HICN_LIB_ERROR_NONE, h)),
     get_data_name_suffix = (\<lambda>h p sfx. (HICN_LIB_ERROR_NONE, sfx)),
     set_data_name_suffix = (\<lambda>h p sfx. (HICN_LIB_ERROR_NONE, h)),
     get_data_pathlabel = (\<lambda>h p pathlabel. (HICN_LIB_ERROR_NONE, pathlabel)),
     set_data_pathlabel = (\<lambda>h p pathlabel. (HICN_LIB_ERROR_NONE, h)),
     update_data_pathlabel = (\<lambda>h p face_id. (HICN_LIB_ERROR_NONE, h)),
     reset_data_for_hash = (\<lambda>h p. (HICN_LIB_ERROR_NONE, h)),
     get_lifetime = (\<lambda>h p lifetime. (HICN_LIB_ERROR_NONE, lifetime)),
     set_lifetime = (\<lambda>h p lifetime. (HICN_LIB_ERROR_NONE, h)),
     update_checksums = (\<lambda>h p partial_csum payload_length. (HICN_LIB_ERROR_NONE, h)),
     verify_checksums = (\<lambda>h p partial_csum payload_length. (HICN_LIB_ERROR_NONE, h)),
     rewrite_interest = (\<lambda>h p addr_new addr_old. (HICN_LIB_ERROR_NONE, h, addr_old)),
     rewrite_data = (\<lambda>h p addr_new addr_old face_id reset_pl. (HICN_LIB_ERROR_NONE, h, addr_old)),
     get_length = (\<lambda>h p len. (HICN_LIB_ERROR_NONE, len)),
     get_current_header_length = (\<lambda>h p header_length. (HICN_LIB_ERROR_NONE, header_length)),
     get_header_length = (\<lambda>h p header_length. (HICN_LIB_ERROR_NONE, header_length)),
     get_payload_length = (\<lambda>h p payload_length. (HICN_LIB_ERROR_NONE, payload_length)),
     set_payload_length = (\<lambda>h p payload_length. (HICN_LIB_ERROR_NONE, h)),
     get_signature_size = (\<lambda>h p signature_size. (HICN_LIB_ERROR_NONE, signature_size)),
     set_signature_size = (\<lambda>h p signature_size. (HICN_LIB_ERROR_NONE, h)),
     get_signature_timestamp = (\<lambda>h p signature_timestamp. (HICN_LIB_ERROR_NONE, signature_timestamp)),
     set_signature_timestamp = (\<lambda>h p signature_timestamp. (HICN_LIB_ERROR_NONE, h)),
     get_validation_algorithm = (\<lambda>h p validation_algorithm. (HICN_LIB_ERROR_NONE, validation_algorithm)),
     set_validation_algorithm = (\<lambda>h p validation_algorithm. (HICN_LIB_ERROR_NONE, h)),
     get_key_id = (\<lambda>h p key_id. (HICN_LIB_ERROR_NONE, key_id)),
     set_key_id = (\<lambda>h p key_id. (HICN_LIB_ERROR_NONE, h)),
     get_signature = (\<lambda>h p signature. (HICN_LIB_ERROR_NONE, signature))\<rparr>"

text \<open>
  \<^verbatim>\<open>PAYLOAD\<close>: the offset of the next header, from the length of the current one. The
  length operation of every protocol succeeds, so the null result of the source does not occur.
\<close>

definition PAYLOAD :: "(bytes \<Rightarrow> nat \<Rightarrow> u64 \<Rightarrow> rc \<times> u64) \<Rightarrow> bytes \<Rightarrow> nat \<Rightarrow> nat" where
  "PAYLOAD get_len h p = p + unat (snd (get_len h p 0))"

section \<open>Reading and writing fields\<close>

definition only_changes :: "nat \<Rightarrow> nat \<Rightarrow> bytes \<Rightarrow> bytes \<Rightarrow> bool" where
  "only_changes a b h h' \<longleftrightarrow> length h' = length h \<and> (\<forall>i. i < a \<or> b \<le> i \<longrightarrow> byte h' i = byte h i)"

lemma only_changes_refl [simp]: "only_changes a b h h"
  by (simp add: only_changes_def)

lemma only_changes_trans:
  "only_changes a b h h' \<Longrightarrow> only_changes a b h' h'' \<Longrightarrow> only_changes a b h h''"
  by (simp add: only_changes_def)

lemma only_changes_mono:
  "only_changes a b h h' \<Longrightarrow> a' \<le> a \<Longrightarrow> b \<le> b' \<Longrightarrow> only_changes a' b' h h'"
  by (force simp: only_changes_def)

lemma only_changes_length: "only_changes a b h h' \<Longrightarrow> length h' = length h"
  by (simp add: only_changes_def)

lemma only_changes_byte: "only_changes a b h h' \<Longrightarrow> i < a \<or> b \<le> i \<Longrightarrow> byte h' i = byte h i"
  by (auto simp: only_changes_def)

lemma only_changes_put: "a \<le> off \<Longrightarrow> off + length bs \<le> b \<Longrightarrow> only_changes a b h (put h off bs)"
  by (auto simp: only_changes_def byte_put)

lemma length_bytes_be16 [simp]: "length (bytes_be16 w) = 2" "length (bytes_le16 w) = 2"
  by (simp_all add: bytes_be16_def bytes_le16_def)

lemma only_changes_put16:
  "a \<le> off \<Longrightarrow> off + 2 \<le> b \<Longrightarrow> only_changes a b h (put_le16 h off w)"
  "a \<le> off \<Longrightarrow> off + 2 \<le> b \<Longrightarrow> only_changes a b h (put_be16 h off w)"
  unfolding put_be16_def put_le16_def by (simp_all add: only_changes_put)

lemma only_changes_put32:
  "a \<le> off \<Longrightarrow> off + 4 \<le> b \<Longrightarrow> only_changes a b h (put_le32 h off v)"
  "a \<le> off \<Longrightarrow> off + 4 \<le> b \<Longrightarrow> only_changes a b h (put_be32 h off v)"
  unfolding put_le32_def put_be32_def
  by (rule only_changes_trans[where h' = "put_le16 h off (lo16 v)"]; simp add: only_changes_put16)
    (rule only_changes_trans[where h' = "put_be16 h off (hi16 v)"]; simp add: only_changes_put16)

lemma only_changes_put64:
  "a \<le> off \<Longrightarrow> off + 8 \<le> b \<Longrightarrow> only_changes a b h (put_be64 h off d)"
  unfolding put_be64_def
  by (rule only_changes_trans[where h' = "put_be32 h off (hi32 d)"]; simp add: only_changes_put32)

lemmas only_changes_puts = only_changes_put only_changes_put16 only_changes_put32 only_changes_put64

lemma length_field [simp]: "length (field h off n) = n"
  by (simp add: field_def)

lemma nth_field [simp]: "i < n \<Longrightarrow> field h off n ! i = byte h (off + i)"
  by (simp add: field_def)

lemma byte_field: "i < n \<Longrightarrow> byte (field h off n) i = byte h (off + i)"
  by (simp add: byte_def field_def)

lemma field_put: "n = length bs \<Longrightarrow> off + n \<le> length h \<Longrightarrow> field (put h off bs) off n = bs"
  by (rule nth_equalityI) (auto simp: byte_put)

lemma field_unchanged:
  "only_changes a b h h' \<Longrightarrow> off + n \<le> a \<or> b \<le> off \<Longrightarrow> field h' off n = field h off n"
  by (rule nth_equalityI) (auto simp: only_changes_def)

lemma field_all: "length xs = n \<Longrightarrow> field xs 0 n = xs"
  by (rule nth_equalityI) (auto simp: byte_def)

lemma field_field: "i + n \<le> m \<Longrightarrow> field (field h off m) i n = field h (off + i) n"
  by (rule nth_equalityI) (auto simp: byte_field add.assoc)

lemma field_append: "field h off (m + n) = field h off m @ field h (off + m) n"
  by (rule nth_equalityI) (auto simp: nth_append)

lemma fields_unchanged:
  "only_changes a b h h' \<Longrightarrow> off + 2 \<le> a \<or> b \<le> off \<Longrightarrow> le16 h' off = le16 h off"
  "only_changes a b h h' \<Longrightarrow> off + 2 \<le> a \<or> b \<le> off \<Longrightarrow> be16 h' off = be16 h off"
  "only_changes a b h h' \<Longrightarrow> off + 4 \<le> a \<or> b \<le> off \<Longrightarrow> be32 h' off = be32 h off"
  "only_changes a b h h' \<Longrightarrow> off + 4 \<le> a \<or> b \<le> off \<Longrightarrow> le32 h' off = le32 h off"
  by (auto simp: le16_def be16_def be32_def le32_def only_changes_def)

lemma length_put_wide [simp]: "length (put_be32 h off v) = length h" "length (put_be64 h off d) = length h"
  by (simp_all add: put_be32_def put_be64_def)

lemma be32_put_be32: "off + 4 \<le> length h \<Longrightarrow> be32 (put_be32 h off v) off = v"
proof -
  assume off: "off + 4 \<le> length h"
  have "be16 (put_be16 (put_be16 h off (hi16 v)) (off + 2) (lo16 v)) off = hi16 v"
    using off by (subst fields_unchanged(2)[OF only_changes_put16(2)[of "off + 2" "off + 2" "off + 4"]])
      (auto simp: be16_put_be16)
  then show ?thesis
    using off by (simp add: be32_def put_be32_def be16_put_be16 word32_halves)
qed

lemma word64_halves: "push_bit 32 (ucast (hi32 v)) OR ucast (lo32 v) = v"
  unfolding hi32_def lo32_def
  by (rule bit_word_eqI) (auto simp: bit_or_iff bit_push_bit_iff bit_unsigned_iff bit_drop_bit_eq dest: bit_imp_le_length)

lemma be64_put_be64: "off + 8 \<le> length h \<Longrightarrow> be64 (put_be64 h off v) off = v"
proof -
  assume off: "off + 8 \<le> length h"
  have "be32 (put_be32 (put_be32 h off (hi32 v)) (off + 4) (lo32 v)) off = hi32 v"
    using off by (subst fields_unchanged(3)[OF only_changes_put32(2)[of "off + 4" "off + 4" "off + 8"]])
      (auto simp: be32_put_be32)
  then show ?thesis
    using off by (simp add: be64_def put_be64_def be32_put_be32 word64_halves)
qed

lemma le32_bytes: "put_le32 xs off (le32 xs off) = xs" if "off + 4 \<le> length xs"
proof -
  have b: "ucast (le16 h q) = byte h q" "ucast (drop_bit 8 (le16 h q)) = byte h (Suc q)" for h q
    by (rule bit_word_eqI; auto simp: le16_def bit_or_iff bit_push_bit_iff bit_unsigned_iff bit_drop_bit_eq
      dest: bit_imp_le_length)+
  show ?thesis
    using that by (simp add: put_le32_def put_le16_def bytes_le16_def b byte_def nth_list_update
      list_update_swap[of "Suc off" off])
qed
section \<open>Checksums as one's complement sums\<close>

text \<open>
  \<open>word_total\<close> is the exact sum of the words that \<open>csum\<close> adds up, \<open>fold16\<close> its one's complement
  representative: zero only for zero, and otherwise in the range from 1 to 65535.
\<close>

fun word_total :: "bytes \<Rightarrow> nat \<Rightarrow> nat \<Rightarrow> nat" where
  "word_total h p (Suc (Suc n)) = unat (le16 h p) + word_total h (p + 2) n"
| "word_total h p (Suc 0) = unat (byte h p)"
| "word_total h p 0 = 0"

definition fold16 :: "nat \<Rightarrow> nat" where
  "fold16 s = (if s = 0 then 0 else (s - 1) mod 65535 + 1)"

lemma unat_u16_less: "unat (w :: u16) < 65536"
  using unsigned_less[of w, where ?'a = nat] by simp

lemma unat_u8_less: "unat (w :: u8) < 256"
  using unsigned_less[of w, where ?'a = nat] by simp

lemma word_total_le: "word_total h p n \<le> 65535 * ((n + 1) div 2)"
proof (induction h p n rule: word_total.induct)
  case (1 h p n)
  then show ?case using unat_u16_less[of "le16 h p"] by simp
next
  case (2 h p)
  then show ?case using unat_u8_less[of "byte h p"] by simp
qed simp

lemma csum_loop_unat:
  "unat acc + word_total h p n < 2 ^ 32 \<Longrightarrow> unat (csum_loop h p n acc) = unat acc + word_total h p n"
proof (induction h p n acc rule: csum_loop.induct)
  case (1 h p n acc)
  have u: "unat (acc + ucast (le16 h p)) = unat acc + unat (le16 h p)"
    using 1(2) unat_u16_less[of "le16 h p"]
    by (simp add: unat_word_ariths unsigned_ucast_eq take_bit_nat_eq_self)
  then show ?case using 1 by simp
next
  case (2 h p acc)
  then show ?case using unat_u8_less[of "byte h p"]
    by (simp add: unat_word_ariths unsigned_ucast_eq take_bit_nat_eq_self)
qed simp

lemma fold16_arith:
  fixes s :: nat
  assumes "s1 = s div 65536 + s mod 65536" "s1 \<le> 131070"
  shows "(s1 + s1 div 65536) mod 65536 = fold16 s"
proof -
  have s: "s = s1 + 65535 * (s div 65536)" using assms(1) div_mult_mod_eq[of s 65536] by linarith
  show ?thesis
  proof (cases "s1 = 0")
    case True
    then have "s = 0" using assms(1) by auto
    then show ?thesis using True by (simp add: fold16_def)
  next
    case False
    then have "s - 1 = (s1 - 1) + 65535 * (s div 65536)" using s by linarith
    then have m: "(s - 1) mod 65535 = (s1 - 1) mod 65535" by (metis mod_mult_self2)
    have "s \<noteq> 0" using False assms(1) by auto
    then have f: "fold16 s = (s1 - 1) mod 65535 + 1" using m by (simp add: fold16_def)
    show ?thesis
    proof (cases "s1 \<le> 65535")
      case True
      then have "(s1 - 1) mod 65535 = s1 - 1" "s1 div 65536 = 0" using False by auto
      then show ?thesis using f True False by simp
    next
      case gt: False
      then have "(s1 - 1) mod 65535 = s1 - 65536" using assms(2) by (simp add: mod_if)
      moreover have "s1 div 65536 = 1" using gt assms(2) by simp
      moreover have "(s1 + 1) mod 65536 = s1 - 65535" using gt assms(2) by (simp add: mod_if)
      ultimately show ?thesis using f gt by simp
    qed
  qed
qed

lemma csum_spec:
  assumes "n \<le> 131000"
  shows "unat (csum h p n init) = 65535 - fold16 (unat init + word_total h p n)"
proof -
  let ?s = "unat init + word_total h p n"
  let ?a = "csum_loop h p n (ucast init)"
  have "(n + 1) div 2 \<le> 65500" using assms by simp
  then have "word_total h p n \<le> 65535 * 65500" using word_total_le[of h p n]
    by (meson le_trans mult_le_mono2)
  then have b: "?s < 2 ^ 32" using unat_u16_less[of init] by simp
  have ui: "unat (ucast init :: u32) = unat init"
    using unat_u16_less[of init] by (simp add: unsigned_ucast_eq take_bit_nat_eq_self)
  have a: "unat ?a = ?s" using csum_loop_unat[of "ucast init" h p n] b by (simp add: ui)
  define a1 where "a1 = drop_bit 16 ?a + (?a AND 0xffff)"
  have s1: "?s div 65536 + ?s mod 65536 \<le> 131070"
  proof -
    have "?s div 65536 < 65536" using b by (simp add: less_mult_imp_div_less)
    moreover have "?s mod 65536 < 65536" by simp
    ultimately show ?thesis by linarith
  qed
  have u1: "unat a1 = ?s div 65536 + ?s mod 65536"
    using fold_step_unat[of ?a] a by (simp add: a1_def add.commute)
  have u2: "unat (a1 + drop_bit 16 a1) = unat a1 + unat a1 div 65536"
    using s1 u1 by (simp add: unat_word_ariths unsigned_drop_bit_eq drop_bit_eq_div)
  have "csum h p n init = NOT (ucast (a1 + drop_bit 16 a1))"
    by (rule bit_word_eqI) (auto simp: csum_def Let_def a1_def bit_unsigned_iff bit_not_iff)
  moreover have "unat (ucast (a1 + drop_bit 16 a1) :: u16) = (unat a1 + unat a1 div 65536) mod 65536"
    using u2 by (simp add: unsigned_ucast_eq take_bit_eq_mod)
  ultimately show ?thesis
    using fold16_arith[OF u1 ] s1 u1 by (simp add: unat_not_u16)
qed

lemma fold16_le: "fold16 s \<le> 65535"
proof -
  have "(s - 1) mod 65535 < 65535" by simp
  then have "(s - 1) mod 65535 + 1 \<le> 65535" by linarith
  then show ?thesis by (simp add: fold16_def)
qed

lemma fold16_full_iff: "fold16 s = 65535 \<longleftrightarrow> s \<noteq> 0 \<and> s mod 65535 = 0"
proof (cases "s = 0")
  case False
  then obtain r where s: "s = Suc r" by (auto simp: gr0_conv_Suc)
  have "fold16 s = 65535 \<longleftrightarrow> r mod 65535 = 65534" by (simp add: fold16_def s)
  also have "\<dots> \<longleftrightarrow> Suc r mod 65535 = 0" by (simp add: mod_Suc)
  finally show ?thesis using s by simp
qed (simp add: fold16_def)

lemma fold16_mod: "fold16 s mod 65535 = s mod 65535"
  by (cases s) (simp_all add: fold16_def mod_Suc_eq)

lemma csum_eq_0_iff:
  assumes "n \<le> 131000"
  shows "csum h p n init = 0 \<longleftrightarrow>
    unat init + word_total h p n \<noteq> 0 \<and> (unat init + word_total h p n) mod 65535 = 0"
proof -
  have "csum h p n init = 0 \<longleftrightarrow> unat (csum h p n init) = 0" by (simp add: unat_eq_zero)
  also have "\<dots> \<longleftrightarrow> fold16 (unat init + word_total h p n) = 65535"
    using fold16_le[of "unat init + word_total h p n"] by (simp add: csum_spec[OF assms])
  finally show ?thesis by (simp only: fold16_full_iff)
qed

lemma word_total_cong:
  "(\<And>i. p \<le> i \<Longrightarrow> i < p + n \<Longrightarrow> byte h' i = byte h i) \<Longrightarrow> word_total h' p n = word_total h p n"
  by (induction h p n rule: word_total.induct) (simp_all add: le16_def)

lemma word_total_put_le16:
  assumes "even d" "d + 2 \<le> n" "p + d + 2 \<le> length h"
  shows "word_total (put_le16 h (p + d) w) p n + unat (le16 h (p + d)) = word_total h p n + unat w"
  using assms
proof (induction h p n arbitrary: d rule: word_total.induct)
  case (1 h p n)
  show ?case
  proof (cases "d = 0")
    case True
    have "word_total (put_le16 h p w) (p + 2) n = word_total h (p + 2) n"
      by (rule word_total_cong) (simp add: byte_put_field_other)
    then show ?thesis using True 1(4) by (simp add: le16_put_le16)
  next
    case False
    then obtain e where e: "d = Suc (Suc e)" "even e" using 1(2) by (cases d; cases "d - 1") auto
    have "le16 (put_le16 h (p + d) w) p = le16 h p" using e by (simp add: le16_put_le16_other)
    then show ?thesis using 1(1)[of e] 1(3,4) e by simp
  qed
qed auto

text \<open>The checksum computed over a region whose checksum field is zero makes the region verify.\<close>

lemma csum_verifies:
  assumes "even d" "d + 2 \<le> n" "p + d + 2 \<le> length h" "n \<le> 131000"
    and "h0 = put_le16 h (p + d) 0" "h' = put_le16 h0 (p + d) (csum h0 p n init)"
  shows "csum h' p n init = 0"
proof -
  let ?s = "unat init + word_total h0 p n"
  have "le16 h0 (p + d) = 0" using assms(3,5) by (simp add: le16_put_le16)
  then have "word_total h' p n = word_total h0 p n + unat (csum h0 p n init)"
    using word_total_put_le16[OF assms(1,2), of p h0 "csum h0 p n init"] assms(3,5,6) by simp
  then have t: "unat init + word_total h' p n = ?s + (65535 - fold16 ?s)"
    by (simp add: csum_spec[OF assms(4)])
  have "(?s + (65535 - fold16 ?s)) mod 65535 = (fold16 ?s + (65535 - fold16 ?s)) mod 65535"
    by (metis fold16_mod mod_add_left_eq)
  then have "(?s + (65535 - fold16 ?s)) mod 65535 = 0" using fold16_le[of ?s] by simp
  moreover have "?s + (65535 - fold16 ?s) \<noteq> 0" by (auto simp: fold16_def)
  ultimately show ?thesis unfolding csum_eq_0_iff[OF assms(4)] t by blast
qed

text \<open>A change of one word that is not a multiple of 65535 is detected.\<close>

lemma csum_detects:
  assumes "even d" "d + 2 \<le> n" "p + d + 2 \<le> length h" "n \<le> 131000"
    and "csum h p n init = 0" "unat w mod 65535 \<noteq> unat (le16 h (p + d)) mod 65535"
  shows "csum (put_le16 h (p + d) w) p n init \<noteq> 0"
proof
  let ?t = "\<lambda>h. unat init + word_total h p n"
  assume "csum (put_le16 h (p + d) w) p n init = 0"
  then have z: "?t (put_le16 h (p + d) w) mod 65535 = 0" "?t h mod 65535 = 0"
    using assms(5) by (simp_all add: csum_eq_0_iff[OF assms(4)])
  have "?t (put_le16 h (p + d) w) + unat (le16 h (p + d)) = ?t h + unat w"
    using word_total_put_le16[OF assms(1-3)] by simp
  then have "(?t (put_le16 h (p + d) w) + unat (le16 h (p + d))) mod 65535 = (?t h + unat w) mod 65535" by (simp only:)
  then have "unat (le16 h (p + d)) mod 65535 = unat w mod 65535"
    using z by (metis add_0 mod_add_left_eq)
  then show False using assms(6) by simp
qed

section \<open>Incremental checksums\<close>

text \<open>The 64-bit routines work modulo \<open>2 ^ 64 - 1\<close>, a multiple of 65535.\<close>

lemma uint_u64_bounds: "0 \<le> uint (w :: u64)" "uint w < 18446744073709551616"
  using unsigned_less[of w, where ?'a = int] by simp_all

lemma mod_wrap: "18446744073709551616 \<le> a \<Longrightarrow> a < 36893488147419103232 \<Longrightarrow>
  a mod 18446744073709551616 = a - (18446744073709551616 :: int)"
  using minus_mod_self2[of a 18446744073709551616] mod_pos_pos_trivial[of "a - 18446744073709551616" 18446744073709551616]
  by linarith

lemma ip_csum_sub_even_cong: "uint (ip_csum_sub_even c x) mod 65535 = (uint c + uint x) mod 65535"
proof -
  define t where "t = c + x"
  show ?thesis
  proof (cases "uint c + uint x < 18446744073709551616")
    case True
    then have u: "uint t = uint c + uint x" by (simp add: t_def uint_word_ariths)
    then have "\<not> t < x" using uint_u64_bounds(1)[of c] by (simp add: word_less_def)
    then show ?thesis using u by (simp add: ip_csum_sub_even_def ip_csum_with_carry_def t_def Let_def)
  next
    case False
    then have u: "uint t = uint c + uint x - 18446744073709551616"
      using uint_u64_bounds[of c] uint_u64_bounds[of x] mod_wrap[of "uint c + uint x"]
      by (simp add: t_def uint_word_ariths)
    then have lt: "t < x" using uint_u64_bounds(2)[of c] by (simp add: word_less_def)
    have "uint t + 1 < 18446744073709551616" using u uint_u64_bounds[of c] uint_u64_bounds[of x] by linarith
    then have "uint (t + 1) = uint t + 1" using uint_u64_bounds(1)[of t] by (simp add: uint_word_ariths)
    then have "uint (ip_csum_sub_even c x) = uint c + uint x + 65535 * - 281479271743489"
      using lt u by (simp add: ip_csum_sub_even_def ip_csum_with_carry_def t_def Let_def)
    then show ?thesis by (metis mod_mult_self2)
  qed
qed

lemma ip_csum_add_even_cong: "uint (ip_csum_add_even c x) mod 65535 = (uint c - uint x) mod 65535"
proof -
  define d where "d = c - x"
  show ?thesis
  proof (cases "uint x \<le> uint c")
    case True
    then have u: "uint d = uint c - uint x"
    proof -
      have "0 \<le> uint c - uint x" "uint c - uint x < 18446744073709551616"
        using True uint_u64_bounds[of c] uint_u64_bounds[of x] by linarith+
      then show ?thesis using mod_pos_pos_trivial by (simp add: d_def uint_word_ariths)
    qed
    then have "\<not> c < d" using uint_u64_bounds(1)[of x] by (simp add: word_less_def)
    then show ?thesis using u by (simp add: ip_csum_add_even_def d_def Let_def)
  next
    case False
    then have u: "uint d = uint c - uint x + 18446744073709551616"
    proof -
      have "0 \<le> uint c - uint x + 18446744073709551616" "uint c - uint x + 18446744073709551616 < 18446744073709551616"
        using False uint_u64_bounds[of c] uint_u64_bounds[of x] by linarith+
      then have "(uint c - uint x + 18446744073709551616) mod 18446744073709551616 = uint c - uint x + 18446744073709551616"
        by (rule mod_pos_pos_trivial)
      then show ?thesis by (simp add: d_def uint_word_ariths)
    qed
    then have lt: "c < d" using uint_u64_bounds(2)[of x] by (simp add: word_less_def)
    have "0 \<le> uint d - 1" using u uint_u64_bounds[of c] uint_u64_bounds[of x] by linarith
    then have "uint (d - 1) = uint d - 1" using uint_u64_bounds(2)[of d] by (simp add: uint_word_ariths)
    then have "uint (ip_csum_add_even c x) = uint c - uint x + 65535 * 281479271743489"
      using lt u by (simp add: ip_csum_add_even_def d_def Let_def)
    then show ?thesis by (metis mod_mult_self2)
  qed
qed

lemma fold64_step:
  "unat ((c AND mask k) + drop_bit k c) = unat (c :: u64) mod 2 ^ k + unat c div 2 ^ k" if "0 < k" "k < 64"
proof -
  have "unat c mod 2 ^ k < 2 ^ k" by simp
  moreover have "unat c div 2 ^ k < 2 ^ (64 - k)"
    using unsigned_less[of c, where ?'a = nat] that
    by (simp add: div_less_iff_less_mult flip: power_add)
  moreover have "(2::nat) ^ k \<le> 2 ^ 63" "(2::nat) ^ (64 - k) \<le> 2 ^ 63"
    using that by (auto intro!: power_increasing simp del: power_numeral)
  ultimately have "unat c mod 2 ^ k < 2 ^ 63" "unat c div 2 ^ k < 2 ^ 63" by (meson order.strict_trans2)+
  then have "unat c mod 2 ^ k + unat c div 2 ^ k < 2 ^ 64" by simp
  then show ?thesis
    using unsigned_less[of c, where ?'a = nat]
    by (simp add: unat_word_ariths unsigned_drop_bit_eq drop_bit_eq_div[where ?'a = nat] unsigned_take_bit_eq
      take_bit_eq_mod[where ?'a = nat] flip: take_bit_eq_mask)
qed

lemma ip_csum_fold_cong: "unat (ip_csum_fold c) mod 65535 = unat c mod 65535"
proof -
  have m: "(0xffffffff :: u64) = mask 32" "(0xffff :: u64) = mask 16" by (simp_all add: mask_eq_exp_minus_1)
  define c1 where "c1 = (c AND 0xffffffff) + drop_bit 32 c"
  define c2 where "c2 = (c1 AND 0xffff) + drop_bit 16 c1"
  define c3 where "c3 = (c2 AND 0xffff) + drop_bit 16 c2"
  define c4 where "c4 = (c3 AND 0xffff) + drop_bit 16 c3"
  have u1: "unat c1 = unat c mod 4294967296 + unat c div 4294967296"
    using fold64_step[of 32 c] by (simp add: c1_def m)
  have step: "unat ((w AND 0xffff) + drop_bit 16 w) = unat w mod 65536 + unat w div 65536" for w :: u64
    using fold64_step[of 16 w] by (simp add: m)
  have b: "unat c < 18446744073709551616" using unsigned_less[of c, where ?'a = nat] by simp
  have b1: "unat c1 < 8589934592" using u1 b by linarith
  have b2: "unat c2 < 196608" using step[of c1] b1 by (simp add: c2_def)
  have b3: "unat c3 < 65540" using step[of c2] b2 by (simp add: c3_def)
  have b4: "unat c4 < 65536" 
  proof (cases "unat c3 < 65536")
    case False
    then have "unat c3 mod 65536 = unat c3 - 65536" "unat c3 div 65536 = 1" using b3 by (simp_all add: mod_if)
    then show ?thesis using step[of c3] b3 False by (simp add: c4_def)
  qed (use step[of c3] in \<open>simp add: c4_def\<close>)
  have k: "(a mod 65536 + a div 65536) mod 65535 = a mod 65535" for a :: nat
  proof -
    have "a = (a mod 65536 + a div 65536) + 65535 * (a div 65536)" using div_mult_mod_eq[of a 65536] by linarith
    then show ?thesis by (metis mod_mult_self2)
  qed
  have "unat c = (unat c mod 4294967296 + unat c div 4294967296) + 65535 * (65537 * (unat c div 4294967296))"
    using div_mult_mod_eq[of "unat c" 4294967296] by linarith
  then have k1: "unat c1 mod 65535 = unat c mod 65535" unfolding u1 by (metis mod_mult_self2)
  have "unat c4 mod 65535 = unat c mod 65535"
    unfolding c4_def c3_def c2_def step k by (rule k1)
  moreover have "unat (ip_csum_fold c) = unat c4"
    using b4 by (simp add: ip_csum_fold_def Let_def c1_def c2_def c3_def c4_def unsigned_ucast_eq take_bit_nat_eq_self)
  ultimately show ?thesis by simp
qed

section \<open>Names in buffers\<close>

lemma put_append: "put h off (xs @ ys) = put (put h off xs) (off + length xs) ys"
  by (induction h off xs rule: put.induct) simp_all

lemma put_0: "length bs \<le> length xs \<Longrightarrow> put xs 0 bs = bs @ drop (length bs) xs"
proof (rule nth_equalityI)
  fix i assume "length bs \<le> length xs" "i < length (put xs 0 bs)"
  then show "put xs 0 bs ! i = (bs @ drop (length bs) xs) ! i"
    using byte_put[of xs 0 bs i] by (auto simp: byte_def nth_append)
qed simp

lemma le16_bytes: "ucast (le16 h q) = byte h q" "ucast (drop_bit 8 (le16 h q)) = byte h (Suc q)"
  by (rule bit_word_eqI; auto simp: le16_def bit_or_iff bit_push_bit_iff bit_unsigned_iff bit_drop_bit_eq
    dest: bit_imp_le_length)+

lemma field_4: "field ys q 4 = [byte ys q, byte ys (Suc q), byte ys (Suc (Suc q)), byte ys (Suc (Suc (Suc q)))]"
  by (simp add: field_def upt_rec)

lemma put_le32_le32: "put_le32 xs off (le32 ys q) = put xs off (field ys q 4)"
  by (simp add: put_le32_def put_le16_def bytes_le16_def le16_bytes field_4)

text \<open>Writing the address and then the suffix of a name reads the name back.\<close>

lemma name_buffer_put:
  assumes "length out = 20" "n + 4 \<le> 20"
  shows "put_le32 (put out 0 (field nb 0 n)) n (le32 nb n) = field nb 0 (n + 4) @ drop (n + 4) out"
proof -
  have "put (put out 0 (field nb 0 n)) n (field nb n 4) = put out 0 (field nb 0 n @ field nb n 4)"
    by (simp add: put_append)
  also have "\<dots> = field nb 0 (n + 4) @ drop (n + 4) out"
    using assms by (simp add: put_0 flip: field_append[of nb 0 n 4, simplified])
  finally show ?thesis by (simp add: put_le32_le32)
qed

end
