(* ===== verification/IpHeaders.thy ===== *)
theory IpHeaders
  imports Headers
begin

text \<open>
  The IPv4 and IPv6 headers (\<^verbatim>\<open>lib/src/protocol/ipv4.c\<close>, \<^verbatim>\<open>ipv6.c\<close>): one definition per function, and the
  two tables of operations. An operation that the source forwards with \<^verbatim>\<open>CHILD_OPS\<close> takes the table of
  the next layer as \<open>child\<close>; \<^verbatim>\<open>init_packet_header\<close> also reads the type.
\<close>

section \<open>IPv4\<close>

definition ipv4_get_current_header_length :: "bytes \<Rightarrow> nat \<Rightarrow> u64 \<Rightarrow> rc \<times> u64" where
  "ipv4_get_current_header_length h p header_length = (HICN_LIB_ERROR_NONE, of_nat IPV4_HDRLEN)"

definition ipv4_get_header_length :: "hicn_ops \<Rightarrow> bytes \<Rightarrow> nat \<Rightarrow> u64 \<Rightarrow> rc \<times> u64" where
  "ipv4_get_header_length child h p header_length =
     (case get_header_length child h (PAYLOAD ipv4_get_current_header_length h p) 0 of
        (rc, child_header_length) \<Rightarrow>
          if failed rc then (rc, header_length)
          else (HICN_LIB_ERROR_NONE, of_nat IPV4_HDRLEN + child_header_length))"

definition ipv4_pseudo_header :: "bytes \<Rightarrow> nat \<Rightarrow> bytes" where
  "ipv4_pseudo_header h p =
     field h (p + 12) 4 @ field h (p + 16) 4 @ [0, byte h (p + 9)] @ bytes_be16 (be16 h (p + 2) - of_nat IPV4_HDRLEN)"

definition IPV4_PSHDRLEN :: nat where "IPV4_PSHDRLEN = 12"

definition ipv4_get_payload_length :: "hicn_ops \<Rightarrow> bytes \<Rightarrow> nat \<Rightarrow> u64 \<Rightarrow> rc \<times> u64" where
  "ipv4_get_payload_length child h p payload_length =
     (case get_header_length child h (PAYLOAD ipv4_get_current_header_length h p) 0 of
        (rc, child_header_length) \<Rightarrow>
          if failed rc then (rc, payload_length)
          else (HICN_LIB_ERROR_NONE, ucast (be16 h (p + 2)) - of_nat IPV4_HDRLEN - child_header_length))"

definition ipv4_init_packet_header :: "hicn_type \<Rightarrow> hicn_ops \<Rightarrow> bytes \<Rightarrow> nat \<Rightarrow> rc \<times> bytes" where
  "ipv4_init_packet_header ty child h p =
     (case ipv4_get_header_length child h p 0 of
        (rc, total_header_length) \<Rightarrow>
          if failed rc then (rc, h)
          else (let h = put h p ([0x45, 0] @ bytes_be16 (ucast total_header_length) @ bytes_be16 300 @ bytes_be16 0 @
                          [HICN_DEFAULT_TTL, layer1 (TYPE_POP ty)] @ replicate 10 0)
                in init_packet_header child h (PAYLOAD ipv4_get_current_header_length h p)))"

definition ipv4_get_interest_locator :: "bytes \<Rightarrow> nat \<Rightarrow> bytes \<Rightarrow> rc \<times> bytes" where
  "ipv4_get_interest_locator h p ip_address =
     (HICN_LIB_ERROR_NONE, put ip_address 12 (field h (p + 12) 4))"

definition ipv4_set_interest_locator :: "bytes \<Rightarrow> nat \<Rightarrow> bytes \<Rightarrow> rc \<times> bytes" where
  "ipv4_set_interest_locator h p ip_address =
     (HICN_LIB_ERROR_NONE, put h (p + 12) (field ip_address 12 4))"

definition ipv4_get_interest_name :: "hicn_ops \<Rightarrow> bytes \<Rightarrow> nat \<Rightarrow> hicn_name \<Rightarrow> rc \<times> hicn_name" where
  "ipv4_get_interest_name child h p name =
     (let name = name\<lparr>name_buffer := put (name_buffer name) 0 (field h (p + 16) 4)\<rparr>;
          name = name\<lparr>name_type := HNT_CONTIGUOUS_V4, name_len := of_nat HICN_V4_NAME_LEN\<rparr>
      in case get_interest_name_suffix child h (PAYLOAD ipv4_get_current_header_length h p)
                (le32 (name_buffer name) 4) of
           (rc, sfx) \<Rightarrow> (rc, name\<lparr>name_buffer := put_le32 (name_buffer name) 4 sfx\<rparr>))"

definition ipv4_set_interest_name :: "hicn_ops \<Rightarrow> bytes \<Rightarrow> nat \<Rightarrow> hicn_name \<Rightarrow> rc \<times> bytes" where
  "ipv4_set_interest_name child h p name =
     (let h = put h (p + 16) (field (name_buffer name) 0 4)
      in set_interest_name_suffix child h (PAYLOAD ipv4_get_current_header_length h p)
           (le32 (name_buffer name) 4))"

definition ipv4_get_interest_name_suffix :: "hicn_ops \<Rightarrow> bytes \<Rightarrow> nat \<Rightarrow> u32 \<Rightarrow> rc \<times> u32" where
  "ipv4_get_interest_name_suffix child h p sfx = get_interest_name_suffix child h (PAYLOAD ipv4_get_current_header_length h p) sfx"

definition ipv4_set_interest_name_suffix :: "hicn_ops \<Rightarrow> bytes \<Rightarrow> nat \<Rightarrow> u32 \<Rightarrow> rc \<times> bytes" where
  "ipv4_set_interest_name_suffix child h p sfx = set_interest_name_suffix child h (PAYLOAD ipv4_get_current_header_length h p) sfx"

definition ipv4_mark_packet_as_interest :: "hicn_ops \<Rightarrow> bytes \<Rightarrow> nat \<Rightarrow> rc \<times> bytes" where
  "ipv4_mark_packet_as_interest child h p = mark_packet_as_interest child h (PAYLOAD ipv4_get_current_header_length h p)"

definition ipv4_mark_packet_as_data :: "hicn_ops \<Rightarrow> bytes \<Rightarrow> nat \<Rightarrow> rc \<times> bytes" where
  "ipv4_mark_packet_as_data child h p = mark_packet_as_data child h (PAYLOAD ipv4_get_current_header_length h p)"

definition ipv4_reset_interest_for_hash :: "hicn_ops \<Rightarrow> bytes \<Rightarrow> nat \<Rightarrow> rc \<times> bytes" where
  "ipv4_reset_interest_for_hash child h p =
     (let h = put h p (replicate 16 0)
      in reset_interest_for_hash child h (PAYLOAD ipv4_get_current_header_length h p))"

definition ipv4_get_data_locator :: "bytes \<Rightarrow> nat \<Rightarrow> bytes \<Rightarrow> rc \<times> bytes" where
  "ipv4_get_data_locator h p ip_address =
     (HICN_LIB_ERROR_NONE, put ip_address 12 (field h (p + 16) 4))"

definition ipv4_set_data_locator :: "bytes \<Rightarrow> nat \<Rightarrow> bytes \<Rightarrow> rc \<times> bytes" where
  "ipv4_set_data_locator h p ip_address =
     (HICN_LIB_ERROR_NONE, put h (p + 16) (field ip_address 12 4))"

definition ipv4_get_data_name :: "hicn_ops \<Rightarrow> bytes \<Rightarrow> nat \<Rightarrow> hicn_name \<Rightarrow> rc \<times> hicn_name" where
  "ipv4_get_data_name child h p name =
     (let name = name\<lparr>name_buffer := put (name_buffer name) 0 (field h (p + 12) 4)\<rparr>;
          name = name\<lparr>name_type := HNT_CONTIGUOUS_V4, name_len := of_nat HICN_V4_NAME_LEN\<rparr>
      in case get_data_name_suffix child h (PAYLOAD ipv4_get_current_header_length h p)
                (le32 (name_buffer name) 4) of
           (rc, sfx) \<Rightarrow> (rc, name\<lparr>name_buffer := put_le32 (name_buffer name) 4 sfx\<rparr>))"

definition ipv4_set_data_name :: "hicn_ops \<Rightarrow> bytes \<Rightarrow> nat \<Rightarrow> hicn_name \<Rightarrow> rc \<times> bytes" where
  "ipv4_set_data_name child h p name =
     (let h = put h (p + 12) (field (name_buffer name) 0 4)
      in set_data_name_suffix child h (PAYLOAD ipv4_get_current_header_length h p)
           (le32 (name_buffer name) 4))"

definition ipv4_get_data_name_suffix :: "hicn_ops \<Rightarrow> bytes \<Rightarrow> nat \<Rightarrow> u32 \<Rightarrow> rc \<times> u32" where
  "ipv4_get_data_name_suffix child h p sfx = get_data_name_suffix child h (PAYLOAD ipv4_get_current_header_length h p) sfx"

definition ipv4_set_data_name_suffix :: "hicn_ops \<Rightarrow> bytes \<Rightarrow> nat \<Rightarrow> u32 \<Rightarrow> rc \<times> bytes" where
  "ipv4_set_data_name_suffix child h p sfx = set_data_name_suffix child h (PAYLOAD ipv4_get_current_header_length h p) sfx"

definition ipv4_get_data_pathlabel :: "hicn_ops \<Rightarrow> bytes \<Rightarrow> nat \<Rightarrow> u32 \<Rightarrow> rc \<times> u32" where
  "ipv4_get_data_pathlabel child h p pathlabel = get_data_pathlabel child h (PAYLOAD ipv4_get_current_header_length h p) pathlabel"

definition ipv4_set_data_pathlabel :: "hicn_ops \<Rightarrow> bytes \<Rightarrow> nat \<Rightarrow> u32 \<Rightarrow> rc \<times> bytes" where
  "ipv4_set_data_pathlabel child h p pathlabel = set_data_pathlabel child h (PAYLOAD ipv4_get_current_header_length h p) pathlabel"

definition ipv4_update_data_pathlabel :: "hicn_ops \<Rightarrow> bytes \<Rightarrow> nat \<Rightarrow> u32 \<Rightarrow> rc \<times> bytes" where
  "ipv4_update_data_pathlabel child h p face_id = update_data_pathlabel child h (PAYLOAD ipv4_get_current_header_length h p) face_id"

definition ipv4_reset_data_for_hash :: "hicn_ops \<Rightarrow> bytes \<Rightarrow> nat \<Rightarrow> rc \<times> bytes" where
  "ipv4_reset_data_for_hash child h p =
     (let h = put h p (replicate 12 0);
          h = put h (p + 16) (replicate 4 0)
      in reset_data_for_hash child h (PAYLOAD ipv4_get_current_header_length h p))"

definition ipv4_get_lifetime :: "hicn_ops \<Rightarrow> bytes \<Rightarrow> nat \<Rightarrow> u32 \<Rightarrow> rc \<times> u32" where
  "ipv4_get_lifetime child h p lifetime = get_lifetime child h (PAYLOAD ipv4_get_current_header_length h p) lifetime"

definition ipv4_set_lifetime :: "hicn_ops \<Rightarrow> bytes \<Rightarrow> nat \<Rightarrow> u32 \<Rightarrow> rc \<times> bytes" where
  "ipv4_set_lifetime child h p lifetime = set_lifetime child h (PAYLOAD ipv4_get_current_header_length h p) lifetime"

definition ipv4_update_checksums :: "hicn_ops \<Rightarrow> bytes \<Rightarrow> nat \<Rightarrow> u16 \<Rightarrow> u64 \<Rightarrow> rc \<times> bytes" where
  "ipv4_update_checksums child h p partial_csum payload_length =
     (let h = put_le16 h (p + 10) 0;
          h = put_le16 h (p + 10) (csum h p IPV4_HDRLEN 0);
          (rc, payload_length) =
            (if payload_length = 0 then ipv4_get_payload_length child h p payload_length
             else (HICN_LIB_ERROR_NONE, payload_length))
      in if failed rc then (rc, h)
         else (let payload_length = (if payload_length = - 1 then 0 else payload_length);
                   partial_csum = (if partial_csum \<noteq> 0 then NOT partial_csum else partial_csum);
                   partial_csum = csum (ipv4_pseudo_header h p) 0 IPV4_PSHDRLEN partial_csum
               in update_checksums child h (PAYLOAD ipv4_get_current_header_length h p) partial_csum payload_length))"

definition ipv4_verify_checksums :: "hicn_ops \<Rightarrow> bytes \<Rightarrow> nat \<Rightarrow> u16 \<Rightarrow> u64 \<Rightarrow> rc \<times> bytes" where
  "ipv4_verify_checksums child h p partial_csum payload_length =
     (if csum h p IPV4_HDRLEN 0 \<noteq> 0 then (HICN_LIB_ERROR_CORRUPTED_PACKET, h)
      else (let (rc, payload_length) =
                  (if payload_length = 0 then ipv4_get_payload_length child h p payload_length
                   else (HICN_LIB_ERROR_NONE, payload_length))
            in if failed rc then (rc, h)
               else (let partial_csum = csum (ipv4_pseudo_header h p) 0 IPV4_PSHDRLEN 0
                     in update_checksums child h (PAYLOAD ipv4_get_current_header_length h p) partial_csum payload_length)))"

definition ipv4_rewrite_interest :: "hicn_ops \<Rightarrow> bytes \<Rightarrow> nat \<Rightarrow> bytes \<Rightarrow> bytes \<Rightarrow> rc \<times> bytes \<times> bytes" where
  "ipv4_rewrite_interest child h p addr_new addr_old =
     (let addr_old = put addr_old 12 (field h (p + 12) 4);
          addr_old = put addr_old 0 (replicate 12 0);
          h = put h (p + 12) (field addr_new 12 4);
          h = put_le16 h (p + 10) 0;
          h = put_le16 h (p + 10) (csum h p IPV4_HDRLEN 0)
      in rewrite_interest child h (PAYLOAD ipv4_get_current_header_length h p) addr_new addr_old)"

definition ipv4_rewrite_data :: "hicn_ops \<Rightarrow> bytes \<Rightarrow> nat \<Rightarrow> bytes \<Rightarrow> bytes \<Rightarrow> u32 \<Rightarrow> u8 \<Rightarrow> rc \<times> bytes \<times> bytes" where
  "ipv4_rewrite_data child h p addr_new addr_old face_id reset_pl =
     (let addr_old = put addr_old 12 (field h (p + 16) 4);
          addr_old = put addr_old 0 (replicate 12 0);
          h = put h (p + 16) (field addr_new 12 4);
          h = put_le16 h (p + 10) 0;
          h = put_le16 h (p + 10) (csum h p IPV4_HDRLEN 0)
      in rewrite_data child h (PAYLOAD ipv4_get_current_header_length h p) addr_new addr_old face_id reset_pl)"

definition ipv4_get_length :: "bytes \<Rightarrow> nat \<Rightarrow> u64 \<Rightarrow> rc \<times> u64" where
  "ipv4_get_length h p header_length = (HICN_LIB_ERROR_NONE, ucast (le16 h (p + 2)))"

definition ipv4_set_payload_length :: "hicn_ops \<Rightarrow> bytes \<Rightarrow> nat \<Rightarrow> u64 \<Rightarrow> rc \<times> bytes" where
  "ipv4_set_payload_length child h p payload_length =
     (case get_header_length child h (PAYLOAD ipv4_get_current_header_length h p) 0 of
        (rc, child_header_length) \<Rightarrow>
          if failed rc then (rc, h)
          else (HICN_LIB_ERROR_NONE,
            put_be16 h (p + 2) (ucast (payload_length + of_nat IPV4_HDRLEN + child_header_length))))"

definition ipv4_get_signature_size :: "hicn_ops \<Rightarrow> bytes \<Rightarrow> nat \<Rightarrow> u64 \<Rightarrow> rc \<times> u64" where
  "ipv4_get_signature_size child h p signature_size = get_signature_size child h (PAYLOAD ipv4_get_current_header_length h p) signature_size"

definition ipv4_set_signature_size :: "hicn_ops \<Rightarrow> bytes \<Rightarrow> nat \<Rightarrow> u64 \<Rightarrow> rc \<times> bytes" where
  "ipv4_set_signature_size child h p signature_size = set_signature_size child h (PAYLOAD ipv4_get_current_header_length h p) signature_size"

definition ipv4_get_signature_timestamp :: "hicn_ops \<Rightarrow> bytes \<Rightarrow> nat \<Rightarrow> u64 \<Rightarrow> rc \<times> u64" where
  "ipv4_get_signature_timestamp child h p signature_timestamp = get_signature_timestamp child h (PAYLOAD ipv4_get_current_header_length h p) signature_timestamp"

definition ipv4_set_signature_timestamp :: "hicn_ops \<Rightarrow> bytes \<Rightarrow> nat \<Rightarrow> u64 \<Rightarrow> rc \<times> bytes" where
  "ipv4_set_signature_timestamp child h p signature_timestamp = set_signature_timestamp child h (PAYLOAD ipv4_get_current_header_length h p) signature_timestamp"

definition ipv4_get_validation_algorithm :: "hicn_ops \<Rightarrow> bytes \<Rightarrow> nat \<Rightarrow> u8 \<Rightarrow> rc \<times> u8" where
  "ipv4_get_validation_algorithm child h p validation_algorithm = get_validation_algorithm child h (PAYLOAD ipv4_get_current_header_length h p) validation_algorithm"

definition ipv4_set_validation_algorithm :: "hicn_ops \<Rightarrow> bytes \<Rightarrow> nat \<Rightarrow> u8 \<Rightarrow> rc \<times> bytes" where
  "ipv4_set_validation_algorithm child h p validation_algorithm = set_validation_algorithm child h (PAYLOAD ipv4_get_current_header_length h p) validation_algorithm"

definition ipv4_get_key_id :: "hicn_ops \<Rightarrow> bytes \<Rightarrow> nat \<Rightarrow> nat \<times> u8 \<Rightarrow> rc \<times> (nat \<times> u8)" where
  "ipv4_get_key_id child h p key_id = get_key_id child h (PAYLOAD ipv4_get_current_header_length h p) key_id"

definition ipv4_set_key_id :: "hicn_ops \<Rightarrow> bytes \<Rightarrow> nat \<Rightarrow> bytes \<Rightarrow> rc \<times> bytes" where
  "ipv4_set_key_id child h p key_id = set_key_id child h (PAYLOAD ipv4_get_current_header_length h p) key_id"

definition ipv4_get_signature :: "hicn_ops \<Rightarrow> bytes \<Rightarrow> nat \<Rightarrow> nat \<Rightarrow> rc \<times> nat" where
  "ipv4_get_signature child h p signature = get_signature child h (PAYLOAD ipv4_get_current_header_length h p) signature"

definition hicn_ops_ipv4 :: "hicn_type \<Rightarrow> hicn_ops \<Rightarrow> hicn_ops" where
  "hicn_ops_ipv4 ty child = \<lparr>
     init_packet_header = ipv4_init_packet_header ty child,
     get_interest_locator = ipv4_get_interest_locator,
     set_interest_locator = ipv4_set_interest_locator,
     get_interest_name = ipv4_get_interest_name child,
     set_interest_name = ipv4_set_interest_name child,
     get_interest_name_suffix = ipv4_get_interest_name_suffix child,
     set_interest_name_suffix = ipv4_set_interest_name_suffix child,
     mark_packet_as_interest = ipv4_mark_packet_as_interest child,
     mark_packet_as_data = ipv4_mark_packet_as_data child,
     reset_interest_for_hash = ipv4_reset_interest_for_hash child,
     get_data_locator = ipv4_get_data_locator,
     set_data_locator = ipv4_set_data_locator,
     get_data_name = ipv4_get_data_name child,
     set_data_name = ipv4_set_data_name child,
     get_data_name_suffix = ipv4_get_data_name_suffix child,
     set_data_name_suffix = ipv4_set_data_name_suffix child,
     get_data_pathlabel = ipv4_get_data_pathlabel child,
     set_data_pathlabel = ipv4_set_data_pathlabel child,
     update_data_pathlabel = ipv4_update_data_pathlabel child,
     reset_data_for_hash = ipv4_reset_data_for_hash child,
     get_lifetime = ipv4_get_lifetime child,
     set_lifetime = ipv4_set_lifetime child,
     update_checksums = ipv4_update_checksums child,
     verify_checksums = ipv4_verify_checksums child,
     rewrite_interest = ipv4_rewrite_interest child,
     rewrite_data = ipv4_rewrite_data child,
     get_length = ipv4_get_length,
     get_current_header_length = ipv4_get_current_header_length,
     get_header_length = ipv4_get_header_length child,
     get_payload_length = ipv4_get_payload_length child,
     set_payload_length = ipv4_set_payload_length child,
     get_signature_size = ipv4_get_signature_size child,
     set_signature_size = ipv4_set_signature_size child,
     get_signature_timestamp = ipv4_get_signature_timestamp child,
     set_signature_timestamp = ipv4_set_signature_timestamp child,
     get_validation_algorithm = ipv4_get_validation_algorithm child,
     set_validation_algorithm = ipv4_set_validation_algorithm child,
     get_key_id = ipv4_get_key_id child,
     set_key_id = ipv4_set_key_id child,
     get_signature = ipv4_get_signature child\<rparr>"

lemma hicn_ops_ipv4_sel [simp]:
  "init_packet_header (hicn_ops_ipv4 ty child) = ipv4_init_packet_header ty child"
  "get_interest_locator (hicn_ops_ipv4 ty child) = ipv4_get_interest_locator"
  "set_interest_locator (hicn_ops_ipv4 ty child) = ipv4_set_interest_locator"
  "get_interest_name (hicn_ops_ipv4 ty child) = ipv4_get_interest_name child"
  "set_interest_name (hicn_ops_ipv4 ty child) = ipv4_set_interest_name child"
  "get_interest_name_suffix (hicn_ops_ipv4 ty child) = ipv4_get_interest_name_suffix child"
  "set_interest_name_suffix (hicn_ops_ipv4 ty child) = ipv4_set_interest_name_suffix child"
  "mark_packet_as_interest (hicn_ops_ipv4 ty child) = ipv4_mark_packet_as_interest child"
  "mark_packet_as_data (hicn_ops_ipv4 ty child) = ipv4_mark_packet_as_data child"
  "reset_interest_for_hash (hicn_ops_ipv4 ty child) = ipv4_reset_interest_for_hash child"
  "get_data_locator (hicn_ops_ipv4 ty child) = ipv4_get_data_locator"
  "set_data_locator (hicn_ops_ipv4 ty child) = ipv4_set_data_locator"
  "get_data_name (hicn_ops_ipv4 ty child) = ipv4_get_data_name child"
  "set_data_name (hicn_ops_ipv4 ty child) = ipv4_set_data_name child"
  "get_data_name_suffix (hicn_ops_ipv4 ty child) = ipv4_get_data_name_suffix child"
  "set_data_name_suffix (hicn_ops_ipv4 ty child) = ipv4_set_data_name_suffix child"
  "get_data_pathlabel (hicn_ops_ipv4 ty child) = ipv4_get_data_pathlabel child"
  "set_data_pathlabel (hicn_ops_ipv4 ty child) = ipv4_set_data_pathlabel child"
  "update_data_pathlabel (hicn_ops_ipv4 ty child) = ipv4_update_data_pathlabel child"
  "reset_data_for_hash (hicn_ops_ipv4 ty child) = ipv4_reset_data_for_hash child"
  "get_lifetime (hicn_ops_ipv4 ty child) = ipv4_get_lifetime child"
  "set_lifetime (hicn_ops_ipv4 ty child) = ipv4_set_lifetime child"
  "update_checksums (hicn_ops_ipv4 ty child) = ipv4_update_checksums child"
  "verify_checksums (hicn_ops_ipv4 ty child) = ipv4_verify_checksums child"
  "rewrite_interest (hicn_ops_ipv4 ty child) = ipv4_rewrite_interest child"
  "rewrite_data (hicn_ops_ipv4 ty child) = ipv4_rewrite_data child"
  "get_length (hicn_ops_ipv4 ty child) = ipv4_get_length"
  "get_current_header_length (hicn_ops_ipv4 ty child) = ipv4_get_current_header_length"
  "get_header_length (hicn_ops_ipv4 ty child) = ipv4_get_header_length child"
  "get_payload_length (hicn_ops_ipv4 ty child) = ipv4_get_payload_length child"
  "set_payload_length (hicn_ops_ipv4 ty child) = ipv4_set_payload_length child"
  "get_signature_size (hicn_ops_ipv4 ty child) = ipv4_get_signature_size child"
  "set_signature_size (hicn_ops_ipv4 ty child) = ipv4_set_signature_size child"
  "get_signature_timestamp (hicn_ops_ipv4 ty child) = ipv4_get_signature_timestamp child"
  "set_signature_timestamp (hicn_ops_ipv4 ty child) = ipv4_set_signature_timestamp child"
  "get_validation_algorithm (hicn_ops_ipv4 ty child) = ipv4_get_validation_algorithm child"
  "set_validation_algorithm (hicn_ops_ipv4 ty child) = ipv4_set_validation_algorithm child"
  "get_key_id (hicn_ops_ipv4 ty child) = ipv4_get_key_id child"
  "set_key_id (hicn_ops_ipv4 ty child) = ipv4_set_key_id child"
  "get_signature (hicn_ops_ipv4 ty child) = ipv4_get_signature child"
  by (simp_all add: hicn_ops_ipv4_def)

section \<open>IPv6\<close>

definition ipv6_get_current_header_length :: "bytes \<Rightarrow> nat \<Rightarrow> u64 \<Rightarrow> rc \<times> u64" where
  "ipv6_get_current_header_length h p header_length = (HICN_LIB_ERROR_NONE, of_nat IPV6_HDRLEN)"

definition ipv6_get_header_length :: "hicn_ops \<Rightarrow> bytes \<Rightarrow> nat \<Rightarrow> u64 \<Rightarrow> rc \<times> u64" where
  "ipv6_get_header_length child h p header_length =
     (case get_header_length child h (PAYLOAD ipv6_get_current_header_length h p) 0 of
        (rc, child_header_length) \<Rightarrow>
          if failed rc then (rc, header_length)
          else (HICN_LIB_ERROR_NONE, of_nat IPV6_HDRLEN + child_header_length))"

definition ipv6_pseudo_header :: "bytes \<Rightarrow> nat \<Rightarrow> bytes" where
  "ipv6_pseudo_header h p =
     field h (p + 8) 16 @ field h (p + 24) 16 @ [0, 0] @ bytes_be16 (be16 h (p + 4)) @ [0, 0, 0, byte h (p + 6)]"

definition IPV6_PSHDRLEN :: nat where "IPV6_PSHDRLEN = 40"

definition ipv6_get_payload_length :: "hicn_ops \<Rightarrow> bytes \<Rightarrow> nat \<Rightarrow> u64 \<Rightarrow> rc \<times> u64" where
  "ipv6_get_payload_length child h p payload_length =
     (case get_header_length child h (PAYLOAD ipv6_get_current_header_length h p) 0 of
        (rc, child_header_length) \<Rightarrow>
          if failed rc then (rc, payload_length)
          else (HICN_LIB_ERROR_NONE, ucast (be16 h (p + 4)) - child_header_length))"

definition ipv6_init_packet_header :: "hicn_type \<Rightarrow> hicn_ops \<Rightarrow> bytes \<Rightarrow> nat \<Rightarrow> rc \<times> bytes" where
  "ipv6_init_packet_header ty child h p =
     (case get_header_length child h (PAYLOAD ipv6_get_current_header_length h p) 0 of
        (rc, total_header_length) \<Rightarrow>
          if failed rc then (rc, h)
          else (let h = put h p ([0x60, 0, 0, 0] @ bytes_be16 (ucast total_header_length) @
                          [layer1 (TYPE_POP ty), HICN_DEFAULT_TTL] @ replicate 32 0)
                in init_packet_header child h (PAYLOAD ipv6_get_current_header_length h p)))"

definition ipv6_get_interest_locator :: "bytes \<Rightarrow> nat \<Rightarrow> bytes \<Rightarrow> rc \<times> bytes" where
  "ipv6_get_interest_locator h p ip_address =
     (HICN_LIB_ERROR_NONE, field h (p + 8) 16)"

definition ipv6_set_interest_locator :: "bytes \<Rightarrow> nat \<Rightarrow> bytes \<Rightarrow> rc \<times> bytes" where
  "ipv6_set_interest_locator h p ip_address =
     (HICN_LIB_ERROR_NONE, put h (p + 8) (field ip_address 0 16))"

definition ipv6_get_interest_name :: "hicn_ops \<Rightarrow> bytes \<Rightarrow> nat \<Rightarrow> hicn_name \<Rightarrow> rc \<times> hicn_name" where
  "ipv6_get_interest_name child h p name =
     (let name = name\<lparr>name_buffer := put (name_buffer name) 0 (field h (p + 24) 16)\<rparr>;
          name = name\<lparr>name_type := HNT_CONTIGUOUS_V6, name_len := of_nat HICN_V6_NAME_LEN\<rparr>
      in case get_interest_name_suffix child h (PAYLOAD ipv6_get_current_header_length h p)
                (le32 (name_buffer name) 16) of
           (rc, sfx) \<Rightarrow> (rc, name\<lparr>name_buffer := put_le32 (name_buffer name) 16 sfx\<rparr>))"

definition ipv6_set_interest_name :: "hicn_ops \<Rightarrow> bytes \<Rightarrow> nat \<Rightarrow> hicn_name \<Rightarrow> rc \<times> bytes" where
  "ipv6_set_interest_name child h p name =
     (let h = put h (p + 24) (field (name_buffer name) 0 16)
      in set_interest_name_suffix child h (PAYLOAD ipv6_get_current_header_length h p)
           (le32 (name_buffer name) 16))"

definition ipv6_get_interest_name_suffix :: "hicn_ops \<Rightarrow> bytes \<Rightarrow> nat \<Rightarrow> u32 \<Rightarrow> rc \<times> u32" where
  "ipv6_get_interest_name_suffix child h p sfx = get_interest_name_suffix child h (PAYLOAD ipv6_get_current_header_length h p) sfx"

definition ipv6_set_interest_name_suffix :: "hicn_ops \<Rightarrow> bytes \<Rightarrow> nat \<Rightarrow> u32 \<Rightarrow> rc \<times> bytes" where
  "ipv6_set_interest_name_suffix child h p sfx = set_interest_name_suffix child h (PAYLOAD ipv6_get_current_header_length h p) sfx"

definition ipv6_mark_packet_as_interest :: "hicn_ops \<Rightarrow> bytes \<Rightarrow> nat \<Rightarrow> rc \<times> bytes" where
  "ipv6_mark_packet_as_interest child h p = mark_packet_as_interest child h (PAYLOAD ipv6_get_current_header_length h p)"

definition ipv6_mark_packet_as_data :: "hicn_ops \<Rightarrow> bytes \<Rightarrow> nat \<Rightarrow> rc \<times> bytes" where
  "ipv6_mark_packet_as_data child h p = mark_packet_as_data child h (PAYLOAD ipv6_get_current_header_length h p)"

definition ipv6_reset_interest_for_hash :: "hicn_ops \<Rightarrow> bytes \<Rightarrow> nat \<Rightarrow> rc \<times> bytes" where
  "ipv6_reset_interest_for_hash child h p =
     (let h = put h p (replicate 24 0)
      in reset_interest_for_hash child h (PAYLOAD ipv6_get_current_header_length h p))"

definition ipv6_get_data_locator :: "bytes \<Rightarrow> nat \<Rightarrow> bytes \<Rightarrow> rc \<times> bytes" where
  "ipv6_get_data_locator h p ip_address =
     (HICN_LIB_ERROR_NONE, field h (p + 24) 16)"

definition ipv6_set_data_locator :: "bytes \<Rightarrow> nat \<Rightarrow> bytes \<Rightarrow> rc \<times> bytes" where
  "ipv6_set_data_locator h p ip_address =
     (HICN_LIB_ERROR_NONE, put h (p + 24) (field ip_address 0 16))"

definition ipv6_get_data_name :: "hicn_ops \<Rightarrow> bytes \<Rightarrow> nat \<Rightarrow> hicn_name \<Rightarrow> rc \<times> hicn_name" where
  "ipv6_get_data_name child h p name =
     (let name = name\<lparr>name_buffer := put (name_buffer name) 0 (field h (p + 8) 16)\<rparr>;
          name = name\<lparr>name_type := HNT_CONTIGUOUS_V6, name_len := of_nat HICN_V6_NAME_LEN\<rparr>
      in case get_data_name_suffix child h (PAYLOAD ipv6_get_current_header_length h p)
                (le32 (name_buffer name) 16) of
           (rc, sfx) \<Rightarrow> (rc, name\<lparr>name_buffer := put_le32 (name_buffer name) 16 sfx\<rparr>))"

definition ipv6_set_data_name :: "hicn_ops \<Rightarrow> bytes \<Rightarrow> nat \<Rightarrow> hicn_name \<Rightarrow> rc \<times> bytes" where
  "ipv6_set_data_name child h p name =
     (let h = put h (p + 8) (field (name_buffer name) 0 16)
      in set_data_name_suffix child h (PAYLOAD ipv6_get_current_header_length h p)
           (le32 (name_buffer name) 16))"

definition ipv6_get_data_name_suffix :: "hicn_ops \<Rightarrow> bytes \<Rightarrow> nat \<Rightarrow> u32 \<Rightarrow> rc \<times> u32" where
  "ipv6_get_data_name_suffix child h p sfx = get_data_name_suffix child h (PAYLOAD ipv6_get_current_header_length h p) sfx"

definition ipv6_set_data_name_suffix :: "hicn_ops \<Rightarrow> bytes \<Rightarrow> nat \<Rightarrow> u32 \<Rightarrow> rc \<times> bytes" where
  "ipv6_set_data_name_suffix child h p sfx = set_data_name_suffix child h (PAYLOAD ipv6_get_current_header_length h p) sfx"

definition ipv6_get_data_pathlabel :: "hicn_ops \<Rightarrow> bytes \<Rightarrow> nat \<Rightarrow> u32 \<Rightarrow> rc \<times> u32" where
  "ipv6_get_data_pathlabel child h p pathlabel = get_data_pathlabel child h (PAYLOAD ipv6_get_current_header_length h p) pathlabel"

definition ipv6_set_data_pathlabel :: "hicn_ops \<Rightarrow> bytes \<Rightarrow> nat \<Rightarrow> u32 \<Rightarrow> rc \<times> bytes" where
  "ipv6_set_data_pathlabel child h p pathlabel = set_data_pathlabel child h (PAYLOAD ipv6_get_current_header_length h p) pathlabel"

definition ipv6_update_data_pathlabel :: "hicn_ops \<Rightarrow> bytes \<Rightarrow> nat \<Rightarrow> u32 \<Rightarrow> rc \<times> bytes" where
  "ipv6_update_data_pathlabel child h p face_id = update_data_pathlabel child h (PAYLOAD ipv6_get_current_header_length h p) face_id"

definition ipv6_reset_data_for_hash :: "hicn_ops \<Rightarrow> bytes \<Rightarrow> nat \<Rightarrow> rc \<times> bytes" where
  "ipv6_reset_data_for_hash child h p =
     (let h = put h p (replicate 8 0);
          h = put h (p + 24) (replicate 16 0)
      in reset_data_for_hash child h (PAYLOAD ipv6_get_current_header_length h p))"

definition ipv6_get_lifetime :: "hicn_ops \<Rightarrow> bytes \<Rightarrow> nat \<Rightarrow> u32 \<Rightarrow> rc \<times> u32" where
  "ipv6_get_lifetime child h p lifetime = get_lifetime child h (PAYLOAD ipv6_get_current_header_length h p) lifetime"

definition ipv6_set_lifetime :: "hicn_ops \<Rightarrow> bytes \<Rightarrow> nat \<Rightarrow> u32 \<Rightarrow> rc \<times> bytes" where
  "ipv6_set_lifetime child h p lifetime = set_lifetime child h (PAYLOAD ipv6_get_current_header_length h p) lifetime"

definition ipv6_update_checksums :: "hicn_ops \<Rightarrow> bytes \<Rightarrow> nat \<Rightarrow> u16 \<Rightarrow> u64 \<Rightarrow> rc \<times> bytes" where
  "ipv6_update_checksums child h p partial_csum payload_length =
     (let (rc, payload_length) =
            (if payload_length = - 1 then ipv6_get_payload_length child h p payload_length
             else (HICN_LIB_ERROR_NONE, payload_length))
      in if failed rc then (rc, h)
         else (let partial_csum = (if partial_csum \<noteq> 0 then NOT partial_csum else partial_csum);
                   partial_csum = csum (ipv6_pseudo_header h p) 0 IPV6_PSHDRLEN partial_csum
               in update_checksums child h (PAYLOAD ipv6_get_current_header_length h p) partial_csum payload_length))"

definition ipv6_verify_checksums :: "hicn_ops \<Rightarrow> bytes \<Rightarrow> nat \<Rightarrow> u16 \<Rightarrow> u64 \<Rightarrow> rc \<times> bytes" where
  "ipv6_verify_checksums child h p partial_csum payload_length =
     (let (rc, payload_length) =
            (if payload_length = - 1 then ipv6_get_payload_length child h p payload_length
             else (HICN_LIB_ERROR_NONE, payload_length))
      in if failed rc then (rc, h)
         else (let partial_csum = (if partial_csum \<noteq> 0 then NOT partial_csum else partial_csum);
                   partial_csum = csum (ipv6_pseudo_header h p) 0 IPV6_PSHDRLEN partial_csum
               in verify_checksums child h (PAYLOAD ipv6_get_current_header_length h p) partial_csum payload_length))"

definition ipv6_rewrite_interest :: "hicn_ops \<Rightarrow> bytes \<Rightarrow> nat \<Rightarrow> bytes \<Rightarrow> bytes \<Rightarrow> rc \<times> bytes \<times> bytes" where
  "ipv6_rewrite_interest child h p addr_new addr_old =
     (let addr_old = field h (p + 8) 16;
          h = put h (p + 8) (field addr_new 0 16)
      in rewrite_interest child h (PAYLOAD ipv6_get_current_header_length h p) addr_new addr_old)"

definition ipv6_rewrite_data :: "hicn_ops \<Rightarrow> bytes \<Rightarrow> nat \<Rightarrow> bytes \<Rightarrow> bytes \<Rightarrow> u32 \<Rightarrow> u8 \<Rightarrow> rc \<times> bytes \<times> bytes" where
  "ipv6_rewrite_data child h p addr_new addr_old face_id reset_pl =
     (let addr_old = field h (p + 24) 16;
          h = put h (p + 24) (field addr_new 0 16)
      in rewrite_data child h (PAYLOAD ipv6_get_current_header_length h p) addr_new addr_old face_id reset_pl)"

definition ipv6_get_length :: "bytes \<Rightarrow> nat \<Rightarrow> u64 \<Rightarrow> rc \<times> u64" where
  "ipv6_get_length h p header_length = (HICN_LIB_ERROR_NONE, of_nat IPV6_HDRLEN + ucast (be16 h (p + 4)))"

definition ipv6_set_payload_length :: "hicn_ops \<Rightarrow> bytes \<Rightarrow> nat \<Rightarrow> u64 \<Rightarrow> rc \<times> bytes" where
  "ipv6_set_payload_length child h p payload_length =
     (case get_header_length child h (PAYLOAD ipv6_get_current_header_length h p) 0 of
        (rc, child_header_length) \<Rightarrow>
          if failed rc then (rc, h)
          else (HICN_LIB_ERROR_NONE,
            put_be16 h (p + 4) (ucast (payload_length + child_header_length))))"

definition ipv6_get_signature_size :: "hicn_ops \<Rightarrow> bytes \<Rightarrow> nat \<Rightarrow> u64 \<Rightarrow> rc \<times> u64" where
  "ipv6_get_signature_size child h p signature_size = get_signature_size child h (PAYLOAD ipv6_get_current_header_length h p) signature_size"

definition ipv6_set_signature_size :: "hicn_ops \<Rightarrow> bytes \<Rightarrow> nat \<Rightarrow> u64 \<Rightarrow> rc \<times> bytes" where
  "ipv6_set_signature_size child h p signature_size = set_signature_size child h (PAYLOAD ipv6_get_current_header_length h p) signature_size"

definition ipv6_get_signature_timestamp :: "hicn_ops \<Rightarrow> bytes \<Rightarrow> nat \<Rightarrow> u64 \<Rightarrow> rc \<times> u64" where
  "ipv6_get_signature_timestamp child h p signature_timestamp = get_signature_timestamp child h (PAYLOAD ipv6_get_current_header_length h p) signature_timestamp"

definition ipv6_set_signature_timestamp :: "hicn_ops \<Rightarrow> bytes \<Rightarrow> nat \<Rightarrow> u64 \<Rightarrow> rc \<times> bytes" where
  "ipv6_set_signature_timestamp child h p signature_timestamp = set_signature_timestamp child h (PAYLOAD ipv6_get_current_header_length h p) signature_timestamp"

definition ipv6_get_validation_algorithm :: "hicn_ops \<Rightarrow> bytes \<Rightarrow> nat \<Rightarrow> u8 \<Rightarrow> rc \<times> u8" where
  "ipv6_get_validation_algorithm child h p validation_algorithm = get_validation_algorithm child h (PAYLOAD ipv6_get_current_header_length h p) validation_algorithm"

definition ipv6_set_validation_algorithm :: "hicn_ops \<Rightarrow> bytes \<Rightarrow> nat \<Rightarrow> u8 \<Rightarrow> rc \<times> bytes" where
  "ipv6_set_validation_algorithm child h p validation_algorithm = set_validation_algorithm child h (PAYLOAD ipv6_get_current_header_length h p) validation_algorithm"

definition ipv6_get_key_id :: "hicn_ops \<Rightarrow> bytes \<Rightarrow> nat \<Rightarrow> nat \<times> u8 \<Rightarrow> rc \<times> (nat \<times> u8)" where
  "ipv6_get_key_id child h p key_id = get_key_id child h (PAYLOAD ipv6_get_current_header_length h p) key_id"

definition ipv6_set_key_id :: "hicn_ops \<Rightarrow> bytes \<Rightarrow> nat \<Rightarrow> bytes \<Rightarrow> rc \<times> bytes" where
  "ipv6_set_key_id child h p key_id = set_key_id child h (PAYLOAD ipv6_get_current_header_length h p) key_id"

definition ipv6_get_signature :: "hicn_ops \<Rightarrow> bytes \<Rightarrow> nat \<Rightarrow> nat \<Rightarrow> rc \<times> nat" where
  "ipv6_get_signature child h p signature = get_signature child h (PAYLOAD ipv6_get_current_header_length h p) signature"

definition hicn_ops_ipv6 :: "hicn_type \<Rightarrow> hicn_ops \<Rightarrow> hicn_ops" where
  "hicn_ops_ipv6 ty child = \<lparr>
     init_packet_header = ipv6_init_packet_header ty child,
     get_interest_locator = ipv6_get_interest_locator,
     set_interest_locator = ipv6_set_interest_locator,
     get_interest_name = ipv6_get_interest_name child,
     set_interest_name = ipv6_set_interest_name child,
     get_interest_name_suffix = ipv6_get_interest_name_suffix child,
     set_interest_name_suffix = ipv6_set_interest_name_suffix child,
     mark_packet_as_interest = ipv6_mark_packet_as_interest child,
     mark_packet_as_data = ipv6_mark_packet_as_data child,
     reset_interest_for_hash = ipv6_reset_interest_for_hash child,
     get_data_locator = ipv6_get_data_locator,
     set_data_locator = ipv6_set_data_locator,
     get_data_name = ipv6_get_data_name child,
     set_data_name = ipv6_set_data_name child,
     get_data_name_suffix = ipv6_get_data_name_suffix child,
     set_data_name_suffix = ipv6_set_data_name_suffix child,
     get_data_pathlabel = ipv6_get_data_pathlabel child,
     set_data_pathlabel = ipv6_set_data_pathlabel child,
     update_data_pathlabel = ipv6_update_data_pathlabel child,
     reset_data_for_hash = ipv6_reset_data_for_hash child,
     get_lifetime = ipv6_get_lifetime child,
     set_lifetime = ipv6_set_lifetime child,
     update_checksums = ipv6_update_checksums child,
     verify_checksums = ipv6_verify_checksums child,
     rewrite_interest = ipv6_rewrite_interest child,
     rewrite_data = ipv6_rewrite_data child,
     get_length = ipv6_get_length,
     get_current_header_length = ipv6_get_current_header_length,
     get_header_length = ipv6_get_header_length child,
     get_payload_length = ipv6_get_payload_length child,
     set_payload_length = ipv6_set_payload_length child,
     get_signature_size = ipv6_get_signature_size child,
     set_signature_size = ipv6_set_signature_size child,
     get_signature_timestamp = ipv6_get_signature_timestamp child,
     set_signature_timestamp = ipv6_set_signature_timestamp child,
     get_validation_algorithm = ipv6_get_validation_algorithm child,
     set_validation_algorithm = ipv6_set_validation_algorithm child,
     get_key_id = ipv6_get_key_id child,
     set_key_id = ipv6_set_key_id child,
     get_signature = ipv6_get_signature child\<rparr>"

lemma hicn_ops_ipv6_sel [simp]:
  "init_packet_header (hicn_ops_ipv6 ty child) = ipv6_init_packet_header ty child"
  "get_interest_locator (hicn_ops_ipv6 ty child) = ipv6_get_interest_locator"
  "set_interest_locator (hicn_ops_ipv6 ty child) = ipv6_set_interest_locator"
  "get_interest_name (hicn_ops_ipv6 ty child) = ipv6_get_interest_name child"
  "set_interest_name (hicn_ops_ipv6 ty child) = ipv6_set_interest_name child"
  "get_interest_name_suffix (hicn_ops_ipv6 ty child) = ipv6_get_interest_name_suffix child"
  "set_interest_name_suffix (hicn_ops_ipv6 ty child) = ipv6_set_interest_name_suffix child"
  "mark_packet_as_interest (hicn_ops_ipv6 ty child) = ipv6_mark_packet_as_interest child"
  "mark_packet_as_data (hicn_ops_ipv6 ty child) = ipv6_mark_packet_as_data child"
  "reset_interest_for_hash (hicn_ops_ipv6 ty child) = ipv6_reset_interest_for_hash child"
  "get_data_locator (hicn_ops_ipv6 ty child) = ipv6_get_data_locator"
  "set_data_locator (hicn_ops_ipv6 ty child) = ipv6_set_data_locator"
  "get_data_name (hicn_ops_ipv6 ty child) = ipv6_get_data_name child"
  "set_data_name (hicn_ops_ipv6 ty child) = ipv6_set_data_name child"
  "get_data_name_suffix (hicn_ops_ipv6 ty child) = ipv6_get_data_name_suffix child"
  "set_data_name_suffix (hicn_ops_ipv6 ty child) = ipv6_set_data_name_suffix child"
  "get_data_pathlabel (hicn_ops_ipv6 ty child) = ipv6_get_data_pathlabel child"
  "set_data_pathlabel (hicn_ops_ipv6 ty child) = ipv6_set_data_pathlabel child"
  "update_data_pathlabel (hicn_ops_ipv6 ty child) = ipv6_update_data_pathlabel child"
  "reset_data_for_hash (hicn_ops_ipv6 ty child) = ipv6_reset_data_for_hash child"
  "get_lifetime (hicn_ops_ipv6 ty child) = ipv6_get_lifetime child"
  "set_lifetime (hicn_ops_ipv6 ty child) = ipv6_set_lifetime child"
  "update_checksums (hicn_ops_ipv6 ty child) = ipv6_update_checksums child"
  "verify_checksums (hicn_ops_ipv6 ty child) = ipv6_verify_checksums child"
  "rewrite_interest (hicn_ops_ipv6 ty child) = ipv6_rewrite_interest child"
  "rewrite_data (hicn_ops_ipv6 ty child) = ipv6_rewrite_data child"
  "get_length (hicn_ops_ipv6 ty child) = ipv6_get_length"
  "get_current_header_length (hicn_ops_ipv6 ty child) = ipv6_get_current_header_length"
  "get_header_length (hicn_ops_ipv6 ty child) = ipv6_get_header_length child"
  "get_payload_length (hicn_ops_ipv6 ty child) = ipv6_get_payload_length child"
  "set_payload_length (hicn_ops_ipv6 ty child) = ipv6_set_payload_length child"
  "get_signature_size (hicn_ops_ipv6 ty child) = ipv6_get_signature_size child"
  "set_signature_size (hicn_ops_ipv6 ty child) = ipv6_set_signature_size child"
  "get_signature_timestamp (hicn_ops_ipv6 ty child) = ipv6_get_signature_timestamp child"
  "set_signature_timestamp (hicn_ops_ipv6 ty child) = ipv6_set_signature_timestamp child"
  "get_validation_algorithm (hicn_ops_ipv6 ty child) = ipv6_get_validation_algorithm child"
  "set_validation_algorithm (hicn_ops_ipv6 ty child) = ipv6_set_validation_algorithm child"
  "get_key_id (hicn_ops_ipv6 ty child) = ipv6_get_key_id child"
  "set_key_id (hicn_ops_ipv6 ty child) = ipv6_set_key_id child"
  "get_signature (hicn_ops_ipv6 ty child) = ipv6_get_signature child"
  by (simp_all add: hicn_ops_ipv6_def)

end
