(* ===== verification/TransportHeaders.thy ===== *)
theory TransportHeaders
  imports IpHeaders
begin

text \<open>
  The TCP, ICMP and AH headers (\<^verbatim>\<open>lib/src/protocol/tcp.c\<close>, \<^verbatim>\<open>icmp.c\<close>, \<^verbatim>\<open>ah.c\<close>), their tables of operations
  and the function that selects a table by the protocol layers of a packet (\<^verbatim>\<open>hicn_ops_vft\<close> in
  \<^verbatim>\<open>lib/src/ops.c\<close>). The entries that the source declares with \<^verbatim>\<open>UNEXPECTED\<close> stand in the tables. The TCP
  operations on lifetimes and path labels are those of theory \<open>Packet\<close>.

  The lemmas describe each layer through what its operations read and write: no operation on a header
  changes the bytes before it or the length of the buffer.
\<close>

section \<open>TCP\<close>

definition HICN_TCP_FLAG_FIN :: u8 where "HICN_TCP_FLAG_FIN = 0x01"
definition HICN_TCP_FLAG_SYN :: u8 where "HICN_TCP_FLAG_SYN = 0x02"
definition HICN_TCP_FLAG_RST :: u8 where "HICN_TCP_FLAG_RST = 0x04"
definition HICN_TCP_FLAG_PSH :: u8 where "HICN_TCP_FLAG_PSH = 0x08"
definition HICN_TCP_FLAG_ACK :: u8 where "HICN_TCP_FLAG_ACK = 0x10"
definition HICN_TCP_FLAG_URG :: u8 where "HICN_TCP_FLAG_URG = 0x20"
definition HICN_TCP_FLAG_ECE :: u8 where "HICN_TCP_FLAG_ECE = 0x40"
definition HICN_TCP_FLAG_CWR :: u8 where "HICN_TCP_FLAG_CWR = 0x80"

definition check_tcp_checksum :: "u16 \<Rightarrow> rc" where
  "check_tcp_checksum c = (if c = 0xffff then HICN_LIB_ERROR_REWRITE_CKSUM_REQUIRED else HICN_LIB_ERROR_NONE)"

definition tcp_get_current_header_length :: "bytes \<Rightarrow> nat \<Rightarrow> u64 \<Rightarrow> rc \<times> u64" where
  "tcp_get_current_header_length h p header_length = (HICN_LIB_ERROR_NONE, of_nat TCP_HDRLEN)"

definition tcp_get_header_length :: "hicn_ops \<Rightarrow> bytes \<Rightarrow> nat \<Rightarrow> u64 \<Rightarrow> rc \<times> u64" where
  "tcp_get_header_length child h p header_length =
     (case get_header_length child h (PAYLOAD tcp_get_current_header_length h p) 0 of
        (rc, child_header_length) \<Rightarrow>
          if failed rc then (rc, header_length)
          else (HICN_LIB_ERROR_NONE, of_nat TCP_HDRLEN + child_header_length))"

definition tcp_update_data_pathlabel :: "bytes \<Rightarrow> nat \<Rightarrow> u32 \<Rightarrow> rc \<times> bytes" where
  "tcp_update_data_pathlabel h p face_id =
     (let pl = ucast (drop_bit 24 (le32 h (p + 8)));
          new_pl = update_pathlabel pl face_id
      in (HICN_LIB_ERROR_NONE, put_le32 h (p + 8) (push_bit 24 (ucast new_pl))))"

definition tcp_init_packet_header :: "hicn_type \<Rightarrow> hicn_ops \<Rightarrow> bytes \<Rightarrow> nat \<Rightarrow> rc \<times> bytes" where
  "tcp_init_packet_header ty child h p =
     (let h = put h p (bytes_be16 0x8000 @ bytes_be16 0x0080 @ replicate 8 0 @ [0x50, HICN_TCP_FLAG_SYN] @
                bytes_be16 0 @ bytes_le16 0xffff @ bytes_le16 65000);
          ah_flag = (if layer1 (TYPE_POP ty) = protocol_number P_AH then AH_FLAG else 0);
          h = put h (p + 13) [byte h (p + 13) OR ah_flag]
      in init_packet_header child h (PAYLOAD tcp_get_current_header_length h p))"

definition tcp_get_interest_name_suffix :: "bytes \<Rightarrow> nat \<Rightarrow> u32 \<Rightarrow> rc \<times> u32" where
  "tcp_get_interest_name_suffix h p sfx = (HICN_LIB_ERROR_NONE, be32 h (p + 4))"

definition tcp_set_interest_name_suffix :: "bytes \<Rightarrow> nat \<Rightarrow> u32 \<Rightarrow> rc \<times> bytes" where
  "tcp_set_interest_name_suffix h p sfx = (HICN_LIB_ERROR_NONE, put_be32 h (p + 4) sfx)"

definition tcp_mark_packet_as_interest :: "bytes \<Rightarrow> nat \<Rightarrow> rc \<times> bytes" where
  "tcp_mark_packet_as_interest h p =
     (HICN_LIB_ERROR_NONE, put h (p + 13) [byte h (p + 13) AND NOT HICN_TCP_FLAG_ECE])"

definition tcp_mark_packet_as_data :: "bytes \<Rightarrow> nat \<Rightarrow> rc \<times> bytes" where
  "tcp_mark_packet_as_data h p =
     (HICN_LIB_ERROR_NONE, put h (p + 13) [byte h (p + 13) OR HICN_TCP_FLAG_ECE])"

definition tcp_reset_interest_for_hash :: "hicn_ops \<Rightarrow> bytes \<Rightarrow> nat \<Rightarrow> rc \<times> bytes" where
  "tcp_reset_interest_for_hash child h p =
     (let h = put h p (replicate 4 0);
          h = put h (p + 8) (replicate 12 0)
      in reset_interest_for_hash child h (PAYLOAD tcp_get_current_header_length h p))"

definition tcp_get_data_name_suffix :: "bytes \<Rightarrow> nat \<Rightarrow> u32 \<Rightarrow> rc \<times> u32" where
  "tcp_get_data_name_suffix h p sfx = (HICN_LIB_ERROR_NONE, be32 h (p + 4))"

definition tcp_set_data_name_suffix :: "bytes \<Rightarrow> nat \<Rightarrow> u32 \<Rightarrow> rc \<times> bytes" where
  "tcp_set_data_name_suffix h p sfx = (HICN_LIB_ERROR_NONE, put_be32 h (p + 4) sfx)"

definition tcp_reset_data_for_hash :: "hicn_ops \<Rightarrow> bytes \<Rightarrow> nat \<Rightarrow> rc \<times> bytes" where
  "tcp_reset_data_for_hash child h p =
     (let h = put h p (replicate 4 0);
          h = put h (p + 8) (replicate 12 0)
      in reset_data_for_hash child h (PAYLOAD tcp_get_current_header_length h p))"

definition tcp_update_checksums :: "hicn_ops \<Rightarrow> bytes \<Rightarrow> nat \<Rightarrow> u16 \<Rightarrow> u64 \<Rightarrow> rc \<times> bytes" where
  "tcp_update_checksums child h p partial_csum payload_length =
     (let h = put_le16 h (p + 16) 0;
          partial_csum = (if partial_csum \<noteq> 0 then NOT partial_csum else partial_csum);
          h = put_le16 h (p + 16) (csum h p (unat (of_nat TCP_HDRLEN + payload_length)) partial_csum)
      in update_checksums child h (PAYLOAD tcp_get_current_header_length h p) 0 payload_length)"

definition tcp_verify_checksums :: "hicn_ops \<Rightarrow> bytes \<Rightarrow> nat \<Rightarrow> u16 \<Rightarrow> u64 \<Rightarrow> rc \<times> bytes" where
  "tcp_verify_checksums child h p partial_csum payload_length =
     (let partial_csum = (if partial_csum \<noteq> 0 then NOT partial_csum else partial_csum)
      in if csum h p (unat (of_nat TCP_HDRLEN + payload_length)) partial_csum \<noteq> 0
         then (HICN_LIB_ERROR_CORRUPTED_PACKET, h)
         else verify_checksums child h (PAYLOAD tcp_get_current_header_length h p) 0 payload_length)"

definition tcp_rewrite_interest :: "bytes \<Rightarrow> nat \<Rightarrow> bytes \<Rightarrow> bytes \<Rightarrow> rc \<times> bytes \<times> bytes" where
  "tcp_rewrite_interest h p addr_new addr_old =
     (let tcp_checksum = le16 h (p + 16);
          ret = check_tcp_checksum tcp_checksum
      in if ret \<noteq> HICN_LIB_ERROR_NONE then (ret, h, addr_old)
         else (let c = ip_csum_sub_even (ucast tcp_checksum) (le64 h (p + 8));
                   c = ip_csum_sub_even c (le64 h (p + 16));
                   c = ip_csum_add_even c (le64 h (p + 8));
                   c = ip_csum_add_even c (le64 h (p + 16))
               in (HICN_LIB_ERROR_NONE, put_le16 h (p + 16) (ip_csum_fold c), addr_old)))"

definition tcp_rewrite_data :: "bytes \<Rightarrow> nat \<Rightarrow> bytes \<Rightarrow> bytes \<Rightarrow> u32 \<Rightarrow> u8 \<Rightarrow> rc \<times> bytes \<times> bytes" where
  "tcp_rewrite_data h p addr_new addr_old face_id reset_pl =
     (let tcp_checksum = le16 h (p + 16);
          ret = check_tcp_checksum tcp_checksum;
          old_pl = ucast (le32 h (p + 8)) :: u16;
          h = (if reset_pl \<noteq> 0 then put_le32 h (p + 8) 0 else h);
          h = snd (tcp_update_data_pathlabel h p face_id)
      in if ret \<noteq> HICN_LIB_ERROR_NONE then (ret, h, addr_old)
         else (let c = ip_csum_sub_even (ucast tcp_checksum) (le64 addr_old 0);
                   c = ip_csum_sub_even (ucast tcp_checksum) (le64 addr_old 8);
                   c = ip_csum_add_even c (le64 addr_new 0);
                   c = ip_csum_add_even c (le64 addr_new 8);
                   c = ip_csum_sub_even c (ucast old_pl);
                   c = ip_csum_add_even c (ucast (le32 h (p + 8)))
               in (HICN_LIB_ERROR_NONE, put_le16 h (p + 16) (ip_csum_fold c), addr_old)))"

definition tcp_get_signature_size :: "hicn_ops \<Rightarrow> bytes \<Rightarrow> nat \<Rightarrow> u64 \<Rightarrow> rc \<times> u64" where
  "tcp_get_signature_size child h p signature_size = get_signature_size child h (PAYLOAD tcp_get_current_header_length h p) signature_size"

definition tcp_set_signature_size :: "hicn_ops \<Rightarrow> bytes \<Rightarrow> nat \<Rightarrow> u64 \<Rightarrow> rc \<times> bytes" where
  "tcp_set_signature_size child h p signature_size = set_signature_size child h (PAYLOAD tcp_get_current_header_length h p) signature_size"

definition tcp_get_signature_timestamp :: "hicn_ops \<Rightarrow> bytes \<Rightarrow> nat \<Rightarrow> u64 \<Rightarrow> rc \<times> u64" where
  "tcp_get_signature_timestamp child h p signature_timestamp = get_signature_timestamp child h (PAYLOAD tcp_get_current_header_length h p) signature_timestamp"

definition tcp_set_signature_timestamp :: "hicn_ops \<Rightarrow> bytes \<Rightarrow> nat \<Rightarrow> u64 \<Rightarrow> rc \<times> bytes" where
  "tcp_set_signature_timestamp child h p signature_timestamp = set_signature_timestamp child h (PAYLOAD tcp_get_current_header_length h p) signature_timestamp"

definition tcp_get_validation_algorithm :: "hicn_ops \<Rightarrow> bytes \<Rightarrow> nat \<Rightarrow> u8 \<Rightarrow> rc \<times> u8" where
  "tcp_get_validation_algorithm child h p validation_algorithm = get_validation_algorithm child h (PAYLOAD tcp_get_current_header_length h p) validation_algorithm"

definition tcp_set_validation_algorithm :: "hicn_ops \<Rightarrow> bytes \<Rightarrow> nat \<Rightarrow> u8 \<Rightarrow> rc \<times> bytes" where
  "tcp_set_validation_algorithm child h p validation_algorithm = set_validation_algorithm child h (PAYLOAD tcp_get_current_header_length h p) validation_algorithm"

definition tcp_get_key_id :: "hicn_ops \<Rightarrow> bytes \<Rightarrow> nat \<Rightarrow> nat \<times> u8 \<Rightarrow> rc \<times> (nat \<times> u8)" where
  "tcp_get_key_id child h p key_id = get_key_id child h (PAYLOAD tcp_get_current_header_length h p) key_id"

definition tcp_set_key_id :: "hicn_ops \<Rightarrow> bytes \<Rightarrow> nat \<Rightarrow> bytes \<Rightarrow> rc \<times> bytes" where
  "tcp_set_key_id child h p key_id = set_key_id child h (PAYLOAD tcp_get_current_header_length h p) key_id"

definition tcp_get_signature :: "hicn_ops \<Rightarrow> bytes \<Rightarrow> nat \<Rightarrow> nat \<Rightarrow> rc \<times> nat" where
  "tcp_get_signature child h p signature = get_signature child h (PAYLOAD tcp_get_current_header_length h p) signature"

definition hicn_ops_tcp :: "hicn_type \<Rightarrow> hicn_ops \<Rightarrow> hicn_ops" where
  "hicn_ops_tcp ty child = \<lparr>
     init_packet_header = tcp_init_packet_header ty child,
     get_interest_locator = (\<lambda>h p ip_address. (HICN_LIB_ERROR_UNEXPECTED, ip_address)),
     set_interest_locator = (\<lambda>h p ip_address. (HICN_LIB_ERROR_UNEXPECTED, h)),
     get_interest_name = (\<lambda>h p name. (HICN_LIB_ERROR_UNEXPECTED, name)),
     set_interest_name = (\<lambda>h p name. (HICN_LIB_ERROR_UNEXPECTED, h)),
     get_interest_name_suffix = tcp_get_interest_name_suffix,
     set_interest_name_suffix = tcp_set_interest_name_suffix,
     mark_packet_as_interest = tcp_mark_packet_as_interest,
     mark_packet_as_data = tcp_mark_packet_as_data,
     reset_interest_for_hash = tcp_reset_interest_for_hash child,
     get_data_locator = (\<lambda>h p ip_address. (HICN_LIB_ERROR_UNEXPECTED, ip_address)),
     set_data_locator = (\<lambda>h p ip_address. (HICN_LIB_ERROR_UNEXPECTED, h)),
     get_data_name = (\<lambda>h p name. (HICN_LIB_ERROR_UNEXPECTED, name)),
     set_data_name = (\<lambda>h p name. (HICN_LIB_ERROR_UNEXPECTED, h)),
     get_data_name_suffix = tcp_get_data_name_suffix,
     set_data_name_suffix = tcp_set_data_name_suffix,
     get_data_pathlabel = (\<lambda>h p pathlabel. (HICN_LIB_ERROR_NONE, tcp_get_data_pathlabel h p)),
     set_data_pathlabel = (\<lambda>h p pathlabel. (HICN_LIB_ERROR_NONE, tcp_set_data_pathlabel h p pathlabel)),
     update_data_pathlabel = tcp_update_data_pathlabel,
     reset_data_for_hash = tcp_reset_data_for_hash child,
     get_lifetime = (\<lambda>h p lifetime. (HICN_LIB_ERROR_NONE, tcp_get_lifetime h p)),
     set_lifetime = (\<lambda>h p lifetime. (HICN_LIB_ERROR_NONE, tcp_set_lifetime h p lifetime)),
     update_checksums = tcp_update_checksums child,
     verify_checksums = tcp_verify_checksums child,
     rewrite_interest = tcp_rewrite_interest,
     rewrite_data = tcp_rewrite_data,
     get_length = (\<lambda>h p len. (HICN_LIB_ERROR_UNEXPECTED, len)),
     get_current_header_length = tcp_get_current_header_length,
     get_header_length = tcp_get_header_length child,
     get_payload_length = (\<lambda>h p payload_length. (HICN_LIB_ERROR_UNEXPECTED, payload_length)),
     set_payload_length = (\<lambda>h p payload_length. (HICN_LIB_ERROR_UNEXPECTED, h)),
     get_signature_size = tcp_get_signature_size child,
     set_signature_size = tcp_set_signature_size child,
     get_signature_timestamp = tcp_get_signature_timestamp child,
     set_signature_timestamp = tcp_set_signature_timestamp child,
     get_validation_algorithm = tcp_get_validation_algorithm child,
     set_validation_algorithm = tcp_set_validation_algorithm child,
     get_key_id = tcp_get_key_id child,
     set_key_id = tcp_set_key_id child,
     get_signature = tcp_get_signature child\<rparr>"

lemma hicn_ops_tcp_sel [simp]:
  "init_packet_header (hicn_ops_tcp ty child) = tcp_init_packet_header ty child"
  "get_interest_locator (hicn_ops_tcp ty child) = (\<lambda>h p ip_address. (HICN_LIB_ERROR_UNEXPECTED, ip_address))"
  "set_interest_locator (hicn_ops_tcp ty child) = (\<lambda>h p ip_address. (HICN_LIB_ERROR_UNEXPECTED, h))"
  "get_interest_name (hicn_ops_tcp ty child) = (\<lambda>h p name. (HICN_LIB_ERROR_UNEXPECTED, name))"
  "set_interest_name (hicn_ops_tcp ty child) = (\<lambda>h p name. (HICN_LIB_ERROR_UNEXPECTED, h))"
  "get_interest_name_suffix (hicn_ops_tcp ty child) = tcp_get_interest_name_suffix"
  "set_interest_name_suffix (hicn_ops_tcp ty child) = tcp_set_interest_name_suffix"
  "mark_packet_as_interest (hicn_ops_tcp ty child) = tcp_mark_packet_as_interest"
  "mark_packet_as_data (hicn_ops_tcp ty child) = tcp_mark_packet_as_data"
  "reset_interest_for_hash (hicn_ops_tcp ty child) = tcp_reset_interest_for_hash child"
  "get_data_locator (hicn_ops_tcp ty child) = (\<lambda>h p ip_address. (HICN_LIB_ERROR_UNEXPECTED, ip_address))"
  "set_data_locator (hicn_ops_tcp ty child) = (\<lambda>h p ip_address. (HICN_LIB_ERROR_UNEXPECTED, h))"
  "get_data_name (hicn_ops_tcp ty child) = (\<lambda>h p name. (HICN_LIB_ERROR_UNEXPECTED, name))"
  "set_data_name (hicn_ops_tcp ty child) = (\<lambda>h p name. (HICN_LIB_ERROR_UNEXPECTED, h))"
  "get_data_name_suffix (hicn_ops_tcp ty child) = tcp_get_data_name_suffix"
  "set_data_name_suffix (hicn_ops_tcp ty child) = tcp_set_data_name_suffix"
  "get_data_pathlabel (hicn_ops_tcp ty child) = (\<lambda>h p pathlabel. (HICN_LIB_ERROR_NONE, tcp_get_data_pathlabel h p))"
  "set_data_pathlabel (hicn_ops_tcp ty child) = (\<lambda>h p pathlabel. (HICN_LIB_ERROR_NONE, tcp_set_data_pathlabel h p pathlabel))"
  "update_data_pathlabel (hicn_ops_tcp ty child) = tcp_update_data_pathlabel"
  "reset_data_for_hash (hicn_ops_tcp ty child) = tcp_reset_data_for_hash child"
  "get_lifetime (hicn_ops_tcp ty child) = (\<lambda>h p lifetime. (HICN_LIB_ERROR_NONE, tcp_get_lifetime h p))"
  "set_lifetime (hicn_ops_tcp ty child) = (\<lambda>h p lifetime. (HICN_LIB_ERROR_NONE, tcp_set_lifetime h p lifetime))"
  "update_checksums (hicn_ops_tcp ty child) = tcp_update_checksums child"
  "verify_checksums (hicn_ops_tcp ty child) = tcp_verify_checksums child"
  "rewrite_interest (hicn_ops_tcp ty child) = tcp_rewrite_interest"
  "rewrite_data (hicn_ops_tcp ty child) = tcp_rewrite_data"
  "get_length (hicn_ops_tcp ty child) = (\<lambda>h p len. (HICN_LIB_ERROR_UNEXPECTED, len))"
  "get_current_header_length (hicn_ops_tcp ty child) = tcp_get_current_header_length"
  "get_header_length (hicn_ops_tcp ty child) = tcp_get_header_length child"
  "get_payload_length (hicn_ops_tcp ty child) = (\<lambda>h p payload_length. (HICN_LIB_ERROR_UNEXPECTED, payload_length))"
  "set_payload_length (hicn_ops_tcp ty child) = (\<lambda>h p payload_length. (HICN_LIB_ERROR_UNEXPECTED, h))"
  "get_signature_size (hicn_ops_tcp ty child) = tcp_get_signature_size child"
  "set_signature_size (hicn_ops_tcp ty child) = tcp_set_signature_size child"
  "get_signature_timestamp (hicn_ops_tcp ty child) = tcp_get_signature_timestamp child"
  "set_signature_timestamp (hicn_ops_tcp ty child) = tcp_set_signature_timestamp child"
  "get_validation_algorithm (hicn_ops_tcp ty child) = tcp_get_validation_algorithm child"
  "set_validation_algorithm (hicn_ops_tcp ty child) = tcp_set_validation_algorithm child"
  "get_key_id (hicn_ops_tcp ty child) = tcp_get_key_id child"
  "set_key_id (hicn_ops_tcp ty child) = tcp_set_key_id child"
  "get_signature (hicn_ops_tcp ty child) = tcp_get_signature child"
  by (simp_all add: hicn_ops_tcp_def)

section \<open>ICMP\<close>

definition icmp_get_current_header_length :: "bytes \<Rightarrow> nat \<Rightarrow> u64 \<Rightarrow> rc \<times> u64" where
  "icmp_get_current_header_length h p header_length = (HICN_LIB_ERROR_NONE, of_nat ICMP_HDRLEN)"

definition icmp_get_header_length :: "hicn_ops \<Rightarrow> bytes \<Rightarrow> nat \<Rightarrow> u64 \<Rightarrow> rc \<times> u64" where
  "icmp_get_header_length child h p header_length =
     (case get_header_length child h (PAYLOAD icmp_get_current_header_length h p) 0 of
        (rc, child_header_length) \<Rightarrow>
          if failed rc then (rc, header_length)
          else (HICN_LIB_ERROR_NONE, of_nat ICMP_HDRLEN + child_header_length))"

definition icmp_init_packet_header :: "bytes \<Rightarrow> nat \<Rightarrow> rc \<times> bytes" where
  "icmp_init_packet_header h p = (HICN_LIB_ERROR_NONE, put h p (replicate 4 0))"

definition icmp_reset_interest_for_hash :: "hicn_ops \<Rightarrow> bytes \<Rightarrow> nat \<Rightarrow> rc \<times> bytes" where
  "icmp_reset_interest_for_hash child h p =
     (let h = put_le16 h (p + 2) 0
      in reset_interest_for_hash child h (PAYLOAD icmp_get_current_header_length h p))"

definition icmp_reset_data_for_hash :: "hicn_ops \<Rightarrow> bytes \<Rightarrow> nat \<Rightarrow> rc \<times> bytes" where
  "icmp_reset_data_for_hash child h p =
     (let h = put_le16 h (p + 2) 0
      in reset_data_for_hash child h (PAYLOAD icmp_get_current_header_length h p))"

definition icmp_update_checksums :: "bytes \<Rightarrow> nat \<Rightarrow> u16 \<Rightarrow> u64 \<Rightarrow> rc \<times> bytes" where
  "icmp_update_checksums h p partial_csum payload_length = (HICN_LIB_ERROR_NOT_IMPLEMENTED, h)"

definition icmp_verify_checksums :: "bytes \<Rightarrow> nat \<Rightarrow> u16 \<Rightarrow> u64 \<Rightarrow> rc \<times> bytes" where
  "icmp_verify_checksums h p partial_csum payload_length = (HICN_LIB_ERROR_NOT_IMPLEMENTED, h)"

definition icmp_rewrite_interest :: "bytes \<Rightarrow> nat \<Rightarrow> bytes \<Rightarrow> bytes \<Rightarrow> rc \<times> bytes \<times> bytes" where
  "icmp_rewrite_interest h p addr_new addr_old =
     (HICN_LIB_ERROR_NOT_IMPLEMENTED, h, addr_old)"

definition icmp_rewrite_data :: "bytes \<Rightarrow> nat \<Rightarrow> bytes \<Rightarrow> bytes \<Rightarrow> u32 \<Rightarrow> u8 \<Rightarrow> rc \<times> bytes \<times> bytes" where
  "icmp_rewrite_data h p addr_new addr_old face_id reset_pl =
     (HICN_LIB_ERROR_NOT_IMPLEMENTED, h, addr_old)"

definition icmp_get_signature_size :: "hicn_ops \<Rightarrow> bytes \<Rightarrow> nat \<Rightarrow> u64 \<Rightarrow> rc \<times> u64" where
  "icmp_get_signature_size child h p signature_size = get_signature_size child h (PAYLOAD icmp_get_current_header_length h p) signature_size"

definition icmp_set_signature_size :: "hicn_ops \<Rightarrow> bytes \<Rightarrow> nat \<Rightarrow> u64 \<Rightarrow> rc \<times> bytes" where
  "icmp_set_signature_size child h p signature_size = set_signature_size child h (PAYLOAD icmp_get_current_header_length h p) signature_size"

definition icmp_get_signature_timestamp :: "hicn_ops \<Rightarrow> bytes \<Rightarrow> nat \<Rightarrow> u64 \<Rightarrow> rc \<times> u64" where
  "icmp_get_signature_timestamp child h p signature_timestamp = get_signature_timestamp child h (PAYLOAD icmp_get_current_header_length h p) signature_timestamp"

definition icmp_set_signature_timestamp :: "hicn_ops \<Rightarrow> bytes \<Rightarrow> nat \<Rightarrow> u64 \<Rightarrow> rc \<times> bytes" where
  "icmp_set_signature_timestamp child h p signature_timestamp = set_signature_timestamp child h (PAYLOAD icmp_get_current_header_length h p) signature_timestamp"

definition icmp_get_validation_algorithm :: "hicn_ops \<Rightarrow> bytes \<Rightarrow> nat \<Rightarrow> u8 \<Rightarrow> rc \<times> u8" where
  "icmp_get_validation_algorithm child h p validation_algorithm = get_validation_algorithm child h (PAYLOAD icmp_get_current_header_length h p) validation_algorithm"

definition icmp_set_validation_algorithm :: "hicn_ops \<Rightarrow> bytes \<Rightarrow> nat \<Rightarrow> u8 \<Rightarrow> rc \<times> bytes" where
  "icmp_set_validation_algorithm child h p validation_algorithm = set_validation_algorithm child h (PAYLOAD icmp_get_current_header_length h p) validation_algorithm"

definition icmp_get_key_id :: "hicn_ops \<Rightarrow> bytes \<Rightarrow> nat \<Rightarrow> nat \<times> u8 \<Rightarrow> rc \<times> (nat \<times> u8)" where
  "icmp_get_key_id child h p key_id = get_key_id child h (PAYLOAD icmp_get_current_header_length h p) key_id"

definition icmp_set_key_id :: "hicn_ops \<Rightarrow> bytes \<Rightarrow> nat \<Rightarrow> bytes \<Rightarrow> rc \<times> bytes" where
  "icmp_set_key_id child h p key_id = set_key_id child h (PAYLOAD icmp_get_current_header_length h p) key_id"

definition hicn_ops_icmp :: "hicn_ops \<Rightarrow> hicn_ops" where
  "hicn_ops_icmp child = \<lparr>
     init_packet_header = icmp_init_packet_header,
     get_interest_locator = (\<lambda>h p ip_address. (HICN_LIB_ERROR_UNEXPECTED, ip_address)),
     set_interest_locator = (\<lambda>h p ip_address. (HICN_LIB_ERROR_UNEXPECTED, h)),
     get_interest_name = (\<lambda>h p name. (HICN_LIB_ERROR_UNEXPECTED, name)),
     set_interest_name = (\<lambda>h p name. (HICN_LIB_ERROR_UNEXPECTED, h)),
     get_interest_name_suffix = (\<lambda>h p sfx. (HICN_LIB_ERROR_UNEXPECTED, sfx)),
     set_interest_name_suffix = (\<lambda>h p sfx. (HICN_LIB_ERROR_UNEXPECTED, h)),
     mark_packet_as_interest = (\<lambda>h p. (HICN_LIB_ERROR_UNEXPECTED, h)),
     mark_packet_as_data = (\<lambda>h p. (HICN_LIB_ERROR_UNEXPECTED, h)),
     reset_interest_for_hash = icmp_reset_interest_for_hash child,
     get_data_locator = (\<lambda>h p ip_address. (HICN_LIB_ERROR_UNEXPECTED, ip_address)),
     set_data_locator = (\<lambda>h p ip_address. (HICN_LIB_ERROR_UNEXPECTED, h)),
     get_data_name = (\<lambda>h p name. (HICN_LIB_ERROR_UNEXPECTED, name)),
     set_data_name = (\<lambda>h p name. (HICN_LIB_ERROR_UNEXPECTED, h)),
     get_data_name_suffix = (\<lambda>h p sfx. (HICN_LIB_ERROR_UNEXPECTED, sfx)),
     set_data_name_suffix = (\<lambda>h p sfx. (HICN_LIB_ERROR_UNEXPECTED, h)),
     get_data_pathlabel = (\<lambda>h p pathlabel. (HICN_LIB_ERROR_UNEXPECTED, pathlabel)),
     set_data_pathlabel = (\<lambda>h p pathlabel. (HICN_LIB_ERROR_UNEXPECTED, h)),
     update_data_pathlabel = (\<lambda>h p face_id. (HICN_LIB_ERROR_UNEXPECTED, h)),
     reset_data_for_hash = icmp_reset_data_for_hash child,
     get_lifetime = (\<lambda>h p lifetime. (HICN_LIB_ERROR_UNEXPECTED, lifetime)),
     set_lifetime = (\<lambda>h p lifetime. (HICN_LIB_ERROR_UNEXPECTED, h)),
     update_checksums = icmp_update_checksums,
     verify_checksums = icmp_verify_checksums,
     rewrite_interest = icmp_rewrite_interest,
     rewrite_data = icmp_rewrite_data,
     get_length = (\<lambda>h p len. (HICN_LIB_ERROR_UNEXPECTED, len)),
     get_current_header_length = icmp_get_current_header_length,
     get_header_length = icmp_get_header_length child,
     get_payload_length = (\<lambda>h p payload_length. (HICN_LIB_ERROR_UNEXPECTED, payload_length)),
     set_payload_length = (\<lambda>h p payload_length. (HICN_LIB_ERROR_UNEXPECTED, h)),
     get_signature_size = icmp_get_signature_size child,
     set_signature_size = icmp_set_signature_size child,
     get_signature_timestamp = icmp_get_signature_timestamp child,
     set_signature_timestamp = icmp_set_signature_timestamp child,
     get_validation_algorithm = icmp_get_validation_algorithm child,
     set_validation_algorithm = icmp_set_validation_algorithm child,
     get_key_id = icmp_get_key_id child,
     set_key_id = icmp_set_key_id child,
     get_signature = (\<lambda>h p signature. (HICN_LIB_ERROR_UNEXPECTED, signature))\<rparr>"

lemma hicn_ops_icmp_sel [simp]:
  "init_packet_header (hicn_ops_icmp child) = icmp_init_packet_header"
  "get_interest_locator (hicn_ops_icmp child) = (\<lambda>h p ip_address. (HICN_LIB_ERROR_UNEXPECTED, ip_address))"
  "set_interest_locator (hicn_ops_icmp child) = (\<lambda>h p ip_address. (HICN_LIB_ERROR_UNEXPECTED, h))"
  "get_interest_name (hicn_ops_icmp child) = (\<lambda>h p name. (HICN_LIB_ERROR_UNEXPECTED, name))"
  "set_interest_name (hicn_ops_icmp child) = (\<lambda>h p name. (HICN_LIB_ERROR_UNEXPECTED, h))"
  "get_interest_name_suffix (hicn_ops_icmp child) = (\<lambda>h p sfx. (HICN_LIB_ERROR_UNEXPECTED, sfx))"
  "set_interest_name_suffix (hicn_ops_icmp child) = (\<lambda>h p sfx. (HICN_LIB_ERROR_UNEXPECTED, h))"
  "mark_packet_as_interest (hicn_ops_icmp child) = (\<lambda>h p. (HICN_LIB_ERROR_UNEXPECTED, h))"
  "mark_packet_as_data (hicn_ops_icmp child) = (\<lambda>h p. (HICN_LIB_ERROR_UNEXPECTED, h))"
  "reset_interest_for_hash (hicn_ops_icmp child) = icmp_reset_interest_for_hash child"
  "get_data_locator (hicn_ops_icmp child) = (\<lambda>h p ip_address. (HICN_LIB_ERROR_UNEXPECTED, ip_address))"
  "set_data_locator (hicn_ops_icmp child) = (\<lambda>h p ip_address. (HICN_LIB_ERROR_UNEXPECTED, h))"
  "get_data_name (hicn_ops_icmp child) = (\<lambda>h p name. (HICN_LIB_ERROR_UNEXPECTED, name))"
  "set_data_name (hicn_ops_icmp child) = (\<lambda>h p name. (HICN_LIB_ERROR_UNEXPECTED, h))"
  "get_data_name_suffix (hicn_ops_icmp child) = (\<lambda>h p sfx. (HICN_LIB_ERROR_UNEXPECTED, sfx))"
  "set_data_name_suffix (hicn_ops_icmp child) = (\<lambda>h p sfx. (HICN_LIB_ERROR_UNEXPECTED, h))"
  "get_data_pathlabel (hicn_ops_icmp child) = (\<lambda>h p pathlabel. (HICN_LIB_ERROR_UNEXPECTED, pathlabel))"
  "set_data_pathlabel (hicn_ops_icmp child) = (\<lambda>h p pathlabel. (HICN_LIB_ERROR_UNEXPECTED, h))"
  "update_data_pathlabel (hicn_ops_icmp child) = (\<lambda>h p face_id. (HICN_LIB_ERROR_UNEXPECTED, h))"
  "reset_data_for_hash (hicn_ops_icmp child) = icmp_reset_data_for_hash child"
  "get_lifetime (hicn_ops_icmp child) = (\<lambda>h p lifetime. (HICN_LIB_ERROR_UNEXPECTED, lifetime))"
  "set_lifetime (hicn_ops_icmp child) = (\<lambda>h p lifetime. (HICN_LIB_ERROR_UNEXPECTED, h))"
  "update_checksums (hicn_ops_icmp child) = icmp_update_checksums"
  "verify_checksums (hicn_ops_icmp child) = icmp_verify_checksums"
  "rewrite_interest (hicn_ops_icmp child) = icmp_rewrite_interest"
  "rewrite_data (hicn_ops_icmp child) = icmp_rewrite_data"
  "get_length (hicn_ops_icmp child) = (\<lambda>h p len. (HICN_LIB_ERROR_UNEXPECTED, len))"
  "get_current_header_length (hicn_ops_icmp child) = icmp_get_current_header_length"
  "get_header_length (hicn_ops_icmp child) = icmp_get_header_length child"
  "get_payload_length (hicn_ops_icmp child) = (\<lambda>h p payload_length. (HICN_LIB_ERROR_UNEXPECTED, payload_length))"
  "set_payload_length (hicn_ops_icmp child) = (\<lambda>h p payload_length. (HICN_LIB_ERROR_UNEXPECTED, h))"
  "get_signature_size (hicn_ops_icmp child) = icmp_get_signature_size child"
  "set_signature_size (hicn_ops_icmp child) = icmp_set_signature_size child"
  "get_signature_timestamp (hicn_ops_icmp child) = icmp_get_signature_timestamp child"
  "set_signature_timestamp (hicn_ops_icmp child) = icmp_set_signature_timestamp child"
  "get_validation_algorithm (hicn_ops_icmp child) = icmp_get_validation_algorithm child"
  "set_validation_algorithm (hicn_ops_icmp child) = icmp_set_validation_algorithm child"
  "get_key_id (hicn_ops_icmp child) = icmp_get_key_id child"
  "set_key_id (hicn_ops_icmp child) = icmp_set_key_id child"
  "get_signature (hicn_ops_icmp child) = (\<lambda>h p signature. (HICN_LIB_ERROR_UNEXPECTED, signature))"
  by (simp_all add: hicn_ops_icmp_def)

section \<open>AH\<close>

definition ah_get_current_header_length :: "bytes \<Rightarrow> nat \<Rightarrow> u64 \<Rightarrow> rc \<times> u64" where
  "ah_get_current_header_length h p header_length =
     (HICN_LIB_ERROR_NONE, of_nat AH_HDRLEN + push_bit 2 (ucast (byte h (p + 1))))"

definition ah_get_header_length :: "hicn_ops \<Rightarrow> bytes \<Rightarrow> nat \<Rightarrow> u64 \<Rightarrow> rc \<times> u64" where
  "ah_get_header_length child h p header_length =
     (case get_header_length child h (PAYLOAD ah_get_current_header_length h p) 0 of
        (rc, child_header_length) \<Rightarrow>
          if failed rc then (rc, header_length)
          else (HICN_LIB_ERROR_NONE, of_nat AH_HDRLEN + push_bit 2 (ucast (byte h (p + 1))) + child_header_length))"

definition ah_get_signature_size :: "bytes \<Rightarrow> nat \<Rightarrow> u64 \<Rightarrow> rc \<times> u64" where
  "ah_get_signature_size h p signature_size =
     (HICN_LIB_ERROR_NONE, push_bit 2 (ucast (byte h (p + 1))))"

definition ah_init_packet_header :: "hicn_ops \<Rightarrow> bytes \<Rightarrow> nat \<Rightarrow> rc \<times> bytes" where
  "ah_init_packet_header child h p =
     (let h = put h p (replicate 44 0)
      in init_packet_header child h (PAYLOAD ah_get_current_header_length h p))"

definition ah_reset_interest_for_hash :: "hicn_ops \<Rightarrow> bytes \<Rightarrow> nat \<Rightarrow> rc \<times> bytes" where
  "ah_reset_interest_for_hash child h p =
     (case ah_get_signature_size h p 0 of
        (rc, signature_size) \<Rightarrow>
          if failed rc then (rc, h)
          else (let h = put h (p + 44) (replicate (unat signature_size) 0)
                in reset_interest_for_hash child h (PAYLOAD ah_get_current_header_length h p)))"

definition ah_reset_data_for_hash :: "hicn_ops \<Rightarrow> bytes \<Rightarrow> nat \<Rightarrow> rc \<times> bytes" where
  "ah_reset_data_for_hash child h p =
     (case ah_get_signature_size h p 0 of
        (rc, signature_size) \<Rightarrow>
          if failed rc then (rc, h)
          else (let h = put h (p + 44) (replicate (unat signature_size) 0)
                in reset_interest_for_hash child h (PAYLOAD ah_get_current_header_length h p)))"

definition ah_update_checksums :: "bytes \<Rightarrow> nat \<Rightarrow> u16 \<Rightarrow> u64 \<Rightarrow> rc \<times> bytes" where
  "ah_update_checksums h p partial_csum payload_length = (HICN_LIB_ERROR_NONE, h)"

definition ah_verify_checksums :: "bytes \<Rightarrow> nat \<Rightarrow> u16 \<Rightarrow> u64 \<Rightarrow> rc \<times> bytes" where
  "ah_verify_checksums h p partial_csum payload_length = (HICN_LIB_ERROR_NONE, h)"

definition ah_rewrite_interest :: "bytes \<Rightarrow> nat \<Rightarrow> bytes \<Rightarrow> bytes \<Rightarrow> rc \<times> bytes \<times> bytes" where
  "ah_rewrite_interest h p addr_new addr_old = (HICN_LIB_ERROR_NONE, h, addr_old)"

definition ah_rewrite_data :: "bytes \<Rightarrow> nat \<Rightarrow> bytes \<Rightarrow> bytes \<Rightarrow> u32 \<Rightarrow> u8 \<Rightarrow> rc \<times> bytes \<times> bytes" where
  "ah_rewrite_data h p addr_new addr_old face_id reset_pl = (HICN_LIB_ERROR_NONE, h, addr_old)"

definition ah_get_length :: "bytes \<Rightarrow> nat \<Rightarrow> u64 \<Rightarrow> rc \<times> u64" where
  "ah_get_length h p len = (HICN_LIB_ERROR_NOT_IMPLEMENTED, len)"

definition ah_set_signature_size :: "bytes \<Rightarrow> nat \<Rightarrow> u64 \<Rightarrow> rc \<times> bytes" where
  "ah_set_signature_size h p signature_size =
     (HICN_LIB_ERROR_NONE, put h (p + 1) [ucast (drop_bit 2 signature_size)])"

definition ah_get_signature_timestamp :: "bytes \<Rightarrow> nat \<Rightarrow> u64 \<Rightarrow> rc \<times> u64" where
  "ah_get_signature_timestamp h p signature_timestamp = (HICN_LIB_ERROR_NONE, be64 h (p + 4))"

definition ah_set_signature_timestamp :: "bytes \<Rightarrow> nat \<Rightarrow> u64 \<Rightarrow> rc \<times> bytes" where
  "ah_set_signature_timestamp h p signature_timestamp =
     (HICN_LIB_ERROR_NONE, put_be64 h (p + 4) signature_timestamp)"

definition ah_get_validation_algorithm :: "bytes \<Rightarrow> nat \<Rightarrow> u8 \<Rightarrow> rc \<times> u8" where
  "ah_get_validation_algorithm h p validation_algorithm = (HICN_LIB_ERROR_NONE, byte h (p + 2))"

definition ah_set_validation_algorithm :: "bytes \<Rightarrow> nat \<Rightarrow> u8 \<Rightarrow> rc \<times> bytes" where
  "ah_set_validation_algorithm h p validation_algorithm =
     (HICN_LIB_ERROR_NONE, put h (p + 2) [validation_algorithm])"

definition ah_get_key_id :: "bytes \<Rightarrow> nat \<Rightarrow> nat \<times> u8 \<Rightarrow> rc \<times> (nat \<times> u8)" where
  "ah_get_key_id h p key_id = (HICN_LIB_ERROR_NONE, (p + 12, 32))"

definition ah_set_key_id :: "bytes \<Rightarrow> nat \<Rightarrow> bytes \<Rightarrow> rc \<times> bytes" where
  "ah_set_key_id h p key_id = (HICN_LIB_ERROR_NONE, put h (p + 12) (field key_id 0 32))"

definition ah_get_signature :: "bytes \<Rightarrow> nat \<Rightarrow> nat \<Rightarrow> rc \<times> nat" where
  "ah_get_signature h p signature = (HICN_LIB_ERROR_NONE, p + 44)"

definition hicn_ops_ah :: "hicn_ops \<Rightarrow> hicn_ops" where
  "hicn_ops_ah child = \<lparr>
     init_packet_header = ah_init_packet_header child,
     get_interest_locator = (\<lambda>h p ip_address. (HICN_LIB_ERROR_UNEXPECTED, ip_address)),
     set_interest_locator = (\<lambda>h p ip_address. (HICN_LIB_ERROR_UNEXPECTED, h)),
     get_interest_name = (\<lambda>h p name. (HICN_LIB_ERROR_UNEXPECTED, name)),
     set_interest_name = (\<lambda>h p name. (HICN_LIB_ERROR_UNEXPECTED, h)),
     get_interest_name_suffix = (\<lambda>h p sfx. (HICN_LIB_ERROR_UNEXPECTED, sfx)),
     set_interest_name_suffix = (\<lambda>h p sfx. (HICN_LIB_ERROR_UNEXPECTED, h)),
     mark_packet_as_interest = (\<lambda>h p. (HICN_LIB_ERROR_UNEXPECTED, h)),
     mark_packet_as_data = (\<lambda>h p. (HICN_LIB_ERROR_UNEXPECTED, h)),
     reset_interest_for_hash = ah_reset_interest_for_hash child,
     get_data_locator = (\<lambda>h p ip_address. (HICN_LIB_ERROR_UNEXPECTED, ip_address)),
     set_data_locator = (\<lambda>h p ip_address. (HICN_LIB_ERROR_UNEXPECTED, h)),
     get_data_name = (\<lambda>h p name. (HICN_LIB_ERROR_UNEXPECTED, name)),
     set_data_name = (\<lambda>h p name. (HICN_LIB_ERROR_UNEXPECTED, h)),
     get_data_name_suffix = (\<lambda>h p sfx. (HICN_LIB_ERROR_UNEXPECTED, sfx)),
     set_data_name_suffix = (\<lambda>h p sfx. (HICN_LIB_ERROR_UNEXPECTED, h)),
     get_data_pathlabel = (\<lambda>h p pathlabel. (HICN_LIB_ERROR_UNEXPECTED, pathlabel)),
     set_data_pathlabel = (\<lambda>h p pathlabel. (HICN_LIB_ERROR_UNEXPECTED, h)),
     update_data_pathlabel = (\<lambda>h p face_id. (HICN_LIB_ERROR_UNEXPECTED, h)),
     reset_data_for_hash = ah_reset_data_for_hash child,
     get_lifetime = (\<lambda>h p lifetime. (HICN_LIB_ERROR_UNEXPECTED, lifetime)),
     set_lifetime = (\<lambda>h p lifetime. (HICN_LIB_ERROR_UNEXPECTED, h)),
     update_checksums = ah_update_checksums,
     verify_checksums = ah_verify_checksums,
     rewrite_interest = ah_rewrite_interest,
     rewrite_data = ah_rewrite_data,
     get_length = ah_get_length,
     get_current_header_length = ah_get_current_header_length,
     get_header_length = ah_get_header_length child,
     get_payload_length = (\<lambda>h p payload_length. (HICN_LIB_ERROR_UNEXPECTED, payload_length)),
     set_payload_length = (\<lambda>h p payload_length. (HICN_LIB_ERROR_UNEXPECTED, h)),
     get_signature_size = ah_get_signature_size,
     set_signature_size = ah_set_signature_size,
     get_signature_timestamp = ah_get_signature_timestamp,
     set_signature_timestamp = ah_set_signature_timestamp,
     get_validation_algorithm = ah_get_validation_algorithm,
     set_validation_algorithm = ah_set_validation_algorithm,
     get_key_id = ah_get_key_id,
     set_key_id = ah_set_key_id,
     get_signature = ah_get_signature\<rparr>"

lemma hicn_ops_ah_sel [simp]:
  "init_packet_header (hicn_ops_ah child) = ah_init_packet_header child"
  "get_interest_locator (hicn_ops_ah child) = (\<lambda>h p ip_address. (HICN_LIB_ERROR_UNEXPECTED, ip_address))"
  "set_interest_locator (hicn_ops_ah child) = (\<lambda>h p ip_address. (HICN_LIB_ERROR_UNEXPECTED, h))"
  "get_interest_name (hicn_ops_ah child) = (\<lambda>h p name. (HICN_LIB_ERROR_UNEXPECTED, name))"
  "set_interest_name (hicn_ops_ah child) = (\<lambda>h p name. (HICN_LIB_ERROR_UNEXPECTED, h))"
  "get_interest_name_suffix (hicn_ops_ah child) = (\<lambda>h p sfx. (HICN_LIB_ERROR_UNEXPECTED, sfx))"
  "set_interest_name_suffix (hicn_ops_ah child) = (\<lambda>h p sfx. (HICN_LIB_ERROR_UNEXPECTED, h))"
  "mark_packet_as_interest (hicn_ops_ah child) = (\<lambda>h p. (HICN_LIB_ERROR_UNEXPECTED, h))"
  "mark_packet_as_data (hicn_ops_ah child) = (\<lambda>h p. (HICN_LIB_ERROR_UNEXPECTED, h))"
  "reset_interest_for_hash (hicn_ops_ah child) = ah_reset_interest_for_hash child"
  "get_data_locator (hicn_ops_ah child) = (\<lambda>h p ip_address. (HICN_LIB_ERROR_UNEXPECTED, ip_address))"
  "set_data_locator (hicn_ops_ah child) = (\<lambda>h p ip_address. (HICN_LIB_ERROR_UNEXPECTED, h))"
  "get_data_name (hicn_ops_ah child) = (\<lambda>h p name. (HICN_LIB_ERROR_UNEXPECTED, name))"
  "set_data_name (hicn_ops_ah child) = (\<lambda>h p name. (HICN_LIB_ERROR_UNEXPECTED, h))"
  "get_data_name_suffix (hicn_ops_ah child) = (\<lambda>h p sfx. (HICN_LIB_ERROR_UNEXPECTED, sfx))"
  "set_data_name_suffix (hicn_ops_ah child) = (\<lambda>h p sfx. (HICN_LIB_ERROR_UNEXPECTED, h))"
  "get_data_pathlabel (hicn_ops_ah child) = (\<lambda>h p pathlabel. (HICN_LIB_ERROR_UNEXPECTED, pathlabel))"
  "set_data_pathlabel (hicn_ops_ah child) = (\<lambda>h p pathlabel. (HICN_LIB_ERROR_UNEXPECTED, h))"
  "update_data_pathlabel (hicn_ops_ah child) = (\<lambda>h p face_id. (HICN_LIB_ERROR_UNEXPECTED, h))"
  "reset_data_for_hash (hicn_ops_ah child) = ah_reset_data_for_hash child"
  "get_lifetime (hicn_ops_ah child) = (\<lambda>h p lifetime. (HICN_LIB_ERROR_UNEXPECTED, lifetime))"
  "set_lifetime (hicn_ops_ah child) = (\<lambda>h p lifetime. (HICN_LIB_ERROR_UNEXPECTED, h))"
  "update_checksums (hicn_ops_ah child) = ah_update_checksums"
  "verify_checksums (hicn_ops_ah child) = ah_verify_checksums"
  "rewrite_interest (hicn_ops_ah child) = ah_rewrite_interest"
  "rewrite_data (hicn_ops_ah child) = ah_rewrite_data"
  "get_length (hicn_ops_ah child) = ah_get_length"
  "get_current_header_length (hicn_ops_ah child) = ah_get_current_header_length"
  "get_header_length (hicn_ops_ah child) = ah_get_header_length child"
  "get_payload_length (hicn_ops_ah child) = (\<lambda>h p payload_length. (HICN_LIB_ERROR_UNEXPECTED, payload_length))"
  "set_payload_length (hicn_ops_ah child) = (\<lambda>h p payload_length. (HICN_LIB_ERROR_UNEXPECTED, h))"
  "get_signature_size (hicn_ops_ah child) = ah_get_signature_size"
  "set_signature_size (hicn_ops_ah child) = ah_set_signature_size"
  "get_signature_timestamp (hicn_ops_ah child) = ah_get_signature_timestamp"
  "set_signature_timestamp (hicn_ops_ah child) = ah_set_signature_timestamp"
  "get_validation_algorithm (hicn_ops_ah child) = ah_get_validation_algorithm"
  "set_validation_algorithm (hicn_ops_ah child) = ah_set_validation_algorithm"
  "get_key_id (hicn_ops_ah child) = ah_get_key_id"
  "set_key_id (hicn_ops_ah child) = ah_set_key_id"
  "get_signature (hicn_ops_ah child) = ah_get_signature"
  by (simp_all add: hicn_ops_ah_def)

section \<open>The table by layers\<close>

fun hicn_ops_vft :: "hicn_type \<Rightarrow> hicn_ops" where
  "hicn_ops_vft [] = hicn_ops_none"
| "hicn_ops_vft (P_IP # ty) = hicn_ops_ipv4 (P_IP # ty) (hicn_ops_vft ty)"
| "hicn_ops_vft (P_ICMP # ty) = hicn_ops_icmp (hicn_ops_vft ty)"
| "hicn_ops_vft (P_TCP # ty) = hicn_ops_tcp (P_TCP # ty) (hicn_ops_vft ty)"
| "hicn_ops_vft (P_IPV6 # ty) = hicn_ops_ipv6 (P_IPV6 # ty) (hicn_ops_vft ty)"
| "hicn_ops_vft (P_AH # ty) = hicn_ops_ah (hicn_ops_vft ty)"
| "hicn_ops_vft (P_ICMPV6 # ty) = hicn_ops_icmp (hicn_ops_vft ty)"


section \<open>Names through any transport layer\<close>

lemma PAYLOAD_simps [simp]:
  "PAYLOAD ipv4_get_current_header_length h p = p + 20"
  "PAYLOAD ipv6_get_current_header_length h p = p + 40"
  "PAYLOAD tcp_get_current_header_length h p = p + 20"
  "PAYLOAD icmp_get_current_header_length h p = p + 4"
  by (simp_all add: PAYLOAD_def ipv4_get_current_header_length_def ipv6_get_current_header_length_def
    tcp_get_current_header_length_def icmp_get_current_header_length_def
    IPV4_HDRLEN_def IPV6_HDRLEN_def TCP_HDRLEN_def ICMP_HDRLEN_def)

text \<open>
  What the IP headers rely on to store a name: the layer below keeps the suffix in the bytes from
  \<open>lo\<close> to \<open>hi\<close> of its header, and its operations on it succeed.
\<close>

locale suffix_layer =
  fixes ops :: hicn_ops and lo hi :: nat
  assumes set_interest_ok: "fst (set_interest_name_suffix ops h p s) = HICN_LIB_ERROR_NONE"
    and set_interest_frame: "only_changes (p + lo) (p + hi) h (snd (set_interest_name_suffix ops h p s))"
    and get_interest: "p + hi \<le> length h \<Longrightarrow>
      get_interest_name_suffix ops (snd (set_interest_name_suffix ops h p s)) p v = (HICN_LIB_ERROR_NONE, s)"
    and set_data_ok: "fst (set_data_name_suffix ops h p s) = HICN_LIB_ERROR_NONE"
    and set_data_frame: "only_changes (p + lo) (p + hi) h (snd (set_data_name_suffix ops h p s))"
    and get_data: "p + hi \<le> length h \<Longrightarrow>
      get_data_name_suffix ops (snd (set_data_name_suffix ops h p s)) p v = (HICN_LIB_ERROR_NONE, s)"
begin

lemma ipv4_interest_name:
  assumes "p + 20 + hi \<le> length h" "length (name_buffer out) = 20"
  shows "fst (ipv4_set_interest_name ops h p name) = HICN_LIB_ERROR_NONE"
    and "length (snd (ipv4_set_interest_name ops h p name)) = length h"
    and "i < p + 16 \<or> p + 20 \<le> i \<Longrightarrow> i < p + 20 + lo \<or> p + 20 + hi \<le> i \<Longrightarrow>
      byte (snd (ipv4_set_interest_name ops h p name)) i = byte h i"
    and "ipv4_get_interest_name ops (snd (ipv4_set_interest_name ops h p name)) p out =
      (HICN_LIB_ERROR_NONE, out\<lparr>name_type := HNT_CONTIGUOUS_V4, name_len := 8,
        name_buffer := field (name_buffer name) 0 8 @ drop 8 (name_buffer out)\<rparr>)"
proof -
  let ?h1 = "put h (p + 16) (field (name_buffer name) 0 4)"
  let ?h2 = "snd (set_interest_name_suffix ops ?h1 (p + 20) (le32 (name_buffer name) 4))"
  have s: "ipv4_set_interest_name ops h p name = set_interest_name_suffix ops ?h1 (p + 20) (le32 (name_buffer name) 4)"
    by (simp add: ipv4_set_interest_name_def Let_def)
  show "fst (ipv4_set_interest_name ops h p name) = HICN_LIB_ERROR_NONE" by (simp add: s set_interest_ok)
  have f: "only_changes (p + 20 + lo) (p + 20 + hi) ?h1 ?h2" by (rule set_interest_frame)
  show "length (snd (ipv4_set_interest_name ops h p name)) = length h" using only_changes_length[OF f] by (simp add: s)
  show "byte (snd (ipv4_set_interest_name ops h p name)) i = byte h i"
    if "i < p + 16 \<or> p + 20 \<le> i" "i < p + 20 + lo \<or> p + 20 + hi \<le> i"
    using only_changes_byte[OF f that(2)] that(1) by (auto simp: s byte_put)
  have "field ?h2 (p + 16) 4 = field (name_buffer name) 0 4"
    using field_unchanged[OF f, of "p + 16" 4] assms by (simp add: field_put)
  moreover have "get_interest_name_suffix ops ?h2 (p + 20) v = (HICN_LIB_ERROR_NONE, le32 (name_buffer name) 4)" for v
    using assms by (intro get_interest) simp
  ultimately show "ipv4_get_interest_name ops (snd (ipv4_set_interest_name ops h p name)) p out =
      (HICN_LIB_ERROR_NONE, out\<lparr>name_type := HNT_CONTIGUOUS_V4, name_len := 8,
        name_buffer := field (name_buffer name) 0 8 @ drop 8 (name_buffer out)\<rparr>)"
    using name_buffer_put[of "name_buffer out" 4 "name_buffer name"] assms(2)
    by (simp add: s ipv4_get_interest_name_def Let_def HICN_V4_NAME_LEN_def)
qed

lemma ipv4_data_name:
  assumes "p + 20 + hi \<le> length h" "length (name_buffer out) = 20"
  shows "fst (ipv4_set_data_name ops h p name) = HICN_LIB_ERROR_NONE"
    and "length (snd (ipv4_set_data_name ops h p name)) = length h"
    and "i < p + 12 \<or> p + 16 \<le> i \<Longrightarrow> i < p + 20 + lo \<or> p + 20 + hi \<le> i \<Longrightarrow>
      byte (snd (ipv4_set_data_name ops h p name)) i = byte h i"
    and "ipv4_get_data_name ops (snd (ipv4_set_data_name ops h p name)) p out =
      (HICN_LIB_ERROR_NONE, out\<lparr>name_type := HNT_CONTIGUOUS_V4, name_len := 8,
        name_buffer := field (name_buffer name) 0 8 @ drop 8 (name_buffer out)\<rparr>)"
proof -
  let ?h1 = "put h (p + 12) (field (name_buffer name) 0 4)"
  let ?h2 = "snd (set_data_name_suffix ops ?h1 (p + 20) (le32 (name_buffer name) 4))"
  have s: "ipv4_set_data_name ops h p name = set_data_name_suffix ops ?h1 (p + 20) (le32 (name_buffer name) 4)"
    by (simp add: ipv4_set_data_name_def Let_def)
  show "fst (ipv4_set_data_name ops h p name) = HICN_LIB_ERROR_NONE" by (simp add: s set_data_ok)
  have f: "only_changes (p + 20 + lo) (p + 20 + hi) ?h1 ?h2" by (rule set_data_frame)
  show "length (snd (ipv4_set_data_name ops h p name)) = length h" using only_changes_length[OF f] by (simp add: s)
  show "byte (snd (ipv4_set_data_name ops h p name)) i = byte h i"
    if "i < p + 12 \<or> p + 16 \<le> i" "i < p + 20 + lo \<or> p + 20 + hi \<le> i"
    using only_changes_byte[OF f that(2)] that(1) by (auto simp: s byte_put)
  have "field ?h2 (p + 12) 4 = field (name_buffer name) 0 4"
    using field_unchanged[OF f, of "p + 12" 4] assms by (simp add: field_put)
  moreover have "get_data_name_suffix ops ?h2 (p + 20) v = (HICN_LIB_ERROR_NONE, le32 (name_buffer name) 4)" for v
    using assms by (intro get_data) simp
  ultimately show "ipv4_get_data_name ops (snd (ipv4_set_data_name ops h p name)) p out =
      (HICN_LIB_ERROR_NONE, out\<lparr>name_type := HNT_CONTIGUOUS_V4, name_len := 8,
        name_buffer := field (name_buffer name) 0 8 @ drop 8 (name_buffer out)\<rparr>)"
    using name_buffer_put[of "name_buffer out" 4 "name_buffer name"] assms(2)
    by (simp add: s ipv4_get_data_name_def Let_def HICN_V4_NAME_LEN_def)
qed

lemma ipv6_interest_name:
  assumes "p + 40 + hi \<le> length h" "length (name_buffer out) = 20"
  shows "fst (ipv6_set_interest_name ops h p name) = HICN_LIB_ERROR_NONE"
    and "length (snd (ipv6_set_interest_name ops h p name)) = length h"
    and "i < p + 24 \<or> p + 40 \<le> i \<Longrightarrow> i < p + 40 + lo \<or> p + 40 + hi \<le> i \<Longrightarrow>
      byte (snd (ipv6_set_interest_name ops h p name)) i = byte h i"
    and "ipv6_get_interest_name ops (snd (ipv6_set_interest_name ops h p name)) p out =
      (HICN_LIB_ERROR_NONE, out\<lparr>name_type := HNT_CONTIGUOUS_V6, name_len := 20,
        name_buffer := field (name_buffer name) 0 20 @ drop 20 (name_buffer out)\<rparr>)"
proof -
  let ?h1 = "put h (p + 24) (field (name_buffer name) 0 16)"
  let ?h2 = "snd (set_interest_name_suffix ops ?h1 (p + 40) (le32 (name_buffer name) 16))"
  have s: "ipv6_set_interest_name ops h p name = set_interest_name_suffix ops ?h1 (p + 40) (le32 (name_buffer name) 16)"
    by (simp add: ipv6_set_interest_name_def Let_def)
  show "fst (ipv6_set_interest_name ops h p name) = HICN_LIB_ERROR_NONE" by (simp add: s set_interest_ok)
  have f: "only_changes (p + 40 + lo) (p + 40 + hi) ?h1 ?h2" by (rule set_interest_frame)
  show "length (snd (ipv6_set_interest_name ops h p name)) = length h" using only_changes_length[OF f] by (simp add: s)
  show "byte (snd (ipv6_set_interest_name ops h p name)) i = byte h i"
    if "i < p + 24 \<or> p + 40 \<le> i" "i < p + 40 + lo \<or> p + 40 + hi \<le> i"
    using only_changes_byte[OF f that(2)] that(1) by (auto simp: s byte_put)
  have "field ?h2 (p + 24) 16 = field (name_buffer name) 0 16"
    using field_unchanged[OF f, of "p + 24" 16] assms by (simp add: field_put)
  moreover have "get_interest_name_suffix ops ?h2 (p + 40) v = (HICN_LIB_ERROR_NONE, le32 (name_buffer name) 16)" for v
    using assms by (intro get_interest) simp
  ultimately show "ipv6_get_interest_name ops (snd (ipv6_set_interest_name ops h p name)) p out =
      (HICN_LIB_ERROR_NONE, out\<lparr>name_type := HNT_CONTIGUOUS_V6, name_len := 20,
        name_buffer := field (name_buffer name) 0 20 @ drop 20 (name_buffer out)\<rparr>)"
    using name_buffer_put[of "name_buffer out" 16 "name_buffer name"] assms(2)
    by (simp add: s ipv6_get_interest_name_def Let_def HICN_V6_NAME_LEN_def)
qed

lemma ipv6_data_name:
  assumes "p + 40 + hi \<le> length h" "length (name_buffer out) = 20"
  shows "fst (ipv6_set_data_name ops h p name) = HICN_LIB_ERROR_NONE"
    and "length (snd (ipv6_set_data_name ops h p name)) = length h"
    and "i < p + 8 \<or> p + 24 \<le> i \<Longrightarrow> i < p + 40 + lo \<or> p + 40 + hi \<le> i \<Longrightarrow>
      byte (snd (ipv6_set_data_name ops h p name)) i = byte h i"
    and "ipv6_get_data_name ops (snd (ipv6_set_data_name ops h p name)) p out =
      (HICN_LIB_ERROR_NONE, out\<lparr>name_type := HNT_CONTIGUOUS_V6, name_len := 20,
        name_buffer := field (name_buffer name) 0 20 @ drop 20 (name_buffer out)\<rparr>)"
proof -
  let ?h1 = "put h (p + 8) (field (name_buffer name) 0 16)"
  let ?h2 = "snd (set_data_name_suffix ops ?h1 (p + 40) (le32 (name_buffer name) 16))"
  have s: "ipv6_set_data_name ops h p name = set_data_name_suffix ops ?h1 (p + 40) (le32 (name_buffer name) 16)"
    by (simp add: ipv6_set_data_name_def Let_def)
  show "fst (ipv6_set_data_name ops h p name) = HICN_LIB_ERROR_NONE" by (simp add: s set_data_ok)
  have f: "only_changes (p + 40 + lo) (p + 40 + hi) ?h1 ?h2" by (rule set_data_frame)
  show "length (snd (ipv6_set_data_name ops h p name)) = length h" using only_changes_length[OF f] by (simp add: s)
  show "byte (snd (ipv6_set_data_name ops h p name)) i = byte h i"
    if "i < p + 8 \<or> p + 24 \<le> i" "i < p + 40 + lo \<or> p + 40 + hi \<le> i"
    using only_changes_byte[OF f that(2)] that(1) by (auto simp: s byte_put)
  have "field ?h2 (p + 8) 16 = field (name_buffer name) 0 16"
    using field_unchanged[OF f, of "p + 8" 16] assms by (simp add: field_put)
  moreover have "get_data_name_suffix ops ?h2 (p + 40) v = (HICN_LIB_ERROR_NONE, le32 (name_buffer name) 16)" for v
    using assms by (intro get_data) simp
  ultimately show "ipv6_get_data_name ops (snd (ipv6_set_data_name ops h p name)) p out =
      (HICN_LIB_ERROR_NONE, out\<lparr>name_type := HNT_CONTIGUOUS_V6, name_len := 20,
        name_buffer := field (name_buffer name) 0 20 @ drop 20 (name_buffer out)\<rparr>)"
    using name_buffer_put[of "name_buffer out" 16 "name_buffer name"] assms(2)
    by (simp add: s ipv6_get_data_name_def Let_def HICN_V6_NAME_LEN_def)
qed

end

interpretation tcp_suffix: suffix_layer "hicn_ops_tcp ty child" 4 8 for ty child
  by unfold_locales
    (simp_all add: tcp_set_interest_name_suffix_def tcp_get_interest_name_suffix_def tcp_set_data_name_suffix_def
      tcp_get_data_name_suffix_def only_changes_put32 be32_put_be32)

section \<open>Header and payload lengths\<close>

text \<open>
  What the IP headers rely on for lengths: the headers below have the total length \<open>hl\<close>, read from
  bytes that are not before them nor after them.
\<close>

locale sized_layer =
  fixes ops :: hicn_ops and hl :: "bytes \<Rightarrow> nat \<Rightarrow> u64"
  assumes header_length: "get_header_length ops h p 0 = (HICN_LIB_ERROR_NONE, hl h p)"
    and hl_local: "only_changes a b h h' \<Longrightarrow> b \<le> p \<or> p + unat (hl h p) \<le> a \<Longrightarrow> hl h' p = hl h p"
    and hl_bound: "unat (hl h p) < 4000"
begin

lemma unat_plus_hl: "k < 5000 \<Longrightarrow> unat (of_nat k + hl h p) = k + unat (hl h p)"
  using hl_bound[of h p] by (simp add: unat_word_ariths unat_of_nat)

lemma tcp_sized:
  assumes "\<And>h p. unat (hl h p) < 2000"
  shows "sized_layer (hicn_ops_tcp ty ops) (\<lambda>h p. 20 + hl h (p + 20))"
proof
  fix a b h h' p
  assume "only_changes a b h h'" "b \<le> p \<or> p + unat (20 + hl h (p + 20)) \<le> a"
  then show "20 + hl h' (p + 20) = 20 + hl h (p + 20)"
    using hl_local[of a b h h' "p + 20"] unat_plus_hl[of 20 h "p + 20"] by auto
next
  fix h p
  show "unat (20 + hl h (p + 20)) < 4000"
    using unat_plus_hl[of 20 h "p + 20"] assms[of h "p + 20"] by simp
qed (simp add: tcp_get_header_length_def header_length TCP_HDRLEN_def)

lemma icmp_sized:
  assumes "\<And>h p. unat (hl h p) < 2000"
  shows "sized_layer (hicn_ops_icmp ops) (\<lambda>h p. 4 + hl h (p + 4))"
proof
  fix a b h h' p
  assume "only_changes a b h h'" "b \<le> p \<or> p + unat (4 + hl h (p + 4)) \<le> a"
  then show "4 + hl h' (p + 4) = 4 + hl h (p + 4)"
    using hl_local[of a b h h' "p + 4"] unat_plus_hl[of 4 h "p + 4"] by auto
next
  fix h p
  show "unat (4 + hl h (p + 4)) < 4000"
    using unat_plus_hl[of 4 h "p + 4"] assms[of h "p + 4"] by simp
qed (simp add: icmp_get_header_length_def header_length ICMP_HDRLEN_def)

lemma ipv4_header_length: "ipv4_get_header_length ops h p v = (HICN_LIB_ERROR_NONE, 20 + hl h (p + 20))"
  by (simp add: ipv4_get_header_length_def header_length IPV4_HDRLEN_def)

lemma ipv6_header_length: "ipv6_get_header_length ops h p v = (HICN_LIB_ERROR_NONE, 40 + hl h (p + 40))"
  by (simp add: ipv6_get_header_length_def header_length IPV6_HDRLEN_def)

lemma u16_u64: "unat (w :: u64) < 65536 \<Longrightarrow> ucast (ucast w :: u16) = w"
  by (simp add: word_unat_eq_iff unsigned_ucast_eq unsigned_take_bit_eq take_bit_nat_eq_self)

lemma ipv4_set_payload_length:
  "ipv4_set_payload_length ops h p n = (HICN_LIB_ERROR_NONE, put_be16 h (p + 2) (ucast (n + 20 + hl h (p + 20))))"
  by (simp add: ipv4_set_payload_length_def header_length IPV4_HDRLEN_def)

lemma ipv6_set_payload_length:
  "ipv6_set_payload_length ops h p n = (HICN_LIB_ERROR_NONE, put_be16 h (p + 4) (ucast (n + hl h (p + 40))))"
  by (simp add: ipv6_set_payload_length_def header_length)

lemma ipv4_payload_length:
  assumes "p + 20 \<le> length h" "unat n + 20 + unat (hl h (p + 20)) < 65536"
  shows "ipv4_get_payload_length ops (snd (ipv4_set_payload_length ops h p n)) p v = (HICN_LIB_ERROR_NONE, n)"
proof -
  let ?h = "put_be16 h (p + 2) (ucast (n + 20 + hl h (p + 20)))"
  have "unat (n + 20 + hl h (p + 20)) < 65536" using assms(2) by (simp add: unat_word_ariths)
  then have "ucast (be16 ?h (p + 2)) = n + 20 + hl h (p + 20)"
    using assms(1) by (simp add: be16_put_be16 u16_u64)
  moreover have "hl ?h (p + 20) = hl h (p + 20)" by (rule hl_local[OF only_changes_put16(2)[of 0 _ "p + 20"]]) auto
  ultimately show ?thesis
    by (simp add: ipv4_set_payload_length ipv4_get_payload_length_def header_length IPV4_HDRLEN_def)
qed

lemma ipv6_payload_length:
  assumes "p + 40 \<le> length h" "unat n + unat (hl h (p + 40)) < 65536"
  shows "ipv6_get_payload_length ops (snd (ipv6_set_payload_length ops h p n)) p v = (HICN_LIB_ERROR_NONE, n)"
proof -
  let ?h = "put_be16 h (p + 4) (ucast (n + hl h (p + 40)))"
  have "unat (n + hl h (p + 40)) < 65536" using assms(2) by (simp add: unat_word_ariths)
  then have "ucast (be16 ?h (p + 4)) = n + hl h (p + 40)"
    using assms(1) by (simp add: be16_put_be16 u16_u64)
  moreover have "hl ?h (p + 40) = hl h (p + 40)" by (rule hl_local[OF only_changes_put16(2)[of 0 _ "p + 40"]]) auto
  ultimately show ?thesis
    by (simp add: ipv6_set_payload_length ipv6_get_payload_length_def header_length)
qed

end

definition ah_extent :: "bytes \<Rightarrow> nat \<Rightarrow> u64" where
  "ah_extent h p = 44 + push_bit 2 (ucast (byte h (p + 1)))"

lemma ah_extent_unat: "unat (ah_extent h p) = 44 + 4 * unat (byte h (p + 1))"
proof -
  have "unat (ucast (byte h (p + 1)) :: u64) = unat (byte h (p + 1))" "unat (byte h (p + 1)) < 256"
    using unat_u8_less[of "byte h (p + 1)"] by (simp_all add: unsigned_ucast_eq take_bit_nat_eq_self)
  then show ?thesis by (simp add: ah_extent_def unat_word_ariths push_bit_eq_mult)
qed

lemma ah_extent_bound: "unat (ah_extent h p) < 1100"
  using unat_u8_less[of "byte h (p + 1)"] by (simp add: ah_extent_unat)

interpretation none_sized: sized_layer hicn_ops_none "\<lambda>_ _. 0"
  by unfold_locales (simp_all add: hicn_ops_none_def)

interpretation ah_sized: sized_layer "hicn_ops_vft [P_AH]" ah_extent
proof
  fix h p
  show "get_header_length (hicn_ops_vft [P_AH]) h p 0 = (HICN_LIB_ERROR_NONE, ah_extent h p)"
    by (simp add: ah_get_header_length_def hicn_ops_none_def ah_extent_def AH_HDRLEN_def)
  show "unat (ah_extent h p) < 4000" using ah_extent_bound[of h p] by simp
next
  fix a b h h' p
  assume c: "only_changes a b h h'" "b \<le> p \<or> p + unat (ah_extent h p) \<le> a"
  then show "ah_extent h' p = ah_extent h p"
    using only_changes_byte[OF c(1), of "p + 1"] by (auto simp: ah_extent_unat) (simp_all add: ah_extent_def)
qed

interpretation tcp_sized: sized_layer "hicn_ops_vft [P_TCP]" "\<lambda>_ _. 20"
  using none_sized.tcp_sized[of "[P_TCP]"] by simp

interpretation icmp_sized: sized_layer "hicn_ops_vft [P_ICMP]" "\<lambda>_ _. 4"
  using none_sized.icmp_sized by simp

interpretation icmp6_sized: sized_layer "hicn_ops_vft [P_ICMPV6]" "\<lambda>_ _. 4"
  using none_sized.icmp_sized by simp

lemma ah_extent_small: "unat (ah_extent h p) < 2000"
  using ah_extent_bound[of h p] by simp

interpretation tcp_ah_sized: sized_layer "hicn_ops_vft [P_TCP, P_AH]" "\<lambda>h p. 20 + ah_extent h (p + 20)"
  using ah_sized.tcp_sized[of "[P_TCP, P_AH]"] ah_extent_small by simp

interpretation icmp_ah_sized: sized_layer "hicn_ops_vft [P_ICMP, P_AH]" "\<lambda>h p. 4 + ah_extent h (p + 4)"
  using ah_sized.icmp_sized ah_extent_small by simp

interpretation icmp6_ah_sized: sized_layer "hicn_ops_vft [P_ICMPV6, P_AH]" "\<lambda>h p. 4 + ah_extent h (p + 4)"
  using ah_sized.icmp_sized ah_extent_small by simp

section \<open>Checksums of an IPv6 packet\<close>

text \<open>The length that the two functions use: the one passed, or the one in the header.\<close>

definition resolved :: "(bytes \<Rightarrow> nat \<Rightarrow> u64) \<Rightarrow> bytes \<Rightarrow> nat \<Rightarrow> u64 \<Rightarrow> u64" where
  "resolved hl h p n = (if n = - 1 then ucast (be16 h (p + 4)) - hl h (p + 40) else n)"

text \<open>
  What the IPv6 header relies on for checksums: the layer below writes them in its first eighteen
  bytes, which do not carry lengths, and accepts what it wrote.
\<close>

locale checksum_layer = sized_layer +
  assumes update_ok: "fst (update_checksums ops h p c n) = HICN_LIB_ERROR_NONE"
    and update_frame: "only_changes (p + 16) (p + 18) h (snd (update_checksums ops h p c n))"
    and update_hl: "hl (snd (update_checksums ops h p c n)) p = hl h p"
    and verify_update: "p + 20 \<le> length h \<Longrightarrow> unat n \<le> 65535 \<Longrightarrow>
      verify_checksums ops (snd (update_checksums ops h p c n)) p c n =
        (HICN_LIB_ERROR_NONE, snd (update_checksums ops h p c n))"
begin

lemma ipv6_pseudo_header_update:
  "ipv6_pseudo_header (snd (update_checksums ops h (p + 40) c n)) p = ipv6_pseudo_header h p"
proof -
  have f: "only_changes (p + 56) (p + 58) h (snd (update_checksums ops h (p + 40) c n))"
    using update_frame[of "p + 40" h c n] by (simp add: add.commute)
  show ?thesis
    unfolding ipv6_pseudo_header_def
    using field_unchanged[OF f, of "p + 8" 16] field_unchanged[OF f, of "p + 24" 16]
      fields_unchanged(2)[OF f, of "p + 4"] only_changes_byte[OF f, of "p + 6"]
    by simp
qed

lemma resolved_update: "resolved hl (snd (update_checksums ops h (p + 40) c m)) p n = resolved hl h p n"
  using fields_unchanged(2)[OF update_frame, of "p + 4" "p + 40"] update_hl[of h "p + 40"] by (simp add: resolved_def)

lemma ipv6_update:
  "ipv6_update_checksums ops h p c n =
     update_checksums ops h (p + 40)
       (csum (ipv6_pseudo_header h p) 0 IPV6_PSHDRLEN (if c \<noteq> 0 then NOT c else c)) (resolved hl h p n)"
  by (simp add: ipv6_update_checksums_def ipv6_get_payload_length_def header_length resolved_def Let_def)

lemma ipv6_verify:
  "ipv6_verify_checksums ops h p c n =
     verify_checksums ops h (p + 40)
       (csum (ipv6_pseudo_header h p) 0 IPV6_PSHDRLEN (if c \<noteq> 0 then NOT c else c)) (resolved hl h p n)"
  by (simp add: ipv6_verify_checksums_def ipv6_get_payload_length_def header_length resolved_def Let_def)

lemma ipv6_verify_update:
  assumes "p + 60 \<le> length h" "unat (resolved hl h p n) \<le> 65535"
  shows "ipv6_verify_checksums ops (snd (ipv6_update_checksums ops h p c n)) p c n =
    (HICN_LIB_ERROR_NONE, snd (ipv6_update_checksums ops h p c n))"
  unfolding ipv6_update ipv6_verify ipv6_pseudo_header_update resolved_update
  using assms by (intro verify_update) auto

end

definition no_checksum :: "hicn_ops \<Rightarrow> bool" where
  "no_checksum ops \<longleftrightarrow> (\<forall>h p c n. update_checksums ops h p c n = (HICN_LIB_ERROR_NONE, h)
     \<and> verify_checksums ops h p c n = (HICN_LIB_ERROR_NONE, h))"

lemma no_checksum_layers: "no_checksum hicn_ops_none" "no_checksum (hicn_ops_vft [P_AH])"
  by (simp_all add: no_checksum_def hicn_ops_none_def ah_update_checksums_def ah_verify_checksums_def)

lemma tcp_update_eq:
  assumes "no_checksum child"
  shows "tcp_update_checksums child h p c n =
    (let h0 = put_le16 h (p + 16) 0
     in (HICN_LIB_ERROR_NONE, put_le16 h0 (p + 16)
          (csum h0 p (unat (20 + n)) (if c \<noteq> 0 then NOT c else c))))"
  using assms by (simp add: tcp_update_checksums_def no_checksum_def TCP_HDRLEN_def Let_def)

lemma tcp_update_frame:
  assumes "no_checksum child"
  shows "only_changes (p + 16) (p + 18) h (snd (tcp_update_checksums child h p c n))"
  unfolding tcp_update_eq[OF assms] Let_def snd_conv
  by (rule only_changes_trans; rule only_changes_put16) auto

lemma tcp_verify_update:
  assumes "no_checksum child" "p + 20 \<le> length h" "unat n \<le> 65535"
  shows "tcp_verify_checksums child (snd (tcp_update_checksums child h p c n)) p c n =
    (HICN_LIB_ERROR_NONE, snd (tcp_update_checksums child h p c n))"
proof -
  have u: "unat (20 + n) = 20 + unat n" using assms(3) by (simp add: unat_word_ariths)
  have "csum (snd (tcp_update_checksums child h p c n)) p (unat (20 + n)) (if c \<noteq> 0 then NOT c else c) = 0"
    unfolding tcp_update_eq[OF assms(1)] Let_def snd_conv u
    by (rule csum_verifies[of 16 _ p h]) (use assms in auto)
  then show ?thesis
    using assms(1) by (simp add: tcp_verify_checksums_def TCP_HDRLEN_def Let_def no_checksum_def)
qed

lemma tcp_update_ok: "no_checksum child \<Longrightarrow> fst (tcp_update_checksums child h p c n) = HICN_LIB_ERROR_NONE"
  by (simp add: tcp_update_eq Let_def)

interpretation tcp_checksum: checksum_layer "hicn_ops_vft [P_TCP]" "\<lambda>_ _. 20"
  by unfold_locales
    (use no_checksum_layers(1) in \<open>simp_all add: tcp_update_ok tcp_update_frame tcp_verify_update\<close>)

interpretation tcp_ah_checksum: checksum_layer "hicn_ops_vft [P_TCP, P_AH]" "\<lambda>h p. 20 + ah_extent h (p + 20)"
proof
  note ah = no_checksum_layers(2)
  fix h p c n
  show "fst (update_checksums (hicn_ops_vft [P_TCP, P_AH]) h p c n) = HICN_LIB_ERROR_NONE"
    using tcp_update_ok[OF ah] by simp
  have f: "only_changes (p + 16) (p + 18) h (snd (update_checksums (hicn_ops_vft [P_TCP, P_AH]) h p c n))"
    using tcp_update_frame[OF ah] by simp
  then show "only_changes (p + 16) (p + 18) h (snd (update_checksums (hicn_ops_vft [P_TCP, P_AH]) h p c n))" .
  show "20 + ah_extent (snd (update_checksums (hicn_ops_vft [P_TCP, P_AH]) h p c n)) (p + 20) = 20 + ah_extent h (p + 20)"
    using only_changes_byte[OF f, of "21 + p"] by (simp add: ah_extent_def)
  show "p + 20 \<le> length h \<Longrightarrow> unat n \<le> 65535 \<Longrightarrow>
      verify_checksums (hicn_ops_vft [P_TCP, P_AH]) (snd (update_checksums (hicn_ops_vft [P_TCP, P_AH]) h p c n)) p c n =
        (HICN_LIB_ERROR_NONE, snd (update_checksums (hicn_ops_vft [P_TCP, P_AH]) h p c n))"
    using tcp_verify_update[OF ah, of p h n c] by simp
qed

end
