(* ===== verification/Compat.thy ===== *)
theory Compat
  imports TransportHeaders
begin

text \<open>
  The format-based interface to packets (\<^verbatim>\<open>lib/src/compat.c\<close>): \<^verbatim>\<open>hicn_packet_*\<close>, \<^verbatim>\<open>hicn_interest_*\<close> and
  \<^verbatim>\<open>hicn_data_*\<close>. Each function translates the format to a list of protocol layers and calls the table of
  operations for it, or works on the bytes at the offsets of the header structures. As in the
  tables, a getter takes and returns the value of its output variable.
\<close>

section \<open>Formats\<close>

text \<open>\<^verbatim>\<open>hicn_format_t\<close>, a combination of the \<^verbatim>\<open>HFO_*\<close> bits.\<close>

type_synonym hicn_format = u32

definition HFO_INET :: hicn_format where "HFO_INET = 1"
definition HFO_INET6 :: hicn_format where "HFO_INET6 = 2"
definition HFO_TCP :: hicn_format where "HFO_TCP = 4"
definition HFO_ICMP :: hicn_format where "HFO_ICMP = 8"
definition HFO_AH :: hicn_format where "HFO_AH = 16"

definition is_ipv4 :: "hicn_format \<Rightarrow> u32" where "is_ipv4 format = format AND HFO_INET"
definition is_ipv6 :: "hicn_format \<Rightarrow> u32" where "is_ipv6 format = drop_bit 1 (format AND HFO_INET6)"
definition is_tcp :: "hicn_format \<Rightarrow> u32" where "is_tcp format = drop_bit 2 (format AND HFO_TCP)"
definition is_icmp :: "hicn_format \<Rightarrow> u32" where "is_icmp format = drop_bit 3 (format AND HFO_ICMP)"
definition is_ah :: "hicn_format \<Rightarrow> u32" where "is_ah format = drop_bit 4 (format AND HFO_AH)"

definition HF_UNSPEC :: hicn_format where "HF_UNSPEC = 0"
definition HF_INET_TCP :: hicn_format where "HF_INET_TCP = 5"
definition HF_INET6_TCP :: hicn_format where "HF_INET6_TCP = 6"
definition HF_INET_ICMP :: hicn_format where "HF_INET_ICMP = 9"
definition HF_INET6_ICMP :: hicn_format where "HF_INET6_ICMP = 10"
definition HF_INET_TCP_AH :: hicn_format where "HF_INET_TCP_AH = 21"
definition HF_INET6_TCP_AH :: hicn_format where "HF_INET6_TCP_AH = 22"
definition HF_INET_ICMP_AH :: hicn_format where "HF_INET_ICMP_AH = 25"
definition HF_INET6_ICMP_AH :: hicn_format where "HF_INET6_ICMP_AH = 26"

lemmas hicn_format_defs = HF_UNSPEC_def HF_INET_TCP_def HF_INET6_TCP_def HF_INET_ICMP_def HF_INET6_ICMP_def
  HF_INET_TCP_AH_def HF_INET6_TCP_AH_def HF_INET_ICMP_AH_def HF_INET6_ICMP_AH_def

lemmas format_bit_defs = is_ipv4_def is_ipv6_def is_tcp_def is_icmp_def is_ah_def
  HFO_INET_def HFO_INET6_def HFO_TCP_def HFO_ICMP_def HFO_AH_def

definition HICN_IP_VERSION :: "bytes \<Rightarrow> u8" where
  "HICN_IP_VERSION h = drop_bit 4 (byte h 0)"

definition hicn_packet_get_format :: "bytes \<Rightarrow> rc \<times> hicn_format" where
  "hicn_packet_get_format h =
     (if HICN_IP_VERSION h = 4
      then (if byte h 9 = protocol_number P_TCP
            then (if byte h (IPV4_HDRLEN + 13) AND AH_FLAG \<noteq> 0 then (HICN_LIB_ERROR_NONE, HF_INET_TCP_AH)
                  else (HICN_LIB_ERROR_NONE, HF_INET_TCP))
            else if byte h 9 = protocol_number P_ICMP then (HICN_LIB_ERROR_NONE, HF_INET_ICMP)
            else (HICN_LIB_ERROR_NOT_HICN, HF_UNSPEC))
      else if HICN_IP_VERSION h = 6
      then (if byte h 6 = protocol_number P_TCP
            then (if byte h (IPV6_HDRLEN + 13) AND AH_FLAG \<noteq> 0 then (HICN_LIB_ERROR_NONE, HF_INET6_TCP_AH)
                  else (HICN_LIB_ERROR_NONE, HF_INET6_TCP))
            else if byte h 6 = protocol_number P_ICMPV6 then (HICN_LIB_ERROR_NONE, HF_INET6_ICMP)
            else (HICN_LIB_ERROR_NOT_HICN, HF_UNSPEC))
      else (HICN_LIB_ERROR_NOT_HICN, HF_UNSPEC))"

definition hicn_format_to_type :: "hicn_format \<Rightarrow> hicn_type" where
  "hicn_format_to_type format =
     (if format = HF_INET_TCP then [P_IP, P_TCP]
      else if format = HF_INET6_TCP then [P_IPV6, P_TCP]
      else if format = HF_INET_ICMP then [P_IP, P_ICMP]
      else if format = HF_INET6_ICMP then [P_IPV6, P_ICMPV6]
      else if format = HF_INET_TCP_AH then [P_IP, P_TCP, P_AH]
      else if format = HF_INET6_TCP_AH then [P_IPV6, P_TCP, P_AH]
      else if format = HF_INET_ICMP_AH then [P_IP, P_ICMP, P_AH]
      else if format = HF_INET6_ICMP_AH then [P_IPV6, P_ICMPV6, P_AH]
      else [])"

definition hicn_header_to_type :: "bytes \<Rightarrow> hicn_type" where
  "hicn_header_to_type h = hicn_format_to_type (snd (hicn_packet_get_format h))"

section \<open>Headers, checksums and lengths\<close>

definition hicn_packet_init_header :: "hicn_format \<Rightarrow> bytes \<Rightarrow> rc \<times> bytes" where
  "hicn_packet_init_header format packet =
     (let ty = hicn_format_to_type format
      in if hicn_type_is_none ty then (HICN_LIB_ERROR_UNEXPECTED, packet)
         else init_packet_header (hicn_ops_vft ty) packet 0)"

definition hicn_packet_compute_checksum :: "hicn_format \<Rightarrow> bytes \<Rightarrow> rc \<times> bytes" where
  "hicn_packet_compute_checksum format h =
     update_checksums (hicn_ops_vft (hicn_format_to_type format)) h 0 0 (- 1)"

definition hicn_packet_compute_header_checksum :: "hicn_format \<Rightarrow> bytes \<Rightarrow> u16 \<Rightarrow> rc \<times> bytes" where
  "hicn_packet_compute_header_checksum format h init_sum =
     update_checksums (hicn_ops_vft (hicn_format_to_type format)) h 0 init_sum 0"

definition hicn_packet_check_integrity_no_payload :: "hicn_format \<Rightarrow> bytes \<Rightarrow> u16 \<Rightarrow> rc \<times> bytes" where
  "hicn_packet_check_integrity_no_payload format h init_sum =
     verify_checksums (hicn_ops_vft (hicn_format_to_type format)) h 0 init_sum 0"

definition hicn_packet_get_header_length_from_format :: "hicn_format \<Rightarrow> rc \<times> u64" where
  "hicn_packet_get_header_length_from_format format =
     (HICN_LIB_ERROR_NONE,
      ucast (is_ipv4 format) * of_nat IPV4_HDRLEN + ucast (is_ipv6 format) * of_nat IPV6_HDRLEN +
      ucast (is_icmp format) * of_nat ICMP_HDRLEN + ucast (is_tcp format) * of_nat TCP_HDRLEN +
      ucast (is_ah format) * of_nat AH_HDRLEN)"

definition hicn_packet_get_header_length :: "hicn_format \<Rightarrow> bytes \<Rightarrow> rc \<times> u64" where
  "hicn_packet_get_header_length format h =
     (let header_length = snd (hicn_packet_get_header_length_from_format format)
      in (HICN_LIB_ERROR_NONE,
          if is_ah format \<noteq> 0 \<and> is_ipv4 format \<noteq> 0
          then header_length + push_bit 2 (ucast (byte h (IPV4_HDRLEN + TCP_HDRLEN + 1)))
          else if is_ah format \<noteq> 0 \<and> is_ipv6 format \<noteq> 0
          then header_length + push_bit 2 (ucast (byte h (IPV6_HDRLEN + TCP_HDRLEN + 1)))
          else header_length))"

definition hicn_packet_get_payload_length :: "hicn_format \<Rightarrow> bytes \<Rightarrow> u64 \<Rightarrow> rc \<times> u64" where
  "hicn_packet_get_payload_length format h payload_length =
     get_payload_length (hicn_ops_vft (hicn_format_to_type format)) h 0 payload_length"

definition hicn_packet_set_payload_length :: "hicn_format \<Rightarrow> bytes \<Rightarrow> u64 \<Rightarrow> rc \<times> bytes" where
  "hicn_packet_set_payload_length format h payload_length =
     set_payload_length (hicn_ops_vft (hicn_format_to_type format)) h 0 payload_length"

text \<open>\<^verbatim>\<open>memcmp\<close>: only the sign of the result is specified; here it is \<open>- 1\<close>, \<open>0\<close> or \<open>1\<close>.\<close>

fun memcmp :: "bytes \<Rightarrow> bytes \<Rightarrow> int" where
  "memcmp (a # as) (b # bs) = (if a < b then - 1 else if b < a then 1 else memcmp as bs)"
| "memcmp _ _ = 0"

definition hicn_packet_compare :: "bytes \<Rightarrow> bytes \<Rightarrow> int" where
  "hicn_packet_compare packet1 packet2 =
     (let type1 = hicn_header_to_type packet1;
          type2 = hicn_header_to_type packet2
      in if type1 \<noteq> type2 then hicn_lib_error HICN_LIB_ERROR_UNEXPECTED
         else (case get_length (hicn_ops_vft type1) packet1 0 0 of
                 (rc, len1) \<Rightarrow>
                   if failed rc then hicn_lib_error HICN_LIB_ERROR_UNEXPECTED
                   else (case get_length (hicn_ops_vft type2) packet2 0 0 of
                           (rc, len2) \<Rightarrow>
                             if failed rc then hicn_lib_error HICN_LIB_ERROR_UNEXPECTED
                             else if len1 \<noteq> len2 then hicn_lib_error HICN_LIB_ERROR_UNEXPECTED
                             else memcmp (field packet1 0 (unat len1)) (field packet2 0 (unat len1)))))"

section \<open>Names, payloads and locators\<close>

definition name_is_iov :: "hicn_name \<Rightarrow> bool" where
  "name_is_iov name = (name_type name = HNT_IOV_V4 \<or> name_type name = HNT_IOV_V6)"

definition hicn_packet_get_name :: "hicn_format \<Rightarrow> bytes \<Rightarrow> hicn_name \<Rightarrow> bool \<Rightarrow> rc \<times> hicn_name" where
  "hicn_packet_get_name format h name is_interest =
     (let ty = hicn_format_to_type format
      in if is_interest then get_interest_name (hicn_ops_vft ty) h 0 name
         else get_data_name (hicn_ops_vft ty) h 0 name)"

definition hicn_packet_set_name :: "hicn_format \<Rightarrow> bytes \<Rightarrow> hicn_name \<Rightarrow> bool \<Rightarrow> rc \<times> bytes" where
  "hicn_packet_set_name format h name is_interest =
     (let ty = hicn_format_to_type format
      in if name_is_iov name then (HICN_LIB_ERROR_NOT_IMPLEMENTED, h)
         else if is_interest then set_interest_name (hicn_ops_vft ty) h 0 name
         else set_data_name (hicn_ops_vft ty) h 0 name)"

definition hicn_packet_set_payload :: "hicn_format \<Rightarrow> bytes \<Rightarrow> bytes \<Rightarrow> u16 \<Rightarrow> rc \<times> bytes" where
  "hicn_packet_set_payload format h payload payload_length =
     (let ty = hicn_format_to_type format
      in case get_header_length (hicn_ops_vft ty) h 0 0 of
           (rc, header_length) \<Rightarrow>
             if failed rc then (rc, h)
             else (let h = put h (unat header_length) (field payload 0 (unat payload_length))
                   in set_payload_length (hicn_ops_vft ty) h 0 (ucast payload_length)))"

text \<open>
  \<^verbatim>\<open>hicn_packet_get_payload\<close> stores a pointer into the packet in \<^verbatim>\<open>*payload\<close>, or, with \<^verbatim>\<open>hard_copy\<close>, copies the
  bytes to the memory \<^verbatim>\<open>payload\<close> itself points to; \<^verbatim>\<open>*payload_size\<close> is never written.
\<close>

datatype payload_out = PayloadAt nat | PayloadCopied bytes

definition hicn_packet_get_payload ::
  "hicn_format \<Rightarrow> bytes \<Rightarrow> payload_out \<Rightarrow> u64 \<Rightarrow> bool \<Rightarrow> rc \<times> payload_out \<times> u64" where
  "hicn_packet_get_payload format h payload payload_size hard_copy =
     (let ty = hicn_format_to_type format
      in case get_header_length (hicn_ops_vft ty) h 0 0 of
           (rc, header_length) \<Rightarrow>
             if failed rc then (rc, payload, payload_size)
             else (case get_payload_length (hicn_ops_vft ty) h 0 0 of
                     (rc, payload_length) \<Rightarrow>
                       if failed rc then (rc, payload, payload_size)
                       else (HICN_LIB_ERROR_NONE,
                             if hard_copy then PayloadCopied (field h (unat header_length) (unat payload_length))
                             else PayloadAt (unat header_length),
                             payload_size)))"

definition hicn_packet_get_locator :: "hicn_format \<Rightarrow> bytes \<Rightarrow> bytes \<Rightarrow> bool \<Rightarrow> rc \<times> bytes" where
  "hicn_packet_get_locator format h address is_interest =
     (if is_ipv4 format \<noteq> 0
      then (HICN_LIB_ERROR_NONE, put address 12 (if is_interest then field h 12 4 else field h 16 4))
      else if is_ipv6 format \<noteq> 0
      then (HICN_LIB_ERROR_NONE, put address 0 (if is_interest then field h 8 16 else field h 24 16))
      else (HICN_LIB_ERROR_NOT_IMPLEMENTED, address))"

definition hicn_packet_set_locator :: "hicn_format \<Rightarrow> bytes \<Rightarrow> bytes \<Rightarrow> bool \<Rightarrow> rc \<times> bytes" where
  "hicn_packet_set_locator format h address is_interest =
     (if is_ipv6 format \<noteq> 0
      then (HICN_LIB_ERROR_NONE, put h (if is_interest then 8 else 24) (field address 0 16))
      else if is_ipv4 format \<noteq> 0
      then (HICN_LIB_ERROR_NONE, put h (if is_interest then 12 else 16) (field address 12 4))
      else (HICN_LIB_ERROR_INVALID_PARAMETER, h))"

section \<open>Signatures\<close>

definition hicn_packet_get_signature_size :: "hicn_format \<Rightarrow> bytes \<Rightarrow> u64 \<Rightarrow> rc \<times> u64" where
  "hicn_packet_get_signature_size format h n =
     get_signature_size (hicn_ops_vft (hicn_format_to_type format)) h 0 n"

definition hicn_packet_set_signature_size :: "hicn_format \<Rightarrow> bytes \<Rightarrow> u64 \<Rightarrow> rc \<times> bytes" where
  "hicn_packet_set_signature_size format h n =
     set_signature_size (hicn_ops_vft (hicn_format_to_type format)) h 0 n"

definition hicn_packet_set_signature_timestamp :: "hicn_format \<Rightarrow> bytes \<Rightarrow> u64 \<Rightarrow> rc \<times> bytes" where
  "hicn_packet_set_signature_timestamp format h signature_timestamp =
     set_signature_timestamp (hicn_ops_vft (hicn_format_to_type format)) h 0 signature_timestamp"

definition hicn_packet_get_signature_timestamp :: "hicn_format \<Rightarrow> bytes \<Rightarrow> u64 \<Rightarrow> rc \<times> u64" where
  "hicn_packet_get_signature_timestamp format h signature_timestamp =
     get_signature_timestamp (hicn_ops_vft (hicn_format_to_type format)) h 0 signature_timestamp"

definition hicn_packet_set_validation_algorithm :: "hicn_format \<Rightarrow> bytes \<Rightarrow> u8 \<Rightarrow> rc \<times> bytes" where
  "hicn_packet_set_validation_algorithm format h validation_algorithm =
     set_validation_algorithm (hicn_ops_vft (hicn_format_to_type format)) h 0 validation_algorithm"

definition hicn_packet_get_validation_algorithm :: "hicn_format \<Rightarrow> bytes \<Rightarrow> u8 \<Rightarrow> rc \<times> u8" where
  "hicn_packet_get_validation_algorithm format h validation_algorithm =
     get_validation_algorithm (hicn_ops_vft (hicn_format_to_type format)) h 0 validation_algorithm"

definition hicn_packet_set_key_id :: "hicn_format \<Rightarrow> bytes \<Rightarrow> bytes \<Rightarrow> rc \<times> bytes" where
  "hicn_packet_set_key_id format h key_id =
     set_key_id (hicn_ops_vft (hicn_format_to_type format)) h 0 key_id"

definition hicn_packet_get_key_id :: "hicn_format \<Rightarrow> bytes \<Rightarrow> nat \<times> u8 \<Rightarrow> rc \<times> (nat \<times> u8)" where
  "hicn_packet_get_key_id format h key_id =
     get_key_id (hicn_ops_vft (hicn_format_to_type format)) h 0 key_id"

definition hicn_packet_get_signature :: "hicn_format \<Rightarrow> bytes \<Rightarrow> nat \<Rightarrow> rc \<times> nat" where
  "hicn_packet_get_signature format h sign_buf =
     get_signature (hicn_ops_vft (hicn_format_to_type format)) h 0 sign_buf"

section \<open>Fields found by the IP version\<close>

definition hicn_packet_get_hoplimit :: "bytes \<Rightarrow> u8 \<Rightarrow> rc \<times> u8" where
  "hicn_packet_get_hoplimit h hops =
     (if HICN_IP_VERSION h = 6 then (HICN_LIB_ERROR_NONE, byte h 7)
      else if HICN_IP_VERSION h = 4 then (HICN_LIB_ERROR_NONE, byte h 8)
      else (HICN_LIB_ERROR_UNEXPECTED, hops))"

definition hicn_packet_set_hoplimit :: "bytes \<Rightarrow> u8 \<Rightarrow> rc \<times> bytes" where
  "hicn_packet_set_hoplimit h hops =
     (if HICN_IP_VERSION h = 6 then (HICN_LIB_ERROR_NONE, put h 7 [hops])
      else if HICN_IP_VERSION h = 4 then (HICN_LIB_ERROR_NONE, put h 8 [hops])
      else (HICN_LIB_ERROR_UNEXPECTED, h))"

definition hicn_packet_get_lifetime :: "bytes \<Rightarrow> u32 \<Rightarrow> rc \<times> u32" where
  "hicn_packet_get_lifetime h lifetime = get_lifetime (hicn_ops_vft (hicn_header_to_type h)) h 0 lifetime"

definition hicn_packet_set_lifetime :: "bytes \<Rightarrow> u32 \<Rightarrow> rc \<times> bytes" where
  "hicn_packet_set_lifetime h lifetime = set_lifetime (hicn_ops_vft (hicn_header_to_type h)) h 0 lifetime"

text \<open>
  The offset of the TCP header in \<^verbatim>\<open>h->v6.tcp\<close> and \<^verbatim>\<open>h->v4.tcp\<close>, by the version; \<open>None\<close> for the default case.
\<close>

definition version_tcp :: "bytes \<Rightarrow> nat option" where
  "version_tcp h =
     (if HICN_IP_VERSION h = 6 then Some IPV6_HDRLEN else if HICN_IP_VERSION h = 4 then Some IPV4_HDRLEN else None)"

definition hicn_packet_get_reserved_bits :: "bytes \<Rightarrow> u8 \<Rightarrow> rc \<times> u8" where
  "hicn_packet_get_reserved_bits h reserved_bits =
     (case version_tcp h of None \<Rightarrow> (HICN_LIB_ERROR_UNEXPECTED, reserved_bits)
      | Some tcp \<Rightarrow> (HICN_LIB_ERROR_NONE, byte h (tcp + 12) AND 0x0F))"

definition hicn_packet_set_reserved_bits :: "bytes \<Rightarrow> u8 \<Rightarrow> rc \<times> bytes" where
  "hicn_packet_set_reserved_bits h reserved_bits =
     (case version_tcp h of None \<Rightarrow> (HICN_LIB_ERROR_UNEXPECTED, h)
      | Some tcp \<Rightarrow> (HICN_LIB_ERROR_NONE,
          put h (tcp + 12) [(byte h (tcp + 12) AND NOT 0x0F) OR (reserved_bits AND 0x0F)]))"

datatype hicn_payload_type = HPT_DATA | HPT_MANIFEST | HPT_UNSPEC

definition hicn_packet_get_payload_type :: "bytes \<Rightarrow> hicn_payload_type \<Rightarrow> rc \<times> hicn_payload_type" where
  "hicn_packet_get_payload_type h payload_type =
     (case version_tcp h of None \<Rightarrow> (HICN_LIB_ERROR_UNEXPECTED, payload_type)
      | Some tcp \<Rightarrow>
          (let payload_type =
                 (if byte h (tcp + 13) AND HICN_TCP_FLAG_URG = HICN_TCP_FLAG_URG then HPT_MANIFEST else HPT_DATA)
           in if payload_type = HPT_UNSPEC then (HICN_LIB_ERROR_UNEXPECTED, payload_type)
              else (HICN_LIB_ERROR_NONE, payload_type)))"

definition hicn_packet_set_payload_type :: "bytes \<Rightarrow> hicn_payload_type \<Rightarrow> rc \<times> bytes" where
  "hicn_packet_set_payload_type h payload_type =
     (if payload_type \<noteq> HPT_DATA \<and> payload_type \<noteq> HPT_MANIFEST then (HICN_LIB_ERROR_UNEXPECTED, h)
      else (case version_tcp h of None \<Rightarrow> (HICN_LIB_ERROR_UNEXPECTED, h)
            | Some tcp \<Rightarrow> (HICN_LIB_ERROR_NONE,
                put h (tcp + 13)
                  [if payload_type \<noteq> HPT_DATA then byte h (tcp + 13) OR HICN_TCP_FLAG_URG
                   else byte h (tcp + 13) AND NOT HICN_TCP_FLAG_URG])))"

section \<open>Flags and ports\<close>

text \<open>
  The guards that the fifteen flag functions and the four port functions share: the format has a TCP
  header, and the version is four or six.
\<close>

definition with_tcp :: "hicn_format \<Rightarrow> bytes \<Rightarrow> 'a \<Rightarrow> (nat \<Rightarrow> 'a) \<Rightarrow> rc \<times> 'a" where
  "with_tcp format h old new =
     (if is_tcp format = 0 then (HICN_LIB_ERROR_UNEXPECTED, old)
      else (case version_tcp h of None \<Rightarrow> (HICN_LIB_ERROR_UNEXPECTED, old)
            | Some tcp \<Rightarrow> (HICN_LIB_ERROR_NONE, new tcp)))"

definition hicn_packet_set_syn :: "hicn_format \<Rightarrow> bytes \<Rightarrow> rc \<times> bytes" where
  "hicn_packet_set_syn format h =
     with_tcp format h h (\<lambda>tcp. put h (tcp + 13) [byte h (tcp + 13) OR HICN_TCP_FLAG_SYN])"

definition hicn_packet_reset_syn :: "hicn_format \<Rightarrow> bytes \<Rightarrow> rc \<times> bytes" where
  "hicn_packet_reset_syn format h =
     with_tcp format h h (\<lambda>tcp. put h (tcp + 13) [byte h (tcp + 13) AND NOT HICN_TCP_FLAG_SYN])"

definition hicn_packet_test_syn :: "hicn_format \<Rightarrow> bytes \<Rightarrow> bool \<Rightarrow> rc \<times> bool" where
  "hicn_packet_test_syn format h flag =
     with_tcp format h flag (\<lambda>tcp. byte h (tcp + 13) AND HICN_TCP_FLAG_SYN \<noteq> 0)"

definition hicn_packet_set_ack :: "hicn_format \<Rightarrow> bytes \<Rightarrow> rc \<times> bytes" where
  "hicn_packet_set_ack format h =
     with_tcp format h h (\<lambda>tcp. put h (tcp + 13) [byte h (tcp + 13) OR HICN_TCP_FLAG_ACK])"

definition hicn_packet_reset_ack :: "hicn_format \<Rightarrow> bytes \<Rightarrow> rc \<times> bytes" where
  "hicn_packet_reset_ack format h =
     with_tcp format h h (\<lambda>tcp. put h (tcp + 13) [byte h (tcp + 13) AND NOT HICN_TCP_FLAG_ACK])"

definition hicn_packet_test_ack :: "hicn_format \<Rightarrow> bytes \<Rightarrow> bool \<Rightarrow> rc \<times> bool" where
  "hicn_packet_test_ack format h flag =
     with_tcp format h flag (\<lambda>tcp. byte h (tcp + 13) AND HICN_TCP_FLAG_ACK \<noteq> 0)"

definition hicn_packet_set_rst :: "hicn_format \<Rightarrow> bytes \<Rightarrow> rc \<times> bytes" where
  "hicn_packet_set_rst format h =
     with_tcp format h h (\<lambda>tcp. put h (tcp + 13) [byte h (tcp + 13) OR HICN_TCP_FLAG_RST])"

definition hicn_packet_reset_rst :: "hicn_format \<Rightarrow> bytes \<Rightarrow> rc \<times> bytes" where
  "hicn_packet_reset_rst format h =
     with_tcp format h h (\<lambda>tcp. put h (tcp + 13) [byte h (tcp + 13) AND NOT HICN_TCP_FLAG_RST])"

definition hicn_packet_test_rst :: "hicn_format \<Rightarrow> bytes \<Rightarrow> bool \<Rightarrow> rc \<times> bool" where
  "hicn_packet_test_rst format h flag =
     with_tcp format h flag (\<lambda>tcp. byte h (tcp + 13) AND HICN_TCP_FLAG_RST \<noteq> 0)"

definition hicn_packet_set_fin :: "hicn_format \<Rightarrow> bytes \<Rightarrow> rc \<times> bytes" where
  "hicn_packet_set_fin format h =
     with_tcp format h h (\<lambda>tcp. put h (tcp + 13) [byte h (tcp + 13) OR HICN_TCP_FLAG_FIN])"

definition hicn_packet_reset_fin :: "hicn_format \<Rightarrow> bytes \<Rightarrow> rc \<times> bytes" where
  "hicn_packet_reset_fin format h =
     with_tcp format h h (\<lambda>tcp. put h (tcp + 13) [byte h (tcp + 13) AND NOT HICN_TCP_FLAG_FIN])"

definition hicn_packet_test_fin :: "hicn_format \<Rightarrow> bytes \<Rightarrow> bool \<Rightarrow> rc \<times> bool" where
  "hicn_packet_test_fin format h flag =
     with_tcp format h flag (\<lambda>tcp. byte h (tcp + 13) AND HICN_TCP_FLAG_FIN \<noteq> 0)"

definition hicn_packet_set_ece :: "hicn_format \<Rightarrow> bytes \<Rightarrow> rc \<times> bytes" where
  "hicn_packet_set_ece format h =
     with_tcp format h h (\<lambda>tcp. put h (tcp + 13) [byte h (tcp + 13) OR HICN_TCP_FLAG_ECE])"

definition hicn_packet_reset_ece :: "hicn_format \<Rightarrow> bytes \<Rightarrow> rc \<times> bytes" where
  "hicn_packet_reset_ece format h =
     with_tcp format h h (\<lambda>tcp. put h (tcp + 13) [byte h (tcp + 13) AND NOT HICN_TCP_FLAG_ECE])"

definition hicn_packet_test_ece :: "hicn_format \<Rightarrow> bytes \<Rightarrow> bool \<Rightarrow> rc \<times> bool" where
  "hicn_packet_test_ece format h flag =
     with_tcp format h flag (\<lambda>tcp. byte h (tcp + 13) AND HICN_TCP_FLAG_ECE \<noteq> 0)"

definition hicn_packet_set_src_port :: "hicn_format \<Rightarrow> bytes \<Rightarrow> u16 \<Rightarrow> rc \<times> bytes" where
  "hicn_packet_set_src_port format h src_port = with_tcp format h h (\<lambda>tcp. put_be16 h tcp src_port)"

definition hicn_packet_get_src_port :: "hicn_format \<Rightarrow> bytes \<Rightarrow> u16 \<Rightarrow> rc \<times> u16" where
  "hicn_packet_get_src_port format h src_port = with_tcp format h src_port (\<lambda>tcp. be16 h tcp)"

definition hicn_packet_set_dst_port :: "hicn_format \<Rightarrow> bytes \<Rightarrow> u16 \<Rightarrow> rc \<times> bytes" where
  "hicn_packet_set_dst_port format h dst_port = with_tcp format h h (\<lambda>tcp. put_be16 h (tcp + 2) dst_port)"

definition hicn_packet_get_dst_port :: "hicn_format \<Rightarrow> bytes \<Rightarrow> u16 \<Rightarrow> rc \<times> u16" where
  "hicn_packet_get_dst_port format h dst_port = with_tcp format h dst_port (\<lambda>tcp. be16 h (tcp + 2))"

definition hicn_packet_copy_header :: "hicn_format \<Rightarrow> bytes \<Rightarrow> bytes \<Rightarrow> bool \<Rightarrow> rc \<times> bytes" where
  "hicn_packet_copy_header format packet destination copy_ah =
     (let header_length =
            ucast (is_ipv4 format) * of_nat IPV4_HDRLEN + ucast (is_ipv6 format) * of_nat IPV6_HDRLEN +
            ucast (is_icmp format) * of_nat ICMP_HDRLEN + ucast (is_tcp format) * of_nat TCP_HDRLEN +
            ucast (is_ah format) * of_bool copy_ah * of_nat AH_HDRLEN :: u64
      in (HICN_LIB_ERROR_NONE, put destination 0 (field packet 0 (unat header_length))))"

section \<open>Interests and data\<close>

definition hicn_interest_get_name :: "hicn_format \<Rightarrow> bytes \<Rightarrow> hicn_name \<Rightarrow> rc \<times> hicn_name" where
  "hicn_interest_get_name format interest name = hicn_packet_get_name format interest name True"

definition hicn_interest_set_name :: "hicn_format \<Rightarrow> bytes \<Rightarrow> hicn_name \<Rightarrow> rc \<times> bytes" where
  "hicn_interest_set_name format interest name =
     (case hicn_packet_reset_ece format interest of
        (ret_err, interest) \<Rightarrow>
          if failed ret_err then (HICN_LIB_ERROR_UNEXPECTED, interest)
          else hicn_packet_set_name format interest name True)"

definition hicn_data_get_name :: "hicn_format \<Rightarrow> bytes \<Rightarrow> hicn_name \<Rightarrow> rc \<times> hicn_name" where
  "hicn_data_get_name format data name = hicn_packet_get_name format data name False"

definition hicn_data_set_name :: "hicn_format \<Rightarrow> bytes \<Rightarrow> hicn_name \<Rightarrow> rc \<times> bytes" where
  "hicn_data_set_name format data name =
     (case hicn_packet_set_ece format data of
        (ret_err, data) \<Rightarrow>
          if failed ret_err then (HICN_LIB_ERROR_UNEXPECTED, data)
          else hicn_packet_set_name format data name False)"

definition hicn_interest_get_locator :: "hicn_format \<Rightarrow> bytes \<Rightarrow> bytes \<Rightarrow> rc \<times> bytes" where
  "hicn_interest_get_locator format interest address = hicn_packet_get_locator format interest address True"

definition hicn_interest_set_locator :: "hicn_format \<Rightarrow> bytes \<Rightarrow> bytes \<Rightarrow> rc \<times> bytes" where
  "hicn_interest_set_locator format interest address = hicn_packet_set_locator format interest address True"

definition hicn_interest_compare :: "bytes \<Rightarrow> bytes \<Rightarrow> int" where
  "hicn_interest_compare interest_1 interest_2 = hicn_packet_compare interest_1 interest_2"

definition hicn_interest_get_header_length :: "hicn_format \<Rightarrow> bytes \<Rightarrow> rc \<times> u64" where
  "hicn_interest_get_header_length format interest = hicn_packet_get_header_length format interest"

definition hicn_interest_get_payload_length :: "hicn_format \<Rightarrow> bytes \<Rightarrow> u64 \<Rightarrow> rc \<times> u64" where
  "hicn_interest_get_payload_length format interest payload_length = hicn_packet_get_payload_length format interest payload_length"

definition hicn_interest_get_payload ::
  "hicn_format \<Rightarrow> bytes \<Rightarrow> payload_out \<Rightarrow> u64 \<Rightarrow> bool \<Rightarrow> rc \<times> payload_out \<times> u64" where
  "hicn_interest_get_payload format interest payload payload_size hard_copy =
     hicn_packet_get_payload format interest payload payload_size hard_copy"

definition hicn_interest_set_payload :: "hicn_format \<Rightarrow> bytes \<Rightarrow> bytes \<Rightarrow> u64 \<Rightarrow> rc \<times> bytes" where
  "hicn_interest_set_payload format interest payload payload_length =
     hicn_packet_set_payload format interest payload (ucast payload_length)"

definition hicn_interest_reset_for_hash :: "hicn_format \<Rightarrow> bytes \<Rightarrow> rc \<times> bytes" where
  "hicn_interest_reset_for_hash format packet =
     reset_interest_for_hash (hicn_ops_vft (hicn_format_to_type format)) packet 0"

definition hicn_data_get_locator :: "hicn_format \<Rightarrow> bytes \<Rightarrow> bytes \<Rightarrow> rc \<times> bytes" where
  "hicn_data_get_locator format data address = hicn_packet_get_locator format data address False"

definition hicn_data_set_locator :: "hicn_format \<Rightarrow> bytes \<Rightarrow> bytes \<Rightarrow> rc \<times> bytes" where
  "hicn_data_set_locator format data address = hicn_packet_set_locator format data address False"

definition hicn_data_compare :: "bytes \<Rightarrow> bytes \<Rightarrow> int" where
  "hicn_data_compare data_1 data_2 = hicn_packet_compare data_1 data_2"

definition hicn_data_get_header_length :: "hicn_format \<Rightarrow> bytes \<Rightarrow> rc \<times> u64" where
  "hicn_data_get_header_length format data = hicn_packet_get_header_length format data"

definition hicn_data_get_payload_length :: "hicn_format \<Rightarrow> bytes \<Rightarrow> u64 \<Rightarrow> rc \<times> u64" where
  "hicn_data_get_payload_length format data payload_length = hicn_packet_get_payload_length format data payload_length"

definition hicn_data_get_payload ::
  "hicn_format \<Rightarrow> bytes \<Rightarrow> payload_out \<Rightarrow> u64 \<Rightarrow> bool \<Rightarrow> rc \<times> payload_out \<times> u64" where
  "hicn_data_get_payload format data payload payload_size hard_copy =
     hicn_packet_get_payload format data payload payload_size hard_copy"

definition hicn_data_set_payload :: "hicn_format \<Rightarrow> bytes \<Rightarrow> bytes \<Rightarrow> u64 \<Rightarrow> rc \<times> bytes" where
  "hicn_data_set_payload format data payload payload_length =
     hicn_packet_set_payload format data payload (ucast payload_length)"

definition hicn_data_reset_for_hash :: "hicn_format \<Rightarrow> bytes \<Rightarrow> rc \<times> bytes" where
  "hicn_data_reset_for_hash format packet =
     reset_data_for_hash (hicn_ops_vft (hicn_format_to_type format)) packet 0"

definition hicn_interest_get_lifetime :: "bytes \<Rightarrow> u32 \<Rightarrow> rc \<times> u32" where
  "hicn_interest_get_lifetime interest lifetime = hicn_packet_get_lifetime interest lifetime"

definition hicn_interest_set_lifetime :: "bytes \<Rightarrow> u32 \<Rightarrow> rc \<times> bytes" where
  "hicn_interest_set_lifetime interest lifetime = hicn_packet_set_lifetime interest lifetime"

definition hicn_data_get_expiry_time :: "bytes \<Rightarrow> u32 \<Rightarrow> rc \<times> u32" where
  "hicn_data_get_expiry_time data expiry_time = hicn_packet_get_lifetime data expiry_time"

definition hicn_data_set_expiry_time :: "bytes \<Rightarrow> u32 \<Rightarrow> rc \<times> bytes" where
  "hicn_data_set_expiry_time data expiry_time = hicn_packet_set_lifetime data expiry_time"

definition hicn_data_set_payload_type :: "bytes \<Rightarrow> hicn_payload_type \<Rightarrow> rc \<times> bytes" where
  "hicn_data_set_payload_type data payload_type = hicn_packet_set_payload_type data payload_type"

definition hicn_data_get_payload_type :: "bytes \<Rightarrow> hicn_payload_type \<Rightarrow> rc \<times> hicn_payload_type" where
  "hicn_data_get_payload_type data payload_type = hicn_packet_get_payload_type data payload_type"

definition hicn_data_get_path_label :: "bytes \<Rightarrow> u32 \<Rightarrow> rc \<times> u32" where
  "hicn_data_get_path_label data path_label =
     get_data_pathlabel (hicn_ops_vft (hicn_header_to_type data)) data 0 path_label"

definition hicn_data_set_path_label :: "bytes \<Rightarrow> u32 \<Rightarrow> rc \<times> bytes" where
  "hicn_data_set_path_label data path_label =
     set_data_pathlabel (hicn_ops_vft (hicn_header_to_type data)) data 0 path_label"

section \<open>Formats, types and lengths\<close>

lemma format_to_type [simp]:
  "hicn_format_to_type HF_INET_TCP = [P_IP, P_TCP]" "hicn_format_to_type HF_INET6_TCP = [P_IPV6, P_TCP]"
  "hicn_format_to_type HF_INET_ICMP = [P_IP, P_ICMP]" "hicn_format_to_type HF_INET6_ICMP = [P_IPV6, P_ICMPV6]"
  "hicn_format_to_type HF_INET_TCP_AH = [P_IP, P_TCP, P_AH]" "hicn_format_to_type HF_INET6_TCP_AH = [P_IPV6, P_TCP, P_AH]"
  "hicn_format_to_type HF_INET_ICMP_AH = [P_IP, P_ICMP, P_AH]" "hicn_format_to_type HF_INET6_ICMP_AH = [P_IPV6, P_ICMPV6, P_AH]"
  "hicn_format_to_type HF_UNSPEC = []"
  by (simp_all add: hicn_format_to_type_def hicn_format_defs)

lemma format_bits [simp]:
  "is_ipv4 HF_INET_TCP = 1" "is_ipv4 HF_INET_TCP_AH = 1" "is_ipv4 HF_INET_ICMP = 1" "is_ipv4 HF_INET_ICMP_AH = 1"
  "is_ipv4 HF_INET6_TCP = 0" "is_ipv4 HF_INET6_TCP_AH = 0" "is_ipv4 HF_INET6_ICMP = 0" "is_ipv4 HF_INET6_ICMP_AH = 0"
  "is_ipv6 HF_INET_TCP = 0" "is_ipv6 HF_INET_TCP_AH = 0" "is_ipv6 HF_INET_ICMP = 0" "is_ipv6 HF_INET_ICMP_AH = 0"
  "is_ipv6 HF_INET6_TCP = 1" "is_ipv6 HF_INET6_TCP_AH = 1" "is_ipv6 HF_INET6_ICMP = 1" "is_ipv6 HF_INET6_ICMP_AH = 1"
  "is_tcp HF_INET_TCP = 1" "is_tcp HF_INET_TCP_AH = 1" "is_tcp HF_INET_ICMP = 0" "is_tcp HF_INET_ICMP_AH = 0"
  "is_tcp HF_INET6_TCP = 1" "is_tcp HF_INET6_TCP_AH = 1" "is_tcp HF_INET6_ICMP = 0" "is_tcp HF_INET6_ICMP_AH = 0"
  "is_icmp HF_INET_TCP = 0" "is_icmp HF_INET_TCP_AH = 0" "is_icmp HF_INET_ICMP = 1" "is_icmp HF_INET_ICMP_AH = 1"
  "is_icmp HF_INET6_TCP = 0" "is_icmp HF_INET6_TCP_AH = 0" "is_icmp HF_INET6_ICMP = 1" "is_icmp HF_INET6_ICMP_AH = 1"
  "is_ah HF_INET_TCP = 0" "is_ah HF_INET_TCP_AH = 1" "is_ah HF_INET_ICMP = 0" "is_ah HF_INET_ICMP_AH = 1"
  "is_ah HF_INET6_TCP = 0" "is_ah HF_INET6_TCP_AH = 1" "is_ah HF_INET6_ICMP = 0" "is_ah HF_INET6_ICMP_AH = 1"
  by (simp_all add: hicn_format_defs format_bit_defs)

lemmas hdrlen_defs = IPV4_HDRLEN_def IPV6_HDRLEN_def TCP_HDRLEN_def ICMP_HDRLEN_def AH_HDRLEN_def

definition tcp_formats :: "hicn_format set" where
  "tcp_formats = {HF_INET_TCP, HF_INET6_TCP, HF_INET_TCP_AH, HF_INET6_TCP_AH}"

text \<open>The version, the IP header length and the address length of a format, and where its names are.\<close>

definition format_version :: "hicn_format \<Rightarrow> u8" where
  "format_version format = (if is_ipv4 format \<noteq> 0 then 4 else 6)"

definition ip_length :: "hicn_format \<Rightarrow> nat" where
  "ip_length format = (if is_ipv4 format \<noteq> 0 then IPV4_HDRLEN else IPV6_HDRLEN)"

definition address_length :: "hicn_format \<Rightarrow> nat" where
  "address_length format = (if is_ipv4 format \<noteq> 0 then 4 else 16)"

definition name_at :: "hicn_format \<Rightarrow> bool \<Rightarrow> nat" where
  "name_at format is_interest =
     (if is_ipv4 format \<noteq> 0 then if is_interest then 16 else 12 else if is_interest then 24 else 8)"

definition name_bytes :: "hicn_format \<Rightarrow> bool \<Rightarrow> nat set" where
  "name_bytes format is_interest =
     {name_at format is_interest ..< name_at format is_interest + address_length format} \<union>
     {ip_length format + 4 ..< ip_length format + 8}"

definition contiguous_name :: "hicn_format \<Rightarrow> hicn_name \<Rightarrow> hicn_name \<Rightarrow> hicn_name" where
  "contiguous_name format name out =
     out\<lparr>name_type := (if is_ipv4 format \<noteq> 0 then HNT_CONTIGUOUS_V4 else HNT_CONTIGUOUS_V6),
         name_len := of_nat (address_length format + 4),
         name_buffer := field (name_buffer name) 0 (address_length format + 4) @
           drop (address_length format + 4) (name_buffer out)\<rparr>"

lemmas format_geometry = format_version_def ip_length_def address_length_def name_at_def name_bytes_def
  contiguous_name_def hdrlen_defs

text \<open>\<^verbatim>\<open>hicn_packet_set_name\<close> writes the name and nothing else, and \<^verbatim>\<open>hicn_packet_get_name\<close> reads it.\<close>

lemma packet_name:
  assumes "format \<in> tcp_formats" "ip_length format + 20 \<le> length h" "\<not> name_is_iov name" "length (name_buffer out) = 20"
  obtains h' where "hicn_packet_set_name format h name b = (HICN_LIB_ERROR_NONE, h')" "length h' = length h"
    "\<And>i. i \<notin> name_bytes format b \<Longrightarrow> byte h' i = byte h i"
    "hicn_packet_get_name format h' out b = (HICN_LIB_ERROR_NONE, contiguous_name format name out)"
proof -
  let ?h' = "snd (hicn_packet_set_name format h name b)"
  consider "format = HF_INET_TCP" | "format = HF_INET6_TCP" | "format = HF_INET_TCP_AH" | "format = HF_INET6_TCP_AH"
    using assms(1) by (auto simp: tcp_formats_def)
  then have "fst (hicn_packet_set_name format h name b) = HICN_LIB_ERROR_NONE \<and> length ?h' = length h \<and>
    (\<forall>i. i \<notin> name_bytes format b \<longrightarrow> byte ?h' i = byte h i) \<and>
    hicn_packet_get_name format ?h' out b = (HICN_LIB_ERROR_NONE, contiguous_name format name out)"
    using assms
      tcp_suffix.ipv4_interest_name[where p = 0 and h = h and out = out and name = name]
      tcp_suffix.ipv4_data_name[where p = 0 and h = h and out = out and name = name]
      tcp_suffix.ipv6_interest_name[where p = 0 and h = h and out = out and name = name]
      tcp_suffix.ipv6_data_name[where p = 0 and h = h and out = out and name = name]
    by cases (auto simp: hicn_packet_set_name_def hicn_packet_get_name_def Let_def format_geometry)
  then show ?thesis using that[of ?h'] by (metis prod.collapse)
qed

lemma with_tcp_format:
  assumes "format \<in> tcp_formats" "HICN_IP_VERSION h = format_version format"
  shows "with_tcp format h old new = (HICN_LIB_ERROR_NONE, new (ip_length format))"
  using assms by (auto simp: tcp_formats_def with_tcp_def version_tcp_def format_geometry)

lemma put_flags_byte:
  "k < length h \<Longrightarrow> byte (put h k [f]) i = (if i = k then f else byte h i)"
  by (simp add: byte_update)

lemma flag_or_not: "((x :: u8) AND NOT f) AND f = 0" "f \<noteq> 0 \<Longrightarrow> (x OR f) AND f \<noteq> 0"
  by (simp_all add: and.assoc bit.conj_disj_distrib2)

text \<open>
  C37. Names survive: in every format with a TCP header, setting the name of an interest or of a data
  packet succeeds, and reading it gives the name back; the packet is marked as interest or data by
  the ECE flag; and no byte outside the address that holds the name, the sequence number and the
  flags changes, so the locator, the lifetime, the ports, the path label and the payload stay.
\<close>

theorem names_round_trip:
  assumes "format \<in> tcp_formats" "HICN_IP_VERSION h = format_version format"
    and "ip_length format + 20 \<le> length h" "\<not> name_is_iov name" "length (name_buffer out) = 20"
  shows "(\<exists>h'. hicn_interest_set_name format h name = (HICN_LIB_ERROR_NONE, h') \<and>
      hicn_interest_get_name format h' out = (HICN_LIB_ERROR_NONE, contiguous_name format name out) \<and>
      hicn_packet_test_ece format h' flag = (HICN_LIB_ERROR_NONE, False) \<and> length h' = length h \<and>
      (\<forall>i. i \<notin> name_bytes format True \<and> i \<noteq> ip_length format + 13 \<longrightarrow> byte h' i = byte h i)) \<and>
    (\<exists>h'. hicn_data_set_name format h name = (HICN_LIB_ERROR_NONE, h') \<and>
      hicn_data_get_name format h' out = (HICN_LIB_ERROR_NONE, contiguous_name format name out) \<and>
      hicn_packet_test_ece format h' flag = (HICN_LIB_ERROR_NONE, True) \<and> length h' = length h \<and>
      (\<forall>i. i \<notin> name_bytes format False \<and> i \<noteq> ip_length format + 13 \<longrightarrow> byte h' i = byte h i))"
proof -
  define k where "k = ip_length format + 13"
  have k: "k < length h" "k \<notin> name_bytes format b" "0 \<notin> name_bytes format b" "k \<noteq> 0" for b
    using assms(3) by (auto simp: k_def format_geometry)
  have main: "\<exists>h'. hicn_packet_set_name format (put h k [f]) name b = (HICN_LIB_ERROR_NONE, h') \<and>
      hicn_packet_get_name format h' out b = (HICN_LIB_ERROR_NONE, contiguous_name format name out) \<and>
      byte h' k = f \<and> HICN_IP_VERSION h' = format_version format \<and> length h' = length h \<and>
      (\<forall>i. i \<notin> name_bytes format b \<and> i \<noteq> k \<longrightarrow> byte h' i = byte h i)" for f b
  proof -
    obtain h' where h': "hicn_packet_set_name format (put h k [f]) name b = (HICN_LIB_ERROR_NONE, h')"
      "length h' = length (put h k [f])" "\<And>i. i \<notin> name_bytes format b \<Longrightarrow> byte h' i = byte (put h k [f]) i"
      "hicn_packet_get_name format h' out b = (HICN_LIB_ERROR_NONE, contiguous_name format name out)"
      using packet_name[OF assms(1) _ assms(4,5), of "put h k [f]" b] assms(3) by auto
    have "byte h' i = (if i = k then f else byte h i)" if "i \<notin> name_bytes format b" for i
      using h'(3)[OF that] k(1) by (simp only: put_flags_byte)
    then show ?thesis using h'(1,2,4) k assms(2) by (auto simp: HICN_IP_VERSION_def)
  qed
  have "\<exists>h'. hicn_interest_set_name format h name = (HICN_LIB_ERROR_NONE, h') \<and>
      hicn_interest_get_name format h' out = (HICN_LIB_ERROR_NONE, contiguous_name format name out) \<and>
      hicn_packet_test_ece format h' flag = (HICN_LIB_ERROR_NONE, False) \<and> length h' = length h \<and>
      (\<forall>i. i \<notin> name_bytes format True \<and> i \<noteq> ip_length format + 13 \<longrightarrow> byte h' i = byte h i)"
    using main[of "byte h k AND NOT HICN_TCP_FLAG_ECE" True]
    by (auto simp: hicn_interest_set_name_def hicn_interest_get_name_def hicn_packet_reset_ece_def
      hicn_packet_test_ece_def with_tcp_format[OF assms(1,2)] with_tcp_format[OF assms(1)] flag_or_not simp flip: k_def)
  moreover have "\<exists>h'. hicn_data_set_name format h name = (HICN_LIB_ERROR_NONE, h') \<and>
      hicn_data_get_name format h' out = (HICN_LIB_ERROR_NONE, contiguous_name format name out) \<and>
      hicn_packet_test_ece format h' flag = (HICN_LIB_ERROR_NONE, True) \<and> length h' = length h \<and>
      (\<forall>i. i \<notin> name_bytes format False \<and> i \<noteq> ip_length format + 13 \<longrightarrow> byte h' i = byte h i)"
    using main[of "byte h k OR HICN_TCP_FLAG_ECE" False]
    by (auto simp: hicn_data_set_name_def hicn_data_get_name_def hicn_packet_set_ece_def
      hicn_packet_test_ece_def with_tcp_format[OF assms(1,2)] with_tcp_format[OF assms(1)] flag_or_not
      HICN_TCP_FLAG_ECE_def simp flip: k_def)
  ultimately show ?thesis by blast
qed

definition ex_name :: hicn_name where
  "ex_name = \<lparr>name_type = HNT_CONTIGUOUS_V6, name_len = 20, name_buffer = map word_of_nat [1..<21], name_iov = ([], [])\<rparr>"

definition ex_blank :: bytes where
  "ex_blank = [0x60] @ replicate 99 0"

text \<open>The hypotheses hold for an IPv6 packet, and the name is found again.\<close>

theorem names_round_trip_witness:
  "(\<exists>h'. hicn_interest_set_name HF_INET6_TCP ex_blank ex_name = (HICN_LIB_ERROR_NONE, h') \<and>
      hicn_interest_get_name HF_INET6_TCP h' ex_name = (HICN_LIB_ERROR_NONE, contiguous_name HF_INET6_TCP ex_name ex_name)) \<and>
   contiguous_name HF_INET6_TCP ex_name ex_name = ex_name"
proof -
  have "HF_INET6_TCP \<in> tcp_formats" by (simp add: tcp_formats_def)
  moreover have "HICN_IP_VERSION ex_blank = format_version HF_INET6_TCP"
    by (simp add: HICN_IP_VERSION_def ex_blank_def format_geometry byte_def)
  moreover have "ip_length HF_INET6_TCP + 20 \<le> length ex_blank" by (simp add: ex_blank_def format_geometry)
  moreover have "\<not> name_is_iov ex_name" "length (name_buffer ex_name) = 20"
    by (simp_all add: ex_name_def name_is_iov_def)
  ultimately have "\<exists>h'. hicn_interest_set_name HF_INET6_TCP ex_blank ex_name = (HICN_LIB_ERROR_NONE, h') \<and>
      hicn_interest_get_name HF_INET6_TCP h' ex_name = (HICN_LIB_ERROR_NONE, contiguous_name HF_INET6_TCP ex_name ex_name)"
    using names_round_trip[of HF_INET6_TCP ex_blank ex_name ex_name] by blast
  moreover have "contiguous_name HF_INET6_TCP ex_name ex_name = ex_name"
    by (simp add: ex_name_def format_geometry field_all)
  ultimately show ?thesis by blast
qed

section \<open>Fresh headers\<close>

text \<open>The formats that \<^verbatim>\<open>hicn_packet_get_format\<close> recognises.\<close>

definition parsed_formats :: "hicn_format set" where
  "parsed_formats = {HF_INET_TCP, HF_INET6_TCP, HF_INET_TCP_AH, HF_INET6_TCP_AH, HF_INET_ICMP, HF_INET6_ICMP}"

lemma get_format_parsed:
  "hicn_packet_get_format h = (HICN_LIB_ERROR_NONE, format) \<Longrightarrow> format \<in> parsed_formats"
  by (auto simp: hicn_packet_get_format_def parsed_formats_def split: if_splits)

text \<open>
  The two computations of the header length agree: the one of the format-based interface, which
  reads the signature length at the offsets of the header structures, and the one that goes through
  the layers. This holds for every format a packet can be recognised as; for ICMP with AH the
  structure offset is that of a TCP header, sixteen bytes too far.
\<close>

theorem header_lengths_agree:
  "(hicn_packet_get_format h = (HICN_LIB_ERROR_NONE, format) \<longrightarrow>
     hicn_packet_get_header_length format h = get_header_length (hicn_ops_vft (hicn_format_to_type format)) h 0 v) \<and>
   hicn_packet_get_header_length HF_INET_ICMP_AH h = (HICN_LIB_ERROR_NONE, 68 + push_bit 2 (ucast (byte h 41))) \<and>
   get_header_length (hicn_ops_vft (hicn_format_to_type HF_INET_ICMP_AH)) h 0 v =
     (HICN_LIB_ERROR_NONE, 68 + push_bit 2 (ucast (byte h 25)))"
proof -
  have "hicn_packet_get_header_length format h = get_header_length (hicn_ops_vft (hicn_format_to_type format)) h 0 v"
    if "format \<in> parsed_formats" for format
  proof -
    consider "format = HF_INET_TCP" | "format = HF_INET6_TCP" | "format = HF_INET_TCP_AH" | "format = HF_INET6_TCP_AH"
      | "format = HF_INET_ICMP" | "format = HF_INET6_ICMP"
      using \<open>format \<in> parsed_formats\<close> by (auto simp: parsed_formats_def)
    then show ?thesis
      using tcp_sized.ipv4_header_length[of h 0 v] tcp_sized.ipv6_header_length[of h 0 v]
        tcp_ah_sized.ipv4_header_length[of h 0 v] tcp_ah_sized.ipv6_header_length[of h 0 v]
        icmp_sized.ipv4_header_length[of h 0 v] icmp6_sized.ipv6_header_length[of h 0 v]
      by cases (simp_all add: hicn_packet_get_header_length_def hicn_packet_get_header_length_from_format_def
        hdrlen_defs ah_extent_def)
  qed
  moreover have "get_header_length (hicn_ops_vft (hicn_format_to_type HF_INET_ICMP_AH)) h 0 v =
      (HICN_LIB_ERROR_NONE, 68 + push_bit 2 (ucast (byte h 25)))"
    using icmp_ah_sized.ipv4_header_length[of h 0 v] by (simp add: ah_extent_def)
  ultimately show ?thesis
    by (auto dest: get_format_parsed simp: hicn_packet_get_header_length_def
      hicn_packet_get_header_length_from_format_def hdrlen_defs)
qed

theorem header_lengths_agree_witness:
  "hicn_packet_get_header_length HF_INET6_TCP (ex_blank[6 := 6]) =
     get_header_length (hicn_ops_vft (hicn_format_to_type HF_INET6_TCP)) (ex_blank[6 := 6]) 0 0"
proof -
  have "hicn_packet_get_format (ex_blank[6 := 6]) = (HICN_LIB_ERROR_NONE, HF_INET6_TCP)"
    by (simp add: hicn_packet_get_format_def HICN_IP_VERSION_def ex_blank_def byte_def hdrlen_defs)
  then show ?thesis using header_lengths_agree[of "ex_blank[6 := 6]" HF_INET6_TCP 0] by blast
qed

lemma be16_put_header:
  assumes "length xs = k" "off + k + 1 < length h"
  shows "be16 (put h off (xs @ bytes_be16 w @ ys)) (off + k) = w"
proof -
  have "byte (put h off (xs @ bytes_be16 w @ ys)) (off + k) = ucast (drop_bit 8 w)"
    "byte (put h off (xs @ bytes_be16 w @ ys)) (off + k + 1) = ucast w"
    using assms by (simp_all add: byte_put bytes_be16_def nth_append)
  then show ?thesis by (simp add: be16_def word_bytes)
qed

lemma be16_put_header':
  "off + k + 1 < length h \<Longrightarrow> k = length xs \<Longrightarrow> q = off + k \<Longrightarrow> be16 (put h off (xs @ bytes_be16 w @ ys)) q = w"
  by (simp only: be16_put_header)

text \<open>The bytes that a fresh header has below IP: the flags of TCP, and zeros of ICMP and AH.\<close>

lemma tcp_init:
  obtains h' where "tcp_init_packet_header ty child h p = init_packet_header child h' (p + 20)"
    "only_changes p (p + 20) h h'"
    "p + 20 \<le> length h \<Longrightarrow>
       byte h' (p + 13) = HICN_TCP_FLAG_SYN OR (if layer1 (TYPE_POP ty) = protocol_number P_AH then AH_FLAG else 0)"
proof -
  let ?hdr = "bytes_be16 0x8000 @ bytes_be16 0x0080 @ replicate 8 0 @ [0x50, HICN_TCP_FLAG_SYN] @
    bytes_be16 0 @ bytes_le16 0xffff @ bytes_le16 65000"
  let ?h1 = "put h p ?hdr"
  let ?f = "byte ?h1 (p + 13) OR (if layer1 (TYPE_POP ty) = protocol_number P_AH then AH_FLAG else 0)"
  have "tcp_init_packet_header ty child h p = init_packet_header child (put ?h1 (p + 13) [?f]) (p + 20)"
    by (simp add: tcp_init_packet_header_def Let_def)
  moreover have "only_changes p (p + 20) h (put ?h1 (p + 13) [?f])"
    by (rule only_changes_trans; rule only_changes_put) auto
  moreover have "byte (put ?h1 (p + 13) [?f]) (p + 13) =
      HICN_TCP_FLAG_SYN OR (if layer1 (TYPE_POP ty) = protocol_number P_AH then AH_FLAG else 0)"
    if "p + 20 \<le> length h"
  proof -
    have "byte ?h1 (p + 13) = HICN_TCP_FLAG_SYN"
      using that by (simp add: byte_put bytes_be16_def bytes_le16_def nth_append)
    then show ?thesis using that by (simp add: byte_update)
  qed
  ultimately show ?thesis by (rule that)
qed

text \<open>
  What the IP headers rely on to initialise a packet: the layers below fill \<open>ext\<close> bytes.
\<close>

locale init_layer = sized_layer +
  fixes ext :: nat
  assumes init_ok: "fst (init_packet_header ops h p) = HICN_LIB_ERROR_NONE"
    and init_frame: "only_changes p (p + ext) h (snd (init_packet_header ops h p))"
begin

lemma ipv4_init:
  assumes "20 + ext \<le> length h" "ops = hicn_ops_vft ty"
  obtains h' h1 where "ipv4_init_packet_header (P_IP # ty) ops h 0 = (HICN_LIB_ERROR_NONE, h')"
    "only_changes 0 (20 + ext) h h'" "byte h' 0 = 0x45" "byte h' 9 = layer1 ty"
    "ipv4_get_payload_length ops h' 0 v = (HICN_LIB_ERROR_NONE, hl h 20 - hl h' 20)"
    "length h1 = length h" "h' = snd (init_packet_header ops h1 20)"
proof -
  let ?w = "ucast (20 + hl h 20) :: u16"
  let ?h1 = "put h 0 ([0x45, 0] @ bytes_be16 ?w @ bytes_be16 300 @ bytes_be16 0 @
    [HICN_DEFAULT_TTL, layer1 ty] @ replicate 10 0)"
  let ?h' = "snd (init_packet_header ops ?h1 20)"
  have f: "only_changes 20 (20 + ext) ?h1 ?h'" by (rule init_frame)
  have "ipv4_init_packet_header (P_IP # ty) ops h 0 = init_packet_header ops ?h1 20"
    by (simp add: ipv4_init_packet_header_def ipv4_header_length TYPE_POP_def Let_def)
  then have "ipv4_init_packet_header (P_IP # ty) ops h 0 = (HICN_LIB_ERROR_NONE, ?h')"
    using init_ok[of ?h1 20] by (metis prod.collapse)
  moreover have "only_changes 0 (20 + ext) h ?h'"
    by (rule only_changes_trans[OF only_changes_put only_changes_mono[OF f]]) auto
  moreover have "byte ?h' 0 = 0x45" "byte ?h' 9 = layer1 ty"
    using only_changes_byte[OF f, of 0] only_changes_byte[OF f, of 9] assms(1)
    by (auto simp: byte_put byte_update bytes_be16_def)
  moreover have "ipv4_get_payload_length ops ?h' 0 v = (HICN_LIB_ERROR_NONE, hl h 20 - hl ?h' 20)"
  proof -
    have "unat (20 + hl h 20) < 65536" using hl_bound[of h 20] by (simp add: unat_word_ariths)
    then have "ucast (be16 ?h' 2) = 20 + hl h 20"
      using fields_unchanged(2)[OF f, of 2] be16_put_header'[of 0 2 h "[0x45, 0]" 2 ?w] assms(1)
      by (simp add: u16_u64)
    then show ?thesis by (simp add: ipv4_get_payload_length_def header_length hdrlen_defs numeral_2_eq_2)
  qed
  moreover have "length ?h1 = length h" by simp
  ultimately show ?thesis using that by blast
qed

lemma ipv6_init:
  assumes "40 + ext \<le> length h" "ops = hicn_ops_vft ty"
  obtains h' h1 where "ipv6_init_packet_header (P_IPV6 # ty) ops h 0 = (HICN_LIB_ERROR_NONE, h')"
    "only_changes 0 (40 + ext) h h'" "byte h' 0 = 0x60" "byte h' 6 = layer1 ty"
    "ipv6_get_payload_length ops h' 0 v = (HICN_LIB_ERROR_NONE, hl h 40 - hl h' 40)"
    "length h1 = length h" "h' = snd (init_packet_header ops h1 40)"
proof -
  let ?w = "ucast (hl h 40) :: u16"
  let ?h1 = "put h 0 ([0x60, 0, 0, 0] @ bytes_be16 ?w @ [layer1 ty, HICN_DEFAULT_TTL] @ replicate 32 0)"
  let ?h' = "snd (init_packet_header ops ?h1 40)"
  have f: "only_changes 40 (40 + ext) ?h1 ?h'" by (rule init_frame)
  have "ipv6_init_packet_header (P_IPV6 # ty) ops h 0 = init_packet_header ops ?h1 40"
    by (simp add: ipv6_init_packet_header_def header_length TYPE_POP_def Let_def)
  then have "ipv6_init_packet_header (P_IPV6 # ty) ops h 0 = (HICN_LIB_ERROR_NONE, ?h')"
    using init_ok[of ?h1 40] by (metis prod.collapse)
  moreover have "only_changes 0 (40 + ext) h ?h'"
    by (rule only_changes_trans[OF only_changes_put only_changes_mono[OF f]]) auto
  moreover have "byte ?h' 0 = 0x60" "byte ?h' 6 = layer1 ty"
    using only_changes_byte[OF f, of 0] only_changes_byte[OF f, of 6] assms(1)
    by (auto simp: byte_put byte_update bytes_be16_def)
  moreover have "ipv6_get_payload_length ops ?h' 0 v = (HICN_LIB_ERROR_NONE, hl h 40 - hl ?h' 40)"
  proof -
    have "unat (hl h 40) < 65536" using hl_bound[of h 40] by simp
    then have "ucast (be16 ?h' 4) = hl h 40"
      using fields_unchanged(2)[OF f, of 4] be16_put_header'[of 0 4 h "[0x60, 0, 0, 0]" 4 ?w] assms(1)
      by (simp add: u16_u64)
    then show ?thesis by (simp add: ipv6_get_payload_length_def header_length)
  qed
  moreover have "length ?h1 = length h" by simp
  ultimately show ?thesis using that by blast
qed

end

interpretation tcp_init: init_layer "hicn_ops_vft [P_TCP]" "\<lambda>_ _. 20" 20
proof
  fix h p
  obtain h' where "tcp_init_packet_header [P_TCP] hicn_ops_none h p = init_packet_header hicn_ops_none h' (p + 20)"
    "only_changes p (p + 20) h h'" using tcp_init by metis
  then show "fst (init_packet_header (hicn_ops_vft [P_TCP]) h p) = HICN_LIB_ERROR_NONE"
    "only_changes p (p + 20) h (snd (init_packet_header (hicn_ops_vft [P_TCP]) h p))"
    by (simp_all add: hicn_ops_none_def)
qed

interpretation icmp_init: init_layer "hicn_ops_vft [P_ICMP]" "\<lambda>_ _. 4" 4
  by unfold_locales (simp_all add: icmp_init_packet_header_def only_changes_put)

interpretation icmp6_init: init_layer "hicn_ops_vft [P_ICMPV6]" "\<lambda>_ _. 4" 4
  by unfold_locales (simp_all add: icmp_init_packet_header_def only_changes_put)

lemma tcp_ah_init:
  "init_packet_header (hicn_ops_vft [P_TCP, P_AH]) h p =
    (HICN_LIB_ERROR_NONE, put (snd (tcp_init_packet_header [P_TCP, P_AH] hicn_ops_none h p)) (p + 20) (replicate 44 0))"
proof -
  have "init_packet_header (hicn_ops_ah hicn_ops_none) h' q = (HICN_LIB_ERROR_NONE, put h' q (replicate 44 0))" for h' q
    by (simp add: ah_init_packet_header_def hicn_ops_none_def Let_def)
  then show ?thesis by (simp add: tcp_init_packet_header_def hicn_ops_none_def Let_def)
qed

lemma tcp_none_init:
  "only_changes p (p + 20) h (snd (tcp_init_packet_header ty hicn_ops_none h p))"
  "p + 20 \<le> length h \<Longrightarrow> byte (snd (tcp_init_packet_header ty hicn_ops_none h p)) (p + 13) =
     HICN_TCP_FLAG_SYN OR (if layer1 (TYPE_POP ty) = protocol_number P_AH then AH_FLAG else 0)"
  by (rule tcp_init[of ty hicn_ops_none h p]; simp add: hicn_ops_none_def)+

interpretation tcp_ah_init: init_layer "hicn_ops_vft [P_TCP, P_AH]" "\<lambda>h p. 20 + ah_extent h (p + 20)" 64
proof
  fix h p
  show "fst (init_packet_header (hicn_ops_vft [P_TCP, P_AH]) h p) = HICN_LIB_ERROR_NONE"
    unfolding tcp_ah_init by simp
  show "only_changes p (p + 64) h (snd (init_packet_header (hicn_ops_vft [P_TCP, P_AH]) h p))"
    unfolding tcp_ah_init snd_conv
    by (rule only_changes_trans[OF only_changes_mono[OF tcp_none_init(1)] only_changes_put]) auto
qed

definition fresh_header :: "hicn_format \<Rightarrow> bytes \<Rightarrow> u64 \<Rightarrow> bool" where
  "fresh_header format h v \<longleftrightarrow> (\<exists>h'. hicn_packet_init_header format h = (HICN_LIB_ERROR_NONE, h') \<and>
    hicn_packet_get_format h' = (HICN_LIB_ERROR_NONE, format) \<and>
    only_changes 0 (unat (snd (hicn_packet_get_header_length_from_format format))) h h' \<and>
    hicn_packet_get_payload_length format h' v = (HICN_LIB_ERROR_NONE,
      if is_ah format \<noteq> 0 then push_bit 2 (ucast (byte h (ip_length format + 21))) else 0))"

lemma header_length_from_format:
  "snd (hicn_packet_get_header_length_from_format f) =
     ucast (is_ipv4 f) * 20 + ucast (is_ipv6 f) * 40 + ucast (is_icmp f) * 4 + ucast (is_tcp f) * 20 + ucast (is_ah f) * 44"
  by (simp add: hicn_packet_get_header_length_from_format_def hdrlen_defs)

lemma fresh_flags: "AH_FLAG \<noteq> 0" "HICN_TCP_FLAG_SYN AND AH_FLAG = 0" "(HICN_TCP_FLAG_SYN OR AH_FLAG) AND AH_FLAG \<noteq> 0"
  by (simp_all add: HICN_TCP_FLAG_SYN_def AH_FLAG_def)

lemmas fresh_defs = fresh_header_def hicn_packet_init_header_def hicn_type_is_none_def hicn_packet_get_format_def
  HICN_IP_VERSION_def hicn_packet_get_payload_length_def format_geometry layer1_def TYPE_POP_def
  header_length_from_format fresh_flags

lemma fresh_HF_INET_TCP:
  assumes "40 \<le> length h"
  shows "fresh_header HF_INET_TCP h v"
proof -
  obtain h' h1 where "ipv4_init_packet_header [P_IP, P_TCP] (hicn_ops_vft [P_TCP]) h 0 = (HICN_LIB_ERROR_NONE, h')"
    "only_changes 0 40 h h'" "byte h' 0 = 0x45" "byte h' 9 = layer1 [P_TCP]"
    "ipv4_get_payload_length (hicn_ops_vft [P_TCP]) h' 0 v = (HICN_LIB_ERROR_NONE, 0)"
    "length h1 = length h" "h' = snd (init_packet_header (hicn_ops_vft [P_TCP]) h1 20)"
    using tcp_init.ipv4_init[of h "[P_TCP]" v] assms by auto
  moreover from this assms have "byte h' 33 = HICN_TCP_FLAG_SYN"
    using tcp_none_init(2)[of 20 h1 "[P_TCP]"] by (simp add: layer1_def TYPE_POP_def IPPROTO_NONE_def)
  ultimately show ?thesis by (simp add: fresh_defs)
qed

lemma fresh_HF_INET6_TCP:
  assumes "60 \<le> length h"
  shows "fresh_header HF_INET6_TCP h v"
proof -
  obtain h' h1 where "ipv6_init_packet_header [P_IPV6, P_TCP] (hicn_ops_vft [P_TCP]) h 0 = (HICN_LIB_ERROR_NONE, h')"
    "only_changes 0 60 h h'" "byte h' 0 = 0x60" "byte h' 6 = layer1 [P_TCP]"
    "ipv6_get_payload_length (hicn_ops_vft [P_TCP]) h' 0 v = (HICN_LIB_ERROR_NONE, 0)"
    "length h1 = length h" "h' = snd (init_packet_header (hicn_ops_vft [P_TCP]) h1 40)"
    using tcp_init.ipv6_init[of h "[P_TCP]" v] assms by auto
  moreover from this assms have "byte h' 53 = HICN_TCP_FLAG_SYN"
    using tcp_none_init(2)[of 40 h1 "[P_TCP]"] by (simp add: layer1_def TYPE_POP_def IPPROTO_NONE_def)
  ultimately show ?thesis by (simp add: fresh_defs)
qed

lemma fresh_HF_INET_TCP_AH:
  assumes "84 \<le> length h"
  shows "fresh_header HF_INET_TCP_AH h v"
proof -
  obtain h' h1 where "ipv4_init_packet_header [P_IP, P_TCP, P_AH] (hicn_ops_vft [P_TCP, P_AH]) h 0 = (HICN_LIB_ERROR_NONE, h')"
    "only_changes 0 84 h h'" "byte h' 0 = 0x45" "byte h' 9 = layer1 [P_TCP, P_AH]"
    "ipv4_get_payload_length (hicn_ops_vft [P_TCP, P_AH]) h' 0 v =
       (HICN_LIB_ERROR_NONE, 20 + ah_extent h 40 - (20 + ah_extent h' 40))"
    "length h1 = length h" "h' = snd (init_packet_header (hicn_ops_vft [P_TCP, P_AH]) h1 20)"
    using tcp_ah_init.ipv4_init[of h "[P_TCP, P_AH]" v] assms by auto
  moreover from this assms have "byte h' 33 = HICN_TCP_FLAG_SYN OR AH_FLAG" "byte h' 41 = 0"
    using tcp_none_init(2)[of 20 h1 "[P_TCP, P_AH]"] only_changes_length[OF tcp_none_init(1)[of 20 h1 "[P_TCP, P_AH]"]]
    by (simp_all add: tcp_ah_init byte_put layer1_def TYPE_POP_def del: hicn_ops_vft.simps)
  ultimately show ?thesis by (simp add: fresh_defs ah_extent_def)
qed

lemma fresh_HF_INET6_TCP_AH:
  assumes "104 \<le> length h"
  shows "fresh_header HF_INET6_TCP_AH h v"
proof -
  obtain h' h1 where "ipv6_init_packet_header [P_IPV6, P_TCP, P_AH] (hicn_ops_vft [P_TCP, P_AH]) h 0 = (HICN_LIB_ERROR_NONE, h')"
    "only_changes 0 104 h h'" "byte h' 0 = 0x60" "byte h' 6 = layer1 [P_TCP, P_AH]"
    "ipv6_get_payload_length (hicn_ops_vft [P_TCP, P_AH]) h' 0 v =
       (HICN_LIB_ERROR_NONE, 20 + ah_extent h 60 - (20 + ah_extent h' 60))"
    "length h1 = length h" "h' = snd (init_packet_header (hicn_ops_vft [P_TCP, P_AH]) h1 40)"
    using tcp_ah_init.ipv6_init[of h "[P_TCP, P_AH]" v] assms by auto
  moreover from this assms have "byte h' 53 = HICN_TCP_FLAG_SYN OR AH_FLAG" "byte h' 61 = 0"
    using tcp_none_init(2)[of 40 h1 "[P_TCP, P_AH]"] only_changes_length[OF tcp_none_init(1)[of 40 h1 "[P_TCP, P_AH]"]]
    by (simp_all add: tcp_ah_init byte_put layer1_def TYPE_POP_def del: hicn_ops_vft.simps)
  ultimately show ?thesis by (simp add: fresh_defs ah_extent_def)
qed

lemma fresh_HF_INET_ICMP:
  assumes "24 \<le> length h"
  shows "fresh_header HF_INET_ICMP h v"
proof -
  obtain h' h1 where "ipv4_init_packet_header [P_IP, P_ICMP] (hicn_ops_vft [P_ICMP]) h 0 = (HICN_LIB_ERROR_NONE, h')"
    "only_changes 0 24 h h'" "byte h' 0 = 0x45" "byte h' 9 = layer1 [P_ICMP]"
    "ipv4_get_payload_length (hicn_ops_vft [P_ICMP]) h' 0 v = (HICN_LIB_ERROR_NONE, 0)"
    using icmp_init.ipv4_init[of h "[P_ICMP]" v] assms by auto
  then show ?thesis by (simp add: fresh_defs)
qed

lemma fresh_HF_INET6_ICMP:
  assumes "44 \<le> length h"
  shows "fresh_header HF_INET6_ICMP h v"
proof -
  obtain h' h1 where "ipv6_init_packet_header [P_IPV6, P_ICMPV6] (hicn_ops_vft [P_ICMPV6]) h 0 = (HICN_LIB_ERROR_NONE, h')"
    "only_changes 0 44 h h'" "byte h' 0 = 0x60" "byte h' 6 = layer1 [P_ICMPV6]"
    "ipv6_get_payload_length (hicn_ops_vft [P_ICMPV6]) h' 0 v = (HICN_LIB_ERROR_NONE, 0)"
    using icmp6_init.ipv6_init[of h "[P_ICMPV6]" v] assms by auto
  then show ?thesis by (simp add: fresh_defs)
qed

text \<open>
  A fresh header is recognised as what was asked for: for every format that can be recognised,
  \<^verbatim>\<open>hicn_packet_init_header\<close> succeeds, \<^verbatim>\<open>hicn_packet_get_format\<close> returns the format, and only header bytes
  change. The payload length it leaves is zero without AH; with AH it is the signature length that
  was in the buffer before, because the total length is computed before the AH header is cleared.
\<close>

theorem init_header_format:
  assumes "format \<in> parsed_formats" "unat (snd (hicn_packet_get_header_length_from_format format)) \<le> length h"
  shows "\<exists>h'. hicn_packet_init_header format h = (HICN_LIB_ERROR_NONE, h') \<and>
    hicn_packet_get_format h' = (HICN_LIB_ERROR_NONE, format) \<and>
    only_changes 0 (unat (snd (hicn_packet_get_header_length_from_format format))) h h' \<and>
    hicn_packet_get_payload_length format h' v = (HICN_LIB_ERROR_NONE,
      if is_ah format \<noteq> 0 then push_bit 2 (ucast (byte h (ip_length format + 21))) else 0)"
proof -
  have "fresh_header format h v"
    using assms fresh_HF_INET_TCP[of h v] fresh_HF_INET6_TCP[of h v] fresh_HF_INET_TCP_AH[of h v]
      fresh_HF_INET6_TCP_AH[of h v] fresh_HF_INET_ICMP[of h v] fresh_HF_INET6_ICMP[of h v]
    by (auto simp: parsed_formats_def header_length_from_format)
  then show ?thesis by (simp only: fresh_header_def)
qed

theorem init_header_format_witness:
  "\<exists>h'. hicn_packet_init_header HF_INET_TCP_AH (replicate 90 7) = (HICN_LIB_ERROR_NONE, h') \<and>
    hicn_packet_get_format h' = (HICN_LIB_ERROR_NONE, HF_INET_TCP_AH) \<and>
    hicn_packet_get_payload_length HF_INET_TCP_AH h' 0 = (HICN_LIB_ERROR_NONE, 28)"
proof -
  have f: "HF_INET_TCP_AH \<in> parsed_formats" by (simp add: parsed_formats_def)
  have l: "unat (snd (hicn_packet_get_header_length_from_format HF_INET_TCP_AH)) \<le> length (replicate 90 (7 :: u8))"
    by (simp add: header_length_from_format)
  have "byte (replicate 90 7) (ip_length HF_INET_TCP_AH + 21) = 7" by (simp add: byte_def format_geometry)
  then show ?thesis using init_header_format[OF f l, of 0] by auto
qed

section \<open>Payloads\<close>

text \<open>The offset of the length field, and the header length through the layers.\<close>

definition length_at :: "hicn_format \<Rightarrow> nat" where
  "length_at format = (if is_ipv4 format \<noteq> 0 then 2 else 4)"

definition headers_length :: "hicn_format \<Rightarrow> bytes \<Rightarrow> nat" where
  "headers_length format h = unat (snd (get_header_length (hicn_ops_vft (hicn_format_to_type format)) h 0 0))"

text \<open>What setting a payload achieves, in terms of the table of operations of a packet.\<close>

definition payload_stored :: "hicn_ops \<Rightarrow> nat \<Rightarrow> bytes \<Rightarrow> bytes \<Rightarrow> u16 \<Rightarrow> bytes \<Rightarrow> bool" where
  "payload_stored ops off h payload len h' \<longleftrightarrow> length h' = length h \<and>
     get_header_length ops h' 0 0 = get_header_length ops h 0 0 \<and>
     (\<forall>v. get_payload_length ops h' 0 v = (HICN_LIB_ERROR_NONE, ucast len)) \<and>
     field h' (unat (snd (get_header_length ops h 0 0))) (unat len) = payload \<and>
     (\<forall>i. i < unat (snd (get_header_length ops h 0 0)) \<and> i \<noteq> off \<and> i \<noteq> off + 1 \<longrightarrow> byte h' i = byte h i)"

context sized_layer
begin

lemma ucast_u16_u64: "unat (ucast (w :: u16) :: u64) = unat w"
  using unat_u16_less[of w] by (simp add: unsigned_ucast_eq take_bit_nat_eq_self)

lemma ipv4_payload:
  assumes "length payload = unat len" "20 + unat (hl h 20) + unat len \<le> length h" "20 + unat (hl h 20) + unat len < 65536"
    and "h1 = put h (20 + unat (hl h 20)) payload"
  shows "ipv4_set_payload_length ops h1 0 (ucast len) = (HICN_LIB_ERROR_NONE, snd (ipv4_set_payload_length ops h1 0 (ucast len)))"
    and "payload_stored (hicn_ops_ipv4 ty ops) 2 h payload len (snd (ipv4_set_payload_length ops h1 0 (ucast len)))"
proof -
  let ?h2 = "put_be16 h1 2 (ucast (ucast len + 20 + hl h 20))"
  have f1: "only_changes (20 + unat (hl h 20)) (20 + unat (hl h 20) + unat len) h h1"
    unfolding assms(4) by (rule only_changes_put) (simp_all add: assms(1))
  then have hl1: "hl h1 20 = hl h 20" by (rule hl_local) simp
  have s: "ipv4_set_payload_length ops h1 0 (ucast len) = (HICN_LIB_ERROR_NONE, ?h2)"
    using ipv4_set_payload_length[of h1 0 "ucast len"] hl1 by (simp add: numeral_2_eq_2)
  then show "ipv4_set_payload_length ops h1 0 (ucast len) = (HICN_LIB_ERROR_NONE, snd (ipv4_set_payload_length ops h1 0 (ucast len)))"
    by simp
  have f2: "only_changes 2 4 h1 ?h2" by (rule only_changes_put16) auto
  have hl2: "hl ?h2 20 = hl h 20" using hl_local[OF f2, of 20] hl1 by simp
  have H: "unat (20 + hl h 20) = 20 + unat (hl h 20)" using unat_plus_hl[of 20 h 20] by simp
  have "length h1 = length h" by (simp add: assms(4))
  then have "ipv4_get_payload_length ops ?h2 0 v = (HICN_LIB_ERROR_NONE, ucast len)" for v
    using ipv4_payload_length[of 0 h1 "ucast len" v] s hl1 assms(2,3) by (simp add: ucast_u16_u64)
  moreover have "field ?h2 (20 + unat (hl h 20)) (unat len) = payload"
    using field_unchanged[OF f2, of "20 + unat (hl h 20)" "unat len"] field_put[of "unat len" payload "20 + unat (hl h 20)" h] assms
    by simp
  moreover have "byte ?h2 i = byte h i" if "i < 20 + unat (hl h 20)" "i \<noteq> 2" "i \<noteq> 3" for i
  proof -
    have "i < 2 \<or> 4 \<le> i" using that by linarith
    then show ?thesis using only_changes_byte[OF f2, of i] only_changes_byte[OF f1, of i] that(1) by simp
  qed
  ultimately show "payload_stored (hicn_ops_ipv4 ty ops) 2 h payload len (snd (ipv4_set_payload_length ops h1 0 (ucast len)))"
    using \<open>length h1 = length h\<close> by (simp add: payload_stored_def s ipv4_header_length hl2 H)
qed

lemma ipv6_payload:
  assumes "length payload = unat len" "40 + unat (hl h 40) + unat len \<le> length h" "unat (hl h 40) + unat len < 65536"
    and "h1 = put h (40 + unat (hl h 40)) payload"
  shows "ipv6_set_payload_length ops h1 0 (ucast len) = (HICN_LIB_ERROR_NONE, snd (ipv6_set_payload_length ops h1 0 (ucast len)))"
    and "payload_stored (hicn_ops_ipv6 ty ops) 4 h payload len (snd (ipv6_set_payload_length ops h1 0 (ucast len)))"
proof -
  let ?h2 = "put_be16 h1 4 (ucast (ucast len + hl h 40))"
  have f1: "only_changes (40 + unat (hl h 40)) (40 + unat (hl h 40) + unat len) h h1"
    unfolding assms(4) by (rule only_changes_put) (simp_all add: assms(1))
  then have hl1: "hl h1 40 = hl h 40" by (rule hl_local) simp
  have s: "ipv6_set_payload_length ops h1 0 (ucast len) = (HICN_LIB_ERROR_NONE, ?h2)"
    using ipv6_set_payload_length[of h1 0 "ucast len"] hl1 by simp
  then show "ipv6_set_payload_length ops h1 0 (ucast len) = (HICN_LIB_ERROR_NONE, snd (ipv6_set_payload_length ops h1 0 (ucast len)))"
    by simp
  have f2: "only_changes 4 6 h1 ?h2" by (rule only_changes_put16) auto
  have hl2: "hl ?h2 40 = hl h 40" using hl_local[OF f2, of 40] hl1 by simp
  have H: "unat (40 + hl h 40) = 40 + unat (hl h 40)" using unat_plus_hl[of 40 h 40] by simp
  have "length h1 = length h" by (simp add: assms(4))
  then have "ipv6_get_payload_length ops ?h2 0 v = (HICN_LIB_ERROR_NONE, ucast len)" for v
    using ipv6_payload_length[of 0 h1 "ucast len" v] s hl1 assms(2,3) by (simp add: ucast_u16_u64)
  moreover have "field ?h2 (40 + unat (hl h 40)) (unat len) = payload"
    using field_unchanged[OF f2, of "40 + unat (hl h 40)" "unat len"] field_put[of "unat len" payload "40 + unat (hl h 40)" h] assms
    by simp
  moreover have "byte ?h2 i = byte h i" if "i < 40 + unat (hl h 40)" "i \<noteq> 4" "i \<noteq> 5" for i
  proof -
    have "i < 4 \<or> 6 \<le> i" using that by linarith
    then show ?thesis using only_changes_byte[OF f2, of i] only_changes_byte[OF f1, of i] that(1) by simp
  qed
  ultimately show "payload_stored (hicn_ops_ipv6 ty ops) 4 h payload len (snd (ipv6_set_payload_length ops h1 0 (ucast len)))"
    using \<open>length h1 = length h\<close> by (simp add: payload_stored_def s ipv6_header_length hl2 H)
qed

end

lemma parsed_format_cases:
  assumes "format \<in> parsed_formats"
  obtains "format = HF_INET_TCP" | "format = HF_INET6_TCP" | "format = HF_INET_TCP_AH" | "format = HF_INET6_TCP_AH"
    | "format = HF_INET_ICMP" | "format = HF_INET6_ICMP"
  using assms by (auto simp: parsed_formats_def)

lemma set_payload_stored:
  assumes "format \<in> parsed_formats" "length payload = unat len"
    and "headers_length format h + unat len \<le> length h" "headers_length format h + unat len < 65536"
  obtains h' where "hicn_packet_set_payload format h payload len = (HICN_LIB_ERROR_NONE, h')"
    "payload_stored (hicn_ops_vft (hicn_format_to_type format)) (length_at format) h payload len h'"
proof -
  have H: "unat (20 + ah_extent h q) = 20 + unat (ah_extent h q)" "unat (40 + (ah_extent h q)) = 40 + unat (ah_extent h q)"
    "unat (60 + (ah_extent h q)) = 60 + unat (ah_extent h q)" for q
    using ah_extent_bound[of h q] by (simp_all add: unat_word_ariths)
  note defs = headers_length_def hicn_packet_set_payload_def length_at_def field_all Let_def
  from assms(1) have "\<exists>h'. hicn_packet_set_payload format h payload len = (HICN_LIB_ERROR_NONE, h') \<and>
    payload_stored (hicn_ops_vft (hicn_format_to_type format)) (length_at format) h payload len h'"
  proof (cases rule: parsed_format_cases)
    case 1
    then show ?thesis
      using tcp_sized.ipv4_payload(1)[OF assms(2), of h] tcp_sized.ipv4_payload(2)[OF assms(2), of h _ "[P_IP, P_TCP]"] tcp_sized.ipv4_header_length[of h 0] assms(2-4)
      by (auto simp: defs)
  next
    case 2
    then show ?thesis
      using tcp_sized.ipv6_payload(1)[OF assms(2), of h] tcp_sized.ipv6_payload(2)[OF assms(2), of h _ "[P_IPV6, P_TCP]"] tcp_sized.ipv6_header_length[of h 0] assms(2-4)
      by (auto simp: defs)
  next
    case 3
    then show ?thesis
      using tcp_ah_sized.ipv4_payload(1)[OF assms(2), of h] tcp_ah_sized.ipv4_payload(2)[OF assms(2), of h _ "[P_IP, P_TCP, P_AH]"] tcp_ah_sized.ipv4_header_length[of h 0] assms(2-4)
      by (auto simp: defs H)
  next
    case 4
    then show ?thesis
      using tcp_ah_sized.ipv6_payload(1)[OF assms(2), of h] tcp_ah_sized.ipv6_payload(2)[OF assms(2), of h _ "[P_IPV6, P_TCP, P_AH]"] tcp_ah_sized.ipv6_header_length[of h 0] assms(2-4)
      by (auto simp: defs H)
  next
    case 5
    then show ?thesis
      using icmp_sized.ipv4_payload(1)[OF assms(2), of h] icmp_sized.ipv4_payload(2)[OF assms(2), of h _ "[P_IP, P_ICMP]"] icmp_sized.ipv4_header_length[of h 0] assms(2-4)
      by (auto simp: defs)
  next
    case 6
    then show ?thesis
      using icmp6_sized.ipv6_payload(1)[OF assms(2), of h] icmp6_sized.ipv6_payload(2)[OF assms(2), of h _ "[P_IPV6, P_ICMPV6]"] icmp6_sized.ipv6_header_length[of h 0] assms(2-4)
      by (auto simp: defs)
  qed
  then show ?thesis using that by blast
qed



section \<open>Checksums\<close>

text \<open>
  C39. For IPv6 the checksums that are written are accepted: the packet that
  \<^verbatim>\<open>hicn_packet_compute_header_checksum\<close> returns passes \<^verbatim>\<open>hicn_packet_check_integrity_no_payload\<close> with the
  same initial sum, and the one that \<^verbatim>\<open>hicn_packet_compute_checksum\<close> returns passes the verification over the
  payload, when the length in the header covers the headers.
\<close>

theorem ipv6_checksum_accepted:
  assumes "format \<in> {HF_INET6_TCP, HF_INET6_TCP_AH}" "60 \<le> length h" "headers_length format h \<le> 40 + unat (be16 h 4)"
  shows "(\<exists>h'. hicn_packet_compute_header_checksum format h s = (HICN_LIB_ERROR_NONE, h') \<and>
      hicn_packet_check_integrity_no_payload format h' s = (HICN_LIB_ERROR_NONE, h')) \<and>
    (\<exists>h'. hicn_packet_compute_checksum format h = (HICN_LIB_ERROR_NONE, h') \<and>
      verify_checksums (hicn_ops_vft (hicn_format_to_type format)) h' 0 0 (- 1) = (HICN_LIB_ERROR_NONE, h'))"
proof -
  have b: "unat (ucast (be16 h 4) :: u64) = unat (be16 h 4)"
    using unat_u16_less[of "be16 h 4"] by (simp add: unsigned_ucast_eq take_bit_nat_eq_self)
  have z: "unat (resolved hl h 0 0) \<le> 65535" for hl by (simp add: resolved_def)
  have r: "unat (resolved hl h 0 (- 1)) \<le> 65535" if "unat (hl h 40) \<le> unat (be16 h 4)" for hl
  proof -
    have "unat (ucast (be16 h 4) - hl h 40) = unat (be16 h 4) - unat (hl h 40)"
      using that b by (simp add: unat_sub word_le_nat_alt)
    then show ?thesis using unat_u16_less[of "be16 h 4"] by (simp add: resolved_def)
  qed
  note defs = hicn_packet_compute_header_checksum_def hicn_packet_check_integrity_no_payload_def
    hicn_packet_compute_checksum_def
  from assms(1) show ?thesis
  proof
    assume f: "format = HF_INET6_TCP"
    then have "unat ((\<lambda>_ _. 20 :: u64) h (40 :: nat)) \<le> unat (be16 h 4)"
      using assms(3) tcp_sized.ipv6_header_length[of h 0 0] by (simp add: headers_length_def)
    then show ?thesis
      using f assms(2) tcp_checksum.ipv6_verify_update[of 0 h 0 s, OF _ z]
        tcp_checksum.ipv6_verify_update[of 0 h "- 1" 0, OF _ r]
        tcp_checksum.update_ok tcp_checksum.ipv6_update[of h 0]
      by (auto simp: defs intro!: prod_eqI)
  next
    assume "format \<in> {HF_INET6_TCP_AH}"
    then have f: "format = HF_INET6_TCP_AH" by simp
    have "unat (20 + ah_extent h 60) \<le> unat (be16 h 4)"
      using assms(3) tcp_ah_sized.ipv6_header_length[of h 0 0] tcp_ah_sized.unat_plus_hl[of 40 h 40] f
      by (simp add: headers_length_def)
    then show ?thesis
      using f assms(2) tcp_ah_checksum.ipv6_verify_update[of 0 h 0 s, OF _ z]
        tcp_ah_checksum.ipv6_verify_update[of 0 h "- 1" 0, OF _ r]
        tcp_ah_checksum.update_ok tcp_ah_checksum.ipv6_update[of h 0]
      by (auto simp: defs intro!: prod_eqI)
  qed
qed


lemma length_ex_blank [simp]: "length ex_blank = 100"
  by (simp add: ex_blank_def)

theorem ipv6_checksum_accepted_witness:
  "(\<exists>h'. hicn_packet_compute_header_checksum HF_INET6_TCP (put ex_blank 4 [0, 60]) 7 = (HICN_LIB_ERROR_NONE, h') \<and>
      hicn_packet_check_integrity_no_payload HF_INET6_TCP h' 7 = (HICN_LIB_ERROR_NONE, h')) \<and>
   (\<exists>h'. hicn_packet_compute_checksum HF_INET6_TCP (put ex_blank 4 [0, 60]) = (HICN_LIB_ERROR_NONE, h') \<and>
      verify_checksums (hicn_ops_vft (hicn_format_to_type HF_INET6_TCP)) h' 0 0 (- 1) = (HICN_LIB_ERROR_NONE, h'))"
proof -
  let ?h = "put ex_blank 4 [0, 60]"
  have "byte ?h 4 = 0" "byte ?h 5 = 60" by (simp_all add: byte_update)
  then have "unat (be16 ?h 4) = 60" by (simp only: be16_def) simp
  then have "headers_length HF_INET6_TCP ?h \<le> 40 + unat (be16 ?h 4)"
    using tcp_sized.ipv6_header_length[of ?h 0 0] by (simp add: headers_length_def)
  moreover have "60 \<le> length ?h" by simp
  ultimately show ?thesis using ipv6_checksum_accepted[of HF_INET6_TCP ?h 7] by blast
qed

lemma tcp_verify_no_payload:
  assumes "no_checksum child"
  shows "tcp_verify_checksums child h p c 0 =
    (if csum h p 20 (if c \<noteq> 0 then NOT c else c) \<noteq> 0 then (HICN_LIB_ERROR_CORRUPTED_PACKET, h)
     else (HICN_LIB_ERROR_NONE, h))"
  using assms by (simp add: tcp_verify_checksums_def no_checksum_def hdrlen_defs Let_def)


definition ex_summed :: bytes where
  "ex_summed = snd (hicn_packet_compute_header_checksum HF_INET6_TCP (put ex_blank 4 [0, 20, 6]) 0)"


text \<open>
  For IPv4 damage to the TCP header is not found: the integrity check looks at the checksum of the
  IP header, and then calls the function that writes the TCP checksum instead of the one that
  verifies it. Whatever checksum a packet carries, the check succeeds and returns the same packet, in
  which the TCP checksum is the correct one.
\<close>

theorem ipv4_integrity_rewrites:
  assumes "csum h 0 20 0 = 0" "40 \<le> length h"
  shows "\<exists>h'. (\<forall>c. hicn_packet_check_integrity_no_payload HF_INET_TCP (put_le16 h 36 c) s = (HICN_LIB_ERROR_NONE, h')) \<and>
    only_changes 36 38 h h'"
proof -
  have g: "tcp_update_checksums hicn_ops_none (put_le16 h 36 c) 20 k n = tcp_update_checksums hicn_ops_none h 20 k n" for c k n
  proof -
    have "put_le16 (put_le16 h 36 c) 36 0 = put_le16 h 36 0"
      by (simp add: put_le16_def bytes_le16_def list_update_swap)
    then show ?thesis by (simp add: tcp_update_eq[OF no_checksum_layers(1)] Let_def)
  qed
  have f: "only_changes 36 38 h (put_le16 h 36 c)" for c by (rule only_changes_put16) auto
  define n where "n = ucast (be16 h 2) - (40 :: u64)"
  define k where "k = csum (ipv4_pseudo_header h 0) 0 IPV4_PSHDRLEN 0"
  have "hicn_packet_check_integrity_no_payload HF_INET_TCP (put_le16 h 36 c) s = tcp_update_checksums hicn_ops_none h 20 k n" for c
  proof -
    have "csum (put_le16 h 36 c) 0 20 0 = csum h 0 20 0"
      using word_total_cong[of 0 20 "put_le16 h 36 c" h] only_changes_byte[OF f[of c]]
        csum_spec[of 20 "put_le16 h 36 c" 0 0] csum_spec[of 20 h 0 0] by (simp add: word_unat_eq_iff)
    moreover have "ipv4_pseudo_header (put_le16 h 36 c) 0 = ipv4_pseudo_header h 0"
      unfolding ipv4_pseudo_header_def
      using field_unchanged[OF f[of c], of 12 4] field_unchanged[OF f[of c], of 16 4] fields_unchanged(2)[OF f[of c], of 2]
        only_changes_byte[OF f[of c], of 9] by (simp add: numeral_2_eq_2)
    moreover have "ipv4_get_payload_length (hicn_ops_tcp [P_TCP] hicn_ops_none) (put_le16 h 36 c) 0 v = (HICN_LIB_ERROR_NONE, n)" for v
      using tcp_sized.header_length[of "put_le16 h 36 c" 20] fields_unchanged(2)[OF f[of c], of 2]
      by (simp add: ipv4_get_payload_length_def n_def hdrlen_defs numeral_2_eq_2)
    ultimately show ?thesis
      using assms(1) g[of c]
      by (simp add: hicn_packet_check_integrity_no_payload_def ipv4_verify_checksums_def hdrlen_defs k_def)
  qed
  moreover have "tcp_update_checksums hicn_ops_none h 20 k n =
      (HICN_LIB_ERROR_NONE, snd (tcp_update_checksums hicn_ops_none h 20 k n))"
    using tcp_update_ok[OF no_checksum_layers(1)] by (metis prod.collapse)
  moreover have "only_changes 36 38 h (snd (tcp_update_checksums hicn_ops_none h 20 k n))"
    using tcp_update_frame[OF no_checksum_layers(1), of 20 h k n] by simp
  ultimately show ?thesis by metis
qed

text \<open>An IPv4 header that sums up: the header checksum of the blank header with version and length.\<close>

definition ex_ipv4 :: bytes where
  "ex_ipv4 = put_le16 ([0x45, 0, 0, 40] @ replicate 56 0) 10 (csum ([0x45, 0, 0, 40] @ replicate 56 0) 0 20 0)"

theorem ipv4_integrity_rewrites_witness:
  "\<exists>h'. hicn_packet_check_integrity_no_payload HF_INET_TCP (put_le16 ex_ipv4 36 0xDEAD) 0 = (HICN_LIB_ERROR_NONE, h') \<and>
     hicn_packet_check_integrity_no_payload HF_INET_TCP (put_le16 ex_ipv4 36 0xBEEF) 0 = (HICN_LIB_ERROR_NONE, h')"
proof -
  let ?h = "[0x45, 0, 0, 40] @ replicate 56 (0 :: u8)"
  have "put_le16 ?h (0 + 10) 0 = ?h"
    by (simp add: put_le16_def bytes_le16_def numeral_eq_Suc)
  then have "csum ex_ipv4 0 20 0 = 0"
    using csum_verifies[of 10 20 0 ?h ?h ex_ipv4 0] by (simp add: ex_ipv4_def)
  moreover have "40 \<le> length ex_ipv4" by (simp add: ex_ipv4_def)
  ultimately show ?thesis using ipv4_integrity_rewrites[of ex_ipv4 0] by blast
qed

text \<open>
  For IPv4 the two ways to compute checksums are exchanged: \<^verbatim>\<open>hicn_packet_compute_checksum\<close>, which is
  meant to cover the payload, sums the TCP header only, and
  \<^verbatim>\<open>hicn_packet_compute_header_checksum\<close>, which is meant to ignore the payload, includes it.
\<close>

theorem ipv4_checksum_coverage:
  assumes "40 \<le> length h" "40 \<le> unat (be16 h 2)"
  shows "\<exists>h0 c. hicn_packet_compute_checksum HF_INET_TCP h = (HICN_LIB_ERROR_NONE, put_le16 h0 36 (csum h0 20 20 c)) \<and>
    hicn_packet_compute_header_checksum HF_INET_TCP h 0 =
      (HICN_LIB_ERROR_NONE, put_le16 h0 36 (csum h0 20 (unat (be16 h 2) - 20) c))"
proof -
  define h1 where "h1 = put_le16 (put_le16 h 10 0) 10 (csum (put_le16 h 10 0) 0 20 0)"
  define k where "k = csum (ipv4_pseudo_header h1 0) 0 IPV4_PSHDRLEN 0"
  have f: "only_changes 10 12 h h1"
    unfolding h1_def by (rule only_changes_trans; rule only_changes_put16) auto
  have "ipv4_get_payload_length (hicn_ops_tcp [P_TCP] hicn_ops_none) h1 0 v = (HICN_LIB_ERROR_NONE, ucast (be16 h 2) - 40)" for v
    using tcp_sized.header_length[of h1 20] fields_unchanged(2)[OF f, of 2]
    by (simp add: ipv4_get_payload_length_def hdrlen_defs numeral_2_eq_2)
  then have "hicn_packet_compute_header_checksum HF_INET_TCP h 0 =
      tcp_update_checksums hicn_ops_none h1 20 k
        (if ucast (be16 h 2) - 40 = (- 1 :: u64) then 0 else ucast (be16 h 2) - 40)"
    by (simp add: hicn_packet_compute_header_checksum_def ipv4_update_checksums_def hdrlen_defs Let_def k_def h1_def)
  moreover have "hicn_packet_compute_checksum HF_INET_TCP h = tcp_update_checksums hicn_ops_none h1 20 k 0"
    by (simp add: hicn_packet_compute_checksum_def ipv4_update_checksums_def hdrlen_defs Let_def k_def h1_def)
  moreover have "unat (20 + (ucast (be16 h 2) - 40) :: u64) = unat (be16 h 2) - 20" "ucast (be16 h 2) \<noteq> (39 :: u64)"
  proof -
    have u: "unat (ucast (be16 h 2) :: u64) = unat (be16 h 2)"
      using unat_u16_less[of "be16 h 2"] by (simp add: unsigned_ucast_eq take_bit_nat_eq_self)
    then show "ucast (be16 h 2) \<noteq> (39 :: u64)" using assms(2) by auto
    have "20 + (ucast (be16 h 2) - 40) = ucast (be16 h 2) - (20 :: u64)" by simp
    moreover have "unat (ucast (be16 h 2) - (20 :: u64)) = unat (be16 h 2) - 20"
      using u assms(2) by (simp add: unat_sub word_le_nat_alt)
    ultimately show "unat (20 + (ucast (be16 h 2) - 40) :: u64) = unat (be16 h 2) - 20" by (simp only:)
  qed
  ultimately show ?thesis
    by (intro exI[of _ "put_le16 h1 36 0"] exI[of _ "if k \<noteq> 0 then NOT k else k"])
      (simp add: tcp_update_eq[OF no_checksum_layers(1)] Let_def)
qed

theorem ipv4_checksum_coverage_witness:
  "\<exists>h0 c. hicn_packet_compute_checksum HF_INET_TCP ([0x45, 0, 0, 60] @ replicate 56 0) =
      (HICN_LIB_ERROR_NONE, put_le16 h0 36 (csum h0 20 20 c)) \<and>
    hicn_packet_compute_header_checksum HF_INET_TCP ([0x45, 0, 0, 60] @ replicate 56 0) 0 =
      (HICN_LIB_ERROR_NONE, put_le16 h0 36 (csum h0 20 40 c))"
proof -
  let ?h = "[0x45, 0, 0, 60] @ replicate 56 (0 :: u8)"
  have b: "unat (be16 ?h 2) = 60" by (simp add: be16_def byte_def)
  then show ?thesis using ipv4_checksum_coverage[of ?h] unfolding b by simp
qed

section \<open>Flags\<close>

text \<open>The flag functions with the bit each of them works on.\<close>

definition flag_functions ::
  "((hicn_format \<Rightarrow> bytes \<Rightarrow> rc \<times> bytes) \<times> (hicn_format \<Rightarrow> bytes \<Rightarrow> rc \<times> bytes) \<times>
    (hicn_format \<Rightarrow> bytes \<Rightarrow> bool \<Rightarrow> rc \<times> bool) \<times> u8) list" where
  "flag_functions =
     [(hicn_packet_set_syn, hicn_packet_reset_syn, hicn_packet_test_syn, HICN_TCP_FLAG_SYN),
      (hicn_packet_set_ack, hicn_packet_reset_ack, hicn_packet_test_ack, HICN_TCP_FLAG_ACK),
      (hicn_packet_set_rst, hicn_packet_reset_rst, hicn_packet_test_rst, HICN_TCP_FLAG_RST),
      (hicn_packet_set_fin, hicn_packet_reset_fin, hicn_packet_test_fin, HICN_TCP_FLAG_FIN),
      (hicn_packet_set_ece, hicn_packet_reset_ece, hicn_packet_test_ece, HICN_TCP_FLAG_ECE)]"

lemmas flag_function_defs =
  hicn_packet_set_syn_def hicn_packet_reset_syn_def hicn_packet_test_syn_def
  hicn_packet_set_ack_def hicn_packet_reset_ack_def hicn_packet_test_ack_def
  hicn_packet_set_rst_def hicn_packet_reset_rst_def hicn_packet_test_rst_def
  hicn_packet_set_fin_def hicn_packet_reset_fin_def hicn_packet_test_fin_def
  hicn_packet_set_ece_def hicn_packet_reset_ece_def hicn_packet_test_ece_def

lemmas tcp_flag_defs = HICN_TCP_FLAG_SYN_def HICN_TCP_FLAG_ACK_def HICN_TCP_FLAG_RST_def HICN_TCP_FLAG_FIN_def
  HICN_TCP_FLAG_ECE_def HICN_TCP_FLAG_PSH_def HICN_TCP_FLAG_URG_def HICN_TCP_FLAG_CWR_def

lemma flag_function_forms:
  "(set_f, reset_f, test_f, m) \<in> set flag_functions \<Longrightarrow>
     set_f = (\<lambda>format h. with_tcp format h h (\<lambda>tcp. put h (tcp + 13) [byte h (tcp + 13) OR m])) \<and>
     reset_f = (\<lambda>format h. with_tcp format h h (\<lambda>tcp. put h (tcp + 13) [byte h (tcp + 13) AND NOT m])) \<and>
     test_f = (\<lambda>format h flag. with_tcp format h flag (\<lambda>tcp. byte h (tcp + 13) AND m \<noteq> 0)) \<and>
     m \<in> {HICN_TCP_FLAG_SYN, HICN_TCP_FLAG_ACK, HICN_TCP_FLAG_RST, HICN_TCP_FLAG_FIN, HICN_TCP_FLAG_ECE}"
  by (auto simp: flag_functions_def flag_function_defs intro!: ext)

lemma flag_masks_disjoint:
  "m \<in> {HICN_TCP_FLAG_SYN, HICN_TCP_FLAG_ACK, HICN_TCP_FLAG_RST, HICN_TCP_FLAG_FIN, HICN_TCP_FLAG_ECE} \<Longrightarrow>
   m' \<in> {HICN_TCP_FLAG_SYN, HICN_TCP_FLAG_ACK, HICN_TCP_FLAG_RST, HICN_TCP_FLAG_FIN, HICN_TCP_FLAG_ECE} \<Longrightarrow>
   m \<noteq> m' \<Longrightarrow> m AND m' = 0 \<and> m \<noteq> 0"
  by (auto simp: tcp_flag_defs)

lemma disjoint_flags: "m AND m' = 0 \<Longrightarrow> ((x :: u8) OR m) AND m' = x AND m'"
  "m AND m' = 0 \<Longrightarrow> ((x :: u8) AND NOT m) AND m' = x AND m'"
proof -
  assume a: "m AND m' = 0"
  then show "(x OR m) AND m' = x AND m'" by (simp add: bit.conj_disj_distrib2)
  have "\<not> (bit m n \<and> bit m' n)" for n using a by (metis bit_and_iff bit_0_eq bot_apply bot_bool_def)
  then show "(x AND NOT m) AND m' = x AND m'"
    by (intro bit_word_eqI) (auto simp: bit_and_iff bit_not_iff)
qed

text \<open>
  The flags are independent switches: on a packet with a TCP header, setting a flag makes its test
  true and resetting it makes its test false, no test of another flag and no other byte is affected,
  and all calls succeed.
\<close>

theorem flags_independent:
  assumes "format \<in> tcp_formats" "HICN_IP_VERSION h = format_version format" "ip_length format + 20 \<le> length h"
    and "(set_f, reset_f, test_f, m) \<in> set flag_functions" "(set_f', reset_f', test_f', m') \<in> set flag_functions" "m \<noteq> m'"
  shows "\<exists>h1 h2. set_f format h = (HICN_LIB_ERROR_NONE, h1) \<and> reset_f format h = (HICN_LIB_ERROR_NONE, h2) \<and>
    test_f format h1 b = (HICN_LIB_ERROR_NONE, True) \<and> test_f format h2 b = (HICN_LIB_ERROR_NONE, False) \<and>
    test_f' format h1 b = test_f' format h b \<and> test_f' format h2 b = test_f' format h b \<and>
    only_changes (ip_length format + 13) (ip_length format + 14) h h1 \<and>
    only_changes (ip_length format + 13) (ip_length format + 14) h h2"
proof -
  define k where "k = ip_length format + 13"
  have k: "k < length h" "0 < k" using assms(3) by (simp_all add: k_def format_geometry)
  note F = flag_function_forms[OF assms(4)] and F' = flag_function_forms[OF assms(5)]
  have disj: "m AND m' = 0" "m \<noteq> 0" using flag_masks_disjoint[of m m'] F F' assms(6) by blast+
  have v: "HICN_IP_VERSION (put h k [x]) = format_version format" for x
    using assms(2) k by (simp add: HICN_IP_VERSION_def byte_update)
  have o: "only_changes k (k + 1) h (put h k [x])" for x by (rule only_changes_put) auto
  let ?h1 = "put h k [byte h k OR m]" and ?h2 = "put h k [byte h k AND NOT m]"
  have "set_f format h = (HICN_LIB_ERROR_NONE, ?h1)" "reset_f format h = (HICN_LIB_ERROR_NONE, ?h2)"
    using F by (simp_all add: with_tcp_format[OF assms(1,2)] k_def)
  moreover have "test_f format (put h k [x]) b = (HICN_LIB_ERROR_NONE, x AND m \<noteq> 0)"
    "test_f' format (put h k [x]) b = (HICN_LIB_ERROR_NONE, x AND m' \<noteq> 0)" for x
    using F F' k by (simp_all add: with_tcp_format[OF assms(1) v] byte_update flip: k_def del: put.simps add: put_flags_byte)
  moreover have "test_f' format h b = (HICN_LIB_ERROR_NONE, byte h k AND m' \<noteq> 0)"
    using F' by (simp add: with_tcp_format[OF assms(1,2)] k_def)
  ultimately show ?thesis
    using o[of "byte h k OR m"] o[of "byte h k AND NOT m"] disj
    by (intro exI[of _ ?h1] exI[of _ ?h2])
      (simp add: flag_or_not disjoint_flags k_def numeral_eq_Suc del: put.simps)
qed

theorem flags_independent_witness:
  "\<exists>h1. hicn_packet_set_ece HF_INET6_TCP ex_blank = (HICN_LIB_ERROR_NONE, h1) \<and>
     hicn_packet_test_ece HF_INET6_TCP h1 False = (HICN_LIB_ERROR_NONE, True) \<and>
     hicn_packet_test_syn HF_INET6_TCP h1 False = hicn_packet_test_syn HF_INET6_TCP ex_blank False"
proof -
  have "(hicn_packet_set_ece, hicn_packet_reset_ece, hicn_packet_test_ece, HICN_TCP_FLAG_ECE) \<in> set flag_functions"
    "(hicn_packet_set_syn, hicn_packet_reset_syn, hicn_packet_test_syn, HICN_TCP_FLAG_SYN) \<in> set flag_functions"
    by (simp_all add: flag_functions_def)
  moreover have "HICN_TCP_FLAG_ECE \<noteq> HICN_TCP_FLAG_SYN" by (simp add: tcp_flag_defs)
  moreover have "HF_INET6_TCP \<in> tcp_formats" by (simp add: tcp_formats_def)
  moreover have "HICN_IP_VERSION ex_blank = format_version HF_INET6_TCP" "ip_length HF_INET6_TCP + 20 \<le> length ex_blank"
    by (simp_all add: HICN_IP_VERSION_def ex_blank_def format_geometry byte_def)
  ultimately show ?thesis
    using flags_independent[of HF_INET6_TCP ex_blank hicn_packet_set_ece hicn_packet_reset_ece hicn_packet_test_ece
        HICN_TCP_FLAG_ECE hicn_packet_set_syn hicn_packet_reset_syn hicn_packet_test_syn HICN_TCP_FLAG_SYN False]
    by blast
qed

text \<open>
  The flag that announces an AH header is the ACK flag: setting ACK on a packet recognised as
  TCP turns it into one recognised as TCP with AH, and resetting ACK turns it back.
\<close>

theorem ack_announces_ah:
  assumes "hicn_packet_get_format h = (HICN_LIB_ERROR_NONE, HF_INET6_TCP)" "60 \<le> length h"
  shows "\<exists>h1 h2. hicn_packet_set_ack HF_INET6_TCP h = (HICN_LIB_ERROR_NONE, h1) \<and>
    hicn_packet_get_format h1 = (HICN_LIB_ERROR_NONE, HF_INET6_TCP_AH) \<and>
    hicn_packet_reset_ack HF_INET6_TCP_AH h1 = (HICN_LIB_ERROR_NONE, h2) \<and>
    hicn_packet_get_format h2 = (HICN_LIB_ERROR_NONE, HF_INET6_TCP)"
proof -
  have h: "HICN_IP_VERSION h = 6" "byte h 6 = 6"
    using assms(1) by (auto simp: hicn_packet_get_format_def hicn_format_defs split: if_splits)
  let ?h1 = "put h 53 [byte h 53 OR HICN_TCP_FLAG_ACK]"
  let ?h2 = "put ?h1 53 [byte ?h1 53 AND NOT HICN_TCP_FLAG_ACK]"
  have b: "byte (put g 53 [x]) i = (if i = 53 then x else byte g i)" if "60 \<le> length g" for g x i
    using that by (simp add: byte_update)
  have "60 \<le> length ?h1" using assms(2) by simp
  note b1 = b[OF assms(2)] and b2 = b[OF this]
  have f: "hicn_packet_get_format g = (HICN_LIB_ERROR_NONE, if byte g 53 AND AH_FLAG \<noteq> 0 then HF_INET6_TCP_AH else HF_INET6_TCP)"
    if "HICN_IP_VERSION g = 6" "byte g 6 = 6" for g
    using that by (simp add: hicn_packet_get_format_def hdrlen_defs)
  have v: "HICN_IP_VERSION ?h1 = 6" "HICN_IP_VERSION ?h2 = 6" "byte ?h1 6 = 6" "byte ?h2 6 = 6"
    using h by (simp_all add: HICN_IP_VERSION_def b1 b2 del: put.simps)
  have "hicn_packet_set_ack HF_INET6_TCP h = (HICN_LIB_ERROR_NONE, ?h1)"
    "hicn_packet_reset_ack HF_INET6_TCP_AH ?h1 = (HICN_LIB_ERROR_NONE, ?h2)"
    using h(1) v(1) by (simp_all add: hicn_packet_set_ack_def hicn_packet_reset_ack_def with_tcp_def version_tcp_def hdrlen_defs
      del: put.simps)
  moreover have "byte ?h1 53 AND AH_FLAG \<noteq> 0"
    using flag_or_not(2)[of AH_FLAG "byte h 53"] b1[of "byte h 53 OR HICN_TCP_FLAG_ACK" 53]
    by (simp add: AH_FLAG_def HICN_TCP_FLAG_ACK_def del: put.simps)
  moreover have "byte ?h2 53 AND AH_FLAG = 0"
    using flag_or_not(1)[of "byte ?h1 53" AH_FLAG] b2[of "byte ?h1 53 AND NOT HICN_TCP_FLAG_ACK" 53]
    by (simp only: AH_FLAG_def HICN_TCP_FLAG_ACK_def if_True simp_thms)
  ultimately have "hicn_packet_get_format ?h1 = (HICN_LIB_ERROR_NONE, HF_INET6_TCP_AH)"
    "hicn_packet_get_format ?h2 = (HICN_LIB_ERROR_NONE, HF_INET6_TCP)"
    "hicn_packet_set_ack HF_INET6_TCP h = (HICN_LIB_ERROR_NONE, ?h1)"
    "hicn_packet_reset_ack HF_INET6_TCP_AH ?h1 = (HICN_LIB_ERROR_NONE, ?h2)"
    using f[OF v(1,3)] f[OF v(2,4)] by (simp_all only: if_True if_False simp_thms)
  then show ?thesis by blast
qed

theorem ack_announces_ah_witness:
  "\<exists>h1. hicn_packet_set_ack HF_INET6_TCP (ex_blank[6 := 6]) = (HICN_LIB_ERROR_NONE, h1) \<and>
     hicn_packet_get_format h1 = (HICN_LIB_ERROR_NONE, HF_INET6_TCP_AH)"
proof -
  have "hicn_packet_get_format (ex_blank[6 := 6]) = (HICN_LIB_ERROR_NONE, HF_INET6_TCP)"
    by (simp add: hicn_packet_get_format_def HICN_IP_VERSION_def ex_blank_def byte_def hdrlen_defs)
  then show ?thesis using ack_announces_ah[of "ex_blank[6 := 6]"] by auto
qed

section \<open>Signatures\<close>

text \<open>
  The signature fields of a packet with AH are stored: the size, which the header keeps in
  four-byte words, for every multiple of four below 1024; the timestamp; the algorithm; and the key
  identifier, whose bytes are where the returned pointer says. Each setter changes its field alone.
\<close>

theorem signature_fields_round_trip:
  assumes "format \<in> {HF_INET_TCP_AH, HF_INET6_TCP_AH}" "ip_length format + 64 \<le> length h"
    and "unat n mod 4 = 0" "unat n < 1024" "length key = 32" "a = ip_length format + 20"
  shows "(\<exists>h'. hicn_packet_set_signature_size format h n = (HICN_LIB_ERROR_NONE, h') \<and>
      hicn_packet_get_signature_size format h' v = (HICN_LIB_ERROR_NONE, n) \<and> only_changes (a + 1) (a + 2) h h') \<and>
    (\<exists>h'. hicn_packet_set_validation_algorithm format h alg = (HICN_LIB_ERROR_NONE, h') \<and>
      hicn_packet_get_validation_algorithm format h' w = (HICN_LIB_ERROR_NONE, alg) \<and> only_changes (a + 2) (a + 3) h h') \<and>
    (\<exists>h'. hicn_packet_set_signature_timestamp format h ts = (HICN_LIB_ERROR_NONE, h') \<and>
      hicn_packet_get_signature_timestamp format h' v = (HICN_LIB_ERROR_NONE, ts) \<and> only_changes (a + 4) (a + 12) h h') \<and>
    (\<exists>h' q. hicn_packet_set_key_id format h key = (HICN_LIB_ERROR_NONE, h') \<and>
      hicn_packet_get_key_id format h' k = (HICN_LIB_ERROR_NONE, (q, 32)) \<and> field h' q 32 = key \<and>
      only_changes (a + 12) (a + 44) h h')"
proof -
  have room: "a + 44 \<le> length h" using assms(2,6) by simp
  have n: "push_bit 2 (ucast (ucast (drop_bit 2 n) :: u8)) = n"
  proof -
    have d: "unat (drop_bit 2 n) = unat n div 4"
      using unsigned_less[of n, where ?'a = nat]
      by (simp add: unsigned_drop_bit_eq drop_bit_eq_div[where ?'a = nat] take_bit_nat_eq_self)
    then have "unat (drop_bit 2 n) < 256" using assms(4) by simp
    then have "unat (ucast (ucast (drop_bit 2 n) :: u8) :: u64) = unat (drop_bit 2 n)"
      by (simp add: unsigned_ucast_eq unsigned_take_bit_eq take_bit_nat_eq_self)
    then have "unat (push_bit 2 (ucast (ucast (drop_bit 2 n) :: u8) :: u64)) = 4 * (unat n div 4)"
      using assms(4) d by (simp add: push_bit_eq_mult unat_word_ariths)
    moreover have "4 * (unat n div 4) = unat n" using assms(3) mult_div_mod_eq[of 4 "unat n"] by linarith
    ultimately show ?thesis by (simp only: word_unat_eq_iff)
  qed
  have b: "byte (put h (a + 1) [x]) (a + 1) = x" "byte (put h (a + 2) [x]) (a + 2) = x" for x
    using room by (simp_all add: byte_update)
  have frames: "only_changes (a + 1) (a + 2) h (put h (a + 1) [x])" "only_changes (a + 2) (a + 3) h (put h (a + 2) [x])"
    "only_changes (a + 4) (a + 12) h (put_be64 h (a + 4) ts)" "only_changes (a + 12) (a + 44) h (put h (a + 12) key)" for x
    using assms(5) by (intro only_changes_puts; simp)+
  have reads: "be64 (put_be64 h (a + 4) ts) (a + 4) = ts" "field (put h (a + 12) key) (a + 12) 32 = key"
    using room assms(5) by (simp_all add: be64_put_be64 field_put)
  note compat = hicn_packet_set_signature_size_def hicn_packet_get_signature_size_def
    hicn_packet_set_validation_algorithm_def hicn_packet_get_validation_algorithm_def
    hicn_packet_set_signature_timestamp_def hicn_packet_get_signature_timestamp_def
    hicn_packet_set_key_id_def hicn_packet_get_key_id_def
  note layers = ipv4_set_signature_size_def ipv4_get_signature_size_def ipv4_set_validation_algorithm_def
    ipv4_get_validation_algorithm_def ipv4_set_signature_timestamp_def ipv4_get_signature_timestamp_def
    ipv4_set_key_id_def ipv4_get_key_id_def ipv6_set_signature_size_def ipv6_get_signature_size_def
    ipv6_set_validation_algorithm_def ipv6_get_validation_algorithm_def ipv6_set_signature_timestamp_def
    ipv6_get_signature_timestamp_def ipv6_set_key_id_def ipv6_get_key_id_def
    tcp_set_signature_size_def tcp_get_signature_size_def tcp_set_validation_algorithm_def
    tcp_get_validation_algorithm_def tcp_set_signature_timestamp_def tcp_get_signature_timestamp_def
    tcp_set_key_id_def tcp_get_key_id_def ah_set_signature_size_def ah_get_signature_size_def
    ah_set_validation_algorithm_def ah_get_validation_algorithm_def ah_set_signature_timestamp_def
    ah_get_signature_timestamp_def ah_set_key_id_def ah_get_key_id_def
  have "format = HF_INET_TCP_AH \<and> a = 40 \<or> format = HF_INET6_TCP_AH \<and> a = 60"
    using assms(1,6) by (auto simp: format_geometry)
  then show ?thesis
    using b[of "ucast (drop_bit 2 n)"] b[of alg] n frames reads assms(5)
    by (elim disjE conjE) (simp_all add: compat layers field_all del: put.simps)
qed

theorem signature_fields_round_trip_witness:
  "\<exists>h'. hicn_packet_set_signature_size HF_INET_TCP_AH ex_blank 256 = (HICN_LIB_ERROR_NONE, h') \<and>
     hicn_packet_get_signature_size HF_INET_TCP_AH h' 0 = (HICN_LIB_ERROR_NONE, 256)"
proof -
  have "HF_INET_TCP_AH \<in> {HF_INET_TCP_AH, HF_INET6_TCP_AH}" "ip_length HF_INET_TCP_AH + 64 \<le> length ex_blank"
    by (simp_all add: format_geometry)
  moreover have "unat (256 :: u64) mod 4 = 0" "unat (256 :: u64) < 1024" by simp_all
  ultimately show ?thesis
    using signature_fields_round_trip[of HF_INET_TCP_AH ex_blank 256 "replicate 32 0" "ip_length HF_INET_TCP_AH + 20" 0 0 0 0 "(0, 0)"]
    by auto
qed

section \<open>Hashing\<close>

text \<open>The bytes that are cleared before hashing: all of the headers but the name, and the signature.\<close>

definition cleared_for_hash :: "hicn_format \<Rightarrow> bool \<Rightarrow> bytes \<Rightarrow> nat set" where
  "cleared_for_hash format is_interest h =
     ({0 ..< ip_length format + 20} - name_bytes format is_interest) \<union>
     (if is_ah format \<noteq> 0
      then {ip_length format + 64 ..< ip_length format + 64 + 4 * unat (byte h (ip_length format + 21))} else {})"

lemma byte_put_zeros: "byte (put h off (replicate n 0)) i = (if off \<le> i \<and> i < off + n then 0 else byte h i)"
  using byte_put[of h off "replicate n 0" i] by (auto simp: byte_def[of h])

lemma ah_reset_for_hash:
  "ah_reset_interest_for_hash hicn_ops_none h p =
     (HICN_LIB_ERROR_NONE, put h (p + 44) (replicate (4 * unat (byte h (p + 1))) 0))"
  "ah_reset_data_for_hash hicn_ops_none h p =
     (HICN_LIB_ERROR_NONE, put h (p + 44) (replicate (4 * unat (byte h (p + 1))) 0))"
proof -
  have "unat (push_bit 2 (ucast (byte h (p + 1))) :: u64) = 4 * unat (byte h (p + 1))"
    using unat_u8_less[of "byte h (p + 1)"]
    by (simp add: push_bit_eq_mult unat_word_ariths unsigned_ucast_eq take_bit_nat_eq_self)
  then show "ah_reset_interest_for_hash hicn_ops_none h p =
      (HICN_LIB_ERROR_NONE, put h (p + 44) (replicate (4 * unat (byte h (p + 1))) 0))"
    "ah_reset_data_for_hash hicn_ops_none h p =
      (HICN_LIB_ERROR_NONE, put h (p + 44) (replicate (4 * unat (byte h (p + 1))) 0))"
    by (simp_all add: ah_reset_interest_for_hash_def ah_reset_data_for_hash_def ah_get_signature_size_def hicn_ops_none_def)
qed

text \<open>
  A hash covers the name and the payload: the reset before hashing clears every byte of the IP and
  TCP headers but the name, for an interest the one in the destination address and for data the one
  in the source address, and the signature; nothing else changes. So packets that differ in locator,
  hop limit, ports, path label, lifetime, flags, checksums or signature have the same hash input.
\<close>

theorem hash_input:
  assumes "format \<in> tcp_formats"
  shows "(\<exists>h'. hicn_interest_reset_for_hash format h = (HICN_LIB_ERROR_NONE, h') \<and>
      (\<forall>i. byte h' i = (if i \<in> cleared_for_hash format True h then 0 else byte h i))) \<and>
    (\<exists>h'. hicn_data_reset_for_hash format h = (HICN_LIB_ERROR_NONE, h') \<and>
      (\<forall>i. byte h' i = (if i \<in> cleared_for_hash format False h then 0 else byte h i)))"
proof -
  note defs = hicn_interest_reset_for_hash_def hicn_data_reset_for_hash_def
    ipv4_reset_interest_for_hash_def ipv4_reset_data_for_hash_def ipv6_reset_interest_for_hash_def
    ipv6_reset_data_for_hash_def tcp_reset_interest_for_hash_def tcp_reset_data_for_hash_def Let_def
    ah_reset_for_hash byte_put_zeros cleared_for_hash_def format_geometry
  from assms show ?thesis
    unfolding tcp_formats_def
    by (elim insertE emptyE; simp add: defs; auto simp: hicn_ops_none_def byte_put_zeros)
qed

theorem hash_input_witness:
  "\<exists>h'. hicn_interest_reset_for_hash HF_INET6_TCP (replicate 70 9) = (HICN_LIB_ERROR_NONE, h') \<and>
     byte h' 10 = 0 \<and> byte h' 30 = 9 \<and> byte h' 65 = 9"
proof -
  have "HF_INET6_TCP \<in> tcp_formats" by (simp add: tcp_formats_def)
  moreover have "10 \<in> cleared_for_hash HF_INET6_TCP True (replicate 70 9)"
    "30 \<notin> cleared_for_hash HF_INET6_TCP True (replicate 70 9)" "65 \<notin> cleared_for_hash HF_INET6_TCP True (replicate 70 9)"
    by (simp_all add: cleared_for_hash_def format_geometry)
  moreover have "byte (replicate 70 9) 30 = 9" "byte (replicate 70 9) 65 = 9" by (simp_all add: byte_def)
  ultimately show ?thesis using hash_input[of HF_INET6_TCP "replicate 70 9"] by metis
qed

section \<open>Rewriting\<close>

lemma ip_csum_congs:
  "uint c mod 65535 = s mod 65535 \<Longrightarrow> uint (ip_csum_add_even c x) mod 65535 = (s - uint x) mod 65535"
  "uint c mod 65535 = s mod 65535 \<Longrightarrow> uint (ip_csum_sub_even c x) mod 65535 = (s + uint x) mod 65535"
  "uint c mod 65535 = uint c mod 65535"
  by (auto simp: ip_csum_add_even_cong ip_csum_sub_even_cong intro: mod_add_cong mod_diff_cong)

text \<open>
  Rewriting the locator of an IPv6 interest does not adjust its TCP checksum: the incremental update
  subtracts and adds the same sixteen bytes, read behind the TCP header pointer, instead of the old and
  the new address. Whatever the new address is, the TCP header that results is the same, and its
  checksum has the value it had, up to the two representations of zero.
\<close>

theorem rewrite_interest_keeps_checksum:
  assumes "le16 h 56 \<noteq> 0xffff" "60 \<le> length h" "length addr_new = 16"
  shows "\<exists>c. rewrite_interest (hicn_ops_vft [P_IPV6, P_TCP]) h 0 addr_new addr_old =
      (HICN_LIB_ERROR_NONE, put_le16 (put h 8 addr_new) 56 c, field h 8 16) \<and>
    unat c mod 65535 = unat (le16 h 56) mod 65535"
proof -
  let ?h = "put h 8 addr_new"
  have f: "only_changes 8 24 h ?h" using assms(3) by (intro only_changes_put) auto
  have w: "le16 ?h 56 = le16 h 56" using fields_unchanged(1)[OF f, of 56] by simp
  let ?x = "le64 ?h 48" and ?y = "le64 ?h 56"
  define c where "c = ip_csum_add_even (ip_csum_add_even
    (ip_csum_sub_even (ip_csum_sub_even (ucast (le16 h 56)) ?x) ?y) ?x) ?y"
  let ?w = "ucast (le16 h 56) :: u64"
  have "uint c mod 65535 = (((uint ?w + uint ?x) + uint ?y) - uint ?x - uint ?y) mod 65535"
    unfolding c_def
    by (intro ip_csum_congs)
  then have "uint c mod 65535 = uint ?w mod 65535" by simp
  then have "unat c mod 65535 = unat ?w mod 65535" by (metis nat_mod_as_int uint_nat unat_eq_nat_uint zmod_int of_nat_numeral nat_int)
  then have "unat c mod 65535 = unat (le16 h 56) mod 65535"
    using unat_u16_less[of "le16 h 56"] by (simp add: unsigned_ucast_eq take_bit_nat_eq_self)
  then have "unat (ip_csum_fold c) mod 65535 = unat (le16 h 56) mod 65535" by (simp add: ip_csum_fold_cong)
  moreover have "rewrite_interest (hicn_ops_vft [P_IPV6, P_TCP]) h 0 addr_new addr_old =
      (HICN_LIB_ERROR_NONE, put_le16 ?h 56 (ip_csum_fold c), field h 8 16)"
    using assms(1,3) w
    by (simp add: ipv6_rewrite_interest_def tcp_rewrite_interest_def check_tcp_checksum_def Let_def c_def field_all)
  ultimately show ?thesis by blast
qed

theorem rewrite_interest_keeps_checksum_witness:
  "\<exists>c. rewrite_interest (hicn_ops_vft [P_IPV6, P_TCP]) ex_blank 0 (replicate 16 1) (replicate 16 0) =
      (HICN_LIB_ERROR_NONE, put_le16 (put ex_blank 8 (replicate 16 1)) 56 c, field ex_blank 8 16) \<and>
    unat c mod 65535 = 0"
proof -
  have "le16 ex_blank 56 = 0" by (simp add: le16_def byte_def ex_blank_def)
  then show ?thesis using rewrite_interest_keeps_checksum[of ex_blank "replicate 16 1" "replicate 16 0"] by simp
qed

end
