(* ===== verification/LibNames.thy ===== *)
theory LibNames
  imports Compat
begin

text \<open>
  Names, addresses and prefixes of the packet library: \<^verbatim>\<open>lib/src/name.c\<close>, the hash functions of
  \<^verbatim>\<open>lib/src/common.c\<close>, and \<^verbatim>\<open>lib/src/util/ip_address.c\<close>.

  The functions of the operating system that convert addresses from and to text (\<^verbatim>\<open>getaddrinfo\<close>,
  \<^verbatim>\<open>inet_pton\<close>, \<^verbatim>\<open>inet_ntop\<close>) are the parameter \<open>L\<close>, with their documented behaviour as the predicate
  \<open>inet_laws\<close>; an instance that satisfies it is at the end of the definitions. Strings are the characters before the
  terminating zero.

  The lemmas show that a name that points to two buffers and its contiguous copy are
  interchangeable, that the hash of a name changes with every single byte, and that a prefix
  survives printing and parsing.
\<close>

section \<open>Text\<close>

definition digit :: "nat \<Rightarrow> char" where
  "digit d = char_of (48 + d)"

definition isdigit :: "char \<Rightarrow> bool" where
  "isdigit c \<longleftrightarrow> 48 \<le> (of_char c :: nat) \<and> (of_char c :: nat) \<le> 57"

definition isspace :: "char \<Rightarrow> bool" where
  "isspace c \<longleftrightarrow> (of_char c :: nat) = 32 \<or> 9 \<le> (of_char c :: nat) \<and> (of_char c :: nat) \<le> 13"

text \<open>\<^verbatim>\<open>%d\<close> and \<^verbatim>\<open>%lu\<close> of a natural number.\<close>

fun decimal :: "nat \<Rightarrow> string" where
  "decimal n = (if n < 10 then [digit n] else decimal (n div 10) @ [digit (n mod 10)])"

declare decimal.simps [simp del]

definition digits_value :: "string \<Rightarrow> nat" where
  "digits_value s = foldl (\<lambda>v c. 10 * v + ((of_char c :: nat) - 48)) 0 s"

text \<open>\<^verbatim>\<open>strtoul\<close> to base ten: white space, a sign, digits, whatever follows; a value out of range gives \<^verbatim>\<open>ULONG_MAX\<close>.\<close>

definition strtoul :: "string \<Rightarrow> u64" where
  "strtoul s =
     (let s = dropWhile isspace s;
          (neg, s) = (case s of
                        [] \<Rightarrow> (False, s)
                      | c # r \<Rightarrow> if c = CHR ''-'' then (True, r) else if c = CHR ''+'' then (False, r) else (False, s));
          v = digits_value (takeWhile isdigit s)
      in if 2 ^ 64 \<le> v then - 1 else if neg then - of_nat v else of_nat v)"

text \<open>\<^verbatim>\<open>snprintf\<close>: what the buffer of the given size holds, and the length of the whole text.\<close>

definition snprintf :: "nat \<Rightarrow> string \<Rightarrow> string \<times> int" where
  "snprintf size' text' = (take (size' - 1) text', int (length text'))"

section \<open>Addresses and prefixes\<close>

definition AF_INET :: int where "AF_INET = 2"
definition AF_INET6 :: int where "AF_INET6 = 10"
definition IPV4_ADDR_LEN :: nat where "IPV4_ADDR_LEN = 4"
definition IPV6_ADDR_LEN :: nat where "IPV6_ADDR_LEN = 16"
definition INET_ADDRSTRLEN :: nat where "INET_ADDRSTRLEN = 16"
definition INET6_ADDRSTRLEN :: nat where "INET6_ADDRSTRLEN = 46"
definition MAXSZ_IP_ADDRESS :: nat where "MAXSZ_IP_ADDRESS = INET6_ADDRSTRLEN - 1 + 1"
definition DUMMY_PORT :: u16 where "DUMMY_PORT = 1234"

text \<open>
  \<^verbatim>\<open>ip_address_t\<close> is sixteen bytes, an IPv4 address in the last four. The result of \<open>getaddrinfo\<close> is the family
  of the first address, \<open>None\<close> on an error; \<open>inet_pton\<close> gives its return value and the bytes it writes;
  \<open>inet_ntop\<close> gives \<open>None\<close> for the return value \<^verbatim>\<open>NULL\<close>, for instance when the buffer is too small.
\<close>

record inet_lib =
  getaddrinfo :: "string \<Rightarrow> int option"
  inet_pton :: "int \<Rightarrow> string \<Rightarrow> int \<times> bytes"
  inet_ntop :: "int \<Rightarrow> bytes \<Rightarrow> nat \<Rightarrow> string option"

record ip_prefix =
  pfx_family :: int
  pfx_address :: bytes
  pfx_len :: u8

record hicn_prefix =
  hp_name :: bytes
  hp_len :: u8

text \<open>The members of the socket addresses for IPv4 and IPv6 that the library writes.\<close>

record sockaddr =
  sa_family :: int
  sin_port :: u16
  sin_addr :: bytes
  sin6_addr :: bytes
  sin6_scope_id :: u32

definition IP_ADDRESS_EMPTY :: bytes where
  "IP_ADDRESS_EMPTY = replicate 16 0"

definition ip_address_get_family :: "inet_lib \<Rightarrow> string \<Rightarrow> int" where
  "ip_address_get_family L ip_address = (case getaddrinfo L ip_address of None \<Rightarrow> - 1 | Some family \<Rightarrow> family)"

definition get_addr_family :: "inet_lib \<Rightarrow> string \<Rightarrow> int" where
  "get_addr_family L ip_address = (case getaddrinfo L ip_address of None \<Rightarrow> - 1 | Some family \<Rightarrow> family)"

definition ip_address_len :: "int \<Rightarrow> nat" where
  "ip_address_len family = (if family = AF_INET6 then IPV6_ADDR_LEN else if family = AF_INET then IPV4_ADDR_LEN else 0)"

definition ip_address_get_buffer :: "bytes \<Rightarrow> int \<Rightarrow> bytes option" where
  "ip_address_get_buffer ip_address family =
     (if family = AF_INET then Some (field ip_address 12 4)
      else if family = AF_INET6 then Some (field ip_address 0 16) else None)"

definition ip_address_ntop :: "inet_lib \<Rightarrow> bytes \<Rightarrow> nat \<Rightarrow> int \<Rightarrow> int \<times> string option" where
  "ip_address_ntop L ip_address len family =
     (case ip_address_get_buffer ip_address family of
        None \<Rightarrow> (- 1, None)
      | Some b \<Rightarrow> (let s = inet_ntop L family b len in (if s \<noteq> None then 1 else - 1, s)))"

definition ip_address_pton :: "inet_lib \<Rightarrow> string \<Rightarrow> bytes \<Rightarrow> int \<times> bytes" where
  "ip_address_pton L ip_address_str ip_address =
     (let family = ip_address_get_family L ip_address_str in
      if family = AF_INET
      then (let ip_address = put ip_address 0 (replicate 12 0);
                (pton_fd, b) = inet_pton L AF_INET ip_address_str;
                ip_address = put ip_address 12 b
            in (if pton_fd \<le> 0 then - 1 else 1, ip_address))
      else if family = AF_INET6
      then (let (pton_fd, b) = inet_pton L AF_INET6 ip_address_str;
                ip_address = put ip_address 0 b
            in (if pton_fd \<le> 0 then - 1 else 1, ip_address))
      else (- 1, ip_address))"

definition ip_address_snprintf :: "inet_lib \<Rightarrow> nat \<Rightarrow> bytes \<Rightarrow> int \<Rightarrow> int \<times> string option" where
  "ip_address_snprintf L size' ip_address family =
     (if family = AF_INET
      then (if size' < INET_ADDRSTRLEN then (- 1, None)
            else case inet_ntop L AF_INET (field ip_address 12 4) INET_ADDRSTRLEN of
                   None \<Rightarrow> (- 1, None) | Some s \<Rightarrow> (int (length s), Some s))
      else if family = AF_INET6
      then (if size' < INET6_ADDRSTRLEN then (- 1, None)
            else case inet_ntop L AF_INET6 (field ip_address 0 16) INET6_ADDRSTRLEN of
                   None \<Rightarrow> (- 1, None) | Some s \<Rightarrow> (int (length s), Some s))
      else (- 1, None))"

definition ip_address_to_sockaddr :: "bytes \<Rightarrow> sockaddr \<Rightarrow> int \<Rightarrow> int \<times> sockaddr" where
  "ip_address_to_sockaddr ip_address sa family =
     (if family = AF_INET6
      then (1, sa\<lparr>sa_family := AF_INET6, sin_port := DUMMY_PORT, sin6_scope_id := 0, sin6_addr := field ip_address 0 16\<rparr>)
      else if family = AF_INET
      then (1, sa\<lparr>sa_family := AF_INET, sin_port := DUMMY_PORT, sin_addr := field ip_address 12 4\<rparr>)
      else (- 1, sa))"

definition ip_address_cmp :: "bytes \<Rightarrow> bytes \<Rightarrow> int \<Rightarrow> int" where
  "ip_address_cmp ip1 ip2 family =
     (if family = AF_INET then memcmp (field ip1 12 4) (field ip2 12 4) else memcmp (field ip1 0 16) (field ip2 0 16))"

definition ip_address_empty :: "bytes \<Rightarrow> bool" where
  "ip_address_empty ip = (memcmp (field ip 0 16) IP_ADDRESS_EMPTY = 0)"

definition ip_prefix_len :: "ip_prefix \<Rightarrow> int" where
  "ip_prefix_len pfx = uint (pfx_len pfx)"

definition ip_prefix_empty :: "ip_prefix \<Rightarrow> bool" where
  "ip_prefix_empty pfx = (pfx_len pfx = 0)"

definition ip_prefix_to_sockaddr :: "ip_prefix \<Rightarrow> sockaddr \<Rightarrow> int \<times> sockaddr" where
  "ip_prefix_to_sockaddr pfx sa = ip_address_to_sockaddr (pfx_address pfx) sa (pfx_family pfx)"

definition ip_prefix_cmp :: "ip_prefix \<Rightarrow> ip_prefix \<Rightarrow> int" where
  "ip_prefix_cmp prefix1 prefix2 =
     (if pfx_family prefix1 < pfx_family prefix2 then - 1
      else if pfx_family prefix1 > pfx_family prefix2 then 1
      else if pfx_len prefix1 < pfx_len prefix2 then - 1
      else if pfx_len prefix1 > pfx_len prefix2 then 1
      else ip_address_cmp (pfx_address prefix1) (pfx_address prefix2) (pfx_family prefix1))"

text \<open>The length \<^verbatim>\<open>~0\<close> stands for a missing length until the family is known, also when the text says 255.\<close>

definition ip_prefix_pton :: "inet_lib \<Rightarrow> string \<Rightarrow> ip_prefix \<Rightarrow> int \<times> ip_prefix" where
  "ip_prefix_pton L ip_address_str pfx =
     (let addr = takeWhile (\<lambda>c. c \<noteq> CHR ''/'') ip_address_str;
          p = dropWhile (\<lambda>c. c \<noteq> CHR ''/'') ip_address_str;
          pfx = pfx\<lparr>pfx_len := (if p = [] then - 1 else ucast (strtoul (tl p)))\<rparr>;
          pfx = pfx\<lparr>pfx_family := ip_address_get_family L addr\<rparr>
      in if pfx_family pfx = AF_INET6
         then (let pfx = (if pfx_len pfx = - 1 then pfx\<lparr>pfx_len := 128\<rparr> else pfx) in
               if pfx_len pfx > 128 then (- 1, pfx)
               else (let (pton_fd, b) = inet_pton L AF_INET6 addr;
                         pfx = pfx\<lparr>pfx_address := put (pfx_address pfx) 0 b\<rparr>
                     in (if pton_fd \<le> 0 then - 1 else 1, pfx)))
         else if pfx_family pfx = AF_INET
         then (let pfx = (if pfx_len pfx = - 1 then pfx\<lparr>pfx_len := 32\<rparr> else pfx) in
               if pfx_len pfx > 32 then (- 1, pfx)
               else (let (pton_fd, b) = inet_pton L AF_INET addr;
                         pfx = pfx\<lparr>pfx_address := put (pfx_address pfx) 12 b\<rparr>
                     in (if pton_fd \<le> 0 then - 1 else 1, pfx)))
         else (- 1, pfx))"

definition ip_prefix_ntop_short :: "inet_lib \<Rightarrow> ip_prefix \<Rightarrow> nat \<Rightarrow> int \<times> string option" where
  "ip_prefix_ntop_short L pfx size' =
     (case ip_address_get_buffer (pfx_address pfx) (pfx_family pfx) of
        None \<Rightarrow> (- 1, None)
      | Some b \<Rightarrow>
          (case inet_ntop L (pfx_family pfx) b MAXSZ_IP_ADDRESS of
             None \<Rightarrow> (- 1, None)
           | Some ip_s \<Rightarrow> (let (dst, rc) = snprintf size' ip_s in (if rc \<ge> int size' then int size' else rc, Some dst))))"

definition ip_prefix_ntop :: "inet_lib \<Rightarrow> ip_prefix \<Rightarrow> nat \<Rightarrow> int \<times> string option" where
  "ip_prefix_ntop L pfx size' =
     (case ip_address_get_buffer (pfx_address pfx) (pfx_family pfx) of
        None \<Rightarrow> (- 1, None)
      | Some b \<Rightarrow>
          (case inet_ntop L (pfx_family pfx) b MAXSZ_IP_ADDRESS of
             None \<Rightarrow> (- 1, None)
           | Some ip_s \<Rightarrow>
               (let (dst, rc) = snprintf size' (ip_s @ ''/'' @ decimal (unat (pfx_len pfx)))
                in (if rc \<ge> int size' then int size' else rc, Some dst))))"

definition url_snprintf :: "inet_lib \<Rightarrow> nat \<Rightarrow> int \<Rightarrow> bytes \<Rightarrow> u16 \<Rightarrow> int \<times> string option" where
  "url_snprintf L size' family ip_address port =
     (if \<not> (family = AF_INET \<or> family = AF_INET6) then (- 1, None)
      else case ip_address_snprintf L MAXSZ_IP_ADDRESS ip_address family of
             (rc, None) \<Rightarrow> (rc, None)
           | (_, Some ip_address_s) \<Rightarrow>
               (let (dst, rc) = snprintf size' (''inet'' @ [if family = AF_INET then CHR ''4'' else CHR ''6''] @ ''://'' @ ip_address_s @
                                                '':'' @ decimal (unat port))
                in (rc, Some dst)))"

section \<open>Hashes\<close>

text \<open>The bytes are read through \<^verbatim>\<open>const char *\<close>, which is signed on the host: they are sign-extended before the exclusive or.\<close>

definition cumulative_hash32 :: "bytes \<Rightarrow> u32 \<Rightarrow> u32" where
  "cumulative_hash32 data lastValue = foldl (\<lambda>hash b. (hash XOR scast b) * 0x01000193) lastValue data"

definition hash32 :: "bytes \<Rightarrow> u32" where
  "hash32 data = cumulative_hash32 data 0x811C9DC5"

definition cumulative_hash64 :: "bytes \<Rightarrow> u64 \<Rightarrow> u64" where
  "cumulative_hash64 data lastValue = foldl (\<lambda>hash b. (hash XOR scast b) * 0x00000100000001B3) lastValue data"

definition hash64 :: "bytes \<Rightarrow> u64" where
  "hash64 data = cumulative_hash64 data 0xCBF29CE484222325"

section \<open>Names\<close>

definition HICN_V4_PREFIX_LEN :: nat where "HICN_V4_PREFIX_LEN = IPV4_ADDR_LEN"
definition HICN_V6_PREFIX_LEN :: nat where "HICN_V6_PREFIX_LEN = IPV6_ADDR_LEN"
definition HICN_SEGMENT_LEN :: nat where "HICN_SEGMENT_LEN = 4"

definition hicn_name_create :: "inet_lib \<Rightarrow> string \<Rightarrow> u32 \<Rightarrow> hicn_name \<Rightarrow> rc \<times> hicn_name" where
  "hicn_name_create L ip_address id' name =
     (let af = get_addr_family L ip_address;
          name1 = (if af = AF_INET
                   then (if name_type name = HNT_UNSPEC then name\<lparr>name_type := HNT_CONTIGUOUS_V4\<rparr> else name)\<lparr>name_len := of_nat IPV4_ADDR_LEN\<rparr>
                   else (if name_type name = HNT_UNSPEC then name\<lparr>name_type := HNT_CONTIGUOUS_V6\<rparr> else name)\<lparr>name_len := of_nat IPV6_ADDR_LEN\<rparr>)
      in if af \<noteq> AF_INET \<and> af \<noteq> AF_INET6 then (HICN_LIB_ERROR_INVALID_IP_ADDRESS, name)
         else if name_type name1 \<noteq> HNT_CONTIGUOUS_V4 \<and> name_type name1 \<noteq> HNT_CONTIGUOUS_V6
         then (HICN_LIB_ERROR_NOT_IMPLEMENTED, name1)
         else (let (rc, b) = inet_pton L af ip_address;
                   name2 = name1\<lparr>name_buffer := put (name_buffer name1) 0 b\<rparr>
               in if rc \<le> 0 then (HICN_LIB_ERROR_UNKNOWN_ADDRESS, name2)
                  else (HICN_LIB_ERROR_NONE, name2\<lparr>name_buffer := put_le32 (name_buffer name2) (unat (name_len name2)) id'\<rparr>)))"

definition hicn_name_create_from_ip_prefix :: "ip_prefix \<Rightarrow> u32 \<Rightarrow> hicn_name \<Rightarrow> rc \<times> hicn_name" where
  "hicn_name_create_from_ip_prefix pfx id' name =
     (if pfx_family pfx = AF_INET
      then (let name = name\<lparr>name_type := HNT_CONTIGUOUS_V4,
                            name_buffer := put (name_buffer name) 0 (field (pfx_address pfx) 12 (ip_address_len (pfx_family pfx))),
                            name_len := of_nat IPV4_ADDR_LEN\<rparr>
            in (HICN_LIB_ERROR_NONE, name\<lparr>name_buffer := put_le32 (name_buffer name) (unat (name_len name)) id'\<rparr>))
      else if pfx_family pfx = AF_INET6
      then (let name = name\<lparr>name_type := HNT_CONTIGUOUS_V6,
                            name_buffer := put (name_buffer name) 0 (field (pfx_address pfx) 0 (ip_address_len (pfx_family pfx))),
                            name_len := of_nat IPV6_ADDR_LEN\<rparr>
            in (HICN_LIB_ERROR_NONE, name\<lparr>name_buffer := put_le32 (name_buffer name) (unat (name_len name)) id'\<rparr>))
      else (HICN_LIB_ERROR_INVALID_IP_ADDRESS, name))"

definition hicn_name_get_length :: "hicn_name \<Rightarrow> u8" where
  "hicn_name_get_length name = name_len name"

text \<open>The two switches of \<^verbatim>\<open>hicn_name_compare\<close>: where the address and the segment are, and the length of the address.\<close>

fun name_buffers :: "hicn_name_type \<Rightarrow> hicn_name \<Rightarrow> (bytes \<times> bytes \<times> nat) option" where
  "name_buffers HNT_CONTIGUOUS_V4 name = Some (name_buffer name, drop IPV4_ADDR_LEN (name_buffer name), IPV4_ADDR_LEN)"
| "name_buffers HNT_CONTIGUOUS_V6 name = Some (name_buffer name, drop IPV6_ADDR_LEN (name_buffer name), IPV6_ADDR_LEN)"
| "name_buffers HNT_IOV_V4 name = Some (fst (name_iov name), snd (name_iov name), IPV4_ADDR_LEN)"
| "name_buffers HNT_IOV_V6 name = Some (fst (name_iov name), snd (name_iov name), IPV6_ADDR_LEN)"
| "name_buffers HNT_UNSPEC name = None"

definition hicn_name_compare :: "hicn_name \<Rightarrow> hicn_name \<Rightarrow> bool \<Rightarrow> int" where
  "hicn_name_compare name1 name2 consider_segment =
     (let t1 = name_type name1; t2 = name_type name2 in
      if t1 = HNT_CONTIGUOUS_V4 \<and> t2 = HNT_CONTIGUOUS_V6 \<or> t1 = HNT_CONTIGUOUS_V6 \<and> t2 = HNT_CONTIGUOUS_V4 then - 1
      else if t1 = HNT_IOV_V4 \<and> t2 = HNT_IOV_V6 \<or> t1 = HNT_IOV_V6 \<and> t2 = HNT_IOV_V4 then - 1
      else if t1 = HNT_IOV_V4 \<and> t2 = HNT_CONTIGUOUS_V6 \<or> t1 = HNT_IOV_V6 \<and> t2 = HNT_CONTIGUOUS_V4 then - 1
      else if t1 = HNT_UNSPEC \<or> t2 = HNT_UNSPEC then - 1
      else case name_buffers t1 name1 of
             None \<Rightarrow> hicn_lib_error HICN_LIB_ERROR_NOT_IMPLEMENTED
           | Some (buffer11, buffer12, len1) \<Rightarrow>
               (case name_buffers t2 name2 of
                  None \<Rightarrow> hicn_lib_error HICN_LIB_ERROR_NOT_IMPLEMENTED
                | Some (buffer21, buffer22, len2) \<Rightarrow>
                    if len1 \<noteq> len2 then hicn_lib_error HICN_LIB_ERROR_UNEXPECTED
                    else (let ret1 = memcmp (field buffer11 0 len1) (field buffer21 0 len1) in
                          if \<not> consider_segment then ret1
                          else (let ret2 = memcmp (field buffer12 0 HICN_SEGMENT_LEN) (field buffer22 0 HICN_SEGMENT_LEN)
                                in of_bool (ret1 \<noteq> 0 \<or> ret2 \<noteq> 0)))))"

definition hicn_name_hash :: "hicn_name \<Rightarrow> u32 \<Rightarrow> bool \<Rightarrow> rc \<times> u32" where
  "hicn_name_hash name hash consider_suffix =
     (case name_type name of
        HNT_CONTIGUOUS_V4 \<Rightarrow>
          (HICN_LIB_ERROR_NONE, hash32 (field (name_buffer name) 0 (if consider_suffix then HICN_V4_NAME_LEN else HICN_V4_PREFIX_LEN)))
      | HNT_CONTIGUOUS_V6 \<Rightarrow>
          (HICN_LIB_ERROR_NONE, hash32 (field (name_buffer name) 0 (if consider_suffix then HICN_V6_NAME_LEN else HICN_V6_PREFIX_LEN)))
      | HNT_UNSPEC \<Rightarrow> (HICN_LIB_ERROR_NOT_IMPLEMENTED, hash)
      | _ \<Rightarrow>
          (let hash = hash32 (fst (name_iov name)) in
           (HICN_LIB_ERROR_NONE, if consider_suffix then cumulative_hash32 (snd (name_iov name)) hash else hash)))"

definition hicn_name_empty :: "hicn_name \<Rightarrow> int" where
  "hicn_name_empty name = (if name_type name = HNT_UNSPEC then 1 else 0)"

text \<open>A copy from two buffers leaves the length of the destination as it was.\<close>

definition hicn_name_copy :: "hicn_name \<Rightarrow> hicn_name \<Rightarrow> rc \<times> hicn_name" where
  "hicn_name_copy dst src =
     (case name_type src of
        HNT_CONTIGUOUS_V4 \<Rightarrow> (HICN_LIB_ERROR_NONE, src)
      | HNT_CONTIGUOUS_V6 \<Rightarrow> (HICN_LIB_ERROR_NONE, src)
      | HNT_UNSPEC \<Rightarrow> (HICN_LIB_ERROR_NOT_IMPLEMENTED, dst)
      | _ \<Rightarrow>
          (let dst = dst\<lparr>name_type := (if name_type src = HNT_IOV_V4 then HNT_CONTIGUOUS_V4 else HNT_CONTIGUOUS_V6)\<rparr>;
               (address', suffix') = name_iov src;
               dst = dst\<lparr>name_buffer := put (name_buffer dst) 0 address'\<rparr>
           in (HICN_LIB_ERROR_NONE, dst\<lparr>name_buffer := put (name_buffer dst) (length address') suffix'\<rparr>)))"

definition hicn_name_copy_to_destination :: "bytes \<Rightarrow> hicn_name \<Rightarrow> bool \<Rightarrow> rc \<times> bytes" where
  "hicn_name_copy_to_destination dst src copy_suffix =
     (case name_type src of
        HNT_CONTIGUOUS_V4 \<Rightarrow>
          (HICN_LIB_ERROR_NONE, put dst 0 (field (name_buffer src) 0 (if copy_suffix then HICN_V4_NAME_LEN else IPV4_ADDR_LEN)))
      | HNT_CONTIGUOUS_V6 \<Rightarrow>
          (HICN_LIB_ERROR_NONE, put dst 0 (field (name_buffer src) 0 (if copy_suffix then HICN_V6_NAME_LEN else IPV6_ADDR_LEN)))
      | HNT_UNSPEC \<Rightarrow> (HICN_LIB_ERROR_NOT_IMPLEMENTED, dst)
      | _ \<Rightarrow>
          (let (address', suffix') = name_iov src;
               dst = put dst 0 address'
           in (HICN_LIB_ERROR_NONE, if copy_suffix then put dst (length address') suffix' else dst)))"

text \<open>A null pointer to the segment is an empty buffer here.\<close>

definition hicn_name_set_seq_number :: "hicn_name \<Rightarrow> u32 \<Rightarrow> rc \<times> hicn_name" where
  "hicn_name_set_seq_number name seq_number =
     (case name_type name of
        HNT_CONTIGUOUS_V6 \<Rightarrow> (HICN_LIB_ERROR_NONE, name\<lparr>name_buffer := put_le32 (name_buffer name) IPV6_ADDR_LEN seq_number\<rparr>)
      | HNT_CONTIGUOUS_V4 \<Rightarrow> (HICN_LIB_ERROR_NONE, name\<lparr>name_buffer := put_le32 (name_buffer name) IPV4_ADDR_LEN seq_number\<rparr>)
      | HNT_UNSPEC \<Rightarrow> (HICN_LIB_ERROR_UNEXPECTED, name)
      | _ \<Rightarrow> if snd (name_iov name) = [] then (HICN_LIB_ERROR_UNEXPECTED, name)
             else (HICN_LIB_ERROR_NONE, name\<lparr>name_iov := (fst (name_iov name), put_le32 (snd (name_iov name)) 0 seq_number)\<rparr>))"

definition hicn_name_get_seq_number :: "hicn_name \<Rightarrow> u32 \<Rightarrow> rc \<times> u32" where
  "hicn_name_get_seq_number name seq_number =
     (case name_type name of
        HNT_CONTIGUOUS_V6 \<Rightarrow> (HICN_LIB_ERROR_NONE, le32 (name_buffer name) IPV6_ADDR_LEN)
      | HNT_CONTIGUOUS_V4 \<Rightarrow> (HICN_LIB_ERROR_NONE, le32 (name_buffer name) IPV4_ADDR_LEN)
      | HNT_UNSPEC \<Rightarrow> (HICN_LIB_ERROR_UNEXPECTED, seq_number)
      | _ \<Rightarrow> if snd (name_iov name) = [] then (HICN_LIB_ERROR_UNEXPECTED, seq_number)
             else (HICN_LIB_ERROR_NONE, le32 (snd (name_iov name)) 0))"

definition hicn_name_to_sockaddr_address :: "hicn_name \<Rightarrow> sockaddr \<Rightarrow> rc \<times> sockaddr" where
  "hicn_name_to_sockaddr_address name sa =
     (case name_type name of
        HNT_CONTIGUOUS_V6 \<Rightarrow> (HICN_LIB_ERROR_NONE, sa\<lparr>sa_family := AF_INET6, sin6_scope_id := 0, sin_port := DUMMY_PORT,
                                sin6_addr := field (name_buffer name) 0 IPV6_ADDR_LEN\<rparr>)
      | HNT_IOV_V6 \<Rightarrow> (HICN_LIB_ERROR_NONE, sa\<lparr>sa_family := AF_INET6, sin6_scope_id := 0, sin_port := DUMMY_PORT,
                         sin6_addr := put (sin6_addr sa) 0 (fst (name_iov name))\<rparr>)
      | HNT_CONTIGUOUS_V4 \<Rightarrow> (HICN_LIB_ERROR_NONE, sa\<lparr>sa_family := AF_INET, sin_port := DUMMY_PORT,
                                sin_addr := field (name_buffer name) 0 IPV4_ADDR_LEN\<rparr>)
      | HNT_IOV_V4 \<Rightarrow> (HICN_LIB_ERROR_NONE, sa\<lparr>sa_family := AF_INET, sin_port := DUMMY_PORT,
                         sin_addr := put (sin_addr sa) 0 (fst (name_iov name))\<rparr>)
      | HNT_UNSPEC \<Rightarrow> (HICN_LIB_ERROR_UNEXPECTED, sa))"

text \<open>The length of the prefix is not set.\<close>

definition hicn_name_to_ip_prefix :: "hicn_name \<Rightarrow> ip_prefix \<Rightarrow> rc \<times> ip_prefix" where
  "hicn_name_to_ip_prefix name pfx =
     (case name_type name of
        HNT_CONTIGUOUS_V6 \<Rightarrow> (HICN_LIB_ERROR_NONE, pfx\<lparr>pfx_address := put (pfx_address pfx) 0 (field (name_buffer name) 0 IPV6_ADDR_LEN), pfx_family := AF_INET6\<rparr>)
      | HNT_IOV_V6 \<Rightarrow> (HICN_LIB_ERROR_NONE, pfx\<lparr>pfx_address := put (pfx_address pfx) 0 (fst (name_iov name)), pfx_family := AF_INET6\<rparr>)
      | HNT_CONTIGUOUS_V4 \<Rightarrow> (HICN_LIB_ERROR_NONE, pfx\<lparr>pfx_address := put (pfx_address pfx) 12 (field (name_buffer name) 0 IPV4_ADDR_LEN), pfx_family := AF_INET\<rparr>)
      | HNT_IOV_V4 \<Rightarrow> (HICN_LIB_ERROR_NONE, pfx\<lparr>pfx_address := put (pfx_address pfx) 12 (fst (name_iov name)), pfx_family := AF_INET\<rparr>)
      | HNT_UNSPEC \<Rightarrow> (HICN_LIB_ERROR_UNEXPECTED, pfx))"

text \<open>\<open>len\<close> is the size of the buffer; only \<^verbatim>\<open>inet_ntop\<close> respects it. \<open>None\<close> when nothing is written.\<close>

definition hicn_name_ntop :: "inet_lib \<Rightarrow> hicn_name \<Rightarrow> nat \<Rightarrow> rc \<times> string option" where
  "hicn_name_ntop L src len =
     (case (case name_type src of
              HNT_CONTIGUOUS_V6 \<Rightarrow> Some (inet_ntop L AF_INET6 (field (name_buffer src) 0 16) len, le32 (name_buffer src) IPV6_ADDR_LEN)
            | HNT_CONTIGUOUS_V4 \<Rightarrow> Some (inet_ntop L AF_INET (field (name_buffer src) 0 4) len, le32 (name_buffer src) IPV4_ADDR_LEN)
            | HNT_IOV_V6 \<Rightarrow> Some (inet_ntop L AF_INET6 (field (fst (name_iov src)) 0 16) len, le32 (snd (name_iov src)) 0)
            | HNT_IOV_V4 \<Rightarrow> Some (inet_ntop L AF_INET (field (fst (name_iov src)) 0 4) len, le32 (snd (name_iov src)) 0)
            | HNT_UNSPEC \<Rightarrow> None) of
        None \<Rightarrow> (HICN_LIB_ERROR_NOT_IMPLEMENTED, None)
      | Some (None, _) \<Rightarrow> (HICN_LIB_ERROR_UNSPECIFIED, None)
      | Some (Some dst, seg_number) \<Rightarrow> (HICN_LIB_ERROR_NONE, Some (dst @ ''|'' @ decimal (unat seg_number))))"

definition hicn_name_pton :: "string \<Rightarrow> hicn_name \<Rightarrow> rc \<times> hicn_name" where
  "hicn_name_pton src dst = (HICN_LIB_ERROR_NOT_IMPLEMENTED, dst)"

definition hicn_name_get_family :: "hicn_name \<Rightarrow> int \<Rightarrow> rc \<times> int" where
  "hicn_name_get_family name family =
     (case name_type name of
        HNT_CONTIGUOUS_V6 \<Rightarrow> (HICN_LIB_ERROR_NONE, AF_INET6)
      | HNT_IOV_V6 \<Rightarrow> (HICN_LIB_ERROR_NONE, AF_INET6)
      | HNT_CONTIGUOUS_V4 \<Rightarrow> (HICN_LIB_ERROR_NONE, AF_INET)
      | HNT_IOV_V4 \<Rightarrow> (HICN_LIB_ERROR_NONE, AF_INET)
      | HNT_UNSPEC \<Rightarrow> (HICN_LIB_ERROR_UNEXPECTED, family))"

definition hicn_prefix_create_from_ip_prefix :: "ip_prefix \<Rightarrow> hicn_prefix \<Rightarrow> rc \<times> hicn_prefix" where
  "hicn_prefix_create_from_ip_prefix ip_pfx pfx =
     (if pfx_family ip_pfx = AF_INET
      then (HICN_LIB_ERROR_NONE, pfx\<lparr>hp_name := put (hp_name pfx) 12 (field (pfx_address ip_pfx) 12 4), hp_len := pfx_len ip_pfx\<rparr>)
      else if pfx_family ip_pfx = AF_INET6
      then (HICN_LIB_ERROR_NONE, pfx\<lparr>hp_name := put (hp_name pfx) 0 (field (pfx_address ip_pfx) 0 16), hp_len := pfx_len ip_pfx\<rparr>)
      else (HICN_LIB_ERROR_INVALID_IP_ADDRESS, pfx))"

section \<open>Text and numbers\<close>

lemma isdigit_digit [simp]: "d < 10 \<Longrightarrow> isdigit (digit d)"
  by (simp add: isdigit_def digit_def)

lemma digit_value [simp]: "d < 10 \<Longrightarrow> (of_char (digit d) :: nat) - 48 = d"
  by (simp add: digit_def)

lemma decimal_digits: "list_all isdigit (decimal n)"
proof (induction n rule: decimal.induct)
  case (1 n)
  then show ?case by (subst decimal.simps) auto
qed

lemma decimal_value: "digits_value (decimal n) = n"
proof (induction n rule: decimal.induct)
  case (1 n)
  then show ?case by (subst decimal.simps) (simp add: digits_value_def)
qed

lemma decimal_not_Nil [simp]: "decimal n \<noteq> []"
  by (subst decimal.simps) simp

lemma length_decimal: "n < 10 ^ Suc k \<Longrightarrow> length (decimal n) \<le> Suc k"
proof (induction k arbitrary: n)
  case 0
  then show ?case by (subst decimal.simps) simp
next
  case (Suc k)
  show ?case
  proof (cases "n < 10")
    case True
    then show ?thesis by (subst decimal.simps) simp
  next
    case False
    have "n div 10 < 10 ^ Suc k" using Suc.prems by (simp add: div_less_iff_less_mult)
    from Suc.IH[OF this] show ?thesis using False by (subst decimal.simps) simp
  qed
qed

lemma isdigit_neq: "isdigit c \<Longrightarrow> c \<noteq> CHR ''/'' \<and> c \<noteq> CHR ''|'' \<and> c \<noteq> CHR ''-'' \<and> c \<noteq> CHR ''+'' \<and> \<not> isspace c"
  by (auto simp: isdigit_def isspace_def)

lemma strtoul_decimal: "n < 2 ^ 64 \<Longrightarrow> strtoul (decimal n) = of_nat n"
proof -
  assume n: "n < 2 ^ 64"
  obtain c r where cr: "decimal n = c # r" by (cases "decimal n") simp_all
  have d: "isdigit c" using decimal_digits[of n] cr by simp
  have "dropWhile isspace (decimal n) = decimal n" using isdigit_neq[OF d] by (simp add: cr)
  moreover have "takeWhile isdigit (decimal n) = decimal n"
    using decimal_digits[of n] by (simp add: takeWhile_eq_all_conv list_all_iff)
  ultimately show ?thesis using isdigit_neq[OF d] n decimal_value[of n]
    by (simp add: strtoul_def cr)
qed

section \<open>Hashes of names\<close>

lemma mult_unit_inj: "a * p = b * p \<longleftrightarrow> a = b" if "p * q = (1 :: 'a :: comm_monoid_mult)"
proof
  assume "a * p = b * p"
  then have "a * p * q = b * p * q" by simp
  then show "a = b" by (simp add: mult.assoc that)
qed simp

lemma fnv_inverse: "(0x01000193 :: u32) * 0x359c449b = 1"
  by simp

lemmas hash_step_eq = mult_unit_inj[OF fnv_inverse]

lemma xor_right_inj: "a XOR w = b XOR w \<longleftrightarrow> a = (b :: u32)"
proof
  assume "a XOR w = b XOR w"
  then have "(a XOR w) XOR w = (b XOR w) XOR w" by (rule arg_cong)
  then show "a = b" by (simp add: xor.assoc)
qed simp

lemma cumulative_hash32_inj: "cumulative_hash32 data a = cumulative_hash32 data b \<longleftrightarrow> a = b"
proof (induction data arbitrary: a b)
  case (Cons x data)
  with Cons[of "(a XOR scast x) * 0x01000193" "(b XOR scast x) * 0x01000193"] show ?case
    by (simp add: cumulative_hash32_def hash_step_eq xor_right_inj)
qed (simp add: cumulative_hash32_def)

lemma cumulative_hash32_append: "cumulative_hash32 (xs @ ys) a = cumulative_hash32 ys (cumulative_hash32 xs a)"
  by (simp add: cumulative_hash32_def)

lemma scast_byte_inj: "(scast (b :: u8) :: u32) = scast b' \<longleftrightarrow> b = b'"
proof
  assume "(scast b :: u32) = scast b'"
  then have "bit (scast b :: u32) i = bit (scast b' :: u32) i" for i by simp
  then have "bit b i = bit b' i" if "i < 8" for i
    using that spec[of "\<lambda>i. bit (scast b :: u32) i = bit (scast b' :: u32) i" i] by (auto simp: bit_signed_iff)
  then show "b = b'" by (intro bit_word_eqI) simp
qed simp
lemma hash32_byte: "hash32 (xs @ x # ys) = hash32 (xs @ y # ys) \<longleftrightarrow> x = y"
proof -
  let ?h = "cumulative_hash32 xs 0x811C9DC5"
  have "hash32 (xs @ z # ys) = cumulative_hash32 ys ((?h XOR scast z) * 0x01000193)" for z
    by (simp add: hash32_def cumulative_hash32_def)
  then have "hash32 (xs @ x # ys) = hash32 (xs @ y # ys) \<longleftrightarrow> ?h XOR scast x = ?h XOR scast y"
    by (simp only: cumulative_hash32_inj hash_step_eq)
  then show ?thesis using xor_right_inj[of "scast x" ?h "scast y"] by (simp only: xor.commute scast_byte_inj)
qed

text \<open>The standard 32-bit FNV-1a hash takes the bytes as unsigned numbers.\<close>

definition fnv1a :: "bytes \<Rightarrow> u32" where
  "fnv1a data = foldl (\<lambda>hash b. (hash XOR ucast b) * 0x01000193) 0x811C9DC5 data"

lemma scast_small: "(b :: u8) < 128 \<Longrightarrow> (scast b :: u32) = ucast b"
proof -
  assume "b < 128"
  then have "b div 128 = 0" by (simp add: word_arith_nat_div word_less_nat_alt)
  then have "\<not> bit b 7" by (simp add: bit_iff_odd)
  moreover have "n < 8" if "bit b n" for n using bit_imp_le_length[OF that] by simp
  ultimately have "n < 7" if "bit b n" for n using that by (cases "n = 7") force+
  with \<open>\<not> bit b 7\<close> show ?thesis
    by (intro bit_word_eqI) (auto simp: bit_signed_iff bit_unsigned_iff min_def not_less dest: leD)
qed

lemma hash32_fnv1a: "list_all (\<lambda>b. b < 128) data \<Longrightarrow> hash32 data = fnv1a data"
proof -
  have "list_all (\<lambda>b. b < 128) data \<Longrightarrow>
    foldl (\<lambda>hash b. (hash XOR scast b) * 0x01000193) h data = foldl (\<lambda>hash b. (hash XOR ucast b) * 0x01000193) h data" for h :: u32
    by (induction data arbitrary: h) (simp_all add: scast_small)
  then show "list_all (\<lambda>b. b < 128) data \<Longrightarrow> hash32 data = fnv1a data"
    by (simp add: hash32_def fnv1a_def cumulative_hash32_def)
qed
section \<open>Names in two buffers and their copies\<close>

definition iov_name :: "hicn_name \<Rightarrow> bool" where
  "iov_name name \<longleftrightarrow> length (snd (name_iov name)) = 4 \<and>
     (name_type name = HNT_IOV_V4 \<and> length (fst (name_iov name)) = 4 \<or>
      name_type name = HNT_IOV_V6 \<and> length (fst (name_iov name)) = 16)"

lemma field_prefix: "length xs = n \<Longrightarrow> field (xs @ ys) 0 n = xs"
  by (rule nth_equalityI) (auto simp: byte_def nth_append)

lemma byte_append: "byte (xs @ ys) (length xs + i) = byte ys i"
  by (simp add: byte_def nth_append)

lemma byte_append1: "i < length xs \<Longrightarrow> byte (xs @ ys) i = byte xs i"
  by (simp add: byte_def nth_append)

lemma le32_append: "length xs = n \<Longrightarrow> 4 \<le> length ys \<Longrightarrow> le32 (xs @ ys @ zs) n = le32 ys 0"
proof -
  assume len: "length xs = n" "4 \<le> length ys"
  have b: "byte (xs @ ys @ zs) (n + i) = byte ys i" if "i < 4" for i
    using byte_append[of xs "ys @ zs" i] byte_append1[of i ys zs] len that by simp
  show ?thesis using b[of 0] b[of 1] b[of 2] b[of 3] by (simp add: le32_def le16_def numeral_2_eq_2 numeral_3_eq_3)
qed

lemma memcmp_refl [simp]: "memcmp xs xs = 0"
  by (induction xs) simp_all

text \<open>The copy in closed form.\<close>

lemma hicn_name_copy_iov:
  assumes "iov_name src" "length (name_buffer dst) = 20"
  obtains r where "hicn_name_copy dst src = (HICN_LIB_ERROR_NONE,
    dst\<lparr>name_type := (if name_type src = HNT_IOV_V4 then HNT_CONTIGUOUS_V4 else HNT_CONTIGUOUS_V6),
        name_buffer := fst (name_iov src) @ snd (name_iov src) @ r\<rparr>)"
proof -
  obtain a b where ab: "name_iov src = (a, b)" by fastforce
  have len: "length a + length b \<le> 20" using assms(1) by (auto simp: iov_name_def ab)
  have "put (put (name_buffer dst) 0 a) (length a) b = a @ b @ drop (length a + length b) (name_buffer dst)"
    using put_append[of "name_buffer dst" 0 a b] put_0[of "a @ b" "name_buffer dst"] len assms(2) by simp
  with assms(1) show ?thesis
    by (intro that[of "drop (length a + length b) (name_buffer dst)"])
      (auto simp: hicn_name_copy_def iov_name_def ab Let_def split: prod.splits)
qed

text \<open>
  C17. A name in two buffers and its contiguous copy are interchangeable: they compare as equal to each
  other and equal to the same names, have the same hash, segment, address family and text, and write the same bytes to
  a packet, with and without the segment.
\<close>

theorem name_copies_agree:
  assumes "iov_name src" "length (name_buffer dst) = 20" "hicn_name_copy dst src = (rc, copy)"
  shows "rc = HICN_LIB_ERROR_NONE \<and>
    hicn_name_compare src copy c = 0 \<and> hicn_name_compare copy src c = 0 \<and>
    (hicn_name_compare copy other c = 0 \<longleftrightarrow> hicn_name_compare src other c = 0) \<and>
    hicn_name_hash copy h c = hicn_name_hash src h c \<and>
    hicn_name_get_seq_number copy s = hicn_name_get_seq_number src s \<and>
    hicn_name_get_family copy f = hicn_name_get_family src f \<and>
    hicn_name_copy_to_destination d copy c = hicn_name_copy_to_destination d src c \<and>
    hicn_name_ntop L copy n = hicn_name_ntop L src n"
proof -
  obtain a b where ab: "name_iov src = (a, b)" by fastforce
  obtain r where copy: "rc = HICN_LIB_ERROR_NONE" "copy = dst\<lparr>name_type := (if name_type src = HNT_IOV_V4 then HNT_CONTIGUOUS_V4 else HNT_CONTIGUOUS_V6),
        name_buffer := a @ b @ r\<rparr>"
    using hicn_name_copy_iov[OF assms(1,2)] assms(3) by (metis ab fst_conv snd_conv)
  note defs = copy ab IPV4_ADDR_LEN_def IPV6_ADDR_LEN_def HICN_SEGMENT_LEN_def HICN_V4_NAME_LEN_def HICN_V6_NAME_LEN_def
    HICN_V4_PREFIX_LEN_def HICN_V6_PREFIX_LEN_def
  have len: "length b = 4" and ty: "name_type src = HNT_IOV_V4 \<and> length a = 4 \<or> name_type src = HNT_IOV_V6 \<and> length a = 16"
    using assms(1) by (auto simp: iov_name_def ab)
  have f: "field (a @ b @ r) 0 (length a) = a" "field (a @ b @ r) 0 (length a + 4) = a @ b" "field (b @ r) 0 4 = b" "field b 0 4 = b"
    "field a 0 (length a) = a" "le32 (a @ b @ r) (length a) = le32 b 0" "b \<noteq> []"
    using field_prefix[of a "length a" "b @ r"] field_prefix[of "a @ b" "length a + 4" r] field_prefix[of b 4 r] field_all[of b 4]
      field_all[of a "length a"] le32_append[of a "length a" b r] len by auto
  show ?thesis
    using ty
  proof (elim disjE conjE)
    assume t: "name_type src = HNT_IOV_V4" "length a = 4"
    note f = f[unfolded t, simplified]
    show ?thesis
      by (cases "name_type other") (simp_all add: hicn_name_compare_def hicn_name_hash_def hicn_name_get_seq_number_def hicn_name_get_family_def
          hicn_name_copy_to_destination_def hicn_name_ntop_def defs t f len Let_def hash32_def cumulative_hash32_append put_append)
  next
    assume t: "name_type src = HNT_IOV_V6" "length a = 16"
    note f = f[unfolded t, simplified]
    show ?thesis
      by (cases "name_type other") (simp_all add: hicn_name_compare_def hicn_name_hash_def hicn_name_get_seq_number_def hicn_name_get_family_def
          hicn_name_copy_to_destination_def hicn_name_ntop_def defs t f len Let_def hash32_def cumulative_hash32_append put_append)
  qed
qed

section \<open>Conversion of addresses\<close>

text \<open>What the conversion functions promise for the addresses of one family with \<open>n\<close> bytes, in a buffer of \<open>m\<close> characters.\<close>

definition inet_family_laws :: "inet_lib \<Rightarrow> int \<Rightarrow> nat \<Rightarrow> nat \<Rightarrow> bool" where
  "inet_family_laws L family n m \<longleftrightarrow> (\<forall>b. length b = n \<longrightarrow>
     (\<exists>s. (\<forall>k\<ge>m. inet_ntop L family b k = Some s) \<and> length s < m \<and> CHR ''/'' \<notin> set s \<and>
          getaddrinfo L s = Some family \<and> inet_pton L family s = (1, b)))"

definition inet_laws :: "inet_lib \<Rightarrow> bool" where
  "inet_laws L \<longleftrightarrow> inet_family_laws L AF_INET 4 INET_ADDRSTRLEN \<and> inet_family_laws L AF_INET6 16 INET6_ADDRSTRLEN"

text \<open>An instance: two letters for each byte.\<close>

definition letter :: "nat \<Rightarrow> char" where
  "letter d = char_of (97 + d)"

definition letters_of :: "u8 \<Rightarrow> string" where
  "letters_of b = [letter (unat b div 16), letter (unat b mod 16)]"

fun bytes_of :: "string \<Rightarrow> bytes" where
  "bytes_of (c # d # s) = of_nat (16 * (of_char c - 97) + (of_char d - 97)) # bytes_of s"
| "bytes_of _ = []"

definition letter_lib :: inet_lib where
  "letter_lib = \<lparr>getaddrinfo = (\<lambda>s. if length s = 8 then Some AF_INET else if length s = 32 then Some AF_INET6 else None),
     inet_pton = (\<lambda>family s. (1, bytes_of s)),
     inet_ntop = (\<lambda>family b n. let s = concat (map letters_of b) in if length s < n then Some s else None)\<rparr>"

lemma letter_simps [simp]: "d < 16 \<Longrightarrow> of_char (letter d) - (97 :: nat) = d" "d < 16 \<Longrightarrow> letter d \<noteq> CHR ''/''"
proof -
  assume d: "d < 16"
  then have v: "of_char (letter d) = 97 + d" by (simp add: letter_def)
  then show "of_char (letter d) - (97 :: nat) = d" by simp
  show "letter d \<noteq> CHR ''/''" using v by auto
qed

lemma bytes_of_letters: "bytes_of (concat (map letters_of b)) = b"
proof (induction b)
  case (Cons x b)
  have "unat x div 16 < 16" using unat_u8_less[of x] by simp
  then show ?case using Cons by (simp add: letters_of_def)
qed simp

lemma letters_length: "length (concat (map letters_of b)) = 2 * length b"
  by (induction b) (simp_all add: letters_of_def)

lemma letters_no_slash: "CHR ''/'' \<notin> set (concat (map letters_of b))"
proof (induction b)
  case (Cons x b)
  have "unat x div 16 < 16" using unat_u8_less[of x] by simp
  then show ?case using Cons letter_simps(2)[of "unat x div 16"] letter_simps(2)[of "unat x mod 16"]
    by (simp add: letters_of_def del: letter_simps)
qed simp

lemma letter_lib_laws: "inet_laws letter_lib"
proof -
  have "inet_family_laws letter_lib family n m" if "2 * n < m" "n = 4 \<and> family = AF_INET \<or> n = 16 \<and> family = AF_INET6" for family n m
    unfolding inet_family_laws_def
  proof (intro allI impI)
    fix b :: bytes assume b: "length b = n"
    show "\<exists>s. (\<forall>k\<ge>m. inet_ntop letter_lib family b k = Some s) \<and> length s < m \<and> CHR ''/'' \<notin> set s \<and>
          getaddrinfo letter_lib s = Some family \<and> inet_pton letter_lib family s = (1, b)"
      by (rule exI[of _ "concat (map letters_of b)"])
        (use that b letters_length[of b] letters_no_slash[of b] bytes_of_letters[of b] in \<open>auto simp: letter_lib_def Let_def\<close>)
  qed
  then show ?thesis by (simp add: inet_laws_def INET_ADDRSTRLEN_def INET6_ADDRSTRLEN_def)
qed

section \<open>Printing and parsing prefixes\<close>

text \<open>The width of the addresses of a family in bits, and where an address is in \<^verbatim>\<open>ip_address_t\<close>.\<close>

definition family_bits :: "int \<Rightarrow> nat" where
  "family_bits family = (if family = AF_INET6 then 128 else 32)"

definition family_offset :: "int \<Rightarrow> nat" where
  "family_offset family = (if family = AF_INET6 then 0 else 12)"

lemma inet_lawsE:
  assumes "inet_laws L" "family \<in> {AF_INET, AF_INET6}" "ip_address_get_buffer addr family = Some b"
  obtains s where "inet_ntop L family b MAXSZ_IP_ADDRESS = Some s" "length s \<le> 45" "CHR ''/'' \<notin> set s"
    "ip_address_get_family L s = family" "inet_pton L family s = (1, b)"
proof -
  have "length b = ip_address_len family" "MAXSZ_IP_ADDRESS = 46"
    using assms(2,3) by (auto simp: ip_address_get_buffer_def ip_address_len_def AF_INET_def AF_INET6_def IPV4_ADDR_LEN_def IPV6_ADDR_LEN_def
        MAXSZ_IP_ADDRESS_def INET6_ADDRSTRLEN_def split: if_splits)
  then show ?thesis using assms(1,2) that
    by (fastforce simp: inet_laws_def inet_family_laws_def ip_address_get_family_def ip_address_len_def AF_INET_def AF_INET6_def
        IPV4_ADDR_LEN_def IPV6_ADDR_LEN_def INET_ADDRSTRLEN_def INET6_ADDRSTRLEN_def)
qed

lemma pfx_len_text: "(ucast (strtoul (decimal n)) :: u8) = of_nat n" if "n < 2 ^ 64"
proof -
  have "unat (ucast (of_nat n :: u64) :: u8) = n mod 256"
    using that by (simp add: unsigned_ucast_eq take_bit_eq_mod unat_of_nat)
  then show ?thesis using that by (simp add: strtoul_decimal word_unat_eq_iff unat_of_nat)
qed

text \<open>
  Parsing a prefix whose text is an address and a number: the number counts modulo 256, and 255 stands for
  the full length.
\<close>

lemma ip_prefix_pton_text:
  assumes "CHR ''/'' \<notin> set s" "ip_address_get_family L s = family" "family \<in> {AF_INET, AF_INET6}" "inet_pton L family s = (1, b)" "n < 2 ^ 64"
  shows "ip_prefix_pton L (s @ ''/'' @ decimal n) pfx =
    (let len = (if n mod 256 = 255 then family_bits family else n mod 256);
         pfx' = pfx\<lparr>pfx_family := family, pfx_len := of_nat len\<rparr>
     in if len \<le> family_bits family
        then (1, pfx'\<lparr>pfx_address := put (pfx_address pfx) (family_offset family) b\<rparr>) else (- 1, pfx'))"
proof -
  have split: "takeWhile (\<lambda>c. c \<noteq> CHR ''/'') (s @ ''/'' @ decimal n) = s" "dropWhile (\<lambda>c. c \<noteq> CHR ''/'') (s @ ''/'' @ decimal n) = ''/'' @ decimal n"
    using assms(1) by (auto simp: takeWhile_append dropWhile_append)
  have u: "unat (of_nat n :: u8) = n mod 256" by (simp add: unat_of_nat)
  have m1: "(of_nat n :: u8) = - 1 \<longleftrightarrow> n mod 256 = 255" using u by (simp add: word_unat_eq_iff unsigned_minus_1_eq_mask mask_eq_exp_minus_1)
  have le: "(of_nat n :: u8) > of_nat k \<longleftrightarrow> k < n mod 256" if "k < 256" for k
    using that by (simp add: word_less_nat_alt u unat_of_nat)
  have mod: "(of_nat (n mod 256) :: u8) = of_nat n" by (simp add: word_unat_eq_iff unat_of_nat)
  show ?thesis
    using assms(2-4) split m1 le[of 32] le[of 128] mod
    by (auto simp: ip_prefix_pton_def Let_def pfx_len_text[OF assms(5)] family_bits_def family_offset_def AF_INET_def AF_INET6_def)
qed

definition prefix_ok :: "ip_prefix \<Rightarrow> bool" where
  "prefix_ok pfx \<longleftrightarrow> pfx_family pfx \<in> {AF_INET, AF_INET6} \<and> length (pfx_address pfx) = 16 \<and>
     unat (pfx_len pfx) \<le> family_bits (pfx_family pfx)"

lemma prefix_text:
  assumes "inet_laws L" "prefix_ok pfx"
  obtains s b where "ip_address_get_buffer (pfx_address pfx) (pfx_family pfx) = Some b"
    "inet_ntop L (pfx_family pfx) b MAXSZ_IP_ADDRESS = Some s" "length s \<le> 45" "CHR ''/'' \<notin> set s"
    "ip_address_get_family L s = pfx_family pfx" "inet_pton L (pfx_family pfx) s = (1, b)"
proof -
  obtain b where b: "ip_address_get_buffer (pfx_address pfx) (pfx_family pfx) = Some b"
    using assms(2) by (auto simp: prefix_ok_def ip_address_get_buffer_def AF_INET_def AF_INET6_def)
  with inet_lawsE[OF assms(1) _ b] assms(2) that show ?thesis by (auto simp: prefix_ok_def)
qed

text \<open>
  C18. A prefix survives printing and parsing: \<^verbatim>\<open>ip_prefix_ntop\<close> succeeds in a buffer of fifty characters and
  \<^verbatim>\<open>ip_prefix_pton\<close> reads a prefix from its text that compares as equal to the one that was printed, whatever was in the
  result before.
\<close>

theorem ip_prefix_round_trip:
  assumes "inet_laws L" "prefix_ok pfx" "50 \<le> n" "length (pfx_address old) = 16"
  shows "\<exists>s new. ip_prefix_ntop L pfx n = (int (length s), Some s) \<and> ip_prefix_pton L s old = (1, new) \<and>
    prefix_ok new \<and> ip_prefix_cmp pfx new = 0 \<and> ip_prefix_cmp new pfx = 0"
proof -
  obtain s b where s: "ip_address_get_buffer (pfx_address pfx) (pfx_family pfx) = Some b"
    "inet_ntop L (pfx_family pfx) b MAXSZ_IP_ADDRESS = Some s" "length s \<le> 45" "CHR ''/'' \<notin> set s"
    "ip_address_get_family L s = pfx_family pfx" "inet_pton L (pfx_family pfx) s = (1, b)"
    by (rule prefix_text[OF assms(1,2)])
  let ?t = "s @ ''/'' @ decimal (unat (pfx_len pfx))"
  have "length (decimal (unat (pfx_len pfx))) \<le> 3" using length_decimal[of "unat (pfx_len pfx)" 2] unat_u8_less[of "pfx_len pfx"] by simp
  then have "length ?t < n" "take (n - 1) ?t = ?t" using s(3) assms(3) by auto
  then have ntop: "ip_prefix_ntop L pfx n = (int (length ?t), Some ?t)"
    using s(1,2) by (simp add: ip_prefix_ntop_def snprintf_def)
  let ?new = "old\<lparr>pfx_family := pfx_family pfx, pfx_len := pfx_len pfx, pfx_address := put (pfx_address old) (family_offset (pfx_family pfx)) b\<rparr>"
  have fam: "pfx_family pfx \<in> {AF_INET, AF_INET6}" using assms(2) by (simp add: prefix_ok_def)
  have len: "unat (pfx_len pfx) mod 256 = unat (pfx_len pfx)" "unat (pfx_len pfx) \<le> family_bits (pfx_family pfx)" "unat (pfx_len pfx) \<noteq> 255"
    using assms(2) by (auto simp: prefix_ok_def family_bits_def split: if_splits)
  have pton: "ip_prefix_pton L ?t old = (1, ?new)"
    using ip_prefix_pton_text[OF s(4,5) fam s(6), of "unat (pfx_len pfx)" old] len by simp
  have new: "ip_address_get_buffer (pfx_address ?new) (pfx_family pfx) = Some b"
    using fam s(1) assms(4) by (auto simp: ip_address_get_buffer_def family_offset_def AF_INET_def AF_INET6_def field_put split: if_splits)
  have "ip_prefix_cmp pfx ?new = 0" "ip_prefix_cmp ?new pfx = 0"
    using new s(1) fam by (auto simp: ip_prefix_cmp_def ip_address_cmp_def ip_address_get_buffer_def AF_INET_def AF_INET6_def split: if_splits)
  with ntop pton show ?thesis using assms(2,4) by (intro exI[of _ ?t] exI[of _ ?new]) (auto simp: prefix_ok_def)
qed

definition ex_prefix :: ip_prefix where
  "ex_prefix = \<lparr>pfx_family = AF_INET, pfx_address = replicate 12 0 @ [10, 0, 0, 0], pfx_len = 8\<rparr>"

theorem ip_prefix_round_trip_witness:
  "\<exists>s new. ip_prefix_ntop letter_lib ex_prefix 50 = (int (length s), Some s) \<and> ip_prefix_pton letter_lib s ex_prefix = (1, new) \<and>
    prefix_ok new \<and> ip_prefix_cmp ex_prefix new = 0 \<and> ip_prefix_cmp new ex_prefix = 0"
  by (rule ip_prefix_round_trip[OF letter_lib_laws])
    (simp_all add: prefix_ok_def ex_prefix_def family_bits_def AF_INET_def AF_INET6_def)

text \<open>
  The length in the text of a prefix is not checked but reduced: after an address, any number below \<open>2 ^ 64\<close>
  counts modulo 256. The text is accepted when the remainder is a length of the family or 255, which gives the full
  length. So \<^verbatim>\<open>/255\<close> and \<^verbatim>\<open>/264\<close> are accepted for IPv4, as \<^verbatim>\<open>/32\<close> and \<^verbatim>\<open>/8\<close>.
\<close>

theorem ip_prefix_length_wraps:
  assumes "inet_laws L" "prefix_ok pfx" "n < 2 ^ 64" "ip_prefix_ntop_short L pfx 46 = (rc, Some s)"
  shows "\<exists>new. ip_prefix_pton L (s @ ''/'' @ decimal n) old =
      (if n mod 256 \<le> family_bits (pfx_family pfx) \<or> n mod 256 = 255 then 1 else - 1, new) \<and>
    pfx_family new = pfx_family pfx \<and>
    unat (pfx_len new) = (if n mod 256 = 255 then family_bits (pfx_family pfx) else n mod 256)"
proof -
  obtain t b where t: "ip_address_get_buffer (pfx_address pfx) (pfx_family pfx) = Some b"
    "inet_ntop L (pfx_family pfx) b MAXSZ_IP_ADDRESS = Some t" "length t \<le> 45" "CHR ''/'' \<notin> set t"
    "ip_address_get_family L t = pfx_family pfx" "inet_pton L (pfx_family pfx) t = (1, b)"
    by (rule prefix_text[OF assms(1,2)])
  have "s = t" using assms(4) t(1-3) by (simp add: ip_prefix_ntop_short_def snprintf_def)
  have fam: "pfx_family pfx \<in> {AF_INET, AF_INET6}" using assms(2) by (simp add: prefix_ok_def)
  have "unat (of_nat (n mod 256) :: u8) = n mod 256" "unat (of_nat (family_bits (pfx_family pfx)) :: u8) = family_bits (pfx_family pfx)"
    by (simp_all add: unat_of_nat family_bits_def)
  then show ?thesis using ip_prefix_pton_text[OF t(4,5) fam t(6) assms(3), of old] \<open>s = t\<close> by (auto simp: Let_def)
qed

theorem ip_prefix_length_wraps_witness:
  "\<exists>new. ip_prefix_pton letter_lib (''akaaaaaa'' @ ''/'' @ decimal 264) ex_prefix = (1, new) \<and> pfx_len new = 8"
proof -
  have "ip_prefix_ntop_short letter_lib ex_prefix 46 = (8, Some ''akaaaaaa'')" by code_simp
  from ip_prefix_length_wraps[OF letter_lib_laws _ _ this, of 264 ex_prefix] show ?thesis
    by (auto simp: prefix_ok_def ex_prefix_def family_bits_def AF_INET_def AF_INET6_def word_unat_eq_iff)
qed

theorem name_copies_agree_witness:
  "\<exists>copy. hicn_name_copy \<lparr>name_type = HNT_UNSPEC, name_len = 0, name_buffer = replicate 20 0, name_iov = ([], [])\<rparr>
      \<lparr>name_type = HNT_IOV_V4, name_len = 8, name_buffer = [], name_iov = ([10, 0, 0, 1], [1, 0, 0, 0])\<rparr> = (HICN_LIB_ERROR_NONE, copy) \<and>
    hicn_name_compare \<lparr>name_type = HNT_IOV_V4, name_len = 8, name_buffer = [], name_iov = ([10, 0, 0, 1], [1, 0, 0, 0])\<rparr> copy True = 0 \<and>
    hicn_name_ntop letter_lib copy 50 = (HICN_LIB_ERROR_NONE, Some ''akaaaaab|1'')"
proof -
  let ?src = "\<lparr>name_type = HNT_IOV_V4, name_len = 8, name_buffer = [], name_iov = ([10, 0, 0, 1], [1, 0, 0, 0])\<rparr>"
  let ?dst = "\<lparr>name_type = HNT_UNSPEC, name_len = 0, name_buffer = replicate 20 0, name_iov = ([], [])\<rparr>"
  obtain rc copy where c: "hicn_name_copy ?dst ?src = (rc, copy)" by fastforce
  have "iov_name ?src" "length (name_buffer ?dst) = 20" by (simp_all add: iov_name_def)
  note t = name_copies_agree[OF this c]
  moreover have "hicn_name_ntop letter_lib ?src 50 = (HICN_LIB_ERROR_NONE, Some ''akaaaaab|1'')" by code_simp
  ultimately show ?thesis using c t[of _ ?dst] by auto
qed

text \<open>A name made from a prefix gives its address, family and segment back.\<close>

lemma name_from_prefix:
  assumes "prefix_ok pfx" "length (name_buffer name) = 20" "length (pfx_address old) = 16"
    and "hicn_name_create_from_ip_prefix pfx seg name = (rc, n)"
  shows "rc = HICN_LIB_ERROR_NONE" "hicn_name_get_seq_number n s = (HICN_LIB_ERROR_NONE, seg)"
    "hicn_name_get_family n f = (HICN_LIB_ERROR_NONE, pfx_family pfx)"
    "\<exists>p. hicn_name_to_ip_prefix n old = (HICN_LIB_ERROR_NONE, p) \<and> pfx_family p = pfx_family pfx \<and>
       ip_address_cmp (pfx_address p) (pfx_address pfx) (pfx_family pfx) = 0 \<and> pfx_len p = pfx_len old"
proof -
  have fam: "pfx_family pfx = AF_INET \<or> pfx_family pfx = AF_INET6" using assms(1) by (simp add: prefix_ok_def)
  have f: "field (put_le32 (put (name_buffer name) 0 b) k seg) 0 k = b" if "length b = k" "k + 4 \<le> 20" for b k
    using that field_unchanged[OF only_changes_put32(1)[of k k "k + 4" "put (name_buffer name) 0 b" seg], of 0 k] field_put[of k b 0 "name_buffer name"] assms(2)
    by simp
  note defs = AF_INET_def AF_INET6_def IPV4_ADDR_LEN_def IPV6_ADDR_LEN_def ip_address_len_def hicn_name_create_from_ip_prefix_def Let_def
  show "rc = HICN_LIB_ERROR_NONE" using assms(4) fam by (auto simp: defs)
  show "hicn_name_get_seq_number n s = (HICN_LIB_ERROR_NONE, seg)"
    using assms(2,4) fam by (auto simp: defs hicn_name_get_seq_number_def le32_put_le32)
  show "hicn_name_get_family n f = (HICN_LIB_ERROR_NONE, pfx_family pfx)"
    using assms(4) fam by (auto simp: defs hicn_name_get_family_def)
  show "\<exists>p. hicn_name_to_ip_prefix n old = (HICN_LIB_ERROR_NONE, p) \<and> pfx_family p = pfx_family pfx \<and>
      ip_address_cmp (pfx_address p) (pfx_address pfx) (pfx_family pfx) = 0 \<and> pfx_len p = pfx_len old"
    using assms(3,4) fam f[of "field (pfx_address pfx) 12 4" 4] f[of "field (pfx_address pfx) 0 16" 16]
    by (auto simp: defs hicn_name_to_ip_prefix_def ip_address_cmp_def field_put)
qed

end
