(* ===== verification/MapmePackets.thy ===== *)
theory MapmePackets
  imports LibNames
begin

text \<open>
  The packets of MAP-Me, the protocol for producer mobility (\<^verbatim>\<open>lib/src/mapme.c\<close>, \<^verbatim>\<open>lib/includes/hicn/mapme.h\<close>): interest
  updates and their acknowledgements, ICMP redirect messages that carry a prefix, its length and a
  sequence number.

  The lemmas show that what is written is what the receiver reads, for updates and for the
  acknowledgement a receiver makes from an update.
\<close>

section \<open>Layout\<close>

datatype hicn_mapme_type = UNKNOWN | UPDATE | UPDATE_ACK | NOTIFICATION | NOTIFICATION_ACK

record mapme_params =
  mp_protocol :: int
  mp_type :: hicn_mapme_type
  mp_seq :: u32

definition IPPROTO_IP :: int where "IPPROTO_IP = 0"
definition IPPROTO_IPV6 :: int where "IPPROTO_IPV6 = 41"

definition HICN_MAPME_ACK_FLAG :: u8 where "HICN_MAPME_ACK_FLAG = 0x20 OR 0x60"
definition HICN_MAPME_ICMP_TYPE_IPV4 :: u8 where "HICN_MAPME_ICMP_TYPE_IPV4 = 5"
definition HICN_MAPME_ICMP_TYPE_IPV6 :: u8 where "HICN_MAPME_ICMP_TYPE_IPV6 = 137"
definition HICN_MAPME_ICMP_TYPE_ACK_IPV4 :: u8 where "HICN_MAPME_ICMP_TYPE_ACK_IPV4 = HICN_MAPME_ICMP_TYPE_IPV4 OR HICN_MAPME_ACK_FLAG"
definition HICN_MAPME_ICMP_TYPE_ACK_IPV6 :: u8 where "HICN_MAPME_ICMP_TYPE_ACK_IPV6 = HICN_MAPME_ICMP_TYPE_IPV6 OR HICN_MAPME_ACK_FLAG"
definition HICN_MAPME_ICMP_CODE :: u8 where "HICN_MAPME_ICMP_CODE = 0"
definition HICN_MAPME_TTL :: u8 where "HICN_MAPME_TTL = 255"
definition HICN_MAPME_V4_HDRLEN :: nat where "HICN_MAPME_V4_HDRLEN = 120"
definition HICN_MAPME_V6_HDRLEN :: nat where "HICN_MAPME_V6_HDRLEN = 88"

definition HICN_MAPME_TYPE_IS_IU :: "u8 \<Rightarrow> bool" where
  "HICN_MAPME_TYPE_IS_IU type = (type = HICN_MAPME_ICMP_TYPE_IPV4 \<or> type = HICN_MAPME_ICMP_TYPE_IPV6)"

definition HICN_MAPME_TYPE_IS_IU_ACK :: "u8 \<Rightarrow> bool" where
  "HICN_MAPME_TYPE_IS_IU_ACK type = (type = HICN_MAPME_ICMP_TYPE_ACK_IPV4 \<or> type = HICN_MAPME_ICMP_TYPE_ACK_IPV6)"

definition HICN_MAPME_IS_IU :: "u8 \<Rightarrow> u8 \<Rightarrow> bool" where
  "HICN_MAPME_IS_IU type code = (HICN_MAPME_TYPE_IS_IU type \<and> code = HICN_MAPME_ICMP_CODE)"

definition HICN_MAPME_IS_ACK :: "u8 \<Rightarrow> u8 \<Rightarrow> bool" where
  "HICN_MAPME_IS_ACK type code = (HICN_MAPME_TYPE_IS_IU_ACK type \<and> code = HICN_MAPME_ICMP_CODE)"

definition HICN_IS_MAPME :: "u8 \<Rightarrow> u8 \<Rightarrow> bool" where
  "HICN_IS_MAPME type code = (HICN_MAPME_IS_IU type code \<or> HICN_MAPME_IS_ACK type code)"

definition bytes_be32 :: "u32 \<Rightarrow> bytes" where
  "bytes_be32 w = bytes_be16 (hi16 w) @ bytes_be16 (lo16 w)"

text \<open>
  The structure that is assigned to the buffer, member by member; members without an initialiser
  are zero. The length member of the IPv4 header is stored in the order of the host.
\<close>

definition mapme_v4_header :: "hicn_prefix \<Rightarrow> mapme_params \<Rightarrow> bytes" where
  "mapme_v4_header pfx params =
     (let ip4 = field (hp_name pfx) 12 4 in
      [0x45, 0] @ bytes_le16 (of_nat HICN_MAPME_V4_HDRLEN) @ bytes_be16 300 @ bytes_be16 0 @ [HICN_MAPME_TTL, IPPROTO_ICMP] @ [0, 0] @
      replicate 4 0 @ ip4 @
      [if mp_type params = UPDATE \<or> mp_type params = NOTIFICATION then HICN_MAPME_ICMP_TYPE_IPV4 else HICN_MAPME_ICMP_TYPE_ACK_IPV4,
       HICN_MAPME_ICMP_CODE, 0, 0] @ ip4 @ replicate 20 0 @ replicate 64 0 @
      bytes_be32 (mp_seq params) @ [hp_len pfx] @ [0, 0, 0])"

definition mapme_v6_header :: "hicn_prefix \<Rightarrow> mapme_params \<Rightarrow> bytes" where
  "mapme_v6_header pfx params =
     (let ip6 = field (hp_name pfx) 0 16 in
      [0x60, 0, 0, 0] @ bytes_be16 (of_nat (HICN_MAPME_V6_HDRLEN - IPV6_HDRLEN)) @ [IPPROTO_ICMPV6, HICN_MAPME_TTL] @
      replicate 16 0 @ ip6 @
      [if mp_type params = UPDATE \<or> mp_type params = NOTIFICATION then HICN_MAPME_ICMP_TYPE_IPV6 else HICN_MAPME_ICMP_TYPE_ACK_IPV6,
       HICN_MAPME_ICMP_CODE, 0, 0] @ [0, 0, 0, 0] @ ip6 @ ip6 @
      bytes_be32 (mp_seq params) @ [hp_len pfx] @ [0, 0, 0])"

section \<open>Writing and reading\<close>

definition hicn_mapme_v4_create_packet :: "bytes \<Rightarrow> hicn_prefix \<Rightarrow> mapme_params \<Rightarrow> nat \<times> bytes" where
  "hicn_mapme_v4_create_packet buf pfx params = (HICN_MAPME_V4_HDRLEN, put buf 0 (mapme_v4_header pfx params))"

definition hicn_mapme_v6_create_packet :: "bytes \<Rightarrow> hicn_prefix \<Rightarrow> mapme_params \<Rightarrow> nat \<times> bytes" where
  "hicn_mapme_v6_create_packet buf pfx params = (HICN_MAPME_V6_HDRLEN, put buf 0 (mapme_v6_header pfx params))"

definition hicn_mapme_create_packet :: "bytes \<Rightarrow> hicn_prefix \<Rightarrow> mapme_params \<Rightarrow> nat \<times> bytes" where
  "hicn_mapme_create_packet buf pfx params =
     (if mp_protocol params = IPPROTO_IPV6 then hicn_mapme_v6_create_packet buf pfx params
      else hicn_mapme_v4_create_packet buf pfx params)"

definition hicn_mapme_v4_create_ack :: "bytes \<Rightarrow> mapme_params \<Rightarrow> nat \<times> bytes" where
  "hicn_mapme_v4_create_ack buf params =
     (let tmp = field buf 16 4;
          buf = put buf 16 (field buf 12 4);
          buf = put buf 12 tmp;
          buf = put buf 8 [HICN_MAPME_TTL];
          buf = put buf 20 [HICN_MAPME_ICMP_TYPE_ACK_IPV4];
          buf = put buf 22 [0, 0]
      in (HICN_MAPME_V4_HDRLEN, buf))"

definition hicn_mapme_v6_create_ack :: "bytes \<Rightarrow> mapme_params \<Rightarrow> nat \<times> bytes" where
  "hicn_mapme_v6_create_ack buf params =
     (let tmp = field buf 24 16;
          buf = put buf 24 (field buf 8 16);
          buf = put buf 8 tmp;
          buf = put buf 7 [HICN_MAPME_TTL];
          buf = put buf 40 [HICN_MAPME_ICMP_TYPE_ACK_IPV6];
          buf = put buf 42 [0, 0]
      in (HICN_MAPME_V6_HDRLEN, buf))"

definition hicn_mapme_create_ack :: "bytes \<Rightarrow> mapme_params \<Rightarrow> nat \<times> bytes" where
  "hicn_mapme_create_ack buf params =
     (if mp_protocol params = IPPROTO_IPV6 then hicn_mapme_v6_create_ack buf params else hicn_mapme_v4_create_ack buf params)"

definition hicn_mapme_v4_parse_packet :: "bytes \<Rightarrow> rc \<times> hicn_prefix \<times> mapme_params" where
  "hicn_mapme_v4_parse_packet packet =
     (HICN_LIB_ERROR_NONE,
      \<lparr>hp_name = replicate 12 0 @ (if HICN_MAPME_TYPE_IS_IU (byte packet 20) then field packet 16 4 else field packet 12 4),
       hp_len = byte packet 116\<rparr>,
      \<lparr>mp_protocol = IPPROTO_IP, mp_type = (if byte packet 20 = HICN_MAPME_ICMP_TYPE_IPV4 then UPDATE else UPDATE_ACK),
       mp_seq = be32 packet 112\<rparr>)"

definition hicn_mapme_v6_parse_packet :: "bytes \<Rightarrow> rc \<times> hicn_prefix \<times> mapme_params" where
  "hicn_mapme_v6_parse_packet packet =
     (HICN_LIB_ERROR_NONE,
      \<lparr>hp_name = (if HICN_MAPME_TYPE_IS_IU (byte packet 40) then field packet 24 16 else field packet 8 16),
       hp_len = byte packet 84\<rparr>,
      \<lparr>mp_protocol = IPPROTO_IPV6, mp_type = (if byte packet 40 = HICN_MAPME_ICMP_TYPE_IPV6 then UPDATE else UPDATE_ACK),
       mp_seq = be32 packet 80\<rparr>)"

text \<open>For other versions the outputs keep the values they had.\<close>

definition hicn_mapme_parse_packet :: "bytes \<Rightarrow> hicn_prefix \<Rightarrow> mapme_params \<Rightarrow> rc \<times> hicn_prefix \<times> mapme_params" where
  "hicn_mapme_parse_packet packet pfx params =
     (if HICN_IP_VERSION packet = 4 then hicn_mapme_v4_parse_packet packet
      else if HICN_IP_VERSION packet = 6 then hicn_mapme_v6_parse_packet packet
      else (HICN_LIB_ERROR_UNEXPECTED, pfx, params))"

text \<open>\<^verbatim>\<open>mapme_isMapMe\<close> of the forwarder: whether a packet is one of these.\<close>

definition mapme_isMapMe :: "bytes \<Rightarrow> bool" where
  "mapme_isMapMe packet =
     (if HICN_IP_VERSION packet = 4
      then (if byte packet 9 \<noteq> IPPROTO_ICMP then False else HICN_IS_MAPME (byte packet 20) (byte packet 21))
      else if HICN_IP_VERSION packet = 6
      then (if byte packet 6 \<noteq> IPPROTO_ICMPV6 then False else HICN_IS_MAPME (byte packet 40) (byte packet 41))
      else False)"

section \<open>Round trips\<close>

lemmas mapme_consts = HICN_MAPME_ACK_FLAG_def HICN_MAPME_ICMP_TYPE_IPV4_def HICN_MAPME_ICMP_TYPE_IPV6_def
  HICN_MAPME_ICMP_TYPE_ACK_IPV4_def HICN_MAPME_ICMP_TYPE_ACK_IPV6_def HICN_MAPME_ICMP_CODE_def HICN_MAPME_TTL_def
  HICN_MAPME_V4_HDRLEN_def HICN_MAPME_V6_HDRLEN_def IPPROTO_ICMP_def IPPROTO_ICMPV6_def IPV6_HDRLEN_def IPPROTO_IP_def IPPROTO_IPV6_def

lemmas mapme_kinds = HICN_IS_MAPME_def HICN_MAPME_IS_IU_def HICN_MAPME_IS_ACK_def HICN_MAPME_TYPE_IS_IU_def HICN_MAPME_TYPE_IS_IU_ACK_def

lemma length_bytes_be32 [simp]: "length (bytes_be32 w) = 4"
  by (simp add: bytes_be32_def)

lemma length_mapme_header [simp]: "length (mapme_v4_header pfx params) = 120" "length (mapme_v6_header pfx params) = 88"
  by (simp_all add: mapme_v4_header_def mapme_v6_header_def Let_def)

lemma byte_put_0: "i < length bs \<Longrightarrow> length bs \<le> length h \<Longrightarrow> byte (put h 0 bs) i = bs ! i"
  by (simp add: byte_put)

lemma be32_bytes: "byte h off = ucast (drop_bit 8 (hi16 w)) \<Longrightarrow> byte h (Suc off) = ucast (hi16 w) \<Longrightarrow>
  byte h (Suc (Suc off)) = ucast (drop_bit 8 (lo16 w)) \<Longrightarrow> byte h (Suc (Suc (Suc off))) = ucast (lo16 w) \<Longrightarrow> be32 h off = w"
  by (simp add: be32_def be16_def word_bytes word32_halves numeral_2_eq_2)

lemma v6_header_fields:
  assumes "88 \<le> length buf" "h = put buf 0 (mapme_v6_header pfx params)"
  shows "byte h 0 = 0x60" "byte h 6 = IPPROTO_ICMPV6" "field h 8 16 = replicate 16 0" "field h 24 16 = field (hp_name pfx) 0 16"
    "byte h 40 = (if mp_type params = UPDATE \<or> mp_type params = NOTIFICATION then HICN_MAPME_ICMP_TYPE_IPV6 else HICN_MAPME_ICMP_TYPE_ACK_IPV6)"
    "byte h 41 = HICN_MAPME_ICMP_CODE" "be32 h 80 = mp_seq params" "byte h 84 = hp_len pfx" "be16 h 4 = 48"
proof -
  let ?p = "mapme_v6_header pfx params"
  have b: "byte h i = ?p ! i" if "i < 88" for i using that assms by (simp add: byte_put_0)
  note hdr = mapme_v6_header_def Let_def nth_append bytes_be16_def bytes_be32_def
  show "byte h 0 = 0x60" "byte h 6 = IPPROTO_ICMPV6" "byte h 41 = HICN_MAPME_ICMP_CODE" "byte h 84 = hp_len pfx"
    "byte h 40 = (if mp_type params = UPDATE \<or> mp_type params = NOTIFICATION then HICN_MAPME_ICMP_TYPE_IPV6 else HICN_MAPME_ICMP_TYPE_ACK_IPV6)"
    by (simp_all add: b hdr)
  show "field h 8 16 = replicate 16 0" by (rule nth_equalityI) (auto simp: b hdr)
  show "field h 24 16 = field (hp_name pfx) 0 16" by (rule nth_equalityI) (auto simp: b hdr)
  show "be32 h 80 = mp_seq params" by (rule be32_bytes) (simp_all add: b hdr)
  show "be16 h 4 = 48" using b[of 4] b[of 5] by (simp add: be16_def hdr mapme_consts)
qed

lemma v4_header_fields:
  assumes "120 \<le> length buf" "h = put buf 0 (mapme_v4_header pfx params)"
  shows "byte h 0 = 0x45" "byte h 9 = IPPROTO_ICMP" "field h 12 4 = replicate 4 0" "field h 16 4 = field (hp_name pfx) 12 4"
    "byte h 20 = (if mp_type params = UPDATE \<or> mp_type params = NOTIFICATION then HICN_MAPME_ICMP_TYPE_IPV4 else HICN_MAPME_ICMP_TYPE_ACK_IPV4)"
    "byte h 21 = HICN_MAPME_ICMP_CODE" "be32 h 112 = mp_seq params" "byte h 116 = hp_len pfx" "be16 h 2 = 30720"
proof -
  let ?p = "mapme_v4_header pfx params"
  have b: "byte h i = ?p ! i" if "i < 120" for i using that assms by (simp add: byte_put_0)
  note hdr = mapme_v4_header_def Let_def nth_append bytes_be16_def bytes_be32_def bytes_le16_def
  show "byte h 0 = 0x45" "byte h 9 = IPPROTO_ICMP" "byte h 21 = HICN_MAPME_ICMP_CODE" "byte h 116 = hp_len pfx"
    "byte h 20 = (if mp_type params = UPDATE \<or> mp_type params = NOTIFICATION then HICN_MAPME_ICMP_TYPE_IPV4 else HICN_MAPME_ICMP_TYPE_ACK_IPV4)"
    by (simp_all add: b hdr)
  show "field h 12 4 = replicate 4 0" by (rule nth_equalityI) (auto simp: b hdr)
  show "field h 16 4 = field (hp_name pfx) 12 4" by (rule nth_equalityI) (auto simp: b hdr)
  show "be32 h 112 = mp_seq params" by (rule be32_bytes) (simp_all add: b hdr)
  show "be16 h 2 = 30720" using b[of 2] b[of 3] by (simp add: be16_def hdr mapme_consts)
qed

text \<open>The acknowledgement changes the addresses, the hop limit and the ICMP header only.\<close>

lemma v6_ack_fields:
  assumes "88 \<le> length buf" "h = snd (hicn_mapme_v6_create_ack buf params)"
  shows "length h = length buf" "byte h 0 = byte buf 0" "byte h 6 = byte buf 6" "field h 8 16 = field buf 24 16" "field h 24 16 = field buf 8 16"
    "byte h 40 = HICN_MAPME_ICMP_TYPE_ACK_IPV6" "byte h 41 = byte buf 41" "be32 h 80 = be32 buf 80" "byte h 84 = byte buf 84"
    "be16 h 4 = be16 buf 4"
proof -
  have h: "h = put (put (put (put (put buf 24 (field buf 8 16)) 8 (field buf 24 16)) 7 [HICN_MAPME_TTL]) 40 [HICN_MAPME_ICMP_TYPE_ACK_IPV6]) 42 [0, 0]"
    using assms(2) by (simp add: hicn_mapme_v6_create_ack_def)
  show "length h = length buf" "byte h 0 = byte buf 0" "byte h 6 = byte buf 6" "byte h 41 = byte buf 41" "byte h 84 = byte buf 84"
    "byte h 40 = HICN_MAPME_ICMP_TYPE_ACK_IPV6" using assms(1) by (simp_all add: h byte_put del: put.simps)
  show "be32 h 80 = be32 buf 80" "be16 h 4 = be16 buf 4" by (simp_all add: be32_def be16_def h byte_put del: put.simps)
  show "field h 8 16 = field buf 24 16" using assms(1) by (intro nth_equalityI) (auto simp: h byte_put simp del: put.simps)
  show "field h 24 16 = field buf 8 16" using assms(1) by (intro nth_equalityI) (auto simp: h byte_put simp del: put.simps)
qed

lemma v4_ack_fields:
  assumes "120 \<le> length buf" "h = snd (hicn_mapme_v4_create_ack buf params)"
  shows "length h = length buf" "byte h 0 = byte buf 0" "byte h 9 = byte buf 9" "field h 12 4 = field buf 16 4" "field h 16 4 = field buf 12 4"
    "byte h 20 = HICN_MAPME_ICMP_TYPE_ACK_IPV4" "byte h 21 = byte buf 21" "be32 h 112 = be32 buf 112" "byte h 116 = byte buf 116"
proof -
  have h: "h = put (put (put (put (put buf 16 (field buf 12 4)) 12 (field buf 16 4)) 8 [HICN_MAPME_TTL]) 20 [HICN_MAPME_ICMP_TYPE_ACK_IPV4]) 22 [0, 0]"
    using assms(2) by (simp add: hicn_mapme_v4_create_ack_def)
  show "length h = length buf" "byte h 0 = byte buf 0" "byte h 9 = byte buf 9" "byte h 21 = byte buf 21" "byte h 116 = byte buf 116"
    "byte h 20 = HICN_MAPME_ICMP_TYPE_ACK_IPV4" using assms(1) by (simp_all add: h byte_put del: put.simps)
  show "be32 h 112 = be32 buf 112" by (simp add: be32_def be16_def h byte_put del: put.simps)
  show "field h 12 4 = field buf 16 4" using assms(1) by (intro nth_equalityI) (auto simp: h byte_put simp del: put.simps)
  show "field h 16 4 = field buf 12 4" using assms(1) by (intro nth_equalityI) (auto simp: h byte_put simp del: put.simps)
qed

text \<open>The prefixes that an IPv4 or IPv6 packet can carry.\<close>

definition mapme_prefix_ok :: "int \<Rightarrow> hicn_prefix \<Rightarrow> bool" where
  "mapme_prefix_ok protocol pfx \<longleftrightarrow> length (hp_name pfx) = 16 \<and>
     (protocol = IPPROTO_IPV6 \<or> protocol = IPPROTO_IP \<and> take 12 (hp_name pfx) = replicate 12 0)"

lemma mapme_prefix_v4: "mapme_prefix_ok IPPROTO_IP pfx \<Longrightarrow> replicate 12 0 @ field (hp_name pfx) 12 4 = hp_name pfx"
proof -
  assume ok: "mapme_prefix_ok IPPROTO_IP pfx"
  then have t: "length (hp_name pfx) = 16" "take 12 (hp_name pfx) = replicate 12 0" by (auto simp: mapme_prefix_ok_def mapme_consts)
  have "field (hp_name pfx) 12 4 = drop 12 (hp_name pfx)" using t(1) by (intro nth_equalityI) (auto simp: byte_def)
  then show ?thesis by (metis append_take_drop_id t(2))
qed

text \<open>
  C16. MAP-Me packets are read as they were written: for both IP versions, an update or notification that is created for
  a prefix and a sequence number is recognised as a MAP-Me packet and parsed as an update with that
  prefix and number, and the acknowledgement made from it is recognised and parsed as an
  acknowledgement with the same prefix and number.
\<close>

theorem mapme_packet_round_trip:
  assumes "mapme_prefix_ok protocol pfx" "120 \<le> length buf" "t \<in> {UPDATE, NOTIFICATION}"
    and "packet = snd (hicn_mapme_create_packet buf pfx \<lparr>mp_protocol = protocol, mp_type = t, mp_seq = s\<rparr>)"
    and "ack = snd (hicn_mapme_create_ack packet \<lparr>mp_protocol = protocol, mp_type = t', mp_seq = s'\<rparr>)"
  shows "mapme_isMapMe packet \<and> mapme_isMapMe ack \<and>
    hicn_mapme_parse_packet packet p0 m0 = (HICN_LIB_ERROR_NONE, pfx, \<lparr>mp_protocol = protocol, mp_type = UPDATE, mp_seq = s\<rparr>) \<and>
    hicn_mapme_parse_packet ack p0 m0 = (HICN_LIB_ERROR_NONE, pfx, \<lparr>mp_protocol = protocol, mp_type = UPDATE_ACK, mp_seq = s\<rparr>)"
proof -
  note defs = mapme_isMapMe_def hicn_mapme_parse_packet_def hicn_mapme_v4_parse_packet_def hicn_mapme_v6_parse_packet_def HICN_IP_VERSION_def mapme_kinds
  consider "protocol = IPPROTO_IPV6" | "protocol = IPPROTO_IP" using assms(1) by (auto simp: mapme_prefix_ok_def)
  then show ?thesis
  proof cases
    case 1
    have pk: "packet = put buf 0 (mapme_v6_header pfx \<lparr>mp_protocol = protocol, mp_type = t, mp_seq = s\<rparr>)"
      using assms(4) 1 by (simp add: hicn_mapme_create_packet_def hicn_mapme_v6_create_packet_def)
    note p = v6_header_fields[OF _ pk]
    have l: "88 \<le> length packet" using assms(2) pk by simp
    have "ack = snd (hicn_mapme_v6_create_ack packet \<lparr>mp_protocol = protocol, mp_type = t', mp_seq = s'\<rparr>)"
      using assms(5) 1 by (simp add: hicn_mapme_create_ack_def)
    note a = v6_ack_fields[OF l this]
    have "field (hp_name pfx) 0 16 = hp_name pfx" using assms(1) by (simp add: mapme_prefix_ok_def field_all)
    then show ?thesis using p a assms(2,3) 1 by (auto simp: defs mapme_consts)
  next
    case 2
    have pk: "packet = put buf 0 (mapme_v4_header pfx \<lparr>mp_protocol = protocol, mp_type = t, mp_seq = s\<rparr>)"
      using assms(4) 2 by (simp add: hicn_mapme_create_packet_def hicn_mapme_v4_create_packet_def mapme_consts)
    note p = v4_header_fields[OF _ pk]
    have l: "120 \<le> length packet" using assms(2) pk by simp
    have "ack = snd (hicn_mapme_v4_create_ack packet \<lparr>mp_protocol = protocol, mp_type = t', mp_seq = s'\<rparr>)"
      using assms(5) 2 by (simp add: hicn_mapme_create_ack_def mapme_consts)
    note a = v4_ack_fields[OF l this]
    show ?thesis using p a assms(2,3) 2 mapme_prefix_v4[of pfx] assms(1) by (auto simp: defs mapme_consts)
  qed
qed

theorem mapme_packet_round_trip_witness:
  "\<exists>packet. snd (hicn_mapme_create_packet (replicate 120 0) \<lparr>hp_name = 0xb0 # 1 # replicate 14 0, hp_len = 64\<rparr>
      \<lparr>mp_protocol = IPPROTO_IPV6, mp_type = UPDATE, mp_seq = 7\<rparr>) = packet \<and>
    hicn_mapme_parse_packet packet \<lparr>hp_name = [], hp_len = 0\<rparr> \<lparr>mp_protocol = 0, mp_type = UNKNOWN, mp_seq = 0\<rparr> =
      (HICN_LIB_ERROR_NONE, \<lparr>hp_name = 0xb0 # 1 # replicate 14 0, hp_len = 64\<rparr>, \<lparr>mp_protocol = IPPROTO_IPV6, mp_type = UPDATE, mp_seq = 7\<rparr>)"
  using mapme_packet_round_trip[of IPPROTO_IPV6 "\<lparr>hp_name = 0xb0 # 1 # replicate 14 0, hp_len = 64\<rparr>" "replicate 120 0" UPDATE _ 7]
  by (simp add: mapme_prefix_ok_def)

text \<open>The length that an IPv4 packet announces, read in network order, is far beyond its end.\<close>

lemma mapme_v4_length:
  assumes "120 \<le> length buf" "mp_protocol params = IPPROTO_IP"
  shows "messageHandler_GetTotalPacketLength (snd (hicn_mapme_create_packet buf pfx params)) = 30720"
proof -
  define h where "h = put buf 0 (mapme_v4_header pfx params)"
  have "snd (hicn_mapme_create_packet buf pfx params) = h"
    using assms(2) by (simp add: h_def hicn_mapme_create_packet_def hicn_mapme_v4_create_packet_def mapme_consts)
  then show ?thesis using v4_header_fields(1,9)[OF assms(1) h_def]
    by (simp add: messageHandler_GetTotalPacketLength_def messageHandler_GetIPPacketType_def)
qed

end
