(* ===== verification/Mapme.thy ===== *)
theory Mapme
  imports MapmePackets Routes
begin

text \<open>
  MAP-Me, the management of producer mobility without anchors (\<^verbatim>\<open>hicn-light/src/hicn/core/mapme.c\<close>). When the
  connections of a producer change, its node sends interest updates for the prefixes it serves. Every node on the
  way replaces the next hops of the prefix by the connection the update came from, and forwards the
  update to the old ones. Updates are acknowledged hop by hop and retransmitted. The state of
  a prefix, its temporary FIB (TFIB), is the sequence number of the last update and the connections
  that have not acknowledged it yet, with their retransmission timers.

  The state has the parts of the forwarder that MAP-Me works on (FIB, connection table, messages), the
  heap of TFIBs, to which the user data of FIB entries refers, and the heap of timers. A timer exists
  from its creation to its destruction; it is pending until it fires. An iterator visits the keys a map
  has when the iterator is made. Parameters, in the record \<open>E\<close>, are the operations of the
  containers, the hash function, whether the event library accepts a timer, and what is in
  the two prefixes on the stack before they are filled. Logging is left out.

  The theories \<open>MapmeTimers\<close> and \<open>MapmeUpdates\<close> prove its properties.
\<close>

section \<open>State\<close>

definition MAPME_DEFAULT_TU :: u32 where "MAPME_DEFAULT_TU = 5000"
definition MAPME_DEFAULT_RETX :: u32 where "MAPME_DEFAULT_RETX = 500"
definition MAX_RETX :: u32 where "MAX_RETX = 3"
definition NO_INGRESS :: connid where "NO_INGRESS = 0"
definition INVALID_SEQ :: u32 where "INVALID_SEQ = 0"
definition INIT_SEQ :: u32 where "INIT_SEQ = 0"

record 'h MapMeTFIB =
  tfib_seq :: u32
  tfib_nexthops :: 'h
  lastAckedUpdate :: ticks

record setFacePendingArgs =
  arg_name :: Name
  arg_fibEntry :: nat
  arg_conn_id :: connid
  arg_send :: bool
  arg_is_producer :: bool
  arg_num_retx :: u32

record timer =
  tm_args :: setFacePendingArgs
  tm_pending :: bool

record ('d, 't, 'l, 'i, 'p, 'o, 'h) mm_ops =
  mo_st :: "('d, 't, 'l) st_ops"
  mo_ct :: "('i, 'p, 'o) ct_ops"
  mo_hm :: "('h, connid, nat option) hm_ops"
  mo_hash :: hash_fun
  mo_timer_ok :: "nat \<Rightarrow> bool"
  mo_ip_prefix :: LibNames.ip_prefix
  mo_hicn_prefix :: hicn_prefix

record ('d, 't, 'l, 'i, 'p, 'o, 'h) MapMe =
  mm_retx :: u32
  mm_Tu :: u32
  mm_removeFibEntries :: bool
  mm_fib :: "('d, 't, 'l) fib_store"
  mm_table :: "('i, 'p, 'o) ConnectionTable"
  mm_world :: world
  mm_tfibs :: "nat \<Rightarrow> 'h MapMeTFIB"
  mm_next :: nat
  mm_timers :: "nat \<Rightarrow> timer option"
  mm_next_timer :: nat

definition mapmeTFIB_Create :: "('h, connid, nat option) hm_ops \<Rightarrow> 'h MapMeTFIB" where
  "mapmeTFIB_Create M = \<lparr>tfib_seq = INIT_SEQ, tfib_nexthops = hm_Create M, lastAckedUpdate = 0\<rparr>"

text \<open>The heap of TFIBs has empty ones where none was allocated.\<close>

definition mapme_create ::
  "('d, 't, 'l, 'i, 'p, 'o, 'h) mm_ops \<Rightarrow> ('d, 't, 'l) fib_store \<Rightarrow> ('i, 'p, 'o) ConnectionTable \<Rightarrow> world \<Rightarrow>
     ('d, 't, 'l, 'i, 'p, 'o, 'h) MapMe" where
  "mapme_create E fib table w =
     \<lparr>mm_retx = MAPME_DEFAULT_RETX, mm_Tu = MAPME_DEFAULT_TU, mm_removeFibEntries = False,
      mm_fib = fib, mm_table = table, mm_world = w, mm_tfibs = (\<lambda>_. mapmeTFIB_Create (mo_hm E)), mm_next = 0,
      mm_timers = Map.empty, mm_next_timer = 0\<rparr>"

section \<open>Temporary FIBs\<close>

definition mm_entry :: "('d, 't, 'l, 'i, 'p, 'o, 'h) MapMe \<Rightarrow> nat \<Rightarrow> ('d, 't, 'l) FibEntry" where
  "mm_entry s e = fs_heap (mm_fib s) e"

definition mm_put_entry :: "('d, 't, 'l, 'i, 'p, 'o, 'h) MapMe \<Rightarrow> nat \<Rightarrow> ('d, 't, 'l) FibEntry \<Rightarrow> ('d, 't, 'l, 'i, 'p, 'o, 'h) MapMe" where
  "mm_put_entry s e fe = s\<lparr>mm_fib := fs_put (mm_fib s) e fe\<rparr>"

text \<open>\<^verbatim>\<open>TFIB(fibEntry)\<close>: the reference in the user data of the entry.\<close>

definition TFIB :: "('d, 't, 'l, 'i, 'p, 'o, 'h) MapMe \<Rightarrow> nat \<Rightarrow> nat option" where
  "TFIB s e = fibEntry_getUserData (mm_entry s e)"

definition mapme_CreateTFIB ::
  "('d, 't, 'l, 'i, 'p, 'o, 'h) mm_ops \<Rightarrow> ('d, 't, 'l, 'i, 'p, 'o, 'h) MapMe \<Rightarrow> nat \<Rightarrow> ('d, 't, 'l, 'i, 'p, 'o, 'h) MapMe" where
  "mapme_CreateTFIB E s e =
     (let ref = mm_next s;
          s = s\<lparr>mm_tfibs := (mm_tfibs s)(ref := mapmeTFIB_Create (mo_hm E)), mm_next := ref + 1\<rparr>
      in mm_put_entry s e (fibEntry_setUserData (mm_entry s e) (Some ref)))"

definition tfib_update ::
  "('h MapMeTFIB \<Rightarrow> 'h MapMeTFIB) \<Rightarrow> ('d, 't, 'l, 'i, 'p, 'o, 'h) MapMe \<Rightarrow> nat \<Rightarrow> ('d, 't, 'l, 'i, 'p, 'o, 'h) MapMe" where
  "tfib_update f s tfib = s\<lparr>mm_tfibs := (mm_tfibs s)(tfib := f (mm_tfibs s tfib))\<rparr>"

text \<open>The timer of a connection; \<open>None\<close> is \<^verbatim>\<open>NULL\<close>, for a connection that is not in the map and for one stored without a timer.\<close>

definition mapmeTFIB_Get ::
  "('d, 't, 'l, 'i, 'p, 'o, 'h) mm_ops \<Rightarrow> ('d, 't, 'l, 'i, 'p, 'o, 'h) MapMe \<Rightarrow> nat \<Rightarrow> connid \<Rightarrow> nat option" where
  "mapmeTFIB_Get E s tfib conn_id =
     (case hm_Get (mo_hm E) (tfib_nexthops (mm_tfibs s tfib)) conn_id of None \<Rightarrow> None | Some timer \<Rightarrow> timer)"

definition mapmeTFIB_Put ::
  "('d, 't, 'l, 'i, 'p, 'o, 'h) mm_ops \<Rightarrow> ('d, 't, 'l, 'i, 'p, 'o, 'h) MapMe \<Rightarrow> nat \<Rightarrow> connid \<Rightarrow> nat option \<Rightarrow>
     ('d, 't, 'l, 'i, 'p, 'o, 'h) MapMe" where
  "mapmeTFIB_Put E s tfib conn_id timer =
     tfib_update (\<lambda>t. t\<lparr>tfib_nexthops := hm_Put (mo_hm E) (tfib_nexthops t) conn_id timer\<rparr>) s tfib"

definition mapmeTFIB_Remove ::
  "('d, 't, 'l, 'i, 'p, 'o, 'h) mm_ops \<Rightarrow> ('d, 't, 'l, 'i, 'p, 'o, 'h) MapMe \<Rightarrow> nat \<Rightarrow> connid \<Rightarrow> ('d, 't, 'l, 'i, 'p, 'o, 'h) MapMe" where
  "mapmeTFIB_Remove E s tfib conn_id =
     (let s = (case mapmeTFIB_Get E s tfib conn_id of
                 Some timer \<Rightarrow> s\<lparr>mm_timers := (mm_timers s)(timer := None)\<rparr>
               | None \<Rightarrow> s)
      in tfib_update (\<lambda>t. t\<lparr>tfib_nexthops := hm_Remove (mo_hm E) (tfib_nexthops t) conn_id\<rparr>) s tfib)"

definition mapmeTFIB_CreateKeyIterator ::
  "('d, 't, 'l, 'i, 'p, 'o, 'h) mm_ops \<Rightarrow> ('d, 't, 'l, 'i, 'p, 'o, 'h) MapMe \<Rightarrow> nat \<Rightarrow> connid list" where
  "mapmeTFIB_CreateKeyIterator E s tfib = hm_Keys (mo_hm E) (tfib_nexthops (mm_tfibs s tfib))"

definition mapmeTFIB_Release ::
  "('d, 't, 'l, 'i, 'p, 'o, 'h) mm_ops \<Rightarrow> ('d, 't, 'l, 'i, 'p, 'o, 'h) MapMe \<Rightarrow> nat \<Rightarrow> ('d, 't, 'l, 'i, 'p, 'o, 'h) MapMe" where
  "mapmeTFIB_Release E s tfib = foldl (\<lambda>s conn_id. mapmeTFIB_Remove E s tfib conn_id) s (mapmeTFIB_CreateKeyIterator E s tfib)"

section \<open>Messages\<close>

text \<open>The fields of \<^verbatim>\<open>ip_prefix_t\<close> that \<^verbatim>\<open>nameBitvector_ToIPAddress\<close> writes, over what was there.\<close>

definition to_ip_prefix :: "NameBitvector.ip_prefix \<Rightarrow> LibNames.ip_prefix \<Rightarrow> LibNames.ip_prefix" where
  "to_ip_prefix x pfx =
     (case ipp_address x of
        IP4 a \<Rightarrow> pfx\<lparr>pfx_family := AF_INET, pfx_len := ipp_len x, pfx_address := put (pfx_address pfx) 12 (u32_bytes a)\<rparr>
      | IP6 b \<Rightarrow> pfx\<lparr>pfx_family := AF_INET6, pfx_len := ipp_len x, pfx_address := put (pfx_address pfx) 0 b\<rparr>)"

definition hicn_prefix_from_name ::
  "('d, 't, 'l, 'i, 'p, 'o, 'h) mm_ops \<Rightarrow> Name \<Rightarrow> (rc \<times> hicn_prefix) res" where
  "hicn_prefix_from_name E name =
     bind_res (name_GetContentName name) (\<lambda>bv.
     Inr (hicn_prefix_create_from_ip_prefix (to_ip_prefix (nameBitvector_ToIPAddress bv) (mo_ip_prefix E)) (mo_hicn_prefix E)))"

text \<open>\<open>None\<close> is \<^verbatim>\<open>NULL\<close>.\<close>

definition mapme_createMessage ::
  "('d, 't, 'l, 'i, 'p, 'o, 'h) mm_ops \<Rightarrow> ticks \<Rightarrow> Name \<Rightarrow> mapme_params \<Rightarrow> Message option res" where
  "mapme_createMessage E now name params =
     bind_res (hicn_prefix_from_name E name) (\<lambda>(rc, pfx).
     if failed rc then Inr None
     else (let n = (if mp_protocol params = IPPROTO_IPV6 then HICN_MAPME_V6_HDRLEN else HICN_MAPME_V4_HDRLEN);
               (len, icmp_pkt) = hicn_mapme_create_packet (replicate n 0) pfx params
           in if len = 0 then Inr None
              else Inr (Some (message_CreateFromByteArray (mo_hash E) NO_INGRESS icmp_pkt MessagePacketType_Interest now))))"

definition mapme_createAckMessage ::
  "('d, 't, 'l, 'i, 'p, 'o, 'h) mm_ops \<Rightarrow> ticks \<Rightarrow> bytes \<Rightarrow> mapme_params \<Rightarrow> Message option" where
  "mapme_createAckMessage E now msgBuffer params =
     (let n = (if mp_protocol params = IPPROTO_IPV6 then HICN_MAPME_V6_HDRLEN else HICN_MAPME_V4_HDRLEN);
          icmp_pkt = field msgBuffer 0 n;
          (len, icmp_pkt) = hicn_mapme_create_ack icmp_pkt params
      in if len \<noteq> n then None
         else Some (message_CreateFromByteArray (mo_hash E) NO_INGRESS icmp_pkt MessagePacketType_ContentObject now))"

section \<open>Pending faces\<close>

definition mapme_getTypeFromHeuristic :: hicn_mapme_type where
  "mapme_getTypeFromHeuristic = UPDATE"

text \<open>The two steps that empty a TFIB: collect the connections, then remove them.\<close>

definition clear_TFIB ::
  "('d, 't, 'l, 'i, 'p, 'o, 'h) mm_ops \<Rightarrow> ('d, 't, 'l, 'i, 'p, 'o, 'h) MapMe \<Rightarrow> nat \<Rightarrow> ('d, 't, 'l, 'i, 'p, 'o, 'h) MapMe res" where
  "clear_TFIB E s tfib =
     (let conns = foldl (\<lambda>ns c. fst (numberSet_Add ns c)) numberSet_Create (hm_Keys (mo_hm E) (tfib_nexthops (mm_tfibs s tfib)))
      in ns_for conns (\<lambda>s conn_id. Inr (mapmeTFIB_Remove E s tfib conn_id)) s)"

text \<open>Sending the update: the message is created, handed to the connection if there is one, and released.\<close>

definition send_special_interest ::
  "('d, 't, 'l, 'i, 'p, 'o, 'h) mm_ops \<Rightarrow> ('d, 't, 'l, 'i, 'p, 'o, 'h) MapMe \<Rightarrow> Message \<Rightarrow> connid \<Rightarrow> ('d, 't, 'l, 'i, 'p, 'o, 'h) MapMe res" where
  "send_special_interest E s special_interest conn_id =
     (let (w, r) = w_alloc (mm_world s) special_interest in
      bind_res (case ct_lookup (mo_ct E) (mm_table s) conn_id of
                  None \<Rightarrow> Inr w
                | Some conn \<Rightarrow> bind_res (connection_ReSend conn w r False) (\<lambda>(w, _). Inr w)) (\<lambda>w.
      bind_res (w_Release w r) (\<lambda>w. Inr (s\<lparr>mm_world := w\<rparr>))))"

text \<open>Scheduling a retransmission: the new timer, or \<open>None\<close> when the event library does not accept it and it is destroyed.\<close>

definition schedule_retx ::
  "('d, 't, 'l, 'i, 'p, 'o, 'h) mm_ops \<Rightarrow> ('d, 't, 'l, 'i, 'p, 'o, 'h) MapMe \<Rightarrow> setFacePendingArgs \<Rightarrow>
     nat option \<times> ('d, 't, 'l, 'i, 'p, 'o, 'h) MapMe" where
  "schedule_retx E s args =
     (let timer = mm_next_timer s; s = s\<lparr>mm_next_timer := timer + 1\<rparr> in
      if mo_timer_ok E timer
      then (Some timer, s\<lparr>mm_timers := (mm_timers s)(timer \<mapsto> \<lparr>tm_args = args, tm_pending = True\<rparr>)\<rparr>)
      else (None, s))"

definition mapme_setFacePending ::
  "('d, 't, 'l, 'i, 'p, 'o, 'h) mm_ops \<Rightarrow> ticks \<Rightarrow> ('d, 't, 'l, 'i, 'p, 'o, 'h) MapMe \<Rightarrow> Name \<Rightarrow> nat \<Rightarrow> connid \<Rightarrow>
     bool \<Rightarrow> bool \<Rightarrow> bool \<Rightarrow> u32 \<Rightarrow> (bool \<times> ('d, 't, 'l, 'i, 'p, 'o, 'h) MapMe) res" where
  "mapme_setFacePending E now s name fibEntry conn_id send is_producer clear_tfib num_retx =
     (case TFIB s fibEntry of
        None \<Rightarrow> Inr (True, s)
      | Some tfib \<Rightarrow>
          bind_res (if clear_tfib then clear_TFIB E s tfib else Inr s) (\<lambda>s.
          if send
          then
            (let params = \<lparr>mp_protocol = IPPROTO_IPV6, mp_type = (if is_producer then mapme_getTypeFromHeuristic else UPDATE),
                           mp_seq = tfib_seq (mm_tfibs s tfib)\<rparr>
             in bind_res (mapme_createMessage E now name params) (\<lambda>special_interest.
                case special_interest of
                  None \<Rightarrow> Inr (False, s)
                | Some special_interest \<Rightarrow>
                    bind_res (send_special_interest E s special_interest conn_id) (\<lambda>s.
                    if num_retx < MAX_RETX
                    then (let args = \<lparr>arg_name = name, arg_fibEntry = fibEntry, arg_conn_id = conn_id, arg_send = send,
                                      arg_is_producer = is_producer, arg_num_retx = num_retx + 1\<rparr>
                          in case schedule_retx E s args of
                               (None, s) \<Rightarrow> Inr (False, s)
                             | (Some timer, s) \<Rightarrow>
                                 Inr (True, mapmeTFIB_Put E (mapmeTFIB_Remove E s tfib conn_id) tfib conn_id (Some timer)))
                    else Inr (True, mapmeTFIB_Put E (mapmeTFIB_Remove E s tfib conn_id) tfib conn_id None))))
          else Inr (True, mapmeTFIB_Put E (mapmeTFIB_Remove E s tfib conn_id) tfib conn_id None)))"

text \<open>A timer that fires is not pending any more; the callback reads its arguments. \<open>None\<close> when the timer cannot fire.\<close>

definition mapme_setFacePendingCallback ::
  "('d, 't, 'l, 'i, 'p, 'o, 'h) mm_ops \<Rightarrow> ticks \<Rightarrow> ('d, 't, 'l, 'i, 'p, 'o, 'h) MapMe \<Rightarrow> setFacePendingArgs \<Rightarrow>
     ('d, 't, 'l, 'i, 'p, 'o, 'h) MapMe res" where
  "mapme_setFacePendingCallback E now s args =
     bind_res (mapme_setFacePending E now s (arg_name args) (arg_fibEntry args) (arg_conn_id args) (arg_send args)
                 (arg_is_producer args) False (arg_num_retx args)) (\<lambda>(_, s). Inr s)"

definition timer_fires ::
  "('d, 't, 'l, 'i, 'p, 'o, 'h) mm_ops \<Rightarrow> ticks \<Rightarrow> ('d, 't, 'l, 'i, 'p, 'o, 'h) MapMe \<Rightarrow> nat \<Rightarrow>
     ('d, 't, 'l, 'i, 'p, 'o, 'h) MapMe res option" where
  "timer_fires E now s t =
     (case mm_timers s t of
        None \<Rightarrow> None
      | Some tm \<Rightarrow>
          if tm_pending tm
          then Some (mapme_setFacePendingCallback E now (s\<lparr>mm_timers := (mm_timers s)(t \<mapsto> tm\<lparr>tm_pending := False\<rparr>)\<rparr>) (tm_args tm))
          else None)"

section \<open>Events\<close>

fun local_loop :: "('i, 'p, 'o) ct_ops \<Rightarrow> ('i, 'p, 'o) ConnectionTable \<Rightarrow> NumberSet \<Rightarrow> nat list \<Rightarrow> bool res" where
  "local_loop C table nhs [] = Inr False"
| "local_loop C table nhs (j # js) =
     bind_res (numberSet_GetItem nhs j) (\<lambda>conn_id.
     case ct_lookup C table conn_id of
       None \<Rightarrow> Inl AssertFailed
     | Some conn \<Rightarrow> if connection_IsLocal conn then Inr True else local_loop C table nhs js)"

definition mapme_hasLocalNextHops ::
  "('d, 't, 'l, 'i, 'p, 'o, 'h) mm_ops \<Rightarrow> ('d, 't, 'l, 'i, 'p, 'o, 'h) MapMe \<Rightarrow> nat \<Rightarrow> bool res" where
  "mapme_hasLocalNextHops E s fibEntry =
     local_loop (mo_ct E) (mm_table s) (fibEntry_GetNexthops (mm_entry s fibEntry)) [0..<fibEntry_NexthopCount (mm_entry s fibEntry)]"

text \<open>The tags of the connection are read for a log message, so it has to be in the table.\<close>

definition mapme_send_updates ::
  "('d, 't, 'l, 'i, 'p, 'o, 'h) mm_ops \<Rightarrow> ticks \<Rightarrow> ('d, 't, 'l, 'i, 'p, 'o, 'h) MapMe \<Rightarrow> nat \<Rightarrow> NumberSet \<Rightarrow>
     ('d, 't, 'l, 'i, 'p, 'o, 'h) MapMe res" where
  "mapme_send_updates E now s fibEntry nhs =
     (let s = (if TFIB s fibEntry = None then mapme_CreateTFIB E s fibEntry else s);
          s = tfib_update (\<lambda>t. t\<lparr>tfib_seq := tfib_seq t + 1\<rparr>) s (the (TFIB s fibEntry));
          name = fibEntry_GetPrefix (mm_entry s fibEntry)
      in bind_res (ns_for nhs (\<lambda>(clear_tfib, s) nexthop_id.
           case ct_lookup (mo_ct E) (mm_table s) nexthop_id of
             None \<Rightarrow> Inl NullDereference
           | Some conn \<Rightarrow>
               bind_res (mapme_setFacePending E now s name fibEntry nexthop_id True True clear_tfib 0) (\<lambda>(_, s).
               Inr (False, s))) (True, s)) (\<lambda>(_, s). Inr s))"

definition mapme_maybe_send_updates ::
  "('d, 't, 'l, 'i, 'p, 'o, 'h) mm_ops \<Rightarrow> ticks \<Rightarrow> ('d, 't, 'l, 'i, 'p, 'o, 'h) MapMe \<Rightarrow> nat \<Rightarrow> NumberSet \<Rightarrow>
     ('d, 't, 'l, 'i, 'p, 'o, 'h) MapMe res" where
  "mapme_maybe_send_updates E now s fibEntry nhs =
     (if numberSet_Equals (Some nhs) (fibEntry_GetPreviousNextHops (mm_entry s fibEntry)) then Inr s
      else mapme_send_updates E now (mm_put_entry s fibEntry (fibEntry_SetPreviousNextHops (mm_entry s fibEntry) nhs)) fibEntry nhs)"

definition mapme_reconsiderFibEntry ::
  "('d, 't, 'l, 'i, 'p, 'o, 'h) mm_ops \<Rightarrow> ticks \<Rightarrow> ('d, 't, 'l, 'i, 'p, 'o, 'h) MapMe \<Rightarrow> nat \<Rightarrow>
     ('d, 't, 'l, 'i, 'p, 'o, 'h) MapMe res" where
  "mapme_reconsiderFibEntry E now s fibEntry =
     bind_res (mapme_hasLocalNextHops E s fibEntry) (\<lambda>has_local.
     if \<not> has_local then Inr s
     else bind_res (fibEntry_GetAvailableNextHops (mo_ct E) (mm_table s) (mm_entry s fibEntry) (- 1)) (\<lambda>available_nexthops.
          mapme_send_updates E now s fibEntry available_nexthops))"

text \<open>The events differ in what is logged only.\<close>

definition mapme_onConnectionEvent ::
  "('d, 't, 'l, 'i, 'p, 'o, 'h) mm_ops \<Rightarrow> ticks \<Rightarrow> ('d, 't, 'l, 'i, 'p, 'o, 'h) MapMe \<Rightarrow> Connection option \<Rightarrow>
     ('d, 't, 'l, 'i, 'p, 'o, 'h) MapMe res" where
  "mapme_onConnectionEvent E now s conn_added =
     (if (case conn_added of Some conn \<Rightarrow> connection_IsLocal conn | None \<Rightarrow> False) then Inr s
      else fold_res (mapme_reconsiderFibEntry E now) s (messageProcessor_GetFibEntries (mm_fib s)))"

section \<open>Special interests\<close>

text \<open>An update that is newer than the entry: (1) the retransmissions of older updates end, (2) the ingress becomes the only next hop, (3) the others are told.\<close>

definition newer_update ::
  "('d, 't, 'l, 'i, 'p, 'o, 'h) mm_ops \<Rightarrow> ticks \<Rightarrow> ('d, 't, 'l, 'i, 'p, 'o, 'h) MapMe \<Rightarrow> nat \<Rightarrow> nat \<Rightarrow> connid \<Rightarrow> mapme_params \<Rightarrow>
     ('d, 't, 'l, 'i, 'p, 'o, 'h) MapMe res" where
  "newer_update E now s fibEntry tfib conn_in_id params =
     (let send = (mp_type params = UPDATE);
          s = tfib_update (\<lambda>t. t\<lparr>tfib_seq := mp_seq params\<rparr>) s tfib
      in bind_res (if mp_type params = UPDATE
                   then fold_res (\<lambda>s conn_id.
                          bind_res (mapme_setFacePending E now s (fibEntry_GetPrefix (mm_entry s fibEntry)) fibEntry conn_id False False False 0)
                            (\<lambda>(_, s). Inr s)) s (mapmeTFIB_CreateKeyIterator E s tfib)
                   else Inr s) (\<lambda>s.
         let nhs = numberSet_AddSet numberSet_Create (fibEntry_GetNexthops (mm_entry s fibEntry));
             s = mapmeTFIB_Remove E s tfib conn_in_id
         in bind_res (ns_for nhs (\<lambda>s conn_id.
              Inr (mm_put_entry s fibEntry (fibEntry_RemoveNexthopByConnectionId (mo_st E) (mm_entry s fibEntry) conn_id))) s) (\<lambda>s.
            let s = mm_put_entry s fibEntry (fibEntry_AddNexthop (mo_st E) (mm_entry s fibEntry) conn_in_id) in
            ns_for nhs (\<lambda>s conn_id.
              if conn_id = conn_in_id then Inr s
              else bind_res (mapme_setFacePending E now s (fibEntry_GetPrefix (mm_entry s fibEntry)) fibEntry conn_id send False False 0)
                     (\<lambda>(_, s). Inr s)) s)))"

text \<open>The acknowledgement of a special interest, sent at once to where it came from.\<close>

definition send_ack ::
  "('d, 't, 'l, 'i, 'p, 'o, 'h) mm_ops \<Rightarrow> ('d, 't, 'l, 'i, 'p, 'o, 'h) MapMe \<Rightarrow> Message \<Rightarrow> connid \<Rightarrow>
     (bool \<times> ('d, 't, 'l, 'i, 'p, 'o, 'h) MapMe) res" where
  "send_ack E s ack conn_in_id =
     (case ct_lookup (mo_ct E) (mm_table s) conn_in_id of
        None \<Rightarrow> Inl AssertFailed
      | Some conn_in \<Rightarrow>
          (let (w, r) = w_alloc (mm_world s) ack in
           bind_res (connection_ReSend conn_in w r False) (\<lambda>(w, rv).
           bind_res (w_Release w r) (\<lambda>w. Inr (rv, s\<lparr>mm_world := w\<rparr>)))))"

text \<open>The name in a MAP-Me packet, cut to the length of the prefix.\<close>

definition packet_prefix :: "hash_fun \<Rightarrow> bytes \<Rightarrow> MessagePacketType \<Rightarrow> hicn_prefix \<Rightarrow> Name res" where
  "packet_prefix H msgBuffer type pfx =
     (case name_CreateFromPacket H msgBuffer type of
        None \<Rightarrow> Inl NullDereference
      | Some name \<Rightarrow> name_setLen H name (hp_len pfx))"

text \<open>What a special interest does to the entry of its name.\<close>

definition update_entry ::
  "('d, 't, 'l, 'i, 'p, 'o, 'h) mm_ops \<Rightarrow> ticks \<Rightarrow> ('d, 't, 'l, 'i, 'p, 'o, 'h) MapMe \<Rightarrow> nat \<Rightarrow> connid \<Rightarrow> mapme_params \<Rightarrow>
     ('d, 't, 'l, 'i, 'p, 'o, 'h) MapMe res" where
  "update_entry E now s fibEntry conn_in_id params =
     (let seq = mp_seq params; send = (mp_type params = UPDATE);
          s = (if TFIB s fibEntry = None then mapme_CreateTFIB E s fibEntry else s);
          tfib = the (TFIB s fibEntry)
      in bind_res (mapme_hasLocalNextHops E s fibEntry) (\<lambda>has_local.
         if has_local then Inr s
         else
           (let fibSeq = tfib_seq (mm_tfibs s tfib) in
            if seq > fibSeq then newer_update E now s fibEntry tfib conn_in_id params
            else if seq = fibSeq
            then Inr (mm_put_entry s fibEntry (fibEntry_AddNexthop (mo_st E) (mm_entry s fibEntry) conn_in_id))
            else bind_res (mapme_setFacePending E now s (fibEntry_GetPrefix (mm_entry s fibEntry)) fibEntry conn_in_id send False False 0)
                   (\<lambda>(_, s). Inr s))))"

definition mapme_onSpecialInterest ::
  "('d, 't, 'l, 'i, 'p, 'o, 'h) mm_ops \<Rightarrow> ticks \<Rightarrow> ('d, 't, 'l, 'i, 'p, 'o, 'h) MapMe \<Rightarrow> bytes \<Rightarrow> connid \<Rightarrow> hicn_prefix \<Rightarrow> mapme_params \<Rightarrow>
     (bool \<times> ('d, 't, 'l, 'i, 'p, 'o, 'h) MapMe) res" where
  "mapme_onSpecialInterest E now s msgBuffer conn_in_id pfx params =
     bind_res (packet_prefix (mo_hash E) msgBuffer MessagePacketType_Interest pfx) (\<lambda>name.
     case mapme_createAckMessage E now msgBuffer params of
       None \<Rightarrow> Inr (False, s)
     | Some ack \<Rightarrow>
         bind_res (send_ack E s ack conn_in_id) (\<lambda>(rv, s).
         if \<not> rv then Inr (False, s)
         else
           bind_res (fib_ContainsName (mm_fib s) name) (\<lambda>entry.
           case entry of
             None \<Rightarrow> Inr (False, s)
           | Some fibEntry \<Rightarrow> bind_res (update_entry E now s fibEntry conn_in_id params) (\<lambda>s. Inr (True, s)))))"

text \<open>The sequence number of the TFIB is read before the test that there is a TFIB.\<close>

definition mapme_onSpecialInterestAck ::
  "('d, 't, 'l, 'i, 'p, 'o, 'h) mm_ops \<Rightarrow> ticks \<Rightarrow> ('d, 't, 'l, 'i, 'p, 'o, 'h) MapMe \<Rightarrow> bytes \<Rightarrow> connid \<Rightarrow> hicn_prefix \<Rightarrow> mapme_params \<Rightarrow>
     ('d, 't, 'l, 'i, 'p, 'o, 'h) MapMe res" where
  "mapme_onSpecialInterestAck E now s msgBuffer conn_in_id pfx params =
     bind_res (packet_prefix (mo_hash E) msgBuffer MessagePacketType_ContentObject pfx) (\<lambda>name.
     bind_res (fib_ContainsName (mm_fib s) name) (\<lambda>entry.
     case entry of
       None \<Rightarrow> Inr s
     | Some fibEntry \<Rightarrow>
         bind_res (if mp_seq params \<noteq> INVALID_SEQ
                   then (case TFIB s fibEntry of
                           None \<Rightarrow> Inl NullDereference
                         | Some tfib \<Rightarrow> Inr (mp_seq params < tfib_seq (mm_tfibs s tfib)))
                   else Inr False) (\<lambda>outdated.
         if outdated then Inr s
         else case TFIB s fibEntry of
                None \<Rightarrow> Inr s
              | Some tfib \<Rightarrow>
                  (case mapmeTFIB_Get E s tfib conn_in_id of
                     None \<Rightarrow> Inr s
                   | Some timer \<Rightarrow>
                       (let s = mapmeTFIB_Remove E s tfib conn_in_id in
                        Inr (if mp_type params = UPDATE_ACK then tfib_update (\<lambda>t. t\<lparr>lastAckedUpdate := now\<rparr>) s tfib else s))))))"

text \<open>When the version is neither 4 nor 6, the parameters are those on the stack, an argument here.\<close>

definition mapme_Process ::
  "('d, 't, 'l, 'i, 'p, 'o, 'h) mm_ops \<Rightarrow> ticks \<Rightarrow> mapme_params \<Rightarrow> ('d, 't, 'l, 'i, 'p, 'o, 'h) MapMe \<Rightarrow> bytes \<Rightarrow> connid \<Rightarrow>
     ('d, 't, 'l, 'i, 'p, 'o, 'h) MapMe res" where
  "mapme_Process E now stack s msgBuffer conn_id =
     (let (_, pfx, params) = hicn_mapme_parse_packet msgBuffer (mo_hicn_prefix E) stack in
      if mp_type params = UPDATE \<or> mp_type params = NOTIFICATION
      then bind_res (mapme_onSpecialInterest E now s msgBuffer conn_id pfx params) (\<lambda>(_, s). Inr s)
      else if mp_type params = UPDATE_ACK \<or> mp_type params = NOTIFICATION_ACK
      then mapme_onSpecialInterestAck E now s msgBuffer conn_id pfx params
      else Inr s)"

end
