(* ===== verification/MapmeTimers.thy ===== *)
theory MapmeTimers
  imports Mapme
begin

text \<open>
  The retransmission timers of MAP-Me. The TFIBs of a node are viewed as slots: for an entry and a connection, nothing,
  or the connection with or without a timer. The invariant \<open>mm_inv\<close> says that slots and timers correspond to
  each other; every operation keeps it, so it holds along the runs of the step relation \<open>mm_step\<close>.
  \<open>retx_left\<close> is the number of transmissions the pending timers can still cause; it decreases whenever a
  timer fires. The closed forms of \<open>send_special_interest\<close>, \<open>send_ack\<close> and \<open>mapme_setFacePending\<close>
  are what the theory \<open>MapmeUpdates\<close> builds on.
\<close>

section \<open>Slots and timers\<close>

text \<open>What the TFIBs have for an entry and a connection: nothing, or the connection with or without a timer.\<close>

type_synonym slots = "nat \<times> connid \<Rightarrow> nat option option"

definition slots :: "('d, 't, 'l, 'i, 'p, 'o, 'h) mm_ops \<Rightarrow> ('d, 't, 'l, 'i, 'p, 'o, 'h) MapMe \<Rightarrow> slots" where
  "slots E s k = (case TFIB s (fst k) of None \<Rightarrow> None | Some r \<Rightarrow> hm_Get (mo_hm E) (tfib_nexthops (mm_tfibs s r)) (snd k))"

definition seq_of :: "('d, 't, 'l, 'i, 'p, 'o, 'h) MapMe \<Rightarrow> nat \<Rightarrow> u32 option" where
  "seq_of s e = (case TFIB s e of None \<Rightarrow> None | Some r \<Rightarrow> Some (tfib_seq (mm_tfibs s r)))"

definition owner :: "timer \<Rightarrow> nat \<times> connid" where
  "owner tm = (arg_fibEntry (tm_args tm), arg_conn_id (tm_args tm))"

text \<open>A slot has a timer exactly when the timer exists and was made for this slot; timers are for the retransmissions one to three.\<close>

definition timers_ok :: "slots \<Rightarrow> (nat \<Rightarrow> timer option) \<Rightarrow> nat \<Rightarrow> bool" where
  "timers_ok sl tms n \<longleftrightarrow> (\<forall>t k. sl k = Some (Some t) \<longrightarrow> (\<exists>tm. tms t = Some tm \<and> owner tm = k)) \<and>
     (\<forall>t tm. tms t = Some tm \<longrightarrow> sl (owner tm) = Some (Some t) \<and> t < n \<and> arg_num_retx (tm_args tm) \<in> {1, 2, 3})"

lemma timers_okI:
  assumes "\<And>t k. sl k = Some (Some t) \<Longrightarrow> \<exists>tm. tms t = Some tm \<and> owner tm = k"
    and "\<And>t tm. tms t = Some tm \<Longrightarrow> sl (owner tm) = Some (Some t) \<and> t < n \<and> arg_num_retx (tm_args tm) \<in> {1, 2, 3}"
  shows "timers_ok sl tms n"
  using assms unfolding timers_ok_def by blast

lemma timers_okD:
  assumes "timers_ok sl tms n"
  shows "sl k = Some (Some t) \<Longrightarrow> \<exists>tm. tms t = Some tm \<and> owner tm = k"
    "tms t = Some tm \<Longrightarrow> sl (owner tm) = Some (Some t)" "tms t = Some tm \<Longrightarrow> t < n" "tms t = Some tm \<Longrightarrow> arg_num_retx (tm_args tm) \<in> {1, 2, 3}"
  using assms unfolding timers_ok_def by blast+

lemma timers_ok_unique: "timers_ok sl tms n \<Longrightarrow> sl k = Some (Some t) \<Longrightarrow> sl k' = Some (Some t) \<Longrightarrow> k' = k"
  using timers_okD(1)[of sl tms n k t] timers_okD(1)[of sl tms n k' t] by auto

definition drop_timer :: "nat option option \<Rightarrow> (nat \<Rightarrow> timer option) \<Rightarrow> nat \<Rightarrow> timer option" where
  "drop_timer x tms = (case x of Some (Some t) \<Rightarrow> tms(t := None) | _ \<Rightarrow> tms)"

lemma drop_timer_simps [simp]: "drop_timer None tms = tms" "drop_timer (Some None) tms = tms" "drop_timer (Some (Some t)) tms = tms(t := None)"
  by (simp_all add: drop_timer_def)

lemma drop_timer_Some: "drop_timer x tms t = Some tm \<longleftrightarrow> tms t = Some tm \<and> x \<noteq> Some (Some t)"
  by (auto simp: drop_timer_def split: option.splits)

lemma timers_ok_drop:
  assumes "timers_ok sl tms n" "x = None \<or> x = Some None"
  shows "timers_ok (sl(k := x)) (drop_timer (sl k) tms) n"
proof (rule timers_okI)
  fix t k' assume "(sl(k := x)) k' = Some (Some t)"
  then have "k' \<noteq> k" "sl k' = Some (Some t)" using assms(2) by (auto split: if_splits)
  then show "\<exists>tm. drop_timer (sl k) tms t = Some tm \<and> owner tm = k'"
    using timers_okD(1)[OF assms(1)] timers_ok_unique[OF assms(1)] by (simp add: drop_timer_Some) blast
next
  fix t tm assume "drop_timer (sl k) tms t = Some tm"
  then have "tms t = Some tm" "sl k \<noteq> Some (Some t)" by (simp_all add: drop_timer_Some)
  then show "(sl(k := x)) (owner tm) = Some (Some t) \<and> t < n \<and> arg_num_retx (tm_args tm) \<in> {1, 2, 3}"
    using timers_okD(2,3,4)[OF assms(1)] by auto
qed

lemma timers_ok_new:
  assumes "timers_ok sl tms n" "owner tm = k" "arg_num_retx (tm_args tm) \<in> {1, 2, 3}"
  shows "timers_ok (sl(k := Some (Some n))) ((drop_timer (sl k) tms)(n \<mapsto> tm)) (Suc n)"
proof (rule timers_okI)
  fix t k' assume t: "(sl(k := Some (Some n))) k' = Some (Some t)"
  show "\<exists>tm'. ((drop_timer (sl k) tms)(n \<mapsto> tm)) t = Some tm' \<and> owner tm' = k'"
  proof (cases "k' = k")
    case False
    then have "sl k' = Some (Some t)" using t by simp
    moreover from this have "t \<noteq> n" using timers_okD(1,3)[OF assms(1)] by blast
    ultimately show ?thesis
      using timers_okD(1)[OF assms(1)] timers_ok_unique[OF assms(1)] False by (simp add: drop_timer_Some) blast
  qed (use t assms(2) in simp)
next
  fix t tm' assume t: "((drop_timer (sl k) tms)(n \<mapsto> tm)) t = Some tm'"
  show "(sl(k := Some (Some n))) (owner tm') = Some (Some t) \<and> t < Suc n \<and> arg_num_retx (tm_args tm') \<in> {1, 2, 3}"
  proof (cases "t = n")
    case False
    then have "tms t = Some tm'" "sl k \<noteq> Some (Some t)" using t by (simp_all add: drop_timer_Some)
    then show ?thesis using timers_okD(2,3,4)[OF assms(1)] by (auto simp: less_Suc_eq)
  qed (use t assms in simp)
qed

lemma timers_ok_weaken: "timers_ok sl tms n \<Longrightarrow> timers_ok sl tms (Suc n)"
  using timers_okD by (intro timers_okI) (auto simp: less_Suc_eq)

text \<open>Firing changes no owner.\<close>

lemma timers_ok_fired:
  assumes "timers_ok sl tms n" "tms t = Some tm"
  shows "timers_ok sl (tms(t \<mapsto> tm\<lparr>tm_pending := b\<rparr>)) n"
proof (rule timers_okI)
  fix t' k assume "sl k = Some (Some t')"
  then show "\<exists>tm'. (tms(t \<mapsto> tm\<lparr>tm_pending := b\<rparr>)) t' = Some tm' \<and> owner tm' = k"
    using timers_okD(1)[OF assms(1), of k t'] assms(2) by (auto simp: owner_def)
next
  fix t' tm' assume "(tms(t \<mapsto> tm\<lparr>tm_pending := b\<rparr>)) t' = Some tm'"
  then show "sl (owner tm') = Some (Some t') \<and> t' < n \<and> arg_num_retx (tm_args tm') \<in> {1, 2, 3}"
    using timers_okD(2,3,4)[OF assms(1)] assms(2) by (cases "t' = t") (fastforce simp: owner_def)+
qed

text \<open>Every entry has a TFIB of its own.\<close>

definition refs_ok :: "('d, 't, 'l, 'i, 'p, 'o, 'h) MapMe \<Rightarrow> bool" where
  "refs_ok s \<longleftrightarrow> (\<forall>e r. TFIB s e = Some r \<longrightarrow> r < mm_next s) \<and> (\<forall>e e' r. TFIB s e = Some r \<longrightarrow> TFIB s e' = Some r \<longrightarrow> e = e')"

definition mm_inv :: "('d, 't, 'l, 'i, 'p, 'o, 'h) mm_ops \<Rightarrow> ('d, 't, 'l, 'i, 'p, 'o, 'h) MapMe \<Rightarrow> bool" where
  "mm_inv E s \<longleftrightarrow> refs_ok s \<and> timers_ok (slots E s) (mm_timers s) (mm_next_timer s)"

text \<open>The two primitive operations change one slot and nothing else of the slots.\<close>

lemma Remove_fields [simp]:
  "mm_fib (mapmeTFIB_Remove E s r c) = mm_fib s" "mm_table (mapmeTFIB_Remove E s r c) = mm_table s"
  "mm_world (mapmeTFIB_Remove E s r c) = mm_world s" "mm_next (mapmeTFIB_Remove E s r c) = mm_next s"
  "mm_next_timer (mapmeTFIB_Remove E s r c) = mm_next_timer s" "TFIB (mapmeTFIB_Remove E s r c) = TFIB s"
  "mm_entry (mapmeTFIB_Remove E s r c) = mm_entry s"
  by (auto simp: mapmeTFIB_Remove_def tfib_update_def TFIB_def mm_entry_def fun_eq_iff split: option.splits)

lemma Put_fields [simp]:
  "mm_fib (mapmeTFIB_Put E s r c t) = mm_fib s" "mm_table (mapmeTFIB_Put E s r c t) = mm_table s"
  "mm_world (mapmeTFIB_Put E s r c t) = mm_world s" "mm_next (mapmeTFIB_Put E s r c t) = mm_next s"
  "mm_next_timer (mapmeTFIB_Put E s r c t) = mm_next_timer s" "TFIB (mapmeTFIB_Put E s r c t) = TFIB s"
  "mm_entry (mapmeTFIB_Put E s r c t) = mm_entry s" "mm_timers (mapmeTFIB_Put E s r c t) = mm_timers s"
  by (auto simp: mapmeTFIB_Put_def tfib_update_def TFIB_def mm_entry_def fun_eq_iff)

lemma seq_of_slots [simp]:
  "seq_of (mapmeTFIB_Remove E s r c) = seq_of s" "seq_of (mapmeTFIB_Put E s r c t) = seq_of s"
  by (auto simp: seq_of_def fun_eq_iff split: option.splits)
    (auto simp: mapmeTFIB_Remove_def mapmeTFIB_Put_def tfib_update_def split: option.splits)

lemma refs_ok_slots [simp]: "refs_ok (mapmeTFIB_Remove E s r c) = refs_ok s" "refs_ok (mapmeTFIB_Put E s r c t) = refs_ok s"
  by (simp_all add: refs_ok_def)

lemma Get_slot: "TFIB s e = Some r \<Longrightarrow> mapmeTFIB_Get E s r c = (case slots E s (e, c) of None \<Rightarrow> None | Some t \<Rightarrow> t)"
  by (simp add: mapmeTFIB_Get_def slots_def)

lemma other_ref: "refs_ok s \<Longrightarrow> TFIB s e = Some r \<Longrightarrow> TFIB s e' = Some r' \<Longrightarrow> e' \<noteq> e \<Longrightarrow> r' \<noteq> r"
  unfolding refs_ok_def by blast

lemma Remove_slots:
  assumes "hm_laws (mo_hm E)" "refs_ok s" "TFIB s e = Some r"
  shows "slots E (mapmeTFIB_Remove E s r c) = (slots E s)((e, c) := None)"
    "mm_timers (mapmeTFIB_Remove E s r c) = drop_timer (slots E s (e, c)) (mm_timers s)"
proof -
  have t: "mm_tfibs (mapmeTFIB_Remove E s r c) = (mm_tfibs s)(r := (mm_tfibs s r)\<lparr>tfib_nexthops := hm_Remove (mo_hm E) (tfib_nexthops (mm_tfibs s r)) c\<rparr>)"
    by (simp add: mapmeTFIB_Remove_def tfib_update_def split: option.splits)
  show "slots E (mapmeTFIB_Remove E s r c) = (slots E s)((e, c) := None)"
    using hm_lawsD(3)[OF assms(1)] assms(3)
    by (auto simp: slots_def t fun_eq_iff split: option.splits dest: other_ref[OF assms(2,3)])
  show "mm_timers (mapmeTFIB_Remove E s r c) = drop_timer (slots E s (e, c)) (mm_timers s)"
    by (auto simp: mapmeTFIB_Remove_def Get_slot[OF assms(3)] tfib_update_def drop_timer_def split: option.splits)
qed

lemma Put_slots:
  assumes "hm_laws (mo_hm E)" "refs_ok s" "TFIB s e = Some r"
  shows "slots E (mapmeTFIB_Put E s r c t) = (slots E s)((e, c) \<mapsto> t)"
proof -
  have t: "mm_tfibs (mapmeTFIB_Put E s r c t) = (mm_tfibs s)(r := (mm_tfibs s r)\<lparr>tfib_nexthops := hm_Put (mo_hm E) (tfib_nexthops (mm_tfibs s r)) c t\<rparr>)"
    by (simp add: mapmeTFIB_Put_def tfib_update_def)
  show ?thesis using hm_lawsD(2)[OF assms(1)] assms(3)
    by (auto simp: slots_def t fun_eq_iff split: option.splits dest: other_ref[OF assms(2,3)])
qed

text \<open>Replacing what a slot has.\<close>

definition mark_slot ::
  "('d, 't, 'l, 'i, 'p, 'o, 'h) mm_ops \<Rightarrow> ('d, 't, 'l, 'i, 'p, 'o, 'h) MapMe \<Rightarrow> nat \<Rightarrow> connid \<Rightarrow> nat option \<Rightarrow> ('d, 't, 'l, 'i, 'p, 'o, 'h) MapMe" where
  "mark_slot E s r c t = mapmeTFIB_Put E (mapmeTFIB_Remove E s r c) r c t"

lemma mark_slot_slots:
  assumes "hm_laws (mo_hm E)" "refs_ok s" "TFIB s e = Some r"
  shows "slots E (mark_slot E s r c t) = (slots E s)((e, c) \<mapsto> t)"
    "mm_timers (mark_slot E s r c t) = drop_timer (slots E s (e, c)) (mm_timers s)"
  using Remove_slots[OF assms, of c] Put_slots[OF assms(1), of "mapmeTFIB_Remove E s r c" e r c t] assms(2,3)
  by (simp_all add: mark_slot_def)

lemma mark_slot_fields [simp]:
  "mm_fib (mark_slot E s r c t) = mm_fib s" "mm_table (mark_slot E s r c t) = mm_table s"
  "mm_world (mark_slot E s r c t) = mm_world s" "mm_next (mark_slot E s r c t) = mm_next s"
  "mm_next_timer (mark_slot E s r c t) = mm_next_timer s" "TFIB (mark_slot E s r c t) = TFIB s"
  "mm_entry (mark_slot E s r c t) = mm_entry s" "seq_of (mark_slot E s r c t) = seq_of s" "refs_ok (mark_slot E s r c t) = refs_ok s"
  by (simp_all add: mark_slot_def)

lemma Remove_inv:
  assumes "hm_laws (mo_hm E)" "mm_inv E s" "TFIB s e = Some r"
  shows "mm_inv E (mapmeTFIB_Remove E s r c)"
  using assms Remove_slots[OF assms(1) _ assms(3), of c] timers_ok_drop by (simp add: mm_inv_def)

lemma mark_slot_inv:
  assumes "hm_laws (mo_hm E)" "mm_inv E s" "TFIB s e = Some r"
  shows "mm_inv E (mark_slot E s r c None)"
  using assms mark_slot_slots[OF assms(1) _ assms(3), of c] timers_ok_drop by (simp add: mm_inv_def)

section \<open>Transmission\<close>

text \<open>What an operation of this theory leaves alone: the routes, the connections, and the sequence numbers.\<close>

definition keeps :: "('d, 't, 'l, 'i, 'p, 'o, 'h) MapMe \<Rightarrow> ('d, 't, 'l, 'i, 'p, 'o, 'h) MapMe \<Rightarrow> bool" where
  "keeps s s' \<longleftrightarrow> mm_fib s' = mm_fib s \<and> mm_table s' = mm_table s \<and> mm_next s' = mm_next s \<and> seq_of s' = seq_of s"

lemma keeps_refl [simp]: "keeps s s"
  by (simp add: keeps_def)

lemma keeps_trans: "keeps s s' \<Longrightarrow> keeps s' s'' \<Longrightarrow> keeps s s''"
  by (simp add: keeps_def)

lemma keepsD:
  assumes "keeps s s'"
  shows "mm_fib s' = mm_fib s" "mm_table s' = mm_table s" "mm_next s' = mm_next s" "seq_of s' = seq_of s" "TFIB s' = TFIB s" "mm_entry s' = mm_entry s"
    "refs_ok s' = refs_ok s"
  using assms by (auto simp: keeps_def TFIB_def mm_entry_def refs_ok_def fun_eq_iff)

lemma keeps_slots [simp]: "keeps s (mark_slot E s r c t)" "keeps s (mapmeTFIB_Remove E s r c)"
  by (simp_all add: keeps_def)

text \<open>The world after a message was handed to a connection and released: one more sent message if the connection is up.\<close>

definition sent_log :: "('d, 't, 'l, 'i, 'p, 'o, 'h) mm_ops \<Rightarrow> ('d, 't, 'l, 'i, 'p, 'o, 'h) MapMe \<Rightarrow> connid \<Rightarrow> Message \<Rightarrow> (connid \<times> Message) list" where
  "sent_log E s c m =
     (case ct_lookup (mo_ct E) (mm_table s) c of
        None \<Rightarrow> [] | Some conn \<Rightarrow> if connection_IsUp conn then [(io_connectionId (ops conn), m)] else [])"

definition after_sending ::
  "('d, 't, 'l, 'i, 'p, 'o, 'h) mm_ops \<Rightarrow> ('d, 't, 'l, 'i, 'p, 'o, 'h) MapMe \<Rightarrow> connid \<Rightarrow> Message \<Rightarrow> ('d, 't, 'l, 'i, 'p, 'o, 'h) MapMe" where
  "after_sending E s c m =
     s\<lparr>mm_world := (mm_world s)\<lparr>w_msgs := (w_msgs (mm_world s))(w_next (mm_world s) := None), w_next := w_next (mm_world s) + 1,
         w_sent := w_sent (mm_world s) @ sent_log E s c m\<rparr>\<rparr>"

lemma after_sending_fields [simp]:
  "mm_fib (after_sending E s c m) = mm_fib s" "mm_table (after_sending E s c m) = mm_table s" "mm_next (after_sending E s c m) = mm_next s"
  "mm_timers (after_sending E s c m) = mm_timers s" "mm_next_timer (after_sending E s c m) = mm_next_timer s"
  "mm_tfibs (after_sending E s c m) = mm_tfibs s" "TFIB (after_sending E s c m) = TFIB s" "slots E (after_sending E s c m) = slots E s"
  "w_sent (mm_world (after_sending E s c m)) = w_sent (mm_world s) @ sent_log E s c m" "seq_of (after_sending E s c m) = seq_of s"
  "refs_ok (after_sending E s c m) = refs_ok s" "mm_entry (after_sending E s c m) = mm_entry s"
  by (auto simp: after_sending_def TFIB_def mm_entry_def slots_def seq_of_def refs_ok_def fun_eq_iff split: option.splits)

lemma after_sending_inv [simp]: "mm_inv E (after_sending E s c m) = mm_inv E s" "keeps s (after_sending E s c m)"
  by (simp_all add: mm_inv_def keeps_def)

text \<open>Path labels are those of TCP packets, so on other packets their operations do nothing.\<close>

lemma path_label_other:
  assumes "\<not> messageHandler_IsTCP (messageHead m)"
  shows "message_UpdatePathLabel m x = m" "message_SetPathLabel m y = m"
  using assms by (simp_all add: message_UpdatePathLabel_def message_SetPathLabel_def messageHandler_UpdatePathLabel_def messageHandler_SetPathLabel_def)

lemma ReSend_fresh:
  assumes "w_alloc w m = (w', r)" "packetType m = MessagePacketType_ContentObject \<Longrightarrow> \<not> messageHandler_IsTCP (messageHead m)" "msg_refcount m = 1"
  shows "\<exists>w''. connection_ReSend conn w' r False = Inr (w'', connection_IsUp conn \<and> io_send (ops conn) m) \<and>
    w_Release w'' r = Inr (w\<lparr>w_msgs := (w_msgs w)(w_next w := None), w_next := w_next w + 1,
      w_sent := w_sent w @ (if connection_IsUp conn then [(io_connectionId (ops conn), m)] else [])\<rparr>)"
proof -
  have w': "w' = w\<lparr>w_msgs := (w_msgs w)(w_next w \<mapsto> m), w_next := w_next w + 1\<rparr>" "r = w_next w"
    using assms(1) by (auto simp: w_alloc_def)
  show ?thesis
    using assms(2,3) path_label_other[of m]
    by (auto simp: connection_ReSend_def w' deref_def ioOperations_Send_def w_modify_def w_put_def w_Release_def message_Release_def
        message_GetType_def Let_def)
qed

lemma send_special_interest_eq:
  assumes "packetType m = MessagePacketType_Interest" "msg_refcount m = 1"
  shows "send_special_interest E s m c = Inr (after_sending E s c m)"
proof -
  obtain w' r where w': "w_alloc (mm_world s) m = (w', r)" by fastforce
  show ?thesis
  proof (cases "ct_lookup (mo_ct E) (mm_table s) c")
    case None
    have "w' = (mm_world s)\<lparr>w_msgs := (w_msgs (mm_world s))(w_next (mm_world s) \<mapsto> m), w_next := w_next (mm_world s) + 1\<rparr>" "r = w_next (mm_world s)"
      using w' by (auto simp: w_alloc_def)
    then show ?thesis using None assms w'
      by (simp add: send_special_interest_def after_sending_def sent_log_def w_Release_def deref_def message_Release_def)
  next
    case (Some conn)
    from ReSend_fresh[OF w' _ assms(2), of conn] obtain w'' where
      "connection_ReSend conn w' r False = Inr (w'', connection_IsUp conn \<and> io_send (ops conn) m)"
      "w_Release w'' r = Inr ((mm_world s)\<lparr>w_msgs := (w_msgs (mm_world s))(w_next (mm_world s) := None), w_next := w_next (mm_world s) + 1,
        w_sent := w_sent (mm_world s) @ (if connection_IsUp conn then [(io_connectionId (ops conn), m)] else [])\<rparr>)"
      using assms(1) by auto
    then show ?thesis using Some w' by (simp add: send_special_interest_def after_sending_def sent_log_def)
  qed
qed

lemma send_ack_eq:
  assumes "packetType m = MessagePacketType_ContentObject" "\<not> messageHandler_IsTCP (messageHead m)" "msg_refcount m = 1"
    and "ct_lookup (mo_ct E) (mm_table s) c = Some conn"
  shows "send_ack E s m c = Inr (connection_IsUp conn \<and> io_send (ops conn) m, after_sending E s c m)"
proof -
  obtain w' r where w': "w_alloc (mm_world s) m = (w', r)" by fastforce
  from ReSend_fresh[OF w' assms(2,3), of conn] obtain w'' where
    "connection_ReSend conn w' r False = Inr (w'', connection_IsUp conn \<and> io_send (ops conn) m)"
    "w_Release w'' r = Inr ((mm_world s)\<lparr>w_msgs := (w_msgs (mm_world s))(w_next (mm_world s) := None), w_next := w_next (mm_world s) + 1,
        w_sent := w_sent (mm_world s) @ (if connection_IsUp conn then [(io_connectionId (ops conn), m)] else [])\<rparr>)" by blast
  then show ?thesis using assms(4) w' by (simp add: send_ack_def after_sending_def sent_log_def)
qed

text \<open>The update for a name and a sequence number.\<close>

definition name_prefix :: "('d, 't, 'l, 'i, 'p, 'o, 'h) mm_ops \<Rightarrow> NameBitvector \<Rightarrow> hicn_prefix" where
  "name_prefix E bv = snd (hicn_prefix_create_from_ip_prefix (to_ip_prefix (nameBitvector_ToIPAddress bv) (mo_ip_prefix E)) (mo_hicn_prefix E))"

definition update_message :: "('d, 't, 'l, 'i, 'p, 'o, 'h) mm_ops \<Rightarrow> ticks \<Rightarrow> NameBitvector \<Rightarrow> u32 \<Rightarrow> Message" where
  "update_message E now bv seq = message_CreateFromByteArray (mo_hash E) NO_INGRESS
     (put (replicate 88 0) 0 (mapme_v6_header (name_prefix E bv) \<lparr>mp_protocol = IPPROTO_IPV6, mp_type = UPDATE, mp_seq = seq\<rparr>))
     MessagePacketType_Interest now"

lemma createMessage_eq:
  assumes "content_name name = Some bv"
  shows "mapme_createMessage E now name \<lparr>mp_protocol = IPPROTO_IPV6, mp_type = UPDATE, mp_seq = seq\<rparr> = Inr (Some (update_message E now bv seq))"
proof -
  have "fst (hicn_prefix_create_from_ip_prefix (to_ip_prefix (nameBitvector_ToIPAddress bv) (mo_ip_prefix E)) (mo_hicn_prefix E)) = HICN_LIB_ERROR_NONE"
    by (auto simp: hicn_prefix_create_from_ip_prefix_def to_ip_prefix_def AF_INET_def AF_INET6_def split: ip_address.splits)
  then show ?thesis using assms
    by (auto simp: mapme_createMessage_def hicn_prefix_from_name_def name_GetContentName_def update_message_def name_prefix_def Let_def
        hicn_mapme_create_packet_def hicn_mapme_v6_create_packet_def HICN_MAPME_V6_HDRLEN_def split: prod.splits)
qed

lemma update_message_fields [simp]: "packetType (update_message E now bv seq) = MessagePacketType_Interest" "msg_refcount (update_message E now bv seq) = 1"
  by (simp_all add: update_message_def message_CreateFromByteArray_def)

section \<open>Pending faces\<close>

text \<open>\<^verbatim>\<open>clear_tfib\<close> empties the slots of the entry.\<close>

lemma Remove_all:
  assumes "hm_laws (mo_hm E)" "mm_inv E s" "TFIB s e = Some r"
  shows "fold_res (\<lambda>s c. Inr (mapmeTFIB_Remove E s r c)) s cs = Inr s' \<Longrightarrow>
    mm_inv E s' \<and> keeps s s' \<and> mm_world s' = mm_world s \<and> mm_next_timer s' = mm_next_timer s \<and>
    slots E s' = (\<lambda>k. if fst k = e \<and> snd k \<in> set cs then None else slots E s k) \<and> (\<forall>t. mm_timers s' t \<noteq> None \<longrightarrow> mm_timers s' t = mm_timers s t)"
  using assms(2,3)
proof (induction cs arbitrary: s)
  case (Cons c cs)
  let ?s = "mapmeTFIB_Remove E s r c"
  have fold: "fold_res (\<lambda>s c. Inr (mapmeTFIB_Remove E s r c)) ?s cs = Inr s'" using Cons.prems(1) by simp
  have refs: "refs_ok s" using Cons.prems(2) by (simp add: mm_inv_def)
  note R = Remove_slots[OF assms(1) refs Cons.prems(3), of c]
  have IH: "mm_inv E s'" "keeps ?s s'" "mm_world s' = mm_world ?s" "mm_next_timer s' = mm_next_timer ?s"
    "slots E s' = (\<lambda>k. if fst k = e \<and> snd k \<in> set cs then None else slots E ?s k)" "\<And>t. mm_timers s' t \<noteq> None \<Longrightarrow> mm_timers s' t = mm_timers ?s t"
    using Cons.IH[OF fold Remove_inv[OF assms(1) Cons.prems(2,3)]] Cons.prems(3) by simp_all
  have "drop_timer x tms t \<noteq> None \<Longrightarrow> drop_timer x tms t = tms t" for x tms t by (auto simp: drop_timer_def split: option.splits)
  then have "mm_timers s' t \<noteq> None \<Longrightarrow> mm_timers s' t = mm_timers s t" for t using IH(6)[of t] R(2) by simp
  moreover have "slots E s' = (\<lambda>k. if fst k = e \<and> snd k \<in> set (c # cs) then None else slots E s k)" using IH(5) R(1) by (auto simp: fun_eq_iff)
  ultimately show ?case using IH(1,3,4) keeps_trans[OF keeps_slots(2)[of s E r c] IH(2)] by simp
qed auto

lemma Remove_all_total: "\<exists>s'. fold_res (\<lambda>s c. Inr (mapmeTFIB_Remove E s r c)) s cs = Inr s'"
  by (induction cs arbitrary: s) simp_all

lemma numbers_of_keys: "ns_inv (foldl (\<lambda>ns c. fst (numberSet_Add ns c)) numberSet_Create cs) \<and>
  ns_set (foldl (\<lambda>ns c. fst (numberSet_Add ns c)) numberSet_Create cs) = set cs"
proof -
  have "ns_inv s \<Longrightarrow> ns_inv (foldl (\<lambda>ns c. fst (numberSet_Add ns c)) s cs) \<and>
    ns_set (foldl (\<lambda>ns c. fst (numberSet_Add ns c)) s cs) = ns_set s \<union> set cs" for s
    by (induction cs arbitrary: s) (auto simp: Add_abs)
  from this[OF Create_abs(1)] show ?thesis by simp
qed

lemma clear_TFIB_ok:
  assumes "hm_laws (mo_hm E)" "mm_inv E s" "TFIB s e = Some r"
  shows "\<exists>s'. clear_TFIB E s r = Inr s' \<and> mm_inv E s' \<and> keeps s s' \<and> mm_world s' = mm_world s \<and> mm_next_timer s' = mm_next_timer s \<and>
    slots E s' = (\<lambda>k. if fst k = e then None else slots E s k) \<and> (\<forall>t. mm_timers s' t \<noteq> None \<longrightarrow> mm_timers s' t = mm_timers s t)"
proof -
  let ?keys = "hm_Keys (mo_hm E) (tfib_nexthops (mm_tfibs s r))"
  let ?ns = "foldl (\<lambda>ns c. fst (numberSet_Add ns c)) numberSet_Create ?keys"
  have ns: "ns_inv ?ns" "set (ns_items ?ns) = set ?keys" using numbers_of_keys[of ?keys] by (simp_all add: ns_set_def)
  obtain s' where s': "fold_res (\<lambda>s c. Inr (mapmeTFIB_Remove E s r c)) s (ns_items ?ns) = Inr s'" using Remove_all_total by blast
  have "c \<notin> set ?keys \<Longrightarrow> slots E s (e, c) = None" for c using hm_lawsD(6)[OF assms(1)] assms(3) by (simp add: slots_def)
  then have "(\<lambda>k. if fst k = e \<and> snd k \<in> set (ns_items ?ns) then None else slots E s k) = (\<lambda>k. if fst k = e then None else slots E s k)"
    using ns(2) by (auto simp: fun_eq_iff)
  with Remove_all[OF assms s'] s' show ?thesis
    using ns_for_items[OF ns(1), of "\<lambda>s c. Inr (mapmeTFIB_Remove E s r c)" s] by (auto simp: clear_TFIB_def Let_def)
qed

text \<open>The state in which a fresh timer for a slot is scheduled.\<close>

definition with_timer ::
  "('d, 't, 'l, 'i, 'p, 'o, 'h) mm_ops \<Rightarrow> ('d, 't, 'l, 'i, 'p, 'o, 'h) MapMe \<Rightarrow> nat \<Rightarrow> setFacePendingArgs \<Rightarrow> ('d, 't, 'l, 'i, 'p, 'o, 'h) MapMe" where
  "with_timer E s r args =
     mark_slot E (s\<lparr>mm_next_timer := mm_next_timer s + 1, mm_timers := (mm_timers s)(mm_next_timer s \<mapsto> \<lparr>tm_args = args, tm_pending = True\<rparr>)\<rparr>)
       r (arg_conn_id args) (Some (mm_next_timer s))"

lemma timer_update_fields [simp]:
  "TFIB (s\<lparr>mm_next_timer := n, mm_timers := tms\<rparr>) = TFIB s" "slots E (s\<lparr>mm_next_timer := n, mm_timers := tms\<rparr>) = slots E s"
  "seq_of (s\<lparr>mm_next_timer := n, mm_timers := tms\<rparr>) = seq_of s" "refs_ok (s\<lparr>mm_next_timer := n, mm_timers := tms\<rparr>) = refs_ok s"
  "TFIB (s\<lparr>mm_next_timer := n\<rparr>) = TFIB s" "slots E (s\<lparr>mm_next_timer := n\<rparr>) = slots E s"
  "seq_of (s\<lparr>mm_next_timer := n\<rparr>) = seq_of s" "refs_ok (s\<lparr>mm_next_timer := n\<rparr>) = refs_ok s"
  "TFIB (s\<lparr>mm_timers := tms\<rparr>) = TFIB s" "slots E (s\<lparr>mm_timers := tms\<rparr>) = slots E s"
  "seq_of (s\<lparr>mm_timers := tms\<rparr>) = seq_of s" "refs_ok (s\<lparr>mm_timers := tms\<rparr>) = refs_ok s"
  by (auto simp: TFIB_def mm_entry_def slots_def seq_of_def refs_ok_def fun_eq_iff split: option.splits)

lemma with_timer_fields:
  assumes "hm_laws (mo_hm E)" "refs_ok s" "TFIB s (arg_fibEntry args) = Some r" "timers_ok (slots E s) (mm_timers s) (mm_next_timer s)"
  shows "slots E (with_timer E s r args) = (slots E s)((arg_fibEntry args, arg_conn_id args) \<mapsto> Some (mm_next_timer s))"
    "mm_timers (with_timer E s r args) =
       (drop_timer (slots E s (arg_fibEntry args, arg_conn_id args)) (mm_timers s))(mm_next_timer s \<mapsto> \<lparr>tm_args = args, tm_pending = True\<rparr>)"
    "mm_next_timer (with_timer E s r args) = mm_next_timer s + 1" "mm_world (with_timer E s r args) = mm_world s" "keeps s (with_timer E s r args)"
proof -
  let ?k = "(arg_fibEntry args, arg_conn_id args)"
  let ?s = "s\<lparr>mm_next_timer := mm_next_timer s + 1, mm_timers := (mm_timers s)(mm_next_timer s \<mapsto> \<lparr>tm_args = args, tm_pending = True\<rparr>)\<rparr>"
  have "refs_ok ?s" "TFIB ?s (arg_fibEntry args) = Some r" "slots E ?s = slots E s" using assms(2,3) by simp_all
  note M = mark_slot_slots[OF assms(1) this(1,2), of "arg_conn_id args" "Some (mm_next_timer s)", unfolded this(3)]
  show "slots E (with_timer E s r args) = (slots E s)(?k \<mapsto> Some (mm_next_timer s))" using M(1) by (simp add: with_timer_def)
  have "slots E s ?k \<noteq> Some (Some (mm_next_timer s))" using timers_okD(1,3)[OF assms(4)] by blast
  then show "mm_timers (with_timer E s r args) = (drop_timer (slots E s ?k) (mm_timers s))(mm_next_timer s \<mapsto> \<lparr>tm_args = args, tm_pending = True\<rparr>)"
    using M(2) by (auto simp: with_timer_def drop_timer_def fun_eq_iff split: option.splits)
  show "mm_next_timer (with_timer E s r args) = mm_next_timer s + 1" "mm_world (with_timer E s r args) = mm_world s" "keeps s (with_timer E s r args)"
    by (simp_all add: with_timer_def keeps_def)
qed

lemma with_timer_inv:
  assumes "hm_laws (mo_hm E)" "mm_inv E s" "TFIB s (arg_fibEntry args) = Some r" "arg_num_retx args \<in> {1, 2, 3}"
  shows "mm_inv E (with_timer E s r args)"
proof -
  have ok: "refs_ok s" "timers_ok (slots E s) (mm_timers s) (mm_next_timer s)" using assms(2) by (simp_all add: mm_inv_def)
  note W = with_timer_fields[OF assms(1) ok(1) assms(3) ok(2)]
  show ?thesis
    using timers_ok_new[OF ok(2), of "\<lparr>tm_args = args, tm_pending = True\<rparr>" "(arg_fibEntry args, arg_conn_id args)"] assms(4) ok(1) keepsD(7)[OF W(5)]
    by (simp add: mm_inv_def W owner_def)
qed

text \<open>The function in closed form, after the clearing.\<close>

lemma setFacePending_eq:
  assumes "TFIB s e = Some r" "content_name name = Some bv"
  shows "mapme_setFacePending E now s name e c send is_producer False n =
    (let m = update_message E now bv (tfib_seq (mm_tfibs s r));
         s1 = after_sending E s c m;
         args = \<lparr>arg_name = name, arg_fibEntry = e, arg_conn_id = c, arg_send = True, arg_is_producer = is_producer, arg_num_retx = n + 1\<rparr>
     in Inr (if \<not> send then (True, mark_slot E s r c None)
             else if n < MAX_RETX
             then (if mo_timer_ok E (mm_next_timer s) then (True, with_timer E s1 r args) else (False, s1\<lparr>mm_next_timer := mm_next_timer s + 1\<rparr>))
             else (True, mark_slot E s1 r c None)))"
proof (cases send)
  case True
  have "mapme_createMessage E now name \<lparr>mp_protocol = IPPROTO_IPV6, mp_type = (if is_producer then mapme_getTypeFromHeuristic else UPDATE),
      mp_seq = tfib_seq (mm_tfibs s r)\<rparr> = Inr (Some (update_message E now bv (tfib_seq (mm_tfibs s r))))"
    using createMessage_eq[OF assms(2)] by (simp add: mapme_getTypeFromHeuristic_def)
  then show ?thesis using assms(1) True
    by (simp add: mapme_setFacePending_def send_special_interest_eq schedule_retx_def Let_def mark_slot_def with_timer_def)
qed (use assms(1) in \<open>simp add: mapme_setFacePending_def mark_slot_def Let_def\<close>)

lemma setFacePending_clear:
  assumes "TFIB s e = Some r" "clear_TFIB E s r = Inr s1" "TFIB s1 = TFIB s"
  shows "mapme_setFacePending E now s name e c send is_producer True n = mapme_setFacePending E now s1 name e c send is_producer False n"
  using assms by (simp add: mapme_setFacePending_def)

section \<open>Every operation keeps the invariant\<close>

lemma setFacePending_inv:
  assumes "hm_laws (mo_hm E)" "mm_inv E s" "mapme_setFacePending E now s name e c send is_producer clear_tfib n = Inr (b, s')"
  shows "mm_inv E s' \<and> keeps s s'"
proof (cases "TFIB s e")
  case None
  then show ?thesis using assms by (simp add: mapme_setFacePending_def)
next
  case (Some r)
  have once: "mm_inv E s' \<and> keeps s0 s'"
    if s0: "mm_inv E s0" "TFIB s0 e = Some r" "mapme_setFacePending E now s0 name e c send is_producer False n = Inr (b, s')" for s0
  proof (cases "content_name name")
    case None
    then have "\<not> send" using s0(2,3)
      by (auto simp: mapme_setFacePending_def mapme_createMessage_def hicn_prefix_from_name_def name_GetContentName_def)
    then have "s' = mark_slot E s0 r c None" using s0(2,3) by (simp add: mapme_setFacePending_def mark_slot_def)
    then show ?thesis using mark_slot_inv[OF assms(1) s0(1,2)] by simp
  next
    case (Some bv)
    let ?m = "update_message E now bv (tfib_seq (mm_tfibs s0 r))"
    let ?s1 = "after_sending E s0 c ?m"
    let ?args = "\<lparr>arg_name = name, arg_fibEntry = e, arg_conn_id = c, arg_send = True, arg_is_producer = is_producer, arg_num_retx = n + 1\<rparr>"
    have inv1: "mm_inv E ?s1" "TFIB ?s1 e = Some r" using s0 by simp_all
    then have "timers_ok (slots E ?s1) (mm_timers ?s1) (mm_next_timer ?s1)" "refs_ok ?s1" by (simp_all add: mm_inv_def)
    note W = with_timer_fields(5)[OF assms(1) this(2) _ this(1), of ?args r]
    have n: "n < MAX_RETX \<Longrightarrow> n + 1 \<in> {1, 2, 3}"
    proof -
      assume "n < MAX_RETX"
      then have "unat n < 3" by (simp add: MAX_RETX_def word_less_nat_alt)
      then have "unat n = 0 \<or> unat n = 1 \<or> unat n = 2" by linarith
      then have "n = 0 \<or> n = 1 \<or> n = 2" by (simp add: word_unat_eq_iff)
      then show ?thesis by auto
    qed
    have "mm_inv E (s0\<lparr>mm_next_timer := Suc (mm_next_timer s0)\<rparr>)" using s0(1) timers_ok_weaken by (simp add: mm_inv_def)
    then have "mm_inv E (?s1\<lparr>mm_next_timer := mm_next_timer s0 + 1\<rparr>)" by (simp add: mm_inv_def)
    moreover have "keeps s0 (?s1\<lparr>mm_next_timer := mm_next_timer s0 + 1\<rparr>)" by (simp add: keeps_def)
    ultimately show ?thesis
      using s0(3) inv1 mark_slot_inv[OF assms(1) s0(1,2), of c] mark_slot_inv[OF assms(1) inv1, of c] n
        with_timer_inv[OF assms(1) inv1(1), of ?args r] keeps_trans[OF after_sending_inv(2) W] keeps_trans[OF after_sending_inv(2) keeps_slots(1)]
      unfolding setFacePending_eq[OF s0(2) Some] by (auto simp: Let_def split: if_splits)
  qed
  show ?thesis
  proof (cases clear_tfib)
    case True
    obtain s1 where s1: "clear_TFIB E s r = Inr s1" "mm_inv E s1" "keeps s s1" using clear_TFIB_ok[OF assms(1,2) Some] by blast
    then have "mapme_setFacePending E now s1 name e c send is_producer False n = Inr (b, s')"
      using assms(3) True setFacePending_clear[OF Some s1(1)] keepsD(5)[OF s1(3)] by simp
    with once[OF s1(2)] show ?thesis using keepsD(5)[OF s1(3)] Some keeps_trans[OF s1(3)] by simp
  next
    case False
    with once[OF assms(2) Some] assms(3) show ?thesis by simp
  qed
qed

lemma setFacePending_total:
  assumes "hm_laws (mo_hm E)" "mm_inv E s" "content_name name \<noteq> None"
  shows "\<exists>b s'. mapme_setFacePending E now s name e c send is_producer clear_tfib n = Inr (b, s')"
proof (cases "TFIB s e")
  case None
  then show ?thesis by (auto simp: mapme_setFacePending_def)
next
  case (Some r)
  obtain bv where bv: "content_name name = Some bv" using assms(3) by blast
  have once: "\<exists>b s'. mapme_setFacePending E now s0 name e c send is_producer False n = Inr (b, s')" if "TFIB s0 e = Some r" for s0
    unfolding setFacePending_eq[OF that bv] by (auto simp: Let_def split: if_splits)
  obtain s1 where s1: "clear_TFIB E s r = Inr s1" "keeps s s1" using clear_TFIB_ok[OF assms(1,2) Some] by blast
  then show ?thesis using once[of s] once[of s1] Some keepsD(5)[OF s1(2)] setFacePending_clear[OF Some s1(1)] by (cases clear_tfib) simp_all
qed

lemma CreateTFIB_fields:
  assumes "TFIB s e = None"
  shows "TFIB (mapme_CreateTFIB E s e) = (TFIB s)(e \<mapsto> mm_next s)" "mm_table (mapme_CreateTFIB E s e) = mm_table s"
    "mm_world (mapme_CreateTFIB E s e) = mm_world s" "mm_timers (mapme_CreateTFIB E s e) = mm_timers s"
    "mm_next_timer (mapme_CreateTFIB E s e) = mm_next_timer s" "mm_next (mapme_CreateTFIB E s e) = mm_next s + 1"
    "mm_tfibs (mapme_CreateTFIB E s e) = (mm_tfibs s)(mm_next s := mapmeTFIB_Create (mo_hm E))"
    "mm_fib (mapme_CreateTFIB E s e) = fs_put (mm_fib s) e ((mm_entry s e)\<lparr>userData := Some (mm_next s)\<rparr>)"
  by (auto simp: mapme_CreateTFIB_def Let_def TFIB_def mm_entry_def mm_put_entry_def fibEntry_getUserData_def fibEntry_setUserData_def fun_eq_iff)

lemma CreateTFIB_inv:
  assumes "hm_laws (mo_hm E)" "mm_inv E s" "TFIB s e = None"
  shows "mm_inv E (mapme_CreateTFIB E s e)" "slots E (mapme_CreateTFIB E s e) = slots E s" "seq_of (mapme_CreateTFIB E s e) = (seq_of s)(e \<mapsto> INIT_SEQ)"
proof -
  note C = CreateTFIB_fields[OF assms(3), of E]
  have refs: "refs_ok s" using assms(2) by (simp add: mm_inv_def)
  then have fresh: "TFIB s e' \<noteq> Some (mm_next s)" for e' by (auto simp: refs_ok_def)
  show sl: "slots E (mapme_CreateTFIB E s e) = slots E s"
    using fresh assms(3) hm_lawsD(1)[OF assms(1)] by (auto simp: slots_def C fun_eq_iff mapmeTFIB_Create_def split: option.splits)
  show "seq_of (mapme_CreateTFIB E s e) = (seq_of s)(e \<mapsto> INIT_SEQ)"
    using fresh by (auto simp: seq_of_def C fun_eq_iff mapmeTFIB_Create_def split: option.splits)
  have "refs_ok (mapme_CreateTFIB E s e)" using refs fresh by (auto simp: refs_ok_def C less_Suc_eq)
  then show "mm_inv E (mapme_CreateTFIB E s e)" using assms(2) by (simp add: mm_inv_def sl C)
qed

lemma tfib_update_fields [simp]:
  "TFIB (tfib_update f s r) = TFIB s" "mm_fib (tfib_update f s r) = mm_fib s" "mm_table (tfib_update f s r) = mm_table s"
  "mm_world (tfib_update f s r) = mm_world s" "mm_timers (tfib_update f s r) = mm_timers s" "mm_next (tfib_update f s r) = mm_next s"
  "mm_next_timer (tfib_update f s r) = mm_next_timer s" "mm_entry (tfib_update f s r) = mm_entry s"
  "mm_tfibs (tfib_update f s r) = (mm_tfibs s)(r := f (mm_tfibs s r))"
  by (auto simp: tfib_update_def TFIB_def mm_entry_def fun_eq_iff)

text \<open>Changes of the sequence number and of the time of the last acknowledgement.\<close>

lemma tfib_update_inv:
  assumes "\<And>t. tfib_nexthops (f t) = tfib_nexthops t"
  shows "slots E (tfib_update f s r) = slots E s" "mm_inv E (tfib_update f s r) = mm_inv E s"
proof -
  show sl: "slots E (tfib_update f s r) = slots E s" using assms by (auto simp: slots_def fun_eq_iff split: option.splits)
  show "mm_inv E (tfib_update f s r) = mm_inv E s" by (simp add: mm_inv_def sl refs_ok_def)
qed

text \<open>Changes of an entry that keep its user data.\<close>

lemma put_entry_fields [simp]:
  "mm_table (mm_put_entry s e fe) = mm_table s" "mm_world (mm_put_entry s e fe) = mm_world s" "mm_timers (mm_put_entry s e fe) = mm_timers s"
  "mm_next (mm_put_entry s e fe) = mm_next s" "mm_next_timer (mm_put_entry s e fe) = mm_next_timer s" "mm_tfibs (mm_put_entry s e fe) = mm_tfibs s"
  "mm_entry (mm_put_entry s e fe) = (mm_entry s)(e := fe)" "mm_fib (mm_put_entry s e fe) = fs_put (mm_fib s) e fe"
  by (auto simp: mm_put_entry_def mm_entry_def fun_eq_iff)

lemma put_entry_inv:
  assumes "userData fe = userData (mm_entry s e)"
  shows "TFIB (mm_put_entry s e fe) = TFIB s" "slots E (mm_put_entry s e fe) = slots E s" "seq_of (mm_put_entry s e fe) = seq_of s"
    "mm_inv E (mm_put_entry s e fe) = mm_inv E s"
proof -
  show T: "TFIB (mm_put_entry s e fe) = TFIB s" using assms by (auto simp: TFIB_def fibEntry_getUserData_def fun_eq_iff)
  show sl: "slots E (mm_put_entry s e fe) = slots E s" "seq_of (mm_put_entry s e fe) = seq_of s"
    by (auto simp: slots_def seq_of_def T fun_eq_iff split: option.splits)
  show "mm_inv E (mm_put_entry s e fe) = mm_inv E s" by (simp add: mm_inv_def sl T refs_ok_def)
qed

lemma nexthop_userData [simp]:
  "userData (fibEntry_AddNexthop S fe c) = userData fe" "userData (fibEntry_RemoveNexthopByConnectionId S fe c) = userData fe"
  "userData (fibEntry_SetPreviousNextHops fe nhs) = userData fe"
  by (simp_all add: fibEntry_AddNexthop_def fibEntry_RemoveNexthopByConnectionId_def fibEntry_SetPreviousNextHops_def Let_def)

text \<open>Loops over next hops keep what their body keeps.\<close>

lemma fold_res_keeps: "(\<And>s x s'. P s \<Longrightarrow> f s x = Inr s' \<Longrightarrow> P s') \<Longrightarrow> P s \<Longrightarrow> fold_res f s xs = Inr s' \<Longrightarrow> P s'"
  by (induction xs arbitrary: s) auto

lemma ns_for_keeps: "(\<And>s x s'. P s \<Longrightarrow> f s x = Inr s' \<Longrightarrow> P s') \<Longrightarrow> P s \<Longrightarrow> ns_for nhs f s = Inr s' \<Longrightarrow> P s'"
  unfolding ns_for_def foldl_bind by (rule fold_res_keeps[where P = P]) auto

text \<open>Calls of \<^verbatim>\<open>mapme_setFacePending\<close> whose result is not looked at.\<close>

lemma pending_step:
  assumes "hm_laws (mo_hm E)" "mm_inv E s" "bind_res (mapme_setFacePending E now s name e c send is_producer clear_tfib n) (\<lambda>(_, s). Inr s) = Inr s'"
  shows "mm_inv E s' \<and> keeps s s'"
  using assms(3) setFacePending_inv[OF assms(1,2)] by auto

lemma timer_fires_inv:
  assumes "hm_laws (mo_hm E)" "mm_inv E s" "timer_fires E now s t = Some (Inr s')"
  shows "mm_inv E s' \<and> keeps s s'"
proof -
  obtain tm where tm: "mm_timers s t = Some tm"
    and s': "mapme_setFacePendingCallback E now (s\<lparr>mm_timers := (mm_timers s)(t \<mapsto> tm\<lparr>tm_pending := False\<rparr>)\<rparr>) (tm_args tm) = Inr s'"
    using assms(3) by (auto simp: timer_fires_def split: option.splits if_splits)
  let ?s = "s\<lparr>mm_timers := (mm_timers s)(t \<mapsto> tm\<lparr>tm_pending := False\<rparr>)\<rparr>"
  have "mm_inv E ?s" using assms(2) timers_ok_fired[where tms = "mm_timers s", OF _ tm] by (simp add: mm_inv_def)
  then have "mm_inv E s' \<and> keeps ?s s'" using s' unfolding mapme_setFacePendingCallback_def by (rule pending_step[OF assms(1)])
  moreover have "keeps s ?s" by (simp add: keeps_def)
  ultimately show ?thesis using keeps_trans by blast
qed

lemma send_updates_inv:
  assumes "hm_laws (mo_hm E)" "mm_inv E s" "mapme_send_updates E now s e nhs = Inr s'"
  shows "mm_inv E s'"
proof -
  define s1 where "s1 = (if TFIB s e = None then mapme_CreateTFIB E s e else s)"
  define s2 where "s2 = tfib_update (\<lambda>t. t\<lparr>tfib_seq := tfib_seq t + 1\<rparr>) s1 (the (TFIB s1 e))"
  have "mm_inv E s1" using assms(2) CreateTFIB_inv(1)[OF assms(1,2)] by (simp add: s1_def)
  then have inv2: "mm_inv E (snd (True, s2))" by (simp add: s2_def tfib_update_inv)
  obtain b where loop: "ns_for nhs (\<lambda>(clear_tfib, s) nexthop_id.
           case ct_lookup (mo_ct E) (mm_table s) nexthop_id of
             None \<Rightarrow> Inl NullDereference
           | Some conn \<Rightarrow>
               bind_res (mapme_setFacePending E now s (fibEntry_GetPrefix (mm_entry s2 e)) e nexthop_id True True clear_tfib 0) (\<lambda>(_, s).
               Inr (False, s))) (True, s2) = Inr (b, s')"
    using assms(3) unfolding mapme_send_updates_def Let_def s1_def[symmetric] s2_def[symmetric] by auto
  have "mm_inv E (snd (b, s'))"
    by (rule ns_for_keeps[where P = "\<lambda>x. mm_inv E (snd x)", OF _ inv2 loop]) (auto split: option.splits dest: setFacePending_inv[OF assms(1)])
  then show ?thesis by simp
qed

lemma maybe_send_updates_inv:
  assumes "hm_laws (mo_hm E)" "mm_inv E s" "mapme_maybe_send_updates E now s e nhs = Inr s'"
  shows "mm_inv E s'"
  using assms send_updates_inv[OF assms(1), of "mm_put_entry s e (fibEntry_SetPreviousNextHops (mm_entry s e) nhs)" now e nhs s']
  by (simp add: mapme_maybe_send_updates_def put_entry_inv split: if_splits)

lemma reconsider_inv:
  assumes "hm_laws (mo_hm E)" "mm_inv E s" "mapme_reconsiderFibEntry E now s e = Inr s'"
  shows "mm_inv E s'"
  using assms by (auto simp: mapme_reconsiderFibEntry_def split: if_splits intro: send_updates_inv)

lemma onConnectionEvent_inv:
  assumes "hm_laws (mo_hm E)" "mm_inv E s" "mapme_onConnectionEvent E now s conn = Inr s'"
  shows "mm_inv E s'"
proof (cases "case conn of Some c \<Rightarrow> connection_IsLocal c | None \<Rightarrow> False")
  case False
  then have "fold_res (mapme_reconsiderFibEntry E now) s (messageProcessor_GetFibEntries (mm_fib s)) = Inr s'"
    using assms(3) by (simp add: mapme_onConnectionEvent_def)
  then show ?thesis by (rule fold_res_keeps[where P = "mm_inv E", rotated 2]) (use assms(2) reconsider_inv[OF assms(1)] in auto)
qed (use assms in \<open>simp add: mapme_onConnectionEvent_def\<close>)

lemma newer_update_inv:
  assumes "hm_laws (mo_hm E)" "mm_inv E s" "TFIB s e = Some r" "newer_update E now s e r c params = Inr s'"
  shows "mm_inv E s'"
proof -
  let ?P = "\<lambda>s'. mm_inv E s' \<and> TFIB s' e = Some r"
  define s1 where "s1 = tfib_update (\<lambda>t. t\<lparr>tfib_seq := mp_seq params\<rparr>) s r"
  have P1: "?P s1" using assms(2,3) by (simp add: s1_def tfib_update_inv)
  have pending: "?P s'" if "?P s" "bind_res (mapme_setFacePending E now s name e c send is_producer cl n) (\<lambda>(_, s). Inr s) = Inr s'"
    for s s' name c send is_producer cl n using that pending_step[OF assms(1) _ that(2)] keepsD(5) by metis
  obtain s2 s3 where
    s2: "(if mp_type params = UPDATE
          then fold_res (\<lambda>s c. bind_res (mapme_setFacePending E now s (fibEntry_GetPrefix (mm_entry s e)) e c False False False 0) (\<lambda>(_, s). Inr s)) s1
                 (mapmeTFIB_CreateKeyIterator E s1 r)
          else Inr s1) = Inr s2"
    and s3: "ns_for (numberSet_AddSet numberSet_Create (fibEntry_GetNexthops (mm_entry s2 e)))
          (\<lambda>s c. Inr (mm_put_entry s e (fibEntry_RemoveNexthopByConnectionId (mo_st E) (mm_entry s e) c))) (mapmeTFIB_Remove E s2 r c) = Inr s3"
    and s': "ns_for (numberSet_AddSet numberSet_Create (fibEntry_GetNexthops (mm_entry s2 e)))
          (\<lambda>s c'. if c' = c then Inr s
              else bind_res (mapme_setFacePending E now s (fibEntry_GetPrefix (mm_entry s e)) e c' (mp_type params = UPDATE) False False 0) (\<lambda>(_, s). Inr s))
          (mm_put_entry s3 e (fibEntry_AddNexthop (mo_st E) (mm_entry s3 e) c)) = Inr s'"
    using assms(4) by (auto simp: newer_update_def Let_def s1_def[symmetric])
  have P2: "?P s2"
  proof (cases "mp_type params = UPDATE")
    case True
    with s2 show ?thesis by simp (rule fold_res_keeps[where P = ?P, OF _ P1], rule pending)
  qed (use s2 P1 in simp)
  have P3: "?P (mapmeTFIB_Remove E s2 r c)" using P2 Remove_inv[OF assms(1), of s2 e r c] by simp
  have "?P s3" by (rule ns_for_keeps[where P = ?P, OF _ P3 s3]) (auto simp: put_entry_inv)
  then have P4: "?P (mm_put_entry s3 e (fibEntry_AddNexthop (mo_st E) (mm_entry s3 e) c))" by (simp add: put_entry_inv)
  have "?P s'"
  proof (rule ns_for_keeps[where P = ?P, OF _ P4 s'])
    fix s x s' assume "?P s" and x: "(if x = c then Inr s else bind_res (mapme_setFacePending E now s
      (fibEntry_GetPrefix (mm_entry s e)) e x (mp_type params = UPDATE) False False 0) (\<lambda>(_, s). Inr s)) = Inr s'"
    then show "?P s'" using pending[OF \<open>?P s\<close>] by (cases "x = c") (simp, simp only: if_False)
  qed
  then show ?thesis by simp
qed

lemma send_ack_inv:
  assumes "send_ack E s ack c = Inr (rv, s')"
  shows "TFIB s' = TFIB s" "mm_fib s' = mm_fib s" "mm_table s' = mm_table s" "mm_inv E s' = mm_inv E s"
proof -
  obtain w where w: "s' = s\<lparr>mm_world := w\<rparr>" using assms by (auto simp: send_ack_def Let_def split: option.splits prod.splits)
  show T: "TFIB s' = TFIB s" "mm_fib s' = mm_fib s" "mm_table s' = mm_table s" using w by (simp_all add: TFIB_def mm_entry_def fun_eq_iff)
  have "mm_tfibs s' = mm_tfibs s" using w by simp
  then have "slots E s' = slots E s" by (intro ext) (simp add: slots_def T split: option.split)
  moreover have "mm_next s' = mm_next s" "mm_timers s' = mm_timers s" "mm_next_timer s' = mm_next_timer s" using w by simp_all
  ultimately show "mm_inv E s' = mm_inv E s" by (simp add: mm_inv_def refs_ok_def T)
qed

lemma TFIB_or_new:
  assumes "hm_laws (mo_hm E)" "mm_inv E s"
    and s1: "s1 = (if TFIB s e = None then mapme_CreateTFIB E s e else s)"
  shows "mm_inv E s1" "slots E s1 = slots E s" "TFIB s1 e = Some (the (TFIB s1 e))"
    "seq_of s1 = (if TFIB s e = None then (seq_of s)(e \<mapsto> INIT_SEQ) else seq_of s)"
  using assms(2) CreateTFIB_inv[OF assms(1,2)] CreateTFIB_fields(1)[of s e E] by (auto simp: s1)

lemma update_entry_eq:
  assumes "s1 = (if TFIB s e = None then mapme_CreateTFIB E s e else s)" "mapme_hasLocalNextHops E s1 e = Inr b"
  shows "update_entry E now s e c params =
    (if b then Inr s1
     else if mp_seq params > tfib_seq (mm_tfibs s1 (the (TFIB s1 e))) then newer_update E now s1 e (the (TFIB s1 e)) c params
     else if mp_seq params = tfib_seq (mm_tfibs s1 (the (TFIB s1 e)))
     then Inr (mm_put_entry s1 e (fibEntry_AddNexthop (mo_st E) (mm_entry s1 e) c))
     else bind_res (mapme_setFacePending E now s1 (fibEntry_GetPrefix (mm_entry s1 e)) e c (mp_type params = UPDATE) False False 0) (\<lambda>(_, s). Inr s))"
  by (simp only: update_entry_def Let_def assms(1)[symmetric] assms(2) bind_res_simps)

lemma update_entry_inv:
  assumes "hm_laws (mo_hm E)" "mm_inv E s" "update_entry E now s e c params = Inr s'"
  shows "mm_inv E s'"
proof -
  define s1 where "s1 = (if TFIB s e = None then mapme_CreateTFIB E s e else s)"
  note N = TFIB_or_new[OF assms(1,2) s1_def]
  obtain b where "mapme_hasLocalNextHops E s1 e = Inr b"
    using assms(3) unfolding update_entry_def Let_def s1_def[symmetric] by (cases "mapme_hasLocalNextHops E s1 e") simp_all
  note U = assms(3)[unfolded update_entry_eq[OF s1_def this]]
  consider "b" | "\<not> b" "mp_seq params > tfib_seq (mm_tfibs s1 (the (TFIB s1 e)))" | "\<not> b" "mp_seq params = tfib_seq (mm_tfibs s1 (the (TFIB s1 e)))"
    | "\<not> b" "mp_seq params < tfib_seq (mm_tfibs s1 (the (TFIB s1 e)))" by fastforce
  then show ?thesis
  proof cases
    case 2
    with U have "newer_update E now s1 e (the (TFIB s1 e)) c params = Inr s'" by (simp only: if_True if_False)
    then show ?thesis by (rule newer_update_inv[OF assms(1) N(1,3)])
  next
    case 4
    then have "\<not> tfib_seq (mm_tfibs s1 (the (TFIB s1 e))) < mp_seq params" "mp_seq params \<noteq> tfib_seq (mm_tfibs s1 (the (TFIB s1 e)))" by auto
    with U 4(1) have "bind_res (mapme_setFacePending E now s1 (fibEntry_GetPrefix (mm_entry s1 e)) e c (mp_type params = UPDATE) False False 0) (\<lambda>(_, s). Inr s) = Inr s'"
      by (simp only: if_False)
    then show ?thesis using pending_step[OF assms(1) N(1)] by blast
  qed (use N(1) U in \<open>auto simp: put_entry_inv\<close>)
qed

lemma onSpecialInterest_inv:
  assumes "hm_laws (mo_hm E)" "mm_inv E s" "mapme_onSpecialInterest E now s buf c pfx params = Inr (rv, s')"
  shows "mm_inv E s'"
proof (cases "mapme_createAckMessage E now buf params")
  case (Some ack)
  with assms(3) obtain rv' s1 where s1: "send_ack E s ack c = Inr (rv', s1)" "s' = s1 \<or> (\<exists>e. update_entry E now s1 e c params = Inr s')"
    by (auto simp: mapme_onSpecialInterest_def split: if_splits option.splits)
  then have "mm_inv E s1" using send_ack_inv(4)[OF s1(1)] assms(2) by simp
  with s1(2) show ?thesis using update_entry_inv[OF assms(1)] by blast
qed (use assms in \<open>auto simp: mapme_onSpecialInterest_def\<close>)

text \<open>An acknowledgement changes the slot it is for, or nothing.\<close>

lemma ack_cases:
  assumes "mapme_onSpecialInterestAck E now s buf c pfx params = Inr s'"
  obtains "s' = s" | e r f where "TFIB s e = Some r" "\<And>t. tfib_nexthops (f t) = tfib_nexthops t" "\<And>t. tfib_seq (f t) = tfib_seq t"
    "s' = tfib_update f (mapmeTFIB_Remove E s r c) r"
proof -
  obtain name entry where E: "fib_ContainsName (mm_fib s) name = Inr entry" 
    "(case entry of None \<Rightarrow> Inr s
      | Some fibEntry \<Rightarrow>
         bind_res (if mp_seq params \<noteq> INVALID_SEQ
                   then (case TFIB s fibEntry of None \<Rightarrow> Inl NullDereference | Some tfib \<Rightarrow> Inr (mp_seq params < tfib_seq (mm_tfibs s tfib)))
                   else Inr False) (\<lambda>outdated.
         if outdated then Inr s
         else case TFIB s fibEntry of
                None \<Rightarrow> Inr s
              | Some tfib \<Rightarrow>
                  (case mapmeTFIB_Get E s tfib c of
                     None \<Rightarrow> Inr s
                   | Some timer \<Rightarrow>
                       (let s = mapmeTFIB_Remove E s tfib c in
                        Inr (if mp_type params = UPDATE_ACK then tfib_update (\<lambda>t. t\<lparr>lastAckedUpdate := now\<rparr>) s tfib else s))))) = Inr s'"
    using assms by (auto simp only: mapme_onSpecialInterestAck_def bind_res_eq_Inr)
  have id: "tfib_update (\<lambda>t. t) x r = x" for x :: "('a, 'b, 'c, 'd, 'e, 'f, 'g) MapMe" and r by (simp add: tfib_update_def)
  consider "s' = s" | e r where "TFIB s e = Some r"
      "s' = (if mp_type params = UPDATE_ACK then tfib_update (\<lambda>t. t\<lparr>lastAckedUpdate := now\<rparr>) (mapmeTFIB_Remove E s r c) r
             else tfib_update (\<lambda>t. t) (mapmeTFIB_Remove E s r c) r)"
    using E(2) unfolding id by (cases entry; cases "TFIB s (the entry)"; cases "mapmeTFIB_Get E s (the (TFIB s (the entry))) c") (auto simp: Let_def split: if_splits)
  then show ?thesis
  proof cases
    case (2 e r)
    show ?thesis
    proof (cases "mp_type params = UPDATE_ACK")
      case True
      with 2 show ?thesis by (intro that(2)[of e r "\<lambda>t. t\<lparr>lastAckedUpdate := now\<rparr>"]) auto
    next
      case False
      with 2 show ?thesis by (intro that(2)[of e r "\<lambda>t. t"]) auto
    qed
  qed (rule that(1))
qed

lemma onSpecialInterestAck_inv:
  assumes "hm_laws (mo_hm E)" "mm_inv E s" "mapme_onSpecialInterestAck E now s buf c pfx params = Inr s'"
  shows "mm_inv E s'"
  using assms(3)
proof (cases rule: ack_cases)
  case (2 e r f)
  then show ?thesis using Remove_inv[OF assms(1,2) 2(1)] by (simp add: tfib_update_inv)
qed (use assms(2) in simp)

lemma Process_inv:
  assumes "hm_laws (mo_hm E)" "mm_inv E s" "mapme_Process E now stack s buf c = Inr s'"
  shows "mm_inv E s'"
  using assms(2,3) onSpecialInterest_inv[OF assms(1,2)] onSpecialInterestAck_inv[OF assms(1,2)]
  by (auto simp: mapme_Process_def Let_def split: prod.splits if_splits)

text \<open>An entry is freed: its release function empties the TFIB, then the entry is gone.\<close>

definition entry_freed ::
  "('d, 't, 'l, 'i, 'p, 'o, 'h) mm_ops \<Rightarrow> ('d, 't, 'l, 'i, 'p, 'o, 'h) MapMe \<Rightarrow> nat \<Rightarrow> ('d, 't, 'l, 'i, 'p, 'o, 'h) MapMe" where
  "entry_freed E s e =
     (let s = (case TFIB s e of Some tfib \<Rightarrow> mapmeTFIB_Release E s tfib | None \<Rightarrow> s)
      in mm_put_entry s e (fibEntry_setUserData (mm_entry s e) None))"

lemma Release_fold: "fold_res (\<lambda>s c. Inr (mapmeTFIB_Remove E s r c)) s cs = Inr (foldl (\<lambda>s c. mapmeTFIB_Remove E s r c) s cs)"
  by (induction cs arbitrary: s) simp_all

lemma Release_ok:
  assumes "hm_laws (mo_hm E)" "mm_inv E s" "TFIB s e = Some r"
  shows "mm_inv E (mapmeTFIB_Release E s r)" "keeps s (mapmeTFIB_Release E s r)"
    "slots E (mapmeTFIB_Release E s r) = (\<lambda>k. if fst k = e then None else slots E s k)"
proof -
  let ?keys = "hm_Keys (mo_hm E) (tfib_nexthops (mm_tfibs s r))"
  note R = Remove_all[OF assms Release_fold, of ?keys]
  show "mm_inv E (mapmeTFIB_Release E s r)" "keeps s (mapmeTFIB_Release E s r)"
    using R by (simp_all add: mapmeTFIB_Release_def mapmeTFIB_CreateKeyIterator_def)
  have "snd k \<notin> set ?keys \<Longrightarrow> fst k = e \<Longrightarrow> slots E s k = None" for k
    using assms(3) hm_lawsD(6)[OF assms(1)] by (cases k) (auto simp: slots_def)
  then show "slots E (mapmeTFIB_Release E s r) = (\<lambda>k. if fst k = e then None else slots E s k)"
    using R by (auto simp: mapmeTFIB_Release_def mapmeTFIB_CreateKeyIterator_def fun_eq_iff)
qed

lemma entry_freed_inv:
  assumes "hm_laws (mo_hm E)" "mm_inv E s"
  shows "mm_inv E (entry_freed E s e)"
proof -
  define s1 where "s1 = (case TFIB s e of Some tfib \<Rightarrow> mapmeTFIB_Release E s tfib | None \<Rightarrow> s)"
  have s1: "mm_inv E s1" "TFIB s1 = TFIB s" "slots E s1 (e, c) = None" for c
    using assms(2) Release_ok[OF assms] keepsD(5)[OF Release_ok(2)[OF assms]] by (auto simp: s1_def slots_def[of _ s] split: option.splits)
  let ?s = "mm_put_entry s1 e (fibEntry_setUserData (mm_entry s1 e) None)"
  have T: "TFIB ?s = (TFIB s1)(e := None)" by (auto simp: TFIB_def fibEntry_getUserData_def fibEntry_setUserData_def fun_eq_iff)
  have "slots E ?s (a, b) = slots E s1 (a, b)" for a b
    using s1(3)[of b] by (cases "a = e") (simp_all add: slots_def[of _ ?s] T slots_def[of _ s1] split: option.splits)
  then have "slots E ?s = slots E s1" by auto
  moreover have "refs_ok ?s" using s1(1) unfolding mm_inv_def refs_ok_def T by simp
  ultimately show ?thesis using s1(1) by (simp add: entry_freed_def s1_def[symmetric] Let_def mm_inv_def)
qed

section \<open>Runs\<close>

text \<open>
  What a node does from MAP-Me's point of view: it processes a packet, a timer fires, the connections or the
  next hops of an entry change, an entry is freed, and whatever else the forwarder does with its FIB, its
  connections and its messages; only MAP-Me touches the user data of entries.
\<close>

inductive mm_step :: "('d, 't, 'l, 'i, 'p, 'o, 'h) mm_ops \<Rightarrow> ('d, 't, 'l, 'i, 'p, 'o, 'h) MapMe \<Rightarrow> ('d, 't, 'l, 'i, 'p, 'o, 'h) MapMe \<Rightarrow> bool"
  for E where
  packet: "mapme_Process E now stack s buf c = Inr s' \<Longrightarrow> mm_step E s s'"
| timer: "timer_fires E now s t = Some (Inr s') \<Longrightarrow> mm_step E s s'"
| connection: "mapme_onConnectionEvent E now s conn = Inr s' \<Longrightarrow> mm_step E s s'"
| reconsider: "mapme_reconsiderFibEntry E now s e = Inr s' \<Longrightarrow> mm_step E s s'"
| command: "mapme_send_updates E now s e nhs = Inr s' \<Longrightarrow> mm_step E s s'"
| next_hops: "mapme_maybe_send_updates E now s e nhs = Inr s' \<Longrightarrow> mm_step E s s'"
| freed: "mm_step E s (entry_freed E s e)"
| forwarder: "(\<And>e. userData (fs_heap fib e) = userData (mm_entry s e)) \<Longrightarrow> mm_step E s (s\<lparr>mm_fib := fib, mm_table := table, mm_world := w\<rparr>)"

lemma forwarder_inv:
  assumes "mm_inv E s" "\<And>e. userData (fs_heap fib e) = userData (mm_entry s e)"
  shows "mm_inv E (s\<lparr>mm_fib := fib, mm_table := table, mm_world := w\<rparr>)"
proof -
  let ?s = "s\<lparr>mm_fib := fib, mm_table := table, mm_world := w\<rparr>"
  have T: "TFIB ?s = TFIB s" using assms(2) by (simp add: TFIB_def mm_entry_def fibEntry_getUserData_def fun_eq_iff)
  have "slots E ?s = slots E s" by (auto simp: slots_def T fun_eq_iff split: option.splits)
  then show ?thesis using assms(1) by (simp add: mm_inv_def refs_ok_def T)
qed

lemma mm_step_inv:
  assumes "mm_step E s s'" "hm_laws (mo_hm E)" "mm_inv E s"
  shows "mm_inv E s'"
  using assms(1)
proof cases
  case forwarder
  then show ?thesis using forwarder_inv[OF assms(3)] by simp
next
  case timer
  then show ?thesis using timer_fires_inv[OF assms(2,3)] by blast
next
  case packet
  then show ?thesis by (rule Process_inv[OF assms(2,3)])
next
  case connection
  then show ?thesis by (rule onConnectionEvent_inv[OF assms(2,3)])
next
  case reconsider
  then show ?thesis by (rule reconsider_inv[OF assms(2,3)])
next
  case command
  then show ?thesis by (rule send_updates_inv[OF assms(2,3)])
next
  case next_hops
  then show ?thesis by (rule maybe_send_updates_inv[OF assms(2,3)])
next
  case freed
  then show ?thesis using entry_freed_inv[OF assms(2,3)] by simp
qed

lemma mapme_create_inv:
  assumes "hm_laws (mo_hm E)" "\<And>e. userData (fs_heap fib e) = None"
  shows "mm_inv E (mapme_create E fib table w)"
proof -
  have "TFIB (mapme_create E fib table w) e = None" for e using assms(2) by (simp add: TFIB_def mm_entry_def mapme_create_def fibEntry_getUserData_def)
  then show ?thesis by (simp add: mm_inv_def refs_ok_def timers_ok_def slots_def) (simp add: mapme_create_def)
qed

lemma mm_run_inv:
  assumes "(mm_step E)\<^sup>*\<^sup>* s s'" "hm_laws (mo_hm E)" "mm_inv E s"
  shows "mm_inv E s'"
  using assms by (induction rule: rtranclp_induct) (auto intro: mm_step_inv)

section \<open>Retransmissions end\<close>

text \<open>The transmissions a timer can still cause: its own and those of the timers that follow it.\<close>

definition retx_budget :: "timer option \<Rightarrow> nat" where
  "retx_budget x = (case x of Some tm \<Rightarrow> if tm_pending tm then 4 - unat (arg_num_retx (tm_args tm)) else 0 | None \<Rightarrow> 0)"

definition retx_left :: "('d, 't, 'l, 'i, 'p, 'o, 'h) MapMe \<Rightarrow> nat" where
  "retx_left s = (\<Sum>t<mm_next_timer s. retx_budget (mm_timers s t))"

definition firing ::
  "('d, 't, 'l, 'i, 'p, 'o, 'h) mm_ops \<Rightarrow> ('d, 't, 'l, 'i, 'p, 'o, 'h) MapMe \<Rightarrow> ('d, 't, 'l, 'i, 'p, 'o, 'h) MapMe \<Rightarrow> bool" where
  "firing E s s' \<longleftrightarrow> (\<exists>now t. timer_fires E now s t = Some (Inr s'))"

lemma budget_simps [simp]: "retx_budget None = 0" "retx_budget (Some (tm\<lparr>tm_pending := False\<rparr>)) = 0"
  by (simp_all add: retx_budget_def)

lemma budget_total_drop: "(\<Sum>t<(n::nat). retx_budget (drop_timer x tms t)) \<le> (\<Sum>t<n. retx_budget (tms t))"
  by (rule sum_mono) (auto simp: drop_timer_def split: option.splits)

lemma budget_total_fired:
  assumes "t < (n::nat)"
  shows "(\<Sum>i<n. retx_budget ((tms(t \<mapsto> tm\<lparr>tm_pending := False\<rparr>)) i)) + retx_budget (tms t) = (\<Sum>i<n. retx_budget (tms i))"
proof -
  have fin: "finite {..<n}" "t \<in> {..<n}" using assms by auto
  have "(\<Sum>i\<in>{..<n} - {t}. retx_budget ((tms(t \<mapsto> tm\<lparr>tm_pending := False\<rparr>)) i)) = (\<Sum>i\<in>{..<n} - {t}. retx_budget (tms i))"
    by (rule sum.cong) auto
  then show ?thesis using sum.remove[OF fin, of "\<lambda>i. retx_budget ((tms(t \<mapsto> tm\<lparr>tm_pending := False\<rparr>)) i)"] sum.remove[OF fin, of "\<lambda>i. retx_budget (tms i)"]
    by simp
qed

text \<open>What one call leaves of the budget: the rest, and the budget of the timer it schedules.\<close>

lemma setFacePending_budget:
  assumes "hm_laws (mo_hm E)" "mm_inv E s" "TFIB s e = Some r"
    and "mapme_setFacePending E now s name e c send is_producer False n = Inr (b, s')"
  shows "retx_left s' \<le> retx_left s + (if send \<and> n < MAX_RETX then 4 - unat (n + 1) else 0)"
    "length (w_sent (mm_world s')) \<le> length (w_sent (mm_world s)) + 1"
proof -
  have ok: "refs_ok s" "timers_ok (slots E s) (mm_timers s) (mm_next_timer s)" using assms(2) by (simp_all add: mm_inv_def)
  have mark: "retx_left (mark_slot E s0 r c None) \<le> retx_left s0" if "refs_ok s0" "TFIB s0 e = Some r" for s0
    using budget_total_drop mark_slot_slots(2)[OF assms(1) that] by (simp add: retx_left_def)
  have log: "length (sent_log E s c m) \<le> 1" for m by (simp add: sent_log_def split: option.split)
  have none: "retx_budget (mm_timers s (mm_next_timer s)) = 0"
    using timers_okD(3)[OF ok(2), of "mm_next_timer s"] by (cases "mm_timers s (mm_next_timer s)") auto
  show "retx_left s' \<le> retx_left s + (if send \<and> n < MAX_RETX then 4 - unat (n + 1) else 0)"
    "length (w_sent (mm_world s')) \<le> length (w_sent (mm_world s)) + 1"
  proof (atomize (full), cases "content_name name")
    case None
    then have "\<not> send" using assms(3,4)
      by (auto simp: mapme_setFacePending_def mapme_createMessage_def hicn_prefix_from_name_def name_GetContentName_def)
    then have "s' = mark_slot E s r c None" using assms(3,4) by (simp add: mapme_setFacePending_def mark_slot_def)
    then show "retx_left s' \<le> retx_left s + (if send \<and> n < MAX_RETX then 4 - unat (n + 1) else 0) \<and>
      length (w_sent (mm_world s')) \<le> length (w_sent (mm_world s)) + 1" using mark[OF ok(1) assms(3)] by simp
  next
    case (Some bv)
    define m where "m = update_message E now bv (tfib_seq (mm_tfibs s r))"
    define s1 where "s1 = after_sending E s c m"
    define args where "args = \<lparr>arg_name = name, arg_fibEntry = e, arg_conn_id = c, arg_send = True, arg_is_producer = is_producer, arg_num_retx = n + 1\<rparr>"
    have s1: "refs_ok s1" "TFIB s1 (arg_fibEntry args) = Some r" "timers_ok (slots E s1) (mm_timers s1) (mm_next_timer s1)"
      "retx_left s1 = retx_left s" "mm_next_timer s1 = mm_next_timer s" "mm_timers s1 = mm_timers s"
      using ok assms(3) by (simp_all add: s1_def args_def retx_left_def)
    have sent: "length (w_sent (mm_world s1)) \<le> length (w_sent (mm_world s)) + 1" using log[of m] by (simp add: s1_def)
    have k: "arg_fibEntry args = e" "arg_conn_id args = c" and n': "arg_num_retx args = n + 1" by (simp_all add: args_def)
    note W = with_timer_fields[OF assms(1) s1(1,2,3), unfolded k]
    have "(\<Sum>t<mm_next_timer s. retx_budget (mm_timers (with_timer E s1 r args) t)) \<le> retx_left s"
      using budget_total_drop[of "slots E s1 (e, c)" "mm_timers s" "mm_next_timer s"] by (simp add: W(2) s1(5,6) retx_left_def)
    moreover have "retx_budget (mm_timers (with_timer E s1 r args) (mm_next_timer s)) = 4 - unat (n + 1)"
      by (simp add: W(2) s1(5) n' retx_budget_def)
    ultimately have timer: "retx_left (with_timer E s1 r args) \<le> retx_left s + (4 - unat (n + 1))"
      by (simp add: retx_left_def[of "with_timer E s1 r args"] W(3) s1(5))
    have fail: "retx_left (s1\<lparr>mm_next_timer := mm_next_timer s + 1\<rparr>) = retx_left s" using none by (simp add: retx_left_def s1(6))
    have "(b, s') = (if \<not> send then (True, mark_slot E s r c None)
             else if n < MAX_RETX
             then (if mo_timer_ok E (mm_next_timer s) then (True, with_timer E s1 r args) else (False, s1\<lparr>mm_next_timer := mm_next_timer s + 1\<rparr>))
             else (True, mark_slot E s1 r c None))"
      using assms(4) unfolding setFacePending_eq[OF assms(3) Some] Let_def m_def[symmetric] s1_def[symmetric] args_def[symmetric] by simp
    then show "retx_left s' \<le> retx_left s + (if send \<and> n < MAX_RETX then 4 - unat (n + 1) else 0) \<and>
      length (w_sent (mm_world s')) \<le> length (w_sent (mm_world s)) + 1"
      using timer fail sent mark[OF ok(1) assms(3)] mark[OF s1(1)] s1(2,4) W(4) by (auto simp: args_def split: if_splits)
  qed
qed

lemma firing_budget:
  assumes "hm_laws (mo_hm E)" "mm_inv E s" "firing E s s'"
  shows "retx_left s' < retx_left s" "length (w_sent (mm_world s')) \<le> length (w_sent (mm_world s)) + 1"
proof -
  obtain now t tm where fires: "timer_fires E now s t = Some (Inr s')" and tm: "mm_timers s t = Some tm" "tm_pending tm"
    and cb: "mapme_setFacePendingCallback E now (s\<lparr>mm_timers := (mm_timers s)(t \<mapsto> tm\<lparr>tm_pending := False\<rparr>)\<rparr>) (tm_args tm) = Inr s'"
    using assms(3) by (auto simp: firing_def timer_fires_def split: option.splits if_splits)
  let ?s = "s\<lparr>mm_timers := (mm_timers s)(t \<mapsto> tm\<lparr>tm_pending := False\<rparr>)\<rparr>" and ?n = "arg_num_retx (tm_args tm)"
  have ok: "timers_ok (slots E s) (mm_timers s) (mm_next_timer s)" using assms(2) by (simp add: mm_inv_def)
  have inv: "mm_inv E ?s" using assms(2) timers_ok_fired[where tms = "mm_timers s", OF _ tm(1)] by (simp add: mm_inv_def)
  obtain r where r: "TFIB ?s (arg_fibEntry (tm_args tm)) = Some r"
    using timers_okD(2)[OF ok tm(1)] by (auto simp: slots_def owner_def split: option.splits)
  obtain b where call: "mapme_setFacePending E now ?s (arg_name (tm_args tm)) (arg_fibEntry (tm_args tm)) (arg_conn_id (tm_args tm))
      (arg_send (tm_args tm)) (arg_is_producer (tm_args tm)) False ?n = Inr (b, s')"
    using cb by (auto simp: mapme_setFacePendingCallback_def)
  note B = setFacePending_budget[OF assms(1) inv r call]
  have "retx_left ?s + (4 - unat ?n) = retx_left s"
    using budget_total_fired[OF timers_okD(3)[OF ok tm(1)], of "mm_timers s" tm] tm by (simp add: retx_left_def retx_budget_def)
  moreover have "?n \<in> {1, 2, 3}" using timers_okD(4)[OF ok tm(1)] .
  ultimately show "retx_left s' < retx_left s" using B(1) by (auto simp: MAX_RETX_def split: if_splits)
  show "length (w_sent (mm_world s')) \<le> length (w_sent (mm_world s)) + 1" using B(2) by simp
qed

lemma firings_budget:
  assumes "hm_laws (mo_hm E)" "mm_inv E s" "(firing E ^^ n) s s'"
  shows "mm_inv E s' \<and> n + retx_left s' \<le> retx_left s \<and> length (w_sent (mm_world s')) \<le> length (w_sent (mm_world s)) + n"
  using assms(3)
proof (induction n arbitrary: s')
  case (Suc n)
  then obtain s1 where s1: "(firing E ^^ n) s s1" "firing E s1 s'" by auto
  then have inv: "mm_inv E s1" using Suc.IH by blast
  moreover have "mm_inv E s'" using s1(2) timer_fires_inv[OF assms(1) inv] by (auto simp: firing_def)
  ultimately show ?case using Suc.IH[OF s1(1)] firing_budget[OF assms(1) inv s1(2)] by simp
qed (use assms(2) in simp)

definition pending_timers :: "('d, 't, 'l, 'i, 'p, 'o, 'h) MapMe \<Rightarrow> nat set" where
  "pending_timers s = {t. t < mm_next_timer s \<and> (\<exists>tm. mm_timers s t = Some tm \<and> tm_pending tm)}"

lemma retx_left_bound: 
  assumes "mm_inv E s"
  shows "retx_left s \<le> 3 * card (pending_timers s)"
proof -
  have ok: "timers_ok (slots E s) (mm_timers s) (mm_next_timer s)" using assms by (simp add: mm_inv_def)
  have le: "retx_budget (mm_timers s t) \<le> (if t \<in> pending_timers s then 3 else 0)" if "t < mm_next_timer s" for t
  proof (cases "mm_timers s t")
    case (Some tm)
    then show ?thesis using timers_okD(4)[OF ok Some] that by (auto simp: retx_budget_def pending_timers_def)
  qed simp
  have "retx_left s \<le> (\<Sum>t<mm_next_timer s. if t \<in> pending_timers s then 3 else 0)"
    unfolding retx_left_def by (rule sum_mono) (use le in simp)
  also have "\<dots> = (\<Sum>t\<in>{..<mm_next_timer s} \<inter> pending_timers s. 3)" by (rule sum.inter_restrict[symmetric]) simp
  also have "{..<mm_next_timer s} \<inter> pending_timers s = pending_timers s" by (auto simp: pending_timers_def)
  finally show ?thesis by simp
qed

end
