(* ===== verification/MapmeUpdates.thy ===== *)
theory MapmeUpdates
  imports MapmeTimers Forwarding
begin

text \<open>
  What MAP-Me does with updates and acknowledgements: the phases of \<open>newer_update\<close> (end the old
  retransmissions, replace the next hops, tell the old ones), the bytes of the packets and the names read from them,
  and from these the effect of \<open>mapme_Process\<close> on a packet that another node made, and of
  \<open>mapme_send_updates\<close>. The properties of MAP-Me are stated at the end, with an example node.
\<close>

section \<open>The effect of an update\<close>

text \<open>An armed slot: the update was sent and its retransmission is scheduled.\<close>

definition armed ::
  "('d, 't, 'l, 'i, 'p, 'o, 'h) mm_ops \<Rightarrow> ('d, 't, 'l, 'i, 'p, 'o, 'h) MapMe \<Rightarrow> nat \<times> connid \<Rightarrow> setFacePendingArgs \<Rightarrow> bool" where
  "armed E s k args \<longleftrightarrow> (\<exists>t. slots E s k = Some (Some t) \<and> mm_timers s t = Some \<lparr>tm_args = args, tm_pending = True\<rparr>)"

definition first_args :: "Name \<Rightarrow> nat \<Rightarrow> bool \<Rightarrow> connid \<Rightarrow> setFacePendingArgs" where
  "first_args name e is_producer c =
     \<lparr>arg_name = name, arg_fibEntry = e, arg_conn_id = c, arg_send = True, arg_is_producer = is_producer, arg_num_retx = 1\<rparr>"

lemma first_args_simps [simp]:
  "arg_fibEntry (first_args name e p c) = e" "arg_conn_id (first_args name e p c) = c" "arg_num_retx (first_args name e p c) = 1"
  by (simp_all add: first_args_def)

lemma with_timer_armed:
  assumes "hm_laws (mo_hm E)" "mm_inv E s" "TFIB s (arg_fibEntry args) = Some r"
  shows "armed E (with_timer E s r args) (arg_fibEntry args, arg_conn_id args) args"
    "k \<noteq> (arg_fibEntry args, arg_conn_id args) \<Longrightarrow> armed E s k a \<Longrightarrow> armed E (with_timer E s r args) k a"
proof -
  have ok: "refs_ok s" "timers_ok (slots E s) (mm_timers s) (mm_next_timer s)" using assms(2) by (simp_all add: mm_inv_def)
  note W = with_timer_fields[OF assms(1) ok(1) assms(3) ok(2)]
  show "armed E (with_timer E s r args) (arg_fibEntry args, arg_conn_id args) args" by (simp add: armed_def W)
  assume k: "k \<noteq> (arg_fibEntry args, arg_conn_id args)" "armed E s k a"
  then obtain t where t: "slots E s k = Some (Some t)" "mm_timers s t = Some \<lparr>tm_args = a, tm_pending = True\<rparr>" by (auto simp: armed_def)
  then have "t < mm_next_timer s" "slots E s (arg_fibEntry args, arg_conn_id args) \<noteq> Some (Some t)"
    using timers_okD(3)[OF ok(2)] timers_ok_unique[OF ok(2) t(1)] k(1) by blast+
  then have "drop_timer (slots E s (arg_fibEntry args, arg_conn_id args)) (mm_timers s) t = mm_timers s t"
    by (auto simp: drop_timer_def split: option.splits)
  then show "armed E (with_timer E s r args) k a" using t k(1) \<open>t < _\<close> by (auto simp: armed_def W)
qed

text \<open>Phase one: the retransmissions of older updates end.\<close>

lemma silence_all:
  assumes "hm_laws (mo_hm E)"
  shows "mm_inv E s \<Longrightarrow> TFIB s e = Some r \<Longrightarrow>
    \<exists>s'. fold_res (\<lambda>s c. bind_res (mapme_setFacePending E now s (fibEntry_GetPrefix (mm_entry s e)) e c False False False 0) (\<lambda>(_, s). Inr s)) s cs = Inr s' \<and>
      mm_inv E s' \<and> keeps s s' \<and> mm_world s' = mm_world s \<and> slots E s' = (\<lambda>k. if fst k = e \<and> snd k \<in> set cs then Some None else slots E s k)"
proof (induction cs arbitrary: s)
  case (Cons c cs)
  let ?s = "mark_slot E s r c None"
  have step: "mapme_setFacePending E now s (fibEntry_GetPrefix (mm_entry s e)) e c False False False 0 = Inr (True, ?s)"
    using Cons.prems by (simp add: mapme_setFacePending_def mark_slot_def)
  have refs: "refs_ok s" using Cons.prems(1) by (simp add: mm_inv_def)
  have "mm_inv E ?s" "TFIB ?s e = Some r" using mark_slot_inv[OF assms Cons.prems] Cons.prems(2) by simp_all
  from Cons.IH[OF this] obtain s' where s': "fold_res (\<lambda>s c. bind_res (mapme_setFacePending E now s (fibEntry_GetPrefix (mm_entry s e)) e c False False False 0)
      (\<lambda>(_, s). Inr s)) ?s cs = Inr s'" "mm_inv E s'" "keeps ?s s'" "mm_world s' = mm_world ?s"
      "slots E s' = (\<lambda>k. if fst k = e \<and> snd k \<in> set cs then Some None else slots E ?s k)" by blast
  have "slots E s' = (\<lambda>k. if fst k = e \<and> snd k \<in> set (c # cs) then Some None else slots E s k)"
    using s'(5) mark_slot_slots(1)[OF assms refs Cons.prems(2)] by (auto simp: fun_eq_iff)
  then show ?case using s'(1,2,4) keeps_trans[OF keeps_slots(1) s'(3)] step by simp
qed auto

text \<open>Phase two: the next hops are removed one by one.\<close>

lemma remove_hops:
  "ns_inv (nexthops (mm_entry s e)) \<Longrightarrow>
    \<exists>fe. fold_res (\<lambda>s c. Inr (mm_put_entry s e (fibEntry_RemoveNexthopByConnectionId S (mm_entry s e) c))) s cs = Inr (mm_put_entry s e fe) \<and>
      ns_inv (nexthops fe) \<and> ns_set (nexthops fe) = ns_set (nexthops (mm_entry s e)) - set cs \<and>
      fe_name fe = fe_name (mm_entry s e) \<and> userData fe = userData (mm_entry s e)"
proof (induction cs arbitrary: s)
  case Nil
  have "mm_put_entry s e (mm_entry s e) = s" by (simp add: mm_put_entry_def fs_put_def mm_entry_def)
  then show ?case using Nil by (intro exI[of _ "mm_entry s e"]) simp
next
  case (Cons c cs)
  let ?fe = "fibEntry_RemoveNexthopByConnectionId S (mm_entry s e) c"
  let ?s = "mm_put_entry s e ?fe"
  note R = nexthops_RemoveNexthop[OF Cons.prems, of S c]
  have again: "mm_put_entry ?s e fe = mm_put_entry s e fe" for fe by (simp add: mm_put_entry_def fs_put_def)
  have "ns_inv (nexthops (mm_entry ?s e))" using R(1) by simp
  from Cons.IH[OF this] obtain fe where
    "fold_res (\<lambda>s c. Inr (mm_put_entry s e (fibEntry_RemoveNexthopByConnectionId S (mm_entry s e) c))) ?s cs = Inr (mm_put_entry ?s e fe)"
    "ns_inv (nexthops fe)" "ns_set (nexthops fe) = ns_set (nexthops (mm_entry ?s e)) - set cs"
    "fe_name fe = fe_name (mm_entry ?s e)" "userData fe = userData (mm_entry ?s e)" by blast
  then show ?case using R again by (intro exI[of _ fe]) auto
qed

text \<open>The loop that sends updates.\<close>

lemma arm_all:
  assumes "hm_laws (mo_hm E)" "\<And>t. mo_timer_ok E t" "content_name name = Some bv"
  shows "mm_inv E s \<Longrightarrow> TFIB s e = Some r \<Longrightarrow> name = fibEntry_GetPrefix (mm_entry s e) \<Longrightarrow> distinct cs \<Longrightarrow> seq_of s e = Some q \<Longrightarrow>
    \<exists>s'. fold_res (\<lambda>s c. bind_res (mapme_setFacePending E now s (fibEntry_GetPrefix (mm_entry s e)) e c True p False 0) (\<lambda>(_, s). Inr s)) s cs = Inr s' \<and>
      mm_inv E s' \<and> keeps s s' \<and> w_sent (mm_world s') = w_sent (mm_world s) @ concat (map (\<lambda>c. sent_log E s c (update_message E now bv q)) cs) \<and>
      (\<forall>c\<in>set cs. armed E s' (e, c) (first_args name e p c)) \<and>
      (\<forall>k. fst k \<noteq> e \<or> snd k \<notin> set cs \<longrightarrow> slots E s' k = slots E s k \<and> (\<forall>a. armed E s k a \<longrightarrow> armed E s' k a))"
proof (induction cs arbitrary: s)
  case (Cons c cs)
  define m where "m = update_message E now bv q"
  let ?s1 = "after_sending E s c m" and ?a = "first_args name e p c"
  let ?s = "with_timer E ?s1 r ?a"
  have q: "tfib_seq (mm_tfibs s r) = q" using Cons.prems(2,5) by (simp add: seq_of_def)
  have step: "mapme_setFacePending E now s (fibEntry_GetPrefix (mm_entry s e)) e c True p False 0 = Inr (True, ?s)"
    unfolding Cons.prems(3)[symmetric] setFacePending_eq[OF Cons.prems(2) assms(3)] using assms(2)
    by (simp add: Let_def q m_def[symmetric] first_args_def MAX_RETX_def)
  have s1: "mm_inv E ?s1" "TFIB ?s1 (arg_fibEntry ?a) = Some r" "refs_ok ?s1" "timers_ok (slots E ?s1) (mm_timers ?s1) (mm_next_timer ?s1)"
    using Cons.prems(1,2) by (simp_all add: mm_inv_def)
  note W = with_timer_fields[OF assms(1) s1(3,2,4)] and A = with_timer_armed[OF assms(1) s1(1,2)]
  have kept: "keeps s ?s" using keeps_trans[OF after_sending_inv(2) W(5)] .
  note K = keepsD[OF kept]
  have "mm_inv E ?s" by (rule with_timer_inv[OF assms(1) s1(1,2)]) simp
  moreover have "TFIB ?s e = Some r" "name = fibEntry_GetPrefix (mm_entry ?s e)" "distinct cs" "seq_of ?s e = Some q" using Cons.prems(2-5) K by simp_all
  ultimately obtain s' where s': "fold_res (\<lambda>s c. bind_res (mapme_setFacePending E now s (fibEntry_GetPrefix (mm_entry s e)) e c True p False 0)
      (\<lambda>(_, s). Inr s)) ?s cs = Inr s'" "mm_inv E s'" "keeps ?s s'"
    "w_sent (mm_world s') = w_sent (mm_world ?s) @ concat (map (\<lambda>c. sent_log E ?s c (update_message E now bv q)) cs)"
    "\<forall>c\<in>set cs. armed E s' (e, c) (first_args name e p c)"
    "\<And>k. fst k \<noteq> e \<or> snd k \<notin> set cs \<Longrightarrow> slots E s' k = slots E ?s k \<and> (\<forall>a. armed E ?s k a \<longrightarrow> armed E s' k a)" using Cons.IH by blast
  have "sent_log E ?s = sent_log E s" using K(2) by (simp add: sent_log_def fun_eq_iff)
  then have sent: "w_sent (mm_world s') = w_sent (mm_world s) @ concat (map (\<lambda>c. sent_log E s c (update_message E now bv q)) (c # cs))"
    using s'(4) W(4) by (simp add: m_def)
  have "armed E s' (e, c) ?a" using s'(6)[of "(e, c)"] A(1) Cons.prems(4) by simp
  then have all: "\<forall>c\<in>set (c # cs). armed E s' (e, c) (first_args name e p c)" using s'(5) by simp
  have others: "slots E s' k = slots E s k \<and> (\<forall>a. armed E s k a \<longrightarrow> armed E s' k a)" if "fst k \<noteq> e \<or> snd k \<notin> set (c # cs)" for k
  proof -
    have k: "k \<noteq> (e, c)" "fst k \<noteq> e \<or> snd k \<notin> set cs" using that by auto
    have "armed E ?s1 k a = armed E s k a" for a by (simp add: armed_def)
    then show ?thesis using s'(6)[OF k(2)] A(2)[of k] k(1) W(1) by simp
  qed
  have "fold_res (\<lambda>s c. bind_res (mapme_setFacePending E now s (fibEntry_GetPrefix (mm_entry s e)) e c True p False 0) (\<lambda>(_, s). Inr s)) s (c # cs) = Inr s'"
    using step s'(1) by simp
  then show ?case using s'(2) keeps_trans[OF kept s'(3)] sent all others by blast
qed simp

section \<open>Names in packets\<close>

text \<open>The parameters for the stack have the lengths of their types.\<close>

definition stack_ok :: "('d, 't, 'l, 'i, 'p, 'o, 'h) mm_ops \<Rightarrow> bool" where
  "stack_ok E \<longleftrightarrow> length (hp_name (mo_hicn_prefix E)) = 16 \<and> length (pfx_address (mo_ip_prefix E)) = 16"

lemma word64_bytes:
  fixes v w :: u64
  assumes "\<And>k. k < 8 \<Longrightarrow> (ucast (drop_bit (8 * k) v) :: u8) = ucast (drop_bit (8 * k) w)"
  shows "v = w"
proof (rule bit_word_eqI)
  fix n assume n: "n < LENGTH(64)"
  have "bit (ucast (drop_bit (8 * (n div 8)) x) :: u8) (n mod 8) = bit x n" for x :: u64
    by (simp add: bit_ucast_iff bit_drop_bit_eq)
  moreover have "n div 8 < 8" using n by (simp add: less_mult_imp_div_less)
  ultimately show "bit v n = bit w n" using assms[of "n div 8"] by metis
qed

lemma In6Addr_of_bits: "nameBitvector_CreateFromIn6Addr (nb_to_s6_addr nb) len = nb\<lparr>nb_len := len, IPversion := IPv6_TYPE\<rparr>"
proof -
  let ?nb = "nameBitvector_CreateFromIn6Addr (nb_to_s6_addr nb) len"
  have eq: "nb_to_s6_addr ?nb = nb_to_s6_addr nb" by (rule nb_to_s6_addr_CreateFromIn6Addr) (simp add: nb_to_s6_addr_def)
  have byte: "(ucast (drop_bit (8 * k) (bits0 x)) :: u8) = nb_to_s6_addr x ! (7 - k)"
    "(ucast (drop_bit (8 * k) (bits1 x)) :: u8) = nb_to_s6_addr x ! (15 - k)" if "k < 8" for k and x :: NameBitvector
    using that by (auto simp: nb_to_s6_addr_def nth_append ucast_and_FF)
  have "bits0 ?nb = bits0 nb" by (rule word64_bytes) (simp add: byte eq)
  moreover have "bits1 ?nb = bits1 nb" by (rule word64_bytes) (simp add: byte eq)
  ultimately show ?thesis by (simp add: nameBitvector_CreateFromIn6Addr_def)
qed

lemma name_prefix_v6:
  assumes "stack_ok E" "IPversion bv \<noteq> IPv4_TYPE"
  shows "hp_name (name_prefix E bv) = nb_to_s6_addr bv" "hp_len (name_prefix E bv) = nb_len bv" "mapme_prefix_ok IPPROTO_IPV6 (name_prefix E bv)"
proof -
  have len: "length (nb_to_s6_addr bv) = 16" by (simp add: nb_to_s6_addr_def)
  have put: "put xs 0 ys = ys" if "length xs = 16" "length ys = 16" for xs ys :: bytes
  proof -
    have "field (put xs 0 ys) 0 16 = field ys 0 16" using that by (intro nth_equalityI) (auto simp: byte_put_0 byte_def[of ys] simp del: put.simps)
    then show ?thesis using that by (simp add: field_all del: put.simps)
  qed
  show *: "hp_name (name_prefix E bv) = nb_to_s6_addr bv" "hp_len (name_prefix E bv) = nb_len bv"
    using assms len by (simp_all add: name_prefix_def hicn_prefix_create_from_ip_prefix_def to_ip_prefix_def nameBitvector_ToIPAddress_def AF_INET_def
        AF_INET6_def stack_ok_def put field_all del: put.simps)
  then show "mapme_prefix_ok IPPROTO_IPV6 (name_prefix E bv)" using len by (simp add: mapme_prefix_ok_def)
qed

text \<open>The bytes of an update and of the acknowledgement made from it.\<close>

definition update_bytes :: "hicn_prefix \<Rightarrow> u32 \<Rightarrow> bytes" where
  "update_bytes pfx seq = put (replicate 88 0) 0 (mapme_v6_header pfx \<lparr>mp_protocol = IPPROTO_IPV6, mp_type = UPDATE, mp_seq = seq\<rparr>)"

definition ack_bytes :: "hicn_prefix \<Rightarrow> u32 \<Rightarrow> bytes" where
  "ack_bytes pfx seq = snd (hicn_mapme_v6_create_ack (update_bytes pfx seq) \<lparr>mp_protocol = IPPROTO_IPV6, mp_type = UPDATE, mp_seq = seq\<rparr>)"

lemma update_message_head: "messageHead (update_message E now bv seq) = update_bytes (name_prefix E bv) seq"
  by (simp add: update_message_def update_bytes_def message_CreateFromByteArray_def)

lemma update_bytes_fields:
  assumes "mapme_prefix_ok IPPROTO_IPV6 pfx"
  shows "length (update_bytes pfx seq) = 88" "byte (update_bytes pfx seq) 0 = 0x60" "byte (update_bytes pfx seq) 6 = IPPROTO_ICMPV6"
    "field (update_bytes pfx seq) 24 16 = hp_name pfx"
    "hicn_mapme_parse_packet (update_bytes pfx seq) p m = (HICN_LIB_ERROR_NONE, pfx, \<lparr>mp_protocol = IPPROTO_IPV6, mp_type = UPDATE, mp_seq = seq\<rparr>)"
proof -
  note F = v6_header_fields[OF _ update_bytes_def, simplified]
  have pfx: "field (hp_name pfx) 0 16 = hp_name pfx" using assms by (simp add: mapme_prefix_ok_def field_all)
  show "length (update_bytes pfx seq) = 88" by (simp add: update_bytes_def)
  show "byte (update_bytes pfx seq) 0 = 0x60" "byte (update_bytes pfx seq) 6 = IPPROTO_ICMPV6" "field (update_bytes pfx seq) 24 16 = hp_name pfx"
    using F pfx by simp_all
  show "hicn_mapme_parse_packet (update_bytes pfx seq) p m = (HICN_LIB_ERROR_NONE, pfx, \<lparr>mp_protocol = IPPROTO_IPV6, mp_type = UPDATE, mp_seq = seq\<rparr>)"
    using F pfx by (simp add: hicn_mapme_parse_packet_def hicn_mapme_v6_parse_packet_def HICN_IP_VERSION_def mapme_kinds mapme_consts)
qed

lemma ack_bytes_fields:
  assumes "mapme_prefix_ok IPPROTO_IPV6 pfx"
  shows "length (ack_bytes pfx seq) = 88" "byte (ack_bytes pfx seq) 0 = 0x60" "byte (ack_bytes pfx seq) 6 = IPPROTO_ICMPV6"
    "field (ack_bytes pfx seq) 8 16 = hp_name pfx"
    "hicn_mapme_parse_packet (ack_bytes pfx seq) p m = (HICN_LIB_ERROR_NONE, pfx, \<lparr>mp_protocol = IPPROTO_IPV6, mp_type = UPDATE_ACK, mp_seq = seq\<rparr>)"
proof -
  note U = update_bytes_fields[OF assms, of seq]
  note F = v6_header_fields[OF _ update_bytes_def, simplified] and A = v6_ack_fields[OF _ ack_bytes_def]
  show "length (ack_bytes pfx seq) = 88" "byte (ack_bytes pfx seq) 0 = 0x60" "byte (ack_bytes pfx seq) 6 = IPPROTO_ICMPV6"
    "field (ack_bytes pfx seq) 8 16 = hp_name pfx" using U A by simp_all
  show "hicn_mapme_parse_packet (ack_bytes pfx seq) p m = (HICN_LIB_ERROR_NONE, pfx, \<lparr>mp_protocol = IPPROTO_IPV6, mp_type = UPDATE_ACK, mp_seq = seq\<rparr>)"
    using U A F(7,8) by (simp add: hicn_mapme_parse_packet_def hicn_mapme_v6_parse_packet_def HICN_IP_VERSION_def mapme_kinds mapme_consts)
qed

lemma not_TCP: "byte b 0 = 0x60 \<Longrightarrow> byte b 6 = IPPROTO_ICMPV6 \<Longrightarrow> \<not> messageHandler_IsTCP b"
  by (simp add: messageHandler_IsTCP_def messageHandler_NextHeaderType_def messageHandler_GetIPPacketType_def IPPROTO_ICMPV6_def IPPROTO_TCP_def)

lemma createAck_eq:
  assumes "mapme_prefix_ok IPPROTO_IPV6 pfx"
  shows "mapme_createAckMessage E now (update_bytes pfx seq) \<lparr>mp_protocol = IPPROTO_IPV6, mp_type = UPDATE, mp_seq = seq\<rparr> =
    Some (message_CreateFromByteArray (mo_hash E) NO_INGRESS (ack_bytes pfx seq) MessagePacketType_ContentObject now)"
proof -
  have "field (update_bytes pfx seq) 0 88 = update_bytes pfx seq" using update_bytes_fields(1)[OF assms] by (simp add: field_all)
  then show ?thesis
    by (simp add: mapme_createAckMessage_def hicn_mapme_create_ack_def ack_bytes_def HICN_MAPME_V6_HDRLEN_def Let_def hicn_mapme_v6_create_ack_def del: put.simps)
qed

text \<open>The name that a node reads in the update and in the acknowledgement has the bits of the prefix.\<close>

lemma packet_names:
  assumes "stack_ok E" "IPversion bv \<noteq> IPv4_TYPE"
  shows "\<exists>n. packet_prefix H (update_bytes (name_prefix E bv) seq) MessagePacketType_Interest (name_prefix E bv) = Inr n \<and>
      content_name n = Some (bv\<lparr>IPversion := IPv6_TYPE\<rparr>)"
    "\<exists>n. packet_prefix H (ack_bytes (name_prefix E bv) seq) MessagePacketType_ContentObject (name_prefix E bv) = Inr n \<and>
      content_name n = Some (bv\<lparr>IPversion := IPv6_TYPE\<rparr>)"
proof -
  note N = name_prefix_v6[OF assms]
  have addr: "map (\<lambda>i. byte (update_bytes (name_prefix E bv) seq) (24 + i)) [0..<16] = nb_to_s6_addr bv"
    "map (\<lambda>i. byte (ack_bytes (name_prefix E bv) seq) (8 + i)) [0..<16] = nb_to_s6_addr bv"
    using update_bytes_fields(4)[OF N(3)] ack_bytes_fields(4)[OF N(3)] N(1) by (simp_all add: field_def)
  have set: "nameBitvector_setLen (bv\<lparr>nb_len := 128, IPversion := IPv6_TYPE\<rparr>) (unat (nb_len bv)) = bv\<lparr>IPversion := IPv6_TYPE\<rparr>"
    by (simp add: nameBitvector_setLen_def)
  note defs = packet_prefix_def name_CreateFromPacket_def messageHandler_GetDestination_def messageHandler_GetSource_def messageHandler_GetIPPacketType_def
    In6Addr_of_bits name_setLen_def make_name_def Let_def IPv6_TYPE_def N(2)
  show "\<exists>n. packet_prefix H (update_bytes (name_prefix E bv) seq) MessagePacketType_Interest (name_prefix E bv) = Inr n \<and>
      content_name n = Some (bv\<lparr>IPversion := IPv6_TYPE\<rparr>)"
    using addr(1) set update_bytes_fields(2)[OF N(3)] by (simp add: defs)
  show "\<exists>n. packet_prefix H (ack_bytes (name_prefix E bv) seq) MessagePacketType_ContentObject (name_prefix E bv) = Inr n \<and>
      content_name n = Some (bv\<lparr>IPversion := IPv6_TYPE\<rparr>)"
    using addr(2) set ack_bytes_fields(2)[OF N(3)] by (simp add: defs)
qed

lemma nb_bits_version [simp]: "nb_bits (bv\<lparr>IPversion := v\<rparr>) = nb_bits bv" "nb_valid (bv\<lparr>IPversion := v\<rparr>) = nb_valid bv"
  by (simp_all add: nb_bits_def nb_bit_def nb_valid_def)

section \<open>Updates end to end\<close>

lemma fold_res_skip: "fold_res (\<lambda>s x. if x = c then Inr s else f s x) s xs = fold_res f s (filter (\<lambda>x. x \<noteq> c) xs)"
  by (induction xs arbitrary: s) auto

lemma seq_of_set: "refs_ok s \<Longrightarrow> TFIB s e = Some r \<Longrightarrow> seq_of (tfib_update (\<lambda>t. t\<lparr>tfib_seq := q\<rparr>) s r) = (seq_of s)(e \<mapsto> q)"
  using other_ref[of s e r] by (auto simp: seq_of_def fun_eq_iff split: option.splits)

text \<open>The slots of the entry after an update that came from \<open>c\<close>, given the next hops before it.\<close>

definition slots_after ::
  "('d, 't, 'l, 'i, 'p, 'o, 'h) mm_ops \<Rightarrow> ('d, 't, 'l, 'i, 'p, 'o, 'h) MapMe \<Rightarrow> ('d, 't, 'l, 'i, 'p, 'o, 'h) MapMe \<Rightarrow> nat \<Rightarrow> connid set \<Rightarrow> connid \<Rightarrow> bool" where
  "slots_after E s s' e hops c \<longleftrightarrow>
     slots E s' (e, c) = None \<and>
     (\<forall>c'. c' \<noteq> c \<longrightarrow> c' \<in> hops \<longrightarrow> armed E s' (e, c') (first_args (fibEntry_GetPrefix (mm_entry s e)) e False c')) \<and>
     (\<forall>c'. c' \<noteq> c \<longrightarrow> c' \<notin> hops \<longrightarrow> slots E s' (e, c') = (if slots E s (e, c') = None then None else Some None)) \<and>
     (\<forall>e' c'. e' \<noteq> e \<longrightarrow> slots E s' (e', c') = slots E s (e', c'))"

lemma newer_update_effect:
  assumes "hm_laws (mo_hm E)" "\<And>t. mo_timer_ok E t" "mm_inv E s" "TFIB s e = Some r" "ns_inv (nexthops (mm_entry s e))"
    and "content_name (fe_name (mm_entry s e)) = Some bv" "mp_type params = UPDATE"
  shows "\<exists>s' fe. newer_update E now s e r c params = Inr s' \<and> mm_inv E s' \<and> mm_table s' = mm_table s \<and> mm_fib s' = fs_put (mm_fib s) e fe \<and>
    fe_name fe = fe_name (mm_entry s e) \<and> ns_inv (nexthops fe) \<and> ns_set (nexthops fe) = {c} \<and> userData fe = userData (mm_entry s e) \<and>
    seq_of s' = (seq_of s)(e \<mapsto> mp_seq params) \<and> slots_after E s s' e (ns_set (nexthops (mm_entry s e))) c \<and>
    w_sent (mm_world s') = w_sent (mm_world s) @
      concat (map (\<lambda>c'. sent_log E s c' (update_message E now bv (mp_seq params))) (filter (\<lambda>c'. c' \<noteq> c) (ns_items (nexthops (mm_entry s e)))))"
proof -
  let ?hops = "nexthops (mm_entry s e)" and ?q = "mp_seq params" and ?name = "fibEntry_GetPrefix (mm_entry s e)"
  define s1 where "s1 = tfib_update (\<lambda>t. t\<lparr>tfib_seq := ?q\<rparr>) s r"
  have refs: "refs_ok s" using assms(3) by (simp add: mm_inv_def)
  have s1: "mm_inv E s1" "TFIB s1 e = Some r" "slots E s1 = slots E s" "seq_of s1 = (seq_of s)(e \<mapsto> ?q)" "mm_world s1 = mm_world s"
    "mm_fib s1 = mm_fib s" "mm_table s1 = mm_table s"
    using assms(3,4) seq_of_set[OF refs assms(4)] by (simp_all add: s1_def tfib_update_inv)
  define keys where "keys = mapmeTFIB_CreateKeyIterator E s1 r"
  have keys: "c' \<in> set keys \<longleftrightarrow> slots E s (e, c') \<noteq> None" for c'
    using hm_lawsD(6)[OF assms(1)] s1(2) s1(3)[symmetric] by (simp add: keys_def mapmeTFIB_CreateKeyIterator_def slots_def)
  from silence_all[OF assms(1) s1(1,2), of now keys] obtain s2 where
    s2: "fold_res (\<lambda>s c. bind_res (mapme_setFacePending E now s (fibEntry_GetPrefix (mm_entry s e)) e c False False False 0) (\<lambda>(_, s). Inr s)) s1 keys = Inr s2"
    "mm_inv E s2" "keeps s1 s2" "mm_world s2 = mm_world s1" "slots E s2 = (\<lambda>k. if fst k = e \<and> snd k \<in> set keys then Some None else slots E s1 k)" by blast
  note K2 = keepsD[OF s2(3)]
  have entry2: "mm_entry s2 = mm_entry s" using K2(6) by (simp add: s1_def)
  define nhs where "nhs = numberSet_AddSet numberSet_Create (fibEntry_GetNexthops (mm_entry s2 e))"
  have nhs: "ns_inv nhs" "ns_items nhs = ns_items ?hops"
    using assms(5) by (simp_all add: nhs_def entry2 fibEntry_GetNexthops_def AddSet_Create AddSet_abs)
  define s3 where "s3 = mapmeTFIB_Remove E s2 r c"
  have T2: "TFIB s2 e = Some r" "refs_ok s2" using K2(5) s1(2) s2(2) by (simp_all add: mm_inv_def)
  have s3: "mm_inv E s3" "TFIB s3 e = Some r" "slots E s3 = (slots E s2)((e, c) := None)" "mm_entry s3 = mm_entry s" "mm_world s3 = mm_world s"
    "mm_fib s3 = mm_fib s" "mm_table s3 = mm_table s" "seq_of s3 = seq_of s1"
    using Remove_inv[OF assms(1) s2(2) T2(1)] Remove_slots(1)[OF assms(1) T2(2,1)] T2(1) entry2 s2(4) s1(5-7) K2(1,2,4) by (simp_all add: s3_def)
  have "ns_inv (nexthops (mm_entry s3 e))" using assms(5) s3(4) by simp
  from remove_hops[OF this, of "mo_st E" "ns_items nhs"] obtain fe where
    fe: "ns_for nhs (\<lambda>s c. Inr (mm_put_entry s e (fibEntry_RemoveNexthopByConnectionId (mo_st E) (mm_entry s e) c))) s3 = Inr (mm_put_entry s3 e fe)"
    "ns_inv (nexthops fe)" "ns_set (nexthops fe) = {}" "fe_name fe = fe_name (mm_entry s e)" "userData fe = userData (mm_entry s e)"
    using s3(4) nhs by (auto simp: ns_for_items ns_set_def)
  define fe' where "fe' = fibEntry_AddNexthop (mo_st E) fe c"
  define s4 where "s4 = mm_put_entry s3 e fe'"
  have fe': "ns_inv (nexthops fe')" "ns_set (nexthops fe') = {c}" "fe_name fe' = fe_name (mm_entry s e)" "userData fe' = userData (mm_entry s e)"
    using nexthops_AddNexthop[OF fe(2), of "mo_st E" c] fe(3,4,5) by (simp_all add: fe'_def)
  have again: "mm_put_entry (mm_put_entry s3 e fe) e (fibEntry_AddNexthop (mo_st E) fe c) = s4"
    by (simp add: s4_def fe'_def mm_put_entry_def fs_put_def mm_entry_def)
  have u: "userData fe' = userData (mm_entry s3 e)" using fe'(4) s3(4) by simp
  have s4: "mm_inv E s4" "TFIB s4 e = Some r" "slots E s4 = slots E s3" "seq_of s4 = seq_of s3" "mm_fib s4 = fs_put (mm_fib s) e fe'"
    "?name = fibEntry_GetPrefix (mm_entry s4 e)" "mm_world s4 = mm_world s" "mm_table s4 = mm_table s"
    using s3 put_entry_inv[OF u] fe'(3) by (simp_all add: s4_def fibEntry_GetPrefix_def)
  have q: "seq_of s4 e = Some ?q" using s4(4) s3(8) s1(4) by simp
  define cs where "cs = filter (\<lambda>c'. c' \<noteq> c) (ns_items ?hops)"
  have cs: "distinct cs" "set cs = ns_set ?hops - {c}" using assms(5) by (auto simp: cs_def ns_set_def ns_inv_def)
  have bv: "content_name ?name = Some bv" using assms(6) by (simp add: fibEntry_GetPrefix_def)
  from arm_all[OF assms(1,2) bv s4(1,2,6) cs(1) q, of now False] obtain s' where
    s': "fold_res (\<lambda>s c. bind_res (mapme_setFacePending E now s (fibEntry_GetPrefix (mm_entry s e)) e c True False False 0) (\<lambda>(_, s). Inr s)) s4 cs = Inr s'"
    "mm_inv E s'" "keeps s4 s'" "w_sent (mm_world s') = w_sent (mm_world s4) @ concat (map (\<lambda>c. sent_log E s4 c (update_message E now bv ?q)) cs)"
    "\<forall>c\<in>set cs. armed E s' (e, c) (first_args ?name e False c)"
    "\<And>k. fst k \<noteq> e \<or> snd k \<notin> set cs \<Longrightarrow> slots E s' k = slots E s4 k" by blast
  note K = keepsD[OF s'(3)]
  have "newer_update E now s e r c params = Inr s'"
    using s2(1) fe(1) s'(1) nhs assms(7)
    by (simp add: newer_update_def Let_def s1_def[symmetric] keys_def[symmetric] nhs_def[symmetric] s3_def[symmetric] again fold_res_skip
        ns_for_items[OF nhs(1)] cs_def del: bind_res_eq_Inr)
  moreover have "slots_after E s s' e (ns_set ?hops) c"
    using s'(5,6) cs(2) s4(3) s3(3) s2(5) s1(3) keys by (auto simp: slots_after_def)
  moreover have "sent_log E s4 = sent_log E s" using s4(8) by (simp add: sent_log_def fun_eq_iff)
  ultimately show ?thesis
    using s'(2,4) fe' K s4(4,5,7,8) s3(8) s1(4) unfolding cs_def by (intro exI[of _ s'] exI[of _ fe']) simp
qed

text \<open>None of the next hops of an entry is local, and all are in the table.\<close>

definition remote_hops :: "('d, 't, 'l, 'i, 'p, 'o, 'h) mm_ops \<Rightarrow> ('d, 't, 'l, 'i, 'p, 'o, 'h) MapMe \<Rightarrow> nat \<Rightarrow> bool" where
  "remote_hops E s e \<longleftrightarrow>
     (\<forall>c\<in>ns_set (nexthops (mm_entry s e)). \<exists>conn. ct_lookup (mo_ct E) (mm_table s) c = Some conn \<and> \<not> connection_IsLocal conn)"

lemma local_loop_remote:
  assumes "ns_inv nhs" "\<forall>c\<in>ns_set nhs. \<exists>conn. ct_lookup C table c = Some conn \<and> \<not> connection_IsLocal conn"
  shows "set js \<subseteq> {..<length (ns_items nhs)} \<Longrightarrow> local_loop C table nhs js = Inr False"
proof (induction js)
  case (Cons j js)
  then have "ns_items nhs ! j \<in> ns_set nhs" by (simp add: ns_set_def)
  then obtain conn where "ct_lookup C table (ns_items nhs ! j) = Some conn" "\<not> connection_IsLocal conn" using assms(2) by blast
  then show ?case using Cons by (simp add: GetItem_abs[OF assms(1)])
qed simp

lemma no_local_hops:
  assumes "ns_inv (nexthops (mm_entry s e))" "remote_hops E s e"
  shows "mapme_hasLocalNextHops E s e = Inr False"
proof -
  have "set [0..<numberSet_Length (nexthops (mm_entry s e))] \<subseteq> {..<length (ns_items (nexthops (mm_entry s e)))}"
    using assms(1) by (auto simp: Length_items)
  from local_loop_remote[OF assms(1) _ this, of "mo_ct E" "mm_table s"] assms(2) show ?thesis
    by (simp add: mapme_hasLocalNextHops_def remote_hops_def fibEntry_GetNexthops_def fibEntry_NexthopCount_def)
qed

definition older_seq :: "u32 option \<Rightarrow> u32 \<Rightarrow> bool" where
  "older_seq x q \<longleftrightarrow> (case x of None \<Rightarrow> INIT_SEQ < q | Some q' \<Rightarrow> q' < q)"

lemma update_entry_effect:
  assumes "hm_laws (mo_hm E)" "\<And>t. mo_timer_ok E t" "mm_inv E s" "ns_inv (nexthops (mm_entry s e))" "remote_hops E s e"
    and "content_name (fe_name (mm_entry s e)) = Some bv" "mp_type params = UPDATE" "older_seq (seq_of s e) (mp_seq params)"
  shows "\<exists>s' fe. update_entry E now s e c params = Inr s' \<and> mm_inv E s' \<and> mm_table s' = mm_table s \<and> mm_fib s' = fs_put (mm_fib s) e fe \<and>
    fe_name fe = fe_name (mm_entry s e) \<and> ns_inv (nexthops fe) \<and> ns_set (nexthops fe) = {c} \<and>
    seq_of s' = (seq_of s)(e \<mapsto> mp_seq params) \<and> slots_after E s s' e (ns_set (nexthops (mm_entry s e))) c \<and>
    w_sent (mm_world s') = w_sent (mm_world s) @
      concat (map (\<lambda>c'. sent_log E s c' (update_message E now bv (mp_seq params))) (filter (\<lambda>c'. c' \<noteq> c) (ns_items (nexthops (mm_entry s e)))))"
proof -
  define s1 where "s1 = (if TFIB s e = None then mapme_CreateTFIB E s e else s)"
  note N = TFIB_or_new[OF assms(1,3) s1_def]
  let ?r = "the (TFIB s1 e)"
  have s1: "mm_table s1 = mm_table s" "mm_world s1 = mm_world s" "nexthops (mm_entry s1 e) = nexthops (mm_entry s e)"
    "fe_name (mm_entry s1 e) = fe_name (mm_entry s e)" "fs_put (mm_fib s1) e = fs_put (mm_fib s) e"
    using CreateTFIB_fields[of s e E] by (auto simp: s1_def mm_entry_def fs_put_def fun_eq_iff)
  have "remote_hops E s1 e" using assms(5) s1 by (simp add: remote_hops_def)
  then have local: "mapme_hasLocalNextHops E s1 e = Inr False" using no_local_hops[of s1 e E] assms(4) s1(3) by simp
  have seq: "seq_of s1 e = Some (tfib_seq (mm_tfibs s1 ?r))" using N(3) by (cases "TFIB s1 e") (simp_all add: seq_of_def)
  then have "mp_seq params > tfib_seq (mm_tfibs s1 ?r)"
    using assms(8) N(4) by (auto simp: older_seq_def seq_of_def split: option.splits if_splits)
  then have eq: "update_entry E now s e c params = newer_update E now s1 e ?r c params" using update_entry_eq[OF s1_def local] by simp
  have ok1: "ns_inv (nexthops (mm_entry s1 e))" "content_name (fe_name (mm_entry s1 e)) = Some bv" using assms(4,6) s1 by simp_all
  from newer_update_effect[OF assms(1,2) N(1,3) ok1 assms(7), of now c] obtain s' fe where
    S: "newer_update E now s1 e ?r c params = Inr s'" "mm_inv E s'" "mm_table s' = mm_table s1" "mm_fib s' = fs_put (mm_fib s1) e fe"
    "fe_name fe = fe_name (mm_entry s1 e)" "ns_inv (nexthops fe)" "ns_set (nexthops fe) = {c}" "seq_of s' = (seq_of s1)(e \<mapsto> mp_seq params)"
    "slots_after E s1 s' e (ns_set (nexthops (mm_entry s1 e))) c"
    "w_sent (mm_world s') = w_sent (mm_world s1) @ concat (map (\<lambda>c'. sent_log E s1 c' (update_message E now bv (mp_seq params)))
        (filter (\<lambda>c'. c' \<noteq> c) (ns_items (nexthops (mm_entry s1 e)))))" by blast
  have "sent_log E s1 = sent_log E s" using s1(1) by (simp add: sent_log_def fun_eq_iff)
  moreover have "slots_after E s s' e (ns_set (nexthops (mm_entry s e))) c"
    using S(9) s1(3,4) N(2) by (simp add: slots_after_def fibEntry_GetPrefix_def)
  moreover have "seq_of s' = (seq_of s)(e \<mapsto> mp_seq params)" using S(8) N(4) by (auto simp: fun_eq_iff)
  ultimately show ?thesis using S s1 eq by (intro exI[of _ s'] exI[of _ fe]) simp
qed

text \<open>A connection over which an acknowledgement can be sent.\<close>

definition link_ok :: "('d, 't, 'l, 'i, 'p, 'o, 'h) mm_ops \<Rightarrow> ('d, 't, 'l, 'i, 'p, 'o, 'h) MapMe \<Rightarrow> connid \<Rightarrow> bool" where
  "link_ok E s c \<longleftrightarrow> (\<exists>conn. ct_lookup (mo_ct E) (mm_table s) c = Some conn \<and> connection_IsUp conn \<and> (\<forall>m. io_send (ops conn) m))"

definition ack_message :: "('d, 't, 'l, 'i, 'p, 'o, 'h) mm_ops \<Rightarrow> ticks \<Rightarrow> hicn_prefix \<Rightarrow> u32 \<Rightarrow> Message" where
  "ack_message E now pfx seq = message_CreateFromByteArray (mo_hash E) NO_INGRESS (ack_bytes pfx seq) MessagePacketType_ContentObject now"

lemma update_answered:
  assumes "stack_ok E'" "IPversion bv \<noteq> IPv4_TYPE" "nb_valid bv" "fs_inv (mm_fib s)" "fs_entry (mm_fib s) (nb_bits bv) = Some e"
    and "link_ok E s c" "pfx = name_prefix E' bv"
  shows "mapme_Process E now stack s (update_bytes pfx q) c =
    (let s1 = after_sending E s c (ack_message E now pfx q)
     in update_entry E now s1 e c \<lparr>mp_protocol = IPPROTO_IPV6, mp_type = UPDATE, mp_seq = q\<rparr>)"
proof -
  let ?params = "\<lparr>mp_protocol = IPPROTO_IPV6, mp_type = UPDATE, mp_seq = q\<rparr>" and ?ack = "ack_message E now pfx q"
  note N = name_prefix_v6[OF assms(1,2), folded assms(7)]
  obtain n where n: "packet_prefix (mo_hash E) (update_bytes pfx q) MessagePacketType_Interest pfx = Inr n" "content_name n = Some (bv\<lparr>IPversion := IPv6_TYPE\<rparr>)"
    using packet_names(1)[OF assms(1,2), of "mo_hash E" q] assms(7) by blast
  obtain conn where conn: "ct_lookup (mo_ct E) (mm_table s) c = Some conn" "connection_IsUp conn" "io_send (ops conn) ?ack" using assms(6) by (auto simp: link_ok_def)
  have "packetType ?ack = MessagePacketType_ContentObject" "\<not> messageHandler_IsTCP (messageHead ?ack)" "msg_refcount ?ack = 1"
    using not_TCP ack_bytes_fields(2,3)[OF N(3)] by (simp_all add: ack_message_def message_CreateFromByteArray_def)
  from send_ack_eq[OF this conn(1)] conn(2,3) have ack: "send_ack E s ?ack c = Inr (True, after_sending E s c ?ack)" by simp
  have find: "fib_ContainsName (mm_fib s) n = Inr (Some e)" using ContainsName_ok[OF assms(4) n(2)] assms(3,5) by simp
  show ?thesis
    using n(1) ack find update_bytes_fields(5)[OF N(3), of q] createAck_eq[OF N(3), of E now q]
    by (cases "update_entry E now (after_sending E s c ?ack) e c ?params")
      (simp_all add: mapme_Process_def mapme_onSpecialInterest_def ack_message_def Let_def)
qed

text \<open>What an acknowledgement does, whoever made it.\<close>

lemma ack_effect:
  assumes "stack_ok E'" "IPversion bv \<noteq> IPv4_TYPE" "nb_valid bv" "fs_inv (mm_fib s)" "fs_entry (mm_fib s) (nb_bits bv) = Some e"
  shows "mapme_Process E now stack s (ack_bytes (name_prefix E' bv) q) c =
    (case TFIB s e of
       None \<Rightarrow> if q \<noteq> INVALID_SEQ then Inl NullDereference else Inr s
     | Some r \<Rightarrow>
         if q \<noteq> INVALID_SEQ \<and> q < tfib_seq (mm_tfibs s r) \<or> mapmeTFIB_Get E s r c = None then Inr s
         else Inr (tfib_update (\<lambda>t. t\<lparr>lastAckedUpdate := now\<rparr>) (mapmeTFIB_Remove E s r c) r))"
proof -
  let ?pfx = "name_prefix E' bv"
  note N = name_prefix_v6[OF assms(1,2)]
  obtain n where n: "packet_prefix (mo_hash E) (ack_bytes ?pfx q) MessagePacketType_ContentObject ?pfx = Inr n"
    "content_name n = Some (bv\<lparr>IPversion := IPv6_TYPE\<rparr>)" using packet_names(2)[OF assms(1,2), of "mo_hash E" q] by blast
  have find: "fib_ContainsName (mm_fib s) n = Inr (Some e)" using ContainsName_ok[OF assms(4) n(2)] assms(3,5) by simp
  have "mapme_Process E now stack s (ack_bytes ?pfx q) c =
      mapme_onSpecialInterestAck E now s (ack_bytes ?pfx q) c ?pfx \<lparr>mp_protocol = IPPROTO_IPV6, mp_type = UPDATE_ACK, mp_seq = q\<rparr>"
    using ack_bytes_fields(5)[OF N(3), of q] by (simp add: mapme_Process_def Let_def)
  also have "\<dots> = (case TFIB s e of
       None \<Rightarrow> if q \<noteq> INVALID_SEQ then Inl NullDereference else Inr s
     | Some r \<Rightarrow>
         if q \<noteq> INVALID_SEQ \<and> q < tfib_seq (mm_tfibs s r) \<or> mapmeTFIB_Get E s r c = None then Inr s
         else Inr (tfib_update (\<lambda>t. t\<lparr>lastAckedUpdate := now\<rparr>) (mapmeTFIB_Remove E s r c) r))"
    using n(1) find
    by (cases "TFIB s e"; cases "q = INVALID_SEQ"; cases "mapmeTFIB_Get E s (the (TFIB s e)) c") (simp_all add: mapme_onSpecialInterestAck_def Let_def)
  finally show ?thesis .
qed

text \<open>The loop of a producer, in which the first call clears the TFIB.\<close>

lemma producer_loop:
  assumes "\<And>c. c \<in> set cs \<Longrightarrow> ct_lookup (mo_ct E) (mm_table s) c \<noteq> None" "name = fibEntry_GetPrefix (mm_entry s e)"
    and "fold_res (\<lambda>s c. bind_res (mapme_setFacePending E now s (fibEntry_GetPrefix (mm_entry s e)) e c True p False 0) (\<lambda>(_, s). Inr s)) s cs = Inr s'"
    and "hm_laws (mo_hm E)" "mm_inv E s"
  shows "fold_res (\<lambda>(clear_tfib, s) c.
           case ct_lookup (mo_ct E) (mm_table s) c of
             None \<Rightarrow> Inl NullDereference
           | Some conn \<Rightarrow> bind_res (mapme_setFacePending E now s name e c True p clear_tfib 0) (\<lambda>(_, s). Inr (False, s))) (False, s) cs = Inr (False, s')"
  using assms(1,2,3,5)
proof (induction cs arbitrary: s)
  case (Cons c cs)
  then obtain b s1 where s1: "mapme_setFacePending E now s (fibEntry_GetPrefix (mm_entry s e)) e c True p False 0 = Inr (b, s1)"
    "fold_res (\<lambda>s c. bind_res (mapme_setFacePending E now s (fibEntry_GetPrefix (mm_entry s e)) e c True p False 0) (\<lambda>(_, s). Inr s)) s1 cs = Inr s'" by auto
  from setFacePending_inv[OF assms(4) Cons.prems(4) s1(1)] have inv: "mm_inv E s1" "keeps s s1" by simp_all
  note K = keepsD[OF inv(2)]
  obtain conn where conn: "ct_lookup (mo_ct E) (mm_table s) c = Some conn" using Cons.prems(1) by fastforce
  have "fold_res (\<lambda>(clear_tfib, s) c.
           case ct_lookup (mo_ct E) (mm_table s) c of
             None \<Rightarrow> Inl NullDereference
           | Some conn \<Rightarrow> bind_res (mapme_setFacePending E now s name e c True p clear_tfib 0) (\<lambda>(_, s). Inr (False, s))) (False, s1) cs = Inr (False, s')"
    by (rule Cons.IH) (use Cons.prems inv s1(2) K in auto)
  then show ?case using s1(1) conn Cons.prems(2) by simp
qed simp

lemma send_updates_effect:
  assumes "hm_laws (mo_hm E)" "\<And>t. mo_timer_ok E t" "mm_inv E s" "ns_inv nhs" "ns_set nhs \<noteq> {}"
    and "\<And>c. c \<in> ns_set nhs \<Longrightarrow> ct_lookup (mo_ct E) (mm_table s) c \<noteq> None" "content_name (fe_name (mm_entry s e)) = Some bv"
    and q: "q = (case seq_of s e of None \<Rightarrow> INIT_SEQ | Some q \<Rightarrow> q) + 1"
  shows "\<exists>s'. mapme_send_updates E now s e nhs = Inr s' \<and> mm_inv E s' \<and> mm_table s' = mm_table s \<and> seq_of s' = (seq_of s)(e \<mapsto> q) \<and>
    (\<forall>c. if c \<in> ns_set nhs then armed E s' (e, c) (first_args (fibEntry_GetPrefix (mm_entry s e)) e True c) else slots E s' (e, c) = None) \<and>
    (\<forall>e' c. e' \<noteq> e \<longrightarrow> slots E s' (e', c) = slots E s (e', c)) \<and>
    w_sent (mm_world s') = w_sent (mm_world s) @ concat (map (\<lambda>c. sent_log E s c (update_message E now bv q)) (ns_items nhs))"
proof -
  define s1 where "s1 = (if TFIB s e = None then mapme_CreateTFIB E s e else s)"
  note N = TFIB_or_new[OF assms(1,3) s1_def]
  define r where "r = the (TFIB s1 e)"
  define s2 where "s2 = tfib_update (\<lambda>t. t\<lparr>tfib_seq := tfib_seq t + 1\<rparr>) s1 r"
  have s1: "mm_table s1 = mm_table s" "mm_world s1 = mm_world s" "fe_name (mm_entry s1 e) = fe_name (mm_entry s e)"
    using CreateTFIB_fields[of s e E] by (auto simp: s1_def mm_entry_def)
  have T1: "TFIB s1 e = Some r" "refs_ok s1" using N(1,3) by (simp_all add: r_def mm_inv_def)
  have "tfib_seq (mm_tfibs s1 r) + 1 = q" using N(4) T1(1) q by (auto simp: seq_of_def fun_eq_iff split: if_splits option.splits dest: spec[of _ e])
  then have "s2 = tfib_update (\<lambda>t. t\<lparr>tfib_seq := q\<rparr>) s1 r" by (simp add: s2_def tfib_update_def)
  then have s2: "mm_inv E s2" "TFIB s2 e = Some r" "slots E s2 = slots E s" "seq_of s2 = (seq_of s)(e \<mapsto> q)"
    "fe_name (mm_entry s2 e) = fe_name (mm_entry s e)" "mm_table s2 = mm_table s" "mm_world s2 = mm_world s"
    using N(1,2,4) T1 s1 seq_of_set[OF T1(2,1), of q] by (auto simp: tfib_update_inv fun_eq_iff)
  obtain s3 where s3: "clear_TFIB E s2 r = Inr s3" "mm_inv E s3" "keeps s2 s3" "mm_world s3 = mm_world s2"
      "slots E s3 = (\<lambda>k. if fst k = e then None else slots E s2 k)" using clear_TFIB_ok[OF assms(1) s2(1,2)] by blast
  note K3 = keepsD[OF s3(3)]
  let ?name = "fibEntry_GetPrefix (mm_entry s e)"
  have name: "content_name ?name = Some bv" "?name = fibEntry_GetPrefix (mm_entry s3 e)" "?name = fibEntry_GetPrefix (mm_entry s2 e)"
    using assms(7) s2(5) K3(6) by (simp_all add: fibEntry_GetPrefix_def)
  have T3: "TFIB s3 e = Some r" "seq_of s3 e = Some q" "distinct (ns_items nhs)" using K3(4,5) s2(2,4) assms(4) by (simp_all add: ns_inv_def)
  from arm_all[OF assms(1,2) name(1) s3(2) T3(1) name(2) T3(3,2), of now True] obtain s' where
    s': "fold_res (\<lambda>s c. bind_res (mapme_setFacePending E now s (fibEntry_GetPrefix (mm_entry s e)) e c True True False 0) (\<lambda>(_, s). Inr s)) s3 (ns_items nhs) = Inr s'"
    "mm_inv E s'" "keeps s3 s'" "w_sent (mm_world s') = w_sent (mm_world s3) @ concat (map (\<lambda>c. sent_log E s3 c (update_message E now bv q)) (ns_items nhs))"
    "\<forall>c\<in>set (ns_items nhs). armed E s' (e, c) (first_args ?name e True c)"
    "\<And>k. fst k \<noteq> e \<or> snd k \<notin> set (ns_items nhs) \<Longrightarrow> slots E s' k = slots E s3 k" by blast
  note K = keepsD[OF s'(3)]
  have "\<And>c. c \<in> set (ns_items nhs) \<Longrightarrow> ct_lookup (mo_ct E) (mm_table s3) c \<noteq> None" using assms(6) s2(6) K3(2) by (simp add: ns_set_def)
  note P = producer_loop[OF this name(2) s'(1) assms(1) s3(2)]
  obtain c cs where items: "ns_items nhs = c # cs" using assms(5) by (cases "ns_items nhs") (auto simp: ns_set_def)
  obtain conn where conn: "ct_lookup (mo_ct E) (mm_table s2) c = Some conn" using assms(6)[of c] s2(6) items by (auto simp: ns_set_def)
  have call: "mapme_setFacePending E now s2 ?name e c True True True 0 = mapme_setFacePending E now s3 ?name e c True True False 0"
    by (rule setFacePending_clear[OF s2(2) s3(1) K3(5)])
  have "mapme_send_updates E now s e nhs = Inr s'"
    using P call K3(2) conn
    unfolding mapme_send_updates_def Let_def s1_def[symmetric] r_def[symmetric] s2_def[symmetric] name(3)[symmetric] ns_for_items[OF assms(4)] items
    by (simp del: bind_res_eq_Inr)
  moreover have "sent_log E s3 = sent_log E s" using K3(2) s2(6) by (simp add: sent_log_def fun_eq_iff)
  ultimately show ?thesis using s' s3 s2 K K3 by (intro exI[of _ s']) (auto simp: ns_set_def)
qed

section \<open>An example node\<close>

definition ex_mm ::
  "(rat, (connid \<times> rat StrategyNexthopState) list, unit, (connid \<times> nat) list, (AddressPair \<times> nat) list, (connid \<times> nat) list, (connid \<times> nat option) list) mm_ops" where
  "ex_mm = \<lparr>mo_st = ex_st_ops, mo_ct = ex_ct_ops, mo_hm = al_hm, mo_hash = (\<lambda>d s. s), mo_timer_ok = (\<lambda>_. True),
     mo_ip_prefix = \<lparr>pfx_family = 0, pfx_address = replicate 16 0, pfx_len = 0\<rparr>, mo_hicn_prefix = \<lparr>hp_name = replicate 16 0, hp_len = 0\<rparr>\<rparr>"

text \<open>One entry, for the empty prefix, with the next hop 5; the connections 5 and 6.\<close>

definition ex_bv :: NameBitvector where
  "ex_bv = \<lparr>bits0 = 0, bits1 = 0, nb_len = 0, IPversion = 6\<rparr>"

definition ex_fib :: "(rat, (connid \<times> rat StrategyNexthopState) list, unit) fib_store" where
  "ex_fib = \<lparr>fs_trie = \<lparr>fib_root = FibNode Null Null 0 True, fib_size = 1\<rparr>, fs_heap = (\<lambda>_. ex_fe ex_name), fs_next = 1\<rparr>"

definition ex_stack :: mapme_params where
  "ex_stack = \<lparr>mp_protocol = 0, mp_type = UNKNOWN, mp_seq = 0\<rparr>"

abbreviation ex_start where "ex_start t \<equiv> mapme_create ex_mm ex_fib t ex_memory"

lemma ex_mm_ok: "hm_laws (mo_hm ex_mm)" "mo_timer_ok ex_mm i" "stack_ok ex_mm" "nb_valid ex_bv" "IPversion ex_bv \<noteq> IPv4_TYPE" "userData (fs_heap ex_fib e) = None"
  by (simp_all add: ex_mm_def al_hm_laws stack_ok_def ex_bv_def nb_valid_def IPv4_TYPE_def ex_fib_def ex_fe_def)

lemma ex_fib_ok: "fs_inv ex_fib" "fs_entry ex_fib (nb_bits ex_bv) = Some 0" "fe_name (fs_heap ex_fib e) = ex_name" "content_name ex_name = Some ex_bv"
proof -
  have p: "fs_pfx ex_fib e = ex_bv" for e
    by (simp add: fs_pfx_def ex_fib_def ex_fe_def fibEntry_GetPrefix_def name_bv_def ex_name_def make_name_def ex_bv_def)
  show "fs_inv ex_fib" using ex_mm_ok(4) p ex_fe_ok(1)[of ex_name]
    by (simp add: fs_inv_def fib_inv_def) (simp add: ex_fib_def fe_inv_def)
  show "fs_entry ex_fib (nb_bits ex_bv) = Some 0"
    using p by (simp add: fs_entry_def fib_routes_def ebits_def fib_GetEntries_def) (simp add: ex_fib_def)
  show "fe_name (fs_heap ex_fib e) = ex_name" "content_name ex_name = Some ex_bv"
    by (simp_all add: ex_fib_def ex_fe_def ex_name_def make_name_def ex_bv_def)
qed

lemma ex_start_ok:
  assumes "ct_lookup ex_ct_ops t = [5 \<mapsto> ex_conn, 6 \<mapsto> ex_conn6]"
  shows "mm_inv ex_mm (ex_start t)" "TFIB (ex_start t) e = None" "seq_of (ex_start t) e = None" "mm_entry (ex_start t) e = ex_fe ex_name"
    "mm_fib (ex_start t) = ex_fib" "remote_hops ex_mm (ex_start t) e" "link_ok ex_mm (ex_start t) 6" "ns_items (nexthops (ex_fe ex_name)) = [5]"
    "ct_lookup (mo_ct ex_mm) (mm_table (ex_start t)) 5 = Some ex_conn"
proof -
  show "mm_inv ex_mm (ex_start t)" by (rule mapme_create_inv[OF ex_mm_ok(1,6)])
  show T: "TFIB (ex_start t) e = None" for e by (simp add: TFIB_def mm_entry_def mapme_create_def fibEntry_getUserData_def ex_mm_ok(6))
  show "seq_of (ex_start t) e = None" by (simp add: seq_of_def T)
  show e: "mm_entry (ex_start t) e = ex_fe ex_name" "mm_fib (ex_start t) = ex_fib" by (simp_all add: mm_entry_def mapme_create_def ex_fib_def)
  show hops: "ns_items (nexthops (ex_fe ex_name)) = [5]" by (rule ex_fe_ok(2))
  show "ct_lookup (mo_ct ex_mm) (mm_table (ex_start t)) 5 = Some ex_conn" using assms by (simp add: ex_mm_def mapme_create_def)
  then show "remote_hops ex_mm (ex_start t) e"
    using hops by (simp add: remote_hops_def e ns_set_def connection_IsLocal_def ex_conn_def connection_Create_def connection_SetAdminState_def ex_io_def)
  show "link_ok ex_mm (ex_start t) 6"
    using assms by (simp add: link_ok_def ex_mm_def mapme_create_def ex_conn6_def connection_Create_def connection_SetAdminState_def connection_IsUp_def ex_io_def)
qed

text \<open>The node after an update that came from connection 6.\<close>

lemma ex_updated:
  assumes "ct_lookup ex_ct_ops t = [5 \<mapsto> ex_conn, 6 \<mapsto> ex_conn6]"
  shows "\<exists>s i. mapme_Process ex_mm 0 ex_stack (ex_start t) (update_bytes (name_prefix ex_mm ex_bv) 1) 6 = Inr s \<and> mm_inv ex_mm s \<and>
    fs_inv (mm_fib s) \<and> fs_entry (mm_fib s) (nb_bits ex_bv) = Some 0 \<and> seq_of s 0 = Some 1 \<and>
    slots ex_mm s (0, 5) = Some (Some i) \<and> mm_timers s i = Some \<lparr>tm_args = first_args ex_name 0 False 5, tm_pending = True\<rparr>"
proof -
  note S = ex_start_ok[OF assms]
  define s1 where "s1 = after_sending ex_mm (ex_start t) 6 (ack_message ex_mm 0 (name_prefix ex_mm ex_bv) 1)"
  let ?params = "\<lparr>mp_protocol = IPPROTO_IPV6, mp_type = UPDATE, mp_seq = 1\<rparr>"
  have s1: "mm_inv ex_mm s1" "mm_entry s1 e = ex_fe ex_name" "mm_fib s1 = ex_fib" "remote_hops ex_mm s1 e" "seq_of s1 e = None" for e
    using S by (simp_all add: s1_def remote_hops_def)
  have ns: "ns_inv (nexthops (mm_entry s1 0))" "ns_set (nexthops (mm_entry s1 0)) = {5}" "content_name (fe_name (mm_entry s1 0)) = Some ex_bv"
    using ex_fe_ok(1)[of ex_name] S(8) ex_fib_ok(3,4) s1(2) by (simp_all add: fe_inv_def ns_set_def) (simp add: ex_fe_def)
  have "older_seq (seq_of s1 0) (mp_seq ?params)" "mp_type ?params = UPDATE" by (simp_all add: s1(5) older_seq_def INIT_SEQ_def)
  from update_entry_effect[OF ex_mm_ok(1,2) s1(1) ns(1) s1(4) ns(3) this(2,1), of 0 6] obtain s fe where
    U: "update_entry ex_mm 0 s1 0 6 ?params = Inr s" "mm_inv ex_mm s" "mm_fib s = fs_put ex_fib 0 fe" "fe_name fe = fe_name (mm_entry s1 0)"
    "ns_inv (nexthops fe)" "seq_of s 0 = Some 1" "slots_after ex_mm s1 s 0 {5} 6" unfolding s1(3) ns(2) by auto
  have name: "fe_name fe = fe_name (fs_heap ex_fib 0)" using U(4) s1(2)[of 0] ex_fib_ok(3) by (simp add: ex_fe_def)
  note P = fs_put_ok[OF ex_fib_ok(1) name U(5)]
  have "armed ex_mm s (0, 5) (first_args ex_name 0 False 5)" using U(7) s1(2) by (auto simp: slots_after_def ex_fe_def fibEntry_GetPrefix_def)
  moreover have "mapme_Process ex_mm 0 ex_stack (ex_start t) (update_bytes (name_prefix ex_mm ex_bv) 1) 6 = Inr s"
    using update_answered[OF ex_mm_ok(3,5,4) _ _ S(7) refl, of 0 0 ex_stack 1] S(5) ex_fib_ok(1,2) U(1) by (simp add: s1_def Let_def)
  ultimately show ?thesis using U(2,3,6) P ex_fib_ok(2) by (auto simp: armed_def)
qed

section \<open>Properties\<close>

text \<open>
  C6. No dangling timers. Starting from a FIB without MAP-Me state, whatever packets arrive, timers fire, connections
  change and entries are freed, a connection in a TFIB refers to a retransmission timer exactly when that timer
  exists and belongs to this entry and connection, and every timer is for one of the retransmissions
  one to three; no two entries share a TFIB.
\<close>

theorem mapme_timers_safe:
  assumes "hm_laws (mo_hm E)" "\<And>e. userData (fs_heap fib e) = None" "(mm_step E)\<^sup>*\<^sup>* (mapme_create E fib table w) s"
  shows "(slots E s (e, c) = Some (Some t) \<longleftrightarrow> (\<exists>tm. mm_timers s t = Some tm \<and> owner tm = (e, c))) \<and>
    (mm_timers s t = Some tm \<longrightarrow> arg_num_retx (tm_args tm) \<in> {1, 2, 3}) \<and> (TFIB s e = Some r \<longrightarrow> TFIB s e' = Some r \<longrightarrow> e = e')"
proof -
  have "mm_inv E s" using mm_run_inv[OF assms(3,1) mapme_create_inv[OF assms(1,2)]] .
  then have ok: "timers_ok (slots E s) (mm_timers s) (mm_next_timer s)" "refs_ok s" by (simp_all add: mm_inv_def)
  have "slots E s (e, c) = Some (Some t) \<longleftrightarrow> (\<exists>tm. mm_timers s t = Some tm \<and> owner tm = (e, c))"
    using timers_okD(1)[OF ok(1)] timers_okD(2)[OF ok(1)] by fastforce
  moreover have "TFIB s e = Some r \<longrightarrow> TFIB s e' = Some r \<longrightarrow> e = e'" using ok(2) unfolding refs_ok_def by blast
  ultimately show ?thesis using timers_okD(4)[OF ok(1)] by blast
qed

theorem mapme_timers_safe_witness:
  "\<exists>t s i tm. (mm_step ex_mm)\<^sup>*\<^sup>* (ex_start t) s \<and> slots ex_mm s (0, 5) = Some (Some i) \<and> mm_timers s i = Some tm \<and> owner tm = (0, 5)"
proof -
  obtain t where t: "ct_lookup ex_ct_ops t = [5 \<mapsto> ex_conn, 6 \<mapsto> ex_conn6]" using ex_table2 by blast
  from ex_updated[OF t] obtain s i where s: "mapme_Process ex_mm 0 ex_stack (ex_start t) (update_bytes (name_prefix ex_mm ex_bv) 1) 6 = Inr s"
    "mm_inv ex_mm s" "fs_inv (mm_fib s)" "fs_entry (mm_fib s) (nb_bits ex_bv) = Some 0" "seq_of s 0 = Some 1" "slots ex_mm s (0, 5) = Some (Some i)"
    "mm_timers s i = Some \<lparr>tm_args = first_args ex_name 0 False 5, tm_pending = True\<rparr>" by blast
  have run: "(mm_step ex_mm)\<^sup>*\<^sup>* (ex_start t) s" using packet[OF s(1)] by (rule r_into_rtranclp)
  then show ?thesis using mapme_timers_safe[OF ex_mm_ok(1,6) run, of 0 5 i] s(6) by blast
qed

text \<open>
  C7. Retransmissions end. However the timers of a node fire, one after the other, there are at most three firings for each timer
  that is pending at the start, each sends at most one packet, and the invariant is kept; so without new
  events a node falls silent.
\<close>

theorem mapme_retransmissions_end:
  assumes "hm_laws (mo_hm E)" "mm_inv E s" "(firing E ^^ n) s s'"
  shows "n \<le> 3 * card (pending_timers s) \<and> length (w_sent (mm_world s')) \<le> length (w_sent (mm_world s)) + n \<and> mm_inv E s'"
  using firings_budget[OF assms] retx_left_bound[OF assms(2)] by linarith

theorem mapme_retransmissions_end_witness:
  "\<exists>t s s'. mapme_Process ex_mm 0 ex_stack (ex_start t) (update_bytes (name_prefix ex_mm ex_bv) 1) 6 = Inr s \<and> firing ex_mm s s' \<and>
     1 \<le> 3 * card (pending_timers s)"
proof -
  obtain t where t: "ct_lookup ex_ct_ops t = [5 \<mapsto> ex_conn, 6 \<mapsto> ex_conn6]" using ex_table2 by blast
  from ex_updated[OF t] obtain s i where s: "mapme_Process ex_mm 0 ex_stack (ex_start t) (update_bytes (name_prefix ex_mm ex_bv) 1) 6 = Inr s"
    "mm_inv ex_mm s" "fs_inv (mm_fib s)" "fs_entry (mm_fib s) (nb_bits ex_bv) = Some 0" "seq_of s 0 = Some 1" "slots ex_mm s (0, 5) = Some (Some i)"
    "mm_timers s i = Some \<lparr>tm_args = first_args ex_name 0 False 5, tm_pending = True\<rparr>" by blast
  let ?s = "s\<lparr>mm_timers := (mm_timers s)(i \<mapsto> \<lparr>tm_args = first_args ex_name 0 False 5, tm_pending = False\<rparr>)\<rparr>"
  have inv: "mm_inv ex_mm ?s"
    using s(2) timers_ok_fired[where tms = "mm_timers s" and b = False, OF _ s(7)] by (simp add: mm_inv_def)
  have "content_name ex_name \<noteq> None" using ex_fib_ok(4) by simp
  from setFacePending_total[OF ex_mm_ok(1) inv this, of 0 0 5 True False False 1] obtain b s' where
    "mapme_setFacePending ex_mm 0 ?s ex_name 0 5 True False False 1 = Inr (b, s')" by blast
  then have "timer_fires ex_mm 0 s i = Some (Inr s')"
    using s(7) by (simp add: timer_fires_def mapme_setFacePendingCallback_def first_args_def)
  then have f: "firing ex_mm s s'" by (auto simp: firing_def)
  then have "(firing ex_mm ^^ 1) s s'" by (simp only: relpowp_1)
  from mapme_retransmissions_end[OF ex_mm_ok(1) s(2) this] show ?thesis using s(1) f by auto
qed



text \<open>
  Acknowledgements end retransmissions: when the acknowledgement that another node made from an update arrives on a connection
  with a running timer, the connection leaves the TFIB and its timer is destroyed, and nothing else changes
  but the time of the last acknowledgement. One with an older sequence number changes nothing at all.
\<close>

theorem mapme_ack_ends_retransmission:
  assumes "hm_laws (mo_hm E)" "stack_ok E'" "mm_inv E s" "fs_inv (mm_fib s)" "nb_valid bv" "IPversion bv \<noteq> IPv4_TYPE"
    and "fs_entry (mm_fib s) (nb_bits bv) = Some e" "slots E s (e, c) = Some (Some t)" "seq_of s e = Some q"
    and "packet = messageHead (ack_message E'' now' (name_prefix E' bv) q')"
  shows "\<exists>s'. mapme_Process E now stack s packet c = Inr s' \<and> mm_inv E s' \<and>
    (if q' \<noteq> INVALID_SEQ \<and> q' < q then s' = s
     else slots E s' = (slots E s)((e, c) := None) \<and> mm_timers s' = (mm_timers s)(t := None) \<and>
          mm_fib s' = mm_fib s \<and> mm_world s' = mm_world s \<and> seq_of s' = seq_of s)"
proof -
  obtain r where r: "TFIB s e = Some r" "tfib_seq (mm_tfibs s r) = q" using assms(9) by (auto simp: seq_of_def split: option.splits)
  have refs: "refs_ok s" using assms(3) by (simp add: mm_inv_def)
  have "mapmeTFIB_Get E s r c = Some t" using Get_slot[OF r(1)] assms(8) by simp
  moreover have "packet = ack_bytes (name_prefix E' bv) q'" using assms(10) by (simp add: ack_message_def message_CreateFromByteArray_def)
  ultimately have P: "mapme_Process E now stack s packet c =
      (if q' \<noteq> INVALID_SEQ \<and> q' < q then Inr s else Inr (tfib_update (\<lambda>t. t\<lparr>lastAckedUpdate := now\<rparr>) (mapmeTFIB_Remove E s r c) r))"
    using ack_effect[OF assms(2,6,5,4,7), of E now stack q' c] r by simp
  let ?s = "tfib_update (\<lambda>t. t\<lparr>lastAckedUpdate := now\<rparr>) (mapmeTFIB_Remove E s r c) r"
  have inv: "mm_inv E ?s" "slots E ?s = (slots E s)((e, c) := None)" "mm_timers ?s = (mm_timers s)(t := None)" "mm_fib ?s = mm_fib s" "mm_world ?s = mm_world s"
    using Remove_inv[OF assms(1,3) r(1)] Remove_slots[OF assms(1) refs r(1), of c] assms(8) by (simp_all add: tfib_update_inv)
  have "seq_of ?s e' = seq_of (mapmeTFIB_Remove E s r c) e'" for e' by (cases "TFIB s e'") (simp_all add: seq_of_def del: seq_of_slots)
  then have "seq_of ?s = seq_of s" by auto
  then show ?thesis using P inv assms(3) by (cases "q' \<noteq> INVALID_SEQ \<and> q' < q") auto
qed

theorem mapme_ack_ends_retransmission_witness:
  "\<exists>t s s'. mapme_Process ex_mm 0 ex_stack (ex_start t) (update_bytes (name_prefix ex_mm ex_bv) 1) 6 = Inr s \<and> slots ex_mm s (0, 5) \<noteq> None \<and>
     mapme_Process ex_mm 1 ex_stack s (messageHead (ack_message ex_mm 0 (name_prefix ex_mm ex_bv) 1)) 5 = Inr s' \<and> slots ex_mm s' (0, 5) = None"
proof -
  obtain t where t: "ct_lookup ex_ct_ops t = [5 \<mapsto> ex_conn, 6 \<mapsto> ex_conn6]" using ex_table2 by blast
  from ex_updated[OF t] obtain s i where s: "mapme_Process ex_mm 0 ex_stack (ex_start t) (update_bytes (name_prefix ex_mm ex_bv) 1) 6 = Inr s"
    "mm_inv ex_mm s" "fs_inv (mm_fib s)" "fs_entry (mm_fib s) (nb_bits ex_bv) = Some 0" "seq_of s 0 = Some 1" "slots ex_mm s (0, 5) = Some (Some i)"
    "mm_timers s i = Some \<lparr>tm_args = first_args ex_name 0 False 5, tm_pending = True\<rparr>" by blast
  from mapme_ack_ends_retransmission[OF ex_mm_ok(1,3) s(2,3) ex_mm_ok(4,5) s(4,6,5) refl, of 1 ex_stack ex_mm 0 1] obtain s' where
    "mapme_Process ex_mm 1 ex_stack s (messageHead (ack_message ex_mm 0 (name_prefix ex_mm ex_bv) 1)) 5 = Inr s'" "slots ex_mm s' = (slots ex_mm s)((0, 5) := None)"
    by auto
  then show ?thesis using s(1,6) by (intro exI[of _ t] exI[of _ s] exI[of _ s']) simp
qed

text \<open>
  C9. An unsolicited acknowledgement stops the forwarder: one with a nonzero sequence number, for a prefix in
  the FIB for which no update was ever sent or received, dereferences the missing TFIB.
\<close>

theorem mapme_unsolicited_ack_crashes:
  assumes "stack_ok E'" "fs_inv (mm_fib s)" "nb_valid bv" "IPversion bv \<noteq> IPv4_TYPE" "fs_entry (mm_fib s) (nb_bits bv) = Some e"
    and "TFIB s e = None" "q \<noteq> INVALID_SEQ"
  shows "mapme_Process E now stack s (ack_bytes (name_prefix E' bv) q) c = Inl NullDereference"
  using ack_effect[OF assms(1,4,3,2,5)] assms(6,7) by simp

theorem mapme_unsolicited_ack_crashes_witness:
  "\<exists>t. mapme_Process ex_mm 0 ex_stack (ex_start t) (ack_bytes (name_prefix ex_mm ex_bv) 1) 6 = Inl NullDereference"
proof -
  obtain t where t: "ct_lookup ex_ct_ops t = [5 \<mapsto> ex_conn, 6 \<mapsto> ex_conn6]" using ex_table2 by blast
  note S = ex_start_ok[OF t]
  have "fs_inv (mm_fib (ex_start t))" "fs_entry (mm_fib (ex_start t)) (nb_bits ex_bv) = Some 0" using S(5) ex_fib_ok(1,2) by simp_all
  from mapme_unsolicited_ack_crashes[OF ex_mm_ok(3) this(1) ex_mm_ok(4,5) this(2) S(2), of 1 ex_mm 0 ex_stack 6]
  show ?thesis by (auto simp: INVALID_SEQ_def)
qed



end
