(* ===== verification/LowLatency.thy ===== *)
theory LowLatency
  imports Mapme
begin

text \<open>
  The low-latency strategy of \<^verbatim>\<open>hicn-light/src/hicn/strategies/lowLatency.c\<close> with the state of its next hops
  (\<^verbatim>\<open>nexthopStateLowLatency.c\<close>), as compiled with \<^verbatim>\<open>WITH_POLICY\<close> and \<^verbatim>\<open>WITH_MAPME\<close>. The strategy measures the next hops
  with probes, selects the best one or two of them twice a second, and tells MAP-Me when the selection changes.

  The states of next hops are objects on a heap, to which the hash map and the two pointers
  \<^verbatim>\<open>bestFaces\<close> refer. The map keeps its own reference to an object, and the one from the creation is not
  released before the strategy is destroyed, so objects stay on the heap. Parameters: floating point (\<open>D\<close>), the
  hash maps (\<open>M\<close>), the clock (\<open>now\<close>), and random numbers. An update for MAP-Me is an output, the set of next
  hops to announce; \<open>strategyLowLatency_SendMapmeUpdate\<close> is what is done with it. Timers exist from
  \<open>strategyLowLatency_SetStrategy\<close> on. Logging is left out.

  The theories \<open>LowLatencySelection\<close> and \<open>LowLatencyRuns\<close> have the proofs.
\<close>

section \<open>Doubles\<close>

record 'd dbl_ops =
  db_fp :: "'d fp_ops"
  db_eq :: "'d \<Rightarrow> 'd \<Rightarrow> bool"
  db_fabs :: "'d \<Rightarrow> 'd"
  DBL_MAX :: 'd

abbreviation dconst where "dconst D \<equiv> fp_const (db_fp D)"
abbreviation dint where "dint D \<equiv> fp_int (db_fp D)"
abbreviation dadd where "dadd D \<equiv> fp_add (db_fp D)"
abbreviation dsub where "dsub D \<equiv> fp_sub (db_fp D)"
abbreviation dmul where "dmul D \<equiv> fp_mul (db_fp D)"
abbreviation ddiv where "ddiv D \<equiv> fp_div (db_fp D)"
abbreviation dless where "dless D \<equiv> fp_less (db_fp D)"

section \<open>State of a next hop\<close>

definition MAX_ROUNS_WITHOUT_PROBES :: u32 where "MAX_ROUNS_WITHOUT_PROBES = 4"
definition MIN_NON_LOSSY_ROUNDS :: u32 where "MIN_NON_LOSSY_ROUNDS = 10"
definition MAX_LOSS_RATE :: "'d dbl_ops \<Rightarrow> 'd" where "MAX_LOSS_RATE D = dconst D (1 / 10)"

record 'd StrategyNexthopStateLL =
  in_use :: bool
  is_allowed :: bool
  face_id :: connid
  sent_packets :: u32
  last_try_to_switch_round :: u32
  try_to_switch_counter :: u32
  recevied_probes :: u32
  rounds_without_probes :: u32
  sent_probes :: u32
  lost_probes :: u32
  non_lossy_rounds :: u32
  avg_rtt :: 'd
  avg_rtt_in_use :: 'd
  avg_queue :: 'd
  avg_loss_rate :: 'd

definition strategyNexthopStateLL_Create :: "'d dbl_ops \<Rightarrow> connid \<Rightarrow> 'd StrategyNexthopStateLL" where
  "strategyNexthopStateLL_Create D face =
     \<lparr>in_use = False, is_allowed = True, face_id = face, sent_packets = 0, last_try_to_switch_round = 0, try_to_switch_counter = 0,
      recevied_probes = 0, rounds_without_probes = 0, sent_probes = 0, lost_probes = 0, non_lossy_rounds = MIN_NON_LOSSY_ROUNDS,
      avg_rtt = dconst D (- 1), avg_rtt_in_use = dconst D (- 1), avg_queue = dconst D (1 / 10000), avg_loss_rate = dconst D 0\<rparr>"

definition strategyNexthopStateLL_Reset :: "'d dbl_ops \<Rightarrow> 'd StrategyNexthopStateLL \<Rightarrow> 'd StrategyNexthopStateLL" where
  "strategyNexthopStateLL_Reset D x =
     x\<lparr>in_use := False, is_allowed := True, sent_packets := 0, last_try_to_switch_round := 0, try_to_switch_counter := 0,
       recevied_probes := 0, rounds_without_probes := 0, sent_probes := 0, lost_probes := 0, non_lossy_rounds := MIN_NON_LOSSY_ROUNDS,
       avg_rtt := dconst D (- 1), avg_rtt_in_use := dconst D (- 1), avg_queue := dconst D (1 / 10000), avg_loss_rate := dconst D 0\<rparr>"

text \<open>The comparison goes through the members in order; \<open>three_way\<close> is one of its steps.\<close>

definition three_way :: "bool \<Rightarrow> bool \<Rightarrow> int \<Rightarrow> int" where
  "three_way lt gt rest = (if lt then -1 else if gt then 1 else rest)"

definition strategyNexthopStateLL_Compare ::
  "'d dbl_ops \<Rightarrow> 'd StrategyNexthopStateLL option \<Rightarrow> 'd StrategyNexthopStateLL option \<Rightarrow> int" where
  "strategyNexthopStateLL_Compare D pval pother =
     (case (pval, pother) of
        (None, None) \<Rightarrow> 0
      | (None, Some _) \<Rightarrow> -1
      | (Some _, None) \<Rightarrow> 1
      | (Some v, Some w) \<Rightarrow>
          three_way (in_use v < in_use w) (in_use v > in_use w)
         (three_way (is_allowed v < is_allowed w) (is_allowed v > is_allowed w)
         (three_way (face_id v < face_id w) (face_id v > face_id w)
         (three_way (sent_packets v < sent_packets w) (sent_packets v > sent_packets w)
         (three_way (last_try_to_switch_round v < last_try_to_switch_round w) (last_try_to_switch_round v > last_try_to_switch_round w)
         (three_way (try_to_switch_counter v < try_to_switch_counter w) (try_to_switch_counter v > try_to_switch_counter w)
         (three_way (recevied_probes v < recevied_probes w) (recevied_probes v > recevied_probes w)
         (three_way (rounds_without_probes v < rounds_without_probes w) (rounds_without_probes v > rounds_without_probes w)
         (three_way (sent_probes v < sent_probes w) (sent_probes v > sent_probes w)
         (three_way (lost_probes v < lost_probes w) (lost_probes v > lost_probes w)
         (three_way (non_lossy_rounds v < non_lossy_rounds w) (non_lossy_rounds v > non_lossy_rounds w)
         (three_way (dless D (avg_rtt v) (avg_rtt w)) (dless D (avg_rtt w) (avg_rtt v))
         (three_way (dless D (avg_rtt_in_use v) (avg_rtt_in_use w)) (dless D (avg_rtt_in_use w) (avg_rtt_in_use v))
         (three_way (dless D (avg_queue v) (avg_queue w)) (dless D (avg_queue w) (avg_queue v))
         (three_way (dless D (avg_loss_rate v) (avg_loss_rate w)) (dless D (avg_loss_rate w) (avg_loss_rate v)) 0)))))))))))))))"

definition strategyNexthopStateLL_Equals ::
  "'d dbl_ops \<Rightarrow> 'd StrategyNexthopStateLL option \<Rightarrow> 'd StrategyNexthopStateLL option \<Rightarrow> bool" where
  "strategyNexthopStateLL_Equals D x y \<longleftrightarrow>
     (if x = y then True else if x = None \<or> y = None then False else strategyNexthopStateLL_Compare D x y = 0)"

definition strategyNexthopStateLL_Copy :: "'d dbl_ops \<Rightarrow> 'd StrategyNexthopStateLL \<Rightarrow> 'd StrategyNexthopStateLL" where
  "strategyNexthopStateLL_Copy D x =
     (strategyNexthopStateLL_Create D (face_id x))
       \<lparr>in_use := in_use x, is_allowed := is_allowed x, sent_packets := sent_packets x,
        last_try_to_switch_round := last_try_to_switch_round x, try_to_switch_counter := try_to_switch_counter x,
        recevied_probes := recevied_probes x, rounds_without_probes := rounds_without_probes x, sent_probes := sent_probes x,
        lost_probes := lost_probes x, non_lossy_rounds := non_lossy_rounds x, avg_rtt := avg_rtt x,
        avg_rtt_in_use := avg_rtt_in_use x, avg_queue := avg_queue x, avg_loss_rate := avg_loss_rate x\<rparr>"

text \<open>The latencies. The one of the probes is filled in from the latency in use when it is missing.\<close>

definition strategyNexthopStateLL_GetRTTProbe :: "'d dbl_ops \<Rightarrow> 'd StrategyNexthopStateLL \<Rightarrow> 'd \<times> 'd StrategyNexthopStateLL" where
  "strategyNexthopStateLL_GetRTTProbe D x =
     (if rounds_without_probes x > MAX_ROUNS_WITHOUT_PROBES then (DBL_MAX D, x)
      else if db_eq D (avg_rtt x) (dconst D (- 1))
      then if db_eq D (avg_rtt_in_use x) (dconst D (- 1)) then (dconst D 0, x)
           else (avg_rtt_in_use x, x\<lparr>avg_rtt := avg_rtt_in_use x\<rparr>)
      else (avg_rtt x, x))"

definition strategyNexthopStateLL_GetRTTInUse :: "'d dbl_ops \<Rightarrow> 'd StrategyNexthopStateLL \<Rightarrow> 'd \<times> 'd StrategyNexthopStateLL" where
  "strategyNexthopStateLL_GetRTTInUse D x =
     (if rounds_without_probes x > MAX_ROUNS_WITHOUT_PROBES then (DBL_MAX D, x)
      else if db_eq D (avg_rtt_in_use x) (dconst D (- 1)) then strategyNexthopStateLL_GetRTTProbe D x
      else (avg_rtt_in_use x, x))"

definition strategyNexthopStateLL_GetRTTLive :: "'d dbl_ops \<Rightarrow> 'd StrategyNexthopStateLL \<Rightarrow> 'd \<times> 'd StrategyNexthopStateLL" where
  "strategyNexthopStateLL_GetRTTLive D x =
     (if in_use x then strategyNexthopStateLL_GetRTTInUse D x else strategyNexthopStateLL_GetRTTProbe D x)"

definition strategyNexthopStateLL_GetQueuing :: "'d dbl_ops \<Rightarrow> 'd StrategyNexthopStateLL \<Rightarrow> 'd" where
  "strategyNexthopStateLL_GetQueuing D x = (if rounds_without_probes x > MAX_ROUNS_WITHOUT_PROBES then dconst D 0 else avg_queue x)"

text \<open>\<open>blend\<close> is \<^verbatim>\<open>(avg * a) + (sample * b)\<close>.\<close>

definition blend :: "'d dbl_ops \<Rightarrow> 'd \<Rightarrow> rat \<Rightarrow> 'd \<Rightarrow> rat \<Rightarrow> 'd" where
  "blend D avg a sample b = dadd D (dmul D avg (dconst D a)) (dmul D sample (dconst D b))"

definition strategyNexthopStateLL_AddRttSample :: "'d dbl_ops \<Rightarrow> 'd StrategyNexthopStateLL \<Rightarrow> u32 \<Rightarrow> 'd StrategyNexthopStateLL" where
  "strategyNexthopStateLL_AddRttSample D x rtt =
     (let x = x\<lparr>recevied_probes := recevied_probes x + 1\<rparr>;
          drtt = dint D (uint rtt);
          x = (if in_use x
               then if db_eq D (avg_rtt_in_use x) (dconst D (- 1)) then x\<lparr>avg_rtt_in_use := drtt\<rparr>
                    else x\<lparr>avg_rtt_in_use := blend D (avg_rtt_in_use x) (9 / 10) drtt (1 / 10)\<rparr>
               else if db_eq D (avg_rtt x) (dconst D (- 1)) then x\<lparr>avg_rtt := drtt\<rparr>
                    else x\<lparr>avg_rtt := blend D (avg_rtt x) (9 / 10) drtt (1 / 10)\<rparr>)
      in if db_eq D (avg_rtt_in_use x) (dconst D (- 1)) \<or> db_eq D (avg_rtt x) (dconst D (- 1))
         then x\<lparr>avg_queue := dconst D (1 / 10000)\<rparr>
         else (let queue = dsub D (avg_rtt_in_use x) (avg_rtt x);
                   queue = (if dless D queue (dconst D 0) then dconst D (1 / 10000) else queue)
               in x\<lparr>avg_queue := dadd D (dmul D (avg_queue x) (dconst D (95 / 100))) (dmul D (dconst D (5 / 100)) queue)\<rparr>))"

definition strategyNexthopStateLL_SetUnusedFace :: "'d StrategyNexthopStateLL \<Rightarrow> 'd StrategyNexthopStateLL" where
  "strategyNexthopStateLL_SetUnusedFace x = x\<lparr>in_use := False\<rparr>"

definition strategyNexthopStateLL_GetFaceId :: "'d StrategyNexthopStateLL \<Rightarrow> connid" where
  "strategyNexthopStateLL_GetFaceId x = face_id x"

definition strategyNexthopStateLL_IncreaseTryToSwitch :: "'d StrategyNexthopStateLL \<Rightarrow> u32 \<Rightarrow> 'd StrategyNexthopStateLL" where
  "strategyNexthopStateLL_IncreaseTryToSwitch x r =
     (if try_to_switch_counter x = 0 \<or> r = last_try_to_switch_round x + 1
      then x\<lparr>last_try_to_switch_round := r, try_to_switch_counter := try_to_switch_counter x + 1\<rparr>
      else x\<lparr>try_to_switch_counter := 0\<rparr>)"

definition strategyNexthopStateLL_GetTryToSwitch :: "'d StrategyNexthopStateLL \<Rightarrow> u32" where
  "strategyNexthopStateLL_GetTryToSwitch x = try_to_switch_counter x"

definition strategyNexthopStateLL_ResetTryToSwitch :: "'d StrategyNexthopStateLL \<Rightarrow> 'd StrategyNexthopStateLL" where
  "strategyNexthopStateLL_ResetTryToSwitch x = x\<lparr>try_to_switch_counter := 0\<rparr>"

definition strategyNexthopStateLL_SendPacket :: "'d StrategyNexthopStateLL \<Rightarrow> 'd StrategyNexthopStateLL" where
  "strategyNexthopStateLL_SendPacket x = x\<lparr>in_use := True, sent_packets := sent_packets x + 1\<rparr>"

definition strategyNexthopStateLL_SentProbe :: "'d StrategyNexthopStateLL \<Rightarrow> 'd StrategyNexthopStateLL" where
  "strategyNexthopStateLL_SentProbe x = x\<lparr>sent_probes := sent_probes x + 1\<rparr>"

definition strategyNexthopStateLL_LostProbe :: "'d StrategyNexthopStateLL \<Rightarrow> 'd StrategyNexthopStateLL" where
  "strategyNexthopStateLL_LostProbe x = x\<lparr>lost_probes := lost_probes x + 1\<rparr>"

definition strategyNexthopStateLL_IsLossy :: "'d dbl_ops \<Rightarrow> 'd StrategyNexthopStateLL \<Rightarrow> bool" where
  "strategyNexthopStateLL_IsLossy D x \<longleftrightarrow> non_lossy_rounds x < 10 \<or> dless D (MAX_LOSS_RATE D) (avg_loss_rate x)"

definition strategyNexthopStateLL_SetIsAllowed :: "'d StrategyNexthopStateLL \<Rightarrow> bool \<Rightarrow> 'd StrategyNexthopStateLL" where
  "strategyNexthopStateLL_SetIsAllowed x al = x\<lparr>is_allowed := al\<rparr>"

definition strategyNexthopStateLL_IsAllowed :: "'d StrategyNexthopStateLL \<Rightarrow> bool" where
  "strategyNexthopStateLL_IsAllowed x = is_allowed x"

definition strategyNexthopStateLL_StartNewRound :: "'d dbl_ops \<Rightarrow> 'd StrategyNexthopStateLL \<Rightarrow> 'd StrategyNexthopStateLL" where
  "strategyNexthopStateLL_StartNewRound D x =
     (let x = (if sent_packets x = 0 then x\<lparr>in_use := False\<rparr> else x);
          x = x\<lparr>sent_packets := 0\<rparr>;
          x = (if recevied_probes x = 0 then x\<lparr>rounds_without_probes := rounds_without_probes x + 1\<rparr> else x\<lparr>rounds_without_probes := 0\<rparr>);
          x = x\<lparr>recevied_probes := 0\<rparr>;
          x = (if sent_probes x \<noteq> 0
               then (let loss_rate = ddiv D (dint D (uint (lost_probes x))) (dint D (uint (sent_probes x)));
                         x = x\<lparr>avg_loss_rate := blend D (avg_loss_rate x) (7 / 10) loss_rate (3 / 10)\<rparr>
                     in if dless D (MAX_LOSS_RATE D) (avg_loss_rate x) then x\<lparr>non_lossy_rounds := 0\<rparr>
                        else x\<lparr>non_lossy_rounds := non_lossy_rounds x + 1\<rparr>)
               else x)
      in x\<lparr>lost_probes := 0, sent_probes := 0\<rparr>)"

section \<open>State of the strategy\<close>

definition STABILITY_FACTOR :: int where "STABILITY_FACTOR = 15"
definition MAX_SWITCH_TRY :: u32 where "MAX_SWITCH_TRY = 10"
definition MAX_LATENCY_DIFF :: int where "MAX_LATENCY_DIFF = 10"
definition MAX_TOLLERATED_LATENCY_DIFF :: int where "MAX_TOLLERATED_LATENCY_DIFF = 15"
definition MAX_ROUNDS_MP_WITHOUT_CHECK :: u32 where "MAX_ROUNDS_MP_WITHOUT_CHECK = 2"
definition MAX_ROUNDS_AVOIDING_MULTIPATH :: u32 where "MAX_ROUNDS_AVOIDING_MULTIPATH = 40"
definition MAX_ROUNDS_WITH_ERROR :: u32 where "MAX_ROUNDS_WITH_ERROR = 4"
definition PROBE_LIFETIME :: u32 where "PROBE_LIFETIME = 500"

record ('s, 'p, 'f) ll_maps =
  lm_state :: "('s, connid, nat) hm_ops"
  lm_ticks :: "('p, u32, u32) hm_ops"
  lm_faces :: "('f, u32, connid) hm_ops"

text \<open>\<open>ll_ready\<close>: the timers and the probe packet were created; \<open>ll_probing\<close>, \<open>ll_selecting\<close>: the timers are running.\<close>

record ('d, 's, 'p, 'f) StrategyLowLatency =
  strategy_state :: 's
  pending_probes_ticks :: 'p
  pending_probes_faces :: 'f
  ll_heap :: "nat \<Rightarrow> 'd StrategyNexthopStateLL"
  ll_next :: nat
  ll_ready :: bool
  ll_probing :: bool
  ll_selecting :: bool
  ll_probe :: bytes
  ll_name :: hicn_name
  bestFace0 :: "nat option"
  bestFace1 :: "nat option"
  ll_round :: u32
  rounds_in_multipath :: u32
  rounds_with_error :: u32
  rounds_avoiding_multipath :: u32
  use2paths :: bool
  avoid_multipath :: bool
  related_prefixes :: "Name list"

definition blank_name :: hicn_name where
  "blank_name = \<lparr>name_type = HNT_UNSPEC, name_len = 0, name_buffer = replicate 20 0, name_iov = ([], [])\<rparr>"

definition strategyLowLatency_Create :: "'d dbl_ops \<Rightarrow> ('s, 'p, 'f) ll_maps \<Rightarrow> ('d, 's, 'p, 'f) StrategyLowLatency" where
  "strategyLowLatency_Create D M =
     \<lparr>strategy_state = hm_Create (lm_state M), pending_probes_ticks = hm_Create (lm_ticks M), pending_probes_faces = hm_Create (lm_faces M),
      ll_heap = (\<lambda>_. strategyNexthopStateLL_Create D 0), ll_next = 0, ll_ready = False, ll_probing = False, ll_selecting = False,
      ll_probe = [], ll_name = blank_name, bestFace0 = None, bestFace1 = None, ll_round = 0, rounds_in_multipath = 0, rounds_with_error = 0,
      rounds_avoiding_multipath = 0, use2paths = False, avoid_multipath = False, related_prefixes = []\<rparr>"

definition messageHandler_CreateProbePacket :: "hicn_format \<Rightarrow> u32 \<Rightarrow> bytes" where
  "messageHandler_CreateProbePacket format probe_lifetime =
     (let header_length = snd (hicn_packet_get_header_length_from_format format);
          pkt = replicate (unat header_length) 0;
          pkt = snd (hicn_packet_init_header format pkt);
          pkt = snd (Compat.hicn_packet_set_dst_port format pkt BFD_PORT)
      in snd (hicn_interest_set_lifetime pkt probe_lifetime))"

definition messageHandler_CreateProbeName :: "LibNames.ip_prefix \<Rightarrow> hicn_name" where
  "messageHandler_CreateProbeName address = snd (hicn_name_create_from_ip_prefix address 0 blank_name)"

definition messageHandler_SetProbeName :: "bytes \<Rightarrow> hicn_format \<Rightarrow> hicn_name \<Rightarrow> u32 \<Rightarrow> bytes \<times> hicn_name" where
  "messageHandler_SetProbeName probe format name seq =
     (let name = snd (hicn_name_set_seq_number name seq) in (snd (hicn_interest_set_name format probe name), name))"

text \<open>\<open>stack\<close> is what the variable for the address has before it is filled in.\<close>

definition strategyLowLatency_SetStrategy ::
  "LibNames.ip_prefix \<Rightarrow> ('d, 's, 'p, 'f) StrategyLowLatency \<Rightarrow> Name \<Rightarrow> Name list \<Rightarrow> ('d, 's, 'p, 'f) StrategyLowLatency res" where
  "strategyLowLatency_SetStrategy stack ll pref related =
     bind_res (name_GetContentName pref) (\<lambda>bv.
     Inr (ll\<lparr>ll_probe := messageHandler_CreateProbePacket HF_INET6_TCP PROBE_LIFETIME,
             ll_name := messageHandler_CreateProbeName (to_ip_prefix (nameBitvector_ToIPAddress bv) stack),
             ll_ready := True, ll_round := 0, rounds_in_multipath := 0, rounds_with_error := 0, rounds_avoiding_multipath := 0,
             use2paths := False, avoid_multipath := False, related_prefixes := map name_Copy related\<rparr>))"

definition startTimers :: "('d, 's, 'p, 'f) StrategyLowLatency \<Rightarrow> ('d, 's, 'p, 'f) StrategyLowLatency res" where
  "startTimers ll = (if ll_ready ll then Inr (ll\<lparr>ll_probing := True, ll_selecting := True\<rparr>) else Inl NullDereference)"

definition stopTimers :: "('d, 's, 'p, 'f) StrategyLowLatency \<Rightarrow> ('d, 's, 'p, 'f) StrategyLowLatency res" where
  "stopTimers ll = (if ll_ready ll then Inr (ll\<lparr>ll_probing := False, ll_selecting := False\<rparr>) else Inl NullDereference)"

text \<open>The next hops the map has, the object of one, and operations on objects.\<close>

definition ll_keys :: "('s, 'p, 'f) ll_maps \<Rightarrow> ('d, 's, 'p, 'f) StrategyLowLatency \<Rightarrow> connid list" where
  "ll_keys M ll = hm_Keys (lm_state M) (strategy_state ll)"

definition ll_get :: "('s, 'p, 'f) ll_maps \<Rightarrow> ('d, 's, 'p, 'f) StrategyLowLatency \<Rightarrow> connid \<Rightarrow> nat res" where
  "ll_get M ll cid = (case hm_Get (lm_state M) (strategy_state ll) cid of None \<Rightarrow> Inl NullDereference | Some r \<Rightarrow> Inr r)"

definition on_state ::
  "('d StrategyNexthopStateLL \<Rightarrow> 'd StrategyNexthopStateLL) \<Rightarrow> nat \<Rightarrow> ('d, 's, 'p, 'f) StrategyLowLatency \<Rightarrow> ('d, 's, 'p, 'f) StrategyLowLatency" where
  "on_state f r ll = ll\<lparr>ll_heap := (ll_heap ll)(r := f (ll_heap ll r))\<rparr>"

definition read_state ::
  "('d StrategyNexthopStateLL \<Rightarrow> 'd \<times> 'd StrategyNexthopStateLL) \<Rightarrow> nat \<Rightarrow> ('d, 's, 'p, 'f) StrategyLowLatency \<Rightarrow> 'd \<times> ('d, 's, 'p, 'f) StrategyLowLatency" where
  "read_state f r ll = (fst (f (ll_heap ll r)), on_state (\<lambda>x. snd (f x)) r ll)"

section \<open>Selection of the best faces\<close>

text \<open>Whether the two paths in use are kept, the first part of \<^verbatim>\<open>strategyLowLatency_SelectBestFaces\<close>.\<close>

definition keep_multipath :: "'d dbl_ops \<Rightarrow> ('d, 's, 'p, 'f) StrategyLowLatency \<Rightarrow> bool \<times> ('d, 's, 'p, 'f) StrategyLowLatency" where
  "keep_multipath D ll =
     (case (bestFace0 ll, bestFace1 ll) of
        (Some a, Some b) \<Rightarrow>
          if use2paths ll \<and> \<not> strategyNexthopStateLL_IsLossy D (ll_heap ll a) \<and> \<not> strategyNexthopStateLL_IsLossy D (ll_heap ll b) \<and>
             strategyNexthopStateLL_IsAllowed (ll_heap ll a) \<and> strategyNexthopStateLL_IsAllowed (ll_heap ll b)
          then
            if rounds_in_multipath ll < MAX_ROUNDS_MP_WITHOUT_CHECK
            then (True, ll\<lparr>rounds_in_multipath := rounds_in_multipath ll + 1\<rparr>)
            else
              (let ll = ll\<lparr>rounds_in_multipath := rounds_in_multipath ll + 1\<rparr>;
                   (rtt0, ll) = read_state (strategyNexthopStateLL_GetRTTLive D) a ll;
                   (rtt1, ll) = read_state (strategyNexthopStateLL_GetRTTLive D) b ll;
                   diff = db_fabs D (dsub D rtt0 rtt1)
               in if dless D diff (dint D MAX_LATENCY_DIFF) then (True, ll\<lparr>rounds_with_error := 0\<rparr>)
                  else if rounds_with_error ll < MAX_ROUNDS_WITH_ERROR \<and> dless D diff (dint D MAX_TOLLERATED_LATENCY_DIFF)
                  then (True, ll\<lparr>rounds_with_error := rounds_with_error ll + 1\<rparr>)
                  else (False, ll\<lparr>rounds_with_error := 0, avoid_multipath := True, rounds_avoiding_multipath := 0\<rparr>))
          else (False, ll)
      | _ \<Rightarrow> (False, ll))"

text \<open>The loops that look for the first next hop whose state satisfies a condition.\<close>

fun find_face ::
  "('s, 'p, 'f) ll_maps \<Rightarrow> ('d, 's, 'p, 'f) StrategyLowLatency \<Rightarrow> ('d StrategyNexthopStateLL \<Rightarrow> bool) \<Rightarrow> connid list \<Rightarrow> nat option res" where
  "find_face M ll P [] = Inr None"
| "find_face M ll P (cid # cids) =
     bind_res (ll_get M ll cid) (\<lambda>r. if P (ll_heap ll r) then Inr (Some r) else find_face M ll P cids)"

definition usable_face :: "'d dbl_ops \<Rightarrow> bool \<Rightarrow> 'd StrategyNexthopStateLL \<Rightarrow> bool" where
  "usable_face D check_losses x \<longleftrightarrow> \<not> (check_losses \<and> strategyNexthopStateLL_IsLossy D x \<or> \<not> strategyNexthopStateLL_IsAllowed x)"

text \<open>One step of the loop that looks for a next hop better than the current best one.\<close>

definition better_face ::
  "'d dbl_ops \<Rightarrow> ('s, 'p, 'f) ll_maps \<Rightarrow> bool \<Rightarrow> ('d, 's, 'p, 'f) StrategyLowLatency \<times> 'd \<Rightarrow> connid \<Rightarrow> (('d, 's, 'p, 'f) StrategyLowLatency \<times> 'd) res" where
  "better_face D M check_losses st cid =
     (let (ll, bestRtt) = st in
      bind_res (ll_get M ll cid) (\<lambda>r.
      let (rtt, ll) = read_state (strategyNexthopStateLL_GetRTTLive D) r ll in
      if \<not> usable_face D check_losses (ll_heap ll r) then Inr (ll, bestRtt)
      else if dless D (dadd D rtt (dint D STABILITY_FACTOR)) bestRtt
      then
        (let (rttInUse, ll) = read_state (strategyNexthopStateLL_GetRTTInUse D) r ll;
             tries = strategyNexthopStateLL_GetTryToSwitch (ll_heap ll r)
         in if dless D rttInUse bestRtt \<or> tries > MAX_SWITCH_TRY
            then
              (let ll = on_state strategyNexthopStateLL_ResetTryToSwitch r ll;
                   ll = (case bestFace0 ll of None \<Rightarrow> ll | Some b \<Rightarrow> on_state strategyNexthopStateLL_SetUnusedFace b ll)
               in Inr (ll\<lparr>bestFace0 := Some r\<rparr>, rtt))
            else Inr (on_state (\<lambda>x. strategyNexthopStateLL_IncreaseTryToSwitch x (ll_round ll)) r ll, bestRtt))
      else Inr (ll, bestRtt)))"

text \<open>One step of the loop that looks for a second path.\<close>

definition second_face ::
  "'d dbl_ops \<Rightarrow> ('s, 'p, 'f) ll_maps \<Rightarrow> bool \<Rightarrow> ('d, 's, 'p, 'f) StrategyLowLatency \<Rightarrow> connid \<Rightarrow> ('d, 's, 'p, 'f) StrategyLowLatency res" where
  "second_face D M check_losses ll cid =
     (case bestFace0 ll of
        None \<Rightarrow> Inl NullDereference
      | Some a \<Rightarrow>
          if cid = strategyNexthopStateLL_GetFaceId (ll_heap ll a) then Inr ll
          else
            bind_res (ll_get M ll cid) (\<lambda>r.
            if \<not> usable_face D check_losses (ll_heap ll r) then Inr ll
            else
              (case bestFace1 ll of
                 None \<Rightarrow> Inr (ll\<lparr>bestFace1 := Some r\<rparr>)
               | Some b \<Rightarrow>
                   (let (rtt1, ll) = read_state (strategyNexthopStateLL_GetRTTLive D) b ll;
                        (rttNewFace, ll) = read_state (strategyNexthopStateLL_GetRTTLive D) r ll
                    in if dless D (dadd D rttNewFace (dint D STABILITY_FACTOR)) rtt1
                       then Inr ((on_state strategyNexthopStateLL_SetUnusedFace b ll)\<lparr>bestFace1 := Some r\<rparr>)
                       else Inr ll))))"

text \<open>Whether the second path is used as well.\<close>

definition decide_multipath :: "'d dbl_ops \<Rightarrow> ('d, 's, 'p, 'f) StrategyLowLatency \<Rightarrow> ('d, 's, 'p, 'f) StrategyLowLatency res" where
  "decide_multipath D ll =
     (case bestFace1 ll of
        None \<Rightarrow> Inr (ll\<lparr>use2paths := False\<rparr>)
      | Some b \<Rightarrow>
          (case bestFace0 ll of
             None \<Rightarrow> Inl NullDereference
           | Some a \<Rightarrow>
               (let (rtt0, ll) = read_state (strategyNexthopStateLL_GetRTTProbe D) a ll;
                    (rtt1, ll) = read_state (strategyNexthopStateLL_GetRTTProbe D) b ll;
                    diff = db_fabs D (dsub D rtt0 rtt1)
                in if dless D diff (dint D MAX_LATENCY_DIFF)
                   then Inr (ll\<lparr>rounds_with_error := 0, use2paths := True, rounds_in_multipath := 0\<rparr>)
                   else Inr ((on_state strategyNexthopStateLL_SetUnusedFace b ll)\<lparr>bestFace1 := None, use2paths := False\<rparr>))))"

text \<open>The selection from scratch, from where the two pointers are cleared to the label \<^verbatim>\<open>NEW_ROUND\<close>.\<close>

definition search_faces ::
  "'d dbl_ops \<Rightarrow> ('s, 'p, 'f) ll_maps \<Rightarrow> ('d, 's, 'p, 'f) StrategyLowLatency \<Rightarrow> ('d, 's, 'p, 'f) StrategyLowLatency res" where
  "search_faces D M ll =
     (let ll = ll\<lparr>bestFace0 := None, bestFace1 := None\<rparr> in
      bind_res (find_face M ll (\<lambda>x. \<not> strategyNexthopStateLL_IsLossy D x \<and> strategyNexthopStateLL_IsAllowed x) (ll_keys M ll)) (\<lambda>good.
      let check_losses = (good \<noteq> None) in
      bind_res (find_face M ll (usable_face D check_losses) (ll_keys M ll)) (\<lambda>first.
      case first of
        None \<Rightarrow> Inr (ll\<lparr>use2paths := False\<rparr>)
      | Some a \<Rightarrow>
          (let (bestRtt, ll) = read_state (strategyNexthopStateLL_GetRTTLive D) a (ll\<lparr>bestFace0 := Some a\<rparr>);
               ll = (if avoid_multipath ll then ll\<lparr>rounds_avoiding_multipath := rounds_avoiding_multipath ll + 1\<rparr> else ll);
               ll = (if rounds_avoiding_multipath ll > MAX_ROUNDS_AVOIDING_MULTIPATH
                     then ll\<lparr>avoid_multipath := False, rounds_avoiding_multipath := 0\<rparr> else ll)
           in bind_res (fold_res (better_face D M check_losses) (ll, bestRtt) (ll_keys M ll)) (\<lambda>(ll, _).
              if bestFace0 ll = None then Inr (ll\<lparr>bestFace1 := None, use2paths := False\<rparr>)
              else if length (ll_keys M ll) = 1 \<or> avoid_multipath ll
              then (let ll = (case bestFace1 ll of None \<Rightarrow> ll | Some b \<Rightarrow> (on_state strategyNexthopStateLL_SetUnusedFace b ll)\<lparr>bestFace1 := None\<rparr>)
                    in Inr (ll\<lparr>use2paths := False\<rparr>))
              else bind_res (fold_res (second_face D M check_losses) ll (ll_keys M ll)) (decide_multipath D))))))"

text \<open>The set of next hops that MAP-Me has to announce after a selection, if any.\<close>

definition mapme_update ::
  "('d, 's, 'p, 'f) StrategyLowLatency \<Rightarrow> nat option \<Rightarrow> nat option \<Rightarrow> NumberSet option" where
  "mapme_update ll old0 old1 =
     (let fid = (\<lambda>r. strategyNexthopStateLL_GetFaceId (ll_heap ll r));
          add = (\<lambda>ns r. fst (numberSet_Add ns (fid r)))
      in if related_prefixes ll = [] then None
         else case bestFace0 ll of
                None \<Rightarrow> None
              | Some a \<Rightarrow>
                  if (case old0 of None \<Rightarrow> True | Some o0 \<Rightarrow> fid a \<noteq> fid o0)
                  then Some (case bestFace1 ll of None \<Rightarrow> add numberSet_Create a | Some b \<Rightarrow> add (add numberSet_Create a) b)
                  else (case bestFace1 ll of
                          Some b \<Rightarrow>
                            if (case old1 of None \<Rightarrow> True | Some o1 \<Rightarrow> fid b \<noteq> fid o1)
                            then Some (add (add numberSet_Create a) b) else None
                        | None \<Rightarrow> (case old1 of Some _ \<Rightarrow> Some (add numberSet_Create a) | None \<Rightarrow> None)))"

definition strategyLowLatency_SelectBestFaces ::
  "'d dbl_ops \<Rightarrow> ('s, 'p, 'f) ll_maps \<Rightarrow> ('d, 's, 'p, 'f) StrategyLowLatency \<Rightarrow> bool \<Rightarrow>
     (('d, 's, 'p, 'f) StrategyLowLatency \<times> NumberSet option) res" where
  "strategyLowLatency_SelectBestFaces D M ll new_round =
     (let old0 = bestFace0 ll; old1 = bestFace1 ll;
          ll = (if new_round then ll\<lparr>ll_round := ll_round ll + 1\<rparr> else ll)
      in bind_res (if length (ll_keys M ll) = 0 then Inr (ll\<lparr>bestFace0 := None, bestFace1 := None, use2paths := False\<rparr>)
                   else (let (done, ll) = keep_multipath D ll in if done then Inr ll else search_faces D M ll)) (\<lambda>ll.
         bind_res (if new_round
                   then fold_res (\<lambda>ll cid. bind_res (ll_get M ll cid) (\<lambda>r. Inr (on_state (strategyNexthopStateLL_StartNewRound D) r ll))) ll (ll_keys M ll)
                   else Inr ll) (\<lambda>ll.
         Inr (ll, mapme_update ll old0 old1))))"

definition strategyLowLatency_SendMapmeUpdate ::
  "('d, 't, 'l, 'i, 'p, 'o, 'h) mm_ops \<Rightarrow> ticks \<Rightarrow> Name list \<Rightarrow> ('d, 't, 'l, 'i, 'p, 'o, 'h) MapMe \<Rightarrow> NumberSet \<Rightarrow>
     ('d, 't, 'l, 'i, 'p, 'o, 'h) MapMe res" where
  "strategyLowLatency_SendMapmeUpdate E now related s nexthops' =
     fold_res (\<lambda>s name.
       bind_res (fib_MatchName (mm_fib s) name) (\<lambda>entry.
       case entry of None \<Rightarrow> Inr s | Some fibEntry \<Rightarrow> mapme_maybe_send_updates E now s fibEntry nexthops')) s related"

definition strategyLowLatency_BestFaceCB ::
  "'d dbl_ops \<Rightarrow> ('s, 'p, 'f) ll_maps \<Rightarrow> ('d, 's, 'p, 'f) StrategyLowLatency \<Rightarrow> (('d, 's, 'p, 'f) StrategyLowLatency \<times> NumberSet option) res" where
  "strategyLowLatency_BestFaceCB D M ll =
     bind_res (strategyLowLatency_SelectBestFaces D M ll True) (\<lambda>(ll, upd). Inr (ll\<lparr>ll_selecting := True\<rparr>, upd))"

section \<open>Probes\<close>

text \<open>A pending probe that is too old: it is counted as lost and forgotten.\<close>

definition lost_probe ::
  "('s, 'p, 'f) ll_maps \<Rightarrow> ('d, 's, 'p, 'f) StrategyLowLatency \<Rightarrow> u32 \<Rightarrow> ('d, 's, 'p, 'f) StrategyLowLatency res" where
  "lost_probe M ll seq =
     (case hm_Get (lm_faces M) (pending_probes_faces ll) seq of
        None \<Rightarrow> Inl NullDereference
      | Some cid \<Rightarrow>
          bind_res (ll_get M ll cid) (\<lambda>r.
          let ll = on_state strategyNexthopStateLL_LostProbe r ll in
          Inr (ll\<lparr>pending_probes_ticks := hm_Remove (lm_ticks M) (pending_probes_ticks ll) seq,
                  pending_probes_faces := hm_Remove (lm_faces M) (pending_probes_faces ll) seq\<rparr>)))"

text \<open>The clock has 64 bits, the time at which a probe was sent is kept in 32.\<close>

definition expired_probes :: "('s, 'p, 'f) ll_maps \<Rightarrow> ticks \<Rightarrow> ('d, 's, 'p, 'f) StrategyLowLatency \<Rightarrow> NumberSet res" where
  "expired_probes M now ll =
     fold_res (\<lambda>to_remove seq.
       case hm_Get (lm_ticks M) (pending_probes_ticks ll) seq of
         None \<Rightarrow> Inl NullDereference
       | Some sent_time \<Rightarrow> Inr (if now - ucast sent_time > ucast PROBE_LIFETIME then fst (numberSet_Add to_remove seq) else to_remove))
       numberSet_Create (hm_Keys (lm_ticks M) (pending_probes_ticks ll))"

text \<open>A probe to one next hop; \<open>rnd\<close> is the value of \<^verbatim>\<open>rand()\<close> for it.\<close>

definition probe_face ::
  "('s, 'p, 'f) ll_maps \<Rightarrow> ('i, 'a, 'o) ct_ops \<Rightarrow> ('i, 'a, 'o) ConnectionTable \<Rightarrow> ticks \<Rightarrow> (connid \<Rightarrow> u32) \<Rightarrow>
     ('d, 's, 'p, 'f) StrategyLowLatency \<times> world \<Rightarrow> connid \<Rightarrow> (('d, 's, 'p, 'f) StrategyLowLatency \<times> world) res" where
  "probe_face M C table now rnd st cid =
     (let (ll, w) = st in
      case ct_lookup C table cid of
        None \<Rightarrow> Inr (ll, w)
      | Some conn \<Rightarrow>
          bind_res (ll_get M ll cid) (\<lambda>r.
          if \<not> strategyNexthopStateLL_IsAllowed (ll_heap ll r) then Inr (ll, w)
          else
            (let seq = rnd cid;
                 (probe, name) = messageHandler_SetProbeName (ll_probe ll) HF_INET6_TCP (ll_name ll) seq;
                 ll = ll\<lparr>ll_probe := probe, ll_name := name\<rparr>;
                 w = connection_Probe conn w probe;
                 ll = ll\<lparr>pending_probes_ticks := hm_Put (lm_ticks M) (pending_probes_ticks ll) seq (ucast now),
                         pending_probes_faces := hm_Put (lm_faces M) (pending_probes_faces ll) seq cid\<rparr>
             in Inr (on_state strategyNexthopStateLL_SentProbe r ll, w))))"

definition strategyLowLatency_SendProbesCB ::
  "('s, 'p, 'f) ll_maps \<Rightarrow> ('i, 'a, 'o) ct_ops \<Rightarrow> ('i, 'a, 'o) ConnectionTable \<Rightarrow> ticks \<Rightarrow> (connid \<Rightarrow> u32) \<Rightarrow>
     ('d, 's, 'p, 'f) StrategyLowLatency \<Rightarrow> world \<Rightarrow> (('d, 's, 'p, 'f) StrategyLowLatency \<times> world) res" where
  "strategyLowLatency_SendProbesCB M C table now rnd ll w =
     bind_res (if length (hm_Keys (lm_ticks M) (pending_probes_ticks ll)) \<noteq> 0
               then bind_res (expired_probes M now ll) (\<lambda>to_remove. ns_for to_remove (lost_probe M) ll)
               else Inr ll) (\<lambda>ll.
     bind_res (fold_res (probe_face M C table now rnd) (ll, w) (ll_keys M ll)) (\<lambda>(ll, w).
     Inr (ll\<lparr>ll_probing := True\<rparr>, w)))"

section \<open>The operations of a strategy\<close>

definition strategyLowLatency_GetStrategy :: "('d, 's, 'p, 'f) StrategyLowLatency \<Rightarrow> strategy_type" where
  "strategyLowLatency_GetStrategy ll = SET_STRATEGY_LOW_LATENCY"

text \<open>
  The answer to a probe. The pending time is removed inside the loop over the egress connections, so a
  second connection with a state would read the time of a probe that is not there any more.
\<close>

definition strategyLowLatency_ReceiveObject ::
  "'d dbl_ops \<Rightarrow> ('s, 'p, 'f) ll_maps \<Rightarrow> ticks \<Rightarrow> ('d, 's, 'p, 'f) StrategyLowLatency \<Rightarrow> NumberSet \<Rightarrow> Message \<Rightarrow> ticks \<Rightarrow> ticks \<Rightarrow>
     ('d, 's, 'p, 'f) StrategyLowLatency res" where
  "strategyLowLatency_ReceiveObject D M now ll egressId objectMessage pitEntryCreation objReception =
     (if \<not> messageHandler_IsAProbe (messageHead objectMessage) then Inr ll
      else
        (let seq = messageHandler_GetSegment (messageHead objectMessage) in
         if \<not> hm_Contains (lm_ticks M) (pending_probes_ticks ll) seq then Inr ll
         else
           ns_for egressId (\<lambda>ll outId.
             case hm_Get (lm_state M) (strategy_state ll) outId of
               None \<Rightarrow> Inr ll
             | Some r \<Rightarrow>
                 (case hm_Get (lm_ticks M) (pending_probes_ticks ll) seq of
                    None \<Rightarrow> Inl NullDereference
                  | Some time \<Rightarrow>
                      (let RTT = now - ucast time; RTT = (if RTT = 0 then 1 else RTT);
                           ll = on_state (\<lambda>x. strategyNexthopStateLL_AddRttSample D x (ucast RTT)) r ll
                       in Inr (ll\<lparr>pending_probes_ticks := hm_Remove (lm_ticks M) (pending_probes_ticks ll) seq\<rparr>)))) ll))"

definition strategyLowLatency_OnTimeout :: "('d, 's, 'p, 'f) StrategyLowLatency \<Rightarrow> NumberSet \<Rightarrow> ('d, 's, 'p, 'f) StrategyLowLatency res" where
  "strategyLowLatency_OnTimeout ll egressId = Inr ll"

definition send_on :: "nat \<Rightarrow> ('d, 's, 'p, 'f) StrategyLowLatency \<Rightarrow> NumberSet \<times> ('d, 's, 'p, 'f) StrategyLowLatency" where
  "send_on r ll =
     (let ll = on_state strategyNexthopStateLL_SendPacket r ll
      in (fst (numberSet_Add numberSet_Create (strategyNexthopStateLL_GetFaceId (ll_heap ll r))), ll))"

text \<open>The flags of all next hops are set by what is available for this interest.\<close>

definition set_allowed ::
  "('s, 'p, 'f) ll_maps \<Rightarrow> NumberSet \<Rightarrow> ('d, 's, 'p, 'f) StrategyLowLatency \<Rightarrow> ('d, 's, 'p, 'f) StrategyLowLatency res" where
  "set_allowed M nexthops' ll =
     fold_res (\<lambda>ll cid. bind_res (ll_get M ll cid) (\<lambda>r.
       Inr (on_state (\<lambda>x. strategyNexthopStateLL_SetIsAllowed x (numberSet_Contains nexthops' cid)) r ll))) ll (ll_keys M ll)"

definition strategyLowLatency_LookupNexthop ::
  "'d dbl_ops \<Rightarrow> ('s, 'p, 'f) ll_maps \<Rightarrow> nat \<Rightarrow> ('d, 's, 'p, 'f) StrategyLowLatency \<Rightarrow> NumberSet \<Rightarrow> Message \<Rightarrow>
     (NumberSet \<times> ('d, 's, 'p, 'f) StrategyLowLatency \<times> NumberSet option) res" where
  "strategyLowLatency_LookupNexthop D M rnd ll nexthops' interestMessage =
     bind_res (set_allowed M nexthops' ll) (\<lambda>ll.
     bind_res (if (case bestFace0 ll of None \<Rightarrow> False | Some a \<Rightarrow> \<not> strategyNexthopStateLL_IsAllowed (ll_heap ll a))
               then strategyLowLatency_SelectBestFaces D M ll False else Inr (ll, None)) (\<lambda>(ll, upd).
     case bestFace0 ll of
       None \<Rightarrow> Inr (numberSet_Create, ll, upd)
     | Some a \<Rightarrow>
         (let (out, ll) =
            (case bestFace1 ll of
               None \<Rightarrow> send_on a ll
             | Some b \<Rightarrow>
                 if \<not> use2paths ll then send_on a ll
                 else if \<not> strategyNexthopStateLL_IsAllowed (ll_heap ll b) then send_on a ll
                 else (let queue0 = strategyNexthopStateLL_GetQueuing D (ll_heap ll a);
                           queue1 = strategyNexthopStateLL_GetQueuing D (ll_heap ll b);
                           prob0 = (if dless D (dconst D 1) queue0 \<or> dless D (dconst D 1) queue1
                                    then dsub D (dconst D 1) (ddiv D queue0 (dadd D queue0 queue1)) else dconst D (1 / 2));
                           coin = ddiv D (dint D (int rnd)) (dint D (int RAND_MAX))
                       in if dless D coin prob0 then send_on a ll else send_on b ll))
          in Inr (out, ll, upd))))"

definition strategyLowLatency_AddNexthop ::
  "'d dbl_ops \<Rightarrow> ('s, 'p, 'f) ll_maps \<Rightarrow> ('d, 's, 'p, 'f) StrategyLowLatency \<Rightarrow> connid \<Rightarrow> ('d, 's, 'p, 'f) StrategyLowLatency res" where
  "strategyLowLatency_AddNexthop D M ll connectionId =
     (let ll = (if hm_Contains (lm_state M) (strategy_state ll) connectionId then ll
                else (let r = ll_next ll;
                          ll = ll\<lparr>ll_heap := (ll_heap ll)(r := strategyNexthopStateLL_Create D connectionId), ll_next := r + 1,
                                  strategy_state := hm_Put (lm_state M) (strategy_state ll) connectionId r\<rparr>
                      in if bestFace0 ll = None then ll\<lparr>bestFace0 := Some r\<rparr> else ll))
      in if length (ll_keys M ll) \<ge> 2 then startTimers ll else Inr ll)"

definition strategyLowLatency_RemoveNexthop ::
  "'d dbl_ops \<Rightarrow> ('s, 'p, 'f) ll_maps \<Rightarrow> ('d, 's, 'p, 'f) StrategyLowLatency \<Rightarrow> connid \<Rightarrow>
     (('d, 's, 'p, 'f) StrategyLowLatency \<times> NumberSet option) res" where
  "strategyLowLatency_RemoveNexthop D M ll connectionId =
     (let is_it = (\<lambda>p. case p of None \<Rightarrow> False | Some r \<Rightarrow> strategyNexthopStateLL_GetFaceId (ll_heap ll r) = connectionId);
          reset_bestFaces = (is_it (bestFace0 ll) \<or> is_it (bestFace1 ll));
          ll = (if hm_Contains (lm_state M) (strategy_state ll) connectionId
                then ll\<lparr>strategy_state := hm_Remove (lm_state M) (strategy_state ll) connectionId\<rparr> else ll)
      in bind_res (if reset_bestFaces
                   then strategyLowLatency_SelectBestFaces D M (ll\<lparr>bestFace0 := None, bestFace1 := None\<rparr>) False
                   else Inr (ll, None)) (\<lambda>(ll, upd).
         bind_res (if length (ll_keys M ll) < 2 then stopTimers ll else Inr ll) (\<lambda>ll.
         Inr (ll, upd))))"

text \<open>Destruction frees everything; it stops the timers first.\<close>

definition strategyLowLatency_ImplDestroy :: "('d, 's, 'p, 'f) StrategyLowLatency \<Rightarrow> unit res" where
  "strategyLowLatency_ImplDestroy ll = bind_res (stopTimers ll) (\<lambda>_. Inr ())"

end
