(* ===== verification/LowLatencySelection.thy ===== *)
theory LowLatencySelection
  imports LowLatency
begin

text \<open>
  The choice of next hops by the low-latency strategy. \<open>ll_inv\<close> relates the hash map of next hops, their objects and the two pointers
  to best faces; \<open>sel_inv\<close> says in addition that the pointers go to next hops that are allowed. The selection always
  returns and establishes \<open>sel_inv\<close>, for every floating-point arithmetic, and finds a best face exactly when
  some next hop is allowed. From this follow the effects of a lookup, an addition and a removal.
\<close>

section \<open>What the selection leaves alone\<close>

text \<open>\<open>hops_kept\<close>: the same next hops with the same identifiers and flags, the same pending probes and timers.\<close>

definition hops_kept :: "('d, 's, 'p, 'f) StrategyLowLatency \<Rightarrow> ('d, 's, 'p, 'f) StrategyLowLatency \<Rightarrow> bool" where
  "hops_kept ll ll' \<longleftrightarrow>
     strategy_state ll' = strategy_state ll \<and> ll_next ll' = ll_next ll \<and> ll_ready ll' = ll_ready ll \<and>
     ll_probing ll' = ll_probing ll \<and> pending_probes_ticks ll' = pending_probes_ticks ll \<and>
     pending_probes_faces ll' = pending_probes_faces ll \<and>
     (\<forall>r. face_id (ll_heap ll' r) = face_id (ll_heap ll r) \<and> is_allowed (ll_heap ll' r) = is_allowed (ll_heap ll r))"

lemma hops_kept_refl [simp]: "hops_kept ll ll"
  by (simp add: hops_kept_def)

lemma hops_kept_trans [trans]: "hops_kept a b \<Longrightarrow> hops_kept b c \<Longrightarrow> hops_kept a c"
  by (simp add: hops_kept_def)

lemma hops_kept_simps:
  assumes "hops_kept ll ll'"
  shows "strategy_state ll' = strategy_state ll" "ll_next ll' = ll_next ll" "ll_ready ll' = ll_ready ll"
    "ll_probing ll' = ll_probing ll" "pending_probes_ticks ll' = pending_probes_ticks ll" "pending_probes_faces ll' = pending_probes_faces ll"
    "face_id (ll_heap ll' r) = face_id (ll_heap ll r)" "is_allowed (ll_heap ll' r) = is_allowed (ll_heap ll r)"
    "ll_keys M ll' = ll_keys M ll" "ll_get M ll' c = ll_get M ll c"
  using assms by (simp_all add: hops_kept_def ll_keys_def ll_get_def)

definition quiet :: "('d StrategyNexthopStateLL \<Rightarrow> 'd StrategyNexthopStateLL) \<Rightarrow> bool" where
  "quiet f \<longleftrightarrow> (\<forall>x. face_id (f x) = face_id x \<and> is_allowed (f x) = is_allowed x)"

named_theorems quiet_intros

lemma quiet_updates [quiet_intros]:
  "quiet strategyNexthopStateLL_SetUnusedFace" "quiet strategyNexthopStateLL_ResetTryToSwitch" "quiet strategyNexthopStateLL_SendPacket"
  "quiet strategyNexthopStateLL_SentProbe" "quiet strategyNexthopStateLL_LostProbe" "quiet (\<lambda>x. strategyNexthopStateLL_IncreaseTryToSwitch x n)"
  "quiet (strategyNexthopStateLL_StartNewRound D)" "quiet (\<lambda>x. strategyNexthopStateLL_AddRttSample D x t)"
  by (simp_all add: quiet_def strategyNexthopStateLL_SetUnusedFace_def strategyNexthopStateLL_ResetTryToSwitch_def
      strategyNexthopStateLL_SendPacket_def strategyNexthopStateLL_SentProbe_def strategyNexthopStateLL_LostProbe_def
      strategyNexthopStateLL_IncreaseTryToSwitch_def strategyNexthopStateLL_StartNewRound_def strategyNexthopStateLL_AddRttSample_def Let_def)

lemma quiet_reads [quiet_intros]:
  "quiet (\<lambda>x. snd (strategyNexthopStateLL_GetRTTProbe D x))" "quiet (\<lambda>x. snd (strategyNexthopStateLL_GetRTTInUse D x))"
  "quiet (\<lambda>x. snd (strategyNexthopStateLL_GetRTTLive D x))"
  by (simp_all add: quiet_def strategyNexthopStateLL_GetRTTProbe_def strategyNexthopStateLL_GetRTTInUse_def strategyNexthopStateLL_GetRTTLive_def)

lemma on_state_best [simp]:
  "bestFace0 (on_state f r ll) = bestFace0 ll" "bestFace1 (on_state f r ll) = bestFace1 ll" "use2paths (on_state f r ll) = use2paths ll"
  by (simp_all add: on_state_def)

lemma read_state_best [simp]:
  "bestFace0 (snd (read_state f r ll)) = bestFace0 ll" "bestFace1 (snd (read_state f r ll)) = bestFace1 ll"
  by (simp_all add: read_state_def)

lemma hops_kept_on_state: "quiet f \<Longrightarrow> hops_kept ll (on_state f r ll)"
  by (simp add: hops_kept_def on_state_def quiet_def)

lemma hops_kept_read [quiet_intros]:
  "hops_kept ll (snd (read_state (strategyNexthopStateLL_GetRTTLive D) r ll))"
  "hops_kept ll (snd (read_state (strategyNexthopStateLL_GetRTTProbe D) r ll))"
  "hops_kept ll (snd (read_state (strategyNexthopStateLL_GetRTTInUse D) r ll))"
  unfolding read_state_def by (simp_all add: hops_kept_on_state quiet_reads)

lemma hops_kept_fields [simp]:
  "hops_kept ll (ll'\<lparr>bestFace0 := x\<rparr>) \<longleftrightarrow> hops_kept ll ll'" "hops_kept ll (ll'\<lparr>bestFace1 := x\<rparr>) \<longleftrightarrow> hops_kept ll ll'"
  "hops_kept ll (ll'\<lparr>use2paths := p\<rparr>) \<longleftrightarrow> hops_kept ll ll'" "hops_kept ll (ll'\<lparr>avoid_multipath := p\<rparr>) \<longleftrightarrow> hops_kept ll ll'"
  "hops_kept ll (ll'\<lparr>rounds_in_multipath := n\<rparr>) \<longleftrightarrow> hops_kept ll ll'" "hops_kept ll (ll'\<lparr>rounds_with_error := n\<rparr>) \<longleftrightarrow> hops_kept ll ll'"
  "hops_kept ll (ll'\<lparr>rounds_avoiding_multipath := n\<rparr>) \<longleftrightarrow> hops_kept ll ll'" "hops_kept ll (ll'\<lparr>ll_round := n\<rparr>) \<longleftrightarrow> hops_kept ll ll'"
  by (simp_all add: hops_kept_def)

section \<open>The invariant\<close>

text \<open>An object the map has, under the identifier it carries; the next hops of the map; the pointers to the best faces.\<close>

definition in_map :: "('s, 'p, 'f) ll_maps \<Rightarrow> ('d, 's, 'p, 'f) StrategyLowLatency \<Rightarrow> nat \<Rightarrow> bool" where
  "in_map M ll r \<longleftrightarrow> hm_Get (lm_state M) (strategy_state ll) (face_id (ll_heap ll r)) = Some r"

definition hops_inv :: "('s, 'p, 'f) ll_maps \<Rightarrow> ('d, 's, 'p, 'f) StrategyLowLatency \<Rightarrow> bool" where
  "hops_inv M ll \<longleftrightarrow> hm_laws (lm_state M) \<and> ll_ready ll \<and>
     (\<forall>c r. hm_Get (lm_state M) (strategy_state ll) c = Some r \<longrightarrow> r < ll_next ll \<and> face_id (ll_heap ll r) = c)"

definition best_ok :: "('s, 'p, 'f) ll_maps \<Rightarrow> (nat \<Rightarrow> bool) \<Rightarrow> ('d, 's, 'p, 'f) StrategyLowLatency \<Rightarrow> bool" where
  "best_ok M P ll \<longleftrightarrow>
     (\<forall>a. bestFace0 ll = Some a \<longrightarrow> in_map M ll a \<and> P a) \<and>
     (\<forall>b. bestFace1 ll = Some b \<longrightarrow> in_map M ll b \<and> P b \<and> bestFace0 ll \<noteq> None \<and> bestFace0 ll \<noteq> Some b)"

definition ll_inv :: "('s, 'p, 'f) ll_maps \<Rightarrow> ('d, 's, 'p, 'f) StrategyLowLatency \<Rightarrow> bool" where
  "ll_inv M ll \<longleftrightarrow> hops_inv M ll \<and> best_ok M (\<lambda>_. True) ll"

lemma best_ok_mono: "best_ok M P ll \<Longrightarrow> (\<And>r. P r \<Longrightarrow> Q r) \<Longrightarrow> best_ok M Q ll"
  by (auto simp: best_ok_def)

lemma in_map_kept: "hops_kept ll ll' \<Longrightarrow> in_map M ll' r \<longleftrightarrow> in_map M ll r"
  by (simp add: in_map_def hops_kept_simps)

lemma hops_inv_kept: "hops_kept ll ll' \<Longrightarrow> hops_inv M ll' \<longleftrightarrow> hops_inv M ll"
  by (simp add: hops_inv_def hops_kept_simps)

lemma best_ok_kept:
  "hops_kept ll ll' \<Longrightarrow> bestFace0 ll' = bestFace0 ll \<Longrightarrow> bestFace1 ll' = bestFace1 ll \<Longrightarrow> best_ok M P ll' \<longleftrightarrow> best_ok M P ll"
  by (simp add: best_ok_def in_map_kept)

lemma hops_inv_laws: "hops_inv M ll \<Longrightarrow> hm_laws (lm_state M)"
  by (simp add: hops_inv_def)

lemma key_state:
  assumes "hops_inv M ll" "c \<in> set (ll_keys M ll)"
  obtains r where "ll_get M ll c = Inr r" "face_id (ll_heap ll r) = c" "in_map M ll r"
proof -
  from assms have "c \<in> {k. hm_Get (lm_state M) (strategy_state ll) k \<noteq> None}"
    using hm_lawsD(6)[of "lm_state M"] unfolding hops_inv_def ll_keys_def by blast
  then obtain r where "hm_Get (lm_state M) (strategy_state ll) c = Some r" by auto
  moreover have "face_id (ll_heap ll r) = c" using assms(1) calculation unfolding hops_inv_def by blast
  ultimately show thesis using that[of r] by (simp add: ll_get_def in_map_def)
qed

lemma in_map_key:
  assumes "hops_inv M ll" "in_map M ll r"
  shows "face_id (ll_heap ll r) \<in> set (ll_keys M ll)" "ll_get M ll (face_id (ll_heap ll r)) = Inr r"
  using assms(2) hm_lawsD(6)[of "lm_state M" "strategy_state ll"] hops_inv_laws[OF assms(1)]
  by (simp_all add: in_map_def ll_keys_def ll_get_def)

text \<open>A loop over the next hops with an invariant on the state.\<close>

lemma fold_res_inv:
  assumes "I st" "\<And>st x. I st \<Longrightarrow> x \<in> set xs \<Longrightarrow> \<exists>st'. f st x = Inr st' \<and> I st'"
  shows "\<exists>st'. fold_res f st xs = Inr st' \<and> I st'"
  using assms
proof (induction xs arbitrary: st)
  case (Cons x xs)
  obtain st' where "f st x = Inr st'" "I st'" using Cons.prems(2)[OF Cons.prems(1), of x] by auto
  then show ?case using Cons.IH[of st', OF _ Cons.prems(2)] by simp
qed simp

section \<open>The selection\<close>

lemma find_face_ok:
  assumes "hops_inv M ll" "set cs \<subseteq> set (ll_keys M ll)"
  shows "\<exists>res. find_face M ll P cs = Inr res \<and> (\<forall>r. res = Some r \<longrightarrow> in_map M ll r \<and> P (ll_heap ll r)) \<and>
      (res = None \<longrightarrow> (\<forall>r. in_map M ll r \<and> face_id (ll_heap ll r) \<in> set cs \<longrightarrow> \<not> P (ll_heap ll r)))"
  using assms(2)
proof (induction cs)
  case (Cons c cs)
  obtain r where r: "ll_get M ll c = Inr r" "face_id (ll_heap ll r) = c" "in_map M ll r"
    using key_state[OF assms(1), of c] Cons.prems by auto
  have only: "r' = r" if "in_map M ll r'" "face_id (ll_heap ll r') = c" for r'
    using that r by (simp add: in_map_def)
  show ?case
  proof (cases "P (ll_heap ll r)")
    case False
    have "set cs \<subseteq> set (ll_keys M ll)" using Cons.prems by simp
    from Cons.IH[OF this] show ?thesis using r(1) False by (simp del: not_None_eq) (use only False in blast)
  qed (simp add: r)
qed simp

text \<open>What one step of the search keeps: the next hops, and what the pointers point to.\<close>

definition sel_inv ::
  "('s, 'p, 'f) ll_maps \<Rightarrow> ('d, 's, 'p, 'f) StrategyLowLatency \<Rightarrow> ('d, 's, 'p, 'f) StrategyLowLatency \<Rightarrow> bool" where
  "sel_inv M ll ll' \<longleftrightarrow> hops_kept ll ll' \<and> best_ok M (\<lambda>r. is_allowed (ll_heap ll r)) ll'"

lemma usable_allowed: "usable_face D check x \<Longrightarrow> is_allowed x"
  by (simp add: usable_face_def strategyNexthopStateLL_IsAllowed_def)

lemma better_face_ok:
  assumes "hops_inv M ll0" "sel_inv M ll0 ll" "bestFace0 ll \<noteq> None" "bestFace1 ll = None" "c \<in> set (ll_keys M ll0)"
  shows "\<exists>ll' rtt'. better_face D M check (ll, rtt) c = Inr (ll', rtt') \<and> sel_inv M ll0 ll' \<and> bestFace0 ll' \<noteq> None \<and> bestFace1 ll' = None"
proof -
  have kept: "hops_kept ll0 ll" using assms(2) by (simp add: sel_inv_def)
  obtain r where r: "ll_get M ll0 c = Inr r" "face_id (ll_heap ll0 r) = c" "in_map M ll0 r"
    using key_state[OF assms(1,5)] .
  obtain x1 l1 where l1: "read_state (strategyNexthopStateLL_GetRTTLive D) r ll = (x1, l1)" by fastforce
  obtain x2 l2 where l2: "read_state (strategyNexthopStateLL_GetRTTInUse D) r l1 = (x2, l2)" by fastforce
  note k1 = hops_kept_trans[OF kept hops_kept_read(1)[of ll D r, unfolded l1 snd_conv]]
  note k2 = hops_kept_trans[OF k1 hops_kept_read(3)[of l1 D r, unfolded l2 snd_conv]]
  have b: "bestFace0 l1 = bestFace0 ll" "bestFace1 l1 = bestFace1 ll" "bestFace0 l2 = bestFace0 ll" "bestFace1 l2 = bestFace1 ll"
    using read_state_best[of "strategyNexthopStateLL_GetRTTLive D" r ll] read_state_best[of "strategyNexthopStateLL_GetRTTInUse D" r l1] by (simp_all add: l1 l2)
  have keep: "sel_inv M ll0 l'" if "hops_kept ll0 l'" "bestFace0 l' = bestFace0 ll" "bestFace1 l' = bestFace1 ll" for l'
    using assms(2) that kept by (simp add: sel_inv_def best_ok_def in_map_kept)
  have new: "sel_inv M ll0 (l'\<lparr>bestFace0 := Some r\<rparr>)" if "hops_kept ll0 l'" "bestFace1 l' = None" "usable_face D check (ll_heap l1 r)" for l'
    using that r(3) usable_allowed[OF that(3)] hops_kept_simps(8)[OF k1, of r]
    by (simp add: sel_inv_def best_ok_def in_map_def hops_kept_simps)
  show ?thesis
    using assms(3,4) r(1) b k1 k2
    by (auto simp: better_face_def hops_kept_simps(10)[OF kept] l1 l2 Let_def split: option.split intro!: keep new quiet_intros
        intro: hops_kept_trans[OF _ hops_kept_on_state] hops_kept_trans[OF hops_kept_trans[OF _ hops_kept_on_state] hops_kept_on_state])
qed

lemma second_face_ok:
  assumes "hops_inv M ll0" "sel_inv M ll0 ll" "bestFace0 ll \<noteq> None" "c \<in> set (ll_keys M ll0)"
  shows "\<exists>ll'. second_face D M check ll c = Inr ll' \<and> sel_inv M ll0 ll' \<and> bestFace0 ll' \<noteq> None"
proof -
  have kept: "hops_kept ll0 ll" using assms(2) by (simp add: sel_inv_def)
  obtain a where a: "bestFace0 ll = Some a" using assms(3) by auto
  obtain r where r: "ll_get M ll0 c = Inr r" "face_id (ll_heap ll0 r) = c" "in_map M ll0 r"
    using key_state[OF assms(1,4)] .
  have keep: "sel_inv M ll0 l'" if "hops_kept ll0 l'" "bestFace0 l' = bestFace0 ll" "bestFace1 l' = bestFace1 ll" for l'
    using assms(2) that kept by (simp add: sel_inv_def best_ok_def in_map_kept)
  have new: "sel_inv M ll0 (l'\<lparr>bestFace1 := Some r\<rparr>)"
    if "hops_kept ll0 l'" "bestFace0 l' = Some a" "usable_face D check (ll_heap ll r)" "c \<noteq> face_id (ll_heap ll a)" for l'
    using that assms(2) a r(2,3) usable_allowed[OF that(3)] kept
    by (auto simp: sel_inv_def best_ok_def in_map_def hops_kept_simps)
  show ?thesis
  proof (cases "c = face_id (ll_heap ll a) \<or> \<not> usable_face D check (ll_heap ll r)")
    case True
    then show ?thesis using assms(2) a r(1)
      by (auto simp: second_face_def strategyNexthopStateLL_GetFaceId_def hops_kept_simps(10)[OF kept])
  next
    case False
    show ?thesis
    proof (cases "bestFace1 ll")
      case None
      then show ?thesis using False new[OF kept a] a r(1)
        by (simp add: second_face_def strategyNexthopStateLL_GetFaceId_def hops_kept_simps(10)[OF kept])
    next
      case (Some b)
      obtain x1 l1 where l1: "read_state (strategyNexthopStateLL_GetRTTLive D) b ll = (x1, l1)" by fastforce
      obtain x2 l2 where l2: "read_state (strategyNexthopStateLL_GetRTTLive D) r l1 = (x2, l2)" by fastforce
      have k: "hops_kept ll0 l2"
        using hops_kept_trans[OF hops_kept_trans[OF kept hops_kept_read(1)[of ll D b]] hops_kept_read(1)[of _ D r]] by (simp add: l1 l2)
      have b: "bestFace0 l2 = bestFace0 ll" "bestFace1 l2 = bestFace1 ll"
        using read_state_best[of "strategyNexthopStateLL_GetRTTLive D" b ll] read_state_best[of "strategyNexthopStateLL_GetRTTLive D" r l1] by (simp_all add: l1 l2)
      have k': "hops_kept ll0 (on_state strategyNexthopStateLL_SetUnusedFace b l2)"
        using hops_kept_trans[OF k hops_kept_on_state] by (simp add: quiet_intros)
      show ?thesis using Some False keep[OF k] new[OF k'] b a r(1)
        by (auto simp: second_face_def strategyNexthopStateLL_GetFaceId_def hops_kept_simps(10)[OF kept] l1 l2)
    qed
  qed
qed

lemma keep_multipath_ok:
  assumes "ll_inv M ll"
  shows "hops_kept ll (snd (keep_multipath D ll))" "ll_inv M (snd (keep_multipath D ll))"
    "bestFace0 (snd (keep_multipath D ll)) = bestFace0 ll"
    "fst (keep_multipath D ll) \<Longrightarrow> sel_inv M ll (snd (keep_multipath D ll)) \<and> bestFace0 ll \<noteq> None"
proof -
  have k: "hops_kept ll (snd (keep_multipath D ll)) \<and> bestFace0 (snd (keep_multipath D ll)) = bestFace0 ll \<and>
      bestFace1 (snd (keep_multipath D ll)) = bestFace1 ll \<and>
      (fst (keep_multipath D ll) \<longrightarrow> (\<exists>a b. bestFace0 ll = Some a \<and> bestFace1 ll = Some b \<and> is_allowed (ll_heap ll a) \<and> is_allowed (ll_heap ll b)))"
  proof (cases "\<exists>a b. bestFace0 ll = Some a \<and> bestFace1 ll = Some b")
    case True
    then obtain a b where ab: "bestFace0 ll = Some a" "bestFace1 ll = Some b" by auto
    define l0 where "l0 = ll\<lparr>rounds_in_multipath := rounds_in_multipath ll + 1\<rparr>"
    obtain x1 l1 where l1: "read_state (strategyNexthopStateLL_GetRTTLive D) a l0 = (x1, l1)" by fastforce
    obtain x2 l2 where l2: "read_state (strategyNexthopStateLL_GetRTTLive D) b l1 = (x2, l2)" by fastforce
    have "hops_kept ll l0" by (simp add: l0_def)
    then have kk: "hops_kept ll l2"
      using hops_kept_trans[OF hops_kept_trans[OF _ hops_kept_read(1)[of l0 D a]] hops_kept_read(1)[of _ D b]] by (simp add: l1 l2)
    have bb: "bestFace0 l2 = bestFace0 ll" "bestFace1 l2 = bestFace1 ll"
      using read_state_best[of "strategyNexthopStateLL_GetRTTLive D" a l0] read_state_best[of "strategyNexthopStateLL_GetRTTLive D" b l1]
      by (simp_all add: l1 l2) (simp_all add: l0_def)
    show ?thesis using ab kk bb
      by (simp add: keep_multipath_def l0_def[symmetric] l1 l2 Let_def strategyNexthopStateLL_IsAllowed_def) (simp add: l0_def)
  next
    case False
    then have "keep_multipath D ll = (False, ll)" by (auto simp: keep_multipath_def split: option.split)
    then show ?thesis by simp
  qed
  then show "hops_kept ll (snd (keep_multipath D ll))" "bestFace0 (snd (keep_multipath D ll)) = bestFace0 ll" by blast+
  show "ll_inv M (snd (keep_multipath D ll))" 
    using assms k hops_inv_kept[of ll _ M] best_ok_kept[of ll _ M] unfolding ll_inv_def by blast
  show "sel_inv M ll (snd (keep_multipath D ll)) \<and> bestFace0 ll \<noteq> None" if "fst (keep_multipath D ll)"
    using assms k that by (auto simp: sel_inv_def ll_inv_def best_ok_def in_map_kept)
qed

lemma decide_multipath_ok:
  assumes "sel_inv M ll0 ll" "bestFace0 ll \<noteq> None"
  shows "\<exists>ll'. decide_multipath D ll = Inr ll' \<and> sel_inv M ll0 ll' \<and> bestFace0 ll' \<noteq> None"
proof (cases "bestFace1 ll")
  case None
  then show ?thesis using assms by (simp add: decide_multipath_def sel_inv_def best_ok_def in_map_def)
next
  case (Some b)
  obtain a where a: "bestFace0 ll = Some a" using assms(2) by auto
  obtain x1 l1 where l1: "read_state (strategyNexthopStateLL_GetRTTProbe D) a ll = (x1, l1)" by fastforce
  obtain x2 l2 where l2: "read_state (strategyNexthopStateLL_GetRTTProbe D) b l1 = (x2, l2)" by fastforce
  have kept: "hops_kept ll0 ll" using assms(1) by (simp add: sel_inv_def)
  have k: "hops_kept ll0 l2"
    using hops_kept_trans[OF hops_kept_trans[OF kept hops_kept_read(2)[of ll D a]] hops_kept_read(2)[of _ D b]] by (simp add: l1 l2)
  have bb: "bestFace0 l2 = bestFace0 ll" "bestFace1 l2 = bestFace1 ll"
    using read_state_best[of "strategyNexthopStateLL_GetRTTProbe D" a ll] read_state_best[of "strategyNexthopStateLL_GetRTTProbe D" b l1] by (simp_all add: l1 l2)
  have k': "hops_kept ll0 (on_state strategyNexthopStateLL_SetUnusedFace b l2)"
    using hops_kept_trans[OF k hops_kept_on_state] by (simp add: quiet_intros)
  have "in_map M l2 r \<longleftrightarrow> in_map M ll r" "in_map M (on_state strategyNexthopStateLL_SetUnusedFace b l2) r \<longleftrightarrow> in_map M ll r" for r
    using kept k k' by (simp_all add: in_map_kept)
  then show ?thesis using assms a Some k k' bb
    by (auto simp: decide_multipath_def l1 l2 sel_inv_def best_ok_def in_map_def)
qed

lemma sel_inv_misc [simp]:
  "sel_inv M ll (ll'\<lparr>use2paths := p\<rparr>) \<longleftrightarrow> sel_inv M ll ll'" "sel_inv M ll (ll'\<lparr>avoid_multipath := p\<rparr>) \<longleftrightarrow> sel_inv M ll ll'"
  "sel_inv M ll (ll'\<lparr>rounds_avoiding_multipath := n\<rparr>) \<longleftrightarrow> sel_inv M ll ll'"
  by (simp_all add: sel_inv_def best_ok_def in_map_def)

lemma better_faces_ok:
  assumes "hops_inv M ll0" "sel_inv M ll0 ll" "bestFace0 ll \<noteq> None" "bestFace1 ll = None"
  shows "\<exists>ll' rtt'. fold_res (better_face D M check) (ll, rtt) (ll_keys M ll0) = Inr (ll', rtt') \<and>
      sel_inv M ll0 ll' \<and> bestFace0 ll' \<noteq> None \<and> bestFace1 ll' = None"
proof -
  let ?I = "\<lambda>st. sel_inv M ll0 (fst st) \<and> bestFace0 (fst st) \<noteq> None \<and> bestFace1 (fst st) = None"
  have "\<exists>st'. better_face D M check st c = Inr st' \<and> ?I st'" if "?I st" "c \<in> set (ll_keys M ll0)" for st c
    using better_face_ok[OF assms(1), of "fst st" c D check "snd st"] that by auto
  then have "\<exists>st. fold_res (better_face D M check) (ll, rtt) (ll_keys M ll0) = Inr st \<and> ?I st"
    using assms by (intro fold_res_inv[where I = ?I]) simp_all
  then show ?thesis by auto
qed

lemma search_faces_ok:
  assumes "hops_inv M ll"
  shows "\<exists>ll'. search_faces D M ll = Inr ll' \<and> sel_inv M ll ll' \<and>
      (bestFace0 ll' = None \<longleftrightarrow> (\<forall>r. in_map M ll r \<longrightarrow> \<not> is_allowed (ll_heap ll r)))"
proof -
  define l0 where "l0 = ll\<lparr>bestFace0 := None, bestFace1 := None\<rparr>"
  have k0: "hops_kept ll l0" and h0: "hops_inv M l0" and m0: "in_map M l0 r \<longleftrightarrow> in_map M ll r" for r
    using assms by (simp_all add: l0_def hops_inv_def in_map_def)
  have heap0 [simp]: "ll_heap l0 = ll_heap ll" and keys0: "ll_keys M l0 = ll_keys M ll" by (simp_all add: l0_def ll_keys_def)
  let ?good = "\<lambda>x. \<not> strategyNexthopStateLL_IsLossy D x \<and> strategyNexthopStateLL_IsAllowed x"
  obtain good where good: "find_face M l0 ?good (ll_keys M l0) = Inr good" "\<forall>r. good = Some r \<longrightarrow> in_map M l0 r \<and> ?good (ll_heap l0 r)"
    using find_face_ok[OF h0 order_refl, of ?good] by blast
  define check where "check \<longleftrightarrow> good \<noteq> None"
  obtain first where first: "find_face M l0 (usable_face D check) (ll_keys M l0) = Inr first"
    "\<forall>r. first = Some r \<longrightarrow> in_map M l0 r \<and> usable_face D check (ll_heap l0 r)"
    "first = None \<longrightarrow> (\<forall>r. in_map M l0 r \<and> face_id (ll_heap l0 r) \<in> set (ll_keys M l0) \<longrightarrow> \<not> usable_face D check (ll_heap l0 r))"
    using find_face_ok[OF h0 order_refl, of "usable_face D check"] by blast
  show ?thesis
  proof (cases first)
    case None
    have unusable: "\<not> usable_face D check (ll_heap ll r)" if "in_map M ll r" for r
      using first(3) None that in_map_key(1)[OF h0, of r] m0[of r] by simp
    have "good = None"
    proof (rule ccontr)
      assume "good \<noteq> None"
      then obtain g where "good = Some g" by auto
      then show False using good(2) unusable[of g] m0[of g] by (simp add: usable_face_def)
    qed
    then have "\<not> is_allowed (ll_heap ll r)" if "in_map M ll r" for r
      using unusable[OF that] by (simp add: check_def usable_face_def strategyNexthopStateLL_IsAllowed_def)
    moreover have "sel_inv M ll l0" using k0 by (simp add: sel_inv_def best_ok_def l0_def)
    ultimately show ?thesis using None good(1) first(1) by (simp add: search_faces_def l0_def[symmetric] check_def) (simp add: l0_def)
  next
    case (Some a)
    have a: "in_map M ll a" "is_allowed (ll_heap ll a)" using first(2) Some m0[of a] usable_allowed[of D check "ll_heap ll a"] by simp_all
    obtain rtt l1 where l1: "read_state (strategyNexthopStateLL_GetRTTLive D) a (l0\<lparr>bestFace0 := Some a\<rparr>) = (rtt, l1)" by fastforce
    have k1: "hops_kept ll l1" using hops_kept_trans[OF _ hops_kept_read(1)[of "l0\<lparr>bestFace0 := Some a\<rparr>" D a]] k0 by (simp add: l1)
    have b1: "bestFace0 l1 = Some a" "bestFace1 l1 = None"
      using read_state_best[of "strategyNexthopStateLL_GetRTTLive D" a "l0\<lparr>bestFace0 := Some a\<rparr>"] by (simp_all add: l1) (simp add: l0_def)
    have s1: "sel_inv M ll l1" using k1 b1 a by (simp add: sel_inv_def best_ok_def in_map_kept)
    define l2 where "l2 = (if avoid_multipath l1 then l1\<lparr>rounds_avoiding_multipath := rounds_avoiding_multipath l1 + 1\<rparr> else l1)"
    define l3 where "l3 = (if rounds_avoiding_multipath l2 > MAX_ROUNDS_AVOIDING_MULTIPATH
        then l2\<lparr>avoid_multipath := False, rounds_avoiding_multipath := 0\<rparr> else l2)"
    have s3: "sel_inv M ll l3" "bestFace0 l3 \<noteq> None" "bestFace1 l3 = None" using s1 b1 by (simp_all add: l3_def l2_def)
    have k3: "ll_keys M l3 = ll_keys M ll" using s3(1) by (simp add: sel_inv_def hops_kept_simps)
    obtain l4 rtt' where l4: "fold_res (better_face D M check) (l3, rtt) (ll_keys M ll) = Inr (l4, rtt')"
      "sel_inv M ll l4" "bestFace0 l4 \<noteq> None" "bestFace1 l4 = None"
      using better_faces_ok[OF assms s3] by blast
    have k4: "ll_keys M l4 = ll_keys M ll" using l4(2) by (simp add: sel_inv_def hops_kept_simps)
    have "\<exists>l5. fold_res (second_face D M check) l4 (ll_keys M ll) = Inr l5 \<and> (sel_inv M ll l5 \<and> bestFace0 l5 \<noteq> None)"
      by (rule fold_res_inv) (use l4 second_face_ok[OF assms] in blast)+
    then obtain l5 where l5: "fold_res (second_face D M check) l4 (ll_keys M ll) = Inr l5" "sel_inv M ll l5" "bestFace0 l5 \<noteq> None" by blast
    obtain l6 where l6: "decide_multipath D l5 = Inr l6" "sel_inv M ll l6" "bestFace0 l6 \<noteq> None"
      using decide_multipath_ok[OF l5(2,3)] by blast
    have "search_faces D M ll = (if length (ll_keys M ll) = 1 \<or> avoid_multipath l4 then Inr (l4\<lparr>use2paths := False\<rparr>) else Inr l6)"
      using good(1) first(1) Some l4 k3 k4 l5(1) l6(1)
      by (simp add: search_faces_def Let_def l0_def[symmetric] check_def[symmetric] l1 l2_def[symmetric] l3_def[symmetric] del: not_None_eq split del: if_split cong: if_cong)
    then show ?thesis using l4 l6 a by auto
  qed
qed

lemma fold_on_state_ok:
  assumes "hops_inv M ll" "\<And>c. quiet (f c)"
  shows "\<exists>ll'. fold_res (\<lambda>ll cid. bind_res (ll_get M ll cid) (\<lambda>r. Inr (on_state (f cid) r ll))) ll (ll_keys M ll) = Inr ll' \<and>
      (hops_kept ll ll' \<and> bestFace0 ll' = bestFace0 ll \<and> bestFace1 ll' = bestFace1 ll)"
proof (rule fold_res_inv)
  fix l c assume l: "hops_kept ll l \<and> bestFace0 l = bestFace0 ll \<and> bestFace1 l = bestFace1 ll" "c \<in> set (ll_keys M ll)"
  obtain r where "ll_get M ll c = Inr r" using key_state[OF assms(1) l(2)] .
  moreover have "ll_get M l c = ll_get M ll c" using l(1) by (simp add: hops_kept_simps)
  ultimately show "\<exists>l'. bind_res (ll_get M l c) (\<lambda>r. Inr (on_state (f c) r l)) = Inr l' \<and>
      hops_kept ll l' \<and> bestFace0 l' = bestFace0 ll \<and> bestFace1 l' = bestFace1 ll"
    using hops_kept_trans[OF _ hops_kept_on_state[OF assms(2)], of ll l c r] l(1) by simp
qed simp

lemma SelectBestFaces_ok:
  assumes "ll_inv M ll"
  shows "\<exists>ll' upd. strategyLowLatency_SelectBestFaces D M ll new_round = Inr (ll', upd) \<and> sel_inv M ll ll' \<and>
      (bestFace0 ll' = None \<longleftrightarrow> (\<forall>r. in_map M ll r \<longrightarrow> \<not> is_allowed (ll_heap ll r)))"
proof -
  define l0 where "l0 = (if new_round then ll\<lparr>ll_round := ll_round ll + 1\<rparr> else ll)"
  have k0: "hops_kept ll l0" "ll_heap l0 = ll_heap ll" "ll_keys M l0 = ll_keys M ll" and b0: "bestFace0 l0 = bestFace0 ll" "bestFace1 l0 = bestFace1 ll"
    by (simp_all add: l0_def ll_keys_def)
  have i0: "ll_inv M l0" using assms hops_inv_kept[OF k0(1)] best_ok_kept[OF k0(1) b0] by (simp add: ll_inv_def)
  then have h0: "hops_inv M l0" by (simp add: ll_inv_def)
  define sel where "sel = (if length (ll_keys M l0) = 0 then Inr (l0\<lparr>bestFace0 := None, bestFace1 := None, use2paths := False\<rparr>)
      else (let (done, l) = keep_multipath D l0 in if done then Inr l else search_faces D M l))"
  have "\<exists>l1. sel = Inr l1 \<and> sel_inv M l0 l1 \<and> (bestFace0 l1 = None \<longleftrightarrow> (\<forall>r. in_map M l0 r \<longrightarrow> \<not> is_allowed (ll_heap l0 r)))"
  proof (cases "ll_keys M l0 = []")
    case True
    then have "\<not> in_map M l0 r" for r using in_map_key(1)[OF h0, of r] by auto
    then show ?thesis using True by (simp add: sel_def sel_inv_def best_ok_def)
  next
    case False
    obtain d l where dl: "keep_multipath D l0 = (d, l)" by fastforce
    note keep = keep_multipath_ok[OF i0, of D, unfolded dl fst_conv snd_conv]
    show ?thesis
    proof (cases d)
      case True
      then obtain a where "bestFace0 l0 = Some a" "in_map M l0 a" "is_allowed (ll_heap l0 a)" "sel_inv M l0 l"
        using keep i0 by (auto simp: sel_inv_def ll_inv_def best_ok_def)
      then show ?thesis using True False dl keep by (auto simp: sel_def)
    next
      case notd: False
      have "hops_inv M l" using keep(2) by (simp add: ll_inv_def)
      from search_faces_ok[OF this, of D] obtain l1 where l1: "search_faces D M l = Inr l1" "sel_inv M l l1"
        "bestFace0 l1 = None \<longleftrightarrow> (\<forall>r. in_map M l r \<longrightarrow> \<not> is_allowed (ll_heap l r))" by (elim exE conjE)
      have "sel_inv M l0 l1" using l1(2) hops_kept_trans[OF keep(1), of l1] by (simp add: sel_inv_def hops_kept_simps(8)[OF keep(1)])
      then show ?thesis using l1(1,3) notd False dl
        by (simp add: sel_def in_map_kept[OF keep(1)] hops_kept_simps(8)[OF keep(1)])
    qed
  qed
  then obtain l1 where l1: "sel = Inr l1" and s0: "sel_inv M l0 l1"
    and none: "bestFace0 l1 = None \<longleftrightarrow> (\<forall>r. in_map M ll r \<longrightarrow> \<not> is_allowed (ll_heap ll r))"
    unfolding k0(2) in_map_kept[OF k0(1)] by (elim exE conjE)
  have s1: "sel_inv M ll l1" using s0 hops_kept_trans[OF k0(1), of l1] by (simp add: sel_inv_def k0(2))
  have kept1: "hops_kept ll l1" using s1 by (simp add: sel_inv_def)
  have h1: "hops_inv M l1" using assms hops_inv_kept[OF kept1] by (simp add: ll_inv_def)
  have "\<exists>l2. (if new_round then fold_res (\<lambda>ll cid. bind_res (ll_get M ll cid) (\<lambda>r. Inr (on_state (strategyNexthopStateLL_StartNewRound D) r ll))) l1 (ll_keys M l1) else Inr l1) = Inr l2 \<and>
      (hops_kept l1 l2 \<and> bestFace0 l2 = bestFace0 l1 \<and> bestFace1 l2 = bestFace1 l1)"
    using fold_on_state_ok[OF h1, of "\<lambda>_. strategyNexthopStateLL_StartNewRound D"] by (simp add: quiet_intros)
  then obtain l2 where l2: "(if new_round then fold_res (\<lambda>ll cid. bind_res (ll_get M ll cid) (\<lambda>r. Inr (on_state (strategyNexthopStateLL_StartNewRound D) r ll))) l1 (ll_keys M l1) else Inr l1) = Inr l2"
    "hops_kept l1 l2" "bestFace0 l2 = bestFace0 l1" "bestFace1 l2 = bestFace1 l1" by blast
  have "sel_inv M ll l2" using s1 l2 hops_kept_trans[OF kept1 l2(2)] best_ok_kept[OF l2(2-4)] by (simp add: sel_inv_def)
  moreover have "strategyLowLatency_SelectBestFaces D M ll new_round = Inr (l2, mapme_update l2 (bestFace0 ll) (bestFace1 ll))"
    unfolding strategyLowLatency_SelectBestFaces_def Let_def l0_def[symmetric] sel_def[unfolded Let_def, symmetric] l1 bind_res_simps l2(1) ..
  ultimately show ?thesis using none l2(3) by simp
qed

lemma sel_inv_inv: "ll_inv M ll \<Longrightarrow> sel_inv M ll ll' \<Longrightarrow> ll_inv M ll'"
  using hops_inv_kept[of ll ll' M] best_ok_mono[of M _ ll' "\<lambda>_. True"] unfolding ll_inv_def sel_inv_def by blast

section \<open>The operations keep the invariant\<close>

text \<open>\<open>flags_only\<close>: only the states of next hops differ, and not in their identifiers.\<close>

definition flags_only :: "('d, 's, 'p, 'f) StrategyLowLatency \<Rightarrow> ('d, 's, 'p, 'f) StrategyLowLatency \<Rightarrow> bool" where
  "flags_only ll ll' \<longleftrightarrow> ll' = ll\<lparr>ll_heap := ll_heap ll'\<rparr> \<and> (\<forall>r. face_id (ll_heap ll' r) = face_id (ll_heap ll r))"

lemma flags_only_simps:
  assumes "flags_only ll ll'"
  shows "strategy_state ll' = strategy_state ll" "bestFace0 ll' = bestFace0 ll" "bestFace1 ll' = bestFace1 ll" "ll_ready ll' = ll_ready ll"
    "ll_next ll' = ll_next ll" "pending_probes_ticks ll' = pending_probes_ticks ll" "pending_probes_faces ll' = pending_probes_faces ll"
    "face_id (ll_heap ll' r) = face_id (ll_heap ll r)" "in_map M ll' r \<longleftrightarrow> in_map M ll r" "ll_get M ll' c = ll_get M ll c" "ll_keys M ll' = ll_keys M ll"
proof -
  obtain h where "ll' = ll\<lparr>ll_heap := h\<rparr>" "\<forall>r. face_id (ll_heap ll' r) = face_id (ll_heap ll r)" using assms unfolding flags_only_def by blast
  then show "strategy_state ll' = strategy_state ll" "bestFace0 ll' = bestFace0 ll" "bestFace1 ll' = bestFace1 ll" "ll_ready ll' = ll_ready ll"
    "ll_next ll' = ll_next ll" "pending_probes_ticks ll' = pending_probes_ticks ll" "pending_probes_faces ll' = pending_probes_faces ll"
    "face_id (ll_heap ll' r) = face_id (ll_heap ll r)" "in_map M ll' r \<longleftrightarrow> in_map M ll r" "ll_get M ll' c = ll_get M ll c" "ll_keys M ll' = ll_keys M ll"
    by (simp_all add: in_map_def ll_get_def ll_keys_def)
qed

lemma flags_only_heap:
  assumes "flags_only ll l" "\<And>r. face_id (h r) = face_id (ll_heap ll r)"
  shows "flags_only ll (l\<lparr>ll_heap := h\<rparr>)"
proof -
  obtain h' where "l = ll\<lparr>ll_heap := h'\<rparr>" using assms(1) unfolding flags_only_def by blast
  then show ?thesis using assms(2) by (simp add: flags_only_def)
qed

lemma flags_only_inv: "flags_only ll ll' \<Longrightarrow> ll_inv M ll' \<longleftrightarrow> ll_inv M ll"
  by (simp add: ll_inv_def hops_inv_def best_ok_def flags_only_simps)

abbreviation flag_step where
  "flag_step M avail ll cid \<equiv> bind_res (ll_get M ll cid) (\<lambda>r.
     Inr (on_state (\<lambda>x. strategyNexthopStateLL_SetIsAllowed x (numberSet_Contains avail cid)) r ll))"

lemma flag_loop_ok:
  assumes "hops_inv M ll" "ns_inv avail" "flags_only ll l" "set cs \<subseteq> set (ll_keys M ll)"
  shows "\<exists>ll'. fold_res (flag_step M avail) l cs = Inr ll' \<and> flags_only ll ll' \<and>
      (\<forall>r. in_map M ll r \<longrightarrow> is_allowed (ll_heap ll' r) =
        (if face_id (ll_heap ll r) \<in> set cs then face_id (ll_heap ll r) \<in> ns_set avail else is_allowed (ll_heap l r)))"
  using assms(3,4)
proof (induction cs arbitrary: l)
  case (Cons c cs)
  obtain r where r: "ll_get M ll c = Inr r" "face_id (ll_heap ll r) = c" "in_map M ll r" using key_state[OF assms(1), of c] Cons.prems(2) by auto
  define l' where "l' = on_state (\<lambda>x. strategyNexthopStateLL_SetIsAllowed x (c \<in> ns_set avail)) r l"
  have step: "flag_step M avail l c = Inr l'"
    using r(1) Cons.prems(1) by (simp add: l'_def flags_only_simps Contains_abs[OF assms(2)])
  have fl: "flags_only ll l'" 
    using flags_only_heap[OF Cons.prems(1)] by (simp add: l'_def on_state_def strategyNexthopStateLL_SetIsAllowed_def flags_only_simps[OF Cons.prems(1)])
  have "set cs \<subseteq> set (ll_keys M ll)" using Cons.prems(2) by simp
  from Cons.IH[OF fl this] obtain ll' where ll': "fold_res (flag_step M avail) l' cs = Inr ll'" "flags_only ll ll'"
    "\<forall>q. in_map M ll q \<longrightarrow> is_allowed (ll_heap ll' q) =
      (if face_id (ll_heap ll q) \<in> set cs then face_id (ll_heap ll q) \<in> ns_set avail else is_allowed (ll_heap l' q))" by (elim exE conjE)
  have same: "q = r \<longleftrightarrow> face_id (ll_heap ll q) = c" if "in_map M ll q" for q
    using that r(3) unfolding r(2)[symmetric] in_map_def by (metis option.inject)
  have "is_allowed (ll_heap l' q) = (if q = r then c \<in> ns_set avail else is_allowed (ll_heap l q))" for q
    by (simp add: l'_def on_state_def strategyNexthopStateLL_SetIsAllowed_def)
  then have "is_allowed (ll_heap ll' q) =
      (if face_id (ll_heap ll q) \<in> set (c # cs) then face_id (ll_heap ll q) \<in> ns_set avail else is_allowed (ll_heap l q))" if "in_map M ll q" for q
    using ll'(3)[rule_format, OF that] same[OF that] r(2) by (cases "q = r") simp_all
  moreover have "fold_res (flag_step M avail) l (c # cs) = Inr ll'" unfolding fold_res.simps step bind_res_simps by (rule ll'(1))
  ultimately show ?case using ll'(2) by blast
qed simp

lemma set_allowed_ok:
  assumes "hops_inv M ll" "ns_inv avail"
  shows "\<exists>ll'. set_allowed M avail ll = Inr ll' \<and> flags_only ll ll' \<and>
      (\<forall>r. in_map M ll r \<longrightarrow> (is_allowed (ll_heap ll' r) \<longleftrightarrow> face_id (ll_heap ll r) \<in> ns_set avail))"
proof -
  have "flags_only ll ll" by (simp add: flags_only_def)
  from flag_loop_ok[OF assms this order_refl] show ?thesis
    using in_map_key(1)[OF assms(1)] unfolding set_allowed_def by auto
qed

lemma send_on_ok:
  assumes "ll_inv M ll" "in_map M ll r" "face_id (ll_heap ll r) \<in> ns_set avail"
  shows "ll_inv M (snd (send_on r ll))" "ns_inv (fst (send_on r ll))" "ns_items (fst (send_on r ll)) = [face_id (ll_heap ll r)]"
    "hops_kept ll (snd (send_on r ll))"
proof -
  have k: "hops_kept ll (on_state strategyNexthopStateLL_SendPacket r ll)" by (simp add: hops_kept_on_state quiet_intros)
  show "ll_inv M (snd (send_on r ll))" using assms(1) hops_inv_kept[OF k, of M] best_ok_kept[OF k, of M] by (simp add: ll_inv_def send_on_def Let_def)
  show "ns_inv (fst (send_on r ll))" "ns_items (fst (send_on r ll)) = [face_id (ll_heap ll r)]" "hops_kept ll (snd (send_on r ll))"
    using k by (simp_all add: send_on_def Let_def ns_singleton strategyNexthopStateLL_GetFaceId_def hops_kept_simps)
qed

text \<open>The flags of the next hops are those for the set \<open>avail\<close>, and the best face is allowed.\<close>

definition flags_of :: "('s, 'p, 'f) ll_maps \<Rightarrow> NumberSet \<Rightarrow> ('d, 's, 'p, 'f) StrategyLowLatency \<Rightarrow> bool" where
  "flags_of M avail ll \<longleftrightarrow> (\<forall>r. in_map M ll r \<longrightarrow> (is_allowed (ll_heap ll r) \<longleftrightarrow> face_id (ll_heap ll r) \<in> ns_set avail)) \<and>
     (\<forall>a. bestFace0 ll = Some a \<longrightarrow> is_allowed (ll_heap ll a))"

lemma flags_of_kept: "hops_kept ll ll' \<Longrightarrow> bestFace0 ll' = bestFace0 ll \<Longrightarrow> flags_of M avail ll' \<longleftrightarrow> flags_of M avail ll"
  by (simp add: flags_of_def in_map_kept hops_kept_simps)

text \<open>The selection during a lookup, made when the best face is not allowed.\<close>

lemma reselect_ok:
  assumes "ll_inv M ll"
  defines "bad \<equiv> (case bestFace0 ll of None \<Rightarrow> False | Some a \<Rightarrow> \<not> strategyNexthopStateLL_IsAllowed (ll_heap ll a))"
  shows "\<exists>ll' upd. (if bad then strategyLowLatency_SelectBestFaces D M ll False else Inr (ll, None)) = Inr (ll', upd) \<and>
      hops_kept ll ll' \<and> ll_inv M ll' \<and> (\<forall>a. bestFace0 ll' = Some a \<longrightarrow> is_allowed (ll_heap ll' a)) \<and>
      (bestFace0 ll' = None \<longleftrightarrow> bestFace0 ll = None \<or> (\<forall>r. in_map M ll r \<longrightarrow> \<not> is_allowed (ll_heap ll r)))"
proof (cases bad)
  case True
  obtain l2 upd where l2: "strategyLowLatency_SelectBestFaces D M ll False = Inr (l2, upd)" "sel_inv M ll l2"
    "bestFace0 l2 = None \<longleftrightarrow> (\<forall>r. in_map M ll r \<longrightarrow> \<not> is_allowed (ll_heap ll r))"
    using SelectBestFaces_ok[OF assms(1), of D False] by (elim exE conjE)
  have "bestFace0 ll \<noteq> None" using True by (auto simp: bad_def split: option.splits)
  moreover have "hops_kept ll l2" "\<forall>a. bestFace0 l2 = Some a \<longrightarrow> is_allowed (ll_heap l2 a)"
    using l2(2) by (auto simp: sel_inv_def best_ok_def hops_kept_simps)
  ultimately show ?thesis using l2 sel_inv_inv[OF assms(1) l2(2)] True by (simp del: not_None_eq)
next
  case False
  then show ?thesis using assms(1) by (auto simp: bad_def ll_inv_def best_ok_def strategyNexthopStateLL_IsAllowed_def split: option.splits)
qed

lemma LookupNexthop_ok:
  assumes "ll_inv M ll" "ns_inv avail"
  shows "\<exists>out ll' upd. strategyLowLatency_LookupNexthop D M rnd ll avail m = Inr (out, ll', upd) \<and> ll_inv M ll' \<and> ns_inv out \<and>
      ns_set out \<subseteq> ns_set avail \<inter> set (ll_keys M ll) \<and> length (ns_items out) \<le> 1 \<and>
      (ns_items out = [] \<longleftrightarrow> bestFace0 ll = None \<or> set (ll_keys M ll) \<inter> ns_set avail = {}) \<and>
      (bestFace0 ll' = None \<longleftrightarrow> ns_items out = []) \<and> flags_of M avail ll' \<and>
      strategy_state ll' = strategy_state ll \<and> pending_probes_ticks ll' = pending_probes_ticks ll \<and> pending_probes_faces ll' = pending_probes_faces ll"
proof -
  have h: "hops_inv M ll" using assms(1) by (simp add: ll_inv_def)
  obtain l1 where l1: "set_allowed M avail ll = Inr l1" and fl: "flags_only ll l1"
    and al: "\<And>r. in_map M ll r \<Longrightarrow> is_allowed (ll_heap l1 r) \<longleftrightarrow> face_id (ll_heap ll r) \<in> ns_set avail"
    using set_allowed_ok[OF h assms(2)] by blast
  have i1: "ll_inv M l1" using flags_only_inv[OF fl] assms(1) by simp
  obtain l2 upd where l2: "(if case bestFace0 l1 of None \<Rightarrow> False | Some a \<Rightarrow> \<not> strategyNexthopStateLL_IsAllowed (ll_heap l1 a)
      then strategyLowLatency_SelectBestFaces D M l1 False else Inr (l1, None)) = Inr (l2, upd)"
    and k2: "hops_kept l1 l2" and i2: "ll_inv M l2" and a2: "\<forall>a. bestFace0 l2 = Some a \<longrightarrow> is_allowed (ll_heap l2 a)"
    and n2: "bestFace0 l2 = None \<longleftrightarrow> bestFace0 l1 = None \<or> (\<forall>r. in_map M l1 r \<longrightarrow> \<not> is_allowed (ll_heap l1 r))"
    using reselect_ok[OF i1, of D] by (elim exE conjE)
  have "(\<exists>r. in_map M ll r \<and> face_id (ll_heap ll r) \<in> ns_set avail) \<longleftrightarrow> set (ll_keys M ll) \<inter> ns_set avail \<noteq> {}"
    using in_map_key(1)[OF h] key_state[OF h] by (metis disjoint_iff)
  with n2 have none: "bestFace0 l2 = None \<longleftrightarrow> bestFace0 ll = None \<or> set (ll_keys M ll) \<inter> ns_set avail = {}"
    using al by (auto simp: flags_only_simps[OF fl])
  have f2: "flags_of M avail l2" unfolding flags_of_def
    using al a2 by (simp add: in_map_kept[OF k2] hops_kept_simps[OF k2] flags_only_simps[OF fl])
  then have ok: "in_map M l2 r \<Longrightarrow> is_allowed (ll_heap l2 r) \<Longrightarrow> face_id (ll_heap l2 r) \<in> ns_set avail" for r
    by (simp add: flags_of_def)
  note pure = hops_kept_simps(1,5,6)[OF k2] flags_only_simps(1,6,7)[OF fl]
  show ?thesis
  proof (cases "bestFace0 l2")
    case None
    then have "strategyLowLatency_LookupNexthop D M rnd ll avail m = Inr (numberSet_Create, l2, upd)"
      unfolding strategyLowLatency_LookupNexthop_def l1 bind_res_simps l2 by simp
    then show ?thesis using None i2 none pure f2 by (simp add: ns_set_def)
  next
    case (Some a)
    have a: "in_map M l2 a" "is_allowed (ll_heap l2 a)" using Some i2 a2 by (simp_all add: ll_inv_def best_ok_def)
    have "\<exists>r. in_map M l2 r \<and> is_allowed (ll_heap l2 r) \<and>
        strategyLowLatency_LookupNexthop D M rnd ll avail m = Inr (fst (send_on r l2), snd (send_on r l2), upd)"
    proof (cases "\<exists>b. bestFace1 l2 = Some b \<and> use2paths l2 \<and> is_allowed (ll_heap l2 b)")
      case True
      then obtain b where b: "bestFace1 l2 = Some b" "use2paths l2" "is_allowed (ll_heap l2 b)" by blast
      then have "in_map M l2 b" using i2 by (simp add: ll_inv_def best_ok_def)
      then show ?thesis using a b Some unfolding strategyLowLatency_LookupNexthop_def l1 bind_res_simps l2
        by (simp add: strategyNexthopStateLL_IsAllowed_def Let_def case_prod_unfold) blast
    next
      case False
      then show ?thesis using a Some unfolding strategyLowLatency_LookupNexthop_def l1 bind_res_simps l2
        by (intro exI[of _ a]) (auto simp: strategyNexthopStateLL_IsAllowed_def Let_def case_prod_unfold split: option.split)
    qed
    then obtain r where r: "in_map M l2 r" "is_allowed (ll_heap l2 r)"
      "strategyLowLatency_LookupNexthop D M rnd ll avail m = Inr (fst (send_on r l2), snd (send_on r l2), upd)" by blast
    have b: "bestFace0 (snd (send_on r l2)) = bestFace0 l2" by (simp add: send_on_def Let_def)
    have key: "face_id (ll_heap l2 r) \<in> set (ll_keys M ll)"
      using in_map_key(1)[OF _ r(1)] i2 by (simp add: ll_inv_def ll_keys_def pure)
    have "flags_of M avail (snd (send_on r l2))" using f2 flags_of_kept[OF send_on_ok(4)[OF i2 r(1) ok[OF r(1,2)]] b] by simp
    then show ?thesis using r(3) send_on_ok[OF i2 r(1)] ok[OF r(1,2)] key none Some pure hops_kept_simps(1,5,6)[OF send_on_ok(4)[OF i2 r(1), of avail]] b
      by (simp add: ns_set_def)
  qed
qed

lemma timers_fields [simp]:
  "ll_inv M (ll\<lparr>ll_probing := p, ll_selecting := q\<rparr>) \<longleftrightarrow> ll_inv M ll" "ll_inv M (ll\<lparr>ll_probing := p\<rparr>) \<longleftrightarrow> ll_inv M ll"
  "ll_inv M (ll\<lparr>ll_selecting := q\<rparr>) \<longleftrightarrow> ll_inv M ll"
  by (simp_all add: ll_inv_def hops_inv_def best_ok_def in_map_def)

text \<open>A new next hop; its state is the best face when there was none.\<close>

definition new_hop :: "'d dbl_ops \<Rightarrow> ('s, 'p, 'f) ll_maps \<Rightarrow> ('d, 's, 'p, 'f) StrategyLowLatency \<Rightarrow> connid \<Rightarrow> ('d, 's, 'p, 'f) StrategyLowLatency" where
  "new_hop D M ll c =
     ll\<lparr>ll_heap := (ll_heap ll)(ll_next ll := strategyNexthopStateLL_Create D c), ll_next := ll_next ll + 1,
        strategy_state := hm_Put (lm_state M) (strategy_state ll) c (ll_next ll),
        bestFace0 := (if bestFace0 ll = None then Some (ll_next ll) else bestFace0 ll)\<rparr>"

lemma new_hop_inv:
  assumes "ll_inv M ll" "hm_Get (lm_state M) (strategy_state ll) c = None"
  shows "ll_inv M (new_hop D M ll c)"
proof -
  have laws: "hm_laws (lm_state M)" using assms(1) by (simp add: ll_inv_def hops_inv_def)
  have known: "r < ll_next ll \<and> face_id (ll_heap ll r) = k" if "hm_Get (lm_state M) (strategy_state ll) k = Some r" for k r
    using assms(1) that by (simp add: ll_inv_def hops_inv_def)
  have get: "hm_Get (lm_state M) (strategy_state (new_hop D M ll c)) k = (if k = c then Some (ll_next ll) else hm_Get (lm_state M) (strategy_state ll) k)" for k
    by (simp add: new_hop_def hm_lawsD(2)[OF laws])
  have fid: "face_id (ll_heap (new_hop D M ll c) r) = (if r = ll_next ll then c else face_id (ll_heap ll r))" for r
    by (simp add: new_hop_def strategyNexthopStateLL_Create_def)
  have new: "in_map M (new_hop D M ll c) (ll_next ll)" by (simp add: in_map_def get fid)
  have old: "in_map M (new_hop D M ll c) r" "r \<noteq> ll_next ll" if "in_map M ll r" for r
    using that known[of "face_id (ll_heap ll r)" r] assms(2) by (auto simp: in_map_def get fid)
  have "hops_inv M (new_hop D M ll c)"
    using assms(1) known unfolding hops_inv_def get fid by (auto simp: ll_inv_def hops_inv_def new_hop_def less_SucI)
  moreover have "best_ok M (\<lambda>_. True) (new_hop D M ll c)"
    using assms(1) new old by (auto simp: ll_inv_def best_ok_def) (auto simp: new_hop_def split: if_splits)
  ultimately show ?thesis by (simp add: ll_inv_def)
qed

lemma AddNexthop_eq:
  assumes "ll_inv M ll"
  shows "strategyLowLatency_AddNexthop D M ll c =
     (let ll' = (if hm_Get (lm_state M) (strategy_state ll) c = None then new_hop D M ll c else ll)
      in Inr (if length (ll_keys M ll') \<ge> 2 then ll'\<lparr>ll_probing := True, ll_selecting := True\<rparr> else ll'))"
  using assms by (simp add: strategyLowLatency_AddNexthop_def new_hop_def startTimers_def Let_def ll_inv_def hops_inv_def hm_lawsD(4))

lemma ll_AddNexthop_ok:
  assumes "ll_inv M ll"
  shows "\<exists>ll'. strategyLowLatency_AddNexthop D M ll c = Inr ll' \<and> ll_inv M ll' \<and> set (ll_keys M ll') = insert c (set (ll_keys M ll)) \<and>
      pending_probes_ticks ll' = pending_probes_ticks ll \<and> pending_probes_faces ll' = pending_probes_faces ll"
proof -
  have laws: "hm_laws (lm_state M)" using assms by (simp add: ll_inv_def hops_inv_def)
  define ll' where "ll' = (if hm_Get (lm_state M) (strategy_state ll) c = None then new_hop D M ll c else ll)"
  have "ll_inv M ll'" using assms new_hop_inv[OF assms] by (simp add: ll'_def)
  moreover have "set (ll_keys M ll') = insert c (set (ll_keys M ll))"
    by (auto simp: ll'_def ll_keys_def new_hop_def hm_lawsD(2,6)[OF laws])
  moreover have "pending_probes_ticks ll' = pending_probes_ticks ll" "pending_probes_faces ll' = pending_probes_faces ll"
    by (simp_all add: ll'_def new_hop_def)
  ultimately show ?thesis unfolding AddNexthop_eq[OF assms] ll'_def[symmetric] Let_def by (simp add: ll_keys_def)
qed

text \<open>Removal of a next hop from the map, when no pointer goes to it.\<close>

lemma drop_hop_inv:
  assumes "ll_inv M ll" "\<And>r. bestFace0 ll = Some r \<or> bestFace1 ll = Some r \<Longrightarrow> face_id (ll_heap ll r) \<noteq> c"
  shows "ll_inv M (ll\<lparr>strategy_state := hm_Remove (lm_state M) (strategy_state ll) c\<rparr>)"
proof -
  have "hm_laws (lm_state M)" using assms(1) by (simp add: ll_inv_def hops_inv_def)
  then show ?thesis using assms by (auto simp: ll_inv_def hops_inv_def best_ok_def in_map_def hm_lawsD(3) split: if_splits)
qed

lemma clear_hop_inv:
  assumes "ll_inv M ll"
  shows "ll_inv M (ll\<lparr>strategy_state := hm_Remove (lm_state M) (strategy_state ll) c, bestFace0 := None, bestFace1 := None\<rparr>)"
proof -
  have "hm_laws (lm_state M)" using assms by (simp add: ll_inv_def hops_inv_def)
  then show ?thesis using assms by (simp add: ll_inv_def hops_inv_def best_ok_def hm_lawsD(3))
qed

lemma ll_RemoveNexthop_ok:
  assumes "ll_inv M ll"
  shows "\<exists>ll' upd. strategyLowLatency_RemoveNexthop D M ll c = Inr (ll', upd) \<and> ll_inv M ll' \<and> set (ll_keys M ll') = set (ll_keys M ll) - {c} \<and>
      (\<forall>r. is_allowed (ll_heap ll' r) = is_allowed (ll_heap ll r) \<and> face_id (ll_heap ll' r) = face_id (ll_heap ll r)) \<and>
      (\<forall>a. bestFace0 ll = Some a \<and> face_id (ll_heap ll a) = c \<longrightarrow>
         (bestFace0 ll' = None \<longleftrightarrow> (\<forall>r. in_map M ll' r \<longrightarrow> \<not> is_allowed (ll_heap ll' r)))) \<and>
      (\<forall>r. in_map M ll' r \<longrightarrow> in_map M ll r) \<and> ll_probing ll' = (ll_probing ll \<and> 2 \<le> length (ll_keys M ll')) \<and>
      pending_probes_ticks ll' = pending_probes_ticks ll \<and> pending_probes_faces ll' = pending_probes_faces ll"
proof -
  have laws: "hm_laws (lm_state M)" using assms by (simp add: ll_inv_def hops_inv_def)
  define reset where "reset \<longleftrightarrow> (case bestFace0 ll of None \<Rightarrow> False | Some r \<Rightarrow> strategyNexthopStateLL_GetFaceId (ll_heap ll r) = c) \<or>
    (case bestFace1 ll of None \<Rightarrow> False | Some r \<Rightarrow> strategyNexthopStateLL_GetFaceId (ll_heap ll r) = c)"
  define lr where "lr = (if hm_Contains (lm_state M) (strategy_state ll) c then ll\<lparr>strategy_state := hm_Remove (lm_state M) (strategy_state ll) c\<rparr> else ll)"
  define l1 where "l1 = (if reset then lr\<lparr>bestFace0 := None, bestFace1 := None\<rparr> else lr)"
  have "ll_inv M (lr\<lparr>bestFace0 := None, bestFace1 := None\<rparr>)"
    using assms clear_hop_inv[OF assms, of c] unfolding lr_def by (simp add: ll_inv_def hops_inv_def best_ok_def)
  moreover have "ll_inv M lr" if "\<not> reset"
  proof -
    have "face_id (ll_heap ll r) \<noteq> c" if "bestFace0 ll = Some r \<or> bestFace1 ll = Some r" for r
      using that \<open>\<not> reset\<close> by (auto simp: reset_def strategyNexthopStateLL_GetFaceId_def)
    from drop_hop_inv[OF assms this] show ?thesis using assms by (simp add: lr_def)
  qed
  ultimately have i1: "ll_inv M l1" by (simp add: l1_def)
  have k1: "set (ll_keys M l1) = set (ll_keys M ll) - {c}" "pending_probes_ticks l1 = pending_probes_ticks ll" "pending_probes_faces l1 = pending_probes_faces ll"
    by (auto simp: l1_def lr_def ll_keys_def hm_lawsD(3,4,6)[OF laws])
  obtain l2 upd where l2: "(if reset then strategyLowLatency_SelectBestFaces D M l1 False else Inr (l1, None)) = Inr (l2, upd)"
    "hops_kept l1 l2" "ll_inv M l2" "reset \<Longrightarrow> bestFace0 l2 = None \<longleftrightarrow> (\<forall>r. in_map M l2 r \<longrightarrow> \<not> is_allowed (ll_heap l2 r))"
  proof (cases reset)
    case True
    obtain l2 upd where sel: "strategyLowLatency_SelectBestFaces D M l1 False = Inr (l2, upd)" "sel_inv M l1 l2"
      "bestFace0 l2 = None \<longleftrightarrow> (\<forall>r. in_map M l1 r \<longrightarrow> \<not> is_allowed (ll_heap l1 r))"
      using SelectBestFaces_ok[OF i1, of D False] by (elim exE conjE)
    have k: "hops_kept l1 l2" using sel(2) by (simp add: sel_inv_def)
    show thesis using that[OF _ k sel_inv_inv[OF i1 sel(2)]] sel True unfolding in_map_kept[OF k] hops_kept_simps(8)[OF k] by simp
  qed (use that i1 in simp)
  have "strategyLowLatency_RemoveNexthop D M ll c =
      bind_res (if reset then strategyLowLatency_SelectBestFaces D M l1 False else Inr (l1, None)) (\<lambda>(ll, upd).
      bind_res (if length (ll_keys M ll) < 2 then stopTimers ll else Inr ll) (\<lambda>ll. Inr (ll, upd)))"
    unfolding strategyLowLatency_RemoveNexthop_def Let_def reset_def[symmetric] lr_def[symmetric] l1_def by simp
  also have "\<dots> = Inr (if length (ll_keys M l2) < 2 then l2\<lparr>ll_probing := False, ll_selecting := False\<rparr> else l2, upd)"
    using l2(1,3) by (simp add: stopTimers_def ll_inv_def hops_inv_def)
  finally have result: "strategyLowLatency_RemoveNexthop D M ll c = \<dots>" .
  have heap: "ll_heap l1 = ll_heap ll" "ll_probing l1 = ll_probing ll" by (simp_all add: l1_def lr_def)
  have "bestFace0 l2 = None \<longleftrightarrow> (\<forall>r. in_map M l2 r \<longrightarrow> \<not> is_allowed (ll_heap l2 r))" if "\<exists>a. bestFace0 ll = Some a \<and> face_id (ll_heap ll a) = c"
    using l2(4) that by (auto simp: reset_def strategyNexthopStateLL_GetFaceId_def)
  moreover have "hm_Get (lm_state M) (strategy_state l1) k = Some r \<Longrightarrow> hm_Get (lm_state M) (strategy_state ll) k = Some r" for k r
    by (simp add: l1_def lr_def hm_lawsD(3)[OF laws] split: if_splits)
  ultimately show ?thesis using result k1 l2(3) hops_kept_simps[OF l2(2)] by (simp add: ll_keys_def heap in_map_def)
qed

end
