(* ===== verification/LowLatencyRuns.thy ===== *)
theory LowLatencyRuns
  imports LowLatencySelection
begin

text \<open>
  Runs of the low-latency strategy: its probes (\<open>probes_inv\<close>: a pending probe belongs to a next hop of the map), its events as
  a datatype with their handler \<open>ll_handle\<close>, and the strategy as an instance of \<open>next_hop_selection\<close>. It is not one of
  \<open>forwarding_strategy\<close>: data for an interest that left over two connections makes it fail. The properties say
  that runs without removals are safe and what a lookup returns, and show three ways in which the strategy fails.
\<close>

section \<open>Probes\<close>

text \<open>A pending probe has a next hop, and this next hop is in the map.\<close>

definition probes_inv :: "('s, 'p, 'f) ll_maps \<Rightarrow> ('d, 's, 'p, 'f) StrategyLowLatency \<Rightarrow> bool" where
  "probes_inv M ll \<longleftrightarrow> hm_laws (lm_ticks M) \<and> hm_laws (lm_faces M) \<and>
     (\<forall>seq. hm_Get (lm_ticks M) (pending_probes_ticks ll) seq \<noteq> None \<longrightarrow>
        (\<exists>c. hm_Get (lm_faces M) (pending_probes_faces ll) seq = Some c \<and> c \<in> set (ll_keys M ll)))"

lemma probes_inv_kept: "hops_kept ll ll' \<Longrightarrow> probes_inv M ll' \<longleftrightarrow> probes_inv M ll"
  by (simp add: probes_inv_def hops_kept_simps)

lemma ll_inv_kept:
  "hops_kept ll ll' \<Longrightarrow> bestFace0 ll' = bestFace0 ll \<Longrightarrow> bestFace1 ll' = bestFace1 ll \<Longrightarrow> ll_inv M ll' \<longleftrightarrow> ll_inv M ll"
  using hops_inv_kept[of ll ll' M] best_ok_kept[of ll ll' M] unfolding ll_inv_def by blast

lemma probes_inv_timer [simp]:
  "probes_inv M (ll\<lparr>ll_probing := p\<rparr>) \<longleftrightarrow> probes_inv M ll" "probes_inv M (ll\<lparr>ll_selecting := q\<rparr>) \<longleftrightarrow> probes_inv M ll"
  "ll_keys M (ll\<lparr>ll_probing := p\<rparr>) = ll_keys M ll" "ll_keys M (ll\<lparr>ll_selecting := q\<rparr>) = ll_keys M ll"
  by (simp_all add: probes_inv_def ll_keys_def)

lemma ll_inv_pending [simp]:
  "ll_inv M (ll\<lparr>pending_probes_ticks := p\<rparr>) \<longleftrightarrow> ll_inv M ll" "ll_inv M (ll\<lparr>pending_probes_faces := q\<rparr>) \<longleftrightarrow> ll_inv M ll"
  "ll_inv M (ll\<lparr>ll_probe := x\<rparr>) \<longleftrightarrow> ll_inv M ll" "ll_inv M (ll\<lparr>ll_name := n\<rparr>) \<longleftrightarrow> ll_inv M ll"
  by (simp_all add: ll_inv_def hops_inv_def best_ok_def in_map_def)

lemma ll_inv_on_state: "quiet f \<Longrightarrow> ll_inv M (on_state f r ll) \<longleftrightarrow> ll_inv M ll"
  using ll_inv_kept[OF hops_kept_on_state[of f ll r]] by simp

lemma on_state_probes [simp]:
  "strategy_state (on_state f r ll) = strategy_state ll" "pending_probes_ticks (on_state f r ll) = pending_probes_ticks ll"
  "pending_probes_faces (on_state f r ll) = pending_probes_faces ll" "ll_keys M (on_state f r ll) = ll_keys M ll"
  "ll_get M (on_state f r ll) c = ll_get M ll c"
  by (simp_all add: on_state_def ll_keys_def ll_get_def)

text \<open>The probe timer: a state it can handle, and the same next hops after it.\<close>

definition probing :: "('s, 'p, 'f) ll_maps \<Rightarrow> connid list \<Rightarrow> ('d, 's, 'p, 'f) StrategyLowLatency \<Rightarrow> bool" where
  "probing M ks ll \<longleftrightarrow> ll_inv M ll \<and> probes_inv M ll \<and> ll_keys M ll = ks"

lemma lost_probe_ok:
  assumes "probing M ks ll" "hm_Get (lm_ticks M) (pending_probes_ticks ll) seq \<noteq> None"
  shows "\<exists>ll'. lost_probe M ll seq = Inr ll' \<and> probing M ks ll' \<and>
      (\<forall>s. hm_Get (lm_ticks M) (pending_probes_ticks ll') s = (if s = seq then None else hm_Get (lm_ticks M) (pending_probes_ticks ll) s))"
proof -
  have laws: "hm_laws (lm_ticks M)" "hm_laws (lm_faces M)" and h: "hops_inv M ll" using assms(1) by (simp_all add: probing_def probes_inv_def ll_inv_def)
  obtain c where c: "hm_Get (lm_faces M) (pending_probes_faces ll) seq = Some c" "c \<in> set (ll_keys M ll)"
    using assms by (auto simp: probing_def probes_inv_def)
  obtain r where r: "ll_get M ll c = Inr r" using key_state[OF h c(2)] .
  define ll' where "ll' = on_state strategyNexthopStateLL_LostProbe r ll"
  have "ll_inv M ll'" using assms(1) by (simp add: ll'_def ll_inv_on_state quiet_intros probing_def)
  moreover have "ll_keys M ll' = ks" "strategy_state ll' = strategy_state ll" using assms(1) by (simp_all add: ll'_def probing_def)
  ultimately show ?thesis using c(1) r assms(1)
    by (auto simp: lost_probe_def ll'_def[symmetric] probing_def probes_inv_def ll_keys_def hm_lawsD(3)[OF laws(1)] hm_lawsD(3)[OF laws(2)])
qed

definition late :: "('s, 'p, 'f) ll_maps \<Rightarrow> ticks \<Rightarrow> ('d, 's, 'p, 'f) StrategyLowLatency \<Rightarrow> u32 \<Rightarrow> bool" where
  "late M now ll seq \<longleftrightarrow> (case hm_Get (lm_ticks M) (pending_probes_ticks ll) seq of None \<Rightarrow> False | Some t \<Rightarrow> now - ucast t > (ucast PROBE_LIFETIME :: ticks))"

lemma expired_probes_ok:
  assumes "hm_laws (lm_ticks M)"
  shows "\<exists>ns. expired_probes M now ll = Inr ns \<and> ns_inv ns \<and> ns_set ns = {seq. late M now ll seq}"
proof -
  let ?f = "\<lambda>to_remove seq. case hm_Get (lm_ticks M) (pending_probes_ticks ll) seq of None \<Rightarrow> Inl NullDereference
    | Some sent_time \<Rightarrow> Inr (if now - ucast sent_time > ucast PROBE_LIFETIME then fst (numberSet_Add to_remove seq) else to_remove)"
  have loop: "\<exists>ns'. fold_res ?f ns cs = Inr ns' \<and> ns_inv ns' \<and> ns_set ns' = ns_set ns \<union> {seq \<in> set cs. late M now ll seq}"
    if "ns_inv ns" "\<forall>seq \<in> set cs. hm_Get (lm_ticks M) (pending_probes_ticks ll) seq \<noteq> None" for ns cs
    using that
  proof (induction cs arbitrary: ns)
    case (Cons seq cs)
    obtain t where t: "hm_Get (lm_ticks M) (pending_probes_ticks ll) seq = Some t" using Cons.prems(2) by auto
    define ns1 where "ns1 = (if late M now ll seq then fst (numberSet_Add ns seq) else ns)"
    have step: "?f ns seq = Inr ns1" using t by (simp add: ns1_def late_def)
    have "ns_inv ns1" "ns_set ns1 = (if late M now ll seq then insert seq (ns_set ns) else ns_set ns)"
      using Cons.prems(1) by (simp_all add: ns1_def Add_abs)
    then show ?case using Cons.IH[of ns1] Cons.prems(2) unfolding fold_res.simps step bind_res_simps by auto
  qed simp
  show ?thesis unfolding expired_probes_def
    using loop[of numberSet_Create "hm_Keys (lm_ticks M) (pending_probes_ticks ll)"]
    by (auto simp: hm_lawsD(6)[OF assms] late_def ns_set_def split: option.splits)
qed

lemma lost_probes_ok:
  assumes "probing M ks ll" "distinct cs" "\<forall>seq \<in> set cs. hm_Get (lm_ticks M) (pending_probes_ticks ll) seq \<noteq> None"
  shows "\<exists>ll'. fold_res (lost_probe M) ll cs = Inr ll' \<and> probing M ks ll'"
  using assms
proof (induction cs arbitrary: ll)
  case (Cons seq cs)
  obtain l' where l': "lost_probe M ll seq = Inr l'" "probing M ks l'"
    "\<And>s. hm_Get (lm_ticks M) (pending_probes_ticks l') s = (if s = seq then None else hm_Get (lm_ticks M) (pending_probes_ticks ll) s)"
    using lost_probe_ok[OF Cons.prems(1), of seq] Cons.prems(3) by auto
  have "hm_Get (lm_ticks M) (pending_probes_ticks l') s \<noteq> None" if "s \<in> set cs" for s
    using l'(3)[of s] that Cons.prems(2,3) by auto
  then obtain ll' where "fold_res (lost_probe M) l' cs = Inr ll'" "probing M ks ll'" using Cons.IH[OF l'(2)] Cons.prems(2) by auto
  then show ?case using l'(1) by simp
qed simp

lemma probe_face_ok:
  assumes "probing M ks (fst st)" "c \<in> set ks"
  shows "\<exists>st'. probe_face M C table now rnd st c = Inr st' \<and> probing M ks (fst st')"
proof -
  obtain ll w where st: "st = (ll, w)" by fastforce
  have p: "probing M ks ll" using assms(1) by (simp add: st)
  then have laws: "hm_laws (lm_ticks M)" "hm_laws (lm_faces M)" and h: "hops_inv M ll" and c: "c \<in> set (ll_keys M ll)"
    using assms(2) by (simp_all add: probing_def probes_inv_def ll_inv_def)
  obtain r where r: "ll_get M ll c = Inr r" using key_state[OF h c] .
  have "probing M ks (on_state strategyNexthopStateLL_SentProbe r (ll\<lparr>ll_probe := x, ll_name := n,
      pending_probes_ticks := hm_Put (lm_ticks M) (pending_probes_ticks ll) seq t, pending_probes_faces := hm_Put (lm_faces M) (pending_probes_faces ll) seq c\<rparr>))" for x n seq t
    using p c by (auto simp: probing_def ll_inv_on_state quiet_intros probes_inv_def hm_lawsD(2)[OF laws(1)] hm_lawsD(2)[OF laws(2)] ll_keys_def)
  then show ?thesis using p r by (auto simp: probe_face_def st Let_def case_prod_unfold split: option.split)
qed

lemma SendProbesCB_ok:
  assumes "ll_inv M ll" "probes_inv M ll"
  shows "\<exists>ll' w'. strategyLowLatency_SendProbesCB M C table now rnd ll w = Inr (ll', w') \<and> ll_inv M ll' \<and> probes_inv M ll' \<and> ll_keys M ll' = ll_keys M ll"
proof -
  let ?ks = "ll_keys M ll"
  have p: "probing M ?ks ll" using assms by (simp add: probing_def)
  obtain ns where ns: "expired_probes M now ll = Inr ns" "ns_inv ns" "ns_set ns = {seq. late M now ll seq}"
    using expired_probes_ok assms(2) unfolding probes_inv_def by blast
  have "\<forall>seq \<in> set (ns_items ns). hm_Get (lm_ticks M) (pending_probes_ticks ll) seq \<noteq> None"
    using ns(3) by (auto simp: ns_set_def late_def split: option.splits)
  then obtain l1 where l1: "fold_res (lost_probe M) ll (ns_items ns) = Inr l1" "probing M ?ks l1"
    using lost_probes_ok[OF p ns.distinct_items[OF ns(2)]] by blast
  obtain l2 where l2: "(if length (hm_Keys (lm_ticks M) (pending_probes_ticks ll)) \<noteq> 0
      then bind_res (expired_probes M now ll) (\<lambda>to_remove. ns_for to_remove (lost_probe M) ll) else Inr ll) = Inr l2" "probing M ?ks l2"
    using l1 p ns(1) that by (cases "length (hm_Keys (lm_ticks M) (pending_probes_ticks ll)) \<noteq> 0") (simp_all add: ns_for_items[OF ns(2)])
  have "\<exists>st. fold_res (probe_face M C table now rnd) (l2, w) ?ks = Inr st \<and> probing M ?ks (fst st)"
    by (rule fold_res_inv) (use l2(2) probe_face_ok in auto)
  then obtain l3 w' where l3: "fold_res (probe_face M C table now rnd) (l2, w) ?ks = Inr (l3, w')" "probing M ?ks l3" by auto
  have k2: "ll_keys M l2 = ?ks" using l2(2) by (simp add: probing_def)
  have "strategyLowLatency_SendProbesCB M C table now rnd ll w = Inr (l3\<lparr>ll_probing := True\<rparr>, w')"
    unfolding strategyLowLatency_SendProbesCB_def l2(1) bind_res_simps k2 l3(1) by simp
  then show ?thesis using l3(2) by (simp add: probing_def)
qed

text \<open>An answer from one connection. With more of them the second read of the pending time fails.\<close>

lemma ReceiveObject_ok:
  assumes "ll_inv M ll" "probes_inv M ll" "ns_inv egress" "length (ns_items egress) \<le> 1"
  shows "\<exists>ll'. strategyLowLatency_ReceiveObject D M now ll egress m t t' = Inr ll' \<and> ll_inv M ll' \<and> probes_inv M ll' \<and> ll_keys M ll' = ll_keys M ll"
proof -
  have laws: "hm_laws (lm_ticks M)" using assms(2) by (simp add: probes_inv_def)
  define seq where "seq = messageHandler_GetSegment (messageHead m)"
  have ok: "ll_inv M ((on_state (\<lambda>x. strategyNexthopStateLL_AddRttSample D x n) r ll)\<lparr>pending_probes_ticks := hm_Remove (lm_ticks M) (pending_probes_ticks ll) seq\<rparr>)"
    "probes_inv M ((on_state (\<lambda>x. strategyNexthopStateLL_AddRttSample D x n) r ll)\<lparr>pending_probes_ticks := hm_Remove (lm_ticks M) (pending_probes_ticks ll) seq\<rparr>)" for n r
    using assms(1,2) by (auto simp: ll_inv_on_state quiet_intros probes_inv_def hm_lawsD(3)[OF laws] ll_keys_def)
  show ?thesis
  proof (cases "ns_items egress")
    case Nil
    then show ?thesis using assms(1,2) by (simp add: strategyLowLatency_ReceiveObject_def Let_def ns_for_items[OF assms(3)])
  next
    case (Cons c cs)
    then have "ns_items egress = [c]" using assms(4) by simp
    then show ?thesis using assms(1,2) ok
      by (auto simp: strategyLowLatency_ReceiveObject_def Let_def ns_for_items[OF assms(3)] seq_def[symmetric] hm_lawsD(4)[OF laws] ll_keys_def
          split: option.split)
  qed
qed

section \<open>Runs of the strategy\<close>

text \<open>The events a strategy sees, each with what it depends on from outside.\<close>

datatype ll_event =
    Interest_arrives nat NumberSet Message
  | Data_arrives ticks NumberSet Message ticks ticks
  | Nexthop_added connid
  | Nexthop_removed connid
  | Probe_timer ticks "connid \<Rightarrow> u32"
  | Selection_timer

fun ll_handle ::
  "'d dbl_ops \<Rightarrow> ('s, 'p, 'f) ll_maps \<Rightarrow> ('i, 'a, 'o) ct_ops \<Rightarrow> ('i, 'a, 'o) ConnectionTable \<Rightarrow>
     ('d, 's, 'p, 'f) StrategyLowLatency \<times> world \<Rightarrow> ll_event \<Rightarrow> (('d, 's, 'p, 'f) StrategyLowLatency \<times> world) res" where
  "ll_handle D M C table (ll, w) (Interest_arrives rnd avail m) =
     bind_res (strategyLowLatency_LookupNexthop D M rnd ll avail m) (\<lambda>(out, ll, upd). Inr (ll, w))"
| "ll_handle D M C table (ll, w) (Data_arrives now egress m t t') =
     bind_res (strategyLowLatency_ReceiveObject D M now ll egress m t t') (\<lambda>ll. Inr (ll, w))"
| "ll_handle D M C table (ll, w) (Nexthop_added c) = bind_res (strategyLowLatency_AddNexthop D M ll c) (\<lambda>ll. Inr (ll, w))"
| "ll_handle D M C table (ll, w) (Nexthop_removed c) = bind_res (strategyLowLatency_RemoveNexthop D M ll c) (\<lambda>(ll, upd). Inr (ll, w))"
| "ll_handle D M C table (ll, w) (Probe_timer now rnd) =
     (if ll_probing ll then strategyLowLatency_SendProbesCB M C table now rnd ll w else Inr (ll, w))"
| "ll_handle D M C table (ll, w) Selection_timer =
     (if ll_selecting ll then bind_res (strategyLowLatency_BestFaceCB D M ll) (\<lambda>(ll, upd). Inr (ll, w)) else Inr (ll, w))"

text \<open>Sets are proper, data comes back over at most one connection, and no next hop is removed.\<close>

fun benign :: "ll_event \<Rightarrow> bool" where
  "benign (Interest_arrives rnd avail m) \<longleftrightarrow> ns_inv avail"
| "benign (Data_arrives now egress m t t') \<longleftrightarrow> ns_inv egress \<and> length (ns_items egress) \<le> 1"
| "benign (Nexthop_removed c) \<longleftrightarrow> False"
| "benign _ \<longleftrightarrow> True"

lemma probes_inv_grow:
  assumes "probes_inv M ll" "pending_probes_ticks ll' = pending_probes_ticks ll" "pending_probes_faces ll' = pending_probes_faces ll"
    "set (ll_keys M ll) \<subseteq> set (ll_keys M ll')"
  shows "probes_inv M ll'"
  using assms(1,4) unfolding probes_inv_def assms(2,3) by blast

lemma ll_handle_ok:
  assumes "ll_inv M ll" "probes_inv M ll" "benign ev"
  shows "\<exists>ll' w'. ll_handle D M C table (ll, w) ev = Inr (ll', w') \<and> ll_inv M ll' \<and> probes_inv M ll'"
proof (cases ev)
  case (Interest_arrives rnd avail m)
  then have "ns_inv avail" using assms(3) by simp
  from LookupNexthop_ok[OF assms(1) this, of D rnd m] obtain out ll' upd where
    "strategyLowLatency_LookupNexthop D M rnd ll avail m = Inr (out, ll', upd)" "ll_inv M ll'" "strategy_state ll' = strategy_state ll"
    "pending_probes_ticks ll' = pending_probes_ticks ll" "pending_probes_faces ll' = pending_probes_faces ll" by (elim exE conjE)
  then show ?thesis using Interest_arrives probes_inv_grow[OF assms(2), of ll'] by (simp add: ll_keys_def)
next
  case (Data_arrives now egress m t t')
  then show ?thesis using ReceiveObject_ok[OF assms(1,2), of egress D now m t t'] assms(3) by auto
next
  case (Nexthop_added c)
  obtain ll' where "strategyLowLatency_AddNexthop D M ll c = Inr ll'" "ll_inv M ll'" "set (ll_keys M ll') = insert c (set (ll_keys M ll))"
    "pending_probes_ticks ll' = pending_probes_ticks ll" "pending_probes_faces ll' = pending_probes_faces ll"
    using ll_AddNexthop_ok[OF assms(1), of D c] by (elim exE conjE)
  then show ?thesis using Nexthop_added probes_inv_grow[OF assms(2), of ll'] by auto
next
  case (Probe_timer now rnd)
  then show ?thesis using SendProbesCB_ok[OF assms(1,2), of C table now rnd w] assms by auto
next
  case Selection_timer
  obtain ll' upd where "strategyLowLatency_SelectBestFaces D M ll True = Inr (ll', upd)" "sel_inv M ll ll'"
    using SelectBestFaces_ok[OF assms(1), of D True] by (elim exE conjE)
  then show ?thesis using Selection_timer assms(1,2) sel_inv_inv[OF assms(1)] probes_inv_kept[of ll ll' M]
    by (simp add: strategyLowLatency_BestFaceCB_def sel_inv_def)
qed (use assms(3) in simp)

lemma ll_run_ok:
  assumes "ll_inv M ll" "probes_inv M ll" "list_all benign evs"
  shows "\<exists>ll' w'. fold_res (ll_handle D M C table) (ll, w) evs = Inr (ll', w') \<and> ll_inv M ll' \<and> probes_inv M ll'"
  using assms
proof (induction evs arbitrary: ll w)
  case (Cons ev evs)
  obtain l1 w1 where l1: "ll_handle D M C table (ll, w) ev = Inr (l1, w1)" "ll_inv M l1" "probes_inv M l1"
    using ll_handle_ok[OF Cons.prems(1,2), of ev D C table w] Cons.prems(3) by auto
  then show ?case using Cons.IH[OF l1(2,3), of w1] Cons.prems(3) by simp
qed simp

definition ll_laws :: "('s, 'p, 'f) ll_maps \<Rightarrow> bool" where
  "ll_laws M \<longleftrightarrow> hm_laws (lm_state M) \<and> hm_laws (lm_ticks M) \<and> hm_laws (lm_faces M)"

lemma SetStrategy_ok:
  assumes "ll_laws M" "strategyLowLatency_SetStrategy stack (strategyLowLatency_Create D M) pref related = Inr ll"
  shows "ll_inv M ll" "probes_inv M ll" "ll_keys M ll = []"
proof -
  have laws: "hm_laws (lm_state M)" "hm_laws (lm_ticks M)" "hm_laws (lm_faces M)" using assms(1) by (simp_all add: ll_laws_def)
  have "set (hm_Keys (lm_state M) (hm_Create (lm_state M))) = {}" by (simp add: hm_lawsD(1,6)[OF laws(1)])
  then show "ll_inv M ll" "probes_inv M ll" "ll_keys M ll = []"
    using assms(2) laws by (auto simp: strategyLowLatency_SetStrategy_def strategyLowLatency_Create_def ll_inv_def hops_inv_def best_ok_def
        probes_inv_def ll_keys_def hm_lawsD(1))
qed

section \<open>The interface of a strategy\<close>

interpretation llat: next_hop_selection
  "\<lambda>rnd ll avail m. bind_res (strategyLowLatency_LookupNexthop D M rnd ll avail m) (\<lambda>(out, ll, upd). Inr (out, ll))"
  "\<lambda>ll c. case strategyLowLatency_AddNexthop D M ll c of Inl _ \<Rightarrow> ll | Inr ll \<Rightarrow> ll"
  "\<lambda>ll c. case strategyLowLatency_RemoveNexthop D M ll c of Inl _ \<Rightarrow> ll | Inr (ll, upd) \<Rightarrow> ll"
  "ll_inv M" for D :: "'d dbl_ops" and M :: "('s, 'p, 'f) ll_maps"
proof
  fix s :: "('d, 's, 'p, 'f) StrategyLowLatency" and avail rnd m assume a: "ll_inv M s" "ns_inv avail"
  show "\<exists>out s'. bind_res (strategyLowLatency_LookupNexthop D M rnd s avail m) (\<lambda>(out, ll, upd). Inr (out, ll)) = Inr (out, s') \<and> ll_inv M s' \<and> ns_inv out \<and>
      ns_set out \<subseteq> ns_set avail \<and> length (ns_items out) \<le> 1"
    using LookupNexthop_ok[OF a, of D rnd m] by fastforce
next
  fix s :: "('d, 's, 'p, 'f) StrategyLowLatency" and c assume a: "ll_inv M s"
  show "ll_inv M (case strategyLowLatency_AddNexthop D M s c of Inl _ \<Rightarrow> s | Inr ll \<Rightarrow> ll)" using ll_AddNexthop_ok[OF a, of D c] by auto
  show "ll_inv M (case strategyLowLatency_RemoveNexthop D M s c of Inl _ \<Rightarrow> s | Inr (ll, upd) \<Rightarrow> ll)" using ll_RemoveNexthop_ok[OF a, of D c] by auto
qed

text \<open>A pending probe to a next hop that is gone: the timer that counts it as lost dereferences its missing state.\<close>

definition orphan :: "('s, 'p, 'f) ll_maps \<Rightarrow> u32 \<Rightarrow> ('d, 's, 'p, 'f) StrategyLowLatency \<Rightarrow> bool" where
  "orphan M seq ll \<longleftrightarrow> (\<exists>c. hm_Get (lm_faces M) (pending_probes_faces ll) seq = Some c \<and> hm_Get (lm_state M) (strategy_state ll) c = None)"

lemma lost_probe_orphan:
  assumes "hm_laws (lm_faces M)" "orphan M seq ll"
  shows "(case lost_probe M ll seq' of Inl e \<Rightarrow> e = NullDereference | Inr ll' \<Rightarrow> seq' \<noteq> seq \<and> orphan M seq ll')"
  using assms(2) by (auto simp: orphan_def lost_probe_def ll_get_def on_state_def hm_lawsD(3)[OF assms(1)] Let_def split: option.split sum.split)

lemma lost_probes_orphan:
  assumes "hm_laws (lm_faces M)" "orphan M seq ll" "seq \<in> set cs"
  shows "fold_res (lost_probe M) ll cs = Inl NullDereference"
  using assms(2,3)
proof (induction cs arbitrary: ll)
  case (Cons c cs)
  show ?case
  proof (cases "lost_probe M ll c")
    case (Inl e)
    then show ?thesis using lost_probe_orphan[OF assms(1) Cons.prems(1), of c] by simp
  next
    case (Inr l')
    then show ?thesis using lost_probe_orphan[OF assms(1) Cons.prems(1), of c] Cons.IH[of l'] Cons.prems(2) by auto
  qed
qed simp

lemma SendProbesCB_orphan:
  assumes "hm_laws (lm_ticks M)" "hm_laws (lm_faces M)" "orphan M seq ll" "late M now ll seq"
  shows "strategyLowLatency_SendProbesCB M C table now rnd ll w = Inl NullDereference"
proof -
  obtain ns where ns: "expired_probes M now ll = Inr ns" "ns_inv ns" "ns_set ns = {seq. late M now ll seq}"
    using expired_probes_ok[OF assms(1)] by blast
  have "seq \<in> set (ns_items ns)" using ns(3) assms(4) by (auto simp: ns_set_def)
  moreover have "hm_Keys (lm_ticks M) (pending_probes_ticks ll) \<noteq> []"
    using assms(4) hm_lawsD(6)[OF assms(1), of "pending_probes_ticks ll"] by (auto simp: late_def split: option.splits)
  ultimately show ?thesis using ns(1)
    by (simp add: strategyLowLatency_SendProbesCB_def ns_for_items[OF ns(2)] lost_probes_orphan[OF assms(2,3)])
qed

section \<open>Properties\<close>

text \<open>An instance with exact arithmetic and association lists: three next hops, a probe to the first is pending.\<close>

definition ex_dbl :: "rat dbl_ops" where
  "ex_dbl = \<lparr>db_fp = exact_fp, db_eq = (=), db_fabs = abs, DBL_MAX = 2 ^ 1023\<rparr>"

definition ex_maps :: "((connid \<times> nat) list, (u32 \<times> u32) list, (u32 \<times> connid) list) ll_maps" where
  "ex_maps = \<lparr>lm_state = al_hm, lm_ticks = al_hm, lm_faces = al_hm\<rparr>"

definition ex_hops :: "connid list \<Rightarrow> (rat, (connid \<times> nat) list, (u32 \<times> u32) list, (u32 \<times> connid) list) StrategyLowLatency" where
  "ex_hops cs = (strategyLowLatency_Create ex_dbl ex_maps)
     \<lparr>strategy_state := zip cs [0..<length cs], ll_heap := (\<lambda>r. strategyNexthopStateLL_Create ex_dbl (if r < length cs then cs ! r else 0)),
      ll_next := length cs, ll_ready := True, ll_probing := True, bestFace0 := Some 0,
      pending_probes_ticks := [(9, 100)], pending_probes_faces := [(9, 5)]\<rparr>"

lemma ex_maps_laws: "ll_laws ex_maps"
  by (simp add: ll_laws_def ex_maps_def al_hm_laws)

lemma ex_hops_ok:
  assumes "distinct cs" "cs \<noteq> []"
  shows "ll_inv ex_maps (ex_hops cs)" "ll_keys ex_maps (ex_hops cs) = cs"
proof -
  have get: "hm_Get (lm_state ex_maps) (strategy_state (ex_hops cs)) c = map_of (zip cs [0..<length cs]) c" for c
    by (simp add: ex_maps_def ex_hops_def al_hm_def)
  have fid: "face_id (ll_heap (ex_hops cs) r) = (if r < length cs then cs ! r else 0)" for r
    by (simp add: ex_hops_def strategyNexthopStateLL_Create_def)
  have f: "bestFace0 (ex_hops cs) = Some 0" "bestFace1 (ex_hops cs) = None" "ll_ready (ex_hops cs)" "ll_next (ex_hops cs) = length cs"
    by (simp_all add: ex_hops_def strategyLowLatency_Create_def)
  have "map_of (zip cs [0..<length cs]) (cs ! 0) = Some 0" using assms by (cases cs) (simp_all add: upt_conv_Cons del: upt_Suc)
  then have "best_ok ex_maps (\<lambda>_. True) (ex_hops cs)" using assms(2) by (simp add: best_ok_def in_map_def get fid f)
  moreover have "r < length cs \<and> cs ! r = c" if "map_of (zip cs [0..<length cs]) c = Some r" for c r
    using map_of_SomeD[OF that] by (auto simp: set_zip)
  then have "hops_inv ex_maps (ex_hops cs)" unfolding hops_inv_def get fid f using ex_maps_laws f(3) by (auto simp: ll_laws_def)
  ultimately show "ll_inv ex_maps (ex_hops cs)" by (simp add: ll_inv_def)
  show "ll_keys ex_maps (ex_hops cs) = cs" using assms by (simp add: ll_keys_def ex_maps_def ex_hops_def al_hm_def map_fst_zip distinct_remdups_id)
qed



text \<open>
  C28. A lookup returns at most one next hop, and one that is available for the interest. It returns none exactly
  when no next hop of the strategy is available, or when there is no best face at that moment.
\<close>

theorem low_latency_lookup:
  assumes "ll_inv M ll" "ns_inv avail"
  shows "\<exists>out ll' upd. strategyLowLatency_LookupNexthop D M rnd ll avail m = Inr (out, ll', upd) \<and> ll_inv M ll' \<and>
      ns_set out \<subseteq> ns_set avail \<inter> set (ll_keys M ll) \<and> length (ns_items out) \<le> 1 \<and>
      (ns_items out = [] \<longleftrightarrow> bestFace0 ll = None \<or> set (ll_keys M ll) \<inter> ns_set avail = {})"
  using LookupNexthop_ok[OF assms, of D rnd m] by (elim exE conjE) (intro exI conjI)

theorem low_latency_lookup_witness:
  "\<exists>out ll' upd. strategyLowLatency_LookupNexthop ex_dbl ex_maps 0 (ex_hops [5, 6, 7]) (fst (numberSet_Add numberSet_Create 6)) ex_notification = Inr (out, ll', upd) \<and>
     ns_items out = [6]"
proof -
  have a: "ns_inv (fst (numberSet_Add numberSet_Create 6))" "ns_set (fst (numberSet_Add numberSet_Create 6)) = {6}" by (rule ns_singleton)+
  have h: "ll_inv ex_maps (ex_hops [5, 6, 7])" "ll_keys ex_maps (ex_hops [5, 6, 7]) = [5, 6, 7]" by (rule ex_hops_ok; simp)+
  have b: "bestFace0 (ex_hops [5, 6, 7]) \<noteq> None" by (simp add: ex_hops_def)
  from low_latency_lookup[OF h(1) a(1), of ex_dbl 0 ex_notification] obtain out ll' upd where
    "strategyLowLatency_LookupNexthop ex_dbl ex_maps 0 (ex_hops [5, 6, 7]) (fst (numberSet_Add numberSet_Create 6)) ex_notification = Inr (out, ll', upd)"
    "ns_set out \<subseteq> {6}" "length (ns_items out) \<le> 1" "ns_items out \<noteq> []" unfolding h(2) a(2) using b by auto
  then show ?thesis by (cases "ns_items out") (auto simp: ns_set_def)
qed

text \<open>
  C30. Removing a next hop while a probe to it is pending makes the probe timer dereference a null pointer. When at least
  two other next hops are left the timer is not stopped, and once the probe is older than its lifetime the next expiry of
  the timer counts it as lost in a state that is not there any more.
\<close>

theorem low_latency_removed_probe_crashes:
  assumes "ll_laws M" "ll_inv M ll" "ll_probing ll" "length (ll_keys M ll) \<ge> 3"
    and "hm_Get (lm_ticks M) (pending_probes_ticks ll) seq = Some t" "hm_Get (lm_faces M) (pending_probes_faces ll) seq = Some c"
    and "now - ucast t > (ucast PROBE_LIFETIME :: ticks)"
  shows "\<exists>ll' upd. strategyLowLatency_RemoveNexthop D M ll c = Inr (ll', upd) \<and> ll_probing ll' \<and>
      strategyLowLatency_SendProbesCB M C table now rnd ll' w = Inl NullDereference"
proof -
  have laws: "hm_laws (lm_state M)" "hm_laws (lm_ticks M)" "hm_laws (lm_faces M)" using assms(1) by (simp_all add: ll_laws_def)
  obtain ll' upd where ll': "strategyLowLatency_RemoveNexthop D M ll c = Inr (ll', upd)" "set (ll_keys M ll') = set (ll_keys M ll) - {c}"
    "ll_probing ll' = (ll_probing ll \<and> 2 \<le> length (ll_keys M ll'))"
    "pending_probes_ticks ll' = pending_probes_ticks ll" "pending_probes_faces ll' = pending_probes_faces ll"
    using ll_RemoveNexthop_ok[OF assms(2), of D c] by (elim exE conjE)
  have len: "length (ll_keys M l) = card (set (ll_keys M l))" for l by (simp add: distinct_card ll_keys_def hm_lawsD(5)[OF laws(1)])
  have "card (set (ll_keys M ll) - {c}) \<ge> card (set (ll_keys M ll)) - 1" by (simp add: card_Diff_singleton_if)
  then have "2 \<le> length (ll_keys M ll')" using assms(4) ll'(2) unfolding len by simp
  moreover have "hm_Get (lm_state M) (strategy_state ll') c = None"
    using ll'(2) hm_lawsD(6)[OF laws(1), of "strategy_state ll'"] by (auto simp: ll_keys_def)
  then have "orphan M seq ll'" using assms(6) ll'(5) by (simp add: orphan_def)
  moreover have "late M now ll' seq" using assms(5,7) ll'(4) by (simp add: late_def)
  ultimately show ?thesis using ll'(1,3) assms(3) SendProbesCB_orphan[OF laws(2,3)] by blast
qed

theorem low_latency_removed_probe_crashes_witness:
  "\<exists>ll' upd. strategyLowLatency_RemoveNexthop ex_dbl ex_maps (ex_hops [5, 6, 7]) 5 = Inr (ll', upd) \<and> ll_probing ll' \<and>
     strategyLowLatency_SendProbesCB ex_maps ex_ct_ops (connectionTable_Create ex_ct_ops) 601 (\<lambda>_. 8) ll' ex_world = Inl NullDereference"
proof -
  have h: "ll_inv ex_maps (ex_hops [5, 6, 7])" "length (ll_keys ex_maps (ex_hops [5, 6, 7])) \<ge> 3" using ex_hops_ok[of "[5, 6, 7]"] by simp_all
  show ?thesis
    by (rule low_latency_removed_probe_crashes[OF ex_maps_laws h(1) _ h(2), of 9 100])
      (simp_all add: ex_hops_def ex_maps_def al_hm_def PROBE_LIFETIME_def)
qed

text \<open>
  A flag that is out of date can leave the only next hop unused for good. Two next hops are known and an interest comes for
  which only the second is available (it arrived on the first). When the second is then removed the selection finds the flag of
  the first cleared and sets no best face; both timers are stopped; and no later lookup repairs this: it returns the empty set
  even when the remaining next hop is available again.
\<close>

theorem low_latency_stale_flag_blocks:
  assumes "ll_inv M ll" "bestFace0 ll \<noteq> None" "set (ll_keys M ll) = {a, b}" "a \<noteq> b" "ns_inv avail" "ns_set avail = {b}" "ns_inv avail'"
  shows "\<exists>out l1 u1 l2 u2. strategyLowLatency_LookupNexthop D M rnd ll avail m = Inr (out, l1, u1) \<and>
      strategyLowLatency_RemoveNexthop D M l1 b = Inr (l2, u2) \<and> set (ll_keys M l2) = {a} \<and> \<not> ll_probing l2 \<and>
      (\<exists>out' l3 u3. strategyLowLatency_LookupNexthop D M rnd' l2 avail' m' = Inr (out', l3, u3) \<and> ns_items out' = [] \<and> bestFace0 l3 = None)"
proof -
  obtain out l1 u1 where l1: "strategyLowLatency_LookupNexthop D M rnd ll avail m = Inr (out, l1, u1)" "ll_inv M l1"
    "ns_items out = [] \<longleftrightarrow> bestFace0 ll = None \<or> set (ll_keys M ll) \<inter> ns_set avail = {}"
    "bestFace0 l1 = None \<longleftrightarrow> ns_items out = []" "flags_of M avail l1" "strategy_state l1 = strategy_state ll"
    using LookupNexthop_ok[OF assms(1,5), of D rnd m] by (elim exE conjE)
  have k1: "set (ll_keys M l1) = {a, b}" using l1(6) assms(3) by (simp add: ll_keys_def)
  obtain r where r: "bestFace0 l1 = Some r" using l1(3,4) assms(2,3,6) by fastforce
  then have rb: "face_id (ll_heap l1 r) = b" using l1(2,5) assms(6) by (auto simp: flags_of_def ll_inv_def best_ok_def)
  obtain l2 u2 where l2: "strategyLowLatency_RemoveNexthop D M l1 b = Inr (l2, u2)" "ll_inv M l2" "set (ll_keys M l2) = set (ll_keys M l1) - {b}"
    "\<forall>q. is_allowed (ll_heap l2 q) = is_allowed (ll_heap l1 q) \<and> face_id (ll_heap l2 q) = face_id (ll_heap l1 q)"
    "\<forall>x. bestFace0 l1 = Some x \<and> face_id (ll_heap l1 x) = b \<longrightarrow>
         (bestFace0 l2 = None \<longleftrightarrow> (\<forall>q. in_map M l2 q \<longrightarrow> \<not> is_allowed (ll_heap l2 q)))"
    "\<forall>q. in_map M l2 q \<longrightarrow> in_map M l1 q" "ll_probing l2 = (ll_probing l1 \<and> 2 \<le> length (ll_keys M l2))"
    using ll_RemoveNexthop_ok[OF l1(2), of D b] by (elim exE conjE)
  have k2: "set (ll_keys M l2) = {a}" using l2(3) k1 assms(4) by auto
  have laws: "hm_laws (lm_state M)" using assms(1) by (simp add: ll_inv_def hops_inv_def)
  have "length (ll_keys M l2) = 1" using k2 distinct_card[of "ll_keys M l2"] hm_lawsD(5)[OF laws] by (simp add: ll_keys_def)
  then have stopped: "\<not> ll_probing l2" using l2(7) by simp
  have "\<not> is_allowed (ll_heap l2 q)" if "in_map M l2 q" for q
  proof -
    have "face_id (ll_heap l2 q) = a" using in_map_key(1)[of M l2 q] that l2(2) k2 by (simp add: ll_inv_def)
    then show ?thesis using l2(4,6) that l1(5) assms(4,6) by (simp add: flags_of_def)
  qed
  then have none: "bestFace0 l2 = None" using l2(5) r rb by blast
  show ?thesis using l1(1) l2(1) k2 stopped none LookupNexthop_ok[OF l2(2) assms(7), of D rnd' m'] by fastforce
qed

theorem low_latency_stale_flag_blocks_witness:
  "\<exists>out l1 u1 l2 u2. strategyLowLatency_LookupNexthop ex_dbl ex_maps 0 (ex_hops [5, 6]) (fst (numberSet_Add numberSet_Create 6)) ex_notification = Inr (out, l1, u1) \<and>
     strategyLowLatency_RemoveNexthop ex_dbl ex_maps l1 6 = Inr (l2, u2) \<and> set (ll_keys ex_maps l2) = {5} \<and>
     (\<exists>out' l3 u3. strategyLowLatency_LookupNexthop ex_dbl ex_maps 0 l2 (fst (numberSet_Add numberSet_Create 5)) ex_notification = Inr (out', l3, u3) \<and> ns_items out' = [])"
proof -
  have h: "ll_inv ex_maps (ex_hops [5, 6])" "set (ll_keys ex_maps (ex_hops [5, 6])) = {5, 6}" "bestFace0 (ex_hops [5, 6]) \<noteq> None"
    using ex_hops_ok[of "[5, 6]"] by (simp_all add: ex_hops_def)
  show ?thesis
    using low_latency_stale_flag_blocks[OF h(1,3,2) _ ns_singleton(1,3) ns_singleton(1), of ex_dbl 0 ex_notification 0 5 ex_notification]
    by fastforce
qed

text \<open>
  C31. The age of a probe is computed from a clock of 64 bits and a sending time kept in 32. Once the clock has passed \<open>2 ^ 32 + 500\<close>
  (about fifty days in milliseconds) every pending probe is too old, however recently it was sent: the timer
  takes all of them for lost.
\<close>

theorem low_latency_probe_age_overflow:
  assumes "2 ^ 32 + 500 < unat now" "hm_laws (lm_ticks M)"
  shows "\<exists>ns. expired_probes M now ll = Inr ns \<and> ns_set ns = {seq. hm_Get (lm_ticks M) (pending_probes_ticks ll) seq \<noteq> None}"
proof -
  have late: "now - ucast t > (ucast PROBE_LIFETIME :: ticks)" for t :: u32
  proof -
    have "unat (ucast t :: ticks) = unat t" using unsigned_less[of t, where ?'a = nat] by (simp add: unsigned_ucast_eq take_bit_nat_eq_self_iff)
    then have t: "unat (ucast t :: ticks) < 2 ^ 32" using unsigned_less[of t, where ?'a = nat] by simp
    then have "unat (now - ucast t) = unat now - unat (ucast t :: ticks)" using assms(1) by (intro unat_sub) (simp add: word_le_nat_alt)
    then have "unat (now - ucast t) > 500" using t assms(1) by simp
    moreover have "unat (ucast PROBE_LIFETIME :: ticks) = 500" by (simp add: PROBE_LIFETIME_def)
    ultimately show ?thesis by (simp add: word_less_nat_alt)
  qed
  have "{seq. late M now ll seq} = {seq. hm_Get (lm_ticks M) (pending_probes_ticks ll) seq \<noteq> None}"
    using late by (auto simp: late_def split: option.splits)
  then show ?thesis using expired_probes_ok[OF assms(2), of now ll] by auto
qed

theorem low_latency_probe_age_overflow_witness:
  "\<exists>ns. expired_probes ex_maps (2 ^ 32 + 600) (ex_hops [5, 6])  = Inr ns \<and> 9 \<in> ns_set ns"
proof -
  have "2 ^ 32 + 500 < unat (2 ^ 32 + 600 :: ticks)" by simp
  from low_latency_probe_age_overflow[OF this, of ex_maps "ex_hops [5, 6]"] ex_maps_laws show ?thesis
    by (auto simp: ll_laws_def ex_maps_def ex_hops_def al_hm_def)
qed

end
