(* ===== verification/Messenger.thy ===== *)
theory Messenger
  imports Prelude
begin

text \<open>
  Missives: the notifications that connections send when their state changes
  (\<^verbatim>\<open>hicn-light/src/hicn/messenger/\<close>), and the queue in which the connection manager
  (\<^verbatim>\<open>core/connectionManager.c\<close>) keeps them until its own time slice. A queue has a timer that is
  started when the queue becomes non-empty and that fires once. Missives are values; their reference
  counts are not modelled. Recipients are handles of any type, and what a recipient does with a missive is an argument.

  The locale is the contract of a queue with such a timer; both queues interpret it. The property at the end
  follows missives through both.
\<close>

section \<open>Missives and their queues\<close>

datatype MissiveType = MissiveType_ConnectionCreate | MissiveType_ConnectionUp | MissiveType_ConnectionDown
  | MissiveType_ConnectionClosed | MissiveType_ConnectionDestroyed

record Missive =
  missiveType :: MissiveType
  connectionid :: connid

definition missive_Create :: "MissiveType \<Rightarrow> connid \<Rightarrow> Missive" where
  "missive_Create ty i = \<lparr>missiveType = ty, connectionid = i\<rparr>"

definition missive_GetType :: "Missive \<Rightarrow> MissiveType" where
  "missive_GetType m = missiveType m"

definition missive_GetConnectionId :: "Missive \<Rightarrow> connid" where
  "missive_GetConnectionId m = connectionid m"

type_synonym MissiveDeque = "Missive list"

definition missiveDeque_Create :: MissiveDeque where
  "missiveDeque_Create = []"

definition missiveDeque_Append :: "MissiveDeque \<Rightarrow> Missive \<Rightarrow> MissiveDeque" where
  "missiveDeque_Append q m = q @ [m]"

definition missiveDeque_RemoveFirst :: "MissiveDeque \<Rightarrow> Missive option \<times> MissiveDeque" where
  "missiveDeque_RemoveFirst q = (case q of [] \<Rightarrow> (None, []) | m # q' \<Rightarrow> (Some m, q'))"

definition missiveDeque_Size :: "MissiveDeque \<Rightarrow> nat" where
  "missiveDeque_Size q = length q"

section \<open>The messenger\<close>

record 'r Messenger =
  callbacklist :: "'r list"
  eventQueue :: MissiveDeque
  ms_timer :: bool

definition messenger_Create :: "'r Messenger" where
  "messenger_Create = \<lparr>callbacklist = [], eventQueue = missiveDeque_Create, ms_timer = False\<rparr>"

definition messenger_Send :: "'r Messenger \<Rightarrow> Missive \<Rightarrow> 'r Messenger" where
  "messenger_Send ms m =
     (let ms = ms\<lparr>eventQueue := missiveDeque_Append (eventQueue ms) m\<rparr>
      in if missiveDeque_Size (eventQueue ms) = 1 then ms\<lparr>ms_timer := True\<rparr> else ms)"

text \<open>The loop of \<^verbatim>\<open>removeRecipient\<close>, at index \<open>i\<close>, which is not advanced when an element is removed.\<close>

function removeRecipient_at :: "'r \<Rightarrow> 'r list \<Rightarrow> nat \<Rightarrow> 'r list" where
  "removeRecipient_at r xs i =
     (if i < length xs
      then (if xs ! i = r then removeRecipient_at r (take i xs @ drop (Suc i) xs) i else removeRecipient_at r xs (Suc i))
      else xs)"
  by auto
termination
  by (relation "measure (\<lambda>(r, xs, i). length xs - i)") auto

declare removeRecipient_at.simps [simp del]

definition removeRecipient :: "'r Messenger \<Rightarrow> 'r \<Rightarrow> 'r Messenger" where
  "removeRecipient ms r = ms\<lparr>callbacklist := removeRecipient_at r (callbacklist ms) 0\<rparr>"

definition messenger_Register :: "'r Messenger \<Rightarrow> 'r \<Rightarrow> 'r Messenger" where
  "messenger_Register ms r = (let ms = removeRecipient ms r in ms\<lparr>callbacklist := callbacklist ms @ [r]\<rparr>)"

definition messenger_Unregister :: "'r Messenger \<Rightarrow> 'r \<Rightarrow> 'r Messenger" where
  "messenger_Unregister ms r = removeRecipient ms r"

text \<open>
  The timer fires: until the queue is empty, the first missive is taken off and delivered to every recipient. Recipients put
  the missive aside and do not send new ones. \<open>deliver\<close> is \<^verbatim>\<open>messengerRecipient_Deliver\<close>.
\<close>

function messenger_Dequeue :: "('s \<Rightarrow> 'r \<Rightarrow> Missive \<Rightarrow> 's) \<Rightarrow> 'r Messenger \<Rightarrow> 's \<Rightarrow> 'r Messenger \<times> 's" where
  "messenger_Dequeue deliver ms s =
     (case missiveDeque_RemoveFirst (eventQueue ms) of
        (None, q) \<Rightarrow> (ms\<lparr>eventQueue := q, ms_timer := False\<rparr>, s)
      | (Some m, q) \<Rightarrow> messenger_Dequeue deliver (ms\<lparr>eventQueue := q\<rparr>) (foldl (\<lambda>s r. deliver s r m) s (callbacklist ms)))"
  by auto
termination
  by (relation "measure (\<lambda>(deliver, ms, s). length (eventQueue ms))") (auto simp: missiveDeque_RemoveFirst_def split: list.splits)

declare messenger_Dequeue.simps [simp del]

section \<open>The queue of the connection manager\<close>

record ConnectionManager =
  missiveQueue :: MissiveDeque
  cm_timer :: bool

definition connectionManager_MessengerCallback :: "ConnectionManager \<Rightarrow> Missive \<Rightarrow> ConnectionManager" where
  "connectionManager_MessengerCallback cm m =
     (let cm = cm\<lparr>missiveQueue := missiveDeque_Append (missiveQueue cm) m\<rparr>
      in if missiveDeque_Size (missiveQueue cm) = 1 then cm\<lparr>cm_timer := True\<rparr> else cm)"

text \<open>
  The loop of \<^verbatim>\<open>connectionManager_ProcessQueue\<close>, for what is done with each missive; processing appends nothing to this queue.
\<close>

function process_queue :: "('s \<Rightarrow> Missive \<Rightarrow> 's res) \<Rightarrow> ConnectionManager \<Rightarrow> 's \<Rightarrow> (ConnectionManager \<times> 's) res" where
  "process_queue process cm s =
     (case missiveDeque_RemoveFirst (missiveQueue cm) of
        (None, q) \<Rightarrow> Inr (cm\<lparr>missiveQueue := q, cm_timer := False\<rparr>, s)
      | (Some m, q) \<Rightarrow> bind_res (process s m) (process_queue process (cm\<lparr>missiveQueue := q\<rparr>)))"
  by auto
termination
  by (relation "measure (\<lambda>(process, cm, s). length (missiveQueue cm))") (auto simp: missiveDeque_RemoveFirst_def split: list.splits)

declare process_queue.simps [simp del]

section \<open>Queues with a timer\<close>

locale deferred_queue =
  fixes queue :: "'s \<Rightarrow> 'm list" and armed :: "'s \<Rightarrow> bool" and put :: "'s \<Rightarrow> 'm \<Rightarrow> 's" and flush :: "'s \<Rightarrow> 's"
  assumes queue_put: "queue (put s m) = queue s @ [m]"
    and armed_put: "armed (put s m) \<longleftrightarrow> armed s \<or> queue s = []"
    and queue_flush: "queue (flush s) = []" and armed_flush: "\<not> armed (flush s)"
begin

text \<open>The timer runs exactly when something waits.\<close>

definition ready :: "'s \<Rightarrow> bool" where
  "ready s \<longleftrightarrow> (armed s \<longleftrightarrow> queue s \<noteq> [])"

lemma ready_put: "ready s \<Longrightarrow> ready (put s m)"
  by (auto simp: ready_def queue_put armed_put)

lemma ready_flush: "ready (flush s)"
  by (simp add: ready_def queue_flush armed_flush)

lemma put_all: "queue (foldl put s ms) = queue s @ ms" "ready s \<Longrightarrow> ready (foldl put s ms)"
  by (induction ms arbitrary: s) (auto simp: queue_put ready_put)

end

lemma Dequeue_eq:
  "messenger_Dequeue deliver ms s =
     (ms\<lparr>eventQueue := [], ms_timer := False\<rparr>, foldl (\<lambda>s m. foldl (\<lambda>s r. deliver s r m) s (callbacklist ms)) s (eventQueue ms))"
proof (induction "eventQueue ms" arbitrary: ms s)
  case Nil
  then show ?case by (simp add: messenger_Dequeue.simps[of deliver ms] missiveDeque_RemoveFirst_def)
next
  case (Cons m q)
  have "messenger_Dequeue deliver ms s = messenger_Dequeue deliver (ms\<lparr>eventQueue := q\<rparr>) (foldl (\<lambda>s r. deliver s r m) s (callbacklist ms))"
    by (simp add: messenger_Dequeue.simps[of deliver ms] missiveDeque_RemoveFirst_def flip: Cons.hyps(2))
  also note Cons.hyps(1)
  finally show ?case by (simp flip: Cons.hyps(2))
qed

lemma process_queue_eq:
  "process_queue process cm s = bind_res (fold_res process s (missiveQueue cm)) (\<lambda>s. Inr (cm\<lparr>missiveQueue := [], cm_timer := False\<rparr>, s))"
proof (induction "missiveQueue cm" arbitrary: cm s)
  case Nil
  then show ?case by (simp add: process_queue.simps[of process cm] missiveDeque_RemoveFirst_def)
next
  case (Cons m q)
  have "process_queue process cm s = bind_res (process s m) (process_queue process (cm\<lparr>missiveQueue := q\<rparr>))"
    by (simp add: process_queue.simps[of process cm] missiveDeque_RemoveFirst_def flip: Cons.hyps(2))
  then show ?case using Cons.hyps(1)[of "cm\<lparr>missiveQueue := q\<rparr>"] by (cases "process s m") (simp_all flip: Cons.hyps(2))
qed

definition messenger_flush :: "'r Messenger \<Rightarrow> 'r Messenger" where
  "messenger_flush ms = fst (messenger_Dequeue (\<lambda>s r m. s) ms ())"

definition manager_flush :: "ConnectionManager \<Rightarrow> ConnectionManager" where
  "manager_flush cm = cm\<lparr>missiveQueue := [], cm_timer := False\<rparr>"

interpretation msq: deferred_queue eventQueue ms_timer messenger_Send messenger_flush
  by unfold_locales (auto simp: messenger_Send_def missiveDeque_Append_def missiveDeque_Size_def messenger_flush_def Dequeue_eq Let_def)

interpretation cmq: deferred_queue missiveQueue cm_timer connectionManager_MessengerCallback manager_flush
  by unfold_locales (auto simp: connectionManager_MessengerCallback_def missiveDeque_Append_def missiveDeque_Size_def manager_flush_def Let_def)

section \<open>Recipients\<close>

lemma removeRecipient_at_eq: "i \<le> length xs \<Longrightarrow> removeRecipient_at r xs i = take i xs @ filter (\<lambda>x. x \<noteq> r) (drop i xs)"
proof (induction r xs i rule: removeRecipient_at.induct)
  case (1 r xs i)
  show ?case
  proof (cases "i < length xs")
    case True
    then have d: "drop i xs = xs ! i # drop (Suc i) xs" by (simp add: Cons_nth_drop_Suc)
    show ?thesis
    proof (cases "xs ! i = r")
      case True
      then show ?thesis using "1.IH"(1) \<open>i < length xs\<close> d by (simp add: removeRecipient_at.simps[of r xs i] min_def)
    next
      case False
      then show ?thesis using "1.IH"(2) \<open>i < length xs\<close> d by (simp add: removeRecipient_at.simps[of r xs i] take_Suc_conv_app_nth)
    qed
  qed (use "1.prems" in \<open>simp add: removeRecipient_at.simps\<close>)
qed

lemma recipients:
  "callbacklist (messenger_Unregister ms r) = filter (\<lambda>x. x \<noteq> r) (callbacklist ms)"
  "callbacklist (messenger_Register ms r) = filter (\<lambda>x. x \<noteq> r) (callbacklist ms) @ [r]"
  by (simp_all add: messenger_Unregister_def messenger_Register_def removeRecipient_def removeRecipient_at_eq Let_def)

section \<open>Missives from sender to processing\<close>

text \<open>
  The events of the two queues: a missive is sent, the timer of the messenger fires, the timer of the
  manager fires. A timer that does not run does not fire. The manager is the only recipient, and \<open>done\<close> has the missives processed so far.
\<close>

datatype missive_event = Send Missive | DeliverTimer | ProcessTimer

record missive_path =
  mp_messenger :: "unit Messenger"
  mp_manager :: ConnectionManager
  mp_done :: "Missive list"

definition missive_path_Create :: missive_path where
  "missive_path_Create = \<lparr>mp_messenger = messenger_Register messenger_Create (), mp_manager = \<lparr>missiveQueue = missiveDeque_Create, cm_timer = False\<rparr>, mp_done = []\<rparr>"

fun missive_step :: "missive_path \<Rightarrow> missive_event \<Rightarrow> missive_path res" where
  "missive_step p (Send m) = Inr (p\<lparr>mp_messenger := messenger_Send (mp_messenger p) m\<rparr>)"
| "missive_step p DeliverTimer =
     (if ms_timer (mp_messenger p)
      then let (ms, cm) = messenger_Dequeue (\<lambda>cm r m. connectionManager_MessengerCallback cm m) (mp_messenger p) (mp_manager p)
           in Inr (p\<lparr>mp_messenger := ms, mp_manager := cm\<rparr>)
      else Inr p)"
| "missive_step p ProcessTimer =
     (if cm_timer (mp_manager p)
      then bind_res (process_queue (\<lambda>done m. Inr (done @ [m])) (mp_manager p) (mp_done p)) (\<lambda>(cm, done).
           Inr (p\<lparr>mp_manager := cm, mp_done := done\<rparr>))
      else Inr p)"

fun sent :: "missive_event list \<Rightarrow> Missive list" where
  "sent [] = []"
| "sent (Send m # es) = m # sent es"
| "sent (e # es) = sent es"

text \<open>Every missive is processed, waits with the manager or waits with the messenger, in this order; and what waits has a running timer.\<close>

definition path_ok :: "missive_path \<Rightarrow> Missive list \<Rightarrow> bool" where
  "path_ok p ms \<longleftrightarrow> mp_done p @ missiveQueue (mp_manager p) @ eventQueue (mp_messenger p) = ms \<and>
     msq.ready (mp_messenger p) \<and> cmq.ready (mp_manager p) \<and> callbacklist (mp_messenger p) = [()]"

lemma fold_append: "fold_res (\<lambda>done m. Inr (done @ [m])) xs ys = Inr (xs @ ys)"
  by (induction ys arbitrary: xs) auto

lemma Send_callbacks [simp]: "callbacklist (messenger_Send ms m) = callbacklist ms"
  by (simp add: messenger_Send_def Let_def)

lemma missive_step_ok:
  assumes "path_ok p ms"
  shows "\<exists>p'. missive_step p e = Inr p' \<and> path_ok p' (ms @ sent [e]) \<and>
    (e = DeliverTimer \<longrightarrow> eventQueue (mp_messenger p') = []) \<and>
    (e = ProcessTimer \<longrightarrow> missiveQueue (mp_manager p') = [] \<and> eventQueue (mp_messenger p') = eventQueue (mp_messenger p))"
proof (cases e)
  case (Send m)
  then show ?thesis using assms msq.ready_put[of "mp_messenger p" m] by (auto simp: path_ok_def msq.queue_put)
next
  case DeliverTimer
  let ?cm = "foldl connectionManager_MessengerCallback (mp_manager p) (eventQueue (mp_messenger p))"
  have f: "foldl (\<lambda>s m. foldl (\<lambda>cm r. connectionManager_MessengerCallback cm m) s (callbacklist (mp_messenger p))) (mp_manager p) (eventQueue (mp_messenger p)) = ?cm"
    using assms by (simp add: path_ok_def)
  show ?thesis
  proof (cases "ms_timer (mp_messenger p)")
    case True
    then show ?thesis using assms DeliverTimer cmq.put_all[of "mp_manager p" "eventQueue (mp_messenger p)"]
      by (simp add: Dequeue_eq f path_ok_def) (simp add: msq.ready_def)
  qed (use assms DeliverTimer in \<open>auto simp: path_ok_def msq.ready_def\<close>)
next
  case ProcessTimer
  show ?thesis
  proof (cases "cm_timer (mp_manager p)")
    case True
    then show ?thesis using assms ProcessTimer cmq.ready_flush[of "mp_manager p"]
      by (simp add: process_queue_eq fold_append path_ok_def del: bind_res_eq_Inr) (simp add: cmq.ready_def)
  qed (use assms ProcessTimer in \<open>auto simp: path_ok_def cmq.ready_def\<close>)
qed

lemma sent_append: "sent (es @ es') = sent es @ sent es'"
  by (induction es rule: sent.induct) auto

lemma missive_run_ok:
  assumes "path_ok p ms"
  shows "\<exists>p'. fold_res missive_step p es = Inr p' \<and> path_ok p' (ms @ sent es)"
  using assms
proof (induction es arbitrary: p ms)
  case (Cons e es)
  obtain p1 where p1: "missive_step p e = Inr p1" "path_ok p1 (ms @ sent [e])" using missive_step_ok[OF Cons.prems, of e] by blast
  with Cons.IH[OF p1(2)] show ?case using sent_append[of "[e]" es] by auto
qed auto

text \<open>
  C12. Missives are neither lost, duplicated nor reordered: whatever the interleaving of sending with the two timers, the missives
  processed so far, those waiting with the connection manager and those waiting with the messenger are together the missives sent, in
  the order of sending; a queue that is not empty has a running timer; and once the two timers have fired, everything sent was processed.
\<close>

theorem missives_in_order:
  "\<exists>p q. fold_res missive_step missive_path_Create es = Inr p \<and>
     mp_done p @ missiveQueue (mp_manager p) @ eventQueue (mp_messenger p) = sent es \<and>
     (ms_timer (mp_messenger p) \<longleftrightarrow> eventQueue (mp_messenger p) \<noteq> []) \<and> (cm_timer (mp_manager p) \<longleftrightarrow> missiveQueue (mp_manager p) \<noteq> []) \<and>
     fold_res missive_step p [DeliverTimer, ProcessTimer] = Inr q \<and> mp_done q = sent es"
proof -
  have "path_ok missive_path_Create []"
    by (simp add: path_ok_def missive_path_Create_def missiveDeque_Create_def recipients)
      (simp add: messenger_Register_def removeRecipient_def messenger_Create_def missiveDeque_Create_def msq.ready_def cmq.ready_def Let_def)
  from missive_run_ok[OF this, of es] obtain p where p: "fold_res missive_step missive_path_Create es = Inr p" "path_ok p (sent es)" by auto
  from missive_step_ok[OF p(2), of DeliverTimer] obtain p1 where
    p1: "missive_step p DeliverTimer = Inr p1" "path_ok p1 (sent es)" "eventQueue (mp_messenger p1) = []" by auto
  from missive_step_ok[OF p1(2), of ProcessTimer] obtain q where
    q: "missive_step p1 ProcessTimer = Inr q" "path_ok q (sent es)" "missiveQueue (mp_manager q) = []" "eventQueue (mp_messenger q) = []"
    using p1(3) by auto
  have "fold_res missive_step p [DeliverTimer, ProcessTimer] = Inr q" using p1(1) q(1) by (simp del: missive_step.simps)
  then show ?thesis using p q by (intro exI[of _ p] exI[of _ q]) (simp add: path_ok_def msq.ready_def cmq.ready_def)
qed

end
