(* ===== verification/SymbolicNames.thy ===== *)
theory SymbolicNames
  imports Libparc
begin

text \<open>
  Symbolic names of connections (\<^verbatim>\<open>hicn-light/src/hicn/config/symbolicNameTable.c\<close>) and the string functions of
  \<^verbatim>\<open>utils/utils.c\<close> that the commands use. A string is the list of its characters before the terminating zero; the classes of
  characters are those of the C locale.

  The table has the identifier of every name and the name of every identifier, in two hash tables of libparc whose operations are the parameter \<open>N\<close>. Names
  are stored in upper case. The lemmas show that the two tables together are one injective map.
\<close>

section \<open>Characters and strings\<close>

definition in_range :: "nat \<Rightarrow> nat \<Rightarrow> char \<Rightarrow> bool" where
  "in_range a b c \<longleftrightarrow> a \<le> of_char c \<and> of_char c \<le> b"

definition isdigit :: "char \<Rightarrow> bool" where "isdigit = in_range 48 57"

definition isalpha :: "char \<Rightarrow> bool" where "isalpha c \<longleftrightarrow> in_range 65 90 c \<or> in_range 97 122 c"

definition isalnum :: "char \<Rightarrow> bool" where "isalnum c \<longleftrightarrow> isalpha c \<or> isdigit c"

definition c_toupper :: "char \<Rightarrow> char" where
  "c_toupper c = (if in_range 97 122 c then char_of (of_char c - (32 :: nat)) else c)"

definition c_tolower :: "char \<Rightarrow> char" where
  "c_tolower c = (if in_range 65 90 c then char_of (of_char c + (32 :: nat)) else c)"

definition strcasecmp_eq :: "string \<Rightarrow> string \<Rightarrow> bool" where
  "strcasecmp_eq a b \<longleftrightarrow> map c_tolower a = map c_tolower b"

definition utils_IsNumber :: "string \<Rightarrow> bool" where
  "utils_IsNumber s = list_all isdigit s"

definition utils_ValidateSymbolicName :: "string \<Rightarrow> bool" where
  "utils_ValidateSymbolicName symbolic = (case symbolic of [] \<Rightarrow> False | c # cs \<Rightarrow> if isalpha c then list_all isalnum cs else False)"

text \<open>\<^verbatim>\<open>(unsigned)strtold(s, NULL)\<close> for a string of digits; \<open>out_of_range\<close> is what the conversion of a too large number gives.\<close>

definition decimal_value :: "string \<Rightarrow> nat" where
  "decimal_value s = foldl (\<lambda>n c. 10 * n + (of_char c - 48)) 0 s"

definition string_to_unsigned :: "(nat \<Rightarrow> u32) \<Rightarrow> string \<Rightarrow> u32" where
  "string_to_unsigned out_of_range s = (let n = decimal_value s in if n < 2 ^ 32 then of_nat n else out_of_range n)"

text \<open>\<^verbatim>\<open>%u\<close> of a byte.\<close>

definition digit :: "nat \<Rightarrow> char" where "digit n = char_of (48 + n mod 10)"

definition byte_to_string :: "u8 \<Rightarrow> string" where
  "byte_to_string b = (let n = unat b in
     if n < 10 then [digit n] else if n < 100 then [digit (n div 10), digit n] else [digit (n div 100), digit (n div 10), digit n])"

section \<open>The table\<close>

abbreviation (input) UINT32_MAX :: u32 where "UINT32_MAX \<equiv> - 1"

record ('s, 'n) sn_ops =
  sn_byName :: "('s, string, u32) hct_ops"
  sn_byIndex :: "('n, u32, string) hct_ops"

record ('s, 'n) SymbolicNameTable =
  symbolicNameTable :: 's
  indexToNameTable :: 'n

definition symbolicNameEquals :: "string \<Rightarrow> string \<Rightarrow> bool" where
  "symbolicNameEquals a b = strcasecmp_eq a b"

definition connectionIdEquals :: "u32 \<Rightarrow> u32 \<Rightarrow> bool" where
  "connectionIdEquals a b = (a = b)"

definition symbolicNameTable_Create :: "('s, 'n) sn_ops \<Rightarrow> ('s, 'n) SymbolicNameTable" where
  "symbolicNameTable_Create N = \<lparr>symbolicNameTable = hct_Create (sn_byName N), indexToNameTable = hct_Create (sn_byIndex N)\<rparr>"

definition createKey :: "string \<Rightarrow> string" where
  "createKey symbolicName = map c_toupper symbolicName"

definition symbolicNameTable_Exists :: "('s, 'n) sn_ops \<Rightarrow> ('s, 'n) SymbolicNameTable \<Rightarrow> string \<Rightarrow> bool" where
  "symbolicNameTable_Exists N t symbolicName = (hct_Get (sn_byName N) (symbolicNameTable t) (createKey symbolicName) \<noteq> None)"

definition symbolicNameTable_Get :: "('s, 'n) sn_ops \<Rightarrow> ('s, 'n) SymbolicNameTable \<Rightarrow> string \<Rightarrow> u32" where
  "symbolicNameTable_Get N t symbolicName =
     (case hct_Get (sn_byName N) (symbolicNameTable t) (createKey symbolicName) of None \<Rightarrow> UINT32_MAX | Some v \<Rightarrow> v)"

definition symbolicNameTable_Remove :: "('s, 'n) sn_ops \<Rightarrow> ('s, 'n) SymbolicNameTable \<Rightarrow> string \<Rightarrow> ('s, 'n) SymbolicNameTable" where
  "symbolicNameTable_Remove N t symbolicName =
     (let key = createKey symbolicName; i = symbolicNameTable_Get N t symbolicName
      in t\<lparr>symbolicNameTable := hct_Del (sn_byName N) (symbolicNameTable t) key,
           indexToNameTable := hct_Del (sn_byIndex N) (indexToNameTable t) i\<rparr>)"

text \<open>When the identifier has a name already, deleting the new pair frees its key and its value, and then both are freed again.\<close>

definition symbolicNameTable_Add :: "('s, 'n) sn_ops \<Rightarrow> ('s, 'n) SymbolicNameTable \<Rightarrow> string \<Rightarrow> u32 \<Rightarrow> (('s, 'n) SymbolicNameTable \<times> bool) res" where
  "symbolicNameTable_Add N t symbolicName connid =
     (if \<not> connid < UINT32_MAX then Inl AssertFailed
      else let key = createKey symbolicName;
               (names, success) = hct_Add (sn_byName N) (symbolicNameTable t) key connid
           in if \<not> success then Inr (t, False)
              else let (indices, success) = hct_Add (sn_byIndex N) (indexToNameTable t) connid key
                   in if \<not> success then Inl MemoryFault
                      else Inr (t\<lparr>symbolicNameTable := names, indexToNameTable := indices\<rparr>, True))"

definition symbolicNameTable_GetNameByIndex :: "('s, 'n) sn_ops \<Rightarrow> ('s, 'n) SymbolicNameTable \<Rightarrow> u32 \<Rightarrow> string" where
  "symbolicNameTable_GetNameByIndex N t i = (case hct_Get (sn_byIndex N) (indexToNameTable t) i of None \<Rightarrow> '''' | Some name \<Rightarrow> name)"

section \<open>Keys\<close>

text \<open>On keys, which have no lower-case letter, the comparison that ignores case is equality.\<close>

definition upper :: "string \<Rightarrow> bool" where
  "upper s \<longleftrightarrow> createKey s = s"

lemma of_char_less: "(of_char c :: nat) < 256"
  using of_char_mod_256[of c, where 'a = nat] by simp

lemma toupper_not_lower: "\<not> in_range 97 122 (c_toupper c)"
  using of_char_less[of c] by (auto simp: c_toupper_def in_range_def of_char_of)

lemma toupper_idem [simp]: "c_toupper (c_toupper c) = c_toupper c"
  using toupper_not_lower[of c] by (simp add: c_toupper_def[of "c_toupper c"])

lemma upper_createKey [simp]: "upper (createKey s)"
  by (simp add: upper_def createKey_def)

lemma upper_key [simp]: "upper s \<Longrightarrow> createKey s = s"
  by (simp add: upper_def)

lemma createKey_idem [simp]: "createKey (createKey s) = createKey s"
  by simp

lemma not_lower: "c_toupper c = c \<Longrightarrow> \<not> in_range 97 122 c"
  using toupper_not_lower[of c] by simp

lemma tolower_inj:
  assumes "\<not> in_range 97 122 a" "\<not> in_range 97 122 b" "c_tolower a = c_tolower b"
  shows "a = b"
proof -
  have "(of_char (c_tolower a) :: nat) = of_char (c_tolower b)" using assms(3) by simp
  then have "(of_char a :: nat) = of_char b" using assms(1,2) of_char_less[of a] of_char_less[of b]
    by (auto simp: c_tolower_def in_range_def of_char_of split: if_splits)
  then show ?thesis by simp
qed

lemma names_equal:
  assumes "upper a" "upper b"
  shows "symbolicNameEquals a b \<longleftrightarrow> a = b"
proof
  assume "symbolicNameEquals a b"
  then have "map c_tolower a = map c_tolower b" by (simp add: symbolicNameEquals_def strcasecmp_eq_def)
  moreover have "\<forall>c\<in>set a \<union> set b. \<not> in_range 97 122 c"
  proof -
    have "\<forall>c\<in>set a. c_toupper c = c" "\<forall>c\<in>set b. c_toupper c = c"
      using assms by (auto simp: upper_def createKey_def map_eq_conv[where g = id, simplified])
    then show ?thesis using not_lower by auto
  qed
  ultimately show "a = b"
  proof (induction a arbitrary: b)
    case (Cons x xs)
    then obtain y ys where b: "b = y # ys" by (cases b) auto
    then show ?case using Cons tolower_inj[of x y] by auto
  qed simp
qed (simp add: symbolicNameEquals_def strcasecmp_eq_def)

section \<open>The invariant\<close>

definition sn_laws :: "('s, 'n) sn_ops \<Rightarrow> bool" where
  "sn_laws N \<longleftrightarrow> hct_laws upper symbolicNameEquals (sn_byName N) \<and> hct_laws (\<lambda>_. True) connectionIdEquals (sn_byIndex N)"

text \<open>The map from names, as they are stored, to identifiers.\<close>

definition sn_map :: "('s, 'n) sn_ops \<Rightarrow> ('s, 'n) SymbolicNameTable \<Rightarrow> string \<Rightarrow> u32 option" where
  "sn_map N t k = (if upper k then hct_Get (sn_byName N) (symbolicNameTable t) k else None)"

text \<open>The other table is its inverse.\<close>

definition sn_inv :: "('s, 'n) sn_ops \<Rightarrow> ('s, 'n) SymbolicNameTable \<Rightarrow> bool" where
  "sn_inv N t \<longleftrightarrow> (\<forall>i k. hct_Get (sn_byIndex N) (indexToNameTable t) i = Some k \<longleftrightarrow> sn_map N t k = Some i) \<and> UINT32_MAX \<notin> ran (sn_map N t)"

lemma sn_laws_names:
  assumes "sn_laws N" "upper k" "upper k'"
  shows "hct_Get (sn_byName N) (hct_Create (sn_byName N)) k = None"
    "hct_Get (sn_byName N) (fst (hct_Add (sn_byName N) t k v)) k' = (if k = k' \<and> hct_Get (sn_byName N) t k = None then Some v else hct_Get (sn_byName N) t k')"
    "snd (hct_Add (sn_byName N) t k v) = (hct_Get (sn_byName N) t k = None)"
    "hct_Get (sn_byName N) (hct_Del (sn_byName N) t k) k' = (if k = k' then None else hct_Get (sn_byName N) t k')"
proof -
  have L: "hct_laws upper symbolicNameEquals (sn_byName N)" using assms(1) by (simp add: sn_laws_def)
  note D = hct_lawsD[OF L assms(2,3)] and eq = names_equal[OF assms(2,3)]
  show "hct_Get (sn_byName N) (hct_Create (sn_byName N)) k = None" using D(1) .
  show "hct_Get (sn_byName N) (fst (hct_Add (sn_byName N) t k v)) k' = (if k = k' \<and> hct_Get (sn_byName N) t k = None then Some v else hct_Get (sn_byName N) t k')"
    using D(2) by (simp add: eq)
  show "snd (hct_Add (sn_byName N) t k v) = (hct_Get (sn_byName N) t k = None)" using D(3) .
  show "hct_Get (sn_byName N) (hct_Del (sn_byName N) t k) k' = (if k = k' then None else hct_Get (sn_byName N) t k')" using D(4) by (simp add: eq)
qed

lemma sn_laws_index:
  assumes "sn_laws N"
  shows "hct_Get (sn_byIndex N) (hct_Create (sn_byIndex N)) i = None"
    "hct_Get (sn_byIndex N) (fst (hct_Add (sn_byIndex N) t i v)) j = (if i = j \<and> hct_Get (sn_byIndex N) t i = None then Some v else hct_Get (sn_byIndex N) t j)"
    "snd (hct_Add (sn_byIndex N) t i v) = (hct_Get (sn_byIndex N) t i = None)"
    "hct_Get (sn_byIndex N) (hct_Del (sn_byIndex N) t i) j = (if i = j then None else hct_Get (sn_byIndex N) t j)"
proof -
  have "hct_laws (\<lambda>_. True) connectionIdEquals (sn_byIndex N)" using assms by (simp add: sn_laws_def)
  note D = hct_lawsD[OF this TrueI TrueI]
  show "hct_Get (sn_byIndex N) (hct_Create (sn_byIndex N)) i = None" using D(1) .
  show "hct_Get (sn_byIndex N) (fst (hct_Add (sn_byIndex N) t i v)) j = (if i = j \<and> hct_Get (sn_byIndex N) t i = None then Some v else hct_Get (sn_byIndex N) t j)"
    using D(2) by (simp add: connectionIdEquals_def)
  show "snd (hct_Add (sn_byIndex N) t i v) = (hct_Get (sn_byIndex N) t i = None)" using D(3) .
  show "hct_Get (sn_byIndex N) (hct_Del (sn_byIndex N) t i) j = (if i = j then None else hct_Get (sn_byIndex N) t j)" using D(4) by (simp add: connectionIdEquals_def)
qed

lemma sn_Create_ok:
  assumes "sn_laws N"
  shows "sn_inv N (symbolicNameTable_Create N)" "sn_map N (symbolicNameTable_Create N) = Map.empty"
proof -
  show m: "sn_map N (symbolicNameTable_Create N) = Map.empty"
    using sn_laws_names(1)[OF assms] by (auto simp: sn_map_def symbolicNameTable_Create_def fun_eq_iff)
  show "sn_inv N (symbolicNameTable_Create N)" unfolding sn_inv_def m using sn_laws_index(1)[OF assms] by (simp add: symbolicNameTable_Create_def)
qed

lemma sn_queries:
  assumes "sn_inv N t"
  shows "symbolicNameTable_Get N t n = (case sn_map N t (createKey n) of None \<Rightarrow> UINT32_MAX | Some i \<Rightarrow> i)"
    "symbolicNameTable_Exists N t n \<longleftrightarrow> createKey n \<in> dom (sn_map N t)"
    "sn_map N t k = Some i \<Longrightarrow> symbolicNameTable_GetNameByIndex N t i = k"
    "i \<notin> ran (sn_map N t) \<Longrightarrow> symbolicNameTable_GetNameByIndex N t i = ''''"
proof -
  have *: "hct_Get (sn_byIndex N) (indexToNameTable t) i = Some k \<longleftrightarrow> sn_map N t k = Some i" for i k using assms by (simp add: sn_inv_def)
  show "symbolicNameTable_Get N t n = (case sn_map N t (createKey n) of None \<Rightarrow> UINT32_MAX | Some i \<Rightarrow> i)"
    "symbolicNameTable_Exists N t n \<longleftrightarrow> createKey n \<in> dom (sn_map N t)"
    by (auto simp: symbolicNameTable_Get_def symbolicNameTable_Exists_def sn_map_def)
  show "sn_map N t k = Some i \<Longrightarrow> symbolicNameTable_GetNameByIndex N t i = k"
    by (simp add: symbolicNameTable_GetNameByIndex_def flip: *)
  show "symbolicNameTable_GetNameByIndex N t i = ''''" if "i \<notin> ran (sn_map N t)"
  proof (cases "hct_Get (sn_byIndex N) (indexToNameTable t) i")
    case (Some k)
    then show ?thesis using that *[of i k] by (auto simp: ran_def)
  qed (simp add: symbolicNameTable_GetNameByIndex_def)
qed

lemma sn_inj:
  assumes "sn_inv N t" "sn_map N t k = Some i" "sn_map N t k' = Some i"
  shows "k = k'"
  using assms unfolding sn_inv_def by (metis option.inject)

lemma sn_Remove_ok:
  assumes "sn_laws N" "sn_inv N t"
  shows "sn_inv N (symbolicNameTable_Remove N t n)" "sn_map N (symbolicNameTable_Remove N t n) = (sn_map N t)(createKey n := None)"
proof -
  let ?t = "symbolicNameTable_Remove N t n" and ?i = "symbolicNameTable_Get N t n"
  show m: "sn_map N ?t = (sn_map N t)(createKey n := None)"
    using sn_laws_names(4)[OF assms(1)] by (auto simp: sn_map_def symbolicNameTable_Remove_def fun_eq_iff Let_def)
  have idx: "hct_Get (sn_byIndex N) (indexToNameTable ?t) j = (if j = ?i then None else hct_Get (sn_byIndex N) (indexToNameTable t) j)" for j
    using sn_laws_index(4)[OF assms(1)] by (simp add: symbolicNameTable_Remove_def Let_def)
  have old: "hct_Get (sn_byIndex N) (indexToNameTable t) j = Some k \<longleftrightarrow> sn_map N t k = Some j" for j k using assms(2) by (simp add: sn_inv_def)
  have "k \<noteq> createKey n \<longleftrightarrow> j \<noteq> ?i" if "sn_map N t k = Some j" for j k
  proof -
    have "j \<noteq> UINT32_MAX" using that assms(2) by (auto simp: sn_inv_def ran_def)
    then show ?thesis using that sn_inj[OF assms(2), of k j "createKey n"] sn_queries(1)[OF assms(2), of n] by (auto split: option.splits)
  qed
  moreover have "UINT32_MAX \<notin> ran ((sn_map N t)(createKey n := None))" using assms(2) by (auto simp: sn_inv_def ran_def split: if_splits)
  ultimately show "sn_inv N ?t" unfolding sn_inv_def m idx by (auto simp: old)
qed

lemma sn_Add_ok:
  assumes "sn_laws N" "sn_inv N t" "i \<noteq> UINT32_MAX"
  shows "createKey n \<in> dom (sn_map N t) \<Longrightarrow> symbolicNameTable_Add N t n i = Inr (t, False)"
    "createKey n \<notin> dom (sn_map N t) \<Longrightarrow> i \<in> ran (sn_map N t) \<Longrightarrow> symbolicNameTable_Add N t n i = Inl MemoryFault"
    "createKey n \<notin> dom (sn_map N t) \<Longrightarrow> i \<notin> ran (sn_map N t) \<Longrightarrow>
       \<exists>t'. symbolicNameTable_Add N t n i = Inr (t', True) \<and> sn_inv N t' \<and> sn_map N t' = (sn_map N t)(createKey n \<mapsto> i)"
proof -
  let ?k = "createKey n"
  have lt: "i < UINT32_MAX" using assms(3) word_order.not_eq_extremum by blast
  have has: "hct_Get (sn_byName N) (symbolicNameTable t) ?k = sn_map N t ?k" by (simp add: sn_map_def)
  have old: "hct_Get (sn_byIndex N) (indexToNameTable t) j = Some k \<longleftrightarrow> sn_map N t k = Some j" for j k using assms(2) by (simp add: sn_inv_def)
  obtain names where names: "hct_Add (sn_byName N) (symbolicNameTable t) ?k i = (names, ?k \<notin> dom (sn_map N t))"
    using sn_laws_names(3)[OF assms(1), of ?k ?k "symbolicNameTable t" i] has by (cases "hct_Add (sn_byName N) (symbolicNameTable t) ?k i") auto
  have free: "hct_Get (sn_byIndex N) (indexToNameTable t) i = None \<longleftrightarrow> i \<notin> ran (sn_map N t)"
    using old[of i] by (cases "hct_Get (sn_byIndex N) (indexToNameTable t) i") (auto simp: ran_def)
  then obtain indices where indices: "hct_Add (sn_byIndex N) (indexToNameTable t) i ?k = (indices, i \<notin> ran (sn_map N t))"
    using sn_laws_index(3)[OF assms(1), of "indexToNameTable t" i ?k] by (cases "hct_Add (sn_byIndex N) (indexToNameTable t) i ?k") auto
  show "?k \<in> dom (sn_map N t) \<Longrightarrow> symbolicNameTable_Add N t n i = Inr (t, False)"
    "?k \<notin> dom (sn_map N t) \<Longrightarrow> i \<in> ran (sn_map N t) \<Longrightarrow> symbolicNameTable_Add N t n i = Inl MemoryFault"
    using lt by (simp_all add: symbolicNameTable_Add_def Let_def names indices)
  assume new: "?k \<notin> dom (sn_map N t)" "i \<notin> ran (sn_map N t)"
  let ?t = "t\<lparr>symbolicNameTable := names, indexToNameTable := indices\<rparr>"
  have none: "sn_map N t ?k = None" using new(1) by (simp add: domIff)
  have names': "hct_Get (sn_byName N) names k = (if ?k = k then Some i else sn_map N t k)" if "upper k" for k
    using sn_laws_names(2)[OF assms(1) upper_createKey[of n] that, of "symbolicNameTable t" i] that unfolding names has none by (simp add: sn_map_def)
  have m: "sn_map N ?t = (sn_map N t)(?k \<mapsto> i)"
  proof
    fix k show "sn_map N ?t k = ((sn_map N t)(?k \<mapsto> i)) k"
      using names'[of k] by (cases "upper k") (auto simp: sn_map_def[of N ?t], auto simp: sn_map_def)
  qed
  have idx: "hct_Get (sn_byIndex N) indices j = (if i = j then Some ?k else hct_Get (sn_byIndex N) (indexToNameTable t) j)" for j
    using sn_laws_index(2)[OF assms(1), of "indexToNameTable t" i ?k j] indices free new(2) by simp
  have ran: "sn_map N t k \<noteq> Some i" for k using new(2) by (auto simp: ran_def)
  have "(hct_Get (sn_byIndex N) indices j = Some k) = (((sn_map N t)(?k \<mapsto> i)) k = Some j)" for j k
    using old[of j k] ran[of k] none by (auto simp: idx)
  then have "sn_inv N ?t" using assms(2,3) none unfolding sn_inv_def m by (simp add: ran_def split: if_splits)
  then show "\<exists>t'. symbolicNameTable_Add N t n i = Inr (t', True) \<and> sn_inv N t' \<and> sn_map N t' = (sn_map N t)(?k \<mapsto> i)"
    using lt new m by (intro exI[of _ ?t]) (simp add: symbolicNameTable_Add_def Let_def names indices)
qed

section \<open>Properties\<close>

datatype name_op = AddName string u32 | RemoveName string

fun name_step :: "('s, 'n) sn_ops \<Rightarrow> ('s, 'n) SymbolicNameTable \<Rightarrow> name_op \<Rightarrow> ('s, 'n) SymbolicNameTable res" where
  "name_step N t (AddName n i) = bind_res (symbolicNameTable_Add N t n i) (\<lambda>(t, _). Inr t)"
| "name_step N t (RemoveName n) = Inr (symbolicNameTable_Remove N t n)"

fun spec_name :: "(string \<Rightarrow> u32 option) \<Rightarrow> name_op \<Rightarrow> (string \<Rightarrow> u32 option)" where
  "spec_name m (AddName n i) = (if createKey n \<in> dom m then m else m(createKey n \<mapsto> i))"
| "spec_name m (RemoveName n) = m(createKey n := None)"

text \<open>A new name is given to an identifier without a name, and the identifier is not the one that stands for no connection.\<close>

fun names_ok :: "(string \<Rightarrow> u32 option) \<Rightarrow> name_op list \<Rightarrow> bool" where
  "names_ok m [] = True"
| "names_ok m (AddName n i # ps) \<longleftrightarrow> i \<noteq> UINT32_MAX \<and> (createKey n \<in> dom m \<or> i \<notin> ran m) \<and> names_ok (spec_name m (AddName n i)) ps"
| "names_ok m (RemoveName n # ps) \<longleftrightarrow> names_ok (spec_name m (RemoveName n)) ps"

lemma name_run_ok:
  assumes "sn_laws N" "sn_inv N t" "names_ok (sn_map N t) ps"
  shows "\<exists>t'. fold_res (name_step N) t ps = Inr t' \<and> sn_inv N t' \<and> sn_map N t' = foldl spec_name (sn_map N t) ps"
  using assms(2,3)
proof (induction ps arbitrary: t)
  case (Cons p ps)
  have "\<exists>t1. name_step N t p = Inr t1 \<and> sn_inv N t1 \<and> sn_map N t1 = spec_name (sn_map N t) p"
  proof (cases p)
    case (AddName n i)
    then have "i \<noteq> UINT32_MAX" "createKey n \<in> dom (sn_map N t) \<or> i \<notin> ran (sn_map N t)" using Cons.prems(2) by auto
    with sn_Add_ok[OF assms(1) Cons.prems(1) this(1), of n] show ?thesis using AddName Cons.prems(1) by (cases "createKey n \<in> dom (sn_map N t)") auto
  next
    case (RemoveName n)
    then show ?thesis using sn_Remove_ok[OF assms(1) Cons.prems(1), of n] by simp
  qed
  then obtain t1 where t1: "name_step N t p = Inr t1" "sn_inv N t1" "sn_map N t1 = spec_name (sn_map N t) p" by blast
  have "names_ok (spec_name (sn_map N t) p) ps" using Cons.prems(2) by (cases p) auto
  with Cons.IH[OF t1(2)] t1 show ?case by (auto simp del: spec_name.simps name_step.simps)
qed auto

text \<open>
  C13. The two tables of symbolic names are one injective map: after any sequence of additions and removals in which a new name is
  given to an identifier without a name, the name of an identifier and the identifier of a name, in any case of letters, are those of the map
  the sequence denotes, and a name or an identifier that is not in the map is reported as absent.
\<close>

theorem symbolic_names_bijection:
  assumes "sn_laws N" "names_ok Map.empty ps" "m = foldl spec_name Map.empty ps"
  shows "\<exists>t. fold_res (name_step N) (symbolicNameTable_Create N) ps = Inr t \<and> inj_on m (dom m) \<and>
    (\<forall>n. symbolicNameTable_Get N t n = (case m (createKey n) of None \<Rightarrow> UINT32_MAX | Some i \<Rightarrow> i)) \<and>
    (\<forall>n. symbolicNameTable_Exists N t n \<longleftrightarrow> createKey n \<in> dom m) \<and>
    (\<forall>k i. m k = Some i \<longrightarrow> symbolicNameTable_GetNameByIndex N t i = k \<and> i \<noteq> UINT32_MAX) \<and>
    (\<forall>i. i \<notin> ran m \<longrightarrow> symbolicNameTable_GetNameByIndex N t i = '''')"
proof -
  note C = sn_Create_ok[OF assms(1)]
  from name_run_ok[OF assms(1) C(1)] C(2) assms(2,3) obtain t where
    t: "fold_res (name_step N) (symbolicNameTable_Create N) ps = Inr t" "sn_inv N t" "sn_map N t = m" by auto
  have inj: "inj_on m (dom m)" using sn_inj[OF t(2)] t(3) by (auto simp: inj_on_def)
  have "i \<noteq> UINT32_MAX" if "m k = Some i" for k i using that t(2,3) by (auto simp: sn_inv_def ran_def)
  with inj show ?thesis using t sn_queries[OF t(2)] by (intro exI[of _ t]) auto
qed

definition ex_sn_ops :: "((string \<times> u32) list, (u32 \<times> string) list) sn_ops" where
  "ex_sn_ops = \<lparr>sn_byName = al_hct symbolicNameEquals, sn_byIndex = al_hct connectionIdEquals\<rparr>"

lemma ex_sn_ops_ok: "sn_laws ex_sn_ops"
proof -
  have "equivalence_on upper symbolicNameEquals" "equivalence_on (\<lambda>_. True) connectionIdEquals"
    by (auto simp: equivalence_on_def symbolicNameEquals_def strcasecmp_eq_def connectionIdEquals_def symp_def transp_def)
  then show ?thesis by (simp add: sn_laws_def ex_sn_ops_def al_hct_laws)
qed

theorem symbolic_names_bijection_witness:
  "\<exists>t. fold_res (name_step ex_sn_ops) (symbolicNameTable_Create ex_sn_ops) [AddName ''conn1'' 7, AddName ''Conn1'' 8] = Inr t \<and>
     symbolicNameTable_Get ex_sn_ops t ''cONN1'' = 7 \<and> symbolicNameTable_GetNameByIndex ex_sn_ops t 7 = ''CONN1'' \<and>
     symbolicNameTable_GetNameByIndex ex_sn_ops t 8 = ''''"
proof -
  have keys: "createKey ''conn1'' = ''CONN1''" "createKey ''Conn1'' = ''CONN1''" "createKey ''cONN1'' = ''CONN1''" by code_simp+
  let ?ps = "[AddName ''conn1'' 7, AddName ''Conn1'' 8]"
  have ok: "names_ok Map.empty ?ps" "foldl spec_name Map.empty ?ps = [''CONN1'' \<mapsto> 7]" by (simp_all add: keys)
  from symbolic_names_bijection[OF ex_sn_ops_ok ok(1) refl] obtain t where
    t: "fold_res (name_step ex_sn_ops) (symbolicNameTable_Create ex_sn_ops) ?ps = Inr t"
    "\<And>n. symbolicNameTable_Get ex_sn_ops t n = (case [''CONN1'' \<mapsto> 7] (createKey n) of None \<Rightarrow> UINT32_MAX | Some i \<Rightarrow> i)"
    "\<And>k i. [''CONN1'' \<mapsto> 7] k = Some i \<Longrightarrow> symbolicNameTable_GetNameByIndex ex_sn_ops t i = k"
    "\<And>i. i \<notin> ran [''CONN1'' \<mapsto> 7] \<Longrightarrow> symbolicNameTable_GetNameByIndex ex_sn_ops t i = ''''"
    unfolding ok(2) by (elim exE conjE) blast
  have "symbolicNameTable_Get ex_sn_ops t ''cONN1'' = 7" using t(2)[of "''cONN1''"] by (simp add: keys)
  moreover have "symbolicNameTable_GetNameByIndex ex_sn_ops t 7 = ''CONN1''" using t(3)[of "''CONN1''" 7] by simp
  moreover have "symbolicNameTable_GetNameByIndex ex_sn_ops t 8 = ''''" using t(4)[of 8] by simp
  ultimately show ?thesis using t(1) by (intro exI[of _ t]) simp
qed

text \<open>A second name for an identifier: the key and the value of the new pair are freed twice.\<close>

theorem second_name_double_free:
  assumes "sn_laws N" "sn_inv N t" "i \<noteq> UINT32_MAX" "i \<in> ran (sn_map N t)" "\<not> symbolicNameTable_Exists N t n"
  shows "symbolicNameTable_Add N t n i = Inl MemoryFault"
  using sn_Add_ok(2)[OF assms(1-3)] assms(4,5) sn_queries(2)[OF assms(2)] by simp

end
