(* ===== verification/Forwarder.thy ===== *)
theory Forwarder
  imports Processor Mapme Messenger SymbolicNames
begin

text \<open>
  The forwarder (\<^verbatim>\<open>hicn-light/src/hicn/core/forwarder.c\<close>) as the component that holds the others: the message
  processor with FIB and connection table, MAP-Me, the messenger, the connection manager (\<^verbatim>\<open>core/connectionManager.c\<close>), the listeners
  (\<^verbatim>\<open>io/listenerSet.c\<close>) and the tables of the configuration. Further, how connections and listeners come into being and go away: UDP and TCP listeners
  and tunnels, accepted TCP connections, closed streams (\<^verbatim>\<open>io/udpListener.c\<close>, \<^verbatim>\<open>io/udpTunnel.c\<close>, \<^verbatim>\<open>io/udpConnection.c\<close>, \<^verbatim>\<open>io/tcpListener.c\<close>, \<^verbatim>\<open>io/tcpTunnel.c\<close>, \<^verbatim>\<open>io/streamConnection.c\<close>).

  The answers of the operating system and of libparc's network functions are parameters. The build is the one without \<^verbatim>\<open>PUNTING\<close>, so there are no hICN listeners and tunnels.
  Logging, signals and the release of memory are left out.
\<close>

section \<open>Addresses\<close>

text \<open>The bytes of \<^verbatim>\<open>struct sockaddr_in\<close> and \<^verbatim>\<open>struct sockaddr_in6\<close>; port and address are as in memory, in network order.\<close>

definition addressFromInaddr4Port :: "u8 list \<Rightarrow> u8 list \<Rightarrow> address" where
  "addressFromInaddr4Port addr4 port = \<lparr>addressType = AT_INET, blob = [2, 0] @ port @ addr4 @ replicate 8 0\<rparr>"

definition addressFromInaddr6Port :: "u8 list \<Rightarrow> u8 list \<Rightarrow> address" where
  "addressFromInaddr6Port addr6 port = \<lparr>addressType = AT_INET6, blob = [10, 0] @ port @ replicate 4 0 @ addr6 @ replicate 4 0\<rparr>"

text \<open>The two views of the sixteen bytes of \<^verbatim>\<open>ip_address_t\<close>.\<close>

definition ip_v4 :: "u8 list \<Rightarrow> u8 list" where "ip_v4 ip = take 4 (drop 12 ip)"
definition ip_v6 :: "u8 list \<Rightarrow> u8 list" where "ip_v6 ip = take 16 ip"

section \<open>The set of listeners\<close>

datatype EncapType = ENCAP_TCP | ENCAP_UDP | ENCAP_ETHER | ENCAP_LOCAL | ENCAP_HICN

text \<open>A listener as the values its operations return.\<close>

record ListenerOps =
  ls_id :: connid
  ls_address :: address
  ls_encap :: EncapType
  ls_name :: string
  ls_interfaceName :: string

type_synonym ListenerSet = "ListenerOps list"

definition listenerSet_Create :: ListenerSet where "listenerSet_Create = []"

definition listenerSet_Add :: "ListenerSet \<Rightarrow> ListenerOps \<Rightarrow> ListenerSet \<times> bool" where
  "listenerSet_Add ls l =
     (if list_ex (\<lambda>e. ls_encap l = ls_encap e \<and> addressEquals (ls_address l) (ls_address e)) ls then (ls, False) else (ls @ [l], True))"

definition listenerSet_Length :: "ListenerSet \<Rightarrow> nat" where "listenerSet_Length ls = length ls"

definition listenerSet_Get :: "ListenerSet \<Rightarrow> nat \<Rightarrow> ListenerOps res" where
  "listenerSet_Get ls i = (if i < length ls then Inr (ls ! i) else Inl AssertFailed)"

definition listenerSet_Find :: "ListenerSet \<Rightarrow> EncapType \<Rightarrow> address \<Rightarrow> ListenerOps option" where
  "listenerSet_Find ls encapType localAddress = find (\<lambda>l. ls_encap l = encapType \<and> addressEquals localAddress (ls_address l)) ls"

definition listenerSet_FindById :: "ListenerSet \<Rightarrow> connid \<Rightarrow> ListenerOps option" where
  "listenerSet_FindById ls i = find (\<lambda>l. ls_id l = i) ls"

definition listenerSet_FindIdByListenerName :: "ListenerSet \<Rightarrow> string \<Rightarrow> int" where
  "listenerSet_FindIdByListenerName ls listenerName = (case find (\<lambda>l. ls_name l = listenerName) ls of None \<Rightarrow> - 1 | Some l \<Rightarrow> sint (ls_id l))"

fun listenerSet_RemoveById :: "ListenerSet \<Rightarrow> connid \<Rightarrow> ListenerSet" where
  "listenerSet_RemoveById [] i = []"
| "listenerSet_RemoveById (l # ls) i = (if ls_id l = i then ls else l # listenerSet_RemoveById ls i)"

section \<open>State\<close>

record ('d, 't, 'l, 'pt, 'ch, 'ct, 'i, 'p, 'o, 'h, 's, 'n, 'm) fw_ops =
  fo_node :: "('d, 't, 'l, 'pt, 'ch, 'ct, 'i, 'p, 'o) node_ops"
  fo_mapme :: "('d, 't, 'l, 'i, 'p, 'o, 'h) mm_ops"
  fo_names :: "('s, 'n) sn_ops"
  fo_strategies :: "('m, string, u32) hm_ops"
  fo_addressString :: "Address \<Rightarrow> string"
  fo_outOfRange :: "nat \<Rightarrow> u32"
  fo_isSocketLocal :: "address \<Rightarrow> bool"
  fo_bind :: "EncapType \<Rightarrow> address \<Rightarrow> string \<Rightarrow> bool"
  fo_connect :: "AddressPair \<Rightarrow> bool"
  fo_socketSend :: "AddressPair \<Rightarrow> Message \<Rightarrow> bool"

text \<open>
  The forwarder and its configuration. MAP-Me works on the FIB, the connection table and the messages of the processor; its own copies of
  these fields are not used between calls. The one recipient of missives is the connection manager.
\<close>

record ('d, 't, 'l, 'pt, 'ch, 'ct, 'i, 'p, 'o, 'h, 's, 'n, 'm) forwarder =
  processor :: "('d, 't, 'l, 'pt, 'ch, 'ct, 'i, 'p, 'o) node"
  mapme :: "('d, 't, 'l, 'i, 'p, 'o, 'h) MapMe"
  nextConnectionid :: connid
  messenger :: "unit Messenger"
  connectionManager :: ConnectionManager
  listenerSet :: ListenerSet
  maximumContentObjectStoreSize :: u64
  strategy_map :: 'm
  symbolicNames :: "('s, 'n) SymbolicNameTable"

abbreviation "fo_ct E \<equiv> op_ct (fo_node E)"
abbreviation "fo_st E \<equiv> op_st (fo_node E)"
abbreviation "fw_table fw \<equiv> nd_table (processor fw)"
abbreviation "fw_fib fw \<equiv> nd_fib (processor fw)"
abbreviation "fw_world fw \<equiv> nd_world (processor fw)"

definition fw_mm :: "('d, 't, 'l, 'pt, 'ch, 'ct, 'i, 'p, 'o, 'h, 's, 'n, 'm) fw_ops \<Rightarrow> ('d, 't, 'l, 'i, 'p, 'o, 'h) mm_ops" where
  "fw_mm E = (fo_mapme E)\<lparr>mo_st := fo_st E, mo_ct := fo_ct E\<rparr>"

definition fw_put_table :: "('d, 't, 'l, 'pt, 'ch, 'ct, 'i, 'p, 'o, 'h, 's, 'n, 'm) forwarder \<Rightarrow> ('i, 'p, 'o) ConnectionTable \<Rightarrow> ('d, 't, 'l, 'pt, 'ch, 'ct, 'i, 'p, 'o, 'h, 's, 'n, 'm) forwarder" where
  "fw_put_table fw t = fw\<lparr>processor := (processor fw)\<lparr>nd_table := t\<rparr>\<rparr>"

definition fw_put_fib :: "('d, 't, 'l, 'pt, 'ch, 'ct, 'i, 'p, 'o, 'h, 's, 'n, 'm) forwarder \<Rightarrow> ('d, 't, 'l) fib_store \<Rightarrow> ('d, 't, 'l, 'pt, 'ch, 'ct, 'i, 'p, 'o, 'h, 's, 'n, 'm) forwarder" where
  "fw_put_fib fw fs = fw\<lparr>processor := (processor fw)\<lparr>nd_fib := fs\<rparr>\<rparr>"

definition fw_put_world :: "('d, 't, 'l, 'pt, 'ch, 'ct, 'i, 'p, 'o, 'h, 's, 'n, 'm) forwarder \<Rightarrow> world \<Rightarrow> ('d, 't, 'l, 'pt, 'ch, 'ct, 'i, 'p, 'o, 'h, 's, 'n, 'm) forwarder" where
  "fw_put_world fw w = fw\<lparr>processor := (processor fw)\<lparr>nd_world := w\<rparr>\<rparr>"

definition fw_put_conn :: "('d, 't, 'l, 'pt, 'ch, 'ct, 'i, 'p, 'o, 'h, 's, 'n, 'm) forwarder \<Rightarrow> nat \<Rightarrow> Connection \<Rightarrow> ('d, 't, 'l, 'pt, 'ch, 'ct, 'i, 'p, 'o, 'h, 's, 'n, 'm) forwarder" where
  "fw_put_conn fw ref conn = fw_put_table fw ((fw_table fw)\<lparr>ct_heap := (ct_heap (fw_table fw))(ref := conn)\<rparr>)"

definition connectionManager_Create :: ConnectionManager where
  "connectionManager_Create = \<lparr>missiveQueue = missiveDeque_Create, cm_timer = False\<rparr>"

definition forwarder_Create :: "('d, 't, 'l, 'pt, 'ch, 'ct, 'i, 'p, 'o, 'h, 's, 'n, 'm) fw_ops \<Rightarrow> world \<Rightarrow> ('d, 't, 'l, 'pt, 'ch, 'ct, 'i, 'p, 'o, 'h, 's, 'n, 'm) forwarder" where
  "forwarder_Create E w =
     (let table = connectionTable_Create (fo_ct E);
          node = messageProcessor_Create (fo_node E) w table 100000
      in \<lparr>processor = node, mapme = mapme_create (fw_mm E) (nd_fib node) table w, nextConnectionid = 1,
          messenger = messenger_Register messenger_Create (), connectionManager = connectionManager_Create, listenerSet = listenerSet_Create,
          maximumContentObjectStoreSize = 100000, strategy_map = hm_Create (fo_strategies E), symbolicNames = symbolicNameTable_Create (fo_names E)\<rparr>)"

section \<open>Operations on the components\<close>

definition forwarder_GetNextConnectionId :: "('d, 't, 'l, 'pt, 'ch, 'ct, 'i, 'p, 'o, 'h, 's, 'n, 'm) forwarder \<Rightarrow> connid \<times> ('d, 't, 'l, 'pt, 'ch, 'ct, 'i, 'p, 'o, 'h, 's, 'n, 'm) forwarder" where
  "forwarder_GetNextConnectionId fw = (nextConnectionid fw, fw\<lparr>nextConnectionid := nextConnectionid fw + 1\<rparr>)"

definition fw_Send :: "('d, 't, 'l, 'pt, 'ch, 'ct, 'i, 'p, 'o, 'h, 's, 'n, 'm) forwarder \<Rightarrow> MissiveType \<Rightarrow> connid \<Rightarrow> ('d, 't, 'l, 'pt, 'ch, 'ct, 'i, 'p, 'o, 'h, 's, 'n, 'm) forwarder" where
  "fw_Send fw ty i = fw\<lparr>messenger := messenger_Send (messenger fw) (missive_Create ty i)\<rparr>"

definition forwarder_SetChacheStoreFlag :: "('d, 't, 'l, 'pt, 'ch, 'ct, 'i, 'p, 'o, 'h, 's, 'n, 'm) forwarder \<Rightarrow> bool \<Rightarrow> ('d, 't, 'l, 'pt, 'ch, 'ct, 'i, 'p, 'o, 'h, 's, 'n, 'm) forwarder" where
  "forwarder_SetChacheStoreFlag fw val = fw\<lparr>processor := messageProcessor_SetCacheStoreFlag (processor fw) val\<rparr>"

definition forwarder_GetChacheStoreFlag :: "('d, 't, 'l, 'pt, 'ch, 'ct, 'i, 'p, 'o, 'h, 's, 'n, 'm) forwarder \<Rightarrow> bool" where
  "forwarder_GetChacheStoreFlag fw = messageProcessor_GetCacheStoreFlag (processor fw)"

definition forwarder_SetChacheServeFlag :: "('d, 't, 'l, 'pt, 'ch, 'ct, 'i, 'p, 'o, 'h, 's, 'n, 'm) forwarder \<Rightarrow> bool \<Rightarrow> ('d, 't, 'l, 'pt, 'ch, 'ct, 'i, 'p, 'o, 'h, 's, 'n, 'm) forwarder" where
  "forwarder_SetChacheServeFlag fw val = fw\<lparr>processor := messageProcessor_SetCacheServeFlag (processor fw) val\<rparr>"

definition forwarder_GetChacheServeFlag :: "('d, 't, 'l, 'pt, 'ch, 'ct, 'i, 'p, 'o, 'h, 's, 'n, 'm) forwarder \<Rightarrow> bool" where
  "forwarder_GetChacheServeFlag fw = messageProcessor_GetCacheServeFlag (processor fw)"

definition forwarder_SetContentObjectStoreSize :: "('d, 't, 'l, 'pt, 'ch, 'ct, 'i, 'p, 'o, 'h, 's, 'n, 'm) fw_ops \<Rightarrow> ('d, 't, 'l, 'pt, 'ch, 'ct, 'i, 'p, 'o, 'h, 's, 'n, 'm) forwarder \<Rightarrow> u64 \<Rightarrow> ('d, 't, 'l, 'pt, 'ch, 'ct, 'i, 'p, 'o, 'h, 's, 'n, 'm) forwarder" where
  "forwarder_SetContentObjectStoreSize E fw n = fw\<lparr>processor := messageProcessor_SetContentObjectStoreSize (fo_node E) (processor fw) n\<rparr>"

text \<open>The store that is created anew has the size of the configuration.\<close>

definition forwarder_ClearCache :: "('d, 't, 'l, 'pt, 'ch, 'ct, 'i, 'p, 'o, 'h, 's, 'n, 'm) fw_ops \<Rightarrow> ('d, 't, 'l, 'pt, 'ch, 'ct, 'i, 'p, 'o, 'h, 's, 'n, 'm) forwarder \<Rightarrow> ('d, 't, 'l, 'pt, 'ch, 'ct, 'i, 'p, 'o, 'h, 's, 'n, 'm) forwarder" where
  "forwarder_ClearCache E fw = fw\<lparr>processor := messageProcessor_ClearCache (fo_node E) (maximumContentObjectStoreSize fw) (processor fw)\<rparr>"

definition forwarder_RemoveConnectionIdFromRoutes :: "('d, 't, 'l, 'pt, 'ch, 'ct, 'i, 'p, 'o, 'h, 's, 'n, 'm) fw_ops \<Rightarrow> ('d, 't, 'l, 'pt, 'ch, 'ct, 'i, 'p, 'o, 'h, 's, 'n, 'm) forwarder \<Rightarrow> connid \<Rightarrow> ('d, 't, 'l, 'pt, 'ch, 'ct, 'i, 'p, 'o, 'h, 's, 'n, 'm) forwarder" where
  "forwarder_RemoveConnectionIdFromRoutes E fw i = fw_put_fib fw (messageProcessor_RemoveConnectionIdFromRoutes (fo_st E) (fw_fib fw) i)"

definition forwarder_SetStrategy :: "('d, 't, 'l, 'pt, 'ch, 'ct, 'i, 'p, 'o, 'h, 's, 'n, 'm) fw_ops \<Rightarrow> ('d, 't, 'l, 'pt, 'ch, 'ct, 'i, 'p, 'o, 'h, 's, 'n, 'm) forwarder \<Rightarrow> Name \<Rightarrow> strategy_type \<Rightarrow> Name list \<Rightarrow> ('d, 't, 'l, 'pt, 'ch, 'ct, 'i, 'p, 'o, 'h, 's, 'n, 'm) forwarder res" where
  "forwarder_SetStrategy E fw pref strategy related_prefixes =
     bind_res (processor_SetStrategy (fo_st E) (fw_fib fw) pref strategy related_prefixes) (\<lambda>fs. Inr (fw_put_fib fw fs))"

definition forwarder_GetFibEntries :: "('d, 't, 'l, 'pt, 'ch, 'ct, 'i, 'p, 'o, 'h, 's, 'n, 'm) forwarder \<Rightarrow> nat list" where
  "forwarder_GetFibEntries fw = messageProcessor_GetFibEntries (fw_fib fw)"

text \<open>MAP-Me is entered with the state of the processor and leaves its state there.\<close>

definition mapme_enter :: "('d, 't, 'l, 'pt, 'ch, 'ct, 'i, 'p, 'o, 'h, 's, 'n, 'm) forwarder \<Rightarrow> ('d, 't, 'l, 'i, 'p, 'o, 'h) MapMe" where
  "mapme_enter fw = (mapme fw)\<lparr>mm_fib := fw_fib fw, mm_table := fw_table fw, mm_world := fw_world fw\<rparr>"

definition mapme_leave :: "('d, 't, 'l, 'pt, 'ch, 'ct, 'i, 'p, 'o, 'h, 's, 'n, 'm) forwarder \<Rightarrow> ('d, 't, 'l, 'i, 'p, 'o, 'h) MapMe \<Rightarrow> ('d, 't, 'l, 'pt, 'ch, 'ct, 'i, 'p, 'o, 'h, 's, 'n, 'm) forwarder" where
  "mapme_leave fw s = fw\<lparr>mapme := s, processor := (processor fw)\<lparr>nd_fib := mm_fib s, nd_table := mm_table s, nd_world := mm_world s\<rparr>\<rparr>"

definition forwarder_onConnectionEvent :: "('d, 't, 'l, 'pt, 'ch, 'ct, 'i, 'p, 'o, 'h, 's, 'n, 'm) fw_ops \<Rightarrow> ticks \<Rightarrow> ('d, 't, 'l, 'pt, 'ch, 'ct, 'i, 'p, 'o, 'h, 's, 'n, 'm) forwarder \<Rightarrow> Connection option \<Rightarrow> ('d, 't, 'l, 'pt, 'ch, 'ct, 'i, 'p, 'o, 'h, 's, 'n, 'm) forwarder res" where
  "forwarder_onConnectionEvent E now fw conn =
     bind_res (mapme_onConnectionEvent (fw_mm E) now (mapme_enter fw) conn) (\<lambda>s. Inr (mapme_leave fw s))"

definition forwarder_ProcessMapMe :: "('d, 't, 'l, 'pt, 'ch, 'ct, 'i, 'p, 'o, 'h, 's, 'n, 'm) fw_ops \<Rightarrow> ticks \<Rightarrow> mapme_params \<Rightarrow> ('d, 't, 'l, 'pt, 'ch, 'ct, 'i, 'p, 'o, 'h, 's, 'n, 'm) forwarder \<Rightarrow> bytes \<Rightarrow> connid \<Rightarrow> ('d, 't, 'l, 'pt, 'ch, 'ct, 'i, 'p, 'o, 'h, 's, 'n, 'm) forwarder res" where
  "forwarder_ProcessMapMe E now stack fw msgBuffer conn_id =
     bind_res (mapme_Process (fw_mm E) now stack (mapme_enter fw) msgBuffer conn_id) (\<lambda>s. Inr (mapme_leave fw s))"

text \<open>
  A message arrives: one from a connection that is gone is released; otherwise loss recovery is started, stopped or informed, depending on
  whether the message has a label, and the processor takes over.
\<close>

definition forwarder_Receive :: "('d, 't, 'l, 'pt, 'ch, 'ct, 'i, 'p, 'o, 'h, 's, 'n, 'm) fw_ops \<Rightarrow> ticks \<Rightarrow> nat \<Rightarrow> ('d, 't, 'l, 'pt, 'ch, 'ct, 'i, 'p, 'o, 'h, 's, 'n, 'm) forwarder \<Rightarrow> mref \<Rightarrow> ('d, 't, 'l, 'pt, 'ch, 'ct, 'i, 'p, 'o, 'h, 's, 'n, 'm) forwarder res" where
  "forwarder_Receive E now rnd fw r =
     bind_res (deref (fw_world fw) r) (\<lambda>message.
     case connectionTable_FindById (fo_ct E) (fw_table fw) (message_GetIngressConnectionId message) of
       None \<Rightarrow> bind_res (w_Release (fw_world fw) r) (\<lambda>w. Inr (fw_put_world fw w))
     | Some ref \<Rightarrow>
         let conn = ct_heap (fw_table fw) ref in
         bind_res (if message_HasWldr message
                   then (if connection_HasWldr conn then connection_DetectLosses conn (fw_world fw) r
                         else if connection_WldrAutoStartAllowed conn then connection_DetectLosses (connection_EnableWldr conn) (fw_world fw) r
                         else Inr (conn, fw_world fw))
                   else if connection_HasWldr conn \<and> connection_WldrAutoStartAllowed conn then connection_DisableWldr conn (fw_world fw)
                   else Inr (conn, fw_world fw)) (\<lambda>(conn, w).
         let fw = fw_put_world (fw_put_conn fw ref conn) w in
         bind_res (messageProcessor_Receive (fo_node E) now rnd (processor fw) r) (\<lambda>nd. Inr (fw\<lparr>processor := nd\<rparr>))))"

section \<open>Connections come into being\<close>

definition fresh_io :: "('d, 't, 'l, 'pt, 'ch, 'ct, 'i, 'p, 'o, 'h, 's, 'n, 'm) fw_ops \<Rightarrow> connid \<Rightarrow> AddressPair \<Rightarrow> bool \<Rightarrow> bool \<Rightarrow> list_connections_type \<Rightarrow> string option \<Rightarrow> IoOperations" where
  "fresh_io E i pair isUp isLocal ty ifname =
     \<lparr>io_connectionId = i, io_addressPair = pair, io_isUp = isUp, io_isLocal = isLocal, io_state = CONNECTION_STATE_UNDEFINED,
      io_admin_state = CONNECTION_STATE_UNDEFINED, io_priority = 0, io_send = fo_socketSend E pair, io_connectionType = ty, io_interfaceName = ifname,
      io_isClosed = False\<rparr>"

text \<open>Setting the state to up sends a missive, before the two that announce the connection.\<close>

definition udpConnection_Create :: "('d, 't, 'l, 'pt, 'ch, 'ct, 'i, 'p, 'o, 'h, 's, 'n, 'm) fw_ops \<Rightarrow> ('d, 't, 'l, 'pt, 'ch, 'ct, 'i, 'p, 'o, 'h, 's, 'n, 'm) forwarder \<Rightarrow> string \<Rightarrow> AddressPair \<Rightarrow> bool \<Rightarrow> ('d, 't, 'l, 'pt, 'ch, 'ct, 'i, 'p, 'o, 'h, 's, 'n, 'm) forwarder \<times> IoOperations option" where
  "udpConnection_Create E fw interfaceName pair isLocal =
     (if addressType (ap_remote pair) = AT_INET \<or> addressType (ap_remote pair) = AT_INET6
      then let (i, fw) = forwarder_GetNextConnectionId fw;
               fw = fw_Send fw MissiveType_ConnectionUp i;
               fw = fw_Send fw MissiveType_ConnectionCreate i;
               fw = fw_Send fw MissiveType_ConnectionUp i
           in (fw, Some (fresh_io E i pair True isLocal CONN_UDP (Some interfaceName)))
      else (fw, None))"

definition udpTunnel_CreateOnListener :: "('d, 't, 'l, 'pt, 'ch, 'ct, 'i, 'p, 'o, 'h, 's, 'n, 'm) fw_ops \<Rightarrow> ('d, 't, 'l, 'pt, 'ch, 'ct, 'i, 'p, 'o, 'h, 's, 'n, 'm) forwarder \<Rightarrow> ListenerOps \<Rightarrow> address \<Rightarrow> ('d, 't, 'l, 'pt, 'ch, 'ct, 'i, 'p, 'o, 'h, 's, 'n, 'm) forwarder \<times> IoOperations option" where
  "udpTunnel_CreateOnListener E fw localListener remoteAddress =
     (if ls_encap localListener = ENCAP_UDP
      then (let localAddress = ls_address localListener in
            if addressType localAddress = addressType remoteAddress
            then udpConnection_Create E fw (ls_interfaceName localListener) (addressPair_Create localAddress remoteAddress) (fo_isSocketLocal E localAddress)
            else (fw, None))
      else (fw, None))"

definition udpTunnel_Create :: "('d, 't, 'l, 'pt, 'ch, 'ct, 'i, 'p, 'o, 'h, 's, 'n, 'm) fw_ops \<Rightarrow> ('d, 't, 'l, 'pt, 'ch, 'ct, 'i, 'p, 'o, 'h, 's, 'n, 'm) forwarder \<Rightarrow> address \<Rightarrow> address \<Rightarrow> ('d, 't, 'l, 'pt, 'ch, 'ct, 'i, 'p, 'o, 'h, 's, 'n, 'm) forwarder \<times> IoOperations option" where
  "udpTunnel_Create E fw localAddress remoteAddress =
     (case listenerSet_Find (listenerSet fw) ENCAP_UDP localAddress of
        None \<Rightarrow> (fw, None)
      | Some listener \<Rightarrow> udpTunnel_CreateOnListener E fw listener remoteAddress)"

text \<open>The state of a new stream is down; an accepted one is set up afterwards.\<close>

definition streamConnection_OpenConnection :: "('d, 't, 'l, 'pt, 'ch, 'ct, 'i, 'p, 'o, 'h, 's, 'n, 'm) fw_ops \<Rightarrow> ('d, 't, 'l, 'pt, 'ch, 'ct, 'i, 'p, 'o, 'h, 's, 'n, 'm) forwarder \<Rightarrow> AddressPair \<Rightarrow> bool \<Rightarrow> ('d, 't, 'l, 'pt, 'ch, 'ct, 'i, 'p, 'o, 'h, 's, 'n, 'm) forwarder \<times> IoOperations option" where
  "streamConnection_OpenConnection E fw pair isLocal =
     (if fo_connect E pair
      then let (i, fw) = forwarder_GetNextConnectionId fw;
               fw = fw_Send fw MissiveType_ConnectionCreate i
           in (fw, Some (fresh_io E i pair False isLocal CONN_TCP None))
      else (fw, None))"

definition streamConnection_AcceptConnection :: "('d, 't, 'l, 'pt, 'ch, 'ct, 'i, 'p, 'o, 'h, 's, 'n, 'm) fw_ops \<Rightarrow> ('d, 't, 'l, 'pt, 'ch, 'ct, 'i, 'p, 'o, 'h, 's, 'n, 'm) forwarder \<Rightarrow> AddressPair \<Rightarrow> bool \<Rightarrow> ('d, 't, 'l, 'pt, 'ch, 'ct, 'i, 'p, 'o, 'h, 's, 'n, 'm) forwarder \<times> IoOperations" where
  "streamConnection_AcceptConnection E fw pair isLocal =
     (let (i, fw) = forwarder_GetNextConnectionId fw;
          fw = fw_Send fw MissiveType_ConnectionCreate i;
          fw = fw_Send fw MissiveType_ConnectionUp i
      in (fw, fresh_io E i pair True isLocal CONN_TCP None))"

definition tcpTunnel_Create :: "('d, 't, 'l, 'pt, 'ch, 'ct, 'i, 'p, 'o, 'h, 's, 'n, 'm) fw_ops \<Rightarrow> ('d, 't, 'l, 'pt, 'ch, 'ct, 'i, 'p, 'o, 'h, 's, 'n, 'm) forwarder \<Rightarrow> address \<Rightarrow> address \<Rightarrow> ('d, 't, 'l, 'pt, 'ch, 'ct, 'i, 'p, 'o, 'h, 's, 'n, 'm) forwarder \<times> IoOperations option" where
  "tcpTunnel_Create E fw localAddress remoteAddress =
     (if addressType localAddress = addressType remoteAddress
      then streamConnection_OpenConnection E fw (addressPair_Create localAddress remoteAddress) False
      else (fw, None))"

definition fw_AddConnection :: "('d, 't, 'l, 'pt, 'ch, 'ct, 'i, 'p, 'o, 'h, 's, 'n, 'm) fw_ops \<Rightarrow> ('d, 't, 'l, 'pt, 'ch, 'ct, 'i, 'p, 'o, 'h, 's, 'n, 'm) forwarder \<Rightarrow> Connection \<Rightarrow> ('d, 't, 'l, 'pt, 'ch, 'ct, 'i, 'p, 'o, 'h, 's, 'n, 'm) forwarder res" where
  "fw_AddConnection E fw conn = bind_res (connectionTable_Add (fo_ct E) (fw_table fw) conn) (\<lambda>t. Inr (fw_put_table fw t))"

definition lookupConnection :: "('d, 't, 'l, 'pt, 'ch, 'ct, 'i, 'p, 'o, 'h, 's, 'n, 'm) fw_ops \<Rightarrow> ('d, 't, 'l, 'pt, 'ch, 'ct, 'i, 'p, 'o, 'h, 's, 'n, 'm) forwarder \<Rightarrow> AddressPair \<Rightarrow> nat option" where
  "lookupConnection E fw pair = connectionTable_FindByAddressPair (fo_ct E) (fw_table fw) pair"

text \<open>A connection is made for a peer of a UDP listener; a peer address of another family gives no operations, which are dereferenced.\<close>

definition createNewConnection :: "('d, 't, 'l, 'pt, 'ch, 'ct, 'i, 'p, 'o, 'h, 's, 'n, 'm) fw_ops \<Rightarrow> ('d, 't, 'l, 'pt, 'ch, 'ct, 'i, 'p, 'o, 'h, 's, 'n, 'm) forwarder \<Rightarrow> ListenerOps \<Rightarrow> AddressPair \<Rightarrow> (('d, 't, 'l, 'pt, 'ch, 'ct, 'i, 'p, 'o, 'h, 's, 'n, 'm) forwarder \<times> connid) res" where
  "createNewConnection E fw listener pair =
     (case udpConnection_Create E fw (ls_interfaceName listener) pair (fo_isSocketLocal E (ap_local pair)) of
        (fw, None) \<Rightarrow> Inl NullDereference
      | (fw, Some io) \<Rightarrow> bind_res (fw_AddConnection E fw (connection_Create io)) (\<lambda>fw. Inr (fw, io_connectionId io)))"

definition tcpListener_Listen :: "('d, 't, 'l, 'pt, 'ch, 'ct, 'i, 'p, 'o, 'h, 's, 'n, 'm) fw_ops \<Rightarrow> ('d, 't, 'l, 'pt, 'ch, 'ct, 'i, 'p, 'o, 'h, 's, 'n, 'm) forwarder \<Rightarrow> ListenerOps \<Rightarrow> address \<Rightarrow> ('d, 't, 'l, 'pt, 'ch, 'ct, 'i, 'p, 'o, 'h, 's, 'n, 'm) forwarder res" where
  "tcpListener_Listen E fw tcp remote =
     (let (fw, io) = streamConnection_AcceptConnection E fw (addressPair_Create (ls_address tcp) remote) (fo_isSocketLocal E (ls_address tcp))
      in fw_AddConnection E fw (connection_Create io))"

section \<open>Listeners come into being\<close>

text \<open>A UDP listener takes its identifier before its socket is bound, a TCP listener after.\<close>

definition udpListener_Create :: "('d, 't, 'l, 'pt, 'ch, 'ct, 'i, 'p, 'o, 'h, 's, 'n, 'm) fw_ops \<Rightarrow> ('d, 't, 'l, 'pt, 'ch, 'ct, 'i, 'p, 'o, 'h, 's, 'n, 'm) forwarder \<Rightarrow> string \<Rightarrow> address \<Rightarrow> string \<Rightarrow> ('d, 't, 'l, 'pt, 'ch, 'ct, 'i, 'p, 'o, 'h, 's, 'n, 'm) forwarder \<times> ListenerOps option" where
  "udpListener_Create E fw listenerName addr interfaceName =
     (let (i, fw) = forwarder_GetNextConnectionId fw
      in (fw, if fo_bind E ENCAP_UDP addr interfaceName
              then Some \<lparr>ls_id = i, ls_address = addr, ls_encap = ENCAP_UDP, ls_name = listenerName, ls_interfaceName = interfaceName\<rparr> else None))"

definition tcpListener_Create :: "('d, 't, 'l, 'pt, 'ch, 'ct, 'i, 'p, 'o, 'h, 's, 'n, 'm) fw_ops \<Rightarrow> ('d, 't, 'l, 'pt, 'ch, 'ct, 'i, 'p, 'o, 'h, 's, 'n, 'm) forwarder \<Rightarrow> string \<Rightarrow> address \<Rightarrow> string \<Rightarrow> ('d, 't, 'l, 'pt, 'ch, 'ct, 'i, 'p, 'o, 'h, 's, 'n, 'm) forwarder \<times> ListenerOps option" where
  "tcpListener_Create E fw listenerName addr interfaceName =
     (if fo_bind E ENCAP_TCP addr interfaceName
      then let (i, fw) = forwarder_GetNextConnectionId fw
           in (fw, Some \<lparr>ls_id = i, ls_address = addr, ls_encap = ENCAP_TCP, ls_name = listenerName, ls_interfaceName = interfaceName\<rparr>)
      else (fw, None))"

definition fw_AddListener :: "('d, 't, 'l, 'pt, 'ch, 'ct, 'i, 'p, 'o, 'h, 's, 'n, 'm) forwarder \<times> ListenerOps option \<Rightarrow> ('d, 't, 'l, 'pt, 'ch, 'ct, 'i, 'p, 'o, 'h, 's, 'n, 'm) forwarder \<times> bool" where
  "fw_AddListener p =
     (case p of (fw, None) \<Rightarrow> (fw, False)
      | (fw, Some l) \<Rightarrow> let (ls, success) = listenerSet_Add (listenerSet fw) l in (fw\<lparr>listenerSet := ls\<rparr>, success))"

section \<open>Connections go away\<close>

text \<open>The operations of the last reference are destroyed: a stream that was not closed announces that it closes.\<close>

definition ioOperations_Destroy :: "('d, 't, 'l, 'pt, 'ch, 'ct, 'i, 'p, 'o, 'h, 's, 'n, 'm) forwarder \<Rightarrow> IoOperations \<Rightarrow> ('d, 't, 'l, 'pt, 'ch, 'ct, 'i, 'p, 'o, 'h, 's, 'n, 'm) forwarder" where
  "ioOperations_Destroy fw io =
     (let i = io_connectionId io;
          fw = (if io_connectionType io = CONN_TCP \<and> \<not> io_isClosed io then fw_Send fw MissiveType_ConnectionClosed i else fw)
      in fw_Send fw MissiveType_ConnectionDestroyed i)"

definition fw_Remove :: "('d, 't, 'l, 'pt, 'ch, 'ct, 'i, 'p, 'o, 'h, 's, 'n, 'm) fw_ops \<Rightarrow> ('d, 't, 'l, 'pt, 'ch, 'ct, 'i, 'p, 'o, 'h, 's, 'n, 'm) forwarder \<Rightarrow> nat \<Rightarrow> ('d, 't, 'l, 'pt, 'ch, 'ct, 'i, 'p, 'o, 'h, 's, 'n, 'm) forwarder res" where
  "fw_Remove E fw ref =
     (let conn = ct_heap (fw_table fw) ref in
      bind_res (connectionTable_Remove (fo_ct E) (fw_table fw) (fw_world fw) ref) (\<lambda>(t, w).
      let fw = fw_put_world (fw_put_table fw t) w in
      Inr (if conn_refCount conn = 1 then ioOperations_Destroy fw (ops conn) else fw)))"

definition fw_RemoveById :: "('d, 't, 'l, 'pt, 'ch, 'ct, 'i, 'p, 'o, 'h, 's, 'n, 'm) fw_ops \<Rightarrow> ('d, 't, 'l, 'pt, 'ch, 'ct, 'i, 'p, 'o, 'h, 's, 'n, 'm) forwarder \<Rightarrow> connid \<Rightarrow> ('d, 't, 'l, 'pt, 'ch, 'ct, 'i, 'p, 'o, 'h, 's, 'n, 'm) forwarder res" where
  "fw_RemoveById E fw i =
     (case connectionTable_FindById (fo_ct E) (fw_table fw) i of None \<Rightarrow> Inr fw | Some ref \<Rightarrow> fw_Remove E fw ref)"

definition connectionManager_ProcessClosedMissive :: "('d, 't, 'l, 'pt, 'ch, 'ct, 'i, 'p, 'o, 'h, 's, 'n, 'm) fw_ops \<Rightarrow> ('d, 't, 'l, 'pt, 'ch, 'ct, 'i, 'p, 'o, 'h, 's, 'n, 'm) forwarder \<Rightarrow> Missive \<Rightarrow> ('d, 't, 'l, 'pt, 'ch, 'ct, 'i, 'p, 'o, 'h, 's, 'n, 'm) forwarder res" where
  "connectionManager_ProcessClosedMissive E fw missive =
     (let i = missive_GetConnectionId missive in
      case connectionTable_FindById (fo_ct E) (fw_table fw) i of
        None \<Rightarrow> Inr fw
      | Some conn \<Rightarrow> bind_res (fw_Remove E fw conn) (\<lambda>fw. Inr (forwarder_RemoveConnectionIdFromRoutes E fw i)))"

definition connectionManager_Process :: "('d, 't, 'l, 'pt, 'ch, 'ct, 'i, 'p, 'o, 'h, 's, 'n, 'm) fw_ops \<Rightarrow> ('d, 't, 'l, 'pt, 'ch, 'ct, 'i, 'p, 'o, 'h, 's, 'n, 'm) forwarder \<Rightarrow> Missive \<Rightarrow> ('d, 't, 'l, 'pt, 'ch, 'ct, 'i, 'p, 'o, 'h, 's, 'n, 'm) forwarder res" where
  "connectionManager_Process E fw missive =
     (case missive_GetType missive of
        MissiveType_ConnectionCreate \<Rightarrow> Inr fw
      | MissiveType_ConnectionUp \<Rightarrow> Inr fw
      | MissiveType_ConnectionDown \<Rightarrow> Inr fw
      | MissiveType_ConnectionClosed \<Rightarrow> connectionManager_ProcessClosedMissive E fw missive
      | MissiveType_ConnectionDestroyed \<Rightarrow> Inr fw)"

text \<open>The timers of the messenger and of the manager fire.\<close>

definition forwarder_Deliver :: "('d, 't, 'l, 'pt, 'ch, 'ct, 'i, 'p, 'o, 'h, 's, 'n, 'm) forwarder \<Rightarrow> ('d, 't, 'l, 'pt, 'ch, 'ct, 'i, 'p, 'o, 'h, 's, 'n, 'm) forwarder" where
  "forwarder_Deliver fw =
     (let (ms, cm) = messenger_Dequeue (\<lambda>cm r m. connectionManager_MessengerCallback cm m) (messenger fw) (connectionManager fw)
      in fw\<lparr>messenger := ms, connectionManager := cm\<rparr>)"

definition connectionManager_ProcessQueue :: "('d, 't, 'l, 'pt, 'ch, 'ct, 'i, 'p, 'o, 'h, 's, 'n, 'm) fw_ops \<Rightarrow> ('d, 't, 'l, 'pt, 'ch, 'ct, 'i, 'p, 'o, 'h, 's, 'n, 'm) forwarder \<Rightarrow> ('d, 't, 'l, 'pt, 'ch, 'ct, 'i, 'p, 'o, 'h, 's, 'n, 'm) forwarder res" where
  "connectionManager_ProcessQueue E fw =
     bind_res (process_queue (connectionManager_Process E) (connectionManager fw) fw) (\<lambda>(cm, fw). Inr (fw\<lparr>connectionManager := cm\<rparr>))"

text \<open>The peer of a stream closed it, or it failed: the stream goes down and announces that it closes, once.\<close>

definition conn_closed :: "('d, 't, 'l, 'pt, 'ch, 'ct, 'i, 'p, 'o, 'h, 's, 'n, 'm) forwarder \<Rightarrow> nat \<Rightarrow> ('d, 't, 'l, 'pt, 'ch, 'ct, 'i, 'p, 'o, 'h, 's, 'n, 'm) forwarder" where
  "conn_closed fw ref =
     (let conn = ct_heap (fw_table fw) ref; i = io_connectionId (ops conn);
          fw' = fw_put_conn fw ref (conn\<lparr>ops := (ops conn)\<lparr>io_isUp := False, io_isClosed := True\<rparr>\<rparr>);
          fw' = (if io_isUp (ops conn) then fw_Send fw' MissiveType_ConnectionDown i else fw')
      in if io_isClosed (ops conn) then fw' else fw_Send fw' MissiveType_ConnectionClosed i)"

text \<open>A stream is connected.\<close>

definition conn_connected :: "('d, 't, 'l, 'pt, 'ch, 'ct, 'i, 'p, 'o, 'h, 's, 'n, 'm) forwarder \<Rightarrow> nat \<Rightarrow> ('d, 't, 'l, 'pt, 'ch, 'ct, 'i, 'p, 'o, 'h, 's, 'n, 'm) forwarder" where
  "conn_connected fw ref =
     (let conn = ct_heap (fw_table fw) ref; i = io_connectionId (ops conn) in
      if io_isClosed (ops conn) then fw
      else let fw' = fw_put_conn fw ref (conn\<lparr>ops := (ops conn)\<lparr>io_isUp := True\<rparr>\<rparr>)
           in if io_isUp (ops conn) then fw' else fw_Send fw' MissiveType_ConnectionUp i)"

end
