(* ===== verification/Configuration.thy ===== *)
theory Configuration
  imports Forwarder
begin

text \<open>
  The control commands of the forwarder: their contents (\<^verbatim>\<open>hicn-light/src/hicn/utils/commands.h\<close>), the handler of each
  (\<^verbatim>\<open>config/configuration.c\<close>, \<^verbatim>\<open>config/configurationListeners.c\<close>), their dispatch and the reception of a command by a UDP listener (\<^verbatim>\<open>io/udpListener.c\<close>).

  A request is its header and its command; the names in a command are terminated strings. A handler gives the new state of the forwarder and the response, whose payload is
  the command itself or a list. An address of a command with its type is an \<^typ>\<open>Address\<close>, where it names a prefix, or the sixteen bytes of \<^verbatim>\<open>ip_address_t\<close> with the
  type as a number. The number of bytes of a payload is not modelled.
\<close>

section \<open>Commands and responses\<close>

record header_control_message =
  messageType :: u8
  commandID :: u8
  hc_length :: u16
  seqNum :: u32

definition REQUEST_LIGHT :: u8 where "REQUEST_LIGHT = 0xc0"
definition RESPONSE_LIGHT :: u8 where "RESPONSE_LIGHT = 0xc1"
definition ACK_LIGHT :: u8 where "ACK_LIGHT = 0xc2"
definition NACK_LIGHT :: u8 where "NACK_LIGHT = 0xc3"

definition SYMBOLIC_NAME_LEN :: nat where "SYMBOLIC_NAME_LEN = 16"
definition MAX_FWD_STRATEGY_RELATED_PREFIXES :: nat where "MAX_FWD_STRATEGY_RELATED_PREFIXES = 10"

definition ADDR_INET_NUMBER :: u8 where "ADDR_INET_NUMBER = 1"
definition ADDR_INET6_NUMBER :: u8 where "ADDR_INET6_NUMBER = 2"

definition UDP_CONN :: u8 where "UDP_CONN = 0"
definition TCP_CONN :: u8 where "TCP_CONN = 1"

definition ACTIVATE_ON :: u8 where "ACTIVATE_ON = 0"
definition ACTIVATE_OFF :: u8 where "ACTIVATE_OFF = 1"

definition ETHER_MODE :: u8 where "ETHER_MODE = 0"
definition IP_MODE :: u8 where "IP_MODE = 1"
definition HICN_MODE :: u8 where "HICN_MODE = 2"

record add_listener_command =
  al_symbolic :: string
  al_interfaceName :: string
  al_address :: "u8 list"
  al_port :: "u8 list"
  al_addressType :: u8
  al_listenerMode :: u8
  al_connectionType :: u8

record add_connection_command =
  ac_symbolic :: string
  ac_remoteIp :: "u8 list"
  ac_localIp :: "u8 list"
  ac_remotePort :: "u8 list"
  ac_localPort :: "u8 list"
  ac_ipType :: u8
  ac_connectionType :: u8
  ac_admin_state :: u8
  ac_priority :: u32
  ac_tags :: policy_tags

record set_strategy_command =
  ss_address :: Address
  ss_strategyType :: u8
  ss_len :: u8
  ss_related_prefixes :: u8
  ss_addresses :: "(Address \<times> u8) list"

record update_connection_command =
  uc_symbolicOrConnid :: string
  uc_admin_state :: u8
  uc_priority :: u32
  uc_tags :: policy_tags

datatype 'd command =
    ADD_LISTENER add_listener_command
  | ADD_CONNECTION add_connection_command
  | LIST_CONNECTIONS
  | ADD_ROUTE string Address u8
  | LIST_ROUTES
  | REMOVE_CONNECTION string
  | REMOVE_LISTENER string
  | REMOVE_ROUTE string Address u8
  | CACHE_STORE u8
  | CACHE_SERVE u8
  | CACHE_CLEAR
  | SET_STRATEGY set_strategy_command
  | SET_WLDR string u8
  | ADD_PUNTING string Address u8
  | LIST_LISTENERS
  | MAPME_ENABLE u8
  | MAPME_DISCOVERY u8
  | MAPME_TIMESCALE u32
  | MAPME_RETX u32
  | MAPME_SEND_UPDATE Address u8
  | CONNECTION_SET_ADMIN_STATE string u8
  | ADD_POLICY Address u8 "'d hicn_policy"
  | LIST_POLICIES
  | REMOVE_POLICY Address u8
  | UPDATE_CONNECTION update_connection_command
  | CONNECTION_SET_PRIORITY string u32
  | CONNECTION_SET_TAGS string policy_tags

record list_routes_command =
  lr_address :: Address
  lr_connid :: connid
  lr_cost :: u16
  lr_len :: u8

text \<open>Ports and addresses of a listed connection are those of its address pair; they are filled in when both addresses are of the same IP version.\<close>

record list_connections_command =
  lc_connid :: connid
  lc_connectionName :: string
  lc_interfaceName :: string
  lc_state :: u8
  lc_connectionType :: list_connections_type
  lc_admin_state :: connection_state
  lc_priority :: u32
  lc_tags :: policy_tags
  lc_addresses :: "AddressPair option"

text \<open>The address of a listed listener is filled in when it is an IP address.\<close>

record list_listeners_command =
  ll_connid :: connid
  ll_encapType :: EncapType
  ll_address :: "address option"
  ll_listenerName :: string
  ll_interfaceName :: string

record 'd list_policies_command =
  lp_address :: Address
  lp_len :: u8
  lp_policy :: "'d hicn_policy"

datatype 'd payload = Nothing | Command "'d command" | RouteList "list_routes_command list"
  | ConnectionList "list_connections_command list" | ListenerList "list_listeners_command list" | PolicyList "'d list_policies_command list"

type_synonym 'd response = "header_control_message \<times> 'd payload"

definition utils_CreateAck :: "header_control_message \<Rightarrow> 'd payload \<Rightarrow> 'd response" where
  "utils_CreateAck header p = (header\<lparr>messageType := ACK_LIGHT\<rparr>, p)"

definition utils_CreateNack :: "header_control_message \<Rightarrow> 'd payload \<Rightarrow> 'd response" where
  "utils_CreateNack header p = (header\<lparr>messageType := NACK_LIGHT\<rparr>, p)"

definition ack_or_nack :: "bool \<Rightarrow> header_control_message \<Rightarrow> 'd command \<Rightarrow> 'd response" where
  "ack_or_nack success header control = (if success then utils_CreateAck header (Command control) else utils_CreateNack header (Command control))"

definition list_response :: "header_control_message \<Rightarrow> nat \<Rightarrow> 'd payload \<Rightarrow> 'd response" where
  "list_response header n p = (header\<lparr>messageType := RESPONSE_LIGHT, hc_length := of_nat n\<rparr>, p)"

section \<open>Names, identifiers and strategies\<close>

definition connid_of_string :: "('d, 't, 'l, 'pt, 'ch, 'ct, 'i, 'p, 'o, 'h, 's, 'n, 'm) fw_ops \<Rightarrow> string \<Rightarrow> connid" where
  "connid_of_string E s = string_to_unsigned (fo_outOfRange E) s"

abbreviation "fw_name_Get E fw s \<equiv> symbolicNameTable_Get (fo_names E) (symbolicNames fw) s"
abbreviation "fw_find E fw i \<equiv> connectionTable_FindById (fo_ct E) (fw_table fw) i"

definition getConnectionBySymbolicOrId :: "('d, 't, 'l, 'pt, 'ch, 'ct, 'i, 'p, 'o, 'h, 's, 'n, 'm) fw_ops \<Rightarrow> ('d, 't, 'l, 'pt, 'ch, 'ct, 'i, 'p, 'o, 'h, 's, 'n, 'm) forwarder \<Rightarrow> string \<Rightarrow> nat option" where
  "getConnectionBySymbolicOrId E fw symbolicOrConnid =
     (let connid = (if utils_IsNumber symbolicOrConnid then connid_of_string E symbolicOrConnid else fw_name_Get E fw symbolicOrConnid)
      in fw_find E fw connid)"

definition fw_RemoveName :: "('d, 't, 'l, 'pt, 'ch, 'ct, 'i, 'p, 'o, 'h, 's, 'n, 'm) fw_ops \<Rightarrow> ('d, 't, 'l, 'pt, 'ch, 'ct, 'i, 'p, 'o, 'h, 's, 'n, 'm) forwarder \<Rightarrow> string \<Rightarrow> ('d, 't, 'l, 'pt, 'ch, 'ct, 'i, 'p, 'o, 'h, 's, 'n, 'm) forwarder" where
  "fw_RemoveName E fw name = fw\<lparr>symbolicNames := symbolicNameTable_Remove (fo_names E) (symbolicNames fw) name\<rparr>"

definition fw_NameOf :: "('d, 't, 'l, 'pt, 'ch, 'ct, 'i, 'p, 'o, 'h, 's, 'n, 'm) fw_ops \<Rightarrow> ('d, 't, 'l, 'pt, 'ch, 'ct, 'i, 'p, 'o, 'h, 's, 'n, 'm) forwarder \<Rightarrow> connid \<Rightarrow> string" where
  "fw_NameOf E fw i = symbolicNameTable_GetNameByIndex (fo_names E) (symbolicNames fw) i"

definition utils_PrefixLenToString :: "('d, 't, 'l, 'pt, 'ch, 'ct, 'i, 'p, 'o, 'h, 's, 'n, 'm) fw_ops \<Rightarrow> Address \<Rightarrow> u8 \<Rightarrow> string" where
  "utils_PrefixLenToString E address len = fo_addressString E address @ ''/'' @ byte_to_string len"

text \<open>Strategies are numbers in commands and in the map of the configuration.\<close>

definition LAST_STRATEGY_NUMBER :: u32 where "LAST_STRATEGY_NUMBER = 3"

definition strategy_of_number :: "u32 \<Rightarrow> strategy_type" where
  "strategy_of_number n = (if n = 0 then SET_STRATEGY_LOADBALANCER else if n = 1 then SET_STRATEGY_RANDOM
     else if n = 2 then SET_STRATEGY_LOW_LATENCY else LAST_STRATEGY_VALUE)"

definition configuration_GetForwardingStrategy :: "('d, 't, 'l, 'pt, 'ch, 'ct, 'i, 'p, 'o, 'h, 's, 'n, 'm) fw_ops \<Rightarrow> ('d, 't, 'l, 'pt, 'ch, 'ct, 'i, 'p, 'o, 'h, 's, 'n, 'm) forwarder \<Rightarrow> string \<Rightarrow> u32" where
  "configuration_GetForwardingStrategy E fw prefixStr =
     (case hm_Get (fo_strategies E) (strategy_map fw) prefixStr of None \<Rightarrow> LAST_STRATEGY_NUMBER | Some val \<Rightarrow> val)"

definition configuration_StoreFwdStrategy :: "('d, 't, 'l, 'pt, 'ch, 'ct, 'i, 'p, 'o, 'h, 's, 'n, 'm) fw_ops \<Rightarrow> ('d, 't, 'l, 'pt, 'ch, 'ct, 'i, 'p, 'o, 'h, 's, 'n, 'm) forwarder \<Rightarrow> string \<Rightarrow> u32 \<Rightarrow> ('d, 't, 'l, 'pt, 'ch, 'ct, 'i, 'p, 'o, 'h, 's, 'n, 'm) forwarder" where
  "configuration_StoreFwdStrategy E fw prefixStr strategy = fw\<lparr>strategy_map := hm_Put (fo_strategies E) (strategy_map fw) prefixStr strategy\<rparr>"

abbreviation "fo_hash E \<equiv> mo_hash (fo_mapme E)"

section \<open>Routes\<close>

definition forwarder_AddOrUpdateRoute :: "('d, 't, 'l, 'pt, 'ch, 'ct, 'i, 'p, 'o, 'h, 's, 'n, 'm) fw_ops \<Rightarrow> ('d, 't, 'l, 'pt, 'ch, 'ct, 'i, 'p, 'o, 'h, 's, 'n, 'm) forwarder \<Rightarrow> Address \<Rightarrow> u8 \<Rightarrow> connid \<Rightarrow> ('d, 't, 'l, 'pt, 'ch, 'ct, 'i, 'p, 'o, 'h, 's, 'n, 'm) forwarder res" where
  "forwarder_AddOrUpdateRoute E fw address len ifidx =
     (let strategy = configuration_GetForwardingStrategy E fw (utils_PrefixLenToString E address len) in
      bind_res (messageProcessor_AddOrUpdateRoute (fo_hash E) (fo_st E) (strategy_of_number strategy) (fw_fib fw) address len ifidx) (\<lambda>fs.
      Inr (fw_put_fib fw fs)))"

definition forwarder_RemoveRoute :: "('d, 't, 'l, 'pt, 'ch, 'ct, 'i, 'p, 'o, 'h, 's, 'n, 'm) fw_ops \<Rightarrow> ('d, 't, 'l, 'pt, 'ch, 'ct, 'i, 'p, 'o, 'h, 's, 'n, 'm) forwarder \<Rightarrow> Address \<Rightarrow> u8 \<Rightarrow> connid \<Rightarrow> ('d, 't, 'l, 'pt, 'ch, 'ct, 'i, 'p, 'o, 'h, 's, 'n, 'm) forwarder res" where
  "forwarder_RemoveRoute E fw address len ifidx =
     bind_res (messageProcessor_RemoveRoute (fo_hash E) (fo_st E) (fw_fib fw) address len ifidx) (\<lambda>fs. Inr (fw_put_fib fw fs))"

definition configuration_ProcessRegisterHicnPrefix :: "('d, 't, 'l, 'pt, 'ch, 'ct, 'i, 'p, 'o, 'h, 's, 'n, 'm) fw_ops \<Rightarrow> ('d, 't, 'l, 'pt, 'ch, 'ct, 'i, 'p, 'o, 'h, 's, 'n, 'm) forwarder \<Rightarrow> string \<Rightarrow> Address \<Rightarrow> u8 \<Rightarrow> connid \<Rightarrow> (('d, 't, 'l, 'pt, 'ch, 'ct, 'i, 'p, 'o, 'h, 's, 'n, 'm) forwarder \<times> bool) res" where
  "configuration_ProcessRegisterHicnPrefix E fw symbolicOrConnid address len ingressId =
     (if symbolicOrConnid = ''SELF''
      then bind_res (forwarder_AddOrUpdateRoute E fw address len ingressId) (\<lambda>fw. Inr (fw, True))
      else if utils_IsNumber symbolicOrConnid
      then (let connid = connid_of_string E symbolicOrConnid in
            if fw_find E fw connid \<noteq> None
            then bind_res (forwarder_AddOrUpdateRoute E fw address len connid) (\<lambda>fw. Inr (fw, True))
            else Inr (fw, False))
      else (let connid = fw_name_Get E fw symbolicOrConnid in
            if connid \<noteq> UINT32_MAX
            then bind_res (forwarder_AddOrUpdateRoute E fw address len connid) (\<lambda>fw. Inr (fw, True))
            else Inr (fw, False)))"

definition configuration_ProcessUnregisterHicnPrefix :: "('d, 't, 'l, 'pt, 'ch, 'ct, 'i, 'p, 'o, 'h, 's, 'n, 'm) fw_ops \<Rightarrow> ('d, 't, 'l, 'pt, 'ch, 'ct, 'i, 'p, 'o, 'h, 's, 'n, 'm) forwarder \<Rightarrow> string \<Rightarrow> Address \<Rightarrow> u8 \<Rightarrow> (('d, 't, 'l, 'pt, 'ch, 'ct, 'i, 'p, 'o, 'h, 's, 'n, 'm) forwarder \<times> bool) res" where
  "configuration_ProcessUnregisterHicnPrefix E fw symbolicOrConnid address len =
     (if utils_IsNumber symbolicOrConnid
      then (let connid = connid_of_string E symbolicOrConnid in
            if fw_find E fw connid \<noteq> None
            then bind_res (forwarder_RemoveRoute E fw address len connid) (\<lambda>fw. Inr (fw, True))
            else Inr (fw, False))
      else (let connid = fw_name_Get E fw symbolicOrConnid in
            if connid \<noteq> UINT32_MAX
            then bind_res (forwarder_RemoveRoute E fw address len connid) (\<lambda>fw. Inr (fw, True))
            else Inr (fw, False)))"

definition list_route :: "NameBitvector \<Rightarrow> connid \<Rightarrow> list_routes_command" where
  "list_route bv c = \<lparr>lr_address = nameBitvector_ToAddress bv, lr_connid = c, lr_cost = 1, lr_len = nb_len bv\<rparr>"

text \<open>
  The payload is first as long as the list of entries and is reallocated for every entry with more than one next hop. \<open>size\<close> is the number of
  elements allocated; writing past them is a memory fault. The payload is the list of elements written so far.
\<close>

definition list_entry :: "('d, 't, 'l, 'pt, 'ch, 'ct, 'i, 'p, 'o, 'h, 's, 'n, 'm) forwarder \<Rightarrow> nat \<times> list_routes_command list \<Rightarrow> nat \<Rightarrow> (nat \<times> list_routes_command list) res" where
  "list_entry fw acc e =
     (let (payloadSize, written) = acc; entry = fs_heap (fw_fib fw) e; hops = fibEntry_GetNexthops entry in
      bind_res (name_GetContentName (fibEntry_GetPrefix entry)) (\<lambda>bv.
      if numberSet_Length hops = 0 then Inr (payloadSize, written)
      else let payloadSize = (if numberSet_Length hops > 1 then payloadSize + numberSet_Length hops - 1 else payloadSize) in
           bind_res (ns_for hops (\<lambda>written c. if length written < payloadSize then Inr (written @ [list_route bv c]) else Inl MemoryFault) written) (\<lambda>written.
           Inr (payloadSize, written))))"

definition configuration_ProcessRegistrationList :: "('d, 't, 'l, 'pt, 'ch, 'ct, 'i, 'p, 'o, 'h, 's, 'n, 'm) forwarder \<Rightarrow> header_control_message \<Rightarrow> 'd response res" where
  "configuration_ProcessRegistrationList fw header =
     (let fibList = forwarder_GetFibEntries fw in
      bind_res (fold_res (list_entry fw) (length fibList, []) fibList) (\<lambda>(_, written).
      Inr (list_response header (length written) (RouteList written))))"

section \<open>Connections\<close>

fun state_of_number :: "nat \<Rightarrow> connection_state" where
  "state_of_number n = (if n = 1 then CONNECTION_STATE_DOWN else if n = 2 then CONNECTION_STATE_UP else CONNECTION_STATE_UNDEFINED)"

definition update_conn :: "add_connection_command \<Rightarrow> Connection \<Rightarrow> Connection" where
  "update_conn control conn =
     connection_SetAdminState (connection_SetPriority (connection_SetTags conn (ac_tags control)) (ac_priority control)) (state_of_number (unat (ac_admin_state control)))"

definition tunnel_addresses :: "add_connection_command \<Rightarrow> (address \<times> address) option" where
  "tunnel_addresses control =
     (if ac_ipType control = ADDR_INET_NUMBER
      then Some (addressFromInaddr4Port (ip_v4 (ac_localIp control)) (ac_localPort control), addressFromInaddr4Port (ip_v4 (ac_remoteIp control)) (ac_remotePort control))
      else if ac_ipType control = ADDR_INET6_NUMBER
      then Some (addressFromInaddr6Port (ip_v6 (ac_localIp control)) (ac_localPort control), addressFromInaddr6Port (ip_v6 (ac_remoteIp control)) (ac_remotePort control))
      else None)"

definition create_tunnel_io :: "('d, 't, 'l, 'pt, 'ch, 'ct, 'i, 'p, 'o, 'h, 's, 'n, 'm) fw_ops \<Rightarrow> ('d, 't, 'l, 'pt, 'ch, 'ct, 'i, 'p, 'o, 'h, 's, 'n, 'm) forwarder \<Rightarrow> u8 \<Rightarrow> address \<Rightarrow> address \<Rightarrow> ('d, 't, 'l, 'pt, 'ch, 'ct, 'i, 'p, 'o, 'h, 's, 'n, 'm) forwarder \<times> IoOperations option" where
  "create_tunnel_io E fw connectionType source destination =
     (if connectionType = TCP_CONN then tcpTunnel_Create E fw source destination
      else if connectionType = UDP_CONN then udpTunnel_Create E fw source destination
      else (fw, None))"

definition configuration_ProcessCreateTunnel :: "('d, 't, 'l, 'pt, 'ch, 'ct, 'i, 'p, 'o, 'h, 's, 'n, 'm) fw_ops \<Rightarrow> ticks \<Rightarrow> ('d, 't, 'l, 'pt, 'ch, 'ct, 'i, 'p, 'o, 'h, 's, 'n, 'm) forwarder \<Rightarrow> add_connection_command \<Rightarrow> (('d, 't, 'l, 'pt, 'ch, 'ct, 'i, 'p, 'o, 'h, 's, 'n, 'm) forwarder \<times> bool) res" where
  "configuration_ProcessCreateTunnel E now fw control =
     (if symbolicNameTable_Exists (fo_names E) (symbolicNames fw) (ac_symbolic control) then Inr (fw, False)
      else case tunnel_addresses control of
        None \<Rightarrow> Inl AssertFailed
      | Some (source, destination) \<Rightarrow>
          (case lookupConnection E fw (addressPair_Create source destination) of
             None \<Rightarrow>
               (case create_tunnel_io E fw (ac_connectionType control) source destination of
                  (fw, None) \<Rightarrow> Inr (fw, False)
                | (fw, Some io) \<Rightarrow>
                    (let conn = update_conn control (connection_Create io) in
                     bind_res (fw_AddConnection E fw conn) (\<lambda>fw.
                     bind_res (symbolicNameTable_Add (fo_names E) (symbolicNames fw) (ac_symbolic control) (connection_GetConnectionId conn)) (\<lambda>(names, _).
                     bind_res (forwarder_onConnectionEvent E now (fw\<lparr>symbolicNames := names\<rparr>) (Some conn)) (\<lambda>fw.
                     Inr (fw, True))))))
           | Some ref \<Rightarrow>
               (let conn = update_conn control (ct_heap (fw_table fw) ref) in
                bind_res (forwarder_onConnectionEvent E now (fw_put_conn fw ref conn) (Some conn)) (\<lambda>fw.
                Inr (fw, True)))))"

definition remove_connection :: "('d, 't, 'l, 'pt, 'ch, 'ct, 'i, 'p, 'o, 'h, 's, 'n, 'm) fw_ops \<Rightarrow> ('d, 't, 'l, 'pt, 'ch, 'ct, 'i, 'p, 'o, 'h, 's, 'n, 'm) forwarder \<Rightarrow> connid \<Rightarrow> ('d, 't, 'l, 'pt, 'ch, 'ct, 'i, 'p, 'o, 'h, 's, 'n, 'm) forwarder res" where
  "remove_connection E fw connid = fw_RemoveById E (forwarder_RemoveConnectionIdFromRoutes E fw connid) connid"

definition configuration_ProcessRemoveTunnel :: "('d, 't, 'l, 'pt, 'ch, 'ct, 'i, 'p, 'o, 'h, 's, 'n, 'm) fw_ops \<Rightarrow> ticks \<Rightarrow> ('d, 't, 'l, 'pt, 'ch, 'ct, 'i, 'p, 'o, 'h, 's, 'n, 'm) forwarder \<Rightarrow> string \<Rightarrow> connid \<Rightarrow> (('d, 't, 'l, 'pt, 'ch, 'ct, 'i, 'p, 'o, 'h, 's, 'n, 'm) forwarder \<times> bool) res" where
  "configuration_ProcessRemoveTunnel E now fw symbolicOrConnid ingressId =
     (if symbolicOrConnid = ''SELF''
      then bind_res (remove_connection E fw ingressId) (\<lambda>fw.
           bind_res (forwarder_onConnectionEvent E now fw None) (\<lambda>fw. Inr (fw, True)))
      else if utils_IsNumber symbolicOrConnid
      then (let connid = connid_of_string E symbolicOrConnid in
            if fw_find E fw connid \<noteq> None
            then bind_res (remove_connection E fw connid) (\<lambda>fw.
                 bind_res (forwarder_onConnectionEvent E now (fw_RemoveName E fw (fw_NameOf E fw connid)) None) (\<lambda>fw. Inr (fw, True)))
            else Inr (fw, False))
      else (let connid = fw_name_Get E fw symbolicOrConnid in
            if connid \<noteq> UINT32_MAX
            then bind_res (remove_connection E fw connid) (\<lambda>fw.
                 bind_res (forwarder_onConnectionEvent E now (fw_RemoveName E fw symbolicOrConnid) None) (\<lambda>fw. Inr (fw, True)))
            else Inr (fw, False)))"

text \<open>The connections of a listener, for the list of connections made before the first is removed.\<close>

definition remove_if_local :: "('d, 't, 'l, 'pt, 'ch, 'ct, 'i, 'p, 'o, 'h, 's, 'n, 'm) fw_ops \<Rightarrow> address \<Rightarrow> ('d, 't, 'l, 'pt, 'ch, 'ct, 'i, 'p, 'o, 'h, 's, 'n, 'm) forwarder \<Rightarrow> nat \<Rightarrow> ('d, 't, 'l, 'pt, 'ch, 'ct, 'i, 'p, 'o, 'h, 's, 'n, 'm) forwarder res" where
  "remove_if_local E a fw ref =
     (let conn = ct_heap (fw_table fw) ref in
      if addressEquals a (ap_local (connection_GetAddressPair conn))
      then (let connid = connection_GetConnectionId conn in
            bind_res (remove_connection E fw connid) (\<lambda>fw. Inr (fw_RemoveName E fw (fw_NameOf E fw connid))))
      else Inr fw)"

definition configuration_ProcessRemoveListener :: "('d, 't, 'l, 'pt, 'ch, 'ct, 'i, 'p, 'o, 'h, 's, 'n, 'm) fw_ops \<Rightarrow> ('d, 't, 'l, 'pt, 'ch, 'ct, 'i, 'p, 'o, 'h, 's, 'n, 'm) forwarder \<Rightarrow> string \<Rightarrow> (('d, 't, 'l, 'pt, 'ch, 'ct, 'i, 'p, 'o, 'h, 's, 'n, 'm) forwarder \<times> bool) res" where
  "configuration_ProcessRemoveListener E fw symbolicOrListenerid =
     (let listenerId = (if utils_IsNumber symbolicOrListenerid then sint (connid_of_string E symbolicOrListenerid)
                        else listenerSet_FindIdByListenerName (listenerSet fw) symbolicOrListenerid)
      in if listenerId \<ge> 0
         then (case listenerSet_FindById (listenerSet fw) (word_of_int listenerId) of
                 None \<Rightarrow> Inr (fw, False)
               | Some listenerOps \<Rightarrow>
                   bind_res (fold_res (remove_if_local E (ls_address listenerOps)) fw (connectionTable_GetEntries (fo_ct E) (fw_table fw))) (\<lambda>fw.
                   Inr (fw\<lparr>listenerSet := listenerSet_RemoveById (listenerSet fw) (word_of_int listenerId)\<rparr>, True)))
         else Inr (fw, False))"

text \<open>The interface name of a stream is \<^verbatim>\<open>NULL\<close>, which the C library prints as \<^verbatim>\<open>(null)\<close>.\<close>

definition list_connection :: "('d, 't, 'l, 'pt, 'ch, 'ct, 'i, 'p, 'o, 'h, 's, 'n, 'm) fw_ops \<Rightarrow> ('d, 't, 'l, 'pt, 'ch, 'ct, 'i, 'p, 'o, 'h, 's, 'n, 'm) forwarder \<Rightarrow> nat \<Rightarrow> list_connections_command" where
  "list_connection E fw ref =
     (let original = ct_heap (fw_table fw) ref; pair = connection_GetAddressPair original; i = connection_GetConnectionId original
      in \<lparr>lc_connid = i, lc_connectionName = map c_tolower (take (SYMBOLIC_NAME_LEN - 1) (fw_NameOf E fw i)),
          lc_interfaceName = take (SYMBOLIC_NAME_LEN - 1) (case io_interfaceName (ops original) of None \<Rightarrow> ''(null)'' | Some n \<Rightarrow> n),
          lc_state = (if connection_IsUp original then 0 else 1), lc_connectionType = io_connectionType (ops original),
          lc_admin_state = connection_GetAdminState original, lc_priority = connection_GetPriority original, lc_tags = conn_tags original,
          lc_addresses = (if addressType (ap_local pair) = AT_INET \<and> addressType (ap_remote pair) = AT_INET \<or>
                             addressType (ap_local pair) = AT_INET6 \<and> addressType (ap_remote pair) = AT_INET6 then Some pair else None)\<rparr>)"

definition configuration_ProcessConnectionList :: "('d, 't, 'l, 'pt, 'ch, 'ct, 'i, 'p, 'o, 'h, 's, 'n, 'm) fw_ops \<Rightarrow> ('d, 't, 'l, 'pt, 'ch, 'ct, 'i, 'p, 'o, 'h, 's, 'n, 'm) forwarder \<Rightarrow> header_control_message \<Rightarrow> 'd response" where
  "configuration_ProcessConnectionList E fw header =
     (let connList = connectionTable_GetEntries (fo_ct E) (fw_table fw)
      in list_response header (length connList) (ConnectionList (map (list_connection E fw) connList)))"

definition list_listener :: "ListenerOps \<Rightarrow> list_listeners_command" where
  "list_listener l =
     \<lparr>ll_connid = ls_id l, ll_encapType = ls_encap l,
      ll_address = (if addressType (ls_address l) = AT_INET \<or> addressType (ls_address l) = AT_INET6 then Some (ls_address l) else None),
      ll_listenerName = take (SYMBOLIC_NAME_LEN - 1) (ls_name l),
      ll_interfaceName = (if ls_encap l = ENCAP_TCP \<or> ls_encap l = ENCAP_UDP then take (SYMBOLIC_NAME_LEN - 1) (ls_interfaceName l) else [])\<rparr>"

definition configuration_ProcessListenersList :: "('d, 't, 'l, 'pt, 'ch, 'ct, 'i, 'p, 'o, 'h, 's, 'n, 'm) forwarder \<Rightarrow> header_control_message \<Rightarrow> 'd response" where
  "configuration_ProcessListenersList fw header =
     list_response header (listenerSet_Length (listenerSet fw)) (ListenerList (map list_listener (listenerSet fw)))"

definition configuration_ConnectionSetAdminState :: "('d, 't, 'l, 'pt, 'ch, 'ct, 'i, 'p, 'o, 'h, 's, 'n, 'm) fw_ops \<Rightarrow> ticks \<Rightarrow> ('d, 't, 'l, 'pt, 'ch, 'ct, 'i, 'p, 'o, 'h, 's, 'n, 'm) forwarder \<Rightarrow> string \<Rightarrow> u8 \<Rightarrow> (('d, 't, 'l, 'pt, 'ch, 'ct, 'i, 'p, 'o, 'h, 's, 'n, 'm) forwarder \<times> bool) res" where
  "configuration_ConnectionSetAdminState E now fw symbolicOrConnid admin_state =
     (let st = state_of_number (unat admin_state) in
      if st \<noteq> CONNECTION_STATE_UP \<and> st \<noteq> CONNECTION_STATE_DOWN then Inr (fw, False)
      else case getConnectionBySymbolicOrId E fw symbolicOrConnid of
        None \<Rightarrow> Inr (fw, False)
      | Some ref \<Rightarrow>
          let conn = connection_SetAdminState (ct_heap (fw_table fw) ref) st in
          bind_res (forwarder_onConnectionEvent E now (fw_put_conn fw ref conn) (Some conn)) (\<lambda>fw. Inr (fw, True)))"

definition configuration_ConnectionSetPriority :: "('d, 't, 'l, 'pt, 'ch, 'ct, 'i, 'p, 'o, 'h, 's, 'n, 'm) fw_ops \<Rightarrow> ticks \<Rightarrow> ('d, 't, 'l, 'pt, 'ch, 'ct, 'i, 'p, 'o, 'h, 's, 'n, 'm) forwarder \<Rightarrow> string \<Rightarrow> u32 \<Rightarrow> (('d, 't, 'l, 'pt, 'ch, 'ct, 'i, 'p, 'o, 'h, 's, 'n, 'm) forwarder \<times> bool) res" where
  "configuration_ConnectionSetPriority E now fw symbolicOrConnid priority =
     (case getConnectionBySymbolicOrId E fw symbolicOrConnid of
        None \<Rightarrow> Inr (fw, False)
      | Some ref \<Rightarrow>
          let conn = connection_SetPriority (ct_heap (fw_table fw) ref) priority in
          bind_res (forwarder_onConnectionEvent E now (fw_put_conn fw ref conn) (Some conn)) (\<lambda>fw. Inr (fw, True)))"

definition configuration_ConnectionSetTags :: "('d, 't, 'l, 'pt, 'ch, 'ct, 'i, 'p, 'o, 'h, 's, 'n, 'm) fw_ops \<Rightarrow> ticks \<Rightarrow> ('d, 't, 'l, 'pt, 'ch, 'ct, 'i, 'p, 'o, 'h, 's, 'n, 'm) forwarder \<Rightarrow> string \<Rightarrow> policy_tags \<Rightarrow> (('d, 't, 'l, 'pt, 'ch, 'ct, 'i, 'p, 'o, 'h, 's, 'n, 'm) forwarder \<times> bool) res" where
  "configuration_ConnectionSetTags E now fw symbolicOrConnid tags' =
     (case getConnectionBySymbolicOrId E fw symbolicOrConnid of
        None \<Rightarrow> Inr (fw, False)
      | Some ref \<Rightarrow>
          let conn = connection_SetTags (ct_heap (fw_table fw) ref) tags' in
          bind_res (forwarder_onConnectionEvent E now (fw_put_conn fw ref conn) (Some conn)) (\<lambda>fw. Inr (fw, True)))"

definition configuration_UpdateConnection :: "('d, 't, 'l, 'pt, 'ch, 'ct, 'i, 'p, 'o, 'h, 's, 'n, 'm) fw_ops \<Rightarrow> ('d, 't, 'l, 'pt, 'ch, 'ct, 'i, 'p, 'o, 'h, 's, 'n, 'm) forwarder \<Rightarrow> update_connection_command \<Rightarrow> ('d, 't, 'l, 'pt, 'ch, 'ct, 'i, 'p, 'o, 'h, 's, 'n, 'm) forwarder \<times> bool" where
  "configuration_UpdateConnection E fw control =
     (case getConnectionBySymbolicOrId E fw (uc_symbolicOrConnid control) of
        None \<Rightarrow> (fw, False)
      | Some ref \<Rightarrow>
          let conn = connection_SetTags (ct_heap (fw_table fw) ref) (uc_tags control);
              conn = connection_SetAdminState conn (state_of_number (unat (uc_admin_state control)));
              conn = (if uc_priority control > 0 then connection_SetPriority conn (uc_priority control) else conn)
          in (fw_put_conn fw ref conn, True))"

definition configuration_SetWldr :: "('d, 't, 'l, 'pt, 'ch, 'ct, 'i, 'p, 'o, 'h, 's, 'n, 'm) fw_ops \<Rightarrow> ('d, 't, 'l, 'pt, 'ch, 'ct, 'i, 'p, 'o, 'h, 's, 'n, 'm) forwarder \<Rightarrow> string \<Rightarrow> u8 \<Rightarrow> (('d, 't, 'l, 'pt, 'ch, 'ct, 'i, 'p, 'o, 'h, 's, 'n, 'm) forwarder \<times> bool) res" where
  "configuration_SetWldr E fw symbolicOrConnid activate =
     (let conn = (if utils_IsNumber symbolicOrConnid then fw_find E fw (connid_of_string E symbolicOrConnid)
                  else let connid = fw_name_Get E fw symbolicOrConnid in if connid \<noteq> UINT32_MAX then fw_find E fw connid else None)
      in case conn of
           None \<Rightarrow> Inr (fw, False)
         | Some ref \<Rightarrow>
             if activate = ACTIVATE_ON then Inr (fw_put_conn fw ref (connection_EnableWldr (ct_heap (fw_table fw) ref)), True)
             else if activate = ACTIVATE_OFF
             then bind_res (connection_DisableWldr (ct_heap (fw_table fw) ref) (fw_world fw)) (\<lambda>(conn, w). Inr (fw_put_world (fw_put_conn fw ref conn) w, True))
             else Inr (fw, False))"

section \<open>Listeners\<close>

definition addIP :: "('d, 't, 'l, 'pt, 'ch, 'ct, 'i, 'p, 'o, 'h, 's, 'n, 'm) fw_ops \<Rightarrow> ('d, 't, 'l, 'pt, 'ch, 'ct, 'i, 'p, 'o, 'h, 's, 'n, 'm) forwarder \<Rightarrow> add_listener_command \<Rightarrow> ('d, 't, 'l, 'pt, 'ch, 'ct, 'i, 'p, 'o, 'h, 's, 'n, 'm) forwarder \<times> bool" where
  "addIP E fw control =
     (if al_addressType control = ADDR_INET_NUMBER \<or> al_addressType control = ADDR_INET6_NUMBER
      then (let addr = (if al_addressType control = ADDR_INET_NUMBER then addressFromInaddr4Port (ip_v4 (al_address control)) (al_port control)
                        else addressFromInaddr6Port (ip_v6 (al_address control)) (al_port control))
            in if al_connectionType control = UDP_CONN then fw_AddListener (udpListener_Create E fw (al_symbolic control) addr (al_interfaceName control))
               else if al_connectionType control = TCP_CONN then fw_AddListener (tcpListener_Create E fw (al_symbolic control) addr (al_interfaceName control))
               else (fw, False))
      else (fw, False))"

text \<open>Without \<^verbatim>\<open>PUNTING\<close> no hICN listener is created; the address is destroyed, also where none was made.\<close>

definition addHicn :: "('d, 't, 'l, 'pt, 'ch, 'ct, 'i, 'p, 'o, 'h, 's, 'n, 'm) forwarder \<Rightarrow> add_listener_command \<Rightarrow> (('d, 't, 'l, 'pt, 'ch, 'ct, 'i, 'p, 'o, 'h, 's, 'n, 'm) forwarder \<times> bool) res" where
  "addHicn fw control =
     (if al_addressType control = ADDR_INET_NUMBER \<or> al_addressType control = ADDR_INET6_NUMBER then Inr (fw, False) else Inl AssertFailed)"

definition configurationListeners_Add :: "('d, 't, 'l, 'pt, 'ch, 'ct, 'i, 'p, 'o, 'h, 's, 'n, 'm) fw_ops \<Rightarrow> ('d, 't, 'l, 'pt, 'ch, 'ct, 'i, 'p, 'o, 'h, 's, 'n, 'm) forwarder \<Rightarrow> add_listener_command \<Rightarrow> (('d, 't, 'l, 'pt, 'ch, 'ct, 'i, 'p, 'o, 'h, 's, 'n, 'm) forwarder \<times> bool) res" where
  "configurationListeners_Add E fw control =
     (if listenerSet_FindIdByListenerName (listenerSet fw) (al_symbolic control) < 0
      then (if al_listenerMode control = ETHER_MODE then Inl TrapNotImplemented
            else if al_listenerMode control = IP_MODE then Inr (addIP E fw control)
            else if al_listenerMode control = HICN_MODE then addHicn fw control
            else Inr (fw, False))
      else Inr (fw, False))"

text \<open>Without \<^verbatim>\<open>PUNTING\<close> no rule is added.\<close>

definition configurationListeners_AddPunting :: "('d, 't, 'l, 'pt, 'ch, 'ct, 'i, 'p, 'o, 'h, 's, 'n, 'm) forwarder \<Rightarrow> ('d, 't, 'l, 'pt, 'ch, 'ct, 'i, 'p, 'o, 'h, 's, 'n, 'm) forwarder \<times> bool" where
  "configurationListeners_AddPunting fw = (fw, False)"

section \<open>Cache, strategies, policies and MAP-Me\<close>

definition configuration_ProcessCacheStore :: "('d, 't, 'l, 'pt, 'ch, 'ct, 'i, 'p, 'o, 'h, 's, 'n, 'm) forwarder \<Rightarrow> u8 \<Rightarrow> ('d, 't, 'l, 'pt, 'ch, 'ct, 'i, 'p, 'o, 'h, 's, 'n, 'm) forwarder \<times> bool" where
  "configuration_ProcessCacheStore fw activate =
     (if activate = ACTIVATE_ON then let fw = forwarder_SetChacheStoreFlag fw True in (fw, forwarder_GetChacheStoreFlag fw)
      else if activate = ACTIVATE_OFF then let fw = forwarder_SetChacheStoreFlag fw False in (fw, \<not> forwarder_GetChacheStoreFlag fw)
      else (fw, False))"

definition configuration_ProcessCacheServe :: "('d, 't, 'l, 'pt, 'ch, 'ct, 'i, 'p, 'o, 'h, 's, 'n, 'm) forwarder \<Rightarrow> u8 \<Rightarrow> ('d, 't, 'l, 'pt, 'ch, 'ct, 'i, 'p, 'o, 'h, 's, 'n, 'm) forwarder \<times> bool" where
  "configuration_ProcessCacheServe fw activate =
     (if activate = ACTIVATE_ON then let fw = forwarder_SetChacheServeFlag fw True in (fw, forwarder_GetChacheServeFlag fw)
      else if activate = ACTIVATE_OFF then let fw = forwarder_SetChacheServeFlag fw False in (fw, \<not> forwarder_GetChacheServeFlag fw)
      else (fw, False))"

definition configuration_SetObjectStoreSize :: "('d, 't, 'l, 'pt, 'ch, 'ct, 'i, 'p, 'o, 'h, 's, 'n, 'm) fw_ops \<Rightarrow> ('d, 't, 'l, 'pt, 'ch, 'ct, 'i, 'p, 'o, 'h, 's, 'n, 'm) forwarder \<Rightarrow> u64 \<Rightarrow> ('d, 't, 'l, 'pt, 'ch, 'ct, 'i, 'p, 'o, 'h, 's, 'n, 'm) forwarder" where
  "configuration_SetObjectStoreSize E fw maximumObjectCount =
     forwarder_SetContentObjectStoreSize E (fw\<lparr>maximumContentObjectStoreSize := maximumObjectCount\<rparr>) maximumObjectCount"

text \<open>The number of related prefixes is not compared with the ten there is room for.\<close>

definition configuration_SetForwardingStrategy :: "('d, 't, 'l, 'pt, 'ch, 'ct, 'i, 'p, 'o, 'h, 's, 'n, 'm) fw_ops \<Rightarrow> ('d, 't, 'l, 'pt, 'ch, 'ct, 'i, 'p, 'o, 'h, 's, 'n, 'm) forwarder \<Rightarrow> set_strategy_command \<Rightarrow> ('d, 't, 'l, 'pt, 'ch, 'ct, 'i, 'p, 'o, 'h, 's, 'n, 'm) forwarder res" where
  "configuration_SetForwardingStrategy E fw control =
     (let prefixStr = utils_PrefixLenToString E (ss_address control) (ss_len control);
          strategy = ucast (ss_strategyType control);
          existing = configuration_GetForwardingStrategy E fw prefixStr
      in if existing = LAST_STRATEGY_NUMBER \<or> strategy \<noteq> existing
         then (let fw = configuration_StoreFwdStrategy E fw prefixStr strategy in
               bind_res (name_CreateFromAddress (fo_hash E) (ss_address control) (ss_len control)) (\<lambda>hicnPrefix.
               if unat (ss_related_prefixes control) > MAX_FWD_STRATEGY_RELATED_PREFIXES then Inl MemoryFault
               else bind_res (fold_res (\<lambda>ns (a, len). bind_res (name_CreateFromAddress (fo_hash E) a len) (\<lambda>n. Inr (ns @ [n]))) []
                                (take (unat (ss_related_prefixes control)) (ss_addresses control))) (\<lambda>related.
                    forwarder_SetStrategy E fw hicnPrefix (strategy_of_number strategy) related)))
         else Inr fw)"

text \<open>A policy is set and MAP-Me reconsiders the entry.\<close>

definition reconsider_prefix :: "('d, 't, 'l, 'pt, 'ch, 'ct, 'i, 'p, 'o, 'h, 's, 'n, 'm) fw_ops \<Rightarrow> ticks \<Rightarrow> ('d, 't, 'l, 'pt, 'ch, 'ct, 'i, 'p, 'o, 'h, 's, 'n, 'm) forwarder \<Rightarrow> Address \<Rightarrow> u8 \<Rightarrow> ('d, 't, 'l, 'pt, 'ch, 'ct, 'i, 'p, 'o, 'h, 's, 'n, 'm) forwarder res" where
  "reconsider_prefix E now fw address len =
     bind_res (name_CreateFromAddress (fo_hash E) address len) (\<lambda>pref.
     bind_res (fib_ContainsName (fw_fib fw) pref) (\<lambda>entry.
     case entry of
       None \<Rightarrow> Inr fw
     | Some e \<Rightarrow> bind_res (mapme_reconsiderFibEntry (fw_mm E) now (mapme_enter fw) e) (\<lambda>s. Inr (mapme_leave fw s))))"

definition forwarder_AddOrUpdatePolicy :: "('d, 't, 'l, 'pt, 'ch, 'ct, 'i, 'p, 'o, 'h, 's, 'n, 'm) fw_ops \<Rightarrow> ticks \<Rightarrow> ('d, 't, 'l, 'pt, 'ch, 'ct, 'i, 'p, 'o, 'h, 's, 'n, 'm) forwarder \<Rightarrow> Address \<Rightarrow> u8 \<Rightarrow> 'd hicn_policy \<Rightarrow> ('d, 't, 'l, 'pt, 'ch, 'ct, 'i, 'p, 'o, 'h, 's, 'n, 'm) forwarder res" where
  "forwarder_AddOrUpdatePolicy E now fw address len pol =
     (let strategy = configuration_GetForwardingStrategy E fw (utils_PrefixLenToString E address len) in
      bind_res (messageProcessor_AddOrUpdatePolicy (fo_hash E) (fo_st E) id (strategy_of_number strategy) (fw_fib fw) address len pol) (\<lambda>fs.
      reconsider_prefix E now (fw_put_fib fw fs) address len))"

definition forwarder_RemovePolicy :: "('d, 't, 'l, 'pt, 'ch, 'ct, 'i, 'p, 'o, 'h, 's, 'n, 'm) fw_ops \<Rightarrow> ticks \<Rightarrow> ('d, 't, 'l, 'pt, 'ch, 'ct, 'i, 'p, 'o, 'h, 's, 'n, 'm) forwarder \<Rightarrow> Address \<Rightarrow> u8 \<Rightarrow> (('d, 't, 'l, 'pt, 'ch, 'ct, 'i, 'p, 'o, 'h, 's, 'n, 'm) forwarder \<times> bool) res" where
  "forwarder_RemovePolicy E now fw address len =
     bind_res (messageProcessor_RemovePolicy (fo_hash E) (fo_st E) id (fw_fib fw) address len) (\<lambda>(fs, found).
     if found then bind_res (reconsider_prefix E now (fw_put_fib fw fs) address len) (\<lambda>fw. Inr (fw, True)) else Inr (fw, False))"

definition list_policy :: "('d, 't, 'l, 'pt, 'ch, 'ct, 'i, 'p, 'o, 'h, 's, 'n, 'm) forwarder \<Rightarrow> nat \<Rightarrow> 'd list_policies_command res" where
  "list_policy fw e =
     bind_res (name_GetContentName (fibEntry_GetPrefix (fs_heap (fw_fib fw) e))) (\<lambda>bv.
     Inr \<lparr>lp_address = nameBitvector_ToAddress bv, lp_len = nb_len bv, lp_policy = fibEntry_GetPolicy (fs_heap (fw_fib fw) e)\<rparr>)"

definition configuration_ProcessPolicyList :: "('d, 't, 'l, 'pt, 'ch, 'ct, 'i, 'p, 'o, 'h, 's, 'n, 'm) forwarder \<Rightarrow> header_control_message \<Rightarrow> 'd response res" where
  "configuration_ProcessPolicyList fw header =
     (let fibList = forwarder_GetFibEntries fw in
      bind_res (fold_res (\<lambda>ps e. bind_res (list_policy fw e) (\<lambda>p. Inr (ps @ [p]))) [] fibList) (\<lambda>ps.
      Inr (list_response header (length fibList) (PolicyList ps))))"

text \<open>The value of the command is an index into an array of two strings.\<close>

definition configuration_MapMeEnable :: "u8 \<Rightarrow> bool res" where
  "configuration_MapMeEnable activate = (if activate < 2 then Inr True else Inl MemoryFault)"

fun owner_loop :: "NumberSet \<Rightarrow> nat list \<Rightarrow> connid \<Rightarrow> bool res" where
  "owner_loop nhs [] ingressId = Inr False"
| "owner_loop nhs (i # is) ingressId = bind_res (numberSet_GetItem nhs i) (\<lambda>nhop. if nhop = ingressId then Inr True else owner_loop nhs is ingressId)"

definition configuration_MapMeSendUpdate :: "('d, 't, 'l, 'pt, 'ch, 'ct, 'i, 'p, 'o, 'h, 's, 'n, 'm) fw_ops \<Rightarrow> ticks \<Rightarrow> ('d, 't, 'l, 'pt, 'ch, 'ct, 'i, 'p, 'o, 'h, 's, 'n, 'm) forwarder \<Rightarrow> Address \<Rightarrow> u8 \<Rightarrow> connid \<Rightarrow> (('d, 't, 'l, 'pt, 'ch, 'ct, 'i, 'p, 'o, 'h, 's, 'n, 'm) forwarder \<times> bool) res" where
  "configuration_MapMeSendUpdate E now fw address len ingressId =
     bind_res (name_CreateFromAddress (fo_hash E) address len) (\<lambda>pref.
     bind_res (fib_ContainsName (fw_fib fw) pref) (\<lambda>entry.
     case entry of
       None \<Rightarrow> Inr (fw, False)
     | Some e \<Rightarrow>
         let nhs = fibEntry_GetNexthops (fs_heap (fw_fib fw) e) in
         bind_res (owner_loop nhs [0..<numberSet_Length nhs] ingressId) (\<lambda>is_owner.
         if is_owner
         then bind_res (mapme_send_updates (fw_mm E) now (mapme_enter fw) e nhs) (\<lambda>s. Inr (mapme_leave fw s, True))
         else Inr (fw, False))))"

section \<open>Dispatch\<close>

definition answer :: "header_control_message \<Rightarrow> 'd command \<Rightarrow> ('d, 't, 'l, 'pt, 'ch, 'ct, 'i, 'p, 'o, 'h, 's, 'n, 'm) forwarder \<times> bool \<Rightarrow> ('d, 't, 'l, 'pt, 'ch, 'ct, 'i, 'p, 'o, 'h, 's, 'n, 'm) forwarder \<times> 'd response" where
  "answer header control r = (case r of (fw, success) \<Rightarrow> (fw, ack_or_nack success header control))"

fun configuration_DispatchCommand :: "('d, 't, 'l, 'pt, 'ch, 'ct, 'i, 'p, 'o, 'h, 's, 'n, 'm) fw_ops \<Rightarrow> ticks \<Rightarrow> ('d, 't, 'l, 'pt, 'ch, 'ct, 'i, 'p, 'o, 'h, 's, 'n, 'm) forwarder \<Rightarrow> header_control_message \<Rightarrow> 'd command \<Rightarrow> connid \<Rightarrow> (('d, 't, 'l, 'pt, 'ch, 'ct, 'i, 'p, 'o, 'h, 's, 'n, 'm) forwarder \<times> 'd response) res" where
  "configuration_DispatchCommand E now fw header (ADD_LISTENER c) ingressId =
     bind_res (configurationListeners_Add E fw c) (\<lambda>r. Inr (answer header (ADD_LISTENER c) r))"
| "configuration_DispatchCommand E now fw header (ADD_CONNECTION c) ingressId =
     bind_res (configuration_ProcessCreateTunnel E now fw c) (\<lambda>r. Inr (answer header (ADD_CONNECTION c) r))"
| "configuration_DispatchCommand E now fw header LIST_CONNECTIONS ingressId = Inr (fw, configuration_ProcessConnectionList E fw header)"
| "configuration_DispatchCommand E now fw header (ADD_ROUTE s a len) ingressId =
     bind_res (configuration_ProcessRegisterHicnPrefix E fw s a len ingressId) (\<lambda>r. Inr (answer header (ADD_ROUTE s a len) r))"
| "configuration_DispatchCommand E now fw header LIST_ROUTES ingressId =
     bind_res (configuration_ProcessRegistrationList fw header) (\<lambda>r. Inr (fw, r))"
| "configuration_DispatchCommand E now fw header (REMOVE_CONNECTION s) ingressId =
     bind_res (configuration_ProcessRemoveTunnel E now fw s ingressId) (\<lambda>r. Inr (answer header (REMOVE_CONNECTION s) r))"
| "configuration_DispatchCommand E now fw header (REMOVE_LISTENER s) ingressId =
     bind_res (configuration_ProcessRemoveListener E fw s) (\<lambda>r. Inr (answer header (REMOVE_LISTENER s) r))"
| "configuration_DispatchCommand E now fw header (REMOVE_ROUTE s a len) ingressId =
     bind_res (configuration_ProcessUnregisterHicnPrefix E fw s a len) (\<lambda>r. Inr (answer header (REMOVE_ROUTE s a len) r))"
| "configuration_DispatchCommand E now fw header (CACHE_STORE v) ingressId = Inr (answer header (CACHE_STORE v) (configuration_ProcessCacheStore fw v))"
| "configuration_DispatchCommand E now fw header (CACHE_SERVE v) ingressId = Inr (answer header (CACHE_SERVE v) (configuration_ProcessCacheServe fw v))"
| "configuration_DispatchCommand E now fw header CACHE_CLEAR ingressId = Inr (forwarder_ClearCache E fw, utils_CreateAck header Nothing)"
| "configuration_DispatchCommand E now fw header (SET_STRATEGY c) ingressId =
     bind_res (configuration_SetForwardingStrategy E fw c) (\<lambda>fw. Inr (answer header (SET_STRATEGY c) (fw, True)))"
| "configuration_DispatchCommand E now fw header (SET_WLDR s v) ingressId =
     bind_res (configuration_SetWldr E fw s v) (\<lambda>r. Inr (answer header (SET_WLDR s v) r))"
| "configuration_DispatchCommand E now fw header (ADD_PUNTING s a len) ingressId = Inr (answer header (ADD_PUNTING s a len) (configurationListeners_AddPunting fw))"
| "configuration_DispatchCommand E now fw header LIST_LISTENERS ingressId = Inr (fw, configuration_ProcessListenersList fw header)"
| "configuration_DispatchCommand E now fw header (MAPME_ENABLE v) ingressId =
     bind_res (configuration_MapMeEnable v) (\<lambda>ok. Inr (answer header (MAPME_ENABLE v) (fw, ok)))"
| "configuration_DispatchCommand E now fw header (MAPME_DISCOVERY v) ingressId =
     bind_res (configuration_MapMeEnable v) (\<lambda>ok. Inr (answer header (MAPME_DISCOVERY v) (fw, ok)))"
| "configuration_DispatchCommand E now fw header (MAPME_TIMESCALE v) ingressId = Inr (answer header (MAPME_TIMESCALE v) (fw, True))"
| "configuration_DispatchCommand E now fw header (MAPME_RETX v) ingressId = Inr (answer header (MAPME_RETX v) (fw, True))"
| "configuration_DispatchCommand E now fw header (MAPME_SEND_UPDATE a len) ingressId =
     bind_res (configuration_MapMeSendUpdate E now fw a len ingressId) (\<lambda>r. Inr (answer header (MAPME_SEND_UPDATE a len) r))"
| "configuration_DispatchCommand E now fw header (CONNECTION_SET_ADMIN_STATE s v) ingressId =
     bind_res (configuration_ConnectionSetAdminState E now fw s v) (\<lambda>r. Inr (answer header (CONNECTION_SET_ADMIN_STATE s v) r))"
| "configuration_DispatchCommand E now fw header (ADD_POLICY a len pol) ingressId =
     bind_res (forwarder_AddOrUpdatePolicy E now fw a len pol) (\<lambda>fw. Inr (answer header (ADD_POLICY a len pol) (fw, True)))"
| "configuration_DispatchCommand E now fw header LIST_POLICIES ingressId =
     bind_res (configuration_ProcessPolicyList fw header) (\<lambda>r. Inr (fw, r))"
| "configuration_DispatchCommand E now fw header (REMOVE_POLICY a len) ingressId =
     bind_res (forwarder_RemovePolicy E now fw a len) (\<lambda>r. Inr (answer header (REMOVE_POLICY a len) r))"
| "configuration_DispatchCommand E now fw header (UPDATE_CONNECTION c) ingressId = Inr (answer header (UPDATE_CONNECTION c) (configuration_UpdateConnection E fw c))"
| "configuration_DispatchCommand E now fw header (CONNECTION_SET_PRIORITY s v) ingressId =
     bind_res (configuration_ConnectionSetPriority E now fw s v) (\<lambda>r. Inr (answer header (CONNECTION_SET_PRIORITY s v) r))"
| "configuration_DispatchCommand E now fw header (CONNECTION_SET_TAGS s v) ingressId =
     bind_res (configuration_ConnectionSetTags E now fw s v) (\<lambda>r. Inr (answer header (CONNECTION_SET_TAGS s v) r))"

text \<open>The response, if the connection the command came from still exists.\<close>

definition configuration_SendResponse :: "('d, 't, 'l, 'pt, 'ch, 'ct, 'i, 'p, 'o, 'h, 's, 'n, 'm) fw_ops \<Rightarrow> ('d, 't, 'l, 'pt, 'ch, 'ct, 'i, 'p, 'o, 'h, 's, 'n, 'm) forwarder \<Rightarrow> 'd response \<Rightarrow> connid \<Rightarrow> (connid \<times> 'd response) option" where
  "configuration_SendResponse E fw msg egressId = (case fw_find E fw egressId of None \<Rightarrow> None | Some _ \<Rightarrow> Some (egressId, msg))"

definition configuration_ReceiveCommand ::
  "('d, 't, 'l, 'pt, 'ch, 'ct, 'i, 'p, 'o, 'h, 's, 'n, 'm) fw_ops \<Rightarrow> ticks \<Rightarrow> ('d, 't, 'l, 'pt, 'ch, 'ct, 'i, 'p, 'o, 'h, 's, 'n, 'm) forwarder \<Rightarrow> header_control_message \<Rightarrow> 'd command \<Rightarrow> connid \<Rightarrow> (('d, 't, 'l, 'pt, 'ch, 'ct, 'i, 'p, 'o, 'h, 's, 'n, 'm) forwarder \<times> (connid \<times> 'd response) option) res" where
  "configuration_ReceiveCommand E now fw header command ingressId =
     bind_res (configuration_DispatchCommand E now fw header command ingressId) (\<lambda>(fw, response).
     Inr (fw, configuration_SendResponse E fw response ingressId))"

text \<open>A UDP listener received a command: an unknown peer gets a connection first.\<close>

definition udpListener_readCommand ::
  "('d, 't, 'l, 'pt, 'ch, 'ct, 'i, 'p, 'o, 'h, 's, 'n, 'm) fw_ops \<Rightarrow> ticks \<Rightarrow> ('d, 't, 'l, 'pt, 'ch, 'ct, 'i, 'p, 'o, 'h, 's, 'n, 'm) forwarder \<Rightarrow> ListenerOps \<Rightarrow> AddressPair \<Rightarrow> header_control_message \<Rightarrow> 'd command \<Rightarrow> (('d, 't, 'l, 'pt, 'ch, 'ct, 'i, 'p, 'o, 'h, 's, 'n, 'm) forwarder \<times> (connid \<times> 'd response) option) res" where
  "udpListener_readCommand E now fw listener pair header command =
     (if messageType header \<noteq> REQUEST_LIGHT then Inr (fw, None)
      else bind_res (case lookupConnection E fw pair of
                       Some ref \<Rightarrow> Inr (fw, connection_GetConnectionId (ct_heap (fw_table fw) ref))
                     | None \<Rightarrow> createNewConnection E fw listener pair) (\<lambda>(fw, connid).
           configuration_ReceiveCommand E now fw header command connid))"

end
