(* ===== verification/ControlFib.thy ===== *)
theory ControlFib
  imports MapmeTimers
begin

text \<open>
  What the control commands do to the FIB, and MAP-Me on a FIB whose next hops are all connections: lemmas for the theory \<open>Control\<close>.
  Every operation on routes, policies and strategies keeps the invariant of the FIB and the user data of its entries, which are MAP-Me's; and as long as
  the next hops of all routes are in the connection table, the events of MAP-Me run without abort.
\<close>

section \<open>The FIB under control commands\<close>

text \<open>The entries of the trie have names, and references not handed out have no user data.\<close>

definition fib_ok :: "('d, 't, 'l) fib_store \<Rightarrow> bool" where
  "fib_ok fs \<longleftrightarrow> fs_inv fs \<and> (\<forall>e\<in>fib_used (fib_root (fs_trie fs)). content_name (fe_name (fs_heap fs e)) \<noteq> None) \<and>
     (\<forall>e\<ge>fs_next fs. userData (fs_heap fs e) = None)"

definition next_hops :: "('d, 't, 'l) fib_store \<Rightarrow> connid set" where
  "next_hops fs = \<Union> (ran (fs_routes fs))"

lemma next_hops_iff: "c \<in> next_hops fs \<longleftrightarrow> (\<exists>p s. fs_routes fs p = Some s \<and> c \<in> s)"
  by (auto simp: next_hops_def ran_def)

lemma used_iff: "fs_inv fs \<Longrightarrow> e \<in> fib_used (fib_root (fs_trie fs)) \<longleftrightarrow> (\<exists>p. fs_entry fs p = Some e)"
  using fib_routes_iff[of "fs_pfx fs" "fs_trie fs"] fib_inv_wf[of "fs_pfx fs" "fs_trie fs"] by (auto simp: fs_entry_def fs_inv_def)

lemma used_hops:
  assumes "fs_inv fs" "e \<in> fib_used (fib_root (fs_trie fs))"
  shows "ns_set (nexthops (fs_heap fs e)) \<subseteq> next_hops fs"
  using assms used_iff[of fs e] by (fastforce simp: next_hops_iff fs_routes_def)

lemma next_hops_mono:
  assumes "\<And>p s c. fs_routes fs' p = Some s \<Longrightarrow> c \<in> s \<Longrightarrow> c \<in> A \<or> (\<exists>s'. fs_routes fs p = Some s' \<and> c \<in> s')"
  shows "next_hops fs' \<subseteq> A \<union> next_hops fs"
  using assms unfolding next_hops_iff subset_iff by (auto simp: next_hops_iff) blast

text \<open>What the commands do to the FIB: the user data stays, for MAP-Me.\<close>

definition fib_change :: "connid set \<Rightarrow> ('d, 't, 'l) fib_store \<Rightarrow> ('d, 't, 'l) fib_store \<Rightarrow> bool" where
  "fib_change A fs fs' \<longleftrightarrow> fib_ok fs' \<and> (\<forall>e. userData (fs_heap fs' e) = userData (fs_heap fs e)) \<and> next_hops fs' \<subseteq> A \<union> next_hops fs"

lemma fib_change_refl: "fib_ok fs \<Longrightarrow> fib_change A fs fs"
  by (simp add: fib_change_def)

lemma fib_change_put:
  assumes "fib_ok fs" "fe_name fe = fe_name (fs_heap fs e)" "userData fe = userData (fs_heap fs e)" "ns_inv (nexthops fe)"
    "ns_set (nexthops fe) \<subseteq> A \<union> ns_set (nexthops (fs_heap fs e))"
  shows "fib_change A fs (fs_put fs e fe)"
proof -
  have inv: "fs_inv fs" using assms(1) by (simp add: fib_ok_def)
  note p = fs_put_ok[OF inv assms(2,4)]
  have "next_hops (fs_put fs e fe) \<subseteq> A \<union> next_hops fs"
    by (rule next_hops_mono) (use assms(5) in \<open>auto simp: fs_routes_def p(2) split: if_splits\<close>)
  then show ?thesis using assms(1-3) p(1) by (auto simp: fib_change_def fib_ok_def)
qed

lemma AddEntry_change:
  assumes "fib_ok fs" "e < fs_next fs" "nb_valid (fs_pfx fs e)" "fs_entry fs (nb_bits (fs_pfx fs e)) = None" "content_name (fe_name (fs_heap fs e)) \<noteq> None"
    "ns_set (nexthops (fs_heap fs e)) \<subseteq> A"
  shows "\<exists>fs'. fib_AddEntry H S fs e = Inr fs' \<and> fib_change A fs fs' \<and> fs_heap fs' e = fs_heap fs e \<and> fs_entry fs' (nb_bits (fs_pfx fs e)) = Some e \<and> fs_next fs < fs_next fs'"
proof -
  have inv: "fs_inv fs" using assms(1) by (simp add: fib_ok_def)
  let ?p = "nb_bits (fs_pfx fs e)"
  obtain fs' where fs': "fib_AddEntry H S fs e = Inr fs'" "fs_inv fs'" "fs_entry fs' = (fs_entry fs)(?p \<mapsto> e)" "fs_heap fs' e = fs_heap fs e"
    "fs_routes fs' = (fs_routes fs)(?p \<mapsto> ns_set (nexthops (fs_heap fs e)))"
    using AddEntry_ok[OF inv assms(2) refl assms(3,4), of H S] by (elim exE conjE) blast
  obtain trie c where tc: "fib_Add (fs_pfx fs) (fs_next fs) (fs_trie fs) e = Inr (trie, c)"
    using fs'(1) by (auto simp: fib_AddEntry_def Let_def)
  have heap: "x \<noteq> fs_next fs \<Longrightarrow> fs_heap fs' x = fs_heap fs x" and nx: "fs_next fs' = Suc (fs_next fs)"
    and ud: "userData (fs_heap fs' (fs_next fs)) = None" for x
    using fs'(1) tc assms(1) by (auto simp: fib_AddEntry_def Let_def fib_ok_def fibEntry_Create_def split: option.splits)
  have ud': "userData (fs_heap fs' x) = userData (fs_heap fs x)" for x
    using heap[of x] ud assms(1) by (cases "x = fs_next fs") (auto simp: fib_ok_def)
  have nm: "content_name (fe_name (fs_heap fs' x)) \<noteq> None" if "fs_entry fs' q = Some x" for q x
  proof (cases "q = ?p")
    case False
    then have q: "fs_entry fs q = Some x" using that fs'(3) by simp
    then have "x < fs_next fs" "x \<in> fib_used (fib_root (fs_trie fs))" using fs_entry_in[OF inv q] by simp_all
    then show ?thesis using heap[of x] assms(1) by (auto simp: fib_ok_def)
  qed (use that fs'(3,4) assms(5) in simp)
  then have "fib_ok fs'" using fs'(2) assms(1) ud' used_iff[OF fs'(2)] nx by (auto simp: fib_ok_def)
  moreover have "next_hops fs' \<subseteq> A \<union> next_hops fs"
    by (rule next_hops_mono) (use assms(6) in \<open>auto simp: fs'(5) split: if_splits\<close>)
  ultimately show ?thesis using fs' ud' nx by (auto simp: fib_change_def)
qed

lemma alloc_ok:
  assumes "fib_ok fs" "userData fe = None" "ns_inv (nexthops fe)"
  shows "fib_ok (fst (fs_alloc fs fe))" "next_hops (fst (fs_alloc fs fe)) = next_hops fs" "fs_entry (fst (fs_alloc fs fe)) = fs_entry fs"
    "userData (fs_heap (fst (fs_alloc fs fe)) x) = userData (fs_heap fs x)" "snd (fs_alloc fs fe) < fs_next (fst (fs_alloc fs fe))"
    "fs_heap (fst (fs_alloc fs fe)) (snd (fs_alloc fs fe)) = fe"
proof -
  have inv: "fs_inv fs" using assms(1) by (simp add: fib_ok_def)
  obtain fs1 e where al: "fs_alloc fs fe = (fs1, e)" by (metis surj_pair)
  note a = fs_alloc_ok[OF inv assms(3) al]
  have lt: "x < fs_next fs" if "x \<in> fib_used (fib_root (fs_trie fs))" for x using inv used_in_entries[OF that] by (simp add: fs_inv_def)
  have "\<forall>x\<in>fib_used (fib_root (fs_trie fs1)). content_name (fe_name (fs_heap fs1 x)) \<noteq> None"
    using assms(1) al lt by (fastforce simp: fs_alloc_def fib_ok_def)
  moreover have "\<forall>x\<ge>fs_next fs1. userData (fs_heap fs1 x) = None" using assms(1,2) al by (auto simp: fs_alloc_def fib_ok_def)
  ultimately show "fib_ok (fst (fs_alloc fs fe))" using a(1) al by (simp add: fib_ok_def)
  show "next_hops (fst (fs_alloc fs fe)) = next_hops fs" "fs_entry (fst (fs_alloc fs fe)) = fs_entry fs"
    using a al by (simp_all add: next_hops_def)
  show "userData (fs_heap (fst (fs_alloc fs fe)) x) = userData (fs_heap fs x)" using assms(1,2) by (simp add: fs_alloc_def fib_ok_def)
  show "snd (fs_alloc fs fe) < fs_next (fst (fs_alloc fs fe))" "fs_heap (fst (fs_alloc fs fe)) (snd (fs_alloc fs fe)) = fe" by (simp_all add: fs_alloc_def)
qed

text \<open>A new entry for a name, with the next hops it is created with.\<close>

lemma new_entry_change:
  assumes "fib_ok fs" "fe_name fe = n" "content_name n = Some bv" "nb_valid bv" "fs_entry fs (nb_bits bv) = None" "userData fe = None" "ns_inv (nexthops fe)"
    "ns_set (nexthops fe) \<subseteq> A" "fs_alloc fs fe = (fs1, e)"
  shows "\<exists>fs'. fib_AddEntry H S fs1 e = Inr fs' \<and> fib_change A fs fs' \<and> fs_heap fs' e = fe \<and> fs_entry fs' (nb_bits bv) = Some e"
proof -
  note a = alloc_ok[OF assms(1,6,7), unfolded assms(9) fst_conv snd_conv]
  have pfx: "fs_pfx fs1 e = bv" using a(6) assms(2,3) by (simp add: fs_pfx_def fibEntry_GetPrefix_def name_bv_def)
  obtain fs' where "fib_AddEntry H S fs1 e = Inr fs'" "fib_change A fs1 fs'" "fs_heap fs' e = fs_heap fs1 e" "fs_entry fs' (nb_bits (fs_pfx fs1 e)) = Some e"
    using AddEntry_change[OF a(1,5), of A H S] pfx assms(2-5,8) a(3,6) by auto
  then show ?thesis using a(2,4,6) pfx by (auto simp: fib_change_def)
qed

lemma address_name:
  assumes "address_ok H a len"
  obtains n bv where "name_CreateFromAddress H a len = Inr n" "content_name n = Some bv" "nb_valid bv"
  using address_okD[OF assms] name_of_address by (fastforce simp: name_bv_def)

lemma AddOrUpdateRoute_change:
  assumes "fib_ok fs" "address_ok H a len"
  shows "\<exists>fs'. messageProcessor_AddOrUpdateRoute H S st fs a len c = Inr fs' \<and> fib_change {c} fs fs'"
proof -
  have inv: "fs_inv fs" using assms(1) by (simp add: fib_ok_def)
  obtain n bv where n: "name_CreateFromAddress H a len = Inr n" "content_name n = Some bv" "nb_valid bv"
    using address_name[OF assms(2)] by blast
  note has = ContainsName_ok[OF inv n(2,3)]
  show ?thesis
  proof (cases "fs_entry fs (nb_bits bv)")
    case (Some e)
    note h = nexthops_AddNexthop[OF fs_ns[OF inv, of e], of S c]
    have "fib_change {c} fs (fs_put fs e (fibEntry_AddNexthop S (fs_heap fs e) c))"
      by (rule fib_change_put[OF assms(1)]) (use h in auto)
    then show ?thesis using Some has n(1) by (simp add: messageProcessor_AddOrUpdateRoute_def)
  next
    case None
    let ?fe = "fibEntry_AddNexthop S (fibEntry_Create S n st) c"
    have ns0: "ns_inv (nexthops (fibEntry_Create S n st))" "ns_set (nexthops (fibEntry_Create S n st)) = {}" by (simp_all add: ns.empty_items ns_set_def)
    note h = nexthops_AddNexthop[OF ns0(1), of S c]
    obtain fs1 e where al: "fs_alloc fs ?fe = (fs1, e)" by (metis surj_pair)
    obtain fs' where "fib_AddEntry H S fs1 e = Inr fs'" "fib_change {c} fs fs'"
      using new_entry_change[OF assms(1) _ n(2,3) None _ h(1) _ al, of "{c}" H S] h(2,3) ns0(2) by (auto simp: fibEntry_Create_def)
    moreover have "messageProcessor_AddOrUpdateRoute H S st fs a len c = fib_AddEntry H S fs1 e"
      using None has n(1) al by (cases fs) (auto simp: messageProcessor_AddOrUpdateRoute_def fs_alloc_def fs_put_def Let_def)
    ultimately show ?thesis by simp
  qed
qed

lemma RemoveRoute_change:
  assumes "fib_ok fs" "address_ok H a len"
  shows "\<exists>fs'. messageProcessor_RemoveRoute H S fs a len c = Inr fs' \<and> fib_change {} fs fs'"
proof -
  have inv: "fs_inv fs" using assms(1) by (simp add: fib_ok_def)
  obtain n bv where n: "name_CreateFromAddress H a len = Inr n" "content_name n = Some bv" "nb_valid bv"
    using address_name[OF assms(2)] by blast
  have "fib_change {} fs (fs_put fs e (fibEntry_RemoveNexthopByConnectionId S (fs_heap fs e) c))" for e
    by (rule fib_change_put[OF assms(1)]) (use nexthops_RemoveNexthop[OF fs_ns[OF inv, of e], of S c] in auto)
  then show ?thesis using n(1) ContainsName_ok[OF inv n(2,3)] fib_change_refl[OF assms(1)]
    by (auto simp: messageProcessor_RemoveRoute_def fib_Remove_def split: option.split)
qed

lemma removeConnectionId_userData [simp]: "userData (fs_heap (removeConnectionId S t c fs) x) = userData (fs_heap fs x)"
  by (induction t arbitrary: fs) (auto simp: Let_def)

lemma RemoveConnectionId_change:
  assumes "fib_ok fs"
  shows "fib_change {} fs (messageProcessor_RemoveConnectionIdFromRoutes S fs c)" "c \<notin> next_hops (messageProcessor_RemoveConnectionIdFromRoutes S fs c)"
proof -
  let ?fs = "messageProcessor_RemoveConnectionIdFromRoutes S fs c"
  have inv: "fs_inv fs" using assms by (simp add: fib_ok_def)
  note R = RemoveConnectionId_ok[OF inv, of S c]
  have "\<forall>x. ns_inv (nexthops (fs_heap fs x))" using inv by (simp add: fs_inv_def)
  note K = removeConnectionId_ok[OF this, of S "fib_root (fs_trie fs)" c, folded fib_RemoveConnectionId_def messageProcessor_RemoveConnectionIdFromRoutes_def]
  have "next_hops ?fs \<subseteq> {} \<union> next_hops fs" by (rule next_hops_mono) (auto simp: R(2) drop_hop_def)
  then show "fib_change {} fs ?fs" using assms K R(1)
    by (auto simp: fib_change_def fib_ok_def messageProcessor_RemoveConnectionIdFromRoutes_def fib_RemoveConnectionId_def)
  show "c \<notin> next_hops ?fs" by (auto simp: next_hops_iff R(2) drop_hop_def)
qed

lemma SetStrategy_change:
  assumes "fib_ok fs" "content_name n = Some bv" "nb_valid bv"
  shows "\<exists>fs'. processor_SetStrategy S fs n strategy related = Inr fs' \<and> fib_change {} fs fs'"
proof (cases "fs_entry fs (nb_bits bv)")
  have inv: "fs_inv fs" using assms(1) by (simp add: fib_ok_def)
  note has = ContainsName_ok[OF inv assms(2,3)]
  {
    case None
    then show ?thesis using has fib_change_refl[OF assms(1)] by (auto simp: processor_SetStrategy_def)
  next
    case (Some e)
    obtain fe where fe: "fibEntry_SetStrategy S (fs_heap fs e) strategy related = Inr fe"
      unfolding fibEntry_SetStrategy_def fibEntry_GetNexthops_def Let_def
      using ns_for_total[OF fs_ns[OF inv, of e], of "\<lambda>impl c. Inr (strategy_addNexthop S impl c)"] by (metis bind_res_simps(2))
    have "fib_change {} fs (fs_put fs e fe)"
      by (rule fib_change_put[OF assms(1)]) (use fe fs_ns[OF inv, of e] in \<open>auto simp: fibEntry_SetStrategy_def Let_def\<close>)
    then show ?thesis using Some has fe by (auto simp: processor_SetStrategy_def)
  }
qed

lemma SetPolicy_change: "fib_ok fs \<Longrightarrow> fib_change {} fs (fs_put fs e (fibEntry_SetPolicy id (fs_heap fs e) pol))"
  by (rule fib_change_put) (simp_all add: fibEntry_SetPolicy_def fib_ok_def fs_inv_def)

lemma fib_change_trans: "fib_change A fs fs1 \<Longrightarrow> fib_change A fs1 fs2 \<Longrightarrow> fib_change A fs fs2"
  by (auto simp: fib_change_def)

lemma fib_changeD:
  assumes "fib_change A fs fs'"
  shows "fib_ok fs'" "userData (fs_heap fs' e) = userData (fs_heap fs e)" "next_hops fs' \<subseteq> A \<union> next_hops fs"
  using assms by (simp_all add: fib_change_def)

lemma policy_change:
  assumes "fib_ok fs" "address_ok H a len"
  shows "\<exists>fs'. messageProcessor_AddOrUpdatePolicy H S id st fs a len pol = Inr fs' \<and> fib_change {} fs fs'"
    "\<exists>fs' b. messageProcessor_RemovePolicy H S id fs a len = Inr (fs', b) \<and> fib_change {} fs fs'"
proof -
  have inv: "fs_inv fs" using assms(1) by (simp add: fib_ok_def)
  obtain n bv where n: "name_CreateFromAddress H a len = Inr n" "content_name n = Some bv" "nb_valid bv"
    using address_name[OF assms(2)] by blast
  note has = ContainsName_ok[OF inv n(2,3)]
  show "\<exists>fs' b. messageProcessor_RemovePolicy H S id fs a len = Inr (fs', b) \<and> fib_change {} fs fs'"
    using has n(1) SetPolicy_change[OF assms(1)] fib_change_refl[OF assms(1)] by (auto simp: messageProcessor_RemovePolicy_def split: option.split)
  show "\<exists>fs'. messageProcessor_AddOrUpdatePolicy H S id st fs a len pol = Inr fs' \<and> fib_change {} fs fs'"
  proof (cases "fs_entry fs (nb_bits bv)")
    case (Some e)
    then show ?thesis using has n(1) SetPolicy_change[OF assms(1)] by (auto simp: messageProcessor_AddOrUpdatePolicy_def)
  next
    case None
    obtain fs1 e where al: "fs_alloc fs (fibEntry_Create S n st) = (fs1, e)" by (metis surj_pair)
    have "ns_inv (nexthops (fibEntry_Create S n st))" "ns_set (nexthops (fibEntry_Create S n st)) \<subseteq> {}" by (simp_all add: ns.empty_items ns_set_def)
    then obtain fs' where "fib_AddEntry H S fs1 e = Inr fs'" "fib_change {} fs fs'"
      using new_entry_change[OF assms(1) _ n(2,3) None _ _ _ al, of "{}" H S] by (auto simp: fibEntry_Create_def)
    then show ?thesis using has n(1) None al fib_change_trans[OF _ SetPolicy_change[OF fib_changeD(1)]]
      by (auto simp: messageProcessor_AddOrUpdatePolicy_def)
  qed
qed

section \<open>MAP-Me under control commands\<close>

lemma fold_res_total:
  assumes "P s" "\<And>s x. P s \<Longrightarrow> x \<in> set xs \<Longrightarrow> \<exists>s'. f s x = Inr s' \<and> P s'"
  shows "\<exists>s'. fold_res f s xs = Inr s' \<and> P s'"
  using assms
proof (induction xs arbitrary: s)
  case (Cons x xs)
  then obtain s1 where s1: "f s x = Inr s1" "P s1" by fastforce
  have "\<exists>s'. fold_res f s1 xs = Inr s' \<and> P s'" by (rule Cons.IH[OF s1(2)]) (use Cons.prems(2) in simp)
  then show ?case using s1(1) by simp
qed simp

text \<open>MAP-Me changes user data of entries of the trie only.\<close>

definition same_fib :: "('d, 't, 'l) fib_store \<Rightarrow> ('d, 't, 'l) fib_store \<Rightarrow> bool" where
  "same_fib fs fs' \<longleftrightarrow> fs_trie fs' = fs_trie fs \<and> fs_next fs' = fs_next fs \<and> (\<forall>e. (fs_heap fs' e)\<lparr>userData := None\<rparr> = (fs_heap fs e)\<lparr>userData := None\<rparr>) \<and>
     (\<forall>e\<ge>fs_next fs. fs_heap fs' e = fs_heap fs e)"

lemma same_fib_refl [simp]: "same_fib fs fs"
  by (simp add: same_fib_def)

lemma same_fib_trans: "same_fib fs fs1 \<Longrightarrow> same_fib fs1 fs2 \<Longrightarrow> same_fib fs fs2"
  by (simp add: same_fib_def)

lemma same_fibD:
  assumes "same_fib fs fs'"
  shows "fs_trie fs' = fs_trie fs" "fs_next fs' = fs_next fs" "fe_name (fs_heap fs' e) = fe_name (fs_heap fs e)" "nexthops (fs_heap fs' e) = nexthops (fs_heap fs e)"
    "fs_entry fs' = fs_entry fs" "fs_routes fs' = fs_routes fs" "next_hops fs' = next_hops fs" "fib_ok fs \<Longrightarrow> fib_ok fs'"
proof -
  show 1: "fs_trie fs' = fs_trie fs" "fs_next fs' = fs_next fs" using assms by (simp_all add: same_fib_def)
  have same: "fe_name (fs_heap fs' e) = fe_name (fs_heap fs e) \<and> nexthops (fs_heap fs' e) = nexthops (fs_heap fs e)" for e
  proof -
    have "(fs_heap fs' e)\<lparr>userData := None\<rparr> = (fs_heap fs e)\<lparr>userData := None\<rparr>" using assms by (simp add: same_fib_def)
    from arg_cong[OF this, of fe_name] arg_cong[OF this, of nexthops] show ?thesis by simp
  qed
  then show "fe_name (fs_heap fs' e) = fe_name (fs_heap fs e)" "nexthops (fs_heap fs' e) = nexthops (fs_heap fs e)" by simp_all
  have pfx: "fs_pfx fs' = fs_pfx fs" using same by (simp add: fs_pfx_def fibEntry_GetPrefix_def fun_eq_iff)
  show "fs_entry fs' = fs_entry fs" by (simp add: fs_entry_def pfx 1)
  then show "fs_routes fs' = fs_routes fs" using same by (simp add: fs_routes_def fun_eq_iff)
  then show "next_hops fs' = next_hops fs" by (simp add: next_hops_def)
  show "fib_ok fs \<Longrightarrow> fib_ok fs'" using assms same by (simp add: fib_ok_def fs_inv_def pfx 1) (simp add: same_fib_def)
qed

lemma same_fib_put: "e < fs_next fs \<Longrightarrow> same_fib fs (fs_put fs e ((fs_heap fs e)\<lparr>userData := u\<rparr>))"
  by (auto simp: same_fib_def)

text \<open>A state of MAP-Me in which the next hops of all routes are connections.\<close>

definition mm_ok :: "('d, 't, 'l, 'i, 'p, 'o, 'h) mm_ops \<Rightarrow> ('d, 't, 'l, 'i, 'p, 'o, 'h) MapMe \<Rightarrow> bool" where
  "mm_ok E s \<longleftrightarrow> hm_laws (mo_hm E) \<and> mm_inv E s \<and> fib_ok (mm_fib s) \<and> next_hops (mm_fib s) \<subseteq> dom (ct_lookup (mo_ct E) (mm_table s))"

definition mm_change :: "('d, 't, 'l, 'i, 'p, 'o, 'h) mm_ops \<Rightarrow> ('d, 't, 'l, 'i, 'p, 'o, 'h) MapMe \<Rightarrow> ('d, 't, 'l, 'i, 'p, 'o, 'h) MapMe \<Rightarrow> bool" where
  "mm_change E s s' \<longleftrightarrow> mm_ok E s' \<and> mm_table s' = mm_table s \<and> same_fib (mm_fib s) (mm_fib s')"

lemma mm_change_refl: "mm_ok E s \<Longrightarrow> mm_change E s s"
  by (simp add: mm_change_def)

lemma mm_changeI:
  assumes "mm_ok E s" "mm_inv E s'" "mm_table s' = mm_table s" "same_fib (mm_fib s) (mm_fib s')"
  shows "mm_change E s s'"
  using assms same_fibD(7,8)[OF assms(4)] by (simp add: mm_change_def mm_ok_def)

lemma mm_change_trans: "mm_change E s s1 \<Longrightarrow> mm_change E s1 s2 \<Longrightarrow> mm_change E s s2"
  using same_fib_trans by (auto simp: mm_change_def)

lemma send_updates_total:
  assumes ok: "mm_ok E s" and e: "e \<in> fib_used (fib_root (fs_trie (mm_fib s)))" and nhs: "FibEntry.resolved (ct_lookup (mo_ct E) (mm_table s)) nhs"
  shows "\<exists>s'. mapme_send_updates E now s e nhs = Inr s' \<and> mm_change E s s'"
proof -
  have hm: "hm_laws (mo_hm E)" and inv: "mm_inv E s" and fs: "fib_ok (mm_fib s)" using ok by (simp_all add: mm_ok_def)
  have lt: "e < fs_next (mm_fib s)" using fs used_in_entries[OF e] by (simp add: fib_ok_def fs_inv_def)
  define s1 where "s1 = (if TFIB s e = None then mapme_CreateTFIB E s e else s)"
  define s2 where "s2 = tfib_update (\<lambda>t. t\<lparr>tfib_seq := tfib_seq t + 1\<rparr>) s1 (the (TFIB s1 e))"
  note T = TFIB_or_new[OF hm inv s1_def]
  have s1: "mm_table s1 = mm_table s" "same_fib (mm_fib s) (mm_fib s1)"
    using CreateTFIB_fields[of s e E] same_fib_put[OF lt] by (auto simp: s1_def mm_entry_def)
  have s2: "mm_change E s s2" by (rule mm_changeI[OF ok]) (use T(1) s1 in \<open>simp_all add: s2_def tfib_update_inv\<close>)
  have nm: "content_name (fibEntry_GetPrefix (mm_entry s2 e)) \<noteq> None"
    using same_fibD(3)[of "mm_fib s" "mm_fib s2" e] s2 fs e by (simp add: mm_change_def mm_entry_def fibEntry_GetPrefix_def fib_ok_def)
  let ?f = "\<lambda>(clear_tfib, s) nexthop_id. case ct_lookup (mo_ct E) (mm_table s) nexthop_id of None \<Rightarrow> Inl NullDereference
     | Some conn \<Rightarrow> bind_res (mapme_setFacePending E now s (fibEntry_GetPrefix (mm_entry s2 e)) e nexthop_id True True clear_tfib 0) (\<lambda>(_, s). Inr (False, s))"
  have "\<exists>x. fold_res ?f (True, s2) (ns_items nhs) = Inr x \<and> mm_change E s (snd x)"
  proof (rule fold_res_total[where P = "\<lambda>x. mm_change E s (snd x)"])
    fix x :: "bool \<times> (_, _, _, _, _, _, _) MapMe" and c assume x: "mm_change E s (snd x)" "c \<in> set (ns_items nhs)"
    obtain b t where bt: "x = (b, t)" by (cases x)
    have t: "mm_ok E t" "mm_table t = mm_table s" using x(1) by (simp_all add: mm_change_def bt)
    obtain conn where "ct_lookup (mo_ct E) (mm_table t) c = Some conn" using x(2) nhs t(2) by (auto simp: FibEntry.resolved_def ns_set_def)
    moreover obtain b' t' where p: "mapme_setFacePending E now t (fibEntry_GetPrefix (mm_entry s2 e)) e c True True b 0 = Inr (b', t')"
      using setFacePending_total[OF hm _ nm, of t] t(1) unfolding mm_ok_def by blast
    moreover have "mm_inv E t' \<and> keeps t t'" by (rule setFacePending_inv[OF hm _ p]) (use t(1) in \<open>simp add: mm_ok_def\<close>)
    then have "mm_change E t t'" by (intro mm_changeI[OF t(1)]) (simp_all add: keeps_def)
    ultimately show "\<exists>y. ?f x c = Inr y \<and> mm_change E s (snd y)" using mm_change_trans[OF x(1)] by (simp add: bt)
  qed (simp add: s2)
  then obtain x where "fold_res ?f (True, s2) (ns_items nhs) = Inr x" "mm_change E s (snd x)" by blast
  moreover have "ns_inv nhs" using nhs by (simp add: FibEntry.resolved_def)
  ultimately show ?thesis
    unfolding mapme_send_updates_def Let_def s1_def[symmetric] s2_def[symmetric] by (cases x) (auto simp: ns_for_items)
qed

lemma local_loop_total:
  assumes "ns_inv nhs" "ns_set nhs \<subseteq> dom (ct_lookup C table)" "set js \<subseteq> {..<numberSet_Length nhs}"
  shows "\<exists>b. local_loop C table nhs js = Inr b"
  using assms(3)
proof (induction js)
  case (Cons j js)
  then have j: "numberSet_GetItem nhs j = Inr (ns_items nhs ! j)" "j < length (ns_items nhs)"
    using assms(1) by (simp_all add: numberSet_GetItem_def Length_items[symmetric] ns_items_def numberSet_Length_def ns_inv_def)
  then have "ns_items nhs ! j \<in> dom (ct_lookup C table)" using assms(2) nth_mem[of j "ns_items nhs"] unfolding ns_set_def by blast
  then obtain conn where "ct_lookup C table (ns_items nhs ! j) = Some conn" by blast
  moreover obtain b where "local_loop C table nhs js = Inr b" using Cons by auto
  ultimately show ?case using j(1) by (cases "connection_IsLocal conn") auto
qed auto

lemma reconsider_total:
  assumes "mm_ok E s" "e \<in> fib_used (fib_root (fs_trie (mm_fib s)))"
  shows "\<exists>s'. mapme_reconsiderFibEntry E now s e = Inr s' \<and> mm_change E s s'"
proof -
  have inv: "fs_inv (mm_fib s)" using assms(1) by (simp add: mm_ok_def fib_ok_def)
  have ns: "ns_inv (nexthops (mm_entry s e))" using fs_ns[OF inv] by (simp add: mm_entry_def)
  have "ns_set (nexthops (mm_entry s e)) \<subseteq> dom (ct_lookup (mo_ct E) (mm_table s))"
    using used_hops[OF inv assms(2)] assms(1) by (auto simp: mm_ok_def mm_entry_def)
  from local_loop_total[OF ns this, of "[0..<numberSet_Length (nexthops (mm_entry s e))]"] obtain b where b: "mapme_hasLocalNextHops E s e = Inr b"
    by (auto simp: mapme_hasLocalNextHops_def fibEntry_GetNexthops_def fibEntry_NexthopCount_def atLeast0LessThan)
  obtain nhs where nhs: "fibEntry_GetAvailableNextHops (mo_ct E) (mm_table s) (mm_entry s e) (- 1) = Inr nhs" "FibEntry.resolved (ct_lookup (mo_ct E) (mm_table s)) nhs"
    using available_spec[OF ns] by blast
  show ?thesis using b nhs(1) send_updates_total[OF assms nhs(2)] mm_change_refl[OF assms(1)] by (cases b) (simp_all add: mapme_reconsiderFibEntry_def)
qed

lemma onConnectionEvent_total:
  assumes "mm_ok E s"
  shows "\<exists>s'. mapme_onConnectionEvent E now s conn = Inr s' \<and> mm_change E s s'"
proof -
  have "\<exists>s'. fold_res (mapme_reconsiderFibEntry E now) s (messageProcessor_GetFibEntries (mm_fib s)) = Inr s' \<and> mm_change E s s'"
  proof (rule fold_res_total[where P = "mm_change E s", OF mm_change_refl[OF assms]])
    fix t e assume t: "mm_change E s t" "e \<in> set (messageProcessor_GetFibEntries (mm_fib s))"
    then have "e \<in> fib_used (fib_root (fs_trie (mm_fib t)))" using same_fibD(1) by (fastforce simp: messageProcessor_GetFibEntries_def mm_change_def)
    then show "\<exists>t'. mapme_reconsiderFibEntry E now t e = Inr t' \<and> mm_change E s t'"
      using reconsider_total[of E t e now] t(1) mm_change_trans[OF t(1)] by (auto simp: mm_change_def[of E s t])
  qed
  then show ?thesis using mm_change_refl[OF assms] by (simp add: mapme_onConnectionEvent_def)
qed

end
