(* ===== verification/Control.thy ===== *)
theory Control
  imports Configuration ControlFib
begin

text \<open>
  The invariant of the control plane, and that every handler of a command, the creation of connections and listeners and the processing of missives keep it and run without
  abort. The central part is that the next hops of all routes are connections of the table: MAP-Me looks each of them up and asserts that it is there. The theory \<open>ControlRuns\<close> has the
  properties.
\<close>

section \<open>The invariant\<close>

text \<open>
  The invariants of connection table, FIB, MAP-Me and symbolic names; identifiers of connections are below the next one, loss recovery holds no messages.
\<close>

definition conn_ok :: "Connection \<Rightarrow> bool" where
  "conn_ok conn \<longleftrightarrow> (case wldr conn of None \<Rightarrow> True | Some wl \<Rightarrow> (\<forall>i<BUFFER_SIZE. wb_message (wldr_buffer wl i) = None))"

definition fw_laws :: "('o \<Rightarrow> bool) \<Rightarrow> ('o \<Rightarrow> (connid \<times> nat) list) \<Rightarrow> ('d, 't, 'l, 'pt, 'ch, 'ct, 'i, 'p, 'o, 'h, 's, 'n, 'm) fw_ops \<Rightarrow> bool" where
  "fw_laws ok entries E \<longleftrightarrow> ct_ops_ok ok entries (fo_ct E) \<and> hm_laws (mo_hm (fo_mapme E)) \<and> sn_laws (fo_names E)"

abbreviation "fw_conns E fw \<equiv> ct_lookup (fo_ct E) (fw_table fw)"
abbreviation "fw_names E fw \<equiv> sn_map (fo_names E) (symbolicNames fw)"

definition ctl_base :: "('o \<Rightarrow> bool) \<Rightarrow> ('o \<Rightarrow> (connid \<times> nat) list) \<Rightarrow> ('d, 't, 'l, 'pt, 'ch, 'ct, 'i, 'p, 'o, 'h, 's, 'n, 'm) fw_ops \<Rightarrow> ('d, 't, 'l, 'pt, 'ch, 'ct, 'i, 'p, 'o, 'h, 's, 'n, 'm) forwarder \<Rightarrow> bool" where
  "ctl_base ok entries E fw \<longleftrightarrow>
     ct_inv ok entries (fo_ct E) (fw_table fw) \<and> (\<forall>i conn. fw_conns E fw i = Some conn \<longrightarrow> conn_ok conn \<and> i < nextConnectionid fw) \<and>
     fib_ok (fw_fib fw) \<and> mm_inv (fw_mm E) ((mapme fw)\<lparr>mm_fib := fw_fib fw\<rparr>) \<and>
     sn_inv (fo_names E) (symbolicNames fw) \<and> (\<forall>i\<in>ran (fw_names E fw). i < nextConnectionid fw)"

definition ctl_inv :: "('o \<Rightarrow> bool) \<Rightarrow> ('o \<Rightarrow> (connid \<times> nat) list) \<Rightarrow> ('d, 't, 'l, 'pt, 'ch, 'ct, 'i, 'p, 'o, 'h, 's, 'n, 'm) fw_ops \<Rightarrow> ('d, 't, 'l, 'pt, 'ch, 'ct, 'i, 'p, 'o, 'h, 's, 'n, 'm) forwarder \<Rightarrow> bool" where
  "ctl_inv ok entries E fw \<longleftrightarrow> ctl_base ok entries E fw \<and> next_hops (fw_fib fw) \<subseteq> dom (fw_conns E fw)"

lemma ctl_baseD:
  assumes "ctl_base ok entries E fw"
  shows "ct_inv ok entries (fo_ct E) (fw_table fw)" "fw_conns E fw i = Some conn \<Longrightarrow> conn_ok conn" "fw_conns E fw i = Some conn \<Longrightarrow> i < nextConnectionid fw"
    "fib_ok (fw_fib fw)" "mm_inv (fw_mm E) ((mapme fw)\<lparr>mm_fib := fw_fib fw\<rparr>)" "sn_inv (fo_names E) (symbolicNames fw)" "i \<in> ran (fw_names E fw) \<Longrightarrow> i < nextConnectionid fw"
  using assms unfolding ctl_base_def by blast+

lemma put_fields [simp]:
  "processor (fw_put_table fw t) = (processor fw)\<lparr>nd_table := t\<rparr>" "processor (fw_put_fib fw fs) = (processor fw)\<lparr>nd_fib := fs\<rparr>"
  "processor (fw_put_world fw w) = (processor fw)\<lparr>nd_world := w\<rparr>"
  "mapme (fw_put_table fw t) = mapme fw" "mapme (fw_put_fib fw fs) = mapme fw" "mapme (fw_put_world fw w) = mapme fw"
  "nextConnectionid (fw_put_table fw t) = nextConnectionid fw" "nextConnectionid (fw_put_fib fw fs) = nextConnectionid fw" "nextConnectionid (fw_put_world fw w) = nextConnectionid fw"
  "symbolicNames (fw_put_table fw t) = symbolicNames fw" "symbolicNames (fw_put_fib fw fs) = symbolicNames fw" "symbolicNames (fw_put_world fw w) = symbolicNames fw"
  by (simp_all add: fw_put_table_def fw_put_fib_def fw_put_world_def)

text \<open>The parts the invariant is about.\<close>

definition ctl_parts :: "('d, 't, 'l, 'pt, 'ch, 'ct, 'i, 'p, 'o, 'h, 's, 'n, 'm) forwarder \<Rightarrow> _" where
  "ctl_parts fw = (fw_table fw, fw_fib fw, mapme fw, symbolicNames fw, nextConnectionid fw)"

lemma ctl_cong:
  assumes "ctl_parts fw' = ctl_parts fw"
  shows "ctl_base ok entries E fw' = ctl_base ok entries E fw" "ctl_inv ok entries E fw' = ctl_inv ok entries E fw" "nextConnectionid fw' = nextConnectionid fw"
    "fw_conns E fw' = fw_conns E fw"
  using assms by (simp_all add: ctl_parts_def ctl_base_def ctl_inv_def)

lemma Send_parts [simp]: "ctl_parts (fw_Send fw ty i) = ctl_parts fw"
  by (simp add: fw_Send_def ctl_parts_def)

lemma Destroy_parts [simp]: "ctl_parts (ioOperations_Destroy fw io) = ctl_parts fw"
  by (simp add: ioOperations_Destroy_def Let_def)

lemma world_parts [simp]: "ctl_parts (fw_put_world fw w) = ctl_parts fw"
  by (simp add: ctl_parts_def)

text \<open>A call that runs without abort, keeps the invariant and takes at most \<open>n\<close> identifiers.\<close>

definition safe :: "('o \<Rightarrow> bool) \<Rightarrow> ('o \<Rightarrow> (connid \<times> nat) list) \<Rightarrow> ('d, 't, 'l, 'pt, 'ch, 'ct, 'i, 'p, 'o, 'h, 's, 'n, 'm) fw_ops \<Rightarrow> nat \<Rightarrow> ('d, 't, 'l, 'pt, 'ch, 'ct, 'i, 'p, 'o, 'h, 's, 'n, 'm) forwarder \<Rightarrow> ('d, 't, 'l, 'pt, 'ch, 'ct, 'i, 'p, 'o, 'h, 's, 'n, 'm) forwarder res \<Rightarrow> bool" where
  "safe ok entries E n fw r \<longleftrightarrow> (\<exists>fw'. r = Inr fw' \<and> ctl_inv ok entries E fw' \<and> unat (nextConnectionid fw') \<le> unat (nextConnectionid fw) + n)"

lemma safe_bind:
  assumes "safe ok entries E n fw r"
    "\<And>fw'. r = Inr fw' \<Longrightarrow> ctl_inv ok entries E fw' \<Longrightarrow> unat (nextConnectionid fw') \<le> unat (nextConnectionid fw) + n \<Longrightarrow> safe ok entries E m fw' (f fw')"
  shows "safe ok entries E (n + m) fw (bind_res r f)"
  using assms by (fastforce simp: safe_def)

lemma safe_parts: "ctl_inv ok entries E fw \<Longrightarrow> ctl_parts fw' = ctl_parts fw \<Longrightarrow> safe ok entries E n fw (Inr fw')"
  using ctl_cong(2,3)[of fw' fw] by (simp add: safe_def)

lemma safe_refl: "ctl_inv ok entries E fw \<Longrightarrow> safe ok entries E n fw (Inr fw)"
  by (rule safe_parts) simp_all

section \<open>MAP-Me\<close>

lemma mm_inv_parts [simp]: "mm_inv E (s\<lparr>mm_table := t\<rparr>) = mm_inv E s" "mm_inv E (s\<lparr>mm_world := w\<rparr>) = mm_inv E s"
proof -
  have "TFIB (s\<lparr>mm_table := t\<rparr>) = TFIB s" "TFIB (s\<lparr>mm_world := w\<rparr>) = TFIB s" by (simp_all add: TFIB_def mm_entry_def fun_eq_iff)
  moreover from this have "slots E (s\<lparr>mm_table := t\<rparr>) = slots E s" "slots E (s\<lparr>mm_world := w\<rparr>) = slots E s"
    by (auto simp: slots_def fun_eq_iff split: option.split)
  ultimately show "mm_inv E (s\<lparr>mm_table := t\<rparr>) = mm_inv E s" "mm_inv E (s\<lparr>mm_world := w\<rparr>) = mm_inv E s" by (simp_all add: mm_inv_def refs_ok_def)
qed

lemma fw_mm_fields [simp]: "mo_ct (fw_mm E) = fo_ct E" "mo_st (fw_mm E) = fo_st E" "mo_hm (fw_mm E) = mo_hm (fo_mapme E)" "mo_hash (fw_mm E) = fo_hash E"
  by (simp_all add: fw_mm_def)

lemma enter_fields [simp]: "mm_fib (mapme_enter fw) = fw_fib fw" "mm_table (mapme_enter fw) = fw_table fw" "mm_world (mapme_enter fw) = fw_world fw"
  by (simp_all add: mapme_enter_def)

lemma enter_ok:
  assumes "fw_laws ok entries E" "ctl_inv ok entries E fw"
  shows "mm_ok (fw_mm E) (mapme_enter fw)"
  using assms by (simp add: mm_ok_def fw_laws_def ctl_inv_def ctl_base_def mapme_enter_def)

lemma leave_ok:
  assumes "ctl_inv ok entries E fw" "mm_change (fw_mm E) (mapme_enter fw) s"
  shows "safe ok entries E 0 fw (Inr (mapme_leave fw s))"
proof -
  have s: "mm_ok (fw_mm E) s" "mm_table s = fw_table fw" "same_fib (fw_fib fw) (mm_fib s)" using assms(2) by (simp_all add: mm_change_def)
  moreover have "s\<lparr>mm_fib := mm_fib s\<rparr> = s" by simp
  ultimately show ?thesis using assms(1) same_fibD(7)[OF s(3)] by (simp add: safe_def ctl_inv_def ctl_base_def mapme_leave_def mm_ok_def)
qed

lemma event_safe:
  assumes "fw_laws ok entries E" "ctl_inv ok entries E fw"
  shows "safe ok entries E 0 fw (forwarder_onConnectionEvent E now fw conn)"
proof -
  obtain s where "mapme_onConnectionEvent (fw_mm E) now (mapme_enter fw) conn = Inr s" "mm_change (fw_mm E) (mapme_enter fw) s"
    using onConnectionEvent_total[OF enter_ok[OF assms]] by blast
  then show ?thesis using leave_ok[OF assms(2)] by (simp add: forwarder_onConnectionEvent_def)
qed

lemma reconsider_safe:
  assumes "fw_laws ok entries E" "ctl_inv ok entries E fw" "address_ok (fo_hash E) a len"
  shows "safe ok entries E 0 fw (reconsider_prefix E now fw a len)"
proof -
  have inv: "fs_inv (fw_fib fw)" using assms(2) by (simp add: ctl_inv_def ctl_base_def fib_ok_def)
  obtain n bv where n: "name_CreateFromAddress (fo_hash E) a len = Inr n" "content_name n = Some bv" "nb_valid bv"
    using address_name[OF assms(3)] by blast
  have "safe ok entries E 0 fw (bind_res (mapme_reconsiderFibEntry (fw_mm E) now (mapme_enter fw) e) (\<lambda>s. Inr (mapme_leave fw s)))"
    if e: "fs_entry (fw_fib fw) (nb_bits bv) = Some e" for e
  proof -
    obtain s where "mapme_reconsiderFibEntry (fw_mm E) now (mapme_enter fw) e = Inr s" "mm_change (fw_mm E) (mapme_enter fw) s"
      using reconsider_total[OF enter_ok[OF assms(1,2)], of e now] fs_entry_in(1)[OF inv e] by auto
    then show ?thesis using leave_ok[OF assms(2)] by simp
  qed
  then show ?thesis using n(1) ContainsName_ok[OF inv n(2,3)] safe_refl[OF assms(2)] by (simp add: reconsider_prefix_def split: option.split)
qed

section \<open>Routes and connections\<close>

lemma put_fib_base:
  assumes "ctl_base ok entries E fw" "fib_change A (fw_fib fw) fs"
  shows "ctl_base ok entries E (fw_put_fib fw fs)"
proof -
  have "mm_inv (fw_mm E) ((mapme fw)\<lparr>mm_fib := fw_fib fw\<rparr>\<lparr>mm_fib := fs, mm_table := mm_table (mapme fw), mm_world := mm_world (mapme fw)\<rparr>)"
    by (rule forwarder_inv[OF ctl_baseD(5)[OF assms(1)]]) (simp add: mm_entry_def fib_changeD(2)[OF assms(2)])
  then show ?thesis using assms fib_changeD(1)[OF assms(2)] by (simp add: ctl_base_def)
qed

lemma put_fib_safe:
  assumes "ctl_inv ok entries E fw" "fib_change A (fw_fib fw) fs" "A \<subseteq> dom (fw_conns E fw)"
  shows "safe ok entries E n fw (Inr (fw_put_fib fw fs))"
  using put_fib_base[OF _ assms(2)] assms(1,3) fib_changeD(3)[OF assms(2)] by (auto simp: safe_def ctl_inv_def)

lemma heap_update:
  assumes "ct_inv ok entries C t" "connectionTable_FindById C t i = Some ref" "connection_GetConnectionId conn = i"
    "connection_GetAddressPair conn = connection_GetAddressPair (ct_heap t ref)" "0 < conn_refCount conn"
  shows "ct_inv ok entries C (t\<lparr>ct_heap := (ct_heap t)(ref := conn)\<rparr>)" "ct_lookup C (t\<lparr>ct_heap := (ct_heap t)(ref := conn)\<rparr>) = (ct_lookup C t)(i \<mapsto> conn)"
proof -
  note k = ct_invD[OF assms(1)]
  have id: "connection_GetConnectionId (((ct_heap t)(ref := conn)) r) = connection_GetConnectionId (ct_heap t r)"
    "connection_GetAddressPair (((ct_heap t)(ref := conn)) r) = connection_GetAddressPair (ct_heap t r)" for r
    using assms(3,4) k(2)[OF assms(2)] by simp_all
  show "ct_inv ok entries C (t\<lparr>ct_heap := (ct_heap t)(ref := conn)\<rparr>)"
    using assms(1,5) unfolding ct_inv_def ct_defs by (simp add: id del: fun_upd_apply) (simp add: fun_upd_def)
  have "r \<noteq> ref" if "connectionTable_FindById C t j = Some r" "j \<noteq> i" for j r using k(2)[OF that(1)] k(2)[OF assms(2)] that(2) by auto
  then show "ct_lookup C (t\<lparr>ct_heap := (ct_heap t)(ref := conn)\<rparr>) = (ct_lookup C t)(i \<mapsto> conn)"
    using assms(2) by (auto simp: ct_lookup_def ct_defs fun_eq_iff intro!: option.map_cong0)
qed

lemma live_iff: "i \<in> dom (fw_conns E fw) \<longleftrightarrow> fw_find E fw i \<noteq> None"
  by (auto simp: ct_lookup_def)

lemma found:
  assumes "ctl_base ok entries E fw" "fw_find E fw i = Some ref"
  shows "fw_conns E fw i = Some (ct_heap (fw_table fw) ref)" "connection_GetConnectionId (ct_heap (fw_table fw) ref) = i"
    "0 < conn_refCount (ct_heap (fw_table fw) ref)" "conn_ok (ct_heap (fw_table fw) ref)"
proof -
  show c: "fw_conns E fw i = Some (ct_heap (fw_table fw) ref)" using assms(2) by (simp add: ct_lookup_def)
  show "conn_ok (ct_heap (fw_table fw) ref)" by (rule ctl_baseD(2)[OF assms(1) c])
  show "connection_GetConnectionId (ct_heap (fw_table fw) ref) = i" "0 < conn_refCount (ct_heap (fw_table fw) ref)"
    using ct_invD(2,3)[OF ctl_baseD(1)[OF assms(1)] assms(2)] by simp_all
qed

lemma put_conn_safe:
  assumes "ctl_inv ok entries E fw" "fw_find E fw i = Some ref" "connection_GetConnectionId conn = i"
    "connection_GetAddressPair conn = connection_GetAddressPair (ct_heap (fw_table fw) ref)" "conn_refCount conn = conn_refCount (ct_heap (fw_table fw) ref)" "conn_ok conn"
  shows "safe ok entries E n fw (Inr (fw_put_conn fw ref conn))"
proof -
  have base: "ctl_base ok entries E fw" using assms(1) by (simp add: ctl_inv_def)
  note f = found[OF base assms(2)]
  have "0 < conn_refCount conn" using f(3) assms(5) by simp
  note t = heap_update[OF ctl_baseD(1)[OF base] assms(2-4) this]
  let ?fw = "fw_put_conn fw ref conn"
  have look: "fw_conns E ?fw = (fw_conns E fw)(i \<mapsto> conn)" using t(2) by (simp add: fw_put_conn_def)
  have "conn_ok c \<and> j < nextConnectionid fw" if "fw_conns E ?fw j = Some c" for j c
    using that assms(6) ctl_baseD(2,3)[OF base] f(1) unfolding look by (auto split: if_splits)
  then have "ctl_base ok entries E ?fw" using base t(1) by (simp add: ctl_base_def fw_put_conn_def)
  then show ?thesis using assms(1) f(1) look by (auto simp: safe_def ctl_inv_def) (auto simp: fw_put_conn_def)
qed

lemma no_messages:
  assumes "\<forall>i<BUFFER_SIZE. wb_message (wldr_buffer wl i) = None"
  shows "wldr_Destroy w wl = Inr w"
proof -
  have "(\<forall>i\<in>set is. wb_message (wldr_buffer wl i) = None) \<Longrightarrow>
    foldl (\<lambda>acc i. bind_res acc (\<lambda>w. case wb_message (wldr_buffer wl i) of None \<Rightarrow> Inr w | Some r \<Rightarrow> w_Release w r)) (Inr w) is = Inr w" for "is"
    by (induction "is") simp_all
  then show ?thesis using assms by (simp add: wldr_Destroy_def)
qed

lemma Release_total: "conn_ok conn \<Longrightarrow> 0 < conn_refCount conn \<Longrightarrow> \<exists>c. connection_Release conn w = Inr (c, w)"
  by (auto simp: connection_Release_def conn_ok_def Let_def no_messages split: option.splits)

lemma Disable_total:
  assumes "conn_ok conn"
  shows "\<exists>c. connection_DisableWldr conn w = Inr (c, w) \<and> conn_ok c \<and> ops c = ops conn \<and> conn_refCount c = conn_refCount conn"
  using assms by (auto simp: connection_DisableWldr_def conn_ok_def no_messages split: option.splits)

lemma Remove_base:
  assumes laws: "fw_laws ok entries E" and base: "ctl_base ok entries E fw" and ref: "fw_find E fw i = Some ref"
  shows "\<exists>fw'. fw_Remove E fw ref = Inr fw' \<and> ctl_base ok entries E fw' \<and> fw_conns E fw' = (fw_conns E fw)(i := None) \<and> fw_fib fw' = fw_fib fw \<and>
    nextConnectionid fw' = nextConnectionid fw \<and> symbolicNames fw' = symbolicNames fw"
proof -
  have C: "ct_ops_ok ok entries (fo_ct E)" using laws by (simp add: fw_laws_def)
  note f = found[OF base ref]
  obtain c where c: "connection_Release (ct_heap (fw_table fw) ref) (fw_world fw) = Inr (c, fw_world fw)" using Release_total[OF f(4,3)] by blast
  obtain t where t: "connectionTable_RemoveById (fo_ct E) (fw_table fw) (fw_world fw) i = Inr (t, fw_world fw)" "ct_inv ok entries (fo_ct E) t"
    "ct_lookup (fo_ct E) t = (fw_conns E fw)(i := None)"
    using connectionTable_Remove_ok[OF C ctl_baseD(1)[OF base] ref c] by (elim exE conjE)
  let ?fw = "fw_put_world (fw_put_table fw t) (fw_world fw)"
  let ?fw' = "if conn_refCount (ct_heap (fw_table fw) ref) = 1 then ioOperations_Destroy ?fw (ops (ct_heap (fw_table fw) ref)) else ?fw"
  have res: "fw_Remove E fw ref = Inr ?fw'" using t(1) ref by (simp add: fw_Remove_def connectionTable_RemoveById_def Let_def)
  have parts: "ctl_parts ?fw' = ctl_parts (fw_put_table fw t)" by simp
  have "ctl_base ok entries E (fw_put_table fw t)" using base t(2,3) by (simp add: ctl_base_def)
  then have "ctl_base ok entries E ?fw'" using ctl_cong(1)[OF parts] by blast
  moreover have "fw_conns E ?fw' = (fw_conns E fw)(i := None)" using ctl_cong(4)[OF parts, of E] t(3) by simp
  ultimately show ?thesis using res parts by (intro exI[of _ ?fw']) (simp add: ctl_parts_def)
qed

lemma remove_connection_safe:
  assumes "fw_laws ok entries E" "ctl_inv ok entries E fw"
  shows "safe ok entries E 0 fw (remove_connection E fw i)"
proof -
  let ?fw = "forwarder_RemoveConnectionIdFromRoutes E fw i"
  have base: "ctl_base ok entries E fw" using assms(2) by (simp add: ctl_inv_def)
  note R = RemoveConnectionId_change[OF ctl_baseD(4)[OF base], where S = "fo_st E" and c = i]
  have 1: "ctl_base ok entries E ?fw" using put_fib_base[OF base R(1)] by (simp add: forwarder_RemoveConnectionIdFromRoutes_def)
  have eq: "fw_conns E ?fw = fw_conns E fw" "nextConnectionid ?fw = nextConnectionid fw" by (simp_all add: forwarder_RemoveConnectionIdFromRoutes_def)
  have hops: "next_hops (fw_fib ?fw) \<subseteq> dom (fw_conns E fw) - {i}"
    using R(2) fib_changeD(3)[OF R(1)] assms(2) by (auto simp: forwarder_RemoveConnectionIdFromRoutes_def ctl_inv_def)
  show ?thesis
  proof (cases "fw_find E ?fw i")
    case None
    then show ?thesis using 1 eq hops by (auto simp: remove_connection_def fw_RemoveById_def safe_def ctl_inv_def)
  next
    case (Some ref)
    obtain fw' where "fw_Remove E ?fw ref = Inr fw'" "ctl_base ok entries E fw'" "fw_conns E fw' = (fw_conns E ?fw)(i := None)" "fw_fib fw' = fw_fib ?fw"
      "nextConnectionid fw' = nextConnectionid ?fw" using Remove_base[OF assms(1) 1 Some] by (elim exE conjE)
    then show ?thesis using Some hops unfolding eq by (auto simp: remove_connection_def fw_RemoveById_def safe_def ctl_inv_def)
  qed
qed

lemma Process_exact:
  assumes "fw_laws ok entries E" "ctl_inv ok entries E fw"
  shows "\<exists>fw'. connectionManager_Process E fw missive = Inr fw' \<and> ctl_inv ok entries E fw' \<and> nextConnectionid fw' = nextConnectionid fw \<and>
    dom (fw_conns E fw') = dom (fw_conns E fw) - (if missive_GetType missive = MissiveType_ConnectionClosed then {missive_GetConnectionId missive} else {})"
proof (cases "missive_GetType missive = MissiveType_ConnectionClosed")
  case True
  have base: "ctl_base ok entries E fw" using assms(2) by (simp add: ctl_inv_def)
  let ?i = "missive_GetConnectionId missive"
  have eq: "connectionManager_Process E fw missive = connectionManager_ProcessClosedMissive E fw missive" using True by (simp add: connectionManager_Process_def)
  show ?thesis
  proof (cases "fw_find E fw ?i")
    case None
    then show ?thesis using assms(2) live_iff[of ?i E fw] by (auto simp: eq connectionManager_ProcessClosedMissive_def Let_def)
  next
    case (Some ref)
    obtain fw' where fw': "fw_Remove E fw ref = Inr fw'" "ctl_base ok entries E fw'" "fw_conns E fw' = (fw_conns E fw)(?i := None)" "fw_fib fw' = fw_fib fw"
      "nextConnectionid fw' = nextConnectionid fw" using Remove_base[OF assms(1) base Some] by (elim exE conjE)
    let ?fw = "forwarder_RemoveConnectionIdFromRoutes E fw' ?i"
    note R = RemoveConnectionId_change[OF ctl_baseD(4)[OF base], where S = "fo_st E" and c = ?i]
    have "ctl_base ok entries E ?fw" using put_fib_base[OF fw'(2)] R(1) fw'(4) by (simp add: forwarder_RemoveConnectionIdFromRoutes_def)
    moreover have "next_hops (fw_fib ?fw) \<subseteq> dom (fw_conns E fw')"
      using R(2) fib_changeD(3)[OF R(1)] assms(2) fw'(3,4) by (auto simp: forwarder_RemoveConnectionIdFromRoutes_def ctl_inv_def)
    moreover have "fw_conns E ?fw = fw_conns E fw'" "nextConnectionid ?fw = nextConnectionid fw" using fw'(5) by (simp_all add: forwarder_RemoveConnectionIdFromRoutes_def)
    ultimately show ?thesis using fw'(1,3) Some True by (auto simp: eq connectionManager_ProcessClosedMissive_def ctl_inv_def Let_def)
  qed
qed (use assms(2) in \<open>auto simp: connectionManager_Process_def split: MissiveType.split\<close>)

text \<open>A fresh connection, with the identifier just taken.\<close>

lemma NextId_eq: "forwarder_GetNextConnectionId fw = (i, fw') \<longleftrightarrow> i = nextConnectionid fw \<and> fw' = fw\<lparr>nextConnectionid := i + 1\<rparr>"
  by (auto simp: forwarder_GetNextConnectionId_def)

lemma next_less:
  assumes "unat (n :: u32) + 1 < 2 ^ 32"
  shows "unat (n + 1) = unat n + 1" "n < n + 1" "i < n \<Longrightarrow> i < n + 1" "n \<noteq> UINT32_MAX"
proof -
  show 1: "unat (n + 1) = unat n + 1" using assms by (simp add: unat_word_ariths)
  then show "n < n + 1" "i < n \<Longrightarrow> i < n + 1" by (simp_all add: word_less_nat_alt)
  show "n \<noteq> UINT32_MAX" using 1 by auto
qed

lemma take_id_safe:
  assumes "ctl_inv ok entries E fw" "unat (nextConnectionid fw) + 1 < 2 ^ 32"
  shows "safe ok entries E 1 fw (Inr (fw\<lparr>nextConnectionid := nextConnectionid fw + 1\<rparr>))"
  using assms(1) next_less[OF assms(2)] by (auto simp: safe_def ctl_inv_def ctl_base_def)

definition fresh_for :: "('d, 't, 'l, 'pt, 'ch, 'ct, 'i, 'p, 'o, 'h, 's, 'n, 'm) fw_ops \<Rightarrow> ('d, 't, 'l, 'pt, 'ch, 'ct, 'i, 'p, 'o, 'h, 's, 'n, 'm) forwarder \<Rightarrow> Connection \<Rightarrow> bool" where
  "fresh_for E fw conn \<longleftrightarrow> conn_ok conn \<and> 0 < conn_refCount conn \<and> fw_conns E fw (connection_GetConnectionId conn) = None \<and>
     connection_GetConnectionId conn \<notin> ran (fw_names E fw) \<and> connection_GetConnectionId conn < nextConnectionid fw \<and> connection_GetConnectionId conn \<noteq> UINT32_MAX"

lemma add_safe:
  assumes "fw_laws ok entries E" "ctl_inv ok entries E fw" "fresh_for E fw conn"
  shows "\<exists>fw'. fw_AddConnection E fw conn = Inr fw' \<and> ctl_inv ok entries E fw' \<and> nextConnectionid fw' = nextConnectionid fw \<and> symbolicNames fw' = symbolicNames fw \<and>
    fw_conns E fw' = (fw_conns E fw)(connection_GetConnectionId conn \<mapsto> conn)"
proof -
  have C: "ct_ops_ok ok entries (fo_ct E)" using assms(1) by (simp add: fw_laws_def)
  have base: "ctl_base ok entries E fw" using assms(2) by (simp add: ctl_inv_def)
  have conn: "conn_ok conn" "0 < conn_refCount conn" "fw_conns E fw (connection_GetConnectionId conn) = None" "connection_GetConnectionId conn < nextConnectionid fw"
    using assms(3) by (simp_all add: fresh_for_def)
  obtain t where t: "connectionTable_Add (fo_ct E) (fw_table fw) conn = Inr t" "ct_inv ok entries (fo_ct E) t"
    "ct_lookup (fo_ct E) t = (fw_conns E fw)(connection_GetConnectionId conn \<mapsto> conn)"
    using connectionTable_Add_ok[OF C ctl_baseD(1)[OF base] conn(2,3)] by (elim exE conjE)
  have "conn_ok c \<and> j < nextConnectionid fw" if "ct_lookup (fo_ct E) t j = Some c" for j c
    using that conn(1,4) ctl_baseD(2,3)[OF base] unfolding t(3) by (auto split: if_splits)
  then have "ctl_inv ok entries E (fw_put_table fw t)" using assms(2) t(2,3) by (auto simp: ctl_inv_def ctl_base_def)
  then show ?thesis using t(1,3) by (intro exI[of _ "fw_put_table fw t"]) (simp add: fw_AddConnection_def)
qed

text \<open>The constructors of connections: nothing, or operations with an identifier that is new.\<close>

definition makes :: "('o \<Rightarrow> bool) \<Rightarrow> ('o \<Rightarrow> (connid \<times> nat) list) \<Rightarrow> ('d, 't, 'l, 'pt, 'ch, 'ct, 'i, 'p, 'o, 'h, 's, 'n, 'm) fw_ops \<Rightarrow> ('d, 't, 'l, 'pt, 'ch, 'ct, 'i, 'p, 'o, 'h, 's, 'n, 'm) forwarder \<Rightarrow> ('d, 't, 'l, 'pt, 'ch, 'ct, 'i, 'p, 'o, 'h, 's, 'n, 'm) forwarder \<times> IoOperations option \<Rightarrow> bool" where
  "makes ok entries E fw p \<longleftrightarrow> (case p of (fw', io) \<Rightarrow>
     ctl_inv ok entries E fw' \<and> unat (nextConnectionid fw') \<le> unat (nextConnectionid fw) + 1 \<and>
     (case io of None \<Rightarrow> True | Some io \<Rightarrow> fresh_for E fw' (connection_Create io)))"

lemma makes_None: "ctl_inv ok entries E fw \<Longrightarrow> makes ok entries E fw (fw, None)"
  by (simp add: makes_def)

lemma forwarder_Create_fields [simp]:
  "conn_ok (connection_Create io)" "conn_refCount (connection_Create io) = 1" "connection_GetConnectionId (connection_Create io) = io_connectionId io"
  "connection_GetAddressPair (connection_Create io) = io_addressPair io"
  by (simp_all add: connection_Create_def connection_SetAdminState_def conn_ok_def connection_GetConnectionId_def connection_GetAddressPair_def)

lemma makes_fresh:
  assumes "ctl_inv ok entries E fw" "unat (nextConnectionid fw) + 1 < 2 ^ 32"
    "ctl_parts fw' = ctl_parts (fw\<lparr>nextConnectionid := nextConnectionid fw + 1\<rparr>)" "io_connectionId io = nextConnectionid fw"
  shows "makes ok entries E fw (fw', Some io)"
proof -
  have base: "ctl_base ok entries E fw" using assms(1) by (simp add: ctl_inv_def)
  note n = next_less[OF assms(2)]
  have 1: "ctl_inv ok entries E fw'" "unat (nextConnectionid fw') \<le> unat (nextConnectionid fw) + 1"
    using take_id_safe[OF assms(1,2)] ctl_cong(2,3)[OF assms(3)] by (simp_all add: safe_def)
  have parts: "fw_conns E fw' = fw_conns E fw" "symbolicNames fw' = symbolicNames fw" "nextConnectionid fw' = nextConnectionid fw + 1"
    using assms(3) by (simp_all add: ctl_parts_def)
  have "fw_conns E fw (nextConnectionid fw) = None" using ctl_baseD(3)[OF base] by (cases "fw_conns E fw (nextConnectionid fw)") auto
  moreover have "nextConnectionid fw \<notin> ran (fw_names E fw)" using ctl_baseD(7)[OF base] by blast
  ultimately have "fresh_for E fw' (connection_Create io)" using n assms(4) parts by (simp add: fresh_for_def)
  then show ?thesis using 1 by (simp add: makes_def)
qed

lemma udpConnection_makes:
  assumes "ctl_inv ok entries E fw" "unat (nextConnectionid fw) + 1 < 2 ^ 32"
  shows "makes ok entries E fw (udpConnection_Create E fw ifname pair isLocal)"
proof (cases "addressType (ap_remote pair) = AT_INET \<or> addressType (ap_remote pair) = AT_INET6")
  case True
  then show ?thesis unfolding udpConnection_Create_def forwarder_GetNextConnectionId_def Let_def
    by (simp del: One_nat_def) (rule makes_fresh[OF assms], simp_all add: fresh_io_def)
qed (use makes_None[OF assms(1)] in \<open>simp add: udpConnection_Create_def\<close>)

lemma Open_makes:
  assumes "ctl_inv ok entries E fw" "unat (nextConnectionid fw) + 1 < 2 ^ 32"
  shows "makes ok entries E fw (streamConnection_OpenConnection E fw pair isLocal)"
proof (cases "fo_connect E pair")
  case True
  then show ?thesis unfolding streamConnection_OpenConnection_def forwarder_GetNextConnectionId_def Let_def
    by simp (rule makes_fresh[OF assms], simp_all add: fresh_io_def)
qed (use makes_None[OF assms(1)] in \<open>simp add: streamConnection_OpenConnection_def\<close>)

lemma Accept_makes:
  assumes "ctl_inv ok entries E fw" "unat (nextConnectionid fw) + 1 < 2 ^ 32" "streamConnection_AcceptConnection E fw pair isLocal = (fw', io)"
  shows "makes ok entries E fw (fw', Some io)"
  using assms(3) unfolding streamConnection_AcceptConnection_def forwarder_GetNextConnectionId_def Let_def
  by (intro makes_fresh[OF assms(1,2)]) (auto simp: fresh_io_def)

lemma tunnel_makes:
  assumes "ctl_inv ok entries E fw" "unat (nextConnectionid fw) + 1 < 2 ^ 32"
  shows "makes ok entries E fw (create_tunnel_io E fw ty source destination)"
  using udpConnection_makes[OF assms] Open_makes[OF assms] makes_None[OF assms(1)]
  by (simp add: create_tunnel_io_def tcpTunnel_Create_def udpTunnel_Create_def udpTunnel_CreateOnListener_def Let_def split: option.split)

lemma tunnel_names: "create_tunnel_io E fw ty source destination = (fw', io) \<Longrightarrow> symbolicNames fw' = symbolicNames fw"
  by (auto simp: create_tunnel_io_def tcpTunnel_Create_def udpTunnel_Create_def udpTunnel_CreateOnListener_def udpConnection_Create_def streamConnection_OpenConnection_def
      forwarder_GetNextConnectionId_def fw_Send_def Let_def split: if_splits option.splits)

lemma makes_cases:
  assumes "makes ok entries E fw (fw', io)"
  shows "ctl_inv ok entries E fw'" "unat (nextConnectionid fw') \<le> unat (nextConnectionid fw) + 1" "io = Some x \<Longrightarrow> fresh_for E fw' (connection_Create x)"
  using assms by (simp_all add: makes_def)

lemma udpConnection_rest:
  assumes "udpConnection_Create E fw ifname pair isLocal = (fw', io)"
  shows "fw_conns E fw' = fw_conns E fw" "symbolicNames fw' = symbolicNames fw"
  using assms by (auto simp: udpConnection_Create_def forwarder_GetNextConnectionId_def fw_Send_def Let_def split: if_splits)

lemma createNew_safe:
  assumes "fw_laws ok entries E" "ctl_inv ok entries E fw" "unat (nextConnectionid fw) + 1 < 2 ^ 32"
    "addressType (ap_remote pair) = AT_INET \<or> addressType (ap_remote pair) = AT_INET6"
  shows "\<exists>fw' i. createNewConnection E fw listener pair = Inr (fw', i) \<and> ctl_inv ok entries E fw' \<and> unat (nextConnectionid fw') \<le> unat (nextConnectionid fw) + 1 \<and>
    symbolicNames fw' = symbolicNames fw \<and> insert i (dom (fw_conns E fw)) \<subseteq> dom (fw_conns E fw')"
proof -
  let ?p = "udpConnection_Create E fw (ls_interfaceName listener) pair (fo_isSocketLocal E (ap_local pair))"
  obtain fw1 io where io: "?p = (fw1, Some io)" using assms(4) by (simp add: udpConnection_Create_def forwarder_GetNextConnectionId_def Let_def)
  note m = makes_cases[OF udpConnection_makes[OF assms(2,3), of "ls_interfaceName listener" pair "fo_isSocketLocal E (ap_local pair)", unfolded io]]
  obtain fw' where "fw_AddConnection E fw1 (connection_Create io) = Inr fw'" "ctl_inv ok entries E fw'" "nextConnectionid fw' = nextConnectionid fw1"
    "symbolicNames fw' = symbolicNames fw1" "fw_conns E fw' = (fw_conns E fw1)(connection_GetConnectionId (connection_Create io) \<mapsto> connection_Create io)"
    using add_safe[OF assms(1) m(1) m(3)[OF refl]] by (elim exE conjE)
  then show ?thesis using io m(2) udpConnection_rest[OF io] by (auto simp: createNewConnection_def)
qed

lemma Listen_safe:
  assumes "fw_laws ok entries E" "ctl_inv ok entries E fw" "unat (nextConnectionid fw) + 1 < 2 ^ 32"
  shows "safe ok entries E 1 fw (tcpListener_Listen E fw tcp remote)"
proof -
  obtain fw1 io where io: "streamConnection_AcceptConnection E fw (addressPair_Create (ls_address tcp) remote) (fo_isSocketLocal E (ls_address tcp)) = (fw1, io)"
    by (metis surj_pair)
  note m = makes_cases[OF Accept_makes[OF assms(2,3) io]]
  show ?thesis using add_safe[OF assms(1) m(1) m(3)[OF refl]] io m(2) by (auto simp: tcpListener_Listen_def safe_def)
qed

lemma AddListener_safe:
  assumes "ctl_inv ok entries E fw" "unat (nextConnectionid fw) + 1 < 2 ^ 32"
  shows "safe ok entries E 1 fw (Inr (fst (fw_AddListener (udpListener_Create E fw n a ifn))))"
    "safe ok entries E 1 fw (Inr (fst (fw_AddListener (tcpListener_Create E fw n a ifn))))"
proof -
  let ?fw = "fw\<lparr>nextConnectionid := nextConnectionid fw + 1\<rparr>"
  obtain fw' where "Inr ?fw = (Inr fw' :: _ res)" "ctl_inv ok entries E fw'" "unat (nextConnectionid fw') \<le> unat (nextConnectionid fw) + 1"
    using take_id_safe[OF assms] unfolding safe_def by blast
  then have t: "ctl_inv ok entries E ?fw" "unat (nextConnectionid ?fw) \<le> unat (nextConnectionid fw) + 1" by simp_all
  have "ctl_parts (fst (fw_AddListener (udpListener_Create E fw n a ifn))) = ctl_parts ?fw"
    by (auto simp: udpListener_Create_def fw_AddListener_def forwarder_GetNextConnectionId_def ctl_parts_def Let_def split: prod.split)
  then show "safe ok entries E 1 fw (Inr (fst (fw_AddListener (udpListener_Create E fw n a ifn))))"
    using t ctl_cong(2,3) unfolding safe_def by metis
  have "ctl_parts (fst (fw_AddListener (tcpListener_Create E fw n a ifn))) = (if fo_bind E ENCAP_TCP a ifn then ctl_parts ?fw else ctl_parts fw)"
    by (auto simp: tcpListener_Create_def fw_AddListener_def forwarder_GetNextConnectionId_def ctl_parts_def Let_def split: prod.split)
  then show "safe ok entries E 1 fw (Inr (fst (fw_AddListener (tcpListener_Create E fw n a ifn))))"
    using t assms(1) ctl_cong(2,3) unfolding safe_def by (metis le_add1)
qed

section \<open>Handlers\<close>

definition safe2 :: "('o \<Rightarrow> bool) \<Rightarrow> ('o \<Rightarrow> (connid \<times> nat) list) \<Rightarrow> ('d, 't, 'l, 'pt, 'ch, 'ct, 'i, 'p, 'o, 'h, 's, 'n, 'm) fw_ops \<Rightarrow> nat \<Rightarrow> ('d, 't, 'l, 'pt, 'ch, 'ct, 'i, 'p, 'o, 'h, 's, 'n, 'm) forwarder \<Rightarrow> (('d, 't, 'l, 'pt, 'ch, 'ct, 'i, 'p, 'o, 'h, 's, 'n, 'm) forwarder \<times> 'r) res \<Rightarrow> bool" where
  "safe2 ok entries E n fw r \<longleftrightarrow> (\<exists>fw' b. r = Inr (fw', b) \<and> ctl_inv ok entries E fw' \<and> unat (nextConnectionid fw') \<le> unat (nextConnectionid fw) + n)"

lemma safe2_bind:
  assumes "safe ok entries E n fw r"
    "\<And>fw'. r = Inr fw' \<Longrightarrow> ctl_inv ok entries E fw' \<Longrightarrow> unat (nextConnectionid fw') \<le> unat (nextConnectionid fw) + n \<Longrightarrow> safe2 ok entries E m fw' (f fw')"
  shows "safe2 ok entries E (n + m) fw (bind_res r f)"
  using assms by (fastforce simp: safe_def safe2_def)

lemma safe2_from: "unat (nextConnectionid fw1) \<le> unat (nextConnectionid fw) + n \<Longrightarrow> safe2 ok entries E m fw1 r \<Longrightarrow> safe2 ok entries E (n + m) fw r"
  by (fastforce simp: safe2_def)

lemma safe2_ret: "safe ok entries E n fw r \<Longrightarrow> safe2 ok entries E n fw (bind_res r (\<lambda>fw. Inr (fw, b)))"
  by (auto simp: safe_def safe2_def)

lemma safe2_refl: "ctl_inv ok entries E fw \<Longrightarrow> safe2 ok entries E n fw (Inr (fw, b))"
  by (auto simp: safe2_def)

lemma safe2_Inr: "safe ok entries E n fw (Inr (fst p)) \<Longrightarrow> safe2 ok entries E n fw (Inr p)"
  by (cases p) (auto simp: safe_def safe2_def)

lemma safe2_answer: "safe2 ok entries E n fw r \<Longrightarrow> safe2 ok entries E n fw (bind_res r (\<lambda>r. Inr (answer header c r)))"
  by (auto simp: safe2_def answer_def)

lemma safe_mono: "safe ok entries E n fw r \<Longrightarrow> n \<le> m \<Longrightarrow> safe ok entries E m fw r"
  by (auto simp: safe_def)

lemma safe2_mono: "safe2 ok entries E n fw r \<Longrightarrow> n \<le> m \<Longrightarrow> safe2 ok entries E m fw r"
  by (auto simp: safe2_def)

subsection \<open>Routes\<close>

lemma AddRoute_safe:
  assumes "ctl_inv ok entries E fw" "address_ok (fo_hash E) a len" "i \<in> dom (fw_conns E fw)"
  shows "safe ok entries E 0 fw (forwarder_AddOrUpdateRoute E fw a len i)"
proof -
  let ?st = "strategy_of_number (configuration_GetForwardingStrategy E fw (utils_PrefixLenToString E a len))"
  have "fib_ok (fw_fib fw)" using assms(1) by (simp add: ctl_inv_def ctl_base_def)
  from AddOrUpdateRoute_change[OF this assms(2), of "fo_st E" ?st i] obtain fs where
    fs: "messageProcessor_AddOrUpdateRoute (fo_hash E) (fo_st E) ?st (fw_fib fw) a len i = Inr fs" "fib_change {i} (fw_fib fw) fs" by blast
  show ?thesis using put_fib_safe[OF assms(1) fs(2)] assms(3) fs(1) by (simp add: forwarder_AddOrUpdateRoute_def Let_def)
qed

lemma RemoveRoute_safe:
  assumes "ctl_inv ok entries E fw" "address_ok (fo_hash E) a len"
  shows "safe ok entries E 0 fw (forwarder_RemoveRoute E fw a len i)"
proof -
  have "fib_ok (fw_fib fw)" using assms(1) by (simp add: ctl_inv_def ctl_base_def)
  from RemoveRoute_change[OF this assms(2), of "fo_st E" i] obtain fs where
    fs: "messageProcessor_RemoveRoute (fo_hash E) (fo_st E) (fw_fib fw) a len i = Inr fs" "fib_change {} (fw_fib fw) fs" by blast
  show ?thesis using put_fib_safe[OF assms(1) fs(2)] fs(1) by (simp add: forwarder_RemoveRoute_def)
qed

text \<open>A name that a route may be added under: it stands for a connection, or for nothing.\<close>

definition name_live :: "('d, 't, 'l, 'pt, 'ch, 'ct, 'i, 'p, 'o, 'h, 's, 'n, 'm) fw_ops \<Rightarrow> ('d, 't, 'l, 'pt, 'ch, 'ct, 'i, 'p, 'o, 'h, 's, 'n, 'm) forwarder \<Rightarrow> string \<Rightarrow> bool" where
  "name_live E fw s \<longleftrightarrow> utils_IsNumber s \<or> s = ''SELF'' \<or> fw_name_Get E fw s = UINT32_MAX \<or> fw_find E fw (fw_name_Get E fw s) \<noteq> None"

lemma Register_safe:
  assumes "ctl_inv ok entries E fw" "address_ok (fo_hash E) a len" "name_live E fw s" "ingress \<in> dom (fw_conns E fw)"
  shows "safe2 ok entries E 0 fw (configuration_ProcessRegisterHicnPrefix E fw s a len ingress)"
  using assms(3,4) safe2_ret[OF AddRoute_safe[OF assms(1,2)], where b = True] safe2_refl[OF assms(1), where b = False]
  by (auto simp: configuration_ProcessRegisterHicnPrefix_def name_live_def live_iff Let_def)

lemma Unregister_safe:
  assumes "ctl_inv ok entries E fw" "address_ok (fo_hash E) a len"
  shows "safe2 ok entries E 0 fw (configuration_ProcessUnregisterHicnPrefix E fw s a len)"
  using safe2_ret[OF RemoveRoute_safe[OF assms], where b = True] safe2_refl[OF assms(1), where b = False] by (simp add: configuration_ProcessUnregisterHicnPrefix_def Let_def)

subsection \<open>Connections\<close>

lemma RemoveName_safe:
  assumes "fw_laws ok entries E" "ctl_inv ok entries E fw"
  shows "safe ok entries E 0 fw (Inr (fw_RemoveName E fw n))"
proof -
  have sn: "sn_laws (fo_names E)" "sn_inv (fo_names E) (symbolicNames fw)" using assms by (simp_all add: fw_laws_def ctl_inv_def ctl_base_def)
  note R = sn_Remove_ok[OF sn, of n]
  have "ran ((fw_names E fw)(createKey n := None)) \<subseteq> ran (fw_names E fw)" by (auto simp: ran_def split: if_splits)
  then show ?thesis using assms(2) R by (auto simp: safe_def ctl_inv_def ctl_base_def fw_RemoveName_def)
qed

lemma AddName_safe:
  assumes "fw_laws ok entries E" "ctl_inv ok entries E fw" "i \<notin> ran (fw_names E fw)" "i < nextConnectionid fw" "i \<noteq> UINT32_MAX" "\<not> symbolicNameTable_Exists (fo_names E) (symbolicNames fw) n"
  shows "\<exists>names b. symbolicNameTable_Add (fo_names E) (symbolicNames fw) n i = Inr (names, b) \<and> ctl_inv ok entries E (fw\<lparr>symbolicNames := names\<rparr>)"
proof -
  have sn: "sn_laws (fo_names E)" "sn_inv (fo_names E) (symbolicNames fw)" using assms by (simp_all add: fw_laws_def ctl_inv_def ctl_base_def)
  have new: "createKey n \<notin> dom (fw_names E fw)" using assms(6) sn_queries(2)[OF sn(2)] by simp
  from sn_Add_ok(3)[OF sn assms(5) new assms(3)] obtain names where
    t: "symbolicNameTable_Add (fo_names E) (symbolicNames fw) n i = Inr (names, True)" "sn_inv (fo_names E) names" "sn_map (fo_names E) names = (fw_names E fw)(createKey n \<mapsto> i)" by blast
  have "ran ((fw_names E fw)(createKey n \<mapsto> i)) \<subseteq> insert i (ran (fw_names E fw))" by (auto simp: ran_def split: if_splits)
  then have "ctl_inv ok entries E (fw\<lparr>symbolicNames := names\<rparr>)" using assms(2,4) t(2,3) by (auto simp: ctl_inv_def ctl_base_def)
  then show ?thesis using t(1) by blast
qed

lemma settings_fields [simp]:
  "connection_GetConnectionId (connection_SetAdminState c st) = connection_GetConnectionId c" "connection_GetAddressPair (connection_SetAdminState c st) = connection_GetAddressPair c"
  "conn_refCount (connection_SetAdminState c st) = conn_refCount c" "conn_ok (connection_SetAdminState c st) = conn_ok c"
  "connection_GetConnectionId (connection_SetPriority c p) = connection_GetConnectionId c" "connection_GetAddressPair (connection_SetPriority c p) = connection_GetAddressPair c"
  "conn_refCount (connection_SetPriority c p) = conn_refCount c" "conn_ok (connection_SetPriority c p) = conn_ok c"
  "connection_GetConnectionId (connection_SetTags c ts) = connection_GetConnectionId c" "connection_GetAddressPair (connection_SetTags c ts) = connection_GetAddressPair c"
  "conn_refCount (connection_SetTags c ts) = conn_refCount c" "conn_ok (connection_SetTags c ts) = conn_ok c"
  by (simp_all add: connection_SetAdminState_def connection_SetPriority_def connection_SetTags_def connection_GetConnectionId_def connection_GetAddressPair_def conn_ok_def)

lemma update_conn_fields [simp]:
  "connection_GetConnectionId (update_conn control c) = connection_GetConnectionId c" "connection_GetAddressPair (update_conn control c) = connection_GetAddressPair c"
  "conn_refCount (update_conn control c) = conn_refCount c" "conn_ok (update_conn control c) = conn_ok c"
  by (simp_all add: update_conn_def)

text \<open>A setting of a connection changes and MAP-Me is told.\<close>

lemma setting_safe:
  assumes "fw_laws ok entries E" "ctl_inv ok entries E fw" "fw_find E fw i = Some ref" "connection_GetConnectionId conn = i"
    "connection_GetAddressPair conn = connection_GetAddressPair (ct_heap (fw_table fw) ref)" "conn_refCount conn = conn_refCount (ct_heap (fw_table fw) ref)"
    "conn_ok conn = conn_ok (ct_heap (fw_table fw) ref)"
  shows "safe2 ok entries E 0 fw (bind_res (forwarder_onConnectionEvent E now (fw_put_conn fw ref conn) (Some conn)) (\<lambda>fw. Inr (fw, True)))"
    "safe ok entries E 0 fw (Inr (fw_put_conn fw ref conn))"
proof -
  have "ctl_base ok entries E fw" using assms(2) by (simp add: ctl_inv_def)
  then have "conn_ok conn" using found(4)[OF _ assms(3)] assms(7) by simp
  then show 1: "safe ok entries E 0 fw (Inr (fw_put_conn fw ref conn))" by (rule put_conn_safe[OF assms(2-6)])
  then have "safe ok entries E 0 (fw_put_conn fw ref conn) (forwarder_onConnectionEvent E now (fw_put_conn fw ref conn) (Some conn))"
    by (intro event_safe assms(1)) (simp add: safe_def)
  from safe2_ret[OF this, where b = True] 1 show "safe2 ok entries E 0 fw (bind_res (forwarder_onConnectionEvent E now (fw_put_conn fw ref conn) (Some conn)) (\<lambda>fw. Inr (fw, True)))"
    using safe2_from[of "fw_put_conn fw ref conn" fw 0 ok entries E 0] by (simp add: safe_def)
qed

lemma found_id:
  assumes "ctl_inv ok entries E fw" "fw_find E fw i = Some ref"
  shows "connection_GetConnectionId (ct_heap (fw_table fw) ref) = i"
  using found(2) assms by (auto simp: ctl_inv_def)

lemma lookup_found:
  assumes "ctl_inv ok entries E fw" "lookupConnection E fw pair = Some ref"
  shows "fw_find E fw (connection_GetConnectionId (ct_heap (fw_table fw) ref)) = Some ref"
  using ct_invD(7)[of ok entries "fo_ct E" "fw_table fw" pair ref] assms by (simp add: lookupConnection_def ctl_inv_def ctl_base_def)

lemma CreateTunnel_safe:
  assumes "fw_laws ok entries E" "ctl_inv ok entries E fw" "unat (nextConnectionid fw) + 1 < 2 ^ 32" "tunnel_addresses control \<noteq> None"
  shows "safe2 ok entries E 1 fw (configuration_ProcessCreateTunnel E now fw control)"
proof (cases "symbolicNameTable_Exists (fo_names E) (symbolicNames fw) (ac_symbolic control)")
  case False
  obtain source destination where sd: "tunnel_addresses control = Some (source, destination)" using assms(4) by auto
  show ?thesis
  proof (cases "lookupConnection E fw (addressPair_Create source destination)")
    case (Some ref)
    have "safe2 ok entries E 0 fw (bind_res (forwarder_onConnectionEvent E now (fw_put_conn fw ref (update_conn control (ct_heap (fw_table fw) ref)))
        (Some (update_conn control (ct_heap (fw_table fw) ref)))) (\<lambda>fw. Inr (fw, True)))"
      by (rule setting_safe[OF assms(1,2) lookup_found[OF assms(2) Some]]) simp_all
    then show ?thesis using False sd Some safe2_mono[of ok entries E 0 fw _ 1] by (simp add: configuration_ProcessCreateTunnel_def Let_def)
  next
    case None
    obtain fw1 io where io: "create_tunnel_io E fw (ac_connectionType control) source destination = (fw1, io)" by (metis surj_pair)
    note m = makes_cases[OF tunnel_makes[OF assms(2,3), of "ac_connectionType control" source destination, unfolded io]]
    show ?thesis
    proof (cases io)
      case None2: None
      have "safe2 ok entries E 1 fw (Inr (fw1, False))" using m(1,2) unfolding safe2_def by blast
      then show ?thesis using None2 False sd None io by (simp add: configuration_ProcessCreateTunnel_def)
    next
      case (Some x)
      let ?conn = "update_conn control (connection_Create x)"
      have fresh: "fresh_for E fw1 ?conn" using m(3)[OF Some] by (simp add: fresh_for_def)
      obtain fw2 where fw2: "fw_AddConnection E fw1 ?conn = Inr fw2" "ctl_inv ok entries E fw2" "nextConnectionid fw2 = nextConnectionid fw1"
        "symbolicNames fw2 = symbolicNames fw1" using add_safe[OF assms(1) m(1) fresh] by (elim exE conjE)
      have same: "symbolicNames fw1 = symbolicNames fw" using io by (rule tunnel_names)
      obtain names b where names: "symbolicNameTable_Add (fo_names E) (symbolicNames fw2) (ac_symbolic control) (connection_GetConnectionId ?conn) = Inr (names, b)"
        "ctl_inv ok entries E (fw2\<lparr>symbolicNames := names\<rparr>)"
        using AddName_safe[OF assms(1) fw2(2), of "connection_GetConnectionId ?conn" "ac_symbolic control"] fresh fw2(3,4) False same by (auto simp: fresh_for_def)
      have "safe2 ok entries E 0 (fw2\<lparr>symbolicNames := names\<rparr>)
          (bind_res (forwarder_onConnectionEvent E now (fw2\<lparr>symbolicNames := names\<rparr>) (Some ?conn)) (\<lambda>fw. Inr (fw, True)))"
        by (rule safe2_ret[OF event_safe[OF assms(1) names(2)]])
      then have "safe2 ok entries E 1 fw (bind_res (forwarder_onConnectionEvent E now (fw2\<lparr>symbolicNames := names\<rparr>) (Some ?conn)) (\<lambda>fw. Inr (fw, True)))"
        using safe2_from[of "fw2\<lparr>symbolicNames := names\<rparr>" fw 1 ok entries E 0] m(2) fw2(3) by simp
      then show ?thesis using False sd None io Some fw2(1) names(1) by (simp add: configuration_ProcessCreateTunnel_def Let_def)
    qed
  qed
qed (use safe2_refl[OF assms(2)] in \<open>simp add: configuration_ProcessCreateTunnel_def\<close>)

lemma RemoveTunnel_safe:
  assumes "fw_laws ok entries E" "ctl_inv ok entries E fw"
  shows "safe2 ok entries E 0 fw (configuration_ProcessRemoveTunnel E now fw s ingress)"
proof -
  have *: "safe2 ok entries E (0 + 0) fw (bind_res (remove_connection E fw i) (\<lambda>fw. bind_res (forwarder_onConnectionEvent E now (g fw) None) (\<lambda>fw. Inr (fw, True))))"
    if g: "\<And>fw. ctl_inv ok entries E fw \<Longrightarrow> safe ok entries E 0 fw (Inr (g fw))" for i g
  proof (rule safe2_bind[OF remove_connection_safe[OF assms]])
    fix fw' assume "ctl_inv ok entries E fw'"
    from g[OF this] have 1: "ctl_inv ok entries E (g fw')" "unat (nextConnectionid (g fw')) \<le> unat (nextConnectionid fw')" by (simp_all add: safe_def)
    show "safe2 ok entries E 0 fw' (bind_res (forwarder_onConnectionEvent E now (g fw') None) (\<lambda>fw. Inr (fw, True)))"
      using safe2_ret[OF event_safe[OF assms(1) 1(1)], of now None True] 1(2) safe2_from[of "g fw'" fw' 0 ok entries E 0] by simp
  qed
  note * = *[simplified add_0_right]
  have "safe2 ok entries E 0 fw (bind_res (remove_connection E fw i) (\<lambda>fw. bind_res (forwarder_onConnectionEvent E now fw None) (\<lambda>fw. Inr (fw, True))))" for i
    by (rule *) (rule safe_refl)
  moreover have "safe2 ok entries E 0 fw (bind_res (remove_connection E fw i) (\<lambda>fw. bind_res (forwarder_onConnectionEvent E now (fw_RemoveName E fw (h fw)) None) (\<lambda>fw. Inr (fw, True))))" for i h
    by (rule *) (rule RemoveName_safe[OF assms(1)])
  ultimately show ?thesis using safe2_refl[OF assms(2), where b = False] by (simp add: configuration_ProcessRemoveTunnel_def Let_def)
qed

text \<open>Removing a listener: its connections are those of the list made beforehand; each is still in the table when its turn comes, or its reference no longer matters.\<close>

lemma RemoveListener_safe:
  assumes "fw_laws ok entries E" "ctl_inv ok entries E fw"
  shows "safe2 ok entries E 0 fw (configuration_ProcessRemoveListener E fw s)"
proof -
  have step: "safe ok entries E 0 fw' (remove_if_local E a fw' ref)" if inv: "ctl_inv ok entries E fw'" for a fw' ref
  proof -
    let ?i = "connection_GetConnectionId (ct_heap (fw_table fw') ref)"
    have "safe ok entries E (0 + 0) fw' (bind_res (remove_connection E fw' ?i) (\<lambda>fw. Inr (fw_RemoveName E fw (fw_NameOf E fw ?i))))"
      by (rule safe_bind[OF remove_connection_safe[OF assms(1) inv]]) (rule RemoveName_safe[OF assms(1)])
    then show ?thesis using safe_refl[OF inv] by (simp add: remove_if_local_def Let_def)
  qed
  have loop: "\<exists>fw'. fold_res (remove_if_local E a) fw refs = Inr fw' \<and> (ctl_inv ok entries E fw' \<and> unat (nextConnectionid fw') \<le> unat (nextConnectionid fw))" for a refs
  proof (rule fold_res_total)
    fix fw1 ref assume fw1: "ctl_inv ok entries E fw1 \<and> unat (nextConnectionid fw1) \<le> unat (nextConnectionid fw)"
    with step[of fw1 a ref] show "\<exists>fw'. remove_if_local E a fw1 ref = Inr fw' \<and> ctl_inv ok entries E fw' \<and> unat (nextConnectionid fw') \<le> unat (nextConnectionid fw)"
      by (fastforce simp: safe_def)
  qed (simp add: assms(2))
  have "safe2 ok entries E 0 fw (bind_res (fold_res (remove_if_local E a) fw refs) (\<lambda>fw. Inr (fw\<lparr>listenerSet := f fw\<rparr>, True)))" for a refs f
  proof -
    obtain fw' where fw': "fold_res (remove_if_local E a) fw refs = Inr fw'" "ctl_inv ok entries E fw'" "unat (nextConnectionid fw') \<le> unat (nextConnectionid fw)"
      using loop[of a refs] by blast
    have "ctl_parts (fw'\<lparr>listenerSet := f fw'\<rparr>) = ctl_parts fw'" by (simp add: ctl_parts_def)
    from ctl_cong(2)[OF this] show ?thesis using fw' by (auto simp: safe2_def)
  qed
  then show ?thesis using safe2_refl[OF assms(2), where b = False] by (simp add: configuration_ProcessRemoveListener_def Let_def split: option.split)
qed

lemma bySymbolic_found: "getConnectionBySymbolicOrId E fw s = Some ref \<Longrightarrow> \<exists>i. fw_find E fw i = Some ref"
  by (auto simp: getConnectionBySymbolicOrId_def Let_def)

lemma settings_safe:
  assumes "fw_laws ok entries E" "ctl_inv ok entries E fw"
  shows "safe2 ok entries E 0 fw (configuration_ConnectionSetAdminState E now fw s v)" "safe2 ok entries E 0 fw (configuration_ConnectionSetPriority E now fw s p)"
    "safe2 ok entries E 0 fw (configuration_ConnectionSetTags E now fw s ts)" "safe2 ok entries E 0 fw (Inr (configuration_UpdateConnection E fw control))"
proof -
  note no = safe2_refl[OF assms(2), where b = False]
  have set: "safe2 ok entries E 0 fw (bind_res (forwarder_onConnectionEvent E now (fw_put_conn fw ref c) (Some c)) (\<lambda>fw. Inr (fw, True)))"
      "safe ok entries E 0 fw (Inr (fw_put_conn fw ref c))"
    if r: "getConnectionBySymbolicOrId E fw s = Some ref" and c: "connection_GetConnectionId c = connection_GetConnectionId (ct_heap (fw_table fw) ref)"
      "connection_GetAddressPair c = connection_GetAddressPair (ct_heap (fw_table fw) ref)"
      "conn_refCount c = conn_refCount (ct_heap (fw_table fw) ref)" "conn_ok c = conn_ok (ct_heap (fw_table fw) ref)" for s ref c
  proof -
    obtain i where i: "fw_find E fw i = Some ref" using bySymbolic_found[OF r] by blast
    have "connection_GetConnectionId c = i" using found_id[OF assms(2) i] c(1) by simp
    from setting_safe[OF assms i this c(2-4)] show "safe2 ok entries E 0 fw (bind_res (forwarder_onConnectionEvent E now (fw_put_conn fw ref c) (Some c)) (\<lambda>fw. Inr (fw, True)))"
      "safe ok entries E 0 fw (Inr (fw_put_conn fw ref c))" .
  qed
  show "safe2 ok entries E 0 fw (configuration_ConnectionSetAdminState E now fw s v)" using no set(1)[of s]
    by (simp add: configuration_ConnectionSetAdminState_def Let_def split: option.split)
  show "safe2 ok entries E 0 fw (configuration_ConnectionSetPriority E now fw s p)" using no set(1)[of s]
    by (simp add: configuration_ConnectionSetPriority_def Let_def split: option.split)
  show "safe2 ok entries E 0 fw (configuration_ConnectionSetTags E now fw s ts)" using no set(1)[of s]
    by (simp add: configuration_ConnectionSetTags_def Let_def split: option.split)
  show "safe2 ok entries E 0 fw (Inr (configuration_UpdateConnection E fw control))"
    by (rule safe2_Inr) (use safe_refl[OF assms(2)] set(2) in \<open>simp add: configuration_UpdateConnection_def Let_def split: option.split\<close>)
qed

lemma Enable_fields [simp]:
  "connection_GetConnectionId (connection_EnableWldr c) = connection_GetConnectionId c" "connection_GetAddressPair (connection_EnableWldr c) = connection_GetAddressPair c"
  "conn_refCount (connection_EnableWldr c) = conn_refCount c" "conn_ok (connection_EnableWldr c) = conn_ok c"
  by (simp_all add: connection_EnableWldr_def connection_GetConnectionId_def connection_GetAddressPair_def conn_ok_def wldr_Init_def)

lemma SetWldr_safe:
  assumes "fw_laws ok entries E" "ctl_inv ok entries E fw"
  shows "safe2 ok entries E 0 fw (configuration_SetWldr E fw s activate)"
proof -
  let ?conn = "if utils_IsNumber s then fw_find E fw (connid_of_string E s)
                  else let connid = fw_name_Get E fw s in if connid \<noteq> UINT32_MAX then fw_find E fw connid else None"
  note no = safe2_refl[OF assms(2), where b = False]
  have base: "ctl_base ok entries E fw" using assms(2) by (simp add: ctl_inv_def)
  show ?thesis
  proof (cases ?conn)
    case (Some ref)
    then obtain i where i: "fw_find E fw i = Some ref" by (auto simp: Let_def split: if_splits)
    note f = found[OF base i]
    obtain c where c: "connection_DisableWldr (ct_heap (fw_table fw) ref) (fw_world fw) = Inr (c, fw_world fw)" "conn_ok c" "ops c = ops (ct_heap (fw_table fw) ref)"
      "conn_refCount c = conn_refCount (ct_heap (fw_table fw) ref)" using Disable_total[OF f(4)] by blast
    have on: "safe ok entries E 0 fw (Inr (fw_put_conn fw ref (connection_EnableWldr (ct_heap (fw_table fw) ref))))"
      by (rule put_conn_safe[OF assms(2) i]) (simp_all add: f)
    have off: "safe ok entries E 0 fw (Inr (fw_put_conn fw ref c))"
      by (rule put_conn_safe[OF assms(2) i]) (use c f in \<open>simp_all add: connection_GetConnectionId_def connection_GetAddressPair_def\<close>)
    have "safe ok entries E 0 fw (Inr (fw_put_world (fw_put_conn fw ref c) (fw_world fw)))"
      using off ctl_cong(2,3)[OF world_parts[of "fw_put_conn fw ref c" "fw_world fw"]] by (simp add: safe_def)
    then have off2: "safe2 ok entries E 0 fw (Inr (fw_put_world (fw_put_conn fw ref c) (fw_world fw), True))" by (intro safe2_Inr) simp
    have on2: "safe2 ok entries E 0 fw (Inr (fw_put_conn fw ref (connection_EnableWldr (ct_heap (fw_table fw) ref)), True))" using on by (intro safe2_Inr) simp
    show ?thesis using no on2 off2 c(1) unfolding configuration_SetWldr_def Some Let_def[of ?conn] by simp
  qed (use no in \<open>simp add: configuration_SetWldr_def\<close>)
qed

subsection \<open>Listeners, strategies, policies and MAP-Me\<close>

lemma Listener_safe:
  assumes "ctl_inv ok entries E fw" "unat (nextConnectionid fw) + 1 < 2 ^ 32" "al_listenerMode control \<noteq> ETHER_MODE"
    "al_listenerMode control = HICN_MODE \<longrightarrow> al_addressType control = ADDR_INET_NUMBER \<or> al_addressType control = ADDR_INET6_NUMBER"
  shows "safe2 ok entries E 1 fw (configurationListeners_Add E fw control)"
proof -
  have "safe2 ok entries E 1 fw (Inr (addIP E fw control))"
    by (rule safe2_Inr) (use AddListener_safe[OF assms(1,2)] safe_refl[OF assms(1)] in \<open>simp add: addIP_def Let_def\<close>)
  then show ?thesis using assms(3,4) safe2_refl[OF assms(1), where b = False] by (auto simp: configurationListeners_Add_def addHicn_def)
qed

definition strategy_command_ok :: "hash_fun \<Rightarrow> set_strategy_command \<Rightarrow> bool" where
  "strategy_command_ok H control \<longleftrightarrow> address_ok H (ss_address control) (ss_len control) \<and> unat (ss_related_prefixes control) \<le> MAX_FWD_STRATEGY_RELATED_PREFIXES \<and>
     (\<forall>(a, len)\<in>set (take (unat (ss_related_prefixes control)) (ss_addresses control)). address_ok H a len)"

lemma related_total:
  assumes "\<forall>(a, len)\<in>set ps. address_ok H a len"
  shows "\<exists>ns'. fold_res (\<lambda>ns (a, len). bind_res (name_CreateFromAddress H a len) (\<lambda>n. Inr (ns @ [n]))) ns ps = Inr ns'"
proof -
  have "\<exists>ns'. fold_res (\<lambda>ns (a, len). bind_res (name_CreateFromAddress H a len) (\<lambda>n. Inr (ns @ [n]))) ns ps = Inr ns' \<and> True"
    by (rule fold_res_total) (use assms address_okD in fastforce)+
  then show ?thesis by simp
qed

lemma Strategy_safe:
  assumes "ctl_inv ok entries E fw" "strategy_command_ok (fo_hash E) control"
  shows "safe ok entries E 0 fw (configuration_SetForwardingStrategy E fw control)"
proof -
  let ?fw = "configuration_StoreFwdStrategy E fw (utils_PrefixLenToString E (ss_address control) (ss_len control)) (ucast (ss_strategyType control))"
  have parts: "ctl_parts ?fw = ctl_parts fw" by (simp add: configuration_StoreFwdStrategy_def ctl_parts_def)
  have inv: "ctl_inv ok entries E ?fw" using ctl_cong(2)[OF parts] assms(1) by simp
  have ok: "fib_ok (fw_fib ?fw)" using inv by (simp add: ctl_inv_def ctl_base_def)
  obtain n bv where n: "name_CreateFromAddress (fo_hash E) (ss_address control) (ss_len control) = Inr n" "content_name n = Some bv" "nb_valid bv"
    using address_name[of "fo_hash E" "ss_address control" "ss_len control"] assms(2) by (auto simp: strategy_command_ok_def)
  obtain related where rel: "fold_res (\<lambda>ns (a, len). bind_res (name_CreateFromAddress (fo_hash E) a len) (\<lambda>n. Inr (ns @ [n]))) []
      (take (unat (ss_related_prefixes control)) (ss_addresses control)) = Inr related"
    using related_total[of "take (unat (ss_related_prefixes control)) (ss_addresses control)" "fo_hash E" "[]"] assms(2) unfolding strategy_command_ok_def by blast
  let ?st = "strategy_of_number (ucast (ss_strategyType control))"
  obtain fs where fs: "processor_SetStrategy (fo_st E) (fw_fib ?fw) n ?st related = Inr fs" "fib_change {} (fw_fib ?fw) fs"
    using SetStrategy_change[OF ok n(2,3)] by blast
  have "safe ok entries E 0 ?fw (Inr (fw_put_fib ?fw fs))" by (rule put_fib_safe[OF inv fs(2)]) simp
  then have "safe ok entries E 0 fw (Inr (fw_put_fib ?fw fs))" using ctl_cong(3)[OF parts] by (simp add: safe_def)
  then show ?thesis using n(1) rel fs(1) safe_refl[OF assms(1)] assms(2)
    by (simp add: configuration_SetForwardingStrategy_def forwarder_SetStrategy_def strategy_command_ok_def Let_def)
qed

lemma policy_safe:
  assumes "fw_laws ok entries E" "ctl_inv ok entries E fw" "address_ok (fo_hash E) a len"
  shows "safe ok entries E 0 fw (forwarder_AddOrUpdatePolicy E now fw a len pol)" "safe2 ok entries E 0 fw (forwarder_RemovePolicy E now fw a len)"
proof -
  have ok: "fib_ok (fw_fib fw)" using assms(2) by (simp add: ctl_inv_def ctl_base_def)
  have re: "safe ok entries E 0 fw (reconsider_prefix E now (fw_put_fib fw fs) a len)" if "fib_change {} (fw_fib fw) fs" for fs
  proof -
    have 1: "ctl_inv ok entries E (fw_put_fib fw fs)" using put_fib_safe[OF assms(2) that] by (simp add: safe_def)
    show ?thesis using reconsider_safe[OF assms(1) 1 assms(3), of now] by (simp add: safe_def)
  qed
  let ?st = "strategy_of_number (configuration_GetForwardingStrategy E fw (utils_PrefixLenToString E a len))"
  obtain fs where fs: "messageProcessor_AddOrUpdatePolicy (fo_hash E) (fo_st E) id ?st (fw_fib fw) a len pol = Inr fs" "fib_change {} (fw_fib fw) fs"
    using policy_change(1)[OF ok assms(3)] by blast
  then show "safe ok entries E 0 fw (forwarder_AddOrUpdatePolicy E now fw a len pol)" using re by (simp add: forwarder_AddOrUpdatePolicy_def Let_def)
  obtain fs' b where fs': "messageProcessor_RemovePolicy (fo_hash E) (fo_st E) id (fw_fib fw) a len = Inr (fs', b)" "fib_change {} (fw_fib fw) fs'"
    using policy_change(2)[OF ok assms(3)] by blast
  then show "safe2 ok entries E 0 fw (forwarder_RemovePolicy E now fw a len)"
    using safe2_ret[OF re[OF fs'(2)], where b = True] safe2_refl[OF assms(2), where b = False] by (cases b) (simp_all add: forwarder_RemovePolicy_def)
qed

lemma owner_total: "set is \<subseteq> {..<numberSet_Length nhs} \<Longrightarrow> \<exists>b. owner_loop nhs is i = Inr b"
  by (induction "is") (auto simp: numberSet_GetItem_def numberSet_Length_def)

lemma SendUpdate_safe:
  assumes "fw_laws ok entries E" "ctl_inv ok entries E fw" "address_ok (fo_hash E) a len"
  shows "safe2 ok entries E 0 fw (configuration_MapMeSendUpdate E now fw a len ingress)"
proof -
  have inv: "fs_inv (fw_fib fw)" using assms(2) by (simp add: ctl_inv_def ctl_base_def fib_ok_def)
  obtain n bv where n: "name_CreateFromAddress (fo_hash E) a len = Inr n" "content_name n = Some bv" "nb_valid bv"
    using address_name[OF assms(3)] by blast
  note no = safe2_refl[OF assms(2), where b = False]
  show ?thesis
  proof (cases "fs_entry (fw_fib fw) (nb_bits bv)")
    case (Some e)
    let ?nhs = "nexthops (fs_heap (fw_fib fw) e)"
    have e: "e \<in> fib_used (fib_root (fs_trie (fw_fib fw)))" by (rule fs_entry_in(1)[OF inv Some])
    have "FibEntry.resolved (fw_conns E fw) ?nhs" using used_hops[OF inv e] assms(2) fs_ns[OF inv] by (auto simp: FibEntry.resolved_def ctl_inv_def)
    then obtain s where s: "mapme_send_updates (fw_mm E) now (mapme_enter fw) e ?nhs = Inr s" "mm_change (fw_mm E) (mapme_enter fw) s"
      using send_updates_total[OF enter_ok[OF assms(1,2)], of e ?nhs now] e by auto
    obtain b where b: "owner_loop ?nhs [0..<numberSet_Length ?nhs] ingress = Inr b" using owner_total[of "[0..<numberSet_Length ?nhs]" ?nhs] by (auto simp: atLeast0LessThan)
    have "safe2 ok entries E 0 fw (Inr (mapme_leave fw s, True))" by (rule safe2_Inr) (use leave_ok[OF assms(2) s(2)] in simp)
    then show ?thesis using Some n(1) ContainsName_ok[OF inv n(2,3)] s(1) b no by (simp add: configuration_MapMeSendUpdate_def fibEntry_GetNexthops_def Let_def)
  qed (use n(1) ContainsName_ok[OF inv n(2,3)] no in \<open>simp add: configuration_MapMeSendUpdate_def\<close>)
qed

subsection \<open>Lists\<close>

text \<open>The rows of an entry.\<close>

definition entry_rows :: "('d, 't, 'l) fib_store \<Rightarrow> nat \<Rightarrow> list_routes_command list" where
  "entry_rows fs e = map (list_route (fs_pfx fs e)) (ns_items (nexthops (fs_heap fs e)))"

lemma write_rows:
  "length ws + length cs \<le> n \<Longrightarrow> fold_res (\<lambda>ws c. if length ws < n then Inr (ws @ [f c]) else Inl MemoryFault) ws cs = Inr (ws @ map f cs)"
  by (induction cs arbitrary: ws) simp_all

lemma list_entry_eq:
  assumes "fib_ok (fw_fib fw)" "e \<in> fib_used (fib_root (fs_trie (fw_fib fw)))" "length ws + Suc m \<le> n"
  shows "\<exists>n'. list_entry fw (n, ws) e = Inr (n', ws @ entry_rows (fw_fib fw) e) \<and> length (ws @ entry_rows (fw_fib fw) e) + m \<le> n'"
proof -
  let ?fe = "fs_heap (fw_fib fw) e" let ?hops = "nexthops ?fe"
  obtain bv where bv: "content_name (fe_name ?fe) = Some bv" using assms(1,2) by (auto simp: fib_ok_def)
  then have pfx: "fs_pfx (fw_fib fw) e = bv" by (simp add: fs_pfx_def fibEntry_GetPrefix_def name_bv_def)
  have ns: "ns_inv ?hops" using assms(1) by (simp add: fib_ok_def fs_inv_def)
  have rows: "entry_rows (fw_fib fw) e = map (list_route bv) (ns_items ?hops)" by (simp add: entry_rows_def pfx)
  show ?thesis
  proof (cases "ns_items ?hops")
    case Nil
    then show ?thesis using bv assms(3) Length_items[OF ns] rows by (simp add: list_entry_def fibEntry_GetNexthops_def fibEntry_GetPrefix_def name_GetContentName_def)
  next
    case (Cons c cs)
    let ?n = "n + length cs"
    have len: "numberSet_Length ?hops = Suc (length cs)" using Length_items[OF ns] Cons by simp
    have "(if numberSet_Length ?hops > 1 then n + numberSet_Length ?hops - 1 else n) = ?n" by (simp add: len)
    moreover have "ns_for ?hops (\<lambda>ws c. if length ws < ?n then Inr (ws @ [list_route bv c]) else Inl MemoryFault) ws = Inr (ws @ map (list_route bv) (ns_items ?hops))"
      unfolding ns_for_items[OF ns] by (rule write_rows) (use Cons assms(3) in simp)
    ultimately have "list_entry fw (n, ws) e = Inr (?n, ws @ entry_rows (fw_fib fw) e)"
      using bv rows by (simp add: list_entry_def fibEntry_GetNexthops_def fibEntry_GetPrefix_def name_GetContentName_def len)
    then show ?thesis using assms(3) rows Cons by simp
  qed
qed

lemma list_entries_eq:
  assumes "fib_ok (fw_fib fw)" "set es \<subseteq> fib_used (fib_root (fs_trie (fw_fib fw)))" "length ws + length es \<le> n"
  shows "\<exists>n'. fold_res (list_entry fw) (n, ws) es = Inr (n', ws @ concat (map (entry_rows (fw_fib fw)) es))"
  using assms(2,3)
proof (induction es arbitrary: n ws)
  case (Cons e es)
  then obtain n' where "list_entry fw (n, ws) e = Inr (n', ws @ entry_rows (fw_fib fw) e)" "length (ws @ entry_rows (fw_fib fw) e) + length es \<le> n'"
    using list_entry_eq[OF assms(1), of e ws "length es" n] by auto
  with Cons.IH[of "ws @ entry_rows (fw_fib fw) e" n'] Cons.prems(1) show ?case by simp
qed simp

lemma RegistrationList_eq:
  assumes "fib_ok (fw_fib fw)"
  shows "configuration_ProcessRegistrationList fw header =
    (let rows = concat (map (entry_rows (fw_fib fw)) (forwarder_GetFibEntries fw)) in Inr (list_response header (length rows) (RouteList rows)))"
  using list_entries_eq[OF assms, of "forwarder_GetFibEntries fw" "[]" "length (forwarder_GetFibEntries fw)"]
  by (auto simp: configuration_ProcessRegistrationList_def forwarder_GetFibEntries_def messageProcessor_GetFibEntries_def Let_def)

lemma PolicyList_total:
  assumes "fib_ok (fw_fib fw)"
  shows "\<exists>r. configuration_ProcessPolicyList fw header = Inr r"
proof -
  have "\<exists>ps. fold_res (\<lambda>ps e. bind_res (list_policy fw e) (\<lambda>p. Inr (ps @ [p]))) [] (forwarder_GetFibEntries fw) = Inr ps \<and> True"
    by (rule fold_res_total) (use assms in \<open>auto simp: list_policy_def forwarder_GetFibEntries_def messageProcessor_GetFibEntries_def fibEntry_GetPrefix_def
        name_GetContentName_def fib_ok_def\<close>)
  then show ?thesis by (auto simp: configuration_ProcessPolicyList_def Let_def)
qed

end
