(* ===== verification/ControlRuns.thy ===== *)
theory ControlRuns
  imports Control Forwarding MapmeUpdates
begin

text \<open>
  The control plane as a whole. A run of control commands, of accepted, connected and closed streams and of the timers that deliver missives never aborts the
  daemon and never leaves a route through a connection that is gone, provided the commands are well formed and no route is added under a symbolic name whose connection is gone; a stream
  that closes is forgotten; the list of routes is exact; and a route added under a stale name aborts the daemon.

  Data packets, MAP-Me packets and the timers of MAP-Me are not events of these runs.
\<close>

section \<open>Runs\<close>

text \<open>A command that does not trap: known modes and address types, prefixes that are names, indices within the arrays they index.\<close>

fun command_ok :: "hash_fun \<Rightarrow> 'd command \<Rightarrow> bool" where
  "command_ok H (ADD_LISTENER c) \<longleftrightarrow> al_listenerMode c \<noteq> ETHER_MODE \<and>
     (al_listenerMode c = HICN_MODE \<longrightarrow> al_addressType c = ADDR_INET_NUMBER \<or> al_addressType c = ADDR_INET6_NUMBER)"
| "command_ok H (ADD_CONNECTION c) \<longleftrightarrow> tunnel_addresses c \<noteq> None"
| "command_ok H (ADD_ROUTE s a len) \<longleftrightarrow> address_ok H a len"
| "command_ok H (REMOVE_ROUTE s a len) \<longleftrightarrow> address_ok H a len"
| "command_ok H (SET_STRATEGY c) \<longleftrightarrow> strategy_command_ok H c"
| "command_ok H (MAPME_ENABLE v) \<longleftrightarrow> v < 2"
| "command_ok H (MAPME_DISCOVERY v) \<longleftrightarrow> v < 2"
| "command_ok H (MAPME_SEND_UPDATE a len) \<longleftrightarrow> address_ok H a len"
| "command_ok H (ADD_POLICY a len pol) \<longleftrightarrow> address_ok H a len"
| "command_ok H (REMOVE_POLICY a len) \<longleftrightarrow> address_ok H a len"
| "command_ok H _ \<longleftrightarrow> True"

text \<open>No route is added under a name whose connection is gone.\<close>

fun route_name_ok :: "('d, 't, 'l, 'pt, 'ch, 'ct, 'i, 'p, 'o, 'h, 's, 'n, 'm) fw_ops \<Rightarrow> ('d, 't, 'l, 'pt, 'ch, 'ct, 'i, 'p, 'o, 'h, 's, 'n, 'm) forwarder \<Rightarrow> 'd command \<Rightarrow> bool" where
  "route_name_ok E fw (ADD_ROUTE s a len) \<longleftrightarrow> name_live E fw s"
| "route_name_ok E fw _ \<longleftrightarrow> True"

lemma cache_parts [simp]:
  "ctl_parts (fst (configuration_ProcessCacheStore fw v)) = ctl_parts fw" "ctl_parts (fst (configuration_ProcessCacheServe fw v)) = ctl_parts fw"
  "ctl_parts (forwarder_ClearCache E fw) = ctl_parts fw"
  by (simp_all add: configuration_ProcessCacheStore_def configuration_ProcessCacheServe_def forwarder_SetChacheStoreFlag_def forwarder_SetChacheServeFlag_def forwarder_ClearCache_def
      messageProcessor_SetCacheStoreFlag_def messageProcessor_SetCacheServeFlag_def messageProcessor_ClearCache_def ctl_parts_def Let_def)

lemma answer_safe: "safe ok entries E n fw (Inr (fst p)) \<Longrightarrow> safe2 ok entries E n fw (Inr (answer header c p))"
  by (cases p) (auto simp: safe_def safe2_def answer_def)

lemma safe2_answer0: "safe2 ok entries E 0 fw r \<Longrightarrow> safe2 ok entries E 1 fw (bind_res r (\<lambda>r. Inr (answer header c r)))"
  using safe2_answer safe2_mono by blast

lemma safe_answer0:
  assumes "safe ok entries E 0 fw r"
  shows "safe2 ok entries E 1 fw (bind_res r (\<lambda>fw. Inr (answer header c (fw, b))))"
proof -
  obtain fw' where "r = Inr fw'" "ctl_inv ok entries E fw'" "unat (nextConnectionid fw') \<le> unat (nextConnectionid fw) + 1" using assms by (auto simp: safe_def)
  then show ?thesis by (auto simp: safe2_def answer_def)
qed

lemma Dispatch_safe:
  assumes "fw_laws ok entries E" "ctl_inv ok entries E fw" "unat (nextConnectionid fw) + 1 < 2 ^ 32" "command_ok (fo_hash E) c" "route_name_ok E fw c"
    "ingress \<in> dom (fw_conns E fw)"
  shows "safe2 ok entries E 1 fw (configuration_DispatchCommand E now fw header c ingress)"
proof -
  have ok: "fib_ok (fw_fib fw)" using assms(2) by (simp add: ctl_inv_def ctl_base_def)
  note same = safe2_refl[OF assms(2)] and ans = safe2_answer and par = answer_safe[OF safe_parts[OF assms(2)]]
  show ?thesis
  proof (cases c)
    case (ADD_LISTENER control)
    then show ?thesis using ans[OF Listener_safe[OF assms(2,3)]] assms(4) by simp
  next
    case (ADD_CONNECTION control)
    then show ?thesis using ans[OF CreateTunnel_safe[OF assms(1-3)]] assms(4) by simp
  next
    case (ADD_ROUTE s a len)
    then show ?thesis using safe2_answer0[OF Register_safe[OF assms(2) _ _ assms(6)]] assms(4,5) by simp
  next
    case LIST_ROUTES
    then show ?thesis using RegistrationList_eq[OF ok] same by (simp add: Let_def)
  next
    case (REMOVE_CONNECTION s)
    then show ?thesis using safe2_answer0[OF RemoveTunnel_safe[OF assms(1,2)]] by simp
  next
    case (REMOVE_LISTENER s)
    then show ?thesis using safe2_answer0[OF RemoveListener_safe[OF assms(1,2)]] by simp
  next
    case (REMOVE_ROUTE s a len)
    then show ?thesis using safe2_answer0[OF Unregister_safe[OF assms(2)]] assms(4) by simp
  next
    case (SET_STRATEGY control)
    then show ?thesis using safe_answer0[OF Strategy_safe[OF assms(2)]] assms(4) by simp
  next
    case (SET_WLDR s v)
    then show ?thesis using safe2_answer0[OF SetWldr_safe[OF assms(1,2)]] by simp
  next
    case (MAPME_SEND_UPDATE a len)
    then show ?thesis using safe2_answer0[OF SendUpdate_safe[OF assms(1,2)]] assms(4) by simp
  next
    case (CONNECTION_SET_ADMIN_STATE s v)
    then show ?thesis using safe2_answer0[OF settings_safe(1)[OF assms(1,2)]] by simp
  next
    case (ADD_POLICY a len pol)
    then show ?thesis using safe_answer0[OF policy_safe(1)[OF assms(1,2)]] assms(4) by simp
  next
    case LIST_POLICIES
    then show ?thesis using PolicyList_total[OF ok, of header] same by auto
  next
    case (REMOVE_POLICY a len)
    then show ?thesis using safe2_answer0[OF policy_safe(2)[OF assms(1,2)]] assms(4) by simp
  next
    case (UPDATE_CONNECTION control)
    then show ?thesis using safe2_answer0[OF settings_safe(4)[OF assms(1,2)]] by simp
  next
    case (CONNECTION_SET_PRIORITY s v)
    then show ?thesis using safe2_answer0[OF settings_safe(2)[OF assms(1,2)]] by simp
  next
    case (CONNECTION_SET_TAGS s v)
    then show ?thesis using safe2_answer0[OF settings_safe(3)[OF assms(1,2)]] by simp
  next
    case CACHE_CLEAR
    then show ?thesis using safe2_Inr[of ok entries E 1 fw "(forwarder_ClearCache E fw, utils_CreateAck header Nothing)"] safe_parts[OF assms(2)] by simp
  next
    case (MAPME_ENABLE v)
    then show ?thesis using par assms(4) by (simp add: configuration_MapMeEnable_def)
  next
    case (MAPME_DISCOVERY v)
    then show ?thesis using par assms(4) by (simp add: configuration_MapMeEnable_def)
  qed (simp_all add: same par configurationListeners_AddPunting_def)
qed

text \<open>
  What happens to the control plane: a UDP listener receives a message, a TCP listener accepts a stream, a stream is connected, closed or fails, and the timers of
  the messenger and of the connection manager fire.
\<close>

datatype 'd ctl_event =
    Received ListenerOps AddressPair header_control_message "'d command"
  | Accepted ListenerOps address
  | StreamConnected connid
  | StreamClosed connid
  | MessengerTimer
  | ManagerTimer

fun ctl_step :: "('d, 't, 'l, 'pt, 'ch, 'ct, 'i, 'p, 'o, 'h, 's, 'n, 'm) fw_ops \<Rightarrow> ('d, 't, 'l, 'pt, 'ch, 'ct, 'i, 'p, 'o, 'h, 's, 'n, 'm) forwarder \<Rightarrow> ticks \<times> 'd ctl_event \<Rightarrow> ('d, 't, 'l, 'pt, 'ch, 'ct, 'i, 'p, 'o, 'h, 's, 'n, 'm) forwarder res" where
  "ctl_step E fw (now, Received listener pair header c) = bind_res (udpListener_readCommand E now fw listener pair header c) (\<lambda>(fw, _). Inr fw)"
| "ctl_step E fw (now, Accepted listener remote) = tcpListener_Listen E fw listener remote"
| "ctl_step E fw (now, StreamConnected i) = Inr (case fw_find E fw i of None \<Rightarrow> fw | Some ref \<Rightarrow> conn_connected fw ref)"
| "ctl_step E fw (now, StreamClosed i) = Inr (case fw_find E fw i of None \<Rightarrow> fw | Some ref \<Rightarrow> conn_closed fw ref)"
| "ctl_step E fw (now, MessengerTimer) = Inr (if ms_timer (messenger fw) then forwarder_Deliver fw else fw)"
| "ctl_step E fw (now, ManagerTimer) = (if cm_timer (connectionManager fw) then connectionManager_ProcessQueue E fw else Inr fw)"

fun event_ok :: "('d, 't, 'l, 'pt, 'ch, 'ct, 'i, 'p, 'o, 'h, 's, 'n, 'm) fw_ops \<Rightarrow> ('d, 't, 'l, 'pt, 'ch, 'ct, 'i, 'p, 'o, 'h, 's, 'n, 'm) forwarder \<Rightarrow> 'd ctl_event \<Rightarrow> bool" where
  "event_ok E fw (Received listener pair header c) \<longleftrightarrow>
     (addressType (ap_remote pair) = AT_INET \<or> addressType (ap_remote pair) = AT_INET6) \<and> command_ok (fo_hash E) c \<and> route_name_ok E fw c"
| "event_ok E fw _ \<longleftrightarrow> True"

fun ctl_run_ok :: "('d, 't, 'l, 'pt, 'ch, 'ct, 'i, 'p, 'o, 'h, 's, 'n, 'm) fw_ops \<Rightarrow> ('d, 't, 'l, 'pt, 'ch, 'ct, 'i, 'p, 'o, 'h, 's, 'n, 'm) forwarder \<Rightarrow> (ticks \<times> 'd ctl_event) list \<Rightarrow> bool" where
  "ctl_run_ok E fw [] \<longleftrightarrow> True"
| "ctl_run_ok E fw (x # xs) \<longleftrightarrow> event_ok E fw (snd x) \<and> (case ctl_step E fw x of Inl _ \<Rightarrow> True | Inr fw' \<Rightarrow> ctl_run_ok E fw' xs)"

lemma Received_safe:
  assumes "fw_laws ok entries E" "ctl_inv ok entries E fw" "unat (nextConnectionid fw) + 2 < 2 ^ 32" "event_ok E fw (Received listener pair header c)"
  shows "safe ok entries E 2 fw (ctl_step E fw (now, Received listener pair header c))"
proof (cases "messageType header = REQUEST_LIGHT")
  case True
  have ok: "addressType (ap_remote pair) = AT_INET \<or> addressType (ap_remote pair) = AT_INET6" "command_ok (fo_hash E) c" "route_name_ok E fw c" using assms(4) by auto
  have "\<exists>fw1 i. (case lookupConnection E fw pair of Some ref \<Rightarrow> Inr (fw, connection_GetConnectionId (ct_heap (fw_table fw) ref)) | None \<Rightarrow> createNewConnection E fw listener pair) =
      Inr (fw1, i) \<and> ctl_inv ok entries E fw1 \<and> unat (nextConnectionid fw1) \<le> unat (nextConnectionid fw) + 1 \<and> symbolicNames fw1 = symbolicNames fw \<and>
      insert i (dom (fw_conns E fw)) \<subseteq> dom (fw_conns E fw1)"
  proof (cases "lookupConnection E fw pair")
    case (Some ref)
    then show ?thesis using lookup_found[OF assms(2) Some] assms(2) live_iff[of _ E fw] by auto
  qed (use createNew_safe[OF assms(1,2) _ ok(1), of listener] assms(3) in simp)
  then obtain fw1 i where 1: "(case lookupConnection E fw pair of Some ref \<Rightarrow> Inr (fw, connection_GetConnectionId (ct_heap (fw_table fw) ref)) | None \<Rightarrow> createNewConnection E fw listener pair) =
      Inr (fw1, i)" "ctl_inv ok entries E fw1" "unat (nextConnectionid fw1) \<le> unat (nextConnectionid fw) + 1" "symbolicNames fw1 = symbolicNames fw"
      "insert i (dom (fw_conns E fw)) \<subseteq> dom (fw_conns E fw1)" by (elim exE conjE)
  have "fw_find E fw j \<noteq> None \<Longrightarrow> fw_find E fw1 j \<noteq> None" for j using 1(5) live_iff[of j E fw] live_iff[of j E fw1] by auto
  then have "route_name_ok E fw1 c" using ok(3) 1(4) by (cases c) (auto simp: name_live_def)
  then have "safe2 ok entries E 1 fw1 (configuration_DispatchCommand E now fw1 header c i)"
    using Dispatch_safe[OF assms(1) 1(2) _ ok(2)] 1(3,5) assms(3) by simp
  then obtain fw2 r where "configuration_DispatchCommand E now fw1 header c i = Inr (fw2, r)" "ctl_inv ok entries E fw2" "unat (nextConnectionid fw2) \<le> unat (nextConnectionid fw) + 2"
    using 1(3) by (auto simp: safe2_def)
  then show ?thesis using True 1(1) by (simp add: udpListener_readCommand_def configuration_ReceiveCommand_def safe_def)
qed (use safe_refl[OF assms(2)] in \<open>simp add: udpListener_readCommand_def\<close>)

lemma stream_safe:
  assumes "ctl_inv ok entries E fw" "fw_find E fw i = Some ref"
  shows "safe ok entries E 0 fw (Inr (conn_connected fw ref))" "safe ok entries E 0 fw (Inr (conn_closed fw ref))"
proof -
  have base: "ctl_base ok entries E fw" using assms(1) by (simp add: ctl_inv_def)
  note f = found[OF base assms(2)]
  have put: "safe ok entries E 0 fw (Inr (fw_put_conn fw ref ((ct_heap (fw_table fw) ref)\<lparr>ops := (ops (ct_heap (fw_table fw) ref))\<lparr>io_isUp := u, io_isClosed := v\<rparr>\<rparr>)))" for u v
    by (rule put_conn_safe[OF assms]) (use f in \<open>simp_all add: connection_GetConnectionId_def connection_GetAddressPair_def conn_ok_def\<close>)
  have up: "safe ok entries E 0 fw (Inr (fw_put_conn fw ref ((ct_heap (fw_table fw) ref)\<lparr>ops := (ops (ct_heap (fw_table fw) ref))\<lparr>io_isUp := u\<rparr>\<rparr>)))" for u
    by (rule put_conn_safe[OF assms]) (use f in \<open>simp_all add: connection_GetConnectionId_def connection_GetAddressPair_def conn_ok_def\<close>)
  have send: "safe ok entries E 0 fw (Inr (fw_Send x ty j))" if "safe ok entries E 0 fw (Inr x)" for x ty j
    using that ctl_cong(2,3)[OF Send_parts[of x ty j]] by (simp add: safe_def)
  show "safe ok entries E 0 fw (Inr (conn_connected fw ref))" using safe_refl[OF assms(1)] up send by (simp add: conn_connected_def Let_def)
  show "safe ok entries E 0 fw (Inr (conn_closed fw ref))" using put send by (simp add: conn_closed_def Let_def)
qed

lemma ManagerTimer_safe:
  assumes "fw_laws ok entries E" "ctl_inv ok entries E fw"
  shows "safe ok entries E 0 fw (connectionManager_ProcessQueue E fw)"
proof -
  have "\<exists>fw'. fold_res (connectionManager_Process E) fw (missiveQueue (connectionManager fw)) = Inr fw' \<and>
      (ctl_inv ok entries E fw' \<and> unat (nextConnectionid fw') \<le> unat (nextConnectionid fw))"
  proof (rule fold_res_total)
    fix fw1 m assume "ctl_inv ok entries E fw1 \<and> unat (nextConnectionid fw1) \<le> unat (nextConnectionid fw)"
    with Process_exact[OF assms(1), of fw1 m] show "\<exists>fw'. connectionManager_Process E fw1 m = Inr fw' \<and> ctl_inv ok entries E fw' \<and> unat (nextConnectionid fw') \<le> unat (nextConnectionid fw)"
      by fastforce
  qed (simp add: assms(2))
  then obtain fw' where fw': "fold_res (connectionManager_Process E) fw (missiveQueue (connectionManager fw)) = Inr fw'" "ctl_inv ok entries E fw'"
    "unat (nextConnectionid fw') \<le> unat (nextConnectionid fw)" by (elim exE conjE)
  have "ctl_parts (fw'\<lparr>connectionManager := cm\<rparr>) = ctl_parts fw'" for cm by (simp add: ctl_parts_def)
  from ctl_cong(2)[OF this] show ?thesis using fw' by (simp add: connectionManager_ProcessQueue_def process_queue_eq safe_def)
qed

lemma ctl_step_safe:
  assumes "fw_laws ok entries E" "ctl_inv ok entries E fw" "unat (nextConnectionid fw) + 2 < 2 ^ 32" "event_ok E fw (snd x)"
  shows "safe ok entries E 2 fw (ctl_step E fw x)"
proof -
  obtain now ev where x: "x = (now, ev)" by (cases x)
  have up: "safe ok entries E 2 fw r" if "safe ok entries E n fw r" "n \<le> 2" for n r using safe_mono[OF that] .
  have parts: "ctl_parts (forwarder_Deliver fw) = ctl_parts fw" by (simp add: forwarder_Deliver_def ctl_parts_def split: prod.split)
  show ?thesis
  proof (cases ev)
    case (Received listener pair header c)
    then show ?thesis using Received_safe[OF assms(1-3)] assms(4) by (simp add: x)
  next
    case (Accepted listener remote)
    then show ?thesis using up[OF Listen_safe[OF assms(1,2)]] assms(3) by (simp add: x)
  qed (use up[OF safe_refl[OF assms(2)], of 0] up[OF stream_safe(1)[OF assms(2)]] up[OF stream_safe(2)[OF assms(2)]] up[OF ManagerTimer_safe[OF assms(1,2)]]
      safe_parts[OF assms(2) parts] in \<open>simp_all add: x split: option.split\<close>)
qed

lemma ctl_run_safe:
  assumes "fw_laws ok entries E" "ctl_inv ok entries E fw" "unat (nextConnectionid fw) + 2 * length xs < 2 ^ 32" "ctl_run_ok E fw xs"
  shows "\<exists>fw'. fold_res (ctl_step E) fw xs = Inr fw' \<and> ctl_inv ok entries E fw'"
  using assms(2-4)
proof (induction xs arbitrary: fw)
  case (Cons x xs)
  from ctl_step_safe[OF assms(1) Cons.prems(1), of x] Cons.prems(2,3) obtain fw1 where
    1: "ctl_step E fw x = Inr fw1" "ctl_inv ok entries E fw1" "unat (nextConnectionid fw1) \<le> unat (nextConnectionid fw) + 2" by (auto simp: safe_def)
  have "unat (nextConnectionid fw1) + 2 * length xs < 2 ^ 32" using Cons.prems(2) 1(3) by simp
  from Cons.IH[OF 1(2) this] Cons.prems(3) 1(1) show ?case by simp
qed simp

lemma forwarder_Create_inv:
  assumes "fw_laws ok entries E"
  shows "ctl_inv ok entries E (forwarder_Create E w)"
proof -
  have ct: "ct_ops_ok ok entries (fo_ct E)" and hm: "hm_laws (mo_hm (fw_mm E))" and sn: "sn_laws (fo_names E)" using assms by (simp_all add: fw_laws_def)
  let ?fw = "forwarder_Create E w"
  have parts: "fw_table ?fw = connectionTable_Create (fo_ct E)" "fw_fib ?fw = fs_Create (fo_st E)" "symbolicNames ?fw = symbolicNameTable_Create (fo_names E)"
    "(mapme ?fw)\<lparr>mm_fib := fs_Create (fo_st E)\<rparr> = mapme_create (fw_mm E) (fs_Create (fo_st E)) (connectionTable_Create (fo_ct E)) w"
    by (simp_all add: forwarder_Create_def messageProcessor_Create_def Let_def mapme_create_def)
  note C = connectionTable_Create_inv[OF ct] and S = sn_Create_ok[OF sn] and F = fs_Create_ok[of "fo_st E"]
  have ud: "userData (fs_heap (fs_Create (fo_st E)) e) = None" for e by (simp add: fs_Create_def fibEntry_Create_def)
  have "fib_ok (fs_Create (fo_st E))" using F(1) ud by (simp add: fib_ok_def) (simp add: fs_Create_def fib_Create_def)
  moreover have "mm_inv (fw_mm E) (mapme_create (fw_mm E) (fs_Create (fo_st E)) (connectionTable_Create (fo_ct E)) w)" by (rule mapme_create_inv[OF hm ud])
  ultimately show ?thesis using C S F(3) by (simp add: ctl_inv_def ctl_base_def parts next_hops_def)
qed

section \<open>Stale names\<close>

lemma event_exact:
  assumes "fw_laws ok entries E" "ctl_inv ok entries E fw"
  shows "\<exists>fw'. forwarder_onConnectionEvent E now fw conn = Inr fw' \<and> ctl_inv ok entries E fw' \<and> fw_table fw' = fw_table fw \<and> fs_routes (fw_fib fw') = fs_routes (fw_fib fw) \<and>
    symbolicNames fw' = symbolicNames fw"
proof -
  obtain s where s: "mapme_onConnectionEvent (fw_mm E) now (mapme_enter fw) conn = Inr s" "mm_change (fw_mm E) (mapme_enter fw) s"
    using onConnectionEvent_total[OF enter_ok[OF assms]] by blast
  have "mm_table s = fw_table fw" "same_fib (fw_fib fw) (mm_fib s)" using s(2) by (simp_all add: mm_change_def)
  moreover from this have "fs_routes (mm_fib s) = fs_routes (fw_fib fw)" by (intro same_fibD(6))
  moreover have "ctl_inv ok entries E (mapme_leave fw s)" using leave_ok[OF assms(2) s(2)] by (simp add: safe_def)
  ultimately show ?thesis using s(1) by (intro exI[of _ "mapme_leave fw s"]) (simp add: forwarder_onConnectionEvent_def mapme_leave_def)
qed

text \<open>A connection that removes itself keeps its name.\<close>

lemma SELF_removed:
  assumes "fw_laws ok entries E" "ctl_inv ok entries E fw" "fw_find E fw i = Some ref"
  shows "\<exists>fw'. configuration_ProcessRemoveTunnel E now fw ''SELF'' i = Inr (fw', True) \<and> ctl_inv ok entries E fw' \<and> fw_find E fw' i = None \<and>
    (\<forall>p. fs_routes (fw_fib fw') p = drop_hop i (fs_routes (fw_fib fw) p)) \<and> symbolicNames fw' = symbolicNames fw"
proof -
  let ?fw = "forwarder_RemoveConnectionIdFromRoutes E fw i"
  have base: "ctl_base ok entries E fw" and fib: "fib_ok (fw_fib fw)" using assms(2) by (simp_all add: ctl_inv_def ctl_base_def)
  note R = RemoveConnectionId_change[OF fib, where S = "fo_st E" and c = i]
  have 1: "ctl_base ok entries E ?fw" "fw_find E ?fw i = Some ref" "symbolicNames ?fw = symbolicNames fw" "fw_fib ?fw = messageProcessor_RemoveConnectionIdFromRoutes (fo_st E) (fw_fib fw) i"
    using put_fib_base[OF base R(1)] assms(3) by (simp_all add: forwarder_RemoveConnectionIdFromRoutes_def)
  obtain fw1 where fw1: "fw_Remove E ?fw ref = Inr fw1" "fw_conns E fw1 = (fw_conns E ?fw)(i := None)" "fw_fib fw1 = fw_fib ?fw" "symbolicNames fw1 = symbolicNames ?fw"
    using Remove_base[OF assms(1) 1(1,2)] by (elim exE conjE)
  then have rc: "remove_connection E fw i = Inr fw1" using 1(2) by (simp add: remove_connection_def fw_RemoveById_def)
  then have inv: "ctl_inv ok entries E fw1" using remove_connection_safe[OF assms(1,2), of i] by (simp add: safe_def)
  obtain fw' where fw': "forwarder_onConnectionEvent E now fw1 None = Inr fw'" "ctl_inv ok entries E fw'" "fw_table fw' = fw_table fw1" "fs_routes (fw_fib fw') = fs_routes (fw_fib fw1)"
    "symbolicNames fw' = symbolicNames fw1" using event_exact[OF assms(1) inv, of now None] by (elim exE conjE)
  have "fw_find E fw' i = None" using live_iff[of i E fw1] fw'(3) fw1(2) by simp
  moreover have "fs_routes (fw_fib fw') p = drop_hop i (fs_routes (fw_fib fw) p)" for p
    using RemoveConnectionId_ok(2)[of "fw_fib fw" "fo_st E" i p] fib fw'(4) fw1(3) 1(4) by (simp add: fib_ok_def)
  ultimately show ?thesis using rc fw' fw1(4) 1(3) by (simp add: configuration_ProcessRemoveTunnel_def)
qed

lemma singleton_list: "distinct xs \<Longrightarrow> set xs = {x} \<Longrightarrow> xs = [x]"
  by (cases xs; cases "tl xs") auto

lemma single_entry:
  assumes "fs_inv fs" "dom (fs_routes fs) = {p}"
  shows "\<exists>e. messageProcessor_GetFibEntries fs = [e] \<and> fs_entry fs p = Some e"
proof -
  have d: "dom (fs_entry fs) = {p}" using assms(2) by (auto simp: fs_routes_def dom_def)
  then obtain e where e: "fs_entry fs p = Some e" by blast
  have "fib_used (fib_root (fs_trie fs)) = {e}"
  proof -
    have "x = e" if "fs_entry fs q = Some x" for q x using that d e by (cases "q = p") (auto simp: dom_def)
    then show ?thesis using used_iff[OF assms(1)] e by blast
  qed
  then have "set (messageProcessor_GetFibEntries fs) = {e}" by (simp add: messageProcessor_GetFibEntries_def)
  moreover have "distinct (messageProcessor_GetFibEntries fs)"
    using assms(1) fib_GetEntries_distinct fib_inv_wf by (auto simp: messageProcessor_GetFibEntries_def fs_inv_def)
  ultimately have "messageProcessor_GetFibEntries fs = [e]" by (rule singleton_list[rotated])
  then show ?thesis using e by blast
qed

lemma dangling_aborts:
  assumes "fs_inv (fw_fib fw)" "fs_routes (fw_fib fw) = [p \<mapsto> {i}]" "fw_find E fw i = None"
  shows "forwarder_onConnectionEvent E now fw None = Inl AssertFailed"
proof -
  obtain e where e: "messageProcessor_GetFibEntries (fw_fib fw) = [e]" "fs_entry (fw_fib fw) p = Some e" using single_entry[OF assms(1)] assms(2) by auto
  let ?hops = "nexthops (fs_heap (fw_fib fw) e)"
  have ns: "ns_inv ?hops" by (rule fs_ns[OF assms(1)])
  have s: "ns_set ?hops = {i}" using fun_cong[OF assms(2), of p] e(2) by (simp add: fs_routes_def)
  have items: "ns_items ?hops = [i]" using singleton_list[of "ns_items ?hops" i] ns s by (simp add: ns_inv_def ns_set_def)
  then have "numberSet_Length ?hops = 1" "numberSet_GetItem ?hops 0 = Inr i"
    using Length_items[OF ns] ns_items_index[OF ns] by (simp_all add: numberSet_GetItem_def numberSet_Length_def ns_inv_def)
  then have "mapme_hasLocalNextHops (fw_mm E) (mapme_enter fw) e = Inl AssertFailed"
    using assms(3) by (simp add: mapme_hasLocalNextHops_def mm_entry_def fibEntry_GetNexthops_def fibEntry_NexthopCount_def ct_lookup_def)
  then show ?thesis using e(1) by (simp add: forwarder_onConnectionEvent_def mapme_onConnectionEvent_def mapme_reconsiderFibEntry_def)
qed

section \<open>Closed streams\<close>

definition queues_ok :: "('d, 't, 'l, 'pt, 'ch, 'ct, 'i, 'p, 'o, 'h, 's, 'n, 'm) forwarder \<Rightarrow> bool" where
  "queues_ok fw \<longleftrightarrow> msq.ready (messenger fw) \<and> cmq.ready (connectionManager fw) \<and> callbacklist (messenger fw) = [()]"

lemma Send_queue [simp]:
  "eventQueue (messenger (fw_Send fw ty i)) = eventQueue (messenger fw) @ [missive_Create ty i]" "callbacklist (messenger (fw_Send fw ty i)) = callbacklist (messenger fw)"
  "connectionManager (fw_Send fw ty i) = connectionManager fw" "msq.ready (messenger fw) \<Longrightarrow> msq.ready (messenger (fw_Send fw ty i))"
proof -
  show "callbacklist (messenger (fw_Send fw ty i)) = callbacklist (messenger fw)" by (simp add: fw_Send_def messenger_Send_def Let_def)
qed (simp_all add: fw_Send_def msq.queue_put msq.ready_put)

lemma put_conn_queue [simp]: "messenger (fw_put_conn fw ref c) = messenger fw" "connectionManager (fw_put_conn fw ref c) = connectionManager fw"
  by (simp_all add: fw_put_conn_def fw_put_table_def)

lemma closed_queue:
  assumes "queues_ok fw" "\<not> io_isClosed (ops (ct_heap (fw_table fw) ref))"
  shows "queues_ok (conn_closed fw ref)"
    "missive_Create MissiveType_ConnectionClosed (connection_GetConnectionId (ct_heap (fw_table fw) ref)) \<in> set (eventQueue (messenger (conn_closed fw ref)))"
  using assms by (simp_all add: queues_ok_def conn_closed_def connection_GetConnectionId_def Let_def)

lemma Deliver_queue:
  assumes "queues_ok fw" "m \<in> set (eventQueue (messenger fw))"
  shows "ms_timer (messenger fw)" "m \<in> set (missiveQueue (connectionManager (forwarder_Deliver fw)))" "cm_timer (connectionManager (forwarder_Deliver fw))"
proof -
  show "ms_timer (messenger fw)" using assms by (auto simp: queues_ok_def msq.ready_def)
  have cm: "connectionManager (forwarder_Deliver fw) = foldl connectionManager_MessengerCallback (connectionManager fw) (eventQueue (messenger fw))"
    using assms(1) by (simp add: forwarder_Deliver_def Dequeue_eq queues_ok_def)
  show in_q: "m \<in> set (missiveQueue (connectionManager (forwarder_Deliver fw)))" using assms(2) by (simp add: cm cmq.put_all)
  have "cmq.ready (connectionManager (forwarder_Deliver fw))" using assms(1) by (simp add: cm cmq.put_all queues_ok_def)
  then show "cm_timer (connectionManager (forwarder_Deliver fw))" using in_q by (auto simp: cmq.ready_def)
qed

lemma missives_processed:
  assumes "fw_laws ok entries E" "ctl_inv ok entries E fw"
  shows "\<exists>fw'. fold_res (connectionManager_Process E) fw ms = Inr fw' \<and> ctl_inv ok entries E fw' \<and>
    dom (fw_conns E fw') = dom (fw_conns E fw) - {i. missive_Create MissiveType_ConnectionClosed i \<in> set ms}"
  using assms(2)
proof (induction ms arbitrary: fw)
  case (Cons m ms)
  obtain fw1 where fw1: "connectionManager_Process E fw m = Inr fw1" "ctl_inv ok entries E fw1"
    "dom (fw_conns E fw1) = dom (fw_conns E fw) - (if missive_GetType m = MissiveType_ConnectionClosed then {missive_GetConnectionId m} else {})"
    using Process_exact[OF assms(1) Cons.prems, of m] by (elim exE conjE)
  have "missive_Create MissiveType_ConnectionClosed i = m \<longleftrightarrow> missive_GetType m = MissiveType_ConnectionClosed \<and> i = missive_GetConnectionId m" for i
    by (cases m) (auto simp: missive_Create_def missive_GetType_def missive_GetConnectionId_def)
  then show ?case using Cons.IH[OF fw1(2)] fw1(1,3) by (auto split: if_splits)
qed simp

section \<open>Properties\<close>

text \<open>The container operations, the hash function and the system calls of an example.\<close>

definition ex_fw_ops ::
  "(rat, (connid \<times> rat StrategyNexthopState) list, unit, (Name \<times> nat) list, (Name \<times> nat) list, (tkey \<times> nat) list, (connid \<times> nat) list, (AddressPair \<times> nat) list,
    (connid \<times> nat) list, (connid \<times> nat option) list, (string \<times> u32) list, (u32 \<times> string) list, (string \<times> u32) list) fw_ops" where
  "ex_fw_ops = \<lparr>fo_node = ex_ops, fo_mapme = ex_mm, fo_names = ex_sn_ops, fo_strategies = al_hm, fo_addressString = (\<lambda>_. ''10.0.0.0''), fo_outOfRange = (\<lambda>_. 0),
     fo_isSocketLocal = (\<lambda>_. True), fo_bind = (\<lambda>_ _ _. True), fo_connect = (\<lambda>_. True), fo_socketSend = (\<lambda>_ _. True)\<rparr>"

abbreviation "ex_fw_laws \<equiv> fw_laws (sorted_entries connectionTable_ConnectionIdCompare) id"

lemma ex_fw_laws_ok: "ex_fw_laws ex_fw_ops"
  using ex_ct_ops_ok ex_mm_ok(1) ex_sn_ops_ok by (simp add: fw_laws_def ex_fw_ops_def ex_ops_def)

lemma ex_address_ok: "address_ok (fo_hash ex_fw_ops) (ADDR_INET 0x0A000000) 8"
proof -
  have "nb_valid (nameBitvector_CreateFromInAddr 0x0A000000 8)" by code_simp
  then show ?thesis by (simp add: address_ok_def make_name_def name_bv_def)
qed

definition ex_request :: header_control_message where
  "ex_request = \<lparr>messageType = REQUEST_LIGHT, commandID = 0, hc_length = 1, seqNum = 0\<rparr>"

definition ex_listener :: ListenerOps where
  "ex_listener = \<lparr>ls_id = 0, ls_address = addressFromInaddr4Port [127, 0, 0, 1] [38, 149], ls_encap = ENCAP_UDP, ls_name = ''udp0'', ls_interfaceName = ''lo''\<rparr>"

definition ex_peer :: AddressPair where
  "ex_peer = addressPair_Create (addressFromInaddr4Port [127, 0, 0, 1] [38, 149]) (addressFromInaddr4Port [127, 0, 0, 1] [4, 0])"




lemma accepted:
  assumes "fw_laws ok entries E"
  shows "\<exists>fw ref. tcpListener_Listen E (forwarder_Create E w) tcp remote = Inr fw \<and> ctl_inv ok entries E fw \<and> queues_ok fw \<and> fw_find E fw 1 = Some ref \<and>
    \<not> io_isClosed (ops (ct_heap (fw_table fw) ref)) \<and> fw_fib fw = fs_Create (fo_st E) \<and> symbolicNames fw = symbolicNameTable_Create (fo_names E) \<and> nextConnectionid fw = 2"
proof -
  let ?fw = "forwarder_Create E w"
  obtain fw1 io where io: "streamConnection_AcceptConnection E ?fw (addressPair_Create (ls_address tcp) remote) (fo_isSocketLocal E (ls_address tcp)) = (fw1, io)" by (metis surj_pair)
  have id: "nextConnectionid ?fw = 1" by (simp add: forwarder_Create_def Let_def)
  note m = makes_cases[OF Accept_makes[OF forwarder_Create_inv[OF assms] _ io]]
  have b: "unat (nextConnectionid ?fw) + 1 < 2 ^ 32" by (simp add: id)
  have io_id: "io_connectionId io = 1" "\<not> io_isClosed io" using io id by (auto simp: streamConnection_AcceptConnection_def forwarder_GetNextConnectionId_def fresh_io_def Let_def)
  have q: "queues_ok ?fw" by (simp add: queues_ok_def forwarder_Create_def connectionManager_Create_def Let_def msq.ready_def cmq.ready_def messenger_Create_def
      missiveDeque_Create_def messenger_Register_def removeRecipient_def removeRecipient_at_eq)
  then have q1: "queues_ok fw1" using io by (auto simp: streamConnection_AcceptConnection_def forwarder_GetNextConnectionId_def queues_ok_def Let_def)
  obtain fw where fw: "fw_AddConnection E fw1 (connection_Create io) = Inr fw" "ctl_inv ok entries E fw" "fw_conns E fw = (fw_conns E fw1)(1 \<mapsto> connection_Create io)"
    using add_safe[OF assms m(1)[OF b] m(3)[OF b refl]] io_id(1) by auto
  have "queues_ok fw" using fw(1) q1 by (auto simp: fw_AddConnection_def queues_ok_def fw_put_table_def)
  moreover have "fw_fib fw = fs_Create (fo_st E)" "symbolicNames fw = symbolicNameTable_Create (fo_names E)" "nextConnectionid fw = 2"
    using fw(1) io by (auto simp: fw_AddConnection_def streamConnection_AcceptConnection_def forwarder_GetNextConnectionId_def fw_Send_def forwarder_Create_def messageProcessor_Create_def Let_def)
  moreover obtain ref where "fw_find E fw 1 = Some ref" "ct_heap (fw_table fw) ref = connection_Create io"
    using fun_cong[OF fw(3), of 1] by (auto simp: ct_lookup_def)
  ultimately show ?thesis using fw(1,2) io io_id(2) by (simp add: tcpListener_Listen_def connection_Create_def connection_SetAdminState_def)
qed


text \<open>
  C14. The list of routes is exact: the reply to the command has one row for every next hop of every route, with the prefix of the route, and no other; the memory that is allocated while the
  list is built is enough. The number of rows in the header of the reply is cut to sixteen bits.
\<close>

theorem route_list_exact:
  assumes "fib_ok (fw_fib fw)"
  shows "\<exists>rows. configuration_DispatchCommand E now fw header LIST_ROUTES ingress =
      Inr (fw, header\<lparr>messageType := RESPONSE_LIGHT, hc_length := of_nat (length rows)\<rparr>, RouteList rows) \<and>
    set rows = {list_route (fs_pfx (fw_fib fw) e) c | p e c. fs_entry (fw_fib fw) p = Some e \<and> c \<in> ns_set (nexthops (fs_heap (fw_fib fw) e))} \<and>
    length rows = (\<Sum>e\<in>ran (fs_entry (fw_fib fw)). card (ns_set (nexthops (fs_heap (fw_fib fw) e))))"
proof -
  let ?fs = "fw_fib fw" let ?es = "forwarder_GetFibEntries fw" let ?rows = "concat (map (entry_rows ?fs) ?es)"
  have inv: "fs_inv ?fs" using assms by (simp add: fib_ok_def)
  have es: "set ?es = fib_used (fib_root (fs_trie ?fs))" "distinct ?es"
    using fib_GetEntries_distinct fib_inv_wf inv by (auto simp: forwarder_GetFibEntries_def messageProcessor_GetFibEntries_def fs_inv_def)
  have used: "fib_used (fib_root (fs_trie ?fs)) = ran (fs_entry ?fs)" using used_iff[OF inv] by (auto simp: ran_def)
  have "length (entry_rows ?fs e) = card (ns_set (nexthops (fs_heap ?fs e)))" for e
    using fs_ns[OF inv, of e] by (simp add: entry_rows_def ns_set_def ns_inv_def distinct_card)
  then have "length ?rows = (\<Sum>e\<leftarrow>?es. card (ns_set (nexthops (fs_heap ?fs e))))" by (simp add: length_concat comp_def)
  also have "\<dots> = (\<Sum>e\<in>ran (fs_entry ?fs). card (ns_set (nexthops (fs_heap ?fs e))))" using es used by (simp add: sum_list_distinct_conv_sum_set)
  finally have len: "length ?rows = (\<Sum>e\<in>ran (fs_entry ?fs). card (ns_set (nexthops (fs_heap ?fs e))))" .
  have "set ?rows = {list_route (fs_pfx ?fs e) c | p e c. fs_entry ?fs p = Some e \<and> c \<in> ns_set (nexthops (fs_heap ?fs e))}"
    using es(1) used_iff[OF inv] unfolding entry_rows_def ns_set_def set_concat set_map by fastforce
  then show ?thesis using len by (intro exI[of _ ?rows]) (simp add: RegistrationList_eq[OF assms] list_response_def Let_def)
qed

theorem route_list_exact_witness:
  "\<exists>fs rows. messageProcessor_AddOrUpdateRoute (fo_hash ex_fw_ops) (fo_st ex_fw_ops) SET_STRATEGY_LOADBALANCER (fs_Create (fo_st ex_fw_ops)) (ADDR_INET 0x0A000000) 8 3 = Inr fs \<and>
     configuration_DispatchCommand ex_fw_ops 0 (fw_put_fib (forwarder_Create ex_fw_ops ex_world) fs) ex_request LIST_ROUTES 1 =
       Inr (fw_put_fib (forwarder_Create ex_fw_ops ex_world) fs, ex_request\<lparr>messageType := RESPONSE_LIGHT, hc_length := of_nat (length rows)\<rparr>, RouteList rows) \<and>
     map lr_connid rows = [3]"
proof -
  let ?fw = "forwarder_Create ex_fw_ops ex_world" and ?H = "fo_hash ex_fw_ops" and ?S = "fo_st ex_fw_ops" and ?a = "ADDR_INET 0x0A000000"
  have "ctl_inv (sorted_entries connectionTable_ConnectionIdCompare) id ex_fw_ops ?fw" by (rule forwarder_Create_inv[OF ex_fw_laws_ok])
  then have "fib_ok (fs_Create ?S)" by (simp add: ctl_inv_def ctl_base_def forwarder_Create_def messageProcessor_Create_def Let_def)
  then obtain fs where fs: "messageProcessor_AddOrUpdateRoute ?H ?S SET_STRATEGY_LOADBALANCER (fs_Create ?S) ?a 8 3 = Inr fs" "fib_ok fs"
    using AddOrUpdateRoute_change[OF _ ex_address_ok, of "fs_Create ?S" ?S SET_STRATEGY_LOADBALANCER 3] by (auto simp: fib_change_def)
  have routes: "fs_routes fs = [address_bits ?H ?a 8 \<mapsto> {3}]"
    using route_step_ok[OF fs_Create_ok(1,2)[of ?S], of ?H "AddRoute ?a 8 3" ?S] fs(1) ex_address_ok by (simp add: fs_Create_ok(3) add_hop_def)
  then obtain e where e: "fs_entry fs (address_bits ?H ?a 8) = Some e" "messageProcessor_GetFibEntries fs = [e]" using single_entry[of fs] fs(2) by (auto simp: fib_ok_def)
  have hops: "ns_set (nexthops (fs_heap fs e)) = {3}" using fun_cong[OF routes, of "address_bits ?H ?a 8"] e(1) by (simp add: fs_routes_def)
  have ran: "ran (fs_entry fs) = {e}" using used_iff[of fs] fs(2) e(2) set_fib_GetEntries[of "fs_trie fs"] by (auto simp: ran_def fib_ok_def messageProcessor_GetFibEntries_def)
  have "fib_ok (fw_fib (fw_put_fib ?fw fs))" using fs(2) by simp
  from route_list_exact[OF this, of ex_fw_ops 0 ex_request 1] obtain rows where
    rows: "configuration_DispatchCommand ex_fw_ops 0 (fw_put_fib ?fw fs) ex_request LIST_ROUTES 1 =
       Inr (fw_put_fib ?fw fs, ex_request\<lparr>messageType := RESPONSE_LIGHT, hc_length := of_nat (length rows)\<rparr>, RouteList rows)"
    "set rows = {list_route (fs_pfx fs e) c | p e c. fs_entry fs p = Some e \<and> c \<in> ns_set (nexthops (fs_heap fs e))}" "length rows = 1"
    by (auto simp: ran hops)
  have only: "x = e" if "fs_entry fs p = Some x" for p x using ranI[of "fs_entry fs", OF that] ran by simp
  have "lr_connid r = 3" if "r \<in> set rows" for r using that hops only unfolding rows(2) by (auto simp: list_route_def)
  then have "map lr_connid rows = [3]" using rows(3) by (cases rows) auto
  then show ?thesis using fs(1) rows(1) by (intro exI[of _ fs] exI[of _ rows] conjI)
qed

text \<open>
  C15. A connection that removes itself leaves its symbolic name behind, and a route added under the name aborts the daemon. Where the connection \<open>i\<close>, known as \<open>s\<close>, removes itself
  while there are no routes, the removal and a later command that adds a route under \<open>s\<close> are both acknowledged; the next hop of the new route is the connection that is gone,
  and the next event of a connection fails an assertion of MAP-Me.
\<close>

theorem stale_name_aborts:
  assumes "fw_laws ok entries E" "ctl_inv ok entries E fw" "fs_routes (fw_fib fw) = Map.empty" "fw_find E fw i = Some ref" "address_ok (fo_hash E) a len"
    "\<not> utils_IsNumber s" "s \<noteq> ''SELF''" "fw_name_Get E fw s = i" "i \<noteq> UINT32_MAX"
  shows "\<exists>fw1 fw2. configuration_DispatchCommand E t1 fw header (REMOVE_CONNECTION ''SELF'') i = Inr (fw1, ack_or_nack True header (REMOVE_CONNECTION ''SELF'')) \<and>
    configuration_DispatchCommand E t2 fw1 header' (ADD_ROUTE s a len) j = Inr (fw2, ack_or_nack True header' (ADD_ROUTE s a len)) \<and>
    fw_find E fw2 i = None \<and> fs_routes (fw_fib fw2) = [address_bits (fo_hash E) a len \<mapsto> {i}] \<and> forwarder_onConnectionEvent E t3 fw2 None = Inl AssertFailed"
proof -
  obtain fw1 where fw1: "configuration_ProcessRemoveTunnel E t1 fw ''SELF'' i = Inr (fw1, True)" "ctl_inv ok entries E fw1" "fw_find E fw1 i = None"
    "\<forall>p. fs_routes (fw_fib fw1) p = drop_hop i (fs_routes (fw_fib fw) p)" "symbolicNames fw1 = symbolicNames fw" using SELF_removed[OF assms(1,2,4), of t1] by (elim exE conjE)
  have none: "fs_routes (fw_fib fw1) = Map.empty" using fw1(4) assms(3) by (simp add: drop_hop_def fun_eq_iff)
  have inv: "fs_inv (fw_fib fw1)" using fw1(2) by (simp add: ctl_inv_def ctl_base_def fib_ok_def)
  obtain n where n: "name_CreateFromAddress (fo_hash E) a len = Inr n" "nb_valid (name_bv n)" "address_bits (fo_hash E) a len = nb_bits (name_bv n)" using address_okD[OF assms(5)] by blast
  let ?st = "strategy_of_number (configuration_GetForwardingStrategy E fw1 (utils_PrefixLenToString E a len))"
  obtain fs where fs: "messageProcessor_AddOrUpdateRoute (fo_hash E) (fo_st E) ?st (fw_fib fw1) a len i = Inr fs" "fs_inv fs"
    "fs_routes fs = (fs_routes (fw_fib fw1))(nb_bits (name_bv n) := add_hop i (fs_routes (fw_fib fw1) (nb_bits (name_bv n))))"
    using AddOrUpdateRoute_ok[OF inv n(1,2), of "fo_st E" ?st i] by (elim exE conjE)
  let ?fw2 = "fw_put_fib fw1 fs"
  have r2: "fs_routes (fw_fib ?fw2) = [address_bits (fo_hash E) a len \<mapsto> {i}]" using fs(3) n(3) none by (simp add: add_hop_def)
  have f2: "fw_find E ?fw2 i = None" using fw1(3) by simp
  have "fw_name_Get E fw1 s = i" using assms(8) fw1(5) by simp
  then have "configuration_DispatchCommand E t2 fw1 header' (ADD_ROUTE s a len) j = Inr (?fw2, ack_or_nack True header' (ADD_ROUTE s a len))"
    using assms(6,7,9) fs(1) by (simp add: configuration_ProcessRegisterHicnPrefix_def forwarder_AddOrUpdateRoute_def answer_def Let_def)
  moreover have "forwarder_onConnectionEvent E t3 ?fw2 None = Inl AssertFailed" by (rule dangling_aborts[OF _ r2 f2]) (simp add: fs(2))
  ultimately show ?thesis using fw1(1) r2 f2 by (intro exI[of _ fw1] exI[of _ ?fw2]) (simp add: answer_def)
qed

theorem stale_name_aborts_witness:
  "\<exists>fw fw1 fw2. configuration_DispatchCommand ex_fw_ops 1 fw ex_request (REMOVE_CONNECTION ''SELF'') 1 = Inr (fw1, ack_or_nack True ex_request (REMOVE_CONNECTION ''SELF'')) \<and>
     configuration_DispatchCommand ex_fw_ops 2 fw1 ex_request (ADD_ROUTE ''conn1'' (ADDR_INET 0x0A000000) 8) 2 =
       Inr (fw2, ack_or_nack True ex_request (ADD_ROUTE ''conn1'' (ADDR_INET 0x0A000000) 8)) \<and>
     forwarder_onConnectionEvent ex_fw_ops 3 fw2 None = Inl AssertFailed"
proof -
  let ?E = ex_fw_ops
  obtain fw ref where fw: "ctl_inv (sorted_entries connectionTable_ConnectionIdCompare) id ?E fw" "fw_find ?E fw 1 = Some ref" "fw_fib fw = fs_Create (fo_st ?E)"
    "symbolicNames fw = symbolicNameTable_Create (fo_names ?E)" "nextConnectionid fw = 2"
    using accepted[OF ex_fw_laws_ok, of ex_world ex_listener "ap_remote ex_peer"] by (elim exE conjE)
  have sn: "sn_laws (fo_names ?E)" using ex_sn_ops_ok by (simp add: ex_fw_ops_def)
  note C = sn_Create_ok[OF sn]
  obtain names where names: "symbolicNameTable_Add (fo_names ?E) (symbolicNames fw) ''conn1'' 1 = Inr (names, True)" "sn_inv (fo_names ?E) names"
    "sn_map (fo_names ?E) names = [createKey ''conn1'' \<mapsto> 1]" using sn_Add_ok(3)[OF sn C(1), of 1 "''conn1''"] C(2) fw(4) by auto
  have "\<exists>names b. symbolicNameTable_Add (fo_names ?E) (symbolicNames fw) ''conn1'' 1 = Inr (names, b) \<and>
      ctl_inv (sorted_entries connectionTable_ConnectionIdCompare) id ?E (fw\<lparr>symbolicNames := names\<rparr>)"
    by (rule AddName_safe[OF ex_fw_laws_ok fw(1)]) (use C sn_queries(2)[OF C(1)] fw(4,5) in simp_all)
  then have inv: "ctl_inv (sorted_entries connectionTable_ConnectionIdCompare) id ?E (fw\<lparr>symbolicNames := names\<rparr>)" using names(1) by auto
  have "fw_name_Get ?E (fw\<lparr>symbolicNames := names\<rparr>) ''conn1'' = 1" using sn_queries(1)[OF names(2)] names(3) by simp
  moreover have "\<not> utils_IsNumber ''conn1''" by code_simp
  ultimately obtain fw1 fw2 where
    "configuration_DispatchCommand ?E 1 (fw\<lparr>symbolicNames := names\<rparr>) ex_request (REMOVE_CONNECTION ''SELF'') 1 = Inr (fw1, ack_or_nack True ex_request (REMOVE_CONNECTION ''SELF''))"
    "configuration_DispatchCommand ?E 2 fw1 ex_request (ADD_ROUTE ''conn1'' (ADDR_INET 0x0A000000) 8) 2 =
       Inr (fw2, ack_or_nack True ex_request (ADD_ROUTE ''conn1'' (ADDR_INET 0x0A000000) 8))" "forwarder_onConnectionEvent ?E 3 fw2 None = Inl AssertFailed"
    using stale_name_aborts[OF ex_fw_laws_ok inv _ _ ex_address_ok, of 1 ref "''conn1''" 1 ex_request 2 ex_request 2 3] fw(2,3) fs_Create_ok(3)[of "fo_st ?E"]
    by (auto simp del: configuration_DispatchCommand.simps)
  then show ?thesis by blast
qed

end
