(* ===== verification/Spec2Isabelle.thy ===== *)
theory Spec2Isabelle
  imports Prelude NameBitvector NumberSet Packet Message Connection Fib Libparc ConnectionTable Pit ContentStore
    Strategies FibEntry Routes Processor Forwarding Headers IpHeaders TransportHeaders Compat LibNames MapmePackets
    Mapme MapmeTimers MapmeUpdates LowLatency LowLatencySelection LowLatencyRuns
    Messenger SymbolicNames Forwarder Configuration ControlFib Control ControlRuns
begin

text \<open>
  A verification library for the forwarder of hICN (\<^verbatim>\<open>src/hicn-light\<close>), a network node that forwards
  requests for named data, and for the packet library under it (\<^verbatim>\<open>src/lib\<close>). Paths below are relative to \<^verbatim>\<open>src/hicn-light/src/hicn\<close> unless they start with \<^verbatim>\<open>lib/\<close>.

  \<^bold>\<open>The program.\<close> Packets are IPv4 or IPv6 packets with a TCP header whose addresses carry a name and
  whose ports carry a segment. An interest asks for a name, a data message answers it. The message
  processor looks up every interest in the pending interest table (PIT), which merges
  interests for one name, then in the content store, then in the forwarding information base
  (FIB), a binary trie of name prefixes whose entries have next hops, a policy and a forwarding
  strategy. Data follows the pending interests back. Connections carry the packets and may
  run a loss recovery protocol for wireless links (WLDR). When a producer moves, MAP-Me sends updates through
  the network that redirect the next hops of its prefixes. Control messages, which arrive on connections like packets do, add and remove
  listeners, connections, routes, strategies and policies; connections that close are announced by missives, which the connection manager
  reads from a queue and acts on.

  \<^bold>\<open>Theories and sources.\<close>
  \<^item> \<open>Prelude\<close>: aborts (failed assertions, traps, null pointers) as values of a sum type, and shared lemmas.
  \<^item> \<open>NameBitvector\<close>, \<^verbatim>\<open>core/nameBitvector.c\<close>: names as 128-bit vectors; the bit strings they stand for;
    common prefixes, comparison, conversion from and to addresses.
  \<^item> \<open>NumberSet\<close>, \<^verbatim>\<open>core/numberSet.c\<close>: sets of connection identifiers in growing arrays; a locale of what
    clients rely on, interpreted on the array.
  \<^item> \<open>Packet\<close>, \<^verbatim>\<open>core/messageHandler.h\<close>, \<^verbatim>\<open>lib/src/protocol/tcp.c\<close>, \<^verbatim>\<open>lib/src/compat.c\<close>: header fields on lists of bytes,
    incremental checksums, scaled lifetimes, labels, probes.
  \<^item> \<open>Message\<close>, \<^verbatim>\<open>core/name.c\<close>, \<^verbatim>\<open>core/message.c\<close>: names with their hashes and messages with their metadata.
  \<^item> \<open>Connection\<close>, \<^verbatim>\<open>core/connection.c\<close>, \<^verbatim>\<open>core/wldr.c\<close>: connections over a store of messages and a log of what
    was sent (\<open>world\<close>); loss detection and recovery.
  \<^item> \<open>Libparc\<close>: the interfaces of the hash tables, trees and maps of the external library libparc, as
    records of operations with laws as predicates, and association lists as instances.
  \<^item> \<open>ConnectionTable\<close>, \<^verbatim>\<open>core/connectionTable.c\<close>: three indexes over a heap of connections.
  \<^item> \<open>Pit\<close>, \<^verbatim>\<open>processor/pitStandard.c\<close>, \<^verbatim>\<open>processor/pitEntry.c\<close>; \<open>ContentStore\<close>, \<^verbatim>\<open>content_store/*.c\<close>: tables over heaps of entries.
  \<^item> \<open>Fib\<close>, \<^verbatim>\<open>processor/fib.c\<close>: the trie, for entries that are references with a prefix each.
  \<^item> \<open>Strategies\<close>, \<^verbatim>\<open>strategies/*.c\<close>: load balancer and random strategy behind one interface (a locale).
  \<^item> \<open>LowLatency\<close>, \<^verbatim>\<open>strategies/lowLatency.c\<close>, \<^verbatim>\<open>strategies/nexthopStateLowLatency.c\<close>: the strategy that probes its next hops;
    \<open>LowLatencySelection\<close>: its invariant and its choice of next hops; \<open>LowLatencyRuns\<close>: its probes, runs and failures.
  \<^item> \<open>FibEntry\<close>, \<^verbatim>\<open>processor/fibEntry.c\<close>: choice of next hops under a policy, statistics.
  \<^item> \<open>Routes\<close>, \<^verbatim>\<open>processor/fib.c\<close>, \<^verbatim>\<open>processor/messageProcessor.c\<close>: the FIB with its entries on a heap, and the routing commands.
  \<^item> \<open>Processor\<close>, \<^verbatim>\<open>processor/messageProcessor.c\<close>: reception and forwarding; \<open>Forwarding\<close>: the lemmas about a whole node.
  \<^item> \<open>Headers\<close>, \<open>IpHeaders\<close>, \<open>TransportHeaders\<close>, \<^verbatim>\<open>lib/src/ops.c\<close>, \<^verbatim>\<open>lib/src/protocol/*.c\<close>: the operations of the packet library on IPv4,
    IPv6, TCP, ICMP and AH headers, dispatched over the layers of a packet by a table of functions.
  \<^item> \<open>Compat\<close>, \<^verbatim>\<open>lib/src/compat.c\<close>: formats, checksums, names, payloads, flags and signatures of a packet.
  \<^item> \<open>LibNames\<close>, \<^verbatim>\<open>lib/src/name.c\<close>, \<^verbatim>\<open>lib/src/common.c\<close>, \<^verbatim>\<open>lib/src/util/ip_address.c\<close>: names, hashes, addresses and prefixes.
  \<^item> \<open>MapmePackets\<close>, \<^verbatim>\<open>lib/src/mapme.c\<close>: the packets of MAP-Me.
  \<^item> \<open>Mapme\<close>, \<^verbatim>\<open>core/mapme.c\<close>: MAP-Me itself; \<open>MapmeTimers\<close>: its invariant, its runs and the end of retransmissions;
    \<open>MapmeUpdates\<close>: the effect of updates and acknowledgements.
  \<^item> \<open>Messenger\<close>, \<^verbatim>\<open>messenger/*.c\<close>, \<^verbatim>\<open>core/connectionManager.c\<close>: the two queues of missives and their timers, as two interpretations of one locale
    of deferred queues.
  \<^item> \<open>SymbolicNames\<close>, \<^verbatim>\<open>config/symbolicNameTable.c\<close>, \<^verbatim>\<open>utils/utils.c\<close>: names of connections.
  \<^item> \<open>Forwarder\<close>, \<^verbatim>\<open>core/forwarder.c\<close>, \<^verbatim>\<open>io/listenerSet.c\<close> and the other files of \<^verbatim>\<open>io\<close>: the state that joins all components, and how
    listeners and connections come into being and go away.
  \<^item> \<open>Configuration\<close>, \<^verbatim>\<open>config/configuration.c\<close>, \<^verbatim>\<open>config/configurationListeners.c\<close>, \<^verbatim>\<open>utils/commands.h\<close>: every control command, its dispatch
    and its response.
  \<^item> \<open>ControlFib\<close>: what commands and MAP-Me do to the FIB; \<open>Control\<close>: the invariant of the forwarder and that every command keeps it;
    \<open>ControlRuns\<close>: sequences of commands, events of streams and timers.

  \<^bold>\<open>Correspondence.\<close> A struct is a record with the names of its members; an operation has the name of
  the C function (a leading underscore is dropped) and returns the changed state. Machine integers are
  words, identifiers of connections and ticks are 32 and 64 bits wide and wrap. Objects reached through pointers
  live in explicit heaps (maps from references) where sharing matters: messages, connections, PIT entries,
  cache entries, FIB entries. Every assertion, trap and null dereference is an \<open>Inl\<close> result, so a theorem whose conclusion is \<open>Inr\<close>
  says that the code does not abort. Loops are recursive functions that terminate; nothing uses fuel.
  Parameters of the model are the libraries that are not in the repository: the hash function and
  containers of libparc, the clock, the random numbers, the event library, the conversion of addresses from and to text,
  and floating-point arithmetic (with the rationals as an instance). Container laws are stated in \<open>Libparc\<close> and hold for the instances there.

  \<^bold>\<open>What is shown.\<close>
  \<^item> Containers and tables refine their specifications: number sets are finite sets, the trie is a map with longest-prefix
    match, the PIT is a map from names to requesters and expiry, the content store is an LRU cache with expiry,
    the connection table is a map, the routing commands act on a map from prefixes to next hops.
  \<^item> Choices are right: the nine loops over next hops equal a short reference definition and
    respect the policy; the load balancer selects in proportion to its weights.
  \<^item> The whole node: it never aborts on well-formed messages, data reaches exactly those who asked, an
    interest goes to at most one permitted next hop, and an interest is answered by later data end to end.
  \<^item> Packets: label rewriting keeps the checksum, lifetimes survive their encoding up to the
    stated error; WLDR stays quiet on lossless links and retransmits exactly the gap on others.
  \<^item> The packet library: names, payloads and signature fields are read as they were written and no other byte changes;
    IPv6 checksums are accepted and detect damage; prefixes survive printing and parsing; a name of two buffers and
    its copy are interchangeable.
  \<^item> MAP-Me: timers never dangle, retransmissions end, an update moves exactly the route of its prefix and is passed on to the
    old next hops, an acknowledgement made by another node ends the retransmission, a producer announces
    itself to exactly the connections it should.
  \<^item> The low-latency strategy, for every floating-point arithmetic: it picks at most one available next hop, and its runs are safe
    as long as no next hop is removed.
  \<^item> The control plane: no sequence of well-formed commands, streams and timers aborts the forwarder or leaves a route to a connection that is gone, as long as
    no route is added under the name of a connection that is gone, which does abort it; a closed stream is forgotten once the timers have fired; missives are processed
    in the order they were sent; symbolic names are an injective map; the list of routes is complete and fits its memory.
  \<^item> Some theorems show how the code misbehaves in corner cases.

  \<^bold>\<open>Bounds and assumptions.\<close> The theorems on a whole node (\<open>node_ok\<close>, \<open>plain_links\<close>) are for connections without WLDR and
  entries with the load balancer or the random strategy (the low-latency strategy is a parameter of the dispatch), and for messages that are in memory. They assume of a
  received message that it was given a valid name and that its ingress connection is in the table.

  The theorems on MAP-Me are for IPv6 prefixes and a hash map that obeys its laws; those on the effect of updates are for
  an event library that accepts the timers, while the invariant and the bound on retransmissions do without it.

  The runs of the control plane are shorter than \<open>2 ^ 31\<close> events, each of which creates at most two identifiers, so that the 32-bit identifiers of connections do not wrap around.
  They contain control messages on UDP listeners, accepted, connected and closed streams and the timers of messenger and manager; data packets and the timers of
  MAP-Me have their own theorems and are not part of these runs. A command is well formed when its prefix has a valid length, its enumerations are in range and its strategy
  command names at most ten prefixes (\<open>command_ok\<close>).

  \<^bold>\<open>Not modelled.\<close> Reference counts that the PIT, the content store and the
  processor hold on messages; logging and printing; the bytes read from and written to sockets and the event loop; the parser of the control program, which
  turns text into commands; builds with \<^verbatim>\<open>PUNTING\<close>, which have listeners for bare hICN packets. \<open>removeNode\<close> is that of a build without MAP-Me. Outside
  \<^verbatim>\<open>hicn-light\<close> and \<^verbatim>\<open>lib\<close>: the VPP plugin, whose graph nodes are written against the frames, buffers and FIB of another program, the transport library in C++,
  the face manager and the control tools, whose logic is that of the libraries and operating-system events they react to.

  \<^bold>\<open>Order.\<close> The data plane came first (containers, tables, strategies, processor), then the packet library and MAP-Me, then the low-latency strategy and the control plane.
  What would come next are the parser of commands, whole runs that mix packets with commands, and the face manager.
\<close>

end
